(* ===== verification/Prelude.thy ===== *)
theory Prelude
  imports Main "HOL-Library.Char_ord" "HOL-Library.List_Lexorder" "HOL-Library.Product_Lexorder"
    "HOL-Library.AList" "HOL-Library.Word" "HOL-Library.Sublist"
begin

text \<open>
  The shared vocabulary of the development: the Python values the backend passes around, the
  \<^verbatim>\<open>str\<close> operations it calls, insertion-ordered dictionaries, identifiers, results that
  may be errors, and the interface of a component that keeps an invariant.

  \<^item> A Python \<^verbatim>\<open>str\<close> is a \<open>string\<close>: a list of code points. HOL's \<open>char\<close> has the code
    points 0 to 255, and on these the operations below agree with Python's (white space, case
    folding, UTF-8 length); text with code points above 255 is outside the model.
  \<^item> A decoded JSON value is a \<open>json\<close>; numbers with a fraction are outside the model.
  \<^item> A \<^verbatim>\<open>dict\<close> whose order matters is an association list updated by \<open>AList.update\<close>, which
    keeps the place of an existing key and appends a new one, as a Python dict does.
  \<^item> A \<^verbatim>\<open>UUID\<close> is a 128-bit word; \<^verbatim>\<open>new_uuid7()\<close> and \<^verbatim>\<open>datetime.now()\<close> are arguments.
\<close>

named_theorems py_simps \<open>evaluation of the modelled Python primitives\<close>
named_theorems result_simps \<open>propagation of errors through results\<close>

section \<open>Results\<close>

text \<open>A call that may raise returns \<open>Inl\<close> of the error; \<open>rbind\<close> runs the rest of the caller.\<close>

fun rbind :: "'e + 'a \<Rightarrow> ('a \<Rightarrow> 'e + 'b) \<Rightarrow> 'e + 'b" where
  "rbind (Inl e) f = Inl e"
| "rbind (Inr x) f = f x"

declare rbind.simps [result_simps]

lemma rbind_eq_Inr [result_simps]: "rbind r f = Inr y \<longleftrightarrow> (\<exists>x. r = Inr x \<and> f x = Inr y)"
  by (cases r) auto

lemma rbind_eq_Inl [result_simps]:
  "rbind r f = Inl e \<longleftrightarrow> r = Inl e \<or> (\<exists>x. r = Inr x \<and> f x = Inl e)"
  by (cases r) auto

section \<open>Values\<close>

datatype json = JNull | JBool bool | JInt int | JStr string | JList "json list"
  | JObj "(string \<times> json) list"

fun truthy :: "json \<Rightarrow> bool" where
  "truthy JNull = False"
| "truthy (JBool b) = b"
| "truthy (JInt i) = (i \<noteq> 0)"
| "truthy (JStr s) = (s \<noteq> [])"
| "truthy (JList xs) = (xs \<noteq> [])"
| "truthy (JObj d) = (d \<noteq> [])"

definition py_or :: "json \<Rightarrow> json \<Rightarrow> json" where
  "py_or a b = (if truthy a then a else b)"

definition obj_get :: "(string \<times> json) list \<Rightarrow> string \<Rightarrow> json" where
  "obj_get d k = (case map_of d k of None \<Rightarrow> JNull | Some v \<Rightarrow> v)"

definition obj_get_default :: "(string \<times> json) list \<Rightarrow> string \<Rightarrow> json \<Rightarrow> json" where
  "obj_get_default d k v = (case map_of d k of None \<Rightarrow> v | Some w \<Rightarrow> w)"

section \<open>Strings\<close>

definition code_point :: "char \<Rightarrow> nat" where
  "code_point c = of_char c"

definition char_at_code :: "nat \<Rightarrow> char" where
  "char_at_code n = char_of n"

lemma code_point_char_at_code [simp]: "n < 256 \<Longrightarrow> code_point (char_at_code n) = n"
  by (simp add: code_point_def char_at_code_def)

lemma char_at_code_code_point [simp]: "char_at_code (code_point c) = c"
  by (simp add: code_point_def char_at_code_def)

lemma code_point_less [simp]: "code_point c < 256"
  by (simp add: code_point_def)

lemma code_point_inject [simp]: "code_point c = code_point d \<longleftrightarrow> c = d"
  by (simp add: code_point_def)

text \<open>\<^verbatim>\<open>str.isspace\<close> on one character, and the digits and lower-case letters of the id patterns.\<close>

definition is_space :: "char \<Rightarrow> bool" where
  "is_space c = (let n = code_point c in
     (9 \<le> n \<and> n \<le> 13) \<or> (28 \<le> n \<and> n \<le> 32) \<or> n = 133 \<or> n = 160)"

definition is_digit :: "char \<Rightarrow> bool" where
  "is_digit c = (let n = code_point c in 48 \<le> n \<and> n \<le> 57)"

definition is_lower_ascii :: "char \<Rightarrow> bool" where
  "is_lower_ascii c = (let n = code_point c in 97 \<le> n \<and> n \<le> 122)"

definition strip_by :: "(char \<Rightarrow> bool) \<Rightarrow> string \<Rightarrow> string" where
  "strip_by p s = rev (dropWhile p (rev (dropWhile p s)))"

definition rstrip_by :: "(char \<Rightarrow> bool) \<Rightarrow> string \<Rightarrow> string" where
  "rstrip_by p s = rev (dropWhile p (rev s))"

definition py_strip :: "string \<Rightarrow> string" where
  "py_strip s = strip_by is_space s"

definition lower_char :: "char \<Rightarrow> char" where
  "lower_char c = (let n = code_point c in
     if (65 \<le> n \<and> n \<le> 90) \<or> (192 \<le> n \<and> n \<le> 222 \<and> n \<noteq> 215)
     then char_at_code (n + 32) else c)"

definition py_lower :: "string \<Rightarrow> string" where
  "py_lower s = map lower_char s"

definition replace_char :: "char \<Rightarrow> char \<Rightarrow> string \<Rightarrow> string" where
  "replace_char a b s = map (\<lambda>c. if c = a then b else c) s"

text \<open>\<^verbatim>\<open>s.replace(old, new)\<close> for a non-empty \<open>old = o # os\<close>: left to right, without overlap.\<close>

fun replace_sub :: "char \<Rightarrow> string \<Rightarrow> string \<Rightarrow> string \<Rightarrow> string" where
  "replace_sub o1 os new [] = []"
| "replace_sub o1 os new (c # cs) =
     (if c = o1 \<and> take (length os) cs = os
      then new @ replace_sub o1 os new (drop (length os) cs)
      else c # replace_sub o1 os new cs)"

fun split_on :: "char \<Rightarrow> string \<Rightarrow> string list" where
  "split_on d [] = [[]]"
| "split_on d (c # cs) =
     (if c = d then [] # split_on d cs
      else (case split_on d cs of [] \<Rightarrow> [[c]] | p # ps \<Rightarrow> (c # p) # ps))"

fun join_with :: "string \<Rightarrow> string list \<Rightarrow> string" where
  "join_with sep [] = []"
| "join_with sep [p] = p"
| "join_with sep (p # q # ps) = p @ sep @ join_with sep (q # ps)"

definition starts_with :: "string \<Rightarrow> string \<Rightarrow> bool" where
  "starts_with p s = (take (length p) s = p)"

definition ends_with :: "string \<Rightarrow> string \<Rightarrow> bool" where
  "ends_with p s = (length p \<le> length s \<and> drop (length s - length p) s = p)"

fun contains_sub :: "string \<Rightarrow> string \<Rightarrow> bool" where
  "contains_sub p [] = (p = [])"
| "contains_sub p (c # cs) = (starts_with p (c # cs) \<or> contains_sub p cs)"

text \<open>\<^verbatim>\<open>^[a-z0-9][a-z0-9-]{0,n}$\<close> with \<^verbatim>\<open>fullmatch\<close>, for the id patterns of the TODO (\<open>n = 63\<close>)
  and document (\<open>n = 95\<close>) services.\<close>

definition slug_pattern :: "nat \<Rightarrow> string \<Rightarrow> bool" where
  "slug_pattern n s =
     (case s of [] \<Rightarrow> False
      | c # cs \<Rightarrow> (is_lower_ascii c \<or> is_digit c) \<and> length cs \<le> n \<and>
          list_all (\<lambda>d. is_lower_ascii d \<or> is_digit d \<or> d = CHR ''-'') cs)"

abbreviation newline :: char where
  "newline \<equiv> CHR 0x0A"

subsection \<open>Decimal numerals\<close>

definition digit_char :: "nat \<Rightarrow> char" where
  "digit_char d = char_at_code (48 + d)"

fun show_nat :: "nat \<Rightarrow> string" where
  "show_nat n = (if n < 10 then [digit_char n] else show_nat (n div 10) @ [digit_char (n mod 10)])"

declare show_nat.simps [simp del]

definition show_int :: "int \<Rightarrow> string" where
  "show_int i = (if i < 0 then CHR ''-'' # show_nat (nat (- i)) else show_nat (nat i))"

definition digit_value :: "char \<Rightarrow> nat" where
  "digit_value c = code_point c - 48"

definition read_nat :: "string \<Rightarrow> nat" where
  "read_nat s = foldl (\<lambda>n c. 10 * n + digit_value c) 0 s"

text \<open>
  \<^verbatim>\<open>int(s)\<close> on a string: white space around, one sign, digits with single underscores between
  them; anything else raises \<^verbatim>\<open>ValueError\<close>, here \<open>None\<close>.
\<close>

fun digits_ok :: "string \<Rightarrow> bool" where
  "digits_ok [] = False"
| "digits_ok [c] = is_digit c"
| "digits_ok (c # d # cs) =
     (is_digit c \<and> (if d = CHR ''_'' then digits_ok cs else digits_ok (d # cs)))"

definition parse_int :: "string \<Rightarrow> int option" where
  "parse_int s =
     (case py_strip s of
        [] \<Rightarrow> None
      | c # cs \<Rightarrow>
          (let neg = (c = CHR ''-'');
               ds = (if c = CHR ''-'' \<or> c = CHR ''+'' then cs else c # cs)
           in if digits_ok ds
              then Some (let n = int (read_nat (filter (\<lambda>x. x \<noteq> CHR ''_'') ds)) in if neg then - n else n)
              else None))"

subsection \<open>\<^verbatim>\<open>str(value)\<close>\<close>

definition hex_char :: "nat \<Rightarrow> char" where
  "hex_char d = (if d < 10 then char_at_code (48 + d) else char_at_code (87 + d))"

definition is_printable :: "char \<Rightarrow> bool" where
  "is_printable c = (let n = code_point c in (32 \<le> n \<and> n \<le> 126) \<or> (161 \<le> n \<and> n \<noteq> 173))"

definition repr_char :: "char \<Rightarrow> char \<Rightarrow> string" where
  "repr_char q c =
     (if c = q \<or> c = CHR 0x5C then [CHR 0x5C, c]
      else if c = CHR 0x0A then CHR 0x5C # ''n''
      else if c = CHR 0x0D then CHR 0x5C # ''r''
      else if c = CHR 0x09 then CHR 0x5C # ''t''
      else if is_printable c then [c]
      else [CHR 0x5C, CHR ''x'', hex_char (code_point c div 16), hex_char (code_point c mod 16)])"

definition repr_str :: "string \<Rightarrow> string" where
  "repr_str s =
     (let q = (if CHR 0x27 \<in> set s \<and> CHR 0x22 \<notin> set s then CHR 0x22 else CHR 0x27)
      in q # concat (map (repr_char q) s) @ [q])"

fun py_repr :: "json \<Rightarrow> string" where
  "py_repr JNull = ''None''"
| "py_repr (JBool b) = (if b then ''True'' else ''False'')"
| "py_repr (JInt i) = show_int i"
| "py_repr (JStr s) = repr_str s"
| "py_repr (JList xs) = ''['' @ join_with '', '' (map py_repr xs) @ '']''"
| "py_repr (JObj d) =
     ''{'' @ join_with '', '' (map (\<lambda>(k, v). repr_str k @ '': '' @ py_repr v) d) @ ''}''"

definition py_str :: "json \<Rightarrow> string" where
  "py_str v = (case v of JStr s \<Rightarrow> s | _ \<Rightarrow> py_repr v)"

subsection \<open>\<^verbatim>\<open>json.dumps(value, ensure_ascii=False)\<close>\<close>

definition json_char :: "char \<Rightarrow> string" where
  "json_char c =
     (if c = CHR 0x22 \<or> c = CHR 0x5C then [CHR 0x5C, c]
      else if c = CHR 0x0A then CHR 0x5C # ''n''
      else if c = CHR 0x0D then CHR 0x5C # ''r''
      else if c = CHR 0x09 then CHR 0x5C # ''t''
      else if c = CHR 0x08 then CHR 0x5C # ''b''
      else if c = CHR 0x0C then CHR 0x5C # ''f''
      else if code_point c < 32 then CHR 0x5C # ''u00'' @ [hex_char (code_point c div 16), hex_char (code_point c mod 16)]
      else [c])"

definition json_string :: "string \<Rightarrow> string" where
  "json_string s = CHR 0x22 # concat (map json_char s) @ [CHR 0x22]"

text \<open>\<open>item\<close> and \<open>key\<close> are the two separators.\<close>

fun json_dumps :: "string \<Rightarrow> string \<Rightarrow> json \<Rightarrow> string" where
  "json_dumps item key JNull = ''null''"
| "json_dumps item key (JBool b) = (if b then ''true'' else ''false'')"
| "json_dumps item key (JInt i) = show_int i"
| "json_dumps item key (JStr s) = json_string s"
| "json_dumps item key (JList xs) = ''['' @ join_with item (map (json_dumps item key) xs) @ '']''"
| "json_dumps item key (JObj d) =
     ''{'' @ join_with item (map (\<lambda>(k, v). json_string k @ key @ json_dumps item key v) d) @ ''}''"

text \<open>\<^verbatim>\<open>json.dumps(value)\<close>, which escapes everything behind \<^verbatim>\<open>~\<close>; such characters only occur inside strings.\<close>

definition ascii_escape :: "string \<Rightarrow> string" where
  "ascii_escape s =
     concat (map (\<lambda>c. if 126 < code_point c
       then CHR 0x5C # ''u00'' @ [hex_char (code_point c div 16), hex_char (code_point c mod 16)] else [c]) s)"

definition json_dumps_ascii :: "string \<Rightarrow> string \<Rightarrow> json \<Rightarrow> string" where
  "json_dumps_ascii item key v = ascii_escape (json_dumps item key v)"

text \<open>\<^verbatim>\<open>sort_keys=True\<close>\<close>

fun json_sorted :: "json \<Rightarrow> json" where
  "json_sorted (JList xs) = JList (map json_sorted xs)"
| "json_sorted (JObj d) = JObj (sort_key fst (map (\<lambda>(k, v). (k, json_sorted v)) d))"
| "json_sorted v = v"

subsection \<open>\<^verbatim>\<open>int(value)\<close>\<close>

text \<open>\<^verbatim>\<open>int(value)\<close>: \<^verbatim>\<open>TypeError\<close> for None and containers, \<^verbatim>\<open>ValueError\<close> for a bad string.\<close>

datatype int_error = IntTypeError | IntValueError

fun py_int :: "json \<Rightarrow> int_error + int" where
  "py_int (JInt i) = Inr i"
| "py_int (JBool b) = Inr (if b then 1 else 0)"
| "py_int (JStr s) = (case parse_int s of None \<Rightarrow> Inl IntValueError | Some i \<Rightarrow> Inr i)"
| "py_int _ = Inl IntTypeError"

subsection \<open>UTF-8\<close>

type_synonym bytes = "char list"

definition utf8_char :: "char \<Rightarrow> bytes" where
  "utf8_char c = (let n = code_point c in
     if n < 128 then [c] else [char_at_code (192 + n div 64), char_at_code (128 + n mod 64)])"

definition utf8_encode :: "string \<Rightarrow> bytes" where
  "utf8_encode s = concat (map utf8_char s)"

text \<open>The inverse on encoded code points 0 to 255; \<open>None\<close> stands for \<^verbatim>\<open>UnicodeDecodeError\<close>.\<close>

fun utf8_decode :: "bytes \<Rightarrow> string option" where
  "utf8_decode [] = Some []"
| "utf8_decode (b # bs) =
     (if code_point b < 128 then map_option (Cons b) (utf8_decode bs)
      else (case bs of
              [] \<Rightarrow> None
            | b2 # rest \<Rightarrow>
                (if (code_point b = 194 \<or> code_point b = 195) \<and> 128 \<le> code_point b2 \<and> code_point b2 < 192
                 then map_option (Cons (char_at_code ((code_point b - 192) * 64 + (code_point b2 - 128))))
                        (utf8_decode rest)
                 else None)))"

section \<open>Identifiers\<close>

type_synonym uuid = "128 word"

fun hex_digits :: "nat \<Rightarrow> nat \<Rightarrow> string" where
  "hex_digits 0 n = []"
| "hex_digits (Suc k) n = hex_digits k (n div 16) @ [hex_char (n mod 16)]"

text \<open>\<^verbatim>\<open>str(uuid)\<close>: 32 lower-case hexadecimal digits in groups of 8, 4, 4, 4 and 12.\<close>

definition uuid_str :: "uuid \<Rightarrow> string" where
  "uuid_str u = (let h = hex_digits 32 (unat u) in
     take 8 h @ ''-'' @ take 4 (drop 8 h) @ ''-'' @ take 4 (drop 12 h) @ ''-'' @
     take 4 (drop 16 h) @ ''-'' @ drop 20 h)"

definition hex_value :: "char \<Rightarrow> nat option" where
  "hex_value c = (let n = code_point c in
     if 48 \<le> n \<and> n \<le> 57 then Some (n - 48)
     else if 97 \<le> n \<and> n \<le> 102 then Some (n - 87)
     else if 65 \<le> n \<and> n \<le> 70 then Some (n - 55)
     else None)"

fun read_hex :: "nat \<Rightarrow> string \<Rightarrow> nat option" where
  "read_hex acc [] = Some acc"
| "read_hex acc (c # cs) =
     (case hex_value c of None \<Rightarrow> None | Some d \<Rightarrow> read_hex (16 * acc + d) cs)"

text \<open>
  \<^verbatim>\<open>UUID(text)\<close>: the prefixes \<^verbatim>\<open>urn:\<close> and \<^verbatim>\<open>uuid:\<close> are dropped, braces around it stripped, hyphens
  removed, and 32 hexadecimal digits must remain; otherwise \<^verbatim>\<open>ValueError\<close>, here \<open>None\<close>.
\<close>

definition parse_uuid :: "string \<Rightarrow> uuid option" where
  "parse_uuid s =
     (let t = replace_sub (CHR ''u'') ''uid:'' [] (replace_sub (CHR ''u'') ''rn:'' [] s);
          h = filter (\<lambda>c. c \<noteq> CHR ''-'') (strip_by (\<lambda>c. c = CHR ''{'' \<or> c = CHR ''}'') t)
      in if length h = 32 then map_option of_nat (read_hex 0 h) else None)"

section \<open>Lemmas on the primitives\<close>

lemma digit_value_digit_char [simp]: "d < 10 \<Longrightarrow> digit_value (digit_char d) = d"
  by (simp add: digit_value_def digit_char_def)

lemma read_nat_snoc: "read_nat (s @ [c]) = 10 * read_nat s + digit_value c"
  by (simp add: read_nat_def)

lemma read_nat_show_nat [simp]: "read_nat (show_nat n) = n"
proof (induction n rule: show_nat.induct)
  case (1 n)
  show ?case
  proof (cases "n < 10")
    case True
    then show ?thesis by (simp add: show_nat.simps [of n] read_nat_def)
  next
    case False
    with 1 show ?thesis by (simp add: show_nat.simps [of n] read_nat_snoc)
  qed
qed

lemma show_nat_inject [simp]: "show_nat m = show_nat n \<longleftrightarrow> m = n"
  by (metis read_nat_show_nat)

lemma show_nat_digits: "c \<in> set (show_nat n) \<Longrightarrow> is_digit c"
proof (induction n rule: show_nat.induct)
  case (1 n)
  have d: "d < 10 \<Longrightarrow> is_digit (digit_char d)" for d
    by (simp add: is_digit_def digit_char_def)
  show ?case
  proof (cases "n < 10")
    case True
    with 1 show ?thesis by (simp add: show_nat.simps [of n] d)
  next
    case False
    with 1 show ?thesis by (auto simp: show_nat.simps [of n] d)
  qed
qed

lemma join_split [simp]: "join_with [d] (split_on d s) = s"
proof (induction s)
  case Nil
  then show ?case by simp
next
  case (Cons c cs)
  then show ?case by (cases "split_on d cs"; cases "tl (split_on d cs)") auto
qed

lemma split_on_not_Nil [simp]: "split_on d s \<noteq> []"
  by (induction s) (auto split: list.splits)

lemma split_on_parts: "p \<in> set (split_on d s) \<Longrightarrow> d \<notin> set p"
proof (induction s arbitrary: p)
  case Nil
  then show ?case by simp
next
  case (Cons c cs)
  then show ?case by (cases "split_on d cs") (auto split: if_splits)
qed

lemma split_on_no_sep: "d \<notin> set s \<Longrightarrow> split_on d s = [s]"
  by (induction s) auto

lemma split_on_append_sep: "d \<notin> set p \<Longrightarrow> split_on d (p @ d # s) = p # split_on d s"
  by (induction p) auto

lemma split_join: "ps \<noteq> [] \<Longrightarrow> (\<And>p. p \<in> set ps \<Longrightarrow> d \<notin> set p) \<Longrightarrow> split_on d (join_with [d] ps) = ps"
proof (induction ps rule: induct_list012)
  case (3 p q ps)
  then show ?case by (simp add: split_on_append_sep)
qed (auto simp: split_on_no_sep)

lemma strip_by_ends: "s \<noteq> [] \<Longrightarrow> \<not> p (hd s) \<Longrightarrow> \<not> p (last s) \<Longrightarrow> strip_by p s = s"
proof -
  assume s: "s \<noteq> []" "\<not> p (hd s)" "\<not> p (last s)"
  then have "dropWhile p s = s" "dropWhile p (rev s) = rev s"
    by (simp_all add: dropWhile_eq_self_iff hd_rev)
  then show ?thesis by (simp add: strip_by_def)
qed

lemma join_with_set: "set (join_with [d] ps) \<subseteq> insert d (\<Union> (set ` set ps))"
  by (induction ps rule: induct_list012) auto

lemma join_with_ends:
  "ps \<noteq> [] \<Longrightarrow> (\<And>p. p \<in> set ps \<Longrightarrow> p \<noteq> []) \<Longrightarrow>
   join_with [d] ps \<noteq> [] \<and> hd (join_with [d] ps) = hd (hd ps) \<and> last (join_with [d] ps) = last (last ps)"
  by (induction ps rule: induct_list012) auto

lemma lower_char_idem [simp]: "lower_char (lower_char c) = lower_char c"
  by (simp add: lower_char_def Let_def)

lemma utf8_split:
  assumes "128 \<le> (n::nat)" "n < 256"
  shows "n div 64 = 2 \<or> n div 64 = 3"
proof -
  have "128 div 64 \<le> n div 64" using assms(1) by (rule div_le_mono)
  moreover have "n div 64 < 4" using assms(2) by (simp add: less_mult_imp_div_less)
  ultimately show ?thesis by auto
qed

lemma utf8_decode_char: "utf8_decode (utf8_char c @ bs) = map_option (Cons c) (utf8_decode bs)"
proof (cases "code_point c < 128")
  case True
  then show ?thesis by (simp add: utf8_char_def)
next
  case False
  define n where "n = code_point c"
  have n: "128 \<le> n" "n < 256" using False by (auto simp: n_def)
  define b1 where "b1 = char_at_code (192 + n div 64)"
  define b2 where "b2 = char_at_code (128 + n mod 64)"
  have d: "n div 64 = 2 \<or> n div 64 = 3" by (rule utf8_split [OF n])
  have m: "n mod 64 < 64" by simp
  have b1: "code_point b1 = 192 + n div 64"
    unfolding b1_def by (rule code_point_char_at_code) (use d in auto)
  have b2: "code_point b2 = 128 + n mod 64"
    unfolding b2_def by (rule code_point_char_at_code) (use m in linarith)
  have "utf8_char c = [b1, b2]"
    using False by (simp add: utf8_char_def b1_def b2_def n_def Let_def)
  moreover have "char_at_code ((code_point b1 - 192) * 64 + (code_point b2 - 128)) = c"
    by (simp add: b1 b2) (simp add: n_def)
  moreover have "\<not> code_point b1 < 128" "code_point b1 = 194 \<or> code_point b1 = 195"
      "128 \<le> code_point b2" "code_point b2 < 192"
    unfolding b1 b2 using d m by auto
  ultimately show ?thesis by simp
qed

lemma utf8_decode_encode [simp]: "utf8_decode (utf8_encode s) = Some s"
  by (induction s) (auto simp: utf8_encode_def utf8_decode_char simp del: utf8_decode.simps(2))

lemma length_hex_digits [simp]: "length (hex_digits k n) = k"
  by (induction k arbitrary: n) auto

lemma hex_value_hex_char [simp]: "d < 16 \<Longrightarrow> hex_value (hex_char d) = Some d"
  by (auto simp: hex_value_def hex_char_def Let_def)

lemma read_hex_append: "read_hex acc (s @ t) = Option.bind (read_hex acc s) (\<lambda>a. read_hex a t)"
  by (induction s arbitrary: acc) (auto split: option.splits)

lemma read_hex_hex_digits: "n < 16 ^ k \<Longrightarrow> read_hex acc (hex_digits k n) = Some (16 ^ k * acc + n)"
proof (induction k arbitrary: n acc)
  case 0
  then show ?case by simp
next
  case (Suc k)
  then have "n div 16 < 16 ^ k" by (simp add: less_mult_imp_div_less mult.commute)
  with Suc.IH show ?case
    by (simp add: read_hex_append algebra_simps)
qed

lemma hex_char_set: "c \<in> set (hex_digits k n) \<Longrightarrow> \<exists>d < 16. c = hex_char d"
  by (induction k arbitrary: n) (auto intro: exI [where x = "n mod 16" for n])

lemma hex_char_code: "d < 16 \<Longrightarrow> code_point (hex_char d) = (if d < 10 then 48 + d else 87 + d)"
  by (simp add: hex_char_def)

lemma hex_char_neq:
  assumes "d < 16" "code_point c < 48 \<or> 102 < code_point c"
  shows "hex_char d \<noteq> c"
  using assms hex_char_code [of d] by (auto split: if_splits)

lemma replace_sub_absent: "o1 \<notin> set s \<Longrightarrow> replace_sub o1 os new s = s"
  by (induction s) auto

lemma strip_by_absent: "(\<And>c. c \<in> set s \<Longrightarrow> \<not> p c) \<Longrightarrow> strip_by p s = s"
proof -
  assume a: "\<And>c. c \<in> set s \<Longrightarrow> \<not> p c"
  have id: "dropWhile p t = t" if "set t \<subseteq> set s" for t
    using that a by (cases t) auto
  show ?thesis by (simp add: strip_by_def id)
qed

lemma digits_ok_digits: "s \<noteq> [] \<Longrightarrow> (\<And>c. c \<in> set s \<Longrightarrow> is_digit c) \<Longrightarrow> digits_ok s"
proof (induction s rule: digits_ok.induct)
  case (3 c d cs)
  have "d \<noteq> CHR ''_''" using 3(4) [of d] by (auto simp: is_digit_def code_point_def)
  with 3 show ?case by auto
qed auto

lemma parse_int_show_nat [simp]: "parse_int (show_nat n) = Some (int n)"
proof -
  have digits: "\<And>c. c \<in> set (show_nat n) \<Longrightarrow> is_digit c" by (rule show_nat_digits)
  have ne: "show_nat n \<noteq> []" by (subst show_nat.simps) simp
  have "py_strip (show_nat n) = show_nat n"
    unfolding py_strip_def by (rule strip_by_absent) (auto dest!: digits simp: is_digit_def is_space_def Let_def)
  moreover have "filter (\<lambda>x. x \<noteq> CHR ''_'') (show_nat n) = show_nat n"
    by (rule filter_True) (auto dest: digits simp: is_digit_def code_point_def)
  moreover have "hd (show_nat n) \<noteq> CHR ''-''" "hd (show_nat n) \<noteq> CHR ''+''"
    using digits [OF hd_in_set [OF ne]] by (auto simp: is_digit_def code_point_def)
  moreover have "digits_ok (show_nat n)" by (rule digits_ok_digits [OF ne digits])
  ultimately show ?thesis using ne read_nat_show_nat [of n] by (cases "show_nat n") (simp_all add: parse_int_def Let_def)
qed

lemma hex_digits_avoid:
  "code_point c < 48 \<or> 102 < code_point c \<Longrightarrow> c \<notin> set (hex_digits k n)"
  using hex_char_neq by (fastforce dest: hex_char_set)

lemma uuid_str_chars:
  "c \<in> set (uuid_str u) \<Longrightarrow> c = CHR ''-'' \<or> c \<in> set (hex_digits 32 (unat u))"
  by (auto simp: uuid_str_def Let_def dest: in_set_takeD in_set_dropD)

lemma uuid_str_avoid:
  assumes "code_point c < 48 \<or> 102 < code_point c" "c \<noteq> CHR ''-''"
  shows "c \<notin> set (uuid_str u)"
  using assms uuid_str_chars hex_digits_avoid by blast

lemma uuid_str_filter: "filter (\<lambda>c. c \<noteq> CHR ''-'') (uuid_str u) = hex_digits 32 (unat u)"
proof -
  define h where "h = hex_digits 32 (unat u)"
  have nd: "CHR ''-'' \<notin> set h"
    unfolding h_def by (rule hex_digits_avoid) (simp add: code_point_def)
  have f: "filter (\<lambda>c. c \<noteq> CHR ''-'') (take m (drop k h)) = take m (drop k h)"
      "filter (\<lambda>c. c \<noteq> CHR ''-'') (drop k h) = drop k h"
      "filter (\<lambda>c. c \<noteq> CHR ''-'') (take m h) = take m h" for m k
    using nd by (auto intro!: filter_True dest: in_set_takeD in_set_dropD)
  have "uuid_str u = take 8 h @ ''-'' @ take 4 (drop 8 h) @ ''-'' @ take 4 (drop 12 h) @ ''-'' @
     take 4 (drop 16 h) @ ''-'' @ drop 20 h"
    by (simp add: uuid_str_def h_def Let_def)
  then have "filter (\<lambda>c. c \<noteq> CHR ''-'') (uuid_str u) =
     take 8 h @ take 4 (drop 8 h) @ take 4 (drop 12 h) @ take 4 (drop 16 h) @ drop 20 h"
    by (simp add: f)
  also have "\<dots> = h"
    using append_take_drop_id [of 4 "drop 16 h"] append_take_drop_id [of 4 "drop 12 h"]
      append_take_drop_id [of 4 "drop 8 h"] append_take_drop_id [of 8 h]
    by (simp only: drop_drop) simp
  finally show ?thesis by (simp add: h_def)
qed

lemma parse_uuid_str [simp]: "parse_uuid (uuid_str u) = Some u"
proof -
  have u: "CHR ''u'' \<notin> set (uuid_str u)"
    by (rule uuid_str_avoid) (simp_all add: code_point_def)
  have b: "strip_by (\<lambda>c. c = CHR ''{'' \<or> c = CHR ''}'') (uuid_str u) = uuid_str u"
    using uuid_str_avoid [of "CHR ''{''" u] uuid_str_avoid [of "CHR ''}''" u]
    by (intro strip_by_absent) (auto simp: code_point_def)
  have "unat u < 2 ^ LENGTH(128)" by (rule unsigned_less)
  then have "unat u < 16 ^ 32" by simp
  then show ?thesis
    by (simp add: parse_uuid_def replace_sub_absent [OF u] b uuid_str_filter read_hex_hex_digits)
qed

lemma uuid_str_inject [simp]: "uuid_str u = uuid_str v \<longleftrightarrow> u = v"
  by (metis parse_uuid_str option.inject)

lemma uuid_str_neq_Nil [simp]: "uuid_str u \<noteq> []"
  by (simp add: uuid_str_def Let_def)

section \<open>Dictionaries in insertion order\<close>

lemma map_of_dict_update [simp]: "map_of (AList.update k v d) = (map_of d)(k \<mapsto> v)"
  by (rule update_conv')

lemma dict_update_mem:
  "distinct (map fst d) \<Longrightarrow>
   (k', v') \<in> set (AList.update k v d) \<longleftrightarrow> (if k' = k then v' = v else (k', v') \<in> set d)"
  by (induction d) (auto simp: image_iff split: if_splits)

lemma dict_values_update:
  "set (map snd (AList.update k v d)) \<subseteq> insert v (set (map snd d))"
  by (induction d) auto

section \<open>Sequence numbers\<close>

text \<open>
  \<^verbatim>\<open>max(..., default=0)\<close> and SQL's \<^verbatim>\<open>COALESCE(MAX(seq), 0)\<close>; the next number of a sequence is one more.
  A list is \<open>numbered\<close> when it is 1, 2, 3 and so on.
\<close>

definition max_or_zero :: "int list \<Rightarrow> int" where
  "max_or_zero xs = (case xs of [] \<Rightarrow> 0 | y # ys \<Rightarrow> foldl max y ys)"

definition numbered :: "int list \<Rightarrow> bool" where
  "numbered xs = (xs = map (\<lambda>i. int i + 1) [0..<length xs])"

lemma foldl_max: "foldl max (a::int) xs = Max (insert a (set xs))"
  using Max.set_eq_fold [of a xs] by (simp add: foldl_conv_fold max.commute)

lemma max_or_zero_Max: "xs \<noteq> [] \<Longrightarrow> max_or_zero xs = Max (set xs)"
  by (cases xs) (auto simp: max_or_zero_def foldl_max)

lemma max_or_zero_ge: "x \<in> set xs \<Longrightarrow> x \<le> max_or_zero xs"
  by (cases "xs = []") (auto simp: max_or_zero_Max)

lemma max_or_zero_numbered: "numbered xs \<Longrightarrow> max_or_zero xs = int (length xs)"
proof (cases "xs = []")
  case True
  then show ?thesis by (simp add: max_or_zero_def)
next
  case False
  assume "numbered xs"
  then have s: "set xs = (\<lambda>i. int i + 1) ` {0..<length xs}"
    unfolding numbered_def by (metis set_map set_upt)
  have "Max (set xs) = int (length xs)"
  proof (rule Max_eqI)
    show "int (length xs) \<in> set xs" using False unfolding s
      by (intro image_eqI [where x = "length xs - 1"]) (auto simp: of_nat_diff Suc_le_eq)
  qed (auto simp: s)
  with False show ?thesis by (simp add: max_or_zero_Max)
qed

lemma numbered_Nil [simp]: "numbered []"
  by (simp add: numbered_def)

lemma numbered_snoc: "numbered xs \<Longrightarrow> numbered (xs @ [max_or_zero xs + 1])"
  by (simp add: max_or_zero_numbered) (simp add: numbered_def)

lemma numbered_distinct: "numbered xs \<Longrightarrow> distinct xs"
  unfolding numbered_def by (metis (mono_tags, lifting) distinct_map distinct_upt inj_onI add_right_cancel of_nat_eq_iff)

lemma numbered_nth: "numbered xs \<Longrightarrow> i < length xs \<Longrightarrow> xs ! i = int i + 1"
  unfolding numbered_def by (metis (no_types, lifting) add_0 diff_zero length_upt nth_map nth_upt)

section \<open>Components with an invariant\<close>

text \<open>
  A component whose operations are the events of a step function, and a predicate that every step
  keeps: the predicate then holds along every run.
\<close>

locale step_invariant =
  fixes step :: "'s \<Rightarrow> 'e \<Rightarrow> 's"
    and inv :: "'s \<Rightarrow> bool"
  assumes inv_step: "inv s \<Longrightarrow> inv (step s e)"
begin

lemma inv_run: "inv s \<Longrightarrow> inv (foldl step s es)"
  by (induction es arbitrary: s) (auto intro: inv_step)

end

end
