(* ===== verification/Secret_Paths.thy ===== *)
theory Secret_Paths
  imports Prelude
begin

text \<open>
  The secret-path policy of \<^verbatim>\<open>backend/security/secret_paths.py\<close>: which repository paths the platform
  never reads. \<open>is_secret_path\<close> is the Python predicate, \<open>visible_path\<close> the row filter that
  \<^verbatim>\<open>visible_path_sql\<close> puts into the SQL queries. The lemmas show that spelling a secret path
  differently (case, backslashes, slashes around it, leading globstars) does not hide it, and compare
  the two filters.
\<close>

definition SAFE_ENV_TEMPLATE_NAMES :: "string list" where
  "SAFE_ENV_TEMPLATE_NAMES = [''.env.defaults'', ''.env.example'', ''.env.sample'', ''.env.template'']"

definition SECRET_PATH_NAMES :: "string list" where
  "SECRET_PATH_NAMES =
     [''.env'', ''.env.local'', ''.env.development'', ''.env.production'', ''.git-credentials'',
      ''.npmrc'', ''.pypirc'', ''.netrc'', ''credentials'', ''credentials.json'',
      ''service-account.json'', ''service-account-key.json'', ''secrets.json'', ''secrets.yaml'',
      ''secrets.yml'', ''secret.json'', ''secret.yaml'', ''secret.yml'', ''id_rsa'', ''id_dsa'',
      ''id_ecdsa'', ''id_ed25519'']"

definition SECRET_PATH_PARTS :: "string list" where
  "SECRET_PATH_PARTS = [''.git'', ''.ssh'', ''.aws'', ''.azure'', ''.gcp'']"

definition SECRET_PATH_PREFIXES :: "string list" where
  "SECRET_PATH_PREFIXES = [''.config/gcloud'', ''.docker'']"

definition SECRET_PATH_GLOBS :: "string list" where
  "SECRET_PATH_GLOBS =
     [''*.pem'', ''*.key'', ''*.p12'', ''*.pfx'', ''*credentials*.json'', ''*service-account*.json'',
      ''*secret*.json'', ''*secret*.yaml'', ''*secret*.yml'', ''*secrets*.json'', ''*secrets*.yaml'',
      ''*secrets*.yml'']"

text \<open>
  \<^verbatim>\<open>fnmatchcase\<close> on patterns without brackets: a star matches any string, slashes included, a
  question mark any one character. SQL's \<^verbatim>\<open>LIKE\<close> is the same matcher with \<^verbatim>\<open>%\<close> and \<^verbatim>\<open>_\<close>.
\<close>

fun wild_match :: "char \<Rightarrow> char \<Rightarrow> string \<Rightarrow> string \<Rightarrow> bool" where
  "wild_match many one [] s = (s = [])"
| "wild_match many one (p # ps) [] = (p = many \<and> wild_match many one ps [])"
| "wild_match many one (p # ps) (c # cs) =
     (if p = many then wild_match many one ps (c # cs) \<or> wild_match many one (p # ps) cs
      else (p = one \<or> p = c) \<and> wild_match many one ps cs)"

definition fnmatchcase :: "string \<Rightarrow> string \<Rightarrow> bool" where
  "fnmatchcase path pattern = wild_match (CHR ''*'') (CHR ''?'') pattern path"

definition sql_like :: "string \<Rightarrow> string \<Rightarrow> bool" where
  "sql_like text pattern = wild_match (CHR ''%'') (CHR ''_'') pattern text"

text \<open>\<^verbatim>\<open>while normalized.startswith("**/"): normalized = normalized[3:]\<close>\<close>

function drop_globstars :: "string \<Rightarrow> string" where
  "drop_globstars s = (if starts_with ''**/'' s then drop_globstars (drop 3 s) else s)"
  by pat_completeness auto
termination
proof (relation "measure length")
  fix s assume "starts_with ''**/'' s"
  then have "s \<noteq> []" by (auto simp: starts_with_def)
  then show "(drop 3 s, s) \<in> measure length" by simp
qed simp

declare drop_globstars.simps [simp del]

definition normalize_path_pattern :: "string \<Rightarrow> string" where
  "normalize_path_pattern path =
     (let normalized = strip_by (\<lambda>c. c = CHR ''/'') (py_strip (replace_char (CHR 0x5C) (CHR ''/'') path));
          normalized = drop_globstars normalized
      in replace_sub (CHR ''/'') ''**/'' ''/'' normalized)"

definition base_name :: "string \<Rightarrow> string" where
  "base_name path = last (split_on (CHR ''/'') path)"

definition matches_secret_glob :: "string \<Rightarrow> string \<Rightarrow> bool" where
  "matches_secret_glob path pattern = (fnmatchcase path pattern \<or> fnmatchcase (base_name path) pattern)"

definition is_secret_path :: "string \<Rightarrow> bool" where
  "is_secret_path path =
     (let normalized = normalize_path_pattern path;
          parts = filter (\<lambda>p. p \<noteq> []) (split_on (CHR ''/'') normalized)
      in if parts = [] then False
         else let lower_parts = map py_lower parts; name = last lower_parts
         in if name \<in> set SAFE_ENV_TEMPLATE_NAMES then False
            else if name \<in> set SECRET_PATH_NAMES then True
            else if starts_with ''.env.'' name then True
            else if list_ex (\<lambda>part. part \<in> set SECRET_PATH_PARTS) lower_parts then True
            else let joined = join_with ''/'' lower_parts
            in if list_ex (\<lambda>prefix. joined = prefix \<or> starts_with (prefix @ ''/'') joined)
                    SECRET_PATH_PREFIXES then True
               else list_ex (matches_secret_glob joined) SECRET_PATH_GLOBS)"

text \<open>The rows that the condition text of \<^verbatim>\<open>visible_path_sql\<close> lets through, for a path and its name.\<close>

definition hidden_sql_names :: "string list" where
  "hidden_sql_names =
     [''credentials'', ''credentials.json'', ''service-account.json'', ''service-account-key.json'',
      ''secrets.json'', ''secrets.yaml'', ''secrets.yml'', ''secret.json'', ''secret.yaml'',
      ''secret.yml'', ''id_rsa'', ''id_dsa'', ''id_ecdsa'', ''id_ed25519'']"

definition hidden_sql_patterns :: "string list" where
  "hidden_sql_patterns =
     [''%.pem'', ''%.key'', ''%.p12'', ''%.pfx'', ''%credentials%.json'', ''%service-account%.json'',
      ''%secret%.json'', ''%secret%.yaml'', ''%secret%.yml'', ''%secrets%.json'', ''%secrets%.yaml'',
      ''%secrets%.yml'', ''.ssh/%'', ''%.ssh/%'', ''.aws/%'', ''%.aws/%'', ''.azure/%'', ''%.azure/%'',
      ''.gcp/%'', ''%.gcp/%'', ''.docker/%'', ''%.docker/%'', ''.config/gcloud/%'',
      ''%.config/gcloud/%'']"

definition visible_path :: "string \<Rightarrow> string \<Rightarrow> bool" where
  "visible_path path name =
     (path \<noteq> ''.git'' \<and> \<not> sql_like path ''.git/%'' \<and> path \<noteq> ''.env'' \<and> path \<noteq> ''.env.local'' \<and>
      path \<noteq> ''.env.development'' \<and> path \<noteq> ''.env.production'' \<and>
      (\<not> sql_like (py_lower name) ''.env.%'' \<or> py_lower name \<in> set SAFE_ENV_TEMPLATE_NAMES) \<and>
      path \<noteq> ''.git-credentials'' \<and> path \<noteq> ''.npmrc'' \<and> path \<noteq> ''.pypirc'' \<and> path \<noteq> ''.netrc'' \<and>
      py_lower name \<notin> set hidden_sql_names \<and>
      list_all (\<lambda>pat. \<not> sql_like (py_lower path) pat) hidden_sql_patterns)"

section \<open>Spelling does not matter\<close>

lemma lower_char_fixed:
  assumes "\<not> (65 \<le> code_point d \<and> code_point d \<le> 90)" "\<not> (97 \<le> code_point d \<and> code_point d \<le> 122)"
    "code_point d < 192"
  shows "lower_char c = d \<longleftrightarrow> c = d"
proof
  assume l: "lower_char c = d"
  show "c = d"
  proof (rule ccontr)
    assume "c \<noteq> d"
    with l have n: "(65 \<le> code_point c \<and> code_point c \<le> 90) \<or>
        (192 \<le> code_point c \<and> code_point c \<le> 222 \<and> code_point c \<noteq> 215)"
      and "char_at_code (code_point c + 32) = d"
      by (auto simp: lower_char_def Let_def split: if_splits)
    then have "code_point d = code_point c + 32" by auto
    with n assms show False by auto
  qed
next
  assume "c = d"
  with assms show "lower_char c = d" by (auto simp: lower_char_def Let_def)
qed

lemma lower_char_path_chars [simp]:
  "lower_char c = CHR ''/'' \<longleftrightarrow> c = CHR ''/''"
  "lower_char c = CHR ''*'' \<longleftrightarrow> c = CHR ''*''"
  "lower_char c = CHR 0x5C \<longleftrightarrow> c = CHR 0x5C"
  by (rule lower_char_fixed; simp add: code_point_def)+

lemma is_space_lower_char [simp]: "is_space (lower_char c) = is_space c"
  by (auto simp: is_space_def lower_char_def Let_def)

lemma strip_by_map: "(\<And>c. p (f c) = p c) \<Longrightarrow> strip_by p (map f s) = map f (strip_by p s)"
  by (simp add: strip_by_def dropWhile_map rev_map comp_def)

lemma take_map_eq:
  "(\<And>c d. d \<in> set p \<Longrightarrow> f c = d \<longleftrightarrow> c = d) \<Longrightarrow> take (length p) (map f s) = p \<longleftrightarrow> take (length p) s = p"
proof (induction p arbitrary: s)
  case Nil
  then show ?case by simp
next
  case (Cons a p)
  show ?case
  proof (cases s)
    case (Cons b t)
    with Cons.IH [of t] Cons.prems show ?thesis by auto
  qed simp
qed

lemma starts_with_map:
  "(\<And>c d. d \<in> set p \<Longrightarrow> f c = d \<longleftrightarrow> c = d) \<Longrightarrow> starts_with p (map f s) \<longleftrightarrow> starts_with p s"
  unfolding starts_with_def by (rule take_map_eq)

lemma replace_sub_map:
  "(\<And>c d. d \<in> set (o1 # os) \<Longrightarrow> f c = d \<longleftrightarrow> c = d) \<Longrightarrow> map f new = new \<Longrightarrow>
   replace_sub o1 os new (map f s) = map f (replace_sub o1 os new s)"
proof (induction o1 os new s rule: replace_sub.induct)
  case (1 o1 os new)
  then show ?case by simp
next
  case (2 o1 os new c cs)
  have c: "f c = o1 \<longleftrightarrow> c = o1" and t: "take (length os) (map f cs) = os \<longleftrightarrow> take (length os) cs = os"
    using "2.prems"(1) by (auto intro!: take_map_eq)
  from "2.IH" "2.prems" show ?case
    by (auto simp: c t drop_map simp del: take_map)
qed

lemma drop_globstars_map:
  "(\<And>c d. d \<in> set ''**/'' \<Longrightarrow> f c = d \<longleftrightarrow> c = d) \<Longrightarrow> drop_globstars (map f s) = map f (drop_globstars s)"
proof (induction s rule: drop_globstars.induct)
  case (1 s)
  have "starts_with ''**/'' (map f s) \<longleftrightarrow> starts_with ''**/'' s"
    by (rule starts_with_map) (rule "1.prems")
  with 1 show ?case
    by (simp add: drop_globstars.simps [of s] drop_globstars.simps [of "map f s"] drop_map)
qed

lemma split_on_map: "(\<And>c. f c = d \<longleftrightarrow> c = d) \<Longrightarrow> split_on d (map f s) = map (map f) (split_on d s)"
  by (induction s) (auto split: list.splits)

lemma normalize_path_pattern_lower:
  "normalize_path_pattern (py_lower p) = py_lower (normalize_path_pattern p)"
proof -
  have r: "replace_char (CHR 0x5C) (CHR ''/'') (map lower_char p) =
      map lower_char (replace_char (CHR 0x5C) (CHR ''/'') p)"
    using lower_char_path_chars(1) [of "CHR ''/''", THEN iffD2, OF refl, symmetric]
    by (auto simp: replace_char_def)
  show ?thesis
    unfolding normalize_path_pattern_def py_lower_def py_strip_def Let_def r
    by (subst strip_by_map, simp, subst strip_by_map, simp,
        subst drop_globstars_map, force, subst replace_sub_map) auto
qed

lemma py_lower_idem [simp]: "py_lower (py_lower s) = py_lower s"
  by (simp add: py_lower_def comp_def)

lemma filter_nonempty_map: "filter (\<lambda>p. p \<noteq> []) (map (map f) ps) = map (map f) (filter (\<lambda>p. p \<noteq> []) ps)"
  by (induction ps) auto

lemma is_secret_path_lower: "is_secret_path (py_lower p) = is_secret_path p"
proof -
  have "split_on (CHR ''/'') (py_lower s) = map py_lower (split_on (CHR ''/'') s)" for s
    by (simp add: py_lower_def split_on_map [where f = lower_char, simplified] cong: map_cong)
  then have "filter (\<lambda>p. p \<noteq> []) (split_on (CHR ''/'') (py_lower s)) =
      map py_lower (filter (\<lambda>p. p \<noteq> []) (split_on (CHR ''/'') s))" for s
    by (simp add: filter_map comp_def py_lower_def)
  then show ?thesis
    by (simp add: is_secret_path_def normalize_path_pattern_lower Let_def comp_def)
qed

lemma is_secret_path_backslash:
  "is_secret_path (replace_char (CHR ''/'') (CHR 0x5C) p) = is_secret_path p"
proof -
  have "replace_char (CHR 0x5C) (CHR ''/'') (replace_char (CHR ''/'') (CHR 0x5C) p) =
      replace_char (CHR 0x5C) (CHR ''/'') p"
    by (simp add: replace_char_def)
  then show ?thesis
    by (simp add: is_secret_path_def normalize_path_pattern_def)
qed

lemma strip_by_Cons_keep: "\<not> p c \<Longrightarrow> strip_by p (c # s) = c # rstrip_by p s"
  by (induction s rule: rev_induct) (auto simp: strip_by_def rstrip_by_def)

lemma rstrip_by_append: "rstrip_by p t \<noteq> [] \<Longrightarrow> rstrip_by p (s @ t) = s @ rstrip_by p t"
  by (auto simp: rstrip_by_def dropWhile_append dest!: dropWhile_eq_Nil_conv [THEN iffD1, rotated])

lemma strip_by_hd: "s \<noteq> [] \<Longrightarrow> \<not> p (hd s) \<Longrightarrow> strip_by p s = hd s # rstrip_by p (tl s)"
  by (cases s) (auto simp: strip_by_Cons_keep)

lemma strip_by_append_hd:
  assumes "t \<noteq> []" "\<not> p (hd t)" "\<not> p c"
  shows "strip_by p (c # s @ t) = c # s @ strip_by p t"
proof -
  have "rstrip_by p t = strip_by p t"
    using assms(1,2) by (cases t) (auto simp: strip_by_def rstrip_by_def)
  moreover have "strip_by p t \<noteq> []"
    using strip_by_hd [of t p] assms(1,2) by simp
  ultimately show ?thesis
    using assms(3) by (simp add: strip_by_Cons_keep rstrip_by_append)
qed

lemma is_secret_path_globstar:
  assumes "p \<noteq> []" "\<not> is_space (hd p)" "hd p \<noteq> CHR ''/''" "hd p \<noteq> CHR 0x5C"
  shows "is_secret_path (''**/'' @ p) = is_secret_path p"
proof -
  define q where "q = replace_char (CHR 0x5C) (CHR ''/'') p"
  have q: "q \<noteq> []" "hd q = hd p" using assms by (auto simp: q_def replace_char_def hd_map)
  have "replace_char (CHR 0x5C) (CHR ''/'') (''**/'' @ p) = ''**/'' @ q"
    by (simp add: replace_char_def q_def)
  moreover have s: "py_strip (''**/'' @ q) = ''**/'' @ py_strip q"
    using strip_by_append_hd [of q is_space "CHR ''*''" "''*/''"] assms q
    by (simp add: py_strip_def is_space_def code_point_def)
  moreover have "strip_by (\<lambda>c. c = CHR ''/'') (''**/'' @ py_strip q) =
      ''**/'' @ strip_by (\<lambda>c. c = CHR ''/'') (py_strip q)"
    using strip_by_append_hd [of "py_strip q" "\<lambda>c. c = CHR ''/''" "CHR ''*''" "''*/''"]
      strip_by_hd [of q is_space] assms q
    by (simp add: py_strip_def)
  moreover have "drop_globstars (''**/'' @ t) = drop_globstars t" for t
    by (subst drop_globstars.simps) (simp add: starts_with_def)
  ultimately have "normalize_path_pattern (''**/'' @ p) = normalize_path_pattern p"
    by (simp only: normalize_path_pattern_def Let_def q_def)
  then show ?thesis by (simp add: is_secret_path_def)
qed

section \<open>What is secret\<close>

text \<open>The parts of a path that is already in normal form: no separator, backslash or star inside a
  part, no white space at either end.\<close>

definition clean_parts :: "string list \<Rightarrow> bool" where
  "clean_parts ps =
     (ps \<noteq> [] \<and> list_all (\<lambda>p. p \<noteq> [] \<and> CHR ''/'' \<notin> set p \<and> CHR 0x5C \<notin> set p \<and> CHR ''*'' \<notin> set p) ps \<and>
      \<not> is_space (hd (hd ps)) \<and> \<not> is_space (last (last ps)))"

lemma replace_sub_no_star: "CHR ''*'' \<notin> set s \<Longrightarrow> replace_sub (CHR ''/'') ''**/'' ''/'' s = s"
proof (induction s)
  case Nil
  then show ?case by simp
next
  case (Cons c s)
  have "take (length ''**/'') s \<noteq> ''**/''"
  proof
    assume "take (length ''**/'') s = ''**/''"
    then have "CHR ''*'' \<in> set (take (length ''**/'') s)" by simp
    then show False using Cons.prems by (meson in_set_takeD list.set_intros(2))
  qed
  with Cons show ?case by simp
qed

lemma drop_globstars_no_star: "CHR ''*'' \<notin> set s \<Longrightarrow> drop_globstars s = s"
proof -
  assume s: "CHR ''*'' \<notin> set s"
  have "\<not> starts_with ''**/'' s"
  proof
    assume "starts_with ''**/'' s"
    then have "CHR ''*'' \<in> set (take 3 s)" by (simp add: starts_with_def numeral_3_eq_3)
    with s show False by (meson in_set_takeD)
  qed
  then show ?thesis by (simp add: drop_globstars.simps [of s])
qed

lemma clean_parts_in:
  assumes "clean_parts ps" "p \<in> set ps"
  shows "p \<noteq> []" "CHR ''/'' \<notin> set p" "CHR 0x5C \<notin> set p" "CHR ''*'' \<notin> set p"
  using assms by (auto simp: clean_parts_def list_all_iff)

lemma normalize_clean:
  assumes "clean_parts ps"
  shows "normalize_path_pattern (join_with ''/'' ps) = join_with ''/'' ps"
proof -
  define s where "s = join_with ''/'' ps"
  have ne: "ps \<noteq> []" using assms by (simp add: clean_parts_def)
  have ends: "s \<noteq> []" "hd s = hd (hd ps)" "last s = last (last ps)"
    using join_with_ends [OF ne, of "CHR ''/''"] clean_parts_in(1) [OF assms] by (auto simp: s_def)
  have h: "hd (hd ps) \<in> set (hd ps)" "last (last ps) \<in> set (last ps)"
    using ne clean_parts_in(1) [OF assms] by auto
  have sl: "hd s \<noteq> CHR ''/''" "last s \<noteq> CHR ''/''"
    using h ne clean_parts_in(2) [OF assms, of "hd ps"] clean_parts_in(2) [OF assms, of "last ps"]
    by (auto simp: ends)
  have "CHR 0x5C \<notin> set s" "CHR ''*'' \<notin> set s"
    using join_with_set [of "CHR ''/''" ps] clean_parts_in(3,4) [OF assms] by (auto simp: s_def)
  moreover have "replace_char (CHR 0x5C) (CHR ''/'') s = s" if "CHR 0x5C \<notin> set s"
    using that by (auto simp: replace_char_def intro!: map_idI)
  moreover have "py_strip s = s"
    using assms ends by (auto simp: py_strip_def clean_parts_def intro!: strip_by_ends)
  moreover have "strip_by (\<lambda>c. c = CHR ''/'') s = s"
    using ends sl by (intro strip_by_ends) auto
  ultimately show ?thesis
    by (simp add: normalize_path_pattern_def replace_sub_no_star drop_globstars_no_star flip: s_def)
qed

lemma split_clean:
  assumes "clean_parts ps"
  shows "filter (\<lambda>p. p \<noteq> []) (split_on (CHR ''/'') (join_with ''/'' ps)) = ps"
proof -
  have "split_on (CHR ''/'') (join_with ''/'' ps) = ps"
    using assms clean_parts_in(2) [OF assms] by (intro split_join) (auto simp: clean_parts_def)
  moreover have "filter (\<lambda>p. p \<noteq> []) ps = ps"
    using clean_parts_in(1) [OF assms] by (auto intro: filter_True)
  ultimately show ?thesis by simp
qed

lemma wild_match_self: "many \<notin> set p \<Longrightarrow> one \<notin> set p \<Longrightarrow> wild_match many one p s \<longleftrightarrow> s = p"
proof (induction p arbitrary: s)
  case Nil
  then show ?case by simp
next
  case (Cons a p)
  then show ?case by (cases s) auto
qed

lemma wild_match_star:
  "wild_match many one (many # p) s \<longleftrightarrow> (\<exists>t u. s = t @ u \<and> wild_match many one p u)"
proof (induction s)
  case Nil
  then show ?case by simp
next
  case (Cons c s)
  have "(\<exists>t u. c # s = t @ u \<and> wild_match many one p u) \<longleftrightarrow>
      wild_match many one p (c # s) \<or> (\<exists>t u. s = t @ u \<and> wild_match many one p u)"
    by (metis append_Cons append_Nil append_eq_Cons_conv)
  with Cons show ?case by simp
qed

lemma fnmatch_suffix:
  assumes "CHR ''*'' \<notin> set e" "CHR ''?'' \<notin> set e"
  shows "fnmatchcase s (CHR ''*'' # e) \<longleftrightarrow> (\<exists>t. s = t @ e)"
  by (auto simp: fnmatchcase_def wild_match_star wild_match_self assms)

lemma base_name_join:
  assumes "ps \<noteq> []" "\<And>p. p \<in> set ps \<Longrightarrow> CHR ''/'' \<notin> set p"
  shows "base_name (join_with ''/'' ps) = last ps"
  using split_join [OF assms] by (simp add: base_name_def)

lemma py_lower_slash [simp]: "CHR ''/'' \<in> set (py_lower s) \<longleftrightarrow> CHR ''/'' \<in> set s"
proof -
  have "CHR ''/'' = lower_char c \<longleftrightarrow> CHR ''/'' = c" for c
    using lower_char_path_chars(1) [of c] by metis
  then show ?thesis by (simp add: py_lower_def image_iff)
qed

text \<open>
  C40: the policy catches every path, given as its parts in normal form, that has a
  secret directory among its parts, a secret file name, a name starting with \<^verbatim>\<open>.env.\<close>, or a key file
  extension, in whatever case the parts are written, unless its last part is one of the four safe
  environment templates, which are never secret.
\<close>
theorem secret_path_policy:
  assumes "clean_parts ps"
  shows "if py_lower (last ps) \<in> set SAFE_ENV_TEMPLATE_NAMES
    then \<not> is_secret_path (join_with ''/'' ps)
    else (\<exists>p \<in> set ps. py_lower p \<in> set SECRET_PATH_PARTS) \<or>
        py_lower (last ps) \<in> set SECRET_PATH_NAMES \<or>
        starts_with ''.env.'' (py_lower (last ps)) \<or>
        (\<exists>t. \<exists>e \<in> {''.pem'', ''.key'', ''.p12'', ''.pfx''}. py_lower (last ps) = t @ e)
      \<longrightarrow> is_secret_path (join_with ''/'' ps)"
proof -
  have ne: "ps \<noteq> []" using assms by (simp add: clean_parts_def)
  define lp where "lp = map py_lower ps"
  have l: "last lp = py_lower (last ps)" "lp \<noteq> []" using ne by (simp_all add: lp_def last_map)
  have b: "base_name (join_with ''/'' lp) = last lp"
  proof (rule base_name_join [OF l(2)])
    fix p assume "p \<in> set lp"
    then show "CHR ''/'' \<notin> set p"
      using clean_parts_in(2) [OF assms] by (auto simp: lp_def)
  qed
  have g: "list_ex (matches_secret_glob (join_with ''/'' lp)) SECRET_PATH_GLOBS"
    if ex: "\<exists>t. \<exists>e \<in> {''.pem'', ''.key'', ''.p12'', ''.pfx''}. last lp = t @ e"
  proof -
    obtain t e where that: "last lp = t @ e" "e \<in> {''.pem'', ''.key'', ''.p12'', ''.pfx''}" using ex by blast
    have "fnmatchcase (last lp) (CHR ''*'' # e)" using that by (subst fnmatch_suffix) auto
    moreover have "CHR ''*'' # e \<in> set SECRET_PATH_GLOBS" using that(2) by (auto simp: SECRET_PATH_GLOBS_def)
    ultimately show ?thesis by (auto simp: list_ex_iff matches_secret_glob_def b intro!: bexI)
  qed
  have e: "is_secret_path (join_with ''/'' ps) =
      (last lp \<notin> set SAFE_ENV_TEMPLATE_NAMES \<and>
       (last lp \<in> set SECRET_PATH_NAMES \<or> starts_with ''.env.'' (last lp) \<or>
        (\<exists>p \<in> set lp. p \<in> set SECRET_PATH_PARTS) \<or>
        list_ex (\<lambda>prefix. join_with ''/'' lp = prefix \<or> starts_with (prefix @ ''/'') (join_with ''/'' lp))
          SECRET_PATH_PREFIXES \<or>
        list_ex (matches_secret_glob (join_with ''/'' lp)) SECRET_PATH_GLOBS))"
    unfolding is_secret_path_def normalize_clean [OF assms] split_clean [OF assms] Let_def lp_def
    using ne by (simp add: list_ex_iff)
  have p: "(\<exists>p \<in> set lp. p \<in> set SECRET_PATH_PARTS) \<longleftrightarrow> (\<exists>p \<in> set ps. py_lower p \<in> set SECRET_PATH_PARTS)"
    by (simp add: lp_def)
  show ?thesis
  proof (cases "last lp \<in> set SAFE_ENV_TEMPLATE_NAMES")
    case True
    then show ?thesis by (simp add: e l(1) [symmetric])
  next
    case False
    then show ?thesis using g by (simp only: e p l(1) [symmetric] if_False not_False_eq_True) blast
  qed
qed

theorem secret_path_policy_witness:
  "clean_parts [''deploy'', ''.SSH'', ''config''] \<and>
   is_secret_path (join_with ''/'' [''deploy'', ''.SSH'', ''config''])"
proof -
  have h: "clean_parts [''deploy'', ''.SSH'', ''config'']" by code_simp
  have "py_lower (last [''deploy'', ''.SSH'', ''config'']) \<notin> set SAFE_ENV_TEMPLATE_NAMES" by code_simp
  moreover have "\<exists>p \<in> set [''deploy'', ''.SSH'', ''config'']. py_lower p \<in> set SECRET_PATH_PARTS" by code_simp
  ultimately show ?thesis using h secret_path_policy [OF h] by presburger
qed

text \<open>
  respelling a path does not change the verdict: upper or lower case, backslashes for slashes,
  and a leading globstar (before a path that does not itself start with white space or a separator)
  give the same answer, so a model cannot reach a secret file by writing its path differently.
\<close>
theorem secret_path_respelling:
  assumes "p \<noteq> []" "\<not> is_space (hd p)" "hd p \<noteq> CHR ''/''" "hd p \<noteq> CHR 0x5C"
  shows "is_secret_path (py_lower p) = is_secret_path p \<and>
    is_secret_path (replace_char (CHR ''/'') (CHR 0x5C) p) = is_secret_path p \<and>
    is_secret_path (''**/'' @ p) = is_secret_path p"
  using is_secret_path_lower is_secret_path_backslash is_secret_path_globstar [OF assms] by blast

theorem secret_path_respelling_witness:
  "is_secret_path (py_lower ''a/.ENV'') \<and> is_secret_path (replace_char (CHR ''/'') (CHR 0x5C) ''a/.ENV'') \<and>
   is_secret_path (''**/'' @ ''a/.ENV'')"
proof -
  have h: "''a/.ENV'' \<noteq> []" "\<not> is_space (hd ''a/.ENV'')" "hd ''a/.ENV'' \<noteq> CHR ''/''" "hd ''a/.ENV'' \<noteq> CHR 0x5C"
    by (simp_all add: is_space_def code_point_def)
  have "is_secret_path ''a/.ENV''" by code_simp
  then show ?thesis using secret_path_respelling [OF h] by blast
qed

text \<open>
  The SQL row filter and the Python policy disagree in both directions: the filter shows a
  nested \<^verbatim>\<open>.env\<close> and a nested \<^verbatim>\<open>.npmrc\<close>, which the policy calls secret, and hides a nested Docker
  configuration directory, which the policy allows.
\<close>
theorem sql_filter_differs_from_policy:
  "(\<exists>p. visible_path p (base_name p) \<and> is_secret_path p) \<and>
   (\<exists>p. \<not> visible_path p (base_name p) \<and> \<not> is_secret_path p)"
proof (intro conjI exI)
  show "visible_path ''app/.env'' (base_name ''app/.env'')" by code_simp
  show "is_secret_path ''app/.env''" by code_simp
  show "\<not> visible_path ''app/.docker/x'' (base_name ''app/.docker/x'')" by code_simp
  show "\<not> is_secret_path ''app/.docker/x''" by code_simp
qed

end
