(* ===== verification/Storage.thy ===== *)
theory Storage
  imports Prelude
begin

text \<open>
  Object storage: the key functions of \<^verbatim>\<open>backend/storage/keys.py\<close> and the in-memory store of
  \<^verbatim>\<open>backend/storage/memory.py\<close>, with the \<open>object_storage\<close> interface that the scanner and the
  document service rely on. The key lemmas show that the objects of different revisions, sections and
  tool calls never share a key.
\<close>

section \<open>Keys\<close>

text \<open>\<^verbatim>\<open>value.split(":", 1)[1] if ":" in value else value\<close>\<close>

definition hash_value :: "string \<Rightarrow> string" where
  "hash_value v = (if CHR '':'' \<in> set v then tl (dropWhile (\<lambda>c. c \<noteq> CHR '':'') v) else v)"

definition git_bundle_key :: "string \<Rightarrow> string \<Rightarrow> string" where
  "git_bundle_key repository_url_hash commit_sha =
     ''git-bundles/'' @ hash_value repository_url_hash @ ''/'' @ commit_sha @ ''.bundle''"

definition manifest_key :: "uuid \<Rightarrow> string" where
  "manifest_key snapshot_id = ''snapshots/'' @ uuid_str snapshot_id @ ''/manifest.json.zst''"

definition tree_text_key :: "uuid \<Rightarrow> string" where
  "tree_text_key snapshot_id = ''snapshots/'' @ uuid_str snapshot_id @ ''/tree.txt''"

definition file_tree_key :: "uuid \<Rightarrow> string" where
  "file_tree_key snapshot_id = ''snapshots/'' @ uuid_str snapshot_id @ ''/file-tree.json.zst''"

definition blob_key :: "string \<Rightarrow> string" where
  "blob_key content_hash = (let digest = hash_value content_hash in
     ''blobs/sha256/'' @ take 2 digest @ ''/'' @ take 2 (drop 2 digest) @ ''/'' @ digest)"

definition instruction_key :: "uuid \<Rightarrow> string \<Rightarrow> string" where
  "instruction_key snapshot_id path_hash =
     ''instructions/'' @ uuid_str snapshot_id @ ''/'' @ hash_value path_hash @ ''.md''"

definition tool_result_key :: "uuid \<Rightarrow> string" where
  "tool_result_key tool_call_id = ''tool-results/'' @ uuid_str tool_call_id @ ''.json''"

definition evidence_key :: "uuid \<Rightarrow> string" where
  "evidence_key evidence_id = ''evidence/'' @ uuid_str evidence_id @ ''.txt''"

definition revision_suffix :: "uuid option \<Rightarrow> string" where
  "revision_suffix tool_call_id = (case tool_call_id of None \<Rightarrow> [] | Some t \<Rightarrow> ''-'' @ uuid_str t)"

definition document_content_key :: "uuid \<Rightarrow> uuid \<Rightarrow> int \<Rightarrow> uuid option \<Rightarrow> string" where
  "document_content_key analysis_id document_id version tool_call_id =
     ''documents/'' @ uuid_str analysis_id @ ''/'' @ uuid_str document_id @ ''/v'' @ show_int version @
     revision_suffix tool_call_id @ ''.md''"

definition document_section_content_key ::
  "uuid \<Rightarrow> uuid \<Rightarrow> uuid \<Rightarrow> int \<Rightarrow> uuid option \<Rightarrow> string" where
  "document_section_content_key analysis_id document_id section_id version tool_call_id =
     ''documents/'' @ uuid_str analysis_id @ ''/'' @ uuid_str document_id @ ''/sections/'' @
     uuid_str section_id @ ''/v'' @ show_int version @ revision_suffix tool_call_id @ ''.md''"

section \<open>The in-memory store\<close>

record object_store =
  objects :: "string \<rightharpoonup> bytes"
  content_types :: "string \<rightharpoonup> string"

definition empty_store :: object_store where
  "empty_store = \<lparr>objects = Map.empty, content_types = Map.empty\<rparr>"

definition put_bytes :: "object_store \<Rightarrow> string \<Rightarrow> bytes \<Rightarrow> string \<Rightarrow> object_store" where
  "put_bytes st key data content_type =
     st\<lparr>objects := (objects st)(key \<mapsto> data), content_types := (content_types st)(key \<mapsto> content_type)\<rparr>"

text \<open>\<^verbatim>\<open>get_bytes\<close> raises \<^verbatim>\<open>KeyError\<close> for a missing key, here \<open>None\<close>; \<^verbatim>\<open>put_file\<close> reads the file, whose
  content is an argument here, and stores it.\<close>

definition get_bytes :: "object_store \<Rightarrow> string \<Rightarrow> bytes option" where
  "get_bytes st key = objects st key"

definition put_file :: "object_store \<Rightarrow> string \<Rightarrow> bytes \<Rightarrow> string \<Rightarrow> object_store" where
  "put_file st key file_content content_type = put_bytes st key file_content content_type"

text \<open>The \<^verbatim>\<open>ObjectStorage\<close> protocol: what a reader may expect after a write.\<close>

locale object_storage =
  fixes put :: "'s \<Rightarrow> string \<Rightarrow> bytes \<Rightarrow> string \<Rightarrow> 's"
    and get :: "'s \<Rightarrow> string \<Rightarrow> bytes option"
  assumes get_put: "get (put st k d ct) k' = (if k' = k then Some d else get st k')"
begin

lemma get_after_puts:
  "k \<notin> set (map fst kds) \<Longrightarrow> get (foldl (\<lambda>s (k, d). put s k d ct) st kds) k = get st k"
  by (induction kds arbitrary: st) (auto simp: get_put)

lemma get_put_same_key: "get (put st k d ct) k = Some d"
  by (simp add: get_put)

lemma stored_stays: "get st k = Some d \<Longrightarrow> k' \<noteq> k \<Longrightarrow> get (put st k' d' ct) k = Some d"
  by (simp add: get_put)

end

interpretation mem_store: object_storage put_bytes get_bytes
  by unfold_locales (simp add: put_bytes_def get_bytes_def)

section \<open>Keys are unambiguous\<close>

lemma length_uuid_str [simp]: "length (uuid_str u) = 36"
  by (simp add: uuid_str_def Let_def)

lemma uuid_str_append_inject [simp]: "uuid_str u @ s = uuid_str v @ t \<longleftrightarrow> u = v \<and> s = t"
  by simp

lemma show_nat_takeWhile:
  assumes "s = [] \<or> \<not> is_digit (hd s)"
  shows "takeWhile is_digit (show_nat n @ s) = show_nat n"
proof -
  have "takeWhile is_digit (show_nat n @ s) = show_nat n @ takeWhile is_digit s"
    by (rule takeWhile_append2) (rule show_nat_digits)
  moreover have "takeWhile is_digit s = []" using assms by (cases s) auto
  ultimately show ?thesis by simp
qed

lemma show_int_append_inject:
  assumes "0 \<le> v" "0 \<le> w" "s = [] \<or> \<not> is_digit (hd s)" "t = [] \<or> \<not> is_digit (hd t)"
  shows "show_int v @ s = show_int w @ t \<longleftrightarrow> v = w \<and> s = t"
proof
  assume e: "show_int v @ s = show_int w @ t"
  then have "takeWhile is_digit (show_int v @ s) = takeWhile is_digit (show_int w @ t)" by simp
  then have "show_nat (nat v) = show_nat (nat w)"
    using assms by (simp add: show_int_def show_nat_takeWhile)
  with assms(1,2) have "v = w" by simp
  with e show "v = w \<and> s = t" by simp
qed simp

lemma revision_suffix_inject:
  "revision_suffix a = revision_suffix b \<longleftrightarrow> a = b"
  by (cases a; cases b) (auto simp: revision_suffix_def)

lemma revision_suffix_hd [simp]: "\<not> is_digit (hd (revision_suffix t @ ''.md''))"
  by (cases t) (auto simp: revision_suffix_def is_digit_def code_point_def)

lemma document_content_key_inject:
  assumes "0 \<le> v" "0 \<le> v'"
  shows "document_content_key a d v t = document_content_key a' d' v' t' \<longleftrightarrow>
    a = a' \<and> d = d' \<and> v = v' \<and> t = t'"
  using show_int_append_inject [OF assms, of "revision_suffix t @ ''.md''" "revision_suffix t' @ ''.md''"]
  by (auto simp: document_content_key_def revision_suffix_inject)

lemma document_section_content_key_inject:
  assumes "0 \<le> v" "0 \<le> v'"
  shows "document_section_content_key a d sid v t = document_section_content_key a' d' sid' v' t' \<longleftrightarrow>
    a = a' \<and> d = d' \<and> sid = sid' \<and> v = v' \<and> t = t'"
  using show_int_append_inject [OF assms, of "revision_suffix t @ ''.md''" "revision_suffix t' @ ''.md''"]
  by (auto simp: document_section_content_key_def revision_suffix_inject)

lemma document_key_not_section_key:
  "document_content_key a d v t \<noteq> document_section_content_key a' d' sid v' t'"
  by (auto simp: document_content_key_def document_section_content_key_def)

end
