(* ===== verification/Todo.thy ===== *)
theory Todo
  imports Prelude
begin

text \<open>
  The agent's TODO lists (\<^verbatim>\<open>backend/todo\<close>): the validation of an update in \<^verbatim>\<open>service.py\<close>, the in-memory
  store of \<^verbatim>\<open>memory_repository.py\<close>, the Postgres store of \<^verbatim>\<open>repository.py\<close> over its two tables, and
  the \<open>todo_store\<close> interface both implement. The lemmas show what a validated list looks like, that
  an agent's versions are 1, 2, 3 and so on without gaps, and that a repeated tool call is answered
  from the stored list and changes nothing.
\<close>

section \<open>Validation (\<^verbatim>\<open>service.py\<close>)\<close>

datatype todo_error = TodoToolError (todo_code: string) (todo_message: string)

record todo_item =
  item_id :: string
  item_title :: string
  item_status :: string

definition TODO_STATUSES :: "string list" where
  "TODO_STATUSES = [''pending'', ''in_progress'', ''completed'']"

definition TODO_ID_PATTERN :: "string \<Rightarrow> bool" where
  "TODO_ID_PATTERN s = slug_pattern 63 s"

definition invalid_todo :: "string \<Rightarrow> todo_error" where
  "invalid_todo msg = TodoToolError ''INVALID_TODO_STATE'' msg"

text \<open>\<^verbatim>\<open>str(raw_item.get(key) or "").strip()\<close>\<close>

definition stripped_field :: "(string \<times> json) list \<Rightarrow> string \<Rightarrow> string" where
  "stripped_field d k = py_strip (py_str (py_or (obj_get d k) (JStr [])))"

text \<open>The loop over the raw items, with \<open>seen_ids\<close> and the items built so far.\<close>

fun normalize_items_loop ::
  "json list \<Rightarrow> string list \<Rightarrow> todo_item list \<Rightarrow> todo_error + todo_item list" where
  "normalize_items_loop [] seen_ids items = Inr items"
| "normalize_items_loop (raw_item # rest) seen_ids items =
     (case raw_item of
        JObj d \<Rightarrow>
          (let i = stripped_field d ''id''; t = stripped_field d ''title''; s = stripped_field d ''status''
           in if \<not> TODO_ID_PATTERN i then Inl (invalid_todo ''TODO item id must be a stable lowercase slug.'')
              else if i \<in> set seen_ids then Inl (invalid_todo (''duplicate TODO item id: '' @ i))
              else if t = [] \<or> 80 < length t then Inl (invalid_todo ''TODO item title must be 1-80 characters.'')
              else if s \<notin> set TODO_STATUSES
                then Inl (invalid_todo ''TODO item status must be pending, in_progress, or completed.'')
              else normalize_items_loop rest (i # seen_ids)
                     (items @ [\<lparr>item_id = i, item_title = t, item_status = s\<rparr>]))
      | _ \<Rightarrow> Inl (invalid_todo ''each TODO item must be an object.''))"

definition count_status :: "string \<Rightarrow> todo_item list \<Rightarrow> nat" where
  "count_status s items = length (filter (\<lambda>item. item_status item = s) items)"

definition normalize_todo_items :: "json \<Rightarrow> todo_error + todo_item list" where
  "normalize_todo_items value =
     (case value of
        JList raw_items \<Rightarrow>
          (if raw_items = [] then Inl (invalid_todo ''items must contain at least one TODO item.'')
           else if 8 < length raw_items then Inl (invalid_todo ''items must contain at most 8 TODO items.'')
           else rbind (normalize_items_loop raw_items [] [])
             (\<lambda>items.
                if count_status ''completed'' items = length items then Inr items
                else if count_status ''in_progress'' items \<noteq> 1
                then Inl (invalid_todo
                  ''TODO state must have exactly one in_progress item until all items are completed.'')
                else Inr items))
      | _ \<Rightarrow> Inl (invalid_todo ''items must be an array.''))"

definition normalize_note :: "json \<Rightarrow> todo_error + string option" where
  "normalize_note value =
     (if value = JNull then Inr None
      else let note = py_strip (py_str value)
        in if note = [] then Inr None
           else if 500 < length note then Inl (invalid_todo ''TODO note must be at most 500 characters.'')
           else Inr (Some note))"

section \<open>Stores\<close>

record todo_row =
  td_id :: uuid
  td_analysis_id :: uuid
  td_agent_id :: uuid
  td_turn_id :: "uuid option"
  td_tool_call_id :: uuid
  td_version :: int
  td_items_json :: "todo_item list"
  td_note :: "string option"
  td_created_at :: int

record todo_result =
  result_version :: int
  result_items :: "todo_item list"
  result_note :: "string option"

definition todo_result_of :: "todo_row \<Rightarrow> todo_result" where
  "todo_result_of row =
     \<lparr>result_version = td_version row, result_items = td_items_json row, result_note = td_note row\<rparr>"

text \<open>The arguments of one \<^verbatim>\<open>add_todo_list\<close> call, with the fresh ids and the time it draws.\<close>

record todo_call =
  c_analysis :: uuid
  c_agent :: uuid
  c_turn :: "uuid option"
  c_tool_call :: uuid
  c_items :: "todo_item list"
  c_note :: "string option"
  c_fresh :: uuid
  c_stream_fresh :: uuid
  c_now :: int

subsection \<open>In memory (\<^verbatim>\<open>memory_repository.py\<close>)\<close>

definition rows_of_agent :: "uuid \<Rightarrow> todo_row list \<Rightarrow> todo_row list" where
  "rows_of_agent a rows = filter (\<lambda>row. td_agent_id row = a) rows"

definition max_version :: "todo_row list \<Rightarrow> int" where
  "max_version rows = max_or_zero (map td_version rows)"

definition find_tool_call :: "uuid \<Rightarrow> todo_row list \<Rightarrow> todo_row option" where
  "find_tool_call t rows = List.find (\<lambda>row. td_tool_call_id row = t) rows"

definition todo_row_of :: "todo_call \<Rightarrow> int \<Rightarrow> todo_row" where
  "todo_row_of c v =
     \<lparr>td_id = c_fresh c, td_analysis_id = c_analysis c, td_agent_id = c_agent c, td_turn_id = c_turn c,
      td_tool_call_id = c_tool_call c, td_version = v, td_items_json = c_items c, td_note = c_note c,
      td_created_at = c_now c\<rparr>"

definition mem_add_todo_list :: "todo_row list \<Rightarrow> todo_call \<Rightarrow> todo_row list \<times> todo_result" where
  "mem_add_todo_list rows c =
     (case find_tool_call (c_tool_call c) rows of
        Some replay \<Rightarrow> (rows, todo_result_of replay)
      | None \<Rightarrow>
          (let row = todo_row_of c (max_version (rows_of_agent (c_agent c) rows) + 1)
           in (rows @ [row], todo_result_of row)))"

text \<open>\<^verbatim>\<open>max(rows, key=version)\<close>: the first row with the greatest version.\<close>

fun max_by_version :: "todo_row \<Rightarrow> todo_row list \<Rightarrow> todo_row" where
  "max_by_version best [] = best"
| "max_by_version best (row # rows) =
     max_by_version (if td_version best < td_version row then row else best) rows"

definition mem_latest_todo_list :: "todo_row list \<Rightarrow> uuid \<Rightarrow> todo_result option" where
  "mem_latest_todo_list rows a =
     (case rows_of_agent a rows of
        [] \<Rightarrow> None
      | row # rest \<Rightarrow> Some (todo_result_of (max_by_version row rest)))"

subsection \<open>Postgres (\<^verbatim>\<open>repository.py\<close>)\<close>

record stream_event =
  se_id :: uuid
  se_analysis :: uuid
  se_agent :: uuid
  se_turn :: "uuid option"
  se_seq :: int
  se_type :: string
  se_payload :: todo_result
  se_state :: "string option"

record todo_db =
  agent_todo_lists :: "todo_row list"
  agent_stream_events :: "stream_event list"

text \<open>\<^verbatim>\<open>COALESCE(MAX(seq), 0) + 1\<close>, and the insert, under the advisory lock of the analysis.\<close>

definition next_seq :: "uuid \<Rightarrow> stream_event list \<Rightarrow> int" where
  "next_seq a evs = max_or_zero (map se_seq (filter (\<lambda>e. se_analysis e = a) evs)) + 1"

definition add_stream_event_on_connection ::
  "todo_db \<Rightarrow> uuid \<Rightarrow> uuid \<Rightarrow> uuid \<Rightarrow> string \<Rightarrow> todo_result \<Rightarrow> uuid option \<Rightarrow> string option \<Rightarrow> todo_db" where
  "add_stream_event_on_connection db fresh a g ty payload turn st =
     db\<lparr>agent_stream_events := agent_stream_events db @
        [\<lparr>se_id = fresh, se_analysis = a, se_agent = g, se_turn = turn,
          se_seq = next_seq a (agent_stream_events db), se_type = ty, se_payload = payload,
          se_state = st\<rparr>]\<rparr>"

definition pg_add_todo_list :: "todo_db \<Rightarrow> todo_call \<Rightarrow> todo_db \<times> todo_result" where
  "pg_add_todo_list db c =
     (case find_tool_call (c_tool_call c) (agent_todo_lists db) of
        Some replay_row \<Rightarrow> (db, todo_result_of replay_row)
      | None \<Rightarrow>
          (let m = max_version (rows_of_agent (c_agent c) (agent_todo_lists db)) + 1;
               v = (if m = 0 then 1 else m);
               row = todo_row_of c v;
               result = todo_result_of row;
               db1 = db\<lparr>agent_todo_lists := agent_todo_lists db @ [row]\<rparr>
           in (add_stream_event_on_connection db1 (c_stream_fresh c) (c_analysis c) (c_agent c)
                 ''todo_update'' result (c_turn c) (Some ''completed''), result)))"

text \<open>\<^verbatim>\<open>ORDER BY version DESC LIMIT 1\<close>\<close>

definition pg_latest_todo_list :: "todo_db \<Rightarrow> uuid \<Rightarrow> todo_result option" where
  "pg_latest_todo_list db a =
     (case rows_of_agent a (agent_todo_lists db) of
        [] \<Rightarrow> None
      | row # rest \<Rightarrow> Some (todo_result_of (max_by_version row rest)))"

section \<open>The service\<close>

text \<open>\<^verbatim>\<open>TodoService.update\<close> over any store; \<open>add\<close> is the store's \<^verbatim>\<open>add_todo_list\<close>.\<close>

definition todo_service_update ::
  "('s \<Rightarrow> todo_call \<Rightarrow> 's \<times> todo_result) \<Rightarrow> 's \<Rightarrow> todo_call \<Rightarrow> json \<Rightarrow> json \<Rightarrow> todo_error + 's \<times> todo_result" where
  "todo_service_update add st c items note_value =
     rbind (normalize_todo_items items) (\<lambda>normalized_items.
     rbind (normalize_note note_value) (\<lambda>normalized_note.
       Inr (add st (c\<lparr>c_items := normalized_items, c_note := normalized_note\<rparr>))))"

definition todo_service_latest :: "('s \<Rightarrow> uuid \<Rightarrow> todo_result option) \<Rightarrow> 's \<Rightarrow> uuid \<Rightarrow> todo_result option" where
  "todo_service_latest latest st a = latest st a"

section \<open>Validated lists\<close>

definition valid_item :: "todo_item \<Rightarrow> bool" where
  "valid_item it =
     (TODO_ID_PATTERN (item_id it) \<and> item_title it \<noteq> [] \<and> length (item_title it) \<le> 80 \<and>
      item_status it \<in> set TODO_STATUSES)"

definition valid_todo_items :: "todo_item list \<Rightarrow> bool" where
  "valid_todo_items items =
     (items \<noteq> [] \<and> length items \<le> 8 \<and> distinct (map item_id items) \<and> list_all valid_item items \<and>
      (count_status ''completed'' items = length items \<or> count_status ''in_progress'' items = 1))"

definition item_json :: "todo_item \<Rightarrow> json" where
  "item_json it =
     JObj [(''id'', JStr (item_id it)), (''title'', JStr (item_title it)), (''status'', JStr (item_status it))]"

lemma normalize_items_loop_sound:
  "normalize_items_loop raws seen items = Inr out \<Longrightarrow>
   set seen = set (map item_id items) \<Longrightarrow> distinct (map item_id items) \<Longrightarrow> list_all valid_item items \<Longrightarrow>
   length out = length items + length raws \<and> distinct (map item_id out) \<and> list_all valid_item out"
proof (induction raws arbitrary: seen items)
  case Nil
  then show ?case by simp
next
  case (Cons raw rest)
  obtain d where d: "raw = JObj d" using Cons.prems(1) by (cases raw) auto
  define it where "it = \<lparr>item_id = stripped_field d ''id'', item_title = stripped_field d ''title'',
    item_status = stripped_field d ''status''\<rparr>"
  have ok: "valid_item it" "item_id it \<notin> set seen"
    and rest: "normalize_items_loop rest (item_id it # seen) (items @ [it]) = Inr out"
    using Cons.prems(1) by (auto simp: d Let_def it_def valid_item_def split: if_splits)
  from Cons.IH [OF rest] ok Cons.prems show ?case by auto
qed

lemma normalize_todo_items_sound: "normalize_todo_items v = Inr items \<Longrightarrow> valid_todo_items items"
proof -
  assume n: "normalize_todo_items v = Inr items"
  then obtain raws where v: "v = JList raws" and r: "raws \<noteq> []" "length raws \<le> 8"
    and l: "normalize_items_loop raws [] [] = Inr items"
    and c: "count_status ''completed'' items = length items \<or> count_status ''in_progress'' items = 1"
    by (cases v) (auto simp: normalize_todo_items_def result_simps split: if_splits)
  from normalize_items_loop_sound [OF l] r c show ?thesis
    by (auto simp: valid_todo_items_def)
qed

lemma stripped_field_json:
  assumes "map_of d k = Some (JStr s)" "py_strip s = s"
  shows "stripped_field d k = s"
  using assms by (auto simp: stripped_field_def obj_get_def py_or_def py_str_def)

lemma normalize_items_loop_complete:
  "list_all (\<lambda>it. valid_item it \<and> py_strip (item_id it) = item_id it \<and>
      py_strip (item_title it) = item_title it \<and> py_strip (item_status it) = item_status it) its \<Longrightarrow>
   distinct (map item_id its) \<Longrightarrow> set seen \<inter> set (map item_id its) = {} \<Longrightarrow>
   normalize_items_loop (map item_json its) seen items = Inr (items @ its)"
proof (induction its arbitrary: seen items)
  case Nil
  then show ?case by simp
next
  case (Cons it its)
  let ?d = "[(''id'', JStr (item_id it)), (''title'', JStr (item_title it)), (''status'', JStr (item_status it))]"
  have f: "stripped_field ?d ''id'' = item_id it" "stripped_field ?d ''title'' = item_title it"
    "stripped_field ?d ''status'' = item_status it"
    using Cons.prems(1) by (auto intro!: stripped_field_json)
  have "normalize_items_loop (map item_json its) (item_id it # seen) (items @ [it]) = Inr ((items @ [it]) @ its)"
    using Cons.prems by (intro Cons.IH) auto
  moreover have e: "\<lparr>item_id = item_id it, item_title = item_title it, item_status = item_status it\<rparr> = it" by simp
  ultimately show ?case
    using Cons.prems by (simp add: item_json_def [of it] f e Let_def valid_item_def)
qed

text \<open>
  an update is accepted exactly in good shape: whatever JSON value a tool call sends, an accepted
  list has 1 to 8 items with distinct slug ids, titles of 1 to 80 characters and known statuses, and
  either every item is completed or exactly one is in progress; and every such list whose fields carry
  no white space around them is accepted unchanged when sent as JSON objects.
\<close>
theorem todo_items_validated:
  "(normalize_todo_items v = Inr items \<longrightarrow> valid_todo_items items) \<and>
   (valid_todo_items its \<and> (\<forall>it \<in> set its. py_strip (item_title it) = item_title it) \<longrightarrow>
      normalize_todo_items (JList (map item_json its)) = Inr its)"
proof (intro conjI impI)
  assume a: "valid_todo_items its \<and> (\<forall>it \<in> set its. py_strip (item_title it) = item_title it)"
  have slug: "py_strip s = s" if "slug_pattern n s" for n s
  proof -
    have "\<not> is_space c" if "c \<in> set s" for c
      using that \<open>slug_pattern n s\<close>
      by (auto simp: slug_pattern_def list_all_iff is_space_def is_lower_ascii_def is_digit_def Let_def
          code_point_def split: list.splits)
    then show ?thesis unfolding py_strip_def by (rule strip_by_absent)
  qed
  have st: "py_strip s = s" if "s \<in> set TODO_STATUSES" for s
  proof -
    have "list_all (\<lambda>s. py_strip s = s) TODO_STATUSES" by code_simp
    with that show ?thesis by (simp add: list_all_iff)
  qed
  have "normalize_items_loop (map item_json its) [] [] = Inr ([] @ its)"
  proof (rule normalize_items_loop_complete)
    show "list_all (\<lambda>it. valid_item it \<and> py_strip (item_id it) = item_id it \<and>
        py_strip (item_title it) = item_title it \<and> py_strip (item_status it) = item_status it) its"
      using a by (auto simp: valid_todo_items_def list_all_iff valid_item_def TODO_ID_PATTERN_def intro: slug st)
  qed (use a in \<open>auto simp: valid_todo_items_def\<close>)
  with a show "normalize_todo_items (JList (map item_json its)) = Inr its"
    by (auto simp: normalize_todo_items_def valid_todo_items_def)
qed (rule normalize_todo_items_sound)

definition sample_items :: "todo_item list" where
  "sample_items =
     [\<lparr>item_id = ''scan'', item_title = ''Scan the tree'', item_status = ''completed''\<rparr>,
      \<lparr>item_id = ''write-up'', item_title = ''Write'', item_status = ''in_progress''\<rparr>]"

theorem todo_items_validated_witness:
  "valid_todo_items sample_items \<and> normalize_todo_items (JList (map item_json sample_items)) = Inr sample_items"
proof -
  have "valid_todo_items sample_items" by code_simp
  moreover have "\<forall>it \<in> set sample_items. py_strip (item_title it) = item_title it" by code_simp
  ultimately show ?thesis using todo_items_validated by blast
qed

section \<open>The store interface\<close>

text \<open>
  What \<^verbatim>\<open>TodoStore\<close> promises, over the rows a store holds: a known tool call is answered from its row,
  a new one appends a row with the agent's next version, and \<^verbatim>\<open>latest_todo_list\<close> reads the agent's
  greatest version.
\<close>

definition next_version :: "todo_row list \<Rightarrow> uuid \<Rightarrow> int" where
  "next_version rows a = max_version (rows_of_agent a rows) + 1"

definition versions :: "todo_row list \<Rightarrow> uuid \<Rightarrow> int list" where
  "versions rows a = map td_version (rows_of_agent a rows)"

definition well_numbered :: "todo_row list \<Rightarrow> bool" where
  "well_numbered rows = (\<forall>a. numbered (versions rows a))"

lemma find_tool_call_None: "find_tool_call t rows = None \<longleftrightarrow> t \<notin> set (map td_tool_call_id rows)"
  by (auto simp: find_tool_call_def find_None_iff)

lemma find_tool_call_snoc:
  "find_tool_call t (rows @ [row]) =
     (case find_tool_call t rows of Some r \<Rightarrow> Some r | None \<Rightarrow> (if td_tool_call_id row = t then Some row else None))"
  unfolding find_tool_call_def by (induction rows) auto

lemma max_by_version_greatest:
  "(\<And>r. r \<in> set rows \<Longrightarrow> td_version r < td_version last_row) \<Longrightarrow>
   (rows = [] \<or> td_version best < td_version last_row) \<Longrightarrow>
   max_by_version best (rows @ [last_row]) = last_row \<or> rows = [] \<and> \<not> td_version best < td_version last_row"
  by (induction rows arbitrary: best) auto

lemma next_version_greater: "r \<in> set (rows_of_agent a rows) \<Longrightarrow> td_version r < next_version rows a"
  unfolding next_version_def max_version_def
  by (rule zle_add1_eq_le [THEN iffD2]) (auto intro: max_or_zero_ge)

lemma rows_of_agent_snoc:
  "rows_of_agent a (rows @ [row]) = rows_of_agent a rows @ (if td_agent_id row = a then [row] else [])"
  by (simp add: rows_of_agent_def)

lemma well_numbered_snoc:
  "well_numbered rows \<Longrightarrow> well_numbered (rows @ [todo_row_of c (next_version rows (c_agent c))])"
  by (auto simp: well_numbered_def versions_def rows_of_agent_snoc todo_row_of_def next_version_def max_version_def
      intro: numbered_snoc)

locale todo_store =
  fixes add :: "'s \<Rightarrow> todo_call \<Rightarrow> 's \<times> todo_result"
    and latest :: "'s \<Rightarrow> uuid \<Rightarrow> todo_result option"
    and rows :: "'s \<Rightarrow> todo_row list"
  assumes add_known: "find_tool_call (c_tool_call c) (rows st) = Some r \<Longrightarrow> add st c = (st, todo_result_of r)"
    and add_new_rows: "well_numbered (rows st) \<Longrightarrow> find_tool_call (c_tool_call c) (rows st) = None \<Longrightarrow>
        rows (fst (add st c)) = rows st @ [todo_row_of c (next_version (rows st) (c_agent c))]"
    and add_new_result: "well_numbered (rows st) \<Longrightarrow> find_tool_call (c_tool_call c) (rows st) = None \<Longrightarrow>
        snd (add st c) = todo_result_of (todo_row_of c (next_version (rows st) (c_agent c)))"
    and latest_rows: "latest st a =
        (case rows_of_agent a (rows st) of [] \<Rightarrow> None | r # rs \<Rightarrow> Some (todo_result_of (max_by_version r rs)))"
begin

lemma add_well_numbered: "well_numbered (rows st) \<Longrightarrow> well_numbered (rows (fst (add st c)))"
  by (cases "find_tool_call (c_tool_call c) (rows st)") (auto simp: add_known add_new_rows well_numbered_snoc)

lemma run_well_numbered: "well_numbered (rows st) \<Longrightarrow> well_numbered (rows (foldl (\<lambda>s c. fst (add s c)) st cs))"
  by (induction cs arbitrary: st) (auto intro: add_well_numbered)

lemma add_twice:
  assumes "well_numbered (rows st)" "c_tool_call c' = c_tool_call c"
  shows "add (fst (add st c)) c' = add st c"
proof (cases "find_tool_call (c_tool_call c) (rows st)")
  case (Some r)
  then show ?thesis by (simp add: add_known assms)
next
  case None
  let ?row = "todo_row_of c (next_version (rows st) (c_agent c))"
  have "find_tool_call (c_tool_call c') (rows (fst (add st c))) = Some ?row"
    by (simp add: add_new_rows assms None find_tool_call_snoc) (simp add: todo_row_of_def)
  then show ?thesis
    using add_known add_new_result [OF assms(1) None] by (simp add: prod_eq_iff)
qed

lemma latest_after_add:
  assumes "well_numbered (rows st)" "find_tool_call (c_tool_call c) (rows st) = None"
  shows "latest (fst (add st c)) a = (if a = c_agent c then Some (snd (add st c)) else latest st a)"
proof (cases "a = c_agent c")
  case True
  let ?row = "todo_row_of c (next_version (rows st) (c_agent c))"
  have r: "rows_of_agent a (rows (fst (add st c))) = rows_of_agent a (rows st) @ [?row]"
    by (simp add: add_new_rows assms rows_of_agent_snoc) (simp add: todo_row_of_def True)
  have "max_by_version r (rs @ [?row]) = ?row" if "rows_of_agent a (rows st) = r # rs" for r rs
  proof -
    have "td_version x < td_version ?row" if "x \<in> set (r # rs)" for x
      using next_version_greater [of x a "rows st"] that \<open>rows_of_agent a (rows st) = r # rs\<close>
      by (simp add: todo_row_of_def True)
    then show ?thesis using max_by_version_greatest [of rs ?row r] by auto
  qed
  then have "(case rows_of_agent a (rows st) @ [?row] of [] \<Rightarrow> None
      | r # rs \<Rightarrow> Some (todo_result_of (max_by_version r rs))) = Some (todo_result_of ?row)"
    by (cases "rows_of_agent a (rows st)") auto
  with True show ?thesis
    by (simp add: latest_rows [of "fst (add st c)"] r [unfolded True] add_new_result assms)
next
  case False
  then show ?thesis
    by (simp add: latest_rows add_new_rows assms rows_of_agent_snoc) (simp add: todo_row_of_def)
qed

end

interpretation mem_todo: todo_store mem_add_todo_list mem_latest_todo_list "\<lambda>rows. rows"
  by unfold_locales
    (auto simp: mem_add_todo_list_def mem_latest_todo_list_def next_version_def Let_def)

lemma next_version_pos: "well_numbered rows \<Longrightarrow> next_version rows a > 0"
  by (simp add: well_numbered_def versions_def next_version_def max_version_def max_or_zero_numbered)

interpretation pg_todo: todo_store pg_add_todo_list pg_latest_todo_list agent_todo_lists
proof (unfold_locales, goal_cases)
  case (2 st c)
  then show ?case using next_version_pos [of "agent_todo_lists st" "c_agent c"]
    by (simp add: pg_add_todo_list_def next_version_def Let_def add_stream_event_on_connection_def)
next
  case (3 st c)
  then show ?case using next_version_pos [of "agent_todo_lists st" "c_agent c"]
    by (simp add: pg_add_todo_list_def next_version_def Let_def)
qed (simp_all add: pg_add_todo_list_def pg_latest_todo_list_def)

text \<open>
  For every sequence of calls on either store, starting from the empty one, an agent's versions are
  1, 2, 3 and so on in the order the lists were stored, with no gap and no repetition.
\<close>
theorem todo_versions_consecutive:
  "numbered (versions (foldl (\<lambda>s c. fst (mem_add_todo_list s c)) [] cs) a) \<and>
   numbered (versions (agent_todo_lists (foldl (\<lambda>s c. fst (pg_add_todo_list s c))
     \<lparr>agent_todo_lists = [], agent_stream_events = []\<rparr> cs)) a)"
proof -
  have "well_numbered []" by (simp add: well_numbered_def versions_def rows_of_agent_def)
  then have "well_numbered (foldl (\<lambda>s c. fst (mem_add_todo_list s c)) [] cs)"
    and "well_numbered (agent_todo_lists (foldl (\<lambda>s c. fst (pg_add_todo_list s c))
      \<lparr>agent_todo_lists = [], agent_stream_events = []\<rparr> cs))"
    using mem_todo.run_well_numbered [of "[]" cs]
      pg_todo.run_well_numbered [of "\<lparr>agent_todo_lists = [], agent_stream_events = []\<rparr>" cs] by simp_all
  then show ?thesis by (simp add: well_numbered_def)
qed

text \<open>
  A tool call that is delivered again, even with other items, changes neither store and gets the
  first answer; a new call becomes the agent's latest list and leaves every other agent's list alone.
\<close>
theorem todo_replay_and_latest:
  assumes "well_numbered (agent_todo_lists db)"
  shows "(c_tool_call c' = c_tool_call c \<longrightarrow> pg_add_todo_list (fst (pg_add_todo_list db c)) c' = pg_add_todo_list db c) \<and>
    (find_tool_call (c_tool_call c) (agent_todo_lists db) = None \<longrightarrow>
       pg_latest_todo_list (fst (pg_add_todo_list db c)) a =
         (if a = c_agent c then Some (snd (pg_add_todo_list db c)) else pg_latest_todo_list db a))"
  using pg_todo.add_twice [OF assms] pg_todo.latest_after_add [OF assms] by blast

definition sample_call :: "uuid \<Rightarrow> todo_call" where
  "sample_call t = \<lparr>c_analysis = 1, c_agent = 2, c_turn = None, c_tool_call = t, c_items = sample_items,
     c_note = None, c_fresh = 4, c_stream_fresh = 5, c_now = 0\<rparr>"

definition empty_todo_db :: todo_db where
  "empty_todo_db = \<lparr>agent_todo_lists = [], agent_stream_events = []\<rparr>"

theorem todo_replay_and_latest_witness:
  "pg_add_todo_list (fst (pg_add_todo_list empty_todo_db (sample_call 3))) (sample_call 3) =
     pg_add_todo_list empty_todo_db (sample_call 3) \<and>
   pg_latest_todo_list (fst (pg_add_todo_list empty_todo_db (sample_call 3))) 2 =
     Some (snd (pg_add_todo_list empty_todo_db (sample_call 3)))"
proof -
  have h: "well_numbered (agent_todo_lists empty_todo_db)"
    by (simp add: well_numbered_def versions_def rows_of_agent_def empty_todo_db_def)
  show ?thesis
    using todo_replay_and_latest [OF h, of "sample_call 3" "sample_call 3" 2]
    by (simp add: find_tool_call_def empty_todo_db_def sample_call_def)
qed

text \<open>
  The Postgres store refines the in-memory one: along any sequence of calls they hold the same
  rows and give the same answers, and Postgres adds one \<^verbatim>\<open>todo_update\<close> stream event per stored list,
  numbered 1, 2, 3 and so on within each analysis.
\<close>
theorem todo_pg_refines_memory:
  "agent_todo_lists (foldl (\<lambda>s c. fst (pg_add_todo_list s c)) empty_todo_db cs) =
     foldl (\<lambda>s c. fst (mem_add_todo_list s c)) [] cs \<and>
   snd (pg_add_todo_list (foldl (\<lambda>s c. fst (pg_add_todo_list s c)) empty_todo_db cs) c) =
     snd (mem_add_todo_list (foldl (\<lambda>s c. fst (mem_add_todo_list s c)) [] cs) c) \<and>
   length (agent_stream_events (foldl (\<lambda>s c. fst (pg_add_todo_list s c)) empty_todo_db cs)) =
     length (foldl (\<lambda>s c. fst (mem_add_todo_list s c)) [] cs) \<and>
   numbered (map se_seq (filter (\<lambda>e. se_analysis e = a)
     (agent_stream_events (foldl (\<lambda>s c. fst (pg_add_todo_list s c)) empty_todo_db cs))))"
proof -
  let ?pg = "\<lambda>cs. foldl (\<lambda>s c. fst (pg_add_todo_list s c)) empty_todo_db cs"
  let ?mem = "\<lambda>cs. foldl (\<lambda>s c. fst (mem_add_todo_list s c)) [] cs"
  have w: "well_numbered (?mem cs)" for cs
    using mem_todo.run_well_numbered [of "[]" cs]
    by (simp add: well_numbered_def versions_def rows_of_agent_def)
  have step: "agent_todo_lists (fst (pg_add_todo_list db c)) = fst (mem_add_todo_list (agent_todo_lists db) c) \<and>
      snd (pg_add_todo_list db c) = snd (mem_add_todo_list (agent_todo_lists db) c)"
    if "well_numbered (agent_todo_lists db)" for db c
  proof (cases "find_tool_call (c_tool_call c) (agent_todo_lists db)")
    case None
    with that show ?thesis by (simp add: pg_todo.add_new_rows pg_todo.add_new_result mem_todo.add_new_rows mem_todo.add_new_result)
  next
    case (Some r)
    then show ?thesis by (simp add: pg_todo.add_known mem_todo.add_known)
  qed
  have inv: "agent_todo_lists (?pg cs) = ?mem cs \<and> length (agent_stream_events (?pg cs)) = length (?mem cs) \<and>
      numbered (map se_seq (filter (\<lambda>e. se_analysis e = a) (agent_stream_events (?pg cs))))" for cs
  proof (induction cs rule: rev_induct)
    case Nil
    then show ?case by (simp add: empty_todo_db_def)
  next
    case (snoc c cs)
    let ?db = "?pg cs"
    have wd: "well_numbered (agent_todo_lists ?db)" using snoc w [of cs] by simp
    show ?case
    proof (cases "find_tool_call (c_tool_call c) (agent_todo_lists ?db)")
      case (Some r)
      then show ?thesis using snoc step [OF wd, of c] by (simp add: pg_todo.add_known mem_todo.add_known)
    next
      case None
      then have e: "agent_stream_events (fst (pg_add_todo_list ?db c)) = agent_stream_events ?db @
          [\<lparr>se_id = c_stream_fresh c, se_analysis = c_analysis c, se_agent = c_agent c, se_turn = c_turn c,
            se_seq = next_seq (c_analysis c) (agent_stream_events ?db), se_type = ''todo_update'',
            se_payload = snd (pg_add_todo_list ?db c), se_state = Some ''completed''\<rparr>]"
        by (simp add: pg_add_todo_list_def add_stream_event_on_connection_def Let_def)
      show ?thesis
        using snoc step [OF wd, of c] None mem_todo.add_new_rows [OF wd None]
        by (auto simp: e next_seq_def intro: numbered_snoc)
    qed
  qed
  show ?thesis using inv [of cs] step [of "?pg cs" c] w [of cs] by simp
qed

end
