(* ===== verification/Events.thy ===== *)
theory Events
  imports Prelude
begin

text \<open>
  Events (\<^verbatim>\<open>backend/events\<close>): the event types and envelopes of \<^verbatim>\<open>types.py\<close> and \<^verbatim>\<open>envelope.py\<close>, the
  topics and partition keys of \<^verbatim>\<open>routing.py\<close>, the publisher and the transactional outbox
  (\<^verbatim>\<open>publisher.py\<close>, \<^verbatim>\<open>outbox.py\<close>, \<^verbatim>\<open>repositories.py\<close>). A message value is the JSON value its bytes decode
  to. A \<^verbatim>\<open>datetime\<close> is its ISO 8601 text, and \<^verbatim>\<open>datetime.fromisoformat\<close> is the argument \<open>fromiso\<close>.
\<close>

section \<open>Types (\<^verbatim>\<open>types.py\<close>)\<close>

datatype event_type =
    ANALYSIS_BATCH_SUBMITTED | ANALYSIS_BATCH_SLOT_AVAILABLE | ANALYSIS_REQUESTED
  | ANALYSIS_CANCEL_REQUESTED | SNAPSHOT_REQUESTED | SNAPSHOT_STARTED | SNAPSHOT_READY
  | SNAPSHOT_FAILED | AGENT_CONTINUE_REQUESTED | AGENT_STARTED | AGENT_WAITING_FOR_TOOL
  | AGENT_COMPACTED | ANALYSIS_COMPLETED | ANALYSIS_FAILED | ANALYSIS_CANCELLED
  | TOOL_CALL_REQUESTED | TOOL_CALL_STARTED | TOOL_CALL_COMPLETED | TOOL_CALL_FAILED
  | TOOL_CALL_DENIED | EVENT_PROCESSING_FAILED

fun type_value :: "event_type \<Rightarrow> string" where
  "type_value ANALYSIS_BATCH_SUBMITTED = ''AnalysisBatchSubmitted''"
| "type_value ANALYSIS_BATCH_SLOT_AVAILABLE = ''AnalysisBatchSlotAvailable''"
| "type_value ANALYSIS_REQUESTED = ''AnalysisRequested''"
| "type_value ANALYSIS_CANCEL_REQUESTED = ''AnalysisCancelRequested''"
| "type_value SNAPSHOT_REQUESTED = ''SnapshotRequested''"
| "type_value SNAPSHOT_STARTED = ''SnapshotStarted''"
| "type_value SNAPSHOT_READY = ''SnapshotReady''"
| "type_value SNAPSHOT_FAILED = ''SnapshotFailed''"
| "type_value AGENT_CONTINUE_REQUESTED = ''AgentContinueRequested''"
| "type_value AGENT_STARTED = ''AgentStarted''"
| "type_value AGENT_WAITING_FOR_TOOL = ''AgentWaitingForTool''"
| "type_value AGENT_COMPACTED = ''AgentCompacted''"
| "type_value ANALYSIS_COMPLETED = ''AnalysisCompleted''"
| "type_value ANALYSIS_FAILED = ''AnalysisFailed''"
| "type_value ANALYSIS_CANCELLED = ''AnalysisCancelled''"
| "type_value TOOL_CALL_REQUESTED = ''ToolCallRequested''"
| "type_value TOOL_CALL_STARTED = ''ToolCallStarted''"
| "type_value TOOL_CALL_COMPLETED = ''ToolCallCompleted''"
| "type_value TOOL_CALL_FAILED = ''ToolCallFailed''"
| "type_value TOOL_CALL_DENIED = ''ToolCallDenied''"
| "type_value EVENT_PROCESSING_FAILED = ''EventProcessingFailed''"

definition all_event_types :: "event_type list" where
  "all_event_types =
     [ANALYSIS_BATCH_SUBMITTED, ANALYSIS_BATCH_SLOT_AVAILABLE, ANALYSIS_REQUESTED,
      ANALYSIS_CANCEL_REQUESTED, SNAPSHOT_REQUESTED, SNAPSHOT_STARTED, SNAPSHOT_READY,
      SNAPSHOT_FAILED, AGENT_CONTINUE_REQUESTED, AGENT_STARTED, AGENT_WAITING_FOR_TOOL,
      AGENT_COMPACTED, ANALYSIS_COMPLETED, ANALYSIS_FAILED, ANALYSIS_CANCELLED,
      TOOL_CALL_REQUESTED, TOOL_CALL_STARTED, TOOL_CALL_COMPLETED, TOOL_CALL_FAILED,
      TOOL_CALL_DENIED, EVENT_PROCESSING_FAILED]"

text \<open>\<^verbatim>\<open>EventType(value)\<close>, which raises \<^verbatim>\<open>ValueError\<close> for an unknown value.\<close>

definition type_of_value :: "string \<Rightarrow> event_type option" where
  "type_of_value s = List.find (\<lambda>t. type_value t = s) all_event_types"

section \<open>Envelopes (\<^verbatim>\<open>envelope.py\<close>)\<close>

type_synonym payload = "(string \<times> json) list"

record envelope =
  event_id :: uuid
  schema_version :: json
  event_type :: event_type
  occurred_at :: string
  correlation_id :: uuid
  causation_id :: "uuid option"
  analysis_id :: "uuid option"
  agent_id :: "uuid option"
  snapshot_id :: "uuid option"
  attempt :: json
  payload :: payload

datatype envelope_error = EKeyError string | EValueError | ETypeError | EAttributeError

text \<open>
  \<^verbatim>\<open>EventEnvelope.new\<close>: \<open>fresh_id\<close> and \<open>fresh_correlation\<close> are the two \<^verbatim>\<open>new_uuid7()\<close> values it may draw,
  \<open>now\<close> the time.
\<close>

definition envelope_new ::
  "uuid \<Rightarrow> uuid \<Rightarrow> string \<Rightarrow> event_type \<Rightarrow> uuid option \<Rightarrow> uuid option \<Rightarrow> uuid option \<Rightarrow> uuid option \<Rightarrow>
   uuid option \<Rightarrow> payload option \<Rightarrow> envelope" where
  "envelope_new fresh_id fresh_correlation now ty analysis agent snapshot correlation causation pl =
     \<lparr>event_id = fresh_id, schema_version = JInt 1, event_type = ty, occurred_at = now,
      correlation_id = (case correlation of Some c \<Rightarrow> c
        | None \<Rightarrow> (case analysis of Some a \<Rightarrow> a | None \<Rightarrow> fresh_correlation)),
      causation_id = causation, analysis_id = analysis, agent_id = agent, snapshot_id = snapshot,
      attempt = JInt 1, payload = (case pl of None \<Rightarrow> [] | Some p \<Rightarrow> p)\<rparr>"

definition uuid_json :: "uuid option \<Rightarrow> json" where
  "uuid_json u = (case u of None \<Rightarrow> JNull | Some v \<Rightarrow> JStr (uuid_str v))"

definition to_dict :: "envelope \<Rightarrow> (string \<times> json) list" where
  "to_dict e =
     [(''event_id'', JStr (uuid_str (event_id e))),
      (''schema_version'', schema_version e),
      (''event_type'', JStr (type_value (event_type e))),
      (''occurred_at'', JStr (occurred_at e)),
      (''correlation_id'', JStr (uuid_str (correlation_id e))),
      (''causation_id'', uuid_json (causation_id e)),
      (''analysis_id'', uuid_json (analysis_id e)),
      (''agent_id'', uuid_json (agent_id e)),
      (''snapshot_id'', uuid_json (snapshot_id e)),
      (''attempt'', attempt e),
      (''payload'', JObj (payload e))]"

definition with_attempt :: "envelope \<Rightarrow> json \<Rightarrow> envelope" where
  "with_attempt e n = e\<lparr>attempt := n\<rparr>"

text \<open>\<^verbatim>\<open>UUID(value)\<close>: \<^verbatim>\<open>TypeError\<close> for None, \<^verbatim>\<open>AttributeError\<close> for a value that is no string.\<close>

definition uuid_of_json :: "json \<Rightarrow> envelope_error + uuid" where
  "uuid_of_json v = (case v of
       JStr s \<Rightarrow> (case parse_uuid s of None \<Rightarrow> Inl EValueError | Some u \<Rightarrow> Inr u)
     | JNull \<Rightarrow> Inl ETypeError
     | _ \<Rightarrow> Inl EAttributeError)"

definition optional_uuid :: "json \<Rightarrow> envelope_error + uuid option" where
  "optional_uuid v = (if truthy v then rbind (uuid_of_json v) (\<lambda>u. Inr (Some u)) else Inr None)"

definition required :: "(string \<times> json) list \<Rightarrow> string \<Rightarrow> envelope_error + json" where
  "required data k = (case map_of data k of None \<Rightarrow> Inl (EKeyError k) | Some v \<Rightarrow> Inr v)"

definition event_type_of_json :: "json \<Rightarrow> envelope_error + event_type" where
  "event_type_of_json v = (case v of
       JStr s \<Rightarrow> (case type_of_value s of None \<Rightarrow> Inl EValueError | Some t \<Rightarrow> Inr t)
     | _ \<Rightarrow> Inl EValueError)"

definition datetime_of_json :: "(string \<Rightarrow> string option) \<Rightarrow> json \<Rightarrow> envelope_error + string" where
  "datetime_of_json fromiso v = (case v of
       JStr s \<Rightarrow> (case fromiso s of None \<Rightarrow> Inl EValueError | Some d \<Rightarrow> Inr d)
     | _ \<Rightarrow> Inl ETypeError)"

definition from_dict :: "(string \<Rightarrow> string option) \<Rightarrow> (string \<times> json) list \<Rightarrow> envelope_error + envelope" where
  "from_dict fromiso data =
     rbind (rbind (required data ''event_id'') uuid_of_json) (\<lambda>eid.
     rbind (required data ''schema_version'') (\<lambda>sv.
     rbind (rbind (required data ''event_type'') event_type_of_json) (\<lambda>ty.
     rbind (rbind (required data ''occurred_at'') (datetime_of_json fromiso)) (\<lambda>at.
     rbind (rbind (required data ''correlation_id'') uuid_of_json) (\<lambda>cor.
     rbind (optional_uuid (obj_get data ''causation_id'')) (\<lambda>cau.
     rbind (optional_uuid (obj_get data ''analysis_id'')) (\<lambda>ana.
     rbind (optional_uuid (obj_get data ''agent_id'')) (\<lambda>agt.
     rbind (optional_uuid (obj_get data ''snapshot_id'')) (\<lambda>snp.
     rbind (required data ''attempt'') (\<lambda>att.
     rbind (required data ''payload'') (\<lambda>pl.
       Inr \<lparr>event_id = eid, schema_version = sv, event_type = ty, occurred_at = at,
            correlation_id = cor, causation_id = cau, analysis_id = ana, agent_id = agt,
            snapshot_id = snp, attempt = att,
            payload = (case pl of JObj d \<Rightarrow> d | _ \<Rightarrow> [])\<rparr>)))))))))))"

text \<open>\<^verbatim>\<open>from_json\<close> after \<^verbatim>\<open>json.loads\<close>: only an object is an envelope.\<close>

definition from_json :: "(string \<Rightarrow> string option) \<Rightarrow> json \<Rightarrow> envelope_error + envelope" where
  "from_json fromiso v = (case v of JObj d \<Rightarrow> from_dict fromiso d | _ \<Rightarrow> Inl EValueError)"

definition to_json :: "envelope \<Rightarrow> json" where
  "to_json e = JObj (to_dict e)"

section \<open>Routing (\<^verbatim>\<open>routing.py\<close>)\<close>

definition ANALYSIS_COMMAND_TOPICS :: "(event_type \<times> string) list" where
  "ANALYSIS_COMMAND_TOPICS =
     [(ANALYSIS_REQUESTED, ''deepdive.analysis.commands''),
      (ANALYSIS_CANCEL_REQUESTED, ''deepdive.analysis.commands'')]"

definition ANALYSIS_BATCH_SCHEDULER_COMMAND_TOPICS :: "(event_type \<times> string) list" where
  "ANALYSIS_BATCH_SCHEDULER_COMMAND_TOPICS =
     [(ANALYSIS_BATCH_SUBMITTED, ''deepdive.analysis-batch.commands''),
      (ANALYSIS_BATCH_SLOT_AVAILABLE, ''deepdive.analysis-batch.commands''),
      (ANALYSIS_COMPLETED, ''deepdive.analysis-batch.commands''),
      (ANALYSIS_FAILED, ''deepdive.analysis-batch.commands''),
      (ANALYSIS_CANCELLED, ''deepdive.analysis-batch.commands'')]"

definition SNAPSHOT_COMMAND_TOPICS :: "(event_type \<times> string) list" where
  "SNAPSHOT_COMMAND_TOPICS = [(SNAPSHOT_REQUESTED, ''deepdive.snapshot.commands'')]"

definition AGENT_INBOX_TOPICS :: "(event_type \<times> string) list" where
  "AGENT_INBOX_TOPICS =
     [(SNAPSHOT_READY, ''deepdive.agent.commands''),
      (AGENT_CONTINUE_REQUESTED, ''deepdive.agent.commands''),
      (TOOL_CALL_COMPLETED, ''deepdive.agent.commands''),
      (TOOL_CALL_FAILED, ''deepdive.agent.commands''),
      (TOOL_CALL_DENIED, ''deepdive.agent.commands'')]"

definition EXECUTION_COMMAND_TOPICS :: "(event_type \<times> string) list" where
  "EXECUTION_COMMAND_TOPICS = [(TOOL_CALL_REQUESTED, ''deepdive.execution.commands'')]"

text \<open>The merged dictionary: a later group would win for a repeated key.\<close>

definition COMMAND_TOPICS :: "event_type \<rightharpoonup> string" where
  "COMMAND_TOPICS =
     map_of ANALYSIS_COMMAND_TOPICS ++ map_of ANALYSIS_BATCH_SCHEDULER_COMMAND_TOPICS ++
     map_of SNAPSHOT_COMMAND_TOPICS ++ map_of AGENT_INBOX_TOPICS ++ map_of EXECUTION_COMMAND_TOPICS"

definition STREAM_TOPICS :: "event_type \<rightharpoonup> string" where
  "STREAM_TOPICS = Map.empty"

definition DLQ_TOPICS :: "event_type \<rightharpoonup> string" where
  "DLQ_TOPICS = [EVENT_PROCESSING_FAILED \<mapsto> ''deepdive.dlq'']"

definition event_topic :: "envelope \<Rightarrow> string" where
  "event_topic e =
     (case COMMAND_TOPICS (event_type e) of Some t \<Rightarrow> t | None \<Rightarrow>
      (case STREAM_TOPICS (event_type e) of Some t \<Rightarrow> t | None \<Rightarrow>
       (case DLQ_TOPICS (event_type e) of Some t \<Rightarrow> t | None \<Rightarrow> ''deepdive.domain.events'')))"

definition event_key :: "envelope \<Rightarrow> string" where
  "event_key e =
     (let by_analysis = (case analysis_id e of Some a \<Rightarrow> uuid_str a | None \<Rightarrow> uuid_str (correlation_id e))
      in if event_type e \<in> {TOOL_CALL_REQUESTED, TOOL_CALL_STARTED, TOOL_CALL_COMPLETED,
            TOOL_CALL_FAILED, TOOL_CALL_DENIED}
         then (let t = obj_get (payload e) ''tool_call_id''
               in if truthy t then py_str t else by_analysis)
         else by_analysis)"

section \<open>Publisher and outbox\<close>

record message =
  topic :: string
  msg_key :: string
  msg_value :: json

text \<open>\<^verbatim>\<open>EventPublisher.publish\<close>; an empty override is as good as none.\<close>

definition publish :: "envelope \<Rightarrow> string option \<Rightarrow> message" where
  "publish e topic_override =
     \<lparr>topic = (case topic_override of Some t \<Rightarrow> (if t = [] then event_topic e else t) | None \<Rightarrow> event_topic e),
      msg_key = event_key e, msg_value = to_json e\<rparr>"

record outbox_row =
  ob_id :: uuid
  ob_event :: envelope
  ob_created_at :: int
  ob_published_at :: "int option"

text \<open>\<^verbatim>\<open>DbOutboxSink.add\<close>\<close>

definition outbox_add :: "outbox_row list \<Rightarrow> uuid \<Rightarrow> int \<Rightarrow> envelope \<Rightarrow> outbox_row list" where
  "outbox_add rows fresh now e =
     rows @ [\<lparr>ob_id = fresh, ob_event = e, ob_created_at = now, ob_published_at = None\<rparr>]"

text \<open>\<^verbatim>\<open>WHERE published_at IS NULL ORDER BY created_at LIMIT\<close>; rows another transaction has locked are skipped.\<close>

definition fetch_unpublished :: "outbox_row list \<Rightarrow> (uuid \<Rightarrow> bool) \<Rightarrow> nat \<Rightarrow> outbox_row list" where
  "fetch_unpublished rows locked limit =
     take limit (filter (\<lambda>r. \<not> locked (ob_id r))
       (sort_key ob_created_at (filter (\<lambda>r. ob_published_at r = None) rows)))"

definition mark_published :: "outbox_row list \<Rightarrow> int \<Rightarrow> uuid \<Rightarrow> outbox_row list" where
  "mark_published rows now i = map (\<lambda>r. if ob_id r = i then r\<lparr>ob_published_at := Some now\<rparr> else r) rows"

text \<open>
  \<^verbatim>\<open>OutboxPublisher.publish_batch\<close>: publish a row, then mark it. \<open>send_ok\<close> says for which rows Kafka
  accepts the message; where it does not, the exception leaves the loop, and the transaction of the
  whole batch rolls back, so the sent messages stay sent and no row stays marked.
\<close>

fun publish_loop ::
  "(uuid \<Rightarrow> bool) \<Rightarrow> int \<Rightarrow> outbox_row list \<Rightarrow> outbox_row list \<Rightarrow> message list \<Rightarrow> nat \<Rightarrow>
   (outbox_row list \<times> nat) option \<times> message list" where
  "publish_loop send_ok now [] rows sent published = (Some (rows, published), sent)"
| "publish_loop send_ok now (r # rs) rows sent published =
     (if send_ok (ob_id r)
      then publish_loop send_ok now rs (mark_published rows now (ob_id r))
             (sent @ [publish (ob_event r) None]) (Suc published)
      else (None, sent))"

definition publish_batch ::
  "(uuid \<Rightarrow> bool) \<Rightarrow> (uuid \<Rightarrow> bool) \<Rightarrow> int \<Rightarrow> outbox_row list \<Rightarrow> nat \<Rightarrow>
   (outbox_row list \<times> nat) option \<times> message list" where
  "publish_batch send_ok locked now rows limit =
     publish_loop send_ok now (fetch_unpublished rows locked limit) rows [] 0"

text \<open>The worker runs each batch in one transaction: a failed one leaves the table as it was.\<close>

definition publish_outbox_once ::
  "(uuid \<Rightarrow> bool) \<Rightarrow> (uuid \<Rightarrow> bool) \<Rightarrow> int \<Rightarrow> outbox_row list \<Rightarrow> nat \<Rightarrow> outbox_row list \<times> message list" where
  "publish_outbox_once send_ok locked now rows limit =
     (case publish_batch send_ok locked now rows limit of
        (Some (rows', n), sent) \<Rightarrow> (rows', sent)
      | (None, sent) \<Rightarrow> (rows, sent))"

section \<open>Envelopes survive the wire\<close>

lemma type_of_value_type_value [simp]: "type_of_value (type_value t) = Some t"
  by (cases t) (simp_all add: type_of_value_def all_event_types_def)

lemma uuid_of_json_str [simp]: "uuid_of_json (JStr (uuid_str u)) = Inr u"
  by (simp add: uuid_of_json_def)

lemma optional_uuid_json [simp]: "optional_uuid (uuid_json u) = Inr u"
  by (cases u) (simp_all add: optional_uuid_def uuid_json_def)

lemma event_type_of_json_value [simp]: "event_type_of_json (JStr (type_value t)) = Inr t"
  by (simp add: event_type_of_json_def)

lemma to_dict_required [simp]:
  "required (to_dict e) ''event_id'' = Inr (JStr (uuid_str (event_id e)))"
  "required (to_dict e) ''schema_version'' = Inr (schema_version e)"
  "required (to_dict e) ''event_type'' = Inr (JStr (type_value (event_type e)))"
  "required (to_dict e) ''occurred_at'' = Inr (JStr (occurred_at e))"
  "required (to_dict e) ''correlation_id'' = Inr (JStr (uuid_str (correlation_id e)))"
  "required (to_dict e) ''attempt'' = Inr (attempt e)"
  "required (to_dict e) ''payload'' = Inr (JObj (payload e))"
  by (simp_all add: required_def to_dict_def)

lemma to_dict_optional [simp]:
  "obj_get (to_dict e) ''causation_id'' = uuid_json (causation_id e)"
  "obj_get (to_dict e) ''analysis_id'' = uuid_json (analysis_id e)"
  "obj_get (to_dict e) ''agent_id'' = uuid_json (agent_id e)"
  "obj_get (to_dict e) ''snapshot_id'' = uuid_json (snapshot_id e)"
  by (simp_all add: obj_get_def to_dict_def)

text \<open>
  C39: an envelope read back from its own JSON is the same envelope, every identifier, the type, the
  attempt and the payload included, provided \<^verbatim>\<open>datetime.fromisoformat\<close> reads back the timestamp that
  \<^verbatim>\<open>isoformat\<close> wrote. A value that is not a JSON object is refused.
\<close>
theorem envelope_roundtrip:
  assumes "fromiso (occurred_at e) = Some (occurred_at e)"
  shows "from_json fromiso (to_json e) = Inr e \<and> from_json fromiso (JList xs) = Inl EValueError"
  by (simp add: from_json_def to_json_def from_dict_def datetime_of_json_def assms)

definition sample_event :: envelope where
  "sample_event = envelope_new 1 2 ''2026-01-01T00:00:00+00:00'' TOOL_CALL_REQUESTED (Some 3) (Some 4) (Some 5)
     None (Some 6) (Some [(''tool_call_id'', JStr ''t'')])"

theorem envelope_roundtrip_witness:
  "from_json Some (to_json sample_event) = Inr sample_event"
  using envelope_roundtrip [of Some sample_event] by simp

section \<open>The outbox loses nothing\<close>

lemma mark_published_None:
  "r \<in> set (mark_published rows now i) \<Longrightarrow>
   \<exists>r0 \<in> set rows. ob_id r = ob_id r0 \<and> ob_event r = ob_event r0 \<and>
     (ob_published_at r \<noteq> None \<longrightarrow> ob_published_at r0 \<noteq> None \<or> ob_id r0 = i)"
  by (auto simp: mark_published_def)

lemma publish_loop_sent:
  "publish_loop send_ok now rs rows sent n = (res, out) \<Longrightarrow>
   \<exists>k. out = sent @ map (\<lambda>r. publish (ob_event r) None) (take k rs) \<and>
     (case res of None \<Rightarrow> True
      | Some (rows', n') \<Rightarrow> k = length rs \<and> n' = n + length rs \<and>
          rows' = foldl (\<lambda>s r. mark_published s now (ob_id r)) rows rs)"
proof (induction rs arbitrary: rows sent n)
  case Nil
  then show ?case by auto
next
  case (Cons r rs)
  show ?case
  proof (cases "send_ok (ob_id r)")
    case True
    with Cons.prems have "publish_loop send_ok now rs (mark_published rows now (ob_id r))
        (sent @ [publish (ob_event r) None]) (Suc n) = (res, out)" by simp
    from Cons.IH [OF this] obtain k where
      "out = (sent @ [publish (ob_event r) None]) @ map (\<lambda>r. publish (ob_event r) None) (take k rs)"
      "case res of None \<Rightarrow> True | Some (rows', n') \<Rightarrow> k = length rs \<and> n' = Suc n + length rs \<and>
         rows' = foldl (\<lambda>s r. mark_published s now (ob_id r)) (mark_published rows now (ob_id r)) rs" by blast
    then show ?thesis by (intro exI [where x = "Suc k"]) (auto split: option.splits)
  next
    case False
    with Cons.prems show ?thesis by (auto intro!: exI [where x = 0])
  qed
qed

lemma publish_loop_ok:
  "(\<And>r. r \<in> set rs \<Longrightarrow> send_ok (ob_id r)) \<Longrightarrow>
   publish_loop send_ok now rs rows sent n =
     (Some (foldl (\<lambda>s r. mark_published s now (ob_id r)) rows rs, n + length rs),
      sent @ map (\<lambda>r. publish (ob_event r) None) rs)"
  by (induction rs arbitrary: rows sent n) auto

lemma foldl_mark_published:
  "foldl (\<lambda>s r. mark_published s now (ob_id r)) rows rs =
   map (\<lambda>r. if ob_id r \<in> set (map ob_id rs) then r\<lparr>ob_published_at := Some now\<rparr> else r) rows"
  by (induction rs arbitrary: rows) (auto simp: mark_published_def)

lemma fetch_unpublished_in: "r \<in> set (fetch_unpublished rows locked limit) \<Longrightarrow> r \<in> set rows \<and> ob_published_at r = None"
  by (auto simp: fetch_unpublished_def dest!: in_set_takeD)

text \<open>One run of the outbox worker over the table and the log of messages Kafka accepted.\<close>

type_synonym outbox_run = "(uuid \<Rightarrow> bool) \<times> (uuid \<Rightarrow> bool) \<times> int \<times> nat"

definition outbox_step :: "outbox_row list \<times> message list \<Rightarrow> outbox_run \<Rightarrow> outbox_row list \<times> message list" where
  "outbox_step st run = (case run of (send_ok, locked, now, limit) \<Rightarrow>
     (case publish_outbox_once send_ok locked now (fst st) limit of (rows', sent) \<Rightarrow> (rows', snd st @ sent)))"

definition outbox_inv :: "outbox_row list \<times> message list \<Rightarrow> bool" where
  "outbox_inv st =
     (distinct (map ob_id (fst st)) \<and>
      (\<forall>r \<in> set (fst st). ob_published_at r \<noteq> None \<longrightarrow> publish (ob_event r) None \<in> set (snd st)))"

lemma outbox_inv_step: "outbox_inv st \<Longrightarrow> outbox_inv (outbox_step st run)"
proof -
  assume inv: "outbox_inv st"
  obtain rows log where st: "st = (rows, log)" by (cases st)
  obtain send_ok locked now limit where run: "run = (send_ok, locked, now, limit)" by (cases run)
  let ?rs = "fetch_unpublished rows locked limit"
  obtain res out where p: "publish_loop send_ok now ?rs rows [] 0 = (res, out)"
    by (cases "publish_loop send_ok now ?rs rows [] 0")
  from publish_loop_sent [OF p] show ?thesis
  proof (cases res)
    case None
    with inv p show ?thesis
      by (auto simp: st run outbox_step_def publish_outbox_once_def publish_batch_def outbox_inv_def)
  next
    case (Some a)
    obtain rows' n' where a: "a = (rows', n')" by (cases a)
    from publish_loop_sent [OF p] Some a
    have o: "out = map (\<lambda>r. publish (ob_event r) None) ?rs"
      and r': "rows' = map (\<lambda>r. if ob_id r \<in> set (map ob_id ?rs) then r\<lparr>ob_published_at := Some now\<rparr> else r) rows"
      by (auto simp: foldl_mark_published)
    have same: "r = q" if "r \<in> set rows" "q \<in> set rows" "ob_id r = ob_id q" for r q
      using inv that by (auto simp: outbox_inv_def st distinct_map dest: inj_onD)
    have ids: "map ob_id rows' = map ob_id rows" by (auto simp: r')
    have "publish (ob_event r) None \<in> set (log @ out)" if r: "r \<in> set rows'" "ob_published_at r \<noteq> None" for r
    proof -
      from r(1) obtain q where q: "q \<in> set rows"
        "r = (if ob_id q \<in> set (map ob_id ?rs) then q\<lparr>ob_published_at := Some now\<rparr> else q)"
        by (auto simp: r')
      show ?thesis
      proof (cases "ob_id q \<in> set (map ob_id ?rs)")
        case True
        then obtain f where f: "f \<in> set ?rs" "ob_id q = ob_id f" by auto
        with fetch_unpublished_in [OF f(1)] q(1) have "q = f" using same by blast
        with f q(2) show ?thesis by (auto simp: o)
      next
        case False
        with q r(2) inv show ?thesis by (auto simp: outbox_inv_def st)
      qed
    qed
    moreover have "outbox_step st run = (rows', log @ out)"
      using p Some a by (simp add: st run outbox_step_def publish_outbox_once_def publish_batch_def)
    ultimately show ?thesis using inv ids by (auto simp: outbox_inv_def st)
  qed
qed

interpretation outbox: step_invariant outbox_step outbox_inv
  by unfold_locales (rule outbox_inv_step)

text \<open>
  Whatever sequence of outbox runs happens, with any sends failing and any rows locked by other
  workers, a row is marked published only if Kafka accepted its message: no event is lost between the
  database and the broker.
\<close>
theorem outbox_published_was_sent:
  assumes "distinct (map ob_id rows)" "\<forall>r \<in> set rows. ob_published_at r = None"
    and "foldl outbox_step (rows, []) runs = (rows', log)"
    and "r \<in> set rows'" "ob_published_at r = Some t"
  shows "publish (ob_event r) None \<in> set log"
proof -
  have "outbox_inv (foldl outbox_step (rows, []) runs)"
    using assms(1,2) by (intro outbox.inv_run) (auto simp: outbox_inv_def)
  with assms(3-5) show ?thesis by (auto simp: outbox_inv_def)
qed

theorem outbox_published_was_sent_witness:
  "publish sample_event None \<in>
     set (snd (foldl outbox_step (outbox_add [] 7 0 sample_event, []) [(\<lambda>_. True, \<lambda>_. False, 1, 10)]))"
proof -
  let ?rows = "outbox_add [] 7 0 sample_event"
  let ?r = "\<lparr>ob_id = 7, ob_event = sample_event, ob_created_at = 0, ob_published_at = Some 1\<rparr>"
  have f: "foldl outbox_step (?rows, []) [(\<lambda>_. True, \<lambda>_. False, 1, 10)] = ([?r], [publish sample_event None])"
    by (simp add: outbox_step_def publish_outbox_once_def publish_batch_def fetch_unpublished_def outbox_add_def
        mark_published_def)
  have "publish (ob_event ?r) None \<in> set [publish sample_event None]"
    by (rule outbox_published_was_sent [of ?rows "[(\<lambda>_. True, \<lambda>_. False, 1, 10)]" "[?r]" _ ?r 1])
      (use f in \<open>simp_all add: outbox_add_def\<close>)
  then show ?thesis using f by simp
qed

definition unpublished :: "outbox_row list \<Rightarrow> outbox_row list" where
  "unpublished rows = filter (\<lambda>r. ob_published_at r = None) rows"

lemma publish_outbox_once_all:
  assumes "distinct (map ob_id rows)"
  shows "length (unpublished (fst (publish_outbox_once (\<lambda>_. True) (\<lambda>_. False) now rows limit))) =
    length (unpublished rows) - limit"
proof -
  let ?rs = "fetch_unpublished rows (\<lambda>_. False) limit"
  let ?u = "sort_key ob_created_at (unpublished rows)"
  have rs: "?rs = take limit ?u" by (simp add: fetch_unpublished_def unpublished_def)
  have dist: "distinct (map ob_id ?u)"
    using assms by (simp add: unpublished_def distinct_map inj_on_def)
  have fst: "fst (publish_outbox_once (\<lambda>_. True) (\<lambda>_. False) now rows limit) =
      map (\<lambda>r. if ob_id r \<in> set (map ob_id ?rs) then r\<lparr>ob_published_at := Some now\<rparr> else r) rows"
    by (simp add: publish_outbox_once_def publish_batch_def publish_loop_ok foldl_mark_published)
  have "length (unpublished (map (\<lambda>r. if ob_id r \<in> A then r\<lparr>ob_published_at := Some now\<rparr> else r) xs)) =
      length (filter (\<lambda>r. ob_id r \<notin> A) (unpublished xs))" for A xs
    by (induction xs) (auto simp: unpublished_def)
  then have "length (unpublished (fst (publish_outbox_once (\<lambda>_. True) (\<lambda>_. False) now rows limit))) =
      length (filter (\<lambda>r. ob_id r \<notin> set (map ob_id ?rs)) (unpublished rows))" by (simp add: fst)
  also have "\<dots> = length (filter (\<lambda>r. ob_id r \<notin> set (map ob_id ?rs)) ?u)"
    by (metis (no_types, lifting) filter_sort length_sort)
  also have "filter (\<lambda>r. ob_id r \<notin> set (map ob_id ?rs)) ?u = drop limit ?u"
  proof -
    have "filter (\<lambda>r. ob_id r \<notin> set (map ob_id (take limit ?u))) (take limit ?u @ drop limit ?u) = drop limit ?u"
    proof -
      have "distinct (map ob_id (take limit ?u) @ map ob_id (drop limit ?u))"
        using dist by (metis append_take_drop_id map_append)
      then show ?thesis by (subst filter_append) (auto intro!: filter_True simp: filter_empty_conv)
    qed
    then show ?thesis by (simp add: rs)
  qed
  finally show ?thesis by simp
qed

text \<open>
  When Kafka accepts messages and no other worker holds the rows, \<open>n\<close> runs of the outbox worker
  with batch size \<open>limit\<close> publish \<open>n * limit\<close> events: the outbox drains, and enough runs empty it.
\<close>
theorem outbox_drains:
  assumes "distinct (map ob_id rows)"
  shows "length (unpublished (fst (foldl outbox_step (rows, log) (replicate n (\<lambda>_. True, \<lambda>_. False, now, limit))))) =
    length (unpublished rows) - n * limit"
  using assms
proof (induction n arbitrary: rows log)
  case 0
  then show ?case by simp
next
  case (Suc n)
  obtain rows' sent where p: "publish_outbox_once (\<lambda>_. True) (\<lambda>_. False) now rows limit = (rows', sent)"
    by (cases "publish_outbox_once (\<lambda>_. True) (\<lambda>_. False) now rows limit")
  have "map ob_id rows' = map ob_id rows"
    using p by (auto simp: publish_outbox_once_def publish_batch_def publish_loop_ok foldl_mark_published)
  then have "distinct (map ob_id rows')" using Suc.prems by simp
  from Suc.IH [OF this, of "log @ sent"] publish_outbox_once_all [OF Suc.prems, of now limit]
  show ?case by (simp add: outbox_step_def p)
qed

theorem outbox_drains_witness:
  "length (unpublished (fst (foldl outbox_step (outbox_add [] 7 0 sample_event, []) [(\<lambda>_. True, \<lambda>_. False, 1, 10)]))) = 0"
proof -
  have h: "distinct (map ob_id (outbox_add [] 7 0 sample_event))" by (simp add: outbox_add_def)
  from outbox_drains [OF h, of "[]" 1 1 10] show ?thesis
    by (simp add: unpublished_def outbox_add_def)
qed

end
