(* ===== verification/Consumer.thy ===== *)
theory Consumer
  imports Events
begin

text \<open>
  Event consumption: the processed-event and claim tables of \<^verbatim>\<open>SqlProcessedEventRepository\<close>
  (\<^verbatim>\<open>backend/events/repositories.py\<close>), \<^verbatim>\<open>EventConsumerRunner\<close> and \<^verbatim>\<open>consume_messages\<close>
  (\<^verbatim>\<open>backend/events/consumer.py\<close>). A claim is a lease: it carries a random owner token and expires 900
  seconds after it was taken or renewed. The lemmas show that two tokens never hold an unexpired lease
  on the same event, that no path through \<open>handle_message\<close> leaves its own claim behind, and that a
  failing event is retried a bounded number of times and then sent to the dead-letter topic.
\<close>

section \<open>The tables (\<^verbatim>\<open>repositories.py\<close>)\<close>

type_synonym event_key_t = "uuid \<times> string"

record claim =
  claim_owner :: string
  claimed_at :: int
  claim_expires_at :: int

record claims_db =
  processed_events :: "event_key_t \<rightharpoonup> int"
  processing_claims :: "event_key_t \<rightharpoonup> claim"

definition claim_ttl_seconds :: int where
  "claim_ttl_seconds = 900"

definition is_processed :: "claims_db \<Rightarrow> event_key_t \<Rightarrow> bool" where
  "is_processed db k = (processed_events db k \<noteq> None)"

definition owns :: "claims_db \<Rightarrow> event_key_t \<Rightarrow> string \<Rightarrow> bool" where
  "owns db k owner = (case processing_claims db k of None \<Rightarrow> False | Some c \<Rightarrow> claim_owner c = owner)"

text \<open>The delete of \<^verbatim>\<open>_release_processing_claim\<close>; without an owner it deletes whatever claim there is.\<close>

definition release_processing_claim :: "claims_db \<Rightarrow> event_key_t \<Rightarrow> string option \<Rightarrow> claims_db" where
  "release_processing_claim db k owner =
     (case owner of
        None \<Rightarrow> db\<lparr>processing_claims := (processing_claims db)(k := None)\<rparr>
      | Some w \<Rightarrow> if owns db k w then db\<lparr>processing_claims := (processing_claims db)(k := None)\<rparr> else db)"

definition insert_processed :: "claims_db \<Rightarrow> int \<Rightarrow> event_key_t \<Rightarrow> claims_db" where
  "insert_processed db now k = db\<lparr>processed_events := (processed_events db)(k \<mapsto> now)\<rparr>"

definition mark_processed :: "claims_db \<Rightarrow> int \<Rightarrow> event_key_t \<Rightarrow> string option \<Rightarrow> claims_db \<times> bool" where
  "mark_processed db now k owner =
     (let inserted = (\<not> is_processed db k \<and> (case owner of None \<Rightarrow> True | Some w \<Rightarrow> owns db k w))
      in if inserted then (release_processing_claim (insert_processed db now k) k owner, True)
         else if owner = None then (db, False)
         else if \<not> is_processed db k then (db, False)
         else (release_processing_claim db k owner, True))"

text \<open>\<open>token\<close> is the \<^verbatim>\<open>secrets.token_urlsafe(24)\<close> drawn for the claim.\<close>

definition claim_processing :: "claims_db \<Rightarrow> int \<Rightarrow> event_key_t \<Rightarrow> string \<Rightarrow> claims_db \<times> string option" where
  "claim_processing db now k token =
     (if is_processed db k then (db, None)
      else let taken = (case processing_claims db k of None \<Rightarrow> True | Some c \<Rightarrow> claim_expires_at c < now)
        in if taken
           then (db\<lparr>processing_claims := (processing_claims db)(k \<mapsto>
                   \<lparr>claim_owner = token, claimed_at = now, claim_expires_at = now + claim_ttl_seconds\<rparr>)\<rparr>,
                 Some token)
           else (db, None))"

definition renew_processing_claim :: "claims_db \<Rightarrow> int \<Rightarrow> event_key_t \<Rightarrow> string \<Rightarrow> claims_db \<times> bool" where
  "renew_processing_claim db now k owner =
     (if owns db k owner
      then (db\<lparr>processing_claims := (processing_claims db)(k \<mapsto>
              \<lparr>claim_owner = owner, claimed_at = now, claim_expires_at = now + claim_ttl_seconds\<rparr>)\<rparr>, True)
      else (db, False))"

section \<open>The runner (\<^verbatim>\<open>consumer.py\<close>)\<close>

text \<open>
  The heartbeat renews at the times of its wake-ups until a renewal fails; with interval 0 it renews
  once. Stopping it cuts the list short.
\<close>

fun heartbeat_claim :: "bool \<Rightarrow> event_key_t \<Rightarrow> string \<Rightarrow> int list \<Rightarrow> claims_db \<Rightarrow> claims_db" where
  "heartbeat_claim periodic k owner [] db = db"
| "heartbeat_claim periodic k owner (t # ts) db =
     (let (db', renewed) = renew_processing_claim db t k owner
      in if \<not> renewed then db' else if \<not> periodic then db' else heartbeat_claim periodic k owner ts db')"

datatype handler_result = HandlerDone | HandlerCancelled | HandlerFailed (exc_type: string) (exc_message: string)

datatype outcome = Handled | SkippedProcessed | Deferred | FailedRequeued | Raised string

record 'w consumer_state =
  cdb :: claims_db
  sent :: "message list"
  world :: 'w

record consumer_config =
  consumer_name :: string
  has_retry_publisher :: bool
  max_attempts :: int

definition effective_max_attempts :: "consumer_config \<Rightarrow> int" where
  "effective_max_attempts cfg = max 1 (max_attempts cfg)"

text \<open>\<^verbatim>\<open>event.attempt < max_attempts\<close> raises \<^verbatim>\<open>TypeError\<close> unless the attempt is a number.\<close>

fun attempt_number :: "json \<Rightarrow> int option" where
  "attempt_number (JInt i) = Some i"
| "attempt_number (JBool b) = Some (if b then 1 else 0)"
| "attempt_number _ = None"

definition dlq_event :: "consumer_config \<Rightarrow> uuid \<Rightarrow> string \<Rightarrow> envelope \<Rightarrow> string \<Rightarrow> string \<Rightarrow> envelope" where
  "dlq_event cfg fresh now e ty msg =
     envelope_new fresh fresh now EVENT_PROCESSING_FAILED (analysis_id e) (agent_id e) (snapshot_id e)
       (Some (correlation_id e)) (Some (event_id e))
       (Some [(''original_event_id'', JStr (uuid_str (event_id e))),
              (''original_event_type'', JStr (type_value (event_type e))),
              (''consumer_name'', JStr (consumer_name cfg)),
              (''attempt'', attempt e),
              (''max_attempts'', JInt (effective_max_attempts cfg)),
              (''error_type'', JStr ty),
              (''error_message'', JStr msg)])"

text \<open>What the failure branch publishes, or \<open>None\<close> when comparing the attempt raises \<^verbatim>\<open>TypeError\<close>.\<close>

definition failure_message :: "consumer_config \<Rightarrow> uuid \<Rightarrow> string \<Rightarrow> envelope \<Rightarrow> string \<Rightarrow> string \<Rightarrow> message option" where
  "failure_message cfg fresh now e ty msg =
     (let dlq = publish (dlq_event cfg fresh now e ty msg) (Some ''deepdive.dlq'')
      in if \<not> has_retry_publisher cfg then Some dlq
         else case attempt_number (attempt e) of
             None \<Rightarrow> None
           | Some n \<Rightarrow> if n < effective_max_attempts cfg
               then Some (publish (with_attempt e (JInt (n + 1))) None) else Some dlq)"

text \<open>
  \<^verbatim>\<open>handle_message\<close>. The arguments after the configuration are what the environment supplies: the ISO
  parser, the claim token, the clock at claim and at mark, the DLQ event's id and time, which messages
  Kafka accepts, what the heartbeat and other consumers do to the tables while the handler runs
  (\<open>during\<close>), and the handler.
\<close>

record 'w surroundings =
  fromiso :: "string \<Rightarrow> string option"
  token :: string
  claim_time :: int
  mark_time :: int
  dlq_id :: uuid
  dlq_time :: string
  kafka_ok :: "message \<Rightarrow> bool"
  during :: "claims_db \<Rightarrow> claims_db"
  handler :: "envelope \<Rightarrow> 'w \<Rightarrow> handler_result \<times> 'w"

definition handle_event ::
  "consumer_config \<Rightarrow> 'w surroundings \<Rightarrow> envelope \<Rightarrow> 'w consumer_state \<Rightarrow> outcome \<times> 'w consumer_state" where
  "handle_event cfg env e st =
     (let k = (event_id e, consumer_name cfg) in
      if is_processed (cdb st) k then (SkippedProcessed, st)
      else case claim_processing (cdb st) (claim_time env) k (token env) of
        (db1, None) \<Rightarrow> (Deferred, st\<lparr>cdb := db1\<rparr>)
      | (db1, Some owner) \<Rightarrow>
          if owner = [] then (Deferred, st\<lparr>cdb := db1\<rparr>)
          else (case handler env e (world st) of (res, w') \<Rightarrow>
            let db2 = during env db1 in
            (case res of
               HandlerCancelled \<Rightarrow>
                 (Raised ''CancelledError'',
                  st\<lparr>cdb := release_processing_claim db2 k (Some owner), world := w'\<rparr>)
             | HandlerFailed ty msg \<Rightarrow>
                 (let st' = st\<lparr>cdb := release_processing_claim db2 k (Some owner), world := w'\<rparr> in
                  case failure_message cfg (dlq_id env) (dlq_time env) e ty msg of
                    None \<Rightarrow> (Raised ''TypeError'', st')
                  | Some m \<Rightarrow>
                      if kafka_ok env m then (FailedRequeued, st'\<lparr>sent := sent st @ [m]\<rparr>)
                      else (Raised ''KafkaError'', st'))
             | HandlerDone \<Rightarrow>
                 (case mark_processed db2 (mark_time env) k (Some owner) of
                    (db3, marked) \<Rightarrow>
                      (if marked then Handled else Raised ''RuntimeError'', st\<lparr>cdb := db3, world := w'\<rparr>)))))"

definition handle_message ::
  "consumer_config \<Rightarrow> 'w surroundings \<Rightarrow> json \<Rightarrow> 'w consumer_state \<Rightarrow> outcome \<times> 'w consumer_state" where
  "handle_message cfg env msg st =
     (case from_json (fromiso env) msg of
        Inl _ \<Rightarrow> (Raised ''decode'', st)
      | Inr e \<Rightarrow> handle_event cfg env e st)"

text \<open>
  \<^verbatim>\<open>consume_messages\<close> over the messages the consumer yields, each with its surroundings. The result is
  the number handled, what was done with each message, the state, and whether an exception left the loop.
\<close>

datatype consumer_action = Commit | Defer

fun consume_messages ::
  "consumer_config \<Rightarrow> nat option \<Rightarrow> bool \<Rightarrow> nat \<Rightarrow> (json \<times> 'w surroundings) list \<Rightarrow> 'w consumer_state \<Rightarrow>
   nat \<times> consumer_action list \<times> 'w consumer_state \<times> bool" where
  "consume_messages cfg max_messages continue_on_deferred consumed [] st = (consumed, [], st, False)"
| "consume_messages cfg max_messages continue_on_deferred consumed ((msg, env) # rest) st =
     (case handle_message cfg env msg st of
        (Raised r, st') \<Rightarrow> (consumed, [], st', True)
      | (Deferred, st') \<Rightarrow>
          if \<not> continue_on_deferred then (consumed, [], st', False)
          else (case consume_messages cfg max_messages continue_on_deferred consumed rest st' of
                  (n, acts, st'', b) \<Rightarrow> (n, Defer # acts, st'', b))
      | (out, st') \<Rightarrow>
          (let consumed' = (if out = Handled then Suc consumed else consumed) in
           if (case max_messages of Some m \<Rightarrow> m \<le> consumed' | None \<Rightarrow> False)
           then (consumed', [Commit], st', False)
           else (case consume_messages cfg max_messages continue_on_deferred consumed' rest st' of
                   (n, acts, st'', b) \<Rightarrow> (n, Commit # acts, st'', b))))"

section \<open>Claims are leases\<close>

lemma release_not_owns: "\<not> owns (release_processing_claim db k (Some w)) k w"
  by (auto simp: release_processing_claim_def owns_def split: option.splits)

lemma release_processed [simp]: "processed_events (release_processing_claim db k w) = processed_events db"
  by (auto simp: release_processing_claim_def split: option.splits)

lemma mark_processed_result:
  assumes "mark_processed db now k (Some w) = (db', b)"
  shows "\<not> owns db' k w" "b \<longleftrightarrow> is_processed db' k" "is_processed db k \<longrightarrow> is_processed db' k"
    "\<And>k'. k' \<noteq> k \<Longrightarrow> processed_events db' k' = processed_events db k' \<and> processing_claims db' k' = processing_claims db k'"
  using assms release_not_owns
  by (auto simp: mark_processed_def insert_processed_def is_processed_def Let_def owns_def
      release_processing_claim_def split: if_splits option.splits)

lemma claim_processing_Some:
  "claim_processing db now k tok = (db', Some w) \<Longrightarrow>
   w = tok \<and> \<not> is_processed db k \<and> owns db' k tok \<and> processed_events db' = processed_events db"
  by (auto simp: claim_processing_def Let_def owns_def split: if_splits option.splits)

lemma claim_processing_None: "claim_processing db now k tok = (db', None) \<Longrightarrow> db' = db"
  by (auto simp: claim_processing_def Let_def split: if_splits)

text \<open>
  The consumers as a whole: the tables, the clock, and for every token that a worker holds, the event it
  is for and the expiry the worker last saw confirmed. Tokens are never drawn twice.
\<close>

record lease_system =
  ldb :: claims_db
  clock :: int
  leases :: "string \<rightharpoonup> event_key_t \<times> int"
  drawn :: "string set"

inductive lease_step :: "lease_system \<Rightarrow> lease_system \<Rightarrow> bool" where
  tick: "clock s \<le> t \<Longrightarrow> lease_step s (s\<lparr>clock := t\<rparr>)"
| take_claim: "tok \<notin> drawn s \<Longrightarrow> claim_processing (ldb s) (clock s) k tok = (db', Some tok) \<Longrightarrow>
    lease_step s (s\<lparr>ldb := db', leases := (leases s)(tok \<mapsto> (k, clock s + claim_ttl_seconds)), drawn := insert tok (drawn s)\<rparr>)"
| fail_claim: "tok \<notin> drawn s \<Longrightarrow> claim_processing (ldb s) (clock s) k tok = (db', None) \<Longrightarrow>
    lease_step s (s\<lparr>ldb := db', drawn := insert tok (drawn s)\<rparr>)"
| renew: "leases s tok = Some (k, x) \<Longrightarrow> renew_processing_claim (ldb s) (clock s) k tok = (db', True) \<Longrightarrow>
    lease_step s (s\<lparr>ldb := db', leases := (leases s)(tok \<mapsto> (k, clock s + claim_ttl_seconds))\<rparr>)"
| renew_lost: "leases s tok = Some (k, x) \<Longrightarrow> renew_processing_claim (ldb s) (clock s) k tok = (db', False) \<Longrightarrow>
    lease_step s (s\<lparr>ldb := db'\<rparr>)"
| finish: "leases s tok = Some (k, x) \<Longrightarrow> mark_processed (ldb s) (clock s) k (Some tok) = (db', b) \<Longrightarrow>
    lease_step s (s\<lparr>ldb := db', leases := (leases s)(tok := None)\<rparr>)"
| give_up: "leases s tok = Some (k, x) \<Longrightarrow>
    lease_step s (s\<lparr>ldb := release_processing_claim (ldb s) k (Some tok), leases := (leases s)(tok := None)\<rparr>)"

inductive lease_reachable :: "lease_system \<Rightarrow> bool" where
  start: "lease_reachable \<lparr>ldb = \<lparr>processed_events = p, processing_claims = Map.empty\<rparr>, clock = t,
     leases = Map.empty, drawn = {}\<rparr>"
| step: "lease_reachable s \<Longrightarrow> lease_step s s' \<Longrightarrow> lease_reachable s'"

definition lease_inv :: "lease_system \<Rightarrow> bool" where
  "lease_inv s \<longleftrightarrow>
     (\<forall>tok k x. leases s tok = Some (k, x) \<longrightarrow> tok \<in> drawn s) \<and>
     (\<forall>tok k x. leases s tok = Some (k, x) \<and> clock s \<le> x \<longrightarrow>
        (\<exists>c. processing_claims (ldb s) k = Some c \<and> claim_owner c = tok \<and> claim_expires_at c = x)) \<and>
     (\<forall>k c. processing_claims (ldb s) k = Some c \<longrightarrow> (\<exists>x. leases s (claim_owner c) = Some (k, x)))"

lemma lease_invD:
  assumes "lease_inv s"
  shows "leases s tok = Some (k, x) \<Longrightarrow> tok \<in> drawn s"
    and "leases s tok = Some (k, x) \<Longrightarrow> clock s \<le> x \<Longrightarrow>
      \<exists>c. processing_claims (ldb s) k = Some c \<and> claim_owner c = tok \<and> claim_expires_at c = x"
    and "processing_claims (ldb s) k = Some c \<Longrightarrow> \<exists>x. leases s (claim_owner c) = Some (k, x)"
  using assms unfolding lease_inv_def by blast+

text \<open>Removing a lease together with the row it owns, which is how a worker finishes or gives up.\<close>

lemma lease_inv_remove:
  assumes inv: "lease_inv s" and l: "leases s tok = Some (k, x)"
    and same: "\<And>k'. k' \<noteq> k \<Longrightarrow> processing_claims db' k' = processing_claims (ldb s) k'"
    and k: "processing_claims db' k = (if owns (ldb s) k tok then None else processing_claims (ldb s) k)"
  shows "lease_inv (s\<lparr>ldb := db', leases := (leases s)(tok := None)\<rparr>)"
proof -
  have other: "claim_owner c \<noteq> tok" if "processing_claims db' k' = Some c" for k' c
    using that lease_invD(3) [OF inv, of k' c] l same [of k'] k
    by (cases "k' = k") (auto simp: owns_def split: if_splits)
  have sub: "processing_claims (ldb s) k' = Some c" if "processing_claims db' k' = Some c" for k' c
    using that same [of k'] k by (cases "k' = k") (auto split: if_splits)
  have keep: "processing_claims db' k' = Some c" if "processing_claims (ldb s) k' = Some c" "claim_owner c \<noteq> tok" for k' c
    using that same [of k'] k by (cases "k' = k") (auto simp: owns_def)
  show ?thesis
    unfolding lease_inv_def
  proof (intro conjI allI impI)
    fix tok' k' x' assume "leases (s\<lparr>ldb := db', leases := (leases s)(tok := None)\<rparr>) tok' = Some (k', x')"
    then show "tok' \<in> drawn (s\<lparr>ldb := db', leases := (leases s)(tok := None)\<rparr>)"
      using lease_invD(1) [OF inv] by (simp split: if_splits)
  next
    fix tok' k' x'
    assume "leases (s\<lparr>ldb := db', leases := (leases s)(tok := None)\<rparr>) tok' = Some (k', x') \<and>
      clock (s\<lparr>ldb := db', leases := (leases s)(tok := None)\<rparr>) \<le> x'"
    then have "leases s tok' = Some (k', x')" "clock s \<le> x'" "tok' \<noteq> tok" by (simp_all split: if_splits)
    then show "\<exists>c. processing_claims (ldb (s\<lparr>ldb := db', leases := (leases s)(tok := None)\<rparr>)) k' = Some c \<and>
        claim_owner c = tok' \<and> claim_expires_at c = x'"
      using lease_invD(2) [OF inv] keep by fastforce
  next
    fix k' c assume "processing_claims (ldb (s\<lparr>ldb := db', leases := (leases s)(tok := None)\<rparr>)) k' = Some c"
    then show "\<exists>x. leases (s\<lparr>ldb := db', leases := (leases s)(tok := None)\<rparr>) (claim_owner c) = Some (k', x)"
      using other sub lease_invD(3) [OF inv] by simp
  qed
qed

text \<open>A new or renewed lease: the row of the event is the token's.\<close>

lemma lease_inv_grant:
  assumes inv: "lease_inv s"
    and pc: "processing_claims db' = (processing_claims (ldb s))(k \<mapsto>
      \<lparr>claim_owner = tok, claimed_at = t, claim_expires_at = x\<rparr>)"
    and old: "\<And>c. processing_claims (ldb s) k = Some c \<Longrightarrow> claim_owner c = tok \<or> claim_expires_at c < clock s"
    and key: "\<And>k' y. leases s tok = Some (k', y) \<Longrightarrow> k' = k"
    and d: "drawn s \<subseteq> D" "tok \<in> D"
  shows "lease_inv (s\<lparr>ldb := db', leases := (leases s)(tok \<mapsto> (k, x)), drawn := D\<rparr>)"
proof -
  have "claim_owner c \<noteq> tok" if "processing_claims (ldb s) k' = Some c" "k' \<noteq> k" for k' c
    using that lease_invD(3) [OF inv, of k' c] key by metis
  moreover have "k' \<noteq> k" if "leases s tok' = Some (k', y)" "clock s \<le> y" "tok' \<noteq> tok" for tok' k' y
    using lease_invD(2) [OF inv that(1,2)] that(2,3) old by auto
  ultimately show ?thesis
    unfolding lease_inv_def
    using lease_invD [OF inv] d by (intro conjI allI impI; simp add: pc split: if_splits) (blast | auto)+
qed

lemma lease_step_inv: "lease_step s s' \<Longrightarrow> lease_inv s \<Longrightarrow> lease_inv s'"
proof (induction rule: lease_step.induct)
  case (tick s t)
  then show ?case by (force simp: lease_inv_def)
next
  case (take_claim tok s k db')
  then have "tok \<noteq> t'" if "leases s t' = Some (k', y)" for t' k' y
    using that lease_invD(1) by metis
  with take_claim show ?case
    by (intro lease_inv_grant) (auto simp: claim_processing_def Let_def split: if_splits option.splits)
next
  case (fail_claim tok s k db')
  then show ?case by (auto simp: lease_inv_def dest: claim_processing_None)
next
  case (renew s tok k x db')
  have "lease_inv (s\<lparr>ldb := db', leases := (leases s)(tok \<mapsto> (k, clock s + claim_ttl_seconds)), drawn := drawn s\<rparr>)"
    using renew lease_invD(1) [OF renew(3) renew(1)]
    by (intro lease_inv_grant) (auto simp: renew_processing_claim_def owns_def split: if_splits option.splits)
  then show ?case by simp
next
  case (renew_lost s tok k x db')
  then show ?case by (auto simp: lease_inv_def renew_processing_claim_def split: if_splits)
next
  case (finish s tok k x db' b)
  show ?case
  proof (rule lease_inv_remove [OF finish(3,1)])
    show "processing_claims db' k' = processing_claims (ldb s) k'" if "k' \<noteq> k" for k'
      using mark_processed_result(4) [OF finish(2) that] by blast
    show "processing_claims db' k = (if owns (ldb s) k tok then None else processing_claims (ldb s) k)"
      using finish(2)
      by (auto simp: mark_processed_def insert_processed_def is_processed_def Let_def owns_def
          release_processing_claim_def split: if_splits option.splits)
  qed
next
  case (give_up s tok k x)
  show ?case
    by (rule lease_inv_remove [OF give_up(2,1)]) (auto simp: release_processing_claim_def)
qed

lemma lease_reachable_inv: "lease_reachable s \<Longrightarrow> lease_inv s"
  by (induction rule: lease_reachable.induct) (auto simp: lease_inv_def [of "\<lparr>ldb = _, clock = _, leases = _, drawn = _\<rparr>"] intro: lease_step_inv)

text \<open>
  C3: two workers never hold an unexpired lease on the same event at the same time, however their
  claims, renewals, completions and failures interleave with each other and with the clock: a lease
  that has not expired by the clock belongs to one token, and that token is the owner in the table.
\<close>
theorem lease_mutual_exclusion:
  assumes "lease_reachable s"
    and "leases s a = Some (k, x)" "clock s \<le> x"
    and "leases s b = Some (k, y)" "clock s \<le> y"
  shows "a = b \<and> owns (ldb s) k a"
  using lease_invD(2) [OF lease_reachable_inv [OF assms(1)] assms(2,3)]
    lease_invD(2) [OF lease_reachable_inv [OF assms(1)] assms(4,5)]
  by (auto simp: owns_def)

definition one_lease :: lease_system where
  "one_lease =
     \<lparr>ldb = \<lparr>processed_events = Map.empty, processing_claims = [(1, ''agent'') \<mapsto>
        \<lparr>claim_owner = ''tok'', claimed_at = 0, claim_expires_at = 900\<rparr>]\<rparr>,
      clock = 0, leases = [''tok'' \<mapsto> ((1, ''agent''), 900)], drawn = {''tok''}\<rparr>"

theorem lease_mutual_exclusion_witness:
  "lease_reachable one_lease \<and> owns (ldb one_lease) (1, ''agent'') ''tok''"
proof -
  let ?s0 = "\<lparr>ldb = \<lparr>processed_events = Map.empty, processing_claims = Map.empty\<rparr>, clock = 0,
     leases = Map.empty, drawn = {}\<rparr> :: lease_system"
  have c: "claim_processing (ldb ?s0) (clock ?s0) (1, ''agent'') ''tok'' = (ldb one_lease, Some ''tok'')"
    by (simp add: claim_processing_def is_processed_def one_lease_def claim_ttl_seconds_def)
  have "lease_step ?s0 (?s0\<lparr>ldb := ldb one_lease, leases := (leases ?s0)(''tok'' \<mapsto>
      ((1, ''agent''), clock ?s0 + claim_ttl_seconds)), drawn := insert ''tok'' (drawn ?s0)\<rparr>)"
    by (rule lease_step.take_claim [OF _ c]) simp
  then have "lease_step ?s0 one_lease" by (simp add: one_lease_def claim_ttl_seconds_def)
  then have r: "lease_reachable one_lease" by (rule lease_reachable.step [OF lease_reachable.start])
  moreover have l: "leases one_lease ''tok'' = Some ((1, ''agent''), 900)" "clock one_lease \<le> 900"
    by (simp_all add: one_lease_def)
  ultimately show ?thesis using lease_mutual_exclusion [OF r l l] by blast
qed

section \<open>Every path through \<open>handle_event\<close>\<close>

lemma handle_event_unclaimed:
  assumes "claim_processing (cdb st) (claim_time env) (event_id e, consumer_name cfg) (token env) = (db1, None)"
  shows "handle_event cfg env e st =
    (if is_processed (cdb st) (event_id e, consumer_name cfg) then SkippedProcessed else Deferred, st)"
  using assms claim_processing_None [OF assms] by (simp add: handle_event_def Let_def)

lemma handle_event_claimed:
  assumes "claim_processing (cdb st) (claim_time env) (event_id e, consumer_name cfg) (token env) = (db1, Some w)"
    and "token env \<noteq> []"
  shows "handle_event cfg env e st =
    (let k = (event_id e, consumer_name cfg); db2 = during env db1; r = handler env e (world st);
         st' = st\<lparr>cdb := release_processing_claim db2 k (Some (token env)), world := snd r\<rparr>
     in case fst r of
          HandlerCancelled \<Rightarrow> (Raised ''CancelledError'', st')
        | HandlerFailed ty msg \<Rightarrow>
            (case failure_message cfg (dlq_id env) (dlq_time env) e ty msg of
               None \<Rightarrow> (Raised ''TypeError'', st')
             | Some m \<Rightarrow> if kafka_ok env m then (FailedRequeued, st'\<lparr>sent := sent st @ [m]\<rparr>) else (Raised ''KafkaError'', st'))
        | HandlerDone \<Rightarrow>
            (if snd (mark_processed db2 (mark_time env) k (Some (token env))) then Handled else Raised ''RuntimeError'',
             st\<lparr>cdb := fst (mark_processed db2 (mark_time env) k (Some (token env))), world := snd r\<rparr>))"
proof -
  have "w = token env" "\<not> is_processed (cdb st) (event_id e, consumer_name cfg)"
    using claim_processing_Some [OF assms(1)] by auto
  with assms show ?thesis
    by (simp add: handle_event_def Let_def split_beta split: handler_result.split option.split)
qed

lemma handle_event_claim_cases:
  assumes "token env \<noteq> []"
  obtains (skip) db1 where "claim_processing (cdb st) (claim_time env) (event_id e, consumer_name cfg) (token env) = (db1, None)"
  | (run) db1 w where "claim_processing (cdb st) (claim_time env) (event_id e, consumer_name cfg) (token env) = (db1, Some w)"
  by (metis option.exhaust surj_pair)

text \<open>
  C5: handling an event leaves no claim of its own behind on any path, the exceptional ones included,
  whatever other consumers did to the tables meanwhile; the event is recorded as processed when the
  result is \<^verbatim>\<open>handled\<close>; a skipped or deferred event changes nothing; and a failed one publishes exactly
  one message and is not recorded by this run.
\<close>
theorem handle_event_outcomes:
  assumes "token env \<noteq> []" "\<not> owns (cdb st) (event_id e, consumer_name cfg) (token env)"
    and "handle_event cfg env e st = (out, st')"
  shows "\<not> owns (cdb st') (event_id e, consumer_name cfg) (token env) \<and>
    (out = Handled \<longrightarrow> is_processed (cdb st') (event_id e, consumer_name cfg) \<and> sent st' = sent st) \<and>
    (out = SkippedProcessed \<or> out = Deferred \<longrightarrow> st' = st) \<and>
    (out = FailedRequeued \<longrightarrow> (\<exists>ty msg m. fst (handler env e (world st)) = HandlerFailed ty msg \<and>
       failure_message cfg (dlq_id env) (dlq_time env) e ty msg = Some m \<and> sent st' = sent st @ [m]))"
  using assms(1)
proof (cases rule: handle_event_claim_cases [of env st e cfg])
  case (skip db1)
  then show ?thesis
    using assms(2,3) handle_event_unclaimed [OF skip] by (auto split: if_splits)
next
  case (run db1 w)
  let ?k = "(event_id e, consumer_name cfg)"
  obtain db3 b where m: "mark_processed (during env db1) (mark_time env) ?k (Some (token env)) = (db3, b)"
    by (cases "mark_processed (during env db1) (mark_time env) ?k (Some (token env))")
  note mp = mark_processed_result [OF m]
  show ?thesis
    using assms(3) mp(1,2) release_not_owns
    unfolding handle_event_claimed [OF run assms(1)] Let_def m fst_conv snd_conv
    by (cases "fst (handler env e (world st))") (auto split: option.splits if_splits)
qed

definition sample_config :: consumer_config where
  "sample_config = \<lparr>consumer_name = ''agent'', has_retry_publisher = True, max_attempts = 3\<rparr>"

definition sample_env :: "(envelope \<Rightarrow> unit \<Rightarrow> handler_result \<times> unit) \<Rightarrow> unit surroundings" where
  "sample_env h = \<lparr>fromiso = Some, token = ''tok'', claim_time = 0, mark_time = 5, dlq_id = 9, dlq_time = ''t'',
     kafka_ok = \<lambda>_. True, during = \<lambda>db. db, handler = h\<rparr>"

definition idle_state :: "unit consumer_state" where
  "idle_state = \<lparr>cdb = \<lparr>processed_events = Map.empty, processing_claims = Map.empty\<rparr>, sent = [], world = ()\<rparr>"

theorem handle_event_outcomes_witness:
  "is_processed (cdb (snd (handle_event sample_config (sample_env (\<lambda>e w. (HandlerDone, w))) sample_event idle_state)))
     (event_id sample_event, ''agent'')"
proof -
  let ?env = "sample_env (\<lambda>e w. (HandlerDone, w))"
  have h: "token ?env \<noteq> []" "\<not> owns (cdb idle_state) (event_id sample_event, consumer_name sample_config) (token ?env)"
    by (simp_all add: sample_env_def owns_def idle_state_def)
  have f: "fst (handle_event sample_config ?env sample_event idle_state) = Handled"
    by (simp add: handle_event_def sample_config_def sample_env_def idle_state_def is_processed_def
        claim_processing_def mark_processed_def owns_def Let_def)
  show ?thesis
    using handle_event_outcomes [OF h, of "fst (handle_event sample_config ?env sample_event idle_state)"
        "snd (handle_event sample_config ?env sample_event idle_state)"] f
    by (simp add: sample_config_def)
qed

section \<open>Retries end\<close>

text \<open>
  The broker hands a retried event back to the consumer: starting from an event, deliver it, and while
  the delivery published a retry of it, deliver that. \<open>env\<close> gives the surroundings of each delivery.
\<close>

fun redeliver ::
  "consumer_config \<Rightarrow> (nat \<Rightarrow> 'w surroundings) \<Rightarrow> nat \<Rightarrow> nat \<Rightarrow> envelope \<Rightarrow> 'w consumer_state \<Rightarrow> 'w consumer_state" where
  "redeliver cfg env 0 i e st = st"
| "redeliver cfg env (Suc fuel) i e st =
     (case handle_event cfg (env i) e st of
        (FailedRequeued, st') \<Rightarrow>
          (if topic (last (sent st')) = ''deepdive.dlq'' then st'
           else redeliver cfg env fuel (Suc i)
                  (with_attempt e (JInt (the (attempt_number (attempt e)) + 1))) st')
      | (_, st') \<Rightarrow> st')"

definition retry_messages :: "envelope \<Rightarrow> int \<Rightarrow> nat \<Rightarrow> message list" where
  "retry_messages e n m = map (\<lambda>i. publish (with_attempt e (JInt (n + int i + 1))) None) [0..<m]"

text \<open>Surroundings in which the handler always fails, Kafka works, and no claim is in the way.\<close>

definition always_failing :: "'w surroundings \<Rightarrow> bool" where
  "always_failing env \<longleftrightarrow> token env \<noteq> [] \<and> (\<forall>m. kafka_ok env m) \<and> (\<forall>db. during env db = db) \<and>
     (\<forall>e w. \<exists>ty msg. fst (handler env e w) = HandlerFailed ty msg)"

lemma handle_event_failing:
  assumes "always_failing env" "has_retry_publisher cfg" "attempt e = JInt n"
    and "processing_claims (cdb st) (event_id e, consumer_name cfg) = None"
    and "\<not> is_processed (cdb st) (event_id e, consumer_name cfg)"
  obtains st' ty msg where "handle_event cfg env e st = (FailedRequeued, st')"
    and "sent st' = sent st @ [if n < effective_max_attempts cfg then publish (with_attempt e (JInt (n + 1))) None
           else publish (dlq_event cfg (dlq_id env) (dlq_time env) e ty msg) (Some ''deepdive.dlq'')]"
    and "processing_claims (cdb st') (event_id e, consumer_name cfg) = None"
    and "\<not> is_processed (cdb st') (event_id e, consumer_name cfg)"
proof -
  let ?k = "(event_id e, consumer_name cfg)"
  obtain ty msg where h: "fst (handler env e (world st)) = HandlerFailed ty msg"
    using assms(1) unfolding always_failing_def by blast
  obtain db1 where c: "claim_processing (cdb st) (claim_time env) ?k (token env) = (db1, Some (token env))"
    and o: "owns db1 ?k (token env)" and p: "processed_events db1 = processed_events (cdb st)"
    using assms(4,5) by (auto simp: claim_processing_def Let_def owns_def)
  have t: "token env \<noteq> []" and ko: "kafka_ok env m" and d: "during env db1 = db1" for m
    using assms(1) by (auto simp: always_failing_def)
  let ?m = "if n < effective_max_attempts cfg then publish (with_attempt e (JInt (n + 1))) None
    else publish (dlq_event cfg (dlq_id env) (dlq_time env) e ty msg) (Some ''deepdive.dlq'')"
  have "failure_message cfg (dlq_id env) (dlq_time env) e ty msg = Some ?m"
    using assms(2,3) by (simp add: failure_message_def)
  then have e: "handle_event cfg env e st = (FailedRequeued,
      st\<lparr>cdb := release_processing_claim db1 ?k (Some (token env)), world := snd (handler env e (world st)),
        sent := sent st @ [?m]\<rparr>)"
    unfolding handle_event_claimed [OF c t] Let_def h by (simp add: ko d)
  show ?thesis
    by (rule that [OF e]) (use o p assms(5) in \<open>simp_all add: release_processing_claim_def is_processed_def\<close>)
qed

lemma event_id_with_attempt [simp]: "event_id (with_attempt e a) = event_id e"
  by (simp add: with_attempt_def)

lemma with_attempt_twice [simp]: "with_attempt (with_attempt e a) b = with_attempt e b"
  by (simp add: with_attempt_def)

lemma topic_retry: "event_type e \<noteq> EVENT_PROCESSING_FAILED \<Longrightarrow> topic (publish (with_attempt e a) None) \<noteq> ''deepdive.dlq''"
  by (cases "event_type e")
    (simp_all add: publish_def event_topic_def with_attempt_def COMMAND_TOPICS_def STREAM_TOPICS_def DLQ_TOPICS_def
      ANALYSIS_COMMAND_TOPICS_def ANALYSIS_BATCH_SCHEDULER_COMMAND_TOPICS_def SNAPSHOT_COMMAND_TOPICS_def
      AGENT_INBOX_TOPICS_def EXECUTION_COMMAND_TOPICS_def map_add_def)

lemma topic_dlq [simp]: "topic (publish e (Some ''deepdive.dlq'')) = ''deepdive.dlq''"
  by (simp add: publish_def)

text \<open>
  C6: an event whose handler always fails is not retried for ever. Delivered with attempt \<open>n\<close>, it is
  republished with attempts \<open>n + 1\<close> up to the configured maximum, each on its own topic, and the next
  failure sends exactly one dead-letter message and no further retry; as many deliveries as the
  difference, plus one, are enough.
\<close>
theorem failing_event_reaches_dlq:
  assumes "\<And>i. always_failing (env i)" "has_retry_publisher cfg"
    and "event_type e \<noteq> EVENT_PROCESSING_FAILED" "attempt e = JInt n"
    and "n + int m = effective_max_attempts cfg" "m < fuel"
    and "processing_claims (cdb st) (event_id e, consumer_name cfg) = None"
    and "\<not> is_processed (cdb st) (event_id e, consumer_name cfg)"
  shows "\<exists>d. topic d = ''deepdive.dlq'' \<and>
    sent (redeliver cfg env fuel i e st) = sent st @ retry_messages e n m @ [d]"
  using assms(3-)
proof (induction m arbitrary: fuel i e n st)
  case 0
  then obtain f where f: "fuel = Suc f" by (cases fuel) auto
  obtain st' ty msg where "handle_event cfg (env i) e st = (FailedRequeued, st')"
    "sent st' = sent st @ [publish (dlq_event cfg (dlq_id (env i)) (dlq_time (env i)) e ty msg) (Some ''deepdive.dlq'')]"
    by (rule handle_event_failing [OF assms(1) assms(2) "0.prems"(2,5,6), of i]) (use "0.prems"(3) in auto)
  then show ?case by (auto simp: f retry_messages_def)
next
  case (Suc m)
  then obtain f where f: "fuel = Suc f" by (cases fuel) auto
  let ?e = "with_attempt e (JInt (n + 1))"
  obtain st' where h: "handle_event cfg (env i) e st = (FailedRequeued, st')"
    and s: "sent st' = sent st @ [publish ?e None]"
    and c: "processing_claims (cdb st') (event_id e, consumer_name cfg) = None"
      "\<not> is_processed (cdb st') (event_id e, consumer_name cfg)"
    by (rule handle_event_failing [OF assms(1) assms(2) Suc.prems(2,5,6), of i]) (use Suc.prems(3) in auto)
  have "\<exists>d. topic d = ''deepdive.dlq'' \<and>
      sent (redeliver cfg env f (Suc i) ?e st') = sent st' @ retry_messages ?e (n + 1) m @ [d]"
    by (rule Suc.IH) (use Suc.prems c f in \<open>auto simp: with_attempt_def\<close>)
  moreover have "retry_messages e n (Suc m) = publish ?e None # retry_messages ?e (n + 1) m"
    unfolding retry_messages_def upt_conv_Cons [OF zero_less_Suc] list.map
    by (simp add: map_Suc_upt [symmetric] algebra_simps comp_def del: upt_Suc)
  ultimately show ?case
    using topic_retry [OF Suc.prems(1), of "JInt (n + 1)"] by (auto simp: f h s Suc.prems(2))
qed

theorem failing_event_reaches_dlq_witness:
  "\<exists>d. topic d = ''deepdive.dlq'' \<and>
    sent (redeliver sample_config (\<lambda>_. sample_env (\<lambda>e w. (HandlerFailed ''ValueError'' ''x'', w))) 3 0 sample_event idle_state) =
      retry_messages sample_event 1 2 @ [d]"
proof -
  let ?env = "\<lambda>_. sample_env (\<lambda>e w. (HandlerFailed ''ValueError'' ''x'', w))"
  have h: "always_failing (?env i)" for i by (simp add: always_failing_def sample_env_def)
  show ?thesis
    using failing_event_reaches_dlq [OF h, of sample_config sample_event 1 2 3 idle_state 0]
    by (simp add: sample_config_def sample_event_def envelope_new_def effective_max_attempts_def idle_state_def is_processed_def)
qed

end
