(* ===== verification/Repository_Url.thy ===== *)
theory Repository_Url
  imports Prelude
begin

text \<open>
  The canonical form of a repository URL (\<^verbatim>\<open>backend/api/repository_search.py\<close>), the key under which the
  repository index merges analyses, and the ranking of search results. \<^verbatim>\<open>urlsplit\<close> is modelled as the
  standard library computes it, except that the address inside a bracketed host is not checked.
\<close>

section \<open>\<^verbatim>\<open>urllib.parse.urlsplit\<close>\<close>

record split_url =
  url_scheme :: string
  url_netloc :: string
  url_path :: string
  url_query :: string
  url_fragment :: string

definition is_scheme_char :: "char \<Rightarrow> bool" where
  "is_scheme_char c = (let n = code_point c in
     (97 \<le> n \<and> n \<le> 122) \<or> (65 \<le> n \<and> n \<le> 90) \<or> is_digit c \<or> c \<in> {CHR ''+'', CHR ''-'', CHR ''.''})"

definition is_ascii_alpha :: "char \<Rightarrow> bool" where
  "is_ascii_alpha c = (let n = code_point c in (97 \<le> n \<and> n \<le> 122) \<or> (65 \<le> n \<and> n \<le> 90))"

text \<open>\<^verbatim>\<open>s.partition(sep)\<close>: the text before the first separator, and the text after it if there is one.\<close>

definition partition_at :: "char \<Rightarrow> string \<Rightarrow> string \<times> string option" where
  "partition_at c s =
     (let a = takeWhile (\<lambda>x. x \<noteq> c) s
      in (a, if length a = length s then None else Some (drop (Suc (length a)) s)))"

text \<open>The scheme, when the text before the first colon is one, and the rest.\<close>

definition split_scheme :: "string \<Rightarrow> string \<times> string" where
  "split_scheme url =
     (case partition_at (CHR '':'') url of
        (a, Some rest) \<Rightarrow>
          if a \<noteq> [] \<and> is_ascii_alpha (hd a) \<and> list_all is_scheme_char a then (py_lower a, rest) else ([], url)
      | (a, None) \<Rightarrow> ([], url))"

definition url_delimiter :: "char \<Rightarrow> bool" where
  "url_delimiter c = (c = CHR ''/'' \<or> c = CHR ''?'' \<or> c = CHR ''#'')"

definition split_netloc :: "string \<Rightarrow> string \<times> string" where
  "split_netloc url =
     (if starts_with ''//'' url
      then (takeWhile (\<lambda>c. \<not> url_delimiter c) (drop 2 url), dropWhile (\<lambda>c. \<not> url_delimiter c) (drop 2 url))
      else ([], url))"

text \<open>\<open>None\<close> is the \<^verbatim>\<open>ValueError\<close> for unbalanced brackets.\<close>

definition urlsplit :: "string \<Rightarrow> split_url option" where
  "urlsplit s =
     (let url0 = filter (\<lambda>c. c \<notin> {CHR 0x09, CHR 0x0D, CHR 0x0A}) (dropWhile (\<lambda>c. code_point c \<le> 32) s);
          (scheme, url1) = split_scheme url0;
          (netloc, url2) = split_netloc url1
      in if (CHR ''['' \<in> set netloc) \<noteq> (CHR '']'' \<in> set netloc) then None
         else let (url3, fragment) = partition_at (CHR ''#'') url2;
                  (path, query) = partition_at (CHR ''?'') url3
              in Some \<lparr>url_scheme = scheme, url_netloc = netloc, url_path = path,
                       url_query = (case query of None \<Rightarrow> [] | Some q \<Rightarrow> q),
                       url_fragment = (case fragment of None \<Rightarrow> [] | Some f \<Rightarrow> f)\<rparr>)"

text \<open>The \<^verbatim>\<open>hostname\<close> attribute: behind the last \<^verbatim>\<open>@\<close>, in front of the port, in lower case up to a zone.\<close>

definition url_hostname :: "split_url \<Rightarrow> string option" where
  "url_hostname u =
     (let hostinfo = rev (takeWhile (\<lambda>c. c \<noteq> CHR ''@'') (rev (url_netloc u)));
          host = (case partition_at (CHR ''['') hostinfo of
                    (_, Some bracketed) \<Rightarrow> fst (partition_at (CHR '']'') bracketed)
                  | (_, None) \<Rightarrow> fst (partition_at (CHR '':'') hostinfo))
      in if host = [] then None
         else case partition_at (CHR ''%'') host of
                (h, Some zone) \<Rightarrow> Some (py_lower h @ ''%'' @ zone)
              | (h, None) \<Rightarrow> Some (py_lower h))"

section \<open>\<^verbatim>\<open>repository_search.py\<close>\<close>

record canonical_repository =
  cr_url :: string
  cr_host :: string
  cr_owner :: "string option"
  cr_name :: "string option"
  cr_label :: string
  cr_search_text :: string

definition is_alnum :: "char \<Rightarrow> bool" where
  "is_alnum c = (let n = code_point c in
     is_digit c \<or> (65 \<le> n \<and> n \<le> 90) \<or> (97 \<le> n \<and> n \<le> 122) \<or> n \<in> {170, 178, 179, 181, 185, 186, 188, 189, 190} \<or>
     (192 \<le> n \<and> n \<noteq> 215 \<and> n \<noteq> 247))"

definition github_part :: "string \<Rightarrow> bool" where
  "github_part p = (p \<noteq> [] \<and> list_all (\<lambda>c. is_alnum c \<or> c = CHR ''_'' \<or> c = CHR ''.'' \<or> c = CHR ''-'') p)"

definition is_github_repo_path :: "string \<Rightarrow> bool" where
  "is_github_repo_path path =
     (let parts = split_on (CHR ''/'') path in length parts = 2 \<and> list_all github_part parts)"

definition remove_git_suffix :: "string \<Rightarrow> string" where
  "remove_git_suffix path = (if ends_with ''.git'' path then take (length path - 4) path else path)"

definition join_nonempty :: "string list \<Rightarrow> string" where
  "join_nonempty items = join_with '' '' (filter (\<lambda>i. i \<noteq> []) items)"

definition github_url :: "string \<Rightarrow> string" where
  "github_url label = ''https://github.com/'' @ label @ ''.git''"

definition github_repository :: "string \<Rightarrow> string \<Rightarrow> canonical_repository" where
  "github_repository owner name =
     (let label = owner @ ''/'' @ name;
          url = github_url label
      in \<lparr>cr_url = url, cr_host = ''github.com'', cr_owner = Some owner, cr_name = Some name, cr_label = label,
          cr_search_text = py_lower (join_nonempty [label, owner, name,
            replace_char (CHR ''-'') (CHR '' '') name,
            replace_char (CHR ''.'') (CHR '' '') name, ''github.com'', url])\<rparr>)"

definition canonicalize_repository_url :: "string \<Rightarrow> canonical_repository option" where
  "canonicalize_repository_url repository_url =
     (case urlsplit (py_strip repository_url) of
        None \<Rightarrow> None
      | Some parsed \<Rightarrow>
          let host = (case url_hostname parsed of None \<Rightarrow> [] | Some h \<Rightarrow> py_lower h);
              path = remove_git_suffix (strip_by (\<lambda>c. c = CHR ''/'') (url_path parsed))
          in if host = ''github.com'' \<and> is_github_repo_path path
             then Some (github_repository (split_on (CHR ''/'') path ! 0) (split_on (CHR ''/'') path ! 1))
             else let label = py_strip repository_url
                  in Some \<lparr>cr_url = label, cr_host = host, cr_owner = None, cr_name = None, cr_label = label,
                           cr_search_text = py_lower (join_nonempty [label, host,
                             replace_char (CHR ''/'') (CHR '' '') path])\<rparr>)"

text \<open>\<^verbatim>\<open>str.split()\<close> without a separator: runs of white space separate, none are kept.\<close>

fun split_ws :: "string \<Rightarrow> string \<Rightarrow> string list" where
  "split_ws acc [] = (if acc = [] then [] else [rev acc])"
| "split_ws acc (c # cs) =
     (if is_space c then (if acc = [] then split_ws [] cs else rev acc # split_ws [] cs)
      else split_ws (c # acc) cs)"

definition normalize_repository_search_query :: "string \<Rightarrow> string" where
  "normalize_repository_search_query query = join_with '' '' (split_ws [] (py_lower (py_strip query)))"

definition repository_search_score :: "string \<Rightarrow> string \<Rightarrow> string \<Rightarrow> int" where
  "repository_search_score record_label record_url query =
     (let q = normalize_repository_search_query query;
          label = py_lower record_label;
          name = last (split_on (CHR ''/'') label);
          search_text = label @ '' '' @ py_lower record_url;
          tokens = split_ws [] (replace_char (CHR ''/'') (CHR '' '') q)
      in if q = [] then 1
         else if label = q then 100
         else if starts_with q label then 90
         else if name = q then 85
         else if starts_with q name then 80
         else if contains_sub q search_text then 70
         else if tokens \<noteq> [] \<and> list_all (\<lambda>t. contains_sub t search_text) tokens then 60
         else 0)"

section \<open>GitHub spellings have one canonical form\<close>

definition github_char :: "char \<Rightarrow> bool" where
  "github_char c = (is_alnum c \<or> c = CHR ''_'' \<or> c = CHR ''.'' \<or> c = CHR ''-'')"

lemma github_part_iff: "github_part p \<longleftrightarrow> p \<noteq> [] \<and> list_all github_char p"
  by (simp add: github_part_def github_char_def list_all_iff)

lemma github_char_not:
  "github_char c \<Longrightarrow> c \<noteq> CHR ''/'' \<and> c \<noteq> CHR ''?'' \<and> c \<noteq> CHR ''#'' \<and> c \<noteq> CHR '':'' \<and> \<not> is_space c \<and>
     c \<noteq> CHR 0x09 \<and> c \<noteq> CHR 0x0D \<and> c \<noteq> CHR 0x0A"
  by (auto simp: github_char_def is_alnum_def is_digit_def is_space_def code_point_def Let_def)

lemma strip_by_around:
  assumes "s \<noteq> []" "\<not> p (hd s)" "\<not> p (last s)" "list_all p a" "list_all p b"
  shows "strip_by p (a @ s @ b) = s"
proof -
  have "dropWhile p (a @ s @ b) = dropWhile p (s @ b)"
    using assms(4) by (simp add: dropWhile_append2 list_all_iff)
  moreover have "dropWhile p (s @ b) = s @ b" using assms(1,2) by (cases s) auto
  moreover have "dropWhile p (rev b @ rev s) = dropWhile p (rev s)"
    using assms(5) by (subst dropWhile_append2) (auto simp: list_all_iff)
  moreover have "dropWhile p (rev s) = rev s" using assms(1,3) by (cases s rule: rev_cases) auto
  ultimately show ?thesis by (simp add: strip_by_def)
qed

lemma strip_by_id: "s \<noteq> [] \<Longrightarrow> \<not> p (hd s) \<Longrightarrow> \<not> p (last s) \<Longrightarrow> strip_by p s = s"
  using strip_by_around [of s p "[]" "[]"] by simp

lemma partition_at_none: "c \<notin> set s \<Longrightarrow> partition_at c s = (s, None)"
proof -
  assume "c \<notin> set s"
  then have "takeWhile (\<lambda>x. x \<noteq> c) s = s" by (induction s) auto
  then show ?thesis by (simp only: partition_at_def Let_def simp_thms if_True)
qed

lemma partition_at_first: "c \<notin> set a \<Longrightarrow> partition_at c (a @ c # b) = (a, Some b)"
proof -
  assume "c \<notin> set a"
  then have "takeWhile (\<lambda>x. x \<noteq> c) (a @ c # b) = a" by (subst takeWhile_append2) auto
  then show ?thesis by (simp add: partition_at_def)
qed

text \<open>\<^verbatim>\<open>urlsplit\<close> of a web URL on a plain host.\<close>

lemma urlsplit_plain:
  assumes scheme: "scheme = ''https'' \<or> scheme = ''http''"
    and path: "list_all (\<lambda>c. github_char c \<or> c = CHR ''/'') path"
  shows "urlsplit (scheme @ ''://github.com/'' @ path) =
    Some \<lparr>url_scheme = scheme, url_netloc = ''github.com'', url_path = CHR ''/'' # path, url_query = [], url_fragment = []\<rparr>"
proof -
  let ?url = "scheme @ ''://github.com/'' @ path"
  have plain: "c \<in> set path \<Longrightarrow> c \<noteq> CHR ''?'' \<and> c \<noteq> CHR ''#'' \<and> c \<noteq> CHR 0x09 \<and> c \<noteq> CHR 0x0D \<and> c \<noteq> CHR 0x0A" for c
    using path github_char_not by (auto simp: list_all_iff)
  then have "filter (\<lambda>c. c \<notin> {CHR 0x09, CHR 0x0D, CHR 0x0A}) path = path"
    by (auto simp: filter_id_conv)
  then have clean: "filter (\<lambda>c. c \<notin> {CHR 0x09, CHR 0x0D, CHR 0x0A}) (dropWhile (\<lambda>c. code_point c \<le> 32) ?url) = ?url"
    using scheme by (auto simp: code_point_def)
  have sch: "split_scheme ?url = (scheme, ''//github.com/'' @ path)"
    using scheme partition_at_first [of "CHR '':''" scheme "''//github.com/'' @ path"]
    by (auto simp: split_scheme_def is_scheme_char_def is_ascii_alpha_def is_digit_def code_point_def py_lower_def lower_char_def Let_def)
  have net: "split_netloc (''//github.com/'' @ path) = (''github.com'', CHR ''/'' # path)"
    by (simp add: split_netloc_def starts_with_def url_delimiter_def)
  have "partition_at (CHR ''#'') (CHR ''/'' # path) = (CHR ''/'' # path, None)"
    "partition_at (CHR ''?'') (CHR ''/'' # path) = (CHR ''/'' # path, None)"
    using plain by (intro partition_at_none; auto)+
  then show ?thesis by (simp only: urlsplit_def clean sch net Let_def prod.case) simp
qed

lemma ends_with_suffix: "ends_with p s \<longleftrightarrow> suffix p s"
proof
  assume "ends_with p s"
  then have "s = take (length s - length p) s @ p" by (metis ends_with_def append_take_drop_id)
  then show "suffix p s" unfolding suffix_def by blast
qed (auto simp: ends_with_def suffix_def)

lemma remove_git_suffix_git: "remove_git_suffix (p @ ''.git'') = p"
  by (simp add: remove_git_suffix_def ends_with_def)

lemma is_github_repo_path_parts:
  assumes "github_part owner" "github_part name"
  shows "split_on (CHR ''/'') (owner @ ''/'' @ name) = [owner, name]" "is_github_repo_path (owner @ ''/'' @ name)"
proof -
  have "CHR ''/'' \<notin> set owner" "CHR ''/'' \<notin> set name"
    using assms github_char_not by (auto simp: github_part_iff list_all_iff)
  then show split: "split_on (CHR ''/'') (owner @ ''/'' @ name) = [owner, name]"
    by (simp add: split_on_append_sep split_on_no_sep)
  then show "is_github_repo_path (owner @ ''/'' @ name)" using assms by (simp add: is_github_repo_path_def)
qed

lemma remove_git_suffix_name:
  assumes "\<not> ends_with ''.git'' name" "name \<noteq> []"
  shows "remove_git_suffix (owner @ ''/'' @ name) = owner @ ''/'' @ name"
proof -
  have "\<not> ends_with ''.git'' (owner @ ''/'' @ name)"
  proof
    assume "ends_with ''.git'' (owner @ ''/'' @ name)"
    then obtain zs where "owner @ ''/'' @ name = zs @ ''.git''" by (auto simp: ends_with_suffix suffix_def)
    then have "suffix ''.git'' name \<or> CHR ''/'' \<in> set ''.git'' \<or> name = []"
      by (auto simp: append_eq_append_conv2 suffix_def append_eq_Cons_conv Cons_eq_append_conv)
    with assms show False by (auto simp: ends_with_suffix)
  qed
  then show ?thesis by (simp add: remove_git_suffix_def)
qed

lemma strip_slashes_path:
  assumes "github_part owner" "github_part name" "list_all github_char tail" "list_all (\<lambda>c. c = CHR ''/'') slashes"
  shows "strip_by (\<lambda>c. c = CHR ''/'') (CHR ''/'' # owner @ ''/'' @ name @ tail @ slashes) = owner @ ''/'' @ name @ tail"
proof -
  have chars: "list_all github_char owner" "list_all github_char (name @ tail)" "owner \<noteq> []" "name \<noteq> []"
    using assms by (auto simp: github_part_iff)
  have "hd owner \<noteq> CHR ''/''" using chars(1,3) github_char_not [of "hd owner"] by (cases owner) auto
  moreover have "last (name @ tail) \<noteq> CHR ''/''"
    using chars(2,4) github_char_not [of "last (name @ tail)"] last_in_set [of "name @ tail"]
    by (auto simp only: list_all_iff append_is_Nil_conv)
  ultimately show ?thesis
    using strip_by_around [of "owner @ ''/'' @ name @ tail" "\<lambda>c. c = CHR ''/''" "''/''" slashes] chars assms(4)
    by (simp add: hd_append)
qed

lemma canonicalize_github:
  assumes "github_part owner" "github_part name" and scheme: "scheme = ''https'' \<or> scheme = ''http''"
    and slashes: "list_all (\<lambda>c. c = CHR ''/'') slashes"
    and tail: "tail = ''.git'' \<or> tail = [] \<and> \<not> ends_with ''.git'' name"
  shows "canonicalize_repository_url (scheme @ ''://github.com/'' @ owner @ ''/'' @ name @ tail @ slashes) =
     Some (github_repository owner name)"
proof -
  let ?path = "owner @ ''/'' @ name @ tail @ slashes"
  let ?url = "scheme @ ''://github.com/'' @ ?path"
  have chars: "list_all github_char owner" "list_all github_char name" "owner \<noteq> []" "name \<noteq> []"
    using assms(1,2) by (auto simp: github_part_iff)
  have tail_chars: "list_all github_char tail" using tail by (auto simp: github_char_def is_alnum_def code_point_def)
  have path_chars: "list_all (\<lambda>c. github_char c \<or> c = CHR ''/'') ?path"
    using chars tail_chars slashes by (auto simp: list_all_iff)
  have slash: "\<not> is_space (CHR ''/'')" by (simp add: is_space_def code_point_def)
  have nonspace: "\<not> is_space c" if "c \<in> set ?path" for c
  proof -
    from path_chars that have "github_char c \<or> c = CHR ''/''" by (simp only: list_all_iff)
    with slash github_char_not show ?thesis by blast
  qed
  have "last ?url = last ?path" using chars(4) by simp
  then have "\<not> is_space (last ?url)" using nonspace last_in_set [of ?path] by simp
  then have strip: "py_strip ?url = ?url"
    unfolding py_strip_def using scheme by (intro strip_by_id) (auto simp: is_space_def code_point_def)
  have suffix: "remove_git_suffix (owner @ ''/'' @ name @ tail) = owner @ ''/'' @ name"
    using tail remove_git_suffix_git [of "owner @ ''/'' @ name"] remove_git_suffix_name [of name owner] chars(4) by auto
  have host: "url_hostname \<lparr>url_scheme = scheme, url_netloc = ''github.com'', url_path = CHR ''/'' # ?path,
      url_query = [], url_fragment = []\<rparr> = Some ''github.com''"
    by (simp add: url_hostname_def partition_at_def Let_def py_lower_def lower_char_def code_point_def)
  show ?thesis
    unfolding canonicalize_repository_url_def strip urlsplit_plain [OF scheme path_chars] option.case Let_def host
      split_url.select_convs strip_slashes_path [OF assms(1,2) tail_chars slashes] suffix
    using is_github_repo_path_parts [OF assms(1,2)]
    by (simp add: py_lower_def lower_char_def code_point_def)
qed

text \<open>
  Every spelling of a GitHub repository URL, with \<^verbatim>\<open>http\<close> or \<^verbatim>\<open>https\<close>, with or without the \<^verbatim>\<open>.git\<close>
  suffix and with any number of trailing slashes, has the one canonical form
  \<^verbatim>\<open>https://github.com/owner/name.git\<close>, and that form is its own canonical form, so the repository
  index counts all of them as one repository.
\<close>
theorem github_url_canonical:
  assumes "github_part owner" "github_part name" "scheme = ''https'' \<or> scheme = ''http''"
    and "list_all (\<lambda>c. c = CHR ''/'') slashes"
    and "tail = ''.git'' \<or> tail = [] \<and> \<not> ends_with ''.git'' name"
  shows "\<exists>c. canonicalize_repository_url (scheme @ ''://github.com/'' @ owner @ ''/'' @ name @ tail @ slashes) = Some c \<and>
     cr_url c = ''https://github.com/'' @ owner @ ''/'' @ name @ ''.git'' \<and> cr_label c = owner @ ''/'' @ name \<and>
     cr_owner c = Some owner \<and> cr_name c = Some name \<and>
     canonicalize_repository_url (cr_url c) = Some c"
  using canonicalize_github [OF assms] canonicalize_github [OF assms(1,2), of "''https''" "[]" "''.git''"]
  by (simp add: github_repository_def github_url_def Let_def)

theorem github_url_canonical_witness:
  "\<exists>c. canonicalize_repository_url ''http://github.com/octo-org/hello.world//'' = Some c \<and>
     cr_url c = ''https://github.com/octo-org/hello.world.git'' \<and>
     canonicalize_repository_url (cr_url c) = Some c"
proof -
  have "github_part ''octo-org''" "github_part ''hello.world''" "\<not> ends_with ''.git'' ''hello.world''" by code_simp+
  from github_url_canonical [OF this(1,2), of "''http''" "''//''" "[]"] this(3) show ?thesis by auto
qed

end
