(* ===== verification/Schema.thy ===== *)
theory Schema
  imports Events
begin

text \<open>
  The Postgres tables that the analysis pipeline shares (\<^verbatim>\<open>backend/db/schema.py\<close>), one record per row type and one
  list per table, and the statements the repositories are built from: an \<^verbatim>\<open>UPDATE ... WHERE\<close>, the
  \<^verbatim>\<open>INSERT\<close> of a stream event or context item under its advisory lock, and the \<^verbatim>\<open>INSERT\<close> of an outbox
  event in the same transaction. Status columns are text, as in the schema. Times are seconds.

  Every service, worker and repository theory works on the one record \<open>db\<close>, so that a property can
  follow an analysis through all of them. A handler runs in one transaction: its definition maps the
  committed state before to the committed state after. What it draws from outside, the clock and
  \<^verbatim>\<open>new_uuid7()\<close>, is an argument of type \<open>draws\<close>: \<open>new_id d k\<close> is the \<open>k\<close>-th identifier drawn.
\<close>

section \<open>Rows\<close>

record analysis_row =
  an_id :: uuid
  an_tenant_id :: "uuid option"
  an_created_by :: "uuid option"
  an_repository_url :: string
  an_repository_url_hash :: string
  an_requested_ref :: string
  an_profile_id :: "uuid option"
  an_config_snapshot_id :: uuid
  an_status :: string
  an_created_at :: int
  an_updated_at :: int
  an_completed_at :: "int option"
  an_error_code :: "string option"
  an_error_message :: "string option"

record session_row =
  as_id :: uuid
  as_analysis_id :: uuid
  as_snapshot_id :: "uuid option"
  as_parent_agent_id :: "uuid option"
  as_config_snapshot_id :: uuid
  as_status :: string
  as_goal_ref :: string
  as_effective_model :: string
  as_prompt_version :: string
  as_tool_registry_version :: string
  as_effective_limits :: json
  as_effective_runtime :: json
  as_latest_response_id :: "string option"
  as_turn_count :: int
  as_max_turns :: int
  as_created_at :: int
  as_updated_at :: int

record repository_row =
  ar_id :: uuid
  ar_tenant_id :: uuid
  ar_created_by :: uuid
  ar_repository_url :: string
  ar_repository_url_hash :: string
  ar_repository_host :: string
  ar_repository_owner :: "string option"
  ar_repository_name :: "string option"
  ar_repository_label :: string
  ar_search_text :: string
  ar_latest_analysis_id :: uuid
  ar_latest_status :: string
  ar_latest_requested_ref :: string
  ar_latest_commit_sha :: "string option"
  ar_analysis_count :: int
  ar_completed_count :: int
  ar_last_analyzed_at :: int
  ar_created_at :: int
  ar_updated_at :: int

record batch_row =
  ba_id :: uuid
  ba_tenant_id :: uuid
  ba_created_by :: uuid
  ba_status :: string
  ba_max_parallel :: int
  ba_total_count :: int
  ba_pending_count :: int
  ba_active_count :: int
  ba_completed_count :: int
  ba_failed_count :: int
  ba_cancelled_count :: int
  ba_created_at :: int
  ba_updated_at :: int
  ba_completed_at :: "int option"

record batch_item_row =
  bi_id :: uuid
  bi_batch_id :: uuid
  bi_analysis_id :: uuid
  bi_agent_id :: uuid
  bi_repository_url :: string
  bi_repository_url_hash :: string
  bi_requested_ref :: string
  bi_profile_id :: "uuid option"
  bi_config_snapshot_id :: uuid
  bi_status :: string
  bi_sort_order :: int
  bi_dispatch_owner :: "string option"
  bi_dispatched_at :: "int option"
  bi_completed_at :: "int option"
  bi_error_code :: "string option"
  bi_error_message :: "string option"
  bi_created_at :: int
  bi_updated_at :: int

record config_snapshot_row =
  cs_id :: uuid
  cs_config_version :: string
  cs_content_hash :: string
  cs_config_json :: json
  cs_created_at :: int

record turn_row =
  tu_id :: uuid
  tu_agent_id :: uuid
  tu_turn_index :: int
  tu_trigger_event_id :: "uuid option"
  tu_trigger_domain_key :: "string option"
  tu_status :: string
  tu_response_id :: "string option"
  tu_previous_response_id :: "string option"
  tu_input_ref :: "string option"
  tu_output_ref :: "string option"
  tu_input_tokens :: json
  tu_cached_input_tokens :: json
  tu_uncached_input_tokens :: json
  tu_output_tokens :: json
  tu_reasoning_tokens :: json
  tu_total_tokens :: json
  tu_created_at :: int
  tu_completed_at :: "int option"

record tool_call_row =
  tc_id :: uuid
  tc_agent_id :: uuid
  tc_turn_id :: uuid
  tc_snapshot_id :: uuid
  tc_openai_call_id :: string
  tc_tool_name :: string
  tc_arguments :: json
  tc_registry_version :: string
  tc_schema_hash :: string
  tc_policy_hash :: string
  tc_permission_decision :: "string option"
  tc_status :: string
  tc_result_ref :: "string option"
  tc_result_summary :: "string option"
  tc_duration_ms :: "int option"
  tc_error_code :: "string option"
  tc_error_message :: "string option"
  tc_claimed_at :: "int option"
  tc_claim_expires_at :: "int option"
  tc_claim_owner :: "string option"
  tc_created_at :: int
  tc_completed_at :: "int option"

record stream_row =
  sr_id :: uuid
  sr_analysis_id :: uuid
  sr_agent_id :: uuid
  sr_turn_id :: "uuid option"
  sr_seq :: int
  sr_event_type :: string
  sr_payload :: json
  sr_attempt :: "int option"
  sr_response_id :: "string option"
  sr_state :: "string option"
  sr_idempotency_key :: "string option"
  sr_created_at :: int

record context_row =
  ci_id :: uuid
  ci_agent_id :: uuid
  ci_turn_id :: "uuid option"
  ci_seq :: int
  ci_item_type :: string
  ci_payload :: json
  ci_response_id :: "string option"
  ci_source :: string
  ci_idempotency_key :: "string option"
  ci_compacted_at :: "int option"
  ci_created_at :: int

record assembly_row =
  ca_id :: uuid
  ca_agent_id :: uuid
  ca_turn_id :: uuid
  ca_config_snapshot_id :: uuid
  ca_source_refs :: json
  ca_input_ref :: string
  ca_instructions_hash :: string
  ca_tool_schema_hash :: string
  ca_token_estimate :: "int option"
  ca_created_at :: int

record memory_row =
  ms_id :: uuid
  ms_agent_id :: uuid
  ms_compacted_until_turn :: int
  ms_summary :: json
  ms_evidence_ids :: json
  ms_focus_paths :: json
  ms_next_action :: "string option"
  ms_created_at :: int

record window_row =
  cw_id :: uuid
  cw_agent_id :: uuid
  cw_turn_id :: uuid
  cw_generation :: int
  cw_strategy :: string
  cw_compaction_id :: string
  cw_compacted_until_turn :: int
  cw_output :: json
  cw_usage :: json
  cw_created_at :: int

record snapshot_row =
  sn_id :: uuid
  sn_repository_url_hash :: string
  sn_requested_ref :: string
  sn_resolved_commit_sha :: string
  sn_tree_sha :: string
  sn_policy_hash :: string
  sn_status :: string
  sn_manifest_key :: "string option"
  sn_git_bundle_key :: "string option"
  sn_file_count :: "int option"
  sn_total_bytes :: "int option"
  sn_created_at :: int
  sn_ready_at :: "int option"

record file_row =
  fr_snapshot_id :: uuid
  fr_path :: string
  fr_path_hash :: string
  fr_parent_path :: "string option"
  fr_name :: string
  fr_entry_kind :: string
  fr_git_mode :: "string option"
  fr_git_blob_oid :: "string option"
  fr_content_key :: "string option"
  fr_content_hash :: "string option"
  fr_size_bytes :: "int option"
  fr_line_count :: "int option"
  fr_is_binary :: bool
  fr_is_large :: bool

record instruction_row =
  in_snapshot_id :: uuid
  in_path :: string
  in_scope_path :: string
  in_depth :: int
  in_content_hash :: string
  in_content_ref :: string

record db =
  analyses :: "analysis_row list"
  agent_sessions :: "session_row list"
  analysis_repositories :: "repository_row list"
  analysis_batches :: "batch_row list"
  analysis_batch_items :: "batch_item_row list"
  config_snapshots :: "config_snapshot_row list"
  agent_turns :: "turn_row list"
  tool_calls :: "tool_call_row list"
  stream_events :: "stream_row list"
  context_items :: "context_row list"
  context_assemblies :: "assembly_row list"
  memory_summaries :: "memory_row list"
  agent_context_windows :: "window_row list"
  snapshots :: "snapshot_row list"
  snapshot_files :: "file_row list"
  agent_instruction_files :: "instruction_row list"
  outbox_events :: "outbox_row list"

definition empty_db :: db where
  "empty_db = \<lparr>analyses = [], agent_sessions = [], analysis_repositories = [], analysis_batches = [],
     analysis_batch_items = [], config_snapshots = [], agent_turns = [], tool_calls = [], stream_events = [],
     context_items = [], context_assemblies = [], memory_summaries = [], agent_context_windows = [], snapshots = [], snapshot_files = [], agent_instruction_files = [], outbox_events = []\<rparr>"

record draws =
  now :: int
  now_iso :: string
  new_id :: "nat \<Rightarrow> uuid"

text \<open>What a handler may raise; a handler that raises rolls its transaction back.\<close>

datatype handler_error = HValueError string | HRuntimeError string | HKeyError string

section \<open>Statements\<close>

text \<open>\<^verbatim>\<open>UPDATE t SET ... WHERE p\<close>; \<open>any_row p\<close> tells whether \<^verbatim>\<open>RETURNING\<close> yields a row.\<close>

definition update_where :: "('r \<Rightarrow> bool) \<Rightarrow> ('r \<Rightarrow> 'r) \<Rightarrow> 'r list \<Rightarrow> 'r list" where
  "update_where p f rows = map (\<lambda>r. if p r then f r else r) rows"

abbreviation any_row :: "('r \<Rightarrow> bool) \<Rightarrow> 'r list \<Rightarrow> bool" where
  "any_row p rows \<equiv> list_ex p rows"

text \<open>The two status lists that guard the updates.\<close>

definition terminal :: "string \<Rightarrow> bool" where
  "terminal s = (s \<in> {''completed'', ''failed'', ''cancelled''})"

definition closed :: "string \<Rightarrow> bool" where
  "closed s = (s \<in> {''completed'', ''failed'', ''cancelled'', ''cancelling''})"

text \<open>
  \<^verbatim>\<open>DbOutboxSink(connection).add(EventEnvelope.new(...))\<close>: draw \<open>k\<close> is the correlation id taken when
  the call names neither a correlation nor an analysis, \<open>k + 1\<close> the event id, \<open>k + 2\<close> the row id.
\<close>

definition emit ::
  "draws \<Rightarrow> nat \<Rightarrow> event_type \<Rightarrow> uuid option \<Rightarrow> uuid option \<Rightarrow> uuid option \<Rightarrow> uuid option \<Rightarrow> uuid option \<Rightarrow>
   payload \<Rightarrow> db \<Rightarrow> db" where
  "emit d k ty analysis agent snapshot correlation causation pl st =
     st\<lparr>outbox_events := outbox_add (outbox_events st) (new_id d (k + 2)) (now d)
        (envelope_new (new_id d (k + 1)) (new_id d k) (now_iso d) ty analysis agent snapshot correlation
           causation (Some pl))\<rparr>"

text \<open>
  The insert of a stream event (\<^verbatim>\<open>repository_stream.py\<close>): the next sequence number of the analysis, and
  nothing at all when the agent already has an event with this idempotency key.
\<close>

definition next_stream_seq :: "uuid \<Rightarrow> stream_row list \<Rightarrow> int" where
  "next_stream_seq a rows = max_or_zero (map sr_seq (filter (\<lambda>r. sr_analysis_id r = a) rows)) + 1"

definition add_stream_event ::
  "draws \<Rightarrow> nat \<Rightarrow> uuid \<Rightarrow> uuid \<Rightarrow> string \<Rightarrow> json \<Rightarrow> uuid option \<Rightarrow> int option \<Rightarrow> string option \<Rightarrow>
   string option \<Rightarrow> string option \<Rightarrow> db \<Rightarrow> db" where
  "add_stream_event d k analysis agent ty pl turn att response state key st =
     (if key \<noteq> None \<and> any_row (\<lambda>r. sr_agent_id r = agent \<and> sr_idempotency_key r = key) (stream_events st) then st
      else st\<lparr>stream_events := stream_events st @
        [\<lparr>sr_id = new_id d k, sr_analysis_id = analysis, sr_agent_id = agent, sr_turn_id = turn,
          sr_seq = next_stream_seq analysis (stream_events st), sr_event_type = ty, sr_payload = pl,
          sr_attempt = att, sr_response_id = response, sr_state = state, sr_idempotency_key = key,
          sr_created_at = now d\<rparr>]\<rparr>)"

text \<open>\<^verbatim>\<open>append_context_item_on_connection\<close> (\<^verbatim>\<open>context_items.py\<close>), numbered per agent.\<close>

definition next_context_seq :: "uuid \<Rightarrow> context_row list \<Rightarrow> int" where
  "next_context_seq a rows = max_or_zero (map ci_seq (filter (\<lambda>r. ci_agent_id r = a) rows)) + 1"

definition append_context_item ::
  "draws \<Rightarrow> nat \<Rightarrow> uuid \<Rightarrow> uuid option \<Rightarrow> string \<Rightarrow> json \<Rightarrow> string option \<Rightarrow> string \<Rightarrow> string option \<Rightarrow> db \<Rightarrow> db" where
  "append_context_item d k agent turn item_type pl response source key st =
     (if key \<noteq> None \<and> any_row (\<lambda>r. ci_agent_id r = agent \<and> ci_idempotency_key r = key) (context_items st) then st
      else st\<lparr>context_items := context_items st @
        [\<lparr>ci_id = new_id d k, ci_agent_id = agent, ci_turn_id = turn,
          ci_seq = next_context_seq agent (context_items st), ci_item_type = item_type, ci_payload = pl,
          ci_response_id = response, ci_source = source, ci_idempotency_key = key, ci_compacted_at = None,
          ci_created_at = now d\<rparr>]\<rparr>)"

section \<open>Lemmas on the statements\<close>

named_theorems frame_simps \<open>which tables a statement leaves alone\<close>

lemma update_where_Nil [simp]: "update_where p f [] = []"
  by (simp add: update_where_def)

lemma update_where_append [simp]: "update_where p f (xs @ ys) = update_where p f xs @ update_where p f ys"
  by (simp add: update_where_def)

lemma update_where_Cons [simp]:
  "update_where p f (x # xs) = (if p x then f x else x) # update_where p f xs"
  by (simp add: update_where_def)

lemma length_update_where [simp]: "length (update_where p f rows) = length rows"
  by (simp add: update_where_def)

lemma map_update_where_same: "(\<And>r. p r \<Longrightarrow> g (f r) = g r) \<Longrightarrow> map g (update_where p f rows) = map g rows"
  by (induction rows) auto

lemma update_where_none: "\<not> any_row p rows \<Longrightarrow> update_where p f rows = rows"
  by (induction rows) auto

lemma in_update_where: "r' \<in> set (update_where p f rows) \<longleftrightarrow>
  (\<exists>r \<in> set rows. r' = (if p r then f r else r))"
  by (auto simp: update_where_def)

lemma filter_update_where:
  "(\<And>r. p r \<Longrightarrow> q (f r) = q r) \<Longrightarrow> filter q (update_where p f rows) = update_where p f (filter q rows)"
  by (induction rows) auto

lemma count_update_where_out:
  "(\<And>r. r \<in> set xs \<Longrightarrow> p r \<Longrightarrow> q r \<and> \<not> q (f r)) \<Longrightarrow>
   length (filter q (update_where p f xs)) + length (filter p xs) = length (filter q xs)"
  by (induction xs) auto

lemma count_update_where_in:
  "(\<And>r. r \<in> set xs \<Longrightarrow> p r \<Longrightarrow> \<not> q r \<and> q (f r)) \<Longrightarrow>
   length (filter q (update_where p f xs)) = length (filter q xs) + length (filter p xs)"
  by (induction xs) auto

lemma count_update_where_same:
  "(\<And>r. r \<in> set xs \<Longrightarrow> p r \<Longrightarrow> q (f r) = q r) \<Longrightarrow>
   length (filter q (update_where p f xs)) = length (filter q xs)"
  by (induction xs) auto

lemma update_where_filter_Nil:
  "filter p (update_where p f xs) = [] \<Longrightarrow> (\<And>r. p (f r) = p r) \<Longrightarrow> update_where p f xs = xs"
  by (induction xs) (auto split: if_splits)

lemma length_filter_by_key:
  assumes "distinct (map key xs)" "set ys \<subseteq> set xs" "distinct ys"
  shows "length (filter (\<lambda>r. key r \<in> key ` set ys) xs) = length ys"
proof -
  have "set (filter (\<lambda>r. key r \<in> key ` set ys) xs) = set ys"
    using assms by (auto simp: distinct_map dest: inj_onD)
  moreover have "distinct (filter (\<lambda>r. key r \<in> key ` set ys) xs)"
    using assms(1) by (simp add: distinct_map)
  ultimately show ?thesis using assms(3) by (metis distinct_card)
qed

lemma count_update_where_mono:
  "(\<And>r. r \<in> set xs \<Longrightarrow> p r \<Longrightarrow> q (f r) \<Longrightarrow> q r) \<Longrightarrow>
   length (filter q (update_where p f xs)) \<le> length (filter q xs)"
  by (induction xs) (auto intro: le_SucI)

lemma terminal_closed: "terminal s \<Longrightarrow> closed s"
  by (auto simp: terminal_def closed_def)

lemma terminal_simps [simp]:
  "terminal ''completed''" "terminal ''failed''" "terminal ''cancelled''" "\<not> terminal ''cancelling''"
  "\<not> terminal ''queued''" "\<not> terminal ''snapshotting''" "\<not> terminal ''running''" "\<not> terminal ''pending''"
  "\<not> terminal ''dispatched''"
  by (simp_all add: terminal_def)

lemma closed_simps [simp]:
  "closed ''completed''" "closed ''failed''" "closed ''cancelled''" "closed ''cancelling''"
  "\<not> closed ''queued''" "\<not> closed ''snapshotting''" "\<not> closed ''running''"
  by (simp_all add: closed_def)

lemma emit_frame [frame_simps]:
  "analyses (emit d k ty a g s co ca pl st) = analyses st"
  "agent_sessions (emit d k ty a g s co ca pl st) = agent_sessions st"
  "analysis_repositories (emit d k ty a g s co ca pl st) = analysis_repositories st"
  "analysis_batches (emit d k ty a g s co ca pl st) = analysis_batches st"
  "analysis_batch_items (emit d k ty a g s co ca pl st) = analysis_batch_items st"
  "config_snapshots (emit d k ty a g s co ca pl st) = config_snapshots st"
  "tool_calls (emit d k ty a g s co ca pl st) = tool_calls st"
  "agent_turns (emit d k ty a g s co ca pl st) = agent_turns st"
  "stream_events (emit d k ty a g s co ca pl st) = stream_events st"
  "context_items (emit d k ty a g s co ca pl st) = context_items st"
  "snapshots (emit d k ty a g s co ca pl st) = snapshots st"
  "snapshot_files (emit d k ty a g s co ca pl st) = snapshot_files st"
  "agent_instruction_files (emit d k ty a g s co ca pl st) = agent_instruction_files st"
  by (simp_all add: emit_def)

lemma add_stream_event_frame [frame_simps]:
  "analyses (add_stream_event d k a g ty pl tu att re sta key st) = analyses st"
  "agent_sessions (add_stream_event d k a g ty pl tu att re sta key st) = agent_sessions st"
  "analysis_repositories (add_stream_event d k a g ty pl tu att re sta key st) = analysis_repositories st"
  "analysis_batches (add_stream_event d k a g ty pl tu att re sta key st) = analysis_batches st"
  "analysis_batch_items (add_stream_event d k a g ty pl tu att re sta key st) = analysis_batch_items st"
  "tool_calls (add_stream_event d k a g ty pl tu att re sta key st) = tool_calls st"
  "agent_turns (add_stream_event d k a g ty pl tu att re sta key st) = agent_turns st"
  "context_items (add_stream_event d k a g ty pl tu att re sta key st) = context_items st"
  "snapshots (add_stream_event d k a g ty pl tu att re sta key st) = snapshots st"
  "snapshot_files (add_stream_event d k a g ty pl tu att re sta key st) = snapshot_files st"
  "outbox_events (add_stream_event d k a g ty pl tu att re sta key st) = outbox_events st"
  by (simp_all add: add_stream_event_def)

lemma append_context_item_frame [frame_simps]:
  "analyses (append_context_item d k g tu it pl re so key st) = analyses st"
  "agent_sessions (append_context_item d k g tu it pl re so key st) = agent_sessions st"
  "analysis_repositories (append_context_item d k g tu it pl re so key st) = analysis_repositories st"
  "analysis_batches (append_context_item d k g tu it pl re so key st) = analysis_batches st"
  "analysis_batch_items (append_context_item d k g tu it pl re so key st) = analysis_batch_items st"
  "tool_calls (append_context_item d k g tu it pl re so key st) = tool_calls st"
  "agent_turns (append_context_item d k g tu it pl re so key st) = agent_turns st"
  "stream_events (append_context_item d k g tu it pl re so key st) = stream_events st"
  "snapshots (append_context_item d k g tu it pl re so key st) = snapshots st"
  "outbox_events (append_context_item d k g tu it pl re so key st) = outbox_events st"
  by (simp_all add: append_context_item_def)

text \<open>The outbox after an emit, as the list of envelopes.\<close>

definition emitted :: "db \<Rightarrow> envelope list" where
  "emitted st = map ob_event (outbox_events st)"

lemma emitted_emit [simp]:
  "emitted (emit d k ty a g s co ca pl st) =
     emitted st @ [envelope_new (new_id d (k + 1)) (new_id d k) (now_iso d) ty a g s co ca (Some pl)]"
  by (simp add: emitted_def emit_def outbox_add_def)

lemma emitted_frame [frame_simps]:
  "emitted (add_stream_event d k a g ty pl tu att re sta key st) = emitted st"
  "emitted (append_context_item d k g tu it pl re so key st) = emitted st"
  by (simp_all add: emitted_def frame_simps)

end
