(* ===== verification/Batch_Scheduler.thy ===== *)
theory Batch_Scheduler
  imports Schema
begin

text \<open>
  The batch scheduler (\<^verbatim>\<open>backend/workers/batch_scheduler.py\<close>): it dispatches the pending items of a batch into
  the free slots, marks an item terminal when its analysis ends, and keeps the counters and the status
  of the batch. \<open>locked\<close> says which item rows another transaction holds (\<^verbatim>\<open>FOR UPDATE SKIP LOCKED\<close>).
  The lemmas show that the counters always agree with the items, that a batch never runs more than
  \<^verbatim>\<open>max_parallel\<close> analyses, that every item is dispatched at most once, and that no free slot is left
  while an item waits.
\<close>

section \<open>The handler\<close>

definition TERMINAL_EVENT_STATUSES :: "event_type \<rightharpoonup> string" where
  "TERMINAL_EVENT_STATUSES =
     [ANALYSIS_COMPLETED \<mapsto> ''completed'', ANALYSIS_FAILED \<mapsto> ''failed'', ANALYSIS_CANCELLED \<mapsto> ''cancelled'']"

definition batch_id_from_payload :: "envelope \<Rightarrow> handler_error + uuid" where
  "batch_id_from_payload e =
     (case obj_get (payload e) ''batch_id'' of
        JStr s \<Rightarrow> (case parse_uuid s of
                     None \<Rightarrow> Inl (HValueError ''badly formed hexadecimal UUID string'')
                   | Some u \<Rightarrow> Inr u)
      | _ \<Rightarrow> Inl (HValueError (type_value (event_type e) @ '' requires payload.batch_id'')))"

definition optional_str :: "json \<Rightarrow> string option" where
  "optional_str v = (case v of JNull \<Rightarrow> None | _ \<Rightarrow> Some (py_str v))"

definition active_status :: "string \<Rightarrow> bool" where
  "active_status s = (s \<in> {''dispatched'', ''snapshotting'', ''running''})"

text \<open>\<^verbatim>\<open>count(*) FILTER (WHERE ...)\<close> over the items of a batch.\<close>

definition count_items :: "db \<Rightarrow> uuid \<Rightarrow> (string \<Rightarrow> bool) \<Rightarrow> int" where
  "count_items st b p =
     int (length (filter (\<lambda>i. bi_batch_id i = b \<and> p (bi_status i)) (analysis_batch_items st)))"

definition refreshed_batch :: "draws \<Rightarrow> uuid \<Rightarrow> db \<Rightarrow> batch_row \<Rightarrow> batch_row" where
  "refreshed_batch d b st r =
     (let pending = count_items st b (\<lambda>s. s = ''pending'');
          active = count_items st b active_status;
          failed = count_items st b (\<lambda>s. s = ''failed'')
      in r\<lparr>ba_pending_count := pending, ba_active_count := active,
           ba_completed_count := count_items st b (\<lambda>s. s = ''completed''),
           ba_failed_count := failed,
           ba_cancelled_count := count_items st b (\<lambda>s. s = ''cancelled''),
           ba_status := (if pending = 0 \<and> active = 0 \<and> failed > 0 then ''failed''
                         else if pending = 0 \<and> active = 0 then ''completed''
                         else if active > 0 then ''running''
                         else ba_status r),
           ba_completed_at := (if pending = 0 \<and> active = 0 then Some (now d) else ba_completed_at r),
           ba_updated_at := now d\<rparr>)"

definition refresh_batch_counts :: "draws \<Rightarrow> uuid \<Rightarrow> db \<Rightarrow> db" where
  "refresh_batch_counts d b st =
     st\<lparr>analysis_batches := update_where (\<lambda>r. ba_id r = b) (refreshed_batch d b st) (analysis_batches st)\<rparr>"

definition lock_batch :: "uuid \<Rightarrow> db \<Rightarrow> batch_row option" where
  "lock_batch b st = find (\<lambda>r. ba_id r = b \<and> \<not> terminal (ba_status r)) (analysis_batches st)"

definition claimable_items :: "(uuid \<Rightarrow> bool) \<Rightarrow> uuid \<Rightarrow> nat \<Rightarrow> db \<Rightarrow> batch_item_row list" where
  "claimable_items locked b limit st =
     take limit (filter (\<lambda>i. \<not> locked (bi_id i)) (sort_key bi_sort_order
       (filter (\<lambda>i. bi_batch_id i = b \<and> bi_status i = ''pending'') (analysis_batch_items st))))"

definition dispatch_item :: "draws \<Rightarrow> batch_item_row \<Rightarrow> batch_item_row" where
  "dispatch_item d i = i\<lparr>bi_status := ''dispatched'', bi_dispatch_owner := Some ''analysis-batch-scheduler'',
     bi_dispatched_at := Some (now d), bi_updated_at := now d\<rparr>"

definition claim_pending_items ::
  "draws \<Rightarrow> (uuid \<Rightarrow> bool) \<Rightarrow> uuid \<Rightarrow> nat \<Rightarrow> db \<Rightarrow> db \<times> batch_item_row list" where
  "claim_pending_items d locked b limit st =
     (let ids = map bi_id (claimable_items locked b limit st);
          items = update_where (\<lambda>i. bi_id i \<in> set ids) (dispatch_item d) (analysis_batch_items st)
      in (st\<lparr>analysis_batch_items := items\<rparr>, filter (\<lambda>i. bi_id i \<in> set ids) items))"

definition finish_batch_if_terminal :: "draws \<Rightarrow> uuid \<Rightarrow> db \<Rightarrow> db" where
  "finish_batch_if_terminal d b st = refresh_batch_counts d b st"

definition requested_payload :: "uuid \<Rightarrow> batch_item_row \<Rightarrow> payload" where
  "requested_payload b i =
     [(''batch_id'', JStr (uuid_str b)),
      (''batch_item_id'', JStr (uuid_str (bi_id i))),
      (''repository_url'', JStr (bi_repository_url i)),
      (''requested_ref'', JStr (bi_requested_ref i)),
      (''analysis_profile_id'', uuid_json (bi_profile_id i)),
      (''config_snapshot_id'', JStr (uuid_str (bi_config_snapshot_id i)))]"

text \<open>The loop over the claimed items; each iteration draws three identifiers.\<close>

fun emit_requests :: "draws \<Rightarrow> nat \<Rightarrow> uuid \<Rightarrow> uuid option \<Rightarrow> batch_item_row list \<Rightarrow> db \<Rightarrow> db" where
  "emit_requests d k b causation [] st = st"
| "emit_requests d k b causation (i # is) st =
     emit_requests d (k + 3) b causation is
       (emit d k ANALYSIS_REQUESTED (Some (bi_analysis_id i)) (Some (bi_agent_id i)) None (Some b) causation
          (requested_payload b i) st)"

definition schedule_batch :: "draws \<Rightarrow> (uuid \<Rightarrow> bool) \<Rightarrow> uuid \<Rightarrow> uuid option \<Rightarrow> db \<Rightarrow> db" where
  "schedule_batch d locked b causation st =
     (case lock_batch b st of
        None \<Rightarrow> st
      | Some batch \<Rightarrow>
          if ba_pending_count batch \<le> 0 then finish_batch_if_terminal d b st
          else let available_slots = ba_max_parallel batch - ba_active_count batch
            in if available_slots \<le> 0 then st
               else let (st1, claimed) = claim_pending_items d locked b (nat available_slots) st
                 in if claimed = [] then st1
                    else emit_requests d 0 b causation claimed (refresh_batch_counts d b st1))"

definition finish_item :: "draws \<Rightarrow> string \<Rightarrow> envelope \<Rightarrow> batch_item_row \<Rightarrow> batch_item_row" where
  "finish_item d status e i =
     i\<lparr>bi_status := status, bi_completed_at := Some (now d), bi_updated_at := now d,
       bi_error_code := (case optional_str (obj_get (payload e) ''error_code'') of
          None \<Rightarrow> bi_error_code i | Some c \<Rightarrow> Some c),
       bi_error_message := (case optional_str (obj_get (payload e) ''error_message'') of
          None \<Rightarrow> bi_error_message i | Some m \<Rightarrow> Some m)\<rparr>"

definition handle_terminal_analysis_event ::
  "draws \<Rightarrow> (uuid \<Rightarrow> bool) \<Rightarrow> envelope \<Rightarrow> string \<Rightarrow> db \<Rightarrow> handler_error + db" where
  "handle_terminal_analysis_event d locked e status st =
     (case analysis_id e of
        None \<Rightarrow> Inl (HValueError (type_value (event_type e) @ '' requires analysis_id''))
      | Some a \<Rightarrow>
          let p = (\<lambda>i. bi_analysis_id i = a \<and> \<not> terminal (bi_status i))
          in case find p (analysis_batch_items st) of
               None \<Rightarrow> Inr st
             | Some row \<Rightarrow>
                 let b = bi_batch_id row;
                     st1 = st\<lparr>analysis_batch_items :=
                       update_where p (finish_item d status e) (analysis_batch_items st)\<rparr>
                 in Inr (schedule_batch d locked b (Some (event_id e)) (refresh_batch_counts d b st1)))"

definition scheduler_call :: "draws \<Rightarrow> (uuid \<Rightarrow> bool) \<Rightarrow> envelope \<Rightarrow> db \<Rightarrow> handler_error + db" where
  "scheduler_call d locked e st =
     (if event_type e \<in> {ANALYSIS_BATCH_SUBMITTED, ANALYSIS_BATCH_SLOT_AVAILABLE}
      then rbind (batch_id_from_payload e) (\<lambda>b. Inr (schedule_batch d locked b None st))
      else case TERMINAL_EVENT_STATUSES (event_type e) of
             Some status \<Rightarrow> handle_terminal_analysis_event d locked e status st
           | None \<Rightarrow> Inl (HValueError (''Unsupported analysis batch scheduler event: '' @ type_value (event_type e))))"

section \<open>The invariant\<close>

definition batch_row_ok :: "db \<Rightarrow> batch_row \<Rightarrow> bool" where
  "batch_row_ok st b =
     (ba_pending_count b = count_items st (ba_id b) (\<lambda>s. s = ''pending'') \<and>
      ba_active_count b = count_items st (ba_id b) active_status \<and>
      ba_completed_count b = count_items st (ba_id b) (\<lambda>s. s = ''completed'') \<and>
      ba_failed_count b = count_items st (ba_id b) (\<lambda>s. s = ''failed'') \<and>
      ba_cancelled_count b = count_items st (ba_id b) (\<lambda>s. s = ''cancelled'') \<and>
      ba_active_count b \<le> ba_max_parallel b \<and>
      (terminal (ba_status b) \<longrightarrow> ba_pending_count b = 0 \<and> ba_active_count b = 0))"

definition batches_ok :: "db \<Rightarrow> bool" where
  "batches_ok st =
     (distinct (map bi_id (analysis_batch_items st)) \<and>
      distinct (map bi_analysis_id (analysis_batch_items st)) \<and>
      distinct (map ba_id (analysis_batches st)) \<and>
      list_all (batch_row_ok st) (analysis_batches st))"

lemma count_items_nonneg [simp]: "0 \<le> count_items st b p"
  by (simp add: count_items_def)

lemma count_items_pos [simp]: "0 < count_items st b p \<longleftrightarrow> count_items st b p \<noteq> 0"
  using count_items_nonneg [of st b p] by linarith

lemma count_items_cong: "analysis_batch_items st = analysis_batch_items st' \<Longrightarrow> count_items st = count_items st'"
  by (simp add: count_items_def fun_eq_iff)

lemma batch_row_ok_cong:
  "analysis_batch_items st = analysis_batch_items st' \<Longrightarrow> batch_row_ok st = batch_row_ok st'"
  using count_items_cong [of st st'] by (simp add: batch_row_ok_def fun_eq_iff)

lemma batches_ok_cong:
  assumes "analysis_batch_items st = analysis_batch_items st'" "analysis_batches st = analysis_batches st'"
  shows "batches_ok st = batches_ok st'"
  using assms batch_row_ok_cong [OF assms(1)] by (simp add: batches_ok_def)

lemma refresh_frame [frame_simps]:
  "analysis_batch_items (refresh_batch_counts d b st) = analysis_batch_items st"
  "outbox_events (refresh_batch_counts d b st) = outbox_events st"
  "analyses (refresh_batch_counts d b st) = analyses st"
  "agent_sessions (refresh_batch_counts d b st) = agent_sessions st"
  "tool_calls (refresh_batch_counts d b st) = tool_calls st"
  "stream_events (refresh_batch_counts d b st) = stream_events st"
  by (simp_all add: refresh_batch_counts_def)

lemma emit_requests_frame [frame_simps]:
  "analysis_batch_items (emit_requests d k b c is st) = analysis_batch_items st"
  "analysis_batches (emit_requests d k b c is st) = analysis_batches st"
  "analyses (emit_requests d k b c is st) = analyses st"
  "agent_sessions (emit_requests d k b c is st) = agent_sessions st"
  "tool_calls (emit_requests d k b c is st) = tool_calls st"
  "stream_events (emit_requests d k b c is st) = stream_events st"
  by (induction d k b c "is" st rule: emit_requests.induct) (simp_all add: frame_simps)

lemma refreshed_batch_fields [simp]:
  "ba_id (refreshed_batch d b st r) = ba_id r"
  "ba_max_parallel (refreshed_batch d b st r) = ba_max_parallel r"
  by (simp_all add: refreshed_batch_def Let_def)

lemma refreshed_batch_ok:
  assumes "ba_id r = b" "count_items st b active_status \<le> ba_max_parallel r"
    and "terminal (ba_status r) \<Longrightarrow> count_items st b (\<lambda>s. s = ''pending'') = 0"
  shows "batch_row_ok st (refreshed_batch d b st r)"
  using assms by (auto simp: batch_row_ok_def refreshed_batch_def Let_def)

text \<open>A refresh repairs the counters of its batch and touches no other.\<close>

lemma refresh_batches_ok:
  assumes "distinct (map bi_id (analysis_batch_items st))" "distinct (map bi_analysis_id (analysis_batch_items st))"
    and "distinct (map ba_id (analysis_batches st))"
    and others: "\<And>r. r \<in> set (analysis_batches st) \<Longrightarrow> ba_id r \<noteq> b \<Longrightarrow> batch_row_ok st r"
    and refreshed: "\<And>r. r \<in> set (analysis_batches st) \<Longrightarrow> ba_id r = b \<Longrightarrow>
      count_items st b active_status \<le> ba_max_parallel r \<and>
      (terminal (ba_status r) \<longrightarrow> count_items st b (\<lambda>s. s = ''pending'') = 0)"
  shows "batches_ok (refresh_batch_counts d b st)"
proof -
  let ?st = "refresh_batch_counts d b st"
  have same: "batch_row_ok ?st = batch_row_ok st"
    by (rule batch_row_ok_cong) (simp add: frame_simps)
  have "list_all (batch_row_ok ?st) (analysis_batches ?st)"
    unfolding same using others refreshed refreshed_batch_ok [of _ b st d]
    by (auto simp: refresh_batch_counts_def list_all_iff in_update_where)
  moreover have "map ba_id (analysis_batches ?st) = map ba_id (analysis_batches st)"
    by (simp add: refresh_batch_counts_def map_update_where_same)
  ultimately show ?thesis using assms(1-3) by (simp add: batches_ok_def frame_simps)
qed

section \<open>Claiming items\<close>

lemma claimable_items_pending:
  "i \<in> set (claimable_items locked b n st) \<Longrightarrow>
   i \<in> set (analysis_batch_items st) \<and> bi_batch_id i = b \<and> bi_status i = ''pending''"
  by (auto simp: claimable_items_def dest!: in_set_takeD)

lemma claimable_items_bound: "length (claimable_items locked b n st) \<le> n"
  by (simp add: claimable_items_def)

lemma claimable_items_distinct:
  "distinct (map bi_id (analysis_batch_items st)) \<Longrightarrow> distinct (claimable_items locked b n st)"
  by (simp add: claimable_items_def distinct_map)

lemma claimable_items_all:
  "length (claimable_items (\<lambda>_. False) b n st) = min n (nat (count_items st b (\<lambda>s. s = ''pending'')))"
  by (simp add: claimable_items_def count_items_def min.commute)

lemma claimed_is_pending:
  assumes "distinct (map bi_id (analysis_batch_items st))" "r \<in> set (analysis_batch_items st)"
    and "bi_id r \<in> bi_id ` set (claimable_items locked b n st)"
  shows "bi_batch_id r = b \<and> bi_status r = ''pending''"
proof -
  from assms(3) obtain i where i: "i \<in> set (claimable_items locked b n st)" "bi_id r = bi_id i" by auto
  with claimable_items_pending have "i \<in> set (analysis_batch_items st)" by blast
  with assms(1,2) i(2) have "r = i" by (auto simp: distinct_map dest: inj_onD)
  with i(1) show ?thesis by (auto dest: claimable_items_pending)
qed

lemma dispatch_item_fields [simp]:
  "bi_id (dispatch_item d i) = bi_id i" "bi_batch_id (dispatch_item d i) = bi_batch_id i"
  "bi_analysis_id (dispatch_item d i) = bi_analysis_id i" "bi_status (dispatch_item d i) = ''dispatched''"
  "bi_agent_id (dispatch_item d i) = bi_agent_id i"
  by (simp_all add: dispatch_item_def)

lemma claim_frame [frame_simps]:
  "analysis_batches (fst (claim_pending_items d locked b n st)) = analysis_batches st"
  "outbox_events (fst (claim_pending_items d locked b n st)) = outbox_events st"
  "analyses (fst (claim_pending_items d locked b n st)) = analyses st"
  "agent_sessions (fst (claim_pending_items d locked b n st)) = agent_sessions st"
  "tool_calls (fst (claim_pending_items d locked b n st)) = tool_calls st"
  "stream_events (fst (claim_pending_items d locked b n st)) = stream_events st"
  by (simp_all add: claim_pending_items_def Let_def)

lemma claim_ids:
  "map bi_id (analysis_batch_items (fst (claim_pending_items d locked b n st))) = map bi_id (analysis_batch_items st)"
  "map bi_analysis_id (analysis_batch_items (fst (claim_pending_items d locked b n st))) =
     map bi_analysis_id (analysis_batch_items st)"
  by (simp_all add: claim_pending_items_def Let_def map_update_where_same)

lemma claim_counts:
  fixes st :: db and locked :: "uuid \<Rightarrow> bool" and b :: uuid and n :: nat and d :: draws
  assumes dist: "distinct (map bi_id (analysis_batch_items st))"
  defines "k \<equiv> int (length (claimable_items locked b n st))"
  defines "st' \<equiv> fst (claim_pending_items d locked b n st)"
  shows "count_items st' b (\<lambda>s. s = ''pending'') = count_items st b (\<lambda>s. s = ''pending'') - k"
    and "count_items st' b active_status = count_items st b active_status + k"
    and "\<not> q ''pending'' \<Longrightarrow> \<not> q ''dispatched'' \<Longrightarrow> count_items st' b q = count_items st b q"
    and "b' \<noteq> b \<Longrightarrow> count_items st' b' q = count_items st b' q"
proof -
  let ?p = "\<lambda>i. bi_id i \<in> bi_id ` set (claimable_items locked b n st)"
  have items: "analysis_batch_items st' = update_where ?p (dispatch_item d) (analysis_batch_items st)"
    by (simp add: st'_def claim_pending_items_def Let_def)
  have len: "int (length (filter ?p (analysis_batch_items st))) = k"
    unfolding k_def using dist claimable_items_distinct claimable_items_pending
    by (subst length_filter_by_key) auto
  note cl = claimed_is_pending [OF dist]
  show "count_items st' b (\<lambda>s. s = ''pending'') = count_items st b (\<lambda>s. s = ''pending'') - k"
    using count_update_where_out [of "analysis_batch_items st" ?p "\<lambda>i. bi_batch_id i = b \<and> bi_status i = ''pending''" "dispatch_item d"]
      cl len by (simp add: count_items_def items)
  show "count_items st' b active_status = count_items st b active_status + k"
    using count_update_where_in [of "analysis_batch_items st" ?p "\<lambda>i. bi_batch_id i = b \<and> active_status (bi_status i)" "dispatch_item d"]
      cl len by (simp add: count_items_def items active_status_def)
  show "count_items st' b q = count_items st b q" if "\<not> q ''pending''" "\<not> q ''dispatched''"
    using count_update_where_same [of "analysis_batch_items st" ?p "\<lambda>i. bi_batch_id i = b \<and> q (bi_status i)" "dispatch_item d"]
      cl that by (simp add: count_items_def items)
  show "count_items st' b' q = count_items st b' q" if "b' \<noteq> b"
    using count_update_where_same [of "analysis_batch_items st" ?p "\<lambda>i. bi_batch_id i = b' \<and> q (bi_status i)" "dispatch_item d"]
      cl that by (simp add: count_items_def items)
qed

lemma lock_batchD:
  assumes "lock_batch b st = Some r"
  shows "r \<in> set (analysis_batches st)" "ba_id r = b" "\<not> terminal (ba_status r)"
  using assms by (auto simp: lock_batch_def find_Some_iff)

lemma batch_unique:
  assumes "batches_ok st" "r \<in> set (analysis_batches st)" "r' \<in> set (analysis_batches st)" "ba_id r = ba_id r'"
  shows "r = r'"
  using assms by (auto simp: batches_ok_def distinct_map dest: inj_onD)

lemma batches_okD: "batches_ok st \<Longrightarrow> r \<in> set (analysis_batches st) \<Longrightarrow> batch_row_ok st r"
  by (auto simp: batches_ok_def list_all_iff)

lemma refresh_keeps_ok:
  assumes "batches_ok st"
  shows "batches_ok (refresh_batch_counts d b st)"
proof (rule refresh_batches_ok)
  fix r assume r: "r \<in> set (analysis_batches st)"
  with assms show ok: "batch_row_ok st r" by (rule batches_okD)
  show "count_items st b active_status \<le> ba_max_parallel r \<and>
      (terminal (ba_status r) \<longrightarrow> count_items st b (\<lambda>s. s = ''pending'') = 0)" if "ba_id r = b"
    using ok that by (auto simp: batch_row_ok_def)
qed (use assms in \<open>simp_all add: batches_ok_def\<close>)

lemma claim_then_refresh_ok:
  assumes ok: "batches_ok st" and lock: "lock_batch b st = Some r"
    and n: "int n \<le> ba_max_parallel r - ba_active_count r"
  shows "batches_ok (refresh_batch_counts d b (fst (claim_pending_items d locked b n st)))"
proof -
  let ?st = "fst (claim_pending_items d locked b n st)"
  from ok have dist: "distinct (map bi_id (analysis_batch_items st))" by (simp add: batches_ok_def)
  note counts = claim_counts [OF dist, where locked = locked and b = b and n = n and d = d]
  note r = lock_batchD [OF lock]
  show ?thesis
  proof (rule refresh_batches_ok)
    fix s assume s: "s \<in> set (analysis_batches ?st)"
    then have s': "s \<in> set (analysis_batches st)" by (simp add: frame_simps)
    then have oks: "batch_row_ok st s" using ok by (blast intro: batches_okD)
    show "batch_row_ok ?st s" if "ba_id s \<noteq> b"
      using oks that by (auto simp: batch_row_ok_def counts(4))
    show "count_items ?st b active_status \<le> ba_max_parallel s \<and>
        (terminal (ba_status s) \<longrightarrow> count_items ?st b (\<lambda>s. s = ''pending'') = 0)" if "ba_id s = b"
    proof -
      from batch_unique [OF ok s' r(1)] that r(2) have "s = r" by simp
      with oks r n claimable_items_bound [of locked b n st] show ?thesis
        by (simp add: batch_row_ok_def counts(2))
    qed
  qed (use ok in \<open>simp_all add: batches_ok_def claim_ids frame_simps\<close>)
qed

lemma claim_empty:
  assumes "snd (claim_pending_items d locked b n st) = []"
  shows "fst (claim_pending_items d locked b n st) = st"
proof -
  let ?p = "\<lambda>i. bi_id i \<in> set (map bi_id (claimable_items locked b n st))"
  have "update_where ?p (dispatch_item d) (analysis_batch_items st) = analysis_batch_items st"
    by (rule update_where_filter_Nil) (use assms in \<open>simp_all only: claim_pending_items_def Let_def snd_conv dispatch_item_fields\<close>)
  then show ?thesis by (simp only: claim_pending_items_def Let_def fst_conv) simp
qed

text \<open>The three ways through \<^verbatim>\<open>_schedule_batch\<close>, with the claim that finds nothing folded into the second.\<close>

lemma schedule_batch_cases:
  obtains (idle) "schedule_batch d locked b c st = st"
  | (finish) r where "lock_batch b st = Some r" "ba_pending_count r \<le> 0"
      "schedule_batch d locked b c st = refresh_batch_counts d b st"
  | (claim) r n where "lock_batch b st = Some r" "n = nat (ba_max_parallel r - ba_active_count r)" "0 < n"
      "0 < ba_pending_count r"
      "schedule_batch d locked b c st =
        emit_requests d 0 b c (snd (claim_pending_items d locked b n st))
          (refresh_batch_counts d b (fst (claim_pending_items d locked b n st)))"
proof (cases "lock_batch b st")
  case None
  then show ?thesis by (intro idle) (simp add: schedule_batch_def)
next
  case (Some r)
  let ?n = "nat (ba_max_parallel r - ba_active_count r)"
  let ?c = "claim_pending_items d locked b ?n st"
  show ?thesis
  proof (cases "ba_pending_count r \<le> 0")
    case True
    with Some show ?thesis by (intro finish) (simp_all add: schedule_batch_def finish_batch_if_terminal_def)
  next
    case pending: False
    show ?thesis
    proof (cases "ba_max_parallel r - ba_active_count r \<le> 0 \<or> snd ?c = []")
      case True
      with Some pending claim_empty [of d locked b ?n st] show ?thesis
        by (intro idle) (auto simp: schedule_batch_def Let_def case_prod_beta)
    next
      case False
      with Some pending show ?thesis
        by (intro claim [of r ?n]) (simp_all add: schedule_batch_def Let_def case_prod_beta)
    qed
  qed
qed

lemma schedule_batch_ok:
  assumes "batches_ok st"
  shows "batches_ok (schedule_batch d locked b c st)"
proof (cases rule: schedule_batch_cases [of d locked b c st])
  case (claim r n)
  have "batches_ok (refresh_batch_counts d b (fst (claim_pending_items d locked b n st)))"
    using claim_then_refresh_ok [OF assms claim(1)] claim(2,3) by simp
  then show ?thesis unfolding claim(5) by (subst batches_ok_cong) (simp_all add: frame_simps)
qed (use assms refresh_keeps_ok [OF assms] in simp_all)

section \<open>Terminal events\<close>

lemma count_items_le_0 [simp]: "count_items st b p \<le> 0 \<longleftrightarrow> count_items st b p = 0"
  using count_items_nonneg [of st b p] by linarith

lemma finish_item_fields [simp]:
  "bi_id (finish_item d s e i) = bi_id i" "bi_batch_id (finish_item d s e i) = bi_batch_id i"
  "bi_analysis_id (finish_item d s e i) = bi_analysis_id i" "bi_status (finish_item d s e i) = s"
  by (simp_all add: finish_item_def)

lemma terminal_not_counted:
  "terminal s \<Longrightarrow> \<not> active_status s" "terminal s \<Longrightarrow> s \<noteq> ''pending''"
  by (auto simp: terminal_def active_status_def)

lemma TERMINAL_EVENT_STATUSES_terminal: "TERMINAL_EVENT_STATUSES ty = Some s \<Longrightarrow> terminal s"
  by (auto simp: TERMINAL_EVENT_STATUSES_def split: if_splits)

text \<open>Marking the items of one analysis terminal and refreshing the batch of the row that was found.\<close>

lemma finish_then_refresh_ok:
  fixes st :: db and d :: draws and e :: envelope
  assumes ok: "batches_ok st" and fin: "terminal s"
    and row: "find (\<lambda>i. bi_analysis_id i = a \<and> \<not> terminal (bi_status i)) (analysis_batch_items st) = Some row"
  defines "st1 \<equiv> st\<lparr>analysis_batch_items := update_where (\<lambda>i. bi_analysis_id i = a \<and> \<not> terminal (bi_status i))
       (finish_item d s e) (analysis_batch_items st)\<rparr>"
  shows "batches_ok (refresh_batch_counts d (bi_batch_id row) st1)"
proof -
  let ?p = "\<lambda>i. bi_analysis_id i = a \<and> \<not> terminal (bi_status i)"
  let ?b = "bi_batch_id row"
  from ok have dist: "distinct (map bi_analysis_id (analysis_batch_items st))" by (simp add: batches_ok_def)
  from row have rowin: "row \<in> set (analysis_batch_items st)" "bi_analysis_id row = a" by (auto simp: find_Some_iff)
  have only: "i = row" if "i \<in> set (analysis_batch_items st)" "?p i" for i
    using that rowin dist by (auto simp: distinct_map dest: inj_onD)
  have less: "count_items st1 ?b q \<le> count_items st ?b q" if "\<not> q s" for q
    using count_update_where_mono [of "analysis_batch_items st" ?p "\<lambda>i. bi_batch_id i = ?b \<and> q (bi_status i)" "finish_item d s e"]
      that by (simp add: count_items_def st1_def)
  have same: "count_items st1 b q = count_items st b q" if "b \<noteq> ?b" for b q
    using count_update_where_same [of "analysis_batch_items st" ?p "\<lambda>i. bi_batch_id i = b \<and> q (bi_status i)" "finish_item d s e"]
      only that by (auto simp: count_items_def st1_def)
  show ?thesis
  proof (rule refresh_batches_ok)
    fix r assume "r \<in> set (analysis_batches st1)"
    then have okr: "batch_row_ok st r" using batches_okD [OF ok] by (simp add: st1_def)
    then show "batch_row_ok st1 r" if "ba_id r \<noteq> ?b" using that same by (auto simp: batch_row_ok_def)
    show "count_items st1 ?b active_status \<le> ba_max_parallel r \<and>
        (terminal (ba_status r) \<longrightarrow> count_items st1 ?b (\<lambda>s. s = ''pending'') = 0)" if "ba_id r = ?b"
      using okr that less [of active_status] less [of "\<lambda>s. s = ''pending''"] terminal_not_counted [OF fin]
        count_items_nonneg [of st1 ?b "\<lambda>s. s = ''pending''"]
      by (auto simp: batch_row_ok_def)
  qed (use ok in \<open>simp_all add: batches_ok_def st1_def map_update_where_same\<close>)
qed

lemma scheduler_call_cases:
  assumes "scheduler_call d locked e st = Inr st'"
  obtains (schedule) b where "st' = schedule_batch d locked b None st"
  | (unknown) "st' = st"
  | (finish) a s row where "analysis_id e = Some a" "terminal s" "TERMINAL_EVENT_STATUSES (event_type e) = Some s"
      "find (\<lambda>i. bi_analysis_id i = a \<and> \<not> terminal (bi_status i)) (analysis_batch_items st) = Some row"
      "st' = schedule_batch d locked (bi_batch_id row) (Some (event_id e))
         (refresh_batch_counts d (bi_batch_id row) (st\<lparr>analysis_batch_items :=
            update_where (\<lambda>i. bi_analysis_id i = a \<and> \<not> terminal (bi_status i)) (finish_item d s e)
              (analysis_batch_items st)\<rparr>))"
proof (cases "event_type e \<in> {ANALYSIS_BATCH_SUBMITTED, ANALYSIS_BATCH_SLOT_AVAILABLE}")
  case True
  with assms that(1) show ?thesis by (auto simp: scheduler_call_def rbind_eq_Inr)
next
  case False
  with assms obtain s where s: "TERMINAL_EVENT_STATUSES (event_type e) = Some s"
      and h: "handle_terminal_analysis_event d locked e s st = Inr st'"
    by (auto simp: scheduler_call_def split: option.splits)
  from h obtain a where a: "analysis_id e = Some a"
    by (auto simp: handle_terminal_analysis_event_def split: option.splits)
  show ?thesis
  proof (cases "find (\<lambda>i. bi_analysis_id i = a \<and> \<not> terminal (bi_status i)) (analysis_batch_items st)")
    case None
    with h a that(2) show ?thesis by (simp add: handle_terminal_analysis_event_def Let_def)
  next
    case (Some row)
    with h a s that(3) TERMINAL_EVENT_STATUSES_terminal [OF s] show ?thesis
      by (simp add: handle_terminal_analysis_event_def Let_def)
  qed
qed

lemma scheduler_call_batches_ok:
  assumes "batches_ok st" "scheduler_call d locked e st = Inr st'"
  shows "batches_ok st'"
  using assms(2)
proof (cases rule: scheduler_call_cases)
  case (finish a s row)
  then show ?thesis using finish_then_refresh_ok [OF assms(1)] schedule_batch_ok by simp
qed (use assms(1) schedule_batch_ok in simp_all)

section \<open>Every item is dispatched at most once\<close>

definition requests :: "db \<Rightarrow> uuid \<Rightarrow> nat" where
  "requests st a = length (filter (\<lambda>e. event_type e = ANALYSIS_REQUESTED \<and> analysis_id e = Some a) (emitted st))"

definition dispatched_once :: "db \<Rightarrow> bool" where
  "dispatched_once st =
     list_all (\<lambda>i. requests st (bi_analysis_id i) \<le> 1 \<and>
        (bi_status i = ''pending'' \<longrightarrow> requests st (bi_analysis_id i) = 0) \<and>
        (active_status (bi_status i) \<longrightarrow> requests st (bi_analysis_id i) = 1)) (analysis_batch_items st)"

lemma requests_cong: "outbox_events st = outbox_events st' \<Longrightarrow> requests st = requests st'"
  by (simp add: requests_def emitted_def fun_eq_iff)

lemma requests_emit_requests:
  "requests (emit_requests d k b c is st) a = requests st a + length (filter (\<lambda>i. bi_analysis_id i = a) is)"
  by (induction d k b c "is" st rule: emit_requests.induct) (simp_all add: requests_def envelope_new_def)

lemma distinct_key_count:
  "distinct (map key xs) \<Longrightarrow> length (filter (\<lambda>x. key x = k) xs) = (if k \<in> key ` set xs then 1 else 0)"
  by (induction xs) auto

lemma schedule_dispatched_once:
  assumes ok: "batches_ok st" and once: "dispatched_once st"
  shows "dispatched_once (schedule_batch d locked b c st)"
proof (cases rule: schedule_batch_cases [of d locked b c st])
  case idle
  with once show ?thesis by simp
next
  case (finish r)
  have "requests (refresh_batch_counts d b st) = requests st" by (rule requests_cong) (simp add: frame_simps)
  with finish once show ?thesis by (simp add: dispatched_once_def frame_simps)
next
  case (claim r n)
  let ?p = "\<lambda>i. bi_id i \<in> bi_id ` set (claimable_items locked b n st)"
  let ?new = "update_where ?p (dispatch_item d) (analysis_batch_items st)"
  let ?cl = "claim_pending_items d locked b n st"
  have cl: "snd ?cl = filter ?p ?new" and new: "analysis_batch_items (fst ?cl) = ?new"
    by (simp_all add: claim_pending_items_def Let_def)
  have ids: "map bi_analysis_id ?new = map bi_analysis_id (analysis_batch_items st)"
    by (simp add: map_update_where_same)
  with ok have dist: "distinct (map bi_analysis_id ?new)" by (simp only: batches_ok_def)
  then have dist': "distinct (map bi_analysis_id (filter ?p ?new))" by (rule distinct_map_filter)
  have req: "requests (schedule_batch d locked b c st) a =
      requests st a + (if a \<in> bi_analysis_id ` set (filter ?p ?new) then 1 else 0)" for a
  proof -
    have "requests (refresh_batch_counts d b (fst ?cl)) = requests st"
      by (rule requests_cong) (simp add: frame_simps)
    then show ?thesis unfolding claim(5) requests_emit_requests cl distinct_key_count [OF dist'] by simp
  qed
  have "requests (schedule_batch d locked b c st) (bi_analysis_id i) \<le> 1 \<and>
        (bi_status i = ''pending'' \<longrightarrow> requests (schedule_batch d locked b c st) (bi_analysis_id i) = 0) \<and>
        (active_status (bi_status i) \<longrightarrow> requests (schedule_batch d locked b c st) (bi_analysis_id i) = 1)"
    if i: "i \<in> set ?new" for i
  proof -
    from i obtain i0 where i0: "i0 \<in> set (analysis_batch_items st)" and ieq: "i = (if ?p i0 then dispatch_item d i0 else i0)"
      by (auto simp: in_update_where)
    have mem: "bi_analysis_id i \<in> bi_analysis_id ` set (filter ?p ?new) \<longleftrightarrow> ?p i"
      using i dist by (auto simp: distinct_map dest: inj_onD)
    have pend: "?p i0 \<Longrightarrow> bi_status i0 = ''pending''"
      using claimed_is_pending [OF _ i0, of locked b n] ok by (simp add: batches_ok_def)
    show ?thesis unfolding req mem
      using once i0 ieq pend by (auto simp: dispatched_once_def list_all_iff active_status_def)
  qed
  moreover have "analysis_batch_items (schedule_batch d locked b c st) = ?new"
    unfolding claim(5) by (simp add: frame_simps new)
  ultimately show ?thesis by (simp add: dispatched_once_def list_all_iff)
qed

lemma scheduler_call_dispatched_once:
  assumes ok: "batches_ok st" and once: "dispatched_once st" and "scheduler_call d locked e st = Inr st'"
  shows "dispatched_once st'"
  using assms(3)
proof (cases rule: scheduler_call_cases)
  case (finish a s row)
  let ?st1 = "st\<lparr>analysis_batch_items := update_where (\<lambda>i. bi_analysis_id i = a \<and> \<not> terminal (bi_status i))
      (finish_item d s e) (analysis_batch_items st)\<rparr>"
  have "requests (refresh_batch_counts d (bi_batch_id row) ?st1) = requests st"
    by (rule requests_cong) (simp add: frame_simps)
  then have "dispatched_once (refresh_batch_counts d (bi_batch_id row) ?st1)"
    using once terminal_not_counted [OF finish(2)]
    by (auto simp: dispatched_once_def list_all_iff frame_simps in_update_where)
  then show ?thesis unfolding finish(5)
    by (rule schedule_dispatched_once [OF finish_then_refresh_ok [OF ok finish(2,4)]])
qed (use assms schedule_dispatched_once in simp_all)

section \<open>No free slot while an item waits\<close>

lemma in_refreshed: "r' \<in> set (analysis_batches (refresh_batch_counts d b st)) \<Longrightarrow> ba_id r' = b \<Longrightarrow>
  \<exists>r \<in> set (analysis_batches st). ba_id r = b \<and> r' = refreshed_batch d b st r"
  by (auto simp: refresh_batch_counts_def in_update_where split: if_splits)

lemma schedule_fills_slots:
  assumes ok: "batches_ok st" and r': "r' \<in> set (analysis_batches (schedule_batch d (\<lambda>_. False) b c st))" "ba_id r' = b"
  shows "ba_pending_count r' = 0 \<or> ba_active_count r' = ba_max_parallel r'"
proof (cases "lock_batch b st")
  case None
  then have "schedule_batch d (\<lambda>_. False) b c st = st" by (simp add: schedule_batch_def)
  with r' have r: "r' \<in> set (analysis_batches st)" by simp
  with None r'(2) have "terminal (ba_status r')" by (auto simp: lock_batch_def find_None_iff)
  with batches_okD [OF ok r] show ?thesis by (simp add: batch_row_ok_def)
next
  case (Some r)
  note lock = lock_batchD [OF Some]
  have okr: "batch_row_ok st r" using ok lock(1) by (rule batches_okD)
  show ?thesis
  proof (cases rule: schedule_batch_cases [of d "\<lambda>_. False" b c st])
    case idle
    with r' batch_unique [OF ok _ lock(1)] lock(2) have "r' = r" by simp
    show ?thesis
    proof (rule ccontr)
      assume neg: "\<not> ?thesis"
      let ?n = "nat (ba_max_parallel r - ba_active_count r)"
      from neg \<open>r' = r\<close> okr have pos: "0 < ba_pending_count r" "0 < ?n"
        by (auto simp: batch_row_ok_def)
      let ?cl = "claim_pending_items d (\<lambda>_. False) b ?n st"
      have dist: "distinct (map bi_id (analysis_batch_items st))" using ok by (simp add: batches_ok_def)
      have "count_items (fst ?cl) b (\<lambda>s. s = ''pending'') < count_items st b (\<lambda>s. s = ''pending'')"
        using claim_counts(1) [OF dist, where locked = "\<lambda>_. False" and b = b and n = ?n and d = d] pos okr lock(2)
        by (simp add: claimable_items_all batch_row_ok_def)
      then have "fst ?cl \<noteq> st" by auto
      then have "snd ?cl \<noteq> []" using claim_empty by blast
      with idle Some pos have "emit_requests d 0 b c (snd ?cl) (refresh_batch_counts d b (fst ?cl)) = st"
        by (simp add: schedule_batch_def Let_def case_prod_beta)
      then have "analysis_batch_items (fst ?cl) = analysis_batch_items st"
        by (metis emit_requests_frame(1) refresh_frame(1))
      with \<open>count_items (fst ?cl) b _ < _\<close> show False by (simp add: count_items_def)
    qed
  next
    case (finish r0)
    with Some have "r0 = r" by simp
    from finish r' in_refreshed [of r' d b st] obtain r1 where
      r1: "r1 \<in> set (analysis_batches st)" "ba_id r1 = b" "r' = refreshed_batch d b st r1" by auto
    with finish \<open>r0 = r\<close> okr lock(2) show ?thesis
      by (simp add: refreshed_batch_def Let_def batch_row_ok_def)
  next
    case (claim r0 n)
    with Some have "r0 = r" by simp
    let ?cl = "claim_pending_items d (\<lambda>_. False) b n st"
    have dist: "distinct (map bi_id (analysis_batch_items st))" using ok by (simp add: batches_ok_def)
    note counts = claim_counts [OF dist, where locked = "\<lambda>_. False" and b = b and n = n and d = d]
    from claim(5) r' in_refreshed [of r' d b "fst ?cl"] obtain r1 where
      r1: "r1 \<in> set (analysis_batches st)" "ba_id r1 = b" "r' = refreshed_batch d b (fst ?cl) r1"
      by (auto simp: frame_simps)
    from batch_unique [OF ok r1(1) lock(1)] r1(2) lock(2) have "r1 = r" by simp
    with r1(3) counts(1,2) claim(2,3) \<open>r0 = r\<close> okr lock(2) show ?thesis
      by (simp add: refreshed_batch_def Let_def claimable_items_all batch_row_ok_def min_def)
  qed
qed

end
