(* ===== verification/Sha256.thy ===== *)
theory Sha256
  imports Prelude
begin

text \<open>
  SHA-256 as \<^verbatim>\<open>hashlib.sha256\<close> computes it, and its hexadecimal digest, for the content hashes and object keys
  of the backend. It is executable; the development relies only on it being a function with 64
  hexadecimal characters of output.
\<close>

unbundle bit_operations_syntax

definition sha256_constants :: "32 word list" where
  "sha256_constants =
    [0x428a2f98, 0x71374491, 0xb5c0fbcf, 0xe9b5dba5, 0x3956c25b, 0x59f111f1, 0x923f82a4, 0xab1c5ed5,
     0xd807aa98, 0x12835b01, 0x243185be, 0x550c7dc3, 0x72be5d74, 0x80deb1fe, 0x9bdc06a7, 0xc19bf174,
     0xe49b69c1, 0xefbe4786, 0x0fc19dc6, 0x240ca1cc, 0x2de92c6f, 0x4a7484aa, 0x5cb0a9dc, 0x76f988da,
     0x983e5152, 0xa831c66d, 0xb00327c8, 0xbf597fc7, 0xc6e00bf3, 0xd5a79147, 0x06ca6351, 0x14292967,
     0x27b70a85, 0x2e1b2138, 0x4d2c6dfc, 0x53380d13, 0x650a7354, 0x766a0abb, 0x81c2c92e, 0x92722c85,
     0xa2bfe8a1, 0xa81a664b, 0xc24b8b70, 0xc76c51a3, 0xd192e819, 0xd6990624, 0xf40e3585, 0x106aa070,
     0x19a4c116, 0x1e376c08, 0x2748774c, 0x34b0bcb5, 0x391c0cb3, 0x4ed8aa4a, 0x5b9cca4f, 0x682e6ff3,
     0x748f82ee, 0x78a5636f, 0x84c87814, 0x8cc70208, 0x90befffa, 0xa4506ceb, 0xbef9a3f7, 0xc67178f2]"

definition sha256_initial :: "32 word list" where
  "sha256_initial =
    [0x6a09e667, 0xbb67ae85, 0x3c6ef372, 0xa54ff53a, 0x510e527f, 0x9b05688c, 0x1f83d9ab, 0x5be0cd19]"

definition sigma0 :: "32 word \<Rightarrow> 32 word" where
  "sigma0 x = word_rotr 7 x XOR word_rotr 18 x XOR drop_bit 3 x"

definition sigma1 :: "32 word \<Rightarrow> 32 word" where
  "sigma1 x = word_rotr 17 x XOR word_rotr 19 x XOR drop_bit 10 x"

definition big_sigma0 :: "32 word \<Rightarrow> 32 word" where
  "big_sigma0 x = word_rotr 2 x XOR word_rotr 13 x XOR word_rotr 22 x"

definition big_sigma1 :: "32 word \<Rightarrow> 32 word" where
  "big_sigma1 x = word_rotr 6 x XOR word_rotr 11 x XOR word_rotr 25 x"

text \<open>The message schedule, kept in reverse: the newest word comes first.\<close>

fun extend_schedule :: "nat \<Rightarrow> 32 word list \<Rightarrow> 32 word list" where
  "extend_schedule 0 w = w"
| "extend_schedule (Suc n) w =
     extend_schedule n ((sigma1 (w ! 1) + w ! 6 + sigma0 (w ! 14) + w ! 15) # w)"

definition message_schedule :: "32 word list \<Rightarrow> 32 word list" where
  "message_schedule block = rev (extend_schedule 48 (rev block))"

fun sha256_round :: "32 word list \<Rightarrow> 32 word \<times> 32 word \<Rightarrow> 32 word list" where
  "sha256_round [a, b, c, d, e, f, g, h] (k, w) =
     (let t1 = h + big_sigma1 e + ((e AND f) XOR (NOT e AND g)) + k + w;
          t2 = big_sigma0 a + ((a AND b) XOR (a AND c) XOR (b AND c))
      in [t1 + t2, a, b, c, d + t1, e, f, g])"
| "sha256_round s kw = s"

definition sha256_compress :: "32 word list \<Rightarrow> 32 word list \<Rightarrow> 32 word list" where
  "sha256_compress s block =
     map2 (+) s (foldl sha256_round s (zip sha256_constants (message_schedule block)))"

definition word_of_bytes :: "nat list \<Rightarrow> 32 word" where
  "word_of_bytes bs = foldl (\<lambda>w b. 256 * w + of_nat b) 0 bs"

fun words_of_bytes :: "nat list \<Rightarrow> 32 word list" where
  "words_of_bytes (a # b # c # d # rest) = word_of_bytes [a, b, c, d] # words_of_bytes rest"
| "words_of_bytes _ = []"

text \<open>The padding: a one bit, zeros up to 56 modulo 64 bytes, and the length in bits as eight bytes.\<close>

definition sha256_pad :: "nat list \<Rightarrow> nat list" where
  "sha256_pad bs =
     (let n = length bs
      in bs @ [128] @ replicate ((119 - n mod 64) mod 64) 0 @
         map (\<lambda>i. (8 * n) div 256 ^ i mod 256) [7, 6, 5, 4, 3, 2, 1, 0])"

fun sha256_blocks :: "nat \<Rightarrow> 32 word list \<Rightarrow> 32 word list \<Rightarrow> 32 word list" where
  "sha256_blocks 0 s ws = s"
| "sha256_blocks (Suc n) s ws = sha256_blocks n (sha256_compress s (take 16 ws)) (drop 16 ws)"

definition sha256_words :: "bytes \<Rightarrow> 32 word list" where
  "sha256_words bs =
     (let ws = words_of_bytes (sha256_pad (map code_point bs))
      in sha256_blocks (length ws div 16) sha256_initial ws)"

text \<open>\<^verbatim>\<open>hashlib.sha256(data).hexdigest()\<close>\<close>

definition sha256_hexdigest :: "bytes \<Rightarrow> string" where
  "sha256_hexdigest bs = concat (map (\<lambda>w. hex_digits 8 (unat w)) (sha256_words bs))"

section \<open>The digest has 64 hexadecimal characters\<close>

lemma length_sha256_round [simp]: "length (sha256_round s kw) = length s"
  by (cases "(s, kw)" rule: sha256_round.cases) (simp_all add: Let_def)

lemma length_foldl_round [simp]: "length (foldl sha256_round s kws) = length s"
  by (induction kws arbitrary: s) simp_all

lemma length_sha256_compress [simp]: "length (sha256_compress s block) = length s"
  by (simp add: sha256_compress_def)

lemma length_sha256_blocks [simp]: "length (sha256_blocks n s ws) = length s"
  by (induction n arbitrary: s ws) simp_all

lemma sha256_hexdigest_length [simp]: "length (sha256_hexdigest bs) = 64"
proof -
  have "length (sha256_words bs) = 8" by (simp add: sha256_words_def sha256_initial_def Let_def)
  then have "length (concat (map (\<lambda>w. hex_digits 8 (unat w)) (sha256_words bs))) = 8 * 8"
    by (simp add: length_concat comp_def sum_list_triv)
  then show ?thesis by (simp add: sha256_hexdigest_def)
qed

end
