(* ===== verification/Analysis_Service.thy ===== *)
theory Analysis_Service
  imports Schema Sha256 Repository_Url
begin

text \<open>
  The API's view of an analysis (\<^verbatim>\<open>backend/api/postgres_analysis_service.py\<close>): creating one analysis or a batch
  of them, reading and listing them within the scope of a tenant and user, and asking for
  cancellation. Every operation runs in one transaction and inserts its event into the outbox in it.
\<close>

section \<open>What the service is configured with\<close>

record analysis_profile =
  pr_goal_file :: string
  pr_max_turns :: int
  pr_max_tool_calls :: int
  pr_auto_compact_threshold :: int

record openai_config =
  oa_model :: string
  oa_reasoning_effort :: json
  oa_reasoning_summary :: json
  oa_show_reasoning_summary :: json
  oa_service_tier :: json
  oa_parallel_tool_calls :: json
  oa_use_previous_response_id :: json
  oa_prompt_cache_retention :: json
  oa_transport :: json

text \<open>
  \<open>sc_config_json\<close> and \<open>sc_content_hash\<close> are what \<^verbatim>\<open>create_config_snapshot\<close> stores of the configuration;
  \<open>sc_profile\<close> is its default profile.
\<close>

record service_config =
  sc_version :: string
  sc_config_json :: json
  sc_content_hash :: string
  sc_profile :: analysis_profile
  sc_openai :: openai_config
  sc_tool_registry_version :: string

definition effective_limits :: "service_config \<Rightarrow> json" where
  "effective_limits cfg = JObj
     [(''max_turns'', JInt (pr_max_turns (sc_profile cfg))),
      (''max_tool_calls'', JInt (pr_max_tool_calls (sc_profile cfg))),
      (''auto_compact_threshold_tokens'', JInt (pr_auto_compact_threshold (sc_profile cfg)))]"

definition effective_runtime :: "service_config \<Rightarrow> json" where
  "effective_runtime cfg = JObj
     [(''reasoning_effort'', oa_reasoning_effort (sc_openai cfg)),
      (''reasoning_summary'', oa_reasoning_summary (sc_openai cfg)),
      (''show_reasoning_summary'', oa_show_reasoning_summary (sc_openai cfg)),
      (''service_tier'', oa_service_tier (sc_openai cfg)),
      (''parallel_tool_calls'', oa_parallel_tool_calls (sc_openai cfg)),
      (''use_previous_response_id'', oa_use_previous_response_id (sc_openai cfg)),
      (''prompt_cache_retention'', oa_prompt_cache_retention (sc_openai cfg)),
      (''transport'', oa_transport (sc_openai cfg))]"

definition sha256_text :: "string \<Rightarrow> string" where
  "sha256_text s = ''sha256:'' @ sha256_hexdigest (utf8_encode s)"

section \<open>Creating analyses\<close>

datatype service_error = InvalidUrl | NotNullViolation

text \<open>
  The inserts that \<^verbatim>\<open>create\<close> and \<^verbatim>\<open>_insert_batch_analysis\<close> share: the configuration snapshot, the queued
  analysis and its queued agent session.
\<close>

definition insert_config_snapshot :: "draws \<Rightarrow> service_config \<Rightarrow> uuid \<Rightarrow> db \<Rightarrow> db" where
  "insert_config_snapshot d cfg i st =
     st\<lparr>config_snapshots := config_snapshots st @
        [\<lparr>cs_id = i, cs_config_version = sc_version cfg, cs_content_hash = sc_content_hash cfg,
          cs_config_json = sc_config_json cfg, cs_created_at = now d\<rparr>]\<rparr>"

definition insert_analysis ::
  "draws \<Rightarrow> uuid \<Rightarrow> uuid option \<Rightarrow> uuid option \<Rightarrow> string \<Rightarrow> string \<Rightarrow> uuid option \<Rightarrow> uuid \<Rightarrow> db \<Rightarrow> db" where
  "insert_analysis d a tenant user url ref profile cs st =
     st\<lparr>analyses := analyses st @
        [\<lparr>an_id = a, an_tenant_id = tenant, an_created_by = user, an_repository_url = url,
          an_repository_url_hash = sha256_text url, an_requested_ref = ref, an_profile_id = profile,
          an_config_snapshot_id = cs, an_status = ''queued'', an_created_at = now d, an_updated_at = now d,
          an_completed_at = None, an_error_code = None, an_error_message = None\<rparr>]\<rparr>"

definition insert_session :: "draws \<Rightarrow> service_config \<Rightarrow> uuid \<Rightarrow> uuid \<Rightarrow> uuid \<Rightarrow> db \<Rightarrow> db" where
  "insert_session d cfg agent a cs st =
     st\<lparr>agent_sessions := agent_sessions st @
        [\<lparr>as_id = agent, as_analysis_id = a, as_snapshot_id = None, as_parent_agent_id = None,
          as_config_snapshot_id = cs, as_status = ''queued'', as_goal_ref = pr_goal_file (sc_profile cfg),
          as_effective_model = oa_model (sc_openai cfg), as_prompt_version = sc_version cfg,
          as_tool_registry_version = sc_tool_registry_version cfg, as_effective_limits = effective_limits cfg,
          as_effective_runtime = effective_runtime cfg, as_latest_response_id = None, as_turn_count = 0,
          as_max_turns = pr_max_turns (sc_profile cfg), as_created_at = now d, as_updated_at = now d\<rparr>]\<rparr>"

text \<open>\<^verbatim>\<open>_upsert_repository_index\<close>: one row per tenant, user and canonical URL.\<close>

definition upsert_repository_index ::
  "draws \<Rightarrow> uuid \<Rightarrow> canonical_repository \<Rightarrow> uuid \<Rightarrow> string \<Rightarrow> uuid \<Rightarrow> uuid \<Rightarrow> db \<Rightarrow> db" where
  "upsert_repository_index d fresh c a ref tenant user st =
     (let hash = sha256_text (cr_url c);
          same = (\<lambda>r. ar_tenant_id r = tenant \<and> ar_created_by r = user \<and> ar_repository_url_hash r = hash)
      in if any_row same (analysis_repositories st)
         then st\<lparr>analysis_repositories := update_where same
                (\<lambda>r. r\<lparr>ar_repository_url := cr_url c, ar_repository_host := cr_host c,
                       ar_repository_owner := cr_owner c, ar_repository_name := cr_name c,
                       ar_repository_label := cr_label c, ar_search_text := cr_search_text c,
                       ar_latest_analysis_id := a, ar_latest_status := ''queued'',
                       ar_latest_requested_ref := ref, ar_latest_commit_sha := None,
                       ar_analysis_count := ar_analysis_count r + 1,
                       ar_last_analyzed_at := now d, ar_updated_at := now d\<rparr>)
                (analysis_repositories st)\<rparr>
         else st\<lparr>analysis_repositories := analysis_repositories st @
                [\<lparr>ar_id = fresh, ar_tenant_id = tenant, ar_created_by = user, ar_repository_url = cr_url c,
                  ar_repository_url_hash = hash, ar_repository_host = cr_host c, ar_repository_owner = cr_owner c,
                  ar_repository_name = cr_name c, ar_repository_label = cr_label c,
                  ar_search_text = cr_search_text c, ar_latest_analysis_id = a, ar_latest_status = ''queued'',
                  ar_latest_requested_ref = ref, ar_latest_commit_sha = None, ar_analysis_count = 1,
                  ar_completed_count = 0, ar_last_analyzed_at = now d, ar_created_at = now d,
                  ar_updated_at = now d\<rparr>]\<rparr>)"

text \<open>
  \<^verbatim>\<open>PostgresAnalysisService.create\<close>. Draws 0 to 2 are the analysis, agent and configuration snapshot, 3 to
  5 the event, 6 the index row. The index is kept only for a signed-in user.
\<close>

definition create_analysis ::
  "draws \<Rightarrow> service_config \<Rightarrow> string \<Rightarrow> string \<Rightarrow> uuid option \<Rightarrow> uuid option \<Rightarrow> uuid option \<Rightarrow> db \<Rightarrow>
   service_error + db" where
  "create_analysis d cfg repository_url requested_ref profile tenant user st =
     (case canonicalize_repository_url repository_url of
        None \<Rightarrow> Inl InvalidUrl
      | Some c \<Rightarrow>
          let a = new_id d 0; agent = new_id d 1; cs = new_id d 2; url = cr_url c;
              st1 = insert_session d cfg agent a cs
                (insert_analysis d a tenant user url requested_ref profile cs
                  (insert_config_snapshot d cfg cs st));
              st2 = emit d 3 ANALYSIS_REQUESTED (Some a) (Some agent) None None None
                [(''repository_url'', JStr url), (''requested_ref'', JStr requested_ref),
                 (''analysis_profile_id'', uuid_json profile), (''config_snapshot_id'', JStr (uuid_str cs))] st1
          in Inr (case (tenant, user) of
               (Some t, Some u) \<Rightarrow> upsert_repository_index d (new_id d 6) c a requested_ref t u st2
             | _ \<Rightarrow> st2))"

record batch_create_item =
  bc_repository_url :: string
  bc_requested_ref :: string
  bc_profile_id :: "uuid option"

text \<open>\<^verbatim>\<open>_insert_batch_analysis\<close>; draws \<open>k\<close> to \<open>k + 4\<close> are the analysis, agent, item, snapshot and index row.\<close>

definition insert_batch_analysis ::
  "draws \<Rightarrow> nat \<Rightarrow> service_config \<Rightarrow> uuid \<Rightarrow> batch_create_item \<Rightarrow> int \<Rightarrow> uuid \<Rightarrow> uuid \<Rightarrow> db \<Rightarrow> service_error + db" where
  "insert_batch_analysis d k cfg b item sort_order tenant user st =
     (case canonicalize_repository_url (bc_repository_url item) of
        None \<Rightarrow> Inl InvalidUrl
      | Some c \<Rightarrow>
          let a = new_id d k; agent = new_id d (k + 1); i = new_id d (k + 2); cs = new_id d (k + 3); url = cr_url c;
              st1 = insert_session d cfg agent a cs
                (insert_analysis d a (Some tenant) (Some user) url (bc_requested_ref item) (bc_profile_id item) cs
                  (insert_config_snapshot d cfg cs st));
              row = \<lparr>bi_id = i, bi_batch_id = b, bi_analysis_id = a, bi_agent_id = agent, bi_repository_url = url,
                bi_repository_url_hash = sha256_text url, bi_requested_ref = bc_requested_ref item,
                bi_profile_id = bc_profile_id item, bi_config_snapshot_id = cs, bi_status = ''pending'',
                bi_sort_order = sort_order, bi_dispatch_owner = None, bi_dispatched_at = None,
                bi_completed_at = None, bi_error_code = None, bi_error_message = None,
                bi_created_at = now d, bi_updated_at = now d\<rparr>
          in Inr (upsert_repository_index d (new_id d (k + 4)) c a (bc_requested_ref item) tenant user
               (st1\<lparr>analysis_batch_items := analysis_batch_items st1 @ [row]\<rparr>)))"

fun insert_batch_items ::
  "draws \<Rightarrow> nat \<Rightarrow> service_config \<Rightarrow> uuid \<Rightarrow> uuid \<Rightarrow> uuid \<Rightarrow> nat \<Rightarrow> batch_create_item list \<Rightarrow> db \<Rightarrow> service_error + db" where
  "insert_batch_items d k cfg b tenant user n [] st = Inr st"
| "insert_batch_items d k cfg b tenant user n (item # items) st =
     rbind (insert_batch_analysis d k cfg b item (int n) tenant user st)
       (insert_batch_items d (k + 5) cfg b tenant user (Suc n) items)"

text \<open>
  \<^verbatim>\<open>create_batch\<close>: draw 0 is the batch, 1 to 3 its event, the items draw from 4 on. The batch table has
  \<^verbatim>\<open>NOT NULL\<close> on the tenant and the user, so without them the insert fails.
\<close>

definition create_batch ::
  "draws \<Rightarrow> service_config \<Rightarrow> batch_create_item list \<Rightarrow> int \<Rightarrow> uuid option \<Rightarrow> uuid option \<Rightarrow> db \<Rightarrow> service_error + db" where
  "create_batch d cfg items max_parallel tenant user st =
     (case (tenant, user) of
        (Some t, Some u) \<Rightarrow>
          let b = new_id d 0;
              row = \<lparr>ba_id = b, ba_tenant_id = t, ba_created_by = u, ba_status = ''queued'',
                ba_max_parallel = max_parallel, ba_total_count = int (length items),
                ba_pending_count = int (length items), ba_active_count = 0, ba_completed_count = 0,
                ba_failed_count = 0, ba_cancelled_count = 0, ba_created_at = now d, ba_updated_at = now d,
                ba_completed_at = None\<rparr>
          in rbind (insert_batch_items d 4 cfg b t u 0 items (st\<lparr>analysis_batches := analysis_batches st @ [row]\<rparr>))
               (\<lambda>st1. Inr (emit d 1 ANALYSIS_BATCH_SUBMITTED None None None None None
                  [(''batch_id'', JStr (uuid_str b)), (''max_parallel'', JInt max_parallel)] st1))
      | _ \<Rightarrow> Inl NotNullViolation)"

section \<open>Reading within a scope\<close>

record analysis_record =
  rec_analysis_id :: uuid
  rec_agent_id :: uuid
  rec_snapshot_id :: "uuid option"
  rec_status :: string
  rec_repository_url :: string
  rec_requested_ref :: string
  rec_commit_sha :: "string option"
  rec_created_at :: int
  rec_updated_at :: int
  rec_error_code :: "string option"
  rec_error_message :: "string option"
  rec_tenant_id :: "uuid option"
  rec_created_by :: "uuid option"

text \<open>A condition \<^verbatim>\<open>column = :value\<close> that is added only when the value is given.\<close>

definition scoped :: "uuid option \<Rightarrow> uuid option \<Rightarrow> bool" where
  "scoped wanted actual = (wanted = None \<or> actual = wanted)"

definition commit_sha_of :: "db \<Rightarrow> uuid option \<Rightarrow> string option" where
  "commit_sha_of st snapshot =
     (case snapshot of
        None \<Rightarrow> None
      | Some s \<Rightarrow> map_option sn_resolved_commit_sha (find (\<lambda>r. sn_id r = s) (snapshots st)))"

definition record_from_row :: "db \<Rightarrow> analysis_row \<Rightarrow> session_row \<Rightarrow> analysis_record" where
  "record_from_row st a s =
     \<lparr>rec_analysis_id = an_id a, rec_agent_id = as_id s, rec_snapshot_id = as_snapshot_id s,
      rec_status = an_status a, rec_repository_url = an_repository_url a, rec_requested_ref = an_requested_ref a,
      rec_commit_sha = commit_sha_of st (as_snapshot_id s), rec_created_at = an_created_at a,
      rec_updated_at = an_updated_at a, rec_error_code = an_error_code a, rec_error_message = an_error_message a,
      rec_tenant_id = an_tenant_id a, rec_created_by = an_created_by a\<rparr>"

text \<open>The join of analyses with their sessions, in the order of the tables.\<close>

definition joined_records :: "db \<Rightarrow> (analysis_row \<Rightarrow> bool) \<Rightarrow> analysis_record list" where
  "joined_records st p =
     concat (map (\<lambda>a. map (record_from_row st a) (filter (\<lambda>s. as_analysis_id s = an_id a) (agent_sessions st)))
       (filter p (analyses st)))"

definition fetch_analysis_record :: "db \<Rightarrow> uuid \<Rightarrow> uuid option \<Rightarrow> uuid option \<Rightarrow> analysis_record option" where
  "fetch_analysis_record st a tenant user =
     (case joined_records st (\<lambda>r. an_id r = a \<and> scoped tenant (an_tenant_id r) \<and> scoped user (an_created_by r)) of
        [] \<Rightarrow> None
      | r # _ \<Rightarrow> Some r)"

definition get_analysis :: "db \<Rightarrow> uuid \<Rightarrow> uuid option \<Rightarrow> uuid option \<Rightarrow> analysis_record option" where
  "get_analysis st a tenant user = fetch_analysis_record st a tenant user"

record list_filter =
  lf_status :: "string option"
  lf_url_hash :: "string option"
  lf_created_after :: "int option"
  lf_created_before :: "int option"
  lf_tenant :: "uuid option"
  lf_user :: "uuid option"

definition list_clauses :: "list_filter \<Rightarrow> analysis_row \<Rightarrow> bool" where
  "list_clauses f r =
     ((case lf_status f of None \<Rightarrow> True | Some s \<Rightarrow> an_status r = s) \<and>
      (case lf_url_hash f of None \<Rightarrow> True | Some h \<Rightarrow> an_repository_url_hash r = h) \<and>
      (case lf_created_after f of None \<Rightarrow> True | Some t \<Rightarrow> t \<le> an_created_at r) \<and>
      (case lf_created_before f of None \<Rightarrow> True | Some t \<Rightarrow> an_created_at r < t) \<and>
      scoped (lf_tenant f) (an_tenant_id r) \<and> scoped (lf_user f) (an_created_by r))"

text \<open>
  \<^verbatim>\<open>ORDER BY created_at DESC, id DESC LIMIT\<close>; the cursor is the pair that \<^verbatim>\<open>decode_list_cursor\<close> returned.
  Identifiers compare as unsigned 128-bit numbers.
\<close>

definition page_key :: "analysis_record \<Rightarrow> int \<times> uuid" where
  "page_key r = (rec_created_at r, rec_analysis_id r)"

definition list_analyses :: "db \<Rightarrow> list_filter \<Rightarrow> nat \<Rightarrow> (int \<times> uuid) option \<Rightarrow> analysis_record list" where
  "list_analyses st f limit cursor =
     take limit (rev (sort_key page_key
       (joined_records st (\<lambda>r. list_clauses f r \<and>
          (case cursor of None \<Rightarrow> True | Some c \<Rightarrow> (an_created_at r, an_id r) < c)))))"

definition analysis_status :: "db \<Rightarrow> uuid \<Rightarrow> uuid option \<Rightarrow> uuid option \<Rightarrow> string option" where
  "analysis_status st a tenant user =
     map_option an_status
       (find (\<lambda>r. an_id r = a \<and> scoped tenant (an_tenant_id r) \<and> scoped user (an_created_by r)) (analyses st))"

definition stream_events_after :: "db \<Rightarrow> uuid \<Rightarrow> int \<Rightarrow> uuid option \<Rightarrow> uuid option \<Rightarrow> (int \<times> string \<times> json) list" where
  "stream_events_after st a after_seq tenant user =
     (case get_analysis st a tenant user of
        None \<Rightarrow> []
      | Some _ \<Rightarrow>
          map (\<lambda>r. (sr_seq r, sr_event_type r, case sr_payload r of JObj d \<Rightarrow> JObj d | _ \<Rightarrow> JObj []))
            (take 1000 (sort_key sr_seq
              (filter (\<lambda>r. sr_analysis_id r = a \<and> after_seq < sr_seq r) (stream_events st)))))"

section \<open>Cancelling\<close>

text \<open>The update of the agent's unfinished tool calls, the same here and in the analysis worker.\<close>

definition cancel_tool_calls :: "draws \<Rightarrow> uuid option \<Rightarrow> db \<Rightarrow> db" where
  "cancel_tool_calls d agent st =
     st\<lparr>tool_calls := update_where
        (\<lambda>t. Some (tc_agent_id t) = agent \<and> tc_status t \<notin> {''completed'', ''failed'', ''denied'', ''cancelled''})
        (\<lambda>t. t\<lparr>tc_status := ''cancelled'', tc_permission_decision := Some ''deny'',
               tc_error_code := Some ''TOOL_CALL_CANCELLED'',
               tc_error_message := Some ''Analysis was cancelled before this tool call completed.'',
               tc_claimed_at := None, tc_claim_expires_at := None, tc_completed_at := Some (now d)\<rparr>)
        (tool_calls st)\<rparr>"

definition cancel_sessions :: "draws \<Rightarrow> uuid \<Rightarrow> db \<Rightarrow> db" where
  "cancel_sessions d a st =
     st\<lparr>agent_sessions := update_where (\<lambda>s. as_analysis_id s = a \<and> \<not> terminal (as_status s))
        (\<lambda>s. s\<lparr>as_status := ''cancelled'', as_updated_at := now d\<rparr>) (agent_sessions st)\<rparr>"

definition cancel_analysis ::
  "draws \<Rightarrow> uuid \<Rightarrow> uuid option \<Rightarrow> uuid option \<Rightarrow> db \<Rightarrow> db \<times> analysis_record option" where
  "cancel_analysis d a tenant user st =
     (case fetch_analysis_record st a tenant user of
        None \<Rightarrow> (st, None)
      | Some r \<Rightarrow>
          if terminal (rec_status r) then (st, Some r)
          else let open_row = (\<lambda>x. an_id x = a \<and> \<not> terminal (an_status x))
            in if \<not> any_row open_row (analyses st) then (st, fetch_analysis_record st a tenant user)
               else let st1 = st\<lparr>analyses := update_where open_row
                        (\<lambda>x. x\<lparr>an_status := ''cancelling'', an_updated_at := now d\<rparr>) (analyses st)\<rparr>;
                      st2 = cancel_tool_calls d (Some (rec_agent_id r)) (cancel_sessions d a st1)
                 in (emit d 0 ANALYSIS_CANCEL_REQUESTED (Some (rec_analysis_id r)) (Some (rec_agent_id r))
                       (rec_snapshot_id r) None None [] st2,
                     Some (r\<lparr>rec_status := ''cancelling'', rec_updated_at := now d\<rparr>)))"

end
