(* ===== verification/Analysis_Worker.thy ===== *)
theory Analysis_Worker
  imports Analysis_Service
begin

text \<open>
  The analysis worker (\<^verbatim>\<open>backend/workers/analysis.py\<close>): it moves a requested analysis to snapshotting and asks
  for the snapshot, and turns a cancellation request into the final cancelled state.
\<close>

definition payload_item :: "envelope \<Rightarrow> string \<Rightarrow> handler_error + json" where
  "payload_item e k = (case map_of (payload e) k of None \<Rightarrow> Inl (HKeyError k) | Some v \<Rightarrow> Inr v)"

definition handle_analysis_requested :: "draws \<Rightarrow> envelope \<Rightarrow> db \<Rightarrow> handler_error + db" where
  "handle_analysis_requested d e st =
     (case (analysis_id e, agent_id e) of
        (Some a, Some g) \<Rightarrow>
          let queued = (\<lambda>r. an_id r = a \<and> an_status r = ''queued'')
          in if \<not> any_row queued (analyses st) then Inr st
             else let st1 = st\<lparr>
                      analyses := update_where queued
                        (\<lambda>r. r\<lparr>an_status := ''snapshotting'', an_updated_at := now d\<rparr>) (analyses st),
                      analysis_batch_items := update_where
                        (\<lambda>i. bi_analysis_id i = a \<and> bi_status i = ''dispatched'')
                        (\<lambda>i. i\<lparr>bi_status := ''snapshotting'', bi_updated_at := now d\<rparr>) (analysis_batch_items st),
                      agent_sessions := update_where
                        (\<lambda>s. as_id s = g \<and> as_analysis_id s = a \<and> as_status s = ''queued'')
                        (\<lambda>s. s\<lparr>as_status := ''queued'', as_updated_at := now d\<rparr>) (agent_sessions st)\<rparr>
                  in rbind (payload_item e ''repository_url'') (\<lambda>url.
                     rbind (payload_item e ''requested_ref'') (\<lambda>ref.
                       Inr (emit d 0 SNAPSHOT_REQUESTED (Some a) (Some g) None (Some (correlation_id e))
                         (Some (event_id e))
                         [(''repository_url'', url), (''requested_ref'', ref),
                          (''config_snapshot_id'', obj_get (payload e) ''config_snapshot_id'')] st1)))
      | _ \<Rightarrow> Inl (HValueError ''AnalysisRequested requires analysis_id and agent_id''))"

text \<open>\<^verbatim>\<open>_add_cancelled_stream_events\<close>: the two events take consecutive numbers under one lock.\<close>

definition add_cancelled_stream_events :: "draws \<Rightarrow> nat \<Rightarrow> uuid \<Rightarrow> uuid \<Rightarrow> db \<Rightarrow> db" where
  "add_cancelled_stream_events d k a g st =
     add_stream_event d (k + 1) a g ''done'' (JObj [(''status'', JStr ''cancelled'')]) None None None None None
       (add_stream_event d k a g ''status'' (JObj [(''status'', JStr ''cancelled'')]) None None None None None st)"

definition handle_analysis_cancel_requested :: "draws \<Rightarrow> envelope \<Rightarrow> db \<Rightarrow> handler_error + db" where
  "handle_analysis_cancel_requested d e st =
     (case analysis_id e of
        None \<Rightarrow> Inl (HValueError ''AnalysisCancelRequested requires analysis_id'')
      | Some a \<Rightarrow>
          let open_row = (\<lambda>r. an_id r = a \<and> \<not> terminal (an_status r))
          in if \<not> any_row open_row (analyses st) then Inr st
             else let st1 = st\<lparr>analyses := update_where open_row
                      (\<lambda>r. r\<lparr>an_status := ''cancelled'', an_updated_at := now d, an_completed_at := Some (now d)\<rparr>)
                      (analyses st)\<rparr>;
                    st2 = cancel_tool_calls d (agent_id e) (cancel_sessions d a st1);
                    st3 = (case agent_id e of
                             None \<Rightarrow> st2
                           | Some g \<Rightarrow> add_cancelled_stream_events d 0 a g st2)
                  in Inr (emit d 2 ANALYSIS_CANCELLED (Some a) (agent_id e) (snapshot_id e)
                       (Some (correlation_id e)) (Some (event_id e)) [] st3))"

definition analysis_worker_call :: "draws \<Rightarrow> envelope \<Rightarrow> db \<Rightarrow> handler_error + db" where
  "analysis_worker_call d e st =
     (if event_type e = ANALYSIS_REQUESTED then handle_analysis_requested d e st
      else if event_type e = ANALYSIS_CANCEL_REQUESTED then handle_analysis_cancel_requested d e st
      else Inl (HValueError (''Unsupported analysis command event: '' @ type_value (event_type e))))"

end
