(* ===== verification/Snapshot_Service.thy ===== *)
theory Snapshot_Service
  imports Schema
begin

text \<open>
  The snapshot service (\<^verbatim>\<open>backend/snapshot/service.py\<close>, \<^verbatim>\<open>backend/snapshot/repository.py\<close> and the handler of
  \<^verbatim>\<open>backend/workers/snapshot.py\<close>). A request is three transactions: mark the analysis started, build outside
  any transaction, then mark the snapshot ready or the analysis failed. A ready snapshot of the same
  repository, commit and policy is used again. What the builder does is the argument \<open>build\<close>: it maps
  the stored configuration to the build result or an error.
\<close>

section \<open>The repository\<close>

record build_result =
  br_snapshot_id :: uuid
  br_repository_url_hash :: string
  br_requested_ref :: string
  br_resolved_commit_sha :: string
  br_tree_sha :: string
  br_policy_hash :: string
  br_manifest_key :: string
  br_git_bundle_key :: "string option"
  br_tree_text_key :: string
  br_file_tree_key :: string
  br_file_count :: int
  br_total_bytes :: int
  br_files :: "file_row list"
  br_instructions :: "instruction_row list"

definition mark_analysis_snapshotting :: "draws \<Rightarrow> uuid \<Rightarrow> uuid \<Rightarrow> db \<Rightarrow> db \<times> bool" where
  "mark_analysis_snapshotting d a g st =
     (let p = (\<lambda>r. an_id r = a \<and> an_status r = ''snapshotting'' \<and>
            any_row (\<lambda>s. as_id s = g \<and> as_analysis_id s = an_id r \<and> as_snapshot_id s = None \<and>
              \<not> closed (as_status s)) (agent_sessions st))
      in (st\<lparr>analyses := update_where p (\<lambda>r. r\<lparr>an_status := ''snapshotting'', an_updated_at := now d\<rparr>) (analyses st)\<rparr>,
          any_row p (analyses st)))"

definition find_ready_snapshot :: "build_result \<Rightarrow> db \<Rightarrow> snapshot_row option" where
  "find_ready_snapshot res st =
     find (\<lambda>s. sn_repository_url_hash s = br_repository_url_hash res \<and>
               sn_resolved_commit_sha s = br_resolved_commit_sha res \<and>
               sn_policy_hash s = br_policy_hash res \<and> sn_status s = ''ready'') (snapshots st)"

definition same_build :: "build_result \<Rightarrow> snapshot_row \<Rightarrow> bool" where
  "same_build res s =
     (sn_repository_url_hash s = br_repository_url_hash res \<and>
      sn_resolved_commit_sha s = br_resolved_commit_sha res \<and> sn_policy_hash s = br_policy_hash res)"

definition insert_snapshot :: "draws \<Rightarrow> build_result \<Rightarrow> db \<Rightarrow> db \<times> bool" where
  "insert_snapshot d res st =
     (if any_row (same_build res) (snapshots st) then (st, False)
      else (st\<lparr>snapshots := snapshots st @
        [\<lparr>sn_id = br_snapshot_id res, sn_repository_url_hash = br_repository_url_hash res,
          sn_requested_ref = br_requested_ref res, sn_resolved_commit_sha = br_resolved_commit_sha res,
          sn_tree_sha = br_tree_sha res, sn_policy_hash = br_policy_hash res, sn_status = ''ready'',
          sn_manifest_key = Some (br_manifest_key res), sn_git_bundle_key = br_git_bundle_key res,
          sn_file_count = Some (br_file_count res), sn_total_bytes = Some (br_total_bytes res),
          sn_created_at = now d, sn_ready_at = Some (now d)\<rparr>]\<rparr>, True))"

text \<open>\<^verbatim>\<open>ON CONFLICT (snapshot_id, path) DO NOTHING\<close>, file by file.\<close>

fun insert_snapshot_files :: "uuid \<Rightarrow> file_row list \<Rightarrow> db \<Rightarrow> db" where
  "insert_snapshot_files i [] st = st"
| "insert_snapshot_files i (f # fs) st =
     insert_snapshot_files i fs
       (if any_row (\<lambda>r. fr_snapshot_id r = i \<and> fr_path r = fr_path f) (snapshot_files st) then st
        else st\<lparr>snapshot_files := snapshot_files st @ [f\<lparr>fr_snapshot_id := i\<rparr>]\<rparr>)"

definition insert_instruction_files :: "uuid \<Rightarrow> instruction_row list \<Rightarrow> db \<Rightarrow> db" where
  "insert_instruction_files i rows st =
     st\<lparr>agent_instruction_files := agent_instruction_files st @ map (\<lambda>r. r\<lparr>in_snapshot_id := i\<rparr>) rows\<rparr>"

definition associate_snapshot :: "draws \<Rightarrow> envelope \<Rightarrow> uuid \<Rightarrow> db \<Rightarrow> db \<times> bool" where
  "associate_snapshot d e snapshot st =
     (let p = (\<lambda>s. Some (as_id s) = agent_id e \<and> Some (as_analysis_id s) = analysis_id e \<and> \<not> closed (as_status s))
      in if \<not> any_row p (agent_sessions st) then (st, False)
         else (st\<lparr>agent_sessions := update_where p
                  (\<lambda>s. s\<lparr>as_snapshot_id := Some snapshot, as_status := ''queued'', as_updated_at := now d\<rparr>)
                  (agent_sessions st),
                analyses := update_where (\<lambda>r. Some (an_id r) = analysis_id e \<and> \<not> closed (an_status r))
                  (\<lambda>r. r\<lparr>an_status := ''running'', an_updated_at := now d\<rparr>) (analyses st)\<rparr>, True))"

definition add_stream_error :: "draws \<Rightarrow> nat \<Rightarrow> uuid \<Rightarrow> uuid \<Rightarrow> string \<Rightarrow> string \<Rightarrow> db \<Rightarrow> db" where
  "add_stream_error d k a g code message st =
     add_stream_event d k a g ''error''
       (JObj [(''error_code'', JStr code), (''error_message'', JStr (take 4096 message))]) None None None None None st"

definition repository_mark_failed :: "draws \<Rightarrow> envelope \<Rightarrow> string \<Rightarrow> string \<Rightarrow> db \<Rightarrow> handler_error + db \<times> bool" where
  "repository_mark_failed d e code message st =
     (case (analysis_id e, agent_id e) of
        (Some a, Some g) \<Rightarrow>
          let p = (\<lambda>r. an_id r = a \<and> \<not> closed (an_status r))
          in if \<not> any_row p (analyses st) then Inr (st, False)
             else let st1 = st\<lparr>
                    analyses := update_where p
                      (\<lambda>r. r\<lparr>an_status := ''failed'', an_updated_at := now d, an_completed_at := Some (now d),
                             an_error_code := Some code, an_error_message := Some (take 4096 message)\<rparr>)
                      (analyses st),
                    agent_sessions := update_where
                      (\<lambda>s. as_id s = g \<and> as_analysis_id s = a \<and> \<not> closed (as_status s))
                      (\<lambda>s. s\<lparr>as_status := ''failed'', as_updated_at := now d\<rparr>) (agent_sessions st)\<rparr>
                  in Inr (add_stream_error d 0 a g code message st1, True)
      | _ \<Rightarrow> Inl (HValueError ''Snapshot failure event requires analysis_id and agent_id''))"

section \<open>The service\<close>

definition mark_started :: "draws \<Rightarrow> envelope \<Rightarrow> uuid \<Rightarrow> db \<Rightarrow> handler_error + db \<times> bool" where
  "mark_started d e snapshot st =
     (case (analysis_id e, agent_id e) of
        (Some a, Some g) \<Rightarrow>
          (case mark_analysis_snapshotting d a g st of
             (st1, False) \<Rightarrow> Inr (st, False)
           | (st1, True) \<Rightarrow>
               Inr (emit d 0 SNAPSHOT_STARTED (Some a) (Some g) (Some snapshot) (Some (correlation_id e))
                      (Some (event_id e))
                      [(''repository_url_hash'', JNull), (''requested_ref'', obj_get (payload e) ''requested_ref'')] st1,
                    True))
      | _ \<Rightarrow> Inl (HValueError ''SnapshotStarted requires analysis_id and agent_id''))"

definition emit_ready ::
  "draws \<Rightarrow> envelope \<Rightarrow> uuid \<Rightarrow> string \<Rightarrow> string \<Rightarrow> string option \<Rightarrow> string option \<Rightarrow> int option \<Rightarrow> bool \<Rightarrow> db \<Rightarrow> db" where
  "emit_ready d e snapshot commit tree manifest bundle files reused st =
     emit d 0 SNAPSHOT_READY (analysis_id e) (agent_id e) (Some snapshot) (Some (correlation_id e)) (Some (event_id e))
       [(''resolved_commit_sha'', JStr commit), (''tree_sha'', JStr tree),
        (''manifest_key'', case manifest of None \<Rightarrow> JNull | Some k \<Rightarrow> JStr k),
        (''git_bundle_key'', case bundle of None \<Rightarrow> JNull | Some k \<Rightarrow> JStr k),
        (''file_count'', case files of None \<Rightarrow> JNull | Some n \<Rightarrow> JInt n),
        (''reused_existing_snapshot'', JBool reused)] st"

definition reuse_existing :: "draws \<Rightarrow> envelope \<Rightarrow> snapshot_row \<Rightarrow> db \<Rightarrow> db" where
  "reuse_existing d e ex st =
     (case associate_snapshot d e (sn_id ex) st of
        (st1, False) \<Rightarrow> st
      | (st1, True) \<Rightarrow> emit_ready d e (sn_id ex) (sn_resolved_commit_sha ex) (sn_tree_sha ex) (sn_manifest_key ex)
                         (sn_git_bundle_key ex) (sn_file_count ex) True st1)"

definition mark_ready :: "draws \<Rightarrow> envelope \<Rightarrow> build_result \<Rightarrow> db \<Rightarrow> db" where
  "mark_ready d e res st =
     (case find_ready_snapshot res st of
        Some ex \<Rightarrow> reuse_existing d e ex st
      | None \<Rightarrow>
          let (st1, inserted) = insert_snapshot d res st
          in case (if inserted then None else find_ready_snapshot res st1) of
               Some ex \<Rightarrow> reuse_existing d e ex st1
             | None \<Rightarrow>
                 let st2 = insert_instruction_files (br_snapshot_id res) (br_instructions res)
                       (insert_snapshot_files (br_snapshot_id res) (br_files res) st1)
                 in case associate_snapshot d e (br_snapshot_id res) st2 of
                      (st3, False) \<Rightarrow> st2
                    | (st3, True) \<Rightarrow>
                        emit_ready d e (br_snapshot_id res) (br_resolved_commit_sha res) (br_tree_sha res)
                          (Some (br_manifest_key res)) (br_git_bundle_key res) (Some (br_file_count res))
                          False st3)"

definition service_mark_failed :: "draws \<Rightarrow> envelope \<Rightarrow> string \<Rightarrow> string \<Rightarrow> db \<Rightarrow> handler_error + db" where
  "service_mark_failed d e code message st =
     rbind (repository_mark_failed d e code message st) (\<lambda>(st1, marked).
       if \<not> marked then Inr st
       else Inr (emit d 1 SNAPSHOT_FAILED (analysis_id e) (agent_id e) None (Some (correlation_id e)) (Some (event_id e))
              [(''error_code'', JStr code), (''error_message'', JStr (take 4096 message))] st1))"

text \<open>
  \<^verbatim>\<open>_policy_for_event\<close>: the stored configuration, or the code and message of the configuration error. The
  identifier in the payload is compared with a \<^verbatim>\<open>uuid\<close> column, so a malformed one raises.
\<close>

definition config_for_event :: "envelope \<Rightarrow> db \<Rightarrow> handler_error + ((string \<times> string) + json)" where
  "config_for_event e st =
     (let i = obj_get (payload e) ''config_snapshot_id''
      in if \<not> truthy i
         then Inr (Inl (''CONFIG_SNAPSHOT_REQUIRED'', ''SnapshotRequested event is missing config_snapshot_id.''))
         else case parse_uuid (py_str i) of
                None \<Rightarrow> Inl (HValueError ''invalid input syntax for type uuid'')
              | Some u \<Rightarrow>
                  (case find (\<lambda>c. cs_id c = u) (config_snapshots st) of
                     None \<Rightarrow> Inr (Inl (''CONFIG_SNAPSHOT_NOT_FOUND'', ''Config snapshot does not exist: '' @ py_str i))
                   | Some c \<Rightarrow> Inr (Inr (cs_config_json c))))"

datatype build_outcome =
    BuildOk build_result
  | BuildError (be_code: string) (be_message: string)
  | BuildCrash (bc_message: string)

text \<open>
  The whole handler. \<open>d1\<close> and \<open>d2\<close> are the draws of the two transactions, \<open>meanwhile\<close> what other
  transactions do to the database between them.
\<close>

definition handle_snapshot_requested ::
  "draws \<Rightarrow> draws \<Rightarrow> (db \<Rightarrow> db) \<Rightarrow> (json \<Rightarrow> uuid \<Rightarrow> string \<Rightarrow> string \<Rightarrow> build_outcome) \<Rightarrow> uuid \<Rightarrow> envelope \<Rightarrow> db \<Rightarrow>
   handler_error + db" where
  "handle_snapshot_requested d1 d2 meanwhile build snapshot e st =
     (let url = obj_get (payload e) ''repository_url''; ref = obj_get (payload e) ''requested_ref''
      in if analysis_id e = None \<or> agent_id e = None
         then Inl (HValueError ''SnapshotRequested requires analysis_id and agent_id'')
         else if \<not> truthy url \<or> \<not> truthy ref
         then Inl (HValueError ''SnapshotRequested requires repository_url and requested_ref'')
         else rbind (mark_started d1 e snapshot st) (\<lambda>(st1, started).
           if \<not> started then Inr st1
           else rbind (config_for_event e st1) (\<lambda>policy.
             case policy of
               Inl (code, message) \<Rightarrow> service_mark_failed d2 e code message (meanwhile st1)
             | Inr cfg \<Rightarrow>
                 (case build cfg snapshot (py_str url) (py_str ref) of
                    BuildError code message \<Rightarrow> service_mark_failed d2 e code message (meanwhile st1)
                  | BuildCrash message \<Rightarrow> service_mark_failed d2 e ''SnapshotBuildFailed'' message (meanwhile st1)
                  | BuildOk res \<Rightarrow> Inr (mark_ready d2 e res (meanwhile st1))))))"

definition snapshot_worker_call ::
  "draws \<Rightarrow> draws \<Rightarrow> (db \<Rightarrow> db) \<Rightarrow> (json \<Rightarrow> uuid \<Rightarrow> string \<Rightarrow> string \<Rightarrow> build_outcome) \<Rightarrow> uuid \<Rightarrow> envelope \<Rightarrow> db \<Rightarrow>
   handler_error + db" where
  "snapshot_worker_call d1 d2 meanwhile build snapshot e st =
     (if event_type e \<noteq> SNAPSHOT_REQUESTED
      then Inl (HValueError (''Unsupported snapshot command event: '' @ type_value (event_type e)))
      else handle_snapshot_requested d1 d2 meanwhile build snapshot e st)"

end
