(* ===== verification/Agent_Repository.thy ===== *)
theory Agent_Repository
  imports Schema Sha256
begin

text \<open>
  The agent's repository (\<^verbatim>\<open>backend/agent/repository.py\<close>, \<^verbatim>\<open>context_items.py\<close>, \<^verbatim>\<open>repository_stream.py\<close>): turns, tool
  calls, the model context, the event stream shown to the user, and the end of an analysis. Each
  operation is one transaction. A transaction that requests tools or gives the final answer first
  locks the analysis and session and gives up unless both are still open.
\<close>

section \<open>Context items (\<^verbatim>\<open>context_items.py\<close>)\<close>

definition function_call_payload :: "string \<Rightarrow> string \<Rightarrow> json \<Rightarrow> json" where
  "function_call_payload call_id name args = JObj
     [(''type'', JStr ''function_call''), (''call_id'', JStr call_id), (''name'', JStr name),
      (''arguments'', JStr (json_dumps '','' '':'' (json_sorted args)))]"

definition function_call_output_payload :: "string \<Rightarrow> json \<Rightarrow> json" where
  "function_call_output_payload call_id output = JObj
     [(''type'', JStr ''function_call_output''), (''call_id'', JStr call_id),
      (''output'', case output of JStr s \<Rightarrow> JStr s | _ \<Rightarrow> JStr (json_dumps '', '' '': '' (json_sorted output)))]"

definition assistant_output_payload :: "string \<Rightarrow> json" where
  "assistant_output_payload s = JObj
     [(''type'', JStr ''message''), (''role'', JStr ''assistant''),
      (''content'', JList [JObj [(''type'', JStr ''output_text''), (''text'', JStr s)]])]"

definition model_function_call_idempotency_key :: "string \<Rightarrow> string" where
  "model_function_call_idempotency_key call_id = ''model:function_call:'' @ call_id"

definition tool_output_idempotency_key :: "string \<Rightarrow> string" where
  "tool_output_idempotency_key call_id = ''tool:function_call_output:'' @ call_id"

definition assistant_output_idempotency_key :: "string \<Rightarrow> string" where
  "assistant_output_idempotency_key response_id = ''model:assistant_output:'' @ response_id"

definition remote_compaction_idempotency_key :: "string \<Rightarrow> nat \<Rightarrow> string" where
  "remote_compaction_idempotency_key compaction_id i = ''model:remote_compaction:'' @ compaction_id @ '':'' @ show_nat i"

definition canonical_model_item_type :: "payload \<Rightarrow> string" where
  "canonical_model_item_type item = py_str (py_or (obj_get item ''type'') (JStr ''model_output''))"

definition canonical_model_item_idempotency_key :: "payload \<Rightarrow> string \<Rightarrow> string" where
  "canonical_model_item_idempotency_key item response_id =
     (let ty = canonical_model_item_type item;
          by_id = (case obj_get item ''id'' of
                     JStr i \<Rightarrow> (if i \<noteq> [] then ''model:'' @ ty @ '':'' @ i else ''model:'' @ ty @ '':'' @ response_id)
                   | _ \<Rightarrow> ''model:'' @ ty @ '':'' @ response_id)
      in if ty = ''function_call''
         then (case obj_get item ''call_id'' of
                 JStr c \<Rightarrow> model_function_call_idempotency_key c
               | _ \<Rightarrow> by_id)
         else by_id)"

section \<open>Keys of stream events\<close>

definition json_or_none :: "json option \<Rightarrow> string option" where
  "json_or_none v = (case v of None \<Rightarrow> None | Some JNull \<Rightarrow> None | Some (JStr s) \<Rightarrow> Some s
     | Some w \<Rightarrow> Some (json_dumps '', '' '': '' w))"

definition tool_stream_event_idempotency_key :: "string \<Rightarrow> string \<Rightarrow> string option" where
  "tool_stream_event_idempotency_key ty call_id =
     (if ty \<in> {''tool_call'', ''tool_result''} then Some (ty @ '':'' @ call_id) else None)"

definition agent_message_stream_event_idempotency_key :: "payload \<Rightarrow> string \<Rightarrow> string option" where
  "agent_message_stream_event_idempotency_key pl response_id =
     (let item_id = obj_get pl ''item_id''
      in if truthy item_id then Some (''agent_message:'' @ response_id @ '':'' @ py_str item_id)
         else case obj_get pl ''text'' of
                JStr s \<Rightarrow> (if s \<noteq> []
                           then Some (''agent_message:'' @ response_id @ '':'' @ sha256_hexdigest (utf8_encode s))
                           else None)
              | _ \<Rightarrow> None)"

section \<open>Sessions and turns\<close>

record session_state =
  ss_analysis_id :: uuid
  ss_agent_id :: uuid
  ss_snapshot_id :: "uuid option"
  ss_config_snapshot_id :: uuid
  ss_status :: string
  ss_effective_model :: string
  ss_latest_response_id :: "string option"
  ss_turn_count :: int
  ss_max_turns :: int
  ss_effective_limits :: json
  ss_effective_runtime :: json

definition get_session :: "uuid \<Rightarrow> db \<Rightarrow> session_state option" where
  "get_session g st =
     (case filter (\<lambda>s. as_id s = g \<and> any_row (\<lambda>a. an_id a = as_analysis_id s) (analyses st)) (agent_sessions st) of
        [] \<Rightarrow> None
      | s # _ \<Rightarrow> Some
          \<lparr>ss_analysis_id = as_analysis_id s, ss_agent_id = as_id s, ss_snapshot_id = as_snapshot_id s,
           ss_config_snapshot_id = as_config_snapshot_id s, ss_status = as_status s,
           ss_effective_model = as_effective_model s, ss_latest_response_id = as_latest_response_id s,
           ss_turn_count = as_turn_count s, ss_max_turns = as_max_turns s,
           ss_effective_limits = as_effective_limits s, ss_effective_runtime = as_effective_runtime s\<rparr>)"

text \<open>
  The insert of \<^verbatim>\<open>start_turn\<close>; it violates a unique index, here \<open>None\<close>, when the agent already has a turn
  for the same event or domain key.
\<close>

definition start_turn :: "draws \<Rightarrow> session_state \<Rightarrow> uuid option \<Rightarrow> string option \<Rightarrow> db \<Rightarrow> (db \<times> uuid) option" where
  "start_turn d s trigger key st =
     (if any_row (\<lambda>t. tu_agent_id t = ss_agent_id s \<and>
           ((trigger \<noteq> None \<and> tu_trigger_event_id t = trigger) \<or>
            (key \<noteq> None \<and> tu_trigger_domain_key t = key))) (agent_turns st)
      then None
      else Some (st\<lparr>agent_turns := agent_turns st @
        [\<lparr>tu_id = new_id d 0, tu_agent_id = ss_agent_id s, tu_turn_index = ss_turn_count s + 1,
          tu_trigger_event_id = trigger, tu_trigger_domain_key = key, tu_status = ''calling_model'',
          tu_response_id = None, tu_previous_response_id = ss_latest_response_id s, tu_input_ref = None,
          tu_output_ref = None, tu_input_tokens = JNull, tu_cached_input_tokens = JNull,
          tu_uncached_input_tokens = JNull, tu_output_tokens = JNull, tu_reasoning_tokens = JNull,
          tu_total_tokens = JNull, tu_created_at = now d, tu_completed_at = None\<rparr>]\<rparr>, new_id d 0))"

definition get_turn_for_event :: "uuid \<Rightarrow> uuid \<Rightarrow> db \<Rightarrow> (uuid \<times> string) option" where
  "get_turn_for_event g ev st =
     map_option (\<lambda>t. (tu_id t, tu_status t))
       (find (\<lambda>t. tu_agent_id t = g \<and> tu_trigger_event_id t = Some ev) (agent_turns st))"

definition has_turn_for_event :: "uuid \<Rightarrow> uuid \<Rightarrow> db \<Rightarrow> bool" where
  "has_turn_for_event g ev st = any_row (\<lambda>t. tu_agent_id t = g \<and> tu_trigger_event_id t = Some ev) (agent_turns st)"

definition get_turn_for_domain_key :: "uuid \<Rightarrow> string \<Rightarrow> db \<Rightarrow> (uuid \<times> string) option" where
  "get_turn_for_domain_key g key st =
     map_option (\<lambda>t. (tu_id t, tu_status t))
       (find (\<lambda>t. tu_agent_id t = g \<and> tu_trigger_domain_key t = Some key) (agent_turns st))"

definition update_session_status :: "draws \<Rightarrow> uuid \<Rightarrow> string \<Rightarrow> db \<Rightarrow> db" where
  "update_session_status d g status st =
     st\<lparr>agent_sessions := update_where (\<lambda>s. as_id s = g \<and> \<not> closed (as_status s))
        (\<lambda>s. s\<lparr>as_status := status, as_updated_at := now d\<rparr>) (agent_sessions st)\<rparr>"

record turn_result =
  tr_turn_id :: uuid
  tr_response_id :: "string option"
  tr_previous_response_id :: "string option"
  tr_input_ref :: "string option"
  tr_output_ref :: "string option"
  tr_usage :: json

definition complete_turn :: "draws \<Rightarrow> turn_result \<Rightarrow> db \<Rightarrow> db" where
  "complete_turn d r st =
     (let usage = (case tr_usage r of JObj u \<Rightarrow> u | _ \<Rightarrow> [])
      in st\<lparr>agent_turns := update_where (\<lambda>t. tu_id t = tr_turn_id r)
           (\<lambda>t. t\<lparr>tu_status := ''completed'', tu_response_id := tr_response_id r,
                  tu_previous_response_id := tr_previous_response_id r, tu_input_ref := tr_input_ref r,
                  tu_output_ref := tr_output_ref r, tu_input_tokens := obj_get usage ''input_tokens'',
                  tu_cached_input_tokens := obj_get usage ''cached_input_tokens'',
                  tu_uncached_input_tokens := obj_get usage ''uncached_input_tokens'',
                  tu_output_tokens := obj_get usage ''output_tokens'',
                  tu_reasoning_tokens := obj_get usage ''reasoning_tokens'',
                  tu_total_tokens := obj_get usage ''total_tokens'', tu_completed_at := Some (now d)\<rparr>)
           (agent_turns st)\<rparr>)"

definition fail_turn :: "draws \<Rightarrow> uuid \<Rightarrow> db \<Rightarrow> db" where
  "fail_turn d t st =
     st\<lparr>agent_turns := update_where (\<lambda>r. tu_id r = t)
        (\<lambda>r. r\<lparr>tu_status := ''failed'', tu_completed_at := Some (now d)\<rparr>) (agent_turns st)\<rparr>"

definition update_latest_response :: "draws \<Rightarrow> uuid \<Rightarrow> string \<Rightarrow> db \<Rightarrow> db" where
  "update_latest_response d g response_id st =
     st\<lparr>agent_sessions := update_where (\<lambda>s. as_id s = g)
        (\<lambda>s. s\<lparr>as_latest_response_id := Some response_id, as_turn_count := as_turn_count s + 1,
               as_updated_at := now d\<rparr>) (agent_sessions st)\<rparr>"

definition save_context_assembly ::
  "draws \<Rightarrow> uuid \<Rightarrow> uuid \<Rightarrow> uuid \<Rightarrow> json \<Rightarrow> string \<Rightarrow> string \<Rightarrow> string \<Rightarrow> int option \<Rightarrow> db \<Rightarrow> db" where
  "save_context_assembly d g t cs refs input ih th tokens st =
     st\<lparr>context_assemblies := context_assemblies st @
        [\<lparr>ca_id = new_id d 0, ca_agent_id = g, ca_turn_id = t, ca_config_snapshot_id = cs, ca_source_refs = refs,
          ca_input_ref = input, ca_instructions_hash = ih, ca_tool_schema_hash = th, ca_token_estimate = tokens,
          ca_created_at = now d\<rparr>]\<rparr>"

section \<open>Requesting tools\<close>

definition lock_continuable_session :: "uuid \<Rightarrow> uuid \<Rightarrow> db \<Rightarrow> bool" where
  "lock_continuable_session a g st =
     any_row (\<lambda>r. an_id r = a \<and> \<not> closed (an_status r) \<and>
       any_row (\<lambda>s. as_analysis_id s = an_id r \<and> as_id s = g \<and> \<not> closed (as_status s)) (agent_sessions st)) (analyses st)"

record tool_call_kwargs =
  tk_agent_id :: uuid
  tk_turn_id :: uuid
  tk_snapshot_id :: uuid
  tk_openai_call_id :: string
  tk_tool_name :: string
  tk_arguments :: json
  tk_registry_version :: string
  tk_schema_hash :: string
  tk_policy_hash :: string
  tk_status :: string
  tk_result_ref :: "string option"
  tk_result_summary :: "json option"

text \<open>\<^verbatim>\<open>ON CONFLICT (agent_id, openai_call_id) DO UPDATE SET id = tool_calls.id RETURNING id\<close>\<close>

definition create_tool_call :: "draws \<Rightarrow> nat \<Rightarrow> tool_call_kwargs \<Rightarrow> db \<Rightarrow> db \<times> uuid" where
  "create_tool_call d k kw st =
     (case find (\<lambda>t. tc_agent_id t = tk_agent_id kw \<and> tc_openai_call_id t = tk_openai_call_id kw) (tool_calls st) of
        Some t \<Rightarrow> (st, tc_id t)
      | None \<Rightarrow>
          (st\<lparr>tool_calls := tool_calls st @
             [\<lparr>tc_id = new_id d k, tc_agent_id = tk_agent_id kw, tc_turn_id = tk_turn_id kw,
               tc_snapshot_id = tk_snapshot_id kw, tc_openai_call_id = tk_openai_call_id kw,
               tc_tool_name = tk_tool_name kw, tc_arguments = tk_arguments kw,
               tc_registry_version = tk_registry_version kw, tc_schema_hash = tk_schema_hash kw,
               tc_policy_hash = tk_policy_hash kw, tc_permission_decision = None, tc_status = tk_status kw,
               tc_result_ref = tk_result_ref kw, tc_result_summary = json_or_none (tk_result_summary kw),
               tc_duration_ms = None, tc_error_code = None, tc_error_message = None, tc_claimed_at = None,
               tc_claim_expires_at = None, tc_claim_owner = None, tc_created_at = now d,
               tc_completed_at = (if tk_status kw = ''completed'' then Some (now d) else None)\<rparr>]\<rparr>,
           new_id d k))"

text \<open>\<^verbatim>\<open>DbOutboxSink.add\<close> of an event made by the caller, with the tool call id put into its payload.\<close>

definition add_outbox :: "draws \<Rightarrow> nat \<Rightarrow> envelope \<Rightarrow> db \<Rightarrow> db" where
  "add_outbox d k e st = st\<lparr>outbox_events := outbox_add (outbox_events st) (new_id d k) (now d) e\<rparr>"

definition with_tool_call_id :: "uuid \<Rightarrow> payload \<Rightarrow> payload" where
  "with_tool_call_id i pl = AList.update ''tool_call_id'' (JStr (uuid_str i)) pl"

definition request_tool_call ::
  "draws \<Rightarrow> tool_call_kwargs \<Rightarrow> uuid \<Rightarrow> uuid \<Rightarrow> string \<Rightarrow> payload \<Rightarrow> envelope \<Rightarrow> db \<Rightarrow> handler_error + db \<times> uuid" where
  "request_tool_call d kw a g stream_type stream_payload e st =
     (if \<not> lock_continuable_session a g st
      then Inl (HRuntimeError ''Cannot request tool call for terminal or cancelling analysis'')
      else let (st1, i) = create_tool_call d 0 kw st;
               st2 = add_stream_event d 1 a g stream_type (JObj (with_tool_call_id i stream_payload))
                 (Some (tk_turn_id kw)) None None (Some ''completed'')
                 (tool_stream_event_idempotency_key stream_type (tk_openai_call_id kw)) st1
           in Inr (add_outbox d 2 (e\<lparr>payload := with_tool_call_id i (payload e)\<rparr>) st2, i))"

text \<open>The loop over the output items of a response; item \<open>n\<close> draws identifier \<open>8 n + 3\<close>.\<close>

fun append_model_output_items :: "draws \<Rightarrow> nat \<Rightarrow> uuid \<Rightarrow> uuid option \<Rightarrow> string \<Rightarrow> payload list \<Rightarrow> db \<Rightarrow> db" where
  "append_model_output_items d n g turn response_id [] st = st"
| "append_model_output_items d n g turn response_id (item # items) st =
     append_model_output_items d (Suc n) g turn response_id items
       (append_context_item d (8 * n + 3) g turn (canonical_model_item_type item) (JObj item) (Some response_id)
          ''model'' (Some (canonical_model_item_idempotency_key item response_id)) st)"

fun add_agent_message_stream_events :: "draws \<Rightarrow> nat \<Rightarrow> uuid \<Rightarrow> uuid \<Rightarrow> uuid \<Rightarrow> string \<Rightarrow> payload list \<Rightarrow> db \<Rightarrow> db" where
  "add_agent_message_stream_events d n a g turn response_id [] st = st"
| "add_agent_message_stream_events d n a g turn response_id (pl # pls) st =
     add_agent_message_stream_events d (Suc n) a g turn response_id pls
       (add_stream_event d (8 * n + 4) a g ''agent_message'' (JObj pl) (Some turn) None (Some response_id)
          (Some ''completed'') (agent_message_stream_event_idempotency_key pl response_id) st)"

definition append_function_call :: "draws \<Rightarrow> nat \<Rightarrow> uuid \<Rightarrow> uuid \<Rightarrow> string \<Rightarrow> tool_call_kwargs \<Rightarrow> db \<Rightarrow> db" where
  "append_function_call d k g turn response_id kw st =
     append_context_item d k g (Some turn) ''function_call''
       (function_call_payload (tk_openai_call_id kw) (tk_tool_name kw) (tk_arguments kw)) (Some response_id) ''model''
       (Some (model_function_call_idempotency_key (tk_openai_call_id kw))) st"

text \<open>A tool call answered from an earlier result gets its output into the context at once.\<close>

definition append_completed_output :: "draws \<Rightarrow> nat \<Rightarrow> uuid \<Rightarrow> uuid \<Rightarrow> tool_call_kwargs \<Rightarrow> db \<Rightarrow> db" where
  "append_completed_output d k g turn kw st =
     (case json_or_none (tk_result_summary kw) of
        None \<Rightarrow> st
      | Some summary \<Rightarrow>
          if tk_status kw = ''completed''
          then append_context_item d k g (Some turn) ''function_call_output''
                 (function_call_output_payload (tk_openai_call_id kw) (JStr (if summary = [] then ''{}'' else summary)))
                 None ''tool'' (Some (tool_output_idempotency_key (tk_openai_call_id kw))) st
          else st)"

record tool_call_request =
  rq_kwargs :: tool_call_kwargs
  rq_stream_type :: string
  rq_stream_payload :: payload
  rq_event :: envelope

fun create_tool_calls :: "draws \<Rightarrow> nat \<Rightarrow> tool_call_request list \<Rightarrow> db \<Rightarrow> db \<times> uuid list" where
  "create_tool_calls d n [] st = (st, [])"
| "create_tool_calls d n (rq # rqs) st =
     (let (st1, i) = create_tool_call d (8 * n) (rq_kwargs rq) st;
          (st2, is) = create_tool_calls d (Suc n) rqs st1
      in (st2, i # is))"

fun append_function_calls :: "draws \<Rightarrow> nat \<Rightarrow> uuid \<Rightarrow> uuid \<Rightarrow> string \<Rightarrow> tool_call_request list \<Rightarrow> db \<Rightarrow> db" where
  "append_function_calls d n g turn response_id [] st = st"
| "append_function_calls d n g turn response_id (rq # rqs) st =
     append_function_calls d (Suc n) g turn response_id rqs
       (append_function_call d (8 * n + 3) g turn response_id (rq_kwargs rq) st)"

fun publish_tool_calls ::
  "draws \<Rightarrow> nat \<Rightarrow> uuid \<Rightarrow> uuid \<Rightarrow> uuid \<Rightarrow> string \<Rightarrow> (tool_call_request \<times> uuid) list \<Rightarrow> db \<Rightarrow> db" where
  "publish_tool_calls d n a g turn response_id [] st = st"
| "publish_tool_calls d n a g turn response_id ((rq, i) # rqs) st =
     publish_tool_calls d (Suc n) a g turn response_id rqs
       (add_outbox d (8 * n + 7) ((rq_event rq)\<lparr>payload := with_tool_call_id i (payload (rq_event rq))\<rparr>)
         (add_stream_event d (8 * n + 6) a g (rq_stream_type rq) (JObj (with_tool_call_id i (rq_stream_payload rq)))
           (Some turn) None (Some response_id) (Some ''completed'')
           (tool_stream_event_idempotency_key (rq_stream_type rq) (tk_openai_call_id (rq_kwargs rq)))
           (append_completed_output d (8 * n + 5) g turn (rq_kwargs rq) st)))"

text \<open>
  \<^verbatim>\<open>complete_turn_with_tool_calls\<close>; \<^verbatim>\<open>complete_turn_with_tool_call\<close> does the same for one request, except that
  the output of a finished call comes before the messages.
\<close>

definition complete_turn_with_tool_calls ::
  "draws \<Rightarrow> turn_result \<Rightarrow> string \<Rightarrow> uuid \<Rightarrow> tool_call_request list \<Rightarrow> uuid \<Rightarrow> uuid \<Rightarrow> payload list \<Rightarrow> payload list \<Rightarrow>
   db \<Rightarrow> handler_error + db \<times> uuid list" where
  "complete_turn_with_tool_calls d r response_id latest rqs a g output_items messages st =
     (if \<not> lock_continuable_session a g st
      then Inl (HRuntimeError ''Cannot request tool calls for terminal or cancelling analysis'')
      else let st1 = complete_turn d r (update_latest_response d latest response_id st);
               (st2, ids) = create_tool_calls d 0 rqs st1;
               st3 = (if output_items \<noteq> []
                      then append_model_output_items d 0 g (Some (tr_turn_id r)) response_id output_items st2
                      else append_function_calls d 0 g (tr_turn_id r) response_id rqs st2);
               st4 = add_agent_message_stream_events d 0 a g (tr_turn_id r) response_id messages st3
           in Inr (publish_tool_calls d 0 a g (tr_turn_id r) response_id (zip rqs ids) st4, ids))"

definition complete_turn_with_tool_call ::
  "draws \<Rightarrow> turn_result \<Rightarrow> string \<Rightarrow> uuid \<Rightarrow> tool_call_request \<Rightarrow> uuid \<Rightarrow> uuid \<Rightarrow> payload list \<Rightarrow> payload list \<Rightarrow>
   db \<Rightarrow> handler_error + db \<times> uuid" where
  "complete_turn_with_tool_call d r response_id latest rq a g output_items messages st =
     (if \<not> lock_continuable_session a g st
      then Inl (HRuntimeError ''Cannot request tool call for terminal or cancelling analysis'')
      else let st1 = complete_turn d r (update_latest_response d latest response_id st);
               (st2, i) = create_tool_call d 0 (rq_kwargs rq) st1;
               st3 = (if output_items \<noteq> []
                      then append_model_output_items d 0 g (Some (tr_turn_id r)) response_id output_items st2
                      else append_function_call d 3 g (tr_turn_id r) response_id (rq_kwargs rq) st2);
               st4 = append_completed_output d 5 g (tr_turn_id r) (rq_kwargs rq) st3;
               st5 = add_agent_message_stream_events d 0 a g (tr_turn_id r) response_id messages st4;
               st6 = add_stream_event d 6 a g (rq_stream_type rq) (JObj (with_tool_call_id i (rq_stream_payload rq)))
                 (Some (tr_turn_id r)) None (Some response_id) (Some ''completed'')
                 (tool_stream_event_idempotency_key (rq_stream_type rq) (tk_openai_call_id (rq_kwargs rq))) st5
           in Inr (add_outbox d 7 ((rq_event rq)\<lparr>payload := with_tool_call_id i (payload (rq_event rq))\<rparr>) st6, i))"

section \<open>Reading tool calls\<close>

definition get_pending_tool_call_for_turn :: "uuid \<Rightarrow> db \<Rightarrow> tool_call_row option" where
  "get_pending_tool_call_for_turn t st =
     (case sort_key tc_created_at (filter (\<lambda>c. tc_turn_id c = t \<and> tc_status c \<in> {''queued'', ''running''}) (tool_calls st)) of
        [] \<Rightarrow> None
      | c # _ \<Rightarrow> Some c)"

definition count_tool_calls :: "uuid \<Rightarrow> db \<Rightarrow> int" where
  "count_tool_calls g st = int (length (filter (\<lambda>c. tc_agent_id c = g) (tool_calls st)))"

record tool_output =
  to_id :: uuid
  to_turn_id :: uuid
  to_call_id :: string
  to_name :: string
  to_arguments :: json
  to_output :: string
  to_output_ref :: "string option"

text \<open>The row of the join with \<^verbatim>\<open>agent_turns\<close>; a call without its turn is not in the join.\<close>

definition tool_output_of :: "db \<Rightarrow> tool_call_row \<Rightarrow> tool_output list" where
  "tool_output_of st c =
     map (\<lambda>t. \<lparr>to_id = tc_id c, to_turn_id = tc_turn_id c, to_call_id = tc_openai_call_id c, to_name = tc_tool_name c,
               to_arguments = tc_arguments c,
               to_output = (case tc_result_summary c of None \<Rightarrow> ''{}'' | Some s \<Rightarrow> (if s = [] then ''{}'' else s)),
               to_output_ref = tu_output_ref t\<rparr>)
       (filter (\<lambda>t. tu_id t = tc_turn_id c) (agent_turns st))"

definition finished_call :: "tool_call_row \<Rightarrow> bool" where
  "finished_call c = (tc_status c \<in> {''completed'', ''failed'', ''denied''})"

definition get_pending_tool_output :: "uuid \<Rightarrow> db \<Rightarrow> tool_output option" where
  "get_pending_tool_output i st =
     (case concat (map (tool_output_of st) (filter (\<lambda>c. tc_id c = i \<and> finished_call c) (tool_calls st))) of
        [] \<Rightarrow> None
      | r # _ \<Rightarrow> Some r)"

text \<open>\<open>None\<close> while a call of the turn is unfinished, otherwise the outputs of the finished ones.\<close>

definition load_ready_tool_outputs_for_turn :: "uuid \<Rightarrow> db \<Rightarrow> tool_output list option" where
  "load_ready_tool_outputs_for_turn t st =
     (if any_row (\<lambda>c. tc_turn_id c = t \<and> tc_status c \<in> {''queued'', ''validating'', ''running''}) (tool_calls st)
      then None
      else Some (concat (map (tool_output_of st)
        (sort_key (\<lambda>c. (tc_created_at c, tc_id c)) (filter (\<lambda>c. tc_turn_id c = t \<and> finished_call c) (tool_calls st))))))"

text \<open>\<^verbatim>\<open>ORDER BY completed_at DESC NULLS LAST, created_at DESC LIMIT 1\<close>\<close>

definition find_completed_tool_call :: "uuid \<Rightarrow> string \<Rightarrow> json \<Rightarrow> db \<Rightarrow> tool_call_row option" where
  "find_completed_tool_call g name args st =
     (case rev (sort_key (\<lambda>c. (tc_completed_at c \<noteq> None, case tc_completed_at c of None \<Rightarrow> 0 | Some t \<Rightarrow> t, tc_created_at c))
         (filter (\<lambda>c. tc_agent_id c = g \<and> tc_tool_name c = name \<and> tc_arguments c = args \<and> tc_status c = ''completed'')
           (tool_calls st))) of
        [] \<Rightarrow> None
      | c # _ \<Rightarrow> Some c)"

section \<open>The end of an analysis\<close>

definition mark_repository_index_completed :: "draws \<Rightarrow> uuid \<Rightarrow> db \<Rightarrow> db" where
  "mark_repository_index_completed d a st =
     (case filter (\<lambda>s. as_analysis_id s = a) (agent_sessions st) of
        [] \<Rightarrow> st
      | s # _ \<Rightarrow>
          if \<not> any_row (\<lambda>r. an_id r = a) (analyses st) then st
          else st\<lparr>analysis_repositories := update_where (\<lambda>r. ar_latest_analysis_id r = a)
             (\<lambda>r. r\<lparr>ar_latest_status := ''completed'',
                    ar_latest_commit_sha := (case as_snapshot_id s of
                       None \<Rightarrow> None
                     | Some i \<Rightarrow> map_option sn_resolved_commit_sha (find (\<lambda>x. sn_id x = i) (snapshots st))),
                    ar_completed_count := ar_completed_count r + 1, ar_last_analyzed_at := now d,
                    ar_updated_at := now d\<rparr>) (analysis_repositories st)\<rparr>)"

definition mark_repository_index_failed :: "draws \<Rightarrow> uuid \<Rightarrow> db \<Rightarrow> db" where
  "mark_repository_index_failed d a st =
     (if \<not> any_row (\<lambda>r. an_id r = a) (analyses st) then st
      else st\<lparr>analysis_repositories := update_where (\<lambda>r. ar_latest_analysis_id r = a)
         (\<lambda>r. r\<lparr>ar_latest_status := ''failed'', ar_last_analyzed_at := now d, ar_updated_at := now d\<rparr>)
         (analysis_repositories st)\<rparr>)"

text \<open>The two updates that end an analysis with \<open>status\<close>; the flag is the row count of the first.\<close>

definition close_analysis ::
  "draws \<Rightarrow> string \<Rightarrow> (analysis_row \<Rightarrow> analysis_row) \<Rightarrow> uuid \<Rightarrow> uuid \<Rightarrow> db \<Rightarrow> db \<times> bool" where
  "close_analysis d status mark a g st =
     (let p = (\<lambda>r. an_id r = a \<and> \<not> closed (an_status r))
      in (st\<lparr>analyses := update_where p
              (\<lambda>r. mark (r\<lparr>an_status := status, an_updated_at := now d, an_completed_at := Some (now d)\<rparr>)) (analyses st),
            agent_sessions := update_where (\<lambda>s. as_id s = g \<and> \<not> closed (as_status s))
              (\<lambda>s. s\<lparr>as_status := status, as_updated_at := now d\<rparr>) (agent_sessions st)\<rparr>,
          any_row p (analyses st)))"

definition complete_analysis :: "draws \<Rightarrow> uuid \<Rightarrow> uuid \<Rightarrow> db \<Rightarrow> db \<times> bool" where
  "complete_analysis d a g st =
     (let (st1, done) = close_analysis d ''completed'' id a g st
      in (if done then mark_repository_index_completed d a st1 else st1, done))"

definition fail_analysis :: "draws \<Rightarrow> uuid \<Rightarrow> uuid \<Rightarrow> string \<Rightarrow> string \<Rightarrow> db \<Rightarrow> db \<times> bool" where
  "fail_analysis d a g code message st =
     (let (st1, done) = close_analysis d ''failed''
            (\<lambda>r. r\<lparr>an_error_code := Some code, an_error_message := Some (take 4096 message)\<rparr>) a g st
      in (if done then mark_repository_index_failed d a st1 else st1, done))"

definition complete_turn_with_final_answer ::
  "draws \<Rightarrow> turn_result \<Rightarrow> string \<Rightarrow> uuid \<Rightarrow> uuid \<Rightarrow> uuid \<Rightarrow> string \<Rightarrow> payload \<Rightarrow> envelope \<Rightarrow> payload list \<Rightarrow> payload list \<Rightarrow>
   payload option \<Rightarrow> db \<Rightarrow> db \<times> bool" where
  "complete_turn_with_final_answer d r response_id latest a g output_text stream_payload e output_items messages delta st =
     (if \<not> lock_continuable_session a g st then (st, False)
      else let turn = tr_turn_id r;
               st1 = complete_turn d r (update_latest_response d latest response_id st);
               (st2, done) = close_analysis d ''completed'' id a g st1
           in if \<not> done then (st2, False)
              else let st3 = mark_repository_index_completed d a st2;
                       st4 = (if output_items \<noteq> []
                              then append_model_output_items d 0 g (Some turn) response_id output_items st3
                              else if output_text \<noteq> []
                              then append_context_item d 3 g (Some turn) ''assistant_output''
                                     (assistant_output_payload output_text) (Some response_id) ''model''
                                     (Some (assistant_output_idempotency_key response_id)) st3
                              else st3);
                       st5 = add_agent_message_stream_events d 0 a g turn response_id messages st4;
                       st6 = (case delta of
                                None \<Rightarrow> st5
                              | Some pl \<Rightarrow> add_stream_event d 5 a g ''delta'' (JObj pl) (Some turn) None (Some response_id)
                                            (Some ''streaming'') None st5);
                       st7 = add_stream_event d 6 a g ''done'' (JObj stream_payload) (Some turn) None (Some response_id)
                               (Some ''completed'') None st6
                   in (add_outbox d 7 e st7, True))"

section \<open>Compaction\<close>

definition add_memory_summary ::
  "draws \<Rightarrow> nat \<Rightarrow> uuid \<Rightarrow> int \<Rightarrow> json \<Rightarrow> json \<Rightarrow> json \<Rightarrow> string option \<Rightarrow> db \<Rightarrow> db" where
  "add_memory_summary d k g until summary evidence focus next_action st =
     st\<lparr>memory_summaries := memory_summaries st @
        [\<lparr>ms_id = new_id d k, ms_agent_id = g, ms_compacted_until_turn = until, ms_summary = summary,
          ms_evidence_ids = evidence, ms_focus_paths = focus, ms_next_action = next_action, ms_created_at = now d\<rparr>]\<rparr>"

definition compact_context_items ::
  "draws \<Rightarrow> uuid \<Rightarrow> int \<Rightarrow> int \<Rightarrow> json \<Rightarrow> json \<Rightarrow> json \<Rightarrow> string option \<Rightarrow> db \<Rightarrow> db" where
  "compact_context_items d g until_seq until_turn summary evidence focus next_action st =
     add_memory_summary d 0 g until_turn summary evidence focus next_action
       (st\<lparr>context_items := update_where
          (\<lambda>i. ci_agent_id i = g \<and> ci_seq i \<le> until_seq \<and> ci_compacted_at i = None)
          (\<lambda>i. i\<lparr>ci_compacted_at := Some (now d)\<rparr>) (context_items st)\<rparr>)"

fun append_window_items :: "draws \<Rightarrow> nat \<Rightarrow> uuid \<Rightarrow> uuid \<Rightarrow> string \<Rightarrow> payload list \<Rightarrow> db \<Rightarrow> db" where
  "append_window_items d n g turn compaction_id [] st = st"
| "append_window_items d n g turn compaction_id (item # items) st =
     append_window_items d (Suc n) g turn compaction_id items
       (append_context_item d (Suc n) g (Some turn) (py_str (py_or (obj_get item ''type'') (JStr ''compaction'')))
          (JObj item) (Some compaction_id) ''model'' (Some (remote_compaction_idempotency_key compaction_id n)) st)"

definition save_compacted_context_window ::
  "draws \<Rightarrow> uuid \<Rightarrow> uuid \<Rightarrow> int \<Rightarrow> string \<Rightarrow> payload list \<Rightarrow> json \<Rightarrow> string \<Rightarrow> db \<Rightarrow> db" where
  "save_compacted_context_window d g turn until_turn compaction_id output usage strategy st =
     (let st1 = st\<lparr>context_items := update_where (\<lambda>i. ci_agent_id i = g \<and> ci_compacted_at i = None)
            (\<lambda>i. i\<lparr>ci_compacted_at := Some (now d)\<rparr>) (context_items st)\<rparr>;
          generation = max_or_zero (map cw_generation (filter (\<lambda>w. cw_agent_id w = g) (agent_context_windows st1))) + 1;
          st2 = st1\<lparr>agent_context_windows := agent_context_windows st1 @
            [\<lparr>cw_id = new_id d 0, cw_agent_id = g, cw_turn_id = turn,
              cw_generation = (if generation = 0 then 1 else generation), cw_strategy = strategy,
              cw_compaction_id = compaction_id, cw_compacted_until_turn = until_turn,
              cw_output = JList (map JObj output), cw_usage = usage, cw_created_at = now d\<rparr>]\<rparr>
      in append_window_items d 0 g turn compaction_id output st2)"

text \<open>\<^verbatim>\<open>load_uncompacted_context_items\<close>: the last \<open>limit\<close> items, oldest first.\<close>

definition load_uncompacted_context_items :: "uuid \<Rightarrow> nat \<Rightarrow> db \<Rightarrow> context_row list" where
  "load_uncompacted_context_items g limit st =
     rev (take limit (rev (sort_key ci_seq
       (filter (\<lambda>i. ci_agent_id i = g \<and> ci_compacted_at i = None) (context_items st)))))"

end
