(* ===== verification/Execution_Worker.thy ===== *)
theory Execution_Worker
  imports Agent_Repository
begin

text \<open>
  Running a tool call (\<^verbatim>\<open>backend/workers/execution.py\<close> and \<^verbatim>\<open>PostgresToolCallRepository\<close> of
  \<^verbatim>\<open>backend/execution/repository.py\<close>). A worker claims a queued call with a random token and a lease of 900
  seconds, runs the tool, and stores the result only if it still holds the claim and the call was
  not cancelled. The tools of one agent share a read-write lock: parallel-safe tools read, others write.
\<close>

section \<open>The tool call table\<close>

definition tool_claim_ttl_seconds :: int where
  "tool_claim_ttl_seconds = 900"

definition claimable_call :: "draws \<Rightarrow> uuid \<Rightarrow> tool_call_row \<Rightarrow> bool" where
  "claimable_call d i t =
     (tc_id t = i \<and> (tc_status t = ''queued'' \<or>
        tc_status t = ''running'' \<and> (case tc_claim_expires_at t of None \<Rightarrow> False | Some x \<Rightarrow> x < now d)))"

definition claimed_call :: "draws \<Rightarrow> string \<Rightarrow> tool_call_row \<Rightarrow> tool_call_row" where
  "claimed_call d token t =
     t\<lparr>tc_status := ''running'', tc_claimed_at := Some (now d),
       tc_claim_expires_at := Some (now d + tool_claim_ttl_seconds), tc_claim_owner := Some token\<rparr>"

definition config_json_of_agent :: "uuid \<Rightarrow> db \<Rightarrow> json" where
  "config_json_of_agent g st =
     (case find (\<lambda>s. as_id s = g) (agent_sessions st) of
        None \<Rightarrow> JNull
      | Some s \<Rightarrow> (case find (\<lambda>c. cs_id c = as_config_snapshot_id s) (config_snapshots st) of
                     None \<Rightarrow> JNull | Some c \<Rightarrow> cs_config_json c))"

text \<open>\<open>token\<close> is the \<^verbatim>\<open>secrets.token_urlsafe(24)\<close> of the claim; the row returned is the updated one.\<close>

definition claim_queued_tool_call :: "draws \<Rightarrow> string \<Rightarrow> uuid \<Rightarrow> db \<Rightarrow> db \<times> (tool_call_row \<times> json) option" where
  "claim_queued_tool_call d token i st =
     (case find (claimable_call d i) (tool_calls st) of
        None \<Rightarrow> (st, None)
      | Some t \<Rightarrow>
          (st\<lparr>tool_calls := update_where (claimable_call d i) (claimed_call d token) (tool_calls st)\<rparr>,
           Some (claimed_call d token t, config_json_of_agent (tc_agent_id t) st)))"

definition holds_claim :: "uuid \<Rightarrow> string \<Rightarrow> tool_call_row \<Rightarrow> bool" where
  "holds_claim i owner t = (tc_id t = i \<and> tc_status t = ''running'' \<and> tc_claim_owner t = Some owner)"

definition renew_tool_call_claim :: "draws \<Rightarrow> uuid \<Rightarrow> string \<Rightarrow> db \<Rightarrow> db \<times> bool" where
  "renew_tool_call_claim d i owner st =
     (st\<lparr>tool_calls := update_where (holds_claim i owner)
        (\<lambda>t. t\<lparr>tc_claimed_at := Some (now d), tc_claim_expires_at := Some (now d + tool_claim_ttl_seconds)\<rparr>)
        (tool_calls st)\<rparr>, any_row (holds_claim i owner) (tool_calls st))"

definition release_tool_call_claim :: "uuid \<Rightarrow> string \<Rightarrow> db \<Rightarrow> db \<times> bool" where
  "release_tool_call_claim i owner st =
     (st\<lparr>tool_calls := update_where (holds_claim i owner)
        (\<lambda>t. t\<lparr>tc_status := ''queued'', tc_claimed_at := None, tc_claim_expires_at := None, tc_claim_owner := None\<rparr>)
        (tool_calls st)\<rparr>, any_row (holds_claim i owner) (tool_calls st))"

definition get_tool_call :: "uuid \<Rightarrow> db \<Rightarrow> tool_call_row option" where
  "get_tool_call i st = find (\<lambda>t. tc_id t = i) (tool_calls st)"

definition get_analysis_status :: "uuid \<Rightarrow> db \<Rightarrow> string option" where
  "get_analysis_status a st = map_option an_status (find (\<lambda>r. an_id r = a) (analyses st))"

text \<open>The guard of \<^verbatim>\<open>_update_terminal_tool_call\<close>.\<close>

definition may_finish :: "uuid \<Rightarrow> string option \<Rightarrow> tool_call_row \<Rightarrow> bool" where
  "may_finish i owner t =
     (tc_id t = i \<and> tc_status t \<noteq> ''cancelled'' \<and> (owner = None \<or> tc_claim_owner t = owner))"

record call_outcome =
  co_status :: string
  co_result :: payload
  co_result_ref :: "string option"
  co_duration_ms :: int
  co_permission :: string
  co_error_code :: "string option"
  co_error_message :: "string option"

definition finished_row :: "draws \<Rightarrow> call_outcome \<Rightarrow> tool_call_row \<Rightarrow> tool_call_row" where
  "finished_row d c t =
     t\<lparr>tc_status := co_status c, tc_permission_decision := Some (co_permission c), tc_result_ref := co_result_ref c,
       tc_result_summary := Some (json_dumps '', '' '': '' (JObj (co_result c))),
       tc_duration_ms := Some (co_duration_ms c), tc_error_code := co_error_code c,
       tc_error_message := map_option (take 4096) (co_error_message c), tc_claimed_at := None,
       tc_claim_expires_at := None, tc_claim_owner := None, tc_completed_at := Some (now d)\<rparr>"

definition update_terminal_tool_call :: "draws \<Rightarrow> uuid \<Rightarrow> call_outcome \<Rightarrow> string option \<Rightarrow> db \<Rightarrow> db \<times> bool" where
  "update_terminal_tool_call d i c owner st =
     (st\<lparr>tool_calls := update_where (may_finish i owner) (finished_row d c) (tool_calls st)\<rparr>,
      any_row (may_finish i owner) (tool_calls st))"

definition append_tool_result_context_item :: "draws \<Rightarrow> nat \<Rightarrow> uuid \<Rightarrow> uuid \<Rightarrow> payload \<Rightarrow> db \<Rightarrow> db" where
  "append_tool_result_context_item d k g i result st =
     (case get_tool_call i st of
        None \<Rightarrow> st
      | Some t \<Rightarrow>
          append_context_item d k g (Some (tc_turn_id t)) ''function_call_output''
            (function_call_output_payload (tc_openai_call_id t) (JObj result)) None ''tool''
            (Some (tool_output_idempotency_key (tc_openai_call_id t))) st)"

definition tool_result_stream_idempotency_key :: "payload \<Rightarrow> string option" where
  "tool_result_stream_idempotency_key pl =
     (case obj_get pl ''tool_call_id'' of JNull \<Rightarrow> None | v \<Rightarrow> Some (''tool_result:'' @ py_str v))"

definition finalize_tool_call ::
  "draws \<Rightarrow> uuid \<Rightarrow> uuid \<Rightarrow> uuid \<Rightarrow> call_outcome \<Rightarrow> string option \<Rightarrow> envelope \<Rightarrow> db \<Rightarrow> db \<times> bool" where
  "finalize_tool_call d a g i c owner e st =
     (let (st1, updated) = update_terminal_tool_call d i c owner st
      in if \<not> updated then (st, False)
         else let st2 = append_tool_result_context_item d 0 g i (co_result c) st1;
                  pl = with_tool_call_id i (co_result c);
                  st3 = add_stream_event d 1 a g ''tool_result'' (JObj pl) None None None None
                    (tool_result_stream_idempotency_key pl) st2
              in (add_outbox d 2 e st3, True))"

section \<open>The handler\<close>

definition DENIED_TOOL_ERROR_CODES :: "string set" where
  "DENIED_TOOL_ERROR_CODES =
     {''TOOL_DENIED'', ''TOOL_NOT_ENABLED'', ''UNSAFE_PATH'', ''SECRET_PATH_DENIED'', ''ASK_UNSUPPORTED''}"

record tool_error =
  te_code :: string
  te_message :: string
  te_retryable :: bool

definition error_payload :: "payload \<Rightarrow> tool_error" where
  "error_payload result =
     (let err = (case obj_get result ''error'' of JObj d \<Rightarrow> d | _ \<Rightarrow> [])
      in \<lparr>te_code = py_str (py_or (obj_get err ''code'') (JStr ''TOOL_FAILED'')),
          te_message = py_str (py_or (obj_get err ''message'') (JStr ''Tool call failed'')),
          te_retryable = truthy (obj_get_default err ''retryable'' (JBool False))\<rparr>)"

definition tool_error_json :: "tool_error \<Rightarrow> json" where
  "tool_error_json err = JObj [(''code'', JStr (te_code err)), (''message'', JStr (te_message err)),
     (''retryable'', JBool (te_retryable err))]"

definition classify_tool_result :: "payload \<Rightarrow> string \<times> event_type \<times> tool_error option" where
  "classify_tool_result result =
     (if obj_get result ''ok'' = JBool True then (''completed'', TOOL_CALL_COMPLETED, None)
      else let err = error_payload result
           in if te_code err \<in> DENIED_TOOL_ERROR_CODES then (''denied'', TOOL_CALL_DENIED, Some err)
              else (''failed'', TOOL_CALL_FAILED, Some err))"

definition tool_event ::
  "draws \<Rightarrow> event_type \<Rightarrow> envelope \<Rightarrow> payload \<Rightarrow> envelope" where
  "tool_event d ty e pl =
     envelope_new (new_id d 4) (new_id d 3) (now_iso d) ty (analysis_id e) (agent_id e) (snapshot_id e)
       (Some (correlation_id e)) (Some (event_id e)) (Some pl)"

text \<open>\<^verbatim>\<open>_republish_terminal_tool_call\<close>: a redelivered request for a finished call announces its result again.\<close>

definition republish_terminal_tool_call :: "draws \<Rightarrow> envelope \<Rightarrow> uuid \<Rightarrow> db \<Rightarrow> handler_error + db \<times> bool" where
  "republish_terminal_tool_call d e i st =
     (case get_tool_call i st of
        None \<Rightarrow> Inr (st, False)
      | Some t \<Rightarrow>
          if tc_status t \<notin> {''completed'', ''failed'', ''denied'', ''cancelled''} then Inr (st, False)
          else if agent_id e \<noteq> Some (tc_agent_id t) \<or> snapshot_id e \<noteq> Some (tc_snapshot_id t)
          then Inl (HValueError ''ToolCallRequested event does not match persisted terminal tool call context'')
          else let ty = (if tc_status t = ''completed'' then TOOL_CALL_COMPLETED
                         else if tc_status t = ''denied'' then TOOL_CALL_DENIED else TOOL_CALL_FAILED);
                   code = (case tc_error_code t of Some c \<Rightarrow> (if c \<noteq> [] then Some c else None) | None \<Rightarrow> None);
                   message = (case tc_error_message t of Some m \<Rightarrow> (if m \<noteq> [] then Some m else None) | None \<Rightarrow> None);
                   err = JObj [(''code'', JStr (case code of Some c \<Rightarrow> c
                                  | None \<Rightarrow> if tc_status t = ''cancelled'' then ''TOOL_CALL_CANCELLED''
                                            else if tc_status t = ''failed'' then ''FAILED'' else ''DENIED'')),
                               (''message'', JStr (case message of Some m \<Rightarrow> m
                                  | None \<Rightarrow> ''Tool call '' @ tc_status t))];
                   pl = (''tool_call_id'', JStr (uuid_str i)) #
                        (if tc_status t = ''completed'' then [] else [(''error'', err)])
               in Inr (add_outbox d 2 (tool_event d ty e pl) st, True))"

definition cancel_claimed_tool_call :: "draws \<Rightarrow> envelope \<Rightarrow> uuid \<Rightarrow> uuid \<Rightarrow> uuid \<Rightarrow> string option \<Rightarrow> db \<Rightarrow> db" where
  "cancel_claimed_tool_call d e a g i owner st =
     (let result = with_tool_call_id i [(''ok'', JBool False), (''tool_name'', JStr ''cancelled''),
            (''error'', JObj [(''code'', JStr ''TOOL_CALL_CANCELLED''),
               (''message'', JStr ''Analysis was cancelled before this tool call executed.''),
               (''retryable'', JBool False)])];
          err = error_payload result;
          ev = tool_event d TOOL_CALL_FAILED e
            [(''tool_call_id'', JStr (uuid_str i)), (''error'', tool_error_json err)]
      in fst (finalize_tool_call d a g i
           \<lparr>co_status = ''cancelled'', co_result = result, co_result_ref = None, co_duration_ms = 0,
            co_permission = ''deny'', co_error_code = Some (te_code err), co_error_message = Some (te_message err)\<rparr>
           owner ev st))"

text \<open>What running the tool does: it may change the database, as other transactions may meanwhile, and
  returns a result or raises.\<close>

datatype tool_run = ToolResult db payload int | ToolRaised db handler_error

definition store_result ::
  "draws \<Rightarrow> envelope \<Rightarrow> uuid \<Rightarrow> uuid \<Rightarrow> uuid \<Rightarrow> string option \<Rightarrow> payload \<Rightarrow> int \<Rightarrow> db \<Rightarrow> db" where
  "store_result d e a g i owner result duration st =
     (let result' = with_tool_call_id i result;
          (status, ty, err) = classify_tool_result result';
          pl = (''tool_call_id'', JStr (uuid_str i)) #
               (case err of None \<Rightarrow> [] | Some x \<Rightarrow> [(''error'', tool_error_json x)])
      in fst (finalize_tool_call d a g i
           \<lparr>co_status = status, co_result = result',
            co_result_ref = (case obj_get result' ''result_ref'' of JStr s \<Rightarrow> Some s | _ \<Rightarrow> None),
            co_duration_ms = duration, co_permission = (if status = ''denied'' then ''deny'' else ''allow''),
            co_error_code = map_option te_code err, co_error_message = map_option te_message err\<rparr>
           owner (tool_event d ty e pl) st))"

text \<open>
  \<^verbatim>\<open>ExecutionCommandHandler.__call__\<close>. The claim, the tool and the result are three transactions; the
  first component of the answer is the database, which keeps what was committed when the call raises.
\<close>

definition execution_call ::
  "draws \<Rightarrow> draws \<Rightarrow> string \<Rightarrow> (tool_call_row \<Rightarrow> json \<Rightarrow> db \<Rightarrow> tool_run) \<Rightarrow> envelope \<Rightarrow> db \<Rightarrow> db \<times> handler_error option" where
  "execution_call d1 d2 token run e st =
     (if event_type e \<noteq> TOOL_CALL_REQUESTED
      then (st, Some (HValueError (''Unsupported execution command event: '' @ type_value (event_type e))))
      else case (analysis_id e, agent_id e, snapshot_id e) of
        (Some a, Some g, Some s) \<Rightarrow>
          (case map_of (payload e) ''tool_call_id'' of
             None \<Rightarrow> (st, Some (HKeyError ''tool_call_id''))
           | Some v \<Rightarrow>
               (case parse_uuid (py_str v) of
                  None \<Rightarrow> (st, Some (HValueError ''badly formed hexadecimal UUID string''))
                | Some i \<Rightarrow>
                    (case claim_queued_tool_call d1 token i st of
                       (st1, None) \<Rightarrow>
                         (case republish_terminal_tool_call d2 e i st1 of
                            Inl err \<Rightarrow> (st1, Some err)
                          | Inr (st2, True) \<Rightarrow> (st2, None)
                          | Inr (st2, False) \<Rightarrow>
                              (st2, Some (HRuntimeError (''Tool call '' @ uuid_str i @ '' is not terminal and cannot be claimed''))))
                     | (st1, Some (row, cfg)) \<Rightarrow>
                         if g \<noteq> tc_agent_id row \<or> s \<noteq> tc_snapshot_id row
                         then (st1, Some (HValueError ''ToolCallRequested event does not match persisted tool call context''))
                         else if get_analysis_status a st1 \<in> {Some ''cancelling'', Some ''cancelled''}
                         then (cancel_claimed_tool_call d2 e a g i (Some token) st1, None)
                         else (case run row cfg st1 of
                                 ToolRaised st2 err \<Rightarrow> (fst (release_tool_call_claim i token st2), Some err)
                               | ToolResult st2 result duration \<Rightarrow>
                                   (store_result d2 e a g i (Some token) result duration st2, None)))))
      | _ \<Rightarrow> (st, Some (HValueError ''ToolCallRequested requires analysis_id, agent_id, snapshot_id'')))"

end
