(* ===== verification/Analysis_Lifecycle.thy ===== *)
theory Analysis_Lifecycle
  imports Batch_Scheduler Analysis_Worker Snapshot_Service Execution_Worker
begin

text \<open>
  The analysis pipeline as one transition system. A step is one committed transaction of one of the services
  that share the database: the API (\<^verbatim>\<open>api/postgres_analysis_service.py\<close>), the analysis worker, the batch
  scheduler, the snapshot service, the agent repository and the execution worker. The events a handler receives
  are arbitrary, so that lost, repeated and reordered deliveries are all runs of the system. Shown here: the
  bookkeeping of batches, that an item is requested at most once, that finished analyses stay finished, the
  numbering of the event streams, and what a failed snapshot leaves behind.
\<close>

section \<open>The steps\<close>

text \<open>
  Identifiers drawn by a creating operation are new to the tables that use them as keys, and within one
  operation the draws differ.
\<close>

definition fresh_for :: "draws \<Rightarrow> nat \<Rightarrow> db \<Rightarrow> bool" where
  "fresh_for d n st =
     (inj_on (new_id d) {..<n} \<and>
      (\<forall>k < n. new_id d k \<notin> set (map an_id (analyses st)) \<and> new_id d k \<notin> set (map as_id (agent_sessions st)) \<and>
         new_id d k \<notin> set (map ba_id (analysis_batches st)) \<and> new_id d k \<notin> set (map bi_id (analysis_batch_items st)) \<and>
         new_id d k \<notin> set (map bi_batch_id (analysis_batch_items st)) \<and>
         new_id d k \<notin> set (map bi_analysis_id (analysis_batch_items st)) \<and>
         list_all (\<lambda>e. analysis_id e \<noteq> Some (new_id d k)) (emitted st)))"

inductive pipeline_step :: "db \<Rightarrow> db \<Rightarrow> bool" where
  create_step: "pipeline_step st st'"
    if "create_analysis d cfg url ref profile tenant user st = Inr st'" "fresh_for d 7 st"
| create_batch_step: "pipeline_step st st'"
    if "create_batch d cfg items max_parallel tenant user st = Inr st'" "fresh_for d (4 + 5 * length items) st"
      "0 \<le> max_parallel"
| cancel_step: "pipeline_step st (fst (cancel_analysis d a tenant user st))"
| analysis_worker_step: "pipeline_step st st'" if "analysis_worker_call d e st = Inr st'"
| scheduler_step: "pipeline_step st st'" if "scheduler_call d locked e st = Inr st'"
| snapshot_started_step: "pipeline_step st st'" if "mark_started d e i st = Inr (st', started)"
| snapshot_ready_step: "pipeline_step st (mark_ready d e res st)"
| snapshot_failed_step: "pipeline_step st st'" if "service_mark_failed d e code message st = Inr st'"
| session_status_step: "pipeline_step st (update_session_status d g status st)"
| start_turn_step: "pipeline_step st st'" if "start_turn d s trigger key st = Some (st', t)"
| tool_calls_step: "pipeline_step st st'"
    if "complete_turn_with_tool_calls d r resp latest rqs a g outs msgs st = Inr (st', ids)"
      "list_all (\<lambda>rq. event_type (rq_event rq) \<noteq> ANALYSIS_REQUESTED) rqs"
| final_answer_step: "pipeline_step st (fst (complete_turn_with_final_answer d r resp latest a g txt pl e outs msgs delta st))"
    if "event_type e \<noteq> ANALYSIS_REQUESTED"
| fail_analysis_step: "pipeline_step st (fst (fail_analysis d a g code message st))"
| agent_event_step: "pipeline_step st (add_outbox d k e st)" if "event_type e \<noteq> ANALYSIS_REQUESTED"
| stream_event_step: "pipeline_step st (add_stream_event d k a g ty pl turn att resp state key st)"
| fail_turn_step: "pipeline_step st (fail_turn d t st)"
| context_window_step: "pipeline_step st (save_compacted_context_window d g t n compaction outs usage strategy st)"
| assembly_step: "pipeline_step st (save_context_assembly d g t cs refs input ih th tokens st)"
| claim_tool_step: "pipeline_step st (fst (claim_queued_tool_call d token i st))"
| renew_tool_step: "pipeline_step st (fst (renew_tool_call_claim d i owner st))"
| release_tool_step: "pipeline_step st (fst (release_tool_call_claim i owner st))"
| finalize_tool_step: "pipeline_step st (fst (finalize_tool_call d a g i c owner e st))"
    if "event_type e \<noteq> ANALYSIS_REQUESTED"

inductive pipeline_reachable :: "db \<Rightarrow> bool" where
  start: "pipeline_reachable empty_db"
| step: "pipeline_reachable st \<Longrightarrow> pipeline_step st st' \<Longrightarrow> pipeline_reachable st'"

section \<open>What the statements leave alone\<close>

lemma service_frame [frame_simps]:
  "analysis_batches (insert_config_snapshot d cfg i st) = analysis_batches st"
  "analysis_batch_items (insert_config_snapshot d cfg i st) = analysis_batch_items st"
  "outbox_events (insert_config_snapshot d cfg i st) = outbox_events st"
  "analyses (insert_config_snapshot d cfg i st) = analyses st"
  "stream_events (insert_config_snapshot d cfg i st) = stream_events st"
  "analysis_batches (insert_analysis d a te us url ref pr cs st) = analysis_batches st"
  "analysis_batch_items (insert_analysis d a te us url ref pr cs st) = analysis_batch_items st"
  "outbox_events (insert_analysis d a te us url ref pr cs st) = outbox_events st"
  "stream_events (insert_analysis d a te us url ref pr cs st) = stream_events st"
  "analysis_batches (insert_session d cfg g a cs st) = analysis_batches st"
  "analysis_batch_items (insert_session d cfg g a cs st) = analysis_batch_items st"
  "outbox_events (insert_session d cfg g a cs st) = outbox_events st"
  "analyses (insert_session d cfg g a cs st) = analyses st"
  "stream_events (insert_session d cfg g a cs st) = stream_events st"
  by (simp_all add: insert_config_snapshot_def insert_analysis_def insert_session_def)

lemma upsert_frame [frame_simps]:
  "analysis_batches (upsert_repository_index d i c a ref te us st) = analysis_batches st"
  "analysis_batch_items (upsert_repository_index d i c a ref te us st) = analysis_batch_items st"
  "outbox_events (upsert_repository_index d i c a ref te us st) = outbox_events st"
  "analyses (upsert_repository_index d i c a ref te us st) = analyses st"
  "stream_events (upsert_repository_index d i c a ref te us st) = stream_events st"
  by (simp_all add: upsert_repository_index_def Let_def)

lemma cancel_frame [frame_simps]:
  "analysis_batches (cancel_tool_calls d g st) = analysis_batches st"
  "analysis_batch_items (cancel_tool_calls d g st) = analysis_batch_items st"
  "outbox_events (cancel_tool_calls d g st) = outbox_events st"
  "analyses (cancel_tool_calls d g st) = analyses st"
  "stream_events (cancel_tool_calls d g st) = stream_events st"
  "analysis_batches (cancel_sessions d a st) = analysis_batches st"
  "analysis_batch_items (cancel_sessions d a st) = analysis_batch_items st"
  "outbox_events (cancel_sessions d a st) = outbox_events st"
  "analyses (cancel_sessions d a st) = analyses st"
  "stream_events (cancel_sessions d a st) = stream_events st"
  by (simp_all add: cancel_tool_calls_def cancel_sessions_def)

lemma add_outbox_frame [frame_simps]:
  "analysis_batches (add_outbox d k e st) = analysis_batches st"
  "analysis_batch_items (add_outbox d k e st) = analysis_batch_items st"
  "analyses (add_outbox d k e st) = analyses st"
  "agent_sessions (add_outbox d k e st) = agent_sessions st"
  "stream_events (add_outbox d k e st) = stream_events st"
  "tool_calls (add_outbox d k e st) = tool_calls st"
  by (simp_all add: add_outbox_def)

lemma emitted_add_outbox [simp]: "emitted (add_outbox d k e st) = emitted st @ [e]"
  by (simp add: emitted_def add_outbox_def outbox_add_def)

lemma emitted_cong: "outbox_events st = outbox_events st' \<Longrightarrow> emitted st = emitted st'"
  by (simp add: emitted_def)

lemma requests_emit: "requests (emit d k ty a g s co ca pl st) x =
    requests st x + (if ty = ANALYSIS_REQUESTED \<and> a = Some x then 1 else 0)"
  by (simp add: requests_def envelope_new_def)

lemma requests_add_outbox: "event_type e \<noteq> ANALYSIS_REQUESTED \<Longrightarrow> requests (add_outbox d k e st) = requests st"
  by (simp add: requests_def fun_eq_iff)

lemma agent_update_frame [frame_simps]:
  "analysis_batches (complete_turn d r st) = analysis_batches st"
  "analysis_batch_items (complete_turn d r st) = analysis_batch_items st"
  "analyses (complete_turn d r st) = analyses st"
  "outbox_events (complete_turn d r st) = outbox_events st"
  "stream_events (complete_turn d r st) = stream_events st"
  "analysis_batches (update_latest_response d g resp st) = analysis_batches st"
  "analysis_batch_items (update_latest_response d g resp st) = analysis_batch_items st"
  "analyses (update_latest_response d g resp st) = analyses st"
  "outbox_events (update_latest_response d g resp st) = outbox_events st"
  "stream_events (update_latest_response d g resp st) = stream_events st"
  by (simp_all add: complete_turn_def update_latest_response_def Let_def)

lemma window_items_frame [frame_simps]:
  "analysis_batches (append_window_items d n g turn c items st) = analysis_batches st"
  "analysis_batch_items (append_window_items d n g turn c items st) = analysis_batch_items st"
  "analyses (append_window_items d n g turn c items st) = analyses st"
  "agent_sessions (append_window_items d n g turn c items st) = agent_sessions st"
  "agent_turns (append_window_items d n g turn c items st) = agent_turns st"
  "tool_calls (append_window_items d n g turn c items st) = tool_calls st"
  "stream_events (append_window_items d n g turn c items st) = stream_events st"
  "outbox_events (append_window_items d n g turn c items st) = outbox_events st"
  by (induction d n g turn c items st rule: append_window_items.induct) (simp_all add: frame_simps)

lemma agent_bookkeeping_frame [frame_simps]:
  "analysis_batches (save_compacted_context_window d g t n c outs u strat st) = analysis_batches st"
  "analysis_batch_items (save_compacted_context_window d g t n c outs u strat st) = analysis_batch_items st"
  "analyses (save_compacted_context_window d g t n c outs u strat st) = analyses st"
  "agent_sessions (save_compacted_context_window d g t n c outs u strat st) = agent_sessions st"
  "agent_turns (save_compacted_context_window d g t n c outs u strat st) = agent_turns st"
  "tool_calls (save_compacted_context_window d g t n c outs u strat st) = tool_calls st"
  "stream_events (save_compacted_context_window d g t n c outs u strat st) = stream_events st"
  "outbox_events (save_compacted_context_window d g t n c outs u strat st) = outbox_events st"
  "analysis_batches (save_context_assembly d g t cs refs inp ih th tok st) = analysis_batches st"
  "analysis_batch_items (save_context_assembly d g t cs refs inp ih th tok st) = analysis_batch_items st"
  "analyses (save_context_assembly d g t cs refs inp ih th tok st) = analyses st"
  "agent_sessions (save_context_assembly d g t cs refs inp ih th tok st) = agent_sessions st"
  "agent_turns (save_context_assembly d g t cs refs inp ih th tok st) = agent_turns st"
  "tool_calls (save_context_assembly d g t cs refs inp ih th tok st) = tool_calls st"
  "stream_events (save_context_assembly d g t cs refs inp ih th tok st) = stream_events st"
  "outbox_events (save_context_assembly d g t cs refs inp ih th tok st) = outbox_events st"
  "analysis_batches (fail_turn d t st) = analysis_batches st"
  "analysis_batch_items (fail_turn d t st) = analysis_batch_items st"
  "analyses (fail_turn d t st) = analyses st"
  "agent_sessions (fail_turn d t st) = agent_sessions st"
  "tool_calls (fail_turn d t st) = tool_calls st"
  "stream_events (fail_turn d t st) = stream_events st"
  "outbox_events (fail_turn d t st) = outbox_events st"
  by (simp_all add: save_compacted_context_window_def save_context_assembly_def fail_turn_def Let_def frame_simps)

lemma index_frame [frame_simps]:
  "analysis_batches (mark_repository_index_completed d a st) = analysis_batches st"
  "analysis_batch_items (mark_repository_index_completed d a st) = analysis_batch_items st"
  "analyses (mark_repository_index_completed d a st) = analyses st"
  "outbox_events (mark_repository_index_completed d a st) = outbox_events st"
  "stream_events (mark_repository_index_completed d a st) = stream_events st"
  "analysis_batches (mark_repository_index_failed d a st) = analysis_batches st"
  "analysis_batch_items (mark_repository_index_failed d a st) = analysis_batch_items st"
  "analyses (mark_repository_index_failed d a st) = analyses st"
  "outbox_events (mark_repository_index_failed d a st) = outbox_events st"
  "stream_events (mark_repository_index_failed d a st) = stream_events st"
  by (simp_all add: mark_repository_index_completed_def mark_repository_index_failed_def split: list.splits)

lemma close_analysis_frame [frame_simps]:
  "analysis_batches (fst (close_analysis d s m a g st)) = analysis_batches st"
  "analysis_batch_items (fst (close_analysis d s m a g st)) = analysis_batch_items st"
  "outbox_events (fst (close_analysis d s m a g st)) = outbox_events st"
  "stream_events (fst (close_analysis d s m a g st)) = stream_events st"
  "analyses (fst (close_analysis d s m a g st)) = update_where (\<lambda>r. an_id r = a \<and> \<not> closed (an_status r))
     (\<lambda>r. m (r\<lparr>an_status := s, an_updated_at := now d, an_completed_at := Some (now d)\<rparr>)) (analyses st)"
  by (simp_all add: close_analysis_def Let_def)

lemma output_items_frame [frame_simps]:
  "analysis_batches (append_model_output_items d n g tu resp items st) = analysis_batches st"
  "analysis_batch_items (append_model_output_items d n g tu resp items st) = analysis_batch_items st"
  "analyses (append_model_output_items d n g tu resp items st) = analyses st"
  "outbox_events (append_model_output_items d n g tu resp items st) = outbox_events st"
  "stream_events (append_model_output_items d n g tu resp items st) = stream_events st"
  by (induction d n g tu resp items st rule: append_model_output_items.induct) (simp_all add: frame_simps)

lemma messages_frame [frame_simps]:
  "analysis_batches (add_agent_message_stream_events d n a g tu resp pls st) = analysis_batches st"
  "analysis_batch_items (add_agent_message_stream_events d n a g tu resp pls st) = analysis_batch_items st"
  "analyses (add_agent_message_stream_events d n a g tu resp pls st) = analyses st"
  "outbox_events (add_agent_message_stream_events d n a g tu resp pls st) = outbox_events st"
  by (induction d n a g tu resp pls st rule: add_agent_message_stream_events.induct) (simp_all add: frame_simps)

lemma function_calls_frame [frame_simps]:
  "analysis_batches (append_function_calls d n g tu resp rqs st) = analysis_batches st"
  "analysis_batch_items (append_function_calls d n g tu resp rqs st) = analysis_batch_items st"
  "analyses (append_function_calls d n g tu resp rqs st) = analyses st"
  "outbox_events (append_function_calls d n g tu resp rqs st) = outbox_events st"
  "stream_events (append_function_calls d n g tu resp rqs st) = stream_events st"
  by (induction d n g tu resp rqs st rule: append_function_calls.induct)
    (simp_all add: frame_simps append_function_call_def)

lemma create_tool_call_frame [frame_simps]:
  "analysis_batches (fst (create_tool_call d k kw st)) = analysis_batches st"
  "analysis_batch_items (fst (create_tool_call d k kw st)) = analysis_batch_items st"
  "analyses (fst (create_tool_call d k kw st)) = analyses st"
  "outbox_events (fst (create_tool_call d k kw st)) = outbox_events st"
  "stream_events (fst (create_tool_call d k kw st)) = stream_events st"
  by (simp_all add: create_tool_call_def split: option.splits)

lemma create_tool_calls_frame [frame_simps]:
  "analysis_batches (fst (create_tool_calls d n rqs st)) = analysis_batches st"
  "analysis_batch_items (fst (create_tool_calls d n rqs st)) = analysis_batch_items st"
  "analyses (fst (create_tool_calls d n rqs st)) = analyses st"
  "outbox_events (fst (create_tool_calls d n rqs st)) = outbox_events st"
  "stream_events (fst (create_tool_calls d n rqs st)) = stream_events st"
  by (induction rqs arbitrary: n st) (simp_all add: Let_def case_prod_beta frame_simps)

lemma completed_output_frame [frame_simps]:
  "analysis_batches (append_completed_output d k g tu kw st) = analysis_batches st"
  "analysis_batch_items (append_completed_output d k g tu kw st) = analysis_batch_items st"
  "analyses (append_completed_output d k g tu kw st) = analyses st"
  "outbox_events (append_completed_output d k g tu kw st) = outbox_events st"
  "stream_events (append_completed_output d k g tu kw st) = stream_events st"
  by (simp_all add: append_completed_output_def frame_simps split: option.splits)

lemma publish_tool_calls_frame [frame_simps]:
  "analysis_batches (publish_tool_calls d n a g tu resp rqs st) = analysis_batches st"
  "analysis_batch_items (publish_tool_calls d n a g tu resp rqs st) = analysis_batch_items st"
  "analyses (publish_tool_calls d n a g tu resp rqs st) = analyses st"
  by (induction d n a g tu resp rqs st rule: publish_tool_calls.induct) (simp_all add: frame_simps)

lemma snapshot_files_frame [frame_simps]:
  "analysis_batches (insert_snapshot_files i fs st) = analysis_batches st"
  "analysis_batch_items (insert_snapshot_files i fs st) = analysis_batch_items st"
  "analyses (insert_snapshot_files i fs st) = analyses st"
  "outbox_events (insert_snapshot_files i fs st) = outbox_events st"
  "stream_events (insert_snapshot_files i fs st) = stream_events st"
  "agent_sessions (insert_snapshot_files i fs st) = agent_sessions st"
  by (induction i fs st rule: insert_snapshot_files.induct) simp_all

lemma snapshot_insert_frame [frame_simps]:
  "analysis_batches (fst (insert_snapshot d res st)) = analysis_batches st"
  "analysis_batch_items (fst (insert_snapshot d res st)) = analysis_batch_items st"
  "analyses (fst (insert_snapshot d res st)) = analyses st"
  "outbox_events (fst (insert_snapshot d res st)) = outbox_events st"
  "stream_events (fst (insert_snapshot d res st)) = stream_events st"
  "analysis_batches (insert_instruction_files i rows st) = analysis_batches st"
  "analysis_batch_items (insert_instruction_files i rows st) = analysis_batch_items st"
  "analyses (insert_instruction_files i rows st) = analyses st"
  "outbox_events (insert_instruction_files i rows st) = outbox_events st"
  "stream_events (insert_instruction_files i rows st) = stream_events st"
  by (simp_all add: insert_snapshot_def insert_instruction_files_def)

lemma associate_frame [frame_simps]:
  "analysis_batches (fst (associate_snapshot d e i st)) = analysis_batches st"
  "analysis_batch_items (fst (associate_snapshot d e i st)) = analysis_batch_items st"
  "outbox_events (fst (associate_snapshot d e i st)) = outbox_events st"
  "stream_events (fst (associate_snapshot d e i st)) = stream_events st"
  by (simp_all add: associate_snapshot_def Let_def)

lemma tool_claim_frame [frame_simps]:
  "analysis_batches (fst (claim_queued_tool_call d token i st)) = analysis_batches st"
  "analysis_batch_items (fst (claim_queued_tool_call d token i st)) = analysis_batch_items st"
  "analyses (fst (claim_queued_tool_call d token i st)) = analyses st"
  "outbox_events (fst (claim_queued_tool_call d token i st)) = outbox_events st"
  "stream_events (fst (claim_queued_tool_call d token i st)) = stream_events st"
  by (simp_all add: claim_queued_tool_call_def split: option.splits)

lemma tool_result_item_frame [frame_simps]:
  "analysis_batches (append_tool_result_context_item d k g i res st) = analysis_batches st"
  "analysis_batch_items (append_tool_result_context_item d k g i res st) = analysis_batch_items st"
  "analyses (append_tool_result_context_item d k g i res st) = analyses st"
  "outbox_events (append_tool_result_context_item d k g i res st) = outbox_events st"
  "stream_events (append_tool_result_context_item d k g i res st) = stream_events st"
  by (simp_all add: append_tool_result_context_item_def frame_simps split: option.splits)

section \<open>Operations that leave batches and requests alone\<close>

definition quiet :: "db \<Rightarrow> db \<Rightarrow> bool" where
  "quiet st st' = (analysis_batches st' = analysis_batches st \<and> analysis_batch_items st' = analysis_batch_items st \<and>
     requests st' = requests st)"

lemma quiet_trans: "quiet st st' \<Longrightarrow> quiet st' st'' \<Longrightarrow> quiet st st''"
  by (simp add: quiet_def)

lemma quiet_refl [simp]: "quiet st st"
  by (simp add: quiet_def)

lemma quiet_frame:
  "analysis_batches st' = analysis_batches st \<Longrightarrow> analysis_batch_items st' = analysis_batch_items st \<Longrightarrow>
   outbox_events st' = outbox_events st \<Longrightarrow> quiet st st'"
  unfolding quiet_def by (blast intro: requests_cong)

lemma quiet_emit: "quiet st st' \<Longrightarrow> ty \<noteq> ANALYSIS_REQUESTED \<Longrightarrow> quiet st (emit d k ty a g s co ca pl st')"
  by (simp add: quiet_def frame_simps requests_emit fun_eq_iff)

lemma quiet_add_outbox: "quiet st st' \<Longrightarrow> event_type e \<noteq> ANALYSIS_REQUESTED \<Longrightarrow> quiet st (add_outbox d k e st')"
  by (simp add: quiet_def frame_simps requests_add_outbox)

lemma quiet_stream: "quiet st st' \<Longrightarrow> quiet st (add_stream_event d k a g ty pl tu att re sta key st')"
  by (rule quiet_trans, assumption) (rule quiet_frame; simp add: frame_simps)

lemma quiet_publish:
  "quiet st st' \<Longrightarrow> list_all (\<lambda>(rq, i). event_type (rq_event rq) \<noteq> ANALYSIS_REQUESTED) rqs \<Longrightarrow>
   quiet st (publish_tool_calls d n a g tu resp rqs st')"
proof (induction d n a g tu resp rqs st' rule: publish_tool_calls.induct)
  case (2 d n a g turn response_id rq i rqs st')
  have "quiet st (append_completed_output d (8 * n + 5) g turn (rq_kwargs rq) st')"
    using 2(2) by (rule quiet_trans) (rule quiet_frame; simp add: frame_simps)
  with 2 show ?case by (simp add: quiet_add_outbox quiet_stream)
qed simp

lemma quiet_batches: "quiet st st' \<Longrightarrow> batches_ok st \<Longrightarrow> batches_ok st'"
  unfolding quiet_def using batches_ok_cong [of st' st] by simp

lemma quiet_dispatched: "quiet st st' \<Longrightarrow> dispatched_once st \<Longrightarrow> dispatched_once st'"
  by (simp add: quiet_def dispatched_once_def)

lemma cancel_quiet: "quiet st (fst (cancel_analysis d a te us st))"
proof -
  have "quiet st (cancel_tool_calls d (Some g) (cancel_sessions d a (st\<lparr>analyses := rows\<rparr>)))" for g rows
    by (rule quiet_frame) (simp_all add: frame_simps)
  then show ?thesis
    by (auto simp: cancel_analysis_def Let_def intro!: quiet_emit split: option.splits)
qed

lemma mark_started_quiet: "mark_started d e i st = Inr (st', started) \<Longrightarrow> quiet st st'"
  by (auto simp: mark_started_def mark_analysis_snapshotting_def Let_def
      intro!: quiet_emit quiet_frame split: option.splits prod.splits bool.splits)

lemma reuse_quiet: "quiet st (reuse_existing d e ex st)"
proof -
  have "quiet st (fst (associate_snapshot d e i st))" for i by (rule quiet_frame) (simp_all add: frame_simps)
  then show ?thesis
    by (auto simp: reuse_existing_def emit_ready_def case_prod_beta intro!: quiet_emit split: bool.splits)
qed

lemma insert_snapshot_quiet: "quiet st (fst (insert_snapshot d res st))"
  by (rule quiet_frame) (simp_all add: frame_simps)

lemma mark_ready_quiet: "quiet st (mark_ready d e res st)"
proof -
  let ?st1 = "fst (insert_snapshot d res st)"
  let ?st2 = "insert_instruction_files (br_snapshot_id res) (br_instructions res)
      (insert_snapshot_files (br_snapshot_id res) (br_files res) ?st1)"
  have q2: "quiet st ?st2" by (rule quiet_frame) (simp_all add: frame_simps)
  have q3: "quiet st (fst (associate_snapshot d e i ?st2))" for i
    by (rule quiet_frame) (simp_all add: frame_simps)
  have qr: "quiet st (reuse_existing d e ex ?st1)" for ex
    using insert_snapshot_quiet reuse_quiet by (rule quiet_trans)
  show ?thesis
    using q2 q3 qr reuse_quiet
    by (auto simp: mark_ready_def emit_ready_def Let_def case_prod_beta intro!: quiet_emit split: option.splits bool.splits)
qed

lemma mark_failed_quiet: "service_mark_failed d e code msg st = Inr st' \<Longrightarrow> quiet st st'"
  by (auto simp: service_mark_failed_def repository_mark_failed_def add_stream_error_def Let_def rbind_eq_Inr
      intro!: quiet_emit quiet_stream quiet_frame split: option.splits if_splits)

lemma tool_calls_quiet:
  assumes "complete_turn_with_tool_calls d r resp latest rqs a g outs msgs st = Inr (st', ids)"
    and "list_all (\<lambda>rq. event_type (rq_event rq) \<noteq> ANALYSIS_REQUESTED) rqs"
  shows "quiet st st'"
proof -
  let ?st1 = "complete_turn d r (update_latest_response d latest resp st)"
  let ?st2 = "fst (create_tool_calls d 0 rqs ?st1)"
  let ?st3 = "if outs \<noteq> [] then append_model_output_items d 0 g (Some (tr_turn_id r)) resp outs ?st2
      else append_function_calls d 0 g (tr_turn_id r) resp rqs ?st2"
  let ?st4 = "add_agent_message_stream_events d 0 a g (tr_turn_id r) resp msgs ?st3"
  have "quiet st ?st4" by (rule quiet_frame) (simp_all add: frame_simps)
  moreover have "list_all (\<lambda>(rq, i). event_type (rq_event rq) \<noteq> ANALYSIS_REQUESTED) (zip rqs is)" for "is" :: "uuid list"
    using assms(2) by (auto simp: list_all_iff dest: set_zip_leftD)
  ultimately show ?thesis
    using assms(1) by (auto simp: complete_turn_with_tool_calls_def Let_def case_prod_beta intro: quiet_publish
      split: if_splits)
qed

lemma final_answer_quiet:
  assumes "event_type e \<noteq> ANALYSIS_REQUESTED"
  shows "quiet st (fst (complete_turn_with_final_answer d r resp latest a g txt pl e outs msgs delta st))"
proof -
  let ?st2 = "fst (close_analysis d ''completed'' id a g (complete_turn d r (update_latest_response d latest resp st)))"
  let ?st3 = "mark_repository_index_completed d a ?st2"
  let ?st4 = "if outs \<noteq> [] then append_model_output_items d 0 g (Some (tr_turn_id r)) resp outs ?st3
     else if txt \<noteq> [] then append_context_item d 3 g (Some (tr_turn_id r)) ''assistant_output''
            (assistant_output_payload txt) (Some resp) ''model'' (Some (assistant_output_idempotency_key resp)) ?st3
     else ?st3"
  let ?st5 = "add_agent_message_stream_events d 0 a g (tr_turn_id r) resp msgs ?st4"
  have "quiet st ?st5" "quiet st ?st2" by (rule quiet_frame; simp add: frame_simps)+
  then show ?thesis using assms
    by (auto simp: complete_turn_with_final_answer_def Let_def case_prod_beta
        intro!: quiet_add_outbox quiet_stream split: option.splits)
qed

lemma fail_analysis_quiet: "quiet st (fst (fail_analysis d a g code msg st))"
  by (rule quiet_frame) (simp_all add: fail_analysis_def Let_def case_prod_beta frame_simps)

lemma finalize_quiet:
  assumes "event_type e \<noteq> ANALYSIS_REQUESTED"
  shows "quiet st (fst (finalize_tool_call d a g i c owner e st))"
proof -
  have "quiet st (append_tool_result_context_item d 0 g i res (fst (update_terminal_tool_call d i c owner st)))" for res
    by (rule quiet_frame) (simp_all add: frame_simps update_terminal_tool_call_def)
  then show ?thesis using assms
    by (auto simp: finalize_tool_call_def Let_def case_prod_beta intro!: quiet_add_outbox quiet_stream)
qed

section \<open>Creating\<close>

lemma create_frame:
  assumes "create_analysis d cfg url ref profile tenant user st = Inr st'"
  shows "analysis_batches st' = analysis_batches st" "analysis_batch_items st' = analysis_batch_items st"
    "requests st' x = requests st x + (if x = new_id d 0 then 1 else 0)"
    "stream_events st' = stream_events st"
    "\<exists>row. analyses st' = analyses st @ [row] \<and> an_id row = new_id d 0"
proof -
  from assms obtain c where c: "canonicalize_repository_url url = Some c"
    by (auto simp: create_analysis_def split: option.splits)
  let ?cs = "new_id d 2"
  let ?st1 = "insert_session d cfg (new_id d 1) (new_id d 0) ?cs
      (insert_analysis d (new_id d 0) tenant user (cr_url c) ref profile ?cs (insert_config_snapshot d cfg ?cs st))"
  let ?st2 = "emit d 3 ANALYSIS_REQUESTED (Some (new_id d 0)) (Some (new_id d 1)) None None None
      [(''repository_url'', JStr (cr_url c)), (''requested_ref'', JStr ref),
       (''analysis_profile_id'', uuid_json profile), (''config_snapshot_id'', JStr (uuid_str ?cs))] ?st1"
  have up: "st' = ?st2 \<or> (\<exists>t u. st' = upsert_repository_index d (new_id d 6) c (new_id d 0) ref t u ?st2)"
    using assms c by (auto simp: create_analysis_def Let_def split: option.splits)
  then show "analysis_batches st' = analysis_batches st" "analysis_batch_items st' = analysis_batch_items st"
    "stream_events st' = stream_events st"
    by (auto simp: frame_simps)
  from up have "outbox_events st' = outbox_events ?st2" by (auto simp: frame_simps)
  then have "requests st' = requests ?st2" by (rule requests_cong)
  moreover have "requests ?st1 = requests st" by (rule requests_cong) (simp add: frame_simps)
  ultimately show "requests st' x = requests st x + (if x = new_id d 0 then 1 else 0)"
    by (simp add: requests_emit)
  show "\<exists>row. analyses st' = analyses st @ [row] \<and> an_id row = new_id d 0"
    using up by (auto simp: frame_simps insert_analysis_def)
qed

lemma insert_batch_analysis_items:
  assumes "insert_batch_analysis d k cfg b item n t u st = Inr st'"
  shows "\<exists>row. analysis_batch_items st' = analysis_batch_items st @ [row] \<and> bi_id row = new_id d (k + 2) \<and>
      bi_analysis_id row = new_id d k \<and> bi_batch_id row = b \<and> bi_status row = ''pending''"
    and "analysis_batches st' = analysis_batches st" "outbox_events st' = outbox_events st"
    and "stream_events st' = stream_events st" "\<exists>rows. analyses st' = analyses st @ rows"
  using assms by (auto simp: insert_batch_analysis_def Let_def frame_simps insert_analysis_def split: option.splits)

lemma insert_batch_items_items:
  assumes "insert_batch_items d k cfg b t u n items st = Inr st'"
  shows "\<exists>new. analysis_batch_items st' = analysis_batch_items st @ new \<and>
      map bi_id new = map (\<lambda>j. new_id d (k + 5 * j + 2)) [0..<length items] \<and>
      map bi_analysis_id new = map (\<lambda>j. new_id d (k + 5 * j)) [0..<length items] \<and>
      list_all (\<lambda>i. bi_batch_id i = b \<and> bi_status i = ''pending'') new \<and>
      analysis_batches st' = analysis_batches st \<and> outbox_events st' = outbox_events st \<and>
      stream_events st' = stream_events st \<and> (\<exists>rows. analyses st' = analyses st @ rows)"
  using assms
proof (induction items arbitrary: k n st)
  case Nil
  then show ?case by simp
next
  case (Cons item items)
  from Cons.prems obtain st1 where one: "insert_batch_analysis d k cfg b item (int n) t u st = Inr st1"
    and rest: "insert_batch_items d (k + 5) cfg b t u (Suc n) items st1 = Inr st'"
    by (auto simp: rbind_eq_Inr)
  obtain row where row: "analysis_batch_items st1 = analysis_batch_items st @ [row]" "bi_id row = new_id d (k + 2)"
      "bi_analysis_id row = new_id d k" "bi_batch_id row = b" "bi_status row = ''pending''"
    using insert_batch_analysis_items(1) [OF one] by blast
  from insert_batch_analysis_items(5) [OF one] obtain rows1 where rows1: "analyses st1 = analyses st @ rows1" by blast
  from Cons.IH [OF rest] obtain new rows2 where new: "analysis_batch_items st' = analysis_batch_items st1 @ new"
      "map bi_id new = map (\<lambda>j. new_id d (k + 5 + 5 * j + 2)) [0..<length items]"
      "map bi_analysis_id new = map (\<lambda>j. new_id d (k + 5 + 5 * j)) [0..<length items]"
      "list_all (\<lambda>i. bi_batch_id i = b \<and> bi_status i = ''pending'') new"
      "analysis_batches st' = analysis_batches st1" "outbox_events st' = outbox_events st1"
      "stream_events st' = stream_events st1" "analyses st' = analyses st1 @ rows2" by blast
  have shift: "map f [0..<length (item # items)] = f 0 # map (\<lambda>j. f (Suc j)) [0..<length items]" for f :: "nat \<Rightarrow> uuid"
    by (simp only: list.size map_upt_Suc add_Suc_right add_0_right)
  have "map bi_id (row # new) = map (\<lambda>j. new_id d (k + 5 * j + 2)) [0..<length (item # items)]"
    "map bi_analysis_id (row # new) = map (\<lambda>j. new_id d (k + 5 * j)) [0..<length (item # items)]"
    unfolding shift using row new by (simp_all add: algebra_simps)
  then show ?case
    using row new rows1 insert_batch_analysis_items(2-4) [OF one] by (intro exI [of _ "row # new"]) auto
qed

lemma count_items_append:
  assumes "analysis_batch_items st' = analysis_batch_items st @ new"
    and "list_all (\<lambda>i. bi_batch_id i = b \<and> bi_status i = ''pending'') new"
  shows "count_items st' b' q = count_items st b' q + (if b' = b \<and> q ''pending'' then int (length new) else 0)"
proof -
  have "filter (\<lambda>i. bi_batch_id i = b' \<and> q (bi_status i)) new = (if b' = b \<and> q ''pending'' then new else [])"
    using assms(2) by (induction new) auto
  then show ?thesis by (simp add: count_items_def assms(1))
qed

text \<open>\<open>create_batch\<close> with everything it inserts spelled out.\<close>

lemma create_batch_effect:
  assumes "create_batch d cfg items mp tenant user st = Inr st'"
  obtains row new rows where
    "analysis_batches st' = analysis_batches st @ [row]" "ba_id row = new_id d 0" "ba_status row = ''queued''"
    "ba_max_parallel row = mp" "ba_pending_count row = int (length items)" "ba_active_count row = 0"
    "ba_completed_count row = 0" "ba_failed_count row = 0" "ba_cancelled_count row = 0"
    "analysis_batch_items st' = analysis_batch_items st @ new" "length new = length items"
    "map bi_id new = map (\<lambda>j. new_id d (4 + 5 * j + 2)) [0..<length items]"
    "map bi_analysis_id new = map (\<lambda>j. new_id d (4 + 5 * j)) [0..<length items]"
    "list_all (\<lambda>i. bi_batch_id i = new_id d 0 \<and> bi_status i = ''pending'') new"
    "requests st' = requests st" "stream_events st' = stream_events st" "analyses st' = analyses st @ rows"
proof -
  let ?row = "\<lambda>t u. \<lparr>ba_id = new_id d 0, ba_tenant_id = t, ba_created_by = u, ba_status = ''queued'',
      ba_max_parallel = mp, ba_total_count = int (length items), ba_pending_count = int (length items),
      ba_active_count = 0, ba_completed_count = 0, ba_failed_count = 0, ba_cancelled_count = 0,
      ba_created_at = now d, ba_updated_at = now d, ba_completed_at = None\<rparr>"
  from assms obtain t u st1 where
    ins: "insert_batch_items d 4 cfg (new_id d 0) t u 0 items (st\<lparr>analysis_batches := analysis_batches st @ [?row t u]\<rparr>) = Inr st1"
    and st': "st' = emit d 1 ANALYSIS_BATCH_SUBMITTED None None None None None
       [(''batch_id'', JStr (uuid_str (new_id d 0))), (''max_parallel'', JInt mp)] st1"
    by (auto simp: create_batch_def Let_def rbind_eq_Inr split: option.splits)
  from insert_batch_items_items [OF ins] obtain new rows where new:
    "analysis_batch_items st1 = analysis_batch_items st @ new"
    "map bi_id new = map (\<lambda>j. new_id d (4 + 5 * j + 2)) [0..<length items]"
    "map bi_analysis_id new = map (\<lambda>j. new_id d (4 + 5 * j)) [0..<length items]"
    "list_all (\<lambda>i. bi_batch_id i = new_id d 0 \<and> bi_status i = ''pending'') new"
    "analysis_batches st1 = analysis_batches st @ [?row t u]" "outbox_events st1 = outbox_events st"
    "stream_events st1 = stream_events st" "analyses st1 = analyses st @ rows" by auto
  have len: "length new = length items" using arg_cong [OF new(2), of length] by simp
  have "requests st1 = requests st" using new(6) by (rule requests_cong)
  then have req: "requests st' = requests st" by (simp add: st' requests_emit fun_eq_iff)
  show thesis
    by (rule that [of "?row t u" new rows])
      (use new len req in \<open>simp_all add: st' frame_simps\<close>)
qed

lemma fresh_forD:
  assumes "fresh_for d n st" "k < n"
  shows "new_id d k \<notin> set (map ba_id (analysis_batches st))" "new_id d k \<notin> set (map bi_id (analysis_batch_items st))"
    "new_id d k \<notin> set (map bi_batch_id (analysis_batch_items st))"
    "new_id d k \<notin> set (map bi_analysis_id (analysis_batch_items st))" "requests st (new_id d k) = 0"
    "new_id d k \<notin> set (map an_id (analyses st))"
  using assms by (auto simp: fresh_for_def requests_def list_all_iff filter_empty_conv)

lemma distinct_new_ids:
  assumes "inj_on (new_id d) {..<n}" "\<And>j. j < m \<Longrightarrow> f j < n" "inj f"
  shows "distinct (map (\<lambda>j. new_id d (f j)) [0..<m])"
proof -
  have "inj_on (\<lambda>j. new_id d (f j)) {0..<m}"
    using assms by (auto simp: inj_on_def)
  then show ?thesis by (simp add: distinct_map)
qed

lemma new_ids_disjoint:
  "(\<And>j. j < m \<Longrightarrow> new_id d (f j) \<notin> S) \<Longrightarrow> set (map (\<lambda>j. new_id d (f j)) [0..<m]) \<inter> S = {}"
  by auto

lemma create_batch_ok:
  assumes ok: "batches_ok st" and cr: "create_batch d cfg items mp tenant user st = Inr st'"
    and fr: "fresh_for d (4 + 5 * length items) st" and "0 \<le> mp"
  shows "batches_ok st'"
  using cr
proof (cases rule: create_batch_effect)
  case (1 row new rows)
  note e = 1
  have inj: "inj_on (new_id d) {..<4 + 5 * length items}" using fr by (simp add: fresh_for_def)
  have "distinct (map bi_id new)" "distinct (map bi_analysis_id new)"
    unfolding e(12,13) by (rule distinct_new_ids [OF inj]; auto simp: inj_on_def)+
  moreover have "set (map bi_id new) \<inter> set (map bi_id (analysis_batch_items st)) = {}"
    unfolding e(12) by (rule new_ids_disjoint) (rule fresh_forD(2) [OF fr], simp)
  moreover have "set (map bi_analysis_id new) \<inter> set (map bi_analysis_id (analysis_batch_items st)) = {}"
    unfolding e(13) by (rule new_ids_disjoint) (rule fresh_forD(4) [OF fr], simp)
  ultimately have ids: "distinct (map bi_id (analysis_batch_items st'))" "distinct (map bi_analysis_id (analysis_batch_items st'))"
    using ok by (auto simp: e(10) batches_ok_def)
  note counts = count_items_append [OF e(10) e(14)]
  have none: "count_items st (new_id d 0) q = 0" for q
    using fresh_forD(3) [OF fr, of 0] by (force simp: count_items_def filter_empty_conv)
  have old: "batch_row_ok st' r" if "r \<in> set (analysis_batches st)" for r
  proof -
    have "ba_id r \<noteq> new_id d 0" using fresh_forD(1) [OF fr, of 0] that by force
    then show ?thesis using batches_okD [OF ok that] by (auto simp: batch_row_ok_def counts)
  qed
  have "batch_row_ok st' row"
    using e counts none \<open>0 \<le> mp\<close> by (simp add: batch_row_ok_def active_status_def)
  then show ?thesis
    using ids old ok fresh_forD(1) [OF fr, of 0] by (auto simp: batches_ok_def e(1,2) list_all_iff)
qed

lemma create_batch_dispatched:
  assumes once: "dispatched_once st" and cr: "create_batch d cfg items mp tenant user st = Inr st'"
    and fr: "fresh_for d (4 + 5 * length items) st"
  shows "dispatched_once st'"
  using cr
proof (cases rule: create_batch_effect)
  case (1 row new rows)
  have "requests st (bi_analysis_id i) = 0" if "i \<in> set new" for i
  proof -
    from that have "bi_analysis_id i \<in> set (map bi_analysis_id new)" by simp
    then obtain j where "j < length items" "bi_analysis_id i = new_id d (4 + 5 * j)" unfolding 1(13) by auto
    then show ?thesis using fresh_forD(5) [OF fr, of "4 + 5 * j"] by simp
  qed
  then show ?thesis using once 1(14) by (auto simp: dispatched_once_def 1(10,15) list_all_iff active_status_def)
qed

lemma create_dispatched:
  assumes "dispatched_once st" "create_analysis d cfg url ref profile tenant user st = Inr st'" "fresh_for d 7 st"
  shows "dispatched_once st'"
proof -
  have "bi_analysis_id i \<noteq> new_id d 0" if "i \<in> set (analysis_batch_items st)" for i
    using fresh_forD(4) [OF assms(3), of 0] that by (metis image_eqI set_map zero_less_numeral)
  then show ?thesis
    using assms(1) by (simp add: dispatched_once_def create_frame(2,3) [OF assms(2)] list_all_iff)
qed

section \<open>The analysis worker\<close>

lemma worker_effect:
  assumes "analysis_worker_call d e st = Inr st'"
  obtains (quiet) "quiet st st'"
  | (snapshotting) a where "analysis_batches st' = analysis_batches st" "requests st' = requests st"
      "analysis_batch_items st' = update_where (\<lambda>i. bi_analysis_id i = a \<and> bi_status i = ''dispatched'')
         (\<lambda>i. i\<lparr>bi_status := ''snapshotting'', bi_updated_at := now d\<rparr>) (analysis_batch_items st)"
proof (cases "event_type e = ANALYSIS_REQUESTED")
  case True
  with assms have req: "handle_analysis_requested d e st = Inr st'" by (simp add: analysis_worker_call_def)
  from req obtain a g where ag: "analysis_id e = Some a" "agent_id e = Some g"
    by (auto simp: handle_analysis_requested_def split: option.splits)
  show ?thesis
  proof (cases "any_row (\<lambda>r. an_id r = a \<and> an_status r = ''queued'') (analyses st)")
    case False
    with req ag quiet show ?thesis by (simp add: handle_analysis_requested_def Let_def)
  next
    case True
    with req ag show ?thesis
      by (auto simp: handle_analysis_requested_def Let_def rbind_eq_Inr frame_simps requests_emit fun_eq_iff
          intro!: snapshotting [of a] requests_cong [THEN fun_cong])
  qed
next
  case False
  with assms have req: "handle_analysis_cancel_requested d e st = Inr st'"
    by (auto simp: analysis_worker_call_def split: if_splits)
  have "quiet st (cancel_tool_calls d g (cancel_sessions d a (st\<lparr>analyses := rows\<rparr>)))" for g a rows
    by (rule quiet_frame) (simp_all add: frame_simps)
  with req have "quiet st st'"
    by (auto simp: handle_analysis_cancel_requested_def add_cancelled_stream_events_def Let_def
        intro!: quiet_emit quiet_stream split: option.splits if_splits)
  then show ?thesis by (rule quiet)
qed

lemma snapshotting_counts:
  assumes "analysis_batch_items st' = update_where (\<lambda>i. bi_analysis_id i = a \<and> bi_status i = ''dispatched'')
         (\<lambda>i. i\<lparr>bi_status := ''snapshotting'', bi_updated_at := t\<rparr>) (analysis_batch_items st)"
    and "q ''snapshotting'' = q ''dispatched''"
  shows "count_items st' b q = count_items st b q"
  unfolding count_items_def assms(1)
  by (subst count_update_where_same) (use assms(2) in auto)

lemma worker_ok:
  assumes ok: "batches_ok st" and call: "analysis_worker_call d e st = Inr st'"
  shows "batches_ok st'"
  using call
proof (cases rule: worker_effect)
  case quiet
  then show ?thesis using ok by (rule quiet_batches)
next
  case (snapshotting a)
  note counts = snapshotting_counts [OF snapshotting(3)]
  have "batch_row_ok st' = batch_row_ok st"
    by (simp add: batch_row_ok_def fun_eq_iff counts active_status_def)
  then show ?thesis using ok
    by (simp add: batches_ok_def snapshotting(1,3) map_update_where_same)
qed

lemma worker_dispatched:
  assumes once: "dispatched_once st" and call: "analysis_worker_call d e st = Inr st'"
  shows "dispatched_once st'"
  using call
proof (cases rule: worker_effect)
  case quiet
  then show ?thesis using once by (rule quiet_dispatched)
next
  case (snapshotting a)
  then show ?thesis using once
    by (auto simp: dispatched_once_def list_all_iff in_update_where active_status_def)
qed

section \<open>Every reachable state\<close>

lemma quiet_keeps: "quiet st st' \<Longrightarrow> batches_ok st \<Longrightarrow> dispatched_once st \<Longrightarrow> batches_ok st' \<and> dispatched_once st'"
  by (simp add: quiet_batches quiet_dispatched)

lemma step_keeps_batches:
  assumes "pipeline_step st st'" "batches_ok st" "dispatched_once st"
  shows "batches_ok st' \<and> dispatched_once st'"
  using assms(1)
proof cases
  case (create_step d cfg url ref profile tenant user)
  then show ?thesis using assms create_frame(1,2) [OF create_step(1)] batches_ok_cong [of st' st] create_dispatched by auto
next
  case (create_batch_step d cfg items mp tenant user)
  then show ?thesis using assms create_batch_ok create_batch_dispatched by blast
next
  case (cancel_step d a tenant user)
  show ?thesis unfolding cancel_step using cancel_quiet assms(2,3) by (rule quiet_keeps)
next
  case (analysis_worker_step d e)
  then show ?thesis using assms worker_ok worker_dispatched by blast
next
  case (scheduler_step d locked e)
  then show ?thesis using assms scheduler_call_batches_ok scheduler_call_dispatched_once by blast
next
  case (snapshot_started_step d e i started)
  show ?thesis using mark_started_quiet [OF snapshot_started_step] assms(2,3) by (rule quiet_keeps)
next
  case (snapshot_ready_step d e res)
  show ?thesis unfolding snapshot_ready_step using mark_ready_quiet assms(2,3) by (rule quiet_keeps)
next
  case (snapshot_failed_step d e code message)
  show ?thesis using mark_failed_quiet [OF snapshot_failed_step] assms(2,3) by (rule quiet_keeps)
next
  case (session_status_step d g status)
  have "quiet st st'" unfolding session_status_step by (rule quiet_frame) (simp_all add: update_session_status_def)
  then show ?thesis using assms(2,3) by (rule quiet_keeps)
next
  case (start_turn_step d s trigger key t)
  then have "quiet st st'" by (intro quiet_frame) (auto simp: start_turn_def split: if_splits)
  then show ?thesis using assms(2,3) by (rule quiet_keeps)
next
  case (tool_calls_step d r resp latest rqs a g outs msgs ids)
  show ?thesis using tool_calls_quiet [OF tool_calls_step] assms(2,3) by (rule quiet_keeps)
next
  case (final_answer_step e d r resp latest a g out_text pl outs msgs delta)
  show ?thesis unfolding final_answer_step(1) using final_answer_quiet [OF final_answer_step(2)] assms(2,3)
    by (rule quiet_keeps)
next
  case (fail_analysis_step d a g code message)
  show ?thesis unfolding fail_analysis_step using fail_analysis_quiet assms(2,3) by (rule quiet_keeps)
next
  case (agent_event_step e d k)
  show ?thesis unfolding agent_event_step(1) using quiet_add_outbox [OF quiet_refl agent_event_step(2)] assms(2,3)
    by (rule quiet_keeps)
next
  case (stream_event_step d k a g ty pl turn att resp state key)
  show ?thesis unfolding stream_event_step using quiet_stream [OF quiet_refl] assms(2,3) by (rule quiet_keeps)
next
  case (fail_turn_step d t)
  have "quiet st st'" unfolding fail_turn_step by (rule quiet_frame) (simp_all add: frame_simps)
  then show ?thesis using assms(2,3) by (rule quiet_keeps)
next
  case (context_window_step d g t n compaction outs usage strategy)
  have "quiet st st'" unfolding context_window_step by (rule quiet_frame) (simp_all add: frame_simps)
  then show ?thesis using assms(2,3) by (rule quiet_keeps)
next
  case (assembly_step d g t cs refs inp ih th tokens)
  have "quiet st st'" unfolding assembly_step by (rule quiet_frame) (simp_all add: frame_simps)
  then show ?thesis using assms(2,3) by (rule quiet_keeps)
next
  case (claim_tool_step d token i)
  have "quiet st st'" unfolding claim_tool_step by (rule quiet_frame) (simp_all add: frame_simps)
  then show ?thesis using assms(2,3) by (rule quiet_keeps)
next
  case (renew_tool_step d i owner)
  have "quiet st st'" unfolding renew_tool_step by (rule quiet_frame) (simp_all add: renew_tool_call_claim_def)
  then show ?thesis using assms(2,3) by (rule quiet_keeps)
next
  case (release_tool_step i owner)
  have "quiet st st'" unfolding release_tool_step by (rule quiet_frame) (simp_all add: release_tool_call_claim_def)
  then show ?thesis using assms(2,3) by (rule quiet_keeps)
next
  case (finalize_tool_step e d a g i c owner)
  show ?thesis unfolding finalize_tool_step(1) using finalize_quiet [OF finalize_tool_step(2)] assms(2,3)
    by (rule quiet_keeps)
qed

lemma reachable_batches:
  assumes "pipeline_reachable st"
  shows "batches_ok st \<and> dispatched_once st"
  using assms
proof (induction rule: pipeline_reachable.induct)
  case start
  show ?case by (simp add: batches_ok_def dispatched_once_def empty_db_def)
next
  case (step st st')
  then show ?case using step_keeps_batches by blast
qed

section \<open>The status of an analysis\<close>

definition allowed :: "string \<Rightarrow> string \<Rightarrow> bool" where
  "allowed s s' =
     (\<not> terminal s \<and> (s' = s \<or> s' = ''cancelling'' \<or> s' = ''cancelled'' \<or>
        \<not> closed s \<and> s' \<in> {''snapshotting'', ''running'', ''completed'', ''failed''}))"

definition moves :: "db \<Rightarrow> db \<Rightarrow> bool" where
  "moves st st' =
     (\<exists>p f rows. analyses st' = update_where p f (analyses st) @ rows \<and>
        (\<forall>r. p r \<longrightarrow> an_id (f r) = an_id r \<and> allowed (an_status r) (an_status (f r))))"

lemma moves_append: "analyses st' = analyses st @ rows \<Longrightarrow> moves st st'"
  unfolding moves_def by (intro exI [of _ "\<lambda>_. False"] exI [of _ id] exI [of _ rows]) (simp add: update_where_def)

lemma moves_same: "analyses st' = analyses st \<Longrightarrow> moves st st'"
  by (rule moves_append [of _ _ "[]"]) simp

lemma moves_update:
  "analyses st' = update_where p f (analyses st) \<Longrightarrow>
   (\<And>r. p r \<Longrightarrow> an_id (f r) = an_id r \<and> allowed (an_status r) (an_status (f r))) \<Longrightarrow> moves st st'"
  unfolding moves_def by (intro exI [of _ p] exI [of _ f] exI [of _ "[]"]) simp

lemma allowedI:
  "\<not> terminal s \<Longrightarrow> allowed s ''cancelling''" "\<not> terminal s \<Longrightarrow> allowed s ''cancelled''"
  "\<not> closed s \<Longrightarrow> allowed s ''running''" "\<not> closed s \<Longrightarrow> allowed s ''completed''" "\<not> closed s \<Longrightarrow> allowed s ''failed''"
  "allowed ''queued'' ''snapshotting''" "allowed ''snapshotting'' ''snapshotting''"
  using terminal_closed by (auto simp: allowed_def)

lemma schedule_batch_frame [frame_simps]:
  "analyses (schedule_batch d locked b c st) = analyses st"
  "stream_events (schedule_batch d locked b c st) = stream_events st"
  "tool_calls (schedule_batch d locked b c st) = tool_calls st"
  by (cases rule: schedule_batch_cases [of d locked b c st]; simp add: frame_simps)+

lemma scheduler_call_frame:
  assumes "scheduler_call d locked e st = Inr st'"
  shows "analyses st' = analyses st" "stream_events st' = stream_events st"
  using assms by (cases rule: scheduler_call_cases; simp add: frame_simps)+

lemma cancel_moves: "moves st (fst (cancel_analysis d a te us st))"
proof (cases "fetch_analysis_record st a te us")
  case None
  then show ?thesis by (simp add: cancel_analysis_def moves_same)
next
  case (Some r)
  then have "analyses (fst (cancel_analysis d a te us st)) = analyses st \<or>
      analyses (fst (cancel_analysis d a te us st)) = update_where (\<lambda>x. an_id x = a \<and> \<not> terminal (an_status x))
        (\<lambda>x. x\<lparr>an_status := ''cancelling'', an_updated_at := now d\<rparr>) (analyses st)"
    by (simp add: cancel_analysis_def Let_def frame_simps)
  then show ?thesis
    by (elim disjE) (erule moves_same, erule moves_update, simp add: allowedI)
qed

lemma worker_moves:
  assumes "analysis_worker_call d e st = Inr st'"
  shows "moves st st'"
proof (cases "event_type e = ANALYSIS_REQUESTED")
  case True
  with assms have req: "handle_analysis_requested d e st = Inr st'" by (simp add: analysis_worker_call_def)
  then obtain a g where "analysis_id e = Some a" "agent_id e = Some g"
    by (auto simp: handle_analysis_requested_def split: option.splits)
  with req have "analyses st' = analyses st \<or>
      analyses st' = update_where (\<lambda>r. an_id r = a \<and> an_status r = ''queued'')
        (\<lambda>r. r\<lparr>an_status := ''snapshotting'', an_updated_at := now d\<rparr>) (analyses st)"
    by (auto simp: handle_analysis_requested_def Let_def rbind_eq_Inr frame_simps split: if_splits)
  then show ?thesis by (elim disjE) (erule moves_same, erule moves_update, simp add: allowedI)
next
  case False
  with assms have req: "handle_analysis_cancel_requested d e st = Inr st'"
    by (auto simp: analysis_worker_call_def split: if_splits)
  then obtain a where "analysis_id e = Some a"
    by (auto simp: handle_analysis_cancel_requested_def split: option.splits)
  with req have "analyses st' = analyses st \<or>
      analyses st' = update_where (\<lambda>r. an_id r = a \<and> \<not> terminal (an_status r))
        (\<lambda>r. r\<lparr>an_status := ''cancelled'', an_updated_at := now d, an_completed_at := Some (now d)\<rparr>) (analyses st)"
    by (auto simp: handle_analysis_cancel_requested_def add_cancelled_stream_events_def Let_def frame_simps
        split: if_splits option.splits)
  then show ?thesis by (elim disjE) (erule moves_same, erule moves_update, simp add: allowedI)
qed

lemma associate_moves:
  assumes "analyses st1 = analyses st"
  shows "moves st (fst (associate_snapshot d e i st1))"
proof -
  have "analyses (fst (associate_snapshot d e i st1)) = analyses st \<or>
      analyses (fst (associate_snapshot d e i st1)) =
        update_where (\<lambda>r. Some (an_id r) = analysis_id e \<and> \<not> closed (an_status r))
          (\<lambda>r. r\<lparr>an_status := ''running'', an_updated_at := now d\<rparr>) (analyses st)"
    using assms by (simp add: associate_snapshot_def Let_def)
  then show ?thesis by (elim disjE) (erule moves_same, erule moves_update, simp add: allowedI)
qed

lemma moves_emit: "moves st st' \<Longrightarrow> moves st (emit d k ty a g s co ca pl st')"
  by (simp add: moves_def frame_simps)

lemma reuse_moves: "analyses st1 = analyses st \<Longrightarrow> moves st (reuse_existing d e ex st1)"
  using associate_moves [of st1 st d e "sn_id ex"]
  by (auto simp: reuse_existing_def emit_ready_def case_prod_beta intro: moves_emit moves_same split: bool.splits)

lemma mark_ready_moves: "moves st (mark_ready d e res st)"
proof -
  let ?st1 = "fst (insert_snapshot d res st)"
  let ?st2 = "insert_instruction_files (br_snapshot_id res) (br_instructions res)
      (insert_snapshot_files (br_snapshot_id res) (br_files res) ?st1)"
  have "analyses ?st2 = analyses st" "analyses ?st1 = analyses st" by (simp_all add: frame_simps)
  then have "moves st ?st2" "\<And>i. moves st (fst (associate_snapshot d e i ?st2))"
    "\<And>ex. moves st (reuse_existing d e ex ?st1)" "\<And>ex. moves st (reuse_existing d e ex st)"
    by (auto intro: moves_same associate_moves reuse_moves)
  then show ?thesis
    by (auto simp: mark_ready_def emit_ready_def Let_def case_prod_beta intro!: moves_emit split: option.splits bool.splits)
qed

lemma mark_started_moves:
  assumes "mark_started d e i st = Inr (st', started)"
  shows "moves st st'"
proof -
  from assms obtain a g where "analysis_id e = Some a" "agent_id e = Some g"
    by (auto simp: mark_started_def split: option.splits)
  moreover have "moves st (fst (mark_analysis_snapshotting d a g st))"
    unfolding mark_analysis_snapshotting_def Let_def fst_conv by (rule moves_update) (simp, auto simp: allowedI)
  ultimately show ?thesis using assms
    by (auto simp: mark_started_def case_prod_beta intro: moves_same moves_emit split: bool.splits prod.splits)
qed

lemma mark_failed_moves:
  assumes "service_mark_failed d e code msg st = Inr st'"
  shows "moves st st'"
proof -
  from assms obtain a g where ag: "analysis_id e = Some a" "agent_id e = Some g"
    by (auto simp: service_mark_failed_def repository_mark_failed_def rbind_eq_Inr split: option.splits)
  with assms have "analyses st' = analyses st \<or>
     analyses st' = update_where (\<lambda>r. an_id r = a \<and> \<not> closed (an_status r))
       (\<lambda>r. r\<lparr>an_status := ''failed'', an_updated_at := now d, an_completed_at := Some (now d),
          an_error_code := Some code, an_error_message := Some (take 4096 msg)\<rparr>) (analyses st)"
    by (auto simp: service_mark_failed_def repository_mark_failed_def add_stream_error_def Let_def rbind_eq_Inr frame_simps
        split: if_splits)
  then show ?thesis by (elim disjE) (erule moves_same, erule moves_update, simp add: allowedI)
qed

lemma close_moves:
  assumes "s = ''completed'' \<or> s = ''failed''" "\<And>r. an_id (m r) = an_id r \<and> an_status (m r) = an_status r"
    and "analyses st1 = analyses st"
  shows "moves st (fst (close_analysis d s m a g st1))"
proof -
  have "analyses (fst (close_analysis d s m a g st1)) = update_where (\<lambda>r. an_id r = a \<and> \<not> closed (an_status r))
     (\<lambda>r. m (r\<lparr>an_status := s, an_updated_at := now d, an_completed_at := Some (now d)\<rparr>)) (analyses st)"
    using assms(3) by (simp add: frame_simps)
  then show ?thesis by (rule moves_update) (use assms(1,2) in \<open>auto simp: allowedI\<close>)
qed

lemma final_answer_analyses:
  "analyses (fst (complete_turn_with_final_answer d r resp latest a g otext pl e outs msgs delta st)) = analyses st \<or>
   analyses (fst (complete_turn_with_final_answer d r resp latest a g otext pl e outs msgs delta st)) =
     analyses (fst (close_analysis d ''completed'' id a g (complete_turn d r (update_latest_response d latest resp st))))"
  by (auto simp: complete_turn_with_final_answer_def Let_def case_prod_beta frame_simps split: option.splits)

lemma moves_cong: "analyses st1 = analyses st2 \<Longrightarrow> moves st st1 = moves st st2"
  by (simp add: moves_def)

lemma final_answer_moves:
  "moves st (fst (complete_turn_with_final_answer d r resp latest a g otext pl e outs msgs delta st))"
  using final_answer_analyses [of d r resp latest a g otext pl e outs msgs delta st]
proof
  assume "analyses (fst (complete_turn_with_final_answer d r resp latest a g otext pl e outs msgs delta st)) =
     analyses (fst (close_analysis d ''completed'' id a g (complete_turn d r (update_latest_response d latest resp st))))"
  then show ?thesis
    by (subst moves_cong) (assumption, rule close_moves, simp_all add: frame_simps)
qed (rule moves_same)

lemma fail_analysis_moves: "moves st (fst (fail_analysis d a g code msg st))"
proof -
  let ?m = "\<lambda>r :: analysis_row. r\<lparr>an_error_code := Some code, an_error_message := Some (take 4096 msg)\<rparr>"
  have "analyses (fst (fail_analysis d a g code msg st)) = analyses (fst (close_analysis d ''failed'' ?m a g st))"
    by (simp add: fail_analysis_def Let_def case_prod_beta index_frame)
  then show ?thesis by (subst moves_cong) (assumption, rule close_moves, simp_all)
qed

lemma step_moves:
  assumes "pipeline_step st st'"
  shows "moves st st'"
  using assms
proof cases
  case (create_step d cfg url ref profile tenant user)
  then show ?thesis using create_frame(5) moves_append by blast
next
  case (create_batch_step d cfg items mp tenant user)
  from create_batch_step(1) show ?thesis by (cases rule: create_batch_effect) (rule moves_append)
next
  case (scheduler_step d locked e)
  then show ?thesis by (intro moves_same) (rule scheduler_call_frame)
next
  case (start_turn_step d s trigger key t)
  then show ?thesis by (intro moves_same) (auto simp: start_turn_def split: if_splits)
next
  case (tool_calls_step d r resp latest rqs a g outs msgs ids)
  then show ?thesis
    by (intro moves_same) (auto simp: complete_turn_with_tool_calls_def Let_def case_prod_beta frame_simps split: if_splits)
next
  case (finalize_tool_step e d a g i c owner)
  then show ?thesis
    by (intro moves_same) (simp add: finalize_tool_call_def update_terminal_tool_call_def Let_def case_prod_beta frame_simps)
next
  case (session_status_step d g status)
  then show ?thesis by (intro moves_same) (simp add: update_session_status_def)
next
  case (claim_tool_step d token i)
  then show ?thesis by (intro moves_same) (simp add: frame_simps)
next
  case (renew_tool_step d i owner)
  then show ?thesis by (intro moves_same) (simp add: renew_tool_call_claim_def)
next
  case (release_tool_step i owner)
  then show ?thesis by (intro moves_same) (simp add: release_tool_call_claim_def)
next
  case (agent_event_step e d k)
  then show ?thesis by (intro moves_same) (simp add: frame_simps)
next
  case (stream_event_step d k a g ty pl turn att resp state key)
  then show ?thesis by (intro moves_same) (simp add: frame_simps)
next
  case (fail_turn_step d t)
  then show ?thesis by (intro moves_same) (simp add: frame_simps)
next
  case (context_window_step d g t n compaction outs usage strategy)
  then show ?thesis by (intro moves_same) (simp add: frame_simps)
next
  case (assembly_step d g t cs refs inp ih th tokens)
  then show ?thesis by (intro moves_same) (simp add: frame_simps)
qed (simp_all add: cancel_moves worker_moves mark_started_moves mark_ready_moves mark_failed_moves final_answer_moves
      fail_analysis_moves)

lemma moves_row:
  assumes "moves st st'" "r \<in> set (analyses st)"
  shows "\<exists>r' \<in> set (analyses st'). an_id r' = an_id r \<and> (r' = r \<or> allowed (an_status r) (an_status r'))"
proof -
  from assms(1) obtain p f rows where "analyses st' = update_where p f (analyses st) @ rows"
    and pf: "\<And>r. p r \<Longrightarrow> an_id (f r) = an_id r \<and> allowed (an_status r) (an_status (f r))" by (auto simp: moves_def)
  then have "(if p r then f r else r) \<in> set (analyses st')" using assms(2) by (auto simp: in_update_where)
  then show ?thesis by (rule rev_bexI) (use pf in auto)
qed

lemma run_row:
  assumes "pipeline_step\<^sup>*\<^sup>* st st'" "r \<in> set (analyses st)"
  shows "(terminal (an_status r) \<longrightarrow> r \<in> set (analyses st')) \<and>
     (an_status r = ''cancelling'' \<longrightarrow>
       (\<exists>r' \<in> set (analyses st'). an_id r' = an_id r \<and> (an_status r' = ''cancelling'' \<or> an_status r' = ''cancelled'')))"
  using assms(1)
proof (induction rule: rtranclp_induct)
  case base
  then show ?case using assms(2) by auto
next
  case (step st1 st2)
  have m: "moves st1 st2" using step(2) by (rule step_moves)
  have "terminal (an_status r) \<longrightarrow> r \<in> set (analyses st2)"
  proof
    assume fin: "terminal (an_status r)"
    with step(3) have "r \<in> set (analyses st1)" by simp
    from moves_row [OF m this] fin show "r \<in> set (analyses st2)" by (auto simp: allowed_def)
  qed
  moreover have "\<exists>r' \<in> set (analyses st2). an_id r' = an_id r \<and> (an_status r' = ''cancelling'' \<or> an_status r' = ''cancelled'')"
    if "an_status r = ''cancelling''"
  proof -
    from step(3) that obtain r1 where r1: "r1 \<in> set (analyses st1)" "an_id r1 = an_id r"
      "an_status r1 = ''cancelling'' \<or> an_status r1 = ''cancelled''" by blast
    from moves_row [OF m r1(1)] obtain r2 where "r2 \<in> set (analyses st2)" "an_id r2 = an_id r1"
      "r2 = r1 \<or> allowed (an_status r1) (an_status r2)" by blast
    with r1 show ?thesis by (intro bexI [of _ r2]) (auto simp: allowed_def)
  qed
  ultimately show ?case by blast
qed

section \<open>The event stream of an analysis\<close>

definition stream_seqs :: "db \<Rightarrow> uuid \<Rightarrow> int list" where
  "stream_seqs st a = map sr_seq (filter (\<lambda>r. sr_analysis_id r = a) (stream_events st))"

definition streams_ok :: "db \<Rightarrow> bool" where
  "streams_ok st = (\<forall>a. numbered (stream_seqs st a))"

lemma streams_ok_cong: "stream_events st' = stream_events st \<Longrightarrow> streams_ok st \<Longrightarrow> streams_ok st'"
  by (simp add: streams_ok_def stream_seqs_def)

lemma streams_ok_add: "streams_ok st \<Longrightarrow> streams_ok (add_stream_event d k a g ty pl tu att re sta key st)"
  by (auto simp: streams_ok_def stream_seqs_def add_stream_event_def next_stream_seq_def intro: numbered_snoc)

lemma streams_ok_add_outbox: "streams_ok st \<Longrightarrow> streams_ok (add_outbox d k e st)"
  by (simp add: streams_ok_def stream_seqs_def frame_simps)

lemma streams_ok_emit: "streams_ok st \<Longrightarrow> streams_ok (emit d k ty a g s co ca pl st)"
  by (simp add: streams_ok_def stream_seqs_def frame_simps)

lemma streams_ok_messages: "streams_ok st \<Longrightarrow> streams_ok (add_agent_message_stream_events d n a g tu resp pls st)"
  by (induction d n a g tu resp pls st rule: add_agent_message_stream_events.induct) (simp_all add: streams_ok_add)

lemma streams_ok_publish: "streams_ok st \<Longrightarrow> streams_ok (publish_tool_calls d n a g tu resp rqs st)"
proof (induction d n a g tu resp rqs st rule: publish_tool_calls.induct)
  case (2 d n a g turn response_id rq i rqs st)
  have "streams_ok (append_completed_output d (8 * n + 5) g turn (rq_kwargs rq) st)"
    by (rule streams_ok_cong [OF _ 2(2)]) (simp add: frame_simps)
  then show ?case by (simp add: 2(1) streams_ok_add streams_ok_add_outbox)
qed simp

lemma cancel_streams: "streams_ok st \<Longrightarrow> streams_ok (fst (cancel_analysis d a te us st))"
  by (erule streams_ok_cong [rotated]) (simp add: cancel_analysis_def Let_def frame_simps split: option.splits)

lemma worker_streams:
  assumes "streams_ok st" "analysis_worker_call d e st = Inr st'"
  shows "streams_ok st'"
proof (cases "event_type e = ANALYSIS_REQUESTED")
  case True
  with assms(2) have "stream_events st' = stream_events st"
    by (auto simp: analysis_worker_call_def handle_analysis_requested_def Let_def rbind_eq_Inr frame_simps
        split: option.splits if_splits)
  then show ?thesis using assms(1) by (rule streams_ok_cong)
next
  case False
  have "streams_ok (cancel_tool_calls d g (cancel_sessions d a (st\<lparr>analyses := rows\<rparr>)))" for g a rows
    by (rule streams_ok_cong [OF _ assms(1)]) (simp add: frame_simps)
  with False assms show ?thesis
    by (auto simp: analysis_worker_call_def handle_analysis_cancel_requested_def add_cancelled_stream_events_def Let_def
        intro!: streams_ok_emit streams_ok_add split: option.splits if_splits)
qed

lemma mark_failed_streams:
  assumes "streams_ok st" "service_mark_failed d e code msg st = Inr st'"
  shows "streams_ok st'"
proof -
  have "streams_ok (st\<lparr>analyses := rows, agent_sessions := sessions\<rparr>)" for rows sessions
    by (rule streams_ok_cong [OF _ assms(1)]) simp
  then show ?thesis using assms
    by (auto simp: service_mark_failed_def repository_mark_failed_def add_stream_error_def Let_def rbind_eq_Inr
        intro!: streams_ok_emit streams_ok_add split: option.splits if_splits)
qed

lemma reuse_stream_events [frame_simps]: "stream_events (reuse_existing d e ex st) = stream_events st"
  by (simp add: reuse_existing_def emit_ready_def case_prod_beta frame_simps split: bool.splits)

lemma mark_ready_stream_events: "stream_events (mark_ready d e res st) = stream_events st"
  by (simp add: mark_ready_def emit_ready_def Let_def case_prod_beta frame_simps split: option.splits bool.splits)

lemma mark_started_stream_events: "mark_started d e i st = Inr (st', started) \<Longrightarrow> stream_events st' = stream_events st"
  by (auto simp: mark_started_def mark_analysis_snapshotting_def Let_def frame_simps split: option.splits bool.splits)

lemma tool_calls_streams:
  assumes "streams_ok st" "complete_turn_with_tool_calls d r resp latest rqs a g outs msgs st = Inr (st', ids)"
  shows "streams_ok st'"
proof -
  let ?st2 = "fst (create_tool_calls d 0 rqs (complete_turn d r (update_latest_response d latest resp st)))"
  have "streams_ok (append_model_output_items d 0 g (Some (tr_turn_id r)) resp outs ?st2)"
    "streams_ok (append_function_calls d 0 g (tr_turn_id r) resp rqs ?st2)"
    by (rule streams_ok_cong [OF _ assms(1)]; simp add: frame_simps)+
  then show ?thesis using assms(2)
    by (auto simp: complete_turn_with_tool_calls_def Let_def case_prod_beta
        intro!: streams_ok_publish streams_ok_messages split: if_splits)
qed

lemma final_answer_streams:
  assumes "streams_ok st"
  shows "streams_ok (fst (complete_turn_with_final_answer d r resp latest a g otext pl e outs msgs delta st))"
proof -
  let ?st2 = "fst (close_analysis d ''completed'' id a g (complete_turn d r (update_latest_response d latest resp st)))"
  let ?st3 = "mark_repository_index_completed d a ?st2"
  have "streams_ok ?st2" "streams_ok ?st3"
    "streams_ok (append_model_output_items d 0 g (Some (tr_turn_id r)) resp outs ?st3)"
    "\<And>tu pl k. streams_ok (append_context_item d 3 g tu ''assistant_output'' pl (Some resp) ''model'' k ?st3)"
    by (rule streams_ok_cong [OF _ assms]; simp add: frame_simps)+
  then show ?thesis using assms
    by (auto simp: complete_turn_with_final_answer_def Let_def case_prod_beta
        intro!: streams_ok_add_outbox streams_ok_add streams_ok_messages split: option.splits)
qed

lemma finalize_streams:
  assumes "streams_ok st"
  shows "streams_ok (fst (finalize_tool_call d a g i c owner e st))"
proof -
  have "streams_ok (append_tool_result_context_item d 0 g i res (fst (update_terminal_tool_call d i c owner st)))" for res
    by (rule streams_ok_cong [OF _ assms]) (simp add: frame_simps update_terminal_tool_call_def)
  then show ?thesis using assms
    by (auto simp: finalize_tool_call_def Let_def case_prod_beta intro!: streams_ok_add_outbox streams_ok_add)
qed

lemma step_streams:
  assumes "pipeline_step st st'" "streams_ok st"
  shows "streams_ok st'"
  using assms(1)
proof cases
  case (create_step d cfg url ref profile tenant user)
  show ?thesis by (rule streams_ok_cong [OF create_frame(4) [OF create_step(1)] assms(2)])
next
  case (create_batch_step d cfg items mp tenant user)
  from create_batch_step(1) show ?thesis by (cases rule: create_batch_effect) (rule streams_ok_cong [OF _ assms(2)])
next
  case (scheduler_step d locked e)
  show ?thesis by (rule streams_ok_cong [OF scheduler_call_frame(2) [OF scheduler_step] assms(2)])
next
  case (snapshot_started_step d e i started)
  show ?thesis by (rule streams_ok_cong [OF mark_started_stream_events [OF snapshot_started_step] assms(2)])
next
  case (snapshot_ready_step d e res)
  show ?thesis unfolding snapshot_ready_step by (rule streams_ok_cong [OF mark_ready_stream_events assms(2)])
next
  case (session_status_step d g status)
  show ?thesis by (rule streams_ok_cong [OF _ assms(2)]) (simp add: session_status_step update_session_status_def)
next
  case (start_turn_step d s trigger key t)
  then show ?thesis by (intro streams_ok_cong [OF _ assms(2)]) (auto simp: start_turn_def split: if_splits)
next
  case (fail_analysis_step d a g code message)
  show ?thesis
    by (rule streams_ok_cong [OF _ assms(2)]) (simp add: fail_analysis_step fail_analysis_def Let_def case_prod_beta frame_simps)
next
  case (claim_tool_step d token i)
  show ?thesis by (rule streams_ok_cong [OF _ assms(2)]) (simp add: claim_tool_step frame_simps)
next
  case (renew_tool_step d i owner)
  show ?thesis by (rule streams_ok_cong [OF _ assms(2)]) (simp add: renew_tool_step renew_tool_call_claim_def)
next
  case (release_tool_step i owner)
  show ?thesis by (rule streams_ok_cong [OF _ assms(2)]) (simp add: release_tool_step release_tool_call_claim_def)
next
  case (cancel_step d a tenant user)
  show ?thesis unfolding cancel_step using assms(2) by (rule cancel_streams)
next
  case (analysis_worker_step d e)
  show ?thesis using assms(2) analysis_worker_step by (rule worker_streams)
next
  case (snapshot_failed_step d e code message)
  show ?thesis using assms(2) snapshot_failed_step by (rule mark_failed_streams)
next
  case (tool_calls_step d r resp latest rqs a g outs msgs ids)
  show ?thesis using assms(2) tool_calls_step(1) by (rule tool_calls_streams)
next
  case (final_answer_step e d r resp latest a g otext pl outs msgs delta)
  show ?thesis unfolding final_answer_step(1) using assms(2) by (rule final_answer_streams)
next
  case (agent_event_step e d k)
  show ?thesis unfolding agent_event_step(1) using assms(2) by (rule streams_ok_add_outbox)
next
  case (stream_event_step d k a g ty pl turn att resp state key)
  show ?thesis unfolding stream_event_step using assms(2) by (rule streams_ok_add)
next
  case (fail_turn_step d t)
  show ?thesis by (rule streams_ok_cong [OF _ assms(2)]) (simp add: fail_turn_step frame_simps)
next
  case (context_window_step d g t n compaction outs usage strategy)
  show ?thesis by (rule streams_ok_cong [OF _ assms(2)]) (simp add: context_window_step frame_simps)
next
  case (assembly_step d g t cs refs inp ih th tokens)
  show ?thesis by (rule streams_ok_cong [OF _ assms(2)]) (simp add: assembly_step frame_simps)
next
  case (finalize_tool_step e d a g i c owner)
  show ?thesis unfolding finalize_tool_step(1) using assms(2) by (rule finalize_streams)
qed

lemma reachable_streams:
  assumes "pipeline_reachable st"
  shows "streams_ok st"
  using assms
proof (induction rule: pipeline_reachable.induct)
  case start
  show ?case by (simp add: streams_ok_def stream_seqs_def empty_db_def)
next
  case (step st st')
  then show ?case using step_streams by blast
qed

section \<open>A failed snapshot\<close>

lemma mark_failed_effect:
  assumes "service_mark_failed d e code message st = Inr st'" "analysis_id e = Some a"
    and "any_row (\<lambda>r. an_id r = a \<and> \<not> closed (an_status r)) (analyses st)"
  shows "\<exists>ev. emitted st' = emitted st @ [ev] \<and> event_type ev = SNAPSHOT_FAILED \<and> analysis_id ev = Some a"
    and "analyses st' = update_where (\<lambda>r. an_id r = a \<and> \<not> closed (an_status r))
       (\<lambda>r. r\<lparr>an_status := ''failed'', an_updated_at := now d, an_completed_at := Some (now d),
          an_error_code := Some code, an_error_message := Some (take 4096 message)\<rparr>) (analyses st)"
    and "analysis_batch_items st' = analysis_batch_items st"
proof -
  from assms(1,2) obtain g where g: "agent_id e = Some g"
    by (auto simp: service_mark_failed_def repository_mark_failed_def rbind_eq_Inr split: option.splits)
  show "\<exists>ev. emitted st' = emitted st @ [ev] \<and> event_type ev = SNAPSHOT_FAILED \<and> analysis_id ev = Some a"
    using assms g by (auto simp: service_mark_failed_def repository_mark_failed_def add_stream_error_def Let_def
        rbind_eq_Inr frame_simps envelope_new_def) (simp add: emitted_def)
  show "analyses st' = update_where (\<lambda>r. an_id r = a \<and> \<not> closed (an_status r))
       (\<lambda>r. r\<lparr>an_status := ''failed'', an_updated_at := now d, an_completed_at := Some (now d),
          an_error_code := Some code, an_error_message := Some (take 4096 message)\<rparr>) (analyses st)"
    "analysis_batch_items st' = analysis_batch_items st"
    using assms g by (auto simp: service_mark_failed_def repository_mark_failed_def add_stream_error_def Let_def
        rbind_eq_Inr frame_simps)
qed

lemma closed_analysis_ignored:
  assumes "\<And>r. r \<in> set (analyses st) \<Longrightarrow> an_id r = a \<Longrightarrow> terminal (an_status r)"
  shows "fst (cancel_analysis d a te us st) = st"
    and "analysis_id e = Some a \<Longrightarrow> analysis_worker_call d e st = Inr st' \<Longrightarrow> st' = st"
proof -
  have "\<not> any_row (\<lambda>x. an_id x = a \<and> \<not> terminal (an_status x)) (analyses st)"
    using assms by (auto simp: list_ex_iff)
  then show "fst (cancel_analysis d a te us st) = st"
    by (simp add: cancel_analysis_def split: option.splits)
next
  assume e: "analysis_id e = Some a" "analysis_worker_call d e st = Inr st'"
  have "\<not> any_row (\<lambda>x. an_id x = a \<and> \<not> terminal (an_status x)) (analyses st)"
    "\<not> any_row (\<lambda>x. an_id x = a \<and> an_status x = ''queued'') (analyses st)"
    using assms by (force simp: list_ex_iff)+
  with e show "st' = st"
    by (auto simp: analysis_worker_call_def handle_analysis_requested_def handle_analysis_cancel_requested_def
        split: option.splits if_splits)
qed

section \<open>A small batch\<close>

text \<open>A batch of two repositories with one slot, as submitted and as the scheduler first leaves it.\<close>

definition sample_draws :: "nat \<Rightarrow> draws" where
  "sample_draws n = \<lparr>now = int n, now_iso = ''2026-01-01T00:00:00+00:00'', new_id = (\<lambda>k. of_nat (n + k))\<rparr>"

definition sample_service :: service_config where
  "sample_service = \<lparr>sc_version = ''v1'', sc_config_json = JObj [], sc_content_hash = ''h'',
     sc_profile = \<lparr>pr_goal_file = ''goal.md'', pr_max_turns = 10, pr_max_tool_calls = 20, pr_auto_compact_threshold = 1000\<rparr>,
     sc_openai = \<lparr>oa_model = ''m'', oa_reasoning_effort = JNull, oa_reasoning_summary = JNull,
       oa_show_reasoning_summary = JBool False, oa_service_tier = JNull, oa_parallel_tool_calls = JBool True,
       oa_use_previous_response_id = JBool False, oa_prompt_cache_retention = JNull, oa_transport = JStr ''http''\<rparr>,
     sc_tool_registry_version = ''t1''\<rparr>"

definition sample_batch_items :: "batch_create_item list" where
  "sample_batch_items =
     [\<lparr>bc_repository_url = ''https://example.org/a'', bc_requested_ref = ''main'', bc_profile_id = None\<rparr>,
      \<lparr>bc_repository_url = ''https://example.org/b'', bc_requested_ref = ''main'', bc_profile_id = None\<rparr>]"

definition submitted_db :: db where
  "submitted_db = (case create_batch (sample_draws 0) sample_service sample_batch_items 1 (Some 900) (Some 901) empty_db of
     Inl _ \<Rightarrow> empty_db | Inr st \<Rightarrow> st)"

definition scheduled_db :: db where
  "scheduled_db = schedule_batch (sample_draws 100) (\<lambda>_. False) 0 None submitted_db"

lemma sample_urls:
  "canonicalize_repository_url ''https://example.org/a'' = Some \<lparr>cr_url = ''https://example.org/a'', cr_host = ''example.org'',
     cr_owner = None, cr_name = None, cr_label = ''https://example.org/a'', cr_search_text = ''https://example.org/a example.org a''\<rparr>"
  "canonicalize_repository_url ''https://example.org/b'' = Some \<lparr>cr_url = ''https://example.org/b'', cr_host = ''example.org'',
     cr_owner = None, cr_name = None, cr_label = ''https://example.org/b'', cr_search_text = ''https://example.org/b example.org b''\<rparr>"
  by code_simp+

lemma new_ids_inj: "n + m < 2 ^ 64 \<Longrightarrow> inj_on (new_id (sample_draws n)) {..<m}"
proof (rule inj_onI)
  fix x y assume b: "n + m < 2 ^ 64" "x \<in> {..<m}" "y \<in> {..<m}" and eq: "new_id (sample_draws n) x = new_id (sample_draws n) y"
  then have "(of_nat (n + x) :: uuid) = of_nat (n + y)" by (simp add: sample_draws_def)
  moreover have "n + x < 2 ^ LENGTH(128)" "n + y < 2 ^ LENGTH(128)"
    using b by (auto intro: less_trans [of _ "2 ^ 64"])
  ultimately show "x = y" by (simp add: word_of_nat_eq_iff take_bit_nat_eq_self)
qed

lemma submitted_create:
  "create_batch (sample_draws 0) sample_service sample_batch_items 1 (Some 900) (Some 901) empty_db = Inr submitted_db"
  by (simp add: submitted_db_def create_batch_def sample_batch_items_def insert_batch_analysis_def sample_urls Let_def)

lemma submitted_reachable: "pipeline_reachable submitted_db"
proof (rule pipeline_reachable.step [OF pipeline_reachable.start])
  have "fresh_for (sample_draws 0) (4 + 5 * length sample_batch_items) empty_db"
    unfolding fresh_for_def by (intro conjI new_ids_inj) (simp_all add: sample_batch_items_def empty_db_def emitted_def)
  with submitted_create show "pipeline_step empty_db submitted_db" by (rule create_batch_step) simp
qed

lemma submitted_batch: "\<exists>r \<in> set (analysis_batches submitted_db). ba_id r = 0 \<and> ba_pending_count r = 2"
  using submitted_create by (cases rule: create_batch_effect) (auto simp: sample_draws_def sample_batch_items_def)

lemma submitted_items:
  "analysis_batch_items submitted_db =
     [\<lparr>bi_id = 6, bi_batch_id = 0, bi_analysis_id = 4, bi_agent_id = 5, bi_repository_url = ''https://example.org/a'',
       bi_repository_url_hash = sha256_text ''https://example.org/a'', bi_requested_ref = ''main'', bi_profile_id = None,
       bi_config_snapshot_id = 7, bi_status = ''pending'', bi_sort_order = 0, bi_dispatch_owner = None,
       bi_dispatched_at = None, bi_completed_at = None, bi_error_code = None, bi_error_message = None,
       bi_created_at = 0, bi_updated_at = 0\<rparr>,
      \<lparr>bi_id = 11, bi_batch_id = 0, bi_analysis_id = 9, bi_agent_id = 10, bi_repository_url = ''https://example.org/b'',
       bi_repository_url_hash = sha256_text ''https://example.org/b'', bi_requested_ref = ''main'', bi_profile_id = None,
       bi_config_snapshot_id = 12, bi_status = ''pending'', bi_sort_order = 1, bi_dispatch_owner = None,
       bi_dispatched_at = None, bi_completed_at = None, bi_error_code = None, bi_error_message = None,
       bi_created_at = 0, bi_updated_at = 0\<rparr>]"
  by (simp add: submitted_db_def create_batch_def sample_batch_items_def insert_batch_analysis_def sample_urls Let_def
      frame_simps empty_db_def sample_draws_def)

lemma submitted_analyses:
  "map an_id (analyses submitted_db) = [4, 9]" "map an_status (analyses submitted_db) = [''queued'', ''queued'']"
  by (simp_all add: submitted_db_def create_batch_def sample_batch_items_def insert_batch_analysis_def sample_urls Let_def
      frame_simps empty_db_def sample_draws_def insert_analysis_def)

section \<open>Guarantees of the pipeline\<close>

text \<open>
  C1: In every state the pipeline can reach, the five counters stored on a batch are the numbers of its items
  in each state, no more than \<open>max_parallel\<close> of its analyses are active, and a batch is finished only when
  none of its items is pending or active.
\<close>
theorem batch_counts_and_parallelism:
  assumes "pipeline_reachable st" "r \<in> set (analysis_batches st)"
  shows "ba_pending_count r = count_items st (ba_id r) (\<lambda>s. s = ''pending'') \<and>
    ba_active_count r = count_items st (ba_id r) active_status \<and>
    ba_completed_count r = count_items st (ba_id r) (\<lambda>s. s = ''completed'') \<and>
    ba_failed_count r = count_items st (ba_id r) (\<lambda>s. s = ''failed'') \<and>
    ba_cancelled_count r = count_items st (ba_id r) (\<lambda>s. s = ''cancelled'') \<and>
    count_items st (ba_id r) active_status \<le> ba_max_parallel r \<and>
    (terminal (ba_status r) \<longrightarrow> (\<forall>i \<in> set (analysis_batch_items st). bi_batch_id i = ba_id r \<longrightarrow>
       bi_status i \<noteq> ''pending'' \<and> \<not> active_status (bi_status i)))"
proof -
  have "batch_row_ok st r" using reachable_batches [OF assms(1)] assms(2) batches_okD by blast
  note ok = this [unfolded batch_row_ok_def]
  have "\<forall>i \<in> set (analysis_batch_items st). bi_batch_id i = ba_id r \<longrightarrow>
       bi_status i \<noteq> ''pending'' \<and> \<not> active_status (bi_status i)" if "terminal (ba_status r)"
  proof -
    from ok that have "count_items st (ba_id r) (\<lambda>s. s = ''pending'') = 0" "count_items st (ba_id r) active_status = 0"
      by simp_all
    then show ?thesis by (auto simp: count_items_def filter_empty_conv)
  qed
  with ok show ?thesis by simp
qed

theorem batch_counts_and_parallelism_witness:
  "\<exists>r \<in> set (analysis_batches submitted_db). ba_id r = 0 \<and> count_items submitted_db 0 (\<lambda>s. s = ''pending'') = 2 \<and>
     count_items submitted_db 0 active_status \<le> ba_max_parallel r"
proof -
  from submitted_batch obtain r where r: "r \<in> set (analysis_batches submitted_db)" "ba_id r = 0" "ba_pending_count r = 2" by blast
  show ?thesis using batch_counts_and_parallelism [OF submitted_reachable r(1)] r by (intro bexI [of _ r]) auto
qed

text \<open>
  C2: The analysis of a batch item is requested at most once whatever order the events arrive in, however often
  they are redelivered: never while the item is pending, and exactly once when it is active.
\<close>
theorem batch_items_requested_once:
  assumes "pipeline_reachable st" "i \<in> set (analysis_batch_items st)"
    and "n = length (filter (\<lambda>e. event_type e = ANALYSIS_REQUESTED \<and> analysis_id e = Some (bi_analysis_id i)) (emitted st))"
  shows "n \<le> 1 \<and> (bi_status i = ''pending'' \<longrightarrow> n = 0) \<and> (active_status (bi_status i) \<longrightarrow> n = 1)"
  using reachable_batches [OF assms(1)] assms(2,3) by (auto simp: dispatched_once_def list_all_iff requests_def)

theorem batch_items_requested_once_witness:
  "length (filter (\<lambda>e. event_type e = ANALYSIS_REQUESTED \<and> analysis_id e = Some 4) (emitted submitted_db)) = 0"
  using batch_items_requested_once [OF submitted_reachable, of "hd (analysis_batch_items submitted_db)"]
  by (simp add: submitted_items)

text \<open>
  C8: When the scheduler is told about a batch, and no other transaction holds its items, it leaves the batch
  with no pending item or with every slot in use.
\<close>
theorem scheduler_fills_slots:
  assumes "pipeline_reachable st" "scheduler_call d (\<lambda>_. False) e st = Inr st'"
    and "event_type e = ANALYSIS_BATCH_SUBMITTED \<or> event_type e = ANALYSIS_BATCH_SLOT_AVAILABLE"
    and "batch_id_from_payload e = Inr b"
    and "r \<in> set (analysis_batches st')" "ba_id r = b"
  shows "ba_pending_count r = 0 \<or> ba_active_count r = ba_max_parallel r"
proof -
  have "st' = schedule_batch d (\<lambda>_. False) b None st" using assms(2-4) by (auto simp: scheduler_call_def)
  then show ?thesis using reachable_batches [OF assms(1)] assms(5,6) schedule_fills_slots by blast
qed

definition pipeline_event :: "event_type \<Rightarrow> uuid option \<Rightarrow> payload \<Rightarrow> envelope" where
  "pipeline_event ty a pl = envelope_new 700 701 ''2026-01-01T00:00:00+00:00'' ty a (Some 5) None None None (Some pl)"

lemma sample_submitted_call:
  "scheduler_call (sample_draws 100) (\<lambda>_. False)
     (pipeline_event ANALYSIS_BATCH_SUBMITTED None [(''batch_id'', JStr (uuid_str 0))]) submitted_db = Inr scheduled_db"
  by (simp add: scheduler_call_def scheduled_db_def pipeline_event_def envelope_new_def batch_id_from_payload_def obj_get_def)

lemma submitted_batches:
  "analysis_batches submitted_db =
     [\<lparr>ba_id = 0, ba_tenant_id = 900, ba_created_by = 901, ba_status = ''queued'', ba_max_parallel = 1,
       ba_total_count = 2, ba_pending_count = 2, ba_active_count = 0, ba_completed_count = 0, ba_failed_count = 0,
       ba_cancelled_count = 0, ba_created_at = 0, ba_updated_at = 0, ba_completed_at = None\<rparr>]"
  by (simp add: submitted_db_def create_batch_def sample_batch_items_def insert_batch_analysis_def sample_urls Let_def
      frame_simps empty_db_def sample_draws_def)

lemma sample_scheduled_batch:
  "\<exists>r \<in> set (analysis_batches scheduled_db). ba_id r = 0 \<and> ba_pending_count r = 1"
  by (simp add: scheduled_db_def schedule_batch_def lock_batch_def submitted_batches terminal_def claim_pending_items_def
      claimable_items_def submitted_items Let_def frame_simps refresh_batch_counts_def update_where_def
      refreshed_batch_def count_items_def dispatch_item_def active_status_def)

theorem scheduler_fills_slots_witness:
  "\<exists>r \<in> set (analysis_batches scheduled_db). ba_id r = 0 \<and> ba_pending_count r = 1 \<and> ba_active_count r = ba_max_parallel r"
proof -
  let ?e = "pipeline_event ANALYSIS_BATCH_SUBMITTED None [(''batch_id'', JStr (uuid_str 0))]"
  obtain r where r: "r \<in> set (analysis_batches scheduled_db)" "ba_id r = 0" "ba_pending_count r = 1"
    using sample_scheduled_batch by blast
  have "batch_id_from_payload ?e = Inr 0" "event_type ?e = ANALYSIS_BATCH_SUBMITTED"
    by (simp_all add: pipeline_event_def envelope_new_def batch_id_from_payload_def obj_get_def)
  then have "ba_pending_count r = 0 \<or> ba_active_count r = ba_max_parallel r"
    using scheduler_fills_slots [OF submitted_reachable sample_submitted_call _ _ r(1), of 0] r by auto
  then show ?thesis using r by auto
qed

lemma claim_items:
  assumes "distinct (map bi_id (analysis_batch_items st))"
  shows "\<exists>p. analysis_batch_items (fst (claim_pending_items d locked b n st)) = update_where p (dispatch_item d) (analysis_batch_items st) \<and>
     (\<forall>i \<in> set (analysis_batch_items st). p i \<longrightarrow> bi_status i = ''pending'')"
  using claimed_is_pending [OF assms]
  by (intro exI [of _ "\<lambda>i. bi_id i \<in> set (map bi_id (claimable_items locked b n st))"])
    (auto simp: claim_pending_items_def Let_def)

lemma schedule_items:
  assumes "batches_ok st"
  shows "\<exists>p. analysis_batch_items (schedule_batch d locked b c st) = update_where p (dispatch_item d) (analysis_batch_items st) \<and>
     (\<forall>i \<in> set (analysis_batch_items st). p i \<longrightarrow> bi_status i = ''pending'')"
proof (cases rule: schedule_batch_cases [of d locked b c st])
  case (claim r n)
  have "distinct (map bi_id (analysis_batch_items st))" using assms by (simp add: batches_ok_def)
  from claim_items [OF this, of d locked b n] show ?thesis unfolding claim(5) by (simp add: frame_simps)
qed (intro exI [of _ "\<lambda>_. False"], simp add: update_where_def frame_simps)+

lemma open_item_found:
  assumes "batches_ok st" "i \<in> set (analysis_batch_items st)" "\<not> terminal (bi_status i)"
  shows "find (\<lambda>j. bi_analysis_id j = bi_analysis_id i \<and> \<not> terminal (bi_status j)) (analysis_batch_items st) = Some i"
    (is "find ?p _ = _")
proof (cases "find ?p (analysis_batch_items st)")
  case None
  with assms(2,3) show ?thesis by (auto simp: find_None_iff)
next
  case (Some j)
  then have "j \<in> set (analysis_batch_items st)" "bi_analysis_id j = bi_analysis_id i" by (auto simp: find_Some_iff)
  with assms have "j = i" by (auto simp: batches_ok_def distinct_map dest: inj_onD)
  with Some show ?thesis by simp
qed

lemma terminal_event_call:
  assumes "TERMINAL_EVENT_STATUSES (event_type e) = Some s"
  shows "scheduler_call d locked e st = handle_terminal_analysis_event d locked e s st"
proof -
  have "event_type e \<notin> {ANALYSIS_BATCH_SUBMITTED, ANALYSIS_BATCH_SLOT_AVAILABLE}"
    using assms by (auto simp: TERMINAL_EVENT_STATUSES_def split: if_splits)
  with assms show ?thesis by (simp add: scheduler_call_def)
qed

lemma terminal_event_closes:
  fixes i :: batch_item_row and d :: draws and e :: envelope and s :: string and st :: db
  assumes ok: "batches_ok st" and fin: "terminal s" and i: "i \<in> set (analysis_batch_items st)" "\<not> terminal (bi_status i)"
  defines "st1 \<equiv> refresh_batch_counts d (bi_batch_id i) (st\<lparr>analysis_batch_items :=
      update_where (\<lambda>j. bi_analysis_id j = bi_analysis_id i \<and> \<not> terminal (bi_status j)) (finish_item d s e) (analysis_batch_items st)\<rparr>)"
  shows "batches_ok st1"
    and "finish_item d s e i \<in> set (analysis_batch_items (schedule_batch d locked b c st1))"
    and "find (\<lambda>j. bi_analysis_id j = bi_analysis_id i \<and> \<not> terminal (bi_status j))
      (analysis_batch_items (schedule_batch d locked b c st1)) = None"
proof -
  show ok1: "batches_ok st1" unfolding st1_def using finish_then_refresh_ok [OF ok fin open_item_found [OF ok i]] .
  obtain q where q: "analysis_batch_items (schedule_batch d locked b c st1) = update_where q (dispatch_item d) (analysis_batch_items st1)"
      "\<And>j. j \<in> set (analysis_batch_items st1) \<Longrightarrow> q j \<Longrightarrow> bi_status j = ''pending''"
    using schedule_items [OF ok1, of d locked b c] by blast
  have mine: "terminal (bi_status j)" if "j \<in> set (analysis_batch_items st1)" "bi_analysis_id j = bi_analysis_id i" for j
    using that fin by (auto simp: st1_def frame_simps in_update_where)
  have "terminal (bi_status j)" if j: "j \<in> set (analysis_batch_items (schedule_batch d locked b c st1))" "bi_analysis_id j = bi_analysis_id i" for j
  proof -
    from j(1) obtain k where k: "k \<in> set (analysis_batch_items st1)" "j = (if q k then dispatch_item d k else k)"
      unfolding q(1) by (auto simp: in_update_where)
    with j(2) have "terminal (bi_status k)" using mine by (auto split: if_splits)
    then have "\<not> q k" using q(2) k(1) terminal_not_counted(2) by blast
    with k \<open>terminal (bi_status k)\<close> show ?thesis by simp
  qed
  then show "find (\<lambda>j. bi_analysis_id j = bi_analysis_id i \<and> \<not> terminal (bi_status j))
      (analysis_batch_items (schedule_batch d locked b c st1)) = None" by (auto simp: find_None_iff)
  have in1: "finish_item d s e i \<in> set (analysis_batch_items st1)" using i by (auto simp: st1_def frame_simps in_update_where)
  then have "\<not> q (finish_item d s e i)" using q(2) terminal_not_counted(2) [OF fin] by force
  with in1 show "finish_item d s e i \<in> set (analysis_batch_items (schedule_batch d locked b c st1))"
    unfolding q(1) by (auto simp: in_update_where)
qed

text \<open>
  C7: The end of one analysis of a batch is recorded once and frees its slot: the item takes the reported
  state; when no other transaction holds the batch's items, the scheduler hands the slot on; and a second
  delivery of the event changes nothing.
\<close>
theorem terminal_event_releases_slot:
  assumes "pipeline_reachable st" "TERMINAL_EVENT_STATUSES (event_type e) = Some s" "analysis_id e = Some (bi_analysis_id i)"
    and "i \<in> set (analysis_batch_items st)" "\<not> terminal (bi_status i)"
  shows "\<exists>st'. scheduler_call d (\<lambda>_. False) e st = Inr st' \<and>
    (\<exists>j \<in> set (analysis_batch_items st'). bi_id j = bi_id i \<and> bi_status j = s) \<and>
    (\<forall>r \<in> set (analysis_batches st'). ba_id r = bi_batch_id i \<longrightarrow>
       ba_pending_count r = 0 \<or> ba_active_count r = ba_max_parallel r) \<and>
    (\<forall>d' locked. scheduler_call d' locked e st' = Inr st')"
proof -
  let ?st1 = "refresh_batch_counts d (bi_batch_id i) (st\<lparr>analysis_batch_items :=
      update_where (\<lambda>j. bi_analysis_id j = bi_analysis_id i \<and> \<not> terminal (bi_status j)) (finish_item d s e) (analysis_batch_items st)\<rparr>)"
  let ?st' = "schedule_batch d (\<lambda>_. False) (bi_batch_id i) (Some (event_id e)) ?st1"
  have ok: "batches_ok st" using reachable_batches [OF assms(1)] by simp
  have fin: "terminal s" using assms(2) by (rule TERMINAL_EVENT_STATUSES_terminal)
  note closes = terminal_event_closes [OF ok fin assms(4,5), where d = d and e = e]
  show ?thesis
  proof (intro exI [of _ ?st'] conjI)
    show "scheduler_call d (\<lambda>_. False) e st = Inr ?st'"
      unfolding terminal_event_call [OF assms(2)] handle_terminal_analysis_event_def assms(3)
      by (simp add: open_item_found [OF ok assms(4,5)] Let_def)
    show "\<forall>d' locked. scheduler_call d' locked e ?st' = Inr ?st'"
      unfolding terminal_event_call [OF assms(2)] handle_terminal_analysis_event_def assms(3)
      using closes(3) by (simp add: Let_def)
    show "\<exists>j \<in> set (analysis_batch_items ?st'). bi_id j = bi_id i \<and> bi_status j = s"
      by (rule bexI [OF _ closes(2)]) simp
    show "\<forall>r \<in> set (analysis_batches ?st'). ba_id r = bi_batch_id i \<longrightarrow>
       ba_pending_count r = 0 \<or> ba_active_count r = ba_max_parallel r"
      using schedule_fills_slots [OF closes(1)] by blast
  qed
qed

theorem terminal_event_releases_slot_witness:
  "\<exists>st'. scheduler_call (sample_draws 100) (\<lambda>_. False) (pipeline_event ANALYSIS_CANCELLED (Some 4) []) submitted_db = Inr st' \<and>
     (\<exists>j \<in> set (analysis_batch_items st'). bi_id j = 6 \<and> bi_status j = ''cancelled'')"
proof -
  let ?i = "hd (analysis_batch_items submitted_db)"
  let ?e = "pipeline_event ANALYSIS_CANCELLED (Some 4) []"
  have "TERMINAL_EVENT_STATUSES (event_type ?e) = Some ''cancelled''" "analysis_id ?e = Some (bi_analysis_id ?i)"
    "?i \<in> set (analysis_batch_items submitted_db)" "\<not> terminal (bi_status ?i)" and "bi_id ?i = 6"
    by (simp_all add: submitted_items pipeline_event_def envelope_new_def TERMINAL_EVENT_STATUSES_def terminal_def)
  then show ?thesis using terminal_event_releases_slot [OF submitted_reachable, of ?e "''cancelled''" ?i "sample_draws 100"]
    by metis
qed

text \<open>
  C4: Across any run of the pipeline the record of an analysis that has completed, failed or been cancelled is
  never written again, and one that is being cancelled can only become cancelled.
\<close>
theorem analysis_end_is_final:
  assumes "pipeline_step\<^sup>*\<^sup>* st st'" "r \<in> set (analyses st)"
  shows "(terminal (an_status r) \<longrightarrow> r \<in> set (analyses st')) \<and>
    (an_status r = ''cancelling'' \<longrightarrow> (\<exists>r' \<in> set (analyses st'). an_id r' = an_id r \<and>
       (an_status r' = ''cancelling'' \<or> an_status r' = ''cancelled'')))"
  using assms by (rule run_row)

lemma submitted_open: "\<exists>r \<in> set (analyses submitted_db). an_id r = 4 \<and> an_status r = ''queued''"
proof -
  from submitted_analyses(1) obtain r s where "analyses submitted_db = [r, s]" "an_id r = 4" by (auto simp: map_eq_Cons_conv)
  with submitted_analyses(2) show ?thesis by auto
qed

lemma submitted_distinct: "r \<in> set (analyses submitted_db) \<Longrightarrow> an_id r = 4 \<Longrightarrow> an_status r = ''queued''"
proof -
  obtain x y where "analyses submitted_db = [x, y]" using submitted_analyses(1) by (auto simp: map_eq_Cons_conv)
  with submitted_analyses show "r \<in> set (analyses submitted_db) \<Longrightarrow> an_id r = 4 \<Longrightarrow> an_status r = ''queued''" by auto
qed

text \<open>The first analysis after its snapshot could not be built.\<close>

definition failed_db :: db where
  "failed_db = (case service_mark_failed (sample_draws 200) (pipeline_event SNAPSHOT_REQUESTED (Some 4) []) ''CLONE_FAILED'' ''no route''
     submitted_db of Inl _ \<Rightarrow> empty_db | Inr st \<Rightarrow> st)"

lemma failed_call:
  "service_mark_failed (sample_draws 200) (pipeline_event SNAPSHOT_REQUESTED (Some 4) []) ''CLONE_FAILED'' ''no route'' submitted_db =
     Inr failed_db"
  by (simp add: failed_db_def service_mark_failed_def repository_mark_failed_def pipeline_event_def envelope_new_def Let_def)

lemma failed_reachable: "pipeline_reachable failed_db"
  by (rule pipeline_reachable.step [OF submitted_reachable], rule snapshot_failed_step, rule failed_call)

lemma submitted_any_open: "any_row (\<lambda>r. an_id r = 4 \<and> \<not> closed (an_status r)) (analyses submitted_db)"
proof -
  from submitted_open obtain r where "r \<in> set (analyses submitted_db)" "an_id r = 4" "\<not> closed (an_status r)"
    by (auto simp: closed_def terminal_def)
  then show ?thesis by (auto simp: list_ex_iff)
qed

lemma update_whereI: "x \<in> set xs \<Longrightarrow> p x \<Longrightarrow> f x \<in> set (update_where p f xs)"
  by (auto simp: in_update_where)

lemma failed_row: "\<exists>r \<in> set (analyses failed_db). an_id r = 4 \<and> an_status r = ''failed''"
proof -
  obtain r where r: "r \<in> set (analyses submitted_db)" "an_id r = 4" "\<not> closed (an_status r)"
    using submitted_any_open by (auto simp: list_ex_iff)
  have "analysis_id (pipeline_event SNAPSHOT_REQUESTED (Some 4) []) = Some 4" by (simp add: pipeline_event_def envelope_new_def)
  note effect = mark_failed_effect(2) [OF failed_call this submitted_any_open]
  show ?thesis unfolding effect by (rule bexI [OF _ update_whereI [OF r(1)]]) (use r(2,3) in simp_all)
qed

theorem analysis_end_is_final_witness:
  "\<exists>r \<in> set (analyses failed_db). an_status r = ''failed'' \<and>
     r \<in> set (analyses (fst (cancel_analysis (sample_draws 300) 4 None None failed_db)))"
proof -
  obtain r where r: "r \<in> set (analyses failed_db)" "an_status r = ''failed''" using failed_row by blast
  have "pipeline_step\<^sup>*\<^sup>* failed_db (fst (cancel_analysis (sample_draws 300) 4 None None failed_db))"
    by (rule r_into_rtranclp) (rule cancel_step)
  from analysis_end_is_final [OF this r(1)] r show ?thesis by (auto simp: terminal_def)
qed

text \<open>
  C9: Every reachable state numbers the events of an analysis's stream 1, 2, 3 and so on in the order they were
  added, so that a client that resumes after the last number it saw misses nothing and sees nothing twice.
\<close>
theorem stream_numbering:
  assumes "pipeline_reachable st"
  shows "map sr_seq (filter (\<lambda>r. sr_analysis_id r = a) (stream_events st)) =
     map (\<lambda>n. int n + 1) [0..<length (filter (\<lambda>r. sr_analysis_id r = a) (stream_events st))]"
  using reachable_streams [OF assms] by (simp add: streams_ok_def stream_seqs_def numbered_def)

theorem stream_numbering_witness:
  "map sr_seq (filter (\<lambda>r. sr_analysis_id r = 4) (stream_events failed_db)) =
     map (\<lambda>n. int n + 1) [0..<length (filter (\<lambda>r. sr_analysis_id r = 4) (stream_events failed_db))]"
  by (rule stream_numbering [OF failed_reachable])

text \<open>
  When the snapshot of a batch's analysis fails, the slot is lost. The only event emitted is
  \<open>SnapshotFailed\<close>, which is routed to the domain topic and which the scheduler would refuse; the item keeps the
  state it had; the analysis is finished, so that cancelling it or redelivering its request changes nothing.
\<close>
theorem snapshot_failure_leaks_slot:
  assumes "service_mark_failed d e code message st = Inr st'" "analysis_id e = Some a"
    and "any_row (\<lambda>r. an_id r = a \<and> \<not> closed (an_status r)) (analyses st)"
    and "distinct (map an_id (analyses st))"
  shows "analysis_batch_items st' = analysis_batch_items st \<and>
    (\<exists>ev. emitted st' = emitted st @ [ev] \<and> event_type ev = SNAPSHOT_FAILED \<and>
       event_topic ev = ''deepdive.domain.events'' \<and>
       (\<forall>d' locked st''. \<exists>message. scheduler_call d' locked ev st'' = Inl (HValueError message))) \<and>
    (\<forall>d' tenant user. fst (cancel_analysis d' a tenant user st') = st') \<and>
    (\<forall>d' e' st''. analysis_id e' = Some a \<longrightarrow> analysis_worker_call d' e' st' = Inr st'' \<longrightarrow> st'' = st')"
proof -
  note effect = mark_failed_effect [OF assms(1-3)]
  from effect(1) obtain ev where ev: "emitted st' = emitted st @ [ev]" "event_type ev = SNAPSHOT_FAILED" by blast
  have topic: "event_topic ev = ''deepdive.domain.events''"
    by (simp add: event_topic_def ev(2) COMMAND_TOPICS_def ANALYSIS_COMMAND_TOPICS_def
        ANALYSIS_BATCH_SCHEDULER_COMMAND_TOPICS_def SNAPSHOT_COMMAND_TOPICS_def AGENT_INBOX_TOPICS_def
        EXECUTION_COMMAND_TOPICS_def STREAM_TOPICS_def DLQ_TOPICS_def)
  have refused: "\<exists>message. scheduler_call d' locked ev st'' = Inl (HValueError message)" for d' locked st''
    by (simp add: scheduler_call_def ev(2) TERMINAL_EVENT_STATUSES_def)
  obtain r where r: "r \<in> set (analyses st)" "an_id r = a" "\<not> closed (an_status r)" using assms(3) by (auto simp: list_ex_iff)
  have rows: "terminal (an_status x)" if x: "x \<in> set (analyses st')" "an_id x = a" for x
  proof -
    obtain y where y: "y \<in> set (analyses st)"
        "x = (if an_id y = a \<and> \<not> closed (an_status y) then y\<lparr>an_status := ''failed'', an_updated_at := now d,
           an_completed_at := Some (now d), an_error_code := Some code, an_error_message := Some (take 4096 message)\<rparr> else y)"
      using x(1) unfolding effect(2) update_where_def by auto
    with x(2) have "an_id y = a" by (auto split: if_splits)
    with y(1) r(1,2) assms(4) have "y = r" by (auto simp: distinct_map dest: inj_onD)
    with y(2) r show ?thesis by (simp add: terminal_def)
  qed
  note ignored = closed_analysis_ignored [OF rows]
  from effect(3) ev topic refused ignored show ?thesis by blast
qed

theorem snapshot_failure_leaks_slot_witness:
  "analysis_batch_items failed_db = analysis_batch_items submitted_db \<and>
     fst (cancel_analysis (sample_draws 300) 4 None None failed_db) = failed_db"
proof -
  have "analysis_id (pipeline_event SNAPSHOT_REQUESTED (Some 4) []) = Some 4" by (simp add: pipeline_event_def envelope_new_def)
  moreover have "distinct (map an_id (analyses submitted_db))" by (simp add: submitted_analyses(1))
  ultimately show ?thesis using snapshot_failure_leaks_slot [OF failed_call _ submitted_any_open] by blast
qed

end
