(* ===== verification/Documents.thy ===== *)
theory Documents
  imports Schema Sha256 Storage
begin

text \<open>
  The documents an analysis writes (\<^verbatim>\<open>backend/document\<close>): the results of \<^verbatim>\<open>models.py\<close>, the two stores
  \<^verbatim>\<open>memory_repository.py\<close> and \<^verbatim>\<open>postgres_repository.py\<close>, and the service of \<^verbatim>\<open>service.py\<close> with its sections, slugs
  and tree. Guarantees are in \<^verbatim>\<open>Document_History\<close>.
\<close>

section \<open>Rows and results\<close>

record document_row =
  do_id :: uuid
  do_analysis_id :: uuid
  do_agent_id :: uuid
  do_title :: string
  do_kind :: string
  do_status :: string
  do_current_version :: int
  do_content_ref :: string
  do_content_hash :: string
  do_size_bytes :: int
  do_created_at :: int
  do_updated_at :: int
  do_finalized_at :: "int option"

record node_row =
  nd_id :: uuid
  nd_analysis_id :: uuid
  nd_agent_id :: uuid
  nd_parent_id :: "uuid option"
  nd_node_type :: string
  nd_document_id :: "uuid option"
  nd_title :: string
  nd_slug :: string
  nd_path :: string
  nd_focus_area :: "string option"
  nd_sort_order :: int
  nd_created_at :: int
  nd_updated_at :: int

record section_row =
  se_id :: uuid
  se_document_id :: uuid
  se_stable_id :: string
  se_title :: string
  se_sort_order :: int
  se_content_ref :: string
  se_content_hash :: string
  se_size_bytes :: int
  se_created_at :: int
  se_updated_at :: int

record revision_row =
  rv_id :: uuid
  rv_document_id :: uuid
  rv_version :: int
  rv_tool_call_id :: uuid
  rv_operation :: string
  rv_content_ref :: string
  rv_content_hash :: string
  rv_size_bytes :: int
  rv_created_at :: int

record section_revision_row =
  sv_id :: uuid
  sv_section_id :: uuid
  sv_document_id :: uuid
  sv_document_revision_id :: uuid
  sv_version :: int
  sv_title :: string
  sv_sort_order :: int
  sv_content_ref :: string
  sv_content_hash :: string
  sv_size_bytes :: int
  sv_created_at :: int

record doc_db =
  documents :: "document_row list"
  document_nodes :: "node_row list"
  document_sections :: "section_row list"
  document_revisions :: "revision_row list"
  document_section_revisions :: "section_revision_row list"

definition empty_doc_db :: doc_db where
  "empty_doc_db = \<lparr>documents = [], document_nodes = [], document_sections = [], document_revisions = [],
     document_section_revisions = []\<rparr>"

text \<open>
  \<open>DocumentToolError\<close> carries a code; the others are what Python or the database raises: a violated unique
  index, a missing key or object, a byte string that is not UTF-8, \<^verbatim>\<open>int(...)\<close> of something else, a section that
  is not a dictionary.
\<close>

datatype doc_error =
    DocumentToolError (dte_code: string) (dte_message: string)
  | DocIntegrityError | DocKeyError | DocDecodeError | DocIntError int_error | DocAttributeError

definition content_hash :: "bytes \<Rightarrow> string" where
  "content_hash data = ''sha256:'' @ sha256_hexdigest data"

definition revision_payload ::
  "uuid \<Rightarrow> uuid \<Rightarrow> int \<Rightarrow> uuid \<Rightarrow> string \<Rightarrow> string \<Rightarrow> string \<Rightarrow> int \<Rightarrow> int \<Rightarrow> revision_row" where
  "revision_payload fresh document version tool_call operation ref digest sz created =
     \<lparr>rv_id = fresh, rv_document_id = document, rv_version = version, rv_tool_call_id = tool_call,
      rv_operation = operation, rv_content_ref = ref, rv_content_hash = digest, rv_size_bytes = sz,
      rv_created_at = created\<rparr>"

definition opt_json :: "string option \<Rightarrow> json" where
  "opt_json x = (case x of None \<Rightarrow> JNull | Some s \<Rightarrow> JStr s)"

definition node_result :: "node_row \<Rightarrow> payload" where
  "node_result n =
     [(''node_id'', JStr (uuid_str (nd_id n))), (''analysis_id'', JStr (uuid_str (nd_analysis_id n))),
      (''agent_id'', JStr (uuid_str (nd_agent_id n))), (''parent_id'', uuid_json (nd_parent_id n)),
      (''node_type'', JStr (nd_node_type n)), (''document_id'', uuid_json (nd_document_id n)),
      (''title'', JStr (nd_title n)), (''slug'', JStr (nd_slug n)), (''path'', JStr (nd_path n)),
      (''focus_area'', opt_json (nd_focus_area n)), (''sort_order'', JInt (nd_sort_order n))]"

definition folder_result :: "node_row \<Rightarrow> payload" where
  "folder_result n = node_result n"

definition section_result :: "section_row \<times> string option \<Rightarrow> payload" where
  "section_result sc = (case sc of (s, content) \<Rightarrow>
     [(''section_id'', JStr (uuid_str (se_id s))), (''document_id'', JStr (uuid_str (se_document_id s))),
      (''stable_id'', JStr (se_stable_id s)), (''title'', JStr (se_title s)), (''sort_order'', JInt (se_sort_order s)),
      (''content_ref'', JStr (se_content_ref s)), (''content_hash'', JStr (se_content_hash s)),
      (''size_bytes'', JInt (se_size_bytes s))] @
     (case content of None \<Rightarrow> [] | Some c \<Rightarrow> [(''content'', JStr c)]))"

text \<open>\<open>document_result\<close> of a document enriched with its node and sections by \<open>_document_result_with_tree\<close>.\<close>

definition document_result_with_tree ::
  "document_row \<Rightarrow> node_row option \<Rightarrow> (section_row \<times> string option) list option \<Rightarrow> payload" where
  "document_result_with_tree doc node sections =
     [(''document_id'', JStr (uuid_str (do_id doc))), (''analysis_id'', JStr (uuid_str (do_analysis_id doc))),
      (''agent_id'', JStr (uuid_str (do_agent_id doc))), (''title'', JStr (do_title doc)),
      (''kind'', JStr (do_kind doc)), (''status'', JStr (do_status doc)), (''version'', JInt (do_current_version doc)),
      (''content_ref'', JStr (do_content_ref doc)), (''content_hash'', JStr (do_content_hash doc)),
      (''size_bytes'', JInt (do_size_bytes doc))] @
     (case node of None \<Rightarrow> []
      | Some n \<Rightarrow> (case nd_focus_area n of None \<Rightarrow> [] | Some f \<Rightarrow> [(''focus_area'', JStr f)]) @
          [(''node'', JObj (node_result n))]) @
     (case sections of None \<Rightarrow> [] | Some ss \<Rightarrow> [(''sections'', JList (map (\<lambda>s. JObj (section_result s)) ss))])"

definition document_result :: "document_row \<Rightarrow> payload" where
  "document_result doc = document_result_with_tree doc None None"

definition revision_result :: "revision_row \<Rightarrow> payload" where
  "revision_result r =
     [(''revision_id'', JStr (uuid_str (rv_id r))), (''document_id'', JStr (uuid_str (rv_document_id r))),
      (''version'', JInt (rv_version r)), (''tool_call_id'', JStr (uuid_str (rv_tool_call_id r))),
      (''operation'', JStr (rv_operation r)), (''content_ref'', JStr (rv_content_ref r)),
      (''content_hash'', JStr (rv_content_hash r)), (''size_bytes'', JInt (rv_size_bytes r)),
      (''created_at'', JInt (rv_created_at r))]"

definition status_for_revision :: "revision_row \<Rightarrow> string" where
  "status_for_revision r =
     (if rv_operation r = ''delete'' then ''deleted''
      else if rv_operation r = ''finalize'' then ''finalized'' else ''draft'')"

section \<open>Sections, slugs and rendering\<close>

record section_item =
  si_stable_id :: string
  si_title :: string
  si_content :: string
  si_sort_order :: int

definition section_order :: "section_item \<Rightarrow> int \<times> string" where
  "section_order s = (si_sort_order s, si_stable_id s)"

definition SECTION_ID_PATTERN :: "string \<Rightarrow> bool" where
  "SECTION_ID_PATTERN s = slug_pattern 95 s"

definition SLUG_PATTERN :: "string \<Rightarrow> bool" where
  "SLUG_PATTERN s = slug_pattern 95 s"

definition invalid_sections :: "string \<Rightarrow> doc_error" where
  "invalid_sections msg = DocumentToolError ''INVALID_DOCUMENT_SECTIONS'' msg"

fun normalize_sections_loop :: "json list \<Rightarrow> string list \<Rightarrow> section_item list \<Rightarrow> doc_error + section_item list" where
  "normalize_sections_loop [] seen sections = Inr sections"
| "normalize_sections_loop (JObj raw # rest) seen sections =
     (let stable_id = py_strip (py_str (py_or (obj_get raw ''stable_id'') (JStr '''')));
          title = py_strip (py_str (py_or (obj_get raw ''title'') (JStr '''')));
          content = py_str (py_or (obj_get raw ''content'') (JStr ''''))
      in case py_int (py_or (obj_get raw ''sort_order'') (JInt 0)) of
           Inl e \<Rightarrow> Inl (DocIntError e)
         | Inr sort_order \<Rightarrow>
             if \<not> SECTION_ID_PATTERN stable_id then Inl (invalid_sections ''section stable_id must be a lowercase slug.'')
             else if stable_id \<in> set seen then Inl (invalid_sections (''duplicate section stable_id: '' @ stable_id))
             else if title = [] \<or> length title > 200 then Inl (invalid_sections ''section title must be 1-200 characters.'')
             else normalize_sections_loop rest (stable_id # seen)
                    (sections @ [\<lparr>si_stable_id = stable_id, si_title = title, si_content = content,
                                  si_sort_order = sort_order\<rparr>]))"
| "normalize_sections_loop (_ # rest) seen sections = Inl DocAttributeError"

definition normalize_sections :: "json list option \<Rightarrow> doc_error + section_item list" where
  "normalize_sections value =
     (case value of
        None \<Rightarrow> Inr []
      | Some xs \<Rightarrow>
          if xs = [] then Inr []
          else if length xs > 20 then Inl (invalid_sections ''sections must contain at most 20 items.'')
          else rbind (normalize_sections_loop xs [] []) (\<lambda>ss. Inr (sort_key section_order ss)))"

definition normalize_slug :: "string \<Rightarrow> doc_error + string" where
  "normalize_slug value =
     (let slug = py_lower (py_strip value)
      in if \<not> SLUG_PATTERN slug
         then Inl (DocumentToolError ''INVALID_DOCUMENT_TREE'' ''document node slug must be a lowercase slug.'')
         else Inr slug)"

definition slug_char :: "char \<Rightarrow> bool" where
  "slug_char c = (is_lower_ascii c \<or> is_digit c)"

text \<open>\<^verbatim>\<open>re.sub(r"[^a-z0-9]+", "-", s)\<close>: every run of other characters becomes one dash.\<close>

fun dash_runs :: "bool \<Rightarrow> string \<Rightarrow> string" where
  "dash_runs in_run [] = []"
| "dash_runs in_run (c # cs) =
     (if slug_char c then c # dash_runs False cs
      else if in_run then dash_runs True cs else CHR ''-'' # dash_runs True cs)"

definition slugify :: "string \<Rightarrow> string" where
  "slugify value =
     (let slug = strip_by (\<lambda>c. c = CHR ''-'') (dash_runs False (py_lower value))
      in if slug = [] then ''document'' else slug)"

definition node_path :: "node_row option \<Rightarrow> string \<Rightarrow> string" where
  "node_path parent slug = (case parent of None \<Rightarrow> slug | Some p \<Rightarrow> nd_path p @ ''/'' @ slug)"

definition folder_node ::
  "uuid \<Rightarrow> int \<Rightarrow> uuid \<Rightarrow> uuid \<Rightarrow> node_row option \<Rightarrow> string \<Rightarrow> string \<Rightarrow> int \<Rightarrow> doc_error + node_row" where
  "folder_node fresh t analysis agent parent title slug sort_order =
     rbind (normalize_slug slug) (\<lambda>s. Inr
       \<lparr>nd_id = fresh, nd_analysis_id = analysis, nd_agent_id = agent, nd_parent_id = map_option nd_id parent,
        nd_node_type = ''folder'', nd_document_id = None, nd_title = title, nd_slug = s, nd_path = node_path parent s,
        nd_focus_area = None, nd_sort_order = sort_order, nd_created_at = t, nd_updated_at = t\<rparr>)"

definition document_node ::
  "uuid \<Rightarrow> int \<Rightarrow> uuid \<Rightarrow> uuid \<Rightarrow> uuid \<Rightarrow> node_row option \<Rightarrow> string \<Rightarrow> string option \<Rightarrow> string option \<Rightarrow> int \<Rightarrow>
   doc_error + node_row" where
  "document_node fresh t analysis agent document parent title slug focus_area sort_order =
     (let wanted = (case slug of None \<Rightarrow> slugify title | Some s \<Rightarrow> if s = [] then slugify title else s)
      in rbind (normalize_slug wanted) (\<lambda>s. Inr
       \<lparr>nd_id = fresh, nd_analysis_id = analysis, nd_agent_id = agent, nd_parent_id = map_option nd_id parent,
        nd_node_type = ''document'', nd_document_id = Some document, nd_title = title, nd_slug = s,
        nd_path = node_path parent s, nd_focus_area = focus_area, nd_sort_order = sort_order,
        nd_created_at = t, nd_updated_at = t\<rparr>))"

text \<open>\<open>fallback\<close> is \<open>fallback_content_ref\<close> with the storage, when the caller gives them.\<close>

definition section_lines :: "section_item \<Rightarrow> string list" where
  "section_lines s = [''## '' @ si_title s, [], si_content s, []]"

definition read_text :: "object_store \<Rightarrow> string \<Rightarrow> doc_error + string" where
  "read_text store ref =
     (case get_bytes store ref of
        None \<Rightarrow> Inl DocKeyError
      | Some b \<Rightarrow> (case utf8_decode b of None \<Rightarrow> Inl DocDecodeError | Some s \<Rightarrow> Inr s))"

definition render_document_content ::
  "string \<Rightarrow> string option \<Rightarrow> section_item list \<Rightarrow> (string \<times> object_store) option \<Rightarrow> doc_error + string" where
  "render_document_content title content sections fallback =
     (if sections \<noteq> [] then
        let lines = [''# '' @ title, []] @ concat (map section_lines sections)
        in Inr (rstrip_by is_space (join_with [newline] lines) @ [newline])
      else case content of
          Some c \<Rightarrow> Inr c
        | None \<Rightarrow> (case fallback of Some (ref, store) \<Rightarrow> read_text store ref | None \<Rightarrow> Inr []))"

text \<open>
  \<open>_merged_sections\<close>: a dictionary by stable id, the updates over the existing rows, sorted. A row whose
  content was not read counts as empty.
\<close>

definition existing_item :: "section_row \<times> string option \<Rightarrow> section_item" where
  "existing_item sc = (case sc of (s, content) \<Rightarrow>
     \<lparr>si_stable_id = se_stable_id s, si_title = se_title s,
      si_content = (case content of None \<Rightarrow> [] | Some c \<Rightarrow> c), si_sort_order = se_sort_order s\<rparr>)"

definition merge_section :: "(string \<times> section_item) list \<Rightarrow> section_item \<Rightarrow> (string \<times> section_item) list" where
  "merge_section d s = AList.update (si_stable_id s) s d"

definition merged_sections :: "(section_row \<times> string option) list \<Rightarrow> section_item list \<Rightarrow> section_item list" where
  "merged_sections existing updates =
     sort_key section_order (map snd (foldl merge_section [] (map existing_item existing @ updates)))"

section \<open>The stores\<close>

text \<open>
  A Python dictionary of rows keyed by their id: an existing key keeps its place. The tables of the in-memory
  store and of Postgres are both lists of rows; the two stores differ in what an insert does with a row that is
  already there.
\<close>

definition put_row :: "('r \<Rightarrow> 'k) \<Rightarrow> 'r \<Rightarrow> 'r list \<Rightarrow> 'r list" where
  "put_row key r rows = (if any_row (\<lambda>x. key x = key r) rows then update_where (\<lambda>x. key x = key r) (\<lambda>_. r) rows else rows @ [r])"

definition get_document :: "doc_db \<Rightarrow> uuid \<Rightarrow> document_row option" where
  "get_document db i = find (\<lambda>r. do_id r = i) (documents db)"

definition get_node :: "doc_db \<Rightarrow> uuid \<Rightarrow> node_row option" where
  "get_node db i = find (\<lambda>n. nd_id n = i) (document_nodes db)"

definition find_revision_by_tool_call :: "doc_db \<Rightarrow> uuid \<Rightarrow> revision_row option" where
  "find_revision_by_tool_call db t = find (\<lambda>r. rv_tool_call_id r = t) (document_revisions db)"

text \<open>\<^verbatim>\<open>cursor_offset\<close> of \<^verbatim>\<open>api/pagination.py\<close>; \<^verbatim>\<open>str.isdigit\<close> also accepts the superscripts one to three, which
  \<^verbatim>\<open>int\<close> refuses.\<close>

definition py_isdigit :: "char \<Rightarrow> bool" where
  "py_isdigit c = (is_digit c \<or> code_point c \<in> {178, 179, 185})"

definition cursor_offset :: "string option \<Rightarrow> int_error + nat" where
  "cursor_offset value =
     (case value of
        None \<Rightarrow> Inr 0
      | Some s \<Rightarrow>
          if py_strip s = [] then Inr 0
          else if list_all py_isdigit s
          then (case parse_int s of None \<Rightarrow> Inl IntValueError | Some i \<Rightarrow> Inr (nat i))
          else Inr 0)"

definition page :: "nat \<Rightarrow> string option \<Rightarrow> 'a list \<Rightarrow> int_error + 'a list" where
  "page limit cursor xs = rbind (cursor_offset cursor) (\<lambda>offset. Inr (take limit (drop offset xs)))"

definition list_documents :: "doc_db \<Rightarrow> uuid \<Rightarrow> nat \<Rightarrow> string option \<Rightarrow> int_error + document_row list" where
  "list_documents db a limit cursor =
     page limit cursor (sort_key (\<lambda>r. (do_created_at r, do_id r))
       (filter (\<lambda>r. do_analysis_id r = a \<and> do_status r \<noteq> ''deleted'') (documents db)))"

definition list_revisions :: "doc_db \<Rightarrow> uuid \<Rightarrow> nat \<Rightarrow> string option \<Rightarrow> int_error + revision_row list" where
  "list_revisions db i limit cursor =
     page limit cursor (sort_key rv_version (filter (\<lambda>r. rv_document_id r = i) (document_revisions db)))"

text \<open>A node of a deleted document is hidden; the document of a node exists, which the foreign key ensures.\<close>

definition node_visible :: "doc_db \<Rightarrow> node_row \<Rightarrow> bool" where
  "node_visible db n =
     (nd_node_type n \<noteq> ''document'' \<or>
      (case nd_document_id n of
         None \<Rightarrow> False
       | Some i \<Rightarrow> (case get_document db i of None \<Rightarrow> False | Some r \<Rightarrow> do_status r \<noteq> ''deleted'')))"

definition list_nodes :: "doc_db \<Rightarrow> uuid \<Rightarrow> node_row list" where
  "list_nodes db a =
     sort_key (\<lambda>n. (nd_path n, nd_sort_order n, nd_id n))
       (filter (\<lambda>n. nd_analysis_id n = a \<and> node_visible db n) (document_nodes db))"

definition list_sections :: "doc_db \<Rightarrow> uuid \<Rightarrow> section_row list" where
  "list_sections db i =
     sort_key (\<lambda>s. (se_sort_order s, se_stable_id s)) (filter (\<lambda>s. se_document_id s = i) (document_sections db))"

text \<open>The \<^verbatim>\<open>updates\<close> dictionary of a guarded update.\<close>

record doc_updates =
  up_expected_version :: int
  up_expected_status :: string
  up_status :: string
  up_current_version :: int
  up_content_ref :: string
  up_content_hash :: string
  up_size_bytes :: int
  up_updated_at :: int
  up_finalized_at :: "int option"

definition updated_row :: "doc_updates \<Rightarrow> document_row \<Rightarrow> document_row" where
  "updated_row u r =
     r\<lparr>do_status := up_status u, do_current_version := up_current_version u, do_content_ref := up_content_ref u,
       do_content_hash := up_content_hash u, do_size_bytes := up_size_bytes u, do_updated_at := up_updated_at u,
       do_finalized_at := up_finalized_at u\<rparr>"

subsection \<open>In memory (\<^verbatim>\<open>memory_repository.py\<close>)\<close>

definition mem_add_folder_node :: "node_row \<Rightarrow> doc_db \<Rightarrow> doc_error + doc_db" where
  "mem_add_folder_node n db = Inr (db\<lparr>document_nodes := put_row nd_id n (document_nodes db)\<rparr>)"

definition mem_add_document_with_revision :: "document_row \<Rightarrow> revision_row \<Rightarrow> doc_db \<Rightarrow> doc_error + doc_db" where
  "mem_add_document_with_revision r rvn db =
     Inr (db\<lparr>documents := put_row do_id r (documents db), document_revisions := document_revisions db @ [rvn]\<rparr>)"

definition mem_put_sections :: "section_row list \<Rightarrow> section_revision_row list \<Rightarrow> doc_db \<Rightarrow> doc_db" where
  "mem_put_sections sections srevs db =
     db\<lparr>document_sections := foldl (\<lambda>rows s. put_row se_id s rows) (document_sections db) sections,
        document_section_revisions := document_section_revisions db @ srevs\<rparr>"

definition mem_add_document_tree_with_revision ::
  "document_row \<Rightarrow> node_row \<Rightarrow> section_row list \<Rightarrow> revision_row \<Rightarrow> section_revision_row list \<Rightarrow> doc_db \<Rightarrow> doc_error + doc_db" where
  "mem_add_document_tree_with_revision r n sections rvn srevs db =
     rbind (mem_add_document_with_revision r rvn db) (\<lambda>db1.
       Inr (mem_put_sections sections srevs (db1\<lparr>document_nodes := put_row nd_id n (document_nodes db1)\<rparr>)))"

definition mem_update_document_with_revision ::
  "uuid \<Rightarrow> doc_updates \<Rightarrow> revision_row \<Rightarrow> doc_db \<Rightarrow> doc_error + doc_db \<times> document_row option" where
  "mem_update_document_with_revision i u rvn db =
     (case get_document db i of
        None \<Rightarrow> Inl DocKeyError
      | Some r \<Rightarrow>
          if do_current_version r \<noteq> up_expected_version u then Inr (db, None)
          else if do_status r \<noteq> up_expected_status u then Inr (db, None)
          else Inr (db\<lparr>documents := update_where (\<lambda>x. do_id x = i) (\<lambda>_. updated_row u r) (documents db),
                       document_revisions := document_revisions db @ [rvn]\<rparr>, Some (updated_row u r)))"

definition mem_update_document_tree_with_revision ::
  "uuid \<Rightarrow> doc_updates \<Rightarrow> section_row list \<Rightarrow> revision_row \<Rightarrow> section_revision_row list \<Rightarrow> doc_db \<Rightarrow>
   doc_error + doc_db \<times> document_row option" where
  "mem_update_document_tree_with_revision i u sections rvn srevs db =
     rbind (mem_update_document_with_revision i u rvn db) (\<lambda>(db1, r).
       case r of None \<Rightarrow> Inr (db1, None) | Some r' \<Rightarrow> Inr (mem_put_sections sections srevs db1, Some r'))"

subsection \<open>Postgres (\<^verbatim>\<open>postgres_repository.py\<close>)\<close>

text \<open>
  The inserts fail when a primary key or a unique index is violated; a transaction that raises leaves the tables
  as they were. A unique index does not compare rows whose columns are \<^verbatim>\<open>NULL\<close>.
\<close>

definition insert_document :: "document_row \<Rightarrow> doc_db \<Rightarrow> doc_error + doc_db" where
  "insert_document r db =
     (if any_row (\<lambda>x. do_id x = do_id r) (documents db) then Inl DocIntegrityError
      else Inr (db\<lparr>documents := documents db @ [r]\<rparr>))"

definition insert_revision :: "revision_row \<Rightarrow> doc_db \<Rightarrow> doc_error + doc_db" where
  "insert_revision rvn db =
     (if any_row (\<lambda>x. rv_id x = rv_id rvn \<or> rv_tool_call_id x = rv_tool_call_id rvn \<or>
            rv_document_id x = rv_document_id rvn \<and> rv_version x = rv_version rvn) (document_revisions db)
      then Inl DocIntegrityError
      else Inr (db\<lparr>document_revisions := document_revisions db @ [rvn]\<rparr>))"

definition insert_node :: "node_row \<Rightarrow> doc_db \<Rightarrow> doc_error + doc_db" where
  "insert_node n db =
     (if any_row (\<lambda>x. nd_id x = nd_id n \<or>
            nd_parent_id n \<noteq> None \<and> nd_analysis_id x = nd_analysis_id n \<and> nd_parent_id x = nd_parent_id n \<and>
            nd_slug x = nd_slug n \<or>
            nd_document_id n \<noteq> None \<and> nd_document_id x = nd_document_id n) (document_nodes db)
      then Inl DocIntegrityError
      else Inr (db\<lparr>document_nodes := document_nodes db @ [n]\<rparr>))"

definition upsert_section :: "section_row \<Rightarrow> doc_db \<Rightarrow> doc_error + doc_db" where
  "upsert_section s db =
     (let same = (\<lambda>x. se_document_id x = se_document_id s \<and> se_stable_id x = se_stable_id s)
      in if any_row same (document_sections db)
         then Inr (db\<lparr>document_sections := update_where same
                (\<lambda>x. x\<lparr>se_title := se_title s, se_sort_order := se_sort_order s, se_content_ref := se_content_ref s,
                       se_content_hash := se_content_hash s, se_size_bytes := se_size_bytes s,
                       se_updated_at := se_updated_at s\<rparr>) (document_sections db)\<rparr>)
         else if any_row (\<lambda>x. se_id x = se_id s) (document_sections db) then Inl DocIntegrityError
         else Inr (db\<lparr>document_sections := document_sections db @ [s]\<rparr>))"

definition insert_section_revision :: "section_revision_row \<Rightarrow> doc_db \<Rightarrow> doc_error + doc_db" where
  "insert_section_revision v db =
     (if any_row (\<lambda>x. sv_id x = sv_id v \<or> sv_section_id x = sv_section_id v \<and> sv_version x = sv_version v)
          (document_section_revisions db)
      then Inl DocIntegrityError
      else Inr (db\<lparr>document_section_revisions := document_section_revisions db @ [v]\<rparr>))"

fun each :: "('a \<Rightarrow> doc_db \<Rightarrow> doc_error + doc_db) \<Rightarrow> 'a list \<Rightarrow> doc_db \<Rightarrow> doc_error + doc_db" where
  "each f [] db = Inr db"
| "each f (x # xs) db = rbind (f x db) (each f xs)"

definition pg_add_folder_node :: "node_row \<Rightarrow> doc_db \<Rightarrow> doc_error + doc_db" where
  "pg_add_folder_node n db = insert_node n db"

definition pg_add_document_with_revision :: "document_row \<Rightarrow> revision_row \<Rightarrow> doc_db \<Rightarrow> doc_error + doc_db" where
  "pg_add_document_with_revision r rvn db = rbind (insert_document r db) (insert_revision rvn)"

definition pg_add_document_tree_with_revision ::
  "document_row \<Rightarrow> node_row \<Rightarrow> section_row list \<Rightarrow> revision_row \<Rightarrow> section_revision_row list \<Rightarrow> doc_db \<Rightarrow> doc_error + doc_db" where
  "pg_add_document_tree_with_revision r n sections rvn srevs db =
     rbind (insert_document r db) (\<lambda>db1. rbind (insert_node n db1) (\<lambda>db2. rbind (insert_revision rvn db2) (\<lambda>db3.
       rbind (each upsert_section sections db3) (each insert_section_revision srevs))))"

definition guarded_update :: "uuid \<Rightarrow> doc_updates \<Rightarrow> doc_db \<Rightarrow> doc_db \<times> document_row option" where
  "guarded_update i u db =
     (let p = (\<lambda>r. do_id r = i \<and> do_current_version r = up_expected_version u \<and> do_status r = up_expected_status u)
      in (db\<lparr>documents := update_where p (updated_row u) (documents db)\<rparr>,
          map_option (updated_row u) (find p (documents db))))"

definition pg_update_document_with_revision ::
  "uuid \<Rightarrow> doc_updates \<Rightarrow> revision_row \<Rightarrow> doc_db \<Rightarrow> doc_error + doc_db \<times> document_row option" where
  "pg_update_document_with_revision i u rvn db =
     (case guarded_update i u db of
        (db1, None) \<Rightarrow> Inr (db, None)
      | (db1, Some r) \<Rightarrow> rbind (insert_revision rvn db1) (\<lambda>db2. Inr (db2, Some r)))"

definition pg_update_document_tree_with_revision ::
  "uuid \<Rightarrow> doc_updates \<Rightarrow> section_row list \<Rightarrow> revision_row \<Rightarrow> section_revision_row list \<Rightarrow> doc_db \<Rightarrow>
   doc_error + doc_db \<times> document_row option" where
  "pg_update_document_tree_with_revision i u sections rvn srevs db =
     (case guarded_update i u db of
        (db1, None) \<Rightarrow> Inr (db, None)
      | (db1, Some r) \<Rightarrow> rbind (insert_revision rvn db1) (\<lambda>db2. rbind (each upsert_section sections db2) (\<lambda>db3.
          rbind (each insert_section_revision srevs db3) (\<lambda>db4. Inr (db4, Some r)))))"

text \<open>What a service is given: the writing operations of one of the stores; the reads are the same in both.\<close>

record doc_store =
  ds_add_folder_node :: "node_row \<Rightarrow> doc_db \<Rightarrow> doc_error + doc_db"
  ds_add_document :: "document_row \<Rightarrow> revision_row \<Rightarrow> doc_db \<Rightarrow> doc_error + doc_db"
  ds_add_document_tree :: "document_row \<Rightarrow> node_row \<Rightarrow> section_row list \<Rightarrow> revision_row \<Rightarrow> section_revision_row list \<Rightarrow>
     doc_db \<Rightarrow> doc_error + doc_db"
  ds_update_document :: "uuid \<Rightarrow> doc_updates \<Rightarrow> revision_row \<Rightarrow> doc_db \<Rightarrow> doc_error + doc_db \<times> document_row option"
  ds_update_document_tree :: "uuid \<Rightarrow> doc_updates \<Rightarrow> section_row list \<Rightarrow> revision_row \<Rightarrow> section_revision_row list \<Rightarrow>
     doc_db \<Rightarrow> doc_error + doc_db \<times> document_row option"

definition mem_docs :: doc_store where
  "mem_docs = \<lparr>ds_add_folder_node = mem_add_folder_node, ds_add_document = mem_add_document_with_revision,
     ds_add_document_tree = mem_add_document_tree_with_revision, ds_update_document = mem_update_document_with_revision,
     ds_update_document_tree = mem_update_document_tree_with_revision\<rparr>"

definition pg_docs :: doc_store where
  "pg_docs = \<lparr>ds_add_folder_node = pg_add_folder_node, ds_add_document = pg_add_document_with_revision,
     ds_add_document_tree = pg_add_document_tree_with_revision, ds_update_document = pg_update_document_with_revision,
     ds_update_document_tree = pg_update_document_tree_with_revision\<rparr>"

section \<open>The service (\<^verbatim>\<open>service.py\<close>)\<close>

text \<open>
  The service reads and writes the document tables and the object store. The objects are written before the
  tables, and stay when the tables refuse the change. An operation returns the new state and the result or the
  error; \<open>S\<close> is the store it runs on.
\<close>

record doc_state =
  dt_db :: doc_db
  dt_store :: object_store

abbreviation markdown_type :: string where
  "markdown_type \<equiv> ''text/markdown; charset=utf-8''"

definition version_conflict :: doc_error where
  "version_conflict = DocumentToolError ''DOCUMENT_VERSION_CONFLICT'' ''Document version does not match expected_version.''"

definition document_for_analysis :: "doc_db \<Rightarrow> uuid \<Rightarrow> uuid \<Rightarrow> doc_error + document_row" where
  "document_for_analysis db a i =
     (case get_document db i of
        None \<Rightarrow> Inl (DocumentToolError ''DOCUMENT_NOT_FOUND'' ''Document was not found for this analysis.'')
      | Some r \<Rightarrow>
          if do_analysis_id r \<noteq> a
          then Inl (DocumentToolError ''DOCUMENT_NOT_FOUND'' ''Document was not found for this analysis.'')
          else if do_status r = ''deleted''
          then Inl (DocumentToolError ''DOCUMENT_DELETED'' ''Document has been deleted.'')
          else Inr r)"

definition ensure_mutable :: "document_row \<Rightarrow> doc_error + unit" where
  "ensure_mutable r =
     (if do_status r = ''finalized''
      then Inl (DocumentToolError ''DOCUMENT_FINALIZED'' ''Finalized documents cannot be updated or deleted.'')
      else if do_status r = ''deleted''
      then Inl (DocumentToolError ''DOCUMENT_DELETED'' ''Deleted documents cannot be updated.'')
      else Inr ())"

definition replay_row :: "document_row \<Rightarrow> revision_row \<Rightarrow> document_row" where
  "replay_row r v =
     r\<lparr>do_status := status_for_revision v, do_current_version := rv_version v, do_content_ref := rv_content_ref v,
       do_content_hash := rv_content_hash v, do_size_bytes := rv_size_bytes v\<rparr>"

definition replay_result :: "doc_db \<Rightarrow> uuid \<Rightarrow> payload option" where
  "replay_result db t =
     (case find_revision_by_tool_call db t of
        None \<Rightarrow> None
      | Some v \<Rightarrow> map_option (\<lambda>r. document_result (replay_row r v)) (get_document db (rv_document_id v)))"

definition parent_node_for_analysis :: "doc_db \<Rightarrow> uuid \<Rightarrow> uuid option \<Rightarrow> doc_error + node_row option" where
  "parent_node_for_analysis db a parent =
     (case parent of
        None \<Rightarrow> Inr None
      | Some p \<Rightarrow>
          (case get_node db p of
             None \<Rightarrow> Inl (DocumentToolError ''DOCUMENT_NODE_NOT_FOUND'' ''Parent document node was not found.'')
           | Some n \<Rightarrow>
               if nd_analysis_id n \<noteq> a
               then Inl (DocumentToolError ''DOCUMENT_NODE_NOT_FOUND'' ''Parent document node was not found.'')
               else if nd_node_type n \<noteq> ''folder''
               then Inl (DocumentToolError ''INVALID_DOCUMENT_TREE'' ''parent_node_id must point to a folder node.'')
               else Inr (Some n)))"

text \<open>\<^verbatim>\<open>_section_rows\<close>: section \<open>j\<close> draws the identifiers \<open>k + 2 * j\<close> (when it is new) and \<open>k + 2 * j + 1\<close>.\<close>

fun section_rows ::
  "draws \<Rightarrow> nat \<Rightarrow> uuid \<Rightarrow> uuid \<Rightarrow> uuid \<Rightarrow> uuid \<Rightarrow> int \<Rightarrow> section_row list \<Rightarrow> section_item list \<Rightarrow> object_store \<Rightarrow>
   section_row list \<times> section_revision_row list \<times> object_store" where
  "section_rows d k a i revision t version existing [] store = ([], [], store)"
| "section_rows d k a i revision t version existing (s # ss) store =
     (let old = map_of (rev (map (\<lambda>x. (se_stable_id x, x)) existing)) (si_stable_id s);
          sid = (case old of None \<Rightarrow> new_id d k | Some x \<Rightarrow> se_id x);
          data = utf8_encode (si_content s);
          digest = content_hash data;
          ref = document_section_content_key a i sid version (Some t);
          row = \<lparr>se_id = sid, se_document_id = i, se_stable_id = si_stable_id s, se_title = si_title s,
                 se_sort_order = si_sort_order s, se_content_ref = ref, se_content_hash = digest,
                 se_size_bytes = int (length data),
                 se_created_at = (case old of None \<Rightarrow> now d | Some x \<Rightarrow> se_created_at x), se_updated_at = now d\<rparr>;
          srev = \<lparr>sv_id = new_id d (k + 1), sv_section_id = sid, sv_document_id = i, sv_document_revision_id = revision,
                  sv_version = version, sv_title = si_title s, sv_sort_order = si_sort_order s, sv_content_ref = ref,
                  sv_content_hash = digest, sv_size_bytes = int (length data), sv_created_at = now d\<rparr>;
          (rows, srevs, store') = section_rows d (k + 2) a i revision t version existing ss (put_bytes store ref data markdown_type)
      in (row # rows, srev # srevs, store'))"

fun with_contents :: "object_store \<Rightarrow> section_row list \<Rightarrow> doc_error + (section_row \<times> string option) list" where
  "with_contents store [] = Inr []"
| "with_contents store (s # ss) =
     rbind (read_text store (se_content_ref s)) (\<lambda>c. rbind (with_contents store ss) (\<lambda>rest. Inr ((s, Some c) # rest)))"

definition document_result_with_related :: "doc_state \<Rightarrow> document_row \<Rightarrow> bool \<Rightarrow> doc_error + payload" where
  "document_result_with_related st r include_sections =
     (let node = find (\<lambda>n. nd_document_id n = Some (do_id r)) (list_nodes (dt_db st) (do_analysis_id r))
      in if \<not> include_sections then Inr (document_result_with_tree r node None)
         else rbind (with_contents (dt_store st) (list_sections (dt_db st) (do_id r))) (\<lambda>ss.
                Inr (document_result_with_tree r node (Some ss))))"

record create_args =
  ca_title :: string
  ca_kind :: string
  ca_content :: string
  ca_parent_node_id :: "uuid option"
  ca_slug :: "string option"
  ca_focus_area :: "string option"
  ca_sections :: "json list option"

definition service_create ::
  "doc_store \<Rightarrow> draws \<Rightarrow> uuid \<Rightarrow> uuid \<Rightarrow> uuid \<Rightarrow> create_args \<Rightarrow> doc_state \<Rightarrow> doc_state \<times> (doc_error + payload)" where
  "service_create S d a g t args st =
     (case replay_result (dt_db st) t of
        Some res \<Rightarrow> (st, Inr res)
      | None \<Rightarrow>
          (case normalize_sections (ca_sections args) of
             Inl e \<Rightarrow> (st, Inl e)
           | Inr sections \<Rightarrow>
               (case render_document_content (ca_title args) (Some (ca_content args)) sections None of
                  Inl e \<Rightarrow> (st, Inl e)
                | Inr txt_content \<Rightarrow>
                    let i = new_id d 0;
                        data = utf8_encode txt_content;
                        digest = content_hash data;
                        ref = document_content_key a i 1 (Some t);
                        store1 = put_bytes (dt_store st) ref data markdown_type;
                        st1 = st\<lparr>dt_store := store1\<rparr>;
                        r = \<lparr>do_id = i, do_analysis_id = a, do_agent_id = g, do_title = ca_title args, do_kind = ca_kind args,
                             do_status = ''draft'', do_current_version = 1, do_content_ref = ref, do_content_hash = digest,
                             do_size_bytes = int (length data), do_created_at = now d, do_updated_at = now d,
                             do_finalized_at = None\<rparr>;
                        v = revision_payload (new_id d 1) i 1 t ''create'' ref digest (int (length data)) (now d)
                    in if ca_parent_node_id args = None \<and> ca_slug args = None \<and> ca_focus_area args = None \<and> sections = []
                       then (case ds_add_document S r v (dt_db st) of
                               Inl e \<Rightarrow> (st1, Inl e)
                             | Inr db' \<Rightarrow> (st1\<lparr>dt_db := db'\<rparr>, Inr (document_result r)))
                       else (case parent_node_for_analysis (dt_db st) a (ca_parent_node_id args) of
                               Inl e \<Rightarrow> (st1, Inl e)
                             | Inr parent \<Rightarrow>
                                 (case document_node (new_id d 2) (now d) a g i parent (ca_title args) (ca_slug args)
                                        (ca_focus_area args) 0 of
                                    Inl e \<Rightarrow> (st1, Inl e)
                                  | Inr n \<Rightarrow>
                                      (case section_rows d 3 a i (rv_id v) t 1 [] sections store1 of
                                         (rows, srevs, store2) \<Rightarrow>
                                           (case ds_add_document_tree S r n rows v srevs (dt_db st) of
                                              Inl e \<Rightarrow> (st\<lparr>dt_store := store2\<rparr>, Inl e)
                                            | Inr db' \<Rightarrow>
                                                (\<lparr>dt_db = db', dt_store = store2\<rparr>,
                                                 Inr (document_result_with_tree r (Some n)
                                                   (Some (map (\<lambda>s. (s, None)) rows)))))))))))"

definition service_create_folder ::
  "doc_store \<Rightarrow> draws \<Rightarrow> uuid \<Rightarrow> uuid \<Rightarrow> string \<Rightarrow> string \<Rightarrow> uuid option \<Rightarrow> int \<Rightarrow> doc_state \<Rightarrow>
   doc_state \<times> (doc_error + payload)" where
  "service_create_folder S d a g title slug parent sort_order st =
     (case rbind (parent_node_for_analysis (dt_db st) a parent) (\<lambda>p.
             rbind (folder_node (new_id d 0) (now d) a g p title slug sort_order) (\<lambda>n.
               rbind (ds_add_folder_node S n (dt_db st)) (\<lambda>db'. Inr (db', n)))) of
        Inl e \<Rightarrow> (st, Inl e)
      | Inr (db', n) \<Rightarrow> (st\<lparr>dt_db := db'\<rparr>, Inr (folder_result n)))"

definition service_get :: "uuid \<Rightarrow> uuid \<Rightarrow> bool \<Rightarrow> bool \<Rightarrow> doc_state \<Rightarrow> doc_error + payload" where
  "service_get a i include_content include_sections st =
     rbind (document_for_analysis (dt_db st) a i) (\<lambda>r.
       rbind (document_result_with_related st r include_sections) (\<lambda>res.
         if include_content then rbind (read_text (dt_store st) (do_content_ref r)) (\<lambda>c. Inr (res @ [(''content'', JStr c)]))
         else Inr res))"

definition lift_int :: "int_error + 'a \<Rightarrow> doc_error + 'a" where
  "lift_int x = (case x of Inl e \<Rightarrow> Inl (DocIntError e) | Inr y \<Rightarrow> Inr y)"

definition service_list :: "uuid \<Rightarrow> nat \<Rightarrow> string option \<Rightarrow> doc_state \<Rightarrow> doc_error + payload list" where
  "service_list a limit cursor st =
     rbind (lift_int (list_documents (dt_db st) a limit cursor)) (\<lambda>rs. Inr (map document_result rs))"

definition service_list_revisions :: "uuid \<Rightarrow> uuid \<Rightarrow> nat \<Rightarrow> string option \<Rightarrow> doc_state \<Rightarrow> doc_error + payload list" where
  "service_list_revisions a i limit cursor st =
     rbind (document_for_analysis (dt_db st) a i) (\<lambda>r.
       rbind (lift_int (list_revisions (dt_db st) (do_id r) limit cursor)) (\<lambda>vs. Inr (map revision_result vs)))"

text \<open>The checks that update, delete and finalize share.\<close>

definition open_for_change :: "doc_db \<Rightarrow> uuid \<Rightarrow> uuid \<Rightarrow> int \<Rightarrow> doc_error + document_row" where
  "open_for_change db a i expected =
     rbind (document_for_analysis db a i) (\<lambda>r. rbind (ensure_mutable r) (\<lambda>_.
       if do_current_version r \<noteq> expected then Inl version_conflict else Inr r))"

text \<open>
  The reading half of \<^verbatim>\<open>update\<close>: the sections given, those stored, the merged ones and the text of the new
  version, or the error that is raised before anything is written.
\<close>

definition update_plan ::
  "doc_state \<Rightarrow> uuid \<Rightarrow> uuid \<Rightarrow> int \<Rightarrow> string option \<Rightarrow> json list option \<Rightarrow>
   doc_error + section_item list \<times> section_row list \<times> section_item list \<times> string" where
  "update_plan st a i expected content sections =
     rbind (open_for_change (dt_db st) a i expected) (\<lambda>r.
       rbind (normalize_sections sections) (\<lambda>normalized.
         let existing = list_sections (dt_db st) i
         in rbind (if normalized \<noteq> [] then with_contents (dt_store st) existing
                   else Inr (map (\<lambda>s. (s, None)) existing)) (\<lambda>contents.
              let items = merged_sections contents normalized
              in rbind (render_document_content (do_title r) content items (Some (do_content_ref r, dt_store st)))
                   (\<lambda>c. Inr (normalized, existing, items, c)))))"

definition draft_updates :: "int \<Rightarrow> string \<Rightarrow> bytes \<Rightarrow> int \<Rightarrow> doc_updates" where
  "draft_updates expected ref data t =
     \<lparr>up_expected_version = expected, up_expected_status = ''draft'', up_status = ''draft'',
      up_current_version = expected + 1, up_content_ref = ref, up_content_hash = content_hash data,
      up_size_bytes = int (length data), up_updated_at = t, up_finalized_at = None\<rparr>"

definition finish_update ::
  "doc_state \<Rightarrow> object_store \<Rightarrow> bool \<Rightarrow> (doc_error + doc_db \<times> document_row option) \<Rightarrow> doc_state \<times> (doc_error + payload)" where
  "finish_update st store include_sections written =
     (case written of
        Inl e \<Rightarrow> (st\<lparr>dt_store := store\<rparr>, Inl e)
      | Inr (db', None) \<Rightarrow> (\<lparr>dt_db = db', dt_store = store\<rparr>, Inl version_conflict)
      | Inr (db', Some r') \<Rightarrow>
          (\<lparr>dt_db = db', dt_store = store\<rparr>,
           document_result_with_related \<lparr>dt_db = db', dt_store = store\<rparr> r' include_sections))"

definition service_update ::
  "doc_store \<Rightarrow> draws \<Rightarrow> uuid \<Rightarrow> uuid \<Rightarrow> uuid \<Rightarrow> int \<Rightarrow> string option \<Rightarrow> json list option \<Rightarrow> doc_state \<Rightarrow>
   doc_state \<times> (doc_error + payload)" where
  "service_update S d a t i expected content sections st =
     (case replay_result (dt_db st) t of
        Some res \<Rightarrow> (st, Inr res)
      | None \<Rightarrow>
          (case update_plan st a i expected content sections of
             Inl e \<Rightarrow> (st, Inl e)
           | Inr (normalized, existing, items, c) \<Rightarrow>
               let version = expected + 1;
                   data = utf8_encode c;
                   ref = document_content_key a i version (Some t);
                   store1 = put_bytes (dt_store st) ref data markdown_type;
                   u = draft_updates expected ref data (now d);
                   v = revision_payload (new_id d 0) i version t ''update'' ref (content_hash data) (int (length data)) (now d);
                   (store2, written) =
                     (if normalized \<noteq> []
                      then (case section_rows d 1 a i (rv_id v) t version existing items store1 of
                              (rows, srevs, s2) \<Rightarrow> (s2, ds_update_document_tree S i u rows v srevs (dt_db st)))
                      else (store1, ds_update_document S i u v (dt_db st)))
               in finish_update st store2 (normalized \<noteq> []) written))"

text \<open>\<^verbatim>\<open>delete\<close> and \<^verbatim>\<open>finalize\<close> differ in the operation they record, the status and the finishing time.\<close>

definition close_document ::
  "string \<Rightarrow> string \<Rightarrow> int option \<Rightarrow> doc_store \<Rightarrow> draws \<Rightarrow> uuid \<Rightarrow> uuid \<Rightarrow> uuid \<Rightarrow> int \<Rightarrow> doc_state \<Rightarrow>
   doc_state \<times> (doc_error + payload)" where
  "close_document operation status finalized S d a t i expected st =
     (case replay_result (dt_db st) t of
        Some res \<Rightarrow> (st, Inr res)
      | None \<Rightarrow>
          (case open_for_change (dt_db st) a i expected of
             Inl e \<Rightarrow> (st, Inl e)
           | Inr r \<Rightarrow>
               let version = expected + 1;
                   v = revision_payload (new_id d 0) i version t operation (do_content_ref r) (do_content_hash r)
                         (do_size_bytes r) (now d);
                   u = \<lparr>up_expected_version = expected, up_expected_status = ''draft'', up_status = status,
                        up_current_version = version, up_content_ref = do_content_ref r,
                        up_content_hash = do_content_hash r, up_size_bytes = do_size_bytes r, up_updated_at = now d,
                        up_finalized_at = finalized\<rparr>
               in (case ds_update_document S i u v (dt_db st) of
                     Inl e \<Rightarrow> (st, Inl e)
                   | Inr (db', None) \<Rightarrow> (st\<lparr>dt_db := db'\<rparr>, Inl version_conflict)
                   | Inr (db', Some r') \<Rightarrow> (st\<lparr>dt_db := db'\<rparr>, Inr (document_result r')))))"

definition service_delete ::
  "doc_store \<Rightarrow> draws \<Rightarrow> uuid \<Rightarrow> uuid \<Rightarrow> uuid \<Rightarrow> int \<Rightarrow> doc_state \<Rightarrow> doc_state \<times> (doc_error + payload)" where
  "service_delete S d = close_document ''delete'' ''deleted'' None S d"

definition service_finalize ::
  "doc_store \<Rightarrow> draws \<Rightarrow> uuid \<Rightarrow> uuid \<Rightarrow> uuid \<Rightarrow> int \<Rightarrow> doc_state \<Rightarrow> doc_state \<times> (doc_error + payload)" where
  "service_finalize S d = close_document ''finalize'' ''finalized'' (Some (now d)) S d"

section \<open>The tree\<close>

text \<open>
  \<^verbatim>\<open>_build_tree\<close>: the nodes in the order of their paths; each is put under its parent when the parent has been
  seen, and becomes a root otherwise. Identifiers are primary keys. The dictionary \<^verbatim>\<open>by_id\<close> holds the items by
  reference, so that appending to a parent's children changes the tree in place: here the item is inserted below
  the node with that identifier.
\<close>

datatype doc_tree = TreeNode (tree_node: node_row) (tree_children: "doc_tree list")

fun insert_under :: "uuid \<Rightarrow> doc_tree \<Rightarrow> doc_tree \<Rightarrow> doc_tree" where
  "insert_under p item (TreeNode n ts) =
     (if nd_id n = p then TreeNode n (ts @ [item]) else TreeNode n (map (insert_under p item) ts))"

fun build_tree_loop :: "uuid list \<Rightarrow> doc_tree list \<Rightarrow> node_row list \<Rightarrow> doc_tree list" where
  "build_tree_loop seen roots [] = roots"
| "build_tree_loop seen roots (n # ns) =
     (let seen' = nd_id n # seen; item = TreeNode n []
      in case nd_parent_id n of
           None \<Rightarrow> build_tree_loop seen' (roots @ [item]) ns
         | Some p \<Rightarrow> if p \<notin> set seen' then build_tree_loop seen' (roots @ [item]) ns
                     else build_tree_loop seen' (map (insert_under p item) roots) ns)"

definition build_tree :: "node_row list \<Rightarrow> doc_tree list" where
  "build_tree nodes = build_tree_loop [] [] (sort_key (\<lambda>n. (nd_path n, nd_sort_order n)) nodes)"

definition service_tree :: "uuid \<Rightarrow> doc_state \<Rightarrow> doc_tree list" where
  "service_tree a st = build_tree (list_nodes (dt_db st) a)"

text \<open>
  The item of a node in the answer: its fields, the status and version of its document and the number of its
  sections, which the query of the Postgres store joins to the node, and the items of its children.
\<close>

definition joined_document :: "doc_db \<Rightarrow> node_row \<Rightarrow> document_row option" where
  "joined_document db n = Option.bind (nd_document_id n) (get_document db)"

definition section_count :: "doc_db \<Rightarrow> node_row \<Rightarrow> int" where
  "section_count db n =
     (case nd_document_id n of
        None \<Rightarrow> 0
      | Some i \<Rightarrow> int (length (filter (\<lambda>s. se_document_id s = i) (document_sections db))))"

fun tree_item :: "doc_db \<Rightarrow> doc_tree \<Rightarrow> json" where
  "tree_item db (TreeNode n ts) =
     JObj (folder_result n @
       [(''status'', opt_json (map_option do_status (joined_document db n))),
        (''version'', case joined_document db n of None \<Rightarrow> JNull | Some d \<Rightarrow> JInt (do_current_version d)),
        (''section_count'', JInt (section_count db n)),
        (''children'', JList (map (tree_item db) ts))])"

definition service_tree_result :: "uuid \<Rightarrow> doc_state \<Rightarrow> json list" where
  "service_tree_result a st = map (tree_item (dt_db st)) (service_tree a st)"

end
