(* ===== verification/Document_History.thy ===== *)
theory Document_History
  imports Documents "HOL-Library.Multiset"
begin

text \<open>
  What the document service guarantees: the history of a document under any interleaving of writers, that closed
  documents stay as they are, that a repeated tool call is answered from the record, what is read back after it
  was written, and the shape of the tree.
\<close>

section \<open>Calls of concurrent writers\<close>

text \<open>
  A tool call for a document: one of the four operations that change a document and record a revision under the
  identifier of the call.
\<close>

datatype doc_call =
  Call_Create create_args
| Call_Update uuid int "string option" "json list option"
| Call_Delete uuid int
| Call_Finalize uuid int

fun run_call ::
  "doc_store \<Rightarrow> draws \<Rightarrow> uuid \<Rightarrow> uuid \<Rightarrow> uuid \<Rightarrow> doc_call \<Rightarrow> doc_state \<Rightarrow> doc_state \<times> (doc_error + payload)" where
  "run_call S d a g t (Call_Create args) st = service_create S d a g t args st"
| "run_call S d a g t (Call_Update i expected content sections) st = service_update S d a t i expected content sections st"
| "run_call S d a g t (Call_Delete i expected) st = service_delete S d a t i expected st"
| "run_call S d a g t (Call_Finalize i expected) st = service_finalize S d a t i expected st"

text \<open>
  Between reading and writing other transactions may change the tables. The store that a call is given here writes to
  the present tables \<open>db\<close>, whatever tables the service has read before.
\<close>

definition committing :: "doc_db \<Rightarrow> doc_store" where
  "committing db =
     \<lparr>ds_add_folder_node = (\<lambda>n _. pg_add_folder_node n db), ds_add_document = (\<lambda>r v _. pg_add_document_with_revision r v db),
      ds_add_document_tree = (\<lambda>r n ss v vs _. pg_add_document_tree_with_revision r n ss v vs db),
      ds_update_document = (\<lambda>i u v _. pg_update_document_with_revision i u v db),
      ds_update_document_tree = (\<lambda>i u ss v vs _. pg_update_document_tree_with_revision i u ss v vs db)\<rparr>"

text \<open>
  A step: a whole call of the service by any analysis, agent and tool call, with any arguments, which reads the tables
  \<open>read\<close>, however old, and writes to \<open>db\<close>. A call that does not get as far as writing leaves the tables it has read,
  and is no step; no write leads back to tables that were read before it.
\<close>

inductive doc_step :: "doc_db \<Rightarrow> doc_db \<Rightarrow> bool" where
  call_step: "run_call (committing db) d a g t c \<lparr>dt_db = read, dt_store = os\<rparr> = (st', res) \<Longrightarrow> dt_db st' \<noteq> read \<Longrightarrow>
    doc_step db (dt_db st')"
| folder_step: "service_create_folder (committing db) d a g title slug parent sort_order \<lparr>dt_db = read, dt_store = os\<rparr> =
    (st', Inr res) \<Longrightarrow> doc_step db (dt_db st')"

inductive docs_reachable :: "doc_db \<Rightarrow> bool" where
  docs_start: "docs_reachable empty_doc_db"
| docs_step: "docs_reachable db \<Longrightarrow> doc_step db db' \<Longrightarrow> docs_reachable db'"

lemma committing_simps [simp]:
  "ds_add_folder_node (committing db) n x = pg_add_folder_node n db"
  "ds_add_document (committing db) r v x = pg_add_document_with_revision r v db"
  "ds_add_document_tree (committing db) r n ss v vs x = pg_add_document_tree_with_revision r n ss v vs db"
  "ds_update_document (committing db) i u v x = pg_update_document_with_revision i u v db"
  "ds_update_document_tree (committing db) i u ss v vs x = pg_update_document_tree_with_revision i u ss v vs db"
  by (simp_all add: committing_def)

subsection \<open>What a step does to documents and revisions\<close>

lemma each_frame:
  assumes "each f xs db = Inr db'" "\<And>x db db'. f x db = Inr db' \<Longrightarrow> g db' = g db"
  shows "g db' = g db"
  using assms(1)
proof (induction xs arbitrary: db)
  case (Cons x xs)
  then obtain db1 where "f x db = Inr db1" "each f xs db1 = Inr db'" by (auto simp: rbind_eq_Inr)
  with Cons.IH assms(2) show ?case by metis
qed simp

lemma upsert_section_frame:
  "upsert_section s db = Inr db' \<Longrightarrow> documents db' = documents db \<and> document_revisions db' = document_revisions db \<and>
     document_nodes db' = document_nodes db"
  by (auto simp: upsert_section_def Let_def split: if_splits)

lemma section_revision_frame:
  "insert_section_revision s db = Inr db' \<Longrightarrow> documents db' = documents db \<and> document_revisions db' = document_revisions db \<and>
     document_nodes db' = document_nodes db"
  by (auto simp: insert_section_revision_def split: if_splits)

lemma each_upsert_frame:
  "each upsert_section ss db = Inr db' \<Longrightarrow> documents db' = documents db \<and> document_revisions db' = document_revisions db \<and>
     document_nodes db' = document_nodes db"
  using each_frame [where f = upsert_section and g = "\<lambda>x. (documents x, document_revisions x, document_nodes x)"] upsert_section_frame
  by fastforce

lemma each_revision_frame:
  "each insert_section_revision ss db = Inr db' \<Longrightarrow> documents db' = documents db \<and> document_revisions db' = document_revisions db \<and>
     document_nodes db' = document_nodes db"
  using each_frame [where f = insert_section_revision and g = "\<lambda>x. (documents x, document_revisions x, document_nodes x)"]
    section_revision_frame by fastforce

definition fresh_revision :: "revision_row \<Rightarrow> doc_db \<Rightarrow> bool" where
  "fresh_revision v db = (\<not> any_row (\<lambda>x. rv_id x = rv_id v \<or> rv_tool_call_id x = rv_tool_call_id v \<or>
            rv_document_id x = rv_document_id v \<and> rv_version x = rv_version v) (document_revisions db))"

lemma insert_revision_eq: "insert_revision v db = Inr db' \<longleftrightarrow>
    fresh_revision v db \<and> db' = db\<lparr>document_revisions := document_revisions db @ [v]\<rparr>"
  by (auto simp: insert_revision_def fresh_revision_def)

lemma insert_document_eq: "insert_document r db = Inr db' \<longleftrightarrow>
    \<not> any_row (\<lambda>x. do_id x = do_id r) (documents db) \<and> db' = db\<lparr>documents := documents db @ [r]\<rparr>"
  by (auto simp: insert_document_def)

lemma insert_node_frame: "insert_node n db = Inr db' \<Longrightarrow> documents db' = documents db \<and> document_revisions db' = document_revisions db"
  by (auto simp: insert_node_def split: if_splits)

definition update_guard :: "uuid \<Rightarrow> doc_updates \<Rightarrow> document_row \<Rightarrow> bool" where
  "update_guard i u r = (do_id r = i \<and> do_current_version r = up_expected_version u \<and> do_status r = up_expected_status u)"

definition adds_document :: "document_row \<Rightarrow> revision_row \<Rightarrow> doc_db \<Rightarrow> doc_db \<Rightarrow> bool" where
  "adds_document r v db db' \<longleftrightarrow>
     \<not> any_row (\<lambda>x. do_id x = do_id r) (documents db) \<and> fresh_revision v db \<and>
     documents db' = documents db @ [r] \<and> document_revisions db' = document_revisions db @ [v]"

definition updates_document :: "uuid \<Rightarrow> doc_updates \<Rightarrow> revision_row \<Rightarrow> document_row \<Rightarrow> doc_db \<Rightarrow> doc_db \<Rightarrow> bool" where
  "updates_document i u v r db db' \<longleftrightarrow>
     r \<in> set (documents db) \<and> update_guard i u r \<and> fresh_revision v db \<and>
     documents db' = update_where (update_guard i u) (updated_row u) (documents db) \<and>
     document_revisions db' = document_revisions db @ [v]"

lemma pg_add_effect: "pg_add_document_with_revision r v db = Inr db' \<Longrightarrow> adds_document r v db db'"
  by (auto simp: pg_add_document_with_revision_def rbind_eq_Inr insert_document_eq insert_revision_eq fresh_revision_def adds_document_def)

lemma pg_add_tree_effect:
  assumes "pg_add_document_tree_with_revision r n sections v srevs db = Inr db'"
  shows "adds_document r v db db'"
proof -
  from assms obtain db1 db2 db3 db4 where w: "insert_document r db = Inr db1" "insert_node n db1 = Inr db2" "insert_revision v db2 = Inr db3"
      "each upsert_section sections db3 = Inr db4" "each insert_section_revision srevs db4 = Inr db'"
    by (auto simp: pg_add_document_tree_with_revision_def rbind_eq_Inr)
  from w show ?thesis
    using insert_node_frame [OF w(2)] each_upsert_frame [OF w(4)] each_revision_frame [OF w(5)]
    by (auto simp: insert_document_eq insert_revision_eq fresh_revision_def adds_document_def)
qed

lemma guarded_update_cases:
  obtains "guarded_update i u db = (db, None)"
  | r where "r \<in> set (documents db)" "update_guard i u r"
      "guarded_update i u db = (db\<lparr>documents := update_where (update_guard i u) (updated_row u) (documents db)\<rparr>, Some (updated_row u r))"
proof (cases "find (update_guard i u) (documents db)")
  case None
  then have "update_where (update_guard i u) (updated_row u) (documents db) = documents db"
    by (auto simp: find_None_iff update_where_def intro!: map_idI)
  with None that(1) show ?thesis by (simp add: guarded_update_def update_guard_def [abs_def])
next
  case (Some r)
  then have "r \<in> set (documents db)" "update_guard i u r" by (auto simp: find_Some_iff)
  with Some that(2) show ?thesis by (simp add: guarded_update_def update_guard_def [abs_def])
qed

lemma pg_update_effect:
  assumes "pg_update_document_with_revision i u v db = Inr (db', x)"
  shows "x = None \<and> db' = db \<or> (\<exists>r. x = Some (updated_row u r) \<and> updates_document i u v r db db')"
proof (cases rule: guarded_update_cases [of i u db])
  case 1
  with assms show ?thesis by (simp add: pg_update_document_with_revision_def)
next
  case (2 r)
  with assms show ?thesis
    by (auto simp: pg_update_document_with_revision_def rbind_eq_Inr insert_revision_eq fresh_revision_def updates_document_def)
qed

lemma pg_update_tree_effect:
  assumes "pg_update_document_tree_with_revision i u sections v srevs db = Inr (db', x)"
  shows "x = None \<and> db' = db \<or> (\<exists>r. x = Some (updated_row u r) \<and> updates_document i u v r db db')"
proof (cases rule: guarded_update_cases [of i u db])
  case 1
  with assms show ?thesis by (simp add: pg_update_document_tree_with_revision_def)
next
  case (2 r)
  let ?db1 = "db\<lparr>documents := update_where (update_guard i u) (updated_row u) (documents db)\<rparr>"
  from 2 assms obtain db2 db3 where w: "insert_revision v ?db1 = Inr db2" "each upsert_section sections db2 = Inr db3"
      "each insert_section_revision srevs db3 = Inr db'" and x: "x = Some (updated_row u r)"
    by (auto simp: pg_update_document_tree_with_revision_def rbind_eq_Inr)
  from 2 w x show ?thesis using each_upsert_frame [OF w(2)] each_revision_frame [OF w(3)]
    by (auto simp: insert_revision_eq fresh_revision_def updates_document_def)
qed

subsection \<open>What the service writes\<close>

text \<open>A row and the revision it is written with belong together.\<close>

definition created_pair :: "document_row \<Rightarrow> revision_row \<Rightarrow> bool" where
  "created_pair r v =
     (do_status r = ''draft'' \<and> do_current_version r = 1 \<and> rv_operation v = ''create'' \<and> rv_document_id v = do_id r \<and>
      rv_version v = 1 \<and> rv_content_ref v = do_content_ref r \<and> rv_content_hash v = do_content_hash r \<and>
      rv_size_bytes v = do_size_bytes r)"

definition updating_pair :: "uuid \<Rightarrow> doc_updates \<Rightarrow> revision_row \<Rightarrow> bool" where
  "updating_pair i u v =
     (up_expected_status u = ''draft'' \<and> up_current_version u = up_expected_version u + 1 \<and> rv_document_id v = i \<and>
      rv_version v = up_current_version u \<and> status_for_revision v = up_status u \<and> rv_content_ref v = up_content_ref u \<and>
      rv_content_hash v = up_content_hash u \<and> rv_size_bytes v = up_size_bytes u)"

text \<open>
  How a call of an operation can end that reads \<open>read\<close> and writes to \<open>db\<close> under the tool call \<open>t\<close>: with an error and nothing
  written, with a new document, or with the next version of one.
\<close>

definition call_outcome :: "doc_db \<Rightarrow> doc_db \<Rightarrow> uuid \<Rightarrow> doc_db \<Rightarrow> doc_error + payload \<Rightarrow> bool" where
  "call_outcome read db t db' res \<longleftrightarrow>
     (db' = read \<or> db' = db) \<and> (\<exists>err. res = Inl err) \<or>
     (\<exists>r v. created_pair r v \<and> rv_tool_call_id v = t \<and> adds_document r v db db' \<and>
        (\<exists>n ss. res = Inr (document_result_with_tree r n ss))) \<or>
     (\<exists>i u v r. updating_pair i u v \<and> rv_tool_call_id v = t \<and> updates_document i u v r db db' \<and>
        ((\<exists>err. res = Inl err) \<or> (\<exists>n ss. res = Inr (document_result_with_tree (updated_row u r) n ss))))"

lemma outcome_refused: "db' = read \<or> db' = db \<Longrightarrow> call_outcome read db t db' (Inl err)"
  by (simp add: call_outcome_def)

lemma outcome_created:
  "created_pair r v \<Longrightarrow> rv_tool_call_id v = t \<Longrightarrow> adds_document r v db db' \<Longrightarrow>
   call_outcome read db t db' (Inr (document_result_with_tree r n ss))"
  unfolding call_outcome_def by blast

lemma outcome_updated:
  "updating_pair i u v \<Longrightarrow> rv_tool_call_id v = t \<Longrightarrow> updates_document i u v r db db' \<Longrightarrow>
   (\<exists>err. res = Inl err) \<or> (\<exists>n ss. res = Inr (document_result_with_tree (updated_row u r) n ss)) \<Longrightarrow>
   call_outcome read db t db' res"
  unfolding call_outcome_def by blast

lemma related_fields:
  assumes "document_result_with_related st r b = Inr res"
  shows "\<exists>n ss. res = document_result_with_tree r n ss"
  using assms by (auto simp: document_result_with_related_def Let_def rbind_eq_Inr split: if_splits)

lemma create_outcome:
  assumes "service_create (committing db) d a g t args \<lparr>dt_db = read, dt_store = os\<rparr> = (st', res)" "replay_result read t = None"
  shows "call_outcome read db t (dt_db st') res"
proof (cases "\<exists>sections c. normalize_sections (ca_sections args) = Inr sections \<and>
    render_document_content (ca_title args) (Some (ca_content args)) sections None = Inr c")
  case False
  with assms show ?thesis by (auto simp: service_create_def call_outcome_def split: sum.splits)
next
  case True
  then obtain sections c where sc: "normalize_sections (ca_sections args) = Inr sections"
      "render_document_content (ca_title args) (Some (ca_content args)) sections None = Inr c" by blast
  define data where "data = utf8_encode c"
  define ref where "ref = document_content_key a (new_id d 0) 1 (Some t)"
  define r where "r = \<lparr>do_id = new_id d 0, do_analysis_id = a, do_agent_id = g, do_title = ca_title args, do_kind = ca_kind args,
                             do_status = ''draft'', do_current_version = 1, do_content_ref = ref, do_content_hash = content_hash data,
                             do_size_bytes = int (length data), do_created_at = now d, do_updated_at = now d,
                             do_finalized_at = None\<rparr>"
  define v where "v = revision_payload (new_id d (Suc 0)) (new_id d 0) 1 t ''create'' ref (content_hash data) (int (length data)) (now d)"
  have pair: "created_pair r v" "rv_tool_call_id v = t" by (simp_all add: created_pair_def r_def v_def revision_payload_def)
  show ?thesis
  proof (cases "ca_parent_node_id args = None \<and> ca_slug args = None \<and> ca_focus_area args = None \<and> sections = []")
    case True
    with assms sc consider "dt_db st' = read" "\<exists>err. res = Inl err"
      | "pg_add_document_with_revision r v db = Inr (dt_db st')" "res = Inr (document_result r)"
      by (auto simp: service_create_def Let_def data_def [symmetric] ref_def [symmetric] v_def [symmetric]
          r_def [symmetric] split: sum.splits)
    then show ?thesis using outcome_created [OF pair pg_add_effect]
      by cases (auto simp: document_result_def intro: outcome_refused)
  next
    case False
    with assms sc consider "dt_db st' = read" "\<exists>err. res = Inl err"
      | n rows srevs where "pg_add_document_tree_with_revision r n rows v srevs db = Inr (dt_db st')"
          "res = Inr (document_result_with_tree r (Some n) (Some (map (\<lambda>s. (s, None)) rows)))"
      by (auto simp: service_create_def Let_def data_def [symmetric] ref_def [symmetric] v_def [symmetric]
          r_def [symmetric] split: sum.splits prod.splits if_splits)
    then show ?thesis using outcome_created [OF pair pg_add_tree_effect] by cases (auto intro: outcome_refused)
  qed
qed

lemma update_outcome:
  assumes "service_update (committing db) d a t i e content sections \<lparr>dt_db = read, dt_store = os\<rparr> = (st', res)"
    "replay_result read t = None"
  shows "call_outcome read db t (dt_db st') res"
proof (cases "update_plan \<lparr>dt_db = read, dt_store = os\<rparr> a i e content sections")
  case (Inl err)
  with assms show ?thesis by (auto simp: service_update_def call_outcome_def)
next
  case (Inr plan)
  obtain normalized existing items c where plan: "plan = (normalized, existing, items, c)" by (cases plan) auto
  define data where "data = utf8_encode c"
  define ref where "ref = document_content_key a i (e + 1) (Some t)"
  define u where "u = draft_updates e ref data (now d)"
  define v where "v = revision_payload (new_id d 0) i (e + 1) t ''update'' ref (content_hash data) (int (length data)) (now d)"
  define store1 where "store1 = put_bytes os ref data markdown_type"
  obtain rows srevs s2 where rows: "section_rows d 1 a i (rv_id v) t (e + 1) existing items store1 = (rows, srevs, s2)"
    by (cases "section_rows d 1 a i (rv_id v) t (e + 1) existing items store1") auto
  define W where "W = (if normalized \<noteq> [] then pg_update_document_tree_with_revision i u rows v srevs db
    else pg_update_document_with_revision i u v db)"
  have run: "finish_update \<lparr>dt_db = read, dt_store = os\<rparr> (if normalized \<noteq> [] then s2 else store1) (normalized \<noteq> []) W = (st', res)"
    using assms Inr plan rows unfolding service_update_def W_def
    by (simp add: Let_def data_def [symmetric] ref_def [symmetric] v_def [symmetric] u_def [symmetric] store1_def [symmetric]
        split: if_splits)
  have pair: "updating_pair i u v" "rv_tool_call_id v = t"
    by (simp_all add: u_def v_def updating_pair_def revision_payload_def draft_updates_def status_for_revision_def)
  show ?thesis
  proof (cases W)
    case (Inl err)
    with run show ?thesis by (auto simp: finish_update_def call_outcome_def)
  next
    case (Inr w)
    obtain db' x where w: "W = Inr (db', x)" using Inr by (cases w) auto
    have "x = None \<and> db' = db \<or> (\<exists>r. x = Some (updated_row u r) \<and> updates_document i u v r db db')"
      using w pg_update_effect pg_update_tree_effect unfolding W_def by (auto split: if_splits)
    then show ?thesis
    proof (elim disjE exE conjE)
      assume "x = None" "db' = db"
      with run w show ?thesis by (auto simp: finish_update_def call_outcome_def)
    next
      fix r assume r: "x = Some (updated_row u r)" "updates_document i u v r db db'"
      with run w have s: "dt_db st' = db'" "res = document_result_with_related st' (updated_row u r) (normalized \<noteq> [])"
        by (auto simp: finish_update_def)
      have "(\<exists>err. res = Inl err) \<or> (\<exists>n ss. res = Inr (document_result_with_tree (updated_row u r) n ss))"
        using s(2) related_fields by (cases res) metis+
      with r(2) pair s(1) show ?thesis by (auto intro: outcome_updated)
    qed
  qed
qed

lemma close_outcome:
  assumes "close_document operation status finalized (committing db) d a t i e \<lparr>dt_db = read, dt_store = os\<rparr> = (st', res)"
    "replay_result read t = None" and op: "\<And>v. rv_operation v = operation \<Longrightarrow> status_for_revision v = status"
  shows "call_outcome read db t (dt_db st') res"
proof (cases "open_for_change read a i e")
  case (Inl err)
  with assms show ?thesis by (auto simp: close_document_def call_outcome_def)
next
  case (Inr r0)
  define v where "v = revision_payload (new_id d 0) i (e + 1) t operation (do_content_ref r0) (do_content_hash r0) (do_size_bytes r0) (now d)"
  define u where "u = \<lparr>up_expected_version = e, up_expected_status = ''draft'', up_status = status,
                        up_current_version = e + 1, up_content_ref = do_content_ref r0,
                        up_content_hash = do_content_hash r0, up_size_bytes = do_size_bytes r0, up_updated_at = now d,
                        up_finalized_at = finalized\<rparr>"
  have pair: "updating_pair i u v" "rv_tool_call_id v = t"
    using op [of v] by (simp_all add: u_def v_def updating_pair_def revision_payload_def)
  show ?thesis
  proof (cases "pg_update_document_with_revision i u v db")
    case (Inl err)
    with assms(1,2) Inr show ?thesis
      by (auto simp: close_document_def Let_def v_def [symmetric] u_def [symmetric] call_outcome_def)
  next
    case w: (Inr w)
    obtain db' x where x: "w = (db', x)" by (cases w)
    have st: "dt_db st' = db'" "res = (case x of None \<Rightarrow> Inl version_conflict | Some r' \<Rightarrow> Inr (document_result r'))"
      using assms(1,2) Inr w x
      by (auto simp: close_document_def Let_def v_def [symmetric] u_def [symmetric] split: option.splits)
    from w x have "x = None \<and> db' = db \<or> (\<exists>r. x = Some (updated_row u r) \<and> updates_document i u v r db db')"
      by (intro pg_update_effect) simp
    then show ?thesis unfolding st
    proof (elim disjE exE conjE)
      fix r assume "x = Some (updated_row u r)" "updates_document i u v r db db'"
      then show "call_outcome read db t db' (case x of None \<Rightarrow> Inl version_conflict | Some r' \<Rightarrow> Inr (document_result r'))"
        by (simp add: document_result_def) (rule outcome_updated [OF pair], auto)
    qed (simp add: outcome_refused)
  qed
qed

lemma run_call_outcome:
  assumes "run_call (committing db) d a g t c \<lparr>dt_db = read, dt_store = os\<rparr> = (st', res)" "replay_result read t = None"
  shows "call_outcome read db t (dt_db st') res"
proof (cases c)
  case (Call_Create args)
  with assms create_outcome show ?thesis by simp
next
  case (Call_Update i e content sections)
  with assms update_outcome show ?thesis by simp
next
  case (Call_Delete i e)
  with assms(1) have "close_document ''delete'' ''deleted'' None (committing db) d a t i e \<lparr>dt_db = read, dt_store = os\<rparr> = (st', res)"
    by (simp add: service_delete_def)
  from close_outcome [OF this assms(2)] show ?thesis by (simp add: status_for_revision_def)
next
  case (Call_Finalize i e)
  with assms(1) have "close_document ''finalize'' ''finalized'' (Some (now d)) (committing db) d a t i e
      \<lparr>dt_db = read, dt_store = os\<rparr> = (st', res)"
    by (simp add: service_finalize_def)
  from close_outcome [OF this assms(2)] show ?thesis by (simp add: status_for_revision_def)
qed

lemma run_call_replayed:
  "replay_result (dt_db st) t = Some res \<Longrightarrow> run_call S d a g t c st = (st, Inr res)"
  by (cases c) (simp_all add: service_create_def service_update_def service_delete_def service_finalize_def close_document_def)

lemma doc_step_cases:
  assumes "doc_step db db'"
  obtains (same) "documents db' = documents db" "document_revisions db' = document_revisions db"
  | (add) r v where "created_pair r v" "\<not> any_row (\<lambda>x. do_id x = do_id r) (documents db)" "fresh_revision v db"
      "documents db' = documents db @ [r]" "document_revisions db' = document_revisions db @ [v]"
  | (update) i u v where "updating_pair i u v" "any_row (update_guard i u) (documents db)" "fresh_revision v db"
      "documents db' = update_where (update_guard i u) (updated_row u) (documents db)"
      "document_revisions db' = document_revisions db @ [v]"
  using assms
proof cases
  case (call_step d a g t c read os st' res)
  have "replay_result read t = None"
  proof (rule ccontr)
    assume "replay_result read t \<noteq> None"
    then have "dt_db st' = read" using call_step(2) run_call_replayed [of "\<lparr>dt_db = read, dt_store = os\<rparr>" t] by auto
    with call_step(3) show False by simp
  qed
  from run_call_outcome [OF call_step(2) this] call_step(1,3) consider "db' = db"
    | r v where "created_pair r v" "adds_document r v db db'"
    | i u v r where "updating_pair i u v" "updates_document i u v r db db'"
    unfolding call_outcome_def by blast
  then show ?thesis
  proof cases
    case 1
    then show ?thesis using same by simp
  next
    case (2 r v)
    then show ?thesis using add by (simp add: adds_document_def)
  next
    case (3 i u v r)
    then show ?thesis using update by (auto simp: updates_document_def list_ex_iff)
  qed
next
  case (folder_step d a g title slug parent sort_order read os st' res)
  then obtain n where "pg_add_folder_node n db = Inr db'"
    by (auto simp: service_create_folder_def rbind_eq_Inr split: sum.splits prod.splits)
  then show ?thesis using same insert_node_frame by (simp add: pg_add_folder_node_def)
qed

section \<open>The history of a document\<close>

definition revisions_of :: "doc_db \<Rightarrow> uuid \<Rightarrow> revision_row list" where
  "revisions_of db i = filter (\<lambda>v. rv_document_id v = i) (document_revisions db)"

definition history_ok :: "doc_db \<Rightarrow> document_row \<Rightarrow> bool" where
  "history_ok db r =
     (let vs = revisions_of db (do_id r)
      in vs \<noteq> [] \<and> numbered (map rv_version vs) \<and> do_current_version r = int (length vs) \<and>
         do_status r = status_for_revision (last vs) \<and> do_content_ref r = rv_content_ref (last vs) \<and>
         do_content_hash r = rv_content_hash (last vs) \<and> do_size_bytes r = rv_size_bytes (last vs))"

definition docs_ok :: "doc_db \<Rightarrow> bool" where
  "docs_ok db =
     (distinct (map do_id (documents db)) \<and> list_all (history_ok db) (documents db) \<and>
      list_all (\<lambda>v. rv_document_id v \<in> do_id ` set (documents db)) (document_revisions db))"

lemma numbered_snoc_length: "numbered xs \<Longrightarrow> n = int (length xs) + 1 \<Longrightarrow> numbered (xs @ [n])"
  using numbered_snoc [of xs] by (simp add: max_or_zero_numbered)

lemma revisions_of_snoc:
  "document_revisions db' = document_revisions db @ [v] \<Longrightarrow>
   revisions_of db' i = revisions_of db i @ (if rv_document_id v = i then [v] else [])"
  by (simp add: revisions_of_def)

lemma updated_row_fields [simp]:
  "do_id (updated_row u r) = do_id r" "do_analysis_id (updated_row u r) = do_analysis_id r"
  "do_status (updated_row u r) = up_status u" "do_current_version (updated_row u r) = up_current_version u"
  "do_content_ref (updated_row u r) = up_content_ref u" "do_content_hash (updated_row u r) = up_content_hash u"
  "do_size_bytes (updated_row u r) = up_size_bytes u" "do_title (updated_row u r) = do_title r"
  by (simp_all add: updated_row_def)

lemma docs_unique: "docs_ok db \<Longrightarrow> x \<in> set (documents db) \<Longrightarrow> y \<in> set (documents db) \<Longrightarrow> do_id x = do_id y \<Longrightarrow> x = y"
  unfolding docs_ok_def distinct_map by (metis inj_onD)

lemma step_docs_ok:
  assumes "doc_step db db'" "docs_ok db"
  shows "docs_ok db'"
  using assms(1)
proof (cases rule: doc_step_cases)
  case same
  with assms(2) show ?thesis by (simp add: docs_ok_def history_ok_def [abs_def] revisions_of_def)
next
  case (add r v)
  note snoc = revisions_of_snoc [OF add(5)]
  have v: "rv_document_id v = do_id r" "rv_version v = 1" using add(1) by (simp_all add: created_pair_def)
  from assms(2) add(2) have none: "revisions_of db (do_id r) = []"
    by (auto simp: docs_ok_def revisions_of_def filter_empty_conv list_all_iff list_ex_iff)
  have "history_ok db' r"
    using add(1) by (simp add: history_ok_def Let_def snoc none created_pair_def numbered_def status_for_revision_def)
  moreover have "history_ok db' x" if "x \<in> set (documents db)" for x
    using assms(2) that add(2) v(1) by (auto simp: docs_ok_def history_ok_def Let_def snoc list_all_iff list_ex_iff)
  ultimately show ?thesis using assms(2) add(2) v(1)
    by (auto simp: docs_ok_def add(4,5) list_all_iff list_ex_iff)
next
  case (update i u v)
  note snoc = revisions_of_snoc [OF update(5)]
  have v: "rv_document_id v = i" using update(1) by (simp add: updating_pair_def)
  from update(2) obtain r where r: "r \<in> set (documents db)" "update_guard i u r" by (auto simp: list_ex_iff)
  have hist: "history_ok db x" if "x \<in> set (documents db)" for x using assms(2) that by (simp add: docs_ok_def list_all_iff)
  have "history_ok db' (if update_guard i u x then updated_row u x else x)" if x: "x \<in> set (documents db)" for x
  proof (cases "do_id x = i")
    case True
    with x r have "x = r" using docs_unique [OF assms(2) x r(1)] by (simp add: update_guard_def)
    have "numbered (map rv_version (revisions_of db i) @ [rv_version v])"
      using hist [OF x] r(2) update(1) \<open>x = r\<close>
      by (intro numbered_snoc_length) (auto simp: history_ok_def Let_def update_guard_def updating_pair_def)
    then show ?thesis using hist [OF x] r(2) update(1) \<open>x = r\<close>
      by (auto simp: history_ok_def Let_def snoc update_guard_def updating_pair_def)
  next
    case False
    then show ?thesis using hist [OF x] v by (auto simp: history_ok_def Let_def snoc update_guard_def)
  qed
  then have "list_all (history_ok db') (documents db')" by (auto simp: update(4) list_all_iff in_update_where)
  moreover have "map do_id (documents db') = map do_id (documents db)" by (simp add: update(4) map_update_where_same)
  moreover have "rv_document_id v \<in> set (map do_id (documents db'))"
    unfolding calculation(2) using r v by (force simp: update_guard_def)
  ultimately show ?thesis using assms(2) v by (simp add: docs_ok_def update(5) list_all_iff) (metis set_map)
qed

lemma reachable_docs_ok: "docs_reachable db \<Longrightarrow> docs_ok db"
proof (induction rule: docs_reachable.induct)
  case docs_start
  show ?case by (simp add: docs_ok_def empty_doc_db_def)
next
  case (docs_step db db')
  then show ?case using step_docs_ok by blast
qed

section \<open>Closed documents and stale writers\<close>

lemma step_document:
  assumes "doc_step db db'" "r \<in> set (documents db)"
  obtains r' where "r' \<in> set (documents db')" "do_id r' = do_id r" "do_analysis_id r' = do_analysis_id r"
    "r' = r \<or> do_status r = ''draft'' \<and> do_current_version r' = do_current_version r + 1"
  using assms(1)
proof (cases rule: doc_step_cases)
  case same
  with assms(2) that show ?thesis by simp
next
  case (add r' v)
  then have "r \<in> set (documents db')" using assms(2) by simp
  then show ?thesis by (rule that) simp_all
next
  case (update i u v)
  show ?thesis
  proof (rule that)
    show "(if update_guard i u r then updated_row u r else r) \<in> set (documents db')"
      using assms(2) by (auto simp: update(4) in_update_where)
  qed (use update(1) in \<open>auto simp: update_guard_def updating_pair_def\<close>)
qed

lemma run_document:
  assumes "doc_step\<^sup>*\<^sup>* db db'" "r \<in> set (documents db)"
  shows "\<exists>r' \<in> set (documents db'). do_id r' = do_id r \<and> do_analysis_id r' = do_analysis_id r \<and>
    do_current_version r \<le> do_current_version r' \<and> (do_status r \<noteq> ''draft'' \<longrightarrow> r' = r)"
  using assms(1)
proof (induction rule: rtranclp_induct)
  case base
  show ?case by (rule bexI [of _ r]) (use assms(2) in auto)
next
  case (step db1 db2)
  then obtain r1 where r1: "r1 \<in> set (documents db1)" "do_id r1 = do_id r" "do_analysis_id r1 = do_analysis_id r"
    "do_current_version r \<le> do_current_version r1" "do_status r \<noteq> ''draft'' \<longrightarrow> r1 = r" by blast
  from step(2) r1(1) obtain r2 where "r2 \<in> set (documents db2)" "do_id r2 = do_id r1" "do_analysis_id r2 = do_analysis_id r1"
    "r2 = r1 \<or> do_status r1 = ''draft'' \<and> do_current_version r2 = do_current_version r1 + 1"
    by (rule step_document)
  with r1 show ?case by (intro bexI [of _ r2]) auto
qed

lemma reachable_run: "doc_step\<^sup>*\<^sup>* db db' \<Longrightarrow> docs_reachable db \<Longrightarrow> docs_reachable db'"
  by (induction rule: rtranclp_induct) (auto intro: docs_step)

text \<open>
  C10: Whichever calls create, update, delete and finalize documents, in whatever order they reach the tables and however
  stale what they have read, the revisions of a document are numbered 1, 2, 3 and so on without gap or repetition, the
  document's version is their number, and its status and content are those of the last revision.
\<close>
theorem document_history_consistent:
  assumes "docs_reachable db" "r \<in> set (documents db)"
  shows "map rv_version (revisions_of db (do_id r)) = map (\<lambda>n. int n + 1) [0..<length (revisions_of db (do_id r))] \<and>
    do_current_version r = int (length (revisions_of db (do_id r))) \<and>
    do_status r = status_for_revision (last (revisions_of db (do_id r))) \<and>
    do_content_ref r = rv_content_ref (last (revisions_of db (do_id r))) \<and>
    do_content_hash r = rv_content_hash (last (revisions_of db (do_id r))) \<and>
    do_size_bytes r = rv_size_bytes (last (revisions_of db (do_id r)))"
  using reachable_docs_ok [OF assms(1)] assms(2) by (auto simp: docs_ok_def list_all_iff history_ok_def Let_def numbered_def)

text \<open>
  C11: A document that is finalized or deleted is never written again, and a writer that read a version older than
  the present one is refused and changes nothing, in every later state: no update is lost.
\<close>
theorem document_no_lost_update:
  assumes "docs_reachable db" "doc_step\<^sup>*\<^sup>* db db'" "r \<in> set (documents db)"
  shows "(do_status r \<noteq> ''draft'' \<longrightarrow> r \<in> set (documents db')) \<and>
    (up_expected_version u < do_current_version r \<longrightarrow>
       pg_update_document_with_revision (do_id r) u v db' = Inr (db', None) \<and>
       pg_update_document_tree_with_revision (do_id r) u sections v srevs db' = Inr (db', None))"
proof -
  obtain r' where r': "r' \<in> set (documents db')" "do_id r' = do_id r" "do_current_version r \<le> do_current_version r'"
    "do_status r \<noteq> ''draft'' \<longrightarrow> r' = r"
    using run_document [OF assms(2,3)] by blast
  have only: "x = r'" if "x \<in> set (documents db')" "do_id x = do_id r" for x
    using that r' docs_unique [OF reachable_docs_ok [OF reachable_run [OF assms(2,1)]]] by simp
  have "find (\<lambda>x. do_id x = do_id r \<and> do_current_version x = up_expected_version u \<and> do_status x = up_expected_status u)
      (documents db') = None" if "up_expected_version u < do_current_version r"
    using only r'(3) that by (auto simp: find_None_iff)
  then show ?thesis using r' by (auto simp: pg_update_document_with_revision_def pg_update_document_tree_with_revision_def guarded_update_def)
qed

section \<open>Calls of the service\<close>

lemma pg_docs_simps [simp]:
  "ds_add_folder_node pg_docs = pg_add_folder_node" "ds_add_document pg_docs = pg_add_document_with_revision"
  "ds_add_document_tree pg_docs = pg_add_document_tree_with_revision"
  "ds_update_document pg_docs = pg_update_document_with_revision"
  "ds_update_document_tree pg_docs = pg_update_document_tree_with_revision"
  by (simp_all add: pg_docs_def)

section \<open>Replayed calls\<close>

lemma run_revisions: "doc_step\<^sup>*\<^sup>* db db' \<Longrightarrow> \<exists>vs. document_revisions db' = document_revisions db @ vs"
proof (induction rule: rtranclp_induct)
  case (step db1 db2)
  from step(2) have "\<exists>vs. document_revisions db2 = document_revisions db1 @ vs" by (cases rule: doc_step_cases) auto
  with step(3) show ?case by auto
qed simp

lemma find_SomeD: "find p xs = Some x \<Longrightarrow> x \<in> set xs \<and> p x"
  by (auto simp: find_Some_iff)

lemma find_append: "find p (xs @ ys) = (case find p xs of None \<Rightarrow> find p ys | Some x \<Rightarrow> Some x)"
  by (induction xs) auto

lemma document_result_fields [simp]:
  "obj_get (document_result_with_tree r n ss) ''document_id'' = JStr (uuid_str (do_id r))"
  "obj_get (document_result_with_tree r n ss) ''status'' = JStr (do_status r)"
  "obj_get (document_result_with_tree r n ss) ''version'' = JInt (do_current_version r)"
  "obj_get (document_result_with_tree r n ss) ''content_ref'' = JStr (do_content_ref r)"
  "obj_get (document_result_with_tree r n ss) ''content_hash'' = JStr (do_content_hash r)"
  by (simp_all add: document_result_with_tree_def obj_get_def)

lemma replay_later:
  assumes "find_revision_by_tool_call db t = Some v" "r \<in> set (documents db)" "do_id r = rv_document_id v"
    and "doc_step\<^sup>*\<^sup>* db db'"
  shows "\<exists>r'. do_id r' = do_id r \<and> replay_result db' t = Some (document_result (replay_row r' v))"
proof -
  obtain vs where "document_revisions db' = document_revisions db @ vs" using run_revisions [OF assms(4)] by blast
  then have v: "find_revision_by_tool_call db' t = Some v"
    using assms(1) by (simp add: find_revision_by_tool_call_def find_append)
  obtain r' where "r' \<in> set (documents db')" "do_id r' = do_id r" using run_document [OF assms(4,2)] by blast
  then obtain r'' where "get_document db' (rv_document_id v) = Some r''" "do_id r'' = do_id r"
    using assms(3) by (cases "get_document db' (rv_document_id v)") (auto simp: get_document_def find_None_iff find_Some_iff)
  with v show ?thesis by (auto simp: replay_result_def)
qed

text \<open>The revision and the row that a call has written, as far as its answer shows them.\<close>

definition row_matches :: "document_row \<Rightarrow> revision_row \<Rightarrow> bool" where
  "row_matches r v \<longleftrightarrow> do_id r = rv_document_id v \<and> do_status r = status_for_revision v \<and> do_current_version r = rv_version v \<and>
     do_content_ref r = rv_content_ref v \<and> do_content_hash r = rv_content_hash v"

lemma fresh_revision_found:
  "fresh_revision v db \<Longrightarrow> document_revisions db' = document_revisions db @ [v] \<Longrightarrow>
   find_revision_by_tool_call db' (rv_tool_call_id v) = Some v"
  by (auto simp: fresh_revision_def find_revision_by_tool_call_def find_append list_ex_iff find_None_iff split: option.splits
      dest: find_SomeD)

lemma outcome_recorded:
  assumes "call_outcome read db t db' (Inr res)"
  obtains r v n ss where "find_revision_by_tool_call db' t = Some v" "r \<in> set (documents db')" "row_matches r v"
    "res = document_result_with_tree r n ss"
  using assms unfolding call_outcome_def
proof (elim disjE exE conjE)
  fix r v n ss
  assume a: "created_pair r v" "rv_tool_call_id v = t" "adds_document r v db db'" "Inr res = Inr (document_result_with_tree r n ss)"
  show ?thesis
  proof (rule that)
    show "find_revision_by_tool_call db' t = Some v" using fresh_revision_found [of v db db'] a by (simp add: adds_document_def)
    show "row_matches r v" using a(1) by (simp add: row_matches_def created_pair_def status_for_revision_def)
  qed (use a in \<open>simp_all add: adds_document_def\<close>)
next
  fix i u v r n ss
  assume a: "updating_pair i u v" "rv_tool_call_id v = t" "updates_document i u v r db db'"
    "Inr res = Inr (document_result_with_tree (updated_row u r) n ss)"
  show ?thesis
  proof (rule that)
    show "find_revision_by_tool_call db' t = Some v" using fresh_revision_found [of v db db'] a by (simp add: updates_document_def)
    show "row_matches (updated_row u r) v"
      using a(1,3) by (simp add: row_matches_def updating_pair_def updates_document_def update_guard_def)
    show "updated_row u r \<in> set (documents db')"
      using a(3) by (auto simp: updates_document_def in_update_where)
  qed (use a in simp)
qed simp_all

text \<open>
  C12: A tool call that created, updated, deleted or finalized a document is answered from its recorded revision ever after,
  whatever tables the first call had read and whatever other writers have done since: repeating it, as any of the four
  operations and with any arguments, changes nothing and reports the document, the version, the status and the content
  that the first call produced.
\<close>
theorem document_call_replayed:
  assumes "run_call (committing db) d a g t c \<lparr>dt_db = read, dt_store = os\<rparr> = (st', Inr res)" "replay_result read t = None"
    and "doc_step\<^sup>*\<^sup>* (dt_db st') (dt_db st'')"
  shows "\<exists>res'. run_call pg_docs d' a' g' t c' st'' = (st'', Inr res') \<and>
    list_all (\<lambda>k. obj_get res' k = obj_get res k) [''document_id'', ''status'', ''version'', ''content_ref'', ''content_hash'']"
proof -
  from run_call_outcome [OF assms(1,2)] obtain r v n ss where w: "find_revision_by_tool_call (dt_db st') t = Some v"
      "r \<in> set (documents (dt_db st'))" "row_matches r v" "res = document_result_with_tree r n ss"
    by (rule outcome_recorded)
  have "do_id r = rv_document_id v" using w(3) by (simp add: row_matches_def)
  from replay_later [OF w(1,2) this assms(3)] obtain r'' where
    r'': "do_id r'' = do_id r" "replay_result (dt_db st'') t = Some (document_result (replay_row r'' v))" by blast
  have "list_all (\<lambda>k. obj_get (document_result (replay_row r'' v)) k = obj_get res k)
      [''document_id'', ''status'', ''version'', ''content_ref'', ''content_hash'']"
    using w(3) r''(1) by (simp add: document_result_def w(4) replay_row_def row_matches_def)
  with run_call_replayed [OF r''(2)] show ?thesis by blast
qed

section \<open>Reading back\<close>

text \<open>The section objects do not overwrite the document's own.\<close>

lemma section_rows_store:
  assumes "section_rows d k a i v t n existing items store = (rows, srevs, store')"
  shows "get_bytes store' (document_content_key a' i' n' t') = get_bytes store (document_content_key a' i' n' t')"
  using assms
proof (induction d k a i v t n existing items store arbitrary: rows srevs store' rule: section_rows.induct)
  case (2 d k a i v t n existing s ss store)
  then show ?case
    by (auto simp: Let_def mem_store.get_put document_key_not_section_key split: prod.splits)
qed simp

lemma read_text_put: "read_text (put_bytes store k (utf8_encode s) ct) k = Inr s"
  by (simp add: read_text_def mem_store.get_put)

lemma find_snoc_new: "\<not> any_row (\<lambda>x. f x = f r) rows \<Longrightarrow> find (\<lambda>x. f x = f r) (rows @ [r]) = Some r"
  by (induction rows) auto

lemma pg_add_result:
  assumes "pg_add_document_with_revision r v db = Inr db'"
  shows "get_document db' (do_id r) = Some r"
  using assms by (auto simp: pg_add_document_with_revision_def rbind_eq_Inr insert_document_eq insert_revision_eq
      get_document_def find_snoc_new)

lemma pg_add_tree_result:
  assumes "pg_add_document_tree_with_revision r n ss v srevs db = Inr db'"
  shows "get_document db' (do_id r) = Some r"
proof -
  from assms obtain db1 db2 db3 db4 where w: "insert_document r db = Inr db1" "insert_node n db1 = Inr db2"
      "insert_revision v db2 = Inr db3" "each upsert_section ss db3 = Inr db4" "each insert_section_revision srevs db4 = Inr db'"
    by (auto simp: pg_add_document_tree_with_revision_def rbind_eq_Inr)
  have "documents db' = documents db @ [r]" "\<not> any_row (\<lambda>x. do_id x = do_id r) (documents db)"
    using w insert_node_frame [OF w(2)] each_upsert_frame [OF w(4)] each_revision_frame [OF w(5)]
    by (simp_all add: insert_document_eq insert_revision_eq)
  then show ?thesis by (simp add: get_document_def find_snoc_new)
qed


lemma service_create_result:
  assumes "service_create pg_docs d a g t args st = (st', Inr res)" "replay_result (dt_db st) t = None"
  shows "\<exists>sections c r. normalize_sections (ca_sections args) = Inr sections \<and>
    render_document_content (ca_title args) (Some (ca_content args)) sections None = Inr c \<and>
    get_document (dt_db st') (new_id d 0) = Some r \<and> do_analysis_id r = a \<and> do_status r = ''draft'' \<and>
    read_text (dt_store st') (do_content_ref r) = Inr c"
proof -
  from assms obtain sections c where sc: "normalize_sections (ca_sections args) = Inr sections"
      "render_document_content (ca_title args) (Some (ca_content args)) sections None = Inr c"
    by (auto simp: service_create_def split: sum.splits)
  define data where "data = utf8_encode c"
  define ref where "ref = document_content_key a (new_id d 0) 1 (Some t)"
  define store1 where "store1 = put_bytes (dt_store st) ref data markdown_type"
  define r where "r = \<lparr>do_id = new_id d 0, do_analysis_id = a, do_agent_id = g, do_title = ca_title args, do_kind = ca_kind args,
                             do_status = ''draft'', do_current_version = 1, do_content_ref = ref, do_content_hash = content_hash data,
                             do_size_bytes = int (length data), do_created_at = now d, do_updated_at = now d,
                             do_finalized_at = None\<rparr>"
  define v where "v = revision_payload (new_id d (Suc 0)) (new_id d 0) 1 t ''create'' ref (content_hash data) (int (length data)) (now d)"
  have r: "do_id r = new_id d 0" "do_analysis_id r = a" "do_status r = ''draft''" "do_content_ref r = ref"
    by (simp_all add: r_def)
  have read1: "read_text store1 ref = Inr c" by (simp add: store1_def data_def read_text_put)
  have "get_document (dt_db st') (do_id r) = Some r \<and> read_text (dt_store st') ref = Inr c"
  proof (cases "ca_parent_node_id args = None \<and> ca_slug args = None \<and> ca_focus_area args = None \<and> sections = []")
    case True
    with assms sc obtain db' where "pg_add_document_with_revision r v (dt_db st) = Inr db'" "dt_db st' = db'" "dt_store st' = store1"
      by (auto simp: service_create_def Let_def data_def [symmetric] ref_def [symmetric] v_def [symmetric]
          store1_def [symmetric] r_def [symmetric] split: sum.splits)
    with pg_add_result read1 show ?thesis by auto
  next
    case False
    with assms sc obtain n rows srevs store2 db' where
      w: "section_rows d 3 a (new_id d 0) (rv_id v) t 1 [] sections store1 = (rows, srevs, store2)"
        "pg_add_document_tree_with_revision r n rows v srevs (dt_db st) = Inr db'" "dt_db st' = db'" "dt_store st' = store2"
      by (auto simp: service_create_def Let_def data_def [symmetric] ref_def [symmetric] v_def [symmetric]
          store1_def [symmetric] r_def [symmetric] split: sum.splits prod.splits if_splits)
    have "read_text store2 ref = read_text store1 ref"
      using section_rows_store [OF w(1)] by (simp add: read_text_def ref_def)
    with w pg_add_tree_result [OF w(2)] read1 show ?thesis by simp
  qed
  with sc r show ?thesis by (intro exI [of _ sections] exI [of _ c] exI [of _ r]) simp
qed

text \<open>
  What was created is what is read: a document created with sections has the rendered sections as its
  content, one without has the given content, byte for byte after encoding and decoding.
\<close>
theorem document_read_after_create:
  assumes "service_create pg_docs d a g t args st = (st', Inr res)" "replay_result (dt_db st) t = None"
  shows "\<exists>sections c res'. normalize_sections (ca_sections args) = Inr sections \<and>
    (if sections = [] then c = ca_content args
     else Inr c = render_document_content (ca_title args) None sections None) \<and>
    service_get a (new_id d 0) True False st' = Inr res' \<and> obj_get res' ''content'' = JStr c"
proof -
  from service_create_result [OF assms] obtain sections c r where
    c: "normalize_sections (ca_sections args) = Inr sections"
      "render_document_content (ca_title args) (Some (ca_content args)) sections None = Inr c"
      "get_document (dt_db st') (new_id d 0) = Some r" "do_analysis_id r = a" "do_status r = ''draft''"
      "read_text (dt_store st') (do_content_ref r) = Inr c"
    by blast
  have content: "if sections = [] then c = ca_content args else Inr c = render_document_content (ca_title args) None sections None"
    using c(2) by (auto simp: render_document_content_def)
  have "document_for_analysis (dt_db st') a (new_id d 0) = Inr r" using c by (simp add: document_for_analysis_def)
  then obtain res' where "service_get a (new_id d 0) True False st' = Inr (res' @ [(''content'', JStr c)])"
      "obj_get (res' @ [(''content'', JStr c)]) ''content'' = JStr c"
    using c(6) by (auto simp: service_get_def document_result_with_related_def Let_def document_result_with_tree_def obj_get_def
        split: option.splits)
  with c(1) content show ?thesis by blast
qed

lemma merge_section_values: "set (map snd (merge_section d s)) \<subseteq> insert s (set (map snd d))"
  unfolding merge_section_def by (rule dict_values_update)

lemma merge_values: "set (map snd (foldl merge_section d xs)) \<subseteq> set (map snd d) \<union> set xs"
proof (induction xs arbitrary: d)
  case (Cons x xs)
  have "set (map snd (foldl merge_section d (x # xs))) \<subseteq> set (map snd (merge_section d x)) \<union> set xs"
    using Cons.IH [of "merge_section d x"] by simp
  also have "\<dots> \<subseteq> set (map snd d) \<union> set (x # xs)" using merge_section_values [of d x] by auto
  finally show ?case .
qed simp

lemma merge_Nil: "foldl merge_section d xs = [] \<longleftrightarrow> d = [] \<and> xs = []"
proof (induction xs arbitrary: d)
  case (Cons x xs)
  have "merge_section d x \<noteq> []" by (cases d) (auto simp: merge_section_def)
  then show ?case using Cons.IH by simp
qed simp

lemma merged_sections_set: "set (merged_sections existing updates) \<subseteq> existing_item ` set existing \<union> set updates"
  using merge_values [of "[]" "map existing_item existing @ updates"] by (simp add: merged_sections_def)

lemma merged_sections_Nil: "merged_sections existing updates = [] \<longleftrightarrow> existing = [] \<and> updates = []"
proof -
  have "length (merged_sections existing updates) = length (foldl merge_section [] (map existing_item existing @ updates))"
    unfolding merged_sections_def by simp
  then show ?thesis using merge_Nil [of "[]" "map existing_item existing @ updates"] by auto
qed

text \<open>
  An update that gives content but no sections to a document that has sections loses both: the content is
  ignored, whatever it is, and the new version is the section titles with every section's text left out.
\<close>
theorem update_without_sections_loses_text:
  assumes "replay_result (dt_db st) t = None" "open_for_change (dt_db st) a i e = Inr r" "list_sections (dt_db st) i \<noteq> []"
  shows "service_update S d a t i e (Some content) None st = service_update S d a t i e (Some content') None st \<and>
    (\<exists>items. update_plan st a i e (Some content) None = Inr ([], list_sections (dt_db st) i, items,
        rstrip_by is_space (join_with [newline] ([''# '' @ do_title r, []] @ concat (map section_lines items))) @ [newline]) \<and>
      items \<noteq> [] \<and> list_all (\<lambda>s. si_content s = []) items)"
proof -
  let ?items = "merged_sections (map (\<lambda>s. (s, None)) (list_sections (dt_db st) i)) []"
  have ne: "?items \<noteq> []" using assms(3) by (simp add: merged_sections_Nil)
  have empty: "list_all (\<lambda>s. si_content s = []) ?items"
    using merged_sections_set [of "map (\<lambda>s. (s, None)) (list_sections (dt_db st) i)" "[]"]
    by (force simp: list_all_iff existing_item_def)
  have plan: "update_plan st a i e (Some c) None = Inr ([], list_sections (dt_db st) i, ?items,
        rstrip_by is_space (join_with [newline] ([''# '' @ do_title r, []] @ concat (map section_lines ?items))) @ [newline])" for c
    using assms(2) ne by (simp add: update_plan_def normalize_sections_def render_document_content_def Let_def)
  then show ?thesis using ne empty by (simp add: service_update_def assms(1))
qed

section \<open>A small history\<close>

definition doc_draws :: "nat \<Rightarrow> draws" where
  "doc_draws n = \<lparr>now = int n, now_iso = ''2026-01-01T00:00:00+00:00'', new_id = (\<lambda>k. of_nat (n + k))\<rparr>"

text \<open>The document that the call 3 creates in empty tables.\<close>

definition sample_create :: create_args where
  "sample_create = \<lparr>ca_title = ''Overview'', ca_kind = ''report'', ca_content = ''text'', ca_parent_node_id = None, ca_slug = None,
     ca_focus_area = None, ca_sections = None\<rparr>"

definition sample_document :: document_row where
  "sample_document = \<lparr>do_id = 10, do_analysis_id = 1, do_agent_id = 2, do_title = ''Overview'', do_kind = ''report'',
     do_status = ''draft'', do_current_version = 1, do_content_ref = document_content_key 1 10 1 (Some 3),
     do_content_hash = content_hash (utf8_encode ''text''), do_size_bytes = int (length (utf8_encode ''text'')),
     do_created_at = 10, do_updated_at = 10, do_finalized_at = None\<rparr>"

definition sample_revision :: revision_row where
  "sample_revision = revision_payload 11 10 1 3 ''create'' (document_content_key 1 10 1 (Some 3))
     (content_hash (utf8_encode ''text'')) (int (length (utf8_encode ''text''))) 10"

definition sample_section :: section_row where
  "sample_section = \<lparr>se_id = 20, se_document_id = 10, se_stable_id = ''intro'', se_title = ''Introduction'', se_sort_order = 0,
     se_content_ref = ''sec'', se_content_hash = ''h'', se_size_bytes = 5, se_created_at = 0, se_updated_at = 0\<rparr>"

definition sample_docs :: "section_row list \<Rightarrow> doc_state" where
  "sample_docs ss = \<lparr>dt_db = \<lparr>documents = [sample_document], document_nodes = [], document_sections = ss,
     document_revisions = [sample_revision], document_section_revisions = []\<rparr>, dt_store = empty_store\<rparr>"

lemma sample_tables [simp]:
  "documents (dt_db (sample_docs ss)) = [sample_document]" "document_nodes (dt_db (sample_docs ss)) = []"
  "document_sections (dt_db (sample_docs ss)) = ss" "document_revisions (dt_db (sample_docs ss)) = [sample_revision]"
  "document_section_revisions (dt_db (sample_docs ss)) = []" "dt_store (sample_docs ss) = empty_store"
  by (simp_all add: sample_docs_def)

lemma sample_created:
  "\<exists>os res. run_call (committing empty_doc_db) (doc_draws 10) 1 2 3 (Call_Create sample_create)
     \<lparr>dt_db = empty_doc_db, dt_store = empty_store\<rparr> = (\<lparr>dt_db = dt_db (sample_docs []), dt_store = os\<rparr>, Inr res)"
proof -
  have "replay_result empty_doc_db 3 = None" by (simp add: replay_result_def find_revision_by_tool_call_def empty_doc_db_def)
  then show ?thesis
    by (simp add: service_create_def sample_create_def normalize_sections_def render_document_content_def Let_def
        pg_add_document_with_revision_def insert_document_def insert_revision_def sample_document_def sample_docs_def
        sample_revision_def doc_draws_def empty_doc_db_def)
qed

lemma sample_docs_reachable: "docs_reachable (dt_db (sample_docs []))"
proof -
  obtain os res where c: "run_call (committing empty_doc_db) (doc_draws 10) 1 2 3 (Call_Create sample_create)
     \<lparr>dt_db = empty_doc_db, dt_store = empty_store\<rparr> = (\<lparr>dt_db = dt_db (sample_docs []), dt_store = os\<rparr>, Inr res)"
    using sample_created by blast
  have "dt_db (sample_docs []) \<noteq> empty_doc_db" by (simp add: sample_docs_def empty_doc_db_def)
  with call_step [OF c] docs_step [OF docs_start] show ?thesis by simp
qed

theorem document_history_consistent_witness:
  "map rv_version (revisions_of (dt_db (sample_docs [])) 10) = [1] \<and>
     do_status sample_document = status_for_revision (last (revisions_of (dt_db (sample_docs [])) 10))"
  using document_history_consistent [OF sample_docs_reachable, of sample_document]
  by (simp add: sample_docs_def sample_document_def sample_revision_def revision_payload_def revisions_of_def)

theorem document_no_lost_update_witness:
  "pg_update_document_with_revision 10 (draft_updates 0 ''x'' [] 5) sample_revision (dt_db (sample_docs [])) =
     Inr (dt_db (sample_docs []), None)"
  using document_no_lost_update [OF sample_docs_reachable rtranclp.rtrancl_refl, of sample_document
      "draft_updates 0 ''x'' [] 5" sample_revision]
  by (simp add: sample_docs_def sample_document_def draft_updates_def)

lemma sample_new_call: "t \<noteq> 3 \<Longrightarrow> replay_result (dt_db (sample_docs ss)) t = None"
    "t \<noteq> 3 \<Longrightarrow> find_revision_by_tool_call (dt_db (sample_docs ss)) t = None"
  by (simp_all add: replay_result_def find_revision_by_tool_call_def sample_docs_def sample_revision_def revision_payload_def)

lemma sample_open: "open_for_change (dt_db (sample_docs ss)) 1 10 1 = Inr sample_document"
  by (simp add: open_for_change_def document_for_analysis_def get_document_def sample_docs_def sample_document_def ensure_mutable_def)

theorem document_call_replayed_witness:
  "\<exists>st' res res'. run_call pg_docs (doc_draws 90) 1 2 3 (Call_Delete 10 1) st' = (st', Inr res') \<and>
     run_call (committing empty_doc_db) (doc_draws 10) 1 2 3 (Call_Create sample_create)
       \<lparr>dt_db = empty_doc_db, dt_store = empty_store\<rparr> = (st', Inr res) \<and>
     obj_get res' ''version'' = obj_get res ''version''"
proof -
  obtain os res where c: "run_call (committing empty_doc_db) (doc_draws 10) 1 2 3 (Call_Create sample_create)
     \<lparr>dt_db = empty_doc_db, dt_store = empty_store\<rparr> = (\<lparr>dt_db = dt_db (sample_docs []), dt_store = os\<rparr>, Inr res)"
    using sample_created by blast
  have "replay_result empty_doc_db 3 = None" by (simp add: replay_result_def find_revision_by_tool_call_def empty_doc_db_def)
  from document_call_replayed [OF c this rtranclp.rtrancl_refl, of "doc_draws 90" 1 2 "Call_Delete 10 1"] c
  show ?thesis by auto
qed

theorem document_read_after_create_witness:
  "\<exists>st' res res'. service_create pg_docs (doc_draws 50) 1 2 4 sample_create (sample_docs []) = (st', Inr res) \<and>
     service_get 1 50 True False st' = Inr res' \<and> obj_get res' ''content'' = JStr ''text''"
proof -
  obtain st' res where c: "service_create pg_docs (doc_draws 50) 1 2 4 sample_create (sample_docs []) = (st', Inr res)"
    by (simp add: service_create_def sample_new_call sample_create_def normalize_sections_def render_document_content_def Let_def
        pg_add_document_with_revision_def insert_document_def insert_revision_def sample_document_def
        sample_revision_def revision_payload_def doc_draws_def)
  have "new_id (doc_draws 50) 0 = 50" by (simp add: doc_draws_def)
  with c document_read_after_create [OF c sample_new_call(1)] show ?thesis
    by (auto simp: sample_create_def normalize_sections_def)
qed

theorem update_without_sections_loses_text_witness:
  "service_update pg_docs (doc_draws 50) 1 4 10 1 (Some ''a long report'') None (sample_docs [sample_section]) =
   service_update pg_docs (doc_draws 50) 1 4 10 1 (Some '''') None (sample_docs [sample_section])"
proof -
  have "list_sections (dt_db (sample_docs [sample_section])) 10 \<noteq> []"
    by (simp add: list_sections_def sample_docs_def sample_section_def)
  from update_without_sections_loses_text [OF sample_new_call(1) sample_open this] show ?thesis by simp
qed

section \<open>Section lists\<close>

definition valid_section :: "section_item \<Rightarrow> bool" where
  "valid_section s = (SECTION_ID_PATTERN (si_stable_id s) \<and> si_title s \<noteq> [] \<and> length (si_title s) \<le> 200)"

lemma normalize_sections_loop_ok:
  assumes "normalize_sections_loop xs seen acc = Inr ss" "list_all valid_section acc"
    and "distinct (map si_stable_id acc)" "set (map si_stable_id acc) \<subseteq> set seen"
  shows "list_all valid_section ss \<and> distinct (map si_stable_id ss) \<and> length ss = length xs + length acc"
  using assms
proof (induction xs seen acc rule: normalize_sections_loop.induct)
  case (2 raw rest seen acc)
  let ?i = "py_strip (py_str (py_or (obj_get raw ''stable_id'') (JStr '''')))"
  let ?t = "py_strip (py_str (py_or (obj_get raw ''title'') (JStr '''')))"
  let ?c = "py_str (py_or (obj_get raw ''content'') (JStr ''''))"
  from "2.prems"(1) obtain n where n: "py_int (py_or (obj_get raw ''sort_order'') (JInt 0)) = Inr n"
    by (auto simp: Let_def split: sum.splits)
  let ?s = "\<lparr>si_stable_id = ?i, si_title = ?t, si_content = ?c, si_sort_order = n\<rparr>"
  from "2.prems"(1) n have ok: "SECTION_ID_PATTERN ?i" "?i \<notin> set seen" "?t \<noteq> []" "length ?t \<le> 200"
    and rest: "normalize_sections_loop rest (?i # seen) (acc @ [?s]) = Inr ss"
    by (auto simp: Let_def split: if_splits)
  have "list_all valid_section ss \<and> distinct (map si_stable_id ss) \<and> length ss = length rest + length (acc @ [?s])"
  proof (rule "2.IH" [OF refl refl refl n])
    show "distinct (map si_stable_id (acc @ [?s]))" using "2.prems"(3,4) ok(2) by auto
  qed (use ok rest "2.prems" in \<open>auto simp: valid_section_def\<close>)
  then show ?case by simp
qed simp_all

text \<open>
  An accepted list of sections has at most 20 entries, one for each given, with valid and pairwise different
  stable ids and titles of 1 to 200 characters, in the order of their sort keys.
\<close>
theorem document_sections_validated:
  assumes "normalize_sections (Some xs) = Inr ss"
  shows "length ss = length xs \<and> length ss \<le> 20 \<and> distinct (map si_stable_id ss) \<and> sorted (map section_order ss) \<and>
    (\<forall>s \<in> set ss. SECTION_ID_PATTERN (si_stable_id s) \<and> 0 < length (si_title s) \<and> length (si_title s) \<le> 200)"
proof (cases "xs = []")
  case True
  with assms show ?thesis by (simp add: normalize_sections_def)
next
  case False
  with assms obtain ys where ys: "length xs \<le> 20" "normalize_sections_loop xs [] [] = Inr ys" "ss = sort_key section_order ys"
    by (auto simp: normalize_sections_def rbind_eq_Inr split: if_splits)
  from normalize_sections_loop_ok [OF ys(2)] have "list_all valid_section ys" "distinct (map si_stable_id ys)" "length ys = length xs"
    by simp_all
  then show ?thesis using ys by (auto simp: list_all_iff valid_section_def distinct_map)
qed

definition sample_section_json :: "json list" where
  "sample_section_json = [JObj [(''stable_id'', JStr ''intro''), (''title'', JStr '' Introduction ''), (''content'', JStr ''x'')]]"

theorem document_sections_validated_witness:
  "\<exists>ss. normalize_sections (Some sample_section_json) = Inr ss \<and> length ss = 1 \<and> sorted (map section_order ss)"
proof -
  have "normalize_sections (Some sample_section_json) =
      Inr [\<lparr>si_stable_id = ''intro'', si_title = ''Introduction'', si_content = ''x'', si_sort_order = 0\<rparr>]" by code_simp
  from this document_sections_validated [OF this] show ?thesis by simp
qed

section \<open>The tree of nodes\<close>

fun tree_nodes :: "doc_tree \<Rightarrow> node_row list" where
  "tree_nodes (TreeNode n ts) = n # concat (map tree_nodes ts)"

definition forest_nodes :: "doc_tree list \<Rightarrow> node_row list" where
  "forest_nodes ts = concat (map tree_nodes ts)"

fun well_parented :: "doc_tree \<Rightarrow> bool" where
  "well_parented (TreeNode n ts) =
     list_all (\<lambda>t. nd_parent_id (tree_node t) = Some (nd_id n) \<and> well_parented t) ts"

lemma insert_under_absent: "p \<notin> nd_id ` set (tree_nodes t) \<Longrightarrow> insert_under p item t = t"
proof (induction p item t rule: insert_under.induct)
  case (1 p item n ts)
  then have "map (insert_under p item) ts = ts" by (intro map_idI) auto
  with 1 show ?case by auto
qed

lemma insert_under_root [simp]: "tree_node (insert_under p item t) = tree_node t"
  by (cases t) simp

text \<open>Inserting below a node that occurs once adds the item once.\<close>

lemma forest_insert:
  assumes "\<And>t. t \<in> set ts \<Longrightarrow> p \<in> nd_id ` set (tree_nodes t) \<Longrightarrow> distinct (map nd_id (tree_nodes t)) \<Longrightarrow>
      mset (tree_nodes (insert_under p item t)) = mset (tree_nodes t) + mset (tree_nodes item)"
    and "p \<in> nd_id ` set (forest_nodes ts)" "distinct (map nd_id (forest_nodes ts))"
  shows "mset (forest_nodes (map (insert_under p item) ts)) = mset (forest_nodes ts) + mset (tree_nodes item)"
  using assms
proof (induction ts)
  case (Cons t ts)
  show ?case
  proof (cases "p \<in> nd_id ` set (tree_nodes t)")
    case True
    with Cons.prems(3) have "p \<notin> nd_id ` set (tree_nodes x)" if "x \<in> set ts" for x
      using that by (fastforce simp: forest_nodes_def)
    then have "map (insert_under p item) ts = ts" by (intro map_idI insert_under_absent)
    with True Cons.prems show ?thesis by (simp add: forest_nodes_def)
  next
    case False
    then have "insert_under p item t = t" by (rule insert_under_absent)
    moreover have "p \<in> nd_id ` set (forest_nodes ts)" "distinct (map nd_id (forest_nodes ts))"
      using Cons.prems False by (auto simp: forest_nodes_def)
    ultimately show ?thesis using Cons.IH Cons.prems(1) by (simp add: forest_nodes_def)
  qed
qed (simp add: forest_nodes_def)

lemma insert_under_mset:
  "p \<in> nd_id ` set (tree_nodes t) \<Longrightarrow> distinct (map nd_id (tree_nodes t)) \<Longrightarrow>
   mset (tree_nodes (insert_under p item t)) = mset (tree_nodes t) + mset (tree_nodes item)"
proof (induction p item t rule: insert_under.induct)
  case (1 p item n ts)
  show ?case
  proof (cases "nd_id n = p")
    case False
    then have "mset (forest_nodes (map (insert_under p item) ts)) = mset (forest_nodes ts) + mset (tree_nodes item)"
      using 1 by (intro forest_insert) (auto simp: forest_nodes_def)
    with False show ?thesis by (simp add: forest_nodes_def)
  qed simp
qed

lemma insert_under_parented:
  "well_parented t \<Longrightarrow> well_parented item \<Longrightarrow> nd_parent_id (tree_node item) = Some p \<Longrightarrow> well_parented (insert_under p item t)"
  by (induction p item t rule: insert_under.induct) (auto simp: list_all_iff)

lemma build_tree_loop_nodes:
  assumes "set seen = nd_id ` set (forest_nodes roots)" "distinct (map nd_id (forest_nodes roots @ ns))"
    and "\<forall>n \<in> set ns. nd_parent_id n \<noteq> Some (nd_id n)" "list_all well_parented roots"
  shows "mset (forest_nodes (build_tree_loop seen roots ns)) = mset (forest_nodes roots @ ns) \<and>
    list_all well_parented (build_tree_loop seen roots ns)"
  using assms
proof (induction seen roots ns rule: build_tree_loop.induct)
  case (2 seen roots n ns)
  let ?root = "nd_parent_id n = None \<or> (\<exists>p. nd_parent_id n = Some p \<and> p \<notin> set (nd_id n # seen))"
  show ?case
  proof (cases ?root)
    case True
    then have "build_tree_loop seen roots (n # ns) = build_tree_loop (nd_id n # seen) (roots @ [TreeNode n []]) ns"
      by (auto simp: Let_def)
    moreover have "mset (forest_nodes (build_tree_loop (nd_id n # seen) (roots @ [TreeNode n []]) ns)) =
        mset (forest_nodes (roots @ [TreeNode n []]) @ ns) \<and>
        list_all well_parented (build_tree_loop (nd_id n # seen) (roots @ [TreeNode n []]) ns)"
      using True 2(1,2) "2.prems" by (elim disjE exE) (force simp: forest_nodes_def)+
    ultimately show ?thesis by (simp add: forest_nodes_def)
  next
    case False
    then obtain p where p: "nd_parent_id n = Some p" "p \<in> set seen" using "2.prems"(3) by (cases "nd_parent_id n") auto
    let ?roots = "map (insert_under p (TreeNode n [])) roots"
    have m: "mset (forest_nodes ?roots) = mset (forest_nodes roots) + {#n#}"
      using forest_insert [of roots p "TreeNode n []"] insert_under_mset "2.prems"(1,2) p(2) by simp
    then have "set (forest_nodes ?roots) = insert n (set (forest_nodes roots))" by (metis set_mset_mset set_mset_add_mset_insert add_mset_add_single)
    moreover have "distinct (map nd_id (forest_nodes ?roots @ ns))"
    proof -
      have "mset (map nd_id (forest_nodes ?roots @ ns)) = mset (map nd_id (forest_nodes roots @ n # ns))" using m by simp
      then show ?thesis using "2.prems"(2) by (metis mset_eq_imp_distinct_iff)
    qed
    moreover have "list_all well_parented ?roots"
      using "2.prems"(4) p(1) insert_under_parented [of _ "TreeNode n []" p] by (simp add: list_all_iff)
    ultimately have "mset (forest_nodes (build_tree_loop (nd_id n # seen) ?roots ns)) = mset (forest_nodes ?roots @ ns) \<and>
        list_all well_parented (build_tree_loop (nd_id n # seen) ?roots ns)"
      using 2(3) [OF refl refl p(1)] p(2) "2.prems" by auto
    then show ?thesis using p m by (simp add: Let_def)
  qed
qed (simp add: forest_nodes_def)

fun parents_first :: "uuid list \<Rightarrow> node_row list \<Rightarrow> bool" where
  "parents_first seen [] = True"
| "parents_first seen (n # ns) =
     ((case nd_parent_id n of None \<Rightarrow> True | Some p \<Rightarrow> p \<in> set seen \<or> p \<notin> nd_id ` set (n # ns)) \<and>
      parents_first (nd_id n # seen) ns)"

definition listed_parent :: "uuid set \<Rightarrow> node_row \<Rightarrow> bool" where
  "listed_parent ids n = (case nd_parent_id n of None \<Rightarrow> False | Some p \<Rightarrow> p \<in> ids)"

lemma build_tree_loop_roots:
  "parents_first seen ns \<Longrightarrow> ids = set seen \<union> nd_id ` set ns \<Longrightarrow>
   map tree_node (build_tree_loop seen roots ns) = map tree_node roots @ filter (\<lambda>n. \<not> listed_parent ids n) ns"
proof (induction seen roots ns rule: build_tree_loop.induct)
  case (2 seen roots n ns)
  have ids: "ids = set (nd_id n # seen) \<union> nd_id ` set ns" using "2.prems"(2) by auto
  have rest: "parents_first (nd_id n # seen) ns" using "2.prems" by simp
  show ?case
  proof (cases "nd_parent_id n")
    case None
    with 2(1) [OF refl refl None rest ids] show ?thesis by (simp add: Let_def listed_parent_def)
  next
    case (Some p)
    show ?thesis
    proof (cases "p \<in> set (nd_id n # seen)")
      case True
      with 2(3) [OF refl refl Some _ rest ids] Some ids show ?thesis by (auto simp: Let_def listed_parent_def o_def)
    next
      case False
      with "2.prems"(1) Some have "p \<notin> nd_id ` set ns" by auto
      with False 2(2) [OF refl refl Some _ rest ids] Some ids show ?thesis by (auto simp: Let_def listed_parent_def)
    qed
  qed
qed simp

lemma less_append: "(xs :: string) < xs @ y # ys"
  unfolding list_less_def by (rule lexord_append_rightI) simp

definition paths_ok :: "node_row list \<Rightarrow> bool" where
  "paths_ok nodes \<longleftrightarrow> (\<forall>n \<in> set nodes. \<forall>p \<in> set nodes. nd_parent_id n = Some (nd_id p) \<longrightarrow> nd_path n = node_path (Some p) (nd_slug n))"

lemma parents_first_sorted:
  assumes "paths_ok nodes" "set ns \<subseteq> set nodes" "sorted (map (\<lambda>n. (nd_path n, nd_sort_order n)) ns)"
  shows "parents_first seen ns"
  using assms(2,3)
proof (induction ns arbitrary: seen)
  case (Cons n ns)
  have False if "m \<in> set (n # ns)" "nd_parent_id n = Some (nd_id m)" for m
  proof -
    from that Cons.prems(1) assms(1) have "nd_path n = node_path (Some m) (nd_slug n)" unfolding paths_ok_def by auto
    then have "nd_path m < nd_path n" using less_append [of "nd_path m" "CHR ''/''"] by (simp add: node_path_def)
    moreover have "nd_path n \<le> nd_path m" using that(1) Cons.prems(2) by auto
    ultimately show False by simp
  qed
  then show ?case using Cons by (auto split: option.split)
qed simp

text \<open>
  The tree of an analysis shows every node exactly once, each below its own parent, and its roots are exactly
  the nodes whose parent is not listed, whatever order the store returns the nodes in.
\<close>
theorem document_tree_complete:
  assumes "distinct (map nd_id nodes)" "paths_ok nodes"
  shows "mset (forest_nodes (build_tree nodes)) = mset nodes \<and> (\<forall>t \<in> set (build_tree nodes). well_parented t) \<and>
    set (map tree_node (build_tree nodes)) = {n \<in> set nodes. \<forall>p \<in> set nodes. nd_parent_id n \<noteq> Some (nd_id p)}"
proof -
  let ?ns = "sort_key (\<lambda>n. (nd_path n, nd_sort_order n)) nodes"
  have "nd_path n \<noteq> node_path (Some n) (nd_slug n)" for n by (simp add: node_path_def)
  then have noself: "\<forall>n \<in> set ?ns. nd_parent_id n \<noteq> Some (nd_id n)" using assms(2) unfolding paths_ok_def by fastforce
  have "distinct (map nd_id (forest_nodes [] @ ?ns))" using assms(1) by (simp add: forest_nodes_def distinct_map)
  then have "mset (forest_nodes (build_tree nodes)) = mset nodes \<and> list_all well_parented (build_tree nodes)"
    using build_tree_loop_nodes [of "[]" "[]" ?ns] noself by (simp add: build_tree_def forest_nodes_def)
  moreover have "set (map tree_node (build_tree nodes)) = {n \<in> set nodes. \<not> listed_parent (nd_id ` set nodes) n}"
    unfolding build_tree_def
    by (subst build_tree_loop_roots [OF parents_first_sorted [OF assms(2)] refl]) auto
  moreover have "listed_parent (nd_id ` set nodes) n \<longleftrightarrow> (\<exists>p \<in> set nodes. nd_parent_id n = Some (nd_id p))" for n
    by (auto simp: listed_parent_def split: option.splits)
  ultimately show ?thesis by (auto simp: list_all_iff)
qed

definition sample_node :: "uuid \<Rightarrow> uuid option \<Rightarrow> string \<Rightarrow> string \<Rightarrow> node_row" where
  "sample_node i parent path slug =
     \<lparr>nd_id = i, nd_analysis_id = 1, nd_agent_id = 2, nd_parent_id = parent, nd_node_type = ''folder'', nd_document_id = None,
      nd_title = slug, nd_slug = slug, nd_path = path, nd_focus_area = None, nd_sort_order = 0, nd_created_at = 0, nd_updated_at = 0\<rparr>"

lemma sample_node_fields [simp]:
  "nd_id (sample_node i p path slug) = i" "nd_parent_id (sample_node i p path slug) = p"
  "nd_path (sample_node i p path slug) = path" "nd_slug (sample_node i p path slug) = slug"
  by (simp_all add: sample_node_def)

theorem document_tree_complete_witness:
  "set (map tree_node (build_tree [sample_node 2 (Some 1) ''a/b'' ''b'', sample_node 1 None ''a'' ''a''])) = {sample_node 1 None ''a'' ''a''}"
proof -
  let ?nodes = "[sample_node 2 (Some 1) ''a/b'' ''b'', sample_node 1 None ''a'' ''a'']"
  have "distinct (map nd_id ?nodes)" "paths_ok ?nodes" by (simp_all add: paths_ok_def node_path_def)
  then have "set (map tree_node (build_tree ?nodes)) = {n \<in> set ?nodes. \<forall>p \<in> set ?nodes. nd_parent_id n \<noteq> Some (nd_id p)}"
    using document_tree_complete by blast
  also have "\<dots> = {sample_node 1 None ''a'' ''a''}" by force
  finally show ?thesis .
qed

section \<open>The contract of a document store\<close>

text \<open>
  What the service relies on when it updates a document: the update is refused, and changes nothing, unless the
  version and status are the expected ones; otherwise the document is replaced and the revision recorded.
\<close>

definition unique_documents :: "doc_db \<Rightarrow> bool" where
  "unique_documents db = distinct (map do_id (documents db))"

locale versioned_store =
  fixes update :: "uuid \<Rightarrow> doc_updates \<Rightarrow> revision_row \<Rightarrow> doc_db \<Rightarrow> doc_error + doc_db \<times> document_row option"
  assumes refused: "unique_documents db \<Longrightarrow> get_document db i = Some r \<Longrightarrow>
      do_current_version r \<noteq> up_expected_version u \<or> do_status r \<noteq> up_expected_status u \<Longrightarrow> update i u v db = Inr (db, None)"
    and accepted: "unique_documents db \<Longrightarrow> get_document db i = Some r \<Longrightarrow> update i u v db = Inr (db', Some r') \<Longrightarrow>
      r' = updated_row u r \<and> get_document db' i = Some r' \<and> unique_documents db' \<and>
      document_revisions db' = document_revisions db @ [v]"
begin

lemma accepted_expected:
  assumes "unique_documents db" "get_document db i = Some r" "update i u v db = Inr (db', Some r')"
  shows "do_current_version r = up_expected_version u \<and> do_status r = up_expected_status u"
  using refused [OF assms(1,2), of u v] assms(3) by auto

lemma one_winner:
  assumes "unique_documents db" "get_document db i = Some r" "update i u v db = Inr (db', Some r')"
    and "up_current_version u \<noteq> up_expected_version u'"
  shows "update i u' v' db' = Inr (db', None)"
  using accepted [OF assms(1-3)] assms(4) by (intro refused [where r = r']) auto

end

lemma find_update_where_id:
  assumes "distinct (map do_id rows)" "find (\<lambda>x. do_id x = i) rows = Some r"
  shows "find (\<lambda>x. do_id x = i) (update_where (\<lambda>x. do_id x = i) (\<lambda>_. updated_row u r) rows) = Some (updated_row u r)"
  using assms by (induction rows) (auto simp: update_where_def find_Some_iff split: if_splits)

lemma guard_is_id:
  assumes "distinct (map do_id rows)" "find (\<lambda>x. do_id x = i) rows = Some r" "update_guard i u r"
  shows "update_where (update_guard i u) (updated_row u) rows = update_where (\<lambda>x. do_id x = i) (\<lambda>_. updated_row u r) rows"
    and "find (update_guard i u) rows = Some r"
proof -
  have r: "r \<in> set rows" "do_id r = i" using assms(2) by (auto simp: find_Some_iff)
  have only: "x = r" if "x \<in> set rows" "do_id x = i" for x using that r assms(1) by (metis distinct_map inj_onD)
  then show "update_where (update_guard i u) (updated_row u) rows = update_where (\<lambda>x. do_id x = i) (\<lambda>_. updated_row u r) rows"
    using assms(3) by (auto simp: update_where_def update_guard_def)
  show "find (update_guard i u) rows = Some r"
  proof (cases "find (update_guard i u) rows")
    case None
    with r(1) assms(3) show ?thesis by (auto simp: find_None_iff)
  next
    case (Some y)
    with only find_SomeD [OF Some] show ?thesis by (auto simp: update_guard_def)
  qed
qed

text \<open>On a document that exists the two stores do the same, except that Postgres also checks the revision's keys.\<close>

lemma pg_update_eq:
  assumes "unique_documents db" "get_document db i = Some r"
  shows "pg_update_document_with_revision i u v db =
     (if \<not> update_guard i u r then Inr (db, None)
      else if \<not> fresh_revision v db then Inl DocIntegrityError
      else mem_update_document_with_revision i u v db)"
proof (cases "update_guard i u r")
  case True
  have f: "find (\<lambda>x. do_id x = i) (documents db) = Some r" using assms(2) by (simp add: get_document_def)
  note g = guard_is_id [OF assms(1) [unfolded unique_documents_def] f True]
  have "guarded_update i u db = (db\<lparr>documents := update_where (\<lambda>x. do_id x = i) (\<lambda>_. updated_row u r) (documents db)\<rparr>, Some (updated_row u r))"
    using g by (simp add: guarded_update_def Let_def update_guard_def [abs_def])
  with True assms(2) show ?thesis
    by (auto simp: pg_update_document_with_revision_def insert_revision_def fresh_revision_def mem_update_document_with_revision_def update_guard_def)
next
  case False
  have "find (update_guard i u) (documents db) = None"
  proof (rule ccontr)
    assume "find (update_guard i u) (documents db) \<noteq> None"
    then obtain y where y: "y \<in> set (documents db)" "update_guard i u y" using find_SomeD by fastforce
    from assms(2) have "r \<in> set (documents db)" "do_id r = i" by (auto simp: get_document_def find_Some_iff)
    with y assms(1) have "y = r" by (metis unique_documents_def distinct_map inj_onD update_guard_def)
    with y False show False by simp
  qed
  with False show ?thesis by (simp add: pg_update_document_with_revision_def guarded_update_def update_guard_def [abs_def])
qed

lemma unique_after_update:
  "unique_documents db \<Longrightarrow> find (\<lambda>x. do_id x = i) (documents db) = Some r \<Longrightarrow>
   unique_documents (db\<lparr>documents := update_where (\<lambda>x. do_id x = i) (\<lambda>_. updated_row u r) (documents db), document_revisions := vs\<rparr>)"
proof -
  assume a: "unique_documents db" "find (\<lambda>x. do_id x = i) (documents db) = Some r"
  then have "do_id r = i" by (auto simp: find_Some_iff)
  then have "map do_id (update_where (\<lambda>x. do_id x = i) (\<lambda>_. updated_row u r) (documents db)) = map do_id (documents db)"
    by (simp add: update_where_def)
  with a show ?thesis by (simp add: unique_documents_def)
qed

interpretation mem_versions: versioned_store mem_update_document_with_revision
proof unfold_locales
  fix db i r u v db' r'
  assume a: "unique_documents db" "get_document db i = Some r" "mem_update_document_with_revision i u v db = Inr (db', Some r')"
  then show "r' = updated_row u r \<and> get_document db' i = Some r' \<and> unique_documents db' \<and> document_revisions db' = document_revisions db @ [v]"
    using find_update_where_id [of "documents db" i r u] unique_after_update [of db i r _ u]
    by (auto simp: mem_update_document_with_revision_def get_document_def unique_documents_def split: if_splits)
qed (simp add: mem_update_document_with_revision_def)

interpretation pg_versions: versioned_store pg_update_document_with_revision
proof unfold_locales
  fix db i r u v db' r'
  assume a: "unique_documents db" "get_document db i = Some r" "pg_update_document_with_revision i u v db = Inr (db', Some r')"
  then have "mem_update_document_with_revision i u v db = Inr (db', Some r')" by (simp add: pg_update_eq split: if_splits)
  with a(1,2) show "r' = updated_row u r \<and> get_document db' i = Some r' \<and> unique_documents db' \<and> document_revisions db' = document_revisions db @ [v]"
    by (rule mem_versions.accepted)
qed (auto simp: pg_update_eq update_guard_def get_document_def find_Some_iff)

text \<open>
  C13: Of two writers that read the same version of a document one wins: once either store has accepted an update,
  it refuses every other update that expects the old version, and what was accepted is what is then stored. Where
  Postgres accepts an update the in-memory store accepts it with the same result.
\<close>
theorem document_one_writer_wins:
  assumes "unique_documents db" "get_document db i = Some r" "up_current_version u = up_expected_version u + 1"
    and "up_expected_version u' = up_expected_version u"
  shows "(mem_update_document_with_revision i u v db = Inr (db', Some r') \<longrightarrow>
       get_document db' i = Some (updated_row u r) \<and> mem_update_document_with_revision i u' v' db' = Inr (db', None)) \<and>
    (pg_update_document_with_revision i u v db = Inr (db', Some r') \<longrightarrow>
       get_document db' i = Some (updated_row u r) \<and> pg_update_document_with_revision i u' v' db' = Inr (db', None) \<and>
       mem_update_document_with_revision i u v db = Inr (db', Some r'))"
  using mem_versions.accepted [OF assms(1,2)] mem_versions.one_winner [OF assms(1,2)] pg_versions.accepted [OF assms(1,2)]
    pg_versions.one_winner [OF assms(1,2)] assms(3,4) pg_update_eq [OF assms(1,2), of u v] by (auto split: if_splits)

theorem document_one_writer_wins_witness:
  "\<exists>db' r'. mem_update_document_with_revision 10 (draft_updates 1 ''a'' [] 5) sample_revision (dt_db (sample_docs [])) = Inr (db', Some r') \<and>
     mem_update_document_with_revision 10 (draft_updates 1 ''b'' [] 6) sample_revision db' = Inr (db', None)"
proof -
  let ?u = "draft_updates 1 ''a'' [] 5" and ?u' = "draft_updates 1 ''b'' [] 6"
  have u: "up_current_version ?u = up_expected_version ?u + 1" "up_expected_version ?u' = up_expected_version ?u"
    by (simp_all add: draft_updates_def)
  have d: "unique_documents (dt_db (sample_docs []))" "get_document (dt_db (sample_docs [])) 10 = Some sample_document"
    by (simp_all add: unique_documents_def get_document_def sample_document_def)
  obtain db' r' where w: "mem_update_document_with_revision 10 ?u sample_revision (dt_db (sample_docs [])) = Inr (db', Some r')"
    using d(2) by (auto simp: mem_update_document_with_revision_def sample_document_def draft_updates_def)
  with document_one_writer_wins [OF d u, of sample_revision db' r' sample_revision] show ?thesis by blast
qed

end
