(* ===== verification/Git_Cli.thy ===== *)
theory Git_Cli
  imports Repository_Url
begin

text \<open>
  The git commands of the snapshot builder (\<^verbatim>\<open>backend/snapshot/git_cli.py\<close>): which URLs may be given to git, the
  commands that are run, how much of their output is kept, and how the listing of a tree is read.

  The git program, the reading of addresses by \<^verbatim>\<open>ipaddress\<close> and name resolution are arguments: a git process is what
  it writes, how much of it has been read when the readers are no longer waited for, and how it ends;
  \<open>ip_class host\<close> is \<open>None\<close> when the host is not an address and otherwise the attributes of the address, and
  \<open>lookup host\<close> is the list of addresses, \<open>None\<close> when it fails.
\<close>

section \<open>Repository URLs\<close>

datatype git_error = SnapshotBuildError string string | GitValueError

definition DEFAULT_ALLOWED_REPOSITORY_HOSTS :: "string list" where
  "DEFAULT_ALLOWED_REPOSITORY_HOSTS = [''github.com'', ''www.github.com'']"

definition url_userinfo :: "split_url \<Rightarrow> string option" where
  "url_userinfo u =
     (if CHR ''@'' \<in> set (url_netloc u)
      then Some (rev (tl (dropWhile (\<lambda>c. c \<noteq> CHR ''@'') (rev (url_netloc u))))) else None)"

text \<open>The \<^verbatim>\<open>username\<close> and \<^verbatim>\<open>password\<close> attributes; a missing one is the empty string here, which is as false as \<^verbatim>\<open>None\<close>.\<close>

definition url_username :: "split_url \<Rightarrow> string" where
  "url_username u = (case url_userinfo u of None \<Rightarrow> [] | Some i \<Rightarrow> fst (partition_at (CHR '':'') i))"

definition url_password :: "split_url \<Rightarrow> string" where
  "url_password u =
     (case url_userinfo u of None \<Rightarrow> []
      | Some i \<Rightarrow> (case snd (partition_at (CHR '':'') i) of None \<Rightarrow> [] | Some p \<Rightarrow> p))"

definition url_schemes :: "string list" where
  "url_schemes = [''http'', ''https'', ''ssh'', ''git'']"

definition is_url_like :: "string \<Rightarrow> string \<Rightarrow> bool" where
  "is_url_like value scheme = (scheme \<noteq> [] \<and> (contains_sub ''://'' value \<or> scheme \<in> set url_schemes))"

definition has_url_credentials :: "string \<Rightarrow> git_error + bool" where
  "has_url_credentials value =
     (case urlsplit value of
        None \<Rightarrow> Inl GitValueError
      | Some parsed \<Rightarrow>
          Inr (is_url_like value (url_scheme parsed) \<and> url_scheme parsed \<in> set url_schemes \<and>
               (url_username parsed \<noteq> [] \<or> url_password parsed \<noteq> [])))"

definition private_or_local :: git_error where
  "private_or_local =
     SnapshotBuildError ''RepositoryUrlPrivateOrLocal'' ''repository URL private or local hosts are not allowed''"

text \<open>The attributes of an \<^verbatim>\<open>ipaddress\<close> object that the code asks for.\<close>

record ip_flags =
  ip_is_private :: bool
  ip_is_loopback :: bool
  ip_is_link_local :: bool
  ip_is_multicast :: bool
  ip_is_reserved :: bool
  ip_is_unspecified :: bool

definition is_private_or_local_address :: "ip_flags \<Rightarrow> bool" where
  "is_private_or_local_address address =
     (ip_is_private address \<or> ip_is_loopback address \<or> ip_is_link_local address \<or> ip_is_multicast address \<or>
      ip_is_reserved address \<or> ip_is_unspecified address)"

fun reject_private_addresses :: "(string \<Rightarrow> ip_flags option) \<Rightarrow> string list \<Rightarrow> git_error + unit" where
  "reject_private_addresses ip_class [] = Inr ()"
| "reject_private_addresses ip_class (a # as) =
     (case ip_class a of
        None \<Rightarrow> reject_private_addresses ip_class as
      | Some address \<Rightarrow>
          if is_private_or_local_address address then Inl private_or_local else reject_private_addresses ip_class as)"

definition reject_private_resolved_addresses ::
  "(string \<Rightarrow> ip_flags option) \<Rightarrow> (string \<Rightarrow> string list option) \<Rightarrow> string \<Rightarrow> git_error + unit" where
  "reject_private_resolved_addresses ip_class lookup host =
     (case lookup host of
        None \<Rightarrow> Inl (SnapshotBuildError ''RepositoryUrlHostUnresolved'' ''repository URL host could not be resolved'')
      | Some addresses \<Rightarrow> reject_private_addresses ip_class addresses)"

definition host_not_allowed :: git_error where
  "host_not_allowed = SnapshotBuildError ''RepositoryUrlHostNotAllowed'' ''repository URL host is not allowed''"

definition scheme_not_allowed :: git_error where
  "scheme_not_allowed = SnapshotBuildError ''RepositoryUrlSchemeNotAllowed'' ''repository URL must use HTTPS''"

definition clean_host :: "string \<Rightarrow> string" where
  "clean_host h = rstrip_by (\<lambda>c. c = CHR ''.'') (py_lower (py_strip h))"

definition check_host ::
  "(string \<Rightarrow> ip_flags option) \<Rightarrow> (string \<Rightarrow> string list option) \<Rightarrow> string list \<Rightarrow> string \<Rightarrow> git_error + unit" where
  "check_host ip_class lookup allowed host =
     (if host = ''localhost'' \<or> ends_with ''.localhost'' host then Inl private_or_local
      else case ip_class host of
        None \<Rightarrow>
          if allowed \<noteq> [] \<and> host \<notin> set allowed then Inl host_not_allowed
          else reject_private_resolved_addresses ip_class lookup host
      | Some address \<Rightarrow>
          if is_private_or_local_address address then Inl private_or_local
          else if allowed \<noteq> [] \<and> host \<notin> set allowed then Inl host_not_allowed
          else Inr ())"

definition reject_unsafe_repository_url ::
  "(string \<Rightarrow> ip_flags option) \<Rightarrow> (string \<Rightarrow> string list option) \<Rightarrow> string list \<Rightarrow> bool \<Rightarrow> string \<Rightarrow> git_error + unit" where
  "reject_unsafe_repository_url ip_class lookup allowed require_url value =
     (case urlsplit value of
        None \<Rightarrow> Inl GitValueError
      | Some parsed \<Rightarrow>
          if \<not> is_url_like value (url_scheme parsed) then (if require_url then Inl scheme_not_allowed else Inr ())
          else if url_scheme parsed \<noteq> ''https'' then Inl scheme_not_allowed
          else if url_query parsed \<noteq> [] \<or> url_fragment parsed \<noteq> []
          then Inl (SnapshotBuildError ''RepositoryUrlQueryOrFragmentNotAllowed'' ''repository URL query or fragment is not allowed'')
          else case url_hostname parsed of
            None \<Rightarrow> Inl (SnapshotBuildError ''RepositoryUrlHostInvalid'' ''repository URL host is required'')
          | Some host \<Rightarrow> check_host ip_class lookup allowed (clean_host host))"

fun reject_url_credentials ::
  "(string \<Rightarrow> ip_flags option) \<Rightarrow> (string \<Rightarrow> string list option) \<Rightarrow> string list \<Rightarrow> string list \<Rightarrow> git_error + unit" where
  "reject_url_credentials ip_class lookup allowed [] = Inr ()"
| "reject_url_credentials ip_class lookup allowed (arg # args) =
     rbind (has_url_credentials arg) (\<lambda>b.
       if b then Inl (SnapshotBuildError ''RepositoryUrlContainsCredentials'' ''repository URL credentials are not allowed'')
       else rbind (reject_unsafe_repository_url ip_class lookup allowed False arg)
              (\<lambda>_. reject_url_credentials ip_class lookup allowed args))"

section \<open>Output of a process\<close>

text \<open>
  The reader of standard output: chunks are kept up to the limit, and the first chunk that does not fit sets the
  flag and ends the reading. The reader of standard error keeps reading, so that the process does not block.
\<close>

fun read_stdout :: "int \<Rightarrow> bytes \<Rightarrow> bytes list \<Rightarrow> bytes \<times> bool" where
  "read_stdout limit buffer [] = (buffer, False)"
| "read_stdout limit buffer (chunk # chunks) =
     (if chunk = [] then (buffer, False)
      else let remaining = nat (max 0 (limit - int (length buffer)));
               buffer = buffer @ take remaining chunk
           in if length chunk > remaining then (buffer, True) else read_stdout limit buffer chunks)"

fun read_stderr :: "int \<Rightarrow> bytes \<Rightarrow> bytes list \<Rightarrow> bytes" where
  "read_stderr limit buffer [] = buffer"
| "read_stderr limit buffer (chunk # chunks) =
     (if chunk = [] then buffer
      else read_stderr limit (buffer @ take (nat (max 0 (limit - int (length buffer)))) chunk) chunks)"

text \<open>
  \<^verbatim>\<open>_redact_url_credentials\<close>: the pattern needs a scheme, \<^verbatim>\<open>://\<close>, a user part without at sign, white space, slash
  or quotes, and an at sign; it is replaced from left to right.
\<close>

definition is_userinfo_char :: "char \<Rightarrow> bool" where
  "is_userinfo_char c = (c \<noteq> CHR ''@'' \<and> \<not> is_space c \<and> c \<noteq> CHR ''/'' \<and> c \<noteq> CHR 0x27 \<and> c \<noteq> CHR 0x22)"

definition match_userinfo :: "string \<Rightarrow> (string \<times> string) option" where
  "match_userinfo s =
     (if s = [] \<or> \<not> is_ascii_alpha (hd s) then None
      else let scheme = takeWhile is_scheme_char s; r = drop (length scheme) s
      in if \<not> starts_with ''://'' r then None
         else let user = takeWhile is_userinfo_char (drop 3 r); rest = drop (3 + length user) r
         in if user = [] \<or> rest = [] \<or> hd rest \<noteq> CHR ''@'' then None else Some (scheme @ ''://'', tl rest))"

lemma match_userinfo_shorter: "match_userinfo s = Some (a, r) \<Longrightarrow> length r < length s"
  by (auto simp: match_userinfo_def Let_def split: if_splits)

function redact_url_credentials :: "string \<Rightarrow> string" where
  "redact_url_credentials s =
     (case match_userinfo s of
        Some (scheme, rest) \<Rightarrow> scheme @ ''***@'' @ redact_url_credentials rest
      | None \<Rightarrow> (case s of [] \<Rightarrow> [] | c # cs \<Rightarrow> c # redact_url_credentials cs))"
  by pat_completeness auto
termination
  by (relation "measure length") (auto dest: match_userinfo_shorter)

declare redact_url_credentials.simps [simp del]

definition sanitize_git_error :: "string \<Rightarrow> int \<Rightarrow> string" where
  "sanitize_git_error message max_output_bytes =
     replace_char newline (CHR '' '') (replace_char (CHR 0x0D) (CHR '' '')
       (take (nat (max 1 max_output_bytes)) (redact_url_credentials (py_strip message))))"

text \<open>
  A process: the chunks of its two pipes, how many of them the reader threads have taken when \<^verbatim>\<open>_join_and_close\<close>, which
  waits one second for each thread, has closed the pipes, and the return code, \<open>None\<close> when the process did not end in
  time. \<open>decode\<close> is \<^verbatim>\<open>bytes.decode("utf-8", errors="replace")\<close>.
\<close>

record git_process =
  gp_stdout :: "bytes list"
  gp_stderr :: "bytes list"
  gp_stdout_read :: nat
  gp_stderr_read :: nat
  gp_returncode :: "int option"

definition joined_stdout :: "git_process \<Rightarrow> bytes list" where
  "joined_stdout p = take (gp_stdout_read p) (gp_stdout p)"

definition joined_stderr :: "git_process \<Rightarrow> bytes list" where
  "joined_stderr p = take (gp_stderr_read p) (gp_stderr p)"

definition run_git_process :: "(bytes \<Rightarrow> string) \<Rightarrow> int \<Rightarrow> int \<Rightarrow> int \<Rightarrow> git_process \<Rightarrow> git_error + bytes" where
  "run_git_process decode timeout_seconds stdout_limit stderr_limit p =
     (case gp_returncode p of
        None \<Rightarrow> Inl (SnapshotBuildError ''GitCommandTimeout'' (''git command timed out after '' @ show_int timeout_seconds @ ''s''))
      | Some returncode \<Rightarrow>
          let (buffer, output_too_large) = read_stdout stdout_limit [] (joined_stdout p)
          in if output_too_large
             then Inl (SnapshotBuildError ''GitOutputTooLarge'' (''git command output exceeded '' @ show_int stdout_limit @ '' bytes''))
             else if returncode \<noteq> 0
             then let err = decode (read_stderr stderr_limit [] (joined_stderr p)); out = decode buffer;
                      message = (if err \<noteq> [] then err else if out \<noteq> [] then out else ''git command failed'')
                  in Inl (SnapshotBuildError ''GitCommandFailed'' (sanitize_git_error message stderr_limit))
             else Inr buffer)"

section \<open>Commands\<close>

record git_runner =
  gr_max_output_bytes :: int
  gr_max_tree_output_bytes :: int
  gr_allowed_hosts :: "string list"
  gr_ip_class :: "string \<Rightarrow> ip_flags option"
  gr_lookup :: "string \<Rightarrow> string list option"
  gr_decode :: "bytes \<Rightarrow> string"
  gr_exec :: "string list \<Rightarrow> git_process"

definition git_command :: "string list \<Rightarrow> string list" where
  "git_command args =
     [''git'', ''-c'', ''credential.helper='', ''-c'', ''core.askPass='', ''-c'', ''http.extraHeader='', ''-c'',
      ''protocol.file.allow=never''] @ args"

text \<open>Every operation also returns the commands it has run, after those that were run before.\<close>

type_synonym 'a git_io = "string list list \<Rightarrow> string list list \<times> (git_error + 'a)"

definition run_bytes :: "git_runner \<Rightarrow> int \<Rightarrow> int option \<Rightarrow> string list \<Rightarrow> bytes git_io" where
  "run_bytes g timeout_seconds max_output_bytes args log =
     (case reject_url_credentials (gr_ip_class g) (gr_lookup g) (gr_allowed_hosts g) args of
        Inl e \<Rightarrow> (log, Inl e)
      | Inr _ \<Rightarrow>
          let output_limit = (case max_output_bytes of Some m \<Rightarrow> m | None \<Rightarrow> gr_max_output_bytes g)
          in (log @ [git_command args],
              run_git_process (gr_decode g) timeout_seconds output_limit (gr_max_output_bytes g) (gr_exec g (git_command args))))"

definition run_text :: "git_runner \<Rightarrow> int \<Rightarrow> int option \<Rightarrow> string list \<Rightarrow> string git_io" where
  "run_text g timeout_seconds max_output_bytes args log =
     (case run_bytes g timeout_seconds max_output_bytes args log of
        (log1, Inl e) \<Rightarrow> (log1, Inl e)
      | (log1, Inr b) \<Rightarrow> (log1, Inr (gr_decode g b)))"

fun run_seq :: "git_runner \<Rightarrow> int \<Rightarrow> string list list \<Rightarrow> unit git_io" where
  "run_seq g timeout_seconds [] log = (log, Inr ())"
| "run_seq g timeout_seconds (args # rest) log =
     (case run_text g timeout_seconds None args log of
        (log1, Inl e) \<Rightarrow> (log1, Inl e)
      | (log1, Inr _) \<Rightarrow> run_seq g timeout_seconds rest log1)"

definition check_url :: "git_runner \<Rightarrow> string \<Rightarrow> git_error + unit" where
  "check_url g url = reject_unsafe_repository_url (gr_ip_class g) (gr_lookup g) (gr_allowed_hosts g) True url"

definition clone_mirror :: "git_runner \<Rightarrow> int \<Rightarrow> string \<Rightarrow> string \<Rightarrow> unit git_io" where
  "clone_mirror g timeout_seconds url mirror log =
     (case check_url g url of
        Inl e \<Rightarrow> (log, Inl e)
      | Inr _ \<Rightarrow> run_seq g timeout_seconds [[''clone'', ''--mirror'', url, mirror]] log)"

definition fetch_shallow_ref :: "git_runner \<Rightarrow> int \<Rightarrow> string \<Rightarrow> string \<Rightarrow> string \<Rightarrow> unit git_io" where
  "fetch_shallow_ref g timeout_seconds url mirror ref log =
     (case check_url g url of
        Inl e \<Rightarrow> (log, Inl e)
      | Inr _ \<Rightarrow> run_seq g timeout_seconds
          [[''init'', ''--bare'', mirror], [''-C'', mirror, ''remote'', ''add'', ''origin'', url],
           [''-C'', mirror, ''fetch'', ''--depth=1'', ''--no-tags'', ''origin'', ref]] log)"

definition resolve_object :: "git_runner \<Rightarrow> int \<Rightarrow> string \<Rightarrow> string \<Rightarrow> string \<Rightarrow> string git_io" where
  "resolve_object g timeout_seconds mirror ref kind log =
     (case run_text g timeout_seconds None [''-C'', mirror, ''rev-parse'', ref @ ''^{'' @ kind @ ''}''] log of
        (log1, Inl e) \<Rightarrow> (log1, Inl e)
      | (log1, Inr out) \<Rightarrow> (log1, Inr (py_strip out)))"

definition resolve_commit :: "git_runner \<Rightarrow> int \<Rightarrow> string \<Rightarrow> string \<Rightarrow> string git_io" where
  "resolve_commit g timeout_seconds mirror ref = resolve_object g timeout_seconds mirror ref ''commit''"

definition resolve_tree :: "git_runner \<Rightarrow> int \<Rightarrow> string \<Rightarrow> string \<Rightarrow> string git_io" where
  "resolve_tree g timeout_seconds mirror commit_sha = resolve_object g timeout_seconds mirror commit_sha ''tree''"

definition cat_file_blob :: "git_runner \<Rightarrow> int \<Rightarrow> int option \<Rightarrow> string \<Rightarrow> string \<Rightarrow> bytes git_io" where
  "cat_file_blob g timeout_seconds max_output_bytes mirror oid =
     run_bytes g timeout_seconds max_output_bytes [''-C'', mirror, ''cat-file'', ''blob'', oid]"

section \<open>Listing a tree\<close>

record tree_entry =
  te_mode :: string
  te_kind :: string
  te_oid :: string
  te_size :: "int option"
  te_path :: string

text \<open>\<^verbatim>\<open>metadata.split(maxsplit=3)\<close>: the rest behind the third field keeps white space at its end.\<close>

fun fields :: "nat \<Rightarrow> string \<Rightarrow> string list" where
  "fields n s =
     (let t = dropWhile is_space s
      in if t = [] then []
         else case n of 0 \<Rightarrow> [t]
              | Suc k \<Rightarrow> takeWhile (\<lambda>c. \<not> is_space c) t # fields k (dropWhile (\<lambda>c. \<not> is_space c) t))"

declare fields.simps [simp del]

definition parse_tree_entry :: "string \<Rightarrow> git_error + tree_entry" where
  "parse_tree_entry raw_entry =
     (case partition_at (CHR 0x09) raw_entry of
        (metadata, Some path) \<Rightarrow>
          (case fields 3 metadata of
             [mode, kind, oid, size_text] \<Rightarrow>
               (let entry = (\<lambda>size. \<lparr>te_mode = mode, te_kind = kind, te_oid = oid, te_size = size,
                       te_path = replace_char (CHR 0x5C) (CHR ''/'') path\<rparr>)
                in if size_text = ''-'' then Inr (entry None)
                   else case parse_int (py_strip size_text) of
                          None \<Rightarrow> Inl GitValueError
                        | Some n \<Rightarrow> Inr (entry (Some n)))
           | _ \<Rightarrow> Inl GitValueError)
      | (_, None) \<Rightarrow> Inl GitValueError)"

fun parse_entries :: "string list \<Rightarrow> git_error + tree_entry list" where
  "parse_entries [] = Inr []"
| "parse_entries (raw # raws) =
     (if raw = [] then parse_entries raws
      else rbind (parse_tree_entry raw) (\<lambda>e. rbind (parse_entries raws) (\<lambda>es. Inr (e # es))))"

definition list_tree :: "git_runner \<Rightarrow> int \<Rightarrow> string \<Rightarrow> string \<Rightarrow> tree_entry list git_io" where
  "list_tree g timeout_seconds mirror commit_sha log =
     (case run_text g timeout_seconds (Some (gr_max_tree_output_bytes g))
             [''-C'', mirror, ''ls-tree'', ''-r'', ''-z'', ''--long'', commit_sha] log of
        (log1, Inl e) \<Rightarrow> (log1, Inl e)
      | (log1, Inr output) \<Rightarrow> (log1, parse_entries (split_on (CHR 0x00) output)))"

section \<open>What reaches git\<close>

text \<open>
  A host text that is no address with one of the refused attributes; a URL that git may be given; and an argument that
  is either no URL or such a one.
\<close>

definition public_host :: "git_runner \<Rightarrow> string \<Rightarrow> bool" where
  "public_host g h \<longleftrightarrow>
     (\<forall>a. gr_ip_class g h = Some a \<longrightarrow>
        \<not> ip_is_private a \<and> \<not> ip_is_loopback a \<and> \<not> ip_is_link_local a \<and> \<not> ip_is_multicast a \<and>
        \<not> ip_is_reserved a \<and> \<not> ip_is_unspecified a)"

definition safe_repository_url :: "git_runner \<Rightarrow> string \<Rightarrow> bool" where
  "safe_repository_url g value \<longleftrightarrow>
     (case urlsplit value of
        None \<Rightarrow> False
      | Some u \<Rightarrow>
          url_scheme u = ''https'' \<and> url_query u = [] \<and> url_fragment u = [] \<and>
          (case url_hostname u of
             None \<Rightarrow> False
           | Some h \<Rightarrow>
               (gr_allowed_hosts g \<noteq> [] \<longrightarrow> clean_host h \<in> set (gr_allowed_hosts g)) \<and>
               clean_host h \<noteq> ''localhost'' \<and> \<not> ends_with ''.localhost'' (clean_host h) \<and>
               public_host g (clean_host h) \<and>
               (gr_ip_class g (clean_host h) = None \<longrightarrow>
                  (\<exists>addresses. gr_lookup g (clean_host h) = Some addresses \<and>
                     list_all (public_host g) addresses))))"

definition safe_argument :: "git_runner \<Rightarrow> string \<Rightarrow> bool" where
  "safe_argument g arg \<longleftrightarrow>
     (case urlsplit arg of
        None \<Rightarrow> False
      | Some u \<Rightarrow>
          is_url_like arg (url_scheme u) \<longrightarrow>
            safe_repository_url g arg \<and> url_username u = [] \<and> url_password u = [])"

lemma public_host_iff:
  "public_host g h \<longleftrightarrow> (\<forall>a. gr_ip_class g h = Some a \<longrightarrow> \<not> is_private_or_local_address a)"
  by (auto simp: public_host_def is_private_or_local_address_def)

lemma reject_private_addresses_ok:
  "reject_private_addresses (gr_ip_class g) as = Inr () \<longleftrightarrow> list_all (public_host g) as"
  by (induction "as") (auto simp: public_host_iff split: option.splits)

lemma reject_unsafe_ok:
  assumes "reject_unsafe_repository_url (gr_ip_class g) (gr_lookup g) (gr_allowed_hosts g) req value = Inr ()"
    and "urlsplit value = Some u" "is_url_like value (url_scheme u)"
  shows "safe_repository_url g value"
  using assms
  by (auto simp: reject_unsafe_repository_url_def safe_repository_url_def check_host_def
      reject_private_resolved_addresses_def reject_private_addresses_ok public_host_iff split: if_splits option.splits)

lemma check_url_ok: "check_url g url = Inr () \<Longrightarrow> safe_repository_url g url"
  by (cases "urlsplit url")
    (auto simp: check_url_def intro!: reject_unsafe_ok [of g True] , auto simp: reject_unsafe_repository_url_def split: if_splits)

lemma reject_url_credentials_ok:
  "reject_url_credentials (gr_ip_class g) (gr_lookup g) (gr_allowed_hosts g) args = Inr () \<Longrightarrow> list_all (safe_argument g) args"
proof (induction args)
  case (Cons arg args)
  then have c: "has_url_credentials arg = Inr False"
      and u: "reject_unsafe_repository_url (gr_ip_class g) (gr_lookup g) (gr_allowed_hosts g) False arg = Inr ()"
      and rest: "list_all (safe_argument g) args"
    by (auto simp: rbind_eq_Inr split: if_splits)
  from c obtain u' where u': "urlsplit arg = Some u'" by (auto simp: has_url_credentials_def split: option.splits)
  have "safe_repository_url g arg \<and> url_username u' = [] \<and> url_password u' = []" if "is_url_like arg (url_scheme u')"
  proof -
    have s: "safe_repository_url g arg" by (rule reject_unsafe_ok [OF u u' that])
    then have "url_scheme u' \<in> set url_schemes" by (simp add: safe_repository_url_def u' url_schemes_def)
    with c that u' s show ?thesis by (auto simp: has_url_credentials_def)
  qed
  with u' have "safe_argument g arg" by (simp add: safe_argument_def)
  with rest show ?case by simp
qed simp

definition safe_log :: "git_runner \<Rightarrow> string list list \<Rightarrow> bool" where
  "safe_log g log = (\<forall>cmd \<in> set log. \<exists>args. cmd = git_command args \<and> list_all (safe_argument g) args)"

lemma run_bytes_log: "safe_log g log \<Longrightarrow> run_bytes g t m args log = (log', r) \<Longrightarrow> safe_log g log'"
  using reject_url_credentials_ok [of g args] by (auto simp: run_bytes_def safe_log_def Let_def split: sum.splits)

lemma run_text_log: "safe_log g log \<Longrightarrow> run_text g t m args log = (log', r) \<Longrightarrow> safe_log g log'"
  using run_bytes_log by (auto simp: run_text_def split: prod.splits sum.splits)

lemma run_seq_log: "safe_log g log \<Longrightarrow> run_seq g t argss log = (log', r) \<Longrightarrow> safe_log g log'"
proof (induction g t argss log arbitrary: log' r rule: run_seq.induct)
  case (2 g t args rest log)
  obtain log1 r1 where r: "run_text g t None args log = (log1, r1)" by (cases rule: prod.exhaust)
  have "safe_log g log1" by (rule run_text_log [OF "2.prems"(1) r])
  with "2.IH" "2.prems"(2) r show ?case by (cases r1) auto
qed simp

text \<open>
  C36: Git is run for a repository only if its URL is an HTTPS URL without query and fragment, whose host is one of the
  allowed ones, is not the local machine, and is or resolves to no private or local address. Every command that is
  run carries the options that switch off credential helpers and the file protocol, and every argument of it that
  looks like a URL passes the same test and holds no user name or password.
\<close>
theorem git_urls_gated:
  assumes "fetch_shallow_ref g t url mirror ref [] = (log, r)" "log \<noteq> []"
  shows "safe_repository_url g url \<and>
    (\<forall>cmd \<in> set log. \<exists>args. cmd = git_command args \<and> list_all (safe_argument g) args)"
proof (cases "check_url g url")
  case (Inl e)
  with assms show ?thesis by (simp add: fetch_shallow_ref_def)
next
  case (Inr u)
  have "safe_log g []" by (simp add: safe_log_def)
  moreover from assms(1) have "run_seq g t [[''init'', ''--bare'', mirror], [''-C'', mirror, ''remote'', ''add'', ''origin'', url],
      [''-C'', mirror, ''fetch'', ''--depth=1'', ''--no-tags'', ''origin'', ref]] [] = (log, r)"
    unfolding fetch_shallow_ref_def Inr by (simp only: sum.case)
  ultimately have "safe_log g log" by (rule run_seq_log)
  moreover have "safe_repository_url g url" using check_url_ok [of g url] Inr by simp
  ultimately show ?thesis unfolding safe_log_def by blast
qed

definition sample_runner :: git_runner where
  "sample_runner =
     \<lparr>gr_max_output_bytes = 100, gr_max_tree_output_bytes = 100, gr_allowed_hosts = DEFAULT_ALLOWED_REPOSITORY_HOSTS,
      gr_ip_class = (\<lambda>h. if h = ''140.82.112.3'' then Some \<lparr>ip_is_private = False, ip_is_loopback = False,
        ip_is_link_local = False, ip_is_multicast = False, ip_is_reserved = False, ip_is_unspecified = False\<rparr> else None), gr_lookup = (\<lambda>h. Some [''140.82.112.3'']),
      gr_decode = (\<lambda>b. b), gr_exec = (\<lambda>cmd. \<lparr>gp_stdout = [], gp_stderr = [], gp_stdout_read = 0, gp_stderr_read = 0, gp_returncode = Some 0\<rparr>)\<rparr>"

lemma sample_fetch_log:
  "length (fst (fetch_shallow_ref sample_runner 300 ''https://github.com/o/r.git'' ''/tmp/m'' ''main'' [])) = 3"
  by code_simp

theorem git_urls_gated_witness:
  "safe_repository_url sample_runner ''https://github.com/o/r.git''"
proof -
  obtain log r where l: "fetch_shallow_ref sample_runner 300 ''https://github.com/o/r.git'' ''/tmp/m'' ''main'' [] = (log, r)"
    by (cases rule: prod.exhaust)
  with sample_fetch_log have "log \<noteq> []" by auto
  from git_urls_gated [OF l this] show ?thesis by simp
qed

text \<open>The ref is an argument like any other: one that starts with a dash reaches \<^verbatim>\<open>git fetch\<close> as an option.\<close>

lemma ref_read_as_option:
  "git_command [''-C'', ''/tmp/m'', ''fetch'', ''--depth=1'', ''--no-tags'', ''origin'', ''--upload-pack=x''] \<in>
   set (fst (fetch_shallow_ref sample_runner 300 ''https://github.com/o/r.git'' ''/tmp/m'' ''--upload-pack=x'' []))"
  by code_simp

section \<open>Output is complete or refused\<close>

lemma read_stdout_eq:
  "read_stdout limit buffer chunks =
   (let data = concat (takeWhile (\<lambda>c. c \<noteq> []) chunks); remaining = nat (max 0 (limit - int (length buffer)))
    in (buffer @ take remaining data, remaining < length data))"
proof (induction limit buffer chunks rule: read_stdout.induct)
  case (2 limit buffer chunk chunks)
  define rest where "rest = concat (takeWhile (\<lambda>c. c \<noteq> []) chunks)"
  define remaining where "remaining = nat (max 0 (limit - int (length buffer)))"
  have left: "nat (max 0 (limit - int (length (buffer @ take remaining chunk)))) = remaining - length chunk"
    if "length chunk \<le> remaining" using that by (auto simp: remaining_def)
  show ?case
  proof (cases "chunk = [] \<or> remaining < length chunk")
    case True
    then show ?thesis by (auto simp: remaining_def [symmetric] Let_def)
  next
    case False
    then have "read_stdout limit (buffer @ take remaining chunk) chunks =
        (let data = rest; r = remaining - length chunk in ((buffer @ take remaining chunk) @ take r data, r < length data))"
      using 2 left by (simp add: remaining_def [symmetric] rest_def Let_def)
    with False show ?thesis by (auto simp: remaining_def [symmetric] rest_def [symmetric] Let_def)
  qed
qed simp

lemma read_stderr_length:
  "int (length buffer) \<le> max 0 limit \<Longrightarrow> int (length (read_stderr limit buffer chunks)) \<le> max 0 limit"
  by (induction limit buffer chunks rule: read_stderr.induct) auto

text \<open>All that the command writes, and what the reader has taken of it; whether the reader has taken all.\<close>

definition whole_output :: "git_process \<Rightarrow> bytes" where
  "whole_output p = concat (takeWhile (\<lambda>c. c \<noteq> []) (gp_stdout p))"

definition read_output :: "git_process \<Rightarrow> bytes" where
  "read_output p = concat (takeWhile (\<lambda>c. c \<noteq> []) (joined_stdout p))"

definition reader_finished :: "git_process \<Rightarrow> bool" where
  "reader_finished p = (length (gp_stdout p) \<le> gp_stdout_read p)"

lemma takeWhile_take_split:
  obtains rest where "takeWhile P xs = takeWhile P (take n xs) @ rest"
proof -
  have "\<exists>rest. takeWhile P xs = takeWhile P (take n xs) @ rest"
    by (induction xs arbitrary: n) (auto simp: take_Cons split: nat.splits)
  then show ?thesis using that by blast
qed

lemma read_output_prefix: "\<exists>rest. whole_output p = read_output p @ rest"
  using takeWhile_take_split [of "\<lambda>c. c \<noteq> []" "gp_stdout p" "gp_stdout_read p"]
  by (metis concat_append joined_stdout_def read_output_def whole_output_def)

lemma read_output_finished: "reader_finished p \<Longrightarrow> read_output p = whole_output p"
  by (simp add: reader_finished_def read_output_def whole_output_def joined_stdout_def)

lemma read_stdout_joined:
  "read_stdout limit [] (joined_stdout p) =
   (take (nat (max 0 limit)) (read_output p), max 0 limit < int (length (read_output p)))"
proof -
  have "read_stdout limit [] (joined_stdout p) =
      (take (nat (max 0 limit)) (read_output p), nat (max 0 limit) < length (read_output p))"
    by (simp add: read_stdout_eq read_output_def Let_def)
  moreover have "nat (max 0 limit) < length (read_output p) \<longleftrightarrow> max 0 limit < int (length (read_output p))" by linarith
  ultimately show ?thesis by (simp only:)
qed

lemma run_git_process_result:
  "run_git_process decode t limit elimit p = Inr b \<longleftrightarrow>
   gp_returncode p = Some 0 \<and> int (length (read_output p)) \<le> max 0 limit \<and> b = read_output p"
  by (auto simp: run_git_process_def read_stdout_joined Let_def le_max_iff_disj split: option.splits)

text \<open>
  C37: Of the output of a git command never more than the limit is kept in memory, and a command succeeds only if it
  returned zero, with a first part of its output. When the reader had taken all of the output before the pipes were
  closed, that part is the whole output; if it does not fit, the command fails as too large whatever it returned.
  (What happens when the reader is not finished in time is the lemma \<open>slow_reader_truncates\<close>.)
\<close>
theorem git_output_complete_or_refused:
  "int (length (fst (read_stdout limit [] (joined_stdout p)))) \<le> max 0 limit \<and>
    int (length (read_stderr limit [] (joined_stderr p))) \<le> max 0 limit \<and>
    (\<forall>b. run_git_process decode t limit elimit p = Inr b \<longrightarrow>
       gp_returncode p = Some 0 \<and> int (length b) \<le> max 0 limit \<and> (\<exists>rest. whole_output p = b @ rest)) \<and>
    (reader_finished p \<longrightarrow>
       (\<forall>b. run_git_process decode t limit elimit p = Inr b \<longleftrightarrow>
          gp_returncode p = Some 0 \<and> int (length (whole_output p)) \<le> max 0 limit \<and> b = whole_output p) \<and>
       (gp_returncode p \<noteq> None \<and> max 0 limit < int (length (whole_output p)) \<longrightarrow>
          (\<exists>message. run_git_process decode t limit elimit p = Inl (SnapshotBuildError ''GitOutputTooLarge'' message))))"
proof (intro conjI allI impI)
  show "int (length (fst (read_stdout limit [] (joined_stdout p)))) \<le> max 0 limit"
    by (simp add: read_stdout_joined)
  show "int (length (read_stderr limit [] (joined_stderr p))) \<le> max 0 limit"
    using read_stderr_length [of "[]" limit "joined_stderr p"] by simp
next
  fix b assume "run_git_process decode t limit elimit p = Inr b"
  then have b: "gp_returncode p = Some 0" "int (length (read_output p)) \<le> max 0 limit" "b = read_output p"
    by (simp_all only: run_git_process_result)
  then show "gp_returncode p = Some 0" "int (length b) \<le> max 0 limit" "\<exists>rest. whole_output p = b @ rest"
    using read_output_prefix [of p] by simp_all
next
  fix b assume "reader_finished p"
  then show "run_git_process decode t limit elimit p = Inr b \<longleftrightarrow>
      gp_returncode p = Some 0 \<and> int (length (whole_output p)) \<le> max 0 limit \<and> b = whole_output p"
    by (simp only: run_git_process_result read_output_finished)
next
  assume "reader_finished p" "gp_returncode p \<noteq> None \<and> max 0 limit < int (length (whole_output p))"
  then show "\<exists>message. run_git_process decode t limit elimit p = Inl (SnapshotBuildError ''GitOutputTooLarge'' message)"
    by (auto simp: run_git_process_def read_stdout_joined read_output_finished)
qed

theorem git_output_complete_or_refused_witness:
  "run_git_process (\<lambda>b. b) 300 4 100
     \<lparr>gp_stdout = [''ab'', ''cd''], gp_stderr = [], gp_stdout_read = 2, gp_stderr_read = 0, gp_returncode = Some 0\<rparr> = Inr ''abcd''"
  using git_output_complete_or_refused
    [of 4 "\<lparr>gp_stdout = [''ab'', ''cd''], gp_stderr = [], gp_stdout_read = 2, gp_stderr_read = 0, gp_returncode = Some 0\<rparr>"
      "\<lambda>b. b" 300 100] by (simp add: whole_output_def reader_finished_def)

text \<open>
  The readers are waited for one second only. If standard output has not been read to its end by then, the part that was
  read is returned as the output of a successful command.
\<close>

lemma slow_reader_truncates:
  "run_git_process decode 300 100 100
     \<lparr>gp_stdout = [''ab'', ''cd''], gp_stderr = [], gp_stdout_read = 1, gp_stderr_read = 0, gp_returncode = Some 0\<rparr> = Inr ''ab''"
  by (simp add: run_git_process_def joined_stdout_def)

end
