(* ===== verification/Snapshot_Scanner.thy ===== *)
theory Snapshot_Scanner
  imports Git_Cli Snapshot_Service Secret_Paths Storage Sha256
begin

text \<open>
  Building a snapshot: the scan of a git tree (\<^verbatim>\<open>backend/snapshot/scanner.py\<close>), the builder that runs git and stores
  the objects (\<^verbatim>\<open>builder.py\<close>) and the texts it stores (\<^verbatim>\<open>manifest.py\<close>, \<^verbatim>\<open>hashing.py\<close>). A record of the scan is a
  row of the table of snapshot files. The theorems say what a record promises of the stored content, and that no
  content of a secret path is ever stored.
\<close>

section \<open>\<^verbatim>\<open>PurePosixPath\<close>\<close>

text \<open>
  A path is its root, which is empty, a slash or two slashes, and its components; empty components and dots are
  dropped when a path is read.
\<close>

record posix_path =
  pp_root :: string
  pp_parts :: "string list"

definition posix_parse :: "string \<Rightarrow> posix_path" where
  "posix_parse s =
     \<lparr>pp_root = (if starts_with ''//'' s \<and> \<not> starts_with ''///'' s then ''//''
                 else if starts_with ''/'' s then ''/'' else []),
      pp_parts = filter (\<lambda>p. p \<noteq> [] \<and> p \<noteq> ''.'') (split_on (CHR ''/'') s)\<rparr>"

definition as_posix :: "posix_path \<Rightarrow> string" where
  "as_posix p = (if pp_root p = [] \<and> pp_parts p = [] then ''.'' else pp_root p @ join_with ''/'' (pp_parts p))"

definition path_name :: "posix_path \<Rightarrow> string" where
  "path_name p = (if pp_parts p = [] then [] else last (pp_parts p))"

definition path_parent :: "posix_path \<Rightarrow> posix_path" where
  "path_parent p = p\<lparr>pp_parts := butlast (pp_parts p)\<rparr>"

text \<open>The \<^verbatim>\<open>parts\<close> attribute: the root, if there is one, and the components.\<close>

definition parts_of :: "posix_path \<Rightarrow> string list" where
  "parts_of p = (if pp_root p = [] then pp_parts p else pp_root p # pp_parts p)"

text \<open>\<^verbatim>\<open>current / part\<close> for a part of another path: the root replaces the path, a component extends it.\<close>

definition path_join :: "posix_path \<Rightarrow> string \<Rightarrow> posix_path" where
  "path_join p part =
     (if starts_with ''/'' part then \<lparr>pp_root = part, pp_parts = []\<rparr> else p\<lparr>pp_parts := pp_parts p @ [part]\<rparr>)"

section \<open>Records\<close>

definition sha256_bytes :: "bytes \<Rightarrow> string" where
  "sha256_bytes b = ''sha256:'' @ sha256_hexdigest b"

definition hash_text :: "string \<Rightarrow> string" where
  "hash_text s = sha256_bytes (utf8_encode s)"

definition normalize_path :: "string \<Rightarrow> string" where
  "normalize_path path = as_posix (posix_parse (replace_char (CHR 0x5C) (CHR ''/'') path))"

definition parent_path :: "string \<Rightarrow> string option" where
  "parent_path path =
     (let parent = as_posix (path_parent (posix_parse path)) in if parent = ''.'' then None else Some parent)"

definition path_depth :: "string \<Rightarrow> int" where
  "path_depth path = (if path = [] then 0 else int (length (parts_of (posix_parse path))))"

definition is_binary :: "bytes \<Rightarrow> bool" where
  "is_binary content = (CHR 0x00 \<in> set content)"

definition line_count :: "bytes \<Rightarrow> int" where
  "line_count content =
     (if content = [] then 0
      else let newline_count = int (length (filter (\<lambda>c. c = newline) content))
           in if last content = newline then newline_count else newline_count + 1)"

definition basic_record :: "uuid \<Rightarrow> string \<Rightarrow> string \<Rightarrow> file_row" where
  "basic_record snapshot path kind =
     \<lparr>fr_snapshot_id = snapshot, fr_path = path, fr_path_hash = hash_text path, fr_parent_path = parent_path path,
      fr_name = path_name (posix_parse path), fr_entry_kind = kind, fr_git_mode = None, fr_git_blob_oid = None,
      fr_content_key = None, fr_content_hash = None, fr_size_bytes = None, fr_line_count = None,
      fr_is_binary = False, fr_is_large = False\<rparr>"

definition directory_record :: "uuid \<Rightarrow> string \<Rightarrow> file_row" where
  "directory_record snapshot path = basic_record snapshot path ''directory''"

definition metadata_record :: "uuid \<Rightarrow> string \<Rightarrow> tree_entry \<Rightarrow> string \<Rightarrow> file_row" where
  "metadata_record snapshot path e kind =
     (basic_record snapshot path kind)
       \<lparr>fr_git_mode := Some (te_mode e), fr_git_blob_oid := Some (te_oid e), fr_size_bytes := te_size e\<rparr>"

definition large_file_record :: "uuid \<Rightarrow> string \<Rightarrow> tree_entry \<Rightarrow> file_row" where
  "large_file_record snapshot path e = (metadata_record snapshot path e ''file'')\<lparr>fr_is_large := True\<rparr>"

definition secret_file_record :: "uuid \<Rightarrow> string \<Rightarrow> tree_entry \<Rightarrow> file_row" where
  "secret_file_record snapshot path e = (metadata_record snapshot path e ''file'')\<lparr>fr_is_large := True\<rparr>"

text \<open>The dictionary of records, in the order of insertion.\<close>

type_synonym records = "(string \<times> file_row) list"

fun ensure_directories :: "uuid \<Rightarrow> posix_path \<Rightarrow> string list \<Rightarrow> records \<Rightarrow> records" where
  "ensure_directories snapshot current [] recs = recs"
| "ensure_directories snapshot current (part # rest) recs =
     (let current = path_join current part; current_path = as_posix current
      in ensure_directories snapshot current rest
           (if map_of recs current_path \<noteq> None then recs
            else AList.update current_path (directory_record snapshot current_path) recs))"

definition ensure_directory_records :: "uuid \<Rightarrow> string \<Rightarrow> records \<Rightarrow> records" where
  "ensure_directory_records snapshot path recs =
     ensure_directories snapshot \<lparr>pp_root = [], pp_parts = []\<rparr> (butlast (parts_of (posix_parse path))) recs"

section \<open>Scanning\<close>

text \<open>
  Where the content of a blob comes from: the reader of the builder, which may fail, or a checked-out tree, in which
  a path may have no regular file.
\<close>

datatype content_source = BlobReader "tree_entry \<Rightarrow> git_error + bytes" | Checkout "string \<Rightarrow> bytes option" | NoSource

definition no_content :: "content_source \<Rightarrow> string \<Rightarrow> bool" where
  "no_content src path = (case src of BlobReader r \<Rightarrow> False | Checkout f \<Rightarrow> f path = None | NoSource \<Rightarrow> True)"

definition read_content :: "content_source \<Rightarrow> tree_entry \<Rightarrow> string \<Rightarrow> git_error + bytes option" where
  "read_content src e path =
     (case src of
        BlobReader r \<Rightarrow> rbind (r e) (\<lambda>b. Inr (Some b))
      | Checkout f \<Rightarrow> Inr (f path)
      | NoSource \<Rightarrow> Inr None)"

record scan_state =
  sn_records :: records
  sn_instructions :: "instruction_row list"
  sn_storage :: object_store

definition content_record :: "uuid \<Rightarrow> int \<Rightarrow> string \<Rightarrow> tree_entry \<Rightarrow> bytes \<Rightarrow> file_row" where
  "content_record snapshot max_bytes path e content =
     (let binary = is_binary content; large = int (length content) > max_bytes; stored = \<not> binary \<and> \<not> large
      in (basic_record snapshot path ''file'')
           \<lparr>fr_git_mode := Some (te_mode e), fr_git_blob_oid := Some (te_oid e),
            fr_content_key := (if stored then Some (blob_key (sha256_bytes content)) else None),
            fr_content_hash := Some (sha256_bytes content), fr_size_bytes := Some (int (length content)),
            fr_line_count := (if stored then Some (line_count content) else None),
            fr_is_binary := binary, fr_is_large := large\<rparr>)"

definition store_content :: "uuid \<Rightarrow> int \<Rightarrow> string \<Rightarrow> tree_entry \<Rightarrow> bytes \<Rightarrow> scan_state \<Rightarrow> scan_state" where
  "store_content snapshot max_bytes path e content st =
     (let r = content_record snapshot max_bytes path e content;
          stored = \<not> fr_is_binary r \<and> \<not> fr_is_large r;
          storage = (if stored then put_bytes (sn_storage st) (blob_key (sha256_bytes content)) content ''text/plain; charset=utf-8''
                     else sn_storage st);
          key = instruction_key snapshot (hash_text path);
          scope_path = (case parent_path path of None \<Rightarrow> [] | Some p \<Rightarrow> p)
      in if path_name (posix_parse path) = ''AGENTS.md'' \<and> stored
         then \<lparr>sn_records = AList.update path r (sn_records st),
               sn_instructions = sn_instructions st @
                 [\<lparr>in_snapshot_id = snapshot, in_path = path, in_scope_path = scope_path, in_depth = path_depth scope_path,
                   in_content_hash = sha256_bytes content, in_content_ref = key\<rparr>],
               sn_storage = put_bytes storage key content ''text/markdown; charset=utf-8''\<rparr>
         else st\<lparr>sn_records := AList.update path r (sn_records st), sn_storage := storage\<rparr>)"

definition put_record :: "string \<Rightarrow> file_row \<Rightarrow> scan_state \<Rightarrow> scan_state" where
  "put_record path r st = st\<lparr>sn_records := AList.update path r (sn_records st)\<rparr>"

definition scan_entry :: "uuid \<Rightarrow> int \<Rightarrow> content_source \<Rightarrow> tree_entry \<Rightarrow> scan_state \<Rightarrow> scan_state \<times> (git_error + unit)" where
  "scan_entry snapshot max_bytes src e st0 =
     (let path = normalize_path (te_path e);
          st = st0\<lparr>sn_records := ensure_directory_records snapshot path (sn_records st0)\<rparr>
      in if te_kind e \<noteq> ''blob'' then (put_record path (metadata_record snapshot path e (te_kind e)) st, Inr ())
         else if no_content src path then (put_record path (metadata_record snapshot path e ''file'') st, Inr ())
         else if is_secret_path path then (put_record path (secret_file_record snapshot path e) st, Inr ())
         else if (case te_size e of None \<Rightarrow> False | Some n \<Rightarrow> n > max_bytes)
         then (put_record path (large_file_record snapshot path e) st, Inr ())
         else case read_content src e path of
           Inl err \<Rightarrow> (st, Inl err)
         | Inr None \<Rightarrow> (put_record path (metadata_record snapshot path e ''file'') st, Inr ())
         | Inr (Some content) \<Rightarrow> (store_content snapshot max_bytes path e content st, Inr ()))"

fun scan_loop :: "uuid \<Rightarrow> int \<Rightarrow> content_source \<Rightarrow> tree_entry list \<Rightarrow> scan_state \<Rightarrow> scan_state \<times> (git_error + unit)" where
  "scan_loop snapshot max_bytes src [] st = (st, Inr ())"
| "scan_loop snapshot max_bytes src (e # es) st =
     (case scan_entry snapshot max_bytes src e st of
        (st1, Inl err) \<Rightarrow> (st1, Inl err)
      | (st1, Inr _) \<Rightarrow> scan_loop snapshot max_bytes src es st1)"

definition scan :: "uuid \<Rightarrow> int \<Rightarrow> content_source \<Rightarrow> tree_entry list \<Rightarrow> object_store \<Rightarrow> scan_state \<times> (git_error + unit)" where
  "scan snapshot max_bytes src entries storage =
     scan_loop snapshot max_bytes src (sort_key te_path entries)
       \<lparr>sn_records = [], sn_instructions = [], sn_storage = storage\<rparr>"

section \<open>What a scan stores\<close>

lemma blob_key_inject:
  assumes "blob_key (sha256_bytes b) = blob_key (sha256_bytes c)"
  shows "sha256_bytes b = sha256_bytes c"
proof -
  have h: "hash_value (sha256_bytes x) = sha256_hexdigest x" for x by (simp add: hash_value_def sha256_bytes_def)
  have "length (sha256_hexdigest b) = length (sha256_hexdigest c)" by (simp add: sha256_hexdigest_length)
  moreover from assms have "take 2 (sha256_hexdigest b) @ ''/'' @ take 2 (drop 2 (sha256_hexdigest b)) @ ''/'' @ sha256_hexdigest b =
      take 2 (sha256_hexdigest c) @ ''/'' @ take 2 (drop 2 (sha256_hexdigest c)) @ ''/'' @ sha256_hexdigest c"
    unfolding blob_key_def h Let_def by simp
  ultimately have "sha256_hexdigest b = sha256_hexdigest c" by (simp add: append_eq_append_conv)
  then show ?thesis by (simp add: sha256_bytes_def)
qed

lemma instruction_not_blob: "instruction_key s h \<noteq> blob_key g"
  by (simp add: instruction_key_def blob_key_def Let_def)

text \<open>A record with a content key promises that the stored object is text of the recorded hash, within the limit.\<close>

definition stored_text :: "int \<Rightarrow> object_store \<Rightarrow> file_row \<Rightarrow> bool" where
  "stored_text max_bytes storage r \<longleftrightarrow>
     (\<forall>k. fr_content_key r = Some k \<longrightarrow>
        fr_entry_kind r = ''file'' \<and> \<not> fr_is_binary r \<and> \<not> fr_is_large r \<and> \<not> is_secret_path (fr_path r) \<and>
        (\<exists>content. get_bytes storage k = Some content \<and> k = blob_key (sha256_bytes content) \<and>
           fr_content_hash r = Some (sha256_bytes content) \<and> \<not> is_binary content \<and> int (length content) \<le> max_bytes))"

text \<open>
  What may be stored, and where: the content of a blob of the tree whose path is not secret, which is text, is within
  the size limit both by the size git lists and by its own length, and stands under the key of its hash or, for an
  \<^verbatim>\<open>AGENTS.md\<close>, under the key of the instructions of its path.
\<close>

definition tree_content :: "int \<Rightarrow> content_source \<Rightarrow> tree_entry list \<Rightarrow> string \<Rightarrow> bytes \<Rightarrow> bool" where
  "tree_content max_bytes src entries path content \<longleftrightarrow>
     \<not> is_secret_path path \<and> \<not> is_binary content \<and> int (length content) \<le> max_bytes \<and>
     (\<exists>e \<in> set entries. te_kind e = ''blob'' \<and> normalize_path (te_path e) = path \<and>
        (\<forall>n. te_size e = Some n \<longrightarrow> n \<le> max_bytes) \<and> read_content src e path = Inr (Some content))"

definition public_content :: "uuid \<Rightarrow> int \<Rightarrow> content_source \<Rightarrow> tree_entry list \<Rightarrow> string \<Rightarrow> bytes \<Rightarrow> bool" where
  "public_content snapshot max_bytes src entries key content \<longleftrightarrow>
     (\<exists>path. tree_content max_bytes src entries path content \<and>
        (key = blob_key (sha256_bytes content) \<or>
         path_name (posix_parse path) = ''AGENTS.md'' \<and> key = instruction_key snapshot (hash_text path)))"

text \<open>A record that names an object: the hash it records is that of the content of its own blob, and the object may be stored.\<close>

definition recorded_content :: "uuid \<Rightarrow> int \<Rightarrow> content_source \<Rightarrow> tree_entry list \<Rightarrow> object_store \<Rightarrow> file_row \<Rightarrow> bool" where
  "recorded_content snapshot max_bytes src entries storage r \<longleftrightarrow>
     (\<forall>key. fr_content_key r = Some key \<longrightarrow>
        (\<exists>content. tree_content max_bytes src entries (fr_path r) content \<and> fr_content_hash r = Some (sha256_bytes content)) \<and>
        (\<exists>content. get_bytes storage key = Some content \<and> public_content snapshot max_bytes src entries key content))"

definition scan_ok :: "uuid \<Rightarrow> content_source \<Rightarrow> tree_entry list \<Rightarrow> int \<Rightarrow> object_store \<Rightarrow> scan_state \<Rightarrow> bool" where
  "scan_ok snapshot src entries max_bytes storage st \<longleftrightarrow>
     (\<forall>(k, r) \<in> set (sn_records st). fr_path r = k \<and> stored_text max_bytes (sn_storage st) r \<and>
        recorded_content snapshot max_bytes src entries (sn_storage st) r) \<and>
     (\<forall>k. get_bytes (sn_storage st) k \<noteq> get_bytes storage k \<longrightarrow>
        (\<exists>content. get_bytes (sn_storage st) k = Some content \<and>
           public_content snapshot max_bytes src entries k content))"

lemma dict_update_cases: "x \<in> set (AList.update k v d) \<Longrightarrow> x = (k, v) \<or> x \<in> set d"
  by (induction d) (auto split: if_splits)

lemma basic_record_fields [simp]:
  "fr_path (basic_record s p k) = p" "fr_content_key (basic_record s p k) = None" "fr_entry_kind (basic_record s p k) = k"
  by (simp_all add: basic_record_def)

lemma plain_records [simp]:
  "fr_path (directory_record s p) = p" "fr_content_key (directory_record s p) = None"
  "fr_path (metadata_record s p e k) = p" "fr_content_key (metadata_record s p e k) = None"
  "fr_path (large_file_record s p e) = p" "fr_content_key (large_file_record s p e) = None"
  "fr_path (secret_file_record s p e) = p" "fr_content_key (secret_file_record s p e) = None"
  by (simp_all add: directory_record_def metadata_record_def large_file_record_def secret_file_record_def)

lemma stored_text_plain: "fr_content_key r = None \<Longrightarrow> stored_text m storage r"
  by (simp add: stored_text_def)

lemma recorded_plain: "fr_content_key r = None \<Longrightarrow> recorded_content s m src es storage r"
  by (simp add: recorded_content_def)

lemma scan_ok_put:
  "scan_ok s src es m storage st \<Longrightarrow> fr_path r = path \<Longrightarrow> fr_content_key r = None \<Longrightarrow> scan_ok s src es m storage (put_record path r st)"
  by (auto simp: scan_ok_def put_record_def stored_text_plain recorded_plain dest!: dict_update_cases)

lemma ensure_directories_mem:
  "x \<in> set (ensure_directories s current parts recs) \<Longrightarrow> x \<in> set recs \<or> (\<exists>p. x = (p, directory_record s p))"
proof (induction s current parts recs rule: ensure_directories.induct)
  case (2 s current part rest recs)
  then show ?case by (auto simp: Let_def split: if_splits dest!: dict_update_cases)
qed simp

lemma scan_ok_directories:
  "scan_ok s src es m storage st \<Longrightarrow>
   scan_ok s src es m storage (st\<lparr>sn_records := ensure_directory_records s path (sn_records st)\<rparr>)"
  by (auto simp: scan_ok_def ensure_directory_records_def stored_text_plain recorded_plain dest!: ensure_directories_mem)

lemma stored_text_put:
  assumes "stored_text m storage r"
    "(\<forall>h. k \<noteq> blob_key h) \<or> k = blob_key (sha256_bytes content) \<and> \<not> is_binary content \<and> int (length content) \<le> m"
  shows "stored_text m (put_bytes storage k content ct) r"
  unfolding stored_text_def
proof (intro allI impI)
  fix j assume j: "fr_content_key r = Some j"
  with assms(1) obtain c where c: "get_bytes storage j = Some c" "j = blob_key (sha256_bytes c)"
      "fr_content_hash r = Some (sha256_bytes c)" "\<not> is_binary c" "int (length c) \<le> m"
      and r: "fr_entry_kind r = ''file''" "\<not> fr_is_binary r" "\<not> fr_is_large r" "\<not> is_secret_path (fr_path r)"
    by (auto simp: stored_text_def)
  have "\<exists>c'. get_bytes (put_bytes storage k content ct) j = Some c' \<and> j = blob_key (sha256_bytes c') \<and>
      fr_content_hash r = Some (sha256_bytes c') \<and> \<not> is_binary c' \<and> int (length c') \<le> m"
  proof (cases "j = k")
    case True
    with assms(2) c(2) have "sha256_bytes c = sha256_bytes content" "\<not> is_binary content" "int (length content) \<le> m"
      using blob_key_inject by metis+
    with True c show ?thesis by (auto simp: mem_store.get_put)
  next
    case False
    with c show ?thesis by (auto simp: mem_store.get_put)
  qed
  with r show "fr_entry_kind r = ''file'' \<and> \<not> fr_is_binary r \<and> \<not> fr_is_large r \<and> \<not> is_secret_path (fr_path r) \<and>
      (\<exists>c'. get_bytes (put_bytes storage k content ct) j = Some c' \<and> j = blob_key (sha256_bytes c') \<and>
        fr_content_hash r = Some (sha256_bytes c') \<and> \<not> is_binary c' \<and> int (length c') \<le> m)" by blast
qed

lemma content_record_fields [simp]:
  "fr_path (content_record s m path e content) = path" "fr_entry_kind (content_record s m path e content) = ''file''"
  "fr_is_binary (content_record s m path e content) = is_binary content"
  "fr_is_large (content_record s m path e content) = (int (length content) > m)"
  "fr_content_hash (content_record s m path e content) = Some (sha256_bytes content)"
  "fr_content_key (content_record s m path e content) =
     (if \<not> is_binary content \<and> int (length content) \<le> m then Some (blob_key (sha256_bytes content)) else None)"
  by (simp_all add: content_record_def Let_def)

lemma scan_ok_store:
  assumes "scan_ok s src es m storage st" "e \<in> set es" "te_kind e = ''blob''" "\<not> is_secret_path path"
    "path = normalize_path (te_path e)" "\<And>n. te_size e = Some n \<Longrightarrow> n \<le> m" "read_content src e path = Inr (Some content)"
  shows "scan_ok s src es m storage (store_content s m path e content st)"
proof -
  define is_text where "is_text \<longleftrightarrow> \<not> is_binary content \<and> int (length content) \<le> m"
  define st1 where "st1 = (if is_text then put_bytes (sn_storage st) (blob_key (sha256_bytes content)) content ''text/plain; charset=utf-8''
    else sn_storage st)"
  define st2 where "st2 = (if path_name (posix_parse path) = ''AGENTS.md'' \<and> is_text
    then put_bytes st1 (instruction_key s (hash_text path)) content ''text/markdown; charset=utf-8'' else st1)"
  let ?r = "content_record s m path e content"
  have st': "sn_storage (store_content s m path e content st) = st2"
    "sn_records (store_content s m path e content st) = AList.update path ?r (sn_records st)"
    by (auto simp: store_content_def Let_def st2_def st1_def is_text_def not_less)
  have old: "stored_text m st2 r" if "stored_text m (sn_storage st) r" for r
    using that instruction_not_blob by (auto simp: st2_def st1_def is_text_def intro!: stored_text_put)
  have got: "get_bytes st2 (blob_key (sha256_bytes content)) = Some content" if is_text
    using that instruction_not_blob by (auto simp: st2_def st1_def mem_store.get_put)
  then have new: "stored_text m st2 ?r"
    using assms(4) by (auto simp: stored_text_def is_text_def)
  have tree: "tree_content m src es path content" if is_text
    using that assms(2-7) unfolding tree_content_def is_text_def by blast
  then have pub: "public_content s m src es k content"
    if is_text "k = blob_key (sha256_bytes content) \<or> path_name (posix_parse path) = ''AGENTS.md'' \<and> k = instruction_key s (hash_text path)" for k
    using that unfolding public_content_def by blast
  have changed: "get_bytes st2 k = get_bytes (sn_storage st) k \<or> get_bytes st2 k = Some content \<and> public_content s m src es k content" for k
    using pub by (auto simp: st2_def st1_def mem_store.get_put)
  have kept: "recorded_content s m src es st2 r" if "recorded_content s m src es (sn_storage st) r" for r
    unfolding recorded_content_def
  proof (intro allI impI conjI)
    fix k assume k: "fr_content_key r = Some k"
    with that show "\<exists>c. tree_content m src es (fr_path r) c \<and> fr_content_hash r = Some (sha256_bytes c)"
      unfolding recorded_content_def by blast
    from that k obtain c where "get_bytes (sn_storage st) k = Some c" "public_content s m src es k c"
      unfolding recorded_content_def by blast
    with changed [of k] show "\<exists>c. get_bytes st2 k = Some c \<and> public_content s m src es k c" by auto
  qed
  have named: "recorded_content s m src es st2 ?r"
    using got pub tree by (auto simp: recorded_content_def is_text_def split: if_splits)
  show ?thesis unfolding scan_ok_def st'
  proof (intro conjI ballI allI impI)
    fix x assume "x \<in> set (AList.update path ?r (sn_records st))"
    then consider "x = (path, ?r)" | "x \<in> set (sn_records st)" by (auto dest!: dict_update_cases)
    then show "case x of (k, r) \<Rightarrow> fr_path r = k \<and> stored_text m st2 r \<and>
        recorded_content s m src es st2 r"
    proof cases
      case 1
      then show ?thesis using new named by simp
    next
      case 2
      then show ?thesis using assms(1) old kept by (fastforce simp: scan_ok_def)
    qed
  next
    fix k assume "get_bytes st2 k \<noteq> get_bytes storage k"
    with changed [of k] assms(1) show "\<exists>c. get_bytes st2 k = Some c \<and> public_content s m src es k c"
      by (auto simp: scan_ok_def)
  qed
qed

lemma scan_entry_ok:
  assumes "scan_ok s src es m storage st" "e \<in> set es" "scan_entry s m src e st = (st', r)"
  shows "scan_ok s src es m storage st'"
proof -
  define path where "path = normalize_path (te_path e)"
  note d = scan_ok_directories [OF assms(1), of path]
  show ?thesis using assms(3)
    by (auto simp: scan_entry_def path_def [symmetric] Let_def intro!: scan_ok_put [OF d] scan_ok_store [OF d assms(2)] d path_def
        split: if_splits sum.splits option.splits)
qed

lemma scan_loop_ok:
  "scan_ok s src es m storage st \<Longrightarrow> set xs \<subseteq> set es \<Longrightarrow> scan_loop s m src xs st = (st', r) \<Longrightarrow> scan_ok s src es m storage st'"
proof (induction s m src xs st rule: scan_loop.induct)
  case (2 s m src e xs st)
  obtain st1 r1 where e: "scan_entry s m src e st = (st1, r1)" by (cases rule: prod.exhaust)
  have "scan_ok s src es m storage st1" using scan_entry_ok [OF "2.prems"(1) _ e] "2.prems"(2) by simp
  with 2 e show ?case by (cases r1) auto
qed simp

lemma scan_result_ok:
  assumes "scan s m src entries storage = (st, r)"
  shows "scan_ok s src entries m storage st"
proof -
  have "scan_ok s src (sort_key te_path entries) m storage \<lparr>sn_records = [], sn_instructions = [], sn_storage = storage\<rparr>"
    by (simp add: scan_ok_def)
  from scan_loop_ok [OF this _ assms [unfolded scan_def]] have "scan_ok s src (sort_key te_path entries) m storage st" by simp
  then show ?thesis by (simp add: scan_ok_def public_content_def tree_content_def recorded_content_def)
qed

lemma scan_records_tree:
  "scan s m src entries storage = (st, r) \<Longrightarrow> x \<in> set (sn_records st) \<Longrightarrow>
   fr_path (snd x) = fst x \<and> recorded_content s m src entries (sn_storage st) (snd x)"
  using scan_result_ok by (fastforce simp: scan_ok_def)

lemma scan_stores_files:
  "scan s m src entries storage = (st, r) \<Longrightarrow> x \<in> set (sn_records st) \<Longrightarrow> stored_text m (sn_storage st) (snd x)"
  using scan_result_ok by (fastforce simp: scan_ok_def)

text \<open>
  C35: However a scan ends, and whatever the tree, every record that names a stored object is the record of a text file
  whose path is not secret; the hash it records is that of the content of the blob at its path, and the object has this hash
  and is the content of a blob of the tree that may be stored. Nothing else is written: an object that the scan has written, the copy of an \<^verbatim>\<open>AGENTS.md\<close> included, is text within
  the size limit, the content of a blob whose path is not secret, under the key of its hash or of its instructions.
\<close>
theorem scan_stores_no_secret:
  assumes "scan s m src entries storage = (st, r)"
  shows "(\<forall>(k, row) \<in> set (sn_records st). fr_path row = k \<and> stored_text m (sn_storage st) row \<and>
      recorded_content s m src entries (sn_storage st) row) \<and>
    (\<forall>k. get_bytes (sn_storage st) k \<noteq> get_bytes storage k \<longrightarrow>
       (\<exists>content. get_bytes (sn_storage st) k = Some content \<and> public_content s m src entries k content))"
  using scan_result_ok [OF assms] by (simp add: scan_ok_def)

definition sample_entry :: "string \<Rightarrow> tree_entry" where
  "sample_entry path = \<lparr>te_mode = ''100644'', te_kind = ''blob'', te_oid = ''0a'', te_size = Some 3, te_path = path\<rparr>"

lemma sample_env_secret: "is_secret_path (normalize_path ''app/.env'')"
  by code_simp

theorem scan_stores_no_secret_witness:
  "\<forall>k. get_bytes (sn_storage (fst (scan 1 10 (BlobReader (\<lambda>e. Inr ''key'')) [sample_entry ''app/.env''] empty_store))) k = None"
proof
  fix k
  obtain st r where s: "scan 1 10 (BlobReader (\<lambda>e. Inr ''key'')) [sample_entry ''app/.env''] empty_store = (st, r)"
    by (cases rule: prod.exhaust)
  have "\<not> public_content 1 10 (BlobReader (\<lambda>e. Inr ''key'')) [sample_entry ''app/.env''] key c" for key c
    by (auto simp: public_content_def tree_content_def sample_entry_def sample_env_secret)
  with scan_stores_no_secret [OF s] have "get_bytes (sn_storage st) k = get_bytes empty_store k" by blast
  with s show "get_bytes (sn_storage (fst (scan 1 10 (BlobReader (\<lambda>e. Inr ''key'')) [sample_entry ''app/.env''] empty_store))) k = None"
    by (simp add: get_bytes_def empty_store_def)
qed

section \<open>The tree of records\<close>

text \<open>Relative paths in normal form: what \<^verbatim>\<open>_normalize_path\<close> makes of the paths git lists.\<close>

definition path_component :: "string \<Rightarrow> bool" where
  "path_component p \<longleftrightarrow> p \<noteq> [] \<and> p \<noteq> ''.'' \<and> CHR ''/'' \<notin> set p"

definition relative :: "string list \<Rightarrow> posix_path" where
  "relative parts = \<lparr>pp_root = [], pp_parts = parts\<rparr>"

lemma component_joined:
  assumes "parts \<noteq> []" "list_all path_component parts"
  shows "posix_parse (join_with ''/'' parts) = relative parts"
proof -
  have s: "split_on (CHR ''/'') (join_with ''/'' parts) = parts"
    using assms by (intro split_join) (auto simp: list_all_iff path_component_def)
  have "hd (join_with ''/'' parts) = hd (hd parts)" "join_with ''/'' parts \<noteq> []"
    using join_with_ends [OF assms(1), of "CHR ''/''"] assms(2) by (auto simp: list_all_iff path_component_def)
  moreover have "hd (hd parts) \<noteq> CHR ''/''"
    using assms by (cases parts) (auto simp: path_component_def dest: hd_in_set)
  ultimately have "\<not> starts_with ''/'' (join_with ''/'' parts)" "\<not> starts_with ''//'' (join_with ''/'' parts)"
    by (cases "join_with ''/'' parts"; simp add: starts_with_def)+
  with s assms(2) show ?thesis
    by (auto simp: posix_parse_def relative_def list_all_iff path_component_def intro: filter_True)
qed

lemma as_posix_relative: "as_posix (relative parts) = (if parts = [] then ''.'' else join_with ''/'' parts)"
  by (simp add: as_posix_def relative_def)

lemma joined_not_dot: "parts \<noteq> [] \<Longrightarrow> list_all path_component parts \<Longrightarrow> join_with ''/'' parts \<noteq> ''.''"
  using component_joined [of parts] by (auto simp: posix_parse_def relative_def starts_with_def path_component_def)

lemma joined_inject:
  "list_all path_component ps \<Longrightarrow> list_all path_component qs \<Longrightarrow> ps \<noteq> [] \<Longrightarrow> qs \<noteq> [] \<Longrightarrow>
   join_with ''/'' ps = join_with ''/'' qs \<longleftrightarrow> ps = qs"
  using component_joined by (metis posix_path.ext_inject relative_def)

lemma parent_path_joined:
  assumes "parts \<noteq> []" "list_all path_component parts"
  shows "parent_path (join_with ''/'' parts) = (if length parts = 1 then None else Some (join_with ''/'' (butlast parts)))"
proof -
  have "butlast parts = [] \<longleftrightarrow> length parts = 1" using assms(1) by (cases parts rule: rev_cases) auto
  moreover have "path_parent (relative parts) = relative (butlast parts)" by (simp add: path_parent_def relative_def)
  moreover have "list_all path_component (butlast parts)" using assms(2) by (auto simp: list_all_iff dest: in_set_butlastD)
  ultimately show ?thesis
    using joined_not_dot [of "butlast parts"] by (auto simp: parent_path_def component_joined [OF assms] as_posix_relative)
qed

lemma normalize_path_relative:
  assumes "\<not> starts_with ''/'' (replace_char (CHR 0x5C) (CHR ''/'') p)"
  obtains parts where "list_all path_component parts" "normalize_path p = as_posix (relative parts)"
proof
  let ?s = "replace_char (CHR 0x5C) (CHR ''/'') p"
  have "\<not> starts_with ''//'' ?s" using assms by (cases ?s) (auto simp: starts_with_def)
  then have "posix_parse ?s = relative (filter (\<lambda>p. p \<noteq> [] \<and> p \<noteq> ''.'') (split_on (CHR ''/'') ?s))"
    using assms by (simp add: posix_parse_def relative_def)
  then show "normalize_path p = as_posix (relative (filter (\<lambda>p. p \<noteq> [] \<and> p \<noteq> ''.'') (split_on (CHR ''/'') ?s)))"
    by (simp add: normalize_path_def)
  show "list_all path_component (filter (\<lambda>p. p \<noteq> [] \<and> p \<noteq> ''.'') (split_on (CHR ''/'') ?s))"
    by (auto simp: list_all_iff path_component_def dest: split_on_parts)
qed

text \<open>Every record stands under its path, and with it the records of all directories above it.\<close>

definition closed_tree :: "records \<Rightarrow> bool" where
  "closed_tree recs \<longleftrightarrow>
     distinct (map fst recs) \<and>
     (\<forall>(k, r) \<in> set recs. fr_path r = k \<and> fr_parent_path r = parent_path k \<and>
        (\<forall>p. parent_path k = Some p \<longrightarrow> p \<in> fst ` set recs))"

lemma closed_tree_update:
  assumes "closed_tree recs" "fr_path r = k" "fr_parent_path r = parent_path k"
    "\<And>p. parent_path k = Some p \<Longrightarrow> p \<in> insert k (fst ` set recs)"
  shows "closed_tree (AList.update k r recs)" "fst ` set (AList.update k r recs) = insert k (fst ` set recs)"
proof -
  show keys: "fst ` set (AList.update k r recs) = insert k (fst ` set recs)" by (simp add: dom_update)
  show "closed_tree (AList.update k r recs)"
    using assms unfolding closed_tree_def keys by (auto simp: distinct_update dest!: dict_update_cases)
qed

lemma directory_record_parent [simp]: "fr_parent_path (directory_record s p) = parent_path p"
  by (simp add: directory_record_def basic_record_def)

lemma ensure_directories_closed:
  assumes "closed_tree recs" "list_all path_component (done @ rest)" "done = [] \<or> join_with ''/'' done \<in> fst ` set recs"
  shows "closed_tree (ensure_directories s (relative done) rest recs) \<and>
    fst ` set recs \<subseteq> fst ` set (ensure_directories s (relative done) rest recs) \<and>
    (done @ rest = [] \<or> join_with ''/'' (done @ rest) \<in> fst ` set (ensure_directories s (relative done) rest recs))"
  using assms
proof (induction rest arbitrary: "done" recs)
  case (Cons part rest)
  define path where "path = join_with ''/'' (done @ [part])"
  have comps: "list_all path_component (done @ [part])" using Cons.prems(2) by simp
  have j: "path_join (relative done) part = relative (done @ [part])"
    using Cons.prems(2) by (cases part) (auto simp: path_join_def relative_def starts_with_def path_component_def)
  define recs' where "recs' = (if map_of recs path \<noteq> None then recs else AList.update path (directory_record s path) recs)"
  have "parent_path path = Some p \<Longrightarrow> p \<in> insert path (fst ` set recs)" for p
    using Cons.prems(3) parent_path_joined [OF _ comps] by (auto simp: path_def split: if_splits)
  then have "closed_tree recs'" "fst ` set recs' = insert path (fst ` set recs)"
    using closed_tree_update [OF Cons.prems(1), of "directory_record s path" path] Cons.prems(1)
    by (auto simp: recs'_def map_of_eq_None_iff)
  moreover have "ensure_directories s (relative done) (part # rest) recs = ensure_directories s (relative (done @ [part])) rest recs'"
    by (simp add: j as_posix_relative path_def [symmetric] recs'_def)
  ultimately show ?case using Cons.IH [of recs' "done @ [part]"] Cons.prems(2) by (auto simp: path_def)
qed simp

lemma record_parents [simp]:
  "fr_parent_path (metadata_record s p e k) = parent_path p" "fr_parent_path (large_file_record s p e) = parent_path p"
  "fr_parent_path (secret_file_record s p e) = parent_path p" "fr_parent_path (content_record s m p e c) = parent_path p"
  by (simp_all add: metadata_record_def large_file_record_def secret_file_record_def content_record_def basic_record_def Let_def)

lemma ensure_directory_records_closed:
  assumes "closed_tree recs" "list_all path_component parts"
  defines "path \<equiv> as_posix (relative parts)"
  shows "closed_tree (ensure_directory_records s path recs)" "fst ` set recs \<subseteq> fst ` set (ensure_directory_records s path recs)"
    "parent_path path = Some p \<Longrightarrow> p \<in> fst ` set (ensure_directory_records s path recs)"
proof -
  have dot: "posix_parse ''.'' = relative []" by (simp add: posix_parse_def relative_def starts_with_def)
  have parsed: "posix_parse path = relative parts"
    using component_joined [OF _ assms(2)] dot by (auto simp: path_def as_posix_relative)
  have bl: "list_all path_component (butlast parts)" using assms(2) by (auto simp: list_all_iff dest: in_set_butlastD)
  have e: "ensure_directory_records s path recs = ensure_directories s (relative []) (butlast parts) recs"
    by (simp add: ensure_directory_records_def parsed parts_of_def relative_def)
  note c = ensure_directories_closed [OF assms(1), of "[]" "butlast parts" s, simplified append_Nil, OF bl, simplified]
  show "closed_tree (ensure_directory_records s path recs)" "fst ` set recs \<subseteq> fst ` set (ensure_directory_records s path recs)"
    using c by (auto simp: e)
  assume p: "parent_path path = Some p"
  have "parent_path ''.'' = None" by (simp add: parent_path_def dot path_parent_def as_posix_def relative_def)
  with p have ne: "parts \<noteq> []" by (auto simp: path_def as_posix_relative)
  with p parent_path_joined [OF ne assms(2)] have "p = join_with ''/'' (butlast parts)" "butlast parts \<noteq> []"
    by (auto simp: path_def as_posix_relative split: if_splits) (cases parts rule: rev_cases; simp)
  with c show "p \<in> fst ` set (ensure_directory_records s path recs)" by (auto simp: e)
qed

text \<open>What an entry does to the records.\<close>

definition row_put :: "string \<Rightarrow> records \<Rightarrow> records \<Rightarrow> bool" where
  "row_put path recs recs' \<longleftrightarrow>
     (\<exists>row. fr_path row = path \<and> fr_parent_path row = parent_path path \<and> recs' = AList.update path row recs)"

lemma row_putI [intro!, simp]:
  "fr_path row = path \<Longrightarrow> fr_parent_path row = parent_path path \<Longrightarrow> row_put path recs (AList.update path row recs)"
  by (auto simp: row_put_def)

lemma scan_entry_records:
  assumes "scan_entry s m src e st = (st', r)" "path = normalize_path (te_path e)"
    "recs = ensure_directory_records s path (sn_records st)"
  shows "row_put path recs (sn_records st') \<or> (\<exists>err. r = Inl err) \<and> sn_records st' = recs"
proof -
  have store: "row_put path recs (sn_records (store_content s m path e c (st\<lparr>sn_records := recs\<rparr>)))" for c
    by (simp add: store_content_def Let_def)
  show ?thesis using assms(1) store
    by (auto simp: scan_entry_def assms(2) [symmetric] assms(3) [symmetric] put_record_def Let_def
        split: if_splits sum.splits option.splits)
qed

lemma scan_entry_closed:
  assumes "closed_tree (sn_records st)" "scan_entry s m src e st = (st', r)"
    "\<not> starts_with ''/'' (replace_char (CHR 0x5C) (CHR ''/'') (te_path e))"
  shows "closed_tree (sn_records st') \<and> fst ` set (sn_records st) \<subseteq> fst ` set (sn_records st') \<and>
    (r = Inr u \<longrightarrow> normalize_path (te_path e) \<in> fst ` set (sn_records st'))"
proof -
  define path where "path = normalize_path (te_path e)"
  obtain parts where "list_all path_component parts" "path = as_posix (relative parts)"
    using normalize_path_relative [OF assms(3)] unfolding path_def .
  note d = ensure_directory_records_closed [OF assms(1) this(1), where s = s, folded this(2)]
  consider "row_put path (ensure_directory_records s path (sn_records st)) (sn_records st')"
    | err where "r = Inl err" "sn_records st' = ensure_directory_records s path (sn_records st)"
    using scan_entry_records [OF assms(2) path_def refl] by blast
  then show ?thesis
  proof cases
    case 1
    then obtain row where row: "fr_path row = path" "fr_parent_path row = parent_path path"
        and st': "sn_records st' = AList.update path row (ensure_directory_records s path (sn_records st))"
      by (auto simp: row_put_def)
    from closed_tree_update [OF d(1) row] d(2,3) show ?thesis unfolding st' path_def [symmetric] by auto
  next
    case 2
    with d(1,2) show ?thesis by auto
  qed
qed

lemma scan_loop_closed:
  "closed_tree (sn_records st) \<Longrightarrow> list_all (\<lambda>e. \<not> starts_with ''/'' (replace_char (CHR 0x5C) (CHR ''/'') (te_path e))) es \<Longrightarrow>
   scan_loop s m src es st = (st', Inr u) \<Longrightarrow>
   closed_tree (sn_records st') \<and> fst ` set (sn_records st) \<subseteq> fst ` set (sn_records st') \<and>
   (\<forall>e \<in> set es. normalize_path (te_path e) \<in> fst ` set (sn_records st'))"
proof (induction s m src es st rule: scan_loop.induct)
  case (2 s m src e es st)
  obtain st1 r1 where e: "scan_entry s m src e st = (st1, r1)" by (cases rule: prod.exhaust)
  with "2.prems"(3) obtain v where r1: "r1 = Inr v" by (auto split: sum.splits)
  have c: "closed_tree (sn_records st1)" "fst ` set (sn_records st) \<subseteq> fst ` set (sn_records st1)"
      "normalize_path (te_path e) \<in> fst ` set (sn_records st1)"
    using scan_entry_closed [OF "2.prems"(1) e, of v] "2.prems"(2) r1 by auto
  with "2.IH" [OF e [symmetric] r1 c(1)] "2.prems"(2,3) e r1 show ?case by auto
qed simp

text \<open>
  A scan of a tree of relative paths that ends well has exactly one record for each path, one for every entry of
  the tree, and for every record that has a parent a record of that parent: the listing of a directory, which is
  by parent, reaches every file.
\<close>
theorem scan_tree_closed:
  assumes "scan s m src entries storage = (st, Inr u)"
    and "list_all (\<lambda>e. \<not> starts_with ''/'' (replace_char (CHR 0x5C) (CHR ''/'') (te_path e))) entries"
  shows "distinct (map (fr_path \<circ> snd) (sn_records st)) \<and>
    (\<forall>e \<in> set entries. normalize_path (te_path e) \<in> (fr_path \<circ> snd) ` set (sn_records st)) \<and>
    (\<forall>x \<in> set (sn_records st). \<forall>p. fr_parent_path (snd x) = Some p \<longrightarrow> p \<in> (fr_path \<circ> snd) ` set (sn_records st))"
proof -
  have "closed_tree (sn_records \<lparr>sn_records = [], sn_instructions = [], sn_storage = storage\<rparr>)" by (simp add: closed_tree_def)
  from scan_loop_closed [OF this _ assms(1) [unfolded scan_def]] assms(2)
  have c: "closed_tree (sn_records st)" "\<forall>e \<in> set entries. normalize_path (te_path e) \<in> fst ` set (sn_records st)"
    by (auto simp: list_all_iff)
  have m: "map (fr_path \<circ> snd) (sn_records st) = map fst (sn_records st)" using c(1) by (auto simp: closed_tree_def)
  then have i: "(fr_path \<circ> snd) ` set (sn_records st) = fst ` set (sn_records st)" by (metis list.set_map)
  show ?thesis unfolding m i using c by (auto simp: closed_tree_def)
qed

theorem scan_tree_closed_witness:
  "\<exists>st. scan 1 10 NoSource [sample_entry ''src/a.py''] empty_store = (st, Inr ()) \<and>
     (\<forall>x \<in> set (sn_records st). \<forall>p. fr_parent_path (snd x) = Some p \<longrightarrow> p \<in> (fr_path \<circ> snd) ` set (sn_records st))"
proof -
  obtain st where s: "scan 1 10 NoSource [sample_entry ''src/a.py''] empty_store = (st, Inr ())"
    by (simp add: scan_def scan_entry_def sample_entry_def no_content_def Let_def)
  have "list_all (\<lambda>e. \<not> starts_with ''/'' (replace_char (CHR 0x5C) (CHR ''/'') (te_path e))) [sample_entry ''src/a.py'']"
    by (simp add: sample_entry_def replace_char_def starts_with_def)
  from scan_tree_closed [OF s this] s show ?thesis by blast
qed

section \<open>The builder\<close>

record snapshot_policy =
  po_max_file_bytes :: int
  po_max_git_bundle_bytes :: int
  po_lfs_policy :: string
  po_submodule_policy :: string
  po_binary_policy :: string
  po_secret_path_policy_version :: string

definition policy_json :: "snapshot_policy \<Rightarrow> json" where
  "policy_json p =
     JObj [(''max_file_bytes'', JInt (po_max_file_bytes p)), (''max_git_bundle_bytes'', JInt (po_max_git_bundle_bytes p)),
           (''lfs_policy'', JStr (po_lfs_policy p)), (''submodule_policy'', JStr (po_submodule_policy p)),
           (''binary_policy'', JStr (po_binary_policy p)), (''secret_path_policy_version'', JStr (po_secret_path_policy_version p))]"

definition policy_hash :: "snapshot_policy \<Rightarrow> string" where
  "policy_hash p = sha256_bytes (utf8_encode (json_dumps_ascii '','' '':'' (json_sorted (policy_json p))))"

definition tree_text :: "file_row list \<Rightarrow> string" where
  "tree_text files = concat (map (\<lambda>f. fr_path f @ [newline]) files)"

definition opt_str :: "string option \<Rightarrow> json" where
  "opt_str v = (case v of None \<Rightarrow> JNull | Some s \<Rightarrow> JStr s)"

definition opt_int :: "int option \<Rightarrow> json" where
  "opt_int v = (case v of None \<Rightarrow> JNull | Some n \<Rightarrow> JInt n)"

definition file_tree_json :: "file_row list \<Rightarrow> json" where
  "file_tree_json files =
     JObj [(''files'', JList (map (\<lambda>f. JObj [(''path'', JStr (fr_path f)), (''kind'', JStr (fr_entry_kind f)),
       (''size_bytes'', opt_int (fr_size_bytes f)), (''is_binary'', JBool (fr_is_binary f)),
       (''is_large'', JBool (fr_is_large f))]) files))]"

definition file_record_json :: "file_row \<Rightarrow> json" where
  "file_record_json f =
     JObj [(''path'', JStr (fr_path f)), (''path_hash'', JStr (fr_path_hash f)), (''parent_path'', opt_str (fr_parent_path f)),
           (''name'', JStr (fr_name f)), (''entry_kind'', JStr (fr_entry_kind f)), (''git_mode'', opt_str (fr_git_mode f)),
           (''git_blob_oid'', opt_str (fr_git_blob_oid f)), (''content_key'', opt_str (fr_content_key f)),
           (''content_hash'', opt_str (fr_content_hash f)), (''size_bytes'', opt_int (fr_size_bytes f)),
           (''line_count'', opt_int (fr_line_count f)), (''is_binary'', JBool (fr_is_binary f)),
           (''is_large'', JBool (fr_is_large f))]"

definition instruction_record_json :: "instruction_row \<Rightarrow> json" where
  "instruction_record_json i =
     JObj [(''path'', JStr (in_path i)), (''scope_path'', JStr (in_scope_path i)), (''depth'', JInt (in_depth i)),
           (''content_hash'', JStr (in_content_hash i)), (''content_ref'', JStr (in_content_ref i))]"

text \<open>\<open>stamp\<close> is the text of the present time.\<close>

definition manifest_json :: "string \<Rightarrow> build_result \<Rightarrow> snapshot_policy \<Rightarrow> json" where
  "manifest_json stamp res policy =
     JObj [(''snapshot_id'', JStr (uuid_str (br_snapshot_id res))), (''repository_url_hash'', JStr (br_repository_url_hash res)),
           (''requested_ref'', JStr (br_requested_ref res)), (''resolved_commit_sha'', JStr (br_resolved_commit_sha res)),
           (''tree_sha'', JStr (br_tree_sha res)), (''snapshot_policy_hash'', JStr (br_policy_hash res)),
           (''created_at'', JStr stamp), (''file_count'', JInt (br_file_count res)), (''total_bytes'', JInt (br_total_bytes res)),
           (''objects'', JObj [(''tree_text_key'', JStr (br_tree_text_key res)), (''file_tree_key'', JStr (br_file_tree_key res)),
              (''git_bundle_key'', opt_str (br_git_bundle_key res))]),
           (''files'', JList (map file_record_json (br_files res))),
           (''instructions'', JList (map instruction_record_json (br_instructions res))), (''policy'', policy_json policy)]"

definition zstd_json_bytes :: "(bytes \<Rightarrow> bytes) \<Rightarrow> json \<Rightarrow> bytes" where
  "zstd_json_bytes zstd v = zstd (utf8_encode (json_dumps_ascii '','' '':'' (json_sorted v)))"

record build_request =
  rq_snapshot_id :: uuid
  rq_repository_url :: string
  rq_requested_ref :: string
  rq_policy :: snapshot_policy
  rq_storage :: object_store
  rq_timeout_seconds :: int

definition entries_bytes :: "file_row list \<Rightarrow> int" where
  "entries_bytes files =
     sum_list (map (\<lambda>f. case fr_size_bytes f of None \<Rightarrow> 0 | Some n \<Rightarrow> n) (filter (\<lambda>f. fr_entry_kind f = ''file'') files))"

definition build_result_of :: "build_request \<Rightarrow> string \<Rightarrow> string \<Rightarrow> scan_state \<Rightarrow> build_result" where
  "build_result_of rq commit tree st =
     (let files = map snd (sn_records st)
      in \<lparr>br_snapshot_id = rq_snapshot_id rq, br_repository_url_hash = hash_text (rq_repository_url rq),
          br_requested_ref = rq_requested_ref rq, br_resolved_commit_sha = commit, br_tree_sha = tree,
          br_policy_hash = policy_hash (rq_policy rq), br_manifest_key = manifest_key (rq_snapshot_id rq),
          br_git_bundle_key = None, br_tree_text_key = tree_text_key (rq_snapshot_id rq),
          br_file_tree_key = file_tree_key (rq_snapshot_id rq), br_file_count = int (length files),
          br_total_bytes = entries_bytes files, br_files = files, br_instructions = sn_instructions st\<rparr>)"

text \<open>
  \<^verbatim>\<open>GitSnapshotBuilder.build\<close>: \<open>mirror\<close> is the temporary directory of the clone, \<open>zstd\<close> the compression, \<open>log\<close> the git
  commands before the scan; the blobs are read by further git commands, whose log is not kept. The objects written
  so far stay in the store when the build fails.
\<close>

definition blob_reader :: "git_runner \<Rightarrow> build_request \<Rightarrow> string \<Rightarrow> tree_entry \<Rightarrow> git_error + bytes" where
  "blob_reader g rq mirror e =
     snd (cat_file_blob g (rq_timeout_seconds rq) (Some (po_max_file_bytes (rq_policy rq) + 1)) mirror (te_oid e) [])"

definition store_manifest :: "(bytes \<Rightarrow> bytes) \<Rightarrow> string \<Rightarrow> snapshot_policy \<Rightarrow> build_result \<Rightarrow> object_store \<Rightarrow> object_store" where
  "store_manifest zstd stamp policy res storage =
     put_bytes (put_bytes (put_bytes storage
         (br_tree_text_key res) (utf8_encode (tree_text (br_files res))) ''text/plain; charset=utf-8'')
       (br_file_tree_key res) (zstd_json_bytes zstd (file_tree_json (br_files res))) ''application/json+zstd'')
       (br_manifest_key res) (zstd_json_bytes zstd (manifest_json stamp res policy)) ''application/json+zstd''"

definition build_snapshot ::
  "git_runner \<Rightarrow> (bytes \<Rightarrow> bytes) \<Rightarrow> string \<Rightarrow> string \<Rightarrow> build_request \<Rightarrow> object_store \<times> (git_error + build_result)" where
  "build_snapshot g zstd stamp mirror rq =
     (let t = rq_timeout_seconds rq; storage = rq_storage rq
      in case fetch_shallow_ref g t (rq_repository_url rq) mirror (rq_requested_ref rq) [] of
           (log, Inl e) \<Rightarrow> (storage, Inl e)
         | (log, Inr _) \<Rightarrow>
             (case resolve_commit g t mirror ''FETCH_HEAD'' log of
                (log, Inl e) \<Rightarrow> (storage, Inl e)
              | (log, Inr commit) \<Rightarrow>
                  (case resolve_tree g t mirror commit log of
                     (log, Inl e) \<Rightarrow> (storage, Inl e)
                   | (log, Inr tree) \<Rightarrow>
                       (case list_tree g t mirror commit log of
                          (log, Inl e) \<Rightarrow> (storage, Inl e)
                        | (log, Inr entries) \<Rightarrow>
                            (case scan (rq_snapshot_id rq) (po_max_file_bytes (rq_policy rq))
                                    (BlobReader (blob_reader g rq mirror)) entries storage of
                               (st, Inl e) \<Rightarrow> (sn_storage st, Inl e)
                             | (st, Inr _) \<Rightarrow>
                                 let res = build_result_of rq commit tree st
                                 in (store_manifest zstd stamp (rq_policy rq) res (sn_storage st), Inr res))))))"

text \<open>The objects of the manifest have keys of their own, so that what the scan promises holds of a finished build.\<close>

lemma manifest_keys_not_blob:
  "tree_text_key s \<noteq> blob_key h" "file_tree_key s \<noteq> blob_key h" "manifest_key s \<noteq> blob_key h"
  by (simp_all add: tree_text_key_def file_tree_key_def manifest_key_def blob_key_def Let_def)

lemma build_scans:
  assumes "build_snapshot g zstd stamp mirror rq = (storage, Inr res)"
  obtains entries st u where
    "scan (rq_snapshot_id rq) (po_max_file_bytes (rq_policy rq)) (BlobReader (blob_reader g rq mirror)) entries (rq_storage rq) = (st, Inr u)"
    "br_files res = map snd (sn_records st)" "storage = store_manifest zstd stamp (rq_policy rq) res (sn_storage st)"
  using assms by (auto simp: build_snapshot_def build_result_of_def Let_def split: prod.splits sum.splits)

lemma build_stores_text:
  assumes "build_snapshot g zstd stamp mirror rq = (storage, Inr res)" "f \<in> set (br_files res)"
  shows "stored_text (po_max_file_bytes (rq_policy rq)) storage f"
proof -
  from assms(1) obtain entries st u commit tree where
      s: "scan (rq_snapshot_id rq) (po_max_file_bytes (rq_policy rq)) (BlobReader (blob_reader g rq mirror)) entries (rq_storage rq) = (st, Inr u)"
      and res: "res = build_result_of rq commit tree st"
      and storage: "storage = store_manifest zstd stamp (rq_policy rq) res (sn_storage st)"
    by (auto simp: build_snapshot_def Let_def split: prod.splits sum.splits)
  have "stored_text (po_max_file_bytes (rq_policy rq)) (sn_storage st) f"
    using scan_stores_files [OF s] assms(2) by (auto simp: res build_result_of_def Let_def)
  then show ?thesis unfolding storage store_manifest_def
    by (auto simp: res build_result_of_def Let_def manifest_keys_not_blob intro!: stored_text_put)
qed

end
