(* ===== verification/Source_Cache.thy ===== *)
theory Source_Cache
  imports Storage
begin

text \<open>
  The worker's local copy of snapshot files (\<^verbatim>\<open>backend/cache/__init__.py\<close>): normal forms of repository paths
  and prefixes, the place of a file under the cache root, atomic writes through a temporary file, the coverage
  file that records which prefixes are complete, and the clean-up of old snapshots.

  The file system is a map from absolute paths, given as their components, to directories and regular files;
  there are no symbolic links in it, so that resolving a path is lexical. A failed system call is
  \<open>PathOsError\<close>. The decoded content of \<^verbatim>\<open>coverage.json\<close> is a \<open>json\<close> value.
\<close>

section \<open>Repository paths\<close>

datatype cache_error = PathValueError string | PathOsError | CoverageError int_error

definition reserved_devices :: "string list" where
  "reserved_devices =
     [''con'', ''prn'', ''aux'', ''nul''] @ map (\<lambda>i. ''com'' @ show_nat i) [1..<10] @ map (\<lambda>i. ''lpt'' @ show_nat i) [1..<10]"

text \<open>\<^verbatim>\<open>part.split(".", 1)[0].lower()\<close> is the part up to its first dot.\<close>

definition is_unsafe_repo_path_part :: "string \<Rightarrow> bool" where
  "is_unsafe_repo_path_part part =
     (let device_name = py_lower (takeWhile (\<lambda>c. c \<noteq> CHR ''.'') part)
      in part = ''..'' \<or> CHR '':'' \<in> set part \<or> starts_with ''//'' part \<or> device_name \<in> set reserved_devices)"

definition stripped_path :: "string \<Rightarrow> string" where
  "stripped_path path = strip_by (\<lambda>c. c = CHR ''/'') (replace_char (CHR 0x5C) (CHR ''/'') path)"

definition path_parts :: "string \<Rightarrow> string list" where
  "path_parts normalized = filter (\<lambda>part. part \<noteq> [] \<and> part \<noteq> ''.'') (split_on (CHR ''/'') normalized)"

definition normalize_repo_path :: "string \<Rightarrow> cache_error + string" where
  "normalize_repo_path path =
     (let parts = path_parts (stripped_path path)
      in if parts = [] \<or> list_ex is_unsafe_repo_path_part parts then Inl (PathValueError ''unsafe repository path'')
         else Inr (join_with ''/'' parts))"

text \<open>The prefix \<^verbatim>\<open>None\<close> is treated as the empty one.\<close>

definition normalize_prefix :: "string \<Rightarrow> cache_error + string" where
  "normalize_prefix path_prefix =
     (if path_prefix = [] then Inr []
      else let normalized = stripped_path path_prefix
      in if normalized = [] then Inr []
         else let parts = path_parts normalized
         in if list_ex is_unsafe_repo_path_part parts then Inl (PathValueError ''unsafe repository prefix'')
            else Inr (join_with ''/'' parts @ ''/''))"

section \<open>Files under the cache root\<close>

type_synonym fs_path = "string list"

datatype fs_node = Directory | Regular bytes

type_synonym filesystem = "fs_path \<rightharpoonup> fs_node"

definition snapshot_root :: "fs_path \<Rightarrow> uuid \<Rightarrow> fs_path" where
  "snapshot_root root_dir s = root_dir @ [''snapshots'', uuid_str s]"

definition files_root :: "fs_path \<Rightarrow> uuid \<Rightarrow> fs_path" where
  "files_root root_dir s = snapshot_root root_dir s @ [''files'']"

text \<open>\<^verbatim>\<open>Path.resolve\<close> without symbolic links: \<^verbatim>\<open>.\<close> is dropped and \<^verbatim>\<open>..\<close> removes the component before it.\<close>

definition resolve_step :: "fs_path \<Rightarrow> string \<Rightarrow> fs_path" where
  "resolve_step done c = (if c = ''..'' then butlast done else if c = ''.'' \<or> c = [] then done else done @ [c])"

definition resolve_path :: "fs_path \<Rightarrow> fs_path" where
  "resolve_path p = foldl resolve_step [] p"

definition ensure_within_root :: "fs_path \<Rightarrow> fs_path \<Rightarrow> cache_error + unit" where
  "ensure_within_root root target =
     (if prefix (resolve_path root) (resolve_path target) then Inr () else Inl (PathValueError ''unsafe repository path''))"

definition file_path :: "fs_path \<Rightarrow> uuid \<Rightarrow> string \<Rightarrow> cache_error + fs_path" where
  "file_path root_dir s path =
     rbind (normalize_repo_path path) (\<lambda>safe_path.
       let root = files_root root_dir s; target = root @ split_on (CHR ''/'') safe_path
       in rbind (ensure_within_root root target) (\<lambda>_. Inr target))"

text \<open>
  \<^verbatim>\<open>mkdir(parents=True, exist_ok=True)\<close>, \<^verbatim>\<open>write_bytes\<close> and \<^verbatim>\<open>replace\<close>. Each returns the file system that it leaves,
  also when it fails.
\<close>

definition add_dir :: "filesystem \<Rightarrow> fs_path \<Rightarrow> filesystem" where
  "add_dir fs p = fs(p \<mapsto> Directory)"

fun make_dirs :: "filesystem \<Rightarrow> fs_path \<Rightarrow> fs_path \<Rightarrow> filesystem \<times> (cache_error + unit)" where
  "make_dirs fs done [] = (fs, Inr ())"
| "make_dirs fs done (c # cs) =
     (case fs (done @ [c]) of
        None \<Rightarrow> make_dirs (add_dir fs (done @ [c])) (done @ [c]) cs
      | Some Directory \<Rightarrow> make_dirs fs (done @ [c]) cs
      | Some (Regular b) \<Rightarrow> (fs, Inl PathOsError))"

definition is_dir :: "filesystem \<Rightarrow> fs_path \<Rightarrow> bool" where
  "is_dir fs p = (p = [] \<or> fs p = Some Directory)"

definition write_bytes :: "filesystem \<Rightarrow> fs_path \<Rightarrow> bytes \<Rightarrow> filesystem \<times> (cache_error + unit)" where
  "write_bytes fs p data =
     (if fs p = Some Directory \<or> \<not> is_dir fs (butlast p) then (fs, Inl PathOsError) else (fs(p \<mapsto> Regular data), Inr ()))"

definition replace_file :: "filesystem \<Rightarrow> fs_path \<Rightarrow> fs_path \<Rightarrow> filesystem \<times> (cache_error + unit)" where
  "replace_file fs src dst =
     (if fs src = None \<or> fs dst = Some Directory then (fs, Inl PathOsError) else (fs(src := None, dst := fs src), Inr ()))"

text \<open>\<^verbatim>\<open>target.with_suffix(target.suffix + ".tmp")\<close> appends to the last component.\<close>

definition tmp_path :: "fs_path \<Rightarrow> fs_path" where
  "tmp_path target = butlast target @ [last target @ ''.tmp'']"

definition write_file :: "fs_path \<Rightarrow> uuid \<Rightarrow> string \<Rightarrow> bytes \<Rightarrow> filesystem \<Rightarrow> filesystem \<times> (cache_error + fs_path)" where
  "write_file root_dir s path data fs =
     (case file_path root_dir s path of
        Inl e \<Rightarrow> (fs, Inl e)
      | Inr target \<Rightarrow>
          (case make_dirs fs [] (butlast target) of
             (fs1, Inl e) \<Rightarrow> (fs1, Inl e)
           | (fs1, Inr _) \<Rightarrow>
               (case write_bytes fs1 (tmp_path target) data of
                  (fs2, Inl e) \<Rightarrow> (fs2, Inl e)
                | (fs2, Inr _) \<Rightarrow>
                    (case replace_file fs2 (tmp_path target) target of
                       (fs3, Inl e) \<Rightarrow> (fs3, Inl e)
                     | (fs3, Inr _) \<Rightarrow> (fs3, Inr target)))))"

definition is_file :: "filesystem \<Rightarrow> fs_path \<Rightarrow> bool" where
  "is_file fs p = (case fs p of Some (Regular b) \<Rightarrow> True | _ \<Rightarrow> False)"

definition read_bytes :: "filesystem \<Rightarrow> fs_path \<Rightarrow> cache_error + bytes" where
  "read_bytes fs p = (case fs p of Some (Regular b) \<Rightarrow> Inr b | _ \<Rightarrow> Inl PathOsError)"

section \<open>Coverage\<close>

record coverage_prefix =
  cp_prefix :: string
  cp_completed_at :: string
  cp_file_count :: int
  cp_bytes :: int

record coverage_file =
  cf_snapshot_id :: string
  cf_prefixes :: "coverage_prefix list"

definition str_or :: "json \<Rightarrow> string \<Rightarrow> string" where
  "str_or v dflt = (if truthy v then py_str v else dflt)"

definition coverage_entry :: "(string \<times> json) list \<Rightarrow> int_error + coverage_prefix" where
  "coverage_entry item =
     rbind (py_int (py_or (obj_get item ''file_count'') (JInt 0))) (\<lambda>n.
       rbind (py_int (py_or (obj_get item ''bytes'') (JInt 0))) (\<lambda>b.
         Inr \<lparr>cp_prefix = str_or (obj_get item ''prefix'') [], cp_completed_at = str_or (obj_get item ''completed_at'') [],
              cp_file_count = n, cp_bytes = b\<rparr>))"

fun coverage_entries :: "json list \<Rightarrow> int_error + coverage_prefix list" where
  "coverage_entries [] = Inr []"
| "coverage_entries (JObj item # items) =
     rbind (coverage_entry item) (\<lambda>e. rbind (coverage_entries items) (\<lambda>es. Inr (e # es)))"
| "coverage_entries (_ # items) = coverage_entries items"

text \<open>The coverage files of all snapshots, decoded; \<open>None\<close> where there is no file.\<close>

type_synonym coverage_store = "uuid \<rightharpoonup> json"

definition read_coverage :: "coverage_store \<Rightarrow> uuid \<Rightarrow> cache_error + coverage_file" where
  "read_coverage cov s =
     (case cov s of
        Some (JObj payload) \<Rightarrow>
          (case (case obj_get payload ''prefixes'' of JList items \<Rightarrow> coverage_entries items | _ \<Rightarrow> Inr []) of
             Inl e \<Rightarrow> Inl (CoverageError e)
           | Inr entries \<Rightarrow>
               Inr \<lparr>cf_snapshot_id = str_or (obj_get payload ''snapshot_id'') (uuid_str s), cf_prefixes = entries\<rparr>)
      | _ \<Rightarrow> Inr \<lparr>cf_snapshot_id = uuid_str s, cf_prefixes = []\<rparr>)"

definition coverage_prefix_json :: "coverage_prefix \<Rightarrow> json" where
  "coverage_prefix_json e =
     JObj [(''prefix'', JStr (cp_prefix e)), (''completed_at'', JStr (cp_completed_at e)),
           (''file_count'', JInt (cp_file_count e)), (''bytes'', JInt (cp_bytes e))]"

definition write_coverage :: "coverage_store \<Rightarrow> uuid \<Rightarrow> coverage_file \<Rightarrow> coverage_store" where
  "write_coverage cov s f =
     cov(s \<mapsto> json_sorted (JObj [(''snapshot_id'', JStr (cf_snapshot_id f)),
       (''prefixes'', JList (map coverage_prefix_json (cf_prefixes f)))]))"

fun covered_by :: "string \<Rightarrow> coverage_prefix list \<Rightarrow> cache_error + bool" where
  "covered_by target [] = Inr False"
| "covered_by target (e # es) =
     rbind (normalize_prefix (cp_prefix e)) (\<lambda>covered.
       if target = covered \<or> starts_with covered target then Inr True else covered_by target es)"

definition is_prefix_covered :: "coverage_store \<Rightarrow> uuid \<Rightarrow> string \<Rightarrow> cache_error + bool" where
  "is_prefix_covered cov s path_prefix =
     rbind (normalize_prefix path_prefix) (\<lambda>target.
       rbind (read_coverage cov s) (\<lambda>coverage. covered_by target (cf_prefixes coverage)))"

text \<open>\<open>stamp\<close> is the text of the present time.\<close>

definition mark_prefix_covered ::
  "string \<Rightarrow> uuid \<Rightarrow> string \<Rightarrow> int \<Rightarrow> int \<Rightarrow> coverage_store \<Rightarrow> cache_error + coverage_store" where
  "mark_prefix_covered stamp s path_prefix file_count bytes_written cov =
     rbind (read_coverage cov s) (\<lambda>coverage.
       rbind (normalize_prefix path_prefix) (\<lambda>normalized_prefix.
         let e = \<lparr>cp_prefix = normalized_prefix, cp_completed_at = stamp, cp_file_count = file_count, cp_bytes = bytes_written\<rparr>
         in Inr (write_coverage cov s \<lparr>cf_snapshot_id = uuid_str s, cf_prefixes = cf_prefixes coverage @ [e]\<rparr>)))"

text \<open>\<^verbatim>\<open>normalize_prefix(prefix).replace("/", "__") or "root"\<close>\<close>

definition lock_name :: "string \<Rightarrow> cache_error + string" where
  "lock_name path_prefix =
     rbind (normalize_prefix path_prefix) (\<lambda>p.
       let n = replace_sub (CHR ''/'') [] ''__'' p in Inr ((if n = [] then ''root'' else n) @ ''.lock''))"

section \<open>Clean-up\<close>

text \<open>
  A snapshot directory with its own modification time and, for each entry below it, the modification time and,
  if it is a file, the size. Times are in microseconds.
\<close>

record snapshot_dir =
  sd_name :: string
  sd_mtime :: int
  sd_children :: "(int \<times> int option) list"

record cache_config =
  cc_max_worker_cache_bytes :: int
  cc_max_prefix_bytes :: int
  cc_ttl_days :: int
  cc_min_free_disk_percent :: int

definition directory_size :: "snapshot_dir \<Rightarrow> int" where
  "directory_size d = sum_list (map (\<lambda>(m, size). case size of None \<Rightarrow> 0 | Some n \<Rightarrow> n) (sd_children d))"

definition oldest_mtime :: "snapshot_dir \<Rightarrow> int" where
  "oldest_mtime d = foldl min (sd_mtime d) (map fst (sd_children d))"

text \<open>
  \<^verbatim>\<open>shutil.rmtree(path, ignore_errors=True)\<close>: \<open>removable\<close> tells which directories can be deleted, the others stay
  as they are without an error. \<open>usage\<close> is \<^verbatim>\<open>shutil.disk_usage\<close>: total and free bytes while the given
  directories exist.
\<close>

definition rmtree :: "(string \<Rightarrow> bool) \<Rightarrow> snapshot_dir \<Rightarrow> snapshot_dir list \<Rightarrow> snapshot_dir list" where
  "rmtree removable d existing = (if removable (sd_name d) then filter (\<lambda>x. sd_name x \<noteq> sd_name d) existing else existing)"

definition free_disk_at_least :: "(snapshot_dir list \<Rightarrow> int \<times> int) \<Rightarrow> int \<Rightarrow> snapshot_dir list \<Rightarrow> bool" where
  "free_disk_at_least usage percent existing =
     (let (total, free) = usage existing in if total \<le> 0 then percent \<le> 100 else percent * total \<le> free * 100)"

record cleanup_state =
  cs_existing :: "snapshot_dir list"
  cs_listed :: "snapshot_dir list"
  cs_removed :: int
  cs_removed_bytes :: int

definition evict :: "(string \<Rightarrow> bool) \<Rightarrow> snapshot_dir \<Rightarrow> cleanup_state \<Rightarrow> cleanup_state" where
  "evict removable d st =
     st\<lparr>cs_existing := rmtree removable d (cs_existing st), cs_removed := cs_removed st + 1,
        cs_removed_bytes := cs_removed_bytes st + directory_size d\<rparr>"

fun expire_loop :: "(string \<Rightarrow> bool) \<Rightarrow> int \<Rightarrow> snapshot_dir list \<Rightarrow> cleanup_state \<Rightarrow> cleanup_state" where
  "expire_loop removable cutoff [] st = st"
| "expire_loop removable cutoff (d # ds) st =
     (if cutoff \<le> sd_mtime d then expire_loop removable cutoff ds st
      else expire_loop removable cutoff ds
        ((evict removable d st)\<lparr>cs_listed := filter (\<lambda>x. sd_name x \<noteq> sd_name d) (cs_listed st)\<rparr>))"

text \<open>\<^verbatim>\<open>sorted((path for path in snapshot_dirs if path.exists()), key=_oldest_mtime)\<close>\<close>

definition candidates :: "cleanup_state \<Rightarrow> snapshot_dir list" where
  "candidates st = sort_key oldest_mtime (filter (\<lambda>d. sd_name d \<in> sd_name ` set (cs_existing st)) (cs_listed st))"

fun shrink_loop :: "(string \<Rightarrow> bool) \<Rightarrow> int \<Rightarrow> int \<Rightarrow> snapshot_dir list \<Rightarrow> cleanup_state \<Rightarrow> cleanup_state" where
  "shrink_loop removable max_bytes total_now [] st = st"
| "shrink_loop removable max_bytes total_now (d # ds) st =
     (if total_now \<le> max_bytes then st
      else shrink_loop removable max_bytes (total_now - directory_size d) ds (evict removable d st))"

fun free_loop ::
  "(string \<Rightarrow> bool) \<Rightarrow> (snapshot_dir list \<Rightarrow> int \<times> int) \<Rightarrow> int \<Rightarrow> snapshot_dir list \<Rightarrow> cleanup_state \<Rightarrow> cleanup_state" where
  "free_loop removable usage percent [] st = st"
| "free_loop removable usage percent (d # ds) st =
     (if free_disk_at_least usage percent (cs_existing st) then st
      else free_loop removable usage percent ds (evict removable d st))"

definition total_bytes :: "cleanup_state \<Rightarrow> int" where
  "total_bytes st = sum_list (map directory_size (candidates st))"

definition expire_step :: "(string \<Rightarrow> bool) \<Rightarrow> cache_config \<Rightarrow> int \<Rightarrow> cleanup_state \<Rightarrow> cleanup_state" where
  "expire_step removable config t st =
     expire_loop removable (t - max 0 (cc_ttl_days config) * 86400000000) (cs_listed st) st"

definition shrink_step :: "(string \<Rightarrow> bool) \<Rightarrow> cache_config \<Rightarrow> cleanup_state \<Rightarrow> cleanup_state" where
  "shrink_step removable config st =
     (let max_bytes = cc_max_worker_cache_bytes config
      in if max_bytes > 0 \<and> total_bytes st > max_bytes then shrink_loop removable max_bytes (total_bytes st) (candidates st) st else st)"

definition free_step ::
  "(string \<Rightarrow> bool) \<Rightarrow> (snapshot_dir list \<Rightarrow> int \<times> int) \<Rightarrow> cache_config \<Rightarrow> cleanup_state \<Rightarrow> cleanup_state" where
  "free_step removable usage config st =
     (if cc_min_free_disk_percent config > 0
      then free_loop removable usage (cc_min_free_disk_percent config) (candidates st) st else st)"

text \<open>The directories before, \<open>None\<close> when there is no \<^verbatim>\<open>snapshots\<close> directory, and the final state with the two counters.\<close>

definition cleanup ::
  "(string \<Rightarrow> bool) \<Rightarrow> (snapshot_dir list \<Rightarrow> int \<times> int) \<Rightarrow> cache_config \<Rightarrow> int \<Rightarrow> snapshot_dir list option \<Rightarrow> cleanup_state" where
  "cleanup removable usage config t dirs =
     (case dirs of
        None \<Rightarrow> \<lparr>cs_existing = [], cs_listed = [], cs_removed = 0, cs_removed_bytes = 0\<rparr>
      | Some ds \<Rightarrow>
          free_step removable usage config (shrink_step removable config
            (expire_step removable config t \<lparr>cs_existing = ds, cs_listed = ds, cs_removed = 0, cs_removed_bytes = 0\<rparr>)))"

section \<open>Normal forms\<close>

text \<open>The components of a path in normal form.\<close>

definition normal_part :: "string \<Rightarrow> bool" where
  "normal_part part \<longleftrightarrow> part \<noteq> [] \<and> part \<noteq> ''.'' \<and> CHR ''/'' \<notin> set part \<and> CHR 0x5C \<notin> set part"

lemma stripped_path_no_backslash: "CHR 0x5C \<notin> set (stripped_path p)"
proof -
  have "set (strip_by f s) \<subseteq> set s" for f s
    by (auto simp: strip_by_def dest!: set_dropWhileD)
  then show ?thesis by (fastforce simp: stripped_path_def replace_char_def)
qed

lemma split_on_subset: "part \<in> set (split_on d s) \<Longrightarrow> set part \<subseteq> set s"
proof (induction s arbitrary: part)
  case (Cons c cs)
  then show ?case by (cases "split_on d cs") (fastforce split: if_splits)+
qed simp

lemma path_parts_normal: "list_all normal_part (path_parts (stripped_path p))"
  using split_on_parts split_on_subset stripped_path_no_backslash
  by (fastforce simp: list_all_iff path_parts_def normal_part_def)

lemma joined_ends:
  assumes "list_all normal_part parts" "parts \<noteq> []"
  defines "j \<equiv> join_with ''/'' parts"
  shows "j \<noteq> []" "hd j \<noteq> CHR ''/''" "last j \<noteq> CHR ''/''" "replace_char (CHR 0x5C) (CHR ''/'') j = j"
proof -
  have n: "normal_part (hd parts)" "normal_part (last parts)" "q \<in> set parts \<Longrightarrow> q \<noteq> []" for q
    using assms by (auto simp: list_all_iff normal_part_def)
  have "hd (hd parts) \<noteq> CHR ''/''" "last (last parts) \<noteq> CHR ''/''"
    using n(1,2) hd_in_set last_in_set by (fastforce simp: normal_part_def)+
  then show "j \<noteq> []" "hd j \<noteq> CHR ''/''" "last j \<noteq> CHR ''/''"
    using join_with_ends [OF assms(2) n(3), of "CHR ''/''"] by (simp_all add: j_def)
  have "CHR 0x5C \<notin> set j"
    using join_with_set [of "CHR ''/''" parts] assms(1) by (auto simp: list_all_iff normal_part_def j_def)
  then show "replace_char (CHR 0x5C) (CHR ''/'') j = j" by (auto simp: replace_char_def intro!: map_idI)
qed

lemma stripped_join:
  assumes "list_all normal_part parts" "parts \<noteq> []"
  shows "stripped_path (join_with ''/'' parts) = join_with ''/'' parts"
  using joined_ends [OF assms] by (simp add: stripped_path_def strip_by_ends)

lemma path_parts_join:
  assumes "list_all normal_part parts" "parts \<noteq> []"
  shows "path_parts (join_with ''/'' parts) = parts"
proof -
  have "split_on (CHR ''/'') (join_with ''/'' parts) = parts"
    using assms by (intro split_join) (auto simp: list_all_iff normal_part_def)
  then show ?thesis using assms(1) by (auto simp: path_parts_def list_all_iff normal_part_def intro: filter_True)
qed

lemma normalize_repo_path_eq:
  "normalize_repo_path p = Inr q \<longleftrightarrow>
   (\<exists>parts. parts = path_parts (stripped_path p) \<and> parts \<noteq> [] \<and> list_all normal_part parts \<and>
      \<not> list_ex is_unsafe_repo_path_part parts \<and> q = join_with ''/'' parts)"
  using path_parts_normal [of p] by (auto simp: normalize_repo_path_def Let_def)

lemma normalize_repo_path_parts:
  assumes "normalize_repo_path p = Inr q"
  shows "split_on (CHR ''/'') q \<noteq> []" "list_all normal_part (split_on (CHR ''/'') q)"
    "\<not> list_ex is_unsafe_repo_path_part (split_on (CHR ''/'') q)" "normalize_repo_path q = Inr q"
proof -
  obtain parts where p: "parts \<noteq> []" "list_all normal_part parts" "\<not> list_ex is_unsafe_repo_path_part parts"
      "q = join_with ''/'' parts"
    using assms by (auto simp: normalize_repo_path_eq)
  then have "split_on (CHR ''/'') q = parts" by (auto intro!: split_join simp: list_all_iff normal_part_def)
  moreover have "normalize_repo_path q = Inr q"
    using p by (simp add: normalize_repo_path_def stripped_join path_parts_join)
  ultimately show "split_on (CHR ''/'') q \<noteq> []" "list_all normal_part (split_on (CHR ''/'') q)"
    "\<not> list_ex is_unsafe_repo_path_part (split_on (CHR ''/'') q)" "normalize_repo_path q = Inr q" using p by simp_all
qed

lemma resolve_append_safe:
  "list_all (\<lambda>c. c \<noteq> ''..'' \<and> c \<noteq> ''.'' \<and> c \<noteq> []) cs \<Longrightarrow> resolve_path (p @ cs) = resolve_path p @ cs"
  by (induction cs arbitrary: p rule: rev_induct) (simp_all add: resolve_path_def resolve_step_def flip: append_assoc)

lemma safe_components:
  assumes "normalize_repo_path p = Inr q"
  shows "list_all (\<lambda>c. c \<noteq> ''..'' \<and> c \<noteq> ''.'' \<and> c \<noteq> []) (split_on (CHR ''/'') q)"
  using normalize_repo_path_parts [OF assms]
  by (auto simp: list_all_iff list_ex_iff normal_part_def is_unsafe_repo_path_part_def)

lemma file_path_eq:
  "file_path root s p = rbind (normalize_repo_path p) (\<lambda>q. Inr (files_root root s @ split_on (CHR ''/'') q))"
  using resolve_append_safe [OF safe_components [of p], of _ "files_root root s"]
  by (cases "normalize_repo_path p") (simp_all add: file_path_def ensure_within_root_def)

lemma file_path_inject:
  assumes "file_path root s p = Inr target" "file_path root s' p' = Inr target'"
  shows "target = target' \<longleftrightarrow> s = s' \<and> normalize_repo_path p = normalize_repo_path p'"
proof -
  obtain q where q: "normalize_repo_path p = Inr q" "target = files_root root s @ split_on (CHR ''/'') q"
    using assms(1) by (auto simp: file_path_eq rbind_eq_Inr)
  obtain q' where q': "normalize_repo_path p' = Inr q'" "target' = files_root root s' @ split_on (CHR ''/'') q'"
    using assms(2) by (auto simp: file_path_eq rbind_eq_Inr)
  have "split_on (CHR ''/'') q = split_on (CHR ''/'') q' \<longleftrightarrow> q = q'" by (metis join_split)
  then show ?thesis using q q' by (auto simp: files_root_def snapshot_root_def)
qed

text \<open>
  C38: A repository path that the cache accepts has one normal form, made of ordinary components: none is empty, a
  dot or two dots, has a separator or colon in it, or names a device; normalising it again changes nothing. Its
  file lies below the directory of its snapshot, also after the path is resolved, and two paths share a file only
  if they are paths of the same snapshot with the same normal form.
\<close>
theorem cache_paths_contained:
  assumes "file_path root s p = Inr target"
  shows "\<exists>q. normalize_repo_path p = Inr q \<and> normalize_repo_path q = Inr q \<and>
    list_all (\<lambda>c. normal_part c \<and> \<not> is_unsafe_repo_path_part c) (split_on (CHR ''/'') q) \<and>
    target = files_root root s @ split_on (CHR ''/'') q \<and>
    strict_prefix (resolve_path (files_root root s)) (resolve_path target) \<and>
    (\<forall>s' p'. file_path root s' p' = Inr target \<longleftrightarrow> s' = s \<and> normalize_repo_path p' = Inr q)"
proof -
  obtain q where q: "normalize_repo_path p = Inr q" "target = files_root root s @ split_on (CHR ''/'') q"
    using assms by (auto simp: file_path_eq rbind_eq_Inr)
  note parts = normalize_repo_path_parts [OF q(1)]
  have "resolve_path target = resolve_path (files_root root s) @ split_on (CHR ''/'') q"
    unfolding q(2) by (rule resolve_append_safe [OF safe_components [OF q(1)]])
  moreover have "file_path root s' p' = Inr target \<longleftrightarrow> s' = s \<and> normalize_repo_path p' = Inr q" for s' p'
  proof
    assume "file_path root s' p' = Inr target"
    with file_path_inject [OF assms this] q(1) show "s' = s \<and> normalize_repo_path p' = Inr q" by simp
  next
    assume "s' = s \<and> normalize_repo_path p' = Inr q"
    with q(2) show "file_path root s' p' = Inr target" by (simp add: file_path_eq)
  qed
  moreover have "list_all (\<lambda>c. normal_part c \<and> \<not> is_unsafe_repo_path_part c) (split_on (CHR ''/'') q)"
    using parts(2,3) by (auto simp: list_all_iff list_ex_iff)
  ultimately show ?thesis using q parts(1,4) by (intro exI [of _ q] conjI allI) (simp_all add: strict_prefix_def)
qed

lemma sample_path: "normalize_repo_path (''src'' @ [CHR 0x5C] @ ''.//a.py'') = Inr ''src/a.py''"
  by code_simp

theorem cache_paths_contained_witness:
  "file_path [''cache''] 7 (''src'' @ [CHR 0x5C] @ ''.//a.py'') = Inr (files_root [''cache''] 7 @ [''src'', ''a.py'']) \<and>
   (\<forall>s' p'. file_path [''cache''] s' p' = Inr (files_root [''cache''] 7 @ [''src'', ''a.py'']) \<longleftrightarrow>
      s' = 7 \<and> normalize_repo_path p' = Inr ''src/a.py'')"
proof -
  have "file_path [''cache''] 7 (''src'' @ [CHR 0x5C] @ ''.//a.py'') = Inr (files_root [''cache''] 7 @ [''src'', ''a.py''])"
    by (simp only: file_path_eq sample_path) simp
  moreover note cache_paths_contained [OF this, unfolded sample_path]
  ultimately show ?thesis by (elim exE conjE) simp
qed

section \<open>Writing\<close>

definition ancestors_free :: "filesystem \<Rightarrow> fs_path \<Rightarrow> fs_path \<Rightarrow> bool" where
  "ancestors_free fs done cs = (\<forall>k < length cs. \<not> is_file fs (done @ take (Suc k) cs))"

lemma add_dir_apply [simp]: "add_dir fs p p = Some Directory" "q \<noteq> p \<Longrightarrow> add_dir fs p q = fs q"
  by (simp_all add: add_dir_def)

lemma make_dirs_other: "make_dirs fs done cs = (fs', r) \<Longrightarrow> \<not> (\<exists>k < length cs. q = done @ take (Suc k) cs) \<Longrightarrow> fs' q = fs q"
proof (induction fs "done" cs rule: make_dirs.induct)
  case (2 fs "done" c cs)
  have "q \<noteq> done @ [c]" using "2.prems"(2) by force
  moreover have "\<not> (\<exists>k < length cs. q = (done @ [c]) @ take (Suc k) cs)" using "2.prems"(2) by force
  ultimately show ?case using 2 by (auto split: option.splits fs_node.splits)
qed simp

lemma make_dirs_keeps: "make_dirs fs done cs = (fs', r) \<Longrightarrow> fs q = Some x \<Longrightarrow> fs' q = Some x"
proof (induction fs "done" cs rule: make_dirs.induct)
  case (2 fs "done" c cs)
  then show ?case by (cases "q = done @ [c]") (auto split: option.splits fs_node.splits)
qed simp

lemma make_dirs_new: "make_dirs fs done cs = (fs', r) \<Longrightarrow> fs q = None \<Longrightarrow> fs' q \<noteq> None \<Longrightarrow> fs' q = Some Directory"
proof (induction fs "done" cs rule: make_dirs.induct)
  case (2 fs "done" c cs)
  then show ?case
    using make_dirs_keeps [of "add_dir fs (done @ [c])" "done @ [c]" cs fs' r "done @ [c]" Directory]
    by (cases "q = done @ [c]") (auto split: option.splits fs_node.splits)
qed simp

lemma ancestors_free_Cons:
  "ancestors_free fs done (c # cs) \<longleftrightarrow> \<not> is_file fs (done @ [c]) \<and> ancestors_free fs (done @ [c]) cs"
proof -
  have "(\<forall>k < Suc n. P k) \<longleftrightarrow> P 0 \<and> (\<forall>k < n. P (Suc k))" for P :: "nat \<Rightarrow> bool" and n by (auto simp: less_Suc_eq_0_disj)
  then show ?thesis by (simp add: ancestors_free_def)
qed

lemma make_dirs_ok: "snd (make_dirs fs done cs) = Inr () \<longleftrightarrow> ancestors_free fs done cs"
proof (induction fs "done" cs rule: make_dirs.induct)
  case (2 fs "done" c cs)
  have "ancestors_free (add_dir fs (done @ [c])) (done @ [c]) cs = ancestors_free fs (done @ [c]) cs"
    by (auto simp: ancestors_free_def is_file_def add_dir_def)
  with 2 show ?case by (auto simp: ancestors_free_Cons is_file_def split: option.splits fs_node.splits)
qed (simp add: ancestors_free_def)

lemma make_dirs_last: "make_dirs fs done cs = (fs', Inr u) \<Longrightarrow> cs \<noteq> [] \<Longrightarrow> fs' (done @ cs) = Some Directory"
proof (induction fs "done" cs rule: make_dirs.induct)
  case (2 fs "done" c cs)
  show ?case
  proof (cases "cs = []")
    case True
    with "2.prems" show ?thesis by (auto split: option.splits fs_node.splits)
  next
    case False
    with 2 show ?thesis by (fastforce split: option.splits fs_node.splits)
  qed
qed simp

lemma tmp_path_length: "target \<noteq> [] \<Longrightarrow> length (tmp_path target) = length target"
  by (simp add: tmp_path_def)

lemma tmp_path_neq: "target \<noteq> [] \<Longrightarrow> tmp_path target \<noteq> target"
  by (metis append_butlast_last_id append_same_eq append_self_conv last_snoc list.distinct(1) tmp_path_def)

lemma butlast_tmp_path [simp]: "butlast (tmp_path target) = butlast target"
  by (simp add: tmp_path_def)

lemma butlast_other: "length q = length target \<Longrightarrow> target \<noteq> [] \<Longrightarrow> \<not> (\<exists>k < length (butlast target). q = [] @ take (Suc k) (butlast target))"
proof
  assume "length q = length target" "target \<noteq> []" "\<exists>k < length (butlast target). q = [] @ take (Suc k) (butlast target)"
  then have "length target \<le> length (butlast target)" by (metis append_Nil length_take min.cobounded1)
  with \<open>target \<noteq> []\<close> show False by (cases target rule: rev_cases) simp_all
qed

lemma write_file_steps:
  assumes "file_path root s p = Inr target" "ancestors_free fs [] (butlast target)" "fs target \<noteq> Some Directory"
    "fs (tmp_path target) \<noteq> Some Directory"
  shows "\<exists>fs1. make_dirs fs [] (butlast target) = (fs1, Inr ()) \<and>
    write_file root s p data fs = (fs1(tmp_path target := None, target \<mapsto> Regular data), Inr target)"
proof -
  have ne: "target \<noteq> []" using assms(1) by (auto simp: file_path_eq rbind_eq_Inr)
  obtain fs1 where m: "make_dirs fs [] (butlast target) = (fs1, Inr ())"
    using make_dirs_ok [of fs "[]" "butlast target"] assms(2) by (cases "make_dirs fs [] (butlast target)") auto
  have same: "fs1 target = fs target" "fs1 (tmp_path target) = fs (tmp_path target)"
    using make_dirs_other [OF m] butlast_other [OF refl ne] butlast_other [OF tmp_path_length [OF ne] ne] by blast+
  have "is_dir fs1 (butlast target)"
    using make_dirs_last [OF m] by (cases "butlast target = []") (auto simp: is_dir_def)
  then show ?thesis
    using assms(1,3,4) m same tmp_path_neq [OF ne] by (auto simp: write_file_def write_bytes_def replace_file_def fun_upd_twist)
qed

lemma write_file_fails:
  assumes "write_file root s p data fs = (fs', Inr target)"
  shows "file_path root s p = Inr target \<and> ancestors_free fs [] (butlast target) \<and> fs target \<noteq> Some Directory \<and>
    fs (tmp_path target) \<noteq> Some Directory"
proof -
  obtain fs1 u where f: "file_path root s p = Inr target" and m: "make_dirs fs [] (butlast target) = (fs1, Inr u)"
      and w: "fs1 (tmp_path target) \<noteq> Some Directory" "fs1 target \<noteq> Some Directory"
  proof -
    from assms obtain t where f: "file_path root s p = Inr t" by (auto simp: write_file_def split: sum.splits)
    then have ne: "t \<noteq> []" by (auto simp: file_path_eq rbind_eq_Inr)
    from assms f obtain fs1 u where m: "make_dirs fs [] (butlast t) = (fs1, Inr u)"
      by (auto simp: write_file_def split: prod.splits sum.splits)
    with assms f show thesis using tmp_path_neq [OF ne]
      by (intro that [of fs1 u]) (auto simp: write_file_def write_bytes_def replace_file_def split: if_splits)
  qed
  have "ancestors_free fs [] (butlast target)" using make_dirs_ok [of fs "[]" "butlast target"] m by simp
  with f m w show ?thesis using make_dirs_keeps [OF m] by blast
qed

text \<open>
  A file is cached exactly when its path is accepted, nothing on the way to it is a regular file, and neither it
  nor its temporary file is a directory. It then reads back as what was written, the temporary file is gone, and
  every other file and directory is as it was. A cached file that has the name of the temporary file is lost.
\<close>
theorem cached_file_reads_back:
  assumes "file_path root s p = Inr target"
  shows "(snd (write_file root s p data fs) = Inr target \<longleftrightarrow>
      (\<forall>k < length target - 1. \<not> is_file fs (take (Suc k) target)) \<and> fs target \<noteq> Some Directory \<and>
      fs (tmp_path target) \<noteq> Some Directory) \<and>
    (\<forall>fs'. write_file root s p data fs = (fs', Inr target) \<longrightarrow>
      read_bytes fs' target = Inr data \<and> fs' (tmp_path target) = None \<and>
      (\<forall>q. fs q \<noteq> None \<and> q \<noteq> target \<and> q \<noteq> tmp_path target \<longrightarrow> fs' q = fs q) \<and>
      (\<forall>q. is_file fs' q \<and> q \<noteq> target \<longrightarrow> fs q = fs' q))"
proof -
  have ne: "target \<noteq> []" using assms by (auto simp: file_path_eq rbind_eq_Inr)
  have free: "ancestors_free fs [] (butlast target) \<longleftrightarrow> (\<forall>k < length target - 1. \<not> is_file fs (take (Suc k) target))"
    by (auto simp: ancestors_free_def take_butlast)
  have ok: "snd (write_file root s p data fs) = Inr target \<longleftrightarrow>
      ancestors_free fs [] (butlast target) \<and> fs target \<noteq> Some Directory \<and> fs (tmp_path target) \<noteq> Some Directory"
    using write_file_steps [OF assms, of fs data] write_file_fails [of root s p data fs _ target] by (metis prod.collapse snd_conv)
  have "read_bytes fs' target = Inr data \<and> fs' (tmp_path target) = None \<and>
      (\<forall>q. fs q \<noteq> None \<and> q \<noteq> target \<and> q \<noteq> tmp_path target \<longrightarrow> fs' q = fs q) \<and>
      (\<forall>q. is_file fs' q \<and> q \<noteq> target \<longrightarrow> fs q = fs' q)"
    if w: "write_file root s p data fs = (fs', Inr target)" for fs'
  proof -
    obtain fs1 where m: "make_dirs fs [] (butlast target) = (fs1, Inr ())"
        and fs': "fs' = fs1(tmp_path target := None, target \<mapsto> Regular data)"
      using write_file_steps [OF assms, of fs data] write_file_fails [OF w] w by auto
    have old: "fs q = fs1 q" if "is_file fs1 q" for q
      using that make_dirs_new [OF m, of q] make_dirs_keeps [OF m, of q]
      by (cases "fs q"; cases "fs1 q") (auto simp: is_file_def)
    have "fs q = fs' q" if "is_file fs' q" "q \<noteq> target" for q
      using that old [of q] fs' by (simp add: is_file_def split: if_splits)
    moreover have "fs' q = fs q" if "fs q \<noteq> None" "q \<noteq> target" "q \<noteq> tmp_path target" for q
      using that make_dirs_keeps [OF m, of q] fs' by auto
    ultimately show ?thesis using fs' tmp_path_neq [OF ne] by (simp add: read_bytes_def)
  qed
  with ok free show ?thesis by blast
qed

theorem cached_file_reads_back_witness:
  "\<exists>fs' target. file_path [''cache''] 7 ''src/a.py'' = Inr target \<and>
     write_file [''cache''] 7 ''src/a.py'' ''x = 1'' Map.empty = (fs', Inr target) \<and> read_bytes fs' target = Inr ''x = 1''"
proof -
  have "normalize_repo_path ''src/a.py'' = Inr ''src/a.py''" by code_simp
  then have f: "file_path [''cache''] 7 ''src/a.py'' = Inr (files_root [''cache''] 7 @ [''src'', ''a.py''])"
    by (simp only: file_path_eq) simp
  obtain fs' r where w: "write_file [''cache''] 7 ''src/a.py'' ''x = 1'' Map.empty = (fs', r)" by (cases rule: prod.exhaust)
  with cached_file_reads_back [OF f, of "''x = 1''" Map.empty]
  have "r = Inr (files_root [''cache''] 7 @ [''src'', ''a.py''])" by (simp add: is_file_def)
  with w f cached_file_reads_back [OF f, of "''x = 1''" Map.empty] show ?thesis by blast
qed

section \<open>The coverage file\<close>

lemma map_of_sorted: "distinct (map fst d) \<Longrightarrow> map_of (sort_key fst d) = map_of d"
  by (rule map_of_inject_set [THEN iffD2]) (simp_all add: distinct_map)

lemma sorted_obj_get: "distinct (map fst d) \<Longrightarrow> obj_get (sort_key fst d) = obj_get d"
  by (simp add: fun_eq_iff obj_get_def map_of_sorted)

lemma read_written_entries:
  "coverage_entries (map (\<lambda>e. json_sorted (coverage_prefix_json e)) es) = Inr es"
proof (induction es)
  case (Cons e es)
  have "coverage_entry (sort_key fst [(''prefix'', JStr (cp_prefix e)), (''completed_at'', JStr (cp_completed_at e)),
      (''file_count'', JInt (cp_file_count e)), (''bytes'', JInt (cp_bytes e))]) = Inr e"
    by (simp add: coverage_entry_def sorted_obj_get obj_get_def py_or_def str_or_def py_str_def del: sort_key_simps)
  with Cons show ?case by (simp add: coverage_prefix_json_def del: sort_key_simps)
qed simp

lemma read_written_coverage:
  assumes "cf_snapshot_id f \<noteq> []"
  shows "read_coverage (write_coverage cov s f) s = Inr f"
proof -
  have "json_sorted (JObj [(''snapshot_id'', JStr (cf_snapshot_id f)), (''prefixes'', JList (map coverage_prefix_json (cf_prefixes f)))]) =
      JObj (sort_key fst [(''snapshot_id'', JStr (cf_snapshot_id f)),
        (''prefixes'', JList (map (\<lambda>e. json_sorted (coverage_prefix_json e)) (cf_prefixes f)))])"
    by (simp add: comp_def del: sort_key_simps)
  then show ?thesis
    using assms by (simp add: read_coverage_def write_coverage_def sorted_obj_get read_written_entries obj_get_def str_or_def py_str_def
        del: sort_key_simps json_sorted.simps)
qed

lemma mark_prefix_covered_result:
  assumes "mark_prefix_covered stamp s pre n b cov = Inr cov'"
  shows "\<exists>f np. read_coverage cov s = Inr f \<and> normalize_prefix pre = Inr np \<and>
    read_coverage cov' s = Inr \<lparr>cf_snapshot_id = uuid_str s, cf_prefixes = cf_prefixes f @
      [\<lparr>cp_prefix = np, cp_completed_at = stamp, cp_file_count = n, cp_bytes = b\<rparr>]\<rparr> \<and> (\<forall>s'. s' \<noteq> s \<longrightarrow> cov' s' = cov s')"
proof -
  obtain f np where f: "read_coverage cov s = Inr f" "normalize_prefix pre = Inr np"
      and cov': "cov' = write_coverage cov s \<lparr>cf_snapshot_id = uuid_str s, cf_prefixes = cf_prefixes f @
        [\<lparr>cp_prefix = np, cp_completed_at = stamp, cp_file_count = n, cp_bytes = b\<rparr>]\<rparr>"
    using assms by (auto simp: mark_prefix_covered_def rbind_eq_Inr Let_def)
  have "read_coverage cov' s = Inr \<lparr>cf_snapshot_id = uuid_str s, cf_prefixes = cf_prefixes f @
      [\<lparr>cp_prefix = np, cp_completed_at = stamp, cp_file_count = n, cp_bytes = b\<rparr>]\<rparr>"
    unfolding cov' by (rule read_written_coverage) simp
  with f show ?thesis by (simp add: cov' write_coverage_def)
qed

lemma normalize_prefix_eq:
  assumes "normalize_prefix pre = Inr np"
  obtains "np = []" | "np = ''/''"
  | parts where "parts \<noteq> []" "list_all normal_part parts" "\<not> list_ex is_unsafe_repo_path_part parts" "np = join_with ''/'' parts @ ''/''"
  using assms path_parts_normal [of pre]
  by (cases "path_parts (stripped_path pre) = []") (auto simp: normalize_prefix_def Let_def split: if_splits)

text \<open>Normalising a prefix again changes it in one case: the prefix of a dot, \<^verbatim>\<open>/\<close>, becomes the empty prefix.\<close>

lemma normalize_prefix_twice:
  assumes "normalize_prefix pre = Inr np"
  shows "normalize_prefix np = Inr (if np = ''/'' then [] else np)"
  using assms
proof (cases rule: normalize_prefix_eq)
  case (3 parts)
  define j where "j = join_with ''/'' parts"
  note ends = joined_ends [OF 3(2,1), folded j_def]
  have "replace_char (CHR 0x5C) (CHR ''/'') (j @ ''/'') = j @ ''/''"
    using ends(4) by (simp add: replace_char_def)
  then have "stripped_path np = strip_by (\<lambda>c. c = CHR ''/'') (j @ ''/'')"
    using 3(4) by (simp add: stripped_path_def j_def [symmetric])
  also have "dropWhile (\<lambda>c. c = CHR ''/'') (j @ ''/'') = j @ ''/''" using ends(1,2) by (cases j) simp_all
  then have "strip_by (\<lambda>c. c = CHR ''/'') (j @ ''/'') = rev (dropWhile (\<lambda>c. c = CHR ''/'') (rev j))" by (simp add: strip_by_def)
  also have "\<dots> = j" using ends(1,3) by (cases j rule: rev_cases) simp_all
  finally have "stripped_path np = j" .
  moreover have "path_parts j = parts" unfolding j_def by (rule path_parts_join [OF 3(2,1)])
  moreover have "np \<noteq> ''/''" "np \<noteq> []" using 3(4) ends(1) by (simp_all add: j_def [symmetric])
  ultimately show ?thesis using ends(1) 3(3,4) by (simp add: normalize_prefix_def j_def [symmetric])
next
  case 2
  have "stripped_path ''/'' = []" by (simp add: stripped_path_def replace_char_def strip_by_def)
  with 2 show ?thesis by (simp add: normalize_prefix_def)
qed (simp add: normalize_prefix_def)

lemma covered_by_True:
  "covered_by target es = Inr True \<Longrightarrow>
   \<exists>e \<in> set es. \<exists>c. normalize_prefix (cp_prefix e) = Inr c \<and> starts_with c target"
  by (induction es) (auto simp: rbind_eq_Inr starts_with_def split: if_splits)

section \<open>What a clean-up leaves\<close>

text \<open>Sizes of sets of directories, and the bookkeeping that every eviction keeps.\<close>

definition dirs_size :: "snapshot_dir list \<Rightarrow> int" where
  "dirs_size ds = sum_list (map directory_size ds)"

definition counted :: "snapshot_dir list \<Rightarrow> cleanup_state \<Rightarrow> bool" where
  "counted ds st \<longleftrightarrow>
     distinct (map sd_name ds) \<and> distinct (map sd_name (cs_existing st)) \<and> distinct (map sd_name (cs_listed st)) \<and>
     set (cs_existing st) \<subseteq> set (cs_listed st) \<and> set (cs_listed st) \<subseteq> set ds \<and>
     cs_removed st = int (length ds) - int (length (cs_existing st)) \<and>
     cs_removed_bytes st = dirs_size ds - dirs_size (cs_existing st)"

definition evict_all :: "snapshot_dir list \<Rightarrow> cleanup_state \<Rightarrow> cleanup_state" where
  "evict_all ds st = foldl (\<lambda>s d. evict (\<lambda>_. True) d s) st ds"

lemma evict_all_simps [simp]:
  "evict_all [] st = st" "evict_all (d # ds) st = evict_all ds (evict (\<lambda>_. True) d st)"
  by (simp_all add: evict_all_def)

lemma filter_one:
  "distinct (map sd_name xs) \<Longrightarrow> d \<in> set xs \<Longrightarrow>
   int (length (filter (\<lambda>x. sd_name x \<noteq> sd_name d) xs)) = int (length xs) - 1 \<and>
   dirs_size (filter (\<lambda>x. sd_name x \<noteq> sd_name d) xs) = dirs_size xs - directory_size d"
proof (induction xs)
  case (Cons x xs)
  show ?case
  proof (cases "d = x")
    case True
    with Cons.prems have "filter (\<lambda>y. sd_name y \<noteq> sd_name d) xs = xs" by (intro filter_True) (auto simp: image_iff)
    with True show ?thesis by (simp add: dirs_size_def)
  next
    case False
    with Cons.prems have "sd_name x \<noteq> sd_name d" "d \<in> set xs" by (auto simp: image_iff)
    with Cons show ?thesis by (simp add: dirs_size_def)
  qed
qed simp

lemma evict_counted:
  assumes "counted ds st" "d \<in> set (cs_existing st)"
  shows "counted ds (evict (\<lambda>_. True) d st) \<and> set (cs_existing (evict (\<lambda>_. True) d st)) = set (cs_existing st) - {d}"
proof -
  have "set (filter (\<lambda>x. sd_name x \<noteq> sd_name d) (cs_existing st)) = set (cs_existing st) - {d}"
    using assms by (auto simp: counted_def distinct_map inj_on_def)
  with filter_one [of "cs_existing st" d] assms show ?thesis
    by (auto simp: counted_def evict_def rmtree_def distinct_map_filter)
qed

lemma evict_all_counted:
  "counted ds st \<Longrightarrow> set xs \<subseteq> set (cs_existing st) \<Longrightarrow> distinct xs \<Longrightarrow>
   counted ds (evict_all xs st) \<and> set (cs_existing (evict_all xs st)) = set (cs_existing st) - set xs \<and>
   cs_listed (evict_all xs st) = cs_listed st"
proof (induction xs arbitrary: st)
  case (Cons x xs)
  have l: "cs_listed (evict (\<lambda>_. True) x st) = cs_listed st" by (simp add: evict_def)
  have e: "counted ds (evict (\<lambda>_. True) x st)" "set (cs_existing (evict (\<lambda>_. True) x st)) = set (cs_existing st) - {x}"
    using evict_counted [of ds st x] Cons.prems by simp_all
  with Cons.IH [of "evict (\<lambda>_. True) x st"] Cons.prems l show ?case by auto
qed simp

lemma candidates_existing:
  assumes "counted ds st"
  shows "set (candidates st) = set (cs_existing st)" "distinct (candidates st)" "sorted (map oldest_mtime (candidates st))"
    "total_bytes st = dirs_size (cs_existing st)"
proof -
  have "x \<in> set (cs_existing st)" if "x \<in> set (cs_listed st)" "sd_name x \<in> sd_name ` set (cs_existing st)" for x
  proof -
    from that(2) obtain y where y: "y \<in> set (cs_existing st)" "sd_name x = sd_name y" by auto
    with assms that(1) have "x = y" unfolding counted_def distinct_map inj_on_def by blast
    with y show ?thesis by simp
  qed
  with assms show s: "set (candidates st) = set (cs_existing st)" by (auto simp: candidates_def counted_def)
  show d: "distinct (candidates st)" using assms by (auto simp: candidates_def counted_def distinct_map)
  show "sorted (map oldest_mtime (candidates st))" by (simp add: candidates_def)
  have "distinct (cs_existing st)" using assms by (auto simp: counted_def distinct_map)
  then show "total_bytes st = dirs_size (cs_existing st)"
    using s d by (simp add: total_bytes_def dirs_size_def sum_list_distinct_conv_sum_set)
qed

lemma expire_loop_eq:
  "expire_loop (\<lambda>_. True) cutoff xs st =
   (evict_all (filter (\<lambda>d. sd_mtime d < cutoff) xs) st)
     \<lparr>cs_listed := filter (\<lambda>x. sd_name x \<notin> sd_name ` set (filter (\<lambda>d. sd_mtime d < cutoff) xs)) (cs_listed st)\<rparr>"
proof (induction xs arbitrary: st)
  case (Cons d xs)
  have swap: "evict_all ys (s\<lparr>cs_listed := l\<rparr>) = (evict_all ys s)\<lparr>cs_listed := l\<rparr>" for ys s l
  proof (induction ys arbitrary: s)
    case (Cons y ys)
    have "evict (\<lambda>_. True) y (s\<lparr>cs_listed := l\<rparr>) = (evict (\<lambda>_. True) y s)\<lparr>cs_listed := l\<rparr>" by (simp add: evict_def)
    with Cons show ?case by simp
  qed simp
  show ?case using Cons by (auto simp: swap not_le conj_commute)
qed simp

lemma shrink_loop_take:
  "\<exists>k \<le> length xs. shrink_loop (\<lambda>_. True) m t xs st = evict_all (take k xs) st \<and>
     (k < length xs \<longrightarrow> t - dirs_size (take k xs) \<le> m)"
proof (induction xs arbitrary: t st)
  case (Cons x xs)
  show ?case
  proof (cases "t \<le> m")
    case True
    then show ?thesis by (intro exI [of _ 0]) (simp add: dirs_size_def)
  next
    case False
    from Cons.IH [of "t - directory_size x" "evict (\<lambda>_. True) x st"] obtain k where "k \<le> length xs"
        "shrink_loop (\<lambda>_. True) m (t - directory_size x) xs (evict (\<lambda>_. True) x st) = evict_all (take k xs) (evict (\<lambda>_. True) x st)"
        "k < length xs \<longrightarrow> t - directory_size x - dirs_size (take k xs) \<le> m" by blast
    with False show ?thesis by (intro exI [of _ "Suc k"]) (auto simp: dirs_size_def)
  qed
qed simp

lemma free_loop_take:
  "\<exists>k \<le> length xs. free_loop (\<lambda>_. True) usage p xs st = evict_all (take k xs) st \<and>
     (k < length xs \<longrightarrow> free_disk_at_least usage p (cs_existing (evict_all (take k xs) st)))"
proof (induction xs arbitrary: st)
  case (Cons x xs)
  show ?case
  proof (cases "free_disk_at_least usage p (cs_existing st)")
    case True
    then show ?thesis by (intro exI [of _ 0]) simp
  next
    case False
    from Cons.IH [of "evict (\<lambda>_. True) x st"] obtain k where "k \<le> length xs"
        "free_loop (\<lambda>_. True) usage p xs (evict (\<lambda>_. True) x st) = evict_all (take k xs) (evict (\<lambda>_. True) x st)"
        "k < length xs \<longrightarrow> free_disk_at_least usage p (cs_existing (evict_all (take k xs) (evict (\<lambda>_. True) x st)))" by blast
    with False show ?thesis by (intro exI [of _ "Suc k"]) auto
  qed
qed simp

text \<open>Evicting the first candidates keeps the books, and evicts nothing newer than what stays.\<close>

definition older_evicted :: "cleanup_state \<Rightarrow> cleanup_state \<Rightarrow> bool" where
  "older_evicted st st' \<longleftrightarrow> set (cs_existing st') \<subseteq> set (cs_existing st) \<and>
     (\<forall>d \<in> set (cs_existing st) - set (cs_existing st'). \<forall>k \<in> set (cs_existing st'). oldest_mtime d \<le> oldest_mtime k)"

lemma evict_candidates:
  fixes k :: nat
  assumes "counted ds st"
  defines "st' \<equiv> evict_all (take k (candidates st)) st"
  shows "counted ds st' \<and> older_evicted st st' \<and> set (cs_existing st') = set (drop k (candidates st)) \<and>
    dirs_size (cs_existing st') = dirs_size (cs_existing st) - dirs_size (take k (candidates st))"
proof -
  note c = candidates_existing [OF assms(1)]
  have e: "counted ds st'" "set (cs_existing st') = set (cs_existing st) - set (take k (candidates st))"
    using evict_all_counted [OF assms(1), of "take k (candidates st)"] c(1,2) set_take_subset [of k "candidates st"]
    by (auto simp: st'_def)
  have parts: "set (cs_existing st') = set (drop k (candidates st))"
    using e(2) c(1,2) by (metis Diff_cancel Un_Diff Un_Diff_cancel2 append_take_drop_id distinct_append set_append
        Diff_triv Int_commute sup_bot_left)
  have "oldest_mtime d \<le> oldest_mtime x" if "d \<in> set (take k (candidates st))" "x \<in> set (drop k (candidates st))" for d x
    using that c(3) by (metis (mono_tags, lifting) append_take_drop_id map_append sorted_append image_eqI list.set_map)
  then have "older_evicted st st'" using e(2) parts unfolding older_evicted_def by auto
  moreover have "distinct (cs_existing st')" using e(1) by (auto simp: counted_def distinct_map)
  then have "dirs_size (cs_existing st') = dirs_size (drop k (candidates st))"
    using parts c(2) by (simp add: dirs_size_def sum_list_distinct_conv_sum_set)
  moreover have "dirs_size (take k (candidates st)) + dirs_size (drop k (candidates st)) = dirs_size (cs_existing st)"
    using c(4) by (metis dirs_size_def total_bytes_def append_take_drop_id map_append sum_list_append)
  ultimately show ?thesis using e(1) parts by simp
qed

definition sizes_ok :: "snapshot_dir list \<Rightarrow> bool" where
  "sizes_ok ds = list_all (\<lambda>d. list_all (\<lambda>(m, size). case size of None \<Rightarrow> True | Some n \<Rightarrow> 0 \<le> n) (sd_children d)) ds"

lemma directory_size_nonneg: "sizes_ok ds \<Longrightarrow> d \<in> set ds \<Longrightarrow> 0 \<le> directory_size d"
  unfolding directory_size_def sizes_ok_def
  by (intro sum_list_nonneg) (force simp: list_all_iff split: option.splits)

lemma dirs_size_nonneg: "sizes_ok ds \<Longrightarrow> set xs \<subseteq> set ds \<Longrightarrow> 0 \<le> dirs_size xs"
  unfolding dirs_size_def by (intro sum_list_nonneg) (auto dest: directory_size_nonneg)

definition cutoff :: "cache_config \<Rightarrow> int \<Rightarrow> int" where
  "cutoff config t = t - max 0 (cc_ttl_days config) * 86400000000"

lemma expire_step_result:
  fixes config :: cache_config and t :: int
  assumes "distinct (map sd_name ds)"
  defines "st \<equiv> expire_step (\<lambda>_. True) config t \<lparr>cs_existing = ds, cs_listed = ds, cs_removed = 0, cs_removed_bytes = 0\<rparr>"
  shows "counted ds st \<and> set (cs_existing st) = {d \<in> set ds. cutoff config t \<le> sd_mtime d}"
proof -
  define st0 where "st0 = \<lparr>cs_existing = ds, cs_listed = ds, cs_removed = 0, cs_removed_bytes = 0\<rparr>"
  define old where "old = filter (\<lambda>d. sd_mtime d < cutoff config t) ds"
  have c0: "counted ds st0" "cs_existing st0 = ds" "cs_listed st0 = ds" using assms(1) by (simp_all add: st0_def counted_def)
  have "distinct ds" using assms(1) by (simp add: distinct_map)
  then have e: "counted ds (evict_all old st0)" "set (cs_existing (evict_all old st0)) = set ds - set old"
    using evict_all_counted [OF c0(1), of old] c0(2) by (auto simp: old_def)
  have names: "sd_name d \<in> sd_name ` set old \<longleftrightarrow> d \<in> set old" if "d \<in> set ds" for d
    using that assms(1) by (auto simp: old_def distinct_map inj_on_def)
  have "st = (evict_all old st0)\<lparr>cs_listed := filter (\<lambda>x. sd_name x \<notin> sd_name ` set old) ds\<rparr>"
    using expire_loop_eq [of "cutoff config t" ds st0]
    by (simp add: st_def expire_step_def cutoff_def [symmetric] st0_def [symmetric] old_def c0(3))
  then show ?thesis using e names assms(1) by (auto simp: counted_def distinct_map_filter old_def)
qed

lemma shrink_step_result:
  fixes config :: cache_config
  assumes "counted ds st"
  defines "st' \<equiv> shrink_step (\<lambda>_. True) config st"
  shows "counted ds st' \<and> older_evicted st st' \<and>
    (0 < cc_max_worker_cache_bytes config \<longrightarrow> dirs_size (cs_existing st') \<le> cc_max_worker_cache_bytes config)"
proof (cases "0 < cc_max_worker_cache_bytes config \<and> cc_max_worker_cache_bytes config < total_bytes st")
  case True
  then obtain k where k: "k \<le> length (candidates st)" "st' = evict_all (take k (candidates st)) st"
      "k < length (candidates st) \<longrightarrow> total_bytes st - dirs_size (take k (candidates st)) \<le> cc_max_worker_cache_bytes config"
    using shrink_loop_take [of "candidates st" "cc_max_worker_cache_bytes config" "total_bytes st" st]
    by (auto simp: st'_def shrink_step_def)
  note e = evict_candidates [OF assms(1), of k, folded k(2)]
  have "dirs_size (cs_existing st') \<le> cc_max_worker_cache_bytes config"
  proof (cases "k < length (candidates st)")
    case True
    with k(3) e candidates_existing(4) [OF assms(1)] show ?thesis by simp
  next
    case False
    with e have "cs_existing st' = []" by simp
    with True show ?thesis by (simp add: dirs_size_def)
  qed
  with e show ?thesis by simp
next
  case False
  with candidates_existing(4) [OF assms(1)] assms(1) show ?thesis by (auto simp: st'_def shrink_step_def older_evicted_def)
qed

lemma free_step_result:
  fixes config :: cache_config and usage :: "snapshot_dir list \<Rightarrow> int \<times> int"
  assumes "counted ds st"
  defines "st' \<equiv> free_step (\<lambda>_. True) usage config st"
  shows "counted ds st' \<and> older_evicted st st' \<and>
    (0 < cc_min_free_disk_percent config \<longrightarrow>
       cs_existing st' = [] \<or> free_disk_at_least usage (cc_min_free_disk_percent config) (cs_existing st'))"
proof (cases "0 < cc_min_free_disk_percent config")
  case True
  obtain k where k: "k \<le> length (candidates st)" "st' = evict_all (take k (candidates st)) st"
      "k < length (candidates st) \<longrightarrow> free_disk_at_least usage (cc_min_free_disk_percent config) (cs_existing st')"
    using free_loop_take [of "candidates st" usage "cc_min_free_disk_percent config" st] True
    by (auto simp: st'_def free_step_def)
  with evict_candidates [OF assms(1), of k, folded k(2)] show ?thesis by (cases "k < length (candidates st)") auto
next
  case False
  with assms(1) show ?thesis by (simp add: st'_def free_step_def older_evicted_def)
qed

lemma dirs_size_mono:
  assumes "sizes_ok ds" "counted ds st" "counted ds st'" "set (cs_existing st') \<subseteq> set (cs_existing st)"
  shows "dirs_size (cs_existing st') \<le> dirs_size (cs_existing st)"
proof -
  have d: "distinct (cs_existing st)" "distinct (cs_existing st')" using assms by (auto simp: counted_def distinct_map)
  have "0 \<le> directory_size x" if "x \<in> set (cs_existing st)" for x
    using that assms(1,2) directory_size_nonneg by (auto simp: counted_def)
  then show ?thesis using d assms(4)
    by (auto simp: dirs_size_def sum_list_distinct_conv_sum_set intro!: sum_mono2)
qed

text \<open>
  After a clean-up in which every deletion succeeds no directory older than the time to live is left, the
  directories left are no larger in total than the limit of the cache, and the free share of the disk is at least
  the configured one unless nothing is left to delete. A directory deleted before its time is not newer than any
  that stays, and the two counters are the number and the size of the directories deleted.
\<close>
theorem cleanup_bounds:
  assumes "distinct (map sd_name ds)" "sizes_ok ds"
  shows "let st = cleanup (\<lambda>_. True) usage config t (Some ds); left = cs_existing st in
    set left \<subseteq> set ds \<and> (\<forall>d \<in> set left. t - max 0 (cc_ttl_days config) * 86400000000 \<le> sd_mtime d) \<and>
    (0 < cc_max_worker_cache_bytes config \<longrightarrow> sum_list (map directory_size left) \<le> cc_max_worker_cache_bytes config) \<and>
    (0 < cc_min_free_disk_percent config \<longrightarrow> left = [] \<or> free_disk_at_least usage (cc_min_free_disk_percent config) left) \<and>
    (\<forall>d \<in> set ds - set left. t - max 0 (cc_ttl_days config) * 86400000000 \<le> sd_mtime d \<longrightarrow>
       (\<forall>k \<in> set left. oldest_mtime d \<le> oldest_mtime k)) \<and>
    cs_removed st = int (length ds) - int (length left) \<and>
    cs_removed_bytes st = sum_list (map directory_size ds) - sum_list (map directory_size left)"
proof -
  define st1 where "st1 = expire_step (\<lambda>_. True) config t \<lparr>cs_existing = ds, cs_listed = ds, cs_removed = 0, cs_removed_bytes = 0\<rparr>"
  define st2 where "st2 = shrink_step (\<lambda>_. True) config st1"
  define st3 where "st3 = free_step (\<lambda>_. True) usage config st2"
  have r1: "counted ds st1" "set (cs_existing st1) = {d \<in> set ds. cutoff config t \<le> sd_mtime d}"
    using expire_step_result [OF assms(1), of config t] by (simp_all add: st1_def)
  note r2 = shrink_step_result [OF r1(1), of config, folded st2_def]
  note r3 = free_step_result [OF r2 [THEN conjunct1], of usage config, folded st3_def]
  have "dirs_size (cs_existing st3) \<le> dirs_size (cs_existing st2)"
    using dirs_size_mono [OF assms(2), of st2 st3] r2 r3 by (simp add: older_evicted_def)
  moreover have "oldest_mtime d \<le> oldest_mtime k"
    if "d \<in> set ds - set (cs_existing st3)" "cutoff config t \<le> sd_mtime d" "k \<in> set (cs_existing st3)" for d k
    using that r1(2) r2 r3 unfolding older_evicted_def by blast
  moreover have "cleanup (\<lambda>_. True) usage config t (Some ds) = st3"
    by (simp add: cleanup_def st1_def st2_def st3_def)
  ultimately show ?thesis using r1(2) r2 r3
    unfolding Let_def cutoff_def [symmetric] dirs_size_def [symmetric] older_evicted_def counted_def by auto
qed

definition sample_dir :: "string \<Rightarrow> int \<Rightarrow> int \<Rightarrow> snapshot_dir" where
  "sample_dir n m bytes = \<lparr>sd_name = n, sd_mtime = m, sd_children = [(m, Some bytes)]\<rparr>"

definition sample_cache_config :: cache_config where
  "sample_cache_config =
     \<lparr>cc_max_worker_cache_bytes = 100, cc_max_prefix_bytes = 50, cc_ttl_days = 7, cc_min_free_disk_percent = 0\<rparr>"

theorem cleanup_bounds_witness:
  "sum_list (map directory_size (cs_existing (cleanup (\<lambda>_. True) (\<lambda>_. (0, 0)) sample_cache_config 800000000000
     (Some [sample_dir ''a'' 0 10, sample_dir ''b'' 700000000000 60, sample_dir ''c'' 600000000000 60])))) \<le> 100"
proof -
  have "distinct (map sd_name [sample_dir ''a'' 0 10, sample_dir ''b'' 700000000000 60, sample_dir ''c'' 600000000000 60])"
    "sizes_ok [sample_dir ''a'' 0 10, sample_dir ''b'' 700000000000 60, sample_dir ''c'' 600000000000 60]"
    by (simp_all add: sample_dir_def sizes_ok_def)
  from cleanup_bounds [OF this, of "\<lambda>_. (0, 0)" sample_cache_config 800000000000] show ?thesis
    by (simp add: Let_def sample_cache_config_def)
qed

end
