(* ===== verification/Tool_Policy.thy ===== *)
theory Tool_Policy
  imports Snapshot_Scanner Source_Cache
begin

text \<open>
  What a tool call may do and how its arguments are read: the registry of tools (\<^verbatim>\<open>backend/execution/tool_registry.py\<close>),
  the permission engine (\<^verbatim>\<open>permissions.py\<close>), the envelopes of results (\<^verbatim>\<open>envelopes.py\<close>), the argument helpers of
  \<^verbatim>\<open>backend/execution/__init__.py\<close>, and the queries on snapshot files of \<^verbatim>\<open>PostgresSnapshotToolRepository\<close>
  (\<^verbatim>\<open>backend/execution/repository.py\<close>). Rows are ordered by the code points of their paths.
\<close>

section \<open>Registry\<close>

datatype tool_capability = SOURCE_READ | EXTERNAL_NETWORK | ARTIFACT_READ | ARTIFACT_WRITE

record tool_definition =
  td_name :: string
  td_capability :: tool_capability
  td_read_only :: bool
  td_idempotent :: bool
  td_requires_analysis_id :: bool
  td_parallel_safe :: bool

definition source_tool :: "string \<Rightarrow> tool_definition" where
  "source_tool n =
     \<lparr>td_name = n, td_capability = SOURCE_READ, td_read_only = True, td_idempotent = True, td_requires_analysis_id = False,
      td_parallel_safe = True\<rparr>"

definition writing_tool :: "string \<Rightarrow> tool_definition" where
  "writing_tool n =
     \<lparr>td_name = n, td_capability = ARTIFACT_WRITE, td_read_only = False, td_idempotent = False, td_requires_analysis_id = True,
      td_parallel_safe = False\<rparr>"

definition TOOL_DEFINITIONS :: "(string \<times> tool_definition) list" where
  "TOOL_DEFINITIONS =
     [(''list_files'', source_tool ''list_files''), (''search_file'', source_tool ''search_file''),
      (''search_text'', source_tool ''search_text''), (''read_file'', source_tool ''read_file''),
      (''web_search'', (source_tool ''web_search'')\<lparr>td_capability := EXTERNAL_NETWORK, td_idempotent := False, td_parallel_safe := False\<rparr>),
      (''todo_update'', writing_tool ''todo_update''), (''document_create'', writing_tool ''document_create''),
      (''document_folder_create'', writing_tool ''document_folder_create''),
      (''document_get'', (source_tool ''document_get'')\<lparr>td_capability := ARTIFACT_READ, td_requires_analysis_id := True\<rparr>),
      (''document_update'', writing_tool ''document_update''), (''document_delete'', writing_tool ''document_delete''),
      (''document_finalize'', writing_tool ''document_finalize'')]"

definition is_parallel_safe_tool :: "string \<Rightarrow> bool" where
  "is_parallel_safe_tool n = (case map_of TOOL_DEFINITIONS n of None \<Rightarrow> False | Some d \<Rightarrow> td_parallel_safe d)"

text \<open>What a tool may raise. \<open>TTypeError\<close> and \<open>TOther\<close> are not caught by the executor.\<close>

datatype tool_exception =
    TValueError string | TTypeError | TKeyError string | TOsError | TDocumentToolError string string
  | TTodoToolError string string | TTimeoutError | TNoCommand | TSearchTimeout | TOther

definition registry_from_config :: "string list \<Rightarrow> tool_exception + tool_definition list" where
  "registry_from_config enabled =
     (let unknown_tools = filter (\<lambda>n. map_of TOOL_DEFINITIONS n = None) enabled
      in if unknown_tools \<noteq> [] then Inl (TValueError (''unknown enabled tools: '' @ join_with '', '' (sort unknown_tools)))
         else Inr (map (\<lambda>n. the (map_of TOOL_DEFINITIONS n)) enabled))"

section \<open>Permissions\<close>

datatype permission_decision = DENY | ASK | ALLOW

record permission_result =
  pr_decision :: permission_decision
  pr_reason_code :: string
  pr_message :: string
  pr_tool :: "tool_definition option"

definition is_unsafe_path :: "string \<Rightarrow> bool" where
  "is_unsafe_path path =
     (let normalized = replace_char (CHR 0x5C) (CHR ''/'') path
      in list_ex (\<lambda>p. starts_with p normalized) [''/'', ''//'', ''~'', ''.git/'', ''../''] \<or> CHR '':'' \<in> set normalized \<or>
         normalized = ''.git'' \<or> normalized = ''..'' \<or> contains_sub ''/../'' normalized \<or> ends_with ''/..'' normalized)"

fun check_paths :: "tool_definition \<Rightarrow> (string \<times> json) list \<Rightarrow> string list \<Rightarrow> permission_result" where
  "check_paths tool arguments [] =
     \<lparr>pr_decision = ALLOW, pr_reason_code = ''ALLOWED'', pr_message = ''Tool call is allowed.'', pr_tool = Some tool\<rparr>"
| "check_paths tool arguments (n # ns) =
     (case obj_get arguments n of
        JStr path \<Rightarrow>
          if is_unsafe_path path
          then \<lparr>pr_decision = DENY, pr_reason_code = ''UNSAFE_PATH'', pr_message = ''Unsafe repository path in '' @ n @ ''.'',
                pr_tool = Some tool\<rparr>
          else if is_secret_path path
          then \<lparr>pr_decision = DENY, pr_reason_code = ''SECRET_PATH_DENIED'', pr_message = ''Secret path denied in '' @ n @ ''.'',
                pr_tool = Some tool\<rparr>
          else check_paths tool arguments ns
      | _ \<Rightarrow> check_paths tool arguments ns)"

definition evaluate_result :: "string list \<Rightarrow> string \<Rightarrow> (string \<times> json) list \<Rightarrow> tool_exception + permission_result" where
  "evaluate_result enabled tool_name arguments =
     rbind (registry_from_config enabled) (\<lambda>tools.
       case map_of (map (\<lambda>t. (td_name t, t)) (rev tools)) tool_name of
         None \<Rightarrow> Inr \<lparr>pr_decision = DENY, pr_reason_code = ''TOOL_NOT_ENABLED'',
                        pr_message = ''Tool is not enabled: '' @ tool_name, pr_tool = None\<rparr>
       | Some tool \<Rightarrow> Inr (check_paths tool arguments [''path'', ''path_prefix'', ''glob'', ''path_glob'']))"

section \<open>Envelopes\<close>

definition tool_success_envelope ::
  "string \<Rightarrow> uuid \<Rightarrow> json \<Rightarrow> string list \<Rightarrow> bool \<Rightarrow> json \<Rightarrow> (string \<times> json) list \<Rightarrow> (string \<times> json) list" where
  "tool_success_envelope tool_name snapshot res evidence_ids truncated next_cursor scope =
     [(''ok'', JBool True), (''tool_name'', JStr tool_name), (''snapshot_id'', JStr (uuid_str snapshot)),
      (''scope'', JObj (if scope = [] then [(''type'', JStr ''source_snapshot''), (''snapshot_id'', JStr (uuid_str snapshot))] else scope)),
      (''result'', res), (''evidence_ids'', JList (map JStr evidence_ids)), (''truncated'', JBool truncated),
      (''next_cursor'', next_cursor)]"

definition tool_error_envelope :: "string \<Rightarrow> string \<Rightarrow> string \<Rightarrow> bool \<Rightarrow> (string \<times> json) list" where
  "tool_error_envelope tool_name code message retryable =
     [(''ok'', JBool False), (''tool_name'', JStr tool_name),
      (''error'', JObj [(''code'', JStr code), (''message'', JStr message), (''retryable'', JBool retryable)])]"

section \<open>Arguments\<close>

definition int_value :: "json \<Rightarrow> tool_exception + int" where
  "int_value raw =
     (case py_int raw of
        Inr i \<Rightarrow> Inr i
      | Inl IntValueError \<Rightarrow> Inl (TValueError (''invalid literal for int() with base 10: '' @ py_repr raw))
      | Inl IntTypeError \<Rightarrow> Inl TTypeError)"

definition raw_arg :: "(string \<times> json) list \<Rightarrow> string \<Rightarrow> int \<Rightarrow> json" where
  "raw_arg arguments n dflt =
     (case obj_get_default arguments n (JInt dflt) of JNull \<Rightarrow> JInt dflt | v \<Rightarrow> v)"

definition int_arg :: "(string \<times> json) list \<Rightarrow> string \<Rightarrow> int \<Rightarrow> int \<Rightarrow> int \<Rightarrow> tool_exception + int" where
  "int_arg arguments n dflt minimum maximum =
     rbind (int_value (raw_arg arguments n dflt)) (\<lambda>value.
       if value < minimum \<or> value > maximum
       then Inl (TValueError (n @ '' must be between '' @ show_int minimum @ '' and '' @ show_int maximum))
       else Inr value)"

definition bounded_int_arg :: "(string \<times> json) list \<Rightarrow> string \<Rightarrow> int \<Rightarrow> int \<Rightarrow> int \<Rightarrow> tool_exception + int" where
  "bounded_int_arg arguments n dflt minimum maximum =
     (if maximum < minimum then Inl (TValueError (n @ '' maximum must be greater than or equal to '' @ show_int minimum))
      else rbind (int_value (raw_arg arguments n dflt)) (\<lambda>value. Inr (min (max value minimum) maximum)))"

definition enum_arg :: "(string \<times> json) list \<Rightarrow> string \<Rightarrow> string \<Rightarrow> string list \<Rightarrow> tool_exception + string" where
  "enum_arg arguments n dflt allowed =
     (let value = (let v = obj_get arguments n in if truthy v then py_str v else dflt)
      in if value \<notin> set allowed then Inl (TValueError (n @ '' must be one of '' @ join_with '', '' (sort allowed))) else Inr value)"

definition is_unsafe_glob :: "string \<Rightarrow> bool" where
  "is_unsafe_glob value =
     (let normalized = replace_char (CHR 0x5C) (CHR ''/'') value
      in list_ex (\<lambda>p. starts_with p normalized) [''/'', ''//'', ''~'', ''../''] \<or> CHR '':'' \<in> set normalized \<or>
         normalized = ''..'' \<or> contains_sub ''/../'' normalized \<or> ends_with ''/..'' normalized)"

definition optional_glob :: "json \<Rightarrow> tool_exception + string option" where
  "optional_glob value =
     (if value = JNull then Inr None
      else let glob = py_strip (py_str value)
      in if glob = [] then Inr None
         else if is_unsafe_glob glob then Inl (TValueError ''unsafe repository glob'')
         else Inr (Some (replace_char (CHR 0x5C) (CHR ''/'') glob)))"

definition tool_cursor_offset :: "json \<Rightarrow> tool_exception + int" where
  "tool_cursor_offset value =
     (if value = JNull \<or> py_strip (py_str value) = [] then Inr 0
      else rbind (int_value (JStr (py_str value))) (\<lambda>offset.
        if offset < 0 then Inl (TValueError ''cursor must be non-negative'') else Inr offset))"

definition optional_cursor :: "json \<Rightarrow> tool_exception + string option" where
  "optional_cursor value =
     (if value = JNull then Inr None else rbind (tool_cursor_offset value) (\<lambda>n. Inr (Some (show_int n))))"

definition page_rows :: "'r list \<Rightarrow> int \<Rightarrow> json \<Rightarrow> tool_exception + 'r list \<times> string option" where
  "page_rows rows max_results cursor =
     rbind (tool_cursor_offset cursor) (\<lambda>offset.
       if int (length rows) > max_results then Inr (take (nat max_results) rows, Some (show_int (offset + max_results)))
       else Inr (rows, None))"

section \<open>Queries on snapshot files\<close>

text \<open>\<^verbatim>\<open>LIKE ... ESCAPE '\'\<close>; a pattern that ends in the escape character is an error in Postgres and matches nothing here.\<close>

function like_escape :: "string \<Rightarrow> string \<Rightarrow> bool" where
  "like_escape [] s = (s = [])"
| "like_escape (p # ps) s =
     (if p = CHR 0x5C
      then (case ps of [] \<Rightarrow> False
            | q # qs \<Rightarrow> (case s of [] \<Rightarrow> False | c # cs \<Rightarrow> c = q \<and> like_escape qs cs))
      else if p = CHR ''%''
      then like_escape ps s \<or> (case s of [] \<Rightarrow> False | c # cs \<Rightarrow> like_escape (p # ps) cs)
      else (case s of [] \<Rightarrow> False | c # cs \<Rightarrow> (p = CHR ''_'' \<or> p = c) \<and> like_escape ps cs))"
  by pat_completeness auto
termination
  by (relation "measure (\<lambda>(p, s). length p + length s)") auto

definition escape_like :: "string \<Rightarrow> string" where
  "escape_like value =
     concat (map (\<lambda>c. if c = CHR ''%'' \<or> c = CHR ''_'' \<or> c = CHR 0x5C then [CHR 0x5C, c] else [c]) value)"

definition glob_to_like :: "string option \<Rightarrow> string option" where
  "glob_to_like value =
     (case value of
        None \<Rightarrow> None
      | Some v \<Rightarrow>
          if v = [] then None
          else let normalized = escape_like (replace_char (CHR 0x5C) (CHR ''/'') v);
                   normalized = (if starts_with ''**/'' normalized then CHR ''%'' # drop 2 normalized else normalized)
               in Some (replace_char (CHR ''*'') (CHR ''%'') (replace_sub (CHR ''*'') ''*'' ''%'' normalized)))"

definition glob_matches :: "string option \<Rightarrow> file_row \<Rightarrow> bool" where
  "glob_matches glob r = (case glob_to_like glob of None \<Rightarrow> True | Some pattern \<Rightarrow> like_escape pattern (fr_path r))"

definition row_visible :: "file_row \<Rightarrow> bool" where
  "row_visible r = visible_path (fr_path r) (fr_name r)"

definition get_file :: "file_row list \<Rightarrow> uuid \<Rightarrow> string \<Rightarrow> file_row option" where
  "get_file files snapshot path = find (\<lambda>r. fr_snapshot_id r = snapshot \<and> fr_path r = path) files"

definition in_listing :: "string option \<Rightarrow> bool \<Rightarrow> file_row \<Rightarrow> bool" where
  "in_listing path recursive r =
     (if recursive
      then like_escape (case path of None \<Rightarrow> ''%'' | Some p \<Rightarrow> if p = [] then ''%''
                          else escape_like (rstrip_by (\<lambda>c. c = CHR ''/'') p) @ ''/%'') (fr_path r)
      else fr_parent_path r = path)"

text \<open>\<^verbatim>\<open>ORDER BY path LIMIT :limit OFFSET :offset\<close>\<close>

definition sql_page :: "int \<Rightarrow> int \<Rightarrow> file_row list \<Rightarrow> file_row list" where
  "sql_page limit offset rows = take (nat limit) (drop (nat offset) (sort_key fr_path rows))"

definition list_files ::
  "file_row list \<Rightarrow> uuid \<Rightarrow> string option \<Rightarrow> bool \<Rightarrow> int \<Rightarrow> string option \<Rightarrow> string option \<Rightarrow> tool_exception + file_row list" where
  "list_files files snapshot path recursive max_results glob cursor =
     rbind (tool_cursor_offset (opt_str cursor)) (\<lambda>offset.
       Inr (sql_page max_results offset
         (filter (\<lambda>r. fr_snapshot_id r = snapshot \<and> in_listing path recursive r \<and> row_visible r \<and> glob_matches glob r) files)))"

definition search_files ::
  "file_row list \<Rightarrow> uuid \<Rightarrow> string \<Rightarrow> int \<Rightarrow> string option \<Rightarrow> string option \<Rightarrow> tool_exception + file_row list" where
  "search_files files snapshot query max_results glob cursor =
     rbind (tool_cursor_offset (opt_str cursor)) (\<lambda>offset.
       Inr (sql_page max_results offset
         (filter (\<lambda>r. fr_snapshot_id r = snapshot \<and>
            like_escape (''%'' @ escape_like (py_lower query) @ ''%'') (py_lower (fr_path r)) \<and> row_visible r \<and> glob_matches glob r) files)))"

definition text_files_under_prefix :: "file_row list \<Rightarrow> uuid \<Rightarrow> string \<Rightarrow> file_row list" where
  "text_files_under_prefix files snapshot pre =
     sort_key fr_path (filter (\<lambda>r. fr_snapshot_id r = snapshot \<and> like_escape (escape_like pre @ ''%'') (fr_path r) \<and>
       fr_entry_kind r = ''file'' \<and> fr_content_key r \<noteq> None \<and> \<not> fr_is_binary r \<and> \<not> fr_is_large r \<and> row_visible r) files)"

text \<open>\<^verbatim>\<open>_visible_file_rows\<close> filters what the query returned.\<close>

definition visible_file_rows :: "file_row list \<Rightarrow> file_row list" where
  "visible_file_rows rows = filter (\<lambda>r. \<not> is_secret_path (fr_path r)) rows"

section \<open>Escaping\<close>

lemma like_escape_percent: "like_escape ''%'' s"
  by (induction s) simp_all

lemma like_escape_prefix: "like_escape (escape_like q @ p) s \<longleftrightarrow> (\<exists>t. s = q @ t \<and> like_escape p t)"
proof (induction q arbitrary: s)
  case (Cons c q)
  then show ?case by (cases s) (auto simp: escape_like_def)
qed (simp add: escape_like_def)

lemma like_escape_starts: "like_escape (escape_like q @ ''%'') s \<longleftrightarrow> starts_with q s"
proof -
  have "(\<exists>t. s = q @ t) \<longleftrightarrow> take (length q) s = q" by (metis append_eq_conv_conj)
  then show ?thesis by (simp only: like_escape_prefix like_escape_percent starts_with_def) simp
qed

lemma like_escape_contains: "like_escape (''%'' @ escape_like q @ ''%'') s \<longleftrightarrow> contains_sub q s"
proof (induction s)
  case Nil
  then show ?case by (auto simp: like_escape_starts starts_with_def)
next
  case (Cons c s)
  have "like_escape (''%'' @ escape_like q @ ''%'') (c # s) \<longleftrightarrow>
      like_escape (escape_like q @ ''%'') (c # s) \<or> like_escape (''%'' @ escape_like q @ ''%'') s" by simp
  then show ?case using Cons by (simp only: like_escape_starts contains_sub.simps)
qed

end
