(* ===== verification/Source_Tools.thy ===== *)
theory Source_Tools
  imports Tool_Policy
begin

text \<open>
  The tools that read a snapshot (\<^verbatim>\<open>SourceToolExecutor\<close> of \<^verbatim>\<open>backend/execution/__init__.py\<close>): listing and searching
  paths, reading a range of lines, searching text with ripgrep, and the local copy they work on. The state is the
  table of snapshot files, the object store, the worker's file system with its coverage files, and the evidence
  recorded. \<open>decode\<close> is \<^verbatim>\<open>bytes.decode("utf-8", errors="replace")\<close>; the ripgrep process is an argument.
\<close>

section \<open>State\<close>

record evidence_row =
  ev_id :: uuid
  ev_agent_id :: uuid
  ev_snapshot_id :: uuid
  ev_tool_call_id :: uuid
  ev_path :: string
  ev_start_line :: "int option"
  ev_end_line :: "int option"
  ev_content_hash :: "string option"
  ev_snippet_ref :: "string option"
  ev_created_at :: int

record tool_context =
  cx_tool_call_id :: uuid
  cx_agent_id :: uuid
  cx_snapshot_id :: uuid
  cx_analysis_id :: "uuid option"
  cx_turn_id :: "uuid option"

record read_config =
  rc_default_lines :: int
  rc_max_lines :: int
  rc_max_bytes :: int

record search_config =
  sx_max_results :: int
  sx_timeout_seconds :: int
  sx_max_output_bytes :: int

record tool_env =
  tv_root_dir :: fs_path
  tv_decode :: "bytes \<Rightarrow> string"
  tv_stamp :: string

record tool_state =
  ts_files :: "file_row list"
  ts_storage :: object_store
  ts_fs :: filesystem
  ts_coverage :: coverage_store
  ts_evidence :: "evidence_row list"

type_synonym 'a tool_result = "tool_state \<times> (tool_exception + 'a)"

definition cache_exception :: "cache_error \<Rightarrow> tool_exception" where
  "cache_exception e =
     (case e of PathValueError m \<Rightarrow> TValueError m | PathOsError \<Rightarrow> TOsError
      | CoverageError IntValueError \<Rightarrow> TValueError ''invalid literal for int() with base 10''
      | CoverageError IntTypeError \<Rightarrow> TTypeError)"

definition lift_cache :: "cache_error + 'a \<Rightarrow> tool_exception + 'a" where
  "lift_cache r = (case r of Inl e \<Rightarrow> Inl (cache_exception e) | Inr x \<Rightarrow> Inr x)"

definition add_evidence ::
  "draws \<Rightarrow> nat \<Rightarrow> tool_context \<Rightarrow> string \<Rightarrow> int \<Rightarrow> int \<Rightarrow> string option \<Rightarrow> string \<Rightarrow> string \<Rightarrow> tool_state \<Rightarrow> tool_state" where
  "add_evidence d k ctx path start_line end_line hash snippet snippet_ref st =
     st\<lparr>ts_evidence := ts_evidence st @
       [\<lparr>ev_id = new_id d k, ev_agent_id = cx_agent_id ctx, ev_snapshot_id = cx_snapshot_id ctx,
         ev_tool_call_id = cx_tool_call_id ctx, ev_path = path, ev_start_line = Some start_line, ev_end_line = Some end_line,
         ev_content_hash = hash, ev_snippet_ref = Some (if snippet_ref \<noteq> [] then snippet_ref else take 4096 snippet),
         ev_created_at = now d\<rparr>]\<rparr>"

definition ok_with_ref ::
  "tool_context \<Rightarrow> string \<Rightarrow> json \<Rightarrow> string list \<Rightarrow> bool \<Rightarrow> json \<Rightarrow> (string \<times> json) list \<Rightarrow> tool_state \<Rightarrow> tool_state \<times> (string \<times> json) list" where
  "ok_with_ref ctx tool_name res evidence_ids truncated next_cursor scope st =
     (let body = tool_success_envelope tool_name (cx_snapshot_id ctx) res evidence_ids truncated next_cursor scope;
          result_ref = tool_result_key (cx_tool_call_id ctx)
      in (st\<lparr>ts_storage := put_bytes (ts_storage st) result_ref
                (utf8_encode (json_dumps '', '' '': '' (json_sorted (JObj body)))) ''application/json; charset=utf-8''\<rparr>,
          body @ [(''result_ref'', JStr result_ref)]))"

section \<open>Hashes and the local copy\<close>

definition is_sha256_hash :: "string \<Rightarrow> bool" where
  "is_sha256_hash value =
     (starts_with ''sha256:'' value \<and> length (drop 7 value) = 64 \<and>
      list_all (\<lambda>c. c \<in> set ''0123456789abcdefABCDEF'') (drop 7 value))"

definition hash_matches :: "bytes \<Rightarrow> string option \<Rightarrow> bool" where
  "hash_matches data expected =
     (case expected of
        None \<Rightarrow> True
      | Some h \<Rightarrow> if h = [] \<or> \<not> is_sha256_hash h then True else sha256_bytes data = h)"

definition hash_mismatch :: "string \<Rightarrow> tool_exception" where
  "hash_mismatch path = TValueError (''cached object hash does not match snapshot metadata for '' @ path)"

text \<open>\<^verbatim>\<open>storage.get_bytes(row["content_key"])\<close> followed by the check of the hash.\<close>

definition fetch_content :: "object_store \<Rightarrow> file_row \<Rightarrow> tool_exception + bytes" where
  "fetch_content storage row =
     (case fr_content_key row of
        None \<Rightarrow> Inl (TKeyError [])
      | Some key \<Rightarrow>
          (case get_bytes storage key of
             None \<Rightarrow> Inl (TKeyError key)
           | Some data \<Rightarrow> if hash_matches data (fr_content_hash row) then Inr data else Inl (hash_mismatch (fr_path row))))"

definition cache_write :: "tool_env \<Rightarrow> uuid \<Rightarrow> string \<Rightarrow> bytes \<Rightarrow> tool_state \<Rightarrow> fs_path tool_result" where
  "cache_write env snapshot path data st =
     (case write_file (tv_root_dir env) snapshot path data (ts_fs st) of
        (fs, r) \<Rightarrow> (st\<lparr>ts_fs := fs\<rparr>, lift_cache r))"

definition ensure_file :: "tool_env \<Rightarrow> uuid \<Rightarrow> file_row \<Rightarrow> tool_state \<Rightarrow> fs_path tool_result" where
  "ensure_file env snapshot row st =
     (case file_path (tv_root_dir env) snapshot (fr_path row) of
        Inl e \<Rightarrow> (st, Inl (cache_exception e))
      | Inr target \<Rightarrow>
          (case read_bytes (ts_fs st) target of
             Inr cached \<Rightarrow>
               if hash_matches cached (fr_content_hash row) then (st, Inr target)
               else (case fetch_content (ts_storage st) row of
                       Inl e \<Rightarrow> (st, Inl e)
                     | Inr data \<Rightarrow> cache_write env snapshot (fr_path row) data st)
           | Inl _ \<Rightarrow>
               (case fetch_content (ts_storage st) row of
                  Inl e \<Rightarrow> (st, Inl e)
                | Inr data \<Rightarrow> cache_write env snapshot (fr_path row) data st)))"

fun materialize :: "tool_env \<Rightarrow> uuid \<Rightarrow> file_row list \<Rightarrow> int \<Rightarrow> tool_state \<Rightarrow> int tool_result" where
  "materialize env snapshot [] written st = (st, Inr written)"
| "materialize env snapshot (row # rows) written st =
     (case fetch_content (ts_storage st) row of
        Inl e \<Rightarrow> (st, Inl e)
      | Inr data \<Rightarrow>
          (case cache_write env snapshot (fr_path row) data st of
             (st1, Inl e) \<Rightarrow> (st1, Inl e)
           | (st1, Inr _) \<Rightarrow> materialize env snapshot rows (written + int (length data)) st1))"

definition estimated_bytes :: "file_row list \<Rightarrow> int" where
  "estimated_bytes rows = sum_list (map (\<lambda>r. case fr_size_bytes r of None \<Rightarrow> 0 | Some n \<Rightarrow> n) rows)"

text \<open>
  \<^verbatim>\<open>_ensure_prefix\<close> tests the coverage before it takes the lock of the prefix and again under it. \<open>ensure_prefix_locked\<close> is
  what runs under the lock; no other worker is interleaved with a call.
\<close>

definition ensure_prefix_locked :: "tool_env \<Rightarrow> cache_config \<Rightarrow> uuid \<Rightarrow> string \<Rightarrow> tool_state \<Rightarrow> unit tool_result" where
  "ensure_prefix_locked env config snapshot pre st =
     (case is_prefix_covered (ts_coverage st) snapshot pre of
        Inl e \<Rightarrow> (st, Inl (cache_exception e))
      | Inr True \<Rightarrow> (st, Inr ())
      | Inr False \<Rightarrow>
          let rows = text_files_under_prefix (ts_files st) snapshot pre; n = estimated_bytes rows
          in if n > cc_max_prefix_bytes config
             then (st, Inl (TValueError (''prefix cache would materialize '' @ show_int n @ '' bytes, exceeding max_prefix_bytes='' @
                     show_int (cc_max_prefix_bytes config))))
             else (case materialize env snapshot rows 0 st of
                     (st1, Inl e) \<Rightarrow> (st1, Inl e)
                   | (st1, Inr written) \<Rightarrow>
                       (case mark_prefix_covered (tv_stamp env) snapshot pre (int (length rows)) written (ts_coverage st1) of
                          Inl e \<Rightarrow> (st1, Inl (cache_exception e))
                        | Inr cov \<Rightarrow> (st1\<lparr>ts_coverage := cov\<rparr>, Inr ()))))"

definition ensure_prefix :: "tool_env \<Rightarrow> cache_config \<Rightarrow> uuid \<Rightarrow> string \<Rightarrow> tool_state \<Rightarrow> unit tool_result" where
  "ensure_prefix env config snapshot pre st =
     (case is_prefix_covered (ts_coverage st) snapshot pre of
        Inl e \<Rightarrow> (st, Inl (cache_exception e))
      | Inr True \<Rightarrow> (st, Inr ())
      | Inr False \<Rightarrow> ensure_prefix_locked env config snapshot pre st)"

section \<open>Reading lines\<close>

text \<open>The lines of a text file opened with universal newlines, each with its line end.\<close>

fun text_lines :: "string \<Rightarrow> string \<Rightarrow> string list" where
  "text_lines acc [] = (if acc = [] then [] else [acc])"
| "text_lines acc (c # cs) =
     (if c = newline then (acc @ [newline]) # text_lines [] cs
      else if c = CHR 0x0D
      then (acc @ [newline]) # (case cs of [] \<Rightarrow> text_lines [] [] | e # es \<Rightarrow> if e = newline then text_lines [] es else text_lines [] (e # es))
      else text_lines (acc @ [c]) cs)"

fun read_lines ::
  "(bytes \<Rightarrow> string) \<Rightarrow> int \<Rightarrow> int \<Rightarrow> int \<Rightarrow> int \<Rightarrow> string list \<Rightarrow> string list \<Rightarrow> int \<Rightarrow> int \<Rightarrow> bool \<Rightarrow> string list \<times> int \<times> bool" where
  "read_lines decode start_line end_line max_bytes n [] selected total_now actual_end truncated = (selected, actual_end, truncated)"
| "read_lines decode start_line end_line max_bytes n (line # rest) selected total_now actual_end truncated =
     (if n < start_line then read_lines decode start_line end_line max_bytes (n + 1) rest selected total_now actual_end truncated
      else if n > end_line then (selected, actual_end, truncated)
      else let encoded_len = int (length (utf8_encode line))
      in if selected \<noteq> [] \<and> total_now + encoded_len > max_bytes then (selected, actual_end, True)
         else let was_cut = (selected = [] \<and> encoded_len > max_bytes);
                  line = (if was_cut then decode (take (nat max_bytes) (utf8_encode line)) else line)
              in read_lines decode start_line end_line max_bytes (n + 1) rest (selected @ [line])
                   (total_now + int (length (utf8_encode line))) n (truncated \<or> was_cut))"

definition read_line_range :: "(bytes \<Rightarrow> string) \<Rightarrow> bytes \<Rightarrow> int \<Rightarrow> int \<Rightarrow> int \<Rightarrow> string \<times> int \<times> bool" where
  "read_line_range decode content start_line end_line max_bytes =
     (case read_lines decode start_line end_line max_bytes 1 (text_lines [] (decode content)) [] 0 (start_line - 1) False of
        (selected, actual_end, truncated) \<Rightarrow> (concat selected, actual_end, truncated))"


section \<open>Tools\<close>

definition file_item :: "file_row \<Rightarrow> json" where
  "file_item row =
     JObj [(''path'', JStr (fr_path row)), (''type'', JStr (fr_entry_kind row)), (''size_bytes'', opt_int (fr_size_bytes row)),
           (''line_count'', opt_int (fr_line_count row)), (''is_binary'', JBool (fr_is_binary row)),
           (''is_large'', JBool (fr_is_large row))]"

text \<open>The path argument: a string is normalised, a false value is the root, anything else goes into the query as it is and fails there.\<close>

definition path_arg :: "json \<Rightarrow> tool_exception + string option" where
  "path_arg v =
     (case v of
        JStr s \<Rightarrow> if s = [] then Inr None else rbind (lift_cache (normalize_repo_path s)) (\<lambda>p. Inr (Some p))
      | _ \<Rightarrow> if truthy v then Inl TOther else Inr None)"

definition listing_page ::
  "(string \<times> json) list \<Rightarrow> int \<Rightarrow> (int \<Rightarrow> string option \<Rightarrow> string option \<Rightarrow> tool_exception + file_row list) \<Rightarrow>
   tool_exception + file_row list \<times> string option" where
  "listing_page arguments dflt query =
     rbind (int_arg arguments ''max_results'' dflt 1 100) (\<lambda>max_results.
     rbind (optional_glob (obj_get arguments ''glob'')) (\<lambda>glob.
     rbind (optional_cursor (obj_get arguments ''cursor'')) (\<lambda>cursor.
     rbind (query (max_results + 1) glob cursor) (\<lambda>rows.
       page_rows (visible_file_rows rows) max_results (obj_get arguments ''cursor'')))))"

definition listing_result ::
  "tool_context \<Rightarrow> string \<Rightarrow> tool_exception + file_row list \<times> string option \<Rightarrow> tool_state \<Rightarrow> ((string \<times> json) list) tool_result" where
  "listing_result ctx tool_name r st =
     (case r of
        Inl e \<Rightarrow> (st, Inl e)
      | Inr (items, next_cursor) \<Rightarrow>
          (case ok_with_ref ctx tool_name (JObj [(''items'', JList (map file_item items))]) [] (next_cursor \<noteq> None)
                  (opt_str next_cursor) [] st of
             (st1, body) \<Rightarrow> (st1, Inr body)))"

definition tool_list_files :: "tool_context \<Rightarrow> (string \<times> json) list \<Rightarrow> tool_state \<Rightarrow> ((string \<times> json) list) tool_result" where
  "tool_list_files ctx arguments st =
     listing_result ctx ''list_files''
       (rbind (path_arg (obj_get arguments ''path'')) (\<lambda>path.
          listing_page arguments 100 (\<lambda>limit glob cursor.
            list_files (ts_files st) (cx_snapshot_id ctx) path (truthy (obj_get_default arguments ''recursive'' (JBool False)))
              limit glob cursor))) st"

definition tool_search_file :: "tool_context \<Rightarrow> (string \<times> json) list \<Rightarrow> tool_state \<Rightarrow> ((string \<times> json) list) tool_result" where
  "tool_search_file ctx arguments st =
     listing_result ctx ''search_file''
       (listing_page arguments 50 (\<lambda>limit glob cursor.
          search_files (ts_files st) (cx_snapshot_id ctx) (py_str (obj_get_default arguments ''query'' (JStr [])))
            limit glob cursor)) st"

text \<open>The range of lines and the byte limit of a call of \<^verbatim>\<open>read_file\<close>, or its error: an exception or an error envelope.\<close>

datatype read_range = ReadRange int int int int | ReadError string

definition read_range_of :: "read_config \<Rightarrow> (string \<times> json) list \<Rightarrow> tool_exception + read_range" where
  "read_range_of config arguments =
     rbind (int_arg arguments ''start_line'' 1 1 2000000) (\<lambda>start_line.
     rbind (case obj_get arguments ''end_line'' of
              JNull \<Rightarrow> Inr (start_line + rc_default_lines config - 1)
            | requested_end \<Rightarrow> int_value requested_end) (\<lambda>end_line.
       if end_line < start_line then Inr (ReadError ''end_line must be greater than or equal to start_line.'')
       else let bounded_end = min end_line (start_line + rc_max_lines config - 1)
       in case int_arg arguments ''max_bytes'' (rc_max_bytes config) 1 (rc_max_bytes config) of
            Inl (TValueError m) \<Rightarrow> Inr (ReadError m)
          | Inl e \<Rightarrow> Inl e
          | Inr max_bytes \<Rightarrow> Inr (ReadRange start_line end_line bounded_end max_bytes)))"

definition readable :: "file_row \<Rightarrow> bool" where
  "readable row =
     (\<not> fr_is_binary row \<and> \<not> fr_is_large row \<and> (case fr_content_key row of None \<Rightarrow> False | Some k \<Rightarrow> k \<noteq> []))"

definition finish_read ::
  "tool_env \<Rightarrow> draws \<Rightarrow> tool_context \<Rightarrow> file_row \<Rightarrow> string \<Rightarrow> int \<Rightarrow> int \<Rightarrow> int \<Rightarrow> int \<Rightarrow> bytes \<Rightarrow> tool_state \<Rightarrow>
   tool_state \<times> (string \<times> json) list" where
  "finish_read env d ctx row path start_line end_line bounded_end max_bytes content st =
     (case read_line_range (tv_decode env) content start_line bounded_end max_bytes of
        (selected, actual_end, was_cut) \<Rightarrow>
          let truncated = (was_cut \<or> end_line > bounded_end);
              snippet_ref = evidence_key (new_id d 0);
              st1 = st\<lparr>ts_storage := put_bytes (ts_storage st) snippet_ref (utf8_encode selected) ''text/plain; charset=utf-8''\<rparr>;
              st2 = add_evidence d 0 ctx path start_line actual_end (fr_content_hash row) selected snippet_ref st1
          in ok_with_ref ctx ''read_file''
               (JObj [(''path'', JStr path), (''start_line'', JInt start_line), (''end_line'', JInt actual_end),
                      (''content'', JStr selected)])
               [uuid_str (new_id d 0)] truncated (if truncated then JInt (actual_end + 1) else JNull) [] st2)"

definition tool_read_file ::
  "tool_env \<Rightarrow> draws \<Rightarrow> read_config \<Rightarrow> tool_context \<Rightarrow> (string \<times> json) list \<Rightarrow> tool_state \<Rightarrow> ((string \<times> json) list) tool_result" where
  "tool_read_file env d config ctx arguments st =
     (case map_of arguments ''path'' of
        None \<Rightarrow> (st, Inl (TKeyError ''path''))
      | Some raw \<Rightarrow>
          (case normalize_repo_path (py_str raw) of
             Inl e \<Rightarrow> (st, Inl (cache_exception e))
           | Inr path \<Rightarrow>
               (case get_file (ts_files st) (cx_snapshot_id ctx) path of
                  None \<Rightarrow> (st, Inr (tool_error_envelope ''read_file'' ''PATH_NOT_FOUND''
                             (''No file exists at '' @ path @ '' in this snapshot.'') False))
                | Some row \<Rightarrow>
                    if \<not> readable row
                    then (st, Inr (tool_error_envelope ''read_file'' ''FILE_NOT_READABLE'' (''File is not readable: '' @ path) False))
                    else (case ensure_file env (cx_snapshot_id ctx) row st of
                      (st1, Inl e) \<Rightarrow> (st1, Inl e)
                    | (st1, Inr target) \<Rightarrow>
                        (case read_range_of config arguments of
                           Inl e \<Rightarrow> (st1, Inl e)
                         | Inr (ReadError m) \<Rightarrow> (st1, Inr (tool_error_envelope ''read_file'' ''INVALID_ARGUMENTS'' m False))
                         | Inr (ReadRange start_line end_line bounded_end max_bytes) \<Rightarrow>
                             (case lift_cache (read_bytes (ts_fs st1) target) of
                                Inl e \<Rightarrow> (st1, Inl e)
                              | Inr content \<Rightarrow>
                                  (case finish_read env d ctx row path start_line end_line bounded_end max_bytes content st1 of
                                     (st2, body) \<Rightarrow> (st2, Inr body))))))))"

section \<open>Searching text\<close>

text \<open>
  The arguments of ripgrep and the treatment of its output: one decoded JSON value for each line, \<open>None\<close> for a line
  that is not JSON. The process itself returns the lines, whether its output was cut, and its return code.
\<close>

definition ripgrep_args ::
  "(string \<times> json) list \<Rightarrow> int \<Rightarrow> string \<Rightarrow> string option \<Rightarrow> string \<Rightarrow> string \<Rightarrow> string list" where
  "ripgrep_args arguments context_lines mode path_glob query search_root =
     [''rg'', ''--json'', ''--line-number'', ''--column'', ''--hidden'', ''--no-ignore'', ''--no-ignore-global''] @
     (if context_lines \<noteq> 0 then [''-C'', show_int context_lines] else []) @
     (if truthy (obj_get_default arguments ''case_sensitive'' (JBool False)) then [] else [''-i'']) @
     (if mode = ''literal'' then [''--fixed-strings''] else []) @
     (case path_glob of None \<Rightarrow> [] | Some g \<Rightarrow> [''-g'', g]) @ [''-e'', query, ''--'', search_root]"

record rg_match =
  rg_path :: string
  rg_line :: int
  rg_text :: string

text \<open>\<^verbatim>\<open>match_path.relative_to(root).as_posix()\<close>\<close>

definition relative_to_root :: "fs_path \<Rightarrow> string \<Rightarrow> string option" where
  "relative_to_root root raw =
     (let p = posix_parse raw
      in if pp_root p = ''/'' \<and> take (length root) (pp_parts p) = root
         then Some (as_posix \<lparr>pp_root = [], pp_parts = drop (length root) (pp_parts p)\<rparr>) else None)"

definition json_object :: "json \<Rightarrow> (string \<times> json) list option" where
  "json_object v = (case v of JObj d \<Rightarrow> Some d | _ \<Rightarrow> None)"

definition json_object_list :: "json \<Rightarrow> (string \<times> json) list list" where
  "json_object_list v = (case v of JList xs \<Rightarrow> List.map_filter json_object xs | _ \<Rightarrow> [])"

definition is_match :: "json option \<Rightarrow> bool" where
  "is_match line = (case line of Some (JObj e) \<Rightarrow> obj_get e ''type'' = JStr ''match'' | _ \<Rightarrow> False)"

text \<open>The fields of a match event; \<open>None\<close> where the code gives up on the output.\<close>

definition match_of :: "(string \<times> json) list \<Rightarrow> rg_match option" where
  "match_of event =
     (case obj_get event ''data'' of
        JObj dat \<Rightarrow>
          (case (obj_get dat ''path'', obj_get dat ''lines'') of
             (JObj p, JObj l) \<Rightarrow>
               (case (obj_get p ''text'', obj_get dat ''line_number'', obj_get l ''text'') of
                  (JStr raw_path, JInt n, JStr raw_text) \<Rightarrow> Some \<lparr>rg_path = raw_path, rg_line = n, rg_text = raw_text\<rparr>
                | (JStr raw_path, JBool b, JStr raw_text) \<Rightarrow>
                    Some \<lparr>rg_path = raw_path, rg_line = (if b then 1 else 0), rg_text = raw_text\<rparr>
                | _ \<Rightarrow> None)
           | _ \<Rightarrow> None)
      | _ \<Rightarrow> None)"

record match_state =
  ms_matches :: "rg_match list"
  ms_seen :: int
  ms_cut :: bool
  ms_outside :: bool

fun collect_matches :: "fs_path \<Rightarrow> int \<Rightarrow> int \<Rightarrow> json option list \<Rightarrow> match_state \<Rightarrow> match_state" where
  "collect_matches root offset max_results [] ms = ms"
| "collect_matches root offset max_results (line # rest) ms =
     (case line of
        None \<Rightarrow> ms\<lparr>ms_cut := True\<rparr>
      | Some v \<Rightarrow>
          if \<not> is_match (Some v) then collect_matches root offset max_results rest ms
          else if ms_seen ms < offset then collect_matches root offset max_results rest (ms\<lparr>ms_seen := ms_seen ms + 1\<rparr>)
          else (case Option.bind (json_object v) match_of of
            None \<Rightarrow> ms\<lparr>ms_cut := True\<rparr>
          | Some m \<Rightarrow>
              (case relative_to_root root (rg_path m) of
                 None \<Rightarrow> ms\<lparr>ms_outside := True\<rparr>
               | Some rel \<Rightarrow>
                   if int (length (ms_matches ms)) \<ge> max_results then ms\<lparr>ms_seen := ms_seen ms + 1\<rparr>
                   else collect_matches root offset max_results rest
                          (ms\<lparr>ms_matches := ms_matches ms @ [m\<lparr>rg_path := rel\<rparr>], ms_seen := ms_seen ms + 1\<rparr>))))"

fun store_matches :: "draws \<Rightarrow> nat \<Rightarrow> tool_context \<Rightarrow> rg_match list \<Rightarrow> tool_state \<Rightarrow> tool_state" where
  "store_matches d k ctx [] st = st"
| "store_matches d k ctx (m # ms) st =
     (let snippet_ref = evidence_key (new_id d k);
          st1 = st\<lparr>ts_storage := put_bytes (ts_storage st) snippet_ref (utf8_encode (rg_text m)) ''text/plain; charset=utf-8''\<rparr>
      in store_matches d (Suc k) ctx ms
           (add_evidence d k ctx (rg_path m) (rg_line m) (rg_line m) None (rg_text m) snippet_ref st1))"

definition match_json :: "rg_match \<Rightarrow> json" where
  "match_json m =
     JObj [(''path'', JStr (rg_path m)), (''line_number'', JInt (rg_line m)),
           (''text'', JStr (rstrip_by (\<lambda>c. c = newline) (rg_text m)))]"

definition trim_error_output :: "string \<Rightarrow> string" where
  "trim_error_output value = take 4096 (replace_char newline (CHR '' '') (replace_char (CHR 0x0D) (CHR '' '') value))"

text \<open>\<open>rg\<close> runs the command and gives the lines of its output, whether they were cut, the return code and the error text,
  or raises because the command is missing or too slow.\<close>

type_synonym ripgrep = "string list \<Rightarrow> filesystem \<Rightarrow> tool_exception + json option list \<times> bool \<times> int \<times> string"

definition finish_search ::
  "draws \<Rightarrow> tool_context \<Rightarrow> fs_path \<Rightarrow> int \<Rightarrow> int \<Rightarrow> json option list \<Rightarrow> bool \<Rightarrow> tool_state \<Rightarrow> tool_state \<times> (string \<times> json) list" where
  "finish_search d ctx root offset max_results lines was_cut st =
     (let ms = collect_matches root offset max_results lines \<lparr>ms_matches = [], ms_seen = 0, ms_cut = was_cut, ms_outside = False\<rparr>;
          st1 = store_matches d 0 ctx (ms_matches ms) st;
          n = int (length (ms_matches ms));
          next_cursor = (if ms_seen ms > offset + n then Some (show_int (offset + n)) else None)
      in if ms_outside ms
         then (st1, tool_error_envelope ''search_text'' ''SEARCH_TEXT_FAILED'' ''ripgrep returned a path outside the snapshot cache'' False)
         else ok_with_ref ctx ''search_text'' (JObj [(''matches'', JList (map match_json (ms_matches ms)))])
                (map (\<lambda>k. uuid_str (new_id d k)) [0..<length (ms_matches ms)]) (ms_cut ms \<or> next_cursor \<noteq> None)
                (opt_str next_cursor) [] st1)"

text \<open>\<^verbatim>\<open>root / Path(*prefix.strip("/").split("/"))\<close>\<close>

definition search_root_of :: "fs_path \<Rightarrow> string \<Rightarrow> fs_path" where
  "search_root_of root pre =
     (if pre = [] then root else root @ filter (\<lambda>p. p \<noteq> []) (split_on (CHR ''/'') (strip_by (\<lambda>c. c = CHR ''/'') pre)))"

definition search_error :: "string \<Rightarrow> (string \<times> json) list" where
  "search_error m = tool_error_envelope ''search_text'' ''INVALID_ARGUMENTS'' m False"

text \<open>The search after the prefix has been made available.\<close>

definition run_search ::
  "draws \<Rightarrow> ripgrep \<Rightarrow> tool_context \<Rightarrow> fs_path \<Rightarrow> string \<Rightarrow> string \<Rightarrow> string \<Rightarrow> int \<Rightarrow> (string \<times> json) list \<Rightarrow> tool_state \<Rightarrow>
   ((string \<times> json) list) tool_result" where
  "run_search d rg ctx root pre query mode max_results arguments st =
     (case rbind (int_arg arguments ''context_lines'' 0 0 5) (\<lambda>context_lines.
             rbind (optional_glob (obj_get arguments ''path_glob'')) (\<lambda>path_glob.
               rg (ripgrep_args arguments context_lines mode path_glob query
                     (''/'' @ join_with ''/'' (search_root_of root pre))) (ts_fs st))) of
        Inl e \<Rightarrow> (st, Inl e)
      | Inr (lines, was_cut, returncode, err) \<Rightarrow>
          (if returncode \<noteq> 0 \<and> returncode \<noteq> 1
           then (st, Inr (tool_error_envelope ''search_text'' ''SEARCH_TEXT_FAILED'' (trim_error_output err) False))
           else (case tool_cursor_offset (obj_get arguments ''cursor'') of
                   Inl e \<Rightarrow> (st, Inl e)
                 | Inr offset \<Rightarrow>
                     (case finish_search d ctx root offset max_results lines was_cut st of (st1, body) \<Rightarrow> (st1, Inr body)))))"

definition prefix_arg :: "json \<Rightarrow> tool_exception + string" where
  "prefix_arg v = (case v of JStr s \<Rightarrow> lift_cache (normalize_prefix s) | _ \<Rightarrow> if truthy v then Inl TOther else Inr [])"

definition tool_search_text ::
  "tool_env \<Rightarrow> draws \<Rightarrow> ripgrep \<Rightarrow> search_config \<Rightarrow> cache_config \<Rightarrow> tool_context \<Rightarrow> (string \<times> json) list \<Rightarrow> tool_state \<Rightarrow>
   ((string \<times> json) list) tool_result" where
  "tool_search_text env d rg config cconfig ctx arguments st =
     (let query = str_or (obj_get arguments ''query'') [];
          mode = str_or (obj_get arguments ''mode'') ''regex'';
          root = files_root (tv_root_dir env) (cx_snapshot_id ctx)
      in if py_strip query = [] then (st, Inr (search_error ''search_text query must not be empty.''))
         else if mode \<noteq> ''regex'' \<and> mode \<noteq> ''literal'' then (st, Inr (search_error ''search_text mode must be regex or literal.''))
         else (case rbind (prefix_arg (obj_get arguments ''path_prefix'')) (\<lambda>pre.
                      rbind (int_arg arguments ''max_results'' (sx_max_results config) 1 (sx_max_results config)) (\<lambda>m. Inr (pre, m))) of
                 Inl e \<Rightarrow> (st, Inl e)
               | Inr (pre, max_results) \<Rightarrow>
                   (case ensure_prefix env cconfig (cx_snapshot_id ctx) pre st of
                      (st1, Inl e) \<Rightarrow> (st1, Inl e)
                    | (st1, Inr _) \<Rightarrow> run_search d rg ctx root pre query mode max_results arguments st1)))"

end
