(* ===== verification/Source_Tool_Safety.thy ===== *)
theory Source_Tool_Safety
  imports Source_Tools
begin

text \<open>
  What the source tools guarantee: the limits of a range of lines, that \<^verbatim>\<open>read_file\<close> returns and stores public text of
  the scanned tree only, and when the coverage file of a snapshot tells the truth. The last section
  shows four inputs on which the tools do not do what they mean to.
\<close>

section \<open>Ranges of lines\<close>

definition lines_bytes :: "string list \<Rightarrow> int" where
  "lines_bytes ls = int (length (utf8_encode (concat ls)))"

lemma lines_bytes_simps [simp]:
  "lines_bytes [] = 0" "lines_bytes (l # ls) = int (length (utf8_encode l)) + lines_bytes ls"
  "lines_bytes (ls @ ms) = lines_bytes ls + lines_bytes ms"
  by (simp_all add: lines_bytes_def utf8_encode_def)

lemma read_lines_skip:
  "n \<le> start \<Longrightarrow> read_lines dec start e m n ls sel t ae tr = read_lines dec start e m start (drop (nat (start - n)) ls) sel t ae tr"
proof (induction ls arbitrary: n)
  case (Cons l ls)
  show ?case
  proof (cases "n < start")
    case True
    then have "nat (start - n) = Suc (nat (start - (n + 1)))" by simp
    with Cons.IH [of "n + 1"] True show ?thesis by simp
  next
    case False
    with Cons.prems show ?thesis by simp
  qed
qed simp

lemma read_lines_select:
  assumes "start \<le> n" "sel = [] \<longrightarrow> t = 0 \<and> (ls = [] \<or> int (length (utf8_encode (hd ls))) \<le> m)" "t \<le> m"
  shows "\<exists>k \<le> length ls. read_lines dec start e m n ls sel t (n - 1) tr =
      (sel @ take k ls, n - 1 + int k, tr \<or> k < length ls \<and> n + int k \<le> e) \<and>
    int k \<le> max 0 (e - n + 1) \<and> t + lines_bytes (take k ls) \<le> m \<and>
    (k < length ls \<and> n + int k \<le> e \<longrightarrow> m < t + lines_bytes (take (Suc k) ls))"
  using assms
proof (induction ls arbitrary: n sel t tr)
  case (Cons l ls)
  let ?len = "int (length (utf8_encode l))"
  consider "n > e" | "n \<le> e" "sel \<noteq> []" "t + ?len > m" | "n \<le> e" "sel = [] \<or> t + ?len \<le> m" by fastforce
  then show ?case
  proof cases
    case 1
    with Cons.prems show ?thesis by (intro exI [of _ 0]) simp
  next
    case 2
    with Cons.prems show ?thesis by (intro exI [of _ 0]) simp
  next
    case 3
    with Cons.prems have fits: "t + ?len \<le> m" "\<not> (sel = [] \<and> m < ?len)" by auto
    have step: "read_lines dec start e m n (l # ls) sel t (n - 1) tr =
        read_lines dec start e m (n + 1) ls (sel @ [l]) (t + ?len) (n + 1 - 1) tr"
      using Cons.prems(1) 3(1) fits by (auto simp: Let_def)
    obtain k where "k \<le> length ls" "read_lines dec start e m (n + 1) ls (sel @ [l]) (t + ?len) (n + 1 - 1) tr =
          ((sel @ [l]) @ take k ls, n + 1 - 1 + int k, tr \<or> k < length ls \<and> n + 1 + int k \<le> e)"
        "int k \<le> max 0 (e - (n + 1) + 1)" "t + ?len + lines_bytes (take k ls) \<le> m"
        "k < length ls \<and> n + 1 + int k \<le> e \<longrightarrow> m < t + ?len + lines_bytes (take (Suc k) ls)"
      using Cons.IH [of "n + 1" "sel @ [l]" "t + ?len" tr] Cons.prems(1) fits(1) by auto
    with step 3(1) show ?thesis by (intro exI [of _ "Suc k"]) (auto simp: algebra_simps)
  qed
qed simp

text \<open>
  A range of lines is cut only at line ends and only for its size. If the first line of the range fits into the
  byte limit, the text is a whole number of consecutive lines from the first one on, no more than asked for and
  no larger than the limit, and the last line number returned is theirs. It is reported as truncated exactly if
  the range was not finished, and then the next line would have exceeded the limit.
\<close>
theorem read_range_bounds:
  assumes "1 \<le> start" "start \<le> e" "1 \<le> m"
    and "first = drop (nat (start - 1)) (text_lines [] (dec content))"
    and "first = [] \<or> int (length (utf8_encode (hd first))) \<le> m"
  shows "\<exists>k \<le> length first. read_line_range dec content start e m =
      (concat (take k first), start - 1 + int k, k < length first \<and> start + int k \<le> e) \<and>
    int k \<le> e - start + 1 \<and> int (length (utf8_encode (concat (take k first)))) \<le> m \<and>
    (k < length first \<and> start + int k \<le> e \<longrightarrow> m < int (length (utf8_encode (concat (take (Suc k) first)))))"
proof -
  have r: "read_line_range dec content start e m =
      (case read_lines dec start e m start first [] 0 (start - 1) False of (s, ae, tr) \<Rightarrow> (concat s, ae, tr))"
    using read_lines_skip [of 1 start] assms(1,4) by (simp add: read_line_range_def)
  obtain k where "k \<le> length first" "read_lines dec start e m start first [] 0 (start - 1) False =
        (take k first, start - 1 + int k, k < length first \<and> start + int k \<le> e)"
      "int k \<le> max 0 (e - start + 1)" "lines_bytes (take k first) \<le> m"
      "k < length first \<and> start + int k \<le> e \<longrightarrow> m < lines_bytes (take (Suc k) first)"
    using read_lines_select [of start start "[]" 0 first m dec e False] assms(3,5) by auto
  with r assms(2) show ?thesis unfolding lines_bytes_def by (intro exI [of _ k]) simp
qed

definition sample_text :: bytes where
  "sample_text = ''ab'' @ [newline] @ ''cd'' @ [newline] @ ''ef''"

theorem read_range_bounds_witness:
  "\<exists>k. read_line_range id sample_text 2 3 4 = (concat (take k [''cd'' @ [newline], ''ef'']), 1 + int k, k < 2 \<and> 2 + int k \<le> 3) \<and>
     int (length (utf8_encode (concat (take k [''cd'' @ [newline], ''ef''])))) \<le> 4"
proof -
  define first where "first = [''cd'' @ [newline], ''ef'']"
  have f: "first = drop (nat (2 - 1)) (text_lines [] (id sample_text))" unfolding first_def by code_simp
  have "int (length (utf8_encode (hd first))) \<le> 4" unfolding first_def by code_simp
  moreover have "length first = 2" by (simp add: first_def)
  ultimately show ?thesis using read_range_bounds [of 2 3 4 first id sample_text, OF _ _ _ f] unfolding first_def [symmetric] by auto
qed

text \<open>A request that reaches beyond the line limit is always reported as truncated, also past the end of the file.\<close>

lemma ok_with_ref_body:
  "snd (ok_with_ref ctx n res ev tr nc sc st) =
   tool_success_envelope n (cx_snapshot_id ctx) res ev tr nc sc @ [(''result_ref'', JStr (tool_result_key (cx_tool_call_id ctx)))]"
  unfolding ok_with_ref_def Let_def snd_conv ..

lemma success_fields [simp]:
  "obj_get (tool_success_envelope n s res ev tr nc sc @ rest) ''ok'' = JBool True"
  "obj_get (tool_success_envelope n s res ev tr nc sc @ rest) ''result'' = res"
  "obj_get (tool_success_envelope n s res ev tr nc sc @ rest) ''truncated'' = JBool tr"
  "obj_get (tool_success_envelope n s res ev tr nc sc @ rest) ''next_cursor'' = nc"
  "obj_get (tool_error_envelope n c m b) ''ok'' = JBool False"
  by (simp_all add: tool_success_envelope_def tool_error_envelope_def obj_get_def)

lemma read_past_end_truncated:
  "bounded_end < end_line \<Longrightarrow>
   obj_get (snd (finish_read env d ctx row path start_line end_line bounded_end m content st)) ''truncated'' = JBool True"
  by (simp only: finish_read_def Let_def split_beta ok_with_ref_body success_fields) simp

section \<open>Reading a file\<close>

lemma is_sha256_hash_bytes: "is_sha256_hash (sha256_bytes b)"
proof -
  have "list_all (\<lambda>d. hex_char d \<in> set ''0123456789abcdefABCDEF'') [0..<16]" by code_simp
  then have "hex_char d \<in> set ''0123456789abcdefABCDEF''" if "d < 16" for d using that by (simp add: list_all_iff)
  then have "list_all (\<lambda>c. c \<in> set ''0123456789abcdefABCDEF'') (sha256_hexdigest b)"
    by (force simp: list_all_iff sha256_hexdigest_def dest!: hex_char_set)
  then show ?thesis by (simp add: is_sha256_hash_def sha256_bytes_def starts_with_def sha256_hexdigest_length)
qed

lemma hash_matches_recorded: "hash_matches data (Some (sha256_bytes c)) \<longleftrightarrow> sha256_bytes data = sha256_bytes c"
  using is_sha256_hash_bytes [of c] by (auto simp: hash_matches_def) (auto simp: sha256_bytes_def)

lemma cache_write_result:
  assumes "cache_write env s p data st = (st', Inr target)"
  shows "file_path (tv_root_dir env) s p = Inr target" "read_bytes (ts_fs st') target = Inr data"
    "ts_storage st' = ts_storage st" "ts_files st' = ts_files st" "ts_coverage st' = ts_coverage st"
proof -
  obtain fs where w: "write_file (tv_root_dir env) s p data (ts_fs st) = (fs, Inr target)" and st': "st' = st\<lparr>ts_fs := fs\<rparr>"
    using assms by (auto simp: cache_write_def lift_cache_def split: prod.splits sum.splits)
  show f: "file_path (tv_root_dir env) s p = Inr target" using write_file_fails [OF w] by simp
  obtain fs1 where "fs = fs1(tmp_path target := None, target \<mapsto> Regular data)"
    using write_file_steps [OF f, of "ts_fs st" data] write_file_fails [OF w] w by auto
  then show "read_bytes (ts_fs st') target = Inr data" by (simp add: st' read_bytes_def)
  show "ts_storage st' = ts_storage st" "ts_files st' = ts_files st" "ts_coverage st' = ts_coverage st" by (simp_all add: st')
qed

text \<open>
  However a write ends, it leaves at most one new file, with the data under the name of the target or of its temporary
  file; only the target and the temporary file may have changed or gone.
\<close>

lemma make_dirs_regular: "make_dirs fs done cs = (fs', r) \<Longrightarrow> fs' q = Some (Regular b) \<longleftrightarrow> fs q = Some (Regular b)"
  using make_dirs_keeps [of fs "done" cs fs' r q] make_dirs_new [of fs "done" cs fs' r q] by (cases "fs q") auto

lemma write_file_shape:
  assumes "write_file root s p data fs = (fs', r)" "file_path root s p = Inr t"
  shows "\<exists>fs1. (\<forall>q b. fs1 q = Some (Regular b) \<longleftrightarrow> fs q = Some (Regular b)) \<and>
    (fs' = fs1 \<or> fs' = fs1(tmp_path t \<mapsto> Regular data) \<or> fs' = fs1(tmp_path t := None, t \<mapsto> Regular data))"
proof -
  obtain fs1 m where m: "make_dirs fs [] (butlast t) = (fs1, m)" by (cases rule: prod.exhaust)
  have "fs' = fs1 \<or> fs' = fs1(tmp_path t \<mapsto> Regular data) \<or> fs' = fs1(tmp_path t := None, t \<mapsto> Regular data)"
    using assms m by (auto simp: write_file_def write_bytes_def replace_file_def split: sum.splits if_splits)
  with make_dirs_regular [OF m] show ?thesis by blast
qed

lemma cache_write_state:
  assumes "cache_write env s p data st = (st', r)"
  shows "\<exists>fs. st' = st\<lparr>ts_fs := fs\<rparr>"
    "ts_fs st' q = Some (Regular b) \<Longrightarrow> ts_fs st q = Some (Regular b) \<or> b = data"
proof -
  obtain fs r0 where w: "write_file (tv_root_dir env) s p data (ts_fs st) = (fs, r0)" and st': "st' = st\<lparr>ts_fs := fs\<rparr>"
    using assms by (auto simp: cache_write_def split: prod.splits)
  then show "\<exists>fs. st' = st\<lparr>ts_fs := fs\<rparr>" by blast
  show "ts_fs st q = Some (Regular b) \<or> b = data" if "ts_fs st' q = Some (Regular b)"
  proof (cases "file_path (tv_root_dir env) s p")
    case (Inl e)
    with w that st' show ?thesis by (auto simp: write_file_def)
  next
    case (Inr t)
    from write_file_shape [OF w this] that st' show ?thesis by (auto split: if_splits)
  qed
qed

lemma fetch_content_hash:
  "fetch_content storage row = Inr data \<Longrightarrow> hash_matches data (fr_content_hash row) \<and> (\<exists>k. fr_content_key row = Some k \<and> get_bytes storage k = Some data)"
  by (auto simp: fetch_content_def split: option.splits if_splits)

lemma ensure_file_result:
  assumes "ensure_file env s row st = (st', Inr target)"
  shows "\<exists>data. read_bytes (ts_fs st') target = Inr data \<and> hash_matches data (fr_content_hash row)"
  using assms
  by (auto simp: ensure_file_def split: sum.splits if_splits dest!: fetch_content_hash cache_write_result(2))

text \<open>What bringing one file into the worker's copy may change: files with the recorded hash appear, nothing else.\<close>

definition copies_hashed :: "string option \<Rightarrow> tool_state \<Rightarrow> tool_state \<Rightarrow> bool" where
  "copies_hashed h st st' \<longleftrightarrow>
     ts_files st' = ts_files st \<and> ts_storage st' = ts_storage st \<and> ts_coverage st' = ts_coverage st \<and> ts_evidence st' = ts_evidence st \<and>
     (\<forall>q b. ts_fs st' q = Some (Regular b) \<longrightarrow> ts_fs st q = Some (Regular b) \<or> hash_matches b h)"

lemma ensure_file_state:
  assumes "ensure_file env s row st = (st', r)"
  shows "copies_hashed (fr_content_hash row) st st'"
proof -
  have "copies_hashed (fr_content_hash row) st st1"
    if "fetch_content (ts_storage st) row = Inr data" "cache_write env s (fr_path row) data st = (st1, r1)" for data st1 r1
    using cache_write_state [OF that(2)] fetch_content_hash [OF that(1)] by (auto simp: copies_hashed_def)
  moreover have "copies_hashed (fr_content_hash row) st st" by (simp add: copies_hashed_def)
  ultimately show ?thesis using assms by (auto simp: ensure_file_def split: sum.splits if_splits)
qed

lemma int_arg_bounds: "int_arg arguments n dflt lo hi = Inr v \<Longrightarrow> lo \<le> v \<and> v \<le> hi"
  by (auto simp: int_arg_def rbind_eq_Inr split: if_splits)

lemma read_range_of_bounds:
  assumes "read_range_of config arguments = Inr (ReadRange s e b m)"
  shows "1 \<le> s" "s \<le> e" "b = min e (s + rc_max_lines config - 1)" "1 \<le> m" "m \<le> rc_max_bytes config"
proof -
  from assms have "1 \<le> s \<and> s \<le> e \<and> b = min e (s + rc_max_lines config - 1) \<and> 1 \<le> m \<and> m \<le> rc_max_bytes config"
    by (auto simp: read_range_of_def rbind_eq_Inr Let_def dest!: int_arg_bounds
        split: if_splits sum.splits tool_exception.splits)
  then show "1 \<le> s" "s \<le> e" "b = min e (s + rc_max_lines config - 1)" "1 \<le> m" "m \<le> rc_max_bytes config" by simp_all
qed

text \<open>The result of a successful read and what it writes, over the selected lines.\<close>

definition read_body :: "draws \<Rightarrow> tool_context \<Rightarrow> string \<Rightarrow> int \<Rightarrow> int \<Rightarrow> string \<Rightarrow> bool \<Rightarrow> (string \<times> json) list" where
  "read_body d ctx path start_line actual_end selected truncated =
     tool_success_envelope ''read_file'' (cx_snapshot_id ctx)
       (JObj [(''path'', JStr path), (''start_line'', JInt start_line), (''end_line'', JInt actual_end), (''content'', JStr selected)])
       [uuid_str (new_id d 0)] truncated (if truncated then JInt (actual_end + 1) else JNull) []"

definition read_evidence :: "draws \<Rightarrow> tool_context \<Rightarrow> string \<Rightarrow> int \<Rightarrow> int \<Rightarrow> bytes \<Rightarrow> evidence_row" where
  "read_evidence d ctx path start_line actual_end content =
     \<lparr>ev_id = new_id d 0, ev_agent_id = cx_agent_id ctx, ev_snapshot_id = cx_snapshot_id ctx, ev_tool_call_id = cx_tool_call_id ctx,
      ev_path = path, ev_start_line = Some start_line, ev_end_line = Some actual_end, ev_content_hash = Some (sha256_bytes content),
      ev_snippet_ref = Some (evidence_key (new_id d 0)), ev_created_at = now d\<rparr>"

definition read_writes :: "draws \<Rightarrow> tool_context \<Rightarrow> string \<Rightarrow> (string \<times> json) list \<Rightarrow> object_store \<Rightarrow> object_store \<Rightarrow> bool" where
  "read_writes d ctx selected body storage storage' \<longleftrightarrow>
     (\<forall>k. get_bytes storage' k =
        (if k = tool_result_key (cx_tool_call_id ctx) then Some (utf8_encode (json_dumps '', '' '': '' (json_sorted (JObj body))))
         else if k = evidence_key (new_id d 0) then Some (utf8_encode selected) else get_bytes storage k))"

definition read_error :: "read_config \<Rightarrow> (string \<times> json) list \<Rightarrow> string \<Rightarrow> (string \<times> json) list \<Rightarrow> bool" where
  "read_error config arguments path body \<longleftrightarrow>
     body = tool_error_envelope ''read_file'' ''PATH_NOT_FOUND'' (''No file exists at '' @ path @ '' in this snapshot.'') False \<or>
     body = tool_error_envelope ''read_file'' ''FILE_NOT_READABLE'' (''File is not readable: '' @ path) False \<or>
     (\<exists>m. read_range_of config arguments = Inr (ReadError m) \<and>
        body = tool_error_envelope ''read_file'' ''INVALID_ARGUMENTS'' m False)"

definition requested_path :: "(string \<times> json) list \<Rightarrow> string \<Rightarrow> bool" where
  "requested_path arguments path \<longleftrightarrow>
     (\<exists>raw. map_of arguments ''path'' = Some raw \<and> normalize_repo_path (py_str raw) = Inr path)"

text \<open>The read of a path is that of lines of some bytes with the hash of a public blob, and the result and all writes are theirs.\<close>

definition public_read ::
  "int \<Rightarrow> content_source \<Rightarrow> tree_entry list \<Rightarrow> tool_env \<Rightarrow> draws \<Rightarrow> read_config \<Rightarrow> tool_context \<Rightarrow> string \<Rightarrow>
   tool_state \<Rightarrow> tool_state \<Rightarrow> (string \<times> json) list \<Rightarrow> bool" where
  "public_read limit src entries env d config ctx path st st' body \<longleftrightarrow>
     (\<exists>content c s e b m selected actual_end was_cut.
        tree_content limit src entries path c \<and> sha256_bytes content = sha256_bytes c \<and>
        1 \<le> s \<and> b \<le> s + rc_max_lines config - 1 \<and> 1 \<le> m \<and> m \<le> rc_max_bytes config \<and>
        read_line_range (tv_decode env) content s b m = (selected, actual_end, was_cut) \<and>
        body = read_body d ctx path s actual_end selected (was_cut \<or> b < e) @
          [(''result_ref'', JStr (tool_result_key (cx_tool_call_id ctx)))] \<and>
        ts_evidence st' = ts_evidence st @ [read_evidence d ctx path s actual_end content] \<and>
        read_writes d ctx selected (read_body d ctx path s actual_end selected (was_cut \<or> b < e)) (ts_storage st) (ts_storage st'))"

lemma evidence_key_nonempty: "evidence_key i \<noteq> []"
  by (simp add: evidence_key_def)

lemma finish_read_effect:
  assumes "finish_read env d ctx row path s e b m content st = (st', body)" "fr_content_hash row = Some (sha256_bytes content)"
    "read_line_range (tv_decode env) content s b m = (selected, actual_end, was_cut)"
  shows "body = read_body d ctx path s actual_end selected (was_cut \<or> b < e) @
      [(''result_ref'', JStr (tool_result_key (cx_tool_call_id ctx)))]"
    "ts_evidence st' = ts_evidence st @ [read_evidence d ctx path s actual_end content]"
    "read_writes d ctx selected (read_body d ctx path s actual_end selected (was_cut \<or> b < e)) (ts_storage st) (ts_storage st')"
    "ts_files st' = ts_files st" "ts_fs st' = ts_fs st" "ts_coverage st' = ts_coverage st"
proof -
  let ?body = "read_body d ctx path s actual_end selected (was_cut \<or> b < e)"
  have eq: "(st', body) = ok_with_ref ctx ''read_file''
      (JObj [(''path'', JStr path), (''start_line'', JInt s), (''end_line'', JInt actual_end), (''content'', JStr selected)])
      [uuid_str (new_id d 0)] (was_cut \<or> b < e) (if was_cut \<or> b < e then JInt (actual_end + 1) else JNull) []
      (add_evidence d 0 ctx path s actual_end (Some (sha256_bytes content)) selected (evidence_key (new_id d 0))
        (st\<lparr>ts_storage := put_bytes (ts_storage st) (evidence_key (new_id d 0)) (utf8_encode selected) ''text/plain; charset=utf-8''\<rparr>))"
    using assms(1) by (simp only: finish_read_def assms(2,3) prod.case Let_def)
  show "body = ?body @ [(''result_ref'', JStr (tool_result_key (cx_tool_call_id ctx)))]"
    using arg_cong [OF eq, of snd] by (simp only: ok_with_ref_body snd_conv read_body_def)
  have st': "st' = fst (ok_with_ref ctx ''read_file''
      (JObj [(''path'', JStr path), (''start_line'', JInt s), (''end_line'', JInt actual_end), (''content'', JStr selected)])
      [uuid_str (new_id d 0)] (was_cut \<or> b < e) (if was_cut \<or> b < e then JInt (actual_end + 1) else JNull) []
      (add_evidence d 0 ctx path s actual_end (Some (sha256_bytes content)) selected (evidence_key (new_id d 0))
        (st\<lparr>ts_storage := put_bytes (ts_storage st) (evidence_key (new_id d 0)) (utf8_encode selected) ''text/plain; charset=utf-8''\<rparr>)))"
    using arg_cong [OF eq, of fst] by (simp only: fst_conv)
  show "ts_evidence st' = ts_evidence st @ [read_evidence d ctx path s actual_end content]"
    unfolding st' ok_with_ref_def Let_def fst_conv by (simp add: add_evidence_def read_evidence_def evidence_key_nonempty)
  show "read_writes d ctx selected ?body (ts_storage st) (ts_storage st')"
    unfolding st' ok_with_ref_def Let_def fst_conv read_body_def [symmetric]
    by (simp add: add_evidence_def read_writes_def mem_store.get_put)
  show "ts_files st' = ts_files st" "ts_fs st' = ts_fs st" "ts_coverage st' = ts_coverage st"
    unfolding st' ok_with_ref_def Let_def fst_conv by (simp_all add: add_evidence_def)
qed

lemma tool_read_file_cases:
  assumes "tool_read_file env d config ctx arguments st = (st', res)"
  obtains e where "st' = st" "res = Inl e"
  | path body where "requested_path arguments path" "st' = st" "res = Inr body"
      "read_error config arguments path body"
  | path row r where "requested_path arguments path"
      "get_file (ts_files st) (cx_snapshot_id ctx) path = Some row" "readable row"
      "ensure_file env (cx_snapshot_id ctx) row st = (st', r)" "(\<exists>e. res = Inl e) \<or> (\<exists>body. res = Inr body \<and> read_error config arguments path body)"
  | path row st1 target s e b m content body where
    "requested_path arguments path"
    "get_file (ts_files st) (cx_snapshot_id ctx) path = Some row" "readable row"
    "ensure_file env (cx_snapshot_id ctx) row st = (st1, Inr target)" "read_range_of config arguments = Inr (ReadRange s e b m)"
    "read_bytes (ts_fs st1) target = Inr content" "finish_read env d ctx row path s e b m content st1 = (st', body)" "res = Inr body"
proof (cases "\<exists>raw path row. map_of arguments ''path'' = Some raw \<and> normalize_repo_path (py_str raw) = Inr path \<and>
    get_file (ts_files st) (cx_snapshot_id ctx) path = Some row \<and> readable row")
  case True
  then obtain raw path row where p: "map_of arguments ''path'' = Some raw" "normalize_repo_path (py_str raw) = Inr path"
    "get_file (ts_files st) (cx_snapshot_id ctx) path = Some row" "readable row" by blast
  then have q: "requested_path arguments path" by (auto simp: requested_path_def)
  obtain st1 r where e: "ensure_file env (cx_snapshot_id ctx) row st = (st1, r)" by (cases rule: prod.exhaust)
  have rest: "(case r of Inl e \<Rightarrow> (st1, Inl e) | Inr target \<Rightarrow>
      (case read_range_of config arguments of
         Inl e \<Rightarrow> (st1, Inl e)
       | Inr (ReadError m) \<Rightarrow> (st1, Inr (tool_error_envelope ''read_file'' ''INVALID_ARGUMENTS'' m False))
       | Inr (ReadRange s e b m) \<Rightarrow>
           (case lift_cache (read_bytes (ts_fs st1) target) of
              Inl e \<Rightarrow> (st1, Inl e)
            | Inr content \<Rightarrow> (case finish_read env d ctx row path s e b m content st1 of (st2, body) \<Rightarrow> (st2, Inr body))))) = (st', res)"
    using assms p e by (simp add: tool_read_file_def split: sum.splits)
  show thesis
  proof (cases "\<exists>target s e b m content. r = Inr target \<and> read_range_of config arguments = Inr (ReadRange s e b m) \<and>
      read_bytes (ts_fs st1) target = Inr content")
    case True
    then show thesis using rest e by (auto simp: lift_cache_def split: prod.splits intro: that(4) [OF q p(3,4)])
  next
    case False
    with rest have "st' = st1" "(\<exists>e. res = Inl e) \<or> (\<exists>body. res = Inr body \<and> read_error config arguments path body)"
      by (auto simp: lift_cache_def read_error_def split: sum.splits read_range.splits)
    with e show thesis by (intro that(3) [OF q p(3,4)]) auto
  qed
next
  case False
  then show thesis using assms that(1,2)
    by (auto simp: tool_read_file_def read_error_def requested_path_def split: option.splits sum.splits if_splits)
qed

lemma scanned_row_public:
  assumes "scan s limit src entries storage = (sc, r)" "row \<in> snd ` set (sn_records sc)" "readable row"
  shows "\<exists>c. tree_content limit src entries (fr_path row) c \<and> fr_content_hash row = Some (sha256_bytes c)"
proof -
  obtain k where "fr_content_key row = Some k" using assms(3) by (auto simp: readable_def split: option.splits)
  with scan_records_tree [OF assms(1)] assms(2) show ?thesis by (fastforce simp: recorded_content_def)
qed

lemma scanned_file_public:
  assumes "scan s limit src entries storage = (sc, r)"
    "\<forall>row \<in> set files. fr_snapshot_id row = s \<longrightarrow> row \<in> snd ` set (sn_records sc)"
    "get_file files s path = Some row" "readable row"
  shows "\<exists>c. tree_content limit src entries path c \<and> fr_content_hash row = Some (sha256_bytes c)"
  using scanned_row_public [OF assms(1) _ assms(4)] assms(2,3) by (auto simp: get_file_def find_Some_iff)

lemma finish_read_public:
  assumes "scan (cx_snapshot_id ctx) limit src entries storage = (sc, r)"
    "\<forall>row \<in> set (ts_files st). fr_snapshot_id row = cx_snapshot_id ctx \<longrightarrow> row \<in> snd ` set (sn_records sc)"
    "get_file (ts_files st) (cx_snapshot_id ctx) path = Some row" "readable row"
    "ensure_file env (cx_snapshot_id ctx) row st = (st1, Inr target)" "read_range_of config arguments = Inr (ReadRange s e b m)"
    "read_bytes (ts_fs st1) target = Inr content" "finish_read env d ctx row path s e b m content st1 = (st', body)"
  shows "\<not> is_secret_path path" "public_read limit src entries env d config ctx path st st' body"
    "ts_files st' = ts_files st1" "ts_fs st' = ts_fs st1" "ts_coverage st' = ts_coverage st1"
proof -
  obtain c where c: "tree_content limit src entries path c" "fr_content_hash row = Some (sha256_bytes c)"
    using scanned_file_public [OF assms(1-4)] by blast
  then show "\<not> is_secret_path path" by (simp add: tree_content_def)
  have h: "sha256_bytes content = sha256_bytes c"
    using ensure_file_result [OF assms(5)] assms(7) c(2) by (auto simp: hash_matches_recorded)
  obtain selected actual_end was_cut where rl: "read_line_range (tv_decode env) content s b m = (selected, actual_end, was_cut)"
    by (cases "read_line_range (tv_decode env) content s b m") auto
  have "fr_content_hash row = Some (sha256_bytes content)" using c(2) h by simp
  note f = finish_read_effect [OF assms(8) this rl]
  have "ts_storage st1 = ts_storage st" "ts_evidence st1 = ts_evidence st"
    using ensure_file_state [OF assms(5)] by (simp_all add: copies_hashed_def)
  moreover have "b \<le> s + rc_max_lines config - 1" using read_range_of_bounds(3) [OF assms(6)] by simp
  ultimately show "public_read limit src entries env d config ctx path st st' body"
    unfolding public_read_def using c(1) h rl f(1-3) read_range_of_bounds(1,4,5) [OF assms(6)] by metis
  show "ts_files st' = ts_files st1" "ts_fs st' = ts_fs st1" "ts_coverage st' = ts_coverage st1" by (fact f)+
qed

text \<open>
  C33: The rows of a snapshot that a scan of a git tree has recorded let \<^verbatim>\<open>read_file\<close> show nothing but public text of this
  tree, however the path is spelled and whatever the worker's copy and the object store hold. A successful read is
  of a path that is not secret; the bytes it reads have the hash of the content of the blob at this path, which is text
  within the size limit of the scan; and the result and what is stored are determined by the selected lines of these bytes,
  within the line and byte limits of the configuration: the whole result, one row of evidence for this path and hash, the
  snippet, and the stored copy of the result. Every other object is as before. A read that fails raises or returns one of
  three messages, and writes neither an object nor evidence. In every case, a file that is new in the worker's
  copy has the recorded hash, which is that of a public blob.
\<close>
theorem read_file_reveals_no_secret:
  assumes "scan (cx_snapshot_id ctx) limit src entries storage = (sc, r)"
    and "\<forall>row \<in> set (ts_files st). fr_snapshot_id row = cx_snapshot_id ctx \<longrightarrow> row \<in> snd ` set (sn_records sc)"
    and "tool_read_file env d config ctx arguments st = (st', res)"
  shows "ts_files st' = ts_files st \<and> ts_coverage st' = ts_coverage st \<and>
    (\<forall>q b. ts_fs st' q = Some (Regular b) \<longrightarrow> ts_fs st q = Some (Regular b) \<or>
       (\<exists>path c. requested_path arguments path \<and> tree_content limit src entries path c \<and> sha256_bytes b = sha256_bytes c)) \<and>
    (case res of
       Inl e \<Rightarrow> ts_storage st' = ts_storage st \<and> ts_evidence st' = ts_evidence st
     | Inr body \<Rightarrow> \<exists>path. requested_path arguments path \<and>
         (read_error config arguments path body \<and> ts_storage st' = ts_storage st \<and> ts_evidence st' = ts_evidence st \<or>
          \<not> is_secret_path path \<and> public_read limit src entries env d config ctx path st st' body))"
proof -
  have fs: "\<exists>path c. requested_path arguments path \<and> tree_content limit src entries path c \<and> sha256_bytes b = sha256_bytes c"
    if hyp: "copies_hashed (fr_content_hash row) st st1" "get_file (ts_files st) (cx_snapshot_id ctx) path = Some row" "readable row"
      "requested_path arguments path" "ts_fs st1 q = Some (Regular b)" "ts_fs st q \<noteq> Some (Regular b)" for row st1 path q b
    proof -
    obtain c where "tree_content limit src entries path c" "fr_content_hash row = Some (sha256_bytes c)"
      using scanned_file_public [OF assms(1,2) hyp(2,3)] by blast
    moreover from this hyp(1,5,6) have "sha256_bytes b = sha256_bytes c" by (auto simp: copies_hashed_def hash_matches_recorded)
    ultimately show ?thesis using hyp(4) by blast
  qed
  from assms(3) show ?thesis
  proof (cases rule: tool_read_file_cases)
    case (3 path row r0)
    have copy: "copies_hashed (fr_content_hash row) st st'" by (rule ensure_file_state [OF 3(4)])
    note new = fs [OF copy 3(2,3,1)]
    have "ts_files st' = ts_files st" "ts_coverage st' = ts_coverage st" "ts_storage st' = ts_storage st" "ts_evidence st' = ts_evidence st"
      using copy by (simp_all add: copies_hashed_def)
    moreover have "\<forall>q b. ts_fs st' q = Some (Regular b) \<longrightarrow> ts_fs st q = Some (Regular b) \<or>
        (\<exists>path c. requested_path arguments path \<and> tree_content limit src entries path c \<and> sha256_bytes b = sha256_bytes c)"
      using new by blast
    moreover from 3(5) 3(1) have "case res of Inl e \<Rightarrow> True | Inr body \<Rightarrow> \<exists>path. requested_path arguments path \<and> read_error config arguments path body"
      by auto
    ultimately show ?thesis by (auto split: sum.splits)
  next
    case (4 path row st1 target s e b m content body)
    have copy: "copies_hashed (fr_content_hash row) st st1" by (rule ensure_file_state [OF 4(4)])
    note read = finish_read_public [OF assms(1,2) 4(2-7)]
    note new = fs [OF copy 4(2,3,1)]
    have "ts_files st' = ts_files st" "ts_coverage st' = ts_coverage st" using read(3,5) copy by (simp_all add: copies_hashed_def)
    moreover have "(\<exists>path c. requested_path arguments path \<and> tree_content limit src entries path c \<and> sha256_bytes b' = sha256_bytes c)"
      if "ts_fs st' q = Some (Regular b')" "ts_fs st q \<noteq> Some (Regular b')" for q b'
      using that new read(4) by simp
    ultimately show ?thesis using read(1,2) 4(1,8) by auto
  qed auto
qed

definition sample_row :: file_row where
  "sample_row = content_record 7 100 ''a.py'' (sample_entry ''a.py'') sample_text"

definition sample_tools :: tool_state where
  "sample_tools =
     \<lparr>ts_files = [sample_row],
      ts_storage = put_bytes empty_store (blob_key (sha256_bytes sample_text)) sample_text ''text/plain; charset=utf-8'',
      ts_fs = Map.empty, ts_coverage = Map.empty, ts_evidence = []\<rparr>"

definition sample_tool_env :: tool_env where
  "sample_tool_env = \<lparr>tv_root_dir = [''cache''], tv_decode = id, tv_stamp = []\<rparr>"

definition sample_tool_context :: tool_context where
  "sample_tool_context =
     \<lparr>cx_tool_call_id = 1, cx_agent_id = 2, cx_snapshot_id = 7, cx_analysis_id = Some 3, cx_turn_id = None\<rparr>"

definition sample_tool_draws :: draws where
  "sample_tool_draws = \<lparr>now = 1000, now_iso = [], new_id = (\<lambda>k. word_of_nat (50 + k))\<rparr>"

definition sample_read_config :: read_config where
  "sample_read_config = \<lparr>rc_default_lines = 200, rc_max_lines = 500, rc_max_bytes = 65536\<rparr>"

lemma sample_content: "\<not> is_binary sample_text" "int (length sample_text) \<le> 100" "\<not> is_secret_path ''a.py''"
  "normalize_repo_path ''a.py'' = Inr ''a.py''"
  by code_simp+

lemma sample_row_fields:
  "fr_path sample_row = ''a.py''" "fr_snapshot_id sample_row = 7" "fr_content_key sample_row = Some (blob_key (sha256_bytes sample_text))"
  "fr_content_hash sample_row = Some (sha256_bytes sample_text)" "readable sample_row"
  "stored_text 100 (ts_storage sample_tools) sample_row"
proof -
  have k: "blob_key h \<noteq> []" for h by (simp add: blob_key_def Let_def)
  show f: "fr_path sample_row = ''a.py''" "fr_snapshot_id sample_row = 7"
    "fr_content_key sample_row = Some (blob_key (sha256_bytes sample_text))" "fr_content_hash sample_row = Some (sha256_bytes sample_text)"
    using sample_content by (simp_all add: sample_row_def) (simp add: content_record_def basic_record_def Let_def)
  show "readable sample_row" using sample_content k by (simp add: readable_def sample_row_def)
  show "stored_text 100 (ts_storage sample_tools) sample_row"
    using sample_content by (simp add: stored_text_def sample_row_def sample_tools_def mem_store.get_put)
qed

lemma sample_range: "read_range_of sample_read_config [(''path'', JStr ''a.py'')] = Inr (ReadRange 1 200 200 65536)"
  by (simp add: read_range_of_def int_arg_def raw_arg_def obj_get_default_def obj_get_def int_value_def sample_read_config_def)

lemma sample_ensure:
  "\<exists>st target. ensure_file sample_tool_env 7 sample_row sample_tools = (st, Inr target) \<and> read_bytes (ts_fs st) target = Inr sample_text"
proof -
  have f: "file_path [''cache''] 7 ''a.py'' = Inr (files_root [''cache''] 7 @ [''a.py''])"
    by (simp only: file_path_eq sample_content(4)) simp
  obtain fs where w: "write_file [''cache''] 7 ''a.py'' sample_text Map.empty = (fs, Inr (files_root [''cache''] 7 @ [''a.py'']))"
    using write_file_steps [OF f, of Map.empty sample_text] by (auto simp: ancestors_free_def is_file_def)
  have "fetch_content (ts_storage sample_tools) sample_row = Inr sample_text"
    by (simp add: fetch_content_def sample_row_fields sample_tools_def mem_store.get_put hash_matches_recorded)
  then have e: "ensure_file sample_tool_env 7 sample_row sample_tools = (sample_tools\<lparr>ts_fs := fs\<rparr>, Inr (files_root [''cache''] 7 @ [''a.py'']))"
    using f w by (simp add: ensure_file_def sample_tool_env_def sample_row_fields(1) read_bytes_def cache_write_def lift_cache_def sample_tools_def)
  from ensure_file_result [OF e] w f show ?thesis
    using e cache_write_result(2) [of sample_tool_env 7 "''a.py''" sample_text sample_tools]
    by (auto simp: cache_write_def sample_tool_env_def lift_cache_def sample_tools_def)
qed

lemma sample_scan:
  "scan 7 100 (BlobReader (\<lambda>e. Inr sample_text)) [sample_entry ''a.py''] empty_store =
   (\<lparr>sn_records = [(''a.py'', sample_row)], sn_instructions = [], sn_storage = ts_storage sample_tools\<rparr>, Inr ())"
proof -
  have n: "normalize_path ''a.py'' = ''a.py''" "ensure_directory_records 7 ''a.py'' [] = []" "path_name (posix_parse ''a.py'') \<noteq> ''AGENTS.md''"
    by code_simp+
  have "sort_key te_path [sample_entry ''a.py''] = [sample_entry ''a.py'']" by simp
  moreover have "scan_entry 7 100 (BlobReader (\<lambda>e. Inr sample_text)) (sample_entry ''a.py'')
      \<lparr>sn_records = [], sn_instructions = [], sn_storage = empty_store\<rparr> =
      (store_content 7 100 ''a.py'' (sample_entry ''a.py'') sample_text
        \<lparr>sn_records = [], sn_instructions = [], sn_storage = empty_store\<rparr>, Inr ())"
    using n sample_content(3) by (simp add: scan_entry_def no_content_def read_content_def sample_entry_def Let_def)
  moreover have "store_content 7 100 ''a.py'' (sample_entry ''a.py'') sample_text
        \<lparr>sn_records = [], sn_instructions = [], sn_storage = empty_store\<rparr> =
      \<lparr>sn_records = [(''a.py'', sample_row)], sn_instructions = [], sn_storage = ts_storage sample_tools\<rparr>"
    using n(3) sample_content(1,2) by (simp add: store_content_def Let_def sample_row_def sample_tools_def)
  ultimately show ?thesis by (simp add: scan_def)
qed

theorem read_file_reveals_no_secret_witness:
  "\<exists>st' body. tool_read_file sample_tool_env sample_tool_draws sample_read_config sample_tool_context [(''path'', JStr ''a.py'')] sample_tools =
       (st', Inr body) \<and> obj_get body ''ok'' = JBool True \<and> \<not> is_secret_path ''a.py'' \<and>
     public_read 100 (BlobReader (\<lambda>e. Inr sample_text)) [sample_entry ''a.py''] sample_tool_env sample_tool_draws sample_read_config
       sample_tool_context ''a.py'' sample_tools st' body"
proof -
  let ?args = "[(''path'', JStr ''a.py'')]"
  obtain st1 target where e: "ensure_file sample_tool_env 7 sample_row sample_tools = (st1, Inr target)" "read_bytes (ts_fs st1) target = Inr sample_text"
    using sample_ensure by blast
  obtain st2 body where f: "finish_read sample_tool_env sample_tool_draws sample_tool_context sample_row ''a.py'' 1 200 200 65536 sample_text st1 = (st2, body)"
    by (cases rule: prod.exhaust)
  have ok: "obj_get body ''ok'' = JBool True"
    using arg_cong [OF f, of snd] by (simp only: finish_read_def Let_def split_beta ok_with_ref_body snd_conv) (metis success_fields(1))
  have g: "get_file (ts_files sample_tools) (cx_snapshot_id sample_tool_context) ''a.py'' = Some sample_row"
    by (simp add: get_file_def sample_tools_def sample_row_fields sample_tool_context_def)
  have t: "tool_read_file sample_tool_env sample_tool_draws sample_read_config sample_tool_context ?args sample_tools = (st2, Inr body)"
    using e f g by (simp add: tool_read_file_def py_str_def sample_content(4) sample_row_fields(5) sample_range lift_cache_def)
      (simp add: sample_tool_context_def)
  have scan: "scan (cx_snapshot_id sample_tool_context) 100 (BlobReader (\<lambda>e. Inr sample_text)) [sample_entry ''a.py''] empty_store =
      (\<lparr>sn_records = [(''a.py'', sample_row)], sn_instructions = [], sn_storage = ts_storage sample_tools\<rparr>, Inr ())"
    using sample_scan by (simp add: sample_tool_context_def)
  have "requested_path ?args path \<longleftrightarrow> path = ''a.py''" for path
    using sample_content(4) by (auto simp: requested_path_def py_str_def)
  moreover have "\<not> read_error config ?args path body" for config path
    using ok success_fields(5) by (auto simp: read_error_def)
  ultimately have "\<not> is_secret_path ''a.py'' \<and> public_read 100 (BlobReader (\<lambda>e. Inr sample_text)) [sample_entry ''a.py''] sample_tool_env
      sample_tool_draws sample_read_config sample_tool_context ''a.py'' sample_tools st2 body"
    using read_file_reveals_no_secret [OF scan _ t] by (auto simp: sample_tools_def)
  with t ok show ?thesis by blast
qed

section \<open>Coverage\<close>

text \<open>The rows that a prefix makes available, and what it means that one is.\<close>

definition text_row :: "uuid \<Rightarrow> file_row \<Rightarrow> bool" where
  "text_row s r \<longleftrightarrow> fr_snapshot_id r = s \<and> fr_entry_kind r = ''file'' \<and> fr_content_key r \<noteq> None \<and> \<not> fr_is_binary r \<and>
     \<not> fr_is_large r \<and> row_visible r"

definition cached :: "tool_env \<Rightarrow> filesystem \<Rightarrow> uuid \<Rightarrow> file_row \<Rightarrow> bool" where
  "cached env fs s r \<longleftrightarrow>
     (\<exists>t data. file_path (tv_root_dir env) s (fr_path r) = Inr t \<and> read_bytes fs t = Inr data \<and> hash_matches data (fr_content_hash r))"

definition covers :: "coverage_store \<Rightarrow> uuid \<Rightarrow> string \<Rightarrow> bool" where
  "covers cov s path \<longleftrightarrow>
     (\<exists>f. read_coverage cov s = Inr f \<and>
        (\<exists>e \<in> set (cf_prefixes f). \<exists>c. normalize_prefix (cp_prefix e) = Inr c \<and> starts_with c path))"

definition coverage_ok :: "tool_env \<Rightarrow> tool_state \<Rightarrow> bool" where
  "coverage_ok env st \<longleftrightarrow>
     (\<forall>s. \<forall>r \<in> set (ts_files st). text_row s r \<and> covers (ts_coverage st) s (fr_path r) \<longrightarrow> cached env (ts_fs st) s r)"

text \<open>The unique index on snapshot and path, and paths in the normal form that the scan gives them.\<close>

definition rows_ok :: "file_row list \<Rightarrow> bool" where
  "rows_ok files \<longleftrightarrow>
     distinct (map (\<lambda>r. (fr_snapshot_id r, fr_path r)) files) \<and>
     list_all (\<lambda>r. case normalize_repo_path (fr_path r) of Inl e \<Rightarrow> True | Inr q \<Rightarrow> q = fr_path r) files"

lemma text_files_mem:
  "r \<in> set (text_files_under_prefix files s pre) \<longleftrightarrow> r \<in> set files \<and> text_row s r \<and> starts_with pre (fr_path r)"
  by (auto simp: text_files_under_prefix_def text_row_def like_escape_starts)

lemma rows_ok_normal:
  assumes "rows_ok files" "r \<in> set files" "file_path root s (fr_path r) = Inr t"
  shows "t = files_root root s @ split_on (CHR ''/'') (fr_path r)"
  using assms by (auto simp: rows_ok_def list_all_iff file_path_eq rbind_eq_Inr)

lemma rows_ok_unique:
  "rows_ok files \<Longrightarrow> r \<in> set files \<Longrightarrow> x \<in> set files \<Longrightarrow> fr_snapshot_id r = fr_snapshot_id x \<Longrightarrow> fr_path r = fr_path x \<Longrightarrow> r = x"
  by (auto simp: rows_ok_def distinct_map inj_on_def)

lemma split_append_tail:
  "d \<notin> set t \<Longrightarrow> split_on d (s @ t) = butlast (split_on d s) @ [last (split_on d s) @ t]"
proof (induction s)
  case Nil
  then show ?case by (simp add: split_on_no_sep)
next
  case (Cons c s)
  then show ?case by (cases "split_on d s" rule: rev_cases; cases "butlast (split_on d s)") (auto split: list.splits)
qed

lemma tmp_path_of_row:
  assumes "rows_ok files" "r \<in> set files" "x \<in> set files"
    "file_path root s (fr_path r) = Inr t" "file_path root s' (fr_path x) = Inr t'" "t = tmp_path t'"
  shows "s = s' \<and> fr_path r = fr_path x @ ''.tmp''"
proof -
  have t: "t = files_root root s @ split_on (CHR ''/'') (fr_path r)" "t' = files_root root s' @ split_on (CHR ''/'') (fr_path x)"
    using rows_ok_normal [OF assms(1,2,4)] rows_ok_normal [OF assms(1,3,5)] by simp_all
  have "tmp_path t' = files_root root s' @ split_on (CHR ''/'') (fr_path x @ ''.tmp'')"
    by (simp add: t(2) tmp_path_def butlast_append split_append_tail)
  with assms(6) t(1) have "files_root root s @ split_on (CHR ''/'') (fr_path r) = files_root root s' @ split_on (CHR ''/'') (fr_path x @ ''.tmp'')"
    by simp
  then have "s = s'" "split_on (CHR ''/'') (fr_path r) = split_on (CHR ''/'') (fr_path x @ ''.tmp'')"
    by (simp_all add: files_root_def snapshot_root_def)
  then show ?thesis by (metis join_split)
qed

text \<open>
  A row named like the temporary file of another: writing the other one overwrites and then removes it. However a
  write ends, every other row stays available.
\<close>

definition tmp_named :: "uuid \<Rightarrow> file_row list \<Rightarrow> uuid \<Rightarrow> file_row \<Rightarrow> bool" where
  "tmp_named s rows s' r \<longleftrightarrow> s' = s \<and> (\<exists>x \<in> set rows. fr_path r = fr_path x @ ''.tmp'')"

lemma same_path_same_row:
  assumes "rows_ok files" "r \<in> set files" "x \<in> set files" "file_path root s' (fr_path r) = Inr t" "file_path root s (fr_path x) = Inr t"
  shows "s' = s \<and> fr_path r = fr_path x"
  using rows_ok_normal [OF assms(1,2,4)] rows_ok_normal [OF assms(1,3,5)]
  by (auto simp: files_root_def snapshot_root_def) (metis join_split)

lemma cache_write_keeps:
  assumes "rows_ok files" "r \<in> set files" "x \<in> set files" "cache_write env s (fr_path x) data st = (st', res)"
    "cached env (ts_fs st) s' r" "\<not> tmp_named s [x] s' r" "s' = s \<Longrightarrow> fr_path r = fr_path x \<Longrightarrow> hash_matches data (fr_content_hash r)"
  shows "cached env (ts_fs st') s' r"
proof -
  obtain u d where u: "file_path (tv_root_dir env) s' (fr_path r) = Inr u" "ts_fs st u = Some (Regular d)"
      "hash_matches d (fr_content_hash r)"
  proof -
    from assms(5) obtain u d where u: "file_path (tv_root_dir env) s' (fr_path r) = Inr u" "read_bytes (ts_fs st) u = Inr d"
      "hash_matches d (fr_content_hash r)" by (auto simp: cached_def)
    from u(2) have "ts_fs st u = Some (Regular d)" by (simp add: read_bytes_def split: option.splits fs_node.splits)
    with u show thesis by (intro that)
  qed
  obtain fs r0 where w: "write_file (tv_root_dir env) s (fr_path x) data (ts_fs st) = (fs, r0)" "ts_fs st' = fs"
    using assms(4) by (auto simp: cache_write_def split: prod.splits)
  have "\<exists>d'. fs u = Some (Regular d') \<and> hash_matches d' (fr_content_hash r)"
  proof (cases "file_path (tv_root_dir env) s (fr_path x)")
    case (Inl e)
    with w u show ?thesis by (auto simp: write_file_def)
  next
    case (Inr t)
    have tmp: "u \<noteq> tmp_path t" using tmp_path_of_row [OF assms(1,2,3) u(1) Inr] assms(6) by (auto simp: tmp_named_def)
    have "hash_matches data (fr_content_hash r)" if "u = t"
      using same_path_same_row [OF assms(1-3) u(1)] Inr that assms(7) by simp
    with write_file_shape [OF w(1) Inr] u(2,3) tmp show ?thesis by (cases "u = t") auto
  qed
  with w(2) u(1) show ?thesis by (auto simp: cached_def read_bytes_def)
qed

lemma less_append_tail: "(xs :: string) < xs @ c # ys"
  by (induction xs) simp_all

lemma materialize_keeps:
  assumes "rows_ok files" "list_all (\<lambda>x. x \<in> set files \<and> fr_snapshot_id x = s) rows" "materialize env s rows n st = (st', res)"
  shows "(\<exists>fs. st' = st\<lparr>ts_fs := fs\<rparr>) \<and>
    (\<forall>r \<in> set files. cached env (ts_fs st) (fr_snapshot_id r) r \<and> \<not> tmp_named s rows (fr_snapshot_id r) r \<longrightarrow>
       cached env (ts_fs st') (fr_snapshot_id r) r)"
  using assms(2,3)
proof (induction rows arbitrary: n st)
  case Nil
  then show ?case by (auto intro: exI [of _ "ts_fs st"])
next
  case (Cons x rows)
  show ?case
  proof (cases "fetch_content (ts_storage st) x")
    case (Inl e)
    with Cons.prems show ?thesis by (auto intro: exI [of _ "ts_fs st"])
  next
    case (Inr data)
    obtain st1 r1 where w: "cache_write env s (fr_path x) data st = (st1, r1)" by (cases rule: prod.exhaust)
    obtain fs1 where st1: "st1 = st\<lparr>ts_fs := fs1\<rparr>" using cache_write_state(1) [OF w] by blast
    have step: "cached env (ts_fs st1) (fr_snapshot_id r) r"
      if "r \<in> set files" "cached env (ts_fs st) (fr_snapshot_id r) r" "\<not> tmp_named s (x # rows) (fr_snapshot_id r) r" for r
    proof (rule cache_write_keeps [OF assms(1) that(1) _ w that(2)])
      show "x \<in> set files" "\<not> tmp_named s [x] (fr_snapshot_id r) r" using Cons.prems(1) that(3) by (auto simp: tmp_named_def)
      assume "fr_snapshot_id r = s" "fr_path r = fr_path x"
      with rows_ok_unique [OF assms(1) that(1), of x] Cons.prems(1) fetch_content_hash [OF Inr]
      show "hash_matches data (fr_content_hash r)" by simp
    qed
    show ?thesis
    proof (cases r1)
      case (Inl e)
      with Cons.prems w Inr st1 step show ?thesis by auto
    next
      case Inr2: (Inr u)
      with Cons.prems w Inr have "materialize env s rows (n + int (length data)) st1 = (st', res)" by simp
      from Cons.IH [OF _ this] Cons.prems(1) st1 step show ?thesis by (fastforce simp: tmp_named_def)
    qed
  qed
qed

lemma materialize_cached:
  assumes "rows_ok files" "list_all (\<lambda>x. x \<in> set files \<and> fr_snapshot_id x = s) rows" "sorted (map fr_path rows)"
    "distinct (map fr_path rows)" "materialize env s rows n st = (st', Inr v)" "r \<in> set rows"
  shows "cached env (ts_fs st') s r"
  using assms(2-)
proof (induction rows arbitrary: n st)
  case (Cons x rows)
  then obtain data t st1 where d: "fetch_content (ts_storage st) x = Inr data" "cache_write env s (fr_path x) data st = (st1, Inr t)"
      and rest: "materialize env s rows (n + int (length data)) st1 = (st', Inr v)"
    by (auto split: sum.splits prod.splits)
  have x: "cached env (ts_fs st1) s x" using cache_write_result(1,2) [OF d(2)] fetch_content_hash [OF d(1)] by (auto simp: cached_def)
  have "\<not> tmp_named s rows s x"
  proof
    assume "tmp_named s rows s x"
    then obtain y where y: "y \<in> set rows" "fr_path x = fr_path y @ ''.tmp''" by (auto simp: tmp_named_def)
    then have "fr_path x \<le> fr_path y" using Cons.prems(2) by auto
    with y(2) less_append_tail [of "fr_path y" "CHR ''.''" "''tmp''"] show False by auto
  qed
  then have "cached env (ts_fs st') s x" using materialize_keeps [OF assms(1) _ rest] Cons.prems(1) x by auto
  with Cons.IH [OF _ _ _ rest] Cons.prems show ?case by auto
qed simp

lemma starts_with_trans: "starts_with a b \<Longrightarrow> starts_with b c \<Longrightarrow> starts_with a c"
  unfolding starts_with_def by (metis append_take_drop_id length_take min.absorb_iff2 min.commute take_take linorder_le_cases take_all)

lemma prefix_not_tmp_named:
  assumes "r \<in> set files" "text_row s r" "tmp_named s (text_files_under_prefix files s pre) s r"
  shows "r \<in> set (text_files_under_prefix files s pre)"
proof -
  obtain x where m: "x \<in> set (text_files_under_prefix files s pre)" and x2: "fr_path r = fr_path x @ ''.tmp''"
    using assms(3) unfolding tmp_named_def by blast
  have x: "starts_with pre (fr_path x)" "fr_path r = fr_path x @ ''.tmp''" using m x2 by (simp_all add: text_files_mem)
  have "starts_with (fr_path x) (fr_path r)" using x(2) by (auto simp: starts_with_def)
  with x(1) have "starts_with pre (fr_path r)" by (rule starts_with_trans)
  with assms show ?thesis by (simp add: text_files_mem)
qed

text \<open>The second test of the coverage has the result of the first, since nothing is interleaved.\<close>

lemma ensure_prefix_locked_eq: "ensure_prefix env config s pre st = ensure_prefix_locked env config s pre st"
  by (auto simp: ensure_prefix_def ensure_prefix_locked_def split: sum.splits bool.splits)

lemma ensure_prefix_cases:
  assumes "ensure_prefix env config s pre st = (st', res)"
  obtains "is_prefix_covered (ts_coverage st) s pre = Inr True" "st' = st" "res = Inr ()"
  | e where "st' = st" "res = Inl e"
  | e r where "materialize env s (text_files_under_prefix (ts_files st) s pre) 0 st = (st', r)" "res = Inl e"
  | st1 written cov where "materialize env s (text_files_under_prefix (ts_files st) s pre) 0 st = (st1, Inr written)"
      "mark_prefix_covered (tv_stamp env) s pre (int (length (text_files_under_prefix (ts_files st) s pre))) written (ts_coverage st1) = Inr cov"
      "st' = st1\<lparr>ts_coverage := cov\<rparr>" "res = Inr ()"
proof -
  let ?rows = "text_files_under_prefix (ts_files st) s pre"
  have e: "ensure_prefix_locked env config s pre st = (st', res)" using assms by (simp only: ensure_prefix_locked_eq)
  show thesis
  proof (cases "is_prefix_covered (ts_coverage st) s pre")
    case (Inl x)
    with e have "st' = st" "res = Inl (cache_exception x)" by (simp_all add: ensure_prefix_locked_def)
    then show thesis by (rule that(2))
  next
    case (Inr covered)
    show thesis
    proof (cases covered)
      case True
      with e Inr have "st' = st" "res = Inr ()" by (simp_all add: ensure_prefix_locked_def)
      with Inr True show thesis by (intro that(1)) simp_all
    next
      case False
      show thesis
      proof (cases "cc_max_prefix_bytes config < estimated_bytes ?rows")
        case True
        with e Inr False have "st' = st" "\<exists>x. res = Inl x" by (auto simp: ensure_prefix_locked_def Let_def)
        then show thesis using that(2) by blast
      next
        case small: False
        obtain st1 r where m: "materialize env s ?rows 0 st = (st1, r)" by (cases rule: prod.exhaust)
        show thesis
        proof (cases r)
          case r: (Inl x)
          with e Inr False small m have "st' = st1" "res = Inl x" by (simp_all add: ensure_prefix_locked_def Let_def)
          with m show thesis by (intro that(3)) simp_all
        next
          case r: (Inr written)
          let ?mark = "mark_prefix_covered (tv_stamp env) s pre (int (length ?rows)) written (ts_coverage st1)"
          show thesis
          proof (cases ?mark)
            case mark: (Inl x)
            with e Inr False small m r have "st' = st1" "res = Inl (cache_exception x)"
              by (simp_all add: ensure_prefix_locked_def Let_def)
            with m show thesis by (intro that(3)) simp_all
          next
            case mark: (Inr cov)
            with e Inr False small m r have "st' = st1\<lparr>ts_coverage := cov\<rparr>" "res = Inr ()"
              by (simp_all add: ensure_prefix_locked_def Let_def)
            with m r mark show thesis by (intro that(4)) simp_all
          qed
        qed
      qed
    qed
  qed
qed

lemma ensure_prefix_copies:
  assumes "is_prefix_covered (ts_coverage st) s pre = Inr False"
    "estimated_bytes (text_files_under_prefix (ts_files st) s pre) \<le> cc_max_prefix_bytes config"
    "materialize env s (text_files_under_prefix (ts_files st) s pre) 0 st = (st1, Inr written)"
    "mark_prefix_covered (tv_stamp env) s pre (int (length (text_files_under_prefix (ts_files st) s pre))) written (ts_coverage st1) = Inr cov"
  shows "ensure_prefix env config s pre st = (st1\<lparr>ts_coverage := cov\<rparr>, Inr ())"
proof -
  have "\<not> cc_max_prefix_bytes config < estimated_bytes (text_files_under_prefix (ts_files st) s pre)" using assms(2) by simp
  then show ?thesis unfolding ensure_prefix_locked_eq ensure_prefix_locked_def assms(1) Let_def by (simp add: assms(3,4))
qed

lemma covered_prefix_covers:
  assumes "is_prefix_covered cov s pre = Inr True" "normalize_prefix pre = Inr pre" "starts_with pre path"
  shows "covers cov s path"
proof -
  obtain f where f: "read_coverage cov s = Inr f" "covered_by pre (cf_prefixes f) = Inr True"
    using assms(1,2) by (auto simp: is_prefix_covered_def rbind_eq_Inr)
  with covered_by_True [OF f(2)] assms(3) starts_with_trans show ?thesis unfolding covers_def by blast
qed

lemma marked_prefix_covers:
  assumes "mark_prefix_covered stamp s pre n b cov = Inr cov'" "normalize_prefix pre = Inr pre" "covers cov' s' path"
  shows "covers cov s' path \<or> s' = s \<and> starts_with pre path"
proof (cases "s' = s")
  case True
  obtain f where f: "read_coverage cov s = Inr f" "read_coverage cov' s = Inr \<lparr>cf_snapshot_id = uuid_str s, cf_prefixes = cf_prefixes f @
      [\<lparr>cp_prefix = pre, cp_completed_at = stamp, cp_file_count = n, cp_bytes = b\<rparr>]\<rparr>"
    using mark_prefix_covered_result [OF assms(1)] assms(2) by auto
  with True assms(2,3) show ?thesis by (auto simp: covers_def)
next
  case False
  then have "cov' s' = cov s'" using mark_prefix_covered_result [OF assms(1)] by auto
  then have "read_coverage cov' s' = read_coverage cov s'" by (simp add: read_coverage_def)
  with assms(3) show ?thesis by (simp add: covers_def)
qed

lemma rows_under_prefix:
  assumes "rows_ok files"
  shows "list_all (\<lambda>x. x \<in> set files \<and> fr_snapshot_id x = s) (text_files_under_prefix files s pre)"
    "sorted (map fr_path (text_files_under_prefix files s pre))" "distinct (map fr_path (text_files_under_prefix files s pre))"
proof -
  show "list_all (\<lambda>x. x \<in> set files \<and> fr_snapshot_id x = s) (text_files_under_prefix files s pre)"
    by (auto simp: list_all_iff text_files_mem text_row_def)
  show "sorted (map fr_path (text_files_under_prefix files s pre))" by (simp add: text_files_under_prefix_def)
  have "inj_on fr_path (set (text_files_under_prefix files s pre))"
    using assms by (auto simp: inj_on_def text_files_mem text_row_def intro: rows_ok_unique)
  moreover have "distinct (text_files_under_prefix files s pre)"
    using assms by (auto simp: text_files_under_prefix_def rows_ok_def distinct_map)
  ultimately show "distinct (map fr_path (text_files_under_prefix files s pre))" by (simp add: distinct_map)
qed

text \<open>
  C34: Under the unique index and normalised paths of the table, and for every prefix but the one that a dot is normalised
  to, the coverage file of a worker tells the truth as long as no copying fails: if every text file below a recorded prefix
  is in the worker's copy with the recorded hash, then after a successful \<open>ensure_prefix\<close> the same holds, for all
  snapshots, and the text files of that prefix are there too, although writing a file removes one that is named like its
  temporary file. If \<open>ensure_prefix\<close> fails, it records nothing, and of the files below recorded prefixes it can
  lose only those that are named like the temporary file of a file it copies. Only the worker's copy and the coverage change.
\<close>
theorem coverage_sound:
  assumes "coverage_ok env st" "rows_ok (ts_files st)" "normalize_prefix p = Inr pre" "pre \<noteq> ''/''"
    and "ensure_prefix env config s pre st = (st', res)"
  shows "ts_files st' = ts_files st \<and> ts_storage st' = ts_storage st \<and> ts_evidence st' = ts_evidence st \<and>
    (case res of
       Inr u \<Rightarrow> coverage_ok env st' \<and>
         (\<forall>r \<in> set (ts_files st). text_row s r \<and> starts_with pre (fr_path r) \<longrightarrow> cached env (ts_fs st') s r)
     | Inl e \<Rightarrow> ts_coverage st' = ts_coverage st \<and>
         (\<forall>s'. \<forall>r \<in> set (ts_files st). text_row s' r \<and> covers (ts_coverage st) s' (fr_path r) \<and>
            \<not> tmp_named s (text_files_under_prefix (ts_files st) s pre) s' r \<longrightarrow> cached env (ts_fs st') s' r))"
proof -
  let ?rows = "text_files_under_prefix (ts_files st) s pre"
  have norm: "normalize_prefix pre = Inr pre" using normalize_prefix_twice [OF assms(3)] assms(4) by simp
  have old: "cached env (ts_fs st) s' r" if "r \<in> set (ts_files st)" "text_row s' r" "covers (ts_coverage st) s' (fr_path r)" for s' r
    using assms(1) that by (auto simp: coverage_ok_def)
  note rows = rows_under_prefix [OF assms(2), of s pre]
  have kept: "(\<exists>fs. st1 = st\<lparr>ts_fs := fs\<rparr>) \<and> (\<forall>s'. \<forall>r \<in> set (ts_files st). text_row s' r \<and> covers (ts_coverage st) s' (fr_path r) \<and>
      \<not> tmp_named s ?rows s' r \<longrightarrow> cached env (ts_fs st1) s' r)" if "materialize env s ?rows 0 st = (st1, r1)" for st1 r1
    using materialize_keeps [OF assms(2) rows(1) that] old by (auto simp: text_row_def)
  from assms(5) show ?thesis
  proof (cases rule: ensure_prefix_cases)
    case 1
    with covered_prefix_covers [OF 1(1) norm] assms(1) show ?thesis by (auto simp: coverage_ok_def)
  next
    case 2
    with old show ?thesis by auto
  next
    case (3 e r)
    from kept [OF 3(1)] 3(2) show ?thesis by auto
  next
    case (4 st1 written cov)
    have new: "cached env (ts_fs st1) s r" if "r \<in> set ?rows" for r by (rule materialize_cached [OF assms(2) rows 4(1) that])
    obtain fs where st1: "st1 = st\<lparr>ts_fs := fs\<rparr>" using kept [OF 4(1)] by blast
    have "cached env (ts_fs st1) s' r" if "r \<in> set (ts_files st)" "text_row s' r" "covers cov s' (fr_path r)" for s' r
    proof (cases "s' = s \<and> r \<in> set ?rows")
      case False
      then have "\<not> (s' = s \<and> starts_with pre (fr_path r))" using that(1,2) by (auto simp: text_files_mem)
      with marked_prefix_covers [OF 4(2) norm that(3)] st1 have "covers (ts_coverage st) s' (fr_path r)" by auto
      moreover have "\<not> tmp_named s ?rows s' r"
        using prefix_not_tmp_named [OF that(1)] that(2) False by (auto simp: tmp_named_def)
      ultimately show ?thesis using kept [OF 4(1)] that(1,2) by blast
    qed (use new in simp)
    with new 4(3,4) st1 show ?thesis by (auto simp: coverage_ok_def text_files_mem)
  qed
qed

definition sample_prefix_config :: cache_config where
  "sample_prefix_config =
     \<lparr>cc_max_worker_cache_bytes = 1000, cc_max_prefix_bytes = 1000, cc_ttl_days = 7, cc_min_free_disk_percent = 0\<rparr>"

lemma sample_visible: "visible_path ''a.py'' ''a.py''" "path_name (posix_parse ''a.py'') = ''a.py''" "sample_text \<noteq> []"
  by code_simp+

lemma sample_text_row: "text_row 7 sample_row" "fr_size_bytes sample_row = Some 8"
  using sample_content sample_visible sample_row_fields
  by (auto simp: text_row_def row_visible_def sample_row_def content_record_def basic_record_def Let_def sample_text_def)

lemma sample_uncovered: "is_prefix_covered Map.empty s [] = Inr False"
  by (simp add: is_prefix_covered_def normalize_prefix_def read_coverage_def)

lemma sample_mark: "\<exists>cov. mark_prefix_covered [] 7 [] n b Map.empty = Inr cov"
  by (simp add: mark_prefix_covered_def normalize_prefix_def read_coverage_def)

theorem coverage_sound_witness:
  "\<exists>st'. ensure_prefix sample_tool_env sample_prefix_config 7 [] sample_tools = (st', Inr ()) \<and>
     cached sample_tool_env (ts_fs st') 7 sample_row"
proof -
  have rows: "text_files_under_prefix (ts_files sample_tools) 7 [] = [sample_row]"
    by (simp only: text_files_under_prefix_def like_escape_starts)
      (use sample_text_row(1) in \<open>simp add: text_row_def sample_tools_def starts_with_def\<close>)
  obtain st target where e: "ensure_file sample_tool_env 7 sample_row sample_tools = (st, Inr target)" using sample_ensure by blast
  have "fetch_content (ts_storage sample_tools) sample_row = Inr sample_text"
    by (simp add: fetch_content_def sample_row_fields sample_tools_def mem_store.get_put hash_matches_recorded)
  moreover from this e have "cache_write sample_tool_env 7 (fr_path sample_row) sample_text sample_tools = (st, Inr target)"
    by (simp add: ensure_file_def sample_tools_def read_bytes_def split: sum.splits)
  ultimately have m: "\<exists>v. materialize sample_tool_env 7 [sample_row] 0 sample_tools = (st, Inr v)" "ts_coverage st = Map.empty"
    using cache_write_result(5) by (auto simp: sample_tools_def)
  have "\<exists>st'. ensure_prefix sample_tool_env sample_prefix_config 7 [] sample_tools = (st', Inr ())"
  proof -
    obtain v where v: "materialize sample_tool_env 7 [sample_row] 0 sample_tools = (st, Inr v)" using m(1) by blast
    obtain cov where cov: "mark_prefix_covered [] 7 [] (int (length [sample_row])) v Map.empty = Inr cov" using sample_mark by blast
    have c1: "is_prefix_covered (ts_coverage sample_tools) 7 [] = Inr False" by (simp add: sample_tools_def sample_uncovered)
    have c2: "estimated_bytes (text_files_under_prefix (ts_files sample_tools) 7 []) \<le> cc_max_prefix_bytes sample_prefix_config"
      unfolding rows by (simp add: estimated_bytes_def sample_text_row(2) sample_prefix_config_def)
    have c3: "materialize sample_tool_env 7 (text_files_under_prefix (ts_files sample_tools) 7 []) 0 sample_tools = (st, Inr v)"
      unfolding rows by (rule v)
    have c4: "mark_prefix_covered (tv_stamp sample_tool_env) 7 [] (int (length (text_files_under_prefix (ts_files sample_tools) 7 []))) v
        (ts_coverage st) = Inr cov"
      unfolding rows m(2) using cov by (simp add: sample_tool_env_def)
    from ensure_prefix_copies [OF c1 c2 c3 c4] show ?thesis by blast
  qed
  then obtain st' where p: "ensure_prefix sample_tool_env sample_prefix_config 7 [] sample_tools = (st', Inr ())" by blast
  have "coverage_ok sample_tool_env sample_tools" by (simp add: coverage_ok_def covers_def read_coverage_def sample_tools_def)
  moreover have "rows_ok (ts_files sample_tools)"
    by (simp add: rows_ok_def sample_tools_def sample_row_fields(1) sample_content(4))
  moreover have "normalize_prefix [] = Inr []" by (simp add: normalize_prefix_def)
  ultimately have "cached sample_tool_env (ts_fs st') 7 sample_row"
    using coverage_sound [OF _ _ _ _ p] sample_text_row(1) by (auto simp: sample_tools_def starts_with_def)
  with p show ?thesis by blast
qed

section \<open>Where the tools go wrong\<close>

text \<open>
  The prefix of a dot is normalised to a slash, below which no file lies, but recorded as the empty prefix: after one
  search below \<^verbatim>\<open>.\<close> the whole snapshot counts as covered although nothing was copied.
\<close>

lemma dot_prefix_covers_nothing:
  "normalize_prefix ''.'' = Inr ''/'' \<and>
   (\<exists>st'. ensure_prefix sample_tool_env sample_prefix_config 7 ''/'' sample_tools = (st', Inr ()) \<and> ts_fs st' = Map.empty \<and>
      is_prefix_covered (ts_coverage st') 7 [] = Inr True)"
proof
  show "normalize_prefix ''.'' = Inr ''/''" by code_simp
  have n: "normalize_prefix ''/'' = Inr []" by code_simp
  have rows: "text_files_under_prefix (ts_files sample_tools) 7 ''/'' = []"
    by (simp only: text_files_under_prefix_def like_escape_starts) (simp add: sample_tools_def sample_row_fields(1) starts_with_def)
  obtain cov where cov: "mark_prefix_covered [] 7 ''/'' 0 0 Map.empty = Inr cov"
    by (simp add: mark_prefix_covered_def n read_coverage_def)
  obtain f where f: "read_coverage cov 7 = Inr f" "cf_prefixes f = [\<lparr>cp_prefix = [], cp_completed_at = [], cp_file_count = 0, cp_bytes = 0\<rparr>]"
    using mark_prefix_covered_result [OF cov] by (auto simp: n read_coverage_def)
  have "is_prefix_covered Map.empty 7 ''/'' = Inr False" by (simp add: is_prefix_covered_def n read_coverage_def)
  then have "ensure_prefix sample_tool_env sample_prefix_config 7 ''/'' sample_tools = (sample_tools\<lparr>ts_coverage := cov\<rparr>, Inr ())"
    using cov by (intro ensure_prefix_copies, unfold rows)
      (simp_all add: sample_tools_def estimated_bytes_def sample_prefix_config_def sample_tool_env_def)
  moreover have "is_prefix_covered cov 7 [] = Inr True" using f by (simp add: is_prefix_covered_def normalize_prefix_def)
  ultimately show "\<exists>st'. ensure_prefix sample_tool_env sample_prefix_config 7 ''/'' sample_tools = (st', Inr ()) \<and> ts_fs st' = Map.empty \<and>
      is_prefix_covered (ts_coverage st') 7 [] = Inr True" by (simp add: sample_tools_def)
qed

text \<open>
  A copy that fails half way leaves the coverage file untrue. The files \<^verbatim>\<open>d/a\<close>, \<^verbatim>\<open>d/a-b\<close>, \<^verbatim>\<open>d/a-b.tmp/c\<close> and
  \<^verbatim>\<open>d/a.tmp\<close> are copied with the prefix \<^verbatim>\<open>d\<close>. The prefix of the whole snapshot copies them again: writing \<^verbatim>\<open>d/a\<close> removes
  \<^verbatim>\<open>d/a.tmp\<close>, and writing \<^verbatim>\<open>d/a-b\<close> fails since its temporary file is now a directory. The file \<^verbatim>\<open>d/a.tmp\<close> is gone, but
  its prefix still counts as covered.
\<close>

definition tmp_rows :: "file_row list" where
  "tmp_rows = map (\<lambda>p. \<lparr>fr_snapshot_id = 7, fr_path = p, fr_path_hash = [], fr_parent_path = Some ''d'', fr_name = drop 2 p,
     fr_entry_kind = ''file'', fr_git_mode = None, fr_git_blob_oid = None, fr_content_key = Some ''k'', fr_content_hash = None,
     fr_size_bytes = Some 1, fr_line_count = None, fr_is_binary = False, fr_is_large = False\<rparr>)
     [''d/a'', ''d/a-b'', ''d/a-b.tmp/c'', ''d/a.tmp'']"

definition tmp_tools :: tool_state where
  "tmp_tools =
     \<lparr>ts_files = tmp_rows, ts_storage = put_bytes empty_store ''k'' ''x'' [], ts_fs = Map.empty, ts_coverage = Map.empty, ts_evidence = []\<rparr>"

abbreviation tmp_dir :: fs_path where
  "tmp_dir \<equiv> [''cache'', ''snapshots'', uuid_str 7, ''files'', ''d'']"

lemma tmp_targets:
  "file_path [''cache''] 7 ''d/a'' = Inr (tmp_dir @ [''a''])" "file_path [''cache''] 7 ''d/a-b'' = Inr (tmp_dir @ [''a-b''])"
  "file_path [''cache''] 7 ''d/a-b.tmp/c'' = Inr (tmp_dir @ [''a-b.tmp'', ''c''])"
  "file_path [''cache''] 7 ''d/a.tmp'' = Inr (tmp_dir @ [''a.tmp''])"
  by code_simp+

lemma tmp_copies:
  "case materialize sample_tool_env 7 tmp_rows 0 tmp_tools of (st1, r1) \<Rightarrow>
     r1 = Inr 4 \<and> ts_files st1 = tmp_rows \<and> ts_coverage st1 = Map.empty \<and> is_file (ts_fs st1) (tmp_dir @ [''a.tmp'']) \<and>
     (case materialize sample_tool_env 7 tmp_rows 0 (st1\<lparr>ts_coverage := cov\<rparr>) of (st2, r2) \<Rightarrow>
        r2 = Inl TOsError \<and> ts_coverage st2 = cov \<and> \<not> is_file (ts_fs st2) (tmp_dir @ [''a.tmp'']))"
  by (simp add: tmp_rows_def tmp_tools_def sample_tool_env_def fetch_content_def hash_matches_def mem_store.get_put
      cache_write_def write_file_def tmp_targets tmp_path_def write_bytes_def replace_file_def is_dir_def add_dir_def lift_cache_def
      cache_exception_def is_file_def)

lemma failed_copy_loses_covered_file:
  "\<exists>st1 st2. ensure_prefix sample_tool_env sample_prefix_config 7 ''d/'' tmp_tools = (st1, Inr ()) \<and>
     ensure_prefix sample_tool_env sample_prefix_config 7 [] st1 = (st2, Inl TOsError) \<and>
     (\<exists>t. file_path (tv_root_dir sample_tool_env) 7 ''d/a.tmp'' = Inr t \<and> is_file (ts_fs st1) t \<and> \<not> is_file (ts_fs st2) t) \<and>
     is_prefix_covered (ts_coverage st2) 7 ''d/'' = Inr True"
proof -
  have rows: "text_files_under_prefix tmp_rows 7 ''d/'' = tmp_rows" "text_files_under_prefix tmp_rows 7 [] = tmp_rows" by code_simp+
  have norm: "normalize_prefix ''d/'' = Inr ''d/''" "normalize_prefix [] = Inr []" by code_simp+
  have size: "estimated_bytes tmp_rows = 4" by (simp add: estimated_bytes_def tmp_rows_def)
  obtain cov where cov: "mark_prefix_covered [] 7 ''d/'' 4 4 Map.empty = Inr cov"
    by (simp add: mark_prefix_covered_def norm read_coverage_def)
  obtain f where f: "read_coverage cov 7 = Inr f"
      "cf_prefixes f = [\<lparr>cp_prefix = ''d/'', cp_completed_at = [], cp_file_count = 4, cp_bytes = 4\<rparr>]"
    using mark_prefix_covered_result [OF cov] by (auto simp: norm read_coverage_def)
  obtain s1 where s1: "materialize sample_tool_env 7 tmp_rows 0 tmp_tools = (s1, Inr 4)" "ts_files s1 = tmp_rows"
      "ts_coverage s1 = Map.empty" "is_file (ts_fs s1) (tmp_dir @ [''a.tmp''])"
    using tmp_copies [of cov] by (auto split: prod.splits)
  obtain st2 where st2: "materialize sample_tool_env 7 tmp_rows 0 (s1\<lparr>ts_coverage := cov\<rparr>) = (st2, Inl TOsError)" "ts_coverage st2 = cov"
      "\<not> is_file (ts_fs st2) (tmp_dir @ [''a.tmp''])"
    using tmp_copies [of cov] s1 by (auto split: prod.splits)
  have t: "ts_files tmp_tools = tmp_rows" "ts_coverage tmp_tools = Map.empty" "length tmp_rows = 4" by (simp_all add: tmp_tools_def tmp_rows_def)
  have "is_prefix_covered Map.empty 7 ''d/'' = Inr False" by (simp add: is_prefix_covered_def norm read_coverage_def)
  then have "ensure_prefix sample_tool_env sample_prefix_config 7 ''d/'' tmp_tools = (s1\<lparr>ts_coverage := cov\<rparr>, Inr ())"
    using s1(1,3) cov by (intro ensure_prefix_copies) (simp_all add: t rows size sample_prefix_config_def sample_tool_env_def)
  moreover have "is_prefix_covered cov 7 [] = Inr False" using f by (simp add: is_prefix_covered_def norm starts_with_def)
  then have "ensure_prefix sample_tool_env sample_prefix_config 7 [] (s1\<lparr>ts_coverage := cov\<rparr>) = (st2, Inl TOsError)"
    using st2(1) s1(2) unfolding ensure_prefix_locked_eq
    by (simp add: ensure_prefix_locked_def rows size Let_def) (simp add: sample_prefix_config_def)
  moreover have "is_prefix_covered (ts_coverage st2) 7 ''d/'' = Inr True" using f st2(2) by (simp add: is_prefix_covered_def norm starts_with_def)
  moreover have "file_path (tv_root_dir sample_tool_env) 7 ''d/a.tmp'' = Inr (tmp_dir @ [''a.tmp''])"
    using tmp_targets(4) by (simp add: sample_tool_env_def)
  ultimately show ?thesis using s1(4) st2(3) by (intro exI [of _ "s1\<lparr>ts_coverage := cov\<rparr>"] exI [of _ st2]) simp
qed

text \<open>
  The permission engine looks at the path as it was given: with a dot at its end a secret name is not the last
  component any more and the call is allowed, although the file opened would be the secret one.
\<close>

lemma dot_hides_secret_name:
  "evaluate_result [''read_file''] ''read_file'' [(''path'', JStr ''.env/.'')] =
     Inr \<lparr>pr_decision = ALLOW, pr_reason_code = ''ALLOWED'', pr_message = ''Tool call is allowed.'', pr_tool = Some (source_tool ''read_file'')\<rparr> \<and>
   normalize_repo_path ''.env/.'' = Inr ''.env'' \<and> is_secret_path ''.env''"
  by code_simp

text \<open>
  The rows of secret paths are dropped after the page was fetched: with one of them among the rows of a page, the page
  has no successor although there are more rows.
\<close>

definition listed_rows :: "file_row list" where
  "listed_rows = map (\<lambda>p. \<lparr>fr_snapshot_id = 7, fr_path = p, fr_path_hash = [], fr_parent_path = Some ''a'', fr_name = drop 2 p,
     fr_entry_kind = ''file'', fr_git_mode = None, fr_git_blob_oid = None, fr_content_key = None, fr_content_hash = None,
     fr_size_bytes = None, fr_line_count = None, fr_is_binary = False, fr_is_large = False\<rparr>) [''a/.env'', ''a/b.py'', ''a/c.py'']"

lemma listing_loses_rows:
  "listing_page [(''max_results'', JInt 1)] 100 (\<lambda>limit glob cursor. list_files listed_rows 7 (Some ''a'') False limit glob cursor) =
     Inr ([listed_rows ! 1], None) \<and>
   row_visible (listed_rows ! 2) \<and> \<not> is_secret_path (fr_path (listed_rows ! 2))"
  by code_simp

end
