(* ===== verification/Web_Search.thy ===== *)
theory Web_Search
  imports Source_Tools
begin

text \<open>
  The web search tool (\<^verbatim>\<open>SourceToolExecutor._web_search\<close> and its helpers in \<^verbatim>\<open>backend/execution/__init__.py\<close>): the
  request built from the arguments and the result built from the answer. The call of the search service is an
  argument; so is \<open>is_ip\<close>, the test whether \<^verbatim>\<open>ipaddress.ip_address\<close> accepts a string. \<^verbatim>\<open>date.fromisoformat\<close> is modelled
  as the documented calendar and week formats.
\<close>

section \<open>Dates\<close>

definition leap_year :: "nat \<Rightarrow> bool" where
  "leap_year y = (y mod 4 = 0 \<and> (y mod 100 \<noteq> 0 \<or> y mod 400 = 0))"

definition month_lengths :: "nat \<Rightarrow> nat list" where
  "month_lengths y = [31, if leap_year y then 29 else 28, 31, 30, 31, 30, 31, 31, 30, 31, 30, 31]"

definition valid_date :: "nat \<times> nat \<times> nat \<Rightarrow> bool" where
  "valid_date ymd =
     (case ymd of (y, m, d) \<Rightarrow>
        1 \<le> y \<and> y \<le> 9999 \<and> 1 \<le> m \<and> m \<le> 12 \<and> 1 \<le> d \<and> d \<le> month_lengths y ! (m - 1))"

definition days_before_year :: "nat \<Rightarrow> nat" where
  "days_before_year y = (y - 1) * 365 + (y - 1) div 4 - (y - 1) div 100 + (y - 1) div 400"

fun month_of_day :: "nat \<Rightarrow> nat list \<Rightarrow> nat \<Rightarrow> (nat \<times> nat) option" where
  "month_of_day m [] n = None"
| "month_of_day m (len # lens) n = (if n \<le> len then Some (m, n) else month_of_day (Suc m) lens (n - len))"

text \<open>The date with a proleptic Gregorian ordinal in or next to the year \<open>y\<close>.\<close>

definition date_of_ordinal :: "nat \<Rightarrow> nat \<Rightarrow> (nat \<times> nat \<times> nat) option" where
  "date_of_ordinal y n =
     (case find (\<lambda>z. days_before_year z < n \<and> n \<le> days_before_year (Suc z)) [y - 1, y, Suc y] of
        None \<Rightarrow> None
      | Some z \<Rightarrow> map_option (\<lambda>(m, d). (z, m, d)) (month_of_day 1 (month_lengths z) (n - days_before_year z)))"

text \<open>The week date: week 1 is the week of the year's first Thursday; weekdays count from Monday.\<close>

definition first_weekday :: "nat \<Rightarrow> nat" where
  "first_weekday y = (days_before_year y + 7) mod 7"

definition weeks_in_year :: "nat \<Rightarrow> nat" where
  "weeks_in_year y = (if first_weekday y = 3 \<or> first_weekday y = 2 \<and> leap_year y then 53 else 52)"

definition week_date :: "nat \<Rightarrow> nat \<Rightarrow> nat \<Rightarrow> (nat \<times> nat \<times> nat) option" where
  "week_date y week day =
     (if y < 1 \<or> week < 1 \<or> weeks_in_year y < week \<or> day < 1 \<or> 7 < day then None
      else let monday = days_before_year y + 1 + (if first_weekday y > 3 then 7 else 0)
           in date_of_ordinal y (monday + (week - 1) * 7 + (day - 1) - first_weekday y))"

definition digits_of :: "string \<Rightarrow> nat option" where
  "digits_of s = (if s \<noteq> [] \<and> list_all is_digit s then Some (read_nat s) else None)"

definition calendar_date :: "string \<Rightarrow> string \<Rightarrow> string \<Rightarrow> (nat \<times> nat \<times> nat) option" where
  "calendar_date y m d =
     Option.bind (digits_of y) (\<lambda>y. Option.bind (digits_of m) (\<lambda>m. Option.bind (digits_of d) (\<lambda>d. Some (y, m, d))))"

definition week_date_of :: "string \<Rightarrow> string \<Rightarrow> string \<Rightarrow> (nat \<times> nat \<times> nat) option" where
  "week_date_of y w d =
     Option.bind (digits_of y) (\<lambda>y. Option.bind (digits_of w) (\<lambda>w. Option.bind (digits_of d) (\<lambda>d. week_date y w d)))"

definition fromisoformat :: "string \<Rightarrow> (nat \<times> nat \<times> nat) option" where
  "fromisoformat s =
     (let at = (\<lambda>i. s ! i); part = (\<lambda>i n. take n (drop i s));
          ymd = (if length s = 10 \<and> at 4 = CHR ''-'' \<and> at 7 = CHR ''-'' then calendar_date (part 0 4) (part 5 2) (part 8 2)
                 else if length s = 10 \<and> at 4 = CHR ''-'' \<and> at 5 = CHR ''W'' \<and> at 8 = CHR ''-''
                 then week_date_of (part 0 4) (part 6 2) (part 9 1)
                 else if length s = 8 \<and> at 4 = CHR ''-'' \<and> at 5 = CHR ''W'' then week_date_of (part 0 4) (part 6 2) ''1''
                 else if length s = 8 \<and> at 4 = CHR ''W'' then week_date_of (part 0 4) (part 5 2) (part 7 1)
                 else if length s = 8 then calendar_date (part 0 4) (part 4 2) (part 6 2)
                 else if length s = 7 \<and> at 4 = CHR ''W'' then week_date_of (part 0 4) (part 5 2) ''1''
                 else None)
      in case ymd of None \<Rightarrow> None | Some d \<Rightarrow> if valid_date d then Some d else None)"

definition pad_digits :: "nat \<Rightarrow> nat \<Rightarrow> string" where
  "pad_digits n x = (let s = show_nat x in replicate (n - length s) (CHR ''0'') @ s)"

definition isoformat :: "nat \<times> nat \<times> nat \<Rightarrow> string" where
  "isoformat ymd = (case ymd of (y, m, d) \<Rightarrow> pad_digits 4 y @ ''-'' @ pad_digits 2 m @ ''-'' @ pad_digits 2 d)"

definition date_arg :: "json \<Rightarrow> string \<Rightarrow> tool_exception + (nat \<times> nat \<times> nat)" where
  "date_arg value n =
     (case fromisoformat (py_strip (py_str value)) of
        None \<Rightarrow> Inl (TValueError (n @ '' must be a YYYY-MM-DD date''))
      | Some d \<Rightarrow> Inr d)"

section \<open>Domains\<close>

text \<open>\<^verbatim>\<open>str.isalnum\<close> of one character, up to code point 255\<close>

definition is_alnum_char :: "char \<Rightarrow> bool" where
  "is_alnum_char c =
     (let n = code_point c
      in is_digit c \<or> is_lower_ascii c \<or> 65 \<le> n \<and> n \<le> 90 \<or> n \<in> {170, 178, 179, 181, 185, 186, 188, 189, 190} \<or>
         192 \<le> n \<and> n \<noteq> 215 \<and> n \<noteq> 247)"

definition domain_label :: "string \<Rightarrow> bool" where
  "domain_label label =
     (label \<noteq> [] \<and> filter (\<lambda>c. c \<noteq> CHR ''-'') label \<noteq> [] \<and> list_all is_alnum_char (filter (\<lambda>c. c \<noteq> CHR ''-'') label) \<and>
      \<not> starts_with ''-'' label \<and> \<not> ends_with ''-'' label)"

definition is_public_domain :: "(string \<Rightarrow> bool) \<Rightarrow> string \<Rightarrow> bool" where
  "is_public_domain is_ip domain =
     (if domain = [] \<or> contains_sub ''://'' domain \<or> CHR ''/'' \<in> set domain \<or> ends_with ''.'' domain then False
      else if domain = ''localhost'' \<or> domain = ''local'' \<or> ends_with ''.local'' domain then False
      else if is_ip domain then False
      else let labels = split_on (CHR ''.'') domain in 2 \<le> length labels \<and> list_all domain_label labels)"

fun domain_items :: "(string \<Rightarrow> bool) \<Rightarrow> json list \<Rightarrow> tool_exception + string list" where
  "domain_items is_ip [] = Inr []"
| "domain_items is_ip (item # items) =
     (let domain = py_lower (py_strip (py_str item))
      in if \<not> is_public_domain is_ip domain then Inl (TValueError (''invalid domain: '' @ domain))
         else rbind (domain_items is_ip items) (\<lambda>ds. Inr (domain # ds)))"

definition domain_list :: "(string \<Rightarrow> bool) \<Rightarrow> json \<Rightarrow> tool_exception + string list" where
  "domain_list is_ip value =
     (case value of
        JNull \<Rightarrow> Inr []
      | JList raw_items \<Rightarrow>
          if 20 < length raw_items then Inl (TValueError ''domains must contain at most 20 items'')
          else domain_items is_ip raw_items
      | _ \<Rightarrow> Inl (TValueError ''domains must be an array''))"

section \<open>The request\<close>

record web_config =
  wc_max_results :: int
  wc_timeout_seconds :: int
  wc_max_query_chars :: int

definition optional_date :: "(string \<times> json) list \<Rightarrow> string \<Rightarrow> tool_exception + string option" where
  "optional_date arguments n =
     (let value = obj_get arguments n
      in if truthy value then rbind (date_arg value n) (\<lambda>d. Inr (Some (isoformat d))) else Inr None)"

definition optional_range :: "(string \<times> json) list \<Rightarrow> tool_exception + string option" where
  "optional_range arguments =
     (if truthy (obj_get arguments ''time_range'')
      then rbind (enum_arg arguments ''time_range'' [] [''day'', ''week'', ''month'', ''year'']) (\<lambda>v. Inr (Some v))
      else Inr None)"

definition optional_field :: "string \<Rightarrow> json option \<Rightarrow> (string \<times> json) list" where
  "optional_field n v = (case v of None \<Rightarrow> [] | Some x \<Rightarrow> [(n, x)])"

definition domains_field :: "string \<Rightarrow> string list \<Rightarrow> (string \<times> json) list" where
  "domains_field n ds = (if ds = [] then [] else [(n, JList (map JStr ds))])"

text \<open>The body of the \<^verbatim>\<open>try\<close> that builds \<^verbatim>\<open>request\<close>, in the order of its checks.\<close>

definition web_request :: "(string \<Rightarrow> bool) \<Rightarrow> web_config \<Rightarrow> string \<Rightarrow> (string \<times> json) list \<Rightarrow> tool_exception + (string \<times> json) list" where
  "web_request is_ip config query arguments =
     rbind (bounded_int_arg arguments ''max_results'' (wc_max_results config) 1 (min (wc_max_results config) 10)) (\<lambda>max_results.
     rbind (enum_arg arguments ''search_depth'' ''basic'' [''basic'', ''advanced'']) (\<lambda>search_depth.
     rbind (enum_arg arguments ''topic'' ''general'' [''general'', ''news'', ''finance'']) (\<lambda>topic.
     rbind (optional_range arguments) (\<lambda>time_range.
     rbind (optional_date arguments ''start_date'') (\<lambda>start_date.
     rbind (optional_date arguments ''end_date'') (\<lambda>end_date.
     rbind (case (start_date, end_date) of
              (Some a, Some b) \<Rightarrow>
                if b < a then Inl (TValueError ''start_date must be before or equal to end_date'') else Inr ()
            | _ \<Rightarrow> Inr ()) (\<lambda>_.
     rbind (domain_list is_ip (obj_get arguments ''include_domains'')) (\<lambda>include_domains.
     rbind (domain_list is_ip (obj_get arguments ''exclude_domains'')) (\<lambda>exclude_domains.
       Inr ([(''query'', JStr query), (''search_depth'', JStr search_depth), (''max_results'', JInt max_results),
             (''topic'', JStr topic), (''include_raw_content'', JBool False), (''include_answer'', JBool False),
             (''include_images'', JBool False)] @
            optional_field ''time_range'' (map_option JStr time_range) @
            optional_field ''start_date'' (map_option JStr start_date) @
            optional_field ''end_date'' (map_option JStr end_date) @
            domains_field ''include_domains'' include_domains @ domains_field ''exclude_domains'' exclude_domains))))))))))"

section \<open>The answer\<close>

text \<open>What the call of the service does: an answer, a timeout, another \<^verbatim>\<open>OSError\<close>, or an exception with a message
  (its text, or the name of its type where the text is empty).\<close>

datatype web_outcome = WebAnswer json | WebTimeout | WebOsError | WebRaised string

type_synonym web_client = "(string \<times> json) list \<Rightarrow> web_outcome"

definition domain_from_url :: "string \<Rightarrow> tool_exception + json" where
  "domain_from_url url =
     (case urlsplit url of
        None \<Rightarrow> Inl (TValueError ''Invalid IPv6 URL'')
      | Some u \<Rightarrow> Inr (if url_netloc u = [] then JNull else JStr (url_netloc u)))"

definition web_search_result :: "(string \<times> json) list \<Rightarrow> tool_exception + json" where
  "web_search_result item =
     rbind (let domain = obj_get item ''domain''
            in if truthy domain then Inr domain else domain_from_url (str_or (obj_get item ''url'') [])) (\<lambda>domain.
       Inr (JObj [(''title'', JStr (str_or (obj_get item ''title'') [])), (''url'', JStr (str_or (obj_get item ''url'') [])),
                  (''content'', JStr (str_or (obj_get item ''content'') [])), (''score'', obj_get item ''score''),
                  (''published_date'', obj_get item ''published_date''), (''domain'', domain)]))"

fun web_results :: "(string \<times> json) list list \<Rightarrow> tool_exception + json list" where
  "web_results [] = Inr []"
| "web_results (item # items) =
     rbind (web_search_result item) (\<lambda>r. rbind (web_results items) (\<lambda>rs. Inr (r # rs)))"

definition web_error :: "string \<Rightarrow> string \<Rightarrow> bool \<Rightarrow> (string \<times> json) list" where
  "web_error code message retryable = tool_error_envelope ''web_search'' code message retryable"

definition finish_web_search :: "tool_context \<Rightarrow> string \<Rightarrow> (string \<times> json) list \<Rightarrow> tool_state \<Rightarrow> ((string \<times> json) list) tool_result" where
  "finish_web_search ctx query answer st =
     (case web_results (json_object_list (obj_get answer ''results'')) of
        Inl e \<Rightarrow> (st, Inl e)
      | Inr results \<Rightarrow>
          (case ok_with_ref ctx ''web_search''
                  (JObj ([(''query'', obj_get_default answer ''query'' (JStr query)), (''results'', JList results)] @
                         (if obj_get answer ''response_time'' = JNull then []
                          else [(''response_time'', obj_get answer ''response_time'')])))
                  [] False JNull
                  [(''type'', JStr ''external_web''), (''snapshot_id'', JStr (uuid_str (cx_snapshot_id ctx))),
                   (''provider'', JStr ''tavily'')] st of
             (st1, body) \<Rightarrow> (st1, Inr body)))"

definition tool_web_search ::
  "(string \<Rightarrow> bool) \<Rightarrow> web_client \<Rightarrow> string \<Rightarrow> web_config \<Rightarrow> tool_context \<Rightarrow> (string \<times> json) list \<Rightarrow> tool_state \<Rightarrow>
   ((string \<times> json) list) tool_result" where
  "tool_web_search is_ip client api_key config ctx arguments st =
     (let query = py_strip (str_or (obj_get arguments ''query'') [])
      in if api_key = [] then (st, Inr (web_error ''WEB_SEARCH_NOT_CONFIGURED'' ''Web search is not configured.'' False))
         else if query = [] then (st, Inr (web_error ''INVALID_ARGUMENTS'' ''query must not be empty.'' False))
         else if int (length query) > wc_max_query_chars config
         then (st, Inr (web_error ''INVALID_ARGUMENTS'' (''query exceeds '' @ show_int (wc_max_query_chars config) @ '' characters.'') False))
         else (case web_request is_ip config query arguments of
                 Inl (TValueError m) \<Rightarrow> (st, Inr (web_error ''INVALID_ARGUMENTS'' m False))
               | Inl e \<Rightarrow> (st, Inl e)
               | Inr request \<Rightarrow>
                   (case client request of
                      WebTimeout \<Rightarrow> (st, Inl TTimeoutError)
                    | WebOsError \<Rightarrow> (st, Inr (web_error ''WEB_SEARCH_FAILED'' ''Web search request failed.'' True))
                    | WebRaised m \<Rightarrow> (st, Inr (web_error ''WEB_SEARCH_FAILED'' (trim_error_output m) True))
                    | WebAnswer (JObj answer) \<Rightarrow> finish_web_search ctx query answer st
                    | WebAnswer _ \<Rightarrow> (st, Inl TOther))))"

section \<open>Dates as strings\<close>

lemma read_nat_bound: "list_all is_digit s \<Longrightarrow> read_nat s < 10 ^ length s"
proof (induction s rule: rev_induct)
  case (snoc c s)
  moreover have "digit_value c < 10" using snoc.prems by (auto simp: is_digit_def digit_value_def Let_def)
  ultimately show ?case by (simp add: read_nat_snoc)
qed (simp add: read_nat_def)

lemma read_nat_Cons: "read_nat (c # s) = digit_value c * 10 ^ length s + read_nat s"
proof (induction s rule: rev_induct)
  case (snoc x s)
  have "read_nat (c # s @ [x]) = 10 * read_nat (c # s) + digit_value x" using read_nat_snoc [of "c # s" x] by simp
  then show ?case using snoc by (simp add: read_nat_snoc algebra_simps)
qed (simp add: read_nat_def)

lemma digit_less: "is_digit c \<Longrightarrow> is_digit d \<Longrightarrow> c < d \<longleftrightarrow> digit_value c < digit_value d"
  by (auto simp: less_char_def is_digit_def digit_value_def code_point_def Let_def)

lemma digit_eq: "is_digit c \<Longrightarrow> is_digit d \<Longrightarrow> c = d \<longleftrightarrow> digit_value c = digit_value d"
  by (metis digit_less less_irrefl neqE)

text \<open>On numerals of one length the order of strings is the order of the numbers.\<close>

lemma numeral_order:
  "length s = length t \<Longrightarrow> list_all is_digit s \<Longrightarrow> list_all is_digit t \<Longrightarrow> s < t \<longleftrightarrow> read_nat s < read_nat t"
proof (induction s t rule: list_induct2)
  case (Cons c s d t)
  have b: "read_nat s < 10 ^ length t" "read_nat t < 10 ^ length t"
    using read_nat_bound [of s] read_nat_bound [of t] Cons by simp_all
  consider "digit_value c < digit_value d" | "digit_value c = digit_value d" | "digit_value d < digit_value c" by linarith
  then show ?case
  proof cases
    case 1
    then have "(digit_value c + 1) * 10 ^ length t \<le> digit_value d * 10 ^ length t" by (intro mult_right_mono) simp_all
    then show ?thesis using b 1 Cons by (simp add: read_nat_Cons digit_less digit_eq)
  next
    case 3
    then have "(digit_value d + 1) * 10 ^ length t \<le> digit_value c * 10 ^ length t" by (intro mult_right_mono) simp_all
    then show ?thesis using b 3 Cons by (simp add: read_nat_Cons digit_less digit_eq)
  qed (use Cons in \<open>simp add: read_nat_Cons digit_less digit_eq\<close>)
qed (simp add: read_nat_def)

lemma append_order: "length (s :: string) = length t \<Longrightarrow> s @ u < t @ v \<longleftrightarrow> s < t \<or> s = t \<and> u < v"
  by (induction s t rule: list_induct2) auto

lemma length_show_nat: "x < 10 ^ n \<Longrightarrow> 0 < n \<Longrightarrow> length (show_nat x) \<le> n"
proof (induction x arbitrary: n rule: show_nat.induct)
  case (1 x)
  show ?case
  proof (cases "x < 10")
    case False
    then obtain k where k: "n = Suc (Suc k)" using 1 by (cases n; cases "n - 1") auto
    then have "length (show_nat (x div 10)) \<le> Suc k" using 1 False by (intro 1(1)) auto
    then show ?thesis using False k by (simp add: show_nat.simps [of x])
  qed (use 1 in \<open>simp add: show_nat.simps [of x]\<close>)
qed

lemma read_nat_zeros: "read_nat (replicate k (CHR ''0'') @ s) = read_nat s"
  by (induction k) (simp_all add: read_nat_Cons digit_value_def code_point_def)

lemma pad_digits_numeral:
  assumes "x < 10 ^ n" "0 < n"
  shows "length (pad_digits n x) = n" "list_all is_digit (pad_digits n x)" "read_nat (pad_digits n x) = x"
  using length_show_nat [OF assms] show_nat_digits [of _ x]
  by (auto simp: pad_digits_def Let_def read_nat_zeros list_all_iff is_digit_def code_point_def)

lemma pad_digits_order:
  assumes "x < 10 ^ n" "y < 10 ^ n" "0 < n"
  shows "pad_digits n x < pad_digits n y \<longleftrightarrow> x < y" "pad_digits n x = pad_digits n y \<longleftrightarrow> x = y"
proof -
  note x = pad_digits_numeral [OF assms(1,3)] and y = pad_digits_numeral [OF assms(2,3)]
  show "pad_digits n x < pad_digits n y \<longleftrightarrow> x < y" using numeral_order [of "pad_digits n x" "pad_digits n y"] x y by simp
  show "pad_digits n x = pad_digits n y \<longleftrightarrow> x = y" using x y by metis
qed

lemma valid_date_bounds:
  assumes "valid_date (y, m, d)"
  shows "y < 10 ^ 4" "m < 10 ^ 2" "d < 10 ^ 2"
proof -
  have "month_lengths y ! (m - 1) \<le> 31" if "m - 1 < 12"
    using that by (auto simp: month_lengths_def nth_Cons' split: if_splits)
  moreover have "m - 1 < 12" "d \<le> month_lengths y ! (m - 1)" using assms by (auto simp: valid_date_def)
  ultimately have "d \<le> 31" by simp
  then show "y < 10 ^ 4" "m < 10 ^ 2" "d < 10 ^ 2" using assms by (auto simp: valid_date_def)
qed

lemma isoformat_order:
  assumes "valid_date a" "valid_date b"
  shows "isoformat a < isoformat b \<longleftrightarrow> a < b"
proof -
  obtain y m d y' m' d' where ab: "a = (y, m, d)" "b = (y', m', d')" by (metis prod_cases3)
  note va = valid_date_bounds [OF assms(1) [unfolded ab]] and vb = valid_date_bounds [OF assms(2) [unfolded ab]]
  note n = pad_digits_numeral [OF va(1)] pad_digits_numeral [OF va(2)] pad_digits_numeral [OF va(3)]
    pad_digits_numeral [OF vb(1)] pad_digits_numeral [OF vb(2)] pad_digits_numeral [OF vb(3)]
  note o = pad_digits_order [OF va(1) vb(1)] pad_digits_order [OF va(2) vb(2)] pad_digits_order [OF va(3) vb(3)]
  show ?thesis unfolding ab isoformat_def prod.case
    by (subst append_order, simp add: n, subst append_order, simp, subst append_order, simp add: n, subst append_order, simp)
      (auto simp: o less_prod_def')
qed

section \<open>What a request may ask\<close>

lemma date_arg_valid: "date_arg v n = Inr d \<Longrightarrow> valid_date d"
  by (auto simp: date_arg_def fromisoformat_def Let_def split: option.splits if_splits)

lemma optional_date_valid: "optional_date arguments n = Inr (Some s) \<Longrightarrow> \<exists>d. valid_date d \<and> s = isoformat d"
  by (auto simp: optional_date_def Let_def result_simps dest: date_arg_valid split: if_splits)

lemma domain_items_public:
  "domain_items is_ip items = Inr ds \<Longrightarrow> length ds = length items \<and> list_all (is_public_domain is_ip) ds"
  by (induction items arbitrary: ds) (auto simp: Let_def result_simps split: if_splits)

lemma domain_list_public: "domain_list is_ip v = Inr ds \<Longrightarrow> length ds \<le> 20 \<and> list_all (is_public_domain is_ip) ds"
  by (auto simp: domain_list_def dest: domain_items_public split: json.splits if_splits)

lemma bounded_int_arg_bounds: "bounded_int_arg arguments n dflt lo hi = Inr x \<Longrightarrow> lo \<le> x \<and> x \<le> hi"
  by (auto simp: bounded_int_arg_def result_simps split: if_splits)

lemma enum_arg_allowed: "enum_arg arguments n dflt allowed = Inr x \<Longrightarrow> x \<in> set allowed"
  by (auto simp: enum_arg_def Let_def split: if_splits)

lemma web_request_fields:
  assumes "web_request is_ip config query arguments = Inr request"
  obtains n depth tp time_range start stop incl excl where
    "request = [(''query'', JStr query), (''search_depth'', JStr depth), (''max_results'', JInt n), (''topic'', JStr tp),
       (''include_raw_content'', JBool False), (''include_answer'', JBool False), (''include_images'', JBool False)] @
       optional_field ''time_range'' (map_option JStr time_range) @ optional_field ''start_date'' (map_option JStr start) @
       optional_field ''end_date'' (map_option JStr stop) @ domains_field ''include_domains'' incl @ domains_field ''exclude_domains'' excl"
    "1 \<le> n" "n \<le> min (wc_max_results config) 10" "depth \<in> {''basic'', ''advanced''}" "tp \<in> {''general'', ''news'', ''finance''}"
    "optional_date arguments ''start_date'' = Inr start" "optional_date arguments ''end_date'' = Inr stop"
    "\<And>a b. start = Some a \<Longrightarrow> stop = Some b \<Longrightarrow> a \<le> b"
    "length incl \<le> 20" "list_all (is_public_domain is_ip) incl" "length excl \<le> 20" "list_all (is_public_domain is_ip) excl"
  using assms unfolding web_request_def rbind_eq_Inr
proof (elim exE conjE, goal_cases)
  case (1 n depth tp time_range start stop u incl excl)
  show ?case
    by (rule that [of depth n tp time_range start stop incl excl])
      (use bounded_int_arg_bounds [OF 1(2)] enum_arg_allowed [OF 1(3)] enum_arg_allowed [OF 1(4)] 1(6-8,11)
        domain_list_public [OF 1(9)] domain_list_public [OF 1(10)] in \<open>auto split: if_splits\<close>)
qed

lemma optional_lookup:
  "map_of (optional_field n v @ rest) n = (case v of None \<Rightarrow> map_of rest n | Some x \<Rightarrow> Some x)"
  "k \<noteq> n \<Longrightarrow> map_of (optional_field n v @ rest) k = map_of rest k"
  "map_of (domains_field n ds @ rest) n = (if ds = [] then map_of rest n else Some (JList (map JStr ds)))"
  "map_of (domains_field n ds) n = (if ds = [] then None else Some (JList (map JStr ds)))"
  "k \<noteq> n \<Longrightarrow> map_of (domains_field n ds @ rest) k = map_of rest k"
  "k \<noteq> n \<Longrightarrow> map_of (domains_field n ds) k = None"
  by (simp_all add: optional_field_def domains_field_def split: option.splits)

definition request_body ::
  "string \<Rightarrow> string \<Rightarrow> int \<Rightarrow> string \<Rightarrow> string option \<Rightarrow> string option \<Rightarrow> string option \<Rightarrow> string list \<Rightarrow> string list \<Rightarrow> (string \<times> json) list" where
  "request_body query depth n tp time_range start stop incl excl =
     [(''query'', JStr query), (''search_depth'', JStr depth), (''max_results'', JInt n), (''topic'', JStr tp),
       (''include_raw_content'', JBool False), (''include_answer'', JBool False), (''include_images'', JBool False)] @
       optional_field ''time_range'' (map_option JStr time_range) @ optional_field ''start_date'' (map_option JStr start) @
       optional_field ''end_date'' (map_option JStr stop) @ domains_field ''include_domains'' incl @ domains_field ''exclude_domains'' excl"

lemma request_body_lookup:
  "map_of (request_body q depth n tp r start stop incl excl) ''max_results'' = Some (JInt n)"
  "map_of (request_body q depth n tp r start stop incl excl) ''start_date'' = map_option JStr start"
  "map_of (request_body q depth n tp r start stop incl excl) ''end_date'' = map_option JStr stop"
  "map_of (request_body q depth n tp r start stop incl excl) ''include_domains'' = (if incl = [] then None else Some (JList (map JStr incl)))"
  "map_of (request_body q depth n tp r start stop incl excl) ''exclude_domains'' = (if excl = [] then None else Some (JList (map JStr excl)))"
  by (simp_all add: request_body_def optional_lookup del: map_of_append split: option.splits)

text \<open>
  A request that reaches the search service is within its limits: between 1 and 10 results and no more than
  configured; both dates, when given, are real calendar dates and the first is not after the second, although
  the code compares their texts; at most 20 domains on each list, each of them public: not local, not an IP address,
  no path, at least two labels.
\<close>
theorem web_request_within_limits:
  assumes "web_request is_ip config query arguments = Inr request"
  shows "(\<exists>n. map_of request ''max_results'' = Some (JInt n) \<and> 1 \<le> n \<and> n \<le> 10 \<and> n \<le> wc_max_results config) \<and>
     (\<forall>a b. map_of request ''start_date'' = Some (JStr a) \<and> map_of request ''end_date'' = Some (JStr b) \<longrightarrow>
        (\<exists>x y. a = isoformat x \<and> b = isoformat y \<and> valid_date x \<and> valid_date y \<and> x \<le> y)) \<and>
     (\<forall>field \<in> {''include_domains'', ''exclude_domains''}. \<forall>ds. map_of request field = Some (JList ds) \<longrightarrow>
        length ds \<le> 20 \<and> (\<forall>d \<in> set ds. \<exists>s. d = JStr s \<and> is_public_domain is_ip s))"
proof (rule web_request_fields [OF assms], goal_cases)
  case (1 n depth tp time_range start stop incl excl)
  have body: "request = request_body query depth n tp time_range start stop incl excl" using 1(1) by (simp add: request_body_def)
  have dates: "\<exists>x y. a = isoformat x \<and> b = isoformat y \<and> valid_date x \<and> valid_date y \<and> x \<le> y"
    if given: "start = Some a" "stop = Some b" for a b
  proof -
    obtain x y where xy: "valid_date x" "a = isoformat x" "valid_date y" "b = isoformat y"
      using optional_date_valid 1(6,7) given by blast
    then have "x \<le> y" using 1(8) [OF given] isoformat_order [OF xy(3,1)] by (simp add: not_less [symmetric])
    then show ?thesis using xy by blast
  qed
  show ?case unfolding body request_body_lookup
    using 1(2,3) dates 1(9-) by (auto simp: request_body_lookup list_all_iff split: if_splits)
qed

definition sample_web_config :: web_config where
  "sample_web_config = \<lparr>wc_max_results = 10, wc_timeout_seconds = 20, wc_max_query_chars = 500\<rparr>"

definition sample_web_arguments :: "(string \<times> json) list" where
  "sample_web_arguments =
     [(''max_results'', JInt 99), (''start_date'', JStr ''20240101''), (''end_date'', JStr '' 2024-02-29 ''),
      (''include_domains'', JList [JStr ''Docs.Python.org''])]"

lemma sample_web_request:
  "web_request (\<lambda>s. False) sample_web_config ''q'' sample_web_arguments =
     Inr (request_body ''q'' ''basic'' 10 ''general'' None (Some ''2024-01-01'') (Some ''2024-02-29'') [''docs.python.org''] [])"
  by code_simp

theorem web_request_within_limits_witness:
  "\<exists>request. web_request (\<lambda>s. False) sample_web_config ''q'' sample_web_arguments = Inr request \<and>
     (\<exists>n. map_of request ''max_results'' = Some (JInt n) \<and> 1 \<le> n \<and> n \<le> 10) \<and>
     (\<exists>x y. map_of request ''start_date'' = Some (JStr (isoformat x)) \<and> map_of request ''end_date'' = Some (JStr (isoformat y)) \<and> x \<le> y)"
proof -
  let ?r = "request_body ''q'' ''basic'' 10 ''general'' None (Some ''2024-01-01'') (Some ''2024-02-29'') [''docs.python.org''] []"
  note limits = web_request_within_limits [OF sample_web_request]
  have start: "map_of ?r ''start_date'' = Some (JStr ''2024-01-01'')" and stop: "map_of ?r ''end_date'' = Some (JStr ''2024-02-29'')"
    by (simp_all add: request_body_lookup)
  obtain x y where "''2024-01-01'' = isoformat x" "''2024-02-29'' = isoformat y" "x \<le> y"
    using conjunct1 [OF conjunct2 [OF limits], rule_format, OF conjI, OF start stop] by blast
  then have "\<exists>x y. map_of ?r ''start_date'' = Some (JStr (isoformat x)) \<and> map_of ?r ''end_date'' = Some (JStr (isoformat y)) \<and> x \<le> y"
    unfolding start stop by metis
  then show ?thesis using conjunct1 [OF limits] sample_web_request by blast
qed

end
