(* ===== verification/Tool_Execution.thy ===== *)
theory Tool_Execution
  imports Web_Search Documents Todo
begin

text \<open>
  \<^verbatim>\<open>SourceToolExecutor.execute\<close> (\<^verbatim>\<open>backend/execution/__init__.py\<close>): the permission check, the dispatch to a tool, the
  document and TODO tools that call their services, and the treatment of what a tool raises. The ripgrep process and
  \<^verbatim>\<open>json.loads\<close> are arguments. The texts of an \<^verbatim>\<open>OSError\<close>, a missing stored object and a decoding error are not modelled
  and left empty.
\<close>

section \<open>ripgrep\<close>

text \<open>\<^verbatim>\<open>str.splitlines\<close>, up to code point 255\<close>

definition is_line_end :: "char \<Rightarrow> bool" where
  "is_line_end c = (code_point c \<in> {10, 11, 12, 13, 28, 29, 30, 133})"

fun py_splitlines :: "string \<Rightarrow> string \<Rightarrow> string list" where
  "py_splitlines acc [] = (if acc = [] then [] else [acc])"
| "py_splitlines acc (c # cs) =
     (if \<not> is_line_end c then py_splitlines (acc @ [c]) cs
      else acc # (if c = CHR 0x0D \<and> cs \<noteq> [] \<and> hd cs = newline then py_splitlines [] (tl cs) else py_splitlines [] cs))"

definition run_ripgrep_json ::
  "(bytes \<Rightarrow> string) \<Rightarrow> int \<Rightarrow> git_process \<Rightarrow> tool_exception + string \<times> bool \<times> int \<times> string" where
  "run_ripgrep_json decode max_output_bytes p =
     (case gp_returncode p of
        None \<Rightarrow> Inl TSearchTimeout
      | Some returncode \<Rightarrow>
          (case read_stdout max_output_bytes [] (joined_stdout p) of
             (stdout, was_cut) \<Rightarrow>
               Inr (decode stdout, was_cut, if was_cut \<and> returncode \<noteq> 0 \<and> returncode \<noteq> 1 then 0 else returncode,
                    decode (read_stderr 4096 [] (joined_stderr p)))))"

text \<open>The lines of the output as JSON values; the error text is \<^verbatim>\<open>stderr or output or "ripgrep failed"\<close>.\<close>

definition ripgrep_of ::
  "(bytes \<Rightarrow> string) \<Rightarrow> (string \<Rightarrow> json option) \<Rightarrow> search_config \<Rightarrow> (string list \<Rightarrow> filesystem \<Rightarrow> git_process option) \<Rightarrow> ripgrep" where
  "ripgrep_of decode json_loads config popen argv fs =
     (case popen argv fs of
        None \<Rightarrow> Inl TNoCommand
      | Some p \<Rightarrow>
          rbind (run_ripgrep_json decode (sx_max_output_bytes config) p) (\<lambda>(stdout, was_cut, returncode, err).
            Inr (map json_loads (py_splitlines [] stdout), was_cut, returncode,
                 if err \<noteq> [] then err else if stdout \<noteq> [] then stdout else ''ripgrep failed'')))"

section \<open>State\<close>

record exec_config =
  xc_enabled :: "string list"
  xc_read :: read_config
  xc_search :: search_config
  xc_cache :: cache_config
  xc_web :: web_config

record exec_env =
  xe_env :: tool_env
  xe_json_loads :: "string \<Rightarrow> json option"
  xe_popen :: "string list \<Rightarrow> filesystem \<Rightarrow> git_process option"
  xe_is_ip :: "string \<Rightarrow> bool"
  xe_client :: web_client
  xe_api_key :: string
  xe_documents :: doc_store

record exec_state =
  xs_tools :: tool_state
  xs_docs :: doc_db
  xs_todos :: todo_db

type_synonym exec_result = "exec_state \<times> (tool_exception + (string \<times> json) list)"

definition with_tools :: "exec_state \<Rightarrow> ((string \<times> json) list) tool_result \<Rightarrow> exec_result" where
  "with_tools st r = (case r of (ts, v) \<Rightarrow> (st\<lparr>xs_tools := ts\<rparr>, v))"

section \<open>Document tools\<close>

datatype doc_operation =
    DocFolder string string "uuid option" int | DocCreate create_args | DocGet uuid bool bool
  | DocUpdate uuid int string "json list" | DocDelete uuid int | DocFinalize uuid int | DocRefused string string

definition required_arg :: "(string \<times> json) list \<Rightarrow> string \<Rightarrow> tool_exception + json" where
  "required_arg arguments n = (case map_of arguments n of None \<Rightarrow> Inl (TKeyError n) | Some v \<Rightarrow> Inr v)"

definition uuid_arg :: "json \<Rightarrow> tool_exception + uuid" where
  "uuid_arg v =
     (case parse_uuid (py_str v) of None \<Rightarrow> Inl (TValueError ''badly formed hexadecimal UUID string'') | Some i \<Rightarrow> Inr i)"

definition optional_uuid_arg :: "json \<Rightarrow> tool_exception + uuid option" where
  "optional_uuid_arg v = (if v = JNull then Inr None else rbind (uuid_arg v) (\<lambda>i. Inr (Some i)))"

definition optional_text :: "json \<Rightarrow> string option" where
  "optional_text v = (if v = JNull then None else Some (py_str v))"

definition sections_arg :: "(string \<times> json) list \<Rightarrow> json list" where
  "sections_arg arguments = map JObj (json_object_list (obj_get arguments ''sections''))"

definition document_and_version :: "(string \<times> json) list \<Rightarrow> tool_exception + uuid \<times> int" where
  "document_and_version arguments =
     rbind (required_arg arguments ''document_id'') (\<lambda>v. rbind (uuid_arg v) (\<lambda>i.
     rbind (required_arg arguments ''expected_version'') (\<lambda>w. rbind (int_value w) (\<lambda>n. Inr (i, n)))))"

text \<open>The arguments of each document tool, read in the order of the call.\<close>

definition document_operation :: "string \<Rightarrow> (string \<times> json) list \<Rightarrow> tool_exception + doc_operation" where
  "document_operation tool_name arguments =
     (if tool_name = ''document_folder_create''
      then rbind (required_arg arguments ''title'') (\<lambda>title. rbind (required_arg arguments ''slug'') (\<lambda>slug.
           rbind (optional_uuid_arg (obj_get arguments ''parent_node_id'')) (\<lambda>parent.
           rbind (int_value (py_or (obj_get arguments ''sort_order'') (JInt 0))) (\<lambda>sort_order.
             Inr (DocFolder (py_str title) (py_str slug) parent sort_order)))))
      else if tool_name = ''document_create''
      then (let kind = str_or (obj_get arguments ''kind'') ''markdown''
            in if kind \<noteq> ''markdown'' then Inr (DocRefused ''INVALID_ARGUMENTS'' ''document kind must be markdown.'')
               else rbind (required_arg arguments ''title'') (\<lambda>title.
                    rbind (optional_uuid_arg (obj_get arguments ''parent_node_id'')) (\<lambda>parent.
                      Inr (DocCreate \<lparr>ca_title = py_str title, ca_kind = kind, ca_content = str_or (obj_get arguments ''content'') [],
                        ca_parent_node_id = parent, ca_slug = optional_text (obj_get arguments ''slug''),
                        ca_focus_area = optional_text (obj_get arguments ''focus_area''),
                        ca_sections = Some (sections_arg arguments)\<rparr>))))
      else if tool_name = ''document_get''
      then rbind (required_arg arguments ''document_id'') (\<lambda>v. rbind (uuid_arg v) (\<lambda>i.
             Inr (DocGet i (truthy (obj_get_default arguments ''include_content'' (JBool False)))
                    (truthy (obj_get_default arguments ''include_sections'' (JBool False))))))
      else if tool_name = ''document_update''
      then rbind (document_and_version arguments) (\<lambda>(i, n).
             Inr (DocUpdate i n (str_or (obj_get arguments ''content'') []) (sections_arg arguments)))
      else if tool_name = ''document_delete'' then rbind (document_and_version arguments) (\<lambda>(i, n). Inr (DocDelete i n))
      else if tool_name = ''document_finalize'' then rbind (document_and_version arguments) (\<lambda>(i, n). Inr (DocFinalize i n))
      else Inr (DocRefused ''UNKNOWN_TOOL'' (''Unknown tool: '' @ tool_name)))"

definition run_document_tool ::
  "doc_store \<Rightarrow> draws \<Rightarrow> uuid \<Rightarrow> tool_context \<Rightarrow> doc_operation \<Rightarrow> doc_state \<Rightarrow> doc_state \<times> (doc_error + payload)" where
  "run_document_tool S d a ctx op st =
     (case op of
        DocFolder title slug parent sort_order \<Rightarrow> service_create_folder S d a (cx_agent_id ctx) title slug parent sort_order st
      | DocCreate args \<Rightarrow> service_create S d a (cx_agent_id ctx) (cx_tool_call_id ctx) args st
      | DocGet i include_content include_sections \<Rightarrow> (st, service_get a i include_content include_sections st)
      | DocUpdate i n content sections \<Rightarrow> service_update S d a (cx_tool_call_id ctx) i n (Some content) (Some sections) st
      | DocDelete i n \<Rightarrow> service_delete S d a (cx_tool_call_id ctx) i n st
      | DocFinalize i n \<Rightarrow> service_finalize S d a (cx_tool_call_id ctx) i n st
      | DocRefused code message \<Rightarrow> (st, Inl (DocumentToolError code message)))"

text \<open>\<^verbatim>\<open>except (KeyError, ValueError)\<close>: a \<^verbatim>\<open>DocumentToolError\<close> passes through, the others become an envelope.\<close>

definition argument_error :: "string \<Rightarrow> string \<Rightarrow> (string \<times> json) list" where
  "argument_error tool_name m = tool_error_envelope tool_name ''INVALID_ARGUMENTS'' m False"

definition argument_exception :: "string \<Rightarrow> tool_exception \<Rightarrow> tool_exception + (string \<times> json) list" where
  "argument_exception tool_name e =
     (case e of TKeyError n \<Rightarrow> Inr (argument_error tool_name (repr_str n)) | TValueError m \<Rightarrow> Inr (argument_error tool_name m)
      | _ \<Rightarrow> Inl e)"

definition service_exception :: "string \<Rightarrow> doc_error \<Rightarrow> tool_exception + (string \<times> json) list" where
  "service_exception tool_name e =
     (case e of
        DocumentToolError code message \<Rightarrow> Inl (TDocumentToolError code message)
      | DocKeyError \<Rightarrow> Inr (argument_error tool_name [])
      | DocDecodeError \<Rightarrow> Inr (argument_error tool_name [])
      | DocIntError IntValueError \<Rightarrow> Inr (argument_error tool_name [])
      | DocIntError IntTypeError \<Rightarrow> Inl TTypeError
      | DocIntegrityError \<Rightarrow> Inl TOther
      | DocAttributeError \<Rightarrow> Inl TOther)"

definition document_scope :: "uuid \<Rightarrow> tool_context \<Rightarrow> payload \<Rightarrow> (string \<times> json) list" where
  "document_scope a ctx res =
     [(''type'', JStr ''analysis_artifact''), (''analysis_id'', JStr (uuid_str a)), (''snapshot_id'', JStr (uuid_str (cx_snapshot_id ctx)))] @
     (case map_of res ''document_id'' of None \<Rightarrow> [] | Some v \<Rightarrow> [(''document_id'', JStr (py_str v))]) @
     (case map_of res ''node_id'' of None \<Rightarrow> [] | Some v \<Rightarrow> [(''node_id'', JStr (py_str v))])"

definition put_docs :: "doc_state \<Rightarrow> exec_state \<Rightarrow> exec_state" where
  "put_docs ds st = st\<lparr>xs_docs := dt_db ds, xs_tools := (xs_tools st)\<lparr>ts_storage := dt_store ds\<rparr>\<rparr>"

definition finish_document :: "string \<Rightarrow> uuid \<Rightarrow> tool_context \<Rightarrow> payload \<Rightarrow> exec_state \<Rightarrow> exec_result" where
  "finish_document tool_name a ctx res st =
     (case ok_with_ref ctx tool_name (JObj res) [] False JNull (document_scope a ctx res) (xs_tools st) of
        (ts, body) \<Rightarrow> (st\<lparr>xs_tools := ts\<rparr>, Inr body))"

definition document_tool :: "exec_env \<Rightarrow> draws \<Rightarrow> tool_context \<Rightarrow> string \<Rightarrow> (string \<times> json) list \<Rightarrow> exec_state \<Rightarrow> exec_result" where
  "document_tool env d ctx tool_name arguments st =
     (case cx_analysis_id ctx of
        None \<Rightarrow> (st, Inr (argument_error tool_name ''Document tools require analysis_id.''))
      | Some a \<Rightarrow>
          (case document_operation tool_name arguments of
             Inl e \<Rightarrow> (st, argument_exception tool_name e)
           | Inr (DocRefused code message) \<Rightarrow> (st, Inr (tool_error_envelope tool_name code message False))
           | Inr op \<Rightarrow>
               (case run_document_tool (xe_documents env) d a ctx op \<lparr>dt_db = xs_docs st, dt_store = ts_storage (xs_tools st)\<rparr> of
                  (ds, Inl e) \<Rightarrow> (put_docs ds st, service_exception tool_name e)
                | (ds, Inr res) \<Rightarrow> finish_document tool_name a ctx res (put_docs ds st))))"

section \<open>The TODO tool\<close>

definition todo_result_json :: "todo_result \<Rightarrow> json" where
  "todo_result_json r =
     JObj [(''version'', JInt (result_version r)), (''items'', JList (map item_json (result_items r))), (''note'', opt_str (result_note r))]"

definition todo_call_of :: "draws \<Rightarrow> uuid \<Rightarrow> tool_context \<Rightarrow> todo_call" where
  "todo_call_of d a ctx =
     \<lparr>c_analysis = a, c_agent = cx_agent_id ctx, c_turn = cx_turn_id ctx, c_tool_call = cx_tool_call_id ctx, c_items = [],
      c_note = None, c_fresh = new_id d 0, c_stream_fresh = new_id d 1, c_now = now d\<rparr>"

definition execute_todo_update :: "draws \<Rightarrow> tool_context \<Rightarrow> string \<Rightarrow> (string \<times> json) list \<Rightarrow> exec_state \<Rightarrow> exec_result" where
  "execute_todo_update d ctx tool_name arguments st =
     (case cx_analysis_id ctx of
        None \<Rightarrow> (st, Inr (argument_error tool_name ''todo_update requires analysis_id.''))
      | Some a \<Rightarrow>
          (case todo_service_update pg_add_todo_list (xs_todos st) (todo_call_of d a ctx) (obj_get arguments ''items'')
                  (obj_get arguments ''note'') of
             Inl (TodoToolError code message) \<Rightarrow> (st, Inl (TTodoToolError code message))
           | Inr (todos, r) \<Rightarrow>
               (case ok_with_ref ctx tool_name (todo_result_json r) [] False JNull
                       [(''type'', JStr ''agent_todo''), (''analysis_id'', JStr (uuid_str a)),
                        (''snapshot_id'', JStr (uuid_str (cx_snapshot_id ctx))), (''version'', JInt (result_version r))] (xs_tools st) of
                  (ts, body) \<Rightarrow> (st\<lparr>xs_todos := todos, xs_tools := ts\<rparr>, Inr body))))"

section \<open>Dispatch\<close>

definition DOCUMENT_TOOLS :: "string list" where
  "DOCUMENT_TOOLS =
     [''document_folder_create'', ''document_create'', ''document_get'', ''document_update'', ''document_delete'', ''document_finalize'']"

text \<open>\<^verbatim>\<open>self._tool_handlers.get(tool_name)\<close>; the handler is run where there is one.\<close>

definition tool_handler ::
  "exec_env \<Rightarrow> draws \<Rightarrow> exec_config \<Rightarrow> tool_context \<Rightarrow> string \<Rightarrow> (string \<times> json) list \<Rightarrow> (exec_state \<Rightarrow> exec_result) option" where
  "tool_handler env d config ctx tool_name arguments =
     (if tool_name = ''list_files'' then Some (\<lambda>st. with_tools st (tool_list_files ctx arguments (xs_tools st)))
      else if tool_name = ''search_file'' then Some (\<lambda>st. with_tools st (tool_search_file ctx arguments (xs_tools st)))
      else if tool_name = ''read_file''
      then Some (\<lambda>st. with_tools st (tool_read_file (xe_env env) d (xc_read config) ctx arguments (xs_tools st)))
      else if tool_name = ''search_text''
      then Some (\<lambda>st. with_tools st (tool_search_text (xe_env env) d
             (ripgrep_of (tv_decode (xe_env env)) (xe_json_loads env) (xc_search config) (xe_popen env))
             (xc_search config) (xc_cache config) ctx arguments (xs_tools st)))
      else if tool_name = ''web_search''
      then Some (\<lambda>st. with_tools st (tool_web_search (xe_is_ip env) (xe_client env) (xe_api_key env) (xc_web config) ctx arguments (xs_tools st)))
      else if tool_name = ''todo_update'' then Some (execute_todo_update d ctx tool_name arguments)
      else if tool_name \<in> set DOCUMENT_TOOLS then Some (document_tool env d ctx tool_name arguments)
      else None)"

definition caught_exception :: "string \<Rightarrow> tool_exception \<Rightarrow> tool_exception + (string \<times> json) list" where
  "caught_exception tool_name e =
     (case e of
        TDocumentToolError code message \<Rightarrow> Inr (tool_error_envelope tool_name code message False)
      | TTodoToolError code message \<Rightarrow> Inr (tool_error_envelope tool_name code message False)
      | TTimeoutError \<Rightarrow> Inr (tool_error_envelope tool_name ''WEB_SEARCH_TIMEOUT'' ''Web search timed out.'' True)
      | TValueError m \<Rightarrow>
          Inr (tool_error_envelope tool_name
            (if contains_sub ''max_prefix_bytes'' m then ''CACHE_PREFIX_TOO_LARGE'' else ''INVALID_ARGUMENTS'') m False)
      | TNoCommand \<Rightarrow> Inr (tool_error_envelope tool_name ''SEARCH_BACKEND_UNAVAILABLE'' ''Required command is unavailable: '' True)
      | TSearchTimeout \<Rightarrow> Inr (tool_error_envelope tool_name ''SEARCH_TEXT_TIMEOUT'' ''Text search timed out.'' True)
      | TOsError \<Rightarrow> Inr (tool_error_envelope tool_name ''TOOL_IO_ERROR'' [] True)
      | _ \<Rightarrow> Inl e)"

definition execute :: "exec_env \<Rightarrow> draws \<Rightarrow> exec_config \<Rightarrow> tool_context \<Rightarrow> string \<Rightarrow> (string \<times> json) list \<Rightarrow> exec_state \<Rightarrow> exec_result" where
  "execute env d config ctx tool_name arguments st =
     (case evaluate_result (xc_enabled config) tool_name arguments of
        Inl e \<Rightarrow> (st, Inl e)
      | Inr permission \<Rightarrow>
          if pr_decision permission \<noteq> ALLOW
          then (st, Inr (tool_error_envelope tool_name (pr_reason_code permission) (pr_message permission) False))
          else (case tool_handler env d config ctx tool_name arguments of
                  None \<Rightarrow> (st, Inr (tool_error_envelope tool_name ''UNKNOWN_TOOL'' (''Unknown tool: '' @ tool_name) False))
                | Some handler \<Rightarrow>
                    (case handler st of
                       (st1, Inr body) \<Rightarrow> (st1, Inr body)
                     | (st1, Inl e) \<Rightarrow> (st1, caught_exception tool_name e))))"


section \<open>What a tool may change\<close>

definition same_artifacts :: "exec_state \<Rightarrow> exec_state \<Rightarrow> bool" where
  "same_artifacts st st' \<longleftrightarrow> xs_docs st' = xs_docs st \<and> xs_todos st' = xs_todos st"

lemma with_tools_artifacts: "same_artifacts st (fst (with_tools st r))"
  by (simp add: same_artifacts_def with_tools_def split: prod.splits)

lemma get_keeps_artifacts:
  "same_artifacts st (fst (document_tool env d ctx ''document_get'' arguments st))"
  by (auto simp: document_tool_def document_operation_def run_document_tool_def same_artifacts_def put_docs_def finish_document_def
      result_simps split: option.splits sum.splits prod.splits doc_operation.splits if_splits)

lemma tool_definitions_lookup:
  "map_of TOOL_DEFINITIONS n = Some t \<Longrightarrow> td_read_only t \<Longrightarrow>
   n \<in> {''list_files'', ''search_file'', ''search_text'', ''read_file'', ''web_search'', ''document_get''}"
  by (auto simp: TOOL_DEFINITIONS_def source_tool_def writing_tool_def split: if_splits)

lemma handler_keeps_artifacts:
  assumes "map_of TOOL_DEFINITIONS n = Some t" "td_read_only t" "tool_handler env d config ctx n arguments = Some h"
  shows "same_artifacts st (fst (h st))"
  using tool_definitions_lookup [OF assms(1,2)] assms(3)
  by (auto simp: tool_handler_def with_tools_artifacts get_keeps_artifacts DOCUMENT_TOOLS_def)

lemma handled_pair:
  "(case x of (st1, Inr body) \<Rightarrow> (st1, Inr body) | (st1, Inl e) \<Rightarrow> (st1, f e)) =
     (fst x, case snd x of Inr body \<Rightarrow> Inr body | Inl e \<Rightarrow> f e)"
  by (simp split: prod.splits sum.splits)

lemma execute_cases:
  obtains e where "evaluate_result (xc_enabled config) n arguments = Inl e" "execute env d config ctx n arguments st = (st, Inl e)"
  | p where "evaluate_result (xc_enabled config) n arguments = Inr p" "pr_decision p \<noteq> ALLOW"
      "execute env d config ctx n arguments st = (st, Inr (tool_error_envelope n (pr_reason_code p) (pr_message p) False))"
  | p where "evaluate_result (xc_enabled config) n arguments = Inr p" "pr_decision p = ALLOW" "tool_handler env d config ctx n arguments = None"
      "execute env d config ctx n arguments st = (st, Inr (tool_error_envelope n ''UNKNOWN_TOOL'' (''Unknown tool: '' @ n) False))"
  | p h where "evaluate_result (xc_enabled config) n arguments = Inr p" "pr_decision p = ALLOW"
      "tool_handler env d config ctx n arguments = Some h" "fst (execute env d config ctx n arguments st) = fst (h st)"
      "snd (execute env d config ctx n arguments st) = (case snd (h st) of Inr body \<Rightarrow> Inr body | Inl e \<Rightarrow> caught_exception n e)"
  by (cases "evaluate_result (xc_enabled config) n arguments"; cases "tool_handler env d config ctx n arguments")
    (auto simp: execute_def handled_pair)

text \<open>
  C32: The permission check decides before anything happens. A call of a tool that is not enabled, or with a path
  argument that is unsafe or secret, changes nothing and is answered with the reason; a tool declared read-only
  never changes a document or a TODO list; and the only exceptions that leave \<^verbatim>\<open>execute\<close> are those of a registry that
  names unknown tools and the kinds no clause catches: every \<^verbatim>\<open>ValueError\<close>, \<^verbatim>\<open>OSError\<close>, timeout and tool error becomes
  an answer.
\<close>
theorem tool_permission_enforced:
  assumes "evaluate_result (xc_enabled config) n arguments = Inr p" "execute env d config ctx n arguments st = (st', r)"
  shows "(pr_decision p \<noteq> ALLOW \<longrightarrow> st' = st \<and> r = Inr (tool_error_envelope n (pr_reason_code p) (pr_message p) False)) \<and>
     (\<forall>t. map_of TOOL_DEFINITIONS n = Some t \<and> td_read_only t \<longrightarrow> same_artifacts st st') \<and>
     (\<forall>e. r = Inl e \<longrightarrow> e = TTypeError \<or> e = TOther \<or> (\<exists>k. e = TKeyError k))"
proof -
  have uncaught: "caught_exception n e = Inl e' \<Longrightarrow> e' = TTypeError \<or> e' = TOther \<or> (\<exists>k. e' = TKeyError k)" for e e'
    by (auto simp: caught_exception_def split: tool_exception.splits)
  show ?thesis
  proof (cases rule: execute_cases [of config n arguments env d ctx st])
    case (4 q h)
    then show ?thesis using assms handler_keeps_artifacts [of n _ env d config ctx arguments h st] uncaught
      by (auto split: sum.splits)
  qed (use assms in \<open>auto simp: same_artifacts_def\<close>)
qed

definition sample_exec_config :: exec_config where
  "sample_exec_config =
     \<lparr>xc_enabled = [''list_files'', ''document_create''], xc_read = \<lparr>rc_default_lines = 200, rc_max_lines = 500, rc_max_bytes = 65536\<rparr>,
      xc_search = \<lparr>sx_max_results = 100, sx_timeout_seconds = 20, sx_max_output_bytes = 1048576\<rparr>,
      xc_cache = sample_cache_config, xc_web = sample_web_config\<rparr>"

lemma sample_denied:
  "evaluate_result (xc_enabled sample_exec_config) ''list_files'' [(''path'', JStr ''conf/.env'')] =
     Inr \<lparr>pr_decision = DENY, pr_reason_code = ''SECRET_PATH_DENIED'', pr_message = ''Secret path denied in path.'',
          pr_tool = Some (source_tool ''list_files'')\<rparr>"
  by code_simp

theorem tool_permission_enforced_witness:
  "\<forall>env d ctx st. execute env d sample_exec_config ctx ''list_files'' [(''path'', JStr ''conf/.env'')] st =
     (st, Inr (tool_error_envelope ''list_files'' ''SECRET_PATH_DENIED'' ''Secret path denied in path.'' False))"
proof (intro allI)
  fix env d ctx st
  obtain st' r where run: "execute env d sample_exec_config ctx ''list_files'' [(''path'', JStr ''conf/.env'')] st = (st', r)" by fastforce
  show "execute env d sample_exec_config ctx ''list_files'' [(''path'', JStr ''conf/.env'')] st =
     (st, Inr (tool_error_envelope ''list_files'' ''SECRET_PATH_DENIED'' ''Secret path denied in path.'' False))"
    using tool_permission_enforced [OF sample_denied run] run by simp
qed

section \<open>What a tool answers\<close>

definition is_error_reply :: "string \<Rightarrow> (string \<times> json) list \<Rightarrow> bool" where
  "is_error_reply n body \<longleftrightarrow> (\<exists>code m retryable. body = tool_error_envelope n code m retryable)"

text \<open>A success names its tool and is kept in the object store, in canonical JSON, under the key it refers to.\<close>

definition stored_reply :: "tool_context \<Rightarrow> string \<Rightarrow> object_store \<Rightarrow> (string \<times> json) list \<Rightarrow> bool" where
  "stored_reply ctx n storage body \<longleftrightarrow>
     (\<exists>core. body = core @ [(''result_ref'', JStr (tool_result_key (cx_tool_call_id ctx)))] \<and>
        obj_get core ''ok'' = JBool True \<and> obj_get core ''tool_name'' = JStr n \<and>
        get_bytes storage (tool_result_key (cx_tool_call_id ctx)) =
          Some (utf8_encode (json_dumps '', '' '': '' (json_sorted (JObj core)))))"

definition reply_ok :: "tool_context \<Rightarrow> string \<Rightarrow> ((string \<times> json) list) tool_result \<Rightarrow> bool" where
  "reply_ok ctx n r \<longleftrightarrow> (\<forall>body. snd r = Inr body \<longrightarrow> is_error_reply n body \<or> stored_reply ctx n (ts_storage (fst r)) body)"

lemma reply_ok_error [simp]: "reply_ok ctx n (st, Inr (tool_error_envelope n code m retryable))" "reply_ok ctx n (st, Inl e)"
  by (auto simp: reply_ok_def is_error_reply_def)

lemma ok_with_ref_stored:
  "ok_with_ref ctx n res ev tr cur sc st = (st', body) \<Longrightarrow> stored_reply ctx n (ts_storage st') body"
  unfolding ok_with_ref_def Let_def stored_reply_def
  by (intro exI [of _ "tool_success_envelope n (cx_snapshot_id ctx) res ev tr cur sc"])
    (auto simp: tool_success_envelope_def obj_get_def put_bytes_def get_bytes_def)

lemma reply_ok_stored:
  "reply_ok ctx n (case ok_with_ref ctx n res ev tr cur sc st of (st1, body) \<Rightarrow> (st1, Inr body))"
  by (auto simp: reply_ok_def dest: ok_with_ref_stored split: prod.splits)

lemma reply_okI: "ok_with_ref ctx n res ev tr cur sc st = (st', body) \<Longrightarrow> reply_ok ctx n (st', Inr body)"
  by (simp add: reply_ok_def ok_with_ref_stored)

lemma list_reply: "reply_ok ctx ''list_files'' (tool_list_files ctx arguments st)"
  by (auto simp: tool_list_files_def listing_result_def intro: reply_okI split: sum.splits prod.splits)

lemma search_file_reply: "reply_ok ctx ''search_file'' (tool_search_file ctx arguments st)"
  by (auto simp: tool_search_file_def listing_result_def intro: reply_okI split: sum.splits prod.splits)

lemma finish_read_reply:
  "reply_ok ctx ''read_file'' (case finish_read env d ctx row path a b c m content st of (st2, body) \<Rightarrow> (st2, Inr body))"
  by (auto simp: finish_read_def Let_def intro: reply_okI split: prod.splits)

lemma read_reply: "reply_ok ctx ''read_file'' (tool_read_file env d config ctx arguments st)"
  unfolding tool_read_file_def
  by (simp add: finish_read_reply split: option.splits sum.splits prod.splits read_range.splits)

lemma finish_search_reply:
  "reply_ok ctx ''search_text'' (case finish_search d ctx root offset m lines c st of (st1, body) \<Rightarrow> (st1, Inr body))"
  by (auto simp: finish_search_def Let_def intro: reply_okI split: prod.splits)

lemma search_text_reply: "reply_ok ctx ''search_text'' (tool_search_text env d rg config cconfig ctx arguments st)"
  unfolding tool_search_text_def run_search_def search_error_def Let_def
  by (simp add: finish_search_reply split: option.splits sum.splits prod.splits)

lemma web_reply: "reply_ok ctx ''web_search'' (tool_web_search is_ip client key config ctx arguments st)"
  unfolding tool_web_search_def web_error_def Let_def finish_web_search_def
  by (simp add: reply_ok_stored split: sum.splits tool_exception.splits web_outcome.splits json.splits)

definition exec_reply_ok :: "tool_context \<Rightarrow> string \<Rightarrow> exec_result \<Rightarrow> bool" where
  "exec_reply_ok ctx n r \<longleftrightarrow> reply_ok ctx n (xs_tools (fst r), snd r)"

lemma with_tools_reply: "reply_ok ctx n r \<Longrightarrow> exec_reply_ok ctx n (with_tools st r)"
  by (auto simp: exec_reply_ok_def with_tools_def split: prod.splits)

lemma exec_reply_stored:
  "exec_reply_ok ctx n (case ok_with_ref ctx n res ev tr cur sc ts of (ts', body) \<Rightarrow> (st\<lparr>xs_tools := ts'\<rparr>, Inr body))"
  by (auto simp: exec_reply_ok_def reply_ok_def dest: ok_with_ref_stored split: prod.splits)

lemma exec_reply_error [simp]:
  "exec_reply_ok ctx n (st, Inr (tool_error_envelope n code m retryable))" "exec_reply_ok ctx n (st, Inl e)"
  by (simp_all add: exec_reply_ok_def)

lemma document_reply: "exec_reply_ok ctx n (document_tool env d ctx n arguments st)"
  unfolding document_tool_def argument_error_def argument_exception_def service_exception_def finish_document_def
  by (simp add: exec_reply_stored split: option.splits sum.splits prod.splits doc_operation.splits tool_exception.splits
      doc_error.splits int_error.splits)

lemma todo_reply: "exec_reply_ok ctx n (execute_todo_update d ctx n arguments st)"
proof (cases "cx_analysis_id ctx")
  case (Some a)
  then show ?thesis unfolding execute_todo_update_def
    by (auto simp: exec_reply_ok_def reply_ok_def dest: ok_with_ref_stored split: sum.splits prod.splits todo_error.splits)
qed (simp add: execute_todo_update_def argument_error_def)

lemmas tool_replies =
  list_reply search_file_reply read_reply search_text_reply web_reply document_reply todo_reply

text \<open>
  Every answer of \<^verbatim>\<open>execute\<close> is either an error envelope for the tool that was called or a success of that tool
  that has been stored: the object that its \<^verbatim>\<open>result_ref\<close> names holds exactly the answer, without the reference
  itself, as JSON with sorted keys. So what the agent is shown can be read again later.
\<close>
theorem tool_answers_stored:
  assumes "execute env d config ctx n arguments st = (st', Inr body)"
  shows "is_error_reply n body \<or> stored_reply ctx n (ts_storage (xs_tools st')) body"
proof (cases rule: execute_cases [of config n arguments env d ctx st])
  case (4 p h)
  have "exec_reply_ok ctx n (h st)"
    using 4(3) by (auto simp: tool_handler_def with_tools_reply tool_replies split: if_splits)
  moreover have "caught_exception n e = Inr body \<Longrightarrow> is_error_reply n body" for e
    by (auto simp: caught_exception_def is_error_reply_def split: tool_exception.splits if_splits)
  ultimately show ?thesis using 4 assms by (auto simp: exec_reply_ok_def reply_ok_def split: sum.splits)
qed (use assms in \<open>auto simp: is_error_reply_def\<close>)

definition sample_exec_state :: exec_state where
  "sample_exec_state =
     \<lparr>xs_tools = \<lparr>ts_files = [], ts_storage = empty_store, ts_fs = Map.empty, ts_coverage = Map.empty, ts_evidence = []\<rparr>,
      xs_docs = empty_doc_db, xs_todos = empty_todo_db\<rparr>"

lemma sample_listing:
  "\<exists>st' body. execute env d sample_exec_config ctx ''list_files'' [] sample_exec_state = (st', Inr body) \<and> obj_get body ''ok'' = JBool True"
proof -
  have "evaluate_result (xc_enabled sample_exec_config) ''list_files'' [] =
      Inr \<lparr>pr_decision = ALLOW, pr_reason_code = ''ALLOWED'', pr_message = ''Tool call is allowed.'', pr_tool = Some (source_tool ''list_files'')\<rparr>"
    by code_simp
  then show ?thesis
    by (simp add: execute_def tool_handler_def with_tools_def tool_list_files_def listing_result_def listing_page_def path_arg_def obj_get_def
        optional_glob_def optional_cursor_def int_arg_def raw_arg_def obj_get_default_def int_value_def list_files_def tool_cursor_offset_def
        opt_str_def sql_page_def page_rows_def visible_file_rows_def ok_with_ref_def Let_def tool_success_envelope_def sample_exec_state_def)
qed

theorem tool_answers_stored_witness:
  "\<forall>env d ctx. \<exists>st' body. execute env d sample_exec_config ctx ''list_files'' [] sample_exec_state = (st', Inr body) \<and>
     stored_reply ctx ''list_files'' (ts_storage (xs_tools st')) body"
proof (intro allI)
  fix env d ctx
  obtain st' body where run: "execute env d sample_exec_config ctx ''list_files'' [] sample_exec_state = (st', Inr body)"
      "obj_get body ''ok'' = JBool True" using sample_listing by blast
  then have "\<not> is_error_reply ''list_files'' body" by (auto simp: is_error_reply_def tool_error_envelope_def obj_get_def)
  then show "\<exists>st' body. execute env d sample_exec_config ctx ''list_files'' [] sample_exec_state = (st', Inr body) \<and>
     stored_reply ctx ''list_files'' (ts_storage (xs_tools st')) body"
    using tool_answers_stored [OF run(1)] run(1) by blast
qed

end
