(* ===== verification/Tool_Calls.thy ===== *)
theory Tool_Calls
  imports Execution_Worker Analysis_Service
begin

text \<open>
  What the handling of tool requests guarantees (\<^verbatim>\<open>backend/workers/execution.py\<close> with
  \<^verbatim>\<open>PostgresToolCallRepository\<close>): a call is settled once under every interleaving of workers, lease take-overs and
  cancellations, and a handled request is answered.
\<close>


section \<open>One result for each call\<close>

definition terminal_call :: "tool_call_row \<Rightarrow> bool" where
  "terminal_call t = (tc_status t \<in> {''completed'', ''failed'', ''denied'', ''cancelled''})"

text \<open>A finalisation that took effect is logged with the token it was made under.\<close>

type_synonym settlements = "(uuid \<times> string) list"

definition logged :: "uuid \<Rightarrow> string \<Rightarrow> db \<Rightarrow> settlements \<Rightarrow> settlements" where
  "logged i token st log = (if any_row (may_finish i (Some token)) (tool_calls st) then log @ [(i, token)] else log)"

inductive call_step :: "db \<times> settlements \<Rightarrow> db \<times> settlements \<Rightarrow> bool" where
  submit: "call_step (st, log) (fst (create_tool_call d k kw st), log)"
    if "new_id d k \<notin> tc_id ` set (tool_calls st)"
| claim: "call_step (st, log) (fst (claim_queued_tool_call d token i st), log)"
| renew: "call_step (st, log) (fst (renew_tool_call_claim d i token st), log)"
| release: "call_step (st, log) (fst (release_tool_call_claim i token st), log)"
| finish: "call_step (st, log) (store_result d e a g i (Some token) r n st, logged i token st log)"
| cancel_claimed: "call_step (st, log) (cancel_claimed_tool_call d e a g i (Some token) st, logged i token st log)"
| cancel_agent: "call_step (st, log) (cancel_tool_calls d agent st, log)"
| elsewhere: "call_step (st, log) (st', log)" if "tool_calls st' = tool_calls st"

inductive call_reachable :: "db \<times> settlements \<Rightarrow> bool" where
  start: "call_reachable (st, [])" if "tool_calls st = []"
| step: "call_reachable s \<Longrightarrow> call_step s s' \<Longrightarrow> call_reachable s'"

lemma finalize_tool_calls:
  "tool_calls (fst (finalize_tool_call d a g i c owner e st)) =
     update_where (may_finish i owner) (finished_row d c) (tool_calls st)"
  by (auto simp: finalize_tool_call_def update_terminal_tool_call_def append_tool_result_context_item_def Let_def
        add_outbox_def frame_simps update_where_none split: option.splits)

lemma classify_terminal: "fst (classify_tool_result r) \<in> {''completed'', ''failed'', ''denied''}"
  by (simp add: classify_tool_result_def Let_def)

lemma store_result_calls:
  obtains c where "tool_calls (store_result d e a g i owner r n st) =
      update_where (may_finish i owner) (finished_row d c) (tool_calls st)"
    "co_status c \<in> {''completed'', ''failed'', ''denied''}"
proof -
  obtain s ty err where c: "classify_tool_result (with_tool_call_id i r) = (s, ty, err)" by (cases "classify_tool_result (with_tool_call_id i r)")
  show ?thesis
    by (rule that, simp add: store_result_def Let_def c finalize_tool_calls)
      (use classify_terminal [of "with_tool_call_id i r"] c in simp)
qed

lemma cancel_claimed_calls:
  obtains c where "tool_calls (cancel_claimed_tool_call d e a g i owner st) =
      update_where (may_finish i owner) (finished_row d c) (tool_calls st)" "co_status c = ''cancelled''"
  by (rule that, simp add: cancel_claimed_tool_call_def Let_def finalize_tool_calls) simp

text \<open>Each step updates the rows of a table in place; what it needs of a row keeps it away from finished ones.\<close>

definition unowned :: "tool_call_row \<Rightarrow> bool" where
  "unowned t \<longleftrightarrow> (tc_status t \<in> {''completed'', ''failed'', ''denied''} \<longrightarrow> tc_claim_owner t = None)"

definition calls_ok :: "tool_call_row list \<Rightarrow> settlements \<Rightarrow> bool" where
  "calls_ok rows log \<longleftrightarrow>
     distinct (map tc_id rows) \<and> distinct (map fst log) \<and>
     (\<forall>t \<in> set rows. unowned t) \<and>
     (\<forall>p \<in> set log. \<exists>t \<in> set rows. tc_id t = fst p \<and> terminal_call t)"

definition final_kept :: "tool_call_row list \<Rightarrow> tool_call_row list \<Rightarrow> bool" where
  "final_kept rows rows' \<longleftrightarrow> (\<forall>t \<in> set rows. terminal_call t \<longrightarrow> t \<in> set rows')"

lemma final_kept_update:
  "(\<And>t. t \<in> set rows \<Longrightarrow> p t \<Longrightarrow> \<not> terminal_call t) \<Longrightarrow> final_kept rows (update_where p f rows)"
  unfolding final_kept_def in_update_where by metis

lemma final_kept_log:
  "final_kept rows rows' \<Longrightarrow> \<forall>p \<in> set log. \<exists>t \<in> set rows. tc_id t = fst p \<and> terminal_call t \<Longrightarrow>
   \<forall>p \<in> set log. \<exists>t \<in> set rows'. tc_id t = fst p \<and> terminal_call t"
  unfolding final_kept_def by blast

lemma calls_ok_update:
  assumes ok: "calls_ok rows log"
    and away: "\<And>t. t \<in> set rows \<Longrightarrow> p t \<Longrightarrow> \<not> terminal_call t"
    and same: "\<And>t. tc_id (f t) = tc_id t"
    and owner: "\<And>t. t \<in> set rows \<Longrightarrow> p t \<Longrightarrow> unowned (f t)"
  shows "calls_ok (update_where p f rows) log"
proof -
  have "distinct (map tc_id (update_where p f rows))"
    using ok by (simp add: calls_ok_def map_update_where_same same)
  moreover have "\<forall>t \<in> set (update_where p f rows). unowned t"
    using ok owner by (auto simp: calls_ok_def in_update_where)
  moreover note final_kept_log [OF final_kept_update [where p = p and f = f and rows = rows, OF away]]
  ultimately show ?thesis using ok unfolding calls_ok_def by blast
qed

lemma calls_ok_append:
  assumes "calls_ok rows log" "tc_id x \<notin> tc_id ` set rows" "unowned x"
  shows "calls_ok (rows @ [x]) log \<and> final_kept rows (rows @ [x])"
  using assms by (fastforce simp: calls_ok_def final_kept_def)

lemma create_tool_call_calls:
  obtains "fst (create_tool_call d k kw st) = st"
    | x where "tool_calls (fst (create_tool_call d k kw st)) = tool_calls st @ [x]" "tc_id x = new_id d k" "unowned x"
proof (cases "find (\<lambda>t. tc_agent_id t = tk_agent_id kw \<and> tc_openai_call_id t = tk_openai_call_id kw) (tool_calls st)")
  case None
  show ?thesis by (rule that(2), simp add: create_tool_call_def None) (simp_all add: unowned_def)
qed (use that(1) in \<open>simp add: create_tool_call_def\<close>)

text \<open>A finalisation under a token needs the token in the row, so that the row is not finished yet.\<close>

lemma may_finish_open:
  assumes "calls_ok rows log" "t \<in> set rows" "may_finish i (Some token) t"
  shows "\<not> terminal_call t"
  using assms by (auto simp: calls_ok_def may_finish_def terminal_call_def unowned_def)

lemma calls_ok_finish:
  fixes i :: uuid and token :: string and d :: draws
  assumes ok: "calls_ok rows log" and status: "co_status c \<in> {''completed'', ''failed'', ''denied'', ''cancelled''}"
  defines "rows' \<equiv> update_where (may_finish i (Some token)) (finished_row d c) rows"
  shows "calls_ok rows' (if any_row (may_finish i (Some token)) rows then log @ [(i, token)] else log)"
proof -
  have kept: "calls_ok rows' log"
    unfolding rows'_def by (rule calls_ok_update [OF ok may_finish_open [OF ok]]) (simp_all add: finished_row_def unowned_def)
  show ?thesis
  proof (cases "any_row (may_finish i (Some token)) rows")
    case True
    then obtain t where t: "t \<in> set rows" "may_finish i (Some token) t" by (auto simp: list_ex_iff)
    then have i: "tc_id t = i" by (simp add: may_finish_def)
    have "i \<notin> fst ` set log"
    proof
      assume "i \<in> fst ` set log"
      then obtain t' where "t' \<in> set rows" "tc_id t' = i" "terminal_call t'" using ok by (auto simp: calls_ok_def)
      then have "t' = t" using ok t i by (auto simp: calls_ok_def distinct_map dest: inj_onD)
      then show False using may_finish_open [OF ok t] \<open>terminal_call t'\<close> by simp
    qed
    moreover have "finished_row d c t \<in> set rows'" using t unfolding rows'_def in_update_where by (metis (full_types))
    moreover have "tc_id (finished_row d c t) = i" "terminal_call (finished_row d c t)"
      using i status by (simp_all add: finished_row_def terminal_call_def)
    ultimately show ?thesis using kept True unfolding calls_ok_def by auto
  qed (use kept in simp)
qed

lemma open_call_simps [simp]:
  "terminal_call (t\<lparr>tc_status := ''running''\<rparr>) = False" "claimable_call d i t \<Longrightarrow> \<not> terminal_call t"
  "holds_claim i owner t \<Longrightarrow> \<not> terminal_call t"
  by (auto simp: terminal_call_def claimable_call_def holds_claim_def)

text \<open>The table after each step, as an update of its rows or as a new row.\<close>

lemma call_step_ok:
  assumes "call_step (st, log) (st', log')" "calls_ok (tool_calls st) log"
  shows "calls_ok (tool_calls st') log' \<and> final_kept (tool_calls st) (tool_calls st')"
  using assms
proof (induction "(st, log)" "(st', log')" rule: call_step.induct)
  case (submit d k kw)
  show ?case
  proof (cases rule: create_tool_call_calls [of d k kw st])
    case 1
    then show ?thesis using submit by (simp add: final_kept_def)
  next
    case (2 x)
    then show ?thesis using calls_ok_append [OF assms(2), of x] submit by simp
  qed
next
  case (claim d token i)
  have "calls_ok (update_where (claimable_call d i) (claimed_call d token) (tool_calls st)) log"
    by (rule calls_ok_update [OF assms(2)]) (simp_all add: claimed_call_def unowned_def)
  moreover have "final_kept (tool_calls st) (update_where (claimable_call d i) (claimed_call d token) (tool_calls st))"
    by (rule final_kept_update) simp
  ultimately show ?case using assms(2) claim(1) [symmetric] claim(2)
    by (auto simp: claim_queued_tool_call_def final_kept_def split: option.splits)
next
  case (renew d i token)
  have "calls_ok (update_where (holds_claim i token) (\<lambda>t. t\<lparr>tc_claimed_at := Some (now d),
        tc_claim_expires_at := Some (now d + tool_claim_ttl_seconds)\<rparr>) (tool_calls st)) log"
    by (rule calls_ok_update [OF assms(2)]) (auto simp: holds_claim_def terminal_call_def unowned_def)
  then show ?case using renew(1) [symmetric] renew(2) by (simp add: renew_tool_call_claim_def final_kept_update)
next
  case (release i token)
  have "calls_ok (update_where (holds_claim i token) (\<lambda>t. t\<lparr>tc_status := ''queued'', tc_claimed_at := None,
        tc_claim_expires_at := None, tc_claim_owner := None\<rparr>) (tool_calls st)) log"
    by (rule calls_ok_update [OF assms(2)]) (auto simp: holds_claim_def terminal_call_def unowned_def)
  then show ?case using release(1) [symmetric] release(2) by (simp add: release_tool_call_claim_def final_kept_update)
next
  case (finish d e a g i token r n)
  obtain c where c: "tool_calls st' = update_where (may_finish i (Some token)) (finished_row d c) (tool_calls st)"
      "co_status c \<in> {''completed'', ''failed'', ''denied''}"
    using store_result_calls [of d e a g i "Some token" r n st] finish(1) by metis
  then show ?case
    using calls_ok_finish [OF assms(2), of c i token d] final_kept_update [where f = "finished_row d c", OF may_finish_open [OF assms(2), where i = i and token = token]]
      finish(2) [symmetric] by (auto simp: logged_def)
next
  case (cancel_claimed d e a g i token)
  obtain c where c: "tool_calls st' = update_where (may_finish i (Some token)) (finished_row d c) (tool_calls st)"
      "co_status c = ''cancelled''"
    using cancel_claimed_calls [of d e a g i "Some token" st] cancel_claimed(1) by metis
  then show ?case
    using calls_ok_finish [OF assms(2), of c i token d] final_kept_update [where f = "finished_row d c", OF may_finish_open [OF assms(2), where i = i and token = token]]
      cancel_claimed(2) [symmetric] by (auto simp: logged_def)
next
  case (cancel_agent d agent)
  then show ?case using assms(2) unfolding cancel_tool_calls_def
    by (auto simp: terminal_call_def unowned_def intro!: calls_ok_update final_kept_update)
next
  case elsewhere
  then show ?case using assms(2) by (simp add: final_kept_def)
qed


lemma call_reachable_ok: "call_reachable s \<Longrightarrow> calls_ok (tool_calls (fst s)) (snd s)"
proof (induction rule: call_reachable.induct)
  case (start st)
  then show ?case by (simp add: calls_ok_def)
next
  case (step s s')
  then show ?case using call_step_ok [of "fst s" "snd s" "fst s'" "snd s'"] by simp
qed

lemma call_steps_kept:
  assumes "call_step\<^sup>*\<^sup>* s s'" "calls_ok (tool_calls (fst s)) (snd s)"
  shows "calls_ok (tool_calls (fst s')) (snd s') \<and> final_kept (tool_calls (fst s)) (tool_calls (fst s'))"
  using assms
proof (induction rule: rtranclp_induct)
  case base
  then show ?case by (simp add: final_kept_def)
next
  case (step y z)
  then show ?case using call_step_ok [of "fst y" "snd y" "fst z" "snd z"] by (simp add: final_kept_def)
qed

text \<open>
  C14: A tool call is settled once. Whatever the interleaving of workers that claim, renew, release and finish
  calls, of cancellations, and of requests redelivered after a lease ran out, at most one finalisation of a
  call takes effect; the call is terminal from then on, and a terminal row never changes again: a worker
  whose lease was taken over cannot overwrite the result, and a cancelled call stays cancelled.
\<close>
theorem tool_call_settled_once:
  assumes "call_reachable (st, log)" "call_step\<^sup>*\<^sup>* (st, log) (st', log')"
  shows "distinct (map fst log') \<and>
     (\<forall>(i, token) \<in> set log. \<exists>t \<in> set (tool_calls st). tc_id t = i \<and> terminal_call t) \<and>
     (\<forall>t \<in> set (tool_calls st). terminal_call t \<longrightarrow> t \<in> set (tool_calls st'))"
proof (intro conjI)
  note ok = call_reachable_ok [OF assms(1)]
  note kept = call_steps_kept [OF assms(2), simplified fst_conv snd_conv, OF ok [simplified fst_conv snd_conv]]
  show "distinct (map fst log')" using kept by (simp add: calls_ok_def)
  show "\<forall>(i, token) \<in> set log. \<exists>t \<in> set (tool_calls st). tc_id t = i \<and> terminal_call t"
    using ok by (fastforce simp: calls_ok_def)
  show "\<forall>t \<in> set (tool_calls st). terminal_call t \<longrightarrow> t \<in> set (tool_calls st')"
    using kept by (simp add: final_kept_def)
qed

definition sample_tool_row :: "string \<Rightarrow> string option \<Rightarrow> tool_call_row" where
  "sample_tool_row status owner =
     \<lparr>tc_id = 7, tc_agent_id = 3, tc_turn_id = 4, tc_snapshot_id = 5, tc_openai_call_id = ''c'', tc_tool_name = ''list_files'',
      tc_arguments = JObj [], tc_registry_version = [], tc_schema_hash = [], tc_policy_hash = [],
      tc_permission_decision = None, tc_status = status, tc_result_ref = None, tc_result_summary = None,
      tc_duration_ms = None, tc_error_code = None, tc_error_message = None, tc_claimed_at = None,
      tc_claim_expires_at = None, tc_claim_owner = owner, tc_created_at = 0, tc_completed_at = None\<rparr>"

definition sample_kwargs :: tool_call_kwargs where
  "sample_kwargs =
     \<lparr>tk_agent_id = 3, tk_turn_id = 4, tk_snapshot_id = 5, tk_openai_call_id = ''c'', tk_tool_name = ''list_files'',
      tk_arguments = JObj [], tk_registry_version = [], tk_schema_hash = [], tk_policy_hash = [], tk_status = ''queued'',
      tk_result_ref = None, tk_result_summary = None\<rparr>"

definition call_draws :: draws where
  "call_draws = \<lparr>now = 0, now_iso = [], new_id = \<lambda>k. 7\<rparr>"

lemma finished_call_reachable:
  "\<exists>st log. call_reachable (st, log) \<and> log = [(7, ''t'')]"
proof -
  define st1 where "st1 = fst (create_tool_call call_draws 0 sample_kwargs empty_db)"
  define st2 where "st2 = fst (claim_queued_tool_call call_draws ''t'' 7 st1)"
  have st1: "tool_calls st1 = [sample_tool_row ''queued'' None]"
    by (simp add: st1_def create_tool_call_def call_draws_def sample_kwargs_def empty_db_def sample_tool_row_def json_or_none_def)
  have st2: "tool_calls st2 = [claimed_call call_draws ''t'' (sample_tool_row ''queued'' None)]"
    by (simp add: st2_def claim_queued_tool_call_def st1 claimable_call_def sample_tool_row_def)
  have "call_reachable (empty_db, [])" by (rule call_reachable.start) (simp add: empty_db_def)
  then have "call_reachable (st1, [])"
    unfolding st1_def by (rule call_reachable.step) (rule call_step.submit, simp add: empty_db_def)
  then have "call_reachable (st2, [])"
    unfolding st2_def by (rule call_reachable.step) (rule call_step.claim)
  then have "call_reachable (store_result call_draws e 1 3 7 (Some ''t'') [] 0 st2, logged 7 ''t'' st2 [])" for e
    by (rule call_reachable.step) (rule call_step.finish)
  moreover have "logged 7 ''t'' st2 [] = [(7, ''t'')]"
    by (simp add: logged_def st2 may_finish_def claimed_call_def sample_tool_row_def)
  ultimately show ?thesis by metis
qed

theorem tool_call_settled_once_witness:
  "\<exists>st log. call_reachable (st, log) \<and> log \<noteq> [] \<and> distinct (map fst log) \<and>
     (\<forall>(i, token) \<in> set log. \<exists>t \<in> set (tool_calls st). tc_id t = i \<and> terminal_call t)"
proof -
  obtain st log where r: "call_reachable (st, log)" "log = [(7, ''t'')]" using finished_call_reachable by blast
  then show ?thesis using tool_call_settled_once [OF r(1) rtranclp.rtrancl_refl] by (intro exI [of _ st] exI [of _ log]) simp
qed

section \<open>A request is answered\<close>

text \<open>The call is finished and the last event of the outbox tells the agent so.\<close>

definition answered :: "envelope \<Rightarrow> uuid \<Rightarrow> db \<Rightarrow> bool" where
  "answered e i st \<longleftrightarrow>
     (\<exists>t. get_tool_call i st = Some t \<and> terminal_call t) \<and>
     (\<exists>ev. emitted st \<noteq> [] \<and> last (emitted st) = ev \<and>
        event_type ev \<in> {TOOL_CALL_COMPLETED, TOOL_CALL_DENIED, TOOL_CALL_FAILED} \<and>
        analysis_id ev = analysis_id e \<and> agent_id ev = agent_id e \<and>
        map_of (payload ev) ''tool_call_id'' = Some (JStr (uuid_str i)))"

lemma add_outbox_emitted: "emitted (add_outbox d k e st) = emitted st @ [e]"
  by (simp add: emitted_def add_outbox_def outbox_add_def)

lemma tool_calls_add_outbox [simp]: "tool_calls (add_outbox d k e st) = tool_calls st"
  by (simp add: add_outbox_def)

lemma tool_event_simps [simp]:
  "event_type (tool_event d ty e pl) = ty" "analysis_id (tool_event d ty e pl) = analysis_id e"
  "agent_id (tool_event d ty e pl) = agent_id e" "payload (tool_event d ty e pl) = pl"
  by (simp_all add: tool_event_def envelope_new_def)

lemma find_update_where:
  assumes "distinct (map tc_id rows)" "list_ex (may_finish i owner) rows"
  obtains t where "find (\<lambda>t. tc_id t = i) (update_where (may_finish i owner) (finished_row d c) rows) = Some (finished_row d c t)"
proof -
  have "\<exists>t. find (\<lambda>t. tc_id t = i) (update_where (may_finish i owner) (finished_row d c) rows) = Some (finished_row d c t)"
    using assms
  proof (induction rows)
    case (Cons x rows)
    show ?case
    proof (cases "may_finish i owner x")
      case False
      then obtain y where "y \<in> set rows" "tc_id y = i" using Cons.prems(2) by (auto simp: list_ex_iff may_finish_def)
      then have "tc_id x \<noteq> i" using Cons.prems(1) by (auto simp: image_iff)
      then show ?thesis using Cons False by simp
    qed (auto simp: may_finish_def finished_row_def)
  qed simp
  then show ?thesis using that by blast
qed

lemma finalize_answers:
  assumes "any_row (may_finish i owner) (tool_calls st)" "distinct (map tc_id (tool_calls st))"
    and "co_status c \<in> {''completed'', ''failed'', ''denied'', ''cancelled''}"
    and "event_type ev \<in> {TOOL_CALL_COMPLETED, TOOL_CALL_DENIED, TOOL_CALL_FAILED}" "analysis_id ev = analysis_id e"
      "agent_id ev = agent_id e" "map_of (payload ev) ''tool_call_id'' = Some (JStr (uuid_str i))"
  shows "answered e i (fst (finalize_tool_call d a g i c owner ev st))"
proof -
  obtain t where t: "find (\<lambda>t. tc_id t = i) (update_where (may_finish i owner) (finished_row d c) (tool_calls st)) = Some (finished_row d c t)"
    using find_update_where [OF assms(2,1)] by blast
  have "terminal_call (finished_row d c t)" using assms(3) by (simp add: terminal_call_def finished_row_def)
  moreover obtain es where "emitted (fst (finalize_tool_call d a g i c owner ev st)) = es @ [ev]"
    using assms(1) by (simp add: finalize_tool_call_def update_terminal_tool_call_def Let_def add_outbox_emitted)
  ultimately show ?thesis using assms(4-) t by (simp add: answered_def get_tool_call_def finalize_tool_calls)
qed

lemma finalize_refused:
  "\<not> any_row (may_finish i owner) (tool_calls st) \<Longrightarrow> fst (finalize_tool_call d a g i c owner ev st) = st"
  by (simp add: finalize_tool_call_def update_terminal_tool_call_def)

lemma store_result_cases:
  assumes "distinct (map tc_id (tool_calls st))"
  shows "if any_row (may_finish i owner) (tool_calls st) then answered e i (store_result d e a g i owner r n st)
    else store_result d e a g i owner r n st = st"
proof -
  obtain s ty err where c: "classify_tool_result (with_tool_call_id i r) = (s, ty, err)" by (cases "classify_tool_result (with_tool_call_id i r)")
  then have "s \<in> {''completed'', ''failed'', ''denied'', ''cancelled''}" "ty \<in> {TOOL_CALL_COMPLETED, TOOL_CALL_DENIED, TOOL_CALL_FAILED}"
    by (auto simp: classify_tool_result_def Let_def split: if_splits)
  then show ?thesis using assms
    by (simp add: store_result_def Let_def c finalize_refused finalize_answers)
qed

lemma cancel_claimed_cases:
  assumes "distinct (map tc_id (tool_calls st))"
  shows "if any_row (may_finish i owner) (tool_calls st) then answered e i (cancel_claimed_tool_call d e a g i owner st)
    else cancel_claimed_tool_call d e a g i owner st = st"
  using assms by (simp add: cancel_claimed_tool_call_def Let_def finalize_refused finalize_answers)

text \<open>
  The handler returns normally in four ways: the call was finished before and its result is announced again, it
  was cancelled before it ran, it ran and its result is stored, or the worker lost the call while the tool ran.
\<close>

lemma republish_event:
  assumes "republish_terminal_tool_call d e i st = Inr (st', True)"
  obtains t ty pl where "get_tool_call i st = Some t" "terminal_call t" "st' = add_outbox d 2 (tool_event d ty e pl) st"
    "ty \<in> {TOOL_CALL_COMPLETED, TOOL_CALL_DENIED, TOOL_CALL_FAILED}" "map_of pl ''tool_call_id'' = Some (JStr (uuid_str i))"
proof -
  obtain t where t: "get_tool_call i st = Some t" "terminal_call t"
    using assms by (auto simp: republish_terminal_tool_call_def terminal_call_def split: option.splits if_splits)
  have "agent_id e = Some (tc_agent_id t)" "snapshot_id e = Some (tc_snapshot_id t)"
    using assms t by (auto simp: republish_terminal_tool_call_def terminal_call_def split: if_splits)
  then have "\<exists>ty err. add_outbox d 2 (tool_event d ty e ((''tool_call_id'', JStr (uuid_str i)) # err)) st = st' \<and>
      ty \<in> {TOOL_CALL_COMPLETED, TOOL_CALL_DENIED, TOOL_CALL_FAILED}"
    using assms t unfolding republish_terminal_tool_call_def Let_def terminal_call_def
    by (simp only: option.case if_True if_False not_True_eq_False simp_thms not_False_eq_True sum.inject prod.inject, intro exI conjI) (assumption, simp)
  then show ?thesis using that [OF t] by fastforce
qed

lemma republish_answers: "republish_terminal_tool_call d e i st = Inr (st', True) \<Longrightarrow> answered e i st'"
  by (erule republish_event) (simp add: answered_def get_tool_call_def add_outbox_emitted)

lemma claimed_ids: "claim_queued_tool_call d token i st = (st1, r) \<Longrightarrow> map tc_id (tool_calls st1) = map tc_id (tool_calls st)"
  by (auto simp: claim_queued_tool_call_def claimed_call_def map_update_where_same split: option.splits)

lemma claim_holds:
  assumes "claim_queued_tool_call d token i st = (st1, Some r)"
  shows "any_row (may_finish i (Some token)) (tool_calls st1)"
proof -
  obtain t where t: "t \<in> set (tool_calls st)" "claimable_call d i t"
      "st1 = st\<lparr>tool_calls := update_where (claimable_call d i) (claimed_call d token) (tool_calls st)\<rparr>"
    using assms by (fastforce simp: claim_queued_tool_call_def find_Some_iff split: option.splits intro: nth_mem)
  then have "claimed_call d token t \<in> set (tool_calls st1)" by (auto simp: in_update_where intro!: bexI [of _ t])
  moreover have "may_finish i (Some token) (claimed_call d token t)"
    using t(2) by (simp add: may_finish_def claimed_call_def claimable_call_def)
  ultimately show ?thesis by (auto simp: list_ex_iff)
qed

text \<open>What the worker finds after the tool ran, when another worker or a cancellation took the call from it.\<close>

definition requested_call :: "envelope \<Rightarrow> uuid option" where
  "requested_call e = Option.bind (map_of (payload e) ''tool_call_id'') (\<lambda>v. parse_uuid (py_str v))"

definition lost_call :: "draws \<Rightarrow> string \<Rightarrow> (tool_call_row \<Rightarrow> json \<Rightarrow> db \<Rightarrow> tool_run) \<Rightarrow> uuid \<Rightarrow> db \<Rightarrow> db \<Rightarrow> bool" where
  "lost_call d token run i st st' \<longleftrightarrow>
     (\<exists>row cfg r n. run row cfg (fst (claim_queued_tool_call d token i st)) = ToolResult st' r n) \<and>
     \<not> any_row (may_finish i (Some token)) (tool_calls st')"

text \<open>
  C15: A tool request that the worker handles without raising is answered: afterwards the call it names is terminal
  and the last event in the outbox reports that call to the agent and analysis of the request, be it just finished,
  cancelled before it ran, or finished by an earlier delivery. The only exception is a worker that lost
  the call while its tool ran: it leaves the database as it found it. The hypotheses are the primary key of
  the tool call table, before the request and after the tool.
\<close>
theorem tool_request_answered:
  assumes handled: "execution_call d1 d2 token run e st = (st', None)"
    and key: "distinct (map tc_id (tool_calls st))"
    and run_key: "\<And>row cfg st1 st2 r n. run row cfg st1 = ToolResult st2 r n \<Longrightarrow> distinct (map tc_id (tool_calls st2))"
  shows "\<exists>i. requested_call e = Some i \<and> (answered e i st' \<or> lost_call d1 token run i st st')"
proof -
  obtain a g s v i where req: "event_type e = TOOL_CALL_REQUESTED" "analysis_id e = Some a" "agent_id e = Some g" "snapshot_id e = Some s"
      "map_of (payload e) ''tool_call_id'' = Some v" "parse_uuid (py_str v) = Some i"
    using handled by (auto simp: execution_call_def split: if_splits option.splits)
  then have i: "requested_call e = Some i" by (simp add: requested_call_def)
  obtain st1 claimed where claim: "claim_queued_tool_call d1 token i st = (st1, claimed)" by fastforce
  note call = handled [unfolded execution_call_def, simplified req claim option.case prod.case if_True if_False, simplified req claim, simplified]
  have ids: "distinct (map tc_id (tool_calls st1))" using claimed_ids [OF claim] key by simp
  have "answered e i st' \<or> lost_call d1 token run i st st'"
  proof (cases claimed)
    case None
    then obtain b where "republish_terminal_tool_call d2 e i st1 = Inr (st', b)" "b"
      using call by (auto split: sum.splits prod.splits bool.splits)
    then show ?thesis by (simp add: republish_answers)
  next
    case (Some rc)
    obtain row cfg where rc: "rc = (row, cfg)" by (cases rc)
    show ?thesis
    proof (cases "get_analysis_status a st1 \<in> {Some ''cancelling'', Some ''cancelled''}")
      case True
      then have "st' = cancel_claimed_tool_call d2 e a g i (Some token) st1" using call Some rc by (simp split: if_splits)
      then show ?thesis using cancel_claimed_cases [OF ids, of i "Some token" e d2 a g] claim_holds claim Some by simp
    next
      case False
      then obtain st2 r n where run: "run row cfg st1 = ToolResult st2 r n" "st' = store_result d2 e a g i (Some token) r n st2"
        using call Some rc by (auto split: if_splits tool_run.splits)
      then show ?thesis using store_result_cases [OF run_key [OF run(1)], of i "Some token" e d2 a g r n] claim
        by (auto simp: lost_call_def split: if_splits)
    qed
  qed
  then show ?thesis using i by blast
qed

definition sample_request :: envelope where
  "sample_request =
     \<lparr>event_id = 1, schema_version = JInt 1, event_type = TOOL_CALL_REQUESTED, occurred_at = [], correlation_id = 6,
      causation_id = None, analysis_id = Some 2, agent_id = Some 3, snapshot_id = Some 5, attempt = JInt 0,
      payload = [(''tool_call_id'', JStr (uuid_str 7))]\<rparr>"

definition sample_run :: "tool_call_row \<Rightarrow> json \<Rightarrow> db \<Rightarrow> tool_run" where
  "sample_run row cfg st = ToolResult (empty_db\<lparr>tool_calls := [sample_tool_row ''running'' (Some ''t'')]\<rparr>) [(''ok'', JBool True)] 5"

theorem tool_request_answered_witness:
  "\<exists>st'. execution_call call_draws call_draws ''t'' sample_run sample_request (empty_db\<lparr>tool_calls := [sample_tool_row ''queued'' None]\<rparr>) =
       (st', None) \<and>
     (\<exists>i. requested_call sample_request = Some i \<and> (answered sample_request i st' \<or>
        lost_call call_draws ''t'' sample_run i (empty_db\<lparr>tool_calls := [sample_tool_row ''queued'' None]\<rparr>) st'))"
proof -
  let ?st = "empty_db\<lparr>tool_calls := [sample_tool_row ''queued'' None]\<rparr>"
  have "snd (execution_call call_draws call_draws ''t'' sample_run sample_request ?st) = None"
    by (simp add: execution_call_def sample_request_def claim_queued_tool_call_def claimable_call_def sample_tool_row_def claimed_call_def
        get_analysis_status_def empty_db_def sample_run_def py_str_def)
  then obtain st' where run: "execution_call call_draws call_draws ''t'' sample_run sample_request ?st = (st', None)"
    by (metis prod.collapse)
  have "distinct (map tc_id (tool_calls ?st))" by simp
  moreover have "sample_run row cfg st1 = ToolResult st2 r n \<Longrightarrow> distinct (map tc_id (tool_calls st2))" for row cfg st1 st2 r n
    by (auto simp: sample_run_def)
  ultimately show ?thesis using tool_request_answered [OF run] run by blast
qed

end
