(* ===== verification/Tool_Runtime.thy ===== *)
theory Tool_Runtime
  imports Tool_Policy
begin

text \<open>
  The locks that order the tools of one agent (\<^verbatim>\<open>ToolCallRuntime\<close> and \<^verbatim>\<open>AsyncReadWriteLock\<close> of
  \<^verbatim>\<open>backend/workers/execution.py\<close>). The body of each \<^verbatim>\<open>async with self._condition\<close> has no await besides
  \<^verbatim>\<open>wait_for\<close>, so that on the event loop it is one step: a task that finds its predicate false parks, and is
  tried again only after a \<^verbatim>\<open>notify_all\<close>. A task is the handling of one tool request.
\<close>

section \<open>State and steps\<close>

record rw_lock =
  lk_readers :: int
  lk_writer :: bool

datatype task_phase = Ready | Parked | Holding

record tool_task =
  tt_agent :: uuid
  tt_tool :: string
  tt_phase :: task_phase

record tool_runtime =
  rt_locks :: "uuid \<rightharpoonup> rw_lock"
  rt_tasks :: "nat \<rightharpoonup> tool_task"

definition new_lock :: rw_lock where
  "new_lock = \<lparr>lk_readers = 0, lk_writer = False\<rparr>"

text \<open>\<^verbatim>\<open>ToolCallRuntime._lock\<close>: the lock of an agent, made at its first use.\<close>

definition runtime_lock :: "uuid \<Rightarrow> tool_runtime \<Rightarrow> rw_lock" where
  "runtime_lock g rt = (case rt_locks rt g of None \<Rightarrow> new_lock | Some l \<Rightarrow> l)"

definition may_enter :: "bool \<Rightarrow> rw_lock \<Rightarrow> bool" where
  "may_enter parallel_safe l = (if parallel_safe then \<not> lk_writer l else \<not> lk_writer l \<and> lk_readers l = 0)"

definition enter_lock :: "bool \<Rightarrow> rw_lock \<Rightarrow> rw_lock" where
  "enter_lock parallel_safe l =
     (if parallel_safe then l\<lparr>lk_readers := lk_readers l + 1\<rparr> else l\<lparr>lk_writer := True\<rparr>)"

text \<open>The lock afterwards, and whether waiting tasks are notified.\<close>

definition leave_lock :: "bool \<Rightarrow> rw_lock \<Rightarrow> rw_lock \<times> bool" where
  "leave_lock parallel_safe l =
     (if parallel_safe then (l\<lparr>lk_readers := lk_readers l - 1\<rparr>, lk_readers l - 1 = 0)
      else (l\<lparr>lk_writer := False\<rparr>, True))"

definition notify_task :: "uuid \<Rightarrow> tool_task \<Rightarrow> tool_task" where
  "notify_task g k = (if tt_agent k = g \<and> tt_phase k = Parked then k\<lparr>tt_phase := Ready\<rparr> else k)"

definition acquire_request :: "nat \<Rightarrow> uuid \<Rightarrow> string \<Rightarrow> tool_runtime \<Rightarrow> tool_runtime" where
  "acquire_request t g tool rt =
     rt\<lparr>rt_locks := (rt_locks rt)(g \<mapsto> runtime_lock g rt),
        rt_tasks := (rt_tasks rt)(t \<mapsto> \<lparr>tt_agent = g, tt_tool = tool, tt_phase = Ready\<rparr>)\<rparr>"

definition try_enter :: "nat \<Rightarrow> tool_task \<Rightarrow> tool_runtime \<Rightarrow> tool_runtime" where
  "try_enter t k rt =
     (let l = runtime_lock (tt_agent k) rt; parallel_safe = is_parallel_safe_tool (tt_tool k)
      in if may_enter parallel_safe l
         then rt\<lparr>rt_locks := (rt_locks rt)(tt_agent k \<mapsto> enter_lock parallel_safe l),
                 rt_tasks := (rt_tasks rt)(t \<mapsto> k\<lparr>tt_phase := Holding\<rparr>)\<rparr>
         else rt\<lparr>rt_tasks := (rt_tasks rt)(t \<mapsto> k\<lparr>tt_phase := Parked\<rparr>)\<rparr>)"

definition leave_task :: "nat \<Rightarrow> tool_task \<Rightarrow> tool_runtime \<Rightarrow> tool_runtime" where
  "leave_task t k rt =
     (case leave_lock (is_parallel_safe_tool (tt_tool k)) (runtime_lock (tt_agent k) rt) of
        (l, notify) \<Rightarrow>
          rt\<lparr>rt_locks := (rt_locks rt)(tt_agent k \<mapsto> l),
             rt_tasks := (\<lambda>u. if u = t then None
               else map_option (if notify then notify_task (tt_agent k) else id) (rt_tasks rt u))\<rparr>)"

inductive runtime_step :: "tool_runtime \<Rightarrow> tool_runtime \<Rightarrow> bool" where
  request: "runtime_step rt (acquire_request t g tool rt)" if "rt_tasks rt t = None"
| attempt: "runtime_step rt (try_enter t k rt)" if "rt_tasks rt t = Some k" "tt_phase k = Ready"
| leave: "runtime_step rt (leave_task t k rt)" if "rt_tasks rt t = Some k" "tt_phase k = Holding"
| give_up: "runtime_step rt (rt\<lparr>rt_tasks := (rt_tasks rt)(t := None)\<rparr>)"
    if "rt_tasks rt t = Some k" "tt_phase k \<noteq> Holding"

inductive runtime_reachable :: "tool_runtime \<Rightarrow> bool" where
  start: "runtime_reachable \<lparr>rt_locks = Map.empty, rt_tasks = Map.empty\<rparr>"
| step: "runtime_reachable rt \<Longrightarrow> runtime_step rt rt' \<Longrightarrow> runtime_reachable rt'"

section \<open>Readers and writers\<close>

definition holders :: "bool \<Rightarrow> uuid \<Rightarrow> (nat \<rightharpoonup> tool_task) \<Rightarrow> nat set" where
  "holders safe g m =
     {t. \<exists>k. m t = Some k \<and> tt_agent k = g \<and> tt_phase k = Holding \<and> is_parallel_safe_tool (tt_tool k) = safe}"

text \<open>
  The counters of the lock count the tasks that hold it, a writer is alone, and a parked task is parked for a
  reason that still holds.
\<close>

definition lock_ok :: "uuid \<Rightarrow> (nat \<rightharpoonup> tool_task) \<Rightarrow> rw_lock \<Rightarrow> bool" where
  "lock_ok g m l \<longleftrightarrow>
     finite (dom m) \<and> lk_readers l = int (card (holders True g m)) \<and> (lk_writer l \<longleftrightarrow> holders False g m \<noteq> {}) \<and>
     card (holders False g m) \<le> 1 \<and> (lk_writer l \<longrightarrow> lk_readers l = 0) \<and>
     (\<forall>t k. m t = Some k \<longrightarrow> tt_agent k = g \<longrightarrow> tt_phase k = Parked \<longrightarrow> \<not> may_enter (is_parallel_safe_tool (tt_tool k)) l)"

definition runtime_ok :: "tool_runtime \<Rightarrow> bool" where
  "runtime_ok rt \<longleftrightarrow> (\<forall>g. lock_ok g (rt_tasks rt) (runtime_lock g rt))"

lemma holders_finite: "finite (dom m) \<Longrightarrow> finite (holders safe g m)"
  by (rule finite_subset [of _ "dom m"]) (auto simp: holders_def)

lemma holders_other:
  "m t = None \<or> m t = Some k \<and> tt_phase k \<noteq> Holding \<Longrightarrow> tt_phase k' \<noteq> Holding \<Longrightarrow> holders safe g (m(t \<mapsto> k')) = holders safe g m"
  by (auto simp: holders_def)

lemma holders_remove:
  "m t = Some k \<Longrightarrow> tt_phase k \<noteq> Holding \<Longrightarrow> holders safe g (m(t := None)) = holders safe g m"
  by (auto simp: holders_def)

lemma holders_enter:
  "m t = Some k \<Longrightarrow> tt_phase k \<noteq> Holding \<Longrightarrow>
   holders safe g (m(t \<mapsto> k\<lparr>tt_phase := Holding\<rparr>)) =
     (if tt_agent k = g \<and> is_parallel_safe_tool (tt_tool k) = safe then insert t (holders safe g m) else holders safe g m)"
  by (auto simp: holders_def)

lemma not_holder: "m t = Some k \<Longrightarrow> tt_phase k \<noteq> Holding \<Longrightarrow> t \<notin> holders safe g m"
  by (simp add: holders_def)

lemma holders_leave:
  assumes "\<And>x. tt_agent (f x) = tt_agent x \<and> tt_tool (f x) = tt_tool x \<and> (tt_phase (f x) = Holding \<longleftrightarrow> tt_phase x = Holding)"
  shows "holders safe g (\<lambda>u. if u = t then None else map_option f (m u)) = holders safe g m - {t}"
  using assms by (force simp: holders_def)

lemma notify_task_simps [simp]:
  "tt_agent (notify_task g k) = tt_agent k" "tt_tool (notify_task g k) = tt_tool k"
  "tt_phase (notify_task g k) = (if tt_agent k = g \<and> tt_phase k = Parked then Ready else tt_phase k)"
  by (simp_all add: notify_task_def)

lemma lock_ok_same:
  assumes "lock_ok g m l" "finite (dom m')" "\<And>safe. holders safe g m' = holders safe g m"
    and "\<And>t k. m' t = Some k \<Longrightarrow> tt_agent k = g \<Longrightarrow> tt_phase k = Parked \<Longrightarrow>
      m t = Some k \<or> \<not> may_enter (is_parallel_safe_tool (tt_tool k)) l"
  shows "lock_ok g m' l"
  using assms unfolding lock_ok_def by metis

lemma finite_dom_upd: "finite (dom m) \<Longrightarrow> finite (dom (m(t := x)))"
  by (rule finite_subset [of _ "insert t (dom m)"]) auto

lemma finite_dom_leave: "finite (dom m) \<Longrightarrow> finite (dom (\<lambda>u. if u = t then None else map_option f (m u)))"
  by (rule finite_subset [of _ "dom m"]) (auto split: if_splits)

lemma lock_ok_enter:
  assumes ok: "lock_ok (tt_agent k) m l" and t: "m t = Some k" "tt_phase k \<noteq> Holding"
    and enter: "may_enter (is_parallel_safe_tool (tt_tool k)) l"
  shows "lock_ok (tt_agent k) (m(t \<mapsto> k\<lparr>tt_phase := Holding\<rparr>)) (enter_lock (is_parallel_safe_tool (tt_tool k)) l)"
proof -
  let ?m = "m(t \<mapsto> k\<lparr>tt_phase := Holding\<rparr>)" and ?safe = "is_parallel_safe_tool (tt_tool k)"
  note h = holders_enter [of m, OF t] and nt = not_holder [of m, OF t]
  have fin: "finite (holders safe g m)" for safe g using ok by (auto simp: lock_ok_def intro: holders_finite)
  have no_writer: "holders False (tt_agent k) m = {}" using ok enter by (auto simp: lock_ok_def may_enter_def split: if_splits)
  have parked: "\<not> may_enter (is_parallel_safe_tool (tt_tool x)) (enter_lock ?safe l)"
    if "?m u = Some x" "tt_agent x = tt_agent k" "tt_phase x = Parked" for u x
  proof -
    have "\<not> may_enter (is_parallel_safe_tool (tt_tool x)) l" using that ok by (auto simp: lock_ok_def split: if_splits)
    then show ?thesis using enter ok by (auto simp: may_enter_def enter_lock_def lock_ok_def split: if_splits)
  qed
  then show ?thesis using ok enter no_writer fin nt parked
    by (auto simp: lock_ok_def h enter_lock_def may_enter_def finite_dom_upd holders_finite)
qed

lemma runtime_lock_upd: "runtime_lock g (rt\<lparr>rt_locks := (rt_locks rt)(a \<mapsto> l)\<rparr>) = (if g = a then l else runtime_lock g rt)"
  by (simp add: runtime_lock_def)

lemma runtime_lock_tasks [simp]: "runtime_lock g (rt\<lparr>rt_tasks := m\<rparr>) = runtime_lock g rt"
  by (simp add: runtime_lock_def)

lemma runtime_ok_enter:
  assumes ok: "runtime_ok rt" and t: "rt_tasks rt t = Some k" "tt_phase k = Ready"
  shows "runtime_ok (try_enter t k rt)"
proof -
  let ?l = "runtime_lock (tt_agent k) rt" and ?safe = "is_parallel_safe_tool (tt_tool k)"
  have nh: "tt_phase k \<noteq> Holding" using t by simp
  have fin: "finite (dom (rt_tasks rt))" using ok by (auto simp: runtime_ok_def lock_ok_def)
  show ?thesis
  proof (cases "may_enter ?safe ?l")
    case True
    have "lock_ok g ((rt_tasks rt)(t \<mapsto> k\<lparr>tt_phase := Holding\<rparr>)) (if g = tt_agent k then enter_lock ?safe ?l else runtime_lock g rt)" for g
    proof (cases "g = tt_agent k")
      case True
      then show ?thesis using lock_ok_enter [of k "rt_tasks rt", OF _ t(1) nh \<open>may_enter ?safe ?l\<close>] ok by (simp add: runtime_ok_def)
    next
      case False
      have "lock_ok g ((rt_tasks rt)(t \<mapsto> k\<lparr>tt_phase := Holding\<rparr>)) (runtime_lock g rt)"
        using False ok [unfolded runtime_ok_def, rule_format, of g]
        by (rule_tac lock_ok_same) (auto simp: finite_dom_upd fin holders_enter [of "rt_tasks rt", OF t(1) nh] split: if_splits)
      then show ?thesis using False by simp
    qed
    then show ?thesis using True by (simp add: runtime_ok_def try_enter_def Let_def runtime_lock_upd)
  next
    case False
    have "lock_ok g ((rt_tasks rt)(t \<mapsto> k\<lparr>tt_phase := Parked\<rparr>)) (runtime_lock g rt)" for g
      using ok [unfolded runtime_ok_def, rule_format, of g] False t
      by (rule_tac lock_ok_same) (auto simp: finite_dom_upd fin holders_other [where k = k] split: if_splits)
    then show ?thesis using False by (simp add: runtime_ok_def try_enter_def Let_def)
  qed
qed

lemma lock_ok_leave:
  assumes ok: "lock_ok (tt_agent k) m l" and t: "m t = Some k" "tt_phase k = Holding"
    and l': "leave_lock (is_parallel_safe_tool (tt_tool k)) l = (l', notify)"
  shows "lock_ok (tt_agent k) (\<lambda>u. if u = t then None else map_option (if notify then notify_task (tt_agent k) else id) (m u)) l'"
    (is "lock_ok _ ?m _")
proof -
  have h: "holders safe (tt_agent k) ?m = holders safe (tt_agent k) m - {t}" for safe
    by (rule holders_leave) auto
  have fin: "finite (holders safe (tt_agent k) m)" for safe using ok by (auto simp: lock_ok_def intro: holders_finite)
  have mem: "t \<in> holders (is_parallel_safe_tool (tt_tool k)) (tt_agent k) m" "t \<notin> holders (\<not> is_parallel_safe_tool (tt_tool k)) (tt_agent k) m"
    using t by (auto simp: holders_def)
  have dom: "finite (dom ?m)" using ok by (simp add: lock_ok_def finite_dom_leave)
  have parked: "\<not> may_enter (is_parallel_safe_tool (tt_tool x)) l'"
    if x: "?m u = Some x" "tt_agent x = tt_agent k" "tt_phase x = Parked" for u x
  proof -
    have "\<not> notify" using x by (auto split: if_splits)
    then have safe: "is_parallel_safe_tool (tt_tool k)" "lk_readers l - 1 \<noteq> 0" "l' = l\<lparr>lk_readers := lk_readers l - 1\<rparr>"
      using l' by (auto simp: leave_lock_def split: if_splits)
    then have "\<not> lk_writer l" using mem(1) fin [of True] ok by (auto simp: lock_ok_def)
    moreover have "\<not> may_enter (is_parallel_safe_tool (tt_tool x)) l"
      using ok x \<open>\<not> notify\<close> by (auto simp: lock_ok_def split: if_splits)
    ultimately show ?thesis using safe(2,3) by (simp add: may_enter_def split: if_splits)
  qed
  have counts: "lk_readers l' = int (card (holders True (tt_agent k) m - {t})) \<and> (lk_writer l' \<longleftrightarrow> holders False (tt_agent k) m - {t} \<noteq> {}) \<and>
      card (holders False (tt_agent k) m - {t}) \<le> 1 \<and> (lk_writer l' \<longrightarrow> lk_readers l' = 0)"
  proof (cases "is_parallel_safe_tool (tt_tool k)")
    case True
    then have "card (holders True (tt_agent k) m) > 0" "holders False (tt_agent k) m - {t} = holders False (tt_agent k) m"
      using mem fin by (auto simp: card_gt_0_iff)
    then show ?thesis using ok True l' mem(1) by (auto simp: lock_ok_def leave_lock_def)
  next
    case False
    then have "holders False (tt_agent k) m = {t}" "holders True (tt_agent k) m - {t} = holders True (tt_agent k) m"
      using mem fin ok by (auto simp: lock_ok_def card_le_Suc0_iff_eq)
    then show ?thesis using ok False l' by (auto simp: lock_ok_def leave_lock_def)
  qed
  show ?thesis unfolding lock_ok_def h using dom counts parked by blast
qed

lemma runtime_ok_leave:
  assumes ok: "runtime_ok rt" and t: "rt_tasks rt t = Some k" "tt_phase k = Holding"
  shows "runtime_ok (leave_task t k rt)"
proof -
  obtain l notify where l: "leave_lock (is_parallel_safe_tool (tt_tool k)) (runtime_lock (tt_agent k) rt) = (l, notify)" by fastforce
  let ?m = "\<lambda>u. if u = t then None else map_option (if notify then notify_task (tt_agent k) else id) (rt_tasks rt u)"
  have "lock_ok g ?m (if g = tt_agent k then l else runtime_lock g rt)" for g
  proof (cases "g = tt_agent k")
    case True
    then show ?thesis using lock_ok_leave [of k "rt_tasks rt", OF _ t l] ok by (simp add: runtime_ok_def)
  next
    case False
    have "holders safe g ?m = holders safe g (rt_tasks rt) - {t}" for safe by (rule holders_leave) auto
    moreover have "t \<notin> holders safe g (rt_tasks rt)" for safe using t False by (auto simp: holders_def)
    ultimately have "holders safe g ?m = holders safe g (rt_tasks rt)" for safe by simp
    then have "lock_ok g ?m (runtime_lock g rt)"
      using ok [unfolded runtime_ok_def, rule_format, of g] False
      by (rule_tac lock_ok_same) (auto simp: finite_dom_leave lock_ok_def notify_task_def split: if_splits)
    then show ?thesis using False by simp
  qed
  then show ?thesis by (simp add: runtime_ok_def leave_task_def l runtime_lock_upd)
qed

lemma runtime_step_ok: "runtime_step rt rt' \<Longrightarrow> runtime_ok rt \<Longrightarrow> runtime_ok rt'"
proof (induction rule: runtime_step.induct)
  case (request rt t g tool)
  have "lock_ok g' (rt_tasks (acquire_request t g tool rt)) (runtime_lock g' rt)" for g'
    using request.prems [unfolded runtime_ok_def, rule_format, of g'] request.hyps
    by (rule_tac lock_ok_same) (auto simp: acquire_request_def finite_dom_upd lock_ok_def holders_other split: if_splits)
  then show ?case by (simp add: runtime_ok_def acquire_request_def runtime_lock_upd)
next
  case (give_up rt t k)
  have "lock_ok g ((rt_tasks rt)(t := None)) (runtime_lock g rt)" for g
    using give_up.prems [unfolded runtime_ok_def, rule_format, of g] give_up.hyps
    by (rule_tac lock_ok_same) (auto simp: finite_dom_upd lock_ok_def holders_remove split: if_splits)
  then show ?case by (simp add: runtime_ok_def)
qed (simp_all add: runtime_ok_enter runtime_ok_leave)

lemma runtime_reachable_ok: "runtime_reachable rt \<Longrightarrow> runtime_ok rt"
proof (induction rule: runtime_reachable.induct)
  case start
  then show ?case by (auto simp: runtime_ok_def lock_ok_def holders_def runtime_lock_def new_lock_def)
qed (rule runtime_step_ok)

text \<open>
  C16: Tools of one agent that run at the same time are all parallel-safe: a tool that writes documents or the TODO
  list, or searches the web, runs alone among the tools of its agent. No wake-up is lost: a parked
  task waits for a task of the same agent that holds the lock, and once no task of the agent holds it every task
  of the agent that is tried enters.
\<close>
theorem tool_runtime_exclusion:
  assumes "runtime_reachable rt" "rt_tasks rt t = Some k"
  shows "(\<forall>u j. tt_phase k = Holding \<and> rt_tasks rt u = Some j \<and> u \<noteq> t \<and> tt_agent j = tt_agent k \<and> tt_phase j = Holding \<longrightarrow>
        is_parallel_safe_tool (tt_tool k) \<and> is_parallel_safe_tool (tt_tool j)) \<and>
     (tt_phase k = Parked \<longrightarrow> (\<exists>u j. rt_tasks rt u = Some j \<and> tt_agent j = tt_agent k \<and> tt_phase j = Holding)) \<and>
     (tt_phase k = Ready \<and> (\<nexists>u j. rt_tasks rt u = Some j \<and> tt_agent j = tt_agent k \<and> tt_phase j = Holding) \<longrightarrow>
        rt_tasks (try_enter t k rt) t = Some (k\<lparr>tt_phase := Holding\<rparr>))"
proof -
  let ?g = "tt_agent k" and ?l = "runtime_lock (tt_agent k) rt"
  have ok: "lock_ok ?g (rt_tasks rt) ?l" using runtime_reachable_ok [OF assms(1)] by (simp add: runtime_ok_def)
  have fin: "finite (holders safe ?g (rt_tasks rt))" for safe using ok by (auto simp: lock_ok_def intro: holders_finite)
  have idle: "may_enter safe ?l" if "\<nexists>u j. rt_tasks rt u = Some j \<and> tt_agent j = ?g \<and> tt_phase j = Holding" for safe
  proof -
    have "holders s ?g (rt_tasks rt) = {}" for s using that by (auto simp: holders_def)
    then show ?thesis using ok by (simp add: lock_ok_def may_enter_def)
  qed
  have "is_parallel_safe_tool (tt_tool k) \<and> is_parallel_safe_tool (tt_tool j)"
    if "tt_phase k = Holding" "rt_tasks rt u = Some j" "u \<noteq> t" "tt_agent j = ?g" "tt_phase j = Holding" for u j
  proof (rule ccontr)
    have mem: "t \<in> holders (is_parallel_safe_tool (tt_tool k)) ?g (rt_tasks rt)" "u \<in> holders (is_parallel_safe_tool (tt_tool j)) ?g (rt_tasks rt)"
      using that assms(2) by (auto simp: holders_def)
    assume "\<not> ?thesis"
    then have "lk_writer ?l" using mem ok by (auto simp: lock_ok_def)
    then have "holders True ?g (rt_tasks rt) = {}" "card (holders False ?g (rt_tasks rt)) \<le> 1" using ok fin by (auto simp: lock_ok_def)
    moreover from this(1) mem have "t \<in> holders False ?g (rt_tasks rt)" "u \<in> holders False ?g (rt_tasks rt)"
      by (metis (full_types) empty_iff)+
    ultimately show False using fin [of False] that(3) card_le_Suc0_iff_eq by auto
  qed
  moreover have "\<exists>u j. rt_tasks rt u = Some j \<and> tt_agent j = ?g \<and> tt_phase j = Holding" if "tt_phase k = Parked"
    using ok that assms(2) idle by (auto simp: lock_ok_def)
  moreover have "rt_tasks (try_enter t k rt) t = Some (k\<lparr>tt_phase := Holding\<rparr>)"
    if "tt_phase k = Ready" "\<nexists>u j. rt_tasks rt u = Some j \<and> tt_agent j = ?g \<and> tt_phase j = Holding"
    using idle [OF that(2)] by (simp add: try_enter_def Let_def)
  ultimately show ?thesis by blast
qed

definition sample_task :: "string \<Rightarrow> tool_task" where
  "sample_task tool = \<lparr>tt_agent = 3, tt_tool = tool, tt_phase = Ready\<rparr>"

definition two_requests :: tool_runtime where
  "two_requests =
     acquire_request 1 3 ''read_file'' (acquire_request 0 3 ''list_files'' \<lparr>rt_locks = Map.empty, rt_tasks = Map.empty\<rparr>)"

definition two_readers :: tool_runtime where
  "two_readers = try_enter 1 (sample_task ''read_file'') (try_enter 0 (sample_task ''list_files'') two_requests)"

lemma parallel_safe_samples: "is_parallel_safe_tool ''list_files''" "is_parallel_safe_tool ''read_file''"
  by (simp_all add: is_parallel_safe_tool_def TOOL_DEFINITIONS_def source_tool_def)

lemmas two_tasks_simps =
  two_requests_def acquire_request_def try_enter_def sample_task_def parallel_safe_samples may_enter_def enter_lock_def
  runtime_lock_def new_lock_def Let_def

lemma two_readers_reachable: "runtime_reachable two_readers"
proof -
  have "runtime_reachable two_requests" unfolding two_requests_def
    by (intro runtime_reachable.step [OF _ runtime_step.request] runtime_reachable.start) (simp_all add: acquire_request_def)
  then have "runtime_reachable (try_enter 0 (sample_task ''list_files'') two_requests)"
    by (rule runtime_reachable.step) (rule runtime_step.attempt, simp_all add: two_tasks_simps)
  then show ?thesis unfolding two_readers_def
    by (rule runtime_reachable.step) (rule runtime_step.attempt, simp_all add: two_tasks_simps)
qed

theorem tool_runtime_exclusion_witness:
  "\<exists>k j. runtime_reachable two_readers \<and> rt_tasks two_readers 0 = Some k \<and> rt_tasks two_readers 1 = Some j \<and>
     tt_agent j = tt_agent k \<and> tt_phase k = Holding \<and> tt_phase j = Holding \<and>
     is_parallel_safe_tool (tt_tool k) \<and> is_parallel_safe_tool (tt_tool j)"
proof -
  let ?k = "(sample_task ''list_files'')\<lparr>tt_phase := Holding\<rparr>" and ?j = "(sample_task ''read_file'')\<lparr>tt_phase := Holding\<rparr>"
  have k: "rt_tasks two_readers 0 = Some ?k" and j: "rt_tasks two_readers 1 = Some ?j"
    by (simp_all add: two_readers_def two_tasks_simps)
  have same: "tt_agent ?j = tt_agent ?k" "tt_phase ?k = Holding" "tt_phase ?j = Holding" by (simp_all add: sample_task_def)
  have "is_parallel_safe_tool (tt_tool ?k) \<and> is_parallel_safe_tool (tt_tool ?j)"
    by (rule conjunct1 [OF tool_runtime_exclusion [OF two_readers_reachable k], rule_format, of 1]) (use j same in simp_all)
  then show ?thesis using two_readers_reachable k j same by blast
qed

end
