(* ===== verification/Config.thy ===== *)
theory Config
  imports Source_Tools Web_Search
begin

text \<open>
  The configuration (\<^verbatim>\<open>backend/config/__init__.py\<close>): the settings, how they are read from the environment
  (\<^verbatim>\<open>load_app_config_from_env\<close>) and from the JSON object stored with every analysis (\<^verbatim>\<open>app_config_from_json\<close>), and
  the tools offered to the model (\<^verbatim>\<open>execution/tool_registry.py\<close>). Both readers build exactly one profile. The
  process environment is a map, reading a text file a function; the lines of the \<^verbatim>\<open>.env\<close> file are an argument.
\<close>

section \<open>Settings\<close>

record openai_settings =
  oc_model :: string
  oc_reasoning_effort :: string
  oc_reasoning_summary :: string
  oc_service_tier :: string
  oc_parallel_tool_calls :: bool
  oc_use_previous_response_id :: bool
  oc_prompt_cache_retention :: "string option"
  oc_transport :: string
  oc_show_reasoning_summary :: bool

record prompt_settings =
  pc_system_instruction_file :: string
  pc_developer_instruction_file :: string
  pc_compaction_instruction_file :: string
  pc_system_instruction :: "string option"
  pc_developer_instruction :: "string option"
  pc_compaction_instruction :: "string option"

record profile_settings =
  pf_goal_file :: string
  pf_max_turns :: int
  pf_max_tool_calls :: int
  pf_auto_compact_threshold_tokens :: int
  pf_goal :: "string option"

record openai_web_search_settings =
  ow_enabled :: bool
  ow_search_context_size :: string
  ow_external_web_access :: bool
  ow_include_sources :: bool
  ow_allowed_domains :: "string list"
  ow_blocked_domains :: "string list"
  ow_return_token_budget :: "string option"

record tools_settings =
  tl_enabled :: "string list"
  tl_web_search_tool_choice :: string
  tl_read_file :: read_config
  tl_search_text :: search_config
  tl_web_search :: web_config
  tl_openai_web_search :: openai_web_search_settings

record snapshot_settings =
  sp_max_file_bytes :: int
  sp_max_git_bundle_bytes :: int
  sp_lfs_policy :: string
  sp_submodule_policy :: string
  sp_binary_policy :: string

record cache_settings = cache_config +
  cc_root_dir :: string

record app_config =
  ap_openai :: openai_settings
  ap_prompt :: prompt_settings
  ap_default_profile :: string
  ap_profiles :: "(string \<times> profile_settings) list"
  ap_tools :: tools_settings
  ap_snapshot :: snapshot_settings
  ap_cache :: cache_settings

definition default_openai :: openai_settings where
  "default_openai = \<lparr>oc_model = ''gpt-5.5'', oc_reasoning_effort = ''medium'', oc_reasoning_summary = ''auto'',
     oc_service_tier = ''fast'', oc_parallel_tool_calls = False, oc_use_previous_response_id = False,
     oc_prompt_cache_retention = Some ''24h'', oc_transport = ''http'', oc_show_reasoning_summary = True\<rparr>"

definition default_prompt :: prompt_settings where
  "default_prompt = \<lparr>pc_system_instruction_file = ''prompts/system.md'',
     pc_developer_instruction_file = ''prompts/developer.md'', pc_compaction_instruction_file = ''prompts/compact.md'',
     pc_system_instruction = None, pc_developer_instruction = None, pc_compaction_instruction = None\<rparr>"

definition default_profile_name :: string where
  "default_profile_name = ''repository_architecture_review''"

definition default_profile :: profile_settings where
  "default_profile = \<lparr>pf_goal_file = ''profiles/repository_architecture_review.md'', pf_max_turns = 80,
     pf_max_tool_calls = 200, pf_auto_compact_threshold_tokens = 120000, pf_goal = None\<rparr>"

definition default_openai_web_search :: openai_web_search_settings where
  "default_openai_web_search = \<lparr>ow_enabled = False, ow_search_context_size = ''medium'', ow_external_web_access = True,
     ow_include_sources = False, ow_allowed_domains = [], ow_blocked_domains = [], ow_return_token_budget = None\<rparr>"

definition default_tools :: tools_settings where
  "default_tools = \<lparr>tl_enabled = [''list_files'', ''search_file'', ''search_text'', ''read_file'', ''todo_update''],
     tl_web_search_tool_choice = ''auto'',
     tl_read_file = \<lparr>rc_default_lines = 200, rc_max_lines = 500, rc_max_bytes = 65536\<rparr>,
     tl_search_text = \<lparr>sx_max_results = 100, sx_timeout_seconds = 20, sx_max_output_bytes = 1048576\<rparr>,
     tl_web_search = \<lparr>wc_max_results = 10, wc_timeout_seconds = 20, wc_max_query_chars = 500\<rparr>,
     tl_openai_web_search = default_openai_web_search\<rparr>"

definition default_snapshot :: snapshot_settings where
  "default_snapshot = \<lparr>sp_max_file_bytes = 1048576, sp_max_git_bundle_bytes = 536870912, sp_lfs_policy = ''pointer_only'',
     sp_submodule_policy = ''record_only'', sp_binary_policy = ''metadata_only''\<rparr>"

definition default_cache :: cache_settings where
  "default_cache = \<lparr>cc_max_worker_cache_bytes = 53687091200, cc_max_prefix_bytes = 2147483648, cc_ttl_days = 7,
     cc_min_free_disk_percent = 15, cc_root_dir = ''/cache/deepdive''\<rparr>"

definition default_config :: app_config where
  "default_config = \<lparr>ap_openai = default_openai, ap_prompt = default_prompt, ap_default_profile = default_profile_name,
     ap_profiles = [(default_profile_name, default_profile)], ap_tools = default_tools, ap_snapshot = default_snapshot,
     ap_cache = default_cache\<rparr>"

section \<open>\<^verbatim>\<open>to_json_dict\<close>\<close>

text \<open>\<^verbatim>\<open>asdict\<close>, as it comes back from the JSON column: tuples are lists there.\<close>

definition json_opt_str :: "string option \<Rightarrow> json" where
  "json_opt_str v = (case v of None \<Rightarrow> JNull | Some s \<Rightarrow> JStr s)"

definition openai_json :: "openai_settings \<Rightarrow> json" where
  "openai_json o1 = JObj [(''model'', JStr (oc_model o1)), (''reasoning_effort'', JStr (oc_reasoning_effort o1)),
     (''reasoning_summary'', JStr (oc_reasoning_summary o1)), (''service_tier'', JStr (oc_service_tier o1)),
     (''parallel_tool_calls'', JBool (oc_parallel_tool_calls o1)),
     (''use_previous_response_id'', JBool (oc_use_previous_response_id o1)),
     (''prompt_cache_retention'', json_opt_str (oc_prompt_cache_retention o1)), (''transport'', JStr (oc_transport o1)),
     (''show_reasoning_summary'', JBool (oc_show_reasoning_summary o1))]"

definition prompt_json :: "prompt_settings \<Rightarrow> json" where
  "prompt_json p = JObj [(''system_instruction_file'', JStr (pc_system_instruction_file p)),
     (''developer_instruction_file'', JStr (pc_developer_instruction_file p)),
     (''compaction_instruction_file'', JStr (pc_compaction_instruction_file p)),
     (''system_instruction'', json_opt_str (pc_system_instruction p)),
     (''developer_instruction'', json_opt_str (pc_developer_instruction p)),
     (''compaction_instruction'', json_opt_str (pc_compaction_instruction p))]"

definition profile_json :: "profile_settings \<Rightarrow> json" where
  "profile_json p = JObj [(''goal_file'', JStr (pf_goal_file p)), (''max_turns'', JInt (pf_max_turns p)),
     (''max_tool_calls'', JInt (pf_max_tool_calls p)),
     (''auto_compact_threshold_tokens'', JInt (pf_auto_compact_threshold_tokens p)),
     (''goal'', json_opt_str (pf_goal p))]"

definition openai_web_search_json :: "openai_web_search_settings \<Rightarrow> json" where
  "openai_web_search_json w = JObj [(''enabled'', JBool (ow_enabled w)),
     (''search_context_size'', JStr (ow_search_context_size w)),
     (''external_web_access'', JBool (ow_external_web_access w)), (''include_sources'', JBool (ow_include_sources w)),
     (''allowed_domains'', JList (map JStr (ow_allowed_domains w))),
     (''blocked_domains'', JList (map JStr (ow_blocked_domains w))),
     (''return_token_budget'', json_opt_str (ow_return_token_budget w))]"

definition read_config_json :: "read_config \<Rightarrow> json" where
  "read_config_json r = JObj [(''default_lines'', JInt (rc_default_lines r)), (''max_lines'', JInt (rc_max_lines r)),
     (''max_bytes'', JInt (rc_max_bytes r))]"

definition search_config_json :: "search_config \<Rightarrow> json" where
  "search_config_json s = JObj [(''max_results'', JInt (sx_max_results s)),
     (''timeout_seconds'', JInt (sx_timeout_seconds s)), (''max_output_bytes'', JInt (sx_max_output_bytes s))]"

definition web_config_json :: "web_config \<Rightarrow> json" where
  "web_config_json w = JObj [(''max_results'', JInt (wc_max_results w)), (''timeout_seconds'', JInt (wc_timeout_seconds w)),
     (''max_query_chars'', JInt (wc_max_query_chars w))]"

definition tools_json :: "tools_settings \<Rightarrow> json" where
  "tools_json t = JObj [(''enabled'', JList (map JStr (tl_enabled t))),
     (''web_search_tool_choice'', JStr (tl_web_search_tool_choice t)), (''read_file'', read_config_json (tl_read_file t)),
     (''search_text'', search_config_json (tl_search_text t)), (''web_search'', web_config_json (tl_web_search t)),
     (''openai_web_search'', openai_web_search_json (tl_openai_web_search t))]"

definition snapshot_json :: "snapshot_settings \<Rightarrow> json" where
  "snapshot_json s = JObj [(''max_file_bytes'', JInt (sp_max_file_bytes s)),
     (''max_git_bundle_bytes'', JInt (sp_max_git_bundle_bytes s)), (''lfs_policy'', JStr (sp_lfs_policy s)),
     (''submodule_policy'', JStr (sp_submodule_policy s)), (''binary_policy'', JStr (sp_binary_policy s))]"

definition cache_json :: "cache_settings \<Rightarrow> json" where
  "cache_json c = JObj [(''root_dir'', JStr (cc_root_dir c)), (''max_worker_cache_bytes'', JInt (cc_max_worker_cache_bytes c)),
     (''max_prefix_bytes'', JInt (cc_max_prefix_bytes c)), (''ttl_days'', JInt (cc_ttl_days c)),
     (''min_free_disk_percent'', JInt (cc_min_free_disk_percent c))]"

definition to_json_dict :: "app_config \<Rightarrow> json" where
  "to_json_dict c = JObj [(''openai'', openai_json (ap_openai c)), (''prompt'', prompt_json (ap_prompt c)),
     (''analysis'', JObj [(''default_profile'', JStr (ap_default_profile c)),
        (''profiles'', JObj (map (\<lambda>(n, p). (n, profile_json p)) (ap_profiles c)))]),
     (''tools'', tools_json (ap_tools c)), (''snapshot'', snapshot_json (ap_snapshot c)),
     (''cache'', cache_json (ap_cache c))]"

section \<open>Reading values\<close>

datatype config_error = CfgValueError string | CfgNumber int_error

definition config_section :: "(string \<times> json) list \<Rightarrow> string \<Rightarrow> (string \<times> json) list" where
  "config_section d n = (case obj_get d n of JObj v \<Rightarrow> v | _ \<Rightarrow> [])"

definition cfg_int_value :: "json \<Rightarrow> int \<Rightarrow> config_error + int" where
  "cfg_int_value v dflt =
     (if v = JNull then Inr dflt else case py_int v of Inl e \<Rightarrow> Inl (CfgNumber e) | Inr i \<Rightarrow> Inr i)"

definition bool_env :: "string \<Rightarrow> bool" where
  "bool_env v = (py_lower (py_strip v) \<in> {''1'', ''true'', ''yes'', ''on''})"

definition bool_value :: "json \<Rightarrow> bool \<Rightarrow> bool" where
  "bool_value v dflt = (case v of JNull \<Rightarrow> dflt | JBool b \<Rightarrow> b | _ \<Rightarrow> bool_env (py_str v))"

definition stripped_items :: "string list \<Rightarrow> string list \<Rightarrow> string list" where
  "stripped_items xs dflt =
     (let items = map py_strip (filter (\<lambda>x. py_strip x \<noteq> []) xs) in if items = [] then dflt else items)"

definition tuple_value :: "json \<Rightarrow> string list \<Rightarrow> string list" where
  "tuple_value v dflt =
     (case v of
        JStr s \<Rightarrow> stripped_items (split_on (CHR '','') s) dflt
      | JList xs \<Rightarrow> stripped_items (map py_str xs) dflt
      | _ \<Rightarrow> dflt)"

definition cfg_optional_str :: "json \<Rightarrow> string option" where
  "cfg_optional_str v =
     (case v of JNull \<Rightarrow> None | JStr s \<Rightarrow> (if py_strip s = [] then None else Some s) | _ \<Rightarrow> Some (py_str v))"

definition str_value :: "json \<Rightarrow> string \<Rightarrow> string" where
  "str_value v dflt = py_str (py_or v (JStr dflt))"

definition prompt_cache_retention_value :: "json \<Rightarrow> string option" where
  "prompt_cache_retention_value v =
     (if v = JNull then None
      else let text_value = py_strip (py_str v)
           in if text_value = [] \<or> py_lower text_value \<in> {''none'', ''off'', ''false'', ''disabled''} then None
              else Some text_value)"

section \<open>Validation\<close>

definition TAVILY_WEB_SEARCH_MAX_RESULTS :: int where
  "TAVILY_WEB_SEARCH_MAX_RESULTS = 10"

definition WEB_SEARCH_TOOL_CHOICE_VALUES :: "string list" where
  "WEB_SEARCH_TOOL_CHOICE_VALUES = [''auto'', ''required'', ''required_tavily'']"

definition validate_web_search_config :: "web_config \<Rightarrow> config_error + web_config" where
  "validate_web_search_config c =
     (if wc_max_results c < 1 then Inl (CfgValueError ''web_search.max_results must be at least 1'')
      else if wc_max_results c > TAVILY_WEB_SEARCH_MAX_RESULTS
      then Inl (CfgValueError (''web_search.max_results must be at most '' @ show_int TAVILY_WEB_SEARCH_MAX_RESULTS))
      else if wc_timeout_seconds c < 1 then Inl (CfgValueError ''web_search.timeout_seconds must be at least 1'')
      else if wc_max_query_chars c < 1 then Inl (CfgValueError ''web_search.max_query_chars must be at least 1'')
      else Inr c)"

definition validate_web_search_tool_choice :: "string \<Rightarrow> config_error + string" where
  "validate_web_search_tool_choice v =
     (let normalized = py_lower (py_strip v)
      in if normalized \<in> set WEB_SEARCH_TOOL_CHOICE_VALUES then Inr normalized
         else Inl (CfgValueError ''web_search_tool_choice must be one of auto, required, required_tavily''))"

text \<open>\<^verbatim>\<open>str.isalnum\<close> of one character below code point 256.\<close>

definition is_alnum_latin1 :: "char \<Rightarrow> bool" where
  "is_alnum_latin1 c = (let n = code_point c in
     48 \<le> n \<and> n \<le> 57 \<or> 65 \<le> n \<and> n \<le> 90 \<or> 97 \<le> n \<and> n \<le> 122 \<or> n = 170 \<or> n = 178 \<or> n = 179 \<or> n = 181 \<or>
     n = 185 \<or> n = 186 \<or> 188 \<le> n \<and> n \<le> 190 \<or> 192 \<le> n \<and> n \<noteq> 215 \<and> n \<noteq> 247)"

text \<open>
  \<^verbatim>\<open>ip_address(domain)\<close> succeeds. Every IPv6 address contains a colon, so that the test of the labels below
  refuses it as well; what is left is the dotted form without leading zeros.
\<close>

definition is_ipv4_octet :: "string \<Rightarrow> bool" where
  "is_ipv4_octet s = (s \<noteq> [] \<and> list_all is_digit s \<and> length s \<le> 3 \<and> (length s = 1 \<or> hd s \<noteq> CHR ''0'') \<and> read_nat s \<le> 255)"

definition is_ipv4_address :: "string \<Rightarrow> bool" where
  "is_ipv4_address s = (let parts = split_on (CHR ''.'') s in length parts = 4 \<and> list_all is_ipv4_octet parts)"

definition is_domain_label :: "string \<Rightarrow> bool" where
  "is_domain_label l =
     (l \<noteq> [] \<and> (let r = filter (\<lambda>c. c \<noteq> CHR ''-'') l in r \<noteq> [] \<and> list_all is_alnum_latin1 r) \<and>
      \<not> starts_with ''-'' l \<and> \<not> ends_with ''-'' l)"

definition is_openai_web_search_domain :: "string \<Rightarrow> bool" where
  "is_openai_web_search_domain d =
     (if d = [] \<or> contains_sub ''://'' d \<or> CHR ''/'' \<in> set d \<or> ends_with ''.'' d then False
      else if d \<in> {''localhost'', ''local''} \<or> ends_with ''.local'' d then False
      else if is_ipv4_address d then False
      else let labels = split_on (CHR ''.'') d in 2 \<le> length labels \<and> list_all is_domain_label labels)"

definition validate_openai_web_search_domains :: "string \<Rightarrow> string list \<Rightarrow> config_error + string list" where
  "validate_openai_web_search_domains name domains =
     (if 100 < length domains
      then Inl (CfgValueError (''openai_web_search.'' @ name @ '' must contain at most 100 domains''))
      else let normalized = map (\<lambda>d. py_lower (py_strip d)) (filter (\<lambda>d. py_strip d \<noteq> []) domains)
           in case find (\<lambda>d. \<not> is_openai_web_search_domain d) normalized of
                Some d \<Rightarrow> Inl (CfgValueError (''openai_web_search.'' @ name @ '' contains invalid domain: '' @ d))
              | None \<Rightarrow> Inr normalized)"

definition validate_openai_web_search_config ::
  "openai_web_search_settings \<Rightarrow> config_error + openai_web_search_settings" where
  "validate_openai_web_search_config c =
     (if ow_search_context_size c \<notin> {''low'', ''medium'', ''high''}
      then Inl (CfgValueError ''openai_web_search.search_context_size must be one of low, medium, high'')
      else if ow_return_token_budget c \<notin> {None, Some ''default'', Some ''unlimited''}
      then Inl (CfgValueError ''openai_web_search.return_token_budget must be default or unlimited'')
      else rbind (validate_openai_web_search_domains ''allowed_domains'' (ow_allowed_domains c)) (\<lambda>allowed.
           rbind (validate_openai_web_search_domains ''blocked_domains'' (ow_blocked_domains c)) (\<lambda>blocked.
             if allowed \<noteq> [] \<and> blocked \<noteq> []
             then Inl (CfgValueError ''openai_web_search filters may set allowed_domains or blocked_domains, not both'')
             else Inr (c\<lparr>ow_allowed_domains := allowed, ow_blocked_domains := blocked\<rparr>))))"

section \<open>\<^verbatim>\<open>app_config_from_json\<close>\<close>

definition profile_from_json :: "(string \<times> json) list \<Rightarrow> config_error + profile_settings" where
  "profile_from_json j =
     rbind (cfg_int_value (obj_get j ''max_turns'') (pf_max_turns default_profile)) (\<lambda>turns.
     rbind (cfg_int_value (obj_get j ''max_tool_calls'') (pf_max_tool_calls default_profile)) (\<lambda>calls.
     rbind (cfg_int_value (obj_get j ''auto_compact_threshold_tokens'')
              (pf_auto_compact_threshold_tokens default_profile)) (\<lambda>threshold.
       Inr \<lparr>pf_goal_file = str_value (obj_get j ''goal_file'') (pf_goal_file default_profile), pf_max_turns = turns,
            pf_max_tool_calls = calls, pf_auto_compact_threshold_tokens = threshold,
            pf_goal = cfg_optional_str (obj_get j ''goal'')\<rparr>)))"

definition web_config_from_json :: "(string \<times> json) list \<Rightarrow> config_error + web_config" where
  "web_config_from_json j =
     rbind (cfg_int_value (obj_get j ''max_results'') (wc_max_results (tl_web_search default_tools))) (\<lambda>results.
     rbind (cfg_int_value (obj_get j ''timeout_seconds'') (wc_timeout_seconds (tl_web_search default_tools))) (\<lambda>timeout.
     rbind (cfg_int_value (obj_get j ''max_query_chars'') (wc_max_query_chars (tl_web_search default_tools))) (\<lambda>chars.
       validate_web_search_config \<lparr>wc_max_results = results, wc_timeout_seconds = timeout, wc_max_query_chars = chars\<rparr>)))"

definition openai_web_search_from_json :: "(string \<times> json) list \<Rightarrow> config_error + openai_web_search_settings" where
  "openai_web_search_from_json j =
     (let d = default_openai_web_search
      in validate_openai_web_search_config
        \<lparr>ow_enabled = bool_value (obj_get j ''enabled'') (ow_enabled d),
         ow_search_context_size = str_value (obj_get j ''search_context_size'') (ow_search_context_size d),
         ow_external_web_access = bool_value (obj_get j ''external_web_access'') (ow_external_web_access d),
         ow_include_sources = bool_value (obj_get j ''include_sources'') (ow_include_sources d),
         ow_allowed_domains = tuple_value (obj_get j ''allowed_domains'') (ow_allowed_domains d),
         ow_blocked_domains = tuple_value (obj_get j ''blocked_domains'') (ow_blocked_domains d),
         ow_return_token_budget = cfg_optional_str (obj_get j ''return_token_budget'')\<rparr>)"

definition openai_from_json :: "(string \<times> json) list \<Rightarrow> openai_settings" where
  "openai_from_json j =
     (let d = default_openai
      in \<lparr>oc_model = str_value (obj_get j ''model'') (oc_model d),
          oc_reasoning_effort = str_value (obj_get j ''reasoning_effort'') (oc_reasoning_effort d),
          oc_reasoning_summary = str_value (obj_get j ''reasoning_summary'') (oc_reasoning_summary d),
          oc_service_tier = str_value (obj_get j ''service_tier'') (oc_service_tier d),
          oc_parallel_tool_calls = False,
          oc_use_previous_response_id = bool_value (obj_get j ''use_previous_response_id'') (oc_use_previous_response_id d),
          oc_prompt_cache_retention = prompt_cache_retention_value
            (obj_get_default j ''prompt_cache_retention'' (json_opt_str (oc_prompt_cache_retention d))),
          oc_transport = str_value (obj_get j ''transport'') (oc_transport d),
          oc_show_reasoning_summary = bool_value (obj_get j ''show_reasoning_summary'') (oc_show_reasoning_summary d)\<rparr>)"

definition prompt_from_json :: "(string \<times> json) list \<Rightarrow> prompt_settings" where
  "prompt_from_json j =
     (let d = default_prompt
      in \<lparr>pc_system_instruction_file = str_value (obj_get j ''system_instruction_file'') (pc_system_instruction_file d),
          pc_developer_instruction_file = str_value (obj_get j ''developer_instruction_file'') (pc_developer_instruction_file d),
          pc_compaction_instruction_file = str_value (obj_get j ''compaction_instruction_file'') (pc_compaction_instruction_file d),
          pc_system_instruction = cfg_optional_str (obj_get j ''system_instruction''),
          pc_developer_instruction = cfg_optional_str (obj_get j ''developer_instruction''),
          pc_compaction_instruction = cfg_optional_str (obj_get j ''compaction_instruction'')\<rparr>)"

definition read_config_from_json :: "(string \<times> json) list \<Rightarrow> config_error + read_config" where
  "read_config_from_json j =
     (let d = tl_read_file default_tools
      in rbind (cfg_int_value (obj_get j ''default_lines'') (rc_default_lines d)) (\<lambda>lines.
         rbind (cfg_int_value (obj_get j ''max_lines'') (rc_max_lines d)) (\<lambda>most.
         rbind (cfg_int_value (obj_get j ''max_bytes'') (rc_max_bytes d)) (\<lambda>bytes.
           Inr \<lparr>rc_default_lines = lines, rc_max_lines = most, rc_max_bytes = bytes\<rparr>))))"

definition search_config_from_json :: "(string \<times> json) list \<Rightarrow> config_error + search_config" where
  "search_config_from_json j =
     (let d = tl_search_text default_tools
      in rbind (cfg_int_value (obj_get j ''max_results'') (sx_max_results d)) (\<lambda>results.
         rbind (cfg_int_value (obj_get j ''timeout_seconds'') (sx_timeout_seconds d)) (\<lambda>timeout.
         rbind (cfg_int_value (obj_get j ''max_output_bytes'') (sx_max_output_bytes d)) (\<lambda>bytes.
           Inr \<lparr>sx_max_results = results, sx_timeout_seconds = timeout, sx_max_output_bytes = bytes\<rparr>))))"

definition snapshot_from_json :: "(string \<times> json) list \<Rightarrow> config_error + snapshot_settings" where
  "snapshot_from_json j =
     (let d = default_snapshot
      in rbind (cfg_int_value (obj_get j ''max_file_bytes'') (sp_max_file_bytes d)) (\<lambda>file_bytes.
         rbind (cfg_int_value (obj_get j ''max_git_bundle_bytes'') (sp_max_git_bundle_bytes d)) (\<lambda>bundle_bytes.
           Inr \<lparr>sp_max_file_bytes = file_bytes, sp_max_git_bundle_bytes = bundle_bytes,
                sp_lfs_policy = str_value (obj_get j ''lfs_policy'') (sp_lfs_policy d),
                sp_submodule_policy = str_value (obj_get j ''submodule_policy'') (sp_submodule_policy d),
                sp_binary_policy = str_value (obj_get j ''binary_policy'') (sp_binary_policy d)\<rparr>)))"

definition cache_from_json :: "(string \<times> json) list \<Rightarrow> config_error + cache_settings" where
  "cache_from_json j =
     (let d = default_cache
      in rbind (cfg_int_value (obj_get j ''max_worker_cache_bytes'') (cc_max_worker_cache_bytes d)) (\<lambda>worker_bytes.
         rbind (cfg_int_value (obj_get j ''max_prefix_bytes'') (cc_max_prefix_bytes d)) (\<lambda>prefix_bytes.
         rbind (cfg_int_value (obj_get j ''ttl_days'') (cc_ttl_days d)) (\<lambda>days.
         rbind (cfg_int_value (obj_get j ''min_free_disk_percent'') (cc_min_free_disk_percent d)) (\<lambda>percent.
           Inr \<lparr>cc_max_worker_cache_bytes = worker_bytes, cc_max_prefix_bytes = prefix_bytes, cc_ttl_days = days,
                cc_min_free_disk_percent = percent, cc_root_dir = str_value (obj_get j ''root_dir'') (cc_root_dir d)\<rparr>)))))"

definition app_config_from_json :: "json option \<Rightarrow> config_error + app_config" where
  "app_config_from_json config_json =
     (case config_json of
        Some (JObj cfg) \<Rightarrow>
          (let analysis = config_section cfg ''analysis'';
               tools = config_section cfg ''tools'';
               name = str_value (obj_get analysis ''default_profile'') default_profile_name;
               selected = (case obj_get analysis ''profiles'' of JObj ps \<Rightarrow> config_section ps name | _ \<Rightarrow> [])
           in rbind (profile_from_json selected) (\<lambda>profile.
              rbind (web_config_from_json (config_section tools ''web_search'')) (\<lambda>web.
              rbind (openai_web_search_from_json (config_section tools ''openai_web_search'')) (\<lambda>hosted.
              rbind (validate_web_search_tool_choice
                (str_value (obj_get tools ''web_search_tool_choice'') (tl_web_search_tool_choice default_tools))) (\<lambda>choice.
              rbind (read_config_from_json (config_section tools ''read_file'')) (\<lambda>rd.
              rbind (search_config_from_json (config_section tools ''search_text'')) (\<lambda>sr.
              rbind (snapshot_from_json (config_section cfg ''snapshot'')) (\<lambda>snapshot.
              rbind (cache_from_json (config_section cfg ''cache'')) (\<lambda>cache.
                Inr \<lparr>ap_openai = openai_from_json (config_section cfg ''openai''),
                     ap_prompt = prompt_from_json (config_section cfg ''prompt''), ap_default_profile = name,
                     ap_profiles = [(name, profile)],
                     ap_tools = \<lparr>tl_enabled = tuple_value (obj_get tools ''enabled'') (tl_enabled default_tools),
                        tl_web_search_tool_choice = choice, tl_read_file = rd, tl_search_text = sr, tl_web_search = web,
                        tl_openai_web_search = hosted\<rparr>,
                     ap_snapshot = snapshot, ap_cache = cache\<rparr>)))))))))
      | _ \<Rightarrow> Inr default_config)"

section \<open>The environment\<close>

text \<open>\<^verbatim>\<open>_parse_env_line\<close>; a key is kept when it is not set already.\<close>

definition parse_env_line :: "string \<Rightarrow> (string \<times> string) option" where
  "parse_env_line line =
     (let stripped = py_strip line
      in if stripped = [] \<or> starts_with ''#'' stripped \<or> CHR ''='' \<notin> set stripped then None
         else let key = py_strip (takeWhile (\<lambda>c. c \<noteq> CHR ''='') stripped);
                  value = py_strip (tl (dropWhile (\<lambda>c. c \<noteq> CHR ''='') stripped))
              in if key = [] then None
                 else Some (key, if 2 \<le> length value \<and> hd value = last value \<and> hd value \<in> {CHR 0x27, CHR 0x22}
                                 then butlast (tl value) else value))"

definition load_dotenv :: "string list option \<Rightarrow> (string \<rightharpoonup> string) \<Rightarrow> (string \<rightharpoonup> string)" where
  "load_dotenv file_lines env =
     (case file_lines of
        None \<Rightarrow> env
      | Some ls \<Rightarrow> foldl (\<lambda>e line. case parse_env_line line of
            None \<Rightarrow> e
          | Some (k, v) \<Rightarrow> (if e k = None then e(k \<mapsto> v) else e)) env ls)"

definition env_get :: "(string \<rightharpoonup> string) \<Rightarrow> string \<Rightarrow> string \<Rightarrow> string" where
  "env_get env n dflt = (case env n of None \<Rightarrow> dflt | Some v \<Rightarrow> v)"

definition int_env :: "(string \<rightharpoonup> string) \<Rightarrow> string \<Rightarrow> int \<Rightarrow> config_error + int" where
  "int_env env n dflt =
     (case env n of
        None \<Rightarrow> Inr dflt
      | Some v \<Rightarrow> if py_strip v = [] then Inr dflt
                  else (case parse_int v of None \<Rightarrow> Inl (CfgNumber IntValueError) | Some i \<Rightarrow> Inr i))"

definition bool_env_get :: "(string \<rightharpoonup> string) \<Rightarrow> string \<Rightarrow> bool \<Rightarrow> bool" where
  "bool_env_get env n dflt = bool_env (env_get env n (py_str (JBool dflt)))"

definition csv_env :: "(string \<rightharpoonup> string) \<Rightarrow> string \<Rightarrow> string list \<Rightarrow> string list" where
  "csv_env env n dflt = (case env n of None \<Rightarrow> dflt | Some v \<Rightarrow> stripped_items (split_on (CHR '','') v) dflt)"

definition optional_env :: "(string \<rightharpoonup> string) \<Rightarrow> string \<Rightarrow> string option" where
  "optional_env env n = (case env n of None \<Rightarrow> None | Some v \<Rightarrow> if py_strip v = [] then None else Some (py_strip v))"

definition prompt_cache_retention_env :: "(string \<rightharpoonup> string) \<Rightarrow> string option \<Rightarrow> string option" where
  "prompt_cache_retention_env env dflt =
     (case env ''OPENAI_PROMPT_CACHE_RETENTION'' of
        None \<Rightarrow> dflt
      | Some v \<Rightarrow> prompt_cache_retention_value (JStr v))"

text \<open>\<^verbatim>\<open>os.environ.get(name) or _read_optional_text_file(file)\<close>\<close>

definition env_or_file :: "(string \<Rightarrow> string option) \<Rightarrow> (string \<rightharpoonup> string) \<Rightarrow> string \<Rightarrow> string \<Rightarrow> string option" where
  "env_or_file read_text env n file =
     (case env n of Some v \<Rightarrow> (if v \<noteq> [] then Some v else read_text file) | None \<Rightarrow> read_text file)"

definition openai_from_env :: "(string \<rightharpoonup> string) \<Rightarrow> openai_settings" where
  "openai_from_env env =
     (let d = default_openai
      in \<lparr>oc_model = env_get env ''OPENAI_MODEL'' (oc_model d),
          oc_reasoning_effort = env_get env ''OPENAI_REASONING_EFFORT'' (oc_reasoning_effort d),
          oc_reasoning_summary = env_get env ''OPENAI_REASONING_SUMMARY'' (oc_reasoning_summary d),
          oc_service_tier = env_get env ''OPENAI_SERVICE_TIER'' (oc_service_tier d), oc_parallel_tool_calls = False,
          oc_use_previous_response_id = bool_env_get env ''OPENAI_USE_PREVIOUS_RESPONSE_ID'' (oc_use_previous_response_id d),
          oc_prompt_cache_retention = prompt_cache_retention_env env (oc_prompt_cache_retention d),
          oc_transport = env_get env ''OPENAI_TRANSPORT'' (oc_transport d),
          oc_show_reasoning_summary = bool_env_get env ''API_SHOW_MODEL_REASONING_SUMMARY'' (oc_show_reasoning_summary d)\<rparr>)"

definition prompt_from_env :: "(string \<Rightarrow> string option) \<Rightarrow> (string \<rightharpoonup> string) \<Rightarrow> prompt_settings" where
  "prompt_from_env read_text env =
     (let d = default_prompt;
          system_file = env_get env ''PROMPT_SYSTEM_INSTRUCTION_FILE'' (pc_system_instruction_file d);
          developer_file = env_get env ''PROMPT_DEVELOPER_INSTRUCTION_FILE'' (pc_developer_instruction_file d);
          compaction_file = env_get env ''PROMPT_COMPACTION_INSTRUCTION_FILE'' (pc_compaction_instruction_file d)
      in \<lparr>pc_system_instruction_file = system_file, pc_developer_instruction_file = developer_file,
          pc_compaction_instruction_file = compaction_file,
          pc_system_instruction = env_or_file read_text env ''PROMPT_SYSTEM_INSTRUCTION'' system_file,
          pc_developer_instruction = env_or_file read_text env ''PROMPT_DEVELOPER_INSTRUCTION'' developer_file,
          pc_compaction_instruction = env_or_file read_text env ''PROMPT_COMPACTION_INSTRUCTION'' compaction_file\<rparr>)"

definition profile_from_env :: "(string \<Rightarrow> string option) \<Rightarrow> (string \<rightharpoonup> string) \<Rightarrow> config_error + profile_settings" where
  "profile_from_env read_text env =
     (let d = default_profile;
          goal_file = env_get env ''ANALYSIS_GOAL_FILE'' (pf_goal_file d)
      in rbind (int_env env ''ANALYSIS_MAX_TURNS'' (pf_max_turns d)) (\<lambda>turns.
         rbind (int_env env ''ANALYSIS_MAX_TOOL_CALLS'' (pf_max_tool_calls d)) (\<lambda>calls.
         rbind (int_env env ''ANALYSIS_AUTO_COMPACT_THRESHOLD_TOKENS'' (pf_auto_compact_threshold_tokens d)) (\<lambda>threshold.
           Inr \<lparr>pf_goal_file = goal_file, pf_max_turns = turns, pf_max_tool_calls = calls,
                pf_auto_compact_threshold_tokens = threshold,
                pf_goal = env_or_file read_text env ''ANALYSIS_GOAL'' goal_file\<rparr>))))"

definition web_config_from_env :: "(string \<rightharpoonup> string) \<Rightarrow> config_error + web_config" where
  "web_config_from_env env =
     (let d = tl_web_search default_tools
      in rbind (int_env env ''TOOL_WEB_SEARCH_MAX_RESULTS'' (wc_max_results d)) (\<lambda>results.
         rbind (int_env env ''TOOL_WEB_SEARCH_TIMEOUT_SECONDS'' (wc_timeout_seconds d)) (\<lambda>timeout.
         rbind (int_env env ''TOOL_WEB_SEARCH_MAX_QUERY_CHARS'' (wc_max_query_chars d)) (\<lambda>chars.
           validate_web_search_config
             \<lparr>wc_max_results = results, wc_timeout_seconds = timeout, wc_max_query_chars = chars\<rparr>))))"

definition openai_web_search_from_env :: "(string \<rightharpoonup> string) \<Rightarrow> config_error + openai_web_search_settings" where
  "openai_web_search_from_env env =
     (let d = default_openai_web_search
      in validate_openai_web_search_config
        \<lparr>ow_enabled = bool_env_get env ''OPENAI_WEB_SEARCH_ENABLED'' (ow_enabled d),
         ow_search_context_size = env_get env ''OPENAI_WEB_SEARCH_CONTEXT_SIZE'' (ow_search_context_size d),
         ow_external_web_access = bool_env_get env ''OPENAI_WEB_SEARCH_EXTERNAL_WEB_ACCESS'' (ow_external_web_access d),
         ow_include_sources = bool_env_get env ''OPENAI_WEB_SEARCH_INCLUDE_SOURCES'' (ow_include_sources d),
         ow_allowed_domains = csv_env env ''OPENAI_WEB_SEARCH_ALLOWED_DOMAINS'' (ow_allowed_domains d),
         ow_blocked_domains = csv_env env ''OPENAI_WEB_SEARCH_BLOCKED_DOMAINS'' (ow_blocked_domains d),
         ow_return_token_budget = optional_env env ''OPENAI_WEB_SEARCH_RETURN_TOKEN_BUDGET''\<rparr>)"

definition read_config_from_env :: "(string \<rightharpoonup> string) \<Rightarrow> config_error + read_config" where
  "read_config_from_env env =
     (let d = tl_read_file default_tools
      in rbind (int_env env ''TOOL_READ_FILE_DEFAULT_LINES'' (rc_default_lines d)) (\<lambda>lines.
         rbind (int_env env ''TOOL_READ_FILE_MAX_LINES'' (rc_max_lines d)) (\<lambda>most.
         rbind (int_env env ''TOOL_READ_FILE_MAX_BYTES'' (rc_max_bytes d)) (\<lambda>bytes.
           Inr \<lparr>rc_default_lines = lines, rc_max_lines = most, rc_max_bytes = bytes\<rparr>))))"

definition search_config_from_env :: "(string \<rightharpoonup> string) \<Rightarrow> config_error + search_config" where
  "search_config_from_env env =
     (let d = tl_search_text default_tools
      in rbind (int_env env ''TOOL_SEARCH_TEXT_MAX_RESULTS'' (sx_max_results d)) (\<lambda>results.
         rbind (int_env env ''TOOL_SEARCH_TEXT_TIMEOUT_SECONDS'' (sx_timeout_seconds d)) (\<lambda>timeout.
         rbind (int_env env ''TOOL_SEARCH_TEXT_MAX_OUTPUT_BYTES'' (sx_max_output_bytes d)) (\<lambda>bytes.
           Inr \<lparr>sx_max_results = results, sx_timeout_seconds = timeout, sx_max_output_bytes = bytes\<rparr>))))"

definition snapshot_from_env :: "(string \<rightharpoonup> string) \<Rightarrow> config_error + snapshot_settings" where
  "snapshot_from_env env =
     (let d = default_snapshot
      in rbind (int_env env ''SNAPSHOT_MAX_FILE_BYTES'' (sp_max_file_bytes d)) (\<lambda>file_bytes.
         rbind (int_env env ''SNAPSHOT_MAX_GIT_BUNDLE_BYTES'' (sp_max_git_bundle_bytes d)) (\<lambda>bundle_bytes.
           Inr \<lparr>sp_max_file_bytes = file_bytes, sp_max_git_bundle_bytes = bundle_bytes,
                sp_lfs_policy = env_get env ''SNAPSHOT_LFS_POLICY'' (sp_lfs_policy d),
                sp_submodule_policy = env_get env ''SNAPSHOT_SUBMODULE_POLICY'' (sp_submodule_policy d),
                sp_binary_policy = env_get env ''SNAPSHOT_BINARY_POLICY'' (sp_binary_policy d)\<rparr>)))"

definition cache_from_env :: "(string \<rightharpoonup> string) \<Rightarrow> config_error + cache_settings" where
  "cache_from_env env =
     (let d = default_cache
      in rbind (int_env env ''CACHE_MAX_WORKER_CACHE_BYTES'' (cc_max_worker_cache_bytes d)) (\<lambda>worker_bytes.
         rbind (int_env env ''CACHE_MAX_PREFIX_BYTES'' (cc_max_prefix_bytes d)) (\<lambda>prefix_bytes.
         rbind (int_env env ''CACHE_TTL_DAYS'' (cc_ttl_days d)) (\<lambda>days.
         rbind (int_env env ''CACHE_MIN_FREE_DISK_PERCENT'' (cc_min_free_disk_percent d)) (\<lambda>percent.
           Inr \<lparr>cc_max_worker_cache_bytes = worker_bytes, cc_max_prefix_bytes = prefix_bytes, cc_ttl_days = days,
                cc_min_free_disk_percent = percent, cc_root_dir = env_get env ''CACHE_ROOT_DIR'' (cc_root_dir d)\<rparr>)))))"

definition load_app_config_from_env ::
  "(string \<Rightarrow> string option) \<Rightarrow> string list option \<Rightarrow> (string \<rightharpoonup> string) \<Rightarrow> config_error + app_config" where
  "load_app_config_from_env read_text file_lines environ =
     (let env = load_dotenv file_lines environ;
          name = env_get env ''ANALYSIS_DEFAULT_PROFILE'' default_profile_name
      in rbind (profile_from_env read_text env) (\<lambda>profile.
         rbind (web_config_from_env env) (\<lambda>web.
         rbind (openai_web_search_from_env env) (\<lambda>hosted.
         rbind (validate_web_search_tool_choice
                  (env_get env ''WEB_SEARCH_TOOL_CHOICE'' (tl_web_search_tool_choice default_tools))) (\<lambda>choice.
         rbind (read_config_from_env env) (\<lambda>rd.
         rbind (search_config_from_env env) (\<lambda>sr.
         rbind (snapshot_from_env env) (\<lambda>snapshot.
         rbind (cache_from_env env) (\<lambda>cache.
           Inr \<lparr>ap_openai = openai_from_env env, ap_prompt = prompt_from_env read_text env, ap_default_profile = name,
                ap_profiles = [(name, profile)],
                ap_tools = \<lparr>tl_enabled = csv_env env ''TOOLS_ENABLED'' (tl_enabled default_tools),
                   tl_web_search_tool_choice = choice, tl_read_file = rd, tl_search_text = sr, tl_web_search = web,
                   tl_openai_web_search = hosted\<rparr>,
                ap_snapshot = snapshot, ap_cache = cache\<rparr>)))))))))"

section \<open>The tools offered to the model\<close>

definition list_files_schema :: json where
  "list_files_schema =
     JObj [(''type'', JStr ''object''), (''properties'', JObj [(''path'', JObj [(''type'', JList [JStr ''string'',
     JStr ''null'']), (''description'', JStr ''Repository-relative directory path.'')]), (''recursive'', JObj
     [(''type'', JStr ''boolean'')]), (''glob'', JObj [(''type'', JList [JStr ''string'', JStr ''null'']),
     (''description'', JStr ''Optional repository path glob.'')]), (''max_results'', JObj [(''type'', JStr
     ''integer''), (''minimum'', JInt 1), (''maximum'', JInt 100)]), (''cursor'', JObj [(''type'', JList [JStr
     ''string'', JStr ''null'']), (''description'', JStr ''Opaque pagination cursor from a previous result.'')])]),
     (''required'', JList [JStr ''path'', JStr ''recursive'', JStr ''glob'', JStr ''max_results'', JStr ''cursor'']),
     (''additionalProperties'', JBool False)]"

definition search_file_schema :: json where
  "search_file_schema =
     JObj [(''type'', JStr ''object''), (''properties'', JObj [(''query'', JObj [(''type'', JStr ''string'')]),
     (''glob'', JObj [(''type'', JList [JStr ''string'', JStr ''null'']), (''description'', JStr
     ''Optional repository path glob.'')]), (''max_results'', JObj [(''type'', JStr ''integer''), (''minimum'', JInt
     1), (''maximum'', JInt 100)]), (''cursor'', JObj [(''type'', JList [JStr ''string'', JStr ''null'']),
     (''description'', JStr ''Opaque pagination cursor from a previous result.'')])]), (''required'', JList [JStr
     ''query'', JStr ''glob'', JStr ''max_results'', JStr ''cursor'']), (''additionalProperties'', JBool False)]"

definition search_text_schema :: json where
  "search_text_schema =
     JObj [(''type'', JStr ''object''), (''properties'', JObj [(''query'', JObj [(''type'', JStr ''string'')]),
     (''mode'', JObj [(''type'', JStr ''string''), (''enum'', JList [JStr ''regex'', JStr ''literal''])]),
     (''path_prefix'', JObj [(''type'', JStr ''string'')]), (''path_glob'', JObj [(''type'', JList [JStr ''string'',
     JStr ''null'']), (''description'', JStr ''Optional ripgrep path glob scoped under path_prefix.'')]),
     (''case_sensitive'', JObj [(''type'', JStr ''boolean'')]), (''context_lines'', JObj [(''type'', JStr
     ''integer''), (''minimum'', JInt 0), (''maximum'', JInt 5)]), (''max_results'', JObj [(''type'', JStr
     ''integer''), (''minimum'', JInt 1), (''maximum'', JInt 100)]), (''cursor'', JObj [(''type'', JList [JStr
     ''string'', JStr ''null'']), (''description'', JStr ''Opaque pagination cursor from a previous result.'')])]),
     (''required'', JList [JStr ''query'', JStr ''mode'', JStr ''path_prefix'', JStr ''path_glob'', JStr
     ''case_sensitive'', JStr ''context_lines'', JStr ''max_results'', JStr ''cursor'']), (''additionalProperties'',
     JBool False)]"

definition read_file_schema :: json where
  "read_file_schema =
     JObj [(''type'', JStr ''object''), (''properties'', JObj [(''path'', JObj [(''type'', JStr ''string'')]),
     (''start_line'', JObj [(''type'', JList [JStr ''integer'', JStr ''null'']), (''minimum'', JInt 1)]),
     (''end_line'', JObj [(''type'', JList [JStr ''integer'', JStr ''null'']), (''minimum'', JInt 1)]),
     (''max_bytes'', JObj [(''type'', JList [JStr ''integer'', JStr ''null'']), (''minimum'', JInt 1)])]),
     (''required'', JList [JStr ''path'', JStr ''start_line'', JStr ''end_line'', JStr ''max_bytes'']),
     (''additionalProperties'', JBool False)]"

definition web_search_schema :: json where
  "web_search_schema =
     JObj [(''type'', JStr ''object''), (''properties'', JObj [(''query'', JObj [(''type'', JStr ''string''),
     (''minLength'', JInt 1), (''maxLength'', JInt 500)]), (''search_depth'', JObj [(''type'', JStr ''string''),
     (''enum'', JList [JStr ''basic'', JStr ''advanced''])]), (''max_results'', JObj [(''type'', JStr ''integer''),
     (''minimum'', JInt 1), (''maximum'', JInt 10)]), (''topic'', JObj [(''type'', JStr ''string''), (''enum'', JList
     [JStr ''general'', JStr ''news'', JStr ''finance''])]), (''time_range'', JObj [(''type'', JList [JStr ''string'',
     JStr ''null'']), (''enum'', JList [JStr ''day'', JStr ''week'', JStr ''month'', JStr ''year'', JNull])]),
     (''start_date'', JObj [(''type'', JList [JStr ''string'', JStr ''null'']), (''description'', JStr
     ''YYYY-MM-DD'')]), (''end_date'', JObj [(''type'', JList [JStr ''string'', JStr ''null'']), (''description'',
     JStr ''YYYY-MM-DD'')]), (''include_domains'', JObj [(''type'', JList [JStr ''array'', JStr ''null'']),
     (''items'', JObj [(''type'', JStr ''string'')]), (''maxItems'', JInt 20)]), (''exclude_domains'', JObj
     [(''type'', JList [JStr ''array'', JStr ''null'']), (''items'', JObj [(''type'', JStr ''string'')]),
     (''maxItems'', JInt 20)])]), (''required'', JList [JStr ''query'', JStr ''search_depth'', JStr ''max_results'',
     JStr ''topic'', JStr ''time_range'', JStr ''start_date'', JStr ''end_date'', JStr ''include_domains'', JStr
     ''exclude_domains'']), (''additionalProperties'', JBool False)]"

definition document_create_schema :: json where
  "document_create_schema =
     JObj [(''type'', JStr ''object''), (''properties'', JObj [(''title'', JObj [(''type'', JStr ''string''),
     (''minLength'', JInt 1), (''maxLength'', JInt 200)]), (''kind'', JObj [(''type'', JStr ''string''), (''enum'',
     JList [JStr ''markdown''])]), (''parent_node_id'', JObj [(''type'', JList [JStr ''string'', JStr ''null''])]),
     (''slug'', JObj [(''type'', JList [JStr ''string'', JStr ''null'']), (''minLength'', JInt 1), (''maxLength'',
     JInt 96)]), (''focus_area'', JObj [(''type'', JList [JStr ''string'', JStr ''null'']), (''maxLength'', JInt
     300)]), (''sections'', JObj [(''type'', JList [JStr ''array'', JStr ''null'']), (''maxItems'', JInt 20),
     (''items'', JObj [(''type'', JStr ''object''), (''properties'', JObj [(''stable_id'', JObj [(''type'', JStr
     ''string''), (''minLength'', JInt 1), (''maxLength'', JInt 96)]), (''title'', JObj [(''type'', JStr ''string''),
     (''minLength'', JInt 1), (''maxLength'', JInt 200)]), (''content'', JObj [(''type'', JStr ''string'')]),
     (''sort_order'', JObj [(''type'', JStr ''integer'')])]), (''required'', JList [JStr ''stable_id'', JStr
     ''title'', JStr ''content'', JStr ''sort_order'']), (''additionalProperties'', JBool False)])]), (''content'',
     JObj [(''type'', JList [JStr ''string'', JStr ''null''])])]), (''required'', JList [JStr ''title'', JStr
     ''kind'', JStr ''parent_node_id'', JStr ''slug'', JStr ''focus_area'', JStr ''sections'', JStr ''content'']),
     (''additionalProperties'', JBool False)]"

definition document_folder_create_schema :: json where
  "document_folder_create_schema =
     JObj [(''type'', JStr ''object''), (''properties'', JObj [(''title'', JObj [(''type'', JStr ''string''),
     (''minLength'', JInt 1), (''maxLength'', JInt 200)]), (''slug'', JObj [(''type'', JStr ''string''),
     (''minLength'', JInt 1), (''maxLength'', JInt 96)]), (''parent_node_id'', JObj [(''type'', JList [JStr
     ''string'', JStr ''null''])]), (''sort_order'', JObj [(''type'', JStr ''integer'')])]), (''required'', JList
     [JStr ''title'', JStr ''slug'', JStr ''parent_node_id'', JStr ''sort_order'']), (''additionalProperties'', JBool
     False)]"

definition todo_update_schema :: json where
  "todo_update_schema =
     JObj [(''type'', JStr ''object''), (''properties'', JObj [(''items'', JObj [(''type'', JStr ''array''),
     (''minItems'', JInt 1), (''maxItems'', JInt 8), (''items'', JObj [(''type'', JStr ''object''), (''properties'',
     JObj [(''id'', JObj [(''type'', JStr ''string''), (''minLength'', JInt 1), (''maxLength'', JInt 64),
     (''description'', JStr ''Stable lowercase slug for the TODO item.'')]), (''title'', JObj [(''type'', JStr
     ''string''), (''minLength'', JInt 1), (''maxLength'', JInt 80)]), (''status'', JObj [(''type'', JStr ''string''),
     (''enum'', JList [JStr ''pending'', JStr ''in_progress'', JStr ''completed''])])]), (''required'', JList [JStr
     ''id'', JStr ''title'', JStr ''status'']), (''additionalProperties'', JBool False)])]), (''note'', JObj
     [(''type'', JList [JStr ''string'', JStr ''null'']), (''maxLength'', JInt 500)])]), (''required'', JList [JStr
     ''items'', JStr ''note'']), (''additionalProperties'', JBool False)]"

definition document_get_schema :: json where
  "document_get_schema =
     JObj [(''type'', JStr ''object''), (''properties'', JObj [(''document_id'', JObj [(''type'', JStr ''string'')]),
     (''include_content'', JObj [(''type'', JStr ''boolean'')]), (''include_sections'', JObj [(''type'', JStr
     ''boolean'')])]), (''required'', JList [JStr ''document_id'', JStr ''include_content'', JStr
     ''include_sections'']), (''additionalProperties'', JBool False)]"

definition document_update_schema :: json where
  "document_update_schema =
     JObj [(''type'', JStr ''object''), (''properties'', JObj [(''document_id'', JObj [(''type'', JStr ''string'')]),
     (''expected_version'', JObj [(''type'', JStr ''integer''), (''minimum'', JInt 1)]), (''sections'', JObj
     [(''type'', JList [JStr ''array'', JStr ''null'']), (''maxItems'', JInt 20), (''items'', JObj [(''type'', JStr
     ''object''), (''properties'', JObj [(''stable_id'', JObj [(''type'', JStr ''string''), (''minLength'', JInt 1),
     (''maxLength'', JInt 96)]), (''title'', JObj [(''type'', JStr ''string''), (''minLength'', JInt 1),
     (''maxLength'', JInt 200)]), (''content'', JObj [(''type'', JStr ''string'')]), (''sort_order'', JObj [(''type'',
     JStr ''integer'')])]), (''required'', JList [JStr ''stable_id'', JStr ''title'', JStr ''content'', JStr
     ''sort_order'']), (''additionalProperties'', JBool False)])]), (''content'', JObj [(''type'', JList [JStr
     ''string'', JStr ''null''])])]), (''required'', JList [JStr ''document_id'', JStr ''expected_version'', JStr
     ''sections'', JStr ''content'']), (''additionalProperties'', JBool False)]"

definition document_delete_schema :: json where
  "document_delete_schema =
     JObj [(''type'', JStr ''object''), (''properties'', JObj [(''document_id'', JObj [(''type'', JStr ''string'')]),
     (''expected_version'', JObj [(''type'', JStr ''integer''), (''minimum'', JInt 1)])]), (''required'', JList [JStr
     ''document_id'', JStr ''expected_version'']), (''additionalProperties'', JBool False)]"

definition document_finalize_schema :: json where
  "document_finalize_schema =
     JObj [(''type'', JStr ''object''), (''properties'', JObj [(''document_id'', JObj [(''type'', JStr ''string'')]),
     (''expected_version'', JObj [(''type'', JStr ''integer''), (''minimum'', JInt 1)])]), (''required'', JList [JStr
     ''document_id'', JStr ''expected_version'']), (''additionalProperties'', JBool False)]"

definition TOOL_SCHEMAS :: "(string \<times> json) list" where
  "TOOL_SCHEMAS =
     [(''list_files'', list_files_schema),
      (''search_file'', search_file_schema),
      (''search_text'', search_text_schema),
      (''read_file'', read_file_schema),
      (''web_search'', web_search_schema),
      (''document_create'', document_create_schema),
      (''document_folder_create'', document_folder_create_schema),
      (''todo_update'', todo_update_schema),
      (''document_get'', document_get_schema),
      (''document_update'', document_update_schema),
      (''document_delete'', document_delete_schema),
      (''document_finalize'', document_finalize_schema)]"

text \<open>The second field of each \<^verbatim>\<open>ToolDefinition\<close>.\<close>

definition tool_descriptions :: "(string \<times> string) list" where
  "tool_descriptions =
     [(''list_files'', ''List files and directories from snapshot metadata.''),
      (''search_file'', ''Search file paths from snapshot metadata.''),
      (''search_text'', ''Search text content using ripgrep over a cached prefix.''),
      (''read_file'', ''Read a bounded line range from one snapshot file.''),
      (''web_search'', ''Search the public web through the configured Tavily Search API.''),
      (''todo_update'', ''Update the current Codex-style analysis TODO plan snapshot.''),
      (''document_create'', ''Create one focused Markdown analysis document artifact under the most specific nested folder in the document tree. Use portable Markdown only. For key source evidence, introduce the file path and line range, then paste the smallest useful excerpt in a fenced code block with a language tag when known; do not leave important evidence as only path:line-line. Use block math with $$ on separate lines and inline math with $...$. Use valid Mermaid diagrams such as flowchart, sequenceDiagram, gantt, classDiagram, or stateDiagram-v2 only when they clarify evidence; use simple node IDs and quote labels that contain slashes, colons, parentheses, angle brackets, pipes, braces, file paths, or other punctuation.''),
      (''document_folder_create'', ''Create a nested folder node in the analysis document tree. Use parent_node_id to build evidence-driven domain, runtime, subsystem, and focused topic levels. Do not force every repository into Backend and Frontend; create those folders only when source evidence shows material backend or frontend code. For non-web or mixed repositories, prefer real boundaries such as Runtime/Entry Point, API/Routes, Storage/PostgreSQL, Bot/Update Routing, Worker/Execution Loop, Library/Parser, Integrations/OpenAI, or Deployment/Docker Compose when evidence supports them.''),
      (''document_get'', ''Read a document artifact by id.''),
      (''document_update'', ''Replace a draft document artifact with new markdown content.''),
      (''document_delete'', ''Soft-delete a draft document artifact.''),
      (''document_finalize'', ''Finalize a draft document artifact.'')]"

definition function_tool :: "tool_definition \<Rightarrow> json" where
  "function_tool t = JObj
     [(''type'', JStr ''function''), (''name'', JStr (td_name t)),
      (''description'', JStr (the (map_of tool_descriptions (td_name t)))),
      (''parameters'', the (map_of TOOL_SCHEMAS (td_name t))), (''strict'', JBool True)]"

definition hosted_response_tools :: "openai_web_search_settings \<Rightarrow> json list" where
  "hosted_response_tools w =
     (if \<not> ow_enabled w then []
      else let filters = (if ow_allowed_domains w \<noteq> [] then [(''allowed_domains'', JList (map JStr (ow_allowed_domains w)))] else []) @
                 (if ow_blocked_domains w \<noteq> [] then [(''blocked_domains'', JList (map JStr (ow_blocked_domains w)))] else [])
           in [JObj ([(''type'', JStr ''web_search''), (''search_context_size'', JStr (ow_search_context_size w)),
                      (''external_web_access'', JBool (ow_external_web_access w))] @
                (if filters \<noteq> [] then [(''filters'', JObj filters)] else []) @
                (case ow_return_token_budget w of
                   None \<Rightarrow> []
                 | Some b \<Rightarrow> if b \<noteq> [] then [(''return_token_budget'', JStr b)] else []))])"

text \<open>\<^verbatim>\<open>ToolRegistry.from_config(config).response_tools()\<close>; every registered tool has a schema, as shown below.\<close>

definition response_tools :: "tools_settings \<Rightarrow> tool_exception + json list" where
  "response_tools c =
     rbind (registry_from_config (tl_enabled c)) (\<lambda>tools.
       Inr (map function_tool tools @ hosted_response_tools (tl_openai_web_search c)))"

definition web_search_tool_choice :: "tools_settings \<Rightarrow> json list \<Rightarrow> json option" where
  "web_search_tool_choice c tools =
     (let has_field = (\<lambda>k v tool. case tool of JObj d \<Rightarrow> obj_get d k = JStr v | _ \<Rightarrow> False);
          has_tavily_function = list_ex (\<lambda>t. has_field ''type'' ''function'' t \<and> has_field ''name'' ''web_search'' t) tools;
          has_hosted_web_search = list_ex (has_field ''type'' ''web_search'') tools;
          choice = tl_web_search_tool_choice c
      in if choice = ''auto'' then None
         else if choice = ''required''
         then (if has_tavily_function \<or> has_hosted_web_search then Some (JStr ''required'') else None)
         else if choice = ''required_tavily''
         then (if has_tavily_function
               then Some (JObj [(''type'', JStr ''function''), (''name'', JStr ''web_search'')]) else None)
         else None)"

section \<open>A stored configuration is read back\<close>

lemma strip_by_head: "strip_by p s \<noteq> [] \<Longrightarrow> \<not> p (hd (strip_by p s)) \<and> \<not> p (last (strip_by p s))"
proof -
  assume ne: "strip_by p s \<noteq> []"
  define u where "u = dropWhile p s"
  have s: "strip_by p s = rev (dropWhile p (rev u))" by (simp add: strip_by_def u_def)
  with ne have d: "dropWhile p (rev u) \<noteq> []" by auto
  have l: "\<not> p (last (strip_by p s))" unfolding s using hd_dropWhile [OF d] d by (simp add: last_rev)
  obtain v where "rev u = v @ dropWhile p (rev u)" by (metis takeWhile_dropWhile_id)
  then have "u = strip_by p s @ rev v" unfolding s by (metis rev_append rev_rev_ident)
  then have "hd (strip_by p s) = hd u" "u \<noteq> []" using ne by (auto simp: hd_append)
  then show ?thesis using l hd_dropWhile [of p s] by (simp add: u_def)
qed

lemma strip_by_idem [simp]: "strip_by p (strip_by p s) = strip_by p s"
proof (cases "strip_by p s = []")
  case True
  show ?thesis unfolding True by (simp add: strip_by_def)
next
  case False
  then show ?thesis using strip_by_head [OF False] by (intro strip_by_ends) auto
qed

lemma py_strip_idem [simp]: "py_strip (py_strip s) = py_strip s"
  by (simp add: py_strip_def)

lemma lower_char_space: "is_space (lower_char c) = is_space c"
  by (auto simp: is_space_def lower_char_def Let_def)

lemma py_lower_strip: "py_strip s = s \<Longrightarrow> py_strip (py_lower s) = py_lower s"
proof -
  assume s: "py_strip s = s"
  have *: "strip_by is_space (map lower_char u) = map lower_char (strip_by is_space u)" for u
    by (simp add: strip_by_def dropWhile_map comp_def lower_char_space rev_map)
  show ?thesis using s by (simp add: py_strip_def py_lower_def *)
qed

lemma py_lower_Nil [simp]: "py_lower s = [] \<longleftrightarrow> s = []"
  by (simp add: py_lower_def)

lemma stripped_items_ok: "x \<in> set (stripped_items xs []) \<Longrightarrow> py_strip x = x \<and> x \<noteq> []"
  by (auto simp: stripped_items_def Let_def split: if_splits)

definition clean_items :: "string list \<Rightarrow> bool" where
  "clean_items xs = list_all (\<lambda>x. py_strip x = x \<and> x \<noteq> []) xs"

lemma stripped_items_clean: "clean_items dflt \<Longrightarrow> clean_items (stripped_items xs dflt)"
  by (auto simp: clean_items_def stripped_items_def Let_def list_all_iff)

lemma stripped_items_id: "clean_items xs \<Longrightarrow> stripped_items xs dflt = (if xs = [] then dflt else xs)"
proof -
  assume c: "clean_items xs"
  then have "filter (\<lambda>x. py_strip x \<noteq> []) xs = xs" "map py_strip xs = xs"
    by (auto simp: clean_items_def list_all_iff intro!: filter_True map_idI)
  then show ?thesis by (simp add: stripped_items_def)
qed

lemma tuple_value_clean: "clean_items dflt \<Longrightarrow> clean_items (tuple_value v dflt)"
  by (auto simp: tuple_value_def intro: stripped_items_clean split: json.splits)

lemma tuple_value_id: "clean_items xs \<Longrightarrow> tuple_value (JList (map JStr xs)) dflt = (if xs = [] then dflt else xs)"
  by (simp add: tuple_value_def stripped_items_id comp_def py_str_def)

lemma tuple_value_nonempty: "dflt \<noteq> [] \<Longrightarrow> tuple_value v dflt \<noteq> []"
  by (auto simp: tuple_value_def stripped_items_def Let_def split: json.splits)

lemma show_nat_nonempty [simp]: "show_nat n \<noteq> []"
  by (subst show_nat.simps) simp

lemma repr_nonempty: "truthy v \<Longrightarrow> py_str v \<noteq> []"
  by (cases v) (auto simp: py_str_def show_int_def)

lemma str_value_nonempty: "dflt \<noteq> [] \<Longrightarrow> str_value v dflt \<noteq> []"
proof (cases "truthy v")
  case True
  then show ?thesis by (simp add: str_value_def py_or_def repr_nonempty)
next
  case False
  assume "dflt \<noteq> []"
  with False show ?thesis by (simp add: str_value_def py_or_def py_str_def)
qed

lemma str_value_id [simp]: "s \<noteq> [] \<Longrightarrow> str_value (JStr s) dflt = s"
  by (simp add: str_value_def py_or_def py_str_def)

definition not_blank :: "string option \<Rightarrow> bool" where
  "not_blank v = (case v of None \<Rightarrow> True | Some s \<Rightarrow> py_strip s \<noteq> [])"

lemma optional_str_id [simp]: "not_blank v \<Longrightarrow> cfg_optional_str (json_opt_str v) = v"
  by (auto simp: not_blank_def cfg_optional_str_def json_opt_str_def split: option.splits)

lemma dropWhile_keeps: "c \<in> set s \<Longrightarrow> \<not> p c \<Longrightarrow> c \<in> set (dropWhile p s)"
  by (induction s) auto

lemma py_strip_ne: "c \<in> set s \<Longrightarrow> \<not> is_space c \<Longrightarrow> py_strip s \<noteq> []"
  using dropWhile_keeps [of c "rev (dropWhile is_space s)" is_space] dropWhile_keeps [of c s is_space]
  by (auto simp: py_strip_def strip_by_def)

lemma digit_not_space: "is_digit c \<Longrightarrow> \<not> is_space c"
  by (auto simp: is_digit_def is_space_def Let_def)

lemma show_nat_not_space: "\<exists>c \<in> set (show_nat n). \<not> is_space c"
  using show_nat_digits [of "hd (show_nat n)" n] digit_not_space by (intro bexI [of _ "hd (show_nat n)"]) auto

lemma py_repr_not_blank: "v \<noteq> JNull \<Longrightarrow> (\<And>s. v \<noteq> JStr s) \<Longrightarrow> py_strip (py_repr v) \<noteq> []"
proof (cases v)
  case (JBool b)
  then show ?thesis by (intro py_strip_ne [of "CHR ''e''"]) (auto simp: is_space_def code_point_def)
next
  case (JInt i)
  then show ?thesis using show_nat_not_space py_strip_ne
    by (metis list.set_intros(2) py_repr.simps(3) show_int_def)
next
  case (JList xs)
  then show ?thesis by (intro py_strip_ne [of "CHR ''[''"]) (auto simp: is_space_def code_point_def)
next
  case (JObj d)
  then show ?thesis by (intro py_strip_ne [of "CHR ''{''"]) (auto simp: is_space_def code_point_def)
qed auto

lemma optional_str_not_blank: "not_blank (cfg_optional_str v)"
  by (cases v) (simp_all add: not_blank_def cfg_optional_str_def py_str_def py_repr_not_blank del: py_repr.simps)

definition retention_ok :: "string option \<Rightarrow> bool" where
  "retention_ok v = (case v of None \<Rightarrow> True | Some s \<Rightarrow>
     py_strip s = s \<and> s \<noteq> [] \<and> py_lower s \<notin> {''none'', ''off'', ''false'', ''disabled''})"

definition openai_ok :: "openai_settings \<Rightarrow> bool" where
  "openai_ok o1 = (oc_model o1 \<noteq> [] \<and> oc_reasoning_effort o1 \<noteq> [] \<and> oc_reasoning_summary o1 \<noteq> [] \<and>
     oc_service_tier o1 \<noteq> [] \<and> \<not> oc_parallel_tool_calls o1 \<and> retention_ok (oc_prompt_cache_retention o1) \<and>
     oc_transport o1 \<noteq> [])"

definition prompt_ok :: "prompt_settings \<Rightarrow> bool" where
  "prompt_ok p = (pc_system_instruction_file p \<noteq> [] \<and> pc_developer_instruction_file p \<noteq> [] \<and>
     pc_compaction_instruction_file p \<noteq> [] \<and> not_blank (pc_system_instruction p) \<and>
     not_blank (pc_developer_instruction p) \<and> not_blank (pc_compaction_instruction p))"

definition profile_ok :: "profile_settings \<Rightarrow> bool" where
  "profile_ok p = (pf_goal_file p \<noteq> [] \<and> not_blank (pf_goal p))"

definition hosted_ok :: "openai_web_search_settings \<Rightarrow> bool" where
  "hosted_ok w = (validate_openai_web_search_config w = Inr w \<and> clean_items (ow_allowed_domains w) \<and>
     clean_items (ow_blocked_domains w))"

definition snapshot_ok :: "snapshot_settings \<Rightarrow> bool" where
  "snapshot_ok s = (sp_lfs_policy s \<noteq> [] \<and> sp_submodule_policy s \<noteq> [] \<and> sp_binary_policy s \<noteq> [])"

definition config_ok :: "app_config \<Rightarrow> bool" where
  "config_ok c = (openai_ok (ap_openai c) \<and> prompt_ok (ap_prompt c) \<and> ap_default_profile c \<noteq> [] \<and>
     (\<exists>p. ap_profiles c = [(ap_default_profile c, p)] \<and> profile_ok p) \<and>
     tl_enabled (ap_tools c) \<noteq> [] \<and> clean_items (tl_enabled (ap_tools c)) \<and>
     tl_web_search_tool_choice (ap_tools c) \<in> set WEB_SEARCH_TOOL_CHOICE_VALUES \<and>
     validate_web_search_config (tl_web_search (ap_tools c)) = Inr (tl_web_search (ap_tools c)) \<and>
     hosted_ok (tl_openai_web_search (ap_tools c)) \<and> snapshot_ok (ap_snapshot c) \<and> cc_root_dir (ap_cache c) \<noteq> [])"

lemma cfg_int_value_JInt [simp]: "cfg_int_value (JInt i) dflt = Inr i"
  by (simp add: cfg_int_value_def)

lemma bool_value_JBool [simp]: "bool_value (JBool b) dflt = b"
  by (simp add: bool_value_def)

lemma retention_read: "retention_ok (prompt_cache_retention_value v)"
  by (simp add: retention_ok_def prompt_cache_retention_value_def Let_def)

lemma retention_roundtrip: "retention_ok v \<Longrightarrow> prompt_cache_retention_value (json_opt_str v) = v"
  by (auto simp: retention_ok_def prompt_cache_retention_value_def json_opt_str_def py_str_def split: option.splits)

lemma openai_read_ok: "openai_ok (openai_from_json j)"
  by (simp add: openai_ok_def openai_from_json_def Let_def default_openai_def str_value_nonempty retention_read)

lemma openai_roundtrip: "openai_json o1 = JObj d \<Longrightarrow> openai_ok o1 \<Longrightarrow> openai_from_json d = o1"
  by (cases o1) (auto simp: openai_json_def openai_ok_def openai_from_json_def Let_def obj_get_def obj_get_default_def
    retention_roundtrip)

lemma prompt_read_ok: "prompt_ok (prompt_from_json j)"
  by (simp add: prompt_ok_def prompt_from_json_def Let_def default_prompt_def str_value_nonempty optional_str_not_blank)

lemma prompt_roundtrip: "prompt_json p = JObj d \<Longrightarrow> prompt_ok p \<Longrightarrow> prompt_from_json d = p"
  by (cases p) (auto simp: prompt_json_def prompt_ok_def prompt_from_json_def Let_def obj_get_def)

lemma profile_read_ok: "profile_from_json j = Inr p \<Longrightarrow> profile_ok p"
  by (auto simp: profile_from_json_def profile_ok_def rbind_eq_Inr default_profile_def str_value_nonempty optional_str_not_blank)

lemma profile_roundtrip: "profile_json p = JObj d \<Longrightarrow> profile_ok p \<Longrightarrow> profile_from_json d = Inr p"
  by (cases p) (auto simp: profile_json_def profile_ok_def profile_from_json_def obj_get_def)

lemma web_read_ok: "web_config_from_json j = Inr w \<Longrightarrow> validate_web_search_config w = Inr w"
  by (auto simp: web_config_from_json_def rbind_eq_Inr validate_web_search_config_def split: if_splits)

lemma web_roundtrip: "web_config_json w = JObj d \<Longrightarrow> web_config_from_json d = validate_web_search_config w"
  by (cases w) (auto simp: web_config_json_def web_config_from_json_def obj_get_def)

lemma read_roundtrip: "read_config_json r = JObj d \<Longrightarrow> read_config_from_json d = Inr r"
  by (cases r) (auto simp: read_config_json_def read_config_from_json_def Let_def obj_get_def)

lemma search_roundtrip: "search_config_json s = JObj d \<Longrightarrow> search_config_from_json d = Inr s"
  by (cases s) (auto simp: search_config_json_def search_config_from_json_def Let_def obj_get_def)

lemma snapshot_read_ok: "snapshot_from_json j = Inr s \<Longrightarrow> snapshot_ok s"
  by (auto simp: snapshot_from_json_def snapshot_ok_def Let_def rbind_eq_Inr default_snapshot_def str_value_nonempty)

lemma snapshot_roundtrip: "snapshot_json s = JObj d \<Longrightarrow> snapshot_ok s \<Longrightarrow> snapshot_from_json d = Inr s"
  by (cases s) (auto simp: snapshot_json_def snapshot_ok_def snapshot_from_json_def Let_def obj_get_def)

lemma cache_read_ok: "cache_from_json j = Inr c \<Longrightarrow> cc_root_dir c \<noteq> []"
  by (auto simp: cache_from_json_def Let_def rbind_eq_Inr default_cache_def str_value_nonempty)

lemma cache_roundtrip: "cache_json c = JObj d \<Longrightarrow> cc_root_dir c \<noteq> [] \<Longrightarrow> cache_from_json d = Inr c"
  by (cases c) (auto simp: cache_json_def cache_from_json_def Let_def obj_get_def)

lemma choice_read_ok: "validate_web_search_tool_choice v = Inr c \<Longrightarrow> c \<in> set WEB_SEARCH_TOOL_CHOICE_VALUES"
  by (auto simp: validate_web_search_tool_choice_def Let_def split: if_splits)

lemma choice_roundtrip: "c \<in> set WEB_SEARCH_TOOL_CHOICE_VALUES \<Longrightarrow>
  str_value (JStr c) dflt = c \<and> validate_web_search_tool_choice c = Inr c"
  by (auto simp: WEB_SEARCH_TOOL_CHOICE_VALUES_def validate_web_search_tool_choice_def py_strip_def strip_by_def
    is_space_def py_lower_def lower_char_def code_point_def)

text \<open>Normalising domains twice changes nothing, so that validated settings stay valid.\<close>

lemma domains_clean:
  assumes "validate_openai_web_search_domains n ds = Inr ds'"
  shows "clean_items ds' \<and> validate_openai_web_search_domains n ds' = Inr ds'"
proof -
  define f where "f = (\<lambda>d. py_lower (py_strip d))"
  have ds': "ds' = map f (filter (\<lambda>d. py_strip d \<noteq> []) ds)" and len: "length ds \<le> 100"
    and ok: "find (\<lambda>d. \<not> is_openai_web_search_domain d) ds' = None"
    using assms by (auto simp: validate_openai_web_search_domains_def Let_def f_def split: if_splits option.splits)
  have clean: "clean_items ds'" unfolding ds' clean_items_def list_all_iff f_def by (auto simp: py_lower_strip)
  have lower: "py_lower d = d" if "d \<in> set ds'" for d using that unfolding ds' f_def by (auto simp: py_lower_idem)
  have "map (\<lambda>d. py_lower (py_strip d)) (filter (\<lambda>d. py_strip d \<noteq> []) ds') = ds'"
    using clean lower by (induction ds') (auto simp: clean_items_def)
  moreover have "length ds' \<le> 100" unfolding ds' using len by (simp add: le_trans [OF length_filter_le])
  ultimately show ?thesis using clean ok by (simp add: validate_openai_web_search_domains_def)
qed

lemma hosted_read_ok:
  assumes "openai_web_search_from_json j = Inr w"
  shows "hosted_ok w"
proof -
  from assms obtain c allowed blocked where v: "validate_openai_web_search_domains ''allowed_domains'' (ow_allowed_domains c) = Inr allowed"
    "validate_openai_web_search_domains ''blocked_domains'' (ow_blocked_domains c) = Inr blocked"
    and w: "w = c\<lparr>ow_allowed_domains := allowed, ow_blocked_domains := blocked\<rparr>" "allowed = [] \<or> blocked = []"
    and c: "ow_search_context_size c \<in> {''low'', ''medium'', ''high''}"
      "ow_return_token_budget c \<in> {None, Some ''default'', Some ''unlimited''}"
    unfolding openai_web_search_from_json_def Let_def validate_openai_web_search_config_def
    by (auto simp only: rbind_eq_Inr sum.inject split: if_splits)
  show ?thesis using domains_clean [OF v(1)] domains_clean [OF v(2)] w c
    by (auto simp: hosted_ok_def validate_openai_web_search_config_def)
qed

lemma hosted_roundtrip:
  assumes "openai_web_search_json w = JObj d" "hosted_ok w"
  shows "openai_web_search_from_json d = Inr w"
proof -
  have "ow_search_context_size w \<noteq> []" "not_blank (ow_return_token_budget w)"
    using assms(2) by (auto simp: hosted_ok_def validate_openai_web_search_config_def not_blank_def py_strip_def
      strip_by_def is_space_def code_point_def split: if_splits option.splits)
  then show ?thesis using assms
    by (cases w) (auto simp: openai_web_search_json_def hosted_ok_def openai_web_search_from_json_def Let_def obj_get_def
      tuple_value_id default_openai_web_search_def)
qed

lemma config_section_JObj [simp]: "obj_get d n = JObj v \<Longrightarrow> config_section d n = v"
  by (simp add: config_section_def)

lemma enabled_read_ok:
  "tuple_value v (tl_enabled default_tools) \<noteq> []" "clean_items (tuple_value v (tl_enabled default_tools))"
  by (rule tuple_value_nonempty tuple_value_clean, simp add: default_tools_def clean_items_def py_strip_def strip_by_def
    is_space_def code_point_def)+

lemma read_config_ok: "app_config_from_json j = Inr c \<Longrightarrow> config_ok c"
proof (cases "\<exists>cfg. j = Some (JObj cfg)")
  case True
  assume read: "app_config_from_json j = Inr c"
  from True obtain cfg where "j = Some (JObj cfg)" by blast
  with read obtain name sel profile web hosted choice rd sr snapshot cache en where
    r: "profile_from_json sel = Inr profile" "web_config_from_json (config_section (config_section cfg ''tools'') ''web_search'') = Inr web"
      "openai_web_search_from_json (config_section (config_section cfg ''tools'') ''openai_web_search'') = Inr hosted"
      "snapshot_from_json (config_section cfg ''snapshot'') = Inr snapshot"
      "cache_from_json (config_section cfg ''cache'') = Inr cache" "choice \<in> set WEB_SEARCH_TOOL_CHOICE_VALUES"
    and name: "name \<noteq> []" and en: "en \<noteq> []" "clean_items en"
    and c: "c = \<lparr>ap_openai = openai_from_json (config_section cfg ''openai''),
      ap_prompt = prompt_from_json (config_section cfg ''prompt''), ap_default_profile = name, ap_profiles = [(name, profile)],
      ap_tools = \<lparr>tl_enabled = en, tl_web_search_tool_choice = choice, tl_read_file = rd, tl_search_text = sr,
        tl_web_search = web, tl_openai_web_search = hosted\<rparr>, ap_snapshot = snapshot, ap_cache = cache\<rparr>"
    by (auto simp: app_config_from_json_def Let_def rbind_eq_Inr str_value_nonempty default_profile_name_def
      enabled_read_ok dest!: choice_read_ok)
  show ?thesis unfolding c config_ok_def
    using name en r profile_read_ok [OF r(1)] web_read_ok [OF r(2)] hosted_read_ok [OF r(3)] snapshot_read_ok [OF r(4)]
      cache_read_ok [OF r(5)] by (simp add: openai_read_ok prompt_read_ok)
next
  case False
  assume "app_config_from_json j = Inr c"
  with False have "c = default_config" by (auto simp: app_config_from_json_def split: option.splits json.splits)
  then show ?thesis
    by (simp add: config_ok_def default_config_def default_openai_def default_prompt_def default_profile_name_def
      default_profile_def default_tools_def default_snapshot_def default_cache_def default_openai_web_search_def openai_ok_def
      prompt_ok_def profile_ok_def not_blank_def retention_ok_def clean_items_def py_strip_def strip_by_def is_space_def
      code_point_def py_lower_def lower_char_def WEB_SEARCH_TOOL_CHOICE_VALUES_def validate_web_search_config_def
      TAVILY_WEB_SEARCH_MAX_RESULTS_def hosted_ok_def validate_openai_web_search_config_def
      validate_openai_web_search_domains_def snapshot_ok_def)
qed

lemma json_objects:
  "\<exists>d. openai_json o1 = JObj d" "\<exists>d. prompt_json p = JObj d" "\<exists>d. profile_json f = JObj d"
  "\<exists>d. openai_web_search_json h = JObj d" "\<exists>d. web_config_json w = JObj d" "\<exists>d. read_config_json r = JObj d"
  "\<exists>d. search_config_json s = JObj d" "\<exists>d. snapshot_json n = JObj d" "\<exists>d. cache_json c = JObj d"
  by (simp_all add: openai_json_def prompt_json_def profile_json_def openai_web_search_json_def web_config_json_def
    read_config_json_def search_config_json_def snapshot_json_def cache_json_def)

lemma config_roundtrip:
  assumes "config_ok c"
  shows "app_config_from_json (Some (to_json_dict c)) = Inr c"
proof -
  obtain oa pr name ps tl sn ca where c: "c = \<lparr>ap_openai = oa, ap_prompt = pr, ap_default_profile = name, ap_profiles = ps,
      ap_tools = tl, ap_snapshot = sn, ap_cache = ca\<rparr>" by (cases c)
  obtain en ch rd sr web hosted where tl: "tl = \<lparr>tl_enabled = en, tl_web_search_tool_choice = ch, tl_read_file = rd,
      tl_search_text = sr, tl_web_search = web, tl_openai_web_search = hosted\<rparr>" by (cases tl)
  from assms obtain p where ok: "openai_ok oa" "prompt_ok pr" "name \<noteq> []" "ps = [(name, p)]" "profile_ok p" "en \<noteq> []"
    "clean_items en" "ch \<in> set WEB_SEARCH_TOOL_CHOICE_VALUES" "validate_web_search_config web = Inr web" "hosted_ok hosted"
    "snapshot_ok sn" "cc_root_dir ca \<noteq> []" by (auto simp: config_ok_def c tl)
  obtain d1 d2 d3 d4 d5 d6 d7 d8 d9 where d: "openai_json oa = JObj d1" "prompt_json pr = JObj d2" "profile_json p = JObj d3"
    "openai_web_search_json hosted = JObj d4" "web_config_json web = JObj d5" "read_config_json rd = JObj d6"
    "search_config_json sr = JObj d7" "snapshot_json sn = JObj d8" "cache_json ca = JObj d9"
    using json_objects by metis
  show ?thesis
    using ok choice_roundtrip [OF ok(8)]
    by (simp add: app_config_from_json_def to_json_dict_def tools_json_def c tl Let_def d config_section_def obj_get_def
      openai_roundtrip [OF d(1)] prompt_roundtrip [OF d(2)] profile_roundtrip [OF d(3)] hosted_roundtrip [OF d(4)]
      web_roundtrip [OF d(5)] read_roundtrip [OF d(6)] search_roundtrip [OF d(7)] snapshot_roundtrip [OF d(8)]
      cache_roundtrip [OF d(9)] tuple_value_id)
qed

text \<open>
  C31: The configuration stored with an analysis is stable: whatever \<^verbatim>\<open>app_config_from_json\<close> reads from a stored
  object, writing that configuration and reading it again gives the same configuration, so that every later turn of
  the analysis works with the settings of the first.
\<close>

theorem config_snapshot_stable:
  assumes "app_config_from_json j = Inr c"
  shows "app_config_from_json (Some (to_json_dict c)) = Inr c"
  using assms by (intro config_roundtrip read_config_ok)

theorem config_snapshot_stable_witness:
  "app_config_from_json None = Inr default_config \<and> app_config_from_json (Some (to_json_dict default_config)) = Inr default_config"
  using config_snapshot_stable [of None default_config] by (simp add: app_config_from_json_def)

text \<open>
  The environment can hold what the stored object cannot: an empty \<^verbatim>\<open>OPENAI_MODEL\<close> is an empty model name for the
  process that reads it, and the default model for everyone who reads the snapshot of its configuration.
\<close>

lemma empty_model_differs:
  "load_app_config_from_env (\<lambda>_. None) None [''OPENAI_MODEL'' \<mapsto> []] =
     Inr (default_config\<lparr>ap_openai := default_openai\<lparr>oc_model := []\<rparr>\<rparr>)"
  "app_config_from_json (Some (to_json_dict (default_config\<lparr>ap_openai := default_openai\<lparr>oc_model := []\<rparr>\<rparr>))) =
     Inr default_config"
  by code_simp+

section \<open>Tool schemas\<close>

text \<open>
  What the API requires of a tool with \<^verbatim>\<open>strict: true\<close>: every object of the schema lists all its properties as
  required and allows no others.
\<close>

fun strict_schema :: "json \<Rightarrow> bool" where
  "strict_schema (JObj d) =
     ((obj_get d ''type'' = JStr ''object'' \<longrightarrow>
         (case obj_get d ''properties'' of
            JObj ps \<Rightarrow> obj_get d ''required'' = JList (map (\<lambda>p. JStr (fst p)) ps)
          | _ \<Rightarrow> False) \<and>
         obj_get d ''additionalProperties'' = JBool False) \<and>
      list_all (\<lambda>p. strict_schema (snd p)) d)"
| "strict_schema (JList xs) = list_all strict_schema xs"
| "strict_schema _ = True"

lemma schemas_complete:
  "list_all (\<lambda>(n, d). td_name d = n \<and> map_of tool_descriptions n \<noteq> None \<and>
     (case map_of TOOL_SCHEMAS n of None \<Rightarrow> False | Some s \<Rightarrow> strict_schema s)) TOOL_DEFINITIONS"
  by code_simp

text \<open>
  Every function tool that the registry offers to the model is one of the enabled tools, in their order, and its
  parameters are a strict schema; the hosted search follows when it is enabled.
\<close>

theorem offered_tools_strict:
  assumes "response_tools c = Inr ts"
  shows "\<exists>fs hs. ts = map (\<lambda>(n, desc, s). JObj [(''type'', JStr ''function''), (''name'', JStr n), (''description'', JStr desc),
           (''parameters'', s), (''strict'', JBool True)]) fs @ hs \<and>
         map fst fs = tl_enabled c \<and> list_all (\<lambda>(n, desc, s). map_of TOOL_SCHEMAS n = Some s \<and> strict_schema s) fs \<and>
         (hs \<noteq> []) = ow_enabled (tl_openai_web_search c)"
proof -
  define row where "row n = (n, the (map_of tool_descriptions n), the (map_of TOOL_SCHEMAS n))" for n
  have known: "map_of TOOL_DEFINITIONS n \<noteq> None" if "n \<in> set (tl_enabled c)" for n
    using assms that by (auto simp: response_tools_def registry_from_config_def rbind_eq_Inr Let_def filter_empty_conv split: if_splits)
  then have def: "\<exists>d s. map_of TOOL_DEFINITIONS n = Some d \<and> td_name d = n \<and> map_of TOOL_SCHEMAS n = Some s \<and> strict_schema s"
    if "n \<in> set (tl_enabled c)" for n
    using that schemas_complete by (fastforce simp: list_all_iff dest: map_of_SomeD split: option.splits)
  have ts: "ts = map (\<lambda>n. function_tool (the (map_of TOOL_DEFINITIONS n))) (tl_enabled c) @
      hosted_response_tools (tl_openai_web_search c)"
    using assms by (auto simp: response_tools_def registry_from_config_def rbind_eq_Inr Let_def split: if_splits)
  have tool: "function_tool (the (map_of TOOL_DEFINITIONS n)) = JObj [(''type'', JStr ''function''), (''name'', JStr n),
      (''description'', JStr (the (map_of tool_descriptions n))), (''parameters'', the (map_of TOOL_SCHEMAS n)),
      (''strict'', JBool True)]" if "n \<in> set (tl_enabled c)" for n
    using def [OF that] by (auto simp: function_tool_def)
  have "list_all (\<lambda>(n, desc, s). map_of TOOL_SCHEMAS n = Some s \<and> strict_schema s) (map row (tl_enabled c))"
    using def by (force simp: list_all_iff row_def)
  moreover have "(hosted_response_tools w \<noteq> []) = ow_enabled w" for w by (simp add: hosted_response_tools_def Let_def)
  ultimately show ?thesis
    by (intro exI [of _ "map row (tl_enabled c)"] exI [of _ "hosted_response_tools (tl_openai_web_search c)"])
      (simp add: ts row_def tool comp_def)
qed

end
