(* ===== verification/Agent_Context.thy ===== *)
theory Agent_Context
  imports Analysis_Lifecycle Config Repository_Url Todo
begin

text \<open>
  What the agent tells the model: the history manager (\<^verbatim>\<open>backend/agent/context_manager.py\<close>), the base context
  (\<^verbatim>\<open>repository_context.py\<close>) and the assembly of a request (\<^verbatim>\<open>context.py\<close>).

  Every \<^verbatim>\<open>await\<close> on the repository is a transaction of its own, and other processes commit theirs in between. The
  agent's state therefore carries the number of accesses made so far, and the world says what others commit before
  each access, what the clock and the fresh identifiers are inside and outside of transactions, and what the model answers. Texts with characters beyond
  code point 255 are fields of the world. Fields of model items that Python tests for membership in a set (\<^verbatim>\<open>type\<close>,
  \<^verbatim>\<open>role\<close>) are scalars; an unhashable value there, on which Python raises, counts as absent.
\<close>

section \<open>History (\<^verbatim>\<open>context_manager.py\<close>)\<close>

definition REPLAYABLE_MESSAGE_ROLES :: "string list" where
  "REPLAYABLE_MESSAGE_ROLES = [''assistant'', ''user'', ''developer'', ''system'']"

definition TOOL_CALL_TYPES :: "string list" where
  "TOOL_CALL_TYPES = [''function_call'', ''custom_tool_call'']"

definition TOOL_OUTPUT_TYPES :: "string list" where
  "TOOL_OUTPUT_TYPES = [''function_call_output'', ''custom_tool_call_output'']"

definition response_item_type :: "payload \<Rightarrow> string" where
  "response_item_type item = py_str (py_or (obj_get item ''type'') (JStr []))"

definition item_call_id :: "payload \<Rightarrow> string option" where
  "item_call_id item = (case obj_get item ''call_id'' of JStr s \<Rightarrow> (if s \<noteq> [] then Some s else None) | _ \<Rightarrow> None)"

definition role_in :: "string list \<Rightarrow> payload \<Rightarrow> bool" where
  "role_in roles item = (case obj_get item ''role'' of JStr r \<Rightarrow> r \<in> set roles | _ \<Rightarrow> False)"

definition is_replayable_response_item :: "payload \<Rightarrow> bool" where
  "is_replayable_response_item item =
     (let ty = response_item_type item
      in if ty \<in> set TOOL_CALL_TYPES \<or> ty \<in> set TOOL_OUTPUT_TYPES then item_call_id item \<noteq> None
         else if ty \<in> {''compaction'', ''reasoning''} then True
         else if ty = ''message'' then role_in REPLAYABLE_MESSAGE_ROLES item
         else False)"

definition is_true_context_message :: "payload \<Rightarrow> bool" where
  "is_true_context_message item =
     (response_item_type item = ''message'' \<and> role_in [''user'', ''developer'', ''system''] item)"

definition latest_compaction_index :: "payload list \<Rightarrow> nat option" where
  "latest_compaction_index items =
     find (\<lambda>i. response_item_type (items ! i) = ''compaction'') (rev [0..<length items])"

definition prune_before_latest_compaction :: "payload list \<Rightarrow> payload list" where
  "prune_before_latest_compaction items =
     (case latest_compaction_index items of
        None \<Rightarrow> items
      | Some k \<Rightarrow> map snd (filter (\<lambda>(i, item). k \<le> i \<or> is_true_context_message item) (enumerate 0 items)))"

definition call_ids_of_types :: "string list \<Rightarrow> payload list \<Rightarrow> string option list" where
  "call_ids_of_types types items = map item_call_id (filter (\<lambda>i. response_item_type i \<in> set types) items)"

definition normalize_response_items :: "payload list \<Rightarrow> payload list" where
  "normalize_response_items items =
     (let replayable = filter is_replayable_response_item items;
          call_ids = call_ids_of_types TOOL_CALL_TYPES replayable;
          output_ids = call_ids_of_types TOOL_OUTPUT_TYPES replayable;
          paired_call_ids = filter (\<lambda>c. c \<in> set output_ids \<and> c \<noteq> None) call_ids
      in filter (\<lambda>item.
           \<not> (response_item_type item \<in> set TOOL_CALL_TYPES \<and> item_call_id item \<notin> set paired_call_ids) \<and>
           \<not> (response_item_type item \<in> set TOOL_OUTPUT_TYPES \<and> item_call_id item \<notin> set paired_call_ids)) replayable)"

definition payloads_from_rows :: "context_row list \<Rightarrow> payload list" where
  "payloads_from_rows rows = concat (map (\<lambda>r. case ci_payload r of JObj p \<Rightarrow> [p] | _ \<Rightarrow> []) rows)"

text \<open>\<^verbatim>\<open>for_prompt\<close> on the rows of \<^verbatim>\<open>load_uncompacted_context_items(limit=200)\<close>\<close>

definition for_prompt :: "context_row list \<Rightarrow> payload list \<Rightarrow> string list \<Rightarrow> payload list" where
  "for_prompt rows extra_items exclude_call_ids =
     (let payloads = prune_before_latest_compaction (payloads_from_rows rows) @ extra_items;
          kept = (if exclude_call_ids = [] then payloads
                  else filter (\<lambda>i. item_call_id i \<notin> Some ` set exclude_call_ids) payloads)
      in normalize_response_items kept)"

section \<open>The agent's world and state\<close>

record prompt_texts =
  pt_system :: string
  pt_developer :: string
  pt_task :: string
  pt_metadata :: string
  pt_tree :: string
  pt_memory :: string
  pt_todo :: string
  pt_instructions :: "string list"
  pt_unreplayable :: string

record model_exception =
  me_type :: string
  me_text :: string

record model_tool_call =
  mc_call_id :: string
  mc_name :: string
  mc_arguments :: json

record model_response =
  mr_response_id :: string
  mr_output_text :: string
  mr_tool_calls :: "model_tool_call list"
  mr_usage :: json
  mr_output_items :: "payload list option"

record compaction_response =
  cp_compaction_id :: string
  cp_output :: "payload list"
  cp_usage :: json

datatype model_request = Create_Response payload | Compact_Response payload

record agent_state =
  ag_db :: db
  ag_accesses :: nat
  ag_store :: object_store
  ag_requests :: "model_request list"

record agent_world =
  aw_others :: "nat \<Rightarrow> db \<Rightarrow> db"
  aw_draws :: "nat \<Rightarrow> draws"
  aw_fresh :: "nat \<Rightarrow> draws"
  aw_todos :: "nat \<Rightarrow> todo_row list"
  aw_create :: "nat \<Rightarrow> payload \<Rightarrow> (string \<times> payload) list \<times> (model_exception + model_response)"
  aw_compact :: "nat \<Rightarrow> payload \<Rightarrow> model_exception + compaction_response"
  aw_texts :: prompt_texts
  aw_decode :: "bytes \<Rightarrow> string"
  aw_json_loads :: "string \<Rightarrow> json option"

datatype agent_error =
    AHandler handler_error | AConfig config_error | ATool tool_exception | AMissingObject string
  | AModel model_exception | AUniqueViolation | ANumber int_error | ATypeError

type_synonym 'a agent_op = "agent_state \<Rightarrow> (agent_error + 'a) \<times> agent_state"

text \<open>Sequencing: what is committed stays committed when a later call raises.\<close>

definition return_op :: "'a \<Rightarrow> 'a agent_op" where
  "return_op x s = (Inr x, s)"

definition raise_op :: "agent_error \<Rightarrow> 'a agent_op" where
  "raise_op e s = (Inl e, s)"

definition then_op :: "'a agent_op \<Rightarrow> ('a \<Rightarrow> 'b agent_op) \<Rightarrow> 'b agent_op" where
  "then_op m k s = (case m s of (Inl e, s1) \<Rightarrow> (Inl e, s1) | (Inr x, s1) \<Rightarrow> k x s1)"

definition lift_op :: "agent_error + 'a \<Rightarrow> 'a agent_op" where
  "lift_op r s = (r, s)"

definition gets_op :: "(agent_state \<Rightarrow> 'a) \<Rightarrow> 'a agent_op" where
  "gets_op f s = (Inr (f s), s)"

text \<open>One access: others first, then the transaction itself with the draws of this access.\<close>

definition access :: "agent_world \<Rightarrow> (draws \<Rightarrow> db \<Rightarrow> agent_error + db \<times> 'a) \<Rightarrow> 'a agent_op" where
  "access w f s =
     (let k = ag_accesses s;
          st = aw_others w k (ag_db s);
          s1 = s\<lparr>ag_db := st, ag_accesses := Suc k\<rparr>
      in case f (aw_draws w k) st of
           Inl e \<Rightarrow> (Inl e, s1)
         | Inr (st', x) \<Rightarrow> (Inr x, s1\<lparr>ag_db := st'\<rparr>))"

definition look :: "agent_world \<Rightarrow> (db \<Rightarrow> 'a) \<Rightarrow> 'a agent_op" where
  "look w f = access w (\<lambda>d st. Inr (st, f st))"

definition commit :: "agent_world \<Rightarrow> (draws \<Rightarrow> db \<Rightarrow> db) \<Rightarrow> unit agent_op" where
  "commit w f = access w (\<lambda>d st. Inr (f d st, ()))"

section \<open>The base context (\<^verbatim>\<open>repository_context.py\<close>)\<close>

definition user_text :: "string \<Rightarrow> payload" where
  "user_text t = [(''role'', JStr ''user''), (''content'', JList [JObj [(''type'', JStr ''input_text''), (''text'', JStr t)]])]"

definition load_repository_metadata :: "session_state \<Rightarrow> db \<Rightarrow> payload option" where
  "load_repository_metadata s st =
     (case find (\<lambda>a. an_id a = ss_analysis_id s) (analyses st) of
        None \<Rightarrow> None
      | Some a \<Rightarrow>
          (let snap = (case ss_snapshot_id s of None \<Rightarrow> None | Some i \<Rightarrow> find (\<lambda>x. sn_id x = i) (snapshots st));
               col = (\<lambda>f. case snap of None \<Rightarrow> JNull | Some x \<Rightarrow> f x);
               num = (\<lambda>v. case v of None \<Rightarrow> JNull | Some i \<Rightarrow> JInt i)
           in Some [(''repository_url'', JStr (an_repository_url a)), (''requested_ref'', JStr (an_requested_ref a)),
                (''resolved_commit_sha'', col (\<lambda>x. JStr (sn_resolved_commit_sha x))), (''tree_sha'', col (\<lambda>x. JStr (sn_tree_sha x))),
                (''file_count'', col (\<lambda>x. num (sn_file_count x))), (''total_bytes'', col (\<lambda>x. num (sn_total_bytes x)))]))"

definition load_instruction_files :: "session_state \<Rightarrow> db \<Rightarrow> instruction_row list" where
  "load_instruction_files s st =
     (case ss_snapshot_id s of
        None \<Rightarrow> []
      | Some i \<Rightarrow> sort_key (\<lambda>r. (in_depth r, in_path r)) (filter (\<lambda>r. in_snapshot_id r = i) (agent_instruction_files st)))"

definition load_config_snapshot :: "session_state \<Rightarrow> db \<Rightarrow> json option" where
  "load_config_snapshot s st =
     map_option cs_config_json (find (\<lambda>c. cs_id c = ss_config_snapshot_id s) (config_snapshots st))"

definition load_tree :: "uuid \<Rightarrow> db \<Rightarrow> string list" where
  "load_tree snapshot st =
     filter (\<lambda>p. \<not> is_secret_path p)
       (take 500 (sort (map fr_path (filter (\<lambda>r. fr_snapshot_id r = snapshot \<and> row_visible r) (snapshot_files st)))))"

definition load_latest_memory_summary :: "uuid \<Rightarrow> db \<Rightarrow> json option" where
  "load_latest_memory_summary g st =
     (case rev (sort_key ms_created_at (filter (\<lambda>m. ms_agent_id m = g) (memory_summaries st))) of
        [] \<Rightarrow> None
      | m # _ \<Rightarrow> (if ms_summary m = JNull then None else Some (ms_summary m)))"

definition load_latest_todo_list :: "uuid \<Rightarrow> todo_row list \<Rightarrow> todo_row option" where
  "load_latest_todo_list g rows =
     (case rev (sort_key td_version (filter (\<lambda>r. td_agent_id r = g) rows)) of [] \<Rightarrow> None | r # _ \<Rightarrow> Some r)"

definition todo_context_text :: "prompt_texts \<Rightarrow> todo_row \<Rightarrow> string" where
  "todo_context_text texts r = join_with [newline]
     ([pt_todo texts, ''version: '' @ show_int (td_version r)] @
      map (\<lambda>i. ''- ['' @ item_status i @ ''] '' @ item_id i @ '' - '' @ item_title i) (td_items_json r) @
      (case td_note r of Some n \<Rightarrow> (if n \<noteq> [] then [''note: '' @ n] else []) | None \<Rightarrow> []))"

definition repository_metadata_context_text :: "prompt_texts \<Rightarrow> payload \<Rightarrow> string" where
  "repository_metadata_context_text texts metadata = join_with [newline]
     (pt_metadata texts #
      concat (map (\<lambda>k. if obj_get metadata k \<noteq> JNull then [k @ '': '' @ py_str (obj_get metadata k)] else [])
        [''repository_url'', ''requested_ref'', ''resolved_commit_sha'', ''tree_sha'', ''file_count'', ''total_bytes'']))"

definition base_items ::
  "prompt_texts \<Rightarrow> payload option \<Rightarrow> string list \<Rightarrow> json option \<Rightarrow> todo_row option \<Rightarrow> payload list" where
  "base_items texts metadata tree memory todo =
     user_text (pt_task texts) #
     (case metadata of None \<Rightarrow> [] | Some m \<Rightarrow> [user_text (repository_metadata_context_text texts m)]) @
     (if tree \<noteq> [] then [user_text (pt_tree texts @ newline # join_with [newline] (take 500 tree))] else []) @
     (case memory of None \<Rightarrow> [] | Some m \<Rightarrow> [user_text (pt_memory texts @ newline # json_dumps '', '' '': '' m)]) @
     (case todo of None \<Rightarrow> [] | Some t \<Rightarrow> [user_text (todo_context_text texts t)])"

definition load_context_items :: "agent_world \<Rightarrow> session_state \<Rightarrow> payload list agent_op" where
  "load_context_items w s =
     then_op (look w (load_repository_metadata s)) (\<lambda>metadata.
     then_op (case ss_snapshot_id s of None \<Rightarrow> return_op [] | Some i \<Rightarrow> look w (load_tree i)) (\<lambda>tree.
     then_op (look w (load_latest_memory_summary (ss_agent_id s))) (\<lambda>memory.
     then_op (gets_op ag_accesses) (\<lambda>k.
     then_op (look w (\<lambda>_. load_latest_todo_list (ss_agent_id s) (aw_todos w k))) (\<lambda>todo.
       return_op (base_items (aw_texts w) metadata tree memory todo))))))"

section \<open>Assembling a request (\<^verbatim>\<open>context.py\<close>)\<close>

definition sha256_json :: "json \<Rightarrow> string" where
  "sha256_json v = ''sha256:'' @ sha256_hexdigest (utf8_encode (json_dumps_ascii '','' '':'' (json_sorted v)))"

definition estimate_tokens :: "json \<Rightarrow> int" where
  "estimate_tokens v = max 1 (int (length (json_dumps '', '' '': '' v)) div 4)"

definition input_text_values :: "payload \<Rightarrow> string list" where
  "input_text_values item =
     (case obj_get item ''content'' of
        JStr s \<Rightarrow> [s]
      | JList parts \<Rightarrow> concat (map (\<lambda>p. case p of
            JObj d \<Rightarrow> (case obj_get d ''text'' of JStr t \<Rightarrow> [t] | _ \<Rightarrow> [])
          | _ \<Rightarrow> []) parts)
      | _ \<Rightarrow> [])"

definition is_dynamic_context_item :: "prompt_texts \<Rightarrow> payload \<Rightarrow> bool" where
  "is_dynamic_context_item texts item =
     list_ex (\<lambda>t. starts_with (pt_memory texts) t \<or> starts_with (pt_todo texts) t) (input_text_values item)"

definition split_dynamic_context_items :: "prompt_texts \<Rightarrow> payload list \<Rightarrow> payload list \<times> payload list" where
  "split_dynamic_context_items texts items =
     (filter (\<lambda>i. \<not> is_dynamic_context_item texts i) items, filter (is_dynamic_context_item texts) items)"

text \<open>\<^verbatim>\<open>value.strip("`'\".,;:()[]{}<>")\<close>\<close>

definition path_punctuation :: "char \<Rightarrow> bool" where
  "path_punctuation c = (c \<in> {CHR 0x60, CHR 0x27, CHR 0x22, CHR ''.'', CHR '','', CHR '';'', CHR '':'', CHR ''('', CHR '')'',
     CHR ''['', CHR '']'', CHR ''{'', CHR ''}'', CHR ''<'', CHR ''>''})"

definition normalize_possible_repo_path :: "string \<Rightarrow> string option" where
  "normalize_possible_repo_path v =
     (let stripped = strip_by path_punctuation v
      in if CHR ''/'' \<notin> set stripped then None
         else let bare = strip_by (\<lambda>c. c = CHR ''/'') (replace_char (CHR 0x5C) (CHR ''/'') stripped);
                  parts = filter (\<lambda>p. p \<noteq> [] \<and> p \<noteq> ''.'') (split_on (CHR ''/'') bare)
              in if parts = [] \<or> ''..'' \<in> set parts then None else Some (join_with ''/'' parts))"

definition extract_focus_paths :: "payload list \<Rightarrow> string list" where
  "extract_focus_paths items =
     concat (map (\<lambda>item. concat (map (\<lambda>t.
       concat (map (\<lambda>token. case normalize_possible_repo_path token of None \<Rightarrow> [] | Some p \<Rightarrow> [p])
         (split_ws [] (replace_char newline (CHR '' '') t)))) (input_text_values item))) items)"

definition call_ids_from_items :: "payload list \<Rightarrow> string list" where
  "call_ids_from_items items = concat (map (\<lambda>i. case item_call_id i of None \<Rightarrow> [] | Some c \<Rightarrow> [c]) items)"

definition context_item_call_id :: "context_row \<Rightarrow> string option" where
  "context_item_call_id r = (case ci_payload r of JObj p \<Rightarrow> item_call_id p | _ \<Rightarrow> None)"

definition is_replayable_context_payload :: "json \<Rightarrow> bool" where
  "is_replayable_context_payload v =
     (case v of
        JObj p \<Rightarrow>
          (case obj_get p ''type'' of
             JStr ty \<Rightarrow>
               if ty \<in> {''compaction'', ''function_call'', ''function_call_output'', ''reasoning''} then True
               else if ty = ''message'' then role_in REPLAYABLE_MESSAGE_ROLES p
               else False
           | _ \<Rightarrow> False)
      | _ \<Rightarrow> False)"

definition fallback_line :: "context_row \<Rightarrow> string" where
  "fallback_line r = json_dumps '', '' '': '' (json_sorted (JObj
     [(''seq'', JInt (ci_seq r)), (''item_type'', JStr (ci_item_type r)), (''source'', JStr (ci_source r)),
      (''response_id'', json_opt_str (ci_response_id r)), (''payload'', ci_payload r)]))"

text \<open>\<^verbatim>\<open>_local_history_context_items\<close>: the last 24 items decide whether there is a history, the last 200 are replayed.\<close>

definition local_history_context_items :: "agent_world \<Rightarrow> session_state \<Rightarrow> string list \<Rightarrow> payload list agent_op" where
  "local_history_context_items w s exclude =
     then_op (look w (load_uncompacted_context_items (ss_agent_id s) 24)) (\<lambda>recent.
       (let items = (if exclude = [] then recent
                     else filter (\<lambda>r. context_item_call_id r \<notin> Some ` set exclude) recent);
            fallback_lines = map fallback_line (filter (\<lambda>r. \<not> is_replayable_context_payload (ci_payload r)) items)
        in if items = [] then return_op []
           else then_op (look w (load_uncompacted_context_items (ss_agent_id s) 200)) (\<lambda>rows.
             return_op (for_prompt rows [] exclude @
               (if fallback_lines = [] then []
                else [user_text (pt_unreplayable (aw_texts w) @ newline # join_with [newline] fallback_lines)])))))"

definition filter_instruction_files_for_focus :: "instruction_row list \<Rightarrow> string list \<Rightarrow> instruction_row list" where
  "filter_instruction_files_for_focus files focus_paths =
     (if focus_paths = [] then files
      else filter (\<lambda>r. let scope = strip_by (\<lambda>c. c = CHR ''/'') (in_scope_path r)
             in scope = [] \<or> list_ex (\<lambda>p. p = scope \<or> starts_with (scope @ ''/'') p) focus_paths) files)"

fun instruction_sections ::
  "(bytes \<Rightarrow> string) \<Rightarrow> object_store \<Rightarrow> instruction_row list \<Rightarrow> agent_error + (string \<times> json) list" where
  "instruction_sections decode store [] = Inr []"
| "instruction_sections decode store (r # rs) =
     (case get_bytes store (in_content_ref r) of
        None \<Rightarrow> Inl (AMissingObject (in_content_ref r))
      | Some data \<Rightarrow> rbind (instruction_sections decode store rs) (\<lambda>rest. Inr
          ((''--- '' @ in_path r @ '' (scope: '' @ (if in_scope_path r = [] then ''/'' else in_scope_path r) @ '') ---'' @
            newline # take 20000 (decode data),
            JObj [(''type'', JStr ''agents_md''), (''path'', JStr (in_path r)), (''scope_path'', JStr (in_scope_path r)),
                  (''ref'', JStr (in_content_ref r)), (''hash'', JStr (in_content_hash r))]) # rest)))"

definition instruction_context ::
  "agent_world \<Rightarrow> session_state \<Rightarrow> string list \<Rightarrow> (payload option \<times> json list) agent_op" where
  "instruction_context w s focus_paths =
     then_op (look w (load_instruction_files s)) (\<lambda>files.
       if files = [] then return_op (None, [])
       else then_op (gets_op ag_store) (\<lambda>store.
            then_op (lift_op (instruction_sections (aw_decode w) store
              (sort_key (\<lambda>r. (in_depth r, in_path r)) (filter_instruction_files_for_focus files focus_paths)))) (\<lambda>sections.
            return_op (Some (user_text (join_with [newline, newline] (pt_instructions (aw_texts w) @ map fst sections))),
              map snd sections))))"

definition request_input ::
  "agent_world \<Rightarrow> session_state \<Rightarrow> payload list \<Rightarrow> payload list option \<Rightarrow> bool \<Rightarrow> bool \<Rightarrow> (payload list \<times> json list) agent_op" where
  "request_input w s extra override include_local_history include_base_context =
     (case override of
        Some items \<Rightarrow> return_op (items, [])
      | None \<Rightarrow>
          then_op (if include_base_context then load_context_items w s else return_op []) (\<lambda>base.
            (let (stable, dynamic) = split_dynamic_context_items (aw_texts w) base
             in then_op (if include_base_context then instruction_context w s (extract_focus_paths stable)
                         else return_op (None, [])) (\<lambda>(instruction, refs).
                then_op (if include_local_history then local_history_context_items w s (call_ids_from_items extra)
                         else return_op []) (\<lambda>history.
                  return_op (stable @ (case instruction of None \<Rightarrow> [] | Some i \<Rightarrow> [i]) @ history @ dynamic @ extra, refs))))))"

record assembled_context =
  cx_instructions :: string
  cx_input :: "payload list"
  cx_input_ref :: string
  cx_tool_schema :: "json list"
  cx_tool_schema_hash :: string
  cx_token_estimate :: int
  cx_include :: "json list"
  cx_tool_choice :: "json option"

definition instruction_or :: "string option \<Rightarrow> string \<Rightarrow> string" where
  "instruction_or v dflt = (case v of None \<Rightarrow> dflt | Some t \<Rightarrow> (if t = [] then dflt else t))"

definition source_ref :: "string \<Rightarrow> string \<Rightarrow> string \<Rightarrow> json" where
  "source_ref ty ref content = JObj [(''type'', JStr ty), (''ref'', JStr ref), (''hash'', JStr (sha256_text content))]"

definition agent_input_ref :: "uuid \<Rightarrow> uuid \<Rightarrow> string" where
  "agent_input_ref g t = ''agent-inputs/'' @ uuid_str g @ ''/'' @ uuid_str t @ ''.json''"

definition assembly_of ::
  "prompt_texts \<Rightarrow> session_state \<Rightarrow> uuid \<Rightarrow> app_config \<Rightarrow> profile_settings \<Rightarrow> json list \<Rightarrow> payload list \<Rightarrow> json list \<Rightarrow>
   assembled_context \<times> json" where
  "assembly_of texts s turn config profile tools input refs =
     (let system_instruction = instruction_or (pc_system_instruction (ap_prompt config)) (pt_system texts);
          developer_instruction = instruction_or (pc_developer_instruction (ap_prompt config)) (pt_developer texts);
          goal = instruction_or (pf_goal profile) [];
          instructions = join_with [newline, newline]
            (filter (\<lambda>i. i \<noteq> []) [system_instruction, developer_instruction, goal]);
          source_refs =
            [source_ref ''system'' (''config:'' @ pc_system_instruction_file (ap_prompt config)) system_instruction,
             source_ref ''developer'' (''config:'' @ pc_developer_instruction_file (ap_prompt config)) developer_instruction] @
            (if goal \<noteq> [] then [source_ref ''profile'' (''profile:'' @ pf_goal_file profile) goal] else []) @ refs;
          stored = [(''instructions'', JStr instructions), (''input'', JList (map JObj input)),
                    (''source_refs'', JList source_refs)];
          hosted = tl_openai_web_search (ap_tools config)
      in (\<lparr>cx_instructions = instructions, cx_input = input, cx_input_ref = agent_input_ref (ss_agent_id s) turn,
           cx_tool_schema = tools, cx_tool_schema_hash = sha256_json (JList tools),
           cx_token_estimate = estimate_tokens (JObj (stored @ [(''tools'', JList tools)])),
           cx_include = (if ow_enabled hosted \<and> ow_include_sources hosted
                         then [JStr ''web_search_call.action.sources''] else []),
           cx_tool_choice = web_search_tool_choice (ap_tools config) tools\<rparr>, JObj stored))"

definition put_object :: "string \<Rightarrow> json \<Rightarrow> string \<Rightarrow> unit agent_op" where
  "put_object key v content_type s =
     (Inr (), s\<lparr>ag_store := put_bytes (ag_store s) key (utf8_encode (json_dumps '', '' '': '' (json_sorted v))) content_type\<rparr>)"

definition persist_assembly :: "agent_world \<Rightarrow> session_state \<Rightarrow> uuid \<Rightarrow> assembled_context \<times> json \<Rightarrow> unit agent_op" where
  "persist_assembly w s turn = (\<lambda>(cx, stored).
     then_op (put_object (cx_input_ref cx) stored ''application/json'') (\<lambda>_.
       commit w (\<lambda>d. save_context_assembly d (ss_agent_id s) turn (ss_config_snapshot_id s)
         (case stored of JObj p \<Rightarrow> obj_get p ''source_refs'' | _ \<Rightarrow> JNull) (cx_input_ref cx) (sha256_text (cx_instructions cx))
         (cx_tool_schema_hash cx) (Some (cx_token_estimate cx)))))"

definition assemble ::
  "agent_world \<Rightarrow> session_state \<Rightarrow> uuid \<Rightarrow> payload list \<Rightarrow> payload list option \<Rightarrow> bool \<Rightarrow> bool \<Rightarrow> bool \<Rightarrow>
   assembled_context agent_op" where
  "assemble w s turn extra override include_local_history include_base_context persist =
     then_op (request_input w s extra override include_local_history include_base_context) (\<lambda>(input, refs).
     then_op (look w (load_config_snapshot s)) (\<lambda>config_json.
     then_op (lift_op (map_sum AConfig id (app_config_from_json config_json))) (\<lambda>config.
     then_op (lift_op (case map_of (ap_profiles config) (ap_default_profile config) of
         None \<Rightarrow> Inl (AHandler (HKeyError (ap_default_profile config)))
       | Some p \<Rightarrow> Inr p)) (\<lambda>profile.
     then_op (lift_op (map_sum ATool id (response_tools (ap_tools config)))) (\<lambda>tools.
       (let assembly = assembly_of (aw_texts w) s turn config profile tools input refs
        in then_op (if persist then persist_assembly w s turn assembly else return_op ()) (\<lambda>_.
             return_op (fst assembly))))))))"

definition agent_output_ref :: "uuid \<Rightarrow> uuid \<Rightarrow> string" where
  "agent_output_ref g t = ''agent-outputs/'' @ uuid_str g @ ''/'' @ uuid_str t @ ''.json''"

definition store_model_output :: "session_state \<Rightarrow> uuid \<Rightarrow> model_response \<Rightarrow> string agent_op" where
  "store_model_output s turn r =
     then_op (put_object (agent_output_ref (ss_agent_id s) turn)
       (JObj [(''response_id'', JStr (mr_response_id r)), (''output_text'', JStr (mr_output_text r)),
          (''output_items'', JList (map JObj (case mr_output_items r of None \<Rightarrow> [] | Some is \<Rightarrow> is))),
          (''tool_calls'', JList (map (\<lambda>c. JObj [(''call_id'', JStr (mc_call_id c)), (''name'', JStr (mc_name c)),
             (''arguments'', mc_arguments c)]) (mr_tool_calls r))),
          (''usage'', mr_usage r)]) ''application/json; charset=utf-8'') (\<lambda>_.
       return_op (agent_output_ref (ss_agent_id s) turn))"

text \<open>\<^verbatim>\<open>load_model_output_items\<close>; whatever goes wrong gives the empty list.\<close>

definition load_model_output_items :: "agent_world \<Rightarrow> object_store \<Rightarrow> string \<Rightarrow> payload list" where
  "load_model_output_items w store key =
     (case get_bytes store key of
        None \<Rightarrow> []
      | Some data \<Rightarrow>
          (case utf8_decode data of
             None \<Rightarrow> []
           | Some t \<Rightarrow>
               (case aw_json_loads w t of
                  Some (JObj p) \<Rightarrow>
                    (case obj_get p ''output_items'' of
                       JList items \<Rightarrow> concat (map (\<lambda>i. case i of JObj d \<Rightarrow> [d] | _ \<Rightarrow> []) items)
                     | _ \<Rightarrow> [])
                | _ \<Rightarrow> [])))"

section \<open>Every call in a prompt has its output\<close>

definition is_tool_call_item :: "payload \<Rightarrow> bool" where
  "is_tool_call_item i = (response_item_type i \<in> set TOOL_CALL_TYPES)"

definition is_tool_output_item :: "payload \<Rightarrow> bool" where
  "is_tool_output_item i = (response_item_type i \<in> set TOOL_OUTPUT_TYPES)"

text \<open>The API refuses a request in which a tool call lacks its output or an output its call.\<close>

definition has_partner :: "(payload \<Rightarrow> bool) \<Rightarrow> payload list \<Rightarrow> payload \<Rightarrow> bool" where
  "has_partner q items i = (item_call_id i \<noteq> None \<and> list_ex (\<lambda>j. q j \<and> item_call_id j = item_call_id i) items)"

definition paired :: "payload list \<Rightarrow> bool" where
  "paired items = list_all (\<lambda>i. (is_tool_call_item i \<longrightarrow> has_partner is_tool_output_item items i) \<and>
     (is_tool_output_item i \<longrightarrow> has_partner is_tool_call_item items i)) items"

lemma paired_append: "paired xs \<Longrightarrow> paired ys \<Longrightarrow> paired (xs @ ys)"
  by (auto simp: paired_def has_partner_def list_all_iff list_ex_iff)

lemma paired_plain: "list_all (\<lambda>i. \<not> is_tool_call_item i \<and> \<not> is_tool_output_item i) xs \<Longrightarrow> paired xs"
  by (auto simp: paired_def list_all_iff)

lemma user_text_plain: "\<not> is_tool_call_item (user_text t)" "\<not> is_tool_output_item (user_text t)"
  by (simp_all add: is_tool_call_item_def is_tool_output_item_def response_item_type_def user_text_def obj_get_def
    py_or_def py_str_def TOOL_CALL_TYPES_def TOOL_OUTPUT_TYPES_def)

lemma replayable_call_id:
  "is_replayable_response_item i \<Longrightarrow> is_tool_call_item i \<or> is_tool_output_item i \<Longrightarrow> item_call_id i \<noteq> None"
  by (auto simp: is_replayable_response_item_def is_tool_call_item_def is_tool_output_item_def Let_def split: if_splits)

text \<open>What is kept: replayable items, and of the calls and outputs those that have a replayable partner.\<close>

lemma normalize_response_items_eq:
  "normalize_response_items items =
     (let rs = filter is_replayable_response_item items
      in filter (\<lambda>i. (is_tool_call_item i \<longrightarrow> has_partner is_tool_output_item rs i) \<and>
                     (is_tool_output_item i \<longrightarrow> has_partner is_tool_call_item rs i)) rs)"
proof -
  define rs where "rs = filter is_replayable_response_item items"
  have ids: "c \<in> set (call_ids_of_types ts rs) \<longleftrightarrow> (\<exists>j \<in> set rs. response_item_type j \<in> set ts \<and> item_call_id j = c)" for c ts
    by (auto simp: call_ids_of_types_def)
  have both: "item_call_id i \<in> set (filter (\<lambda>c. c \<in> set (call_ids_of_types TOOL_OUTPUT_TYPES rs) \<and> c \<noteq> None)
        (call_ids_of_types TOOL_CALL_TYPES rs)) \<longleftrightarrow>
      has_partner is_tool_output_item rs i \<and> has_partner is_tool_call_item rs i" for i
    by (auto simp: ids has_partner_def list_ex_iff is_tool_call_item_def is_tool_output_item_def)
  have self: "has_partner is_tool_call_item rs i" if "i \<in> set rs" "is_tool_call_item i" for i
    using that replayable_call_id [of i] by (auto simp: has_partner_def list_ex_iff rs_def)
  have self': "has_partner is_tool_output_item rs i" if "i \<in> set rs" "is_tool_output_item i" for i
    using that replayable_call_id [of i] by (auto simp: has_partner_def list_ex_iff rs_def)
  show ?thesis
    unfolding normalize_response_items_def Let_def rs_def [symmetric] is_tool_call_item_def [symmetric]
      is_tool_output_item_def [symmetric]
    by (rule filter_cong [OF refl]) (use both self self' in blast)
qed

lemma normalized_paired: "paired (normalize_response_items items)"
proof -
  define rs where "rs = filter is_replayable_response_item items"
  define keep where "keep i = ((is_tool_call_item i \<longrightarrow> has_partner is_tool_output_item rs i) \<and>
     (is_tool_output_item i \<longrightarrow> has_partner is_tool_call_item rs i))" for i
  have n: "normalize_response_items items = filter keep rs"
    by (simp add: normalize_response_items_eq Let_def rs_def keep_def)
  have "has_partner is_tool_output_item (filter keep rs) i" if i: "i \<in> set rs" "keep i" "is_tool_call_item i" for i
  proof -
    from i obtain j where j: "j \<in> set rs" "is_tool_output_item j" "item_call_id j = item_call_id i" "item_call_id i \<noteq> None"
      by (auto simp: keep_def has_partner_def list_ex_iff)
    have c: "has_partner is_tool_call_item rs j" using i j by (auto simp: has_partner_def list_ex_iff)
    have o: "has_partner is_tool_output_item rs j" using j by (auto simp: has_partner_def list_ex_iff)
    have "keep j" using c o by (simp add: keep_def)
    with j show ?thesis by (auto simp: has_partner_def list_ex_iff)
  qed
  moreover have "has_partner is_tool_call_item (filter keep rs) i"
    if i: "i \<in> set rs" "keep i" "is_tool_output_item i" for i
  proof -
    from i obtain j where j: "j \<in> set rs" "is_tool_call_item j" "item_call_id j = item_call_id i" "item_call_id i \<noteq> None"
      by (auto simp: keep_def has_partner_def list_ex_iff)
    have c: "has_partner is_tool_output_item rs j" using i j by (auto simp: has_partner_def list_ex_iff)
    have o: "has_partner is_tool_call_item rs j" using j by (auto simp: has_partner_def list_ex_iff)
    have "keep j" using c o by (simp add: keep_def)
    with j show ?thesis by (auto simp: has_partner_def list_ex_iff)
  qed
  ultimately show ?thesis by (auto simp: n paired_def list_all_iff)
qed

lemma normalize_idem: "normalize_response_items (normalize_response_items items) = normalize_response_items items"
proof -
  let ?n = "normalize_response_items items"
  have r: "filter is_replayable_response_item ?n = ?n"
    by (rule filter_True) (simp add: normalize_response_items_eq Let_def)
  show ?thesis
    by (subst normalize_response_items_eq, unfold Let_def r, rule filter_True)
      (use normalized_paired [of items] in \<open>auto simp: paired_def list_all_iff\<close>)
qed

named_theorems op_simps \<open>what an operation returned\<close>

lemma then_op_Inr [op_simps]:
  "then_op m k s = (Inr y, s') \<longleftrightarrow> (\<exists>x s1. m s = (Inr x, s1) \<and> k x s1 = (Inr y, s'))"
  by (auto simp: then_op_def split: prod.splits sum.splits)

lemma return_op_Inr [op_simps]: "return_op x s = (Inr y, s') \<longleftrightarrow> y = x \<and> s' = s"
  by (auto simp: return_op_def)

lemma lift_op_Inr [op_simps]: "lift_op r s = (Inr y, s') \<longleftrightarrow> r = Inr y \<and> s' = s"
  by (auto simp: lift_op_def)

lemma gets_op_Inr [op_simps]: "gets_op f s = (Inr y, s') \<longleftrightarrow> y = f s \<and> s' = s"
  by (auto simp: gets_op_def)

lemma base_items_plain: "list_all (\<lambda>i. \<exists>t. i = user_text t) (base_items texts md tree mem todo)"
  by (auto simp: base_items_def split: option.splits)

lemma plain_texts_paired: "list_all (\<lambda>i. \<exists>t. i = user_text t) xs \<Longrightarrow> paired xs"
  by (rule paired_plain) (auto simp: list_all_iff user_text_plain)

lemma load_context_items_plain:
  "load_context_items w s st = (Inr items, st') \<Longrightarrow> list_all (\<lambda>i. \<exists>t. i = user_text t) items"
  by (auto simp: load_context_items_def op_simps base_items_plain)

lemma paired_texts [simp]: "paired []" "paired [user_text t]"
  by (auto intro!: plain_texts_paired)

lemma instruction_context_plain:
  "instruction_context w s focus st = (Inr (i, refs), st') \<Longrightarrow> paired (case i of None \<Rightarrow> [] | Some x \<Rightarrow> [x])"
  by (auto simp: instruction_context_def op_simps split: if_splits)

lemma for_prompt_paired: "paired (for_prompt rows extra ex)"
  by (simp add: for_prompt_def Let_def normalized_paired)

lemma local_history_paired:
  "local_history_context_items w s ex st = (Inr items, st') \<Longrightarrow> paired items"
  by (auto simp: local_history_context_items_def Let_def op_simps for_prompt_paired paired_append split: if_splits)

lemma user_text_call_id [simp]: "item_call_id (user_text t) = None"
  by (simp add: item_call_id_def user_text_def obj_get_def)

lemma instruction_context_text:
  "instruction_context w s focus st = (Inr (Some i, refs), st') \<Longrightarrow> item_call_id i = None"
  by (auto simp: instruction_context_def op_simps split: if_splits)

lemma request_input_parts:
  assumes "request_input w s extra None True base st = (Inr (input, refs), st')"
  obtains items i history s3 where "list_all (\<lambda>i. \<exists>t. i = user_text t) items" "paired (case i of None \<Rightarrow> [] | Some x \<Rightarrow> [x])"
    "\<forall>x. i = Some x \<longrightarrow> item_call_id x = None" "local_history_context_items w s (call_ids_from_items extra) s3 = (Inr history, st')"
    "input = filter (\<lambda>i. \<not> is_dynamic_context_item (aw_texts w) i) items @ (case i of None \<Rightarrow> [] | Some x \<Rightarrow> [x]) @ history @
       filter (is_dynamic_context_item (aw_texts w)) items @ extra"
proof (cases base)
  case True
  with assms obtain items i history s1 s3 where p: "load_context_items w s st = (Inr items, s1)"
    "instruction_context w s (extract_focus_paths (filter (\<lambda>i. \<not> is_dynamic_context_item (aw_texts w) i) items)) s1 = (Inr (i, refs), s3)"
    "local_history_context_items w s (call_ids_from_items extra) s3 = (Inr history, st')"
    "input = filter (\<lambda>i. \<not> is_dynamic_context_item (aw_texts w) i) items @ (case i of None \<Rightarrow> [] | Some x \<Rightarrow> [x]) @ history @
       filter (is_dynamic_context_item (aw_texts w)) items @ extra"
    by (auto simp: request_input_def op_simps split_dynamic_context_items_def)
  have "\<forall>x. i = Some x \<longrightarrow> item_call_id x = None" using p(2) instruction_context_text by blast
  then show ?thesis by (rule that [OF load_context_items_plain [OF p(1)] instruction_context_plain [OF p(2)] _ p(3,4)])
next
  case False
  with assms that [of "[]" None] show ?thesis by (auto simp: request_input_def op_simps split_dynamic_context_items_def)
qed

text \<open>The history that is replayed has no item with the identifier of a call of this turn.\<close>

lemma for_prompt_excludes: "i \<in> set (for_prompt rows extra ex) \<Longrightarrow> item_call_id i = Some c \<Longrightarrow> c \<notin> set ex"
  by (auto simp: for_prompt_def Let_def normalize_response_items_eq split: if_splits)

lemma local_history_excludes:
  "local_history_context_items w s ex st = (Inr items, st') \<Longrightarrow> i \<in> set items \<Longrightarrow> item_call_id i = Some c \<Longrightarrow> c \<notin> set ex"
  by (auto simp: local_history_context_items_def Let_def op_simps dest: for_prompt_excludes split: if_splits)

lemma call_ids_from_items_mem: "c \<in> set (call_ids_from_items items) \<longleftrightarrow> (\<exists>i \<in> set items. item_call_id i = Some c)"
  by (force simp: call_ids_from_items_def split: option.splits)

definition shares_no_call :: "payload list \<Rightarrow> payload list \<Rightarrow> bool" where
  "shares_no_call xs ys \<longleftrightarrow> (\<forall>i \<in> set xs. \<forall>j \<in> set ys. item_call_id i = item_call_id j \<longrightarrow> item_call_id i = None)"

lemma paired_append_iff:
  assumes "paired xs" "shares_no_call xs ys"
  shows "paired (xs @ ys) \<longleftrightarrow> paired ys"
proof
  assume "paired (xs @ ys)"
  then show "paired ys" using assms(2) unfolding paired_def list_all_iff has_partner_def list_ex_iff shares_no_call_def
    by (metis Un_iff set_append)
qed (rule paired_append [OF assms(1)])

lemma request_input_paired:
  assumes "request_input w s extra None True base st = (Inr (input, refs), st')"
  obtains before where "input = before @ extra" "paired before" "shares_no_call before extra"
proof -
  from assms obtain items i history s3 where items: "list_all (\<lambda>i. \<exists>t. i = user_text t) items"
    and i: "paired (case i of None \<Rightarrow> [] | Some x \<Rightarrow> [x])" "\<forall>x. i = Some x \<longrightarrow> item_call_id x = None"
    and h: "local_history_context_items w s (call_ids_from_items extra) s3 = (Inr history, st')"
    and input: "input = filter (\<lambda>i. \<not> is_dynamic_context_item (aw_texts w) i) items @ (case i of None \<Rightarrow> [] | Some x \<Rightarrow> [x]) @
       history @ filter (is_dynamic_context_item (aw_texts w)) items @ extra"
    by (rule request_input_parts)
  let ?before = "filter (\<lambda>i. \<not> is_dynamic_context_item (aw_texts w) i) items @ (case i of None \<Rightarrow> [] | Some x \<Rightarrow> [x]) @
       history @ filter (is_dynamic_context_item (aw_texts w)) items"
  show ?thesis
  proof (rule that)
    show "input = ?before @ extra" by (simp add: input)
    have "paired (filter q items)" for q using items by (auto simp: list_all_iff intro!: plain_texts_paired)
    with i(1) local_history_paired [OF h] show "paired ?before" by (auto intro!: paired_append)
    have none: "item_call_id x = None" if "x \<in> set items" for x using that items by (auto simp: list_all_iff)
    have "c \<notin> set (call_ids_from_items extra)" if "x \<in> set ?before" "item_call_id x = Some c" for x c
      using that none i(2) local_history_excludes [OF h, of x c] by (auto split: option.splits)
    then show "shares_no_call ?before extra"
      unfolding shares_no_call_def call_ids_from_items_mem by (metis option.exhaust)
  qed
qed

section \<open>A sample\<close>

definition sample_texts :: prompt_texts where
  "sample_texts = \<lparr>pt_system = ''system'', pt_developer = ''developer'', pt_task = ''task'', pt_metadata = ''metadata'',
     pt_tree = ''tree'', pt_memory = ''memory:'', pt_todo = ''todo:'', pt_instructions = [''instructions''],
     pt_unreplayable = ''others''\<rparr>"

definition fixed_draws :: "uuid \<Rightarrow> draws" where
  "fixed_draws i = \<lparr>now = 0, now_iso = ''2026-01-01T00:00:00+00:00'', new_id = (\<lambda>_. i)\<rparr>"

definition sample_world :: agent_world where
  "sample_world = \<lparr>aw_others = \<lambda>_ st. st, aw_draws = (\<lambda>_. fixed_draws 7), aw_fresh = (\<lambda>_. fixed_draws 8), aw_todos = \<lambda>_. [],
     aw_create = \<lambda>_ _. ([], Inr \<lparr>mr_response_id = ''r1'', mr_output_text = ''done'', mr_tool_calls = [], mr_usage = JObj [],
        mr_output_items = None\<rparr>),
     aw_compact = \<lambda>_ _. Inl \<lparr>me_type = ''RuntimeError'', me_text = ''unsupported''\<rparr>, aw_texts = sample_texts,
     aw_decode = (\<lambda>b. b), aw_json_loads = \<lambda>_. None\<rparr>"

definition sample_session_state :: session_state where
  "sample_session_state = \<lparr>ss_analysis_id = 1, ss_agent_id = 2, ss_snapshot_id = None, ss_config_snapshot_id = 3,
     ss_status = ''running'', ss_effective_model = ''m'', ss_latest_response_id = None, ss_turn_count = 0, ss_max_turns = 5,
     ss_effective_limits = JObj [], ss_effective_runtime = JObj []\<rparr>"

definition orphan_call :: context_row where
  "orphan_call = \<lparr>ci_id = 9, ci_agent_id = 2, ci_turn_id = None, ci_seq = 1, ci_item_type = ''function_call'',
     ci_payload = JObj [(''type'', JStr ''function_call''), (''call_id'', JStr ''c1'')], ci_response_id = None,
     ci_source = ''model'', ci_idempotency_key = None, ci_compacted_at = None, ci_created_at = 0\<rparr>"

definition sample_agent_state :: agent_state where
  "sample_agent_state = \<lparr>ag_db = empty_db\<lparr>context_items := [orphan_call]\<rparr>, ag_accesses = 0, ag_store = empty_store,
     ag_requests = []\<rparr>"

end
