(* ===== verification/Agent_Handler.thy ===== *)
theory Agent_Handler
  imports Agent_Context Consumer
begin

text \<open>
  The agent loop (\<^verbatim>\<open>backend/agent/handler.py\<close>): an event starts a turn, the turn assembles the context, compacts it
  when it is too long, asks the model, and either requests tools or ends the analysis. Every access to the database is
  a transaction of its own. The repository is the one of \<^verbatim>\<open>agent/repository.py\<close>, so that the branches for repositories
  without its optional methods are not taken. An attempt number that is no number is stored as absent.
\<close>

section \<open>Helpers\<close>

record agent_config =
  ac_app :: app_config
  ac_retry_attempts :: int

definition model_retry_attempts :: "agent_config \<Rightarrow> int" where
  "model_retry_attempts c = max 1 (ac_retry_attempts c)"

definition is_terminal_tool_event :: "envelope \<Rightarrow> bool" where
  "is_terminal_tool_event e = (event_type e \<in> {TOOL_CALL_COMPLETED, TOOL_CALL_FAILED, TOOL_CALL_DENIED})"

definition trigger_domain_key :: "envelope \<Rightarrow> string option" where
  "trigger_domain_key e =
     (case (event_type e, snapshot_id e) of
        (SNAPSHOT_READY, Some i) \<Rightarrow> Some (type_value SNAPSHOT_READY @ '':'' @ uuid_str i)
      | _ \<Rightarrow>
          if is_terminal_tool_event e \<and> truthy (obj_get (payload e) ''tool_call_id'')
          then Some (''ToolCallTerminal:'' @ py_str (obj_get (payload e) ''tool_call_id''))
          else if event_type e = AGENT_CONTINUE_REQUESTED \<and> truthy (obj_get (payload e) ''reason'')
          then Some (type_value AGENT_CONTINUE_REQUESTED @ '':'' @ py_str (obj_get (payload e) ''reason''))
          else None)"

definition safe_error_message :: "model_exception \<Rightarrow> string" where
  "safe_error_message x = take 4096 (if me_text x = [] then me_type x else me_text x)"

definition retryable_markers :: "string list" where
  "retryable_markers = [''429'', ''rate_limit'', ''rate limit'', ''timeout'', ''timed out'', ''temporarily unavailable'',
     ''connection reset'', ''connection aborted'', ''remote end closed'', ''ended before response.completed'',
     ''incomplete stream'', ''502'', ''503'', ''504'']"

definition is_retryable_model_exception :: "model_exception \<Rightarrow> bool" where
  "is_retryable_model_exception x =
     (me_type x = ''IncompleteResponseStreamError'' \<or>
      list_ex (\<lambda>m. contains_sub m (py_lower (safe_error_message x))) retryable_markers)"

definition is_unsupported_context_management_error :: "model_exception \<Rightarrow> bool" where
  "is_unsupported_context_management_error x =
     (let message = py_lower (safe_error_message x)
      in contains_sub ''context_management'' message \<and>
         list_ex (\<lambda>m. contains_sub m message)
           [''unknown'', ''unsupported'', ''unrecognized'', ''invalid'', ''unexpected'', ''not supported''])"

definition is_retryable_model_turn :: "string \<Rightarrow> bool" where
  "is_retryable_model_turn status = (status \<in> {''calling_model'', ''assembling_context'', ''streaming''})"

definition can_reuse_completed_tool_result :: "string \<Rightarrow> bool" where
  "can_reuse_completed_tool_result n = (n \<in> {''list_files'', ''search_file'', ''search_text'', ''read_file''})"

definition prompt_cache_key :: "session_state \<Rightarrow> string" where
  "prompt_cache_key s = ''dd:thread:'' @ take 24 (sha256_hexdigest (utf8_encode (uuid_str (ss_agent_id s))))"

definition object_fields :: "json \<Rightarrow> payload" where
  "object_fields v = (case v of JObj d \<Rightarrow> d | _ \<Rightarrow> [])"

text \<open>\<^verbatim>\<open>int(session.effective_limits_json.get(key) or 0)\<close>\<close>

definition limit_of :: "session_state \<Rightarrow> string \<Rightarrow> agent_error + int" where
  "limit_of s key = map_sum ANumber id (py_int (py_or (obj_get (object_fields (ss_effective_limits s)) key) (JInt 0)))"

definition runtime_get :: "session_state \<Rightarrow> string \<Rightarrow> json \<Rightarrow> json" where
  "runtime_get s key dflt = obj_get_default (object_fields (ss_effective_runtime s)) key dflt"

section \<open>Messages of a response\<close>

definition agent_message_text_parts :: "json \<Rightarrow> string list" where
  "agent_message_text_parts content =
     (case content of
        JStr s \<Rightarrow> (if s \<noteq> [] then [s] else [])
      | JList parts \<Rightarrow> concat (map (\<lambda>p. case p of
            JObj d \<Rightarrow>
              (if obj_get d ''type'' \<in> {JNull, JStr ''output_text'', JStr ''text''}
               then (case obj_get d ''text'' of JStr t \<Rightarrow> (if t \<noteq> [] then [t] else []) | _ \<Rightarrow> [])
               else [])
          | _ \<Rightarrow> []) parts)
      | _ \<Rightarrow> [])"

definition text_part :: "string \<Rightarrow> json" where
  "text_part t = JObj [(''type'', JStr ''text''), (''text'', JStr t)]"

definition agent_message_payloads_from_output_items :: "payload list \<Rightarrow> string \<Rightarrow> payload list" where
  "agent_message_payloads_from_output_items items response_id =
     concat (map (\<lambda>item.
       let parts = agent_message_text_parts (obj_get item ''content'')
       in if obj_get item ''type'' \<noteq> JStr ''message'' \<or> obj_get item ''role'' \<notin> {JNull, JStr ''assistant''} \<or> parts = [] then []
          else [[(''type'', JStr ''agent_message''), (''response_id'', JStr response_id), (''text'', JStr (concat parts)),
                 (''content'', JList (map text_part parts))] @
                (if obj_get item ''id'' \<noteq> JNull then [(''item_id'', JStr (py_str (obj_get item ''id'')))] else []) @
                (if obj_get item ''phase'' \<noteq> JNull then [(''phase'', JStr (py_str (obj_get item ''phase'')))] else [])]) items)"

definition agent_message_payloads_from_response :: "model_response \<Rightarrow> payload list" where
  "agent_message_payloads_from_response r =
     (let payloads = agent_message_payloads_from_output_items (case mr_output_items r of None \<Rightarrow> [] | Some is \<Rightarrow> is) (mr_response_id r)
      in if payloads \<noteq> [] \<or> mr_output_text r = [] then payloads
         else [[(''type'', JStr ''agent_message''), (''response_id'', JStr (mr_response_id r)),
                (''text'', JStr (mr_output_text r)), (''content'', JList [text_part (mr_output_text r)])]])"

text \<open>\<^verbatim>\<open>model_reasoning_summary_stream_payloads\<close> (\<^verbatim>\<open>events/model_stream_payloads.py\<close>)\<close>

definition model_reasoning_summary_stream_payloads :: "payload \<Rightarrow> payload list" where
  "model_reasoning_summary_stream_payloads pl =
     (case obj_get pl ''response'' of
        JObj response \<Rightarrow>
          (let response_id = (if obj_get response ''id'' \<noteq> JNull then obj_get response ''id'' else obj_get pl ''response_id'');
               of_summary = (\<lambda>item summary. case summary of
                   JObj s \<Rightarrow>
                     (case (obj_get s ''type'', obj_get s ''text'') of
                        (JStr ty, JStr t) \<Rightarrow>
                          if ty = ''summary_text'' \<and> t \<noteq> []
                          then [[(''type'', JStr ''model_reasoning_summary''), (''text'', JStr t)] @
                                (if obj_get item ''id'' \<noteq> JNull then [(''item_id'', JStr (py_str (obj_get item ''id'')))] else []) @
                                (if response_id \<noteq> JNull then [(''response_id'', JStr (py_str response_id))] else [])]
                          else []
                      | _ \<Rightarrow> [])
                 | _ \<Rightarrow> []);
               of_item = (\<lambda>item. case item of
                   JObj i \<Rightarrow>
                     (case (obj_get i ''type'', obj_get i ''summary'') of
                        (JStr ty, JList parts) \<Rightarrow> (if ty = ''reasoning'' then concat (map (of_summary i) parts) else [])
                      | _ \<Rightarrow> [])
                 | _ \<Rightarrow> [])
           in case obj_get response ''output'' of JList items \<Rightarrow> concat (map of_item items) | _ \<Rightarrow> [])
      | _ \<Rightarrow> [])"

section \<open>Stream events and failures\<close>

definition stream_event_op ::
  "agent_world \<Rightarrow> session_state \<Rightarrow> string \<Rightarrow> payload \<Rightarrow> uuid option \<Rightarrow> int option \<Rightarrow> string option \<Rightarrow> string option \<Rightarrow>
   unit agent_op" where
  "stream_event_op w s ty pl turn att response state =
     commit w (\<lambda>d. add_stream_event d 0 (ss_analysis_id s) (ss_agent_id s) ty (JObj pl) turn att response state None)"

definition outbox_op :: "agent_world \<Rightarrow> envelope \<Rightarrow> session_state \<Rightarrow> event_type \<Rightarrow> payload \<Rightarrow> unit agent_op" where
  "outbox_op w e s ty pl =
     commit w (\<lambda>d. emit d 0 ty (Some (ss_analysis_id s)) (Some (ss_agent_id s)) (ss_snapshot_id s) (Some (correlation_id e))
       (Some (event_id e)) pl)"

definition fail_analysis_op :: "agent_world \<Rightarrow> session_state \<Rightarrow> string \<Rightarrow> string \<Rightarrow> bool agent_op" where
  "fail_analysis_op w s code message =
     access w (\<lambda>d st. Inr (fail_analysis d (ss_analysis_id s) (ss_agent_id s) code message st))"

text \<open>The end of every \<^verbatim>\<open>_fail_...\<close> method: the error event and the outbox event carry the same payload.\<close>

definition report_failure :: "agent_world \<Rightarrow> envelope \<Rightarrow> session_state \<Rightarrow> payload \<Rightarrow> uuid option \<Rightarrow> string option \<Rightarrow> unit agent_op" where
  "report_failure w e s pl turn state =
     then_op (stream_event_op w s ''error'' pl turn None None state) (\<lambda>_. outbox_op w e s ANALYSIS_FAILED pl)"

definition failure_payload :: "string \<Rightarrow> string \<Rightarrow> payload \<Rightarrow> payload" where
  "failure_payload code message details = [(''error_code'', JStr code), (''error_message'', JStr message)] @ details"

definition fail_and_report ::
  "agent_world \<Rightarrow> envelope \<Rightarrow> session_state \<Rightarrow> string \<Rightarrow> string \<Rightarrow> payload \<Rightarrow> uuid option \<Rightarrow> string option \<Rightarrow> unit agent_op" where
  "fail_and_report w e s code message details turn state =
     then_op (fail_analysis_op w s code message) (\<lambda>failed.
       if \<not> failed then return_op () else report_failure w e s (failure_payload code message details) turn state)"

definition fail_max_turns_exceeded :: "agent_world \<Rightarrow> envelope \<Rightarrow> session_state \<Rightarrow> unit agent_op" where
  "fail_max_turns_exceeded w e s =
     fail_and_report w e s ''MAX_TURNS_EXCEEDED''
       (''Agent reached max_turns='' @ show_int (ss_max_turns s) @ '' before producing a final answer.'')
       [(''turn_count'', JInt (ss_turn_count s)), (''max_turns'', JInt (ss_max_turns s))] None None"

definition fail_max_tool_calls_exceeded :: "agent_world \<Rightarrow> envelope \<Rightarrow> session_state \<Rightarrow> int \<Rightarrow> unit agent_op" where
  "fail_max_tool_calls_exceeded w e s max_tool_calls =
     fail_and_report w e s ''MAX_TOOL_CALLS_EXCEEDED''
       (''Agent reached max_tool_calls='' @ show_int max_tool_calls @ '' before producing a final answer.'')
       [(''turn_count'', JInt (ss_turn_count s)), (''max_tool_calls'', JInt max_tool_calls)] None None"

definition fail_model_call :: "agent_world \<Rightarrow> envelope \<Rightarrow> session_state \<Rightarrow> uuid \<Rightarrow> model_exception \<Rightarrow> unit agent_op" where
  "fail_model_call w e s turn x =
     then_op (commit w (\<lambda>d. fail_turn d turn)) (\<lambda>_.
       fail_and_report w e s ''MODEL_CALL_FAILED'' (safe_error_message x) [(''turn_count'', JInt (ss_turn_count s))]
         (Some turn) (Some ''failed''))"

definition recovery_message :: string where
  "recovery_message = ''Agent turn was replayed while an earlier attempt for the same event was not completed; '' @
     ''automatic recovery for partial model calls is not available yet.''"

definition fail_unrecoverable_turn_replay :: "agent_world \<Rightarrow> envelope \<Rightarrow> session_state \<Rightarrow> uuid \<Rightarrow> unit agent_op" where
  "fail_unrecoverable_turn_replay w e s turn =
     then_op (commit w (\<lambda>d. fail_turn d turn)) (\<lambda>_.
       fail_and_report w e s ''AGENT_TURN_RECOVERY_REQUIRED'' recovery_message [] (Some turn) (Some ''failed''))"

definition fail_context_compaction_unavailable ::
  "agent_world \<Rightarrow> envelope \<Rightarrow> session_state \<Rightarrow> uuid \<Rightarrow> int \<Rightarrow> int \<Rightarrow> unit agent_op" where
  "fail_context_compaction_unavailable w e s turn token_estimate threshold =
     (let message = ''Context token estimate '' @ show_int token_estimate @ '' exceeds auto_compact_threshold_tokens='' @
            show_int threshold @ '', and all configured compaction strategies failed: remote, local_model.'';
          pl = failure_payload ''CONTEXT_COMPACTION_UNAVAILABLE'' message
            [(''token_estimate'', JInt token_estimate), (''threshold'', JInt threshold),
             (''strategies'', JList [JStr ''remote'', JStr ''local_model''])]
      in then_op (commit w (\<lambda>d. fail_turn d turn)) (\<lambda>_.
         then_op (fail_analysis_op w s ''CONTEXT_COMPACTION_UNAVAILABLE'' message) (\<lambda>failed.
         then_op (stream_event_op w s ''compact'' (pl @ [(''status'', JStr ''failed'')]) (Some turn) None None (Some ''failed'')) (\<lambda>_.
           if \<not> failed then return_op () else report_failure w e s pl (Some turn) (Some ''failed'')))))"

section \<open>Calling the model\<close>

text \<open>
  A call of \<^verbatim>\<open>create_response\<close>: the request is recorded, and the events that the stream delivers before the result go
  to the callback, which keeps a state of its own.
\<close>

fun run_callback :: "('c \<Rightarrow> string \<times> payload \<Rightarrow> 'c agent_op) \<Rightarrow> (string \<times> payload) list \<Rightarrow> 'c \<Rightarrow> 'c agent_op" where
  "run_callback f [] c = return_op c"
| "run_callback f (ev # evs) c = then_op (f c ev) (run_callback f evs)"

definition note_request :: "model_request \<Rightarrow> unit agent_op" where
  "note_request r s = (Inr (), s\<lparr>ag_requests := ag_requests s @ [r]\<rparr>)"

definition create_response ::
  "agent_world \<Rightarrow> ('c \<Rightarrow> string \<times> payload \<Rightarrow> 'c agent_op) \<Rightarrow> payload \<Rightarrow> 'c \<Rightarrow>
   ('c \<times> (model_exception + model_response)) agent_op" where
  "create_response w callback request c =
     then_op (gets_op (\<lambda>s. aw_create w (ag_accesses s) request)) (\<lambda>(events, result).
     then_op (note_request (Create_Response request)) (\<lambda>_.
     then_op (run_callback callback events c) (\<lambda>c1. return_op (c1, result))))"

definition compact_response :: "agent_world \<Rightarrow> payload \<Rightarrow> (model_exception + compaction_response) agent_op" where
  "compact_response w request =
     then_op (gets_op (\<lambda>s. aw_compact w (ag_accesses s) request)) (\<lambda>result.
     then_op (note_request (Compact_Response request)) (\<lambda>_. return_op result))"

definition create_response_with_optional_context_management ::
  "agent_world \<Rightarrow> ('c \<Rightarrow> string \<times> payload \<Rightarrow> 'c agent_op) \<Rightarrow> payload \<Rightarrow> 'c \<Rightarrow> (model_exception + model_response) agent_op" where
  "create_response_with_optional_context_management w callback request c =
     then_op (create_response w callback request c) (\<lambda>(c1, result).
       case result of
         Inr r \<Rightarrow> return_op (Inr r)
       | Inl x \<Rightarrow>
           if \<not> is_unsupported_context_management_error x \<or> ''context_management'' \<notin> fst ` set request
           then return_op (Inl x)
           else then_op (create_response w callback (AList.delete ''context_management'' request) c1) (\<lambda>(c2, result2).
             return_op result2))"

text \<open>The callback \<^verbatim>\<open>on_raw_sse_event\<close>: the fragments of the summary so far, and whether it was shown.\<close>

definition summary_payload :: "string \<Rightarrow> string \<Rightarrow> payload \<Rightarrow> payload" where
  "summary_payload ty t pl =
     [(''type'', JStr ty), (''text'', JStr t)] @
     concat (map (\<lambda>k. if obj_get pl k \<noteq> JNull then [(k, obj_get pl k)] else []) [''item_id'', ''response_id'', ''summary_index''])"

definition text_or_none :: "json \<Rightarrow> string option" where
  "text_or_none v = (case v of JStr t \<Rightarrow> Some t | _ \<Rightarrow> None)"

definition persist_model_reasoning_summary ::
  "agent_world \<Rightarrow> session_state \<Rightarrow> uuid \<Rightarrow> envelope \<Rightarrow> string \<Rightarrow> payload \<Rightarrow> json \<Rightarrow> unit agent_op" where
  "persist_model_reasoning_summary w s turn e name pl response_id =
     stream_event_op w s name pl (Some turn) (attempt_number (attempt e))
       (text_or_none (py_or (obj_get pl ''response_id'') response_id)) None"

fun persist_summaries ::
  "agent_world \<Rightarrow> session_state \<Rightarrow> uuid \<Rightarrow> envelope \<Rightarrow> json \<Rightarrow> payload list \<Rightarrow> unit agent_op" where
  "persist_summaries w s turn e response_id [] = return_op ()"
| "persist_summaries w s turn e response_id (pl # pls) =
     then_op (persist_model_reasoning_summary w s turn e ''model_reasoning_summary'' pl response_id) (\<lambda>_.
       persist_summaries w s turn e response_id pls)"

definition on_raw_sse_event ::
  "agent_world \<Rightarrow> session_state \<Rightarrow> uuid \<Rightarrow> envelope \<Rightarrow> bool \<Rightarrow> string list \<times> bool \<Rightarrow> string \<times> payload \<Rightarrow>
   (string list \<times> bool) agent_op" where
  "on_raw_sse_event w s turn e show_summary = (\<lambda>(fragments, shown) (name, pl).
     (let response_id = obj_get pl ''response_id'';
          txt = (case obj_get pl ''text'' of JStr t \<Rightarrow> t | _ \<Rightarrow> [])
      in if name = ''model_reasoning_summary.delta''
         then (if txt = [] then return_op (fragments, shown)
               else if \<not> show_summary then return_op (fragments @ [txt], shown)
               else then_op (persist_model_reasoning_summary w s turn e name (summary_payload name txt pl) response_id) (\<lambda>_.
                 return_op (fragments @ [txt], shown)))
         else if \<not> show_summary \<or> shown then return_op (fragments, shown)
         else if name = ''model_reasoning_summary.done''
         then (let final_text = (if txt \<noteq> [] then txt else concat fragments)
               in if final_text = [] then return_op (fragments, shown)
                  else then_op (persist_model_reasoning_summary w s turn e ''model_reasoning_summary''
                      (summary_payload ''model_reasoning_summary'' final_text pl) response_id) (\<lambda>_.
                    return_op (fragments, True)))
         else if name = ''model_reasoning_summary''
         then (if txt = [] then return_op (fragments, shown)
               else then_op (persist_model_reasoning_summary w s turn e ''model_reasoning_summary''
                   (summary_payload ''model_reasoning_summary'' txt pl) response_id) (\<lambda>_.
                 return_op (fragments, True)))
         else if name = ''response.completed''
         then then_op (persist_summaries w s turn e response_id (model_reasoning_summary_stream_payloads pl)) (\<lambda>_.
                return_op (fragments, model_reasoning_summary_stream_payloads pl \<noteq> []))
         else return_op (fragments, shown)))"

section \<open>Tool outputs\<close>

record ready_output =
  ro_call_id :: string
  ro_name :: string
  ro_arguments :: json
  ro_output :: string
  ro_output_ref :: "string option"
  ro_turn_id :: "uuid option"

definition ready_output_of :: "tool_output \<Rightarrow> ready_output" where
  "ready_output_of r = \<lparr>ro_call_id = to_call_id r, ro_name = to_name r, ro_arguments = to_arguments r, ro_output = to_output r,
     ro_output_ref = to_output_ref r, ro_turn_id = Some (to_turn_id r)\<rparr>"

definition fallback_output :: "envelope \<Rightarrow> ready_output" where
  "fallback_output e =
     (let err = object_fields (obj_get (payload e) ''error'');
          code = (if event_type e = TOOL_CALL_DENIED then ''TOOL_DENIED'' else ''TOOL_FAILED'')
      in \<lparr>ro_call_id = py_str (py_or (obj_get (payload e) ''openai_call_id'') (obj_get (payload e) ''tool_call_id'')),
          ro_name = py_str (py_or (obj_get (payload e) ''tool_name'') (JStr ''unknown_tool'')),
          ro_arguments = JObj (object_fields (obj_get (payload e) ''arguments'')),
          ro_output = json_dumps '', '' '': '' (JObj [(''ok'', JBool False), (''error'', JObj
             [(''code'', JStr (py_str (py_or (obj_get err ''code'') (JStr code)))),
              (''message'', JStr (py_str (py_or (obj_get err ''message'') (JStr ''Tool call failed'')))),
              (''retryable'', JBool (truthy (obj_get_default err ''retryable'' (JBool False))))])]),
          ro_output_ref = None, ro_turn_id = None\<rparr>)"

text \<open>\<^verbatim>\<open>_ready_tool_outputs\<close>: \<open>None\<close> while a call of the same turn is still unfinished.\<close>

definition ready_tool_outputs :: "agent_world \<Rightarrow> envelope \<Rightarrow> ready_output list option agent_op" where
  "ready_tool_outputs w e =
     (let tool_call_id = obj_get (payload e) ''tool_call_id''
      in if \<not> is_terminal_tool_event e \<or> \<not> truthy tool_call_id then return_op (Some [])
         else then_op (lift_op (case parse_uuid (py_str tool_call_id) of
             None \<Rightarrow> Inl (AHandler (HValueError ''badly formed hexadecimal UUID string''))
           | Some i \<Rightarrow> Inr i)) (\<lambda>i.
         then_op (look w (get_pending_tool_output i)) (\<lambda>found.
           case found of
             None \<Rightarrow> return_op (if event_type e = TOOL_CALL_COMPLETED then None else Some [fallback_output e])
           | Some r \<Rightarrow>
               then_op (look w (load_ready_tool_outputs_for_turn (to_turn_id r))) (\<lambda>outputs.
                 return_op (map_option (map ready_output_of) outputs)))))"

definition function_output_item :: "ready_output \<Rightarrow> payload" where
  "function_output_item r = [(''type'', JStr ''function_call_output''), (''call_id'', JStr (ro_call_id r)),
     (''output'', JStr (ro_output r))]"

definition function_call_item :: "ready_output \<Rightarrow> payload" where
  "function_call_item r = [(''type'', JStr ''function_call''), (''call_id'', JStr (ro_call_id r)),
     (''name'', JStr (ro_name r)), (''arguments'', JStr (json_dumps '', '' '': '' (ro_arguments r)))]"

definition tool_output_items ::
  "agent_world \<Rightarrow> envelope \<Rightarrow> bool \<Rightarrow> ready_output list option \<Rightarrow> payload list agent_op" where
  "tool_output_items w e use_previous_response_id ready =
     then_op (case ready of
         Some rs \<Rightarrow> return_op rs
       | None \<Rightarrow> then_op (ready_tool_outputs w e) (\<lambda>r. return_op (case r of None \<Rightarrow> [] | Some rs \<Rightarrow> rs))) (\<lambda>outputs.
       if outputs = [] then return_op []
       else if use_previous_response_id then return_op (map function_output_item outputs)
       else then_op (gets_op (\<lambda>s. case ro_output_ref (hd outputs) of
                None \<Rightarrow> []
              | Some key \<Rightarrow> (if key = [] then [] else load_model_output_items w (ag_store s) key))) (\<lambda>previous.
              return_op (if previous \<noteq> [] then previous @ map function_output_item outputs
                         else concat (map (\<lambda>r. [function_call_item r, function_output_item r]) outputs))))"

section \<open>Compaction\<close>

record compaction_decision =
  cd_strategy :: "string option"
  cd_remote_output :: "payload list option"
  cd_replacement_input :: "payload list option"

definition no_compaction :: compaction_decision where
  "no_compaction = \<lparr>cd_strategy = None, cd_remote_output = None, cd_replacement_input = None\<rparr>"

definition apply_prompt_cache_controls :: "agent_config \<Rightarrow> session_state \<Rightarrow> payload \<Rightarrow> payload" where
  "apply_prompt_cache_controls cfg s request =
     (let retention = py_strip (py_str (py_or (runtime_get s ''prompt_cache_retention''
            (JStr (instruction_or (oc_prompt_cache_retention (ap_openai (ac_app cfg))) []))) (JStr [])))
      in AList.update ''prompt_cache_key'' (JStr (prompt_cache_key s)) request @
         (if retention \<noteq> [] then [(''prompt_cache_retention'', JStr retention)] else []))"

definition context_management :: "int \<Rightarrow> json list" where
  "context_management threshold =
     (if threshold \<le> 0 then []
      else [JObj [(''type'', JStr ''compaction''), (''compact_threshold'', JInt threshold)]])"

definition record_compaction ::
  "agent_world \<Rightarrow> envelope \<Rightarrow> session_state \<Rightarrow> uuid \<Rightarrow> int \<Rightarrow> int \<Rightarrow> string \<Rightarrow> string \<Rightarrow> payload list \<Rightarrow> json \<Rightarrow> unit agent_op" where
  "record_compaction w e s turn token_estimate threshold strategy compaction_id output_json usage =
     (let pl = [(''token_estimate'', JInt token_estimate), (''threshold'', JInt threshold), (''strategy'', JStr strategy),
            (''compaction_id'', JStr compaction_id)]
      in then_op (commit w (\<lambda>d. save_compacted_context_window d (ss_agent_id s) turn (ss_turn_count s) compaction_id
             output_json usage strategy)) (\<lambda>_.
         then_op (stream_event_op w s ''compact'' pl (Some turn) None None (Some ''completed'')) (\<lambda>_.
           outbox_op w e s AGENT_COMPACTED pl)))"

definition try_remote_compact ::
  "agent_world \<Rightarrow> agent_config \<Rightarrow> envelope \<Rightarrow> session_state \<Rightarrow> uuid \<Rightarrow> assembled_context \<Rightarrow> int \<Rightarrow> compaction_decision option agent_op" where
  "try_remote_compact w cfg e s turn cx threshold =
     then_op (compact_response w (apply_prompt_cache_controls cfg s
         [(''model'', JStr (ss_effective_model s)), (''input'', JList (map JObj (cx_input cx)))])) (\<lambda>result.
       case result of
         Inl x \<Rightarrow> return_op None
       | Inr c \<Rightarrow>
           if cp_output c = [] then return_op None
           else then_op (record_compaction w e s turn (cx_token_estimate cx) threshold ''remote'' (cp_compaction_id c)
                  (cp_output c) (cp_usage c)) (\<lambda>_.
                return_op (Some \<lparr>cd_strategy = Some ''remote'', cd_remote_output = Some (cp_output c),
                  cd_replacement_input = Some (cp_output c)\<rparr>)))"

definition local_compaction_instructions :: "agent_config \<Rightarrow> string" where
  "local_compaction_instructions cfg =
     (let configured = py_strip (instruction_or (pc_compaction_instruction (ap_prompt (ac_app cfg))) [])
      in if configured \<noteq> [] then configured
         else ''You are compacting a DeepDive agent transcript. Return only the state needed to resume the task: '' @
              ''goal, completed steps, confirmed facts with evidence ids, active hypotheses, open questions, focus paths, '' @
              ''and next action. Do not restart the analysis.'')"

definition input_message :: "string \<Rightarrow> payload" where
  "input_message t = [(''type'', JStr ''message''), (''role'', JStr ''user''),
     (''content'', JList [JObj [(''type'', JStr ''input_text''), (''text'', JStr t)]])]"

definition local_model_replacement_input :: "model_response \<Rightarrow> payload list" where
  "local_model_replacement_input r =
     (case mr_output_items r of
        Some (i # is) \<Rightarrow> i # is
      | _ \<Rightarrow> [input_message (''Compacted DeepDive context state:'' @ newline # py_strip (mr_output_text r))])"

definition openai_setting :: "agent_config \<Rightarrow> (openai_settings \<Rightarrow> string) \<Rightarrow> json" where
  "openai_setting cfg f = JStr (f (ap_openai (ac_app cfg)))"

definition local_compaction_request :: "agent_config \<Rightarrow> session_state \<Rightarrow> assembled_context \<Rightarrow> payload" where
  "local_compaction_request cfg s cx = apply_prompt_cache_controls cfg s
     [(''model'', JStr (ss_effective_model s)), (''instructions'', JStr (local_compaction_instructions cfg)),
      (''input'', JList (map JObj (cx_input cx @
         [input_message (''Compact the preceding DeepDive agent context into a concise, '' @
            ''machine-resumable state. Preserve completed work, evidence ids, '' @
            ''open questions, active assumptions, and the next concrete action.'')]))),
      (''tools'', JList []), (''parallel_tool_calls'', JBool False),
      (''reasoning'', JObj [(''effort'', runtime_get s ''reasoning_effort'' (openai_setting cfg oc_reasoning_effort))]),
      (''service_tier'', runtime_get s ''service_tier'' (openai_setting cfg oc_service_tier)),
      (''metadata'', JObj [(''purpose'', JStr ''local_compact'')])]"

definition try_local_model_compact ::
  "agent_world \<Rightarrow> agent_config \<Rightarrow> envelope \<Rightarrow> session_state \<Rightarrow> uuid \<Rightarrow> assembled_context \<Rightarrow> int \<Rightarrow> compaction_decision option agent_op" where
  "try_local_model_compact w cfg e s turn cx threshold =
     then_op (create_response w (\<lambda>_ _. return_op ()) (local_compaction_request cfg s cx) ()) (\<lambda>(_, result).
       case result of
         Inl x \<Rightarrow> return_op None
       | Inr r \<Rightarrow>
           if py_strip (mr_output_text r) = [] \<and> (case mr_output_items r of None \<Rightarrow> True | Some is \<Rightarrow> is = []) then return_op None
           else then_op (record_compaction w e s turn (cx_token_estimate cx) threshold ''local_model'' (mr_response_id r)
                  (local_model_replacement_input r) (mr_usage r)) (\<lambda>_.
                return_op (Some \<lparr>cd_strategy = Some ''local_model'', cd_remote_output = None,
                  cd_replacement_input = Some (local_model_replacement_input r)\<rparr>)))"

definition compact_if_needed ::
  "agent_world \<Rightarrow> agent_config \<Rightarrow> envelope \<Rightarrow> session_state \<Rightarrow> uuid \<Rightarrow> assembled_context \<Rightarrow> compaction_decision agent_op" where
  "compact_if_needed w cfg e s turn cx =
     then_op (lift_op (limit_of s ''auto_compact_threshold_tokens'')) (\<lambda>threshold.
       if threshold \<le> 0 \<or> cx_token_estimate cx \<le> threshold then return_op no_compaction
       else then_op (try_remote_compact w cfg e s turn cx threshold) (\<lambda>remote.
         case remote of
           Some c \<Rightarrow> return_op c
         | None \<Rightarrow> then_op (try_local_model_compact w cfg e s turn cx threshold) (\<lambda>local.
             case local of
               Some c \<Rightarrow> return_op c
             | None \<Rightarrow> then_op (fail_context_compaction_unavailable w e s turn (cx_token_estimate cx) threshold) (\<lambda>_.
                 return_op (no_compaction\<lparr>cd_strategy := Some ''failed''\<rparr>)))))"

section \<open>Requesting tools\<close>

definition DEFAULT_TOOL_REGISTRY_VERSION :: string where
  "DEFAULT_TOOL_REGISTRY_VERSION = ''analysis-tools-v2''"

definition DEFAULT_TOOL_POLICY_HASH :: string where
  "DEFAULT_TOOL_POLICY_HASH = ''sha256:'' @ sha256_hexdigest (utf8_encode ''analysis-tool-permissions-v2'')"

definition setdefault :: "string \<Rightarrow> json \<Rightarrow> payload \<Rightarrow> payload" where
  "setdefault k v d = (if k \<in> fst ` set d then d else d @ [(k, v)])"

definition previous_tool_result_payload :: "agent_world \<Rightarrow> model_tool_call \<Rightarrow> tool_call_row \<Rightarrow> payload" where
  "previous_tool_result_payload w c previous =
     (let plain = (\<lambda>v. [(''ok'', JBool True), (''tool_name'', JStr (mc_name c)), (''result'', v)]);
          base = (case tc_result_summary previous of
             None \<Rightarrow> plain JNull
           | Some t \<Rightarrow> (case aw_json_loads w t of Some (JObj (f # fs)) \<Rightarrow> f # fs | _ \<Rightarrow> plain (JStr t)));
          filled = AList.update ''reused_from_tool_call_id'' (JStr (uuid_str (tc_id previous)))
            (setdefault ''tool_name'' (JStr (mc_name c)) (setdefault ''ok'' (JBool True) base))
      in case tc_result_ref previous of
           Some ref \<Rightarrow> (if ref \<noteq> [] then setdefault ''result_ref'' (JStr ref) filled else filled)
         | None \<Rightarrow> filled)"

definition fresh_event ::
  "agent_world \<Rightarrow> nat \<Rightarrow> nat \<Rightarrow> envelope \<Rightarrow> session_state \<Rightarrow> event_type \<Rightarrow> payload \<Rightarrow> envelope" where
  "fresh_event w k i e s ty pl =
     (let d = aw_fresh w k
      in envelope_new (new_id d (2 * i + 1)) (new_id d (2 * i)) (now_iso d) ty (Some (ss_analysis_id s)) (Some (ss_agent_id s))
           (ss_snapshot_id s) (Some (correlation_id e)) (Some (event_id e)) (Some pl))"

definition tool_call_kwargs_of ::
  "session_state \<Rightarrow> uuid \<Rightarrow> uuid \<Rightarrow> assembled_context \<Rightarrow> model_tool_call \<Rightarrow> tool_call_kwargs" where
  "tool_call_kwargs_of s snapshot turn cx c =
     \<lparr>tk_agent_id = ss_agent_id s, tk_turn_id = turn, tk_snapshot_id = snapshot, tk_openai_call_id = mc_call_id c,
      tk_tool_name = mc_name c, tk_arguments = mc_arguments c, tk_registry_version = DEFAULT_TOOL_REGISTRY_VERSION,
      tk_schema_hash = cx_tool_schema_hash cx, tk_policy_hash = DEFAULT_TOOL_POLICY_HASH, tk_status = ''queued'',
      tk_result_ref = None, tk_result_summary = None\<rparr>"

definition queued_request ::
  "agent_world \<Rightarrow> nat \<Rightarrow> nat \<Rightarrow> envelope \<Rightarrow> session_state \<Rightarrow> uuid \<Rightarrow> uuid \<Rightarrow> assembled_context \<Rightarrow> model_tool_call \<Rightarrow> tool_call_request" where
  "queued_request w k i e s snapshot turn cx c =
     \<lparr>rq_kwargs = tool_call_kwargs_of s snapshot turn cx c, rq_stream_type = ''tool_call'',
      rq_stream_payload = [(''tool_name'', JStr (mc_name c)), (''arguments'', mc_arguments c)],
      rq_event = fresh_event w k i e s TOOL_CALL_REQUESTED
        [(''openai_call_id'', JStr (mc_call_id c)), (''tool_name'', JStr (mc_name c)), (''arguments'', mc_arguments c)]\<rparr>"

definition reused_request ::
  "agent_world \<Rightarrow> nat \<Rightarrow> nat \<Rightarrow> envelope \<Rightarrow> session_state \<Rightarrow> uuid \<Rightarrow> uuid \<Rightarrow> assembled_context \<Rightarrow> model_tool_call \<Rightarrow>
   tool_call_row \<Rightarrow> tool_call_request" where
  "reused_request w k i e s snapshot turn cx c previous =
     (let result = previous_tool_result_payload w c previous
      in \<lparr>rq_kwargs = (tool_call_kwargs_of s snapshot turn cx c)\<lparr>tk_status := ''completed'',
            tk_result_summary := Some (JObj result), tk_result_ref := tc_result_ref previous\<rparr>,
          rq_stream_type = ''tool_result'', rq_stream_payload = result,
          rq_event = fresh_event w k i e s TOOL_CALL_COMPLETED
            [(''previous_tool_call_id'', JStr (uuid_str (tc_id previous)))]\<rparr>)"

definition tool_call_request_op ::
  "agent_world \<Rightarrow> nat \<Rightarrow> envelope \<Rightarrow> session_state \<Rightarrow> uuid \<Rightarrow> assembled_context \<Rightarrow> model_tool_call \<Rightarrow> tool_call_request agent_op" where
  "tool_call_request_op w i e s turn cx c =
     (case ss_snapshot_id s of
        None \<Rightarrow> raise_op (AHandler (HValueError ''Tool call requires snapshot_id''))
      | Some snapshot \<Rightarrow>
          then_op (if can_reuse_completed_tool_result (mc_name c)
                   then look w (find_completed_tool_call (ss_agent_id s) (mc_name c) (mc_arguments c))
                   else return_op None) (\<lambda>previous.
          then_op (gets_op ag_accesses) (\<lambda>k.
            return_op (case previous of
                None \<Rightarrow> queued_request w k i e s snapshot turn cx c
              | Some p \<Rightarrow> reused_request w k i e s snapshot turn cx c p))))"

fun tool_call_requests ::
  "agent_world \<Rightarrow> nat \<Rightarrow> envelope \<Rightarrow> session_state \<Rightarrow> uuid \<Rightarrow> assembled_context \<Rightarrow> model_tool_call list \<Rightarrow>
   tool_call_request list agent_op" where
  "tool_call_requests w i e s turn cx [] = return_op []"
| "tool_call_requests w i e s turn cx (c # cs) =
     then_op (tool_call_request_op w i e s turn cx c) (\<lambda>rq.
     then_op (tool_call_requests w (Suc i) e s turn cx cs) (\<lambda>rqs. return_op (rq # rqs)))"

definition turn_result_of :: "session_state \<Rightarrow> uuid \<Rightarrow> assembled_context \<Rightarrow> string \<Rightarrow> model_response \<Rightarrow> turn_result" where
  "turn_result_of s turn cx output_ref r =
     \<lparr>tr_turn_id = turn, tr_response_id = Some (mr_response_id r), tr_previous_response_id = ss_latest_response_id s,
      tr_input_ref = Some (cx_input_ref cx), tr_output_ref = Some output_ref, tr_usage = mr_usage r\<rparr>"

definition update_status_op :: "agent_world \<Rightarrow> session_state \<Rightarrow> string \<Rightarrow> unit agent_op" where
  "update_status_op w s status = commit w (\<lambda>d. update_session_status d (ss_agent_id s) status)"

definition response_items :: "model_response \<Rightarrow> payload list" where
  "response_items r = (case mr_output_items r of None \<Rightarrow> [] | Some is \<Rightarrow> is)"

definition handle_tool_calls ::
  "agent_world \<Rightarrow> envelope \<Rightarrow> session_state \<Rightarrow> uuid \<Rightarrow> assembled_context \<Rightarrow> string \<Rightarrow> model_response \<Rightarrow> unit agent_op" where
  "handle_tool_calls w e s turn cx output_ref r =
     then_op (tool_call_requests w 0 e s turn cx (mr_tool_calls r)) (\<lambda>rqs.
     then_op (access w (\<lambda>d st. map_sum AHandler id (complete_turn_with_tool_calls d (turn_result_of s turn cx output_ref r)
         (mr_response_id r) (ss_agent_id s) rqs (ss_analysis_id s) (ss_agent_id s) (response_items r)
         (agent_message_payloads_from_response r) st))) (\<lambda>_.
       update_status_op w s ''waiting_tool''))"

section \<open>A turn\<close>

definition model_request_of ::
  "agent_config \<Rightarrow> session_state \<Rightarrow> assembled_context \<Rightarrow> int \<Rightarrow> bool \<Rightarrow> payload" where
  "model_request_of cfg s cx threshold use_previous_response_id =
     (let summary = py_strip (py_str (py_or (runtime_get s ''reasoning_summary'' (openai_setting cfg oc_reasoning_summary)) (JStr [])));
          reasoning = [(''effort'', runtime_get s ''reasoning_effort'' (openai_setting cfg oc_reasoning_effort))] @
            (if summary \<noteq> [] \<and> py_lower summary \<noteq> ''none'' then [(''summary'', JStr summary)] else []);
          management = context_management threshold
      in apply_prompt_cache_controls cfg s
           [(''model'', JStr (ss_effective_model s)), (''instructions'', JStr (cx_instructions cx)),
            (''input'', JList (map JObj (cx_input cx))), (''tools'', JList (cx_tool_schema cx)),
            (''parallel_tool_calls'', JBool (truthy (runtime_get s ''parallel_tool_calls'' (JBool False)))),
            (''reasoning'', JObj reasoning),
            (''service_tier'', runtime_get s ''service_tier'' (openai_setting cfg oc_service_tier))] @
         (if management \<noteq> [] then [(''context_management'', JList management)] else []) @
         (if cx_include cx \<noteq> [] then [(''include'', JList (cx_include cx))] else []) @
         (case cx_tool_choice cx of None \<Rightarrow> [] | Some c \<Rightarrow> [(''tool_choice'', c)]) @
         (if use_previous_response_id then [(''previous_response_id'', json_opt_str (ss_latest_response_id s))] else []))"

definition attempt_failed_payload :: "uuid \<Rightarrow> envelope \<Rightarrow> model_exception \<Rightarrow> payload" where
  "attempt_failed_payload turn e x =
     [(''turn_id'', JStr (uuid_str turn)), (''attempt'', attempt e), (''error_code'', JStr (me_type x)),
      (''message'', JStr (safe_error_message x)), (''retryable'', JBool True), (''supersedes_stream_deltas'', JBool True)]"

text \<open>The \<^verbatim>\<open>except\<close> clauses around the call; \<^verbatim>\<open>event.attempt < retries\<close> raises on an attempt that is no number.\<close>

definition handle_model_exception ::
  "agent_world \<Rightarrow> agent_config \<Rightarrow> envelope \<Rightarrow> session_state \<Rightarrow> uuid \<Rightarrow> model_exception \<Rightarrow> unit agent_op" where
  "handle_model_exception w cfg e s turn x =
     (if me_type x = ''CancelledModelStreamError'' then return_op ()
      else if is_retryable_model_exception x
      then (case attempt_number (attempt e) of
              None \<Rightarrow> raise_op ATypeError
            | Some n \<Rightarrow>
                if n < model_retry_attempts cfg
                then then_op (stream_event_op w s ''attempt_failed'' (attempt_failed_payload turn e x) (Some turn) (Some n) None
                       (Some ''failed'')) (\<lambda>_. raise_op (AModel x))
                else fail_model_call w e s turn x)
      else fail_model_call w e s turn x)"

definition finish_with_answer ::
  "agent_world \<Rightarrow> envelope \<Rightarrow> session_state \<Rightarrow> uuid \<Rightarrow> assembled_context \<Rightarrow> string \<Rightarrow> model_response \<Rightarrow> unit agent_op" where
  "finish_with_answer w e s turn cx output_ref r =
     then_op (gets_op ag_accesses) (\<lambda>k.
     then_op (access w (\<lambda>d st. Inr (complete_turn_with_final_answer d (turn_result_of s turn cx output_ref r) (mr_response_id r)
         (ss_agent_id s) (ss_analysis_id s) (ss_agent_id s) (mr_output_text r)
         [(''status'', JStr ''completed''), (''response_id'', JStr (mr_response_id r)), (''output_ref'', JStr output_ref)]
         (fresh_event w k 0 e s ANALYSIS_COMPLETED
            [(''response_id'', JStr (mr_response_id r)), (''output_ref'', JStr output_ref)])
         (response_items r) (agent_message_payloads_from_response r) None st))) (\<lambda>_. return_op ()))"

definition handle_model_response ::
  "agent_world \<Rightarrow> envelope \<Rightarrow> session_state \<Rightarrow> uuid \<Rightarrow> assembled_context \<Rightarrow> model_response \<Rightarrow> unit agent_op" where
  "handle_model_response w e s0 turn cx r =
     then_op (look w (get_session (ss_agent_id s0))) (\<lambda>refreshed.
       case refreshed of
         None \<Rightarrow> return_op ()
       | Some s \<Rightarrow>
           if terminal (ss_status s) \<or> ss_status s = ''cancelling'' then return_op ()
           else then_op (store_model_output s turn r) (\<lambda>output_ref.
             if mr_tool_calls r \<noteq> []
             then then_op (lift_op (limit_of s ''max_tool_calls'')) (\<lambda>max_tool_calls.
                  then_op (if max_tool_calls > 0 then look w (count_tool_calls (ss_agent_id s)) else return_op 0) (\<lambda>current.
                    if max_tool_calls > 0 \<and> current + int (length (mr_tool_calls r)) > max_tool_calls
                    then fail_max_tool_calls_exceeded w e s max_tool_calls
                    else handle_tool_calls w e s turn cx output_ref r))
             else finish_with_answer w e s turn cx output_ref r))"

definition uses_previous_response :: "agent_config \<Rightarrow> session_state \<Rightarrow> bool" where
  "uses_previous_response cfg s =
     (truthy (runtime_get s ''use_previous_response_id'' (JBool (oc_use_previous_response_id (ap_openai (ac_app cfg))))) \<and>
      ss_latest_response_id s \<notin> {None, Some []})"

definition shows_summary :: "agent_config \<Rightarrow> session_state \<Rightarrow> bool" where
  "shows_summary cfg s =
     truthy (runtime_get s ''show_reasoning_summary'' (JBool (oc_show_reasoning_summary (ap_openai (ac_app cfg)))))"

definition call_model ::
  "agent_world \<Rightarrow> agent_config \<Rightarrow> envelope \<Rightarrow> session_state \<Rightarrow> uuid \<Rightarrow> assembled_context \<Rightarrow> bool \<Rightarrow> unit agent_op" where
  "call_model w cfg e s turn cx use_previous_response_id =
     then_op (lift_op (limit_of s ''auto_compact_threshold_tokens'')) (\<lambda>threshold.
     then_op (create_response_with_optional_context_management w
         (on_raw_sse_event w s turn e (shows_summary cfg s))
         (model_request_of cfg s cx threshold use_previous_response_id) ([], False)) (\<lambda>result.
       case result of
         Inl x \<Rightarrow> handle_model_exception w cfg e s turn x
       | Inr r \<Rightarrow> handle_model_response w e s turn cx r))"

definition run_model_turn ::
  "agent_world \<Rightarrow> agent_config \<Rightarrow> envelope \<Rightarrow> session_state \<Rightarrow> uuid \<Rightarrow> ready_output list option \<Rightarrow> unit agent_op" where
  "run_model_turn w cfg e s turn ready =
     (let previous = uses_previous_response cfg s
      in then_op (tool_output_items w e previous ready) (\<lambda>extra.
         then_op (assemble w s turn extra None (\<not> previous) (\<not> previous) True) (\<lambda>cx.
         then_op (if previous then assemble w s turn extra None True True False else return_op cx) (\<lambda>compaction_cx.
         then_op (compact_if_needed w cfg e s turn compaction_cx) (\<lambda>c.
           case cd_strategy c of
             None \<Rightarrow> call_model w cfg e s turn cx previous
           | Some strategy \<Rightarrow>
               if strategy = ''failed'' then return_op ()
               else then_op (assemble w s turn [] (Some (case cd_replacement_input c of
                        Some (i # is) \<Rightarrow> i # is
                      | _ \<Rightarrow> (case cd_remote_output c of None \<Rightarrow> [] | Some os \<Rightarrow> os))) False True True) (\<lambda>cx'.
                    call_model w cfg e s turn cx' False))))))"

section \<open>Events\<close>

definition turn_for_trigger :: "agent_world \<Rightarrow> uuid \<Rightarrow> uuid \<Rightarrow> string option \<Rightarrow> (uuid \<times> string) option agent_op" where
  "turn_for_trigger w g ev key =
     then_op (look w (get_turn_for_event g ev)) (\<lambda>by_event.
       case by_event of
         Some t \<Rightarrow> return_op (Some t)
       | None \<Rightarrow>
           then_op (case key of
               Some k \<Rightarrow> (if k \<noteq> [] then look w (get_turn_for_domain_key g k) else return_op None)
             | None \<Rightarrow> return_op None) (\<lambda>by_key.
             case by_key of
               Some t \<Rightarrow> return_op (Some t)
             | None \<Rightarrow> then_op (look w (has_turn_for_event g ev)) (\<lambda>found.
                 return_op (if found then Some (ev, ''completed'') else None))))"

definition recovered_payload :: "tool_call_row \<Rightarrow> payload \<Rightarrow> payload" where
  "recovered_payload c ids =
     (''tool_call_id'', JStr (uuid_str (tc_id c))) # ids @
     [(''tool_name'', JStr (tc_tool_name c)), (''arguments'', JObj (object_fields (tc_arguments c))), (''recovered'', JBool True)]"

definition recover_incomplete_turn :: "agent_world \<Rightarrow> envelope \<Rightarrow> session_state \<Rightarrow> uuid \<Rightarrow> bool agent_op" where
  "recover_incomplete_turn w e s turn =
     then_op (look w (get_pending_tool_call_for_turn turn)) (\<lambda>pending.
       case pending of
         None \<Rightarrow> return_op False
       | Some c \<Rightarrow>
           then_op (stream_event_op w s ''tool_call'' (recovered_payload c []) (Some turn) None None (Some ''completed'')) (\<lambda>_.
           then_op (outbox_op w e (s\<lparr>ss_snapshot_id := Some (tc_snapshot_id c)\<rparr>) TOOL_CALL_REQUESTED
               (recovered_payload c [(''openai_call_id'', JStr (tc_openai_call_id c))])) (\<lambda>_.
           then_op (update_status_op w s ''waiting_tool'') (\<lambda>_. return_op True))))"

definition resume_turn :: "agent_world \<Rightarrow> agent_config \<Rightarrow> envelope \<Rightarrow> session_state \<Rightarrow> uuid \<Rightarrow> string \<Rightarrow> unit agent_op" where
  "resume_turn w cfg e s turn status =
     (if status = ''completed'' then return_op ()
      else then_op (recover_incomplete_turn w e s turn) (\<lambda>recovered.
        if recovered then return_op ()
        else if is_retryable_model_turn status then run_model_turn w cfg e s turn None
        else fail_unrecoverable_turn_replay w e s turn))"

definition start_turn_op :: "agent_world \<Rightarrow> envelope \<Rightarrow> session_state \<Rightarrow> uuid agent_op" where
  "start_turn_op w e s =
     access w (\<lambda>d st. case start_turn d s (Some (event_id e)) (trigger_domain_key e) st of
         None \<Rightarrow> Inl AUniqueViolation
       | Some (st', t) \<Rightarrow> Inr (st', t))"

definition begin_turn ::
  "agent_world \<Rightarrow> agent_config \<Rightarrow> envelope \<Rightarrow> session_state \<Rightarrow> ready_output list option \<Rightarrow> unit agent_op" where
  "begin_turn w cfg e s ready =
     then_op (update_status_op w s ''calling_model'') (\<lambda>_.
     then_op (stream_event_op w s ''status'' [(''status'', JStr ''calling_model'')] None None None None) (\<lambda>_.
     then_op (start_turn_op w e s) (\<lambda>turn. run_model_turn w cfg e s turn ready)))"

definition new_turn :: "agent_world \<Rightarrow> agent_config \<Rightarrow> envelope \<Rightarrow> session_state \<Rightarrow> unit agent_op" where
  "new_turn w cfg e s =
     (if ss_snapshot_id s = None then raise_op (AHandler (HValueError ''Agent session has no snapshot''))
      else if ss_turn_count s \<ge> ss_max_turns s then fail_max_turns_exceeded w e s
      else then_op (lift_op (limit_of s ''max_tool_calls'')) (\<lambda>max_tool_calls.
           then_op (if max_tool_calls > 0 then look w (count_tool_calls (ss_agent_id s)) else return_op 0) (\<lambda>current.
             if max_tool_calls > 0 \<and> current \<ge> max_tool_calls then fail_max_tool_calls_exceeded w e s max_tool_calls
             else if is_terminal_tool_event e
             then then_op (ready_tool_outputs w e) (\<lambda>ready.
                    if ready = None then return_op () else begin_turn w cfg e s ready)
             else begin_turn w cfg e s None)))"

definition run_turn :: "agent_world \<Rightarrow> agent_config \<Rightarrow> envelope \<Rightarrow> unit agent_op" where
  "run_turn w cfg e =
     (case (analysis_id e, agent_id e) of
        (Some a, Some g) \<Rightarrow>
          then_op (look w (get_session g)) (\<lambda>found.
            case found of
              None \<Rightarrow> raise_op (AHandler (HValueError ''Agent session not found''))
            | Some s \<Rightarrow>
                if terminal (ss_status s) then return_op ()
                else if ss_status s = ''waiting_tool'' \<and> \<not> is_terminal_tool_event e then return_op ()
                else then_op (turn_for_trigger w (ss_agent_id s) (event_id e) (trigger_domain_key e)) (\<lambda>existing.
                  case existing of
                    Some (turn, status) \<Rightarrow> resume_turn w cfg e s turn status
                  | None \<Rightarrow> new_turn w cfg e
                      (if ss_snapshot_id s = None \<and> snapshot_id e \<noteq> None then s\<lparr>ss_snapshot_id := snapshot_id e\<rparr> else s)))
      | _ \<Rightarrow> raise_op (AHandler (HValueError ''Agent event requires analysis_id and agent_id'')))"

definition agent_call :: "agent_world \<Rightarrow> agent_config \<Rightarrow> envelope \<Rightarrow> unit agent_op" where
  "agent_call w cfg e =
     (if event_type e \<in> {SNAPSHOT_READY, AGENT_CONTINUE_REQUESTED, TOOL_CALL_COMPLETED, TOOL_CALL_FAILED, TOOL_CALL_DENIED}
      then run_turn w cfg e
      else if event_type e = ANALYSIS_CANCEL_REQUESTED
      then (case (analysis_id e, agent_id e) of
              (Some a, Some g) \<Rightarrow> commit w (\<lambda>d. add_stream_event d 0 a g ''status'' (JObj [(''status'', JStr ''cancelled'')])
                 None None None None None)
            | _ \<Rightarrow> return_op ())
      else raise_op (AHandler (HValueError (''Unsupported agent event: '' @ type_value (event_type e)))))"

section \<open>Relations kept by operations\<close>

lemma request_events:
  "tool_call_requests w i e s turn cx cs st = (Inr rqs, st') \<Longrightarrow>
   length rqs = length cs \<and> list_all (\<lambda>rq. event_type (rq_event rq) \<noteq> ANALYSIS_REQUESTED \<and> tk_agent_id (rq_kwargs rq) = ss_agent_id s) rqs"
proof (induction cs arbitrary: i rqs st)
  case (Cons c cs)
  then obtain rq rqs' st1 where "tool_call_request_op w i e s turn cx c st = (Inr rq, st1)" "rqs = rq # rqs'"
    "tool_call_requests w (Suc i) e s turn cx cs st1 = (Inr rqs', st')" by (auto simp: op_simps)
  with Cons.IH show ?case
    by (auto simp: tool_call_request_op_def op_simps queued_request_def reused_request_def fresh_event_def envelope_new_def
      tool_call_kwargs_of_def Let_def raise_op_def split: option.splits)
qed (simp add: op_simps)

lemma emit_step: "ty \<noteq> ANALYSIS_REQUESTED \<Longrightarrow> pipeline_step st (emit d k ty a g sn co ca pl st)"
  using agent_event_step [of "envelope_new (new_id d (k + 1)) (new_id d k) (now_iso d) ty a g sn co ca (Some pl)" st d "k + 2"]
  by (simp add: add_outbox_def emit_def envelope_new_def)

text \<open>
  A relation between the states before and after an operation that is reflexive and transitive is kept by a whole
  handler as soon as its accesses, its requests to the model and its writes to the object store keep it.
\<close>

definition keeps :: "(agent_state \<Rightarrow> agent_state \<Rightarrow> bool) \<Rightarrow> 'a agent_op \<Rightarrow> bool" where
  "keeps rel m = (\<forall>s. rel s (snd (m s)))"

locale op_relation =
  fixes rel :: "agent_state \<Rightarrow> agent_state \<Rightarrow> bool"
  assumes rel_refl: "rel s s"
    and rel_trans: "rel s t \<Longrightarrow> rel t u \<Longrightarrow> rel s u"
begin

lemma keeps_pure: "keeps rel (return_op x)" "keeps rel (raise_op e)" "keeps rel (lift_op r)" "keeps rel (gets_op f)"
  by (simp_all add: keeps_def return_op_def raise_op_def lift_op_def gets_op_def rel_refl)

lemma keeps_then_result:
  assumes "keeps rel m" "\<And>s x s'. m s = (Inr x, s') \<Longrightarrow> keeps rel (k x)"
  shows "keeps rel (then_op m k)"
  unfolding keeps_def
proof
  fix s
  obtain r s1 where r: "m s = (r, s1)" by (cases "m s")
  with assms(1) have "rel s s1" by (metis keeps_def snd_conv)
  then show "rel s (snd (then_op m k s))" using r assms(2) rel_trans
    by (cases r) (auto simp: then_op_def keeps_def)
qed

lemma keeps_then: "keeps rel m \<Longrightarrow> (\<And>x. keeps rel (k x)) \<Longrightarrow> keeps rel (then_op m k)"
  by (rule keeps_then_result)

lemma keeps_if: "(b \<Longrightarrow> keeps rel m) \<Longrightarrow> (\<not> b \<Longrightarrow> keeps rel n) \<Longrightarrow> keeps rel (if b then m else n)"
  by simp

lemma keeps_option:
  "(x = None \<Longrightarrow> keeps rel m) \<Longrightarrow> (\<And>y. x = Some y \<Longrightarrow> keeps rel (f y)) \<Longrightarrow> keeps rel (case x of None \<Rightarrow> m | Some y \<Rightarrow> f y)"
  by (cases x) simp_all

lemma keeps_sum:
  "(\<And>y. x = Inl y \<Longrightarrow> keeps rel (f y)) \<Longrightarrow> (\<And>y. x = Inr y \<Longrightarrow> keeps rel (g y)) \<Longrightarrow>
   keeps rel (case x of Inl y \<Rightarrow> f y | Inr y \<Rightarrow> g y)"
  by (cases x) simp_all

lemma keeps_prod: "(\<And>a b. p = (a, b) \<Longrightarrow> keeps rel (f a b)) \<Longrightarrow> keeps rel (case p of (a, b) \<Rightarrow> f a b)"
  by (cases p) simp

lemma keeps_callback: "(\<And>c ev. keeps rel (f c ev)) \<Longrightarrow> keeps rel (run_callback f evs c)"
  by (induction evs arbitrary: c) (simp_all add: keeps_pure keeps_then)

end

text \<open>The world: what others commit, the requests to the model and the writes to the object store keep the relation.\<close>

locale access_relation = op_relation rel for rel :: "agent_state \<Rightarrow> agent_state \<Rightarrow> bool" +
  fixes w :: agent_world
  assumes others: "rel s (s\<lparr>ag_db := aw_others w (ag_accesses s) (ag_db s), ag_accesses := Suc (ag_accesses s)\<rparr>)"
    and requested: "rel s (s\<lparr>ag_requests := ag_requests s @ [r]\<rparr>)"
    and stored: "rel s (s\<lparr>ag_store := put_bytes (ag_store s) key data ct\<rparr>)"
begin

lemma keeps_access:
  assumes "\<And>s d st' x. f d (ag_db s) = Inr (st', x) \<Longrightarrow> rel s (s\<lparr>ag_db := st'\<rparr>)"
  shows "keeps rel (access w f)"
  unfolding keeps_def
proof
  fix s :: agent_state
  let ?k = "ag_accesses s"
  let ?s1 = "s\<lparr>ag_db := aw_others w ?k (ag_db s), ag_accesses := Suc ?k\<rparr>"
  show "rel s (snd (access w f s))"
  proof (cases "f (aw_draws w ?k) (ag_db ?s1)")
    case (Inl e)
    then show ?thesis using others [of s] by (simp add: access_def Let_def)
  next
    case (Inr p)
    then obtain st' x where p: "f (aw_draws w ?k) (ag_db ?s1) = Inr (st', x)" by (cases p) auto
    from assms [OF p] have "rel s (?s1\<lparr>ag_db := st'\<rparr>)" using others [of s] rel_trans by blast
    with p show ?thesis by (simp add: access_def Let_def)
  qed
qed

lemma keeps_look: "keeps rel (look w f)"
  unfolding look_def by (rule keeps_access) (auto simp: rel_refl)

lemma keeps_commit: "(\<And>d s. rel s (s\<lparr>ag_db := f d (ag_db s)\<rparr>)) \<Longrightarrow> keeps rel (commit w f)"
  unfolding commit_def by (rule keeps_access) auto

lemma keeps_effects: "keeps rel (note_request r)" "keeps rel (put_object key v ct)"
  by (simp_all add: keeps_def note_request_def put_object_def requested stored)

lemmas keeps_rules = keeps_pure keeps_then keeps_if keeps_option keeps_sum keeps_prod keeps_callback keeps_look keeps_effects

lemma keeps_request_input: "keeps rel (request_input w s extra override hist base)"
  unfolding request_input_def load_context_items_def instruction_context_def local_history_context_items_def Let_def
  by (intro keeps_rules)

lemma keeps_create_response: "(\<And>c ev. keeps rel (f c ev)) \<Longrightarrow> keeps rel (create_response w f request c)"
  unfolding create_response_def by (intro keeps_rules)

lemma keeps_create_with_management:
  "(\<And>c ev. keeps rel (f c ev)) \<Longrightarrow> keeps rel (create_response_with_optional_context_management w f request c)"
  unfolding create_response_with_optional_context_management_def by (intro keeps_rules keeps_create_response)

lemma keeps_ready_outputs: "keeps rel (ready_tool_outputs w e)"
  unfolding ready_tool_outputs_def Let_def by (intro keeps_rules)

lemma keeps_output_items: "keeps rel (tool_output_items w e prev ready)"
  unfolding tool_output_items_def by (intro keeps_rules keeps_ready_outputs)

lemma keeps_requests: "keeps rel (tool_call_requests w i e s turn cx cs)"
  by (induction cs arbitrary: i) (auto simp: tool_call_request_op_def intro!: keeps_rules)

lemma keeps_turn_for_trigger: "keeps rel (turn_for_trigger w g ev key)"
  unfolding turn_for_trigger_def by (intro keeps_rules)

lemma keeps_store_output: "keeps rel (store_model_output s turn r)"
  unfolding store_model_output_def by (intro keeps_rules)

end

text \<open>Transactions that only add to the stream, the outbox and the records of contexts.\<close>

inductive bookkeeping_step :: "db \<Rightarrow> db \<Rightarrow> bool" where
  stream: "bookkeeping_step st (add_stream_event d k a g ty pl turn att resp state key st)"
| outbox: "ty \<noteq> ANALYSIS_REQUESTED \<Longrightarrow> bookkeeping_step st (emit d k ty a g sn co ca pl st)"
| window: "bookkeeping_step st (save_compacted_context_window d g t n c outs usage strategy st)"
| assembly: "bookkeeping_step st (save_context_assembly d g t cs refs inp ih th tokens st)"

locale bookkeeping_relation = access_relation +
  assumes bookkeeping: "bookkeeping_step (ag_db s) st \<Longrightarrow> rel s (s\<lparr>ag_db := st\<rparr>)"
begin

lemma keeps_assemble: "keeps rel (assemble w s turn extra override hist base persist)"
  unfolding assemble_def persist_assembly_def Let_def
  by (intro keeps_rules keeps_request_input keeps_commit bookkeeping assembly)

lemma keeps_stream: "keeps rel (stream_event_op w s ty pl turn att resp state)"
  unfolding stream_event_op_def by (intro keeps_commit bookkeeping stream)

lemma keeps_outbox: "ty \<noteq> ANALYSIS_REQUESTED \<Longrightarrow> keeps rel (outbox_op w e s ty pl)"
  unfolding outbox_op_def by (intro keeps_commit bookkeeping outbox)

lemma keeps_report: "keeps rel (report_failure w e s pl turn state)"
  unfolding report_failure_def by (intro keeps_rules keeps_stream keeps_outbox) simp

lemma keeps_summaries: "keeps rel (persist_summaries w s turn e resp pls)"
  by (induction pls) (simp_all add: keeps_pure keeps_then keeps_stream persist_model_reasoning_summary_def)

lemma keeps_on_event: "keeps rel (on_raw_sse_event w s turn e show_summary c ev)"
  unfolding on_raw_sse_event_def Let_def persist_model_reasoning_summary_def
  by (cases c; cases ev; simp only: prod.case; intro keeps_rules keeps_stream keeps_summaries)

lemma keeps_record_compaction: "keeps rel (record_compaction w e s turn n threshold strategy c outs usage)"
  unfolding record_compaction_def Let_def
  by (intro keeps_rules keeps_commit bookkeeping window keeps_stream keeps_outbox) simp

lemma keeps_remote_compact: "keeps rel (try_remote_compact w cfg e s turn cx threshold)"
  unfolding try_remote_compact_def compact_response_def by (intro keeps_rules keeps_record_compaction)

lemma keeps_local_compact: "keeps rel (try_local_model_compact w cfg e s turn cx threshold)"
  unfolding try_local_model_compact_def by (intro keeps_rules keeps_create_response keeps_record_compaction)

end

text \<open>The other transactions of the handler, except those that finish a turn.\<close>

inductive agent_step :: "db \<Rightarrow> db \<Rightarrow> bool" where
  book: "bookkeeping_step st st' \<Longrightarrow> agent_step st st'"
| status: "agent_step st (update_session_status d g status st)"
| failed_turn: "agent_step st (fail_turn d t st)"
| failed_analysis: "agent_step st (fst (fail_analysis d a g code message st))"
| started: "start_turn d s trigger key st = Some (st', t) \<Longrightarrow> agent_step st st'"

locale step_relation = access_relation +
  assumes steps: "agent_step (ag_db s) st \<Longrightarrow> rel s (s\<lparr>ag_db := st\<rparr>)"

sublocale step_relation \<subseteq> bookkeeping_relation
  by unfold_locales (rule steps, erule book)

context step_relation
begin

lemma keeps_fail_analysis: "keeps rel (fail_analysis_op w s code message)"
  unfolding fail_analysis_op_def by (rule keeps_access) (metis failed_analysis fst_conv steps sum.inject(2))

lemma keeps_fail_turn: "keeps rel (commit w (\<lambda>d. fail_turn d t))"
  by (intro keeps_commit steps failed_turn)

lemma keeps_status: "keeps rel (update_status_op w s status)"
  unfolding update_status_op_def by (intro keeps_commit steps status)

lemma keeps_fail_and_report: "keeps rel (fail_and_report w e s code message details turn state)"
  unfolding fail_and_report_def by (intro keeps_rules keeps_fail_analysis keeps_report)

lemma keeps_failures:
  "keeps rel (fail_max_turns_exceeded w e s)" "keeps rel (fail_max_tool_calls_exceeded w e s n)"
  "keeps rel (fail_model_call w e s turn x)" "keeps rel (fail_unrecoverable_turn_replay w e s turn)"
  "keeps rel (fail_context_compaction_unavailable w e s turn tokens threshold)"
  unfolding fail_max_turns_exceeded_def fail_max_tool_calls_exceeded_def fail_model_call_def
    fail_unrecoverable_turn_replay_def fail_context_compaction_unavailable_def Let_def
  by (intro keeps_rules keeps_fail_and_report keeps_fail_turn keeps_fail_analysis keeps_stream keeps_report)+

lemma keeps_compact_if_needed: "keeps rel (compact_if_needed w cfg e s turn cx)"
  unfolding compact_if_needed_def by (intro keeps_rules keeps_remote_compact keeps_local_compact keeps_failures)

lemma keeps_handle_exception: "keeps rel (handle_model_exception w cfg e s turn x)"
  unfolding handle_model_exception_def by (intro keeps_rules keeps_stream keeps_failures)

lemma keeps_recover: "keeps rel (recover_incomplete_turn w e s turn)"
  unfolding recover_incomplete_turn_def by (intro keeps_rules keeps_stream keeps_outbox keeps_status) simp

lemma keeps_start: "keeps rel (start_turn_op w e s)"
  unfolding start_turn_op_def by (intro keeps_access steps) (auto intro: started split: option.splits)

end

locale agent_relation = step_relation +
  assumes responses: "keeps rel (handle_model_response w e s' turn cx r)"
begin

lemma keeps_call_model: "keeps rel (call_model w cfg e s turn cx prev)"
  unfolding call_model_def
  by (intro keeps_rules keeps_create_with_management keeps_on_event keeps_handle_exception responses)

lemma keeps_model_turn: "keeps rel (run_model_turn w cfg e s turn ready)"
  unfolding run_model_turn_def Let_def
  by (intro keeps_rules keeps_output_items keeps_assemble keeps_compact_if_needed keeps_call_model)

lemma keeps_run_turn: "keeps rel (run_turn w cfg e)"
  unfolding run_turn_def resume_turn_def new_turn_def begin_turn_def
  by (intro keeps_rules keeps_turn_for_trigger keeps_recover keeps_model_turn keeps_failures keeps_status keeps_stream
    keeps_start keeps_ready_outputs)

lemma keeps_agent_call: "keeps rel (agent_call w cfg e)"
  unfolding agent_call_def by (intro keeps_rules keeps_run_turn keeps_commit bookkeeping stream)

end

section \<open>The handler and the pipeline\<close>

lemma agent_step_pipeline: "agent_step st st' \<Longrightarrow> pipeline_step st st'"
  by (induction rule: agent_step.induct)
    (auto elim!: bookkeeping_step.cases intro: stream_event_step emit_step context_window_step assembly_step
      session_status_step fail_turn_step fail_analysis_step start_turn_step)

definition others_follow_pipeline :: "agent_world \<Rightarrow> bool" where
  "others_follow_pipeline w = (\<forall>k st. pipeline_step\<^sup>*\<^sup>* st (aw_others w k st))"

definition agent_run :: "agent_world \<Rightarrow> agent_state \<Rightarrow> agent_state \<Rightarrow> bool" where
  "agent_run w s s' = (others_follow_pipeline w \<longrightarrow> pipeline_step\<^sup>*\<^sup>* (ag_db s) (ag_db s'))"

lemma agent_run_step: "pipeline_step (ag_db s) st \<Longrightarrow> agent_run w s (s\<lparr>ag_db := st\<rparr>)"
  by (auto simp: agent_run_def)

interpretation agent_steps: step_relation "agent_run w" w for w
  by unfold_locales (auto simp: agent_run_def others_follow_pipeline_def dest: agent_step_pipeline)

lemma tool_calls_run: "keeps (agent_run w) (handle_tool_calls w e s turn cx oref r)"
proof -
  have complete: "keeps (agent_run w) (access w (\<lambda>d st. map_sum AHandler id (complete_turn_with_tool_calls d (turn_result_of s turn cx oref r)
      (mr_response_id r) (ss_agent_id s) rqs (ss_analysis_id s) (ss_agent_id s) (response_items r)
      (agent_message_payloads_from_response r) st)))"
    if "list_all (\<lambda>rq. event_type (rq_event rq) \<noteq> ANALYSIS_REQUESTED) rqs" for rqs
    using that by (intro agent_steps.keeps_access agent_run_step)
      (auto simp: map_sum_def intro: tool_calls_step split: sum.splits)
  show ?thesis unfolding handle_tool_calls_def
    by (rule agent_steps.keeps_then_result [OF agent_steps.keeps_requests])
      (auto dest!: request_events simp: list_all_iff intro!: agent_steps.keeps_then agent_steps.keeps_status complete)
qed

lemma answer_run: "keeps (agent_run w) (finish_with_answer w e s turn cx oref r)"
  unfolding finish_with_answer_def
  by (intro agent_steps.keeps_rules agent_steps.keeps_access agent_run_step) (auto dest!: arg_cong [of _ _ fst]
    intro!: final_answer_step simp: fresh_event_def envelope_new_def Let_def)

lemma response_run: "keeps (agent_run w) (handle_model_response w e s turn cx r)"
  unfolding handle_model_response_def
  by (intro agent_steps.keeps_rules agent_steps.keeps_store_output agent_steps.keeps_failures tool_calls_run answer_run)

interpretation agent_pipeline: agent_relation "agent_run w" w for w
  by unfold_locales (rule response_run)

text \<open>
  The agent handler as a whole refines the pipeline: whatever event it handles, whatever the model answers or raises
  and whatever the other processes commit between its transactions, the database moves by steps of the pipeline, so
  that every invariant of reachable states (batch counters, one request for each item, numbering of the stream) holds after
  it. The state it leaves behind when it raises is included.
\<close>

theorem agent_call_refines_pipeline:
  assumes "others_follow_pipeline w" "pipeline_reachable (ag_db s)"
  shows "pipeline_step\<^sup>*\<^sup>* (ag_db s) (ag_db (snd (agent_call w cfg e s))) \<and>
    batches_ok (ag_db (snd (agent_call w cfg e s))) \<and> dispatched_once (ag_db (snd (agent_call w cfg e s))) \<and>
    streams_ok (ag_db (snd (agent_call w cfg e s)))"
proof -
  have run: "pipeline_step\<^sup>*\<^sup>* (ag_db s) (ag_db (snd (agent_call w cfg e s)))"
    using agent_pipeline.keeps_agent_call [of w cfg e] assms(1) by (auto simp: keeps_def agent_run_def)
  have "pipeline_reachable (ag_db (snd (agent_call w cfg e s)))"
    using run assms(2) by (induction rule: rtranclp_induct) (auto intro: pipeline_reachable.step)
  with run show ?thesis using reachable_batches reachable_streams by blast
qed

section \<open>A sample\<close>

definition sample_agent_config :: agent_config where
  "sample_agent_config = \<lparr>ac_app = default_config, ac_retry_attempts = 3\<rparr>"

definition submitted_state :: agent_state where
  "submitted_state = \<lparr>ag_db = submitted_db, ag_accesses = 0, ag_store = empty_store, ag_requests = []\<rparr>"

theorem agent_call_refines_pipeline_witness:
  "pipeline_reachable submitted_db \<and>
   batches_ok (ag_db (snd (agent_call sample_world sample_agent_config sample_event submitted_state)))"
  using agent_call_refines_pipeline [of sample_world submitted_state sample_agent_config sample_event] submitted_reachable
  by (simp add: others_follow_pipeline_def sample_world_def submitted_state_def)

end
