(* ===== verification/Agent_Loop.thy ===== *)
theory Agent_Loop
  imports Agent_Handler
begin

text \<open>
  What the agent loop guarantees: the number of tool calls of an agent never exceeds its limit, the model is asked only
  for a session and a turn that may go on, and every tool call in a request that replays the history has its output.
\<close>

section \<open>Which tables the transactions of a turn change\<close>

lemma context_tables_frame [frame_simps]:
  "agent_sessions (append_model_output_items d n g tu resp items st) = agent_sessions st"
  "agent_turns (append_model_output_items d n g tu resp items st) = agent_turns st"
  "tool_calls (append_model_output_items d n g tu resp items st) = tool_calls st"
  by (induction d n g tu resp items st rule: append_model_output_items.induct) (simp_all add: frame_simps)

lemma message_tables_frame [frame_simps]:
  "agent_sessions (add_agent_message_stream_events d n a g tu resp pls st) = agent_sessions st"
  "agent_turns (add_agent_message_stream_events d n a g tu resp pls st) = agent_turns st"
  "tool_calls (add_agent_message_stream_events d n a g tu resp pls st) = tool_calls st"
  by (induction d n a g tu resp pls st rule: add_agent_message_stream_events.induct) (simp_all add: frame_simps)

lemma function_call_tables_frame [frame_simps]:
  "agent_sessions (append_function_calls d n g tu resp rqs st) = agent_sessions st"
  "agent_turns (append_function_calls d n g tu resp rqs st) = agent_turns st"
  "tool_calls (append_function_calls d n g tu resp rqs st) = tool_calls st"
  by (induction d n g tu resp rqs st rule: append_function_calls.induct) (simp_all add: frame_simps append_function_call_def)

lemma create_call_tables_frame [frame_simps]:
  "agent_sessions (fst (create_tool_call d k kw st)) = agent_sessions st"
  "agent_turns (fst (create_tool_call d k kw st)) = agent_turns st"
  by (simp_all add: create_tool_call_def split: option.splits)

lemma create_calls_tables_frame [frame_simps]:
  "agent_sessions (fst (create_tool_calls d n rqs st)) = agent_sessions st"
  "agent_turns (fst (create_tool_calls d n rqs st)) = agent_turns st"
  by (induction rqs arbitrary: n st) (simp_all add: Let_def case_prod_beta frame_simps)

lemma turn_output_tables_frame [frame_simps]:
  "agent_turns (add_outbox d k e st) = agent_turns st"
  "agent_sessions (append_completed_output d k g tu kw st) = agent_sessions st"
  "agent_turns (append_completed_output d k g tu kw st) = agent_turns st"
  "tool_calls (append_completed_output d k g tu kw st) = tool_calls st"
  by (simp_all add: append_completed_output_def add_outbox_def frame_simps split: option.splits)

lemma publish_tables_frame [frame_simps]:
  "agent_sessions (publish_tool_calls d n a g tu resp rqs st) = agent_sessions st"
  "agent_turns (publish_tool_calls d n a g tu resp rqs st) = agent_turns st"
  "tool_calls (publish_tool_calls d n a g tu resp rqs st) = tool_calls st"
  by (induction d n a g tu resp rqs st rule: publish_tool_calls.induct) (simp_all add: frame_simps)

lemma turn_update_tables_frame [frame_simps]:
  "agent_sessions (complete_turn d r st) = agent_sessions st"
  "tool_calls (complete_turn d r st) = tool_calls st"
  "agent_turns (update_latest_response d g resp st) = agent_turns st"
  "tool_calls (update_latest_response d g resp st) = tool_calls st"
  "agent_sessions (mark_repository_index_completed d a st) = agent_sessions st"
  "agent_turns (mark_repository_index_completed d a st) = agent_turns st"
  "tool_calls (mark_repository_index_completed d a st) = tool_calls st"
  "agent_sessions (mark_repository_index_failed d a st) = agent_sessions st"
  "agent_turns (mark_repository_index_failed d a st) = agent_turns st"
  "tool_calls (mark_repository_index_failed d a st) = tool_calls st"
  "agent_turns (fst (close_analysis d status mark a g st)) = agent_turns st"
  "tool_calls (fst (close_analysis d status mark a g st)) = tool_calls st"
  "agent_turns (update_session_status d g status st) = agent_turns st"
  "analyses (update_session_status d g status st) = analyses st"
  "tool_calls (update_session_status d g status st) = tool_calls st"
  by (simp_all add: complete_turn_def update_latest_response_def mark_repository_index_completed_def
    mark_repository_index_failed_def close_analysis_def update_session_status_def Let_def split: list.splits)

section \<open>The limit on tool calls\<close>

definition session_limit :: "uuid \<Rightarrow> int \<Rightarrow> db \<Rightarrow> bool" where
  "session_limit g m st = list_all (\<lambda>r. as_id r = g \<longrightarrow>
     py_int (py_or (obj_get (object_fields (as_effective_limits r)) ''max_tool_calls'') (JInt 0)) = Inr m) (agent_sessions st)"

definition within_budget :: "uuid \<Rightarrow> int \<Rightarrow> db \<Rightarrow> bool" where
  "within_budget g m st = (session_limit g m st \<and> count_tool_calls g st \<le> m)"

text \<open>Other processes neither create calls for this agent nor change its limits.\<close>

definition others_spare :: "agent_world \<Rightarrow> uuid \<Rightarrow> int \<Rightarrow> bool" where
  "others_spare w g m = (\<forall>k st. count_tool_calls g (aw_others w k st) = count_tool_calls g st \<and>
     (session_limit g m st \<longrightarrow> session_limit g m (aw_others w k st)))"

definition same_calls :: "agent_world \<Rightarrow> uuid \<Rightarrow> int \<Rightarrow> agent_state \<Rightarrow> agent_state \<Rightarrow> bool" where
  "same_calls w g m s s' = (others_spare w g m \<longrightarrow> session_limit g m (ag_db s) \<longrightarrow>
     session_limit g m (ag_db s') \<and> count_tool_calls g (ag_db s') = count_tool_calls g (ag_db s))"

lemma session_limit_cong:
  assumes "map (\<lambda>r. (as_id r, as_effective_limits r)) (agent_sessions st') = map (\<lambda>r. (as_id r, as_effective_limits r)) (agent_sessions st)"
  shows "session_limit g m st' = session_limit g m st"
proof -
  let ?q = "\<lambda>p. fst p = g \<longrightarrow> py_int (py_or (obj_get (object_fields (snd p)) ''max_tool_calls'') (JInt 0)) = Inr m"
  have "session_limit g m x = list_all ?q (map (\<lambda>r. (as_id r, as_effective_limits r)) (agent_sessions x))" for x
    by (simp add: session_limit_def list.pred_map comp_def)
  then show ?thesis using assms by simp
qed

lemma same_calls_tables:
  assumes "tool_calls st = tool_calls (ag_db s)"
    "map (\<lambda>r. (as_id r, as_effective_limits r)) (agent_sessions st) = map (\<lambda>r. (as_id r, as_effective_limits r)) (agent_sessions (ag_db s))"
  shows "same_calls w g m s (s\<lparr>ag_db := st\<rparr>)"
  using assms(1) session_limit_cong [OF assms(2), of g m] by (simp add: same_calls_def count_tool_calls_def)

lemma agent_step_tables:
  assumes "agent_step st st'"
  shows "tool_calls st' = tool_calls st \<and>
    map (\<lambda>r. (as_id r, as_effective_limits r)) (agent_sessions st') = map (\<lambda>r. (as_id r, as_effective_limits r)) (agent_sessions st)"
  using assms
proof cases
  case book
  then show ?thesis by cases (auto simp: frame_simps)
qed (auto simp: frame_simps update_session_status_def fail_analysis_def close_analysis_def Let_def start_turn_def
  intro!: map_update_where_same split: if_splits)

lemma same_calls_step: "agent_step (ag_db s) st \<Longrightarrow> same_calls w g m s (s\<lparr>ag_db := st\<rparr>)"
  using agent_step_tables by (blast intro: same_calls_tables)

interpretation calls: step_relation "same_calls w g m" w for w g m
  by unfold_locales (erule same_calls_step | simp add: same_calls_def others_spare_def)+

lemma create_call_count:
  "count_tool_calls g (fst (create_tool_call d k kw st)) \<le> count_tool_calls g st + (if tk_agent_id kw = g then 1 else 0)"
  by (auto simp: create_tool_call_def count_tool_calls_def split: option.splits)

lemma create_calls_count:
  "list_all (\<lambda>rq. tk_agent_id (rq_kwargs rq) = h) rqs \<Longrightarrow>
   count_tool_calls g (fst (create_tool_calls d n rqs st)) \<le> count_tool_calls g st + (if h = g then int (length rqs) else 0)"
proof (induction rqs arbitrary: n st)
  case (Cons rq rqs)
  let ?st1 = "fst (create_tool_call d (8 * n) (rq_kwargs rq) st)"
  have "count_tool_calls g (fst (create_tool_calls d (Suc n) rqs ?st1)) \<le> count_tool_calls g ?st1 + (if h = g then int (length rqs) else 0)"
    using Cons by simp
  moreover have "count_tool_calls g ?st1 \<le> count_tool_calls g st + (if h = g then 1 else 0)"
    using create_call_count [of g d "8 * n" "rq_kwargs rq" st] Cons.prems by simp
  ultimately show ?case by (auto simp: Let_def case_prod_beta split: if_splits)
qed simp

lemma complete_turn_count:
  assumes "complete_turn_with_tool_calls d r resp latest rqs a h outs msgs st = Inr (st', ids)"
    "list_all (\<lambda>rq. tk_agent_id (rq_kwargs rq) = h) rqs"
  shows "count_tool_calls g st' \<le> count_tool_calls g st + (if h = g then int (length rqs) else 0)"
proof -
  let ?st1 = "complete_turn d r (update_latest_response d latest resp st)"
  have "tool_calls st' = tool_calls (fst (create_tool_calls d 0 rqs ?st1))"
    using assms(1) by (auto simp: complete_turn_with_tool_calls_def Let_def case_prod_beta frame_simps split: if_splits)
  then have "count_tool_calls g st' = count_tool_calls g (fst (create_tool_calls d 0 rqs ?st1))" by (simp add: count_tool_calls_def)
  also have "\<dots> \<le> count_tool_calls g ?st1 + (if h = g then int (length rqs) else 0)" using assms(2) by (rule create_calls_count)
  also have "count_tool_calls g ?st1 = count_tool_calls g st" by (simp add: count_tool_calls_def frame_simps)
  finally show ?thesis .
qed

lemma complete_turn_limits:
  assumes "complete_turn_with_tool_calls d r resp latest rqs a h outs msgs st = Inr (st', ids)"
  shows "session_limit g m st' = session_limit g m st"
proof -
  have "agent_sessions st' = agent_sessions (update_latest_response d latest resp st)"
    using assms by (auto simp: complete_turn_with_tool_calls_def Let_def case_prod_beta frame_simps split: if_splits)
  then show ?thesis
    by (intro session_limit_cong) (simp add: update_latest_response_def map_update_where_same)
qed

lemma tool_calls_budget:
  assumes spare: "others_spare w g m" and lim: "session_limit g m (ag_db s)"
    and room: "count_tool_calls g (ag_db s) + (if ss_agent_id ss = g then int (length (mr_tool_calls r)) else 0) \<le> m"
  shows "within_budget g m (ag_db (snd (handle_tool_calls w e ss turn cx oref r s)))"
proof -
  obtain res s1 where req: "tool_call_requests w 0 e ss turn cx (mr_tool_calls r) s = (res, s1)" by fastforce
  have s1: "session_limit g m (ag_db s1)" "count_tool_calls g (ag_db s1) = count_tool_calls g (ag_db s)"
    using calls.keeps_requests [of w g m 0 e ss turn cx "mr_tool_calls r"] req spare lim
    by (auto simp: keeps_def same_calls_def)
  show ?thesis
  proof (cases res)
    case (Inl x)
    then show ?thesis using req s1 room by (simp add: handle_tool_calls_def then_op_def within_budget_def split: if_splits)
  next
    case (Inr rqs)
    let ?k = "ag_accesses s1"
    let ?st = "aw_others w ?k (ag_db s1)"
    let ?c = "complete_turn_with_tool_calls (aw_draws w ?k) (turn_result_of ss turn cx oref r) (mr_response_id r) (ss_agent_id ss) rqs
      (ss_analysis_id ss) (ss_agent_id ss) (response_items r) (agent_message_payloads_from_response r) ?st"
    have st: "session_limit g m ?st" "count_tool_calls g ?st = count_tool_calls g (ag_db s)"
      using s1 spare by (auto simp: others_spare_def)
    have rqs: "length rqs = length (mr_tool_calls r)" "list_all (\<lambda>rq. tk_agent_id (rq_kwargs rq) = ss_agent_id ss) rqs"
      using request_events req Inr by (fastforce simp: list_all_iff)+
    show ?thesis
    proof (cases ?c)
      case (Inl x)
      then show ?thesis using req Inr st room
        by (simp add: handle_tool_calls_def then_op_def access_def Let_def within_budget_def split: if_splits)
    next
      case c: (Inr p)
      then obtain st' ids where p: "?c = Inr (st', ids)" by (cases p) auto
      have st': "within_budget g m st'"
        using complete_turn_count [OF p rqs(2), of g] complete_turn_limits [OF p, of g m] st room rqs(1)
        by (auto simp: within_budget_def split: if_splits)
      let ?s2 = "s1\<lparr>ag_accesses := Suc ?k, ag_db := st'\<rparr>"
      have "snd (handle_tool_calls w e ss turn cx oref r s) = snd (update_status_op w ss ''waiting_tool'' ?s2)"
        using req Inr p by (simp add: handle_tool_calls_def then_op_def access_def Let_def)
      moreover have "same_calls w g m ?s2 (snd (update_status_op w ss ''waiting_tool'' ?s2))"
        using calls.keeps_status [of w g m] by (simp add: keeps_def)
      ultimately show ?thesis using st' spare by (simp add: same_calls_def within_budget_def)
    qed
  qed
qed

lemma answer_calls: "keeps (same_calls w g m) (finish_with_answer w e s turn cx oref r)"
proof -
  have "same_calls w g m s (s\<lparr>ag_db := fst (complete_turn_with_final_answer d r' resp latest a h answer pl ev outs msgs delta (ag_db s))\<rparr>)"
    for s d r' resp latest a h answer pl ev outs msgs delta
    by (rule same_calls_tables)
      (auto simp: complete_turn_with_final_answer_def Let_def case_prod_beta frame_simps close_analysis_def
        update_latest_response_def map_update_where_same split: option.splits)
  then show ?thesis unfolding finish_with_answer_def
    by (intro calls.keeps_rules calls.keeps_access) (auto dest!: arg_cong [of _ _ fst])
qed

definition budget_kept :: "agent_world \<Rightarrow> uuid \<Rightarrow> int \<Rightarrow> agent_state \<Rightarrow> agent_state \<Rightarrow> bool" where
  "budget_kept w g m s s' = (others_spare w g m \<longrightarrow> 0 < m \<longrightarrow> within_budget g m (ag_db s) \<longrightarrow> within_budget g m (ag_db s'))"

lemma same_calls_budget: "same_calls w g m s s' \<Longrightarrow> budget_kept w g m s s'"
  by (simp add: same_calls_def budget_kept_def within_budget_def)

lemma get_session_row:
  assumes "get_session g st = Some s"
  obtains r where "r \<in> set (agent_sessions st)" "as_id r = g" "ss_agent_id s = g" "ss_status s = as_status r"
    "ss_effective_limits s = as_effective_limits r" "ss_analysis_id s = as_analysis_id r"
proof -
  from assms obtain r rs where f: "filter (\<lambda>s. as_id s = g \<and> any_row (\<lambda>a. an_id a = as_analysis_id s) (analyses st)) (agent_sessions st) = r # rs"
    and s: "ss_agent_id s = as_id r" "ss_status s = as_status r" "ss_effective_limits s = as_effective_limits r"
      "ss_analysis_id s = as_analysis_id r"
    by (auto simp: get_session_def split: list.splits)
  from f have "r \<in> set (agent_sessions st)" "as_id r = g" using filter_eq_ConsD [OF f] by auto
  with s that show ?thesis by auto
qed

lemma get_session_id: "get_session g st = Some s \<Longrightarrow> ss_agent_id s = g"
  by (erule get_session_row)

lemma session_of_limit:
  assumes "session_limit g m st" "get_session g st = Some s"
  shows "limit_of s ''max_tool_calls'' = Inr m"
  using assms(2) by (rule get_session_row) (use assms(1) in \<open>auto simp: session_limit_def list_all_iff limit_of_def\<close>)

lemma response_budget: "keeps (budget_kept w g m) (handle_model_response w e s0 turn cx r)"
  unfolding keeps_def budget_kept_def
proof (intro allI impI)
  fix s :: agent_state
  assume spare: "others_spare w g m" and pos: "0 < m" and within: "within_budget g m (ag_db s)"
  let ?s1 = "s\<lparr>ag_accesses := Suc (ag_accesses s), ag_db := aw_others w (ag_accesses s) (ag_db s)\<rparr>"
  have in1: "within_budget g m (ag_db ?s1)" using spare within by (auto simp: others_spare_def within_budget_def)
  have kept: "within_budget g m (ag_db (snd (m' x)))" if "keeps (same_calls w g m) m'" "within_budget g m (ag_db x)"
    for m' :: "unit agent_op" and x using that spare by (auto simp: keeps_def same_calls_def within_budget_def)
  show "within_budget g m (ag_db (snd (handle_model_response w e s0 turn cx r s)))"
  proof (cases "get_session (ss_agent_id s0) (ag_db ?s1)")
    case None
    then show ?thesis using in1 by (simp add: handle_model_response_def then_op_def look_def access_def Let_def return_op_def)
  next
    case (Some ss)
    obtain oref s2 where out: "store_model_output ss turn r ?s1 = (Inr oref, s2)" "ag_db s2 = ag_db ?s1"
      by (simp add: store_model_output_def then_op_def put_object_def return_op_def)
    have unfold: "handle_model_response w e s0 turn cx r s =
        (if terminal (ss_status ss) \<or> ss_status ss = ''cancelling'' then (Inr (), ?s1)
         else if mr_tool_calls r \<noteq> []
         then then_op (lift_op (limit_of ss ''max_tool_calls'')) (\<lambda>max_tool_calls.
              then_op (if max_tool_calls > 0 then look w (count_tool_calls (ss_agent_id ss)) else return_op 0) (\<lambda>current.
                if max_tool_calls > 0 \<and> current + int (length (mr_tool_calls r)) > max_tool_calls
                then fail_max_tool_calls_exceeded w e ss max_tool_calls
                else handle_tool_calls w e ss turn cx oref r)) s2
         else finish_with_answer w e ss turn cx oref r s2)"
      using Some out by (simp add: handle_model_response_def then_op_def look_def access_def Let_def return_op_def)
    show ?thesis
    proof (cases "terminal (ss_status ss) \<or> ss_status ss = ''cancelling'' \<or> mr_tool_calls r = []")
      case True
      then show ?thesis using unfold in1 out kept [OF answer_calls, of s2] by auto
    next
      case False
      show ?thesis
      proof (cases "limit_of ss ''max_tool_calls''")
        case (Inl x)
        then show ?thesis using False unfold in1 out by (simp add: then_op_def lift_op_def)
      next
        case (Inr mt)
        obtain s3 current where s3: "(if mt > 0 then look w (count_tool_calls (ss_agent_id ss)) else return_op 0) s2 = (Inr current, s3)"
          and cur: "mt > 0 \<longrightarrow> current = count_tool_calls (ss_agent_id ss) (ag_db s3)"
          and in3: "within_budget g m (ag_db s3)"
          using spare in1 out(2) by (cases "mt > 0")
            (auto simp: look_def access_def Let_def return_op_def others_spare_def within_budget_def)
        have run: "handle_model_response w e s0 turn cx r s =
            (if mt > 0 \<and> current + int (length (mr_tool_calls r)) > mt then fail_max_tool_calls_exceeded w e ss mt s3
             else handle_tool_calls w e ss turn cx oref r s3)"
          using unfold False Inr s3 by (simp add: then_op_def lift_op_def)
        show ?thesis
        proof (cases "mt > 0 \<and> current + int (length (mr_tool_calls r)) > mt")
          case True
          then show ?thesis using run kept [OF calls.keeps_failures(2) in3] by simp
        next
          case room: False
          have "ss_agent_id ss = g \<Longrightarrow> mt = m"
            using Some Inr session_of_limit [of g m "ag_db ?s1" ss] in1 get_session_id [OF Some] by (simp add: within_budget_def)
          then have "count_tool_calls g (ag_db s3) + (if ss_agent_id ss = g then int (length (mr_tool_calls r)) else 0) \<le> m"
            using room cur pos in3 by (auto simp: within_budget_def)
          then show ?thesis unfolding run if_not_P [OF room] using in3 by (intro tool_calls_budget [OF spare]) (simp_all add: within_budget_def)
        qed
      qed
    qed
  qed
qed

lemma budget_kept_order: "budget_kept w g m s s" "budget_kept w g m s t \<Longrightarrow> budget_kept w g m t u \<Longrightarrow> budget_kept w g m s u"
  by (simp_all add: budget_kept_def)

interpretation budget: agent_relation "budget_kept w g m" w for w g m
  by unfold_locales (fact response_budget budget_kept_order | erule (1) budget_kept_order(2) | rule same_calls_budget, rule calls.others calls.requested calls.stored |
    rule same_calls_budget, erule same_calls_step)+

text \<open>
  C18: An agent never has more tool calls than its session allows. As long as no other process creates calls for the
  agent, handling an event, whatever the model asks for and whatever it raises, leaves the number of calls recorded for an
  agent with a positive limit at or below that limit. A response that asks for more than what is left fails the analysis
  and creates no call at all.
\<close>

theorem tool_calls_never_exceed_limit:
  assumes "others_spare w g m" "0 < m" "session_limit g m (ag_db s)" "count_tool_calls g (ag_db s) \<le> m"
  shows "session_limit g m (ag_db (snd (agent_call w cfg e s))) \<and> count_tool_calls g (ag_db (snd (agent_call w cfg e s))) \<le> m"
  using budget.keeps_agent_call [of w g m cfg e] assms by (simp add: keeps_def budget_kept_def within_budget_def)

definition open_analysis :: analysis_row where
  "open_analysis = \<lparr>an_id = 1, an_tenant_id = None, an_created_by = None, an_repository_url = ''https://e/o/r'',
     an_repository_url_hash = ''h'', an_requested_ref = ''main'', an_profile_id = None, an_config_snapshot_id = 3,
     an_status = ''running'', an_created_at = 0, an_updated_at = 0, an_completed_at = None, an_error_code = None,
     an_error_message = None\<rparr>"

definition open_session :: session_row where
  "open_session = \<lparr>as_id = 2, as_analysis_id = 1, as_snapshot_id = Some 5, as_parent_agent_id = None, as_config_snapshot_id = 3,
     as_status = ''running'', as_goal_ref = ''goal'', as_effective_model = ''m'', as_prompt_version = ''1'',
     as_tool_registry_version = ''1'', as_effective_limits = JObj [(''max_tool_calls'', JInt 1)], as_effective_runtime = JObj [],
     as_latest_response_id = None, as_turn_count = 0, as_max_turns = 5, as_created_at = 0, as_updated_at = 0\<rparr>"

definition loop_state :: agent_state where
  "loop_state = \<lparr>ag_db = empty_db\<lparr>analyses := [open_analysis], agent_sessions := [open_session]\<rparr>, ag_accesses = 0,
     ag_store = empty_store, ag_requests = []\<rparr>"

definition read_call :: "string \<Rightarrow> model_tool_call" where
  "read_call c = \<lparr>mc_call_id = c, mc_name = ''read_file'', mc_arguments = JObj [(''path'', JStr ''README.md'')]\<rparr>"

definition asking_world :: "string list \<Rightarrow> agent_world" where
  "asking_world ids = sample_world\<lparr>aw_create := \<lambda>_ _. ([], Inr \<lparr>mr_response_id = ''r1'', mr_output_text = [],
     mr_tool_calls = map read_call ids, mr_usage = JObj [], mr_output_items = None\<rparr>)\<rparr>"

definition snapshot_ready :: envelope where
  "snapshot_ready = envelope_new 11 12 ''2026-01-01T00:00:00+00:00'' SNAPSHOT_READY (Some 1) (Some 2) (Some 5) None None None"

theorem tool_calls_never_exceed_limit_witness:
  "session_limit 2 1 (ag_db loop_state) \<and>
   count_tool_calls 2 (ag_db (snd (agent_call (asking_world [''a'', ''b'']) sample_agent_config snapshot_ready loop_state))) \<le> 1"
proof -
  have "session_limit 2 1 (ag_db loop_state)" "count_tool_calls 2 (ag_db loop_state) \<le> 1" by code_simp+
  moreover have "others_spare (asking_world [''a'', ''b'']) 2 1"
    by (simp add: others_spare_def asking_world_def sample_world_def)
  ultimately show ?thesis
    using tool_calls_never_exceed_limit [of "asking_world [''a'', ''b'']" 2 1 loop_state sample_agent_config snapshot_ready] by simp
qed

section \<open>When the model is asked\<close>

text \<open>The state after \<open>n\<close> reads, and the tables that the read after them sees.\<close>

fun looked :: "agent_world \<Rightarrow> agent_state \<Rightarrow> nat \<Rightarrow> agent_state" where
  "looked w s 0 = s"
| "looked w s (Suc n) = (looked w s n)\<lparr>ag_db := aw_others w (ag_accesses s + n) (ag_db (looked w s n)), ag_accesses := ag_accesses s + Suc n\<rparr>"

declare looked.simps(2) [simp del]

definition seen :: "agent_world \<Rightarrow> agent_state \<Rightarrow> nat \<Rightarrow> db" where
  "seen w s n = ag_db (looked w s (Suc n))"

lemma looked_fields [simp]: "ag_accesses (looked w s n) = ag_accesses s + n" "ag_requests (looked w s n) = ag_requests s"
  by (induction n) (simp_all add: looked.simps(2))

lemma look_looked: "look w f (looked w s n) = (Inr (f (seen w s n)), looked w s (Suc n))"
  by (simp add: look_def access_def seen_def Let_def looked.simps(2))

definition quiet :: "agent_state \<Rightarrow> agent_state \<Rightarrow> bool" where
  "quiet s s' = (ag_requests s' = ag_requests s)"

interpretation quiet: op_relation quiet
  by unfold_locales (simp_all add: quiet_def)

lemma quiet_access: "keeps quiet (access w f)" "keeps quiet (look w h)" "keeps quiet (commit w c)"
  by (simp_all add: keeps_def quiet_def look_def commit_def access_def Let_def split: sum.splits)

lemmas quiet_rules = quiet.keeps_pure quiet.keeps_then quiet.keeps_if quiet.keeps_option quiet_access

lemma quiet_report: "keeps quiet (fail_and_report w e s code message details turn state)"
  unfolding fail_and_report_def report_failure_def fail_analysis_op_def stream_event_op_def outbox_op_def
  by (intro quiet_rules)

lemma quiet_failures:
  "keeps quiet (fail_max_turns_exceeded w e s)" "keeps quiet (fail_max_tool_calls_exceeded w e s n)"
  "keeps quiet (fail_unrecoverable_turn_replay w e s turn)"
  unfolding fail_max_turns_exceeded_def fail_max_tool_calls_exceeded_def fail_unrecoverable_turn_replay_def
  by (intro quiet_rules quiet_report)+

lemma quiet_ready: "keeps quiet (ready_tool_outputs w e)"
  unfolding ready_tool_outputs_def Let_def by (intro quiet_rules)

lemma quiet_recover: "keeps quiet (recover_incomplete_turn w e s turn)"
  unfolding recover_incomplete_turn_def stream_event_op_def outbox_op_def update_status_op_def by (intro quiet_rules)

lemma quiet_run: "keeps quiet m \<Longrightarrow> ag_requests (snd (m (looked w s n))) = ag_requests s"
  by (simp add: keeps_def quiet_def)

text \<open>The turn that an event belongs to, as \<^verbatim>\<open>_turn_for_trigger\<close> finds it after the session was read.\<close>

definition trigger_key :: "envelope \<Rightarrow> string option" where
  "trigger_key e = (case trigger_domain_key e of None \<Rightarrow> None | Some k \<Rightarrow> if k = [] then None else Some k)"

definition earlier_turn :: "agent_world \<Rightarrow> agent_state \<Rightarrow> uuid \<Rightarrow> envelope \<Rightarrow> uuid \<times> string \<Rightarrow> bool" where
  "earlier_turn w s g e t \<longleftrightarrow>
     get_turn_for_event g (event_id e) (seen w s 1) = Some t \<or>
     get_turn_for_event g (event_id e) (seen w s 1) = None \<and>
       (\<exists>k. trigger_key e = Some k \<and> get_turn_for_domain_key g k (seen w s 2) = Some t)"

definition no_earlier_turn :: "agent_world \<Rightarrow> agent_state \<Rightarrow> uuid \<Rightarrow> envelope \<Rightarrow> bool" where
  "no_earlier_turn w s g e \<longleftrightarrow>
     get_turn_for_event g (event_id e) (seen w s 1) = None \<and>
     (case trigger_key e of
        None \<Rightarrow> \<not> has_turn_for_event g (event_id e) (seen w s 2)
      | Some k \<Rightarrow> get_turn_for_domain_key g k (seen w s 2) = None \<and> \<not> has_turn_for_event g (event_id e) (seen w s 3))"

lemma turn_for_trigger_cases:
  obtains t n where "earlier_turn w s g e t" "turn_for_trigger w g (event_id e) (trigger_domain_key e) (looked w s 1) = (Inr (Some t), looked w s n)"
  | n where "turn_for_trigger w g (event_id e) (trigger_domain_key e) (looked w s 1) = (Inr (Some (event_id e, ''completed'')), looked w s n)"
  | n where "no_earlier_turn w s g e" "turn_for_trigger w g (event_id e) (trigger_domain_key e) (looked w s 1) = (Inr None, looked w s n)"
proof -
  note ops = turn_for_trigger_def then_op_def look_looked return_op_def
  show ?thesis
  proof (cases "get_turn_for_event g (event_id e) (seen w s 1)")
    case (Some t)
    then show ?thesis using that(1) [of t 2] by (simp add: ops earlier_turn_def numeral_2_eq_2)
  next
    case none: None
    show ?thesis
    proof (cases "trigger_key e")
      case None
      then have k: "\<And>k. trigger_domain_key e = Some k \<Longrightarrow> k = []" by (auto simp: trigger_key_def split: option.splits if_splits)
      have "turn_for_trigger w g (event_id e) (trigger_domain_key e) (looked w s 1) =
          (Inr (if has_turn_for_event g (event_id e) (seen w s 2) then Some (event_id e, ''completed'') else None), looked w s 3)"
        using none k by (cases "trigger_domain_key e") (simp_all add: ops numeral_2_eq_2 numeral_3_eq_3)
      with none None that(2,3) show ?thesis by (cases "has_turn_for_event g (event_id e) (seen w s 2)") (simp_all add: no_earlier_turn_def)
    next
      case (Some k)
      then have k: "trigger_domain_key e = Some k" "k \<noteq> []" by (auto simp: trigger_key_def split: option.splits if_splits)
      show ?thesis
      proof (cases "get_turn_for_domain_key g k (seen w s 2)")
        case t: (Some t)
        then show ?thesis using that(1) [of t 3] none Some k by (simp add: ops earlier_turn_def numeral_2_eq_2 numeral_3_eq_3)
      next
        case n: None
        have "turn_for_trigger w g (event_id e) (trigger_domain_key e) (looked w s 1) =
            (Inr (if has_turn_for_event g (event_id e) (seen w s 3) then Some (event_id e, ''completed'') else None), looked w s 4)"
          using none k n by (simp add: ops numeral_2_eq_2 numeral_3_eq_3 numeral_eq_Suc)
        with none Some n that(2,3) show ?thesis by (cases "has_turn_for_event g (event_id e) (seen w s 3)") (simp_all add: no_earlier_turn_def)
      qed
    qed
  qed
qed

definition may_resume :: "agent_world \<Rightarrow> agent_state \<Rightarrow> uuid \<Rightarrow> string \<Rightarrow> bool" where
  "may_resume w s turn status \<longleftrightarrow>
     (status = ''calling_model'' \<or> status = ''assembling_context'' \<or> status = ''streaming'') \<and>
     (\<exists>n. get_pending_tool_call_for_turn turn (seen w s n) = None)"

definition may_begin :: "agent_world \<Rightarrow> agent_state \<Rightarrow> session_state \<Rightarrow> bool" where
  "may_begin w s ss \<longleftrightarrow>
     ss_turn_count ss < ss_max_turns ss \<and>
     (\<exists>m. limit_of ss ''max_tool_calls'' = Inr m \<and> (m \<le> 0 \<or> (\<exists>n. count_tool_calls (ss_agent_id ss) (seen w s n) < m)))"

lemma resume_asks:
  assumes "ag_requests (snd (resume_turn w cfg e ss turn status (looked w s n))) \<noteq> ag_requests s"
  shows "may_resume w s turn status"
proof -
  have "status \<noteq> ''completed''" using assms by (auto simp: resume_turn_def return_op_def)
  show ?thesis
  proof (cases "get_pending_tool_call_for_turn turn (seen w s n)")
    case (Some c)
    then have "fst (recover_incomplete_turn w e ss turn (looked w s n)) = Inr True"
      by (simp add: recover_incomplete_turn_def then_op_def look_looked return_op_def stream_event_op_def outbox_op_def
          update_status_op_def commit_def access_def Let_def)
    then have "snd (resume_turn w cfg e ss turn status (looked w s n)) = snd (recover_incomplete_turn w e ss turn (looked w s n))"
      using \<open>status \<noteq> ''completed''\<close> by (auto simp: resume_turn_def then_op_def return_op_def split: prod.splits)
    with assms quiet_run [OF quiet_recover, of w e ss turn w s n] show ?thesis by simp
  next
    case None
    then have "recover_incomplete_turn w e ss turn (looked w s n) = (Inr False, looked w s (Suc n))"
      by (simp add: recover_incomplete_turn_def then_op_def look_looked return_op_def)
    then show ?thesis using assms \<open>status \<noteq> ''completed''\<close> None quiet_run [OF quiet_failures(3), of w e ss turn w s "Suc n"]
      by (auto simp: resume_turn_def then_op_def may_resume_def is_retryable_model_turn_def split: if_splits)
  qed
qed

lemma new_turn_asks:
  assumes "ag_requests (snd (new_turn w cfg e ss (looked w s n))) \<noteq> ag_requests s"
  shows "ss_snapshot_id ss \<noteq> None \<and> may_begin w s ss"
proof -
  have snap: "ss_snapshot_id ss \<noteq> None" using assms by (cases "ss_snapshot_id ss") (simp_all add: new_turn_def raise_op_def)
  have turns: "ss_turn_count ss < ss_max_turns ss"
    using assms snap quiet_run [OF quiet_failures(1), of w e ss w s n] by (auto simp: new_turn_def not_le [symmetric])
  show ?thesis
  proof (cases "limit_of ss ''max_tool_calls''")
    case (Inl x)
    then show ?thesis using assms snap turns by (simp add: new_turn_def then_op_def lift_op_def)
  next
    case (Inr m)
    have "m \<le> 0 \<or> count_tool_calls (ss_agent_id ss) (seen w s n) < m"
    proof (rule ccontr)
      assume "\<not> ?thesis"
      then show False using assms snap turns Inr quiet_run [OF quiet_failures(2), of w e ss m w s "Suc n"]
        by (simp add: new_turn_def then_op_def lift_op_def look_looked)
    qed
    with snap turns Inr show ?thesis by (auto simp: may_begin_def)
  qed
qed

text \<open>
  C17: The handler asks the model only when it may. If handling an event has led to a request to the model, then the event names a
  session that was found and had not ended; a session that waits for tools was woken by the end of a tool call; and
  either the event belongs to an unfinished turn, in a status from which a model call is repeated and with no tool call
  pending, or it belongs to no turn and the agent has turns and, if they are limited, tool calls left. A response is dropped
  without any effect if the session has ended or is being cancelled when the response is handled.
\<close>

theorem model_asked_only_when_allowed:
  assumes "ag_requests (snd (agent_call w cfg e s)) \<noteq> ag_requests s"
  shows "(\<exists>g ss. agent_id e = Some g \<and> get_session g (seen w s 0) = Some ss \<and>
      ss_status ss \<noteq> ''completed'' \<and> ss_status ss \<noteq> ''failed'' \<and> ss_status ss \<noteq> ''cancelled'' \<and>
      (ss_status ss = ''waiting_tool'' \<longrightarrow> event_type e \<in> {TOOL_CALL_COMPLETED, TOOL_CALL_FAILED, TOOL_CALL_DENIED}) \<and>
      ((\<exists>turn status. earlier_turn w s g e (turn, status) \<and> may_resume w s turn status) \<or>
       no_earlier_turn w s g e \<and> may_begin w s ss)) \<and>
    (\<forall>s0 turn cx r st. (\<forall>ss. get_session (ss_agent_id s0) (seen w st 0) = Some ss \<longrightarrow>
         ss_status ss \<in> {''completed'', ''failed'', ''cancelled'', ''cancelling''}) \<longrightarrow>
       handle_model_response w e s0 turn cx r st = (Inr (), looked w st 1))"
proof
  have "ag_requests (snd (run_turn w cfg e s)) \<noteq> ag_requests s"
    using assms quiet_access(3) by (auto simp: agent_call_def return_op_def raise_op_def keeps_def quiet_def split: if_splits option.splits)
  then obtain a g where ids: "analysis_id e = Some a" "agent_id e = Some g"
      and run: "ag_requests (snd (run_turn w cfg e (looked w s 0))) \<noteq> ag_requests s"
    by (auto simp: run_turn_def raise_op_def split: option.splits)
  obtain ss where ss: "get_session g (seen w s 0) = Some ss"
    using run ids by (cases "get_session g (seen w s 0)") (auto simp: run_turn_def then_op_def look_looked raise_op_def simp del: looked.simps)
  have g: "ss_agent_id ss = g" by (rule get_session_id [OF ss])
  have status: "\<not> terminal (ss_status ss)" "ss_status ss = ''waiting_tool'' \<longrightarrow> is_terminal_tool_event e"
    using run ids ss by (auto simp: run_turn_def then_op_def look_looked return_op_def simp del: looked.simps split: if_splits)
  define ss' where "ss' = (if ss_snapshot_id ss = None \<and> snapshot_id e \<noteq> None then ss\<lparr>ss_snapshot_id := snapshot_id e\<rparr> else ss)"
  have wait: "\<not> (ss_status ss = ''waiting_tool'' \<and> \<not> is_terminal_tool_event e)" using status(2) by blast
  have rest: "run_turn w cfg e (looked w s 0) = then_op (turn_for_trigger w g (event_id e) (trigger_domain_key e)) (\<lambda>existing.
      case existing of Some (turn, status) \<Rightarrow> resume_turn w cfg e ss turn status | None \<Rightarrow> new_turn w cfg e ss') (looked w s 1)"
    using ids ss status(1) g unfolding run_turn_def ss'_def
    by (cases "ss_snapshot_id ss"; cases "snapshot_id e") (simp_all add: then_op_def look_looked if_not_P [OF wait] cong: prod.case_cong sum.case_cong option.case_cong del: looked.simps)
  have "(\<exists>turn status. earlier_turn w s g e (turn, status) \<and> may_resume w s turn status) \<or> no_earlier_turn w s g e \<and> may_begin w s ss"
  proof (cases rule: turn_for_trigger_cases [of w s g e])
    case (1 t n)
    then show ?thesis using run rest resume_asks [of w cfg e ss "fst t" "snd t" s n] by (cases t) (auto simp: then_op_def)
  next
    case (2 n)
    then show ?thesis using run rest by (simp add: then_op_def resume_turn_def return_op_def)
  next
    case (3 n)
    then have "may_begin w s ss'" using run rest new_turn_asks [of w cfg e ss' s n] by (auto simp: then_op_def)
    then have "may_begin w s ss" by (auto simp: may_begin_def limit_of_def ss'_def split: if_splits)
    with 3(1) show ?thesis by blast
  qed
  with ids ss status show "\<exists>g ss. agent_id e = Some g \<and> get_session g (seen w s 0) = Some ss \<and>
      ss_status ss \<noteq> ''completed'' \<and> ss_status ss \<noteq> ''failed'' \<and> ss_status ss \<noteq> ''cancelled'' \<and>
      (ss_status ss = ''waiting_tool'' \<longrightarrow> event_type e \<in> {TOOL_CALL_COMPLETED, TOOL_CALL_FAILED, TOOL_CALL_DENIED}) \<and>
      ((\<exists>turn status. earlier_turn w s g e (turn, status) \<and> may_resume w s turn status) \<or>
       no_earlier_turn w s g e \<and> may_begin w s ss)"
    by (intro exI [of _ g] exI [of _ ss]) (simp add: terminal_def is_terminal_tool_event_def)
next
  show "\<forall>s0 turn cx r st. (\<forall>ss. get_session (ss_agent_id s0) (seen w st 0) = Some ss \<longrightarrow>
         ss_status ss \<in> {''completed'', ''failed'', ''cancelled'', ''cancelling''}) \<longrightarrow>
       handle_model_response w e s0 turn cx r st = (Inr (), looked w st 1)"
  proof (intro allI impI)
    fix s0 :: session_state and turn cx r st
    assume "\<forall>ss. get_session (ss_agent_id s0) (seen w st 0) = Some ss \<longrightarrow> ss_status ss \<in> {''completed'', ''failed'', ''cancelled'', ''cancelling''}"
    then have "handle_model_response w e s0 turn cx r (looked w st 0) = (Inr (), looked w st 1)"
      by (auto simp: handle_model_response_def then_op_def look_looked return_op_def terminal_def simp del: looked.simps split: option.splits)
    then show "handle_model_response w e s0 turn cx r st = (Inr (), looked w st 1)" by simp
  qed
qed

subsection \<open>A turn that asks\<close>

text \<open>No operation takes a request back.\<close>

definition asks_more :: "agent_state \<Rightarrow> agent_state \<Rightarrow> bool" where
  "asks_more s s' = (\<exists>rs. ag_requests s' = ag_requests s @ rs)"

interpretation asks: step_relation asks_more w for w
  by unfold_locales (auto simp: asks_more_def)

lemma response_asks: "keeps asks_more (handle_model_response w e s turn cx r)"
  unfolding handle_model_response_def handle_tool_calls_def finish_with_answer_def
  by (intro asks.keeps_rules asks.keeps_store_output asks.keeps_failures asks.keeps_requests asks.keeps_access asks.keeps_status)
    (auto simp: asks_more_def)

definition open_state :: session_state where
  "open_state = \<lparr>ss_analysis_id = 1, ss_agent_id = 2, ss_snapshot_id = Some 5, ss_config_snapshot_id = 3,
     ss_status = ''running'', ss_effective_model = ''m'', ss_latest_response_id = None, ss_turn_count = 0, ss_max_turns = 5,
     ss_effective_limits = JObj [(''max_tool_calls'', JInt 1)], ss_effective_runtime = JObj []\<rparr>"

abbreviation sample_asking :: agent_world where
  "sample_asking \<equiv> asking_world []"

text \<open>The states between the first transactions.\<close>

definition read_state :: agent_state where
  "read_state = snd (look sample_asking (get_session 2) loop_state)"

definition searched_state :: agent_state where
  "searched_state = snd (turn_for_trigger sample_asking 2 (event_id snapshot_ready) (trigger_domain_key snapshot_ready) read_state)"

definition counted_state :: agent_state where
  "counted_state = snd (look sample_asking (count_tool_calls 2) searched_state)"

definition status_state :: agent_state where
  "status_state = snd (stream_event_op sample_asking open_state ''status'' [(''status'', JStr ''calling_model'')] None None None None
     (snd (update_status_op sample_asking open_state ''calling_model'' counted_state)))"

definition begun_state :: agent_state where
  "begun_state = snd (start_turn_op sample_asking snapshot_ready open_state status_state)"

lemma sample_reads:
  "fst (look sample_asking (get_session 2) loop_state) = Inr (Some open_state)"
  "fst (turn_for_trigger sample_asking 2 (event_id snapshot_ready) (trigger_domain_key snapshot_ready) read_state) = Inr None"
  "fst (look sample_asking (count_tool_calls 2) searched_state) = Inr 0"
  "fst (start_turn_op sample_asking snapshot_ready open_state status_state) = Inr 7"
  by code_simp+

lemma sample_context_ready:
  "case fst (request_input sample_asking open_state [] None True True begun_state) of Inl _ \<Rightarrow> False | Inr _ \<Rightarrow> True"
  "load_config_snapshot open_state (ag_db (snd (request_input sample_asking open_state [] None True True begun_state))) = None"
  "app_config_from_json None = Inr default_config"
  "case response_tools (ap_tools default_config) of Inl _ \<Rightarrow> False | Inr _ \<Rightarrow> True"
  "case map_of (ap_profiles default_config) (ap_default_profile default_config) of None \<Rightarrow> False | Some _ \<Rightarrow> True"
  by code_simp+

lemma sample_limits:
  "limit_of open_state ''max_tool_calls'' = Inr 1" "limit_of open_state ''auto_compact_threshold_tokens'' = Inr 0"
  "\<not> uses_previous_response sample_agent_config open_state" "analysis_id snapshot_ready = Some 1" "agent_id snapshot_ready = Some 2"
  "event_type snapshot_ready = SNAPSHOT_READY"
  by code_simp+

lemma with_fst: "fst p = x \<Longrightarrow> p = (x, snd p)"
  by (cases p) simp

lemma then_commit: "then_op (commit w f) k s = k () (snd (commit w f s))"
  by (simp add: then_op_def commit_def access_def Let_def)

lemma sample_run: "agent_call sample_asking sample_agent_config snapshot_ready loop_state =
  run_model_turn sample_asking sample_agent_config snapshot_ready open_state 7 None begun_state"
proof -
  note reads = sample_reads [THEN with_fst, folded read_state_def searched_state_def counted_state_def begun_state_def]
  have tool: "\<not> is_terminal_tool_event snapshot_ready" by (simp add: is_terminal_tool_event_def sample_limits)
  have fields: "ss_agent_id open_state = 2" "ss_snapshot_id open_state = Some 5" "\<not> ss_max_turns open_state \<le> ss_turn_count open_state"
      "\<not> terminal (ss_status open_state)" "ss_status open_state \<noteq> ''waiting_tool''"
    by (simp_all add: open_state_def terminal_def)
  have "new_turn sample_asking sample_agent_config snapshot_ready open_state searched_state =
      begin_turn sample_asking sample_agent_config snapshot_ready open_state None counted_state"
    using reads(3) tool fields by (simp add: new_turn_def then_op_def lift_op_def sample_limits)
  moreover have "begin_turn sample_asking sample_agent_config snapshot_ready open_state None counted_state =
      run_model_turn sample_asking sample_agent_config snapshot_ready open_state 7 None begun_state"
    using reads(4) unfolding begin_turn_def update_status_op_def stream_event_op_def status_state_def
    by (simp add: then_commit) (simp add: then_op_def)
  moreover have "agent_call sample_asking sample_agent_config snapshot_ready loop_state =
      new_turn sample_asking sample_agent_config snapshot_ready open_state searched_state"
    using reads(1,2) fields by (simp add: agent_call_def run_turn_def sample_limits then_op_def)
  ultimately show ?thesis by simp
qed

lemma sample_assembled:
  obtains cx st where "assemble sample_asking open_state 7 [] None True True True begun_state = (Inr cx, st)"
proof -
  obtain input refs st1 where input: "request_input sample_asking open_state [] None True True begun_state = (Inr (input, refs), st1)"
    using sample_context_ready(1) by (cases "request_input sample_asking open_state [] None True True begun_state") (auto split: sum.splits)
  then have none: "load_config_snapshot open_state (ag_db st1) = None" using sample_context_ready(2) by simp
  obtain tools where "response_tools (ap_tools default_config) = Inr tools" using sample_context_ready(4) by (auto split: sum.splits)
  moreover obtain profile where "map_of (ap_profiles default_config) (ap_default_profile default_config) = Some profile"
    using sample_context_ready(5) by (auto split: option.splits)
  ultimately have "\<exists>cx st. assemble sample_asking open_state 7 [] None True True True begun_state = (Inr cx, st)"
    using input none sample_context_ready(3)
    by (simp add: assemble_def then_op_def look_def access_def asking_world_def sample_world_def lift_op_def persist_assembly_def
        put_object_def commit_def return_op_def Let_def split_beta)
  then show ?thesis using that by blast
qed

lemma sample_model_asked:
  "ag_requests (snd (agent_call sample_asking sample_agent_config snapshot_ready loop_state)) \<noteq> ag_requests loop_state"
proof -
  obtain cx st where cx: "assemble sample_asking open_state 7 [] None True True True begun_state = (Inr cx, st)"
    by (rule sample_assembled)
  have "tool_output_items sample_asking snapshot_ready False None begun_state = (Inr [], begun_state)"
    by (simp add: tool_output_items_def ready_tool_outputs_def then_op_def return_op_def is_terminal_tool_event_def sample_limits Let_def)
  with cx have "run_model_turn sample_asking sample_agent_config snapshot_ready open_state 7 None begun_state =
      call_model sample_asking sample_agent_config snapshot_ready open_state 7 cx False st"
    by (simp add: run_model_turn_def Let_def then_op_def return_op_def compact_if_needed_def lift_op_def sample_limits no_compaction_def)
  moreover have "ag_requests (snd (call_model sample_asking sample_agent_config snapshot_ready open_state 7 cx False st)) \<noteq> []"
  proof -
    let ?q = "Create_Response (model_request_of sample_agent_config open_state cx 0 False)"
    obtain r where r: "aw_create sample_asking = (\<lambda>_ _. ([], Inr r))" by (simp add: asking_world_def)
    have "call_model sample_asking sample_agent_config snapshot_ready open_state 7 cx False st =
        handle_model_response sample_asking snapshot_ready open_state 7 cx r (st\<lparr>ag_requests := ag_requests st @ [?q]\<rparr>)"
      by (simp add: call_model_def create_response_with_optional_context_management_def create_response_def then_op_def lift_op_def
          gets_op_def note_request_def return_op_def sample_limits r)
    moreover have "asks_more (st\<lparr>ag_requests := ag_requests st @ [?q]\<rparr>)
        (snd (handle_model_response sample_asking snapshot_ready open_state 7 cx r (st\<lparr>ag_requests := ag_requests st @ [?q]\<rparr>)))"
      using response_asks by (simp add: keeps_def)
    ultimately show ?thesis by (auto simp: asks_more_def)
  qed
  moreover have "ag_requests loop_state = []" by (simp add: loop_state_def)
  ultimately show ?thesis by (simp add: sample_run)
qed

theorem model_asked_only_when_allowed_witness:
  "\<exists>ss. get_session 2 (seen sample_asking loop_state 0) = Some ss \<and> ss_status ss \<noteq> ''completed'' \<and> ss_status ss \<noteq> ''cancelled''"
  using model_asked_only_when_allowed [OF sample_model_asked] sample_limits(5) by auto

section \<open>Every call in a prompt has its output\<close>

text \<open>
  The outputs with which a turn begins fit the output items that are stored for the turn of the calls: every output
  has an identifier, and if items are stored, their calls are exactly those that are answered.
\<close>

definition stored_items :: "agent_world \<Rightarrow> object_store \<Rightarrow> ready_output list \<Rightarrow> payload list" where
  "stored_items w store outputs =
     (case outputs of
        [] \<Rightarrow> []
      | r # _ \<Rightarrow> (case ro_output_ref r of None \<Rightarrow> [] | Some key \<Rightarrow> if key = [] then [] else load_model_output_items w store key))"

definition outputs_fit :: "agent_world \<Rightarrow> object_store \<Rightarrow> ready_output list \<Rightarrow> bool" where
  "outputs_fit w store outputs \<longleftrightarrow>
     (\<forall>r \<in> set outputs. ro_call_id r \<noteq> []) \<and>
     (stored_items w store outputs \<noteq> [] \<longrightarrow>
        (\<forall>i \<in> set (stored_items w store outputs). \<not> is_tool_output_item i \<and>
           (is_tool_call_item i \<longrightarrow> (\<exists>r \<in> set outputs. item_call_id i = Some (ro_call_id r)))) \<and>
        (\<forall>r \<in> set outputs. \<exists>i \<in> set (stored_items w store outputs). is_tool_call_item i \<and> item_call_id i = Some (ro_call_id r)))"

lemma output_item_kind:
  "is_tool_output_item (function_output_item r)" "\<not> is_tool_call_item (function_output_item r)"
  "is_tool_call_item (function_call_item r)" "\<not> is_tool_output_item (function_call_item r)"
  by (simp_all add: is_tool_output_item_def is_tool_call_item_def response_item_type_def function_output_item_def function_call_item_def
    obj_get_def py_or_def py_str_def TOOL_CALL_TYPES_def TOOL_OUTPUT_TYPES_def)

lemma output_item_call_id:
  "item_call_id (function_output_item r) = (if ro_call_id r = [] then None else Some (ro_call_id r))"
  "item_call_id (function_call_item r) = (if ro_call_id r = [] then None else Some (ro_call_id r))"
  by (simp_all add: item_call_id_def function_output_item_def function_call_item_def obj_get_def)

lemma fitting_outputs_paired:
  assumes "outputs_fit w store outputs"
  shows "paired (if stored_items w store outputs \<noteq> [] then stored_items w store outputs @ map function_output_item outputs
    else concat (map (\<lambda>r. [function_call_item r, function_output_item r]) outputs))"
proof (cases "stored_items w store outputs = []")
  case True
  then show ?thesis using assms
    by (auto simp: paired_def has_partner_def list_all_iff list_ex_iff output_item_kind output_item_call_id outputs_fit_def)
next
  case False
  let ?p = "stored_items w store outputs"
  have ids: "item_call_id (function_output_item r) = Some (ro_call_id r)" if "r \<in> set outputs" for r
    using assms that by (simp add: outputs_fit_def output_item_call_id)
  have calls: "\<not> is_tool_output_item i" "is_tool_call_item i \<Longrightarrow> \<exists>r \<in> set outputs. item_call_id i = Some (ro_call_id r)" if "i \<in> set ?p" for i
    using assms False that by (simp_all add: outputs_fit_def)
  have answered: "\<exists>i \<in> set ?p. is_tool_call_item i \<and> item_call_id i = Some (ro_call_id r)" if "r \<in> set outputs" for r
    using assms False that by (simp add: outputs_fit_def)
  have "has_partner is_tool_output_item (?p @ map function_output_item outputs) i" if "i \<in> set ?p" "is_tool_call_item i" for i
  proof -
    from calls(2) [OF that] obtain r where r: "r \<in> set outputs" "item_call_id i = Some (ro_call_id r)" by blast
    then have "function_output_item r \<in> set (?p @ map function_output_item outputs)" by simp
    with r ids [OF r(1)] output_item_kind(1) [of r] show ?thesis unfolding has_partner_def list_ex_iff by (metis option.distinct(1))
  qed
  moreover have "has_partner is_tool_call_item (?p @ map function_output_item outputs) (function_output_item r)" if "r \<in> set outputs" for r
    using answered [OF that] ids [OF that] by (auto simp: has_partner_def list_ex_iff)
  ultimately show ?thesis using False calls(1) by (auto simp: paired_def list_all_iff output_item_kind)
qed

lemma ready_output_items:
  "tool_output_items w e False (Some outputs) st =
   (Inr (if outputs = [] then []
         else if stored_items w (ag_store st) outputs \<noteq> [] then stored_items w (ag_store st) outputs @ map function_output_item outputs
         else concat (map (\<lambda>r. [function_call_item r, function_output_item r]) outputs)), st)"
  by (cases outputs) (auto simp: tool_output_items_def then_op_def return_op_def gets_op_def stored_items_def split: option.splits)

text \<open>
  C19: In the mode that replays the local history, a request never leaves a tool call without its output or an output without
  its call on account of the history, wherever the window over it cuts and whatever was compacted or excluded: what stands
  before the new items of the turn is paired and shares no call with them. The new items end the request. The whole request is
  paired when the turn was not begun by a tool call, and when the outputs it begins with fit the items stored for the
  turn that asked for them, in particular when none are stored. (In the mode that refers to the previous response the calls
  are not part of the request.)
\<close>

theorem prompt_calls_paired:
  assumes "tool_output_items w e False ready st = (Inr extra, st1)"
    and "request_input w s extra None True base st1 = (Inr (input, refs), st2)"
  shows "(\<exists>before. input = before @ extra \<and> paired before \<and> shares_no_call before extra) \<and>
    (paired input \<longleftrightarrow> paired extra) \<and>
    (ready = None \<and> \<not> is_terminal_tool_event e \<longrightarrow> paired input) \<and>
    (\<forall>outputs. ready = Some outputs \<and> outputs_fit w (ag_store st) outputs \<longrightarrow> paired input)"
proof -
  obtain before where b: "input = before @ extra" "paired before" "shares_no_call before extra"
    using assms(2) by (rule request_input_paired)
  have iff: "paired input \<longleftrightarrow> paired extra" unfolding b(1) by (rule paired_append_iff [OF b(2,3)])
  have "paired extra" if "ready = None" "\<not> is_terminal_tool_event e"
    using assms(1) that by (simp add: tool_output_items_def ready_tool_outputs_def then_op_def return_op_def Let_def)
  moreover have "paired extra" if "ready = Some outputs" "outputs_fit w (ag_store st) outputs" for outputs
    using assms(1) that fitting_outputs_paired [OF that(2)] by (auto simp: ready_output_items split: if_splits)
  ultimately show ?thesis using b iff by blast
qed

definition sample_output :: ready_output where
  "sample_output = \<lparr>ro_call_id = ''c2'', ro_name = ''read_file'', ro_arguments = JObj [], ro_output = ''{}'', ro_output_ref = None,
     ro_turn_id = None\<rparr>"

lemma sample_input:
  "fst (request_input sample_world sample_session_state [function_call_item sample_output, function_output_item sample_output] None True True
     sample_agent_state) = Inr ([user_text ''task'', function_call_item sample_output, function_output_item sample_output], [])"
  by code_simp

text \<open>The history of the sample holds a call without output, which is left out.\<close>

theorem prompt_calls_paired_witness:
  "paired [user_text ''task'', function_call_item sample_output, function_output_item sample_output]"
proof -
  have items: "tool_output_items sample_world sample_event False (Some [sample_output]) sample_agent_state =
      (Inr [function_call_item sample_output, function_output_item sample_output], sample_agent_state)"
    by (simp add: ready_output_items stored_items_def sample_output_def)
  obtain st2 where "request_input sample_world sample_session_state [function_call_item sample_output, function_output_item sample_output]
      None True True sample_agent_state =
      (Inr ([user_text ''task'', function_call_item sample_output, function_output_item sample_output], []), st2)"
    using sample_input by (metis prod.collapse)
  from prompt_calls_paired [OF items this] show ?thesis
    by (auto simp: outputs_fit_def stored_items_def sample_output_def)
qed

end
