(* ===== verification/Openai_Runner.thy ===== *)
theory Openai_Runner
  imports Agent_Handler
begin

text \<open>
  The client of the model API (\<^verbatim>\<open>backend/agent/openai_runner.py\<close>): how a response, a stream of server-sent events or the
  messages of a websocket become the \<^verbatim>\<open>ModelResponse\<close> of the agent loop. \<open>loads\<close> stands for \<^verbatim>\<open>json.loads\<close> and returns the text
  of the error on the left; what arrives on the network is a list. The thread in which the client runs and the futures
  that carry its events to the event loop are not modelled: the events reach the callback in the order they were emitted.
\<close>

section \<open>Errors\<close>

datatype runner_error =
    RKeyError string | RTypeError | RAttributeError | RNumber int_error | RJSONDecodeError string | RUnicodeDecodeError
  | RRuntimeError string | RIncompleteStream string | RTimeout string | RRaised model_exception

text \<open>How the agent loop sees an error; \<open>texts\<close> are the messages that the Python runtime chooses.\<close>

definition runner_exception :: "(runner_error \<Rightarrow> string) \<Rightarrow> runner_error \<Rightarrow> model_exception" where
  "runner_exception texts e =
     (case e of
        RRaised x \<Rightarrow> x
      | RIncompleteStream m \<Rightarrow> \<lparr>me_type = ''IncompleteResponseStreamError'', me_text = m\<rparr>
      | RTimeout m \<Rightarrow> \<lparr>me_type = ''TimeoutError'', me_text = m\<rparr>
      | RRuntimeError m \<Rightarrow> \<lparr>me_type = ''RuntimeError'', me_text = m\<rparr>
      | RJSONDecodeError m \<Rightarrow> \<lparr>me_type = ''JSONDecodeError'', me_text = m\<rparr>
      | RUnicodeDecodeError \<Rightarrow> \<lparr>me_type = ''UnicodeDecodeError'', me_text = texts e\<rparr>
      | RKeyError k \<Rightarrow> \<lparr>me_type = ''KeyError'', me_text = repr_str k\<rparr>
      | RTypeError \<Rightarrow> \<lparr>me_type = ''TypeError'', me_text = texts e\<rparr>
      | RAttributeError \<Rightarrow> \<lparr>me_type = ''AttributeError'', me_text = texts e\<rparr>
      | RNumber IntTypeError \<Rightarrow> \<lparr>me_type = ''TypeError'', me_text = texts e\<rparr>
      | RNumber IntValueError \<Rightarrow> \<lparr>me_type = ''ValueError'', me_text = texts e\<rparr>)"

type_synonym json_loads = "string \<Rightarrow> string + json"

definition loads_or_raise :: "json_loads \<Rightarrow> string \<Rightarrow> runner_error + json" where
  "loads_or_raise loads t = map_sum RJSONDecodeError id (loads t)"

lemma map_sum_eq [result_simps]:
  "map_sum f g r = Inr y \<longleftrightarrow> (\<exists>x. r = Inr x \<and> y = g x)"
  "map_sum f g r = Inl e \<longleftrightarrow> (\<exists>x. r = Inl x \<and> e = f x)"
  by (cases r; auto)+

section \<open>Payloads\<close>

definition runner_json_object :: "json_loads \<Rightarrow> json \<Rightarrow> runner_error + payload" where
  "runner_json_object loads v =
     (case v of
        JObj d \<Rightarrow> Inr d
      | _ \<Rightarrow> rbind (loads_or_raise loads (py_str v)) (\<lambda>parsed.
               case parsed of JObj d \<Rightarrow> Inr d | _ \<Rightarrow> Inl (RRuntimeError ''Expected JSON object'')))"

definition object_list :: "json \<Rightarrow> payload list" where
  "object_list v = (case v of JList xs \<Rightarrow> concat (map (\<lambda>x. case x of JObj d \<Rightarrow> [d] | _ \<Rightarrow> []) xs) | _ \<Rightarrow> [])"

definition key_of :: "payload \<Rightarrow> string \<Rightarrow> runner_error + json" where
  "key_of d k = (case map_of d k of None \<Rightarrow> Inl (RKeyError k) | Some v \<Rightarrow> Inr v)"

definition int_usage_value :: "json \<Rightarrow> runner_error + int" where
  "int_usage_value v = map_sum RNumber (\<lambda>i. max i 0) (py_int (py_or v (JInt 0)))"

definition response_usage :: "json \<Rightarrow> runner_error + json" where
  "response_usage v =
     (let usage = object_fields v
      in rbind (int_usage_value (obj_get usage ''input_tokens'')) (\<lambda>input_tokens.
         rbind (int_usage_value (obj_get usage ''output_tokens'')) (\<lambda>output_tokens.
         rbind (int_usage_value (obj_get usage ''total_tokens'')) (\<lambda>total_tokens.
         rbind (int_usage_value (obj_get (object_fields (obj_get usage ''input_tokens_details'')) ''cached_tokens'')) (\<lambda>cached.
         rbind (int_usage_value (obj_get (object_fields (obj_get usage ''output_tokens_details'')) ''reasoning_tokens'')) (\<lambda>reasoning.
           Inr (JObj [(''input_tokens'', JInt input_tokens), (''output_tokens'', JInt output_tokens),
             (''total_tokens'', JInt total_tokens), (''cached_input_tokens'', JInt cached),
             (''uncached_input_tokens'', JInt (max (input_tokens - cached) 0)), (''reasoning_tokens'', JInt reasoning)])))))))"

definition tool_call_item :: "json_loads \<Rightarrow> payload \<Rightarrow> runner_error + model_tool_call" where
  "tool_call_item loads item =
     rbind (key_of item ''call_id'') (\<lambda>call_id.
     rbind (key_of item ''name'') (\<lambda>name.
     rbind (runner_json_object loads (py_or (obj_get item ''arguments'') (JStr ''{}''))) (\<lambda>arguments.
       Inr \<lparr>mc_call_id = py_str call_id, mc_name = py_str name, mc_arguments = JObj arguments\<rparr>)))"

definition message_text :: "payload \<Rightarrow> string" where
  "message_text item =
     (if obj_get item ''type'' = JStr ''message''
      then concat (map (\<lambda>part. if obj_get part ''type'' = JStr ''output_text''
             then py_str (obj_get_default part ''text'' (JStr [])) else []) (object_list (obj_get item ''content'')))
      else [])"

fun function_calls :: "json_loads \<Rightarrow> payload list \<Rightarrow> runner_error + model_tool_call list" where
  "function_calls loads [] = Inr []"
| "function_calls loads (item # items) =
     (if obj_get item ''type'' = JStr ''function_call''
      then rbind (tool_call_item loads item) (\<lambda>c. rbind (function_calls loads items) (\<lambda>cs. Inr (c # cs)))
      else function_calls loads items)"

definition parse_response_payload :: "json_loads \<Rightarrow> payload \<Rightarrow> runner_error + model_response" where
  "parse_response_payload loads pl =
     (let output_items = object_list (obj_get pl ''output'')
      in rbind (function_calls loads output_items) (\<lambda>tool_calls.
         rbind (response_usage (obj_get pl ''usage'')) (\<lambda>usage.
         rbind (key_of pl ''id'') (\<lambda>response_id.
           Inr \<lparr>mr_response_id = py_str response_id, mr_output_text = concat (map message_text output_items),
             mr_tool_calls = tool_calls, mr_usage = usage, mr_output_items = Some output_items\<rparr>))))"

definition parse_compaction_payload :: "payload \<Rightarrow> runner_error + compaction_response" where
  "parse_compaction_payload pl =
     rbind (response_usage (obj_get pl ''usage'')) (\<lambda>usage.
       Inr \<lparr>cp_compaction_id = py_str (py_or (obj_get pl ''id'') (JStr [])), cp_output = object_list (obj_get pl ''output''),
         cp_usage = usage\<rparr>)"

section \<open>Events of a stream\<close>

datatype stream_item = Delta string | Tool_Call model_tool_call | Completed model_response | Tool_Call_Done payload | Ignored

definition parse_stream_event :: "json_loads \<Rightarrow> string \<Rightarrow> payload \<Rightarrow> runner_error + stream_item" where
  "parse_stream_event loads name pl =
     (if name = ''response.output_text.delta'' then Inr (Delta (py_str (obj_get_default pl ''delta'' (JStr []))))
      else if name = ''response.function_call_arguments.done''
      then (let item = (case obj_get pl ''item'' of JObj d \<Rightarrow> d | _ \<Rightarrow> pl)
            in if \<not> truthy (obj_get item ''call_id'') then Inr (Tool_Call_Done pl)
               else map_sum id Tool_Call (tool_call_item loads item))
      else if name = ''response.completed''
      then rbind (key_of pl ''response'') (\<lambda>response. rbind (runner_json_object loads response) (\<lambda>r.
             map_sum id Completed (parse_response_payload loads r)))
      else Inr Ignored)"

text \<open>
  \<^verbatim>\<open>StreamingResponseAccumulator\<close>. Items are looked up by a string only, so that an item stored under another kind of key
  is not kept here.
\<close>

record accumulator =
  fa_items :: "(string \<times> payload) list"
  fa_fragments :: "(string \<times> json list) list"
  fa_done :: "string list"

definition new_accumulator :: accumulator where
  "new_accumulator = \<lparr>fa_items = [], fa_fragments = [], fa_done = []\<rparr>"

definition dict_update :: "payload \<Rightarrow> payload \<Rightarrow> payload" where
  "dict_update d e = foldl (\<lambda>d (k, v). AList.update k v d) d e"

fun join_fragments :: "json list \<Rightarrow> runner_error + string" where
  "join_fragments [] = Inr []"
| "join_fragments (JStr s # fs) = rbind (join_fragments fs) (\<lambda>t. Inr (s @ t))"
| "join_fragments (_ # fs) = Inl RTypeError"

definition function_event_item_id :: "payload \<Rightarrow> string option" where
  "function_event_item_id pl =
     (if obj_get pl ''item_id'' \<noteq> JNull then Some (py_str (obj_get pl ''item_id''))
      else (let item = object_fields (obj_get pl ''item'')
            in if obj_get item ''id'' \<noteq> JNull then Some (py_str (obj_get item ''id'')) else None))"

definition accept_item_added :: "accumulator \<Rightarrow> payload \<Rightarrow> runner_error + accumulator \<times> stream_item" where
  "accept_item_added acc pl =
     (let item = object_fields (obj_get pl ''item'')
      in if obj_get item ''type'' = JStr ''function_call''
         then rbind (key_of item ''id'') (\<lambda>i.
                case i of
                  JStr k \<Rightarrow> Inr (acc\<lparr>fa_items := AList.update k item (fa_items acc)\<rparr>, Ignored)
                | JList _ \<Rightarrow> Inl RTypeError
                | JObj _ \<Rightarrow> Inl RTypeError
                | _ \<Rightarrow> Inr (acc, Ignored))
         else Inr (acc, Ignored))"

definition accept_arguments_delta :: "accumulator \<Rightarrow> payload \<Rightarrow> accumulator" where
  "accept_arguments_delta acc pl =
     (let item_id = obj_get pl ''item_id''; delta = obj_get_default pl ''delta'' (JStr [])
      in if truthy item_id \<and> truthy delta
         then acc\<lparr>fa_fragments := AList.update (py_str item_id)
                ((case map_of (fa_fragments acc) (py_str item_id) of None \<Rightarrow> [] | Some fs \<Rightarrow> fs) @ [delta]) (fa_fragments acc)\<rparr>
         else acc)"

definition accept_arguments_done :: "json_loads \<Rightarrow> accumulator \<Rightarrow> payload \<Rightarrow> runner_error + accumulator \<times> stream_item" where
  "accept_arguments_done loads acc pl =
     (let item_id = obj_get pl ''item_id'';
          known = (case map_of (fa_items acc) (py_str item_id) of None \<Rightarrow> [] | Some d \<Rightarrow> d);
          item = dict_update known (object_fields (obj_get pl ''item''))
      in rbind (if ''arguments'' \<in> fst ` set pl then Inr (AList.update ''arguments'' (obj_get pl ''arguments'') item)
                else case map_of (fa_fragments acc) (py_str item_id) of
                       Some fs \<Rightarrow> rbind (join_fragments fs) (\<lambda>t. Inr (AList.update ''arguments'' (JStr t) item))
                     | None \<Rightarrow> Inr item) (\<lambda>item.
           if \<not> truthy (obj_get item ''call_id'') \<or> \<not> truthy (obj_get item ''name'') then Inr (acc, Ignored)
           else rbind (tool_call_item loads item) (\<lambda>c.
             Inr (if truthy item_id then acc\<lparr>fa_done := List.insert (py_str item_id) (fa_done acc)\<rparr> else acc, Tool_Call c))))"

definition accept :: "json_loads \<Rightarrow> accumulator \<Rightarrow> string \<Rightarrow> payload \<Rightarrow> runner_error + accumulator \<times> stream_item" where
  "accept loads acc name pl =
     (if name = ''response.output_item.added'' then accept_item_added acc pl
      else if name = ''response.function_call_arguments.delta'' then Inr (accept_arguments_delta acc pl, Ignored)
      else if name = ''response.output_item.done''
      then (let item = object_fields (obj_get pl ''item'')
            in if obj_get item ''type'' \<noteq> JStr ''function_call'' then Inr (acc, Ignored)
               else rbind (tool_call_item loads item) (\<lambda>c. Inr (acc, Tool_Call c)))
      else rbind (parse_stream_event loads name pl) (\<lambda>parsed.
        case parsed of
          Tool_Call_Done done_payload \<Rightarrow> accept_arguments_done loads acc done_payload
        | Tool_Call c \<Rightarrow>
            Inr (case function_event_item_id pl of
                   Some (k # ks) \<Rightarrow> acc\<lparr>fa_done := List.insert (k # ks) (fa_done acc)\<rparr>
                 | _ \<Rightarrow> acc, parsed)
        | _ \<Rightarrow> Inr (acc, parsed)))"

text \<open>The events shown to the callback (\<^verbatim>\<open>events/model_stream_payloads.py\<close>).\<close>

definition completed_response_stream_payload :: "payload \<Rightarrow> payload" where
  "completed_response_stream_payload pl =
     (let response_id = (case obj_get pl ''response'' of JObj r \<Rightarrow> obj_get r ''id'' | _ \<Rightarrow> obj_get pl ''response_id'')
      in (''type'', JStr ''response.completed'') # (if truthy response_id then [(''response_id'', response_id)] else []))"

definition model_reasoning_summary_text_stream_payload :: "string \<Rightarrow> payload \<Rightarrow> (string \<times> payload) option" where
  "model_reasoning_summary_text_stream_payload name pl =
     (case (if name = ''response.reasoning_summary_text.delta'' then Some (''model_reasoning_summary.delta'', obj_get pl ''delta'')
            else if name = ''response.reasoning_summary_text.done'' then Some (''model_reasoning_summary.done'', obj_get pl ''text'')
            else None) of
        Some (ty, JStr (c # cs)) \<Rightarrow> Some (ty, summary_payload ty (c # cs) pl)
      | _ \<Rightarrow> None)"

definition model_stream_payloads_for_response_event :: "string \<Rightarrow> payload \<Rightarrow> (string \<times> payload) list" where
  "model_stream_payloads_for_response_event name pl =
     (case model_reasoning_summary_text_stream_payload name pl of
        Some ev \<Rightarrow> [ev]
      | None \<Rightarrow>
          if name = ''response.completed''
          then map (\<lambda>s. (''model_reasoning_summary'', s)) (model_reasoning_summary_stream_payloads pl) @
               [(''response.completed'', completed_response_stream_payload pl)]
          else [(name, pl)])"

section \<open>Reading a stream\<close>

record stream_state =
  st_texts :: "string list"
  st_calls :: "model_tool_call list"
  st_completed :: "model_response option"
  st_accumulator :: accumulator
  st_emitted :: "(string \<times> payload) list"

definition new_stream :: stream_state where
  "new_stream = \<lparr>st_texts = [], st_calls = [], st_completed = None, st_accumulator = new_accumulator, st_emitted = []\<rparr>"

definition take_item :: "stream_item \<Rightarrow> stream_state \<Rightarrow> stream_state" where
  "take_item item s =
     (case item of
        Delta t \<Rightarrow> s\<lparr>st_texts := st_texts s @ [t]\<rparr>
      | Tool_Call c \<Rightarrow> s\<lparr>st_calls := st_calls s @ [c]\<rparr>
      | Completed r \<Rightarrow> s\<lparr>st_completed := Some r\<rparr>
      | _ \<Rightarrow> s)"

definition emit_events :: "string \<Rightarrow> payload \<Rightarrow> stream_state \<Rightarrow> stream_state" where
  "emit_events name pl s = s\<lparr>st_emitted := st_emitted s @ model_stream_payloads_for_response_event name pl\<rparr>"

definition accept_into :: "json_loads \<Rightarrow> string \<Rightarrow> payload \<Rightarrow> stream_state \<Rightarrow> runner_error + stream_state \<times> stream_item" where
  "accept_into loads name pl s =
     rbind (accept loads (st_accumulator s) name pl) (\<lambda>(acc, item). Inr (s\<lparr>st_accumulator := acc\<rparr>, item))"

definition merge_completed :: "stream_state \<Rightarrow> model_response \<Rightarrow> model_response" where
  "merge_completed s r =
     (if st_texts s \<noteq> [] \<and> mr_output_text r = []
      then r\<lparr>mr_output_text := concat (st_texts s), mr_tool_calls := (if st_calls s \<noteq> [] then st_calls s else mr_tool_calls r)\<rparr>
      else if st_calls s \<noteq> [] \<and> mr_tool_calls r = [] then r\<lparr>mr_tool_calls := st_calls s\<rparr>
      else r)"

subsection \<open>Server-sent events\<close>

text \<open>A line of the response, with whether the call was cancelled by then, or an error of the connection.\<close>

datatype stream_read = Raw_Line bool bytes | Read_Fails model_exception

definition flush_stream_event :: "json_loads \<Rightarrow> string option \<Rightarrow> string list \<Rightarrow> runner_error + (string \<times> payload) option" where
  "flush_stream_event loads name data_lines =
     (case name of
        None \<Rightarrow> Inr None
      | Some n \<Rightarrow> if data_lines = [] then Inr None
          else rbind (runner_json_object loads (JStr (join_with [newline] data_lines))) (\<lambda>pl. Inr (Some (n, pl))))"

definition is_line_break :: "char \<Rightarrow> bool" where
  "is_line_break c = (c = CHR 0x0D \<or> c = newline)"

definition after_colon :: "string \<Rightarrow> string" where
  "after_colon line = py_strip (drop 1 (dropWhile (\<lambda>c. c \<noteq> CHR '':'') line))"

definition handle_event_payload :: "json_loads \<Rightarrow> (string \<times> payload) option \<Rightarrow> stream_state \<Rightarrow> runner_error + stream_state" where
  "handle_event_payload loads parsed s =
     (case parsed of
        None \<Rightarrow> Inr s
      | Some (name, pl) \<Rightarrow> rbind (accept_into loads name pl s) (\<lambda>(s1, item). Inr (take_item item (emit_events name pl s1))))"

fun read_sse_lines ::
  "json_loads \<Rightarrow> string option \<Rightarrow> string list \<Rightarrow> stream_read list \<Rightarrow> stream_state \<Rightarrow> runner_error option \<times> stream_state" where
  "read_sse_lines loads name data [] s = (None, s)"
| "read_sse_lines loads name data (Read_Fails x # rs) s = (Some (RRaised x), s)"
| "read_sse_lines loads name data (Raw_Line cancelled raw # rs) s =
     (if cancelled then (Some (RTimeout ''OpenAI Responses stream was cancelled''), s)
      else case utf8_decode raw of
        None \<Rightarrow> (Some RUnicodeDecodeError, s)
      | Some decoded \<Rightarrow>
          (let line = rstrip_by is_line_break decoded
           in if line = []
              then (case rbind (flush_stream_event loads name data) (\<lambda>parsed. handle_event_payload loads parsed s) of
                      Inl e \<Rightarrow> (Some e, s)
                    | Inr s1 \<Rightarrow> read_sse_lines loads None [] rs s1)
              else if starts_with ''event:'' line then read_sse_lines loads (Some (after_colon line)) data rs s
              else if starts_with ''data:'' line then read_sse_lines loads name (data @ [after_colon line]) rs s
              else read_sse_lines loads name data rs s))"

definition finish_stream :: "stream_state \<Rightarrow> runner_error + model_response" where
  "finish_stream s =
     (case st_completed s of
        None \<Rightarrow> Inl (RIncompleteStream ''OpenAI Responses stream ended before response.completed'')
      | Some r \<Rightarrow>
          if mr_response_id r = [] then Inl (RRuntimeError ''OpenAI Responses stream completed without response id'')
          else Inr (merge_completed s r))"

definition parse_stream_response :: "json_loads \<Rightarrow> stream_read list \<Rightarrow> (string \<times> payload) list \<times> (runner_error + model_response)" where
  "parse_stream_response loads lines =
     (case read_sse_lines loads None [] lines new_stream of
        (Some e, s) \<Rightarrow> (st_emitted s, Inl e)
      | (None, s) \<Rightarrow> (st_emitted s, finish_stream s))"

subsection \<open>Messages of a websocket\<close>

text \<open>
  What \<^verbatim>\<open>recv\<close> does next, with whether the call was cancelled before it. When the list ends, \<^verbatim>\<open>recv\<close> returns \<^verbatim>\<open>None\<close>.
  \<open>decode\<close> is \<^verbatim>\<open>decode("utf-8", errors="replace")\<close>.
\<close>

datatype ws_message = Ws_None | Ws_Text string | Ws_Bytes bytes

datatype ws_read = Ws_Received bool ws_message | Ws_Raises bool string

definition ws_incomplete :: string where
  "ws_incomplete = ''OpenAI Responses websocket stream ended before response.completed''"

definition parse_websocket_message :: "json_loads \<Rightarrow> (bytes \<Rightarrow> string) \<Rightarrow> ws_message \<Rightarrow> runner_error + payload" where
  "parse_websocket_message loads decode m =
     (let parse = (\<lambda>t. if py_strip t = [] then Inl (RIncompleteStream ws_incomplete)
        else case loads t of
               Inl _ \<Rightarrow> Inl (RRuntimeError ''OpenAI Responses WebSocket returned invalid JSON event'')
             | Inr (JObj d) \<Rightarrow> Inr d
             | Inr _ \<Rightarrow> Inl (RRuntimeError ''OpenAI Responses WebSocket returned non-object JSON event''))
      in case m of Ws_None \<Rightarrow> Inl (RIncompleteStream ws_incomplete) | Ws_Text t \<Rightarrow> parse t | Ws_Bytes b \<Rightarrow> parse (decode b))"

definition ws_event_name :: "payload \<Rightarrow> string" where
  "ws_event_name pl = py_str (py_or (obj_get pl ''type'') (JStr []))"

definition ws_error :: "payload \<Rightarrow> runner_error" where
  "ws_error pl =
     (let error = object_fields (obj_get pl ''error'');
          code = py_str (py_or (obj_get error ''code'') (py_or (obj_get pl ''status'') (JStr ''websocket_error'')));
          message = py_str (py_or (obj_get error ''message'') (JStr (json_dumps '', '' '': '' (JObj pl))))
      in RRuntimeError (''OpenAI Responses WebSocket failed: '' @ code @ '' '' @ message))"

fun parse_websocket_response ::
  "json_loads \<Rightarrow> (bytes \<Rightarrow> string) \<Rightarrow> ws_read list \<Rightarrow> stream_state \<Rightarrow>
   ws_read list \<times> (string \<times> payload) list \<times> (runner_error + model_response)" where
  "parse_websocket_response loads decode [] s = ([], st_emitted s, Inl (RIncompleteStream ws_incomplete))"
| "parse_websocket_response loads decode (Ws_Raises cancelled t # rs) s =
     (rs, st_emitted s, Inl (if cancelled then RTimeout ''OpenAI Responses websocket stream was cancelled''
        else RIncompleteStream (ws_incomplete @ '': '' @ t)))"
| "parse_websocket_response loads decode (Ws_Received cancelled m # rs) s =
     (if cancelled then (rs, st_emitted s, Inl (RTimeout ''OpenAI Responses websocket stream was cancelled''))
      else case parse_websocket_message loads decode m of
        Inl e \<Rightarrow> (rs, st_emitted s, Inl e)
      | Inr pl \<Rightarrow>
          if ws_event_name pl = ''error'' then (rs, st_emitted s, Inl (ws_error pl))
          else (let s1 = emit_events (ws_event_name pl) pl s
                in case accept_into loads (ws_event_name pl) pl s1 of
                     Inl e \<Rightarrow> (rs, st_emitted s1, Inl e)
                   | Inr (s2, Completed r) \<Rightarrow> (rs, st_emitted s2, Inr (merge_completed s2 r))
                   | Inr (s2, item) \<Rightarrow> parse_websocket_response loads decode rs (take_item item s2)))"

section \<open>Requests\<close>

record runner =
  rn_api_key :: string
  rn_base_url :: string
  rn_user_agent :: string

definition uses_websocket :: "string \<Rightarrow> bool" where
  "uses_websocket transport = (py_lower (py_strip transport) = ''websocket_v2'')"

definition is_slash :: "char \<Rightarrow> bool" where
  "is_slash c = (c = CHR ''/'')"

definition websocket_url :: "string \<Rightarrow> string" where
  "websocket_url base_url =
     (let url = rstrip_by is_slash base_url @ ''/responses''
      in if starts_with ''https://'' url then ''wss://'' @ drop 8 url
         else if starts_with ''http://'' url then ''ws://'' @ drop 7 url
         else url)"

record http_request =
  hq_url :: string
  hq_data :: bytes
  hq_headers :: "(string \<times> string) list"

definition post_request :: "runner \<Rightarrow> string \<Rightarrow> payload \<Rightarrow> http_request" where
  "post_request r path body =
     \<lparr>hq_url = rstrip_by is_slash (rn_base_url r) @ path,
      hq_data = utf8_encode (json_dumps_ascii '', '' '': '' (JObj body)),
      hq_headers = [(''Authorization'', ''Bearer '' @ rn_api_key r), (''Content-Type'', ''application/json''),
        (''User-Agent'', rn_user_agent r)]\<rparr>"

text \<open>
  The answer of the service: an HTTP error with its status and detail, another error of the connection, or a response with
  its content type, its lines and its body.
\<close>

datatype http_answer = Http_Error int string | Http_Raises model_exception | Http_Ok string "stream_read list" bytes

definition read_json_body :: "json_loads \<Rightarrow> bytes \<Rightarrow> runner_error + json" where
  "read_json_body loads body =
     (case utf8_decode body of None \<Rightarrow> Inl RUnicodeDecodeError | Some t \<Rightarrow> loads_or_raise loads t)"

definition failed_with :: "string \<Rightarrow> int \<Rightarrow> string \<Rightarrow> runner_error" where
  "failed_with api code detail = RRuntimeError (''OpenAI '' @ api @ '' failed: '' @ show_int code @ '' '' @ detail)"

definition create_response_sync ::
  "json_loads \<Rightarrow> (http_request \<Rightarrow> http_answer) \<Rightarrow> runner \<Rightarrow> payload \<Rightarrow> (string \<times> payload) list \<times> (runner_error + model_response)" where
  "create_response_sync loads http r request =
     (case http (post_request r ''/responses'' (AList.update ''stream'' (JBool True) request)) of
        Http_Error code detail \<Rightarrow> ([], Inl (failed_with ''Responses API'' code detail))
      | Http_Raises x \<Rightarrow> ([], Inl (RRaised x))
      | Http_Ok content_type lines body \<Rightarrow>
          if hd (split_on (CHR '';'') content_type) = ''text/event-stream'' then parse_stream_response loads lines
          else ([], rbind (read_json_body loads body) (\<lambda>v.
             case v of JObj d \<Rightarrow> parse_response_payload loads d | _ \<Rightarrow> Inl RAttributeError)))"

definition compact_response_sync ::
  "json_loads \<Rightarrow> (http_request \<Rightarrow> http_answer) \<Rightarrow> runner \<Rightarrow> payload \<Rightarrow> runner_error + compaction_response" where
  "compact_response_sync loads http r request =
     (case http (post_request r ''/responses/compact'' request) of
        Http_Error code detail \<Rightarrow> Inl (failed_with ''Responses compact API'' code detail)
      | Http_Raises x \<Rightarrow> Inl (RRaised x)
      | Http_Ok content_type lines body \<Rightarrow> rbind (read_json_body loads body) (\<lambda>v.
          case v of JObj d \<Rightarrow> parse_compaction_payload d | _ \<Rightarrow> Inl RAttributeError))"

text \<open>
  The websocket runner keeps one connection: what will still arrive on it, if it is open, how many were made and what was
  sent. \<open>connect\<close> and \<open>sends\<close> tell what connecting and sending do.
\<close>

record ws_runner =
  ws_connection :: "ws_read list option"
  ws_connections :: nat
  ws_sent :: "string list"

definition close_websocket :: "ws_runner \<Rightarrow> ws_runner" where
  "close_websocket w = w\<lparr>ws_connection := None\<rparr>"

definition get_websocket :: "(nat \<Rightarrow> model_exception + ws_read list) \<Rightarrow> ws_runner \<Rightarrow> model_exception + ws_read list \<times> ws_runner" where
  "get_websocket connect w =
     (case ws_connection w of
        Some incoming \<Rightarrow> Inr (incoming, w)
      | None \<Rightarrow> map_sum id (\<lambda>incoming. (incoming, w\<lparr>ws_connection := Some incoming, ws_connections := Suc (ws_connections w)\<rparr>))
                  (connect (ws_connections w)))"

definition websocket_body :: "payload \<Rightarrow> string" where
  "websocket_body request =
     json_dumps_ascii '', '' '': '' (JObj (AList.update ''type'' (JStr ''response.create'')
       (AList.delete ''background'' (AList.delete ''stream'' request))))"

definition websocket_create_response_sync ::
  "json_loads \<Rightarrow> (bytes \<Rightarrow> string) \<Rightarrow> (nat \<Rightarrow> model_exception + ws_read list) \<Rightarrow> (nat \<Rightarrow> model_exception option) \<Rightarrow> payload \<Rightarrow> ws_runner \<Rightarrow>
   ((string \<times> payload) list \<times> (runner_error + model_response)) \<times> ws_runner" where
  "websocket_create_response_sync loads decode connect sends request w =
     (case get_websocket connect w of
        Inl x \<Rightarrow> (([], Inl (RRaised x)), w)
      | Inr (incoming, w1) \<Rightarrow>
          (case sends (length (ws_sent w1)) of
             Some x \<Rightarrow> (([], Inl (RRaised x)), close_websocket w1)
           | None \<Rightarrow>
               (let w2 = w1\<lparr>ws_sent := ws_sent w1 @ [websocket_body request]\<rparr>;
                    (rest, events, result) = parse_websocket_response loads decode incoming new_stream
                in ((events, result), case result of
                     Inl _ \<Rightarrow> close_websocket w2
                   | Inr _ \<Rightarrow> w2\<lparr>ws_connection := Some rest\<rparr>))))"

text \<open>The runner as the agent loop calls it.\<close>

definition runner_create ::
  "(runner_error \<Rightarrow> string) \<Rightarrow> json_loads \<Rightarrow> (nat \<Rightarrow> http_request \<Rightarrow> http_answer) \<Rightarrow> runner \<Rightarrow> nat \<Rightarrow> payload \<Rightarrow>
   (string \<times> payload) list \<times> (model_exception + model_response)" where
  "runner_create texts loads http r k request =
     (let (events, result) = create_response_sync loads (http k) r request in (events, map_sum (runner_exception texts) id result))"

definition runner_compact ::
  "(runner_error \<Rightarrow> string) \<Rightarrow> json_loads \<Rightarrow> (nat \<Rightarrow> http_request \<Rightarrow> http_answer) \<Rightarrow> runner \<Rightarrow> nat \<Rightarrow> payload \<Rightarrow>
   model_exception + compaction_response" where
  "runner_compact texts loads http r k request = map_sum (runner_exception texts) id (compact_response_sync loads (http k) r request)"

section \<open>The two transports\<close>

text \<open>
  The same events in both encodings. An event is its name, the text of its payload and the payload; neither text is blank
  or has white space around it.
\<close>

definition plain_text :: "string \<Rightarrow> bool" where
  "plain_text t = (t \<noteq> [] \<and> py_strip t = t)"

definition wf_event :: "json_loads \<Rightarrow> string \<times> string \<times> payload \<Rightarrow> bool" where
  "wf_event loads = (\<lambda>(n, t, pl). plain_text n \<and> plain_text t \<and> loads t = Inr (JObj pl))"

definition event_bytes :: "string \<Rightarrow> bytes" where
  "event_bytes n = utf8_encode (''event: '' @ n @ [newline])"

definition data_bytes :: "string \<Rightarrow> bytes" where
  "data_bytes t = utf8_encode (''data: '' @ t @ [newline])"

definition sse_lines :: "string \<times> string \<times> payload \<Rightarrow> stream_read list" where
  "sse_lines = (\<lambda>(n, t, pl). map (Raw_Line False) [event_bytes n, data_bytes t, [newline]])"

definition ws_received :: "string \<times> string \<times> payload \<Rightarrow> ws_read" where
  "ws_received = (\<lambda>(n, t, pl). Ws_Received False (Ws_Text t))"

fun run_events :: "json_loads \<Rightarrow> (string \<times> string \<times> payload) list \<Rightarrow> stream_state \<Rightarrow> runner_error + stream_state" where
  "run_events loads [] s = Inr s"
| "run_events loads ((n, t, pl) # evs) s = rbind (handle_event_payload loads (Some (n, pl)) s) (run_events loads evs)"

lemma dropWhile_all: "list_all p xs \<Longrightarrow> dropWhile p xs = []"
  by (induction xs) auto

lemma plain_text_ends:
  assumes "plain_text t"
  shows "\<not> is_space (hd t)" "\<not> is_space (last t)"
proof -
  have t: "t \<noteq> []" "rev (dropWhile is_space (rev (dropWhile is_space t))) = t"
    using assms by (simp_all add: plain_text_def py_strip_def strip_by_def)
  have "length (dropWhile is_space (rev (dropWhile is_space t))) = length t" using t(2) by (metis length_rev)
  moreover have "length (dropWhile is_space (rev (dropWhile is_space t))) \<le> length (dropWhile is_space t)"
    using length_dropWhile_le [of is_space "rev (dropWhile is_space t)"] by simp
  ultimately have l: "length (dropWhile is_space t) = length t"
    using length_dropWhile_le [of is_space t] by linarith
  then have d: "dropWhile is_space t = t" by (metis append_Nil takeWhile_dropWhile_id length_append length_0_conv add_cancel_left_left)
  then show "\<not> is_space (hd t)" using hd_dropWhile [of is_space t] t(1) by simp
  from t(2) d have "dropWhile is_space (rev t) = rev t" by (metis rev_rev_ident)
  then show "\<not> is_space (last t)" using hd_dropWhile [of is_space "rev t"] t(1) by (simp add: hd_rev)
qed

lemma line_break_is_space: "is_line_break c \<Longrightarrow> is_space c"
  by (auto simp: is_line_break_def) (code_simp, code_simp)

lemma plain_line:
  assumes "plain_text t"
  shows "rstrip_by is_line_break (p @ t @ [newline]) = p @ t"
proof -
  from assms have t: "t \<noteq> []" by (simp add: plain_text_def)
  have "\<not> is_line_break (last t)" using plain_text_ends(2) [OF assms] line_break_is_space by blast
  then show ?thesis using t by (cases t rule: rev_cases) (auto simp: rstrip_by_def is_line_break_def)
qed

lemma strip_blank_plain: "plain_text t \<Longrightarrow> py_strip (CHR '' '' # t) = t"
  using plain_text_def by (simp add: py_strip_def strip_by_def is_space_def code_point_def)

lemma event_line:
  assumes "plain_text n"
  shows "read_sse_lines loads name data (Raw_Line False (event_bytes n) # rs) s =
    read_sse_lines loads (Some n) data rs s"
  using plain_line [OF assms, of "''event: ''"] strip_blank_plain [OF assms]
  by (simp add: Let_def starts_with_def after_colon_def event_bytes_def data_bytes_def)

lemma data_line:
  assumes "plain_text t"
  shows "read_sse_lines loads name data (Raw_Line False (data_bytes t) # rs) s =
    read_sse_lines loads name (data @ [t]) rs s"
  using plain_line [OF assms, of "''data: ''"] strip_blank_plain [OF assms]
  by (simp add: Let_def starts_with_def after_colon_def event_bytes_def data_bytes_def)

lemma blank_line:
  "read_sse_lines loads name data (Raw_Line False [newline] # rs) s =
    (case rbind (flush_stream_event loads name data) (\<lambda>parsed. handle_event_payload loads parsed s) of
       Inl e \<Rightarrow> (Some e, s) | Inr s1 \<Rightarrow> read_sse_lines loads None [] rs s1)"
proof -
  have "utf8_decode [newline] = Some [newline]" by code_simp
  then show ?thesis by (simp add: Let_def rstrip_by_def is_line_break_def)
qed

lemma read_event:
  assumes "wf_event loads ev" "ev = (n, t, pl)"
  shows "read_sse_lines loads None [] (sse_lines ev @ rs) s =
    (case handle_event_payload loads (Some (n, pl)) s of Inl e \<Rightarrow> (Some e, s) | Inr s1 \<Rightarrow> read_sse_lines loads None [] rs s1)"
proof -
  have wf: "plain_text n" "plain_text t" "loads t = Inr (JObj pl)" using assms by (simp_all add: wf_event_def)
  then have "flush_stream_event loads (Some n) [t] = Inr (Some (n, pl))"
    by (simp add: flush_stream_event_def runner_json_object_def loads_or_raise_def py_str_def)
  then show ?thesis
    by (simp only: assms(2) sse_lines_def prod.case list.map append.simps event_line [OF wf(1)] data_line [OF wf(2)] blank_line
        append_Nil rbind.simps)
qed

lemma read_events:
  "list_all (wf_event loads) evs \<Longrightarrow>
   (case run_events loads evs s of
      Inr s1 \<Rightarrow> read_sse_lines loads None [] (concat (map sse_lines evs)) s = (None, s1)
    | Inl e \<Rightarrow> fst (read_sse_lines loads None [] (concat (map sse_lines evs)) s) = Some e)"
proof (induction evs arbitrary: s)
  case (Cons ev evs)
  obtain n t pl where ev: "ev = (n, t, pl)" by (cases ev)
  show ?case
  proof (cases "handle_event_payload loads (Some (n, pl)) s")
    case (Inl e)
    then show ?thesis using Cons.prems ev by (simp add: read_event del: read_sse_lines.simps)
  next
    case (Inr s1)
    then show ?thesis using Cons.IH [of s1] Cons.prems ev
      by (cases "run_events loads evs s1") (simp_all add: read_event del: read_sse_lines.simps)
  qed
qed simp

lemma accept_into_emit: "accept_into loads n pl (emit_events n' pl' s) = map_sum id (\<lambda>(s1, item). (emit_events n' pl' s1, item)) (accept_into loads n pl s)"
  by (cases "accept loads (st_accumulator s) n pl") (auto simp: accept_into_def emit_events_def)

lemma added_item_ignored: "accept_item_added acc pl = Inr (acc', it) \<Longrightarrow> it = Ignored"
  by (cases "key_of (object_fields (obj_get pl ''item'')) ''id''"; cases "projr (key_of (object_fields (obj_get pl ''item'')) ''id'')")
    (auto simp: accept_item_added_def Let_def split: if_splits)

lemma done_item_call: "accept_arguments_done loads acc pl = Inr (acc', it) \<Longrightarrow> it = Ignored \<or> (\<exists>c. it = Tool_Call c)"
  by (auto simp: accept_arguments_done_def Let_def result_simps split: if_splits)

lemma parsed_completed: "parse_stream_event loads n pl = Inr (Completed r) \<Longrightarrow> n = ''response.completed''"
  by (auto simp: parse_stream_event_def Let_def result_simps split: if_splits)

lemma accept_completed_iff:
  "accept loads acc n pl = Inr (acc', Completed r) \<longleftrightarrow>
    n = ''response.completed'' \<and> acc' = acc \<and> parse_stream_event loads n pl = Inr (Completed r)"
proof
  assume a: "accept loads acc n pl = Inr (acc', Completed r)"
  then have "n \<noteq> ''response.output_item.added''" "n \<noteq> ''response.function_call_arguments.delta''" "n \<noteq> ''response.output_item.done''"
    by (auto simp: accept_def Let_def result_simps split: if_splits dest: added_item_ignored)
  then have "rbind (parse_stream_event loads n pl) (\<lambda>parsed. case parsed of
        Tool_Call_Done done_payload \<Rightarrow> accept_arguments_done loads acc done_payload
      | Tool_Call c \<Rightarrow> Inr (case function_event_item_id pl of
            Some (k # ks) \<Rightarrow> acc\<lparr>fa_done := List.insert (k # ks) (fa_done acc)\<rparr> | _ \<Rightarrow> acc, parsed)
      | _ \<Rightarrow> Inr (acc, parsed)) = Inr (acc', Completed r)" using a by (simp add: accept_def)
  then show "n = ''response.completed'' \<and> acc' = acc \<and> parse_stream_event loads n pl = Inr (Completed r)"
  proof (cases "parse_stream_event loads n pl")
    case (Inr parsed)
    with \<open>rbind _ _ = _\<close> show ?thesis by (cases parsed) (auto dest: done_item_call parsed_completed)
  qed simp
qed (auto simp: accept_def)

lemma handled_event:
  "handle_event_payload loads (Some (n, pl)) s = rbind (accept_into loads n pl s) (\<lambda>(s1, item). Inr (take_item item (emit_events n pl s1)))"
  by (simp add: handle_event_payload_def)

lemma emit_take: "take_item item (emit_events n pl s) = emit_events n pl (take_item item s)"
  by (simp add: take_item_def emit_events_def split: stream_item.split)

lemma ws_step:
  assumes "wf_event loads (n, t, pl)" "ws_event_name pl = n" "n \<noteq> ''error''"
  shows "parse_websocket_response loads decode (ws_received (n, t, pl) # rs) s =
    (case accept_into loads n pl s of
       Inl e \<Rightarrow> (rs, st_emitted (emit_events n pl s), Inl e)
     | Inr (s1, Completed r) \<Rightarrow> (rs, st_emitted (emit_events n pl s1), Inr (merge_completed s1 r))
     | Inr (s1, item) \<Rightarrow> parse_websocket_response loads decode rs (take_item item (emit_events n pl s1)))"
proof -
  have "parse_websocket_message loads decode (Ws_Text t) = Inr pl"
    using assms(1) by (simp add: wf_event_def parse_websocket_message_def plain_text_def)
  moreover have "merge_completed (emit_events n pl s1) r = merge_completed s1 r" for s1 r
    by (simp add: merge_completed_def emit_events_def)
  ultimately show ?thesis using assms(2,3)
    by (auto simp: ws_received_def Let_def accept_into_emit split: sum.split stream_item.split prod.split)
qed

definition ws_event :: "string \<times> string \<times> payload \<Rightarrow> bool" where
  "ws_event = (\<lambda>(n, t, pl). ws_event_name pl = n \<and> n \<noteq> ''error'')"

definition names_completion :: "string \<times> string \<times> payload \<Rightarrow> bool" where
  "names_completion = (\<lambda>(n, t, pl). n = ''response.completed'')"

lemma parse_completion: "parse_stream_event loads ''response.completed'' pl = Inr item \<Longrightarrow> \<exists>r. item = Completed r"
  by (auto simp: parse_stream_event_def result_simps)

lemma accept_completion:
  "accept_into loads ''response.completed'' pl s =
    map_sum id (\<lambda>item. (s, item)) (parse_stream_event loads ''response.completed'' pl)"
proof (cases "parse_stream_event loads ''response.completed'' pl")
  case (Inr item)
  then show ?thesis using parse_completion [OF Inr] by (auto simp: accept_into_def accept_def)
qed (simp add: accept_into_def accept_def)

lemma accept_into_completed:
  "accept_into loads n pl s = Inr (s1, Completed r) \<longleftrightarrow>
    n = ''response.completed'' \<and> s1 = s \<and> parse_stream_event loads n pl = Inr (Completed r)"
  by (auto simp: accept_into_def result_simps accept_completed_iff)

lemma ws_run:
  assumes "list_all (wf_event loads) evs" "list_all ws_event evs" "\<not> list_ex names_completion evs"
  shows "case run_events loads evs s of
      Inr s1 \<Rightarrow> parse_websocket_response loads decode (map ws_received evs @ rs) s = parse_websocket_response loads decode rs s1
    | Inl e \<Rightarrow> snd (snd (parse_websocket_response loads decode (map ws_received evs @ rs) s)) = Inl e"
  using assms
proof (induction evs arbitrary: s)
  case (Cons ev evs)
  obtain n t pl where ev: "ev = (n, t, pl)" by (cases ev)
  have n: "wf_event loads (n, t, pl)" "ws_event_name pl = n" "n \<noteq> ''error''" "n \<noteq> ''response.completed''"
    using Cons.prems ev by (auto simp: ws_event_def names_completion_def)
  show ?case
  proof (cases "accept_into loads n pl s")
    case (Inl e)
    then show ?thesis using ev ws_step [OF n(1-3)] by (simp add: handled_event)
  next
    case (Inr p)
    then obtain s1 item where p: "accept_into loads n pl s = Inr (s1, item)" by (cases p) auto
    then have "\<nexists>r. item = Completed r" using n(4) by (auto simp: accept_into_completed)
    then have "parse_websocket_response loads decode (map ws_received (ev # evs) @ rs) s =
      parse_websocket_response loads decode (map ws_received evs @ rs) (take_item item (emit_events n pl s1))"
      using ev p ws_step [OF n(1-3), of decode "map ws_received evs @ rs" s] by (cases item) simp_all
    moreover have "run_events loads (ev # evs) s = run_events loads evs (take_item item (emit_events n pl s1))"
      using ev p by (simp add: handled_event)
    ultimately show ?thesis using Cons.IH [of "take_item item (emit_events n pl s1)"] Cons.prems
      by (cases "run_events loads evs (take_item item (emit_events n pl s1))") simp_all
  qed
qed simp

lemma run_events_append: "run_events loads (evs @ fs) s = rbind (run_events loads evs s) (run_events loads fs)"
proof (induction evs arbitrary: s)
  case (Cons ev evs)
  obtain n t pl where "ev = (n, t, pl)" by (cases ev)
  then show ?case using Cons by (cases "handle_event_payload loads (Some (n, pl)) s") simp_all
qed simp

text \<open>
  C25: The two transports of the model API agree. Take any list of events that ends with the first
  \<^verbatim>\<open>response.completed\<close>, whatever their payloads; sent as server-sent events or as messages of a websocket (on which more may
  follow), they give the same response and the same events for the callback, except that only the websocket accepts a response
  with an empty id.
\<close>

theorem transports_agree:
  assumes "list_all (wf_event loads) (evs @ [final])" "list_all ws_event (evs @ [final])"
    and "\<not> list_ex names_completion evs" "names_completion final"
  shows "parse_stream_response loads (concat (map sse_lines (evs @ [final]))) = (events, Inr r) \<longleftrightarrow>
    snd (parse_websocket_response loads decode (map ws_received (evs @ [final]) @ later) new_stream) = (events, Inr r) \<and>
    mr_response_id r \<noteq> []"
proof -
  obtain t pl where final: "final = (''response.completed'', t, pl)" using assms(4) by (cases final) (auto simp: names_completion_def)
  have ws: "wf_event loads (''response.completed'', t, pl)" "ws_event_name pl = ''response.completed''"
    "''response.completed'' \<noteq> ''error''"
    using assms(1,2) final by (auto simp: ws_event_def)
  have lines: "case run_events loads (evs @ [final]) new_stream of
      Inr s1 \<Rightarrow> read_sse_lines loads None [] (concat (map sse_lines (evs @ [final]))) new_stream = (None, s1)
    | Inl e \<Rightarrow> fst (read_sse_lines loads None [] (concat (map sse_lines (evs @ [final]))) new_stream) = Some e"
    by (rule read_events [OF assms(1)])
  have msgs: "case run_events loads evs new_stream of
      Inr s1 \<Rightarrow> parse_websocket_response loads decode (map ws_received evs @ ws_received final # later) new_stream =
        parse_websocket_response loads decode (ws_received final # later) s1
    | Inl e \<Rightarrow> snd (snd (parse_websocket_response loads decode (map ws_received evs @ ws_received final # later) new_stream)) = Inl e"
    using ws_run [of loads evs] assms by simp
  show ?thesis
  proof (cases "run_events loads evs new_stream")
    case (Inl e)
    then show ?thesis using lines msgs by (auto simp: run_events_append parse_stream_response_def split: prod.split)
  next
    case (Inr s1)
    show ?thesis
    proof (cases "accept_into loads ''response.completed'' pl s1")
      case e: (Inl e)
      then show ?thesis using Inr lines msgs ws_step [OF ws, of decode later s1] final
        by (auto simp: run_events_append parse_stream_response_def handled_event split: prod.split)
    next
      case (Inr p)
      then obtain c where p: "accept_into loads ''response.completed'' pl s1 = Inr (s1, Completed c)"
        by (auto simp: accept_completion result_simps dest: parse_completion)
      then show ?thesis using \<open>run_events loads evs new_stream = Inr s1\<close> lines msgs ws_step [OF ws, of decode later s1] final
        by (auto simp: run_events_append parse_stream_response_def handled_event finish_stream_def take_item_def
          emit_events_def merge_completed_def split: prod.split)
    qed
  qed
qed

section \<open>No answer without a completed response\<close>

definition completed_by :: "json_loads \<Rightarrow> (string \<times> payload) list \<Rightarrow> model_response \<Rightarrow> bool" where
  "completed_by loads events c \<longleftrightarrow>
     (\<exists>pl. (''response.completed'', completed_response_stream_payload pl) \<in> set events \<and>
        parse_stream_event loads ''response.completed'' pl = Inr (Completed c))"

definition stream_ok :: "json_loads \<Rightarrow> stream_state \<Rightarrow> bool" where
  "stream_ok loads s = (\<forall>c. st_completed s = Some c \<longrightarrow> completed_by loads (st_emitted s) c)"

lemma emitted_grows: "set (st_emitted s) \<subseteq> set (st_emitted (emit_events n pl s))"
  by (simp add: emit_events_def)

lemma completion_emitted:
  "(''response.completed'', completed_response_stream_payload pl) \<in> set (st_emitted (emit_events ''response.completed'' pl s))"
  by (simp add: emit_events_def model_stream_payloads_for_response_event_def model_reasoning_summary_text_stream_payload_def)

lemma handled_ok:
  assumes "stream_ok loads s" "handle_event_payload loads parsed s = Inr s'"
  shows "stream_ok loads s'"
proof (cases parsed)
  case None
  then show ?thesis using assms by (simp add: handle_event_payload_def)
next
  case (Some ev)
  then obtain n pl where ev: "parsed = Some (n, pl)" by (cases ev) auto
  from assms(2) obtain s1 item where a: "accept_into loads n pl s = Inr (s1, item)" "s' = take_item item (emit_events n pl s1)"
    unfolding ev handled_event by (auto simp: result_simps)
  have s1: "st_completed s1 = st_completed s" "st_emitted s1 = st_emitted s"
    using a(1) by (auto simp: accept_into_def result_simps)
  have kept: "completed_by loads (st_emitted (emit_events n pl s1)) c" if "completed_by loads (st_emitted s) c" for c
    using that s1(2) emitted_grows [of s1 n pl] by (auto simp: completed_by_def)
  show ?thesis
  proof (cases "\<exists>r. item = Completed r")
    case True
    then obtain r where r: "item = Completed r" by blast
    have n: "n = ''response.completed''" "parse_stream_event loads n pl = Inr (Completed r)"
      using iffD1 [OF accept_into_completed a(1) [unfolded r]] by blast+
    have "completed_by loads (st_emitted (emit_events n pl s1)) r"
      unfolding completed_by_def using completion_emitted [of pl s1] n by (intro exI [of _ pl]) simp
    then show ?thesis using a(2) r by (simp add: stream_ok_def take_item_def)
  next
    case False
    then have "st_completed s' = st_completed s" "st_emitted s' = st_emitted (emit_events n pl s1)"
      using a(2) s1 by (cases item; simp add: take_item_def emit_events_def)+
    with kept assms(1) show ?thesis by (simp add: stream_ok_def)
  qed
qed

lemma read_ok: "stream_ok loads s \<Longrightarrow> stream_ok loads (snd (read_sse_lines loads name data rs s))"
proof (induction loads name data rs s rule: read_sse_lines.induct)
  case (3 loads name data cancelled raw rs s)
  show ?case
  proof (cases "cancelled \<or> utf8_decode raw = None")
    case True
    then show ?thesis using 3 by auto
  next
    case False
    then obtain decoded where d: "utf8_decode raw = Some decoded" "\<not> cancelled" by auto
    show ?thesis
    proof (cases "rbind (flush_stream_event loads name data) (\<lambda>parsed. handle_event_payload loads parsed s)")
      case (Inl e)
      then show ?thesis using 3 d by (simp add: Let_def)
    next
      case (Inr s1)
      then have "stream_ok loads s1" using 3 by (auto simp: result_simps intro: handled_ok)
      then show ?thesis using 3 d Inr by (simp add: Let_def)
    qed
  qed
qed simp_all

lemma merge_keeps:
  "mr_response_id (merge_completed s c) = mr_response_id c" "mr_usage (merge_completed s c) = mr_usage c"
  "mr_output_items (merge_completed s c) = mr_output_items c"
  by (simp_all add: merge_completed_def)

lemma ws_ok:
  assumes "stream_ok loads s" "parse_websocket_response loads decode rs s = (rest, events, Inr r)"
  shows "\<exists>c s'. completed_by loads events c \<and> r = merge_completed s' c"
  using assms
proof (induction rs arbitrary: s)
  case (Cons read rs)
  then obtain cancelled m where read: "read = Ws_Received cancelled m" by (cases read) auto
  with Cons.prems obtain pl where c: "\<not> cancelled" and pl: "parse_websocket_message loads decode m = Inr pl" "ws_event_name pl \<noteq> ''error''"
    by (auto split: if_splits sum.splits)
  let ?n = "ws_event_name pl"
  obtain s2 item where a: "accept_into loads ?n pl (emit_events ?n pl s) = Inr (s2, item)"
    using Cons.prems(2) read c pl by (auto simp: Let_def split: sum.splits)
  show ?case
  proof (cases "\<exists>q. item = Completed q")
    case True
    then obtain q where q: "item = Completed q" by blast
    have n: "?n = ''response.completed''" "s2 = emit_events ?n pl s" "parse_stream_event loads ?n pl = Inr (Completed q)"
      using iffD1 [OF accept_into_completed a [unfolded q]] by blast+
    have "completed_by loads (st_emitted s2) q"
      unfolding completed_by_def using completion_emitted [of pl s] n by (intro exI [of _ pl]) simp
    then show ?thesis using Cons.prems(2) read c pl a q by (auto simp: Let_def)
  next
    case False
    have h: "handle_event_payload loads (Some (?n, pl)) s = Inr (take_item item s2)"
      using a by (auto simp: handled_event accept_into_emit result_simps)
    have "parse_websocket_response loads decode rs (take_item item s2) = (rest, events, Inr r)"
      using Cons.prems(2) read c pl a False by (cases item) (simp_all add: Let_def)
    with Cons.IH handled_ok [OF Cons.prems(1) h] show ?thesis by blast
  qed
qed simp

text \<open>
  C26: The model's answer is never partial. Whatever arrives, in either transport, a response is returned only when a
  \<^verbatim>\<open>response.completed\<close> event arrived and could be parsed, and its id, usage and output items are those of that event; a
  stream that ends before, is cancelled or carries an event that cannot be parsed raises.
\<close>

theorem answer_needs_completion:
  assumes "parse_stream_response loads lines = (events, Inr r) \<or>
    parse_websocket_response loads decode messages new_stream = (rest, events, Inr r)"
  shows "\<exists>c. completed_by loads events c \<and> mr_response_id r = mr_response_id c \<and> mr_usage r = mr_usage c \<and>
    mr_output_items r = mr_output_items c"
  using assms
proof
  have start: "stream_ok loads new_stream" by (simp add: stream_ok_def new_stream_def)
  {
    assume "parse_stream_response loads lines = (events, Inr r)"
    then obtain s c where s: "read_sse_lines loads None [] lines new_stream = (None, s)" "events = st_emitted s"
      "st_completed s = Some c" "r = merge_completed s c"
      by (auto simp: parse_stream_response_def finish_stream_def split: prod.splits option.splits if_splits)
    then have "completed_by loads events c" using read_ok [OF start, of None "[]" lines] by (simp add: stream_ok_def)
    then show ?thesis using s(4) by (intro exI [of _ c]) (simp add: merge_keeps)
  next
    assume "parse_websocket_response loads decode messages new_stream = (rest, events, Inr r)"
    from ws_ok [OF start this] show ?thesis by (auto simp: merge_keeps)
  }
qed

section \<open>Arguments in fragments\<close>

definition item_added :: "string \<Rightarrow> string \<Rightarrow> string \<Rightarrow> string \<times> string \<times> payload" where
  "item_added i c n = (''response.output_item.added'', [], [(''item'', JObj [(''type'', JStr ''function_call''), (''id'', JStr i),
     (''call_id'', JStr c), (''name'', JStr n), (''arguments'', JStr [])])])"

definition arguments_delta :: "string \<times> string \<Rightarrow> string \<times> string \<times> payload" where
  "arguments_delta = (\<lambda>(i, f). (''response.function_call_arguments.delta'', [], [(''item_id'', JStr i), (''delta'', JStr f)]))"

definition arguments_done :: "string \<Rightarrow> string \<times> string \<times> payload" where
  "arguments_done i = (''response.function_call_arguments.done'', [], [(''item_id'', JStr i)])"

definition fragments_of :: "accumulator \<Rightarrow> string \<Rightarrow> json list" where
  "fragments_of acc i = (case map_of (fa_fragments acc) i of None \<Rightarrow> [] | Some fs \<Rightarrow> fs)"

lemma delta_fragments:
  assumes "j \<noteq> []" "f \<noteq> []"
  shows "fa_items (accept_arguments_delta acc [(''item_id'', JStr j), (''delta'', JStr f)]) = fa_items acc"
    "fragments_of (accept_arguments_delta acc [(''item_id'', JStr j), (''delta'', JStr f)]) i =
      fragments_of acc i @ (if j = i then [JStr f] else [])"
  using assms by (auto simp: accept_arguments_delta_def Let_def obj_get_def obj_get_default_def py_str_def fragments_of_def update_conv'
    split: option.splits)

lemma run_deltas:
  assumes "list_all (\<lambda>(j, f). j \<noteq> [] \<and> f \<noteq> []) deltas"
  obtains s' where "run_events loads (map arguments_delta deltas) s = Inr s'" "st_calls s' = st_calls s"
    "fa_items (st_accumulator s') = fa_items (st_accumulator s)"
    "fragments_of (st_accumulator s') i = fragments_of (st_accumulator s) i @ map JStr (map snd (filter (\<lambda>d. fst d = i) deltas))"
proof -
  have "\<exists>s'. run_events loads (map arguments_delta deltas) s = Inr s' \<and> st_calls s' = st_calls s \<and>
    fa_items (st_accumulator s') = fa_items (st_accumulator s) \<and>
    fragments_of (st_accumulator s') i = fragments_of (st_accumulator s) i @ map JStr (map snd (filter (\<lambda>d. fst d = i) deltas))"
    using assms
  proof (induction deltas arbitrary: s)
    case (Cons d deltas)
    obtain j f where d: "d = (j, f)" "j \<noteq> []" "f \<noteq> []" using Cons.prems by (cases d) auto
    let ?pl = "[(''item_id'', JStr j), (''delta'', JStr f)]"
    let ?s1 = "emit_events ''response.function_call_arguments.delta'' ?pl
      (s\<lparr>st_accumulator := accept_arguments_delta (st_accumulator s) ?pl\<rparr>)"
    have "run_events loads (map arguments_delta (d # deltas)) s = run_events loads (map arguments_delta deltas) ?s1"
      using d by (simp add: arguments_delta_def handled_event accept_into_def accept_def take_item_def)
    moreover have "st_calls ?s1 = st_calls s" "st_accumulator ?s1 = accept_arguments_delta (st_accumulator s) ?pl"
      by (simp_all add: emit_events_def)
    ultimately show ?case using Cons.IH [of ?s1] Cons.prems d delta_fragments [OF d(2,3)] by auto
  qed simp
  then show ?thesis using that by blast
qed

lemma join_strings: "join_fragments (map JStr fs) = Inr (concat fs)"
  by (induction fs) simp_all

text \<open>
  Arguments that arrive in pieces are put together again. The pieces of one call may be mixed with those of any other
  calls; when the call is done, its arguments are the JSON object whose text is the pieces in the order they arrived.
\<close>

theorem fragments_reassembled:
  assumes "list_all (\<lambda>(j, f). j \<noteq> [] \<and> f \<noteq> []) deltas" "i \<noteq> []" "c \<noteq> []" "n \<noteq> []"
    and "concat (map snd (filter (\<lambda>d. fst d = i) deltas)) = txt" "txt \<noteq> []" "loads txt = Inr (JObj args)"
  shows "map_sum id st_calls (run_events loads (item_added i c n # map arguments_delta deltas @ [arguments_done i]) new_stream) =
    Inr [\<lparr>mc_call_id = c, mc_name = n, mc_arguments = JObj args\<rparr>]"
proof -
  let ?item = "[(''type'', JStr ''function_call''), (''id'', JStr i), (''call_id'', JStr c), (''name'', JStr n), (''arguments'', JStr [])]"
  obtain s1 where s1: "run_events loads [item_added i c n] new_stream = Inr s1" "st_calls s1 = []"
    "fa_items (st_accumulator s1) = [(i, ?item)]" "fragments_of (st_accumulator s1) i = []"
    by (simp add: item_added_def handled_event accept_into_def accept_def accept_item_added_def obj_get_def object_fields_def
      key_of_def take_item_def emit_events_def new_stream_def new_accumulator_def fragments_of_def)
  from assms(1) obtain s2 where s2: "run_events loads (map arguments_delta deltas) s1 = Inr s2" "st_calls s2 = []"
    "fa_items (st_accumulator s2) = [(i, ?item)]" "fragments_of (st_accumulator s2) i = map JStr (map snd (filter (\<lambda>d. fst d = i) deltas))"
    by (rule run_deltas [of deltas loads s1 i]) (use s1 in auto)
  have "map snd (filter (\<lambda>d. fst d = i) deltas) \<noteq> []" using assms(5,6) by auto
  with s2(4) have frag: "map_of (fa_fragments (st_accumulator s2)) i = Some (map JStr (map snd (filter (\<lambda>d. fst d = i) deltas)))"
    by (auto simp: fragments_of_def split: option.splits)
  have parsed: "parse_stream_event loads ''response.function_call_arguments.done'' [(''item_id'', JStr i)] =
      Inr (Tool_Call_Done [(''item_id'', JStr i)])"
    by (simp add: parse_stream_event_def obj_get_def)
  have "accept_arguments_done loads (st_accumulator s2) [(''item_id'', JStr i)] =
      Inr ((st_accumulator s2)\<lparr>fa_done := List.insert i (fa_done (st_accumulator s2))\<rparr>,
        Tool_Call \<lparr>mc_call_id = c, mc_name = n, mc_arguments = JObj args\<rparr>)"
    using assms s2(3) frag join_strings [of "map snd (filter (\<lambda>d. fst d = i) deltas)"]
    by (simp add: accept_arguments_done_def obj_get_def py_str_def object_fields_def dict_update_def tool_call_item_def key_of_def
      py_or_def runner_json_object_def loads_or_raise_def)
  with parsed have "map_sum id st_calls (run_events loads [arguments_done i] s2) =
      Inr [\<lparr>mc_call_id = c, mc_name = n, mc_arguments = JObj args\<rparr>]"
    using s2(2) by (simp add: arguments_done_def handled_event accept_into_def accept_def take_item_def emit_events_def)
  moreover have "run_events loads (item_added i c n # map arguments_delta deltas @ [arguments_done i]) new_stream =
      run_events loads [arguments_done i] s2"
    using s1(1) s2(1) run_events_append [of loads "[item_added i c n]" "map arguments_delta deltas @ [arguments_done i]" new_stream]
    by (simp add: run_events_append)
  ultimately show ?thesis by simp
qed

section \<open>The agent loop and the runner\<close>

definition never_raises :: "'a agent_op \<Rightarrow> bool" where
  "never_raises m = (\<forall>s. \<exists>x s'. m s = (Inr x, s'))"

lemma never_raises_rules:
  "never_raises (return_op x)" "never_raises (gets_op f)" "never_raises (note_request q)" "never_raises (commit w g)"
  by (simp_all add: never_raises_def return_op_def gets_op_def note_request_def commit_def access_def Let_def)

lemma never_raises_then: "never_raises m \<Longrightarrow> (\<And>x. never_raises (k x)) \<Longrightarrow> never_raises (then_op m k)"
  unfolding never_raises_def then_op_def by (metis (mono_tags, lifting) old.prod.case sum.case(2))

lemma summary_never_raises: "never_raises (persist_model_reasoning_summary w s turn e name pl response_id)"
  by (simp add: persist_model_reasoning_summary_def stream_event_op_def never_raises_rules)

lemma summaries_never_raise: "never_raises (persist_summaries w s turn e response_id pls)"
  by (induction pls) (simp_all add: never_raises_rules never_raises_then summary_never_raises)

lemma callback_never_raises: "never_raises (on_raw_sse_event w s turn e b c ev)"
  by (cases c; cases ev) (simp add: on_raw_sse_event_def Let_def never_raises_rules never_raises_then summary_never_raises summaries_never_raise)

lemma run_callback_never_raises: "(\<And>c ev. never_raises (f c ev)) \<Longrightarrow> never_raises (run_callback f evs c)"
  by (induction evs arbitrary: c) (auto simp: never_raises_rules intro: never_raises_then)

definition stream_ended_early :: model_exception where
  "stream_ended_early = \<lparr>me_type = ''IncompleteResponseStreamError'', me_text = ''OpenAI Responses stream ended before response.completed''\<rparr>"

lemma stream_ended_early_kind:
  "is_retryable_model_exception stream_ended_early" "\<not> is_unsupported_context_management_error stream_ended_early"
  "me_type stream_ended_early \<noteq> ''CancelledModelStreamError''"
  by code_simp+

lemma create_response_result:
  assumes "\<And>c ev. never_raises (f c ev)" "aw_create w (ag_accesses st) request = (events, result)"
  obtains c1 st1 where "create_response w f request c st = (Inr (c1, result), st1)"
proof -
  obtain c1 st1 where "run_callback f events c (snd (note_request (Create_Response request) st)) = (Inr c1, st1)"
    using run_callback_never_raises [of f events c] assms(1) by (force simp: never_raises_def)
  then have "create_response w f request c st = (Inr (c1, result), st1)"
    using assms(2) by (simp add: create_response_def then_op_def gets_op_def note_request_def return_op_def)
  then show ?thesis by (rule that)
qed

subsection \<open>The rows of a turn and of its analysis\<close>

definition turn_rows :: "uuid \<Rightarrow> db \<Rightarrow> turn_row list" where
  "turn_rows turn st = filter (\<lambda>r. tu_id r = turn) (agent_turns st)"

definition analysis_rows :: "uuid \<Rightarrow> db \<Rightarrow> analysis_row list" where
  "analysis_rows a st = filter (\<lambda>r. an_id r = a) (analyses st)"

text \<open>Other processes write neither the turn nor the analysis while the handler runs.\<close>

definition others_leave :: "agent_world \<Rightarrow> uuid \<Rightarrow> uuid \<Rightarrow> bool" where
  "others_leave w turn a = (\<forall>k st. turn_rows turn (aw_others w k st) = turn_rows turn st \<and>
     analysis_rows a (aw_others w k st) = analysis_rows a st)"

definition rows_kept :: "agent_world \<Rightarrow> uuid \<Rightarrow> uuid \<Rightarrow> agent_state \<Rightarrow> agent_state \<Rightarrow> bool" where
  "rows_kept w turn a s s' = (others_leave w turn a \<longrightarrow>
     turn_rows turn (ag_db s') = turn_rows turn (ag_db s) \<and> analysis_rows a (ag_db s') = analysis_rows a (ag_db s))"

lemma bookkeeping_rows:
  assumes "bookkeeping_step st st'"
  shows "turn_rows turn st' = turn_rows turn st \<and> analysis_rows a st' = analysis_rows a st"
  using assms by cases (auto simp: turn_rows_def analysis_rows_def frame_simps)

interpretation rows: bookkeeping_relation "rows_kept w turn a" w for w turn a
  by unfold_locales (use bookkeeping_rows in \<open>auto simp: rows_kept_def others_leave_def\<close>)

definition failed_turn_row :: "int \<Rightarrow> turn_row \<Rightarrow> turn_row" where
  "failed_turn_row t r = r\<lparr>tu_status := ''failed'', tu_completed_at := Some t\<rparr>"

definition failed_analysis_row :: "int \<Rightarrow> string \<Rightarrow> string \<Rightarrow> analysis_row \<Rightarrow> analysis_row" where
  "failed_analysis_row t code message r =
     (if closed (an_status r) then r
      else r\<lparr>an_status := ''failed'', an_updated_at := t, an_completed_at := Some t, an_error_code := Some code,
             an_error_message := Some (take 4096 message)\<rparr>)"

lemma fail_turn_rows:
  "turn_rows turn (fail_turn d turn st) = map (failed_turn_row (now d)) (turn_rows turn st)"
  "analysis_rows a (fail_turn d turn st) = analysis_rows a st"
proof -
  have "turn_rows turn (fail_turn d turn st) = update_where (\<lambda>r. tu_id r = turn) (failed_turn_row (now d)) (turn_rows turn st)"
    by (simp add: turn_rows_def fail_turn_def failed_turn_row_def [abs_def] filter_update_where)
  then show "turn_rows turn (fail_turn d turn st) = map (failed_turn_row (now d)) (turn_rows turn st)"
    by (simp add: update_where_def turn_rows_def)
  show "analysis_rows a (fail_turn d turn st) = analysis_rows a st" by (simp add: analysis_rows_def fail_turn_def)
qed

lemma fail_analysis_rows:
  assumes "fail_analysis d a g code message st = (st', failed)"
  shows "turn_rows turn st' = turn_rows turn st" "analysis_rows a st' = map (failed_analysis_row (now d) code message) (analysis_rows a st)"
    "failed \<longleftrightarrow> any_row (\<lambda>r. \<not> closed (an_status r)) (analysis_rows a st)"
proof -
  let ?p = "\<lambda>r. an_id r = a \<and> \<not> closed (an_status r)"
  have an: "analyses st' = update_where ?p (failed_analysis_row (now d) code message) (analyses st)"
      and tu: "agent_turns st' = agent_turns st" and f: "failed \<longleftrightarrow> any_row ?p (analyses st)"
    using assms by (auto simp: fail_analysis_def close_analysis_def mark_repository_index_failed_def Let_def
        failed_analysis_row_def update_where_def split: if_splits)
  show "turn_rows turn st' = turn_rows turn st" by (simp add: turn_rows_def tu)
  have "analysis_rows a st' = update_where ?p (failed_analysis_row (now d) code message) (analysis_rows a st)"
    unfolding analysis_rows_def an by (rule filter_update_where) (simp add: failed_analysis_row_def)
  then show "analysis_rows a st' = map (failed_analysis_row (now d) code message) (analysis_rows a st)"
    by (auto simp: update_where_def analysis_rows_def failed_analysis_row_def)
  show "failed \<longleftrightarrow> any_row (\<lambda>r. \<not> closed (an_status r)) (analysis_rows a st)"
    unfolding f by (auto simp: analysis_rows_def list_ex_iff)
qed

definition failure_announced :: "uuid \<Rightarrow> db \<Rightarrow> bool" where
  "failure_announced a st = list_ex (\<lambda>r. event_type (ob_event r) = ANALYSIS_FAILED \<and> analysis_id (ob_event r) = Some a) (outbox_events st)"

lemma report_failure_result:
  "\<exists>st'. report_failure w e s pl turn state st = (Inr (), st') \<and> failure_announced (ss_analysis_id s) (ag_db st') \<and>
     rows_kept w t a st st'"
proof -
  obtain st' where st': "report_failure w e s pl turn state st = (Inr (), st')" "failure_announced (ss_analysis_id s) (ag_db st')"
    by (simp add: report_failure_def stream_event_op_def outbox_op_def then_op_def commit_def access_def Let_def
        failure_announced_def emit_def outbox_add_def envelope_new_def)
  moreover have "rows_kept w t a st st'" using rows.keeps_report [of w t a e s pl turn state] st'(1) by (metis keeps_def snd_conv)
  ultimately show ?thesis by blast
qed

text \<open>The end of a turn whose model call has failed for good.\<close>

lemma never_raises_fail_model_call: "never_raises (fail_model_call w e s turn x)"
proof -
  have access: "never_raises (fail_analysis_op w s code message)" for code message
    by (auto simp: fail_analysis_op_def never_raises_def access_def Let_def split: prod.splits)
  show ?thesis unfolding fail_model_call_def fail_and_report_def report_failure_def stream_event_op_def outbox_op_def
    by (intro never_raises_then never_raises_rules access) (simp add: never_raises_rules never_raises_then)
qed

lemma fail_model_call_effect:
  assumes "others_leave w turn (ss_analysis_id s)"
  shows "\<exists>st' t t'. fail_model_call w e s turn x st = (Inr (), st') \<and>
    turn_rows turn (ag_db st') = map (failed_turn_row t) (turn_rows turn (ag_db st)) \<and>
    analysis_rows (ss_analysis_id s) (ag_db st') =
      map (failed_analysis_row t' ''MODEL_CALL_FAILED'' (safe_error_message x)) (analysis_rows (ss_analysis_id s) (ag_db st)) \<and>
    (any_row (\<lambda>r. \<not> closed (an_status r)) (analysis_rows (ss_analysis_id s) (ag_db st)) \<longrightarrow>
       failure_announced (ss_analysis_id s) (ag_db st'))"
proof -
  let ?a = "ss_analysis_id s" and ?k = "ag_accesses st"
  let ?db1 = "fail_turn (aw_draws w ?k) turn (aw_others w ?k (ag_db st))"
  let ?db2 = "aw_others w (Suc ?k) ?db1"
  obtain db3 failed where f: "fail_analysis (aw_draws w (Suc ?k)) ?a (ss_agent_id s) ''MODEL_CALL_FAILED'' (safe_error_message x) ?db2 = (db3, failed)"
    by (cases rule: prod.exhaust)
  let ?st3 = "st\<lparr>ag_accesses := Suc (Suc ?k), ag_db := db3\<rparr>"
  let ?pl = "failure_payload ''MODEL_CALL_FAILED'' (safe_error_message x) [(''turn_count'', JInt (ss_turn_count s))]"
  have run: "fail_model_call w e s turn x st =
      (if failed then report_failure w e s ?pl (Some turn) (Some ''failed'') ?st3 else (Inr (), ?st3))"
    using f by (auto simp: fail_model_call_def fail_and_report_def fail_analysis_op_def then_op_def commit_def access_def Let_def return_op_def)
  have others: "turn_rows turn (aw_others w k y) = turn_rows turn y" "analysis_rows ?a (aw_others w k y) = analysis_rows ?a y" for k y
    using assms by (simp_all add: others_leave_def)
  note rows3 = fail_analysis_rows [OF f, unfolded others fail_turn_rows]
  show ?thesis
  proof (cases failed)
    case True
    from report_failure_result [of w e s ?pl "Some turn" "Some ''failed''" ?st3 turn ?a] obtain st' where
      "report_failure w e s ?pl (Some turn) (Some ''failed'') ?st3 = (Inr (), st')" "failure_announced ?a (ag_db st')" "rows_kept w turn ?a ?st3 st'"
      by blast
    with True run rows3 assms show ?thesis
      by (simp add: rows_kept_def fail_turn_rows others) blast
  next
    case False
    with run rows3 show ?thesis by (simp add: fail_turn_rows others) blast
  qed
qed

text \<open>
  C27: A model stream that breaks off is retried and, after the last attempt, ends the analysis. When the stream that
  answers the request of a turn ends without an error and without a completed response, the handler raises the exception that
  makes the consumer deliver the event again as long as attempts are left, and neither the turn nor the analysis is touched.
  When none is left it returns, the turn has failed, the analysis, if it was open, has failed with the code
  MODEL_CALL_FAILED and the text of the exception, and this is announced through the outbox. (What is said of the rows holds if
  no other process writes them meanwhile.)
\<close>

theorem broken_stream_retried:
  assumes "aw_create w = runner_create texts loads http r"
    and "limit_of s ''auto_compact_threshold_tokens'' = Inr threshold"
    and "http (ag_accesses st) (post_request r ''/responses''
        (AList.update ''stream'' (JBool True) (model_request_of cfg s cx threshold prev))) = Http_Ok ''text/event-stream'' lines body"
    and "read_sse_lines loads None [] lines new_stream = (None, final)" "st_completed final = None"
    and "attempt_number (attempt e) = Some n"
    and "call_model w cfg e s turn cx prev st = (res, st')"
  shows "res = (if n < model_retry_attempts cfg then Inl (AModel stream_ended_early) else Inr ()) \<and>
    (others_leave w turn (ss_analysis_id s) \<longrightarrow>
      (if n < model_retry_attempts cfg
       then turn_rows turn (ag_db st') = turn_rows turn (ag_db st) \<and>
            analysis_rows (ss_analysis_id s) (ag_db st') = analysis_rows (ss_analysis_id s) (ag_db st)
       else (\<exists>t t'. turn_rows turn (ag_db st') = map (failed_turn_row t) (turn_rows turn (ag_db st)) \<and>
              analysis_rows (ss_analysis_id s) (ag_db st') = map (failed_analysis_row t' ''MODEL_CALL_FAILED''
                ''OpenAI Responses stream ended before response.completed'') (analysis_rows (ss_analysis_id s) (ag_db st))) \<and>
            (any_row (\<lambda>r. \<not> closed (an_status r)) (analysis_rows (ss_analysis_id s) (ag_db st)) \<longrightarrow>
               failure_announced (ss_analysis_id s) (ag_db st'))))"
proof -
  let ?req = "model_request_of cfg s cx threshold prev" and ?a = "ss_analysis_id s"
  let ?cb = "on_raw_sse_event w s turn e (shows_summary cfg s)"
  have "aw_create w (ag_accesses st) ?req = (st_emitted final, Inl stream_ended_early)"
    using assms(1,3-5) by (simp add: runner_create_def create_response_sync_def parse_stream_response_def finish_stream_def
      runner_exception_def stream_ended_early_def)
  then obtain c1 st1 where c: "create_response w ?cb ?req ([], False) st = (Inr (c1, Inl stream_ended_early), st1)"
    by (rule create_response_result [of ?cb, OF callback_never_raises])
  then have call: "call_model w cfg e s turn cx prev st = handle_model_exception w cfg e s turn stream_ended_early st1"
    using assms(2) stream_ended_early_kind(2)
    by (simp add: call_model_def create_response_with_optional_context_management_def then_op_def lift_op_def return_op_def)
  have kept1: "rows_kept w turn ?a st st1"
    using rows.keeps_create_response [of w turn ?a ?cb ?req "([], False)", OF rows.keeps_on_event] c by (metis keeps_def snd_conv)
  show ?thesis
  proof (cases "n < model_retry_attempts cfg")
    case True
    let ?ev = "stream_event_op w s ''attempt_failed'' (attempt_failed_payload turn e stream_ended_early) (Some turn) (Some n) None (Some ''failed'')"
    obtain x st2 where ev: "?ev st1 = (Inr x, st2)"
      using never_raises_rules(4) [of w] by (force simp: stream_event_op_def never_raises_def)
    then have "rows_kept w turn ?a st1 st2" using rows.keeps_stream [of w turn ?a] by (metis keeps_def snd_conv)
    with kept1 have "rows_kept w turn ?a st st2" by (rule rows.rel_trans)
    moreover have "(res, st') = (Inl (AModel stream_ended_early), st2)"
      using assms(6,7) call ev True stream_ended_early_kind(1,3) by (auto simp: handle_model_exception_def then_op_def raise_op_def)
    ultimately show ?thesis using True by (simp add: rows_kept_def)
  next
    case False
    then have failed: "(res, st') = fail_model_call w e s turn stream_ended_early st1"
      using assms(6,7) call stream_ended_early_kind(1,3) by (auto simp: handle_model_exception_def)
    have returned: "res = Inr ()"
      using failed never_raises_fail_model_call [of w e s turn stream_ended_early] by (metis (full_types) never_raises_def old.unit.exhaust prod.inject)
    have message: "safe_error_message stream_ended_early = ''OpenAI Responses stream ended before response.completed''"
      by code_simp
    have effect: "(\<exists>t t'. turn_rows turn (ag_db st') = map (failed_turn_row t) (turn_rows turn (ag_db st)) \<and>
        analysis_rows ?a (ag_db st') = map (failed_analysis_row t' ''MODEL_CALL_FAILED''
          ''OpenAI Responses stream ended before response.completed'') (analysis_rows ?a (ag_db st))) \<and>
        (any_row (\<lambda>r. \<not> closed (an_status r)) (analysis_rows ?a (ag_db st)) \<longrightarrow> failure_announced ?a (ag_db st'))"
      if leave: "others_leave w turn ?a"
    proof -
      have "turn_rows turn (ag_db st1) = turn_rows turn (ag_db st)" "analysis_rows ?a (ag_db st1) = analysis_rows ?a (ag_db st)"
        using kept1 leave by (simp_all add: rows_kept_def)
      with fail_model_call_effect [OF leave, of e stream_ended_early st1, folded failed] show ?thesis unfolding message by force
    qed
    then show ?thesis using False returned by simp
  qed
qed

section \<open>Samples\<close>

definition table_loads :: "(string \<times> json) list \<Rightarrow> json_loads" where
  "table_loads tab t = (case map_of tab t of None \<Rightarrow> Inl ''Expecting value'' | Some v \<Rightarrow> Inr v)"

definition sample_completed :: "payload \<Rightarrow> payload" where
  "sample_completed response = [(''type'', JStr ''response.completed''), (''response'', JObj response)]"

definition sample_event_texts :: json_loads where
  "sample_event_texts = table_loads
     [(''d'', JObj [(''type'', JStr ''response.output_text.delta''), (''delta'', JStr ''Hi'')]),
      (''c'', JObj (sample_completed [(''id'', JStr ''r1''), (''output'', JList [])])),
      (''{}'', JObj [])]"

definition sample_delta :: "string \<times> string \<times> payload" where
  "sample_delta = (''response.output_text.delta'', ''d'', [(''type'', JStr ''response.output_text.delta''), (''delta'', JStr ''Hi'')])"

definition sample_final :: "string \<times> string \<times> payload" where
  "sample_final = (''response.completed'', ''c'', sample_completed [(''id'', JStr ''r1''), (''output'', JList [])])"

definition sample_stream_events :: "(string \<times> payload) list" where
  "sample_stream_events = [(''response.output_text.delta'', snd (snd sample_delta)),
     (''response.completed'', [(''type'', JStr ''response.completed''), (''response_id'', JStr ''r1'')])]"

definition sample_usage :: json where
  "sample_usage = JObj [(''input_tokens'', JInt 0), (''output_tokens'', JInt 0), (''total_tokens'', JInt 0),
     (''cached_input_tokens'', JInt 0), (''uncached_input_tokens'', JInt 0), (''reasoning_tokens'', JInt 0)]"

definition sample_response :: model_response where
  "sample_response = \<lparr>mr_response_id = ''r1'', mr_output_text = ''Hi'', mr_tool_calls = [], mr_usage = sample_usage, mr_output_items = Some []\<rparr>"

lemma sample_stream:
  "parse_stream_response sample_event_texts (concat (map sse_lines ([sample_delta] @ [sample_final]))) =
    (sample_stream_events, Inr sample_response)"
  by code_simp

theorem transports_agree_witness:
  "snd (parse_websocket_response sample_event_texts (\<lambda>b. b) (map ws_received ([sample_delta] @ [sample_final]) @ []) new_stream) =
    (sample_stream_events, Inr sample_response)"
proof -
  have "list_all (wf_event sample_event_texts) ([sample_delta] @ [sample_final])" "list_all ws_event ([sample_delta] @ [sample_final])"
    "\<not> list_ex names_completion [sample_delta]" "names_completion sample_final" by code_simp+
  from transports_agree [OF this, of sample_stream_events sample_response "\<lambda>b. b" "[]"] sample_stream show ?thesis by blast
qed

theorem answer_needs_completion_witness:
  "\<exists>c. completed_by sample_event_texts sample_stream_events c \<and> mr_response_id sample_response = mr_response_id c"
  using answer_needs_completion [OF disjI1 [OF sample_stream]] by blast

theorem fragments_reassembled_witness:
  "map_sum id st_calls (run_events (table_loads [(''{}'', JObj [])])
     (item_added ''i'' ''c'' ''n'' # map arguments_delta [(''i'', ''{''), (''j'', ''x''), (''i'', ''}'')] @ [arguments_done ''i'']) new_stream) =
   Inr [\<lparr>mc_call_id = ''c'', mc_name = ''n'', mc_arguments = JObj []\<rparr>]"
  by (rule fragments_reassembled) (simp_all add: table_loads_def)

definition sample_api_runner :: runner where
  "sample_api_runner = \<lparr>rn_api_key = ''k'', rn_base_url = ''https://api/v1/'', rn_user_agent = ''DeepDive/1.0''\<rparr>"

definition broken_world :: agent_world where
  "broken_world = sample_world\<lparr>aw_create := runner_create (\<lambda>_. []) sample_event_texts
     (\<lambda>_ _. Http_Ok ''text/event-stream'' (sse_lines sample_delta) []) sample_api_runner\<rparr>"

definition sample_context :: assembled_context where
  "sample_context = \<lparr>cx_instructions = [], cx_input = [], cx_input_ref = [], cx_tool_schema = [], cx_tool_schema_hash = [],
     cx_token_estimate = 1, cx_include = [], cx_tool_choice = None\<rparr>"

theorem broken_stream_retried_witness:
  "\<exists>st'. call_model broken_world sample_agent_config sample_event sample_session_state 7 sample_context False sample_agent_state =
    (Inl (AModel stream_ended_early), st') \<and> turn_rows 7 (ag_db st') = turn_rows 7 (ag_db sample_agent_state)"
proof -
  have create: "aw_create broken_world = runner_create (\<lambda>_. []) sample_event_texts
      (\<lambda>_ _. Http_Ok ''text/event-stream'' (sse_lines sample_delta) []) sample_api_runner"
    by (simp add: broken_world_def)
  have limit: "limit_of sample_session_state ''auto_compact_threshold_tokens'' = Inr 0" by code_simp
  obtain final where final: "read_sse_lines sample_event_texts None [] (sse_lines sample_delta) new_stream = (None, final)"
    "st_completed final = None"
  proof -
    have "fst (read_sse_lines sample_event_texts None [] (sse_lines sample_delta) new_stream) = None"
      "st_completed (snd (read_sse_lines sample_event_texts None [] (sse_lines sample_delta) new_stream)) = None" by code_simp+
    then show ?thesis using that by (metis prod.collapse)
  qed
  have n: "attempt_number (attempt sample_event) = Some 1" and "model_retry_attempts sample_agent_config = 3" by code_simp+
  moreover have "others_leave broken_world 7 a" for a by (simp add: others_leave_def broken_world_def sample_world_def)
  moreover obtain res st' where call: "call_model broken_world sample_agent_config sample_event sample_session_state 7 sample_context False
      sample_agent_state = (res, st')" by (cases rule: prod.exhaust)
  ultimately show ?thesis using broken_stream_retried [OF create limit refl final n call] by simp
qed

text \<open>The websocket returns a response with an empty id, which the other transport refuses.\<close>

definition empty_id_loads :: json_loads where
  "empty_id_loads = table_loads [(''c'', JObj (sample_completed [(''id'', JStr [])]))]"

lemma empty_id_differs:
  "snd (parse_stream_response empty_id_loads (sse_lines (''response.completed'', ''c'', []))) =
    Inl (RRuntimeError ''OpenAI Responses stream completed without response id'')"
  "map_sum id mr_response_id (snd (snd (parse_websocket_response empty_id_loads (\<lambda>b. b) [Ws_Received False (Ws_Text ''c'')] new_stream))) = Inr []"
  by code_simp+

text \<open>
  A call that is announced by both of its done events is recorded twice: the set of items whose arguments are done is
  never read. The calls of the stream are used when the completed response lists none.
\<close>

definition twice_announced :: "(string \<times> string \<times> payload) list" where
  "twice_announced =
     [(''response.function_call_arguments.done'', [], [(''item'', JObj [(''call_id'', JStr ''c''), (''name'', JStr ''n''), (''arguments'', JStr ''{}'')])]),
      (''response.output_item.done'', [], [(''item'', JObj [(''type'', JStr ''function_call''), (''call_id'', JStr ''c''), (''name'', JStr ''n''),
         (''arguments'', JStr ''{}'')])]),
      (''response.completed'', [], sample_completed [(''id'', JStr ''r1''), (''output'', JList [])])]"

lemma call_recorded_twice:
  "map_sum id (map mc_call_id o mr_tool_calls) (rbind (run_events sample_event_texts twice_announced new_stream) finish_stream) = Inr [''c'', ''c'']"
  by code_simp

text \<open>Only the first part of a reasoning summary is stored: the flag set by it discards the parts after it.\<close>

lemma later_summary_parts_dropped:
  "name \<noteq> ''model_reasoning_summary.delta'' \<Longrightarrow> on_raw_sse_event w s turn e b (fragments, True) (name, pl) = return_op (fragments, True)"
  by (simp add: on_raw_sse_event_def Let_def)

end
