(* ===== verification/Auth_Tokens.thy ===== *)
theory Auth_Tokens
  imports Sha256 Events
begin

text \<open>
  Passwords, access tokens and one-time tokens (\<^verbatim>\<open>backend/auth/passwords.py\<close>, \<^verbatim>\<open>jwt.py\<close>, \<^verbatim>\<open>tokens.py\<close>, \<^verbatim>\<open>oauth.py\<close>), with
  what they use of the standard library: URL-safe base64, HMAC and PBKDF2 over SHA-256. Clock readings are microseconds;
  random bytes and tokens are arguments, and so is \<^verbatim>\<open>json.loads\<close>, with the text of its error on the left.
\<close>

unbundle bit_operations_syntax

section \<open>Base64\<close>

definition b64_char :: "nat \<Rightarrow> char" where
  "b64_char n =
     (if n < 26 then char_at_code (65 + n)
      else if n < 52 then char_at_code (71 + n)
      else if n < 62 then char_at_code (n - 4)
      else if n = 62 then CHR ''-'' else CHR ''_'')"

fun b64_sextets :: "nat list \<Rightarrow> nat list" where
  "b64_sextets (a # b # c # rest) =
     a div 4 # (a mod 4 * 16 + b div 16) # (b mod 16 * 4 + c div 64) # c mod 64 # b64_sextets rest"
| "b64_sextets [a, b] = [a div 4, a mod 4 * 16 + b div 16, b mod 16 * 4]"
| "b64_sextets [a] = [a div 4, a mod 4 * 16]"
| "b64_sextets [] = []"

definition urlsafe_b64encode :: "bytes \<Rightarrow> string" where
  "urlsafe_b64encode bs = map b64_char (b64_sextets (map code_point bs)) @ replicate ((3 - length bs mod 3) mod 3) (CHR ''='')"

definition is_pad :: "char \<Rightarrow> bool" where
  "is_pad c = (c = CHR ''='')"

definition b64 :: "bytes \<Rightarrow> string" where
  "b64 bs = rstrip_by is_pad (urlsafe_b64encode bs)"

text \<open>
  \<^verbatim>\<open>binascii.a2b_base64\<close>, which is not strict: characters outside of the alphabet are skipped, the characters of both
  alphabets are accepted, and nothing is read after a complete padding. \<open>q\<close> is the position in the group of four, \<open>l\<close> the bits
  left over and \<open>p\<close> the padding seen; \<open>None\<close> is \<^verbatim>\<open>binascii.Error\<close>.
\<close>

definition b64_value :: "char \<Rightarrow> nat option" where
  "b64_value c = (let n = code_point c in
     if 65 \<le> n \<and> n \<le> 90 then Some (n - 65)
     else if 97 \<le> n \<and> n \<le> 122 then Some (n - 71)
     else if 48 \<le> n \<and> n \<le> 57 then Some (n + 4)
     else if c = CHR ''-'' \<or> c = CHR ''+'' then Some 62
     else if c = CHR ''_'' \<or> c = CHR ''/'' then Some 63
     else None)"

fun a2b_base64 :: "nat \<Rightarrow> nat \<Rightarrow> nat \<Rightarrow> string \<Rightarrow> nat list option" where
  "a2b_base64 q l p [] = (if q = 0 then Some [] else None)"
| "a2b_base64 q l p (c # cs) =
     (if is_pad c
      then (if q < 2 then a2b_base64 q l p cs else if q + (p + 1) \<ge> 4 then Some [] else a2b_base64 q l (p + 1) cs)
      else case b64_value c of
        None \<Rightarrow> a2b_base64 q l p cs
      | Some v \<Rightarrow>
          if q = 0 then a2b_base64 1 v 0 cs
          else if q = 1 then map_option (Cons (l * 4 + v div 16)) (a2b_base64 2 (v mod 16) 0 cs)
          else if q = 2 then map_option (Cons (l * 16 + v div 4)) (a2b_base64 3 (v mod 4) 0 cs)
          else map_option (Cons (l * 64 + v)) (a2b_base64 0 0 0 cs))"

definition is_ascii :: "char \<Rightarrow> bool" where
  "is_ascii c = (code_point c < 128)"

definition unb64 :: "string \<Rightarrow> bytes option" where
  "unb64 t =
     (if list_all is_ascii t
      then map_option (map char_at_code) (a2b_base64 0 0 0 (t @ replicate ((4 - length t mod 4) mod 4) (CHR ''='')))
      else None)"

section \<open>HMAC and PBKDF2\<close>

definition word_bytes :: "32 word \<Rightarrow> bytes" where
  "word_bytes w = map (\<lambda>i. char_at_code (unat w div 256 ^ i mod 256)) [3, 2, 1, 0]"

definition sha256_digest :: "bytes \<Rightarrow> bytes" where
  "sha256_digest bs = concat (map word_bytes (sha256_words bs))"

definition xor_bytes :: "nat \<Rightarrow> bytes \<Rightarrow> bytes" where
  "xor_bytes n bs = map (\<lambda>c. char_at_code (code_point c XOR n)) bs"

definition hmac_sha256 :: "bytes \<Rightarrow> bytes \<Rightarrow> bytes" where
  "hmac_sha256 key message =
     (let k = (if length key > 64 then sha256_digest key else key);
          block = k @ replicate (64 - length k) (char_at_code 0)
      in sha256_digest (xor_bytes 0x5C block @ sha256_digest (xor_bytes 0x36 block @ message)))"

fun pbkdf2_rounds :: "nat \<Rightarrow> bytes \<Rightarrow> bytes \<Rightarrow> bytes \<Rightarrow> bytes" where
  "pbkdf2_rounds 0 password u acc = acc"
| "pbkdf2_rounds (Suc n) password u acc =
     (let u' = hmac_sha256 password u
      in pbkdf2_rounds n password u' (map2 (\<lambda>a b. char_at_code (code_point a XOR code_point b)) acc u'))"

text \<open>One block, since the derived key is as long as the digest.\<close>

definition pbkdf2_hmac :: "bytes \<Rightarrow> bytes \<Rightarrow> nat \<Rightarrow> bytes" where
  "pbkdf2_hmac password salt iterations =
     (let u = hmac_sha256 password (salt @ map char_at_code [0, 0, 0, 1])
      in pbkdf2_rounds (iterations - 1) password u u)"

section \<open>Passwords\<close>

fun split_limit :: "nat \<Rightarrow> char \<Rightarrow> string \<Rightarrow> string list" where
  "split_limit 0 d s = [s]"
| "split_limit (Suc n) d s =
     (case dropWhile (\<lambda>c. c \<noteq> d) s of
        [] \<Rightarrow> [s]
      | _ # rest \<Rightarrow> takeWhile (\<lambda>c. c \<noteq> d) s # split_limit n d rest)"

definition PASSWORD_SCHEME :: string where
  "PASSWORD_SCHEME = ''pbkdf2_sha256''"

definition PASSWORD_ITERATIONS :: nat where
  "PASSWORD_ITERATIONS = 210000"

definition hash_password :: "bytes \<Rightarrow> string \<Rightarrow> string" where
  "hash_password salt password =
     join_with ''$'' [PASSWORD_SCHEME, show_nat PASSWORD_ITERATIONS, b64 salt,
       b64 (pbkdf2_hmac (utf8_encode password) salt PASSWORD_ITERATIONS)]"

text \<open>A stored number of iterations out of range makes \<^verbatim>\<open>pbkdf2_hmac\<close> raise outside of the \<^verbatim>\<open>try\<close>.\<close>

datatype password_error = PIterationsTooSmall | PIterationsTooLarge

definition verify_password :: "string \<Rightarrow> string \<Rightarrow> password_error + bool" where
  "verify_password password password_hash =
     (case split_limit 3 (CHR ''$'') password_hash of
        [scheme, iterations_text, salt_text, digest_text] \<Rightarrow>
          (if scheme \<noteq> PASSWORD_SCHEME then Inr False
           else case (parse_int iterations_text, unb64 salt_text, unb64 digest_text) of
             (Some iterations, Some salt, Some expected) \<Rightarrow>
               (if iterations < 1 then Inl PIterationsTooSmall
                else if iterations > 2147483647 then Inl PIterationsTooLarge
                else Inr (pbkdf2_hmac (utf8_encode password) salt (nat iterations) = expected))
           | _ \<Rightarrow> Inr False)
      | _ \<Rightarrow> Inr False)"

section \<open>Access tokens\<close>

text \<open>Errors other than \<^verbatim>\<open>JwtError\<close> leave \<^verbatim>\<open>decode_jwt\<close> as they are.\<close>

datatype jwt_error = JwtError string | JUnicodeEncodeError | JTypeError | JBinasciiError | JJsonError string

definition json_b64 :: "payload \<Rightarrow> string" where
  "json_b64 v = b64 (utf8_encode (json_dumps_ascii '','' '':'' (json_sorted (JObj v))))"

definition json_unb64 :: "(bytes \<Rightarrow> string + json) \<Rightarrow> string \<Rightarrow> jwt_error + payload" where
  "json_unb64 loads v =
     (case unb64 v of
        None \<Rightarrow> Inl JBinasciiError
      | Some decoded \<Rightarrow>
          (case loads decoded of
             Inl t \<Rightarrow> Inl (JJsonError t)
           | Inr (JObj d) \<Rightarrow> Inr d
           | Inr _ \<Rightarrow> Inl (JwtError ''JWT segment is not a JSON object'')))"

definition sign :: "string \<Rightarrow> string \<Rightarrow> string" where
  "sign value secret = b64 (hmac_sha256 (utf8_encode secret) value)"

definition unix_seconds :: "int \<Rightarrow> int" where
  "unix_seconds t = t div 1000000"

definition jwt_payload :: "payload \<Rightarrow> int \<Rightarrow> int \<Rightarrow> payload" where
  "jwt_payload claims at lifetime =
     AList.update ''exp'' (JInt (unix_seconds (at + lifetime))) (AList.update ''iat'' (JInt (unix_seconds at)) claims)"

definition jwt_header :: payload where
  "jwt_header = [(''alg'', JStr ''HS256''), (''typ'', JStr ''JWT'')]"

definition encode_jwt :: "payload \<Rightarrow> string \<Rightarrow> int \<Rightarrow> int \<Rightarrow> string" where
  "encode_jwt claims secret at lifetime =
     (let signing_input = json_b64 jwt_header @ ''.'' @ json_b64 (jwt_payload claims at lifetime)
      in signing_input @ ''.'' @ sign signing_input secret)"

definition expired :: "json \<Rightarrow> int \<Rightarrow> bool" where
  "expired expires_at at =
     (case expires_at of
        JInt i \<Rightarrow> i < unix_seconds at
      | JBool b \<Rightarrow> (if b then 1 else 0) < unix_seconds at
      | _ \<Rightarrow> True)"

definition decode_jwt :: "(bytes \<Rightarrow> string + json) \<Rightarrow> string \<Rightarrow> string \<Rightarrow> int \<Rightarrow> jwt_error + payload" where
  "decode_jwt loads token secret at =
     (case split_limit 2 (CHR ''.'') token of
        [header_text, payload_text, signature] \<Rightarrow>
          (let signing_input = header_text @ ''.'' @ payload_text
           in if \<not> list_all is_ascii signing_input then Inl JUnicodeEncodeError
              else if \<not> list_all is_ascii signature then Inl JTypeError
              else if signature \<noteq> sign signing_input secret then Inl (JwtError ''Invalid token signature'')
              else rbind (json_unb64 loads header_text) (\<lambda>header.
                   if obj_get header ''alg'' \<noteq> JStr ''HS256'' then Inl (JwtError ''Unsupported token algorithm'')
                   else rbind (json_unb64 loads payload_text) (\<lambda>pl.
                     if expired (obj_get pl ''exp'') at then Inl (JwtError ''Expired token'') else Inr pl)))
      | _ \<Rightarrow> Inl (JwtError ''Malformed token''))"

section \<open>One-time tokens\<close>

text \<open>
  The in-memory stores of refresh tokens, OAuth states and exchange codes are dictionaries from a token to a value with the
  time when it expires; \<^verbatim>\<open>pop\<close> removes the entry also when it has expired.
\<close>

type_synonym 'v token_store = "(string \<times> ('v \<times> int)) list"

definition store_put :: "string \<Rightarrow> 'v \<Rightarrow> int \<Rightarrow> 'v token_store \<Rightarrow> 'v token_store" where
  "store_put k v expires_at st = AList.update k (v, expires_at) st"

definition store_pop :: "string \<Rightarrow> int \<Rightarrow> 'v token_store \<Rightarrow> 'v option \<times> 'v token_store" where
  "store_pop k at st =
     (case map_of st k of
        None \<Rightarrow> (None, st)
      | Some (v, expires_at) \<Rightarrow> (if expires_at < at then None else Some v, AList.delete k st))"

text \<open>
  The stores on Redis, whose client is an argument: \<^verbatim>\<open>setex\<close> with a time to live in seconds and \<^verbatim>\<open>getdel\<close>, on a state of
  their own.
\<close>

record 'r redis_client =
  rd_setex :: "string \<Rightarrow> int \<Rightarrow> string \<Rightarrow> int \<Rightarrow> 'r \<Rightarrow> 'r"
  rd_getdel :: "string \<Rightarrow> int \<Rightarrow> 'r \<Rightarrow> string option \<times> 'r"

definition redis_key :: "string \<Rightarrow> string \<Rightarrow> string" where
  "redis_key prefix_text token = rstrip_by (\<lambda>c. c = CHR '':'') prefix_text @ '':'' @ token"

definition redis_refresh_put :: "'r redis_client \<Rightarrow> string \<Rightarrow> string \<Rightarrow> string \<Rightarrow> int \<Rightarrow> int \<Rightarrow> 'r \<Rightarrow> 'r" where
  "redis_refresh_put c p token_hash user_id expires_at at st =
     rd_setex c (redis_key p token_hash) (max 1 (unix_seconds (expires_at - at))) user_id at st"

definition redis_pop :: "'r redis_client \<Rightarrow> string \<Rightarrow> string \<Rightarrow> int \<Rightarrow> 'r \<Rightarrow> string option \<times> 'r" where
  "redis_pop c p token at st = rd_getdel c (redis_key p token) at st"

definition redis_state_create :: "'r redis_client \<Rightarrow> string \<Rightarrow> string \<Rightarrow> string option \<Rightarrow> int \<Rightarrow> int \<Rightarrow> 'r \<Rightarrow> 'r" where
  "redis_state_create c p state redirect_to ttl_seconds at st =
     rd_setex c (redis_key p state) ttl_seconds (case redirect_to of None \<Rightarrow> [] | Some t \<Rightarrow> t) at st"

definition redis_state_pop :: "'r redis_client \<Rightarrow> string \<Rightarrow> string \<Rightarrow> int \<Rightarrow> 'r \<Rightarrow> string option option \<times> 'r" where
  "redis_state_pop c p state at st =
     (let (v, st') = redis_pop c p state at st
      in (map_option (\<lambda>t. if t = [] then None else Some t) v, st'))"

definition redis_code_create :: "'r redis_client \<Rightarrow> string \<Rightarrow> string \<Rightarrow> string \<Rightarrow> int \<Rightarrow> int \<Rightarrow> 'r \<Rightarrow> 'r" where
  "redis_code_create c p code user_id ttl_seconds at st = rd_setex c (redis_key p code) ttl_seconds user_id at st"

section \<open>Encoding and decoding\<close>

lemma b64_char_code:
  "n < 64 \<Longrightarrow> code_point (b64_char n) = (if n < 26 then 65 + n else if n < 52 then 71 + n else if n < 62 then n - 4 else if n = 62 then 45 else 95)"
  by (auto simp: b64_char_def) (simp_all add: code_point_def)

lemma code_point_literals:
  "code_point (CHR ''='') = 61" "code_point (CHR ''.'') = 46" "code_point (CHR ''$'') = 36" "code_point (CHR ''-'') = 45"
  "code_point (CHR ''_'') = 95" "code_point (CHR ''+'') = 43" "code_point (CHR ''/'') = 47"
  by (simp_all add: code_point_def)

lemma b64_char_neq:
  assumes "n < 64"
  shows "b64_char n \<noteq> CHR ''=''" "b64_char n \<noteq> CHR ''.''" "b64_char n \<noteq> CHR ''$''" "is_ascii (b64_char n)"
  using b64_char_code [OF assms] code_point_literals assms
  by (auto simp: is_ascii_def dest!: arg_cong [of "b64_char n" _ code_point] split: if_splits)

lemma b64_value_char: "n < 64 \<Longrightarrow> b64_value (b64_char n) = Some n"
proof -
  assume "n < 64"
  then consider "n < 62" | "n = 62" | "n = 63" by linarith
  then show ?thesis
  proof cases
    case 1
    then show ?thesis by (auto simp: b64_value_def b64_char_code Let_def)
  qed (simp_all add: b64_value_def b64_char_def code_point_literals)
qed

lemma sextets_less: "list_all (\<lambda>b. b < 256) bs \<Longrightarrow> list_all (\<lambda>n. n < 64) (b64_sextets bs)"
  by (induction bs rule: b64_sextets.induct) auto

lemma sextets_length: "(4 - length (b64_sextets bs) mod 4) mod 4 = (3 - length bs mod 3) mod 3"
  by (induction bs rule: b64_sextets.induct) (simp_all add: mod_simps)

lemma decode_sextet:
  assumes "n < 64"
  shows "a2b_base64 q l p (b64_char n # cs) =
     (if q = 0 then a2b_base64 1 n 0 cs
      else if q = 1 then map_option (Cons (l * 4 + n div 16)) (a2b_base64 2 (n mod 16) 0 cs)
      else if q = 2 then map_option (Cons (l * 16 + n div 4)) (a2b_base64 3 (n mod 4) 0 cs)
      else map_option (Cons (l * 64 + n)) (a2b_base64 0 0 0 cs))"
  using b64_value_char [OF assms] b64_char_neq(1) [OF assms] by (simp add: is_pad_def)

lemma decode_padding:
  "a2b_base64 2 l 0 (replicate 2 (CHR ''='')) = Some []" "a2b_base64 3 l 0 ''='' = Some []"
  by (simp_all add: is_pad_def numeral_2_eq_2)

lemma decode_sextets:
  "list_all (\<lambda>b. b < 256) bs \<Longrightarrow>
   a2b_base64 0 0 0 (map b64_char (b64_sextets bs) @ replicate ((3 - length bs mod 3) mod 3) (CHR ''='')) = Some bs"
proof (induction bs rule: b64_sextets.induct)
  case (1 a b c rest)
  then have "a div 4 < 64" "a mod 4 * 16 + b div 16 < 64" "b mod 16 * 4 + c div 64 < 64" "c mod 64 < 64" by auto
  moreover from 1 have "b div 16 div 16 = 0" "b div 16 mod 16 = b div 16" "c div 64 div 4 = 0" "c div 64 mod 4 = c div 64" by auto
  ultimately show ?case using 1 by (simp add: decode_sextet del: a2b_base64.simps(2))
next
  case (2 a b)
  then have "a div 4 < 64" "a mod 4 * 16 + b div 16 < 64" "b mod 16 * 4 < 64" by auto
  moreover from 2 have "b div 16 div 16 = 0" "b div 16 mod 16 = b div 16" by auto
  ultimately show ?case using 2 by (simp add: decode_sextet decode_padding del: a2b_base64.simps(2))
next
  case (3 a)
  then have "a div 4 < 64" "a mod 4 * 16 < 64" by auto
  with 3 show ?case by (simp add: decode_sextet decode_padding del: a2b_base64.simps(2))
qed simp

lemma bytes_less: "list_all (\<lambda>b. b < 256) (map code_point bs)"
  by (simp add: list_all_iff)

lemma b64_chars: "b64 bs = map b64_char (b64_sextets (map code_point bs))"
proof -
  let ?t = "map b64_char (b64_sextets (map code_point bs))"
  have pads: "dropWhile is_pad (replicate n (CHR ''='') @ xs) = dropWhile is_pad xs" for n xs
    by (rule dropWhile_append2) (simp add: is_pad_def)
  have "\<forall>c \<in> set (rev ?t). \<not> is_pad c"
    using sextets_less [OF bytes_less, of bs] b64_char_neq(1) by (auto simp: list_all_iff is_pad_def)
  then have "dropWhile is_pad (rev ?t) = rev ?t"
    by (metis dropWhile_eq_self_iff hd_in_set)
  then show ?thesis by (simp add: b64_def urlsafe_b64encode_def rstrip_by_def pads)
qed

lemma b64_avoids: "c \<in> set (b64 bs) \<Longrightarrow> c \<noteq> CHR ''.'' \<and> c \<noteq> CHR ''$'' \<and> is_ascii c"
  using sextets_less [OF bytes_less, of bs] b64_char_neq by (auto simp: b64_chars list_all_iff)

lemma unb64_b64 [simp]: "unb64 (b64 bs) = Some bs"
proof -
  have "list_all is_ascii (b64 bs)" using b64_avoids by (auto simp: list_all_iff)
  moreover have "(4 - length (b64 bs) mod 4) mod 4 = (3 - length bs mod 3) mod 3"
    using sextets_length [of "map code_point bs"] by (simp add: b64_chars)
  ultimately show ?thesis using decode_sextets [OF bytes_less, of bs] by (simp add: unb64_def b64_chars comp_def)
qed

lemma split_limit_append: "d \<notin> set p \<Longrightarrow> split_limit (Suc n) d (p @ d # s) = p # split_limit n d s"
  by (auto simp: dropWhile_append takeWhile_append)


lemma split_limit_whole: "d \<notin> set s \<Longrightarrow> split_limit n d s = [s]"
proof (cases n)
  case (Suc m)
  assume "d \<notin> set s"
  then have "dropWhile (\<lambda>c. c \<noteq> d) s = []" by (auto simp: dropWhile_eq_Nil_conv)
  then show ?thesis by (simp only: Suc split_limit.simps list.case)
qed simp

lemma split_limit_join: "split_limit n d s = ps \<Longrightarrow> s = join_with [d] ps"
proof (induction n d s arbitrary: ps rule: split_limit.induct)
  case (2 n d s)
  show ?case
  proof (cases "dropWhile (\<lambda>c. c \<noteq> d) s")
    case Nil
    with 2 show ?thesis by auto
  next
    case (Cons x rest)
    then have "x = d" using hd_dropWhile [of "\<lambda>c. c \<noteq> d" s] by auto
    then have "s = takeWhile (\<lambda>c. c \<noteq> d) s @ d # rest" using Cons takeWhile_dropWhile_id [of "\<lambda>c. c \<noteq> d" s] by simp
    moreover have "split_limit n d rest \<noteq> []" by (cases n) (simp_all split: list.splits)
    ultimately show ?thesis using 2 Cons by (cases "split_limit n d rest") auto
  qed
qed auto

lemma show_nat_avoids: "CHR ''$'' \<notin> set (show_nat n)"
  using show_nat_digits [of "CHR ''$''" n] by (auto simp: is_digit_def code_point_def)

lemma b64_no_dot: "CHR ''.'' \<notin> set (b64 bs)" and b64_no_dollar: "CHR ''$'' \<notin> set (b64 bs)"
  using b64_avoids by blast+

lemma b64_ascii: "list_all is_ascii (b64 bs)"
  using b64_avoids by (auto simp: list_all_iff)

lemma scheme_avoids: "CHR ''$'' \<notin> set PASSWORD_SCHEME"
  by (simp add: PASSWORD_SCHEME_def)

lemma split_hash:
  "split_limit 3 (CHR ''$'') (hash_password salt password) =
     [PASSWORD_SCHEME, show_nat PASSWORD_ITERATIONS, b64 salt,
      b64 (pbkdf2_hmac (utf8_encode password) salt PASSWORD_ITERATIONS)]"
  unfolding hash_password_def numeral_3_eq_3
  by (simp only: join_with.simps append_Cons append_Nil append_assoc split_limit_append [OF scheme_avoids]
    split_limit_append [OF show_nat_avoids] split_limit_append [OF b64_no_dollar] split_limit_whole [OF b64_no_dollar])

lemma map_of_filter_key: "map_of (filter (\<lambda>e. fst e = k) d) k = map_of d k"
  by (induction d) auto

lemma map_of_sort_key: "map_of (sort_key fst d) k = map_of d k"
  using map_of_filter_key [of k d] map_of_filter_key [of k "sort_key fst d"] by (simp add: sort_key_stable)

definition json_fields :: "payload \<Rightarrow> payload" where
  "json_fields d = sort_key fst (map (\<lambda>(k, v). (k, json_sorted v)) d)"

lemma obj_get_fields: "obj_get (json_fields d) k = json_sorted (obj_get d k)"
  by (simp add: obj_get_def json_fields_def map_of_sort_key map_of_map split: option.split)

text \<open>The text of a segment before its base64 encoding.\<close>

definition segment :: "payload \<Rightarrow> bytes" where
  "segment d = utf8_encode (json_dumps_ascii '','' '':'' (JObj (json_fields d)))"

lemma json_b64_segment: "json_b64 d = b64 (segment d)"
  by (simp add: json_b64_def segment_def json_fields_def)

lemma json_unb64_b64: "loads (segment d) = Inr (JObj (json_fields d)) \<Longrightarrow> json_unb64 loads (json_b64 d) = Inr (json_fields d)"
  by (simp add: json_unb64_def json_b64_segment)

lemma sign_no_dot: "list_all is_ascii (sign v secret)"
  by (simp add: sign_def b64_ascii)

lemma split_token:
  "split_limit 2 (CHR ''.'') (json_b64 h @ ''.'' @ json_b64 p @ ''.'' @ sg) = [json_b64 h, json_b64 p, sg]"
  unfolding numeral_2_eq_2 json_b64_segment
  by (simp only: append_Cons append_Nil split_limit_append [OF b64_no_dot] split_limit.simps(1))

lemma signing_input_ascii: "list_all is_ascii (json_b64 h @ ''.'' @ json_b64 p)"
  by (simp add: json_b64_segment b64_ascii) (simp add: is_ascii_def code_point_literals)

lemma payload_exp: "obj_get (jwt_payload claims at lifetime) ''exp'' = JInt (unix_seconds (at + lifetime))"
  by (simp add: jwt_payload_def obj_get_def)

section \<open>The contract of a one-time store\<close>

text \<open>
  What \<^verbatim>\<open>RefreshTokenStore\<close>, \<^verbatim>\<open>OAuthStateStore\<close> and \<^verbatim>\<open>OAuthCodeStore\<close> promise: a stored value is found until it expires, and taking it
  removes it.
\<close>

locale one_time_store =
  fixes put :: "string \<Rightarrow> 'v \<Rightarrow> int \<Rightarrow> 's \<Rightarrow> 's"
    and pop :: "string \<Rightarrow> int \<Rightarrow> 's \<Rightarrow> 'v option \<times> 's"
    and entry :: "'s \<Rightarrow> string \<Rightarrow> ('v \<times> int) option"
  assumes entry_put: "entry (put k v e s) = (entry s)(k \<mapsto> (v, e))"
    and pop_value: "fst (pop k t s) = (case entry s k of None \<Rightarrow> None | Some (v, e) \<Rightarrow> if e < t then None else Some v)"
    and entry_pop: "entry (snd (pop k t s)) = (entry s)(k := None)"
begin

lemma put_pop: "fst (pop k t (put k v e s)) = (if e < t then None else Some v)"
  by (simp add: pop_value entry_put)

lemma pop_twice: "fst (pop k t' (snd (pop k t s))) = None"
  by (simp add: pop_value entry_pop)

lemma pop_other: "k' \<noteq> k \<Longrightarrow> fst (pop k' t' (snd (pop k t s))) = fst (pop k' t' s)"
  by (simp add: pop_value entry_pop)

lemma pop_present: "fst (pop k t s) = Some v \<Longrightarrow> \<exists>e \<ge> t. entry s k = Some (v, e)"
  by (auto simp: pop_value split: option.splits prod.splits if_splits)

end

interpretation memory_store: one_time_store store_put store_pop map_of
proof
  fix k :: string and v :: 'v and e t :: int and s :: "'v token_store"
  show "map_of (store_put k v e s) = (map_of s)(k \<mapsto> (v, e))" by (simp add: store_put_def)
  show "fst (store_pop k t s) = (case map_of s k of None \<Rightarrow> None | Some (v, e) \<Rightarrow> if e < t then None else Some v)"
    by (simp add: store_pop_def split: option.split prod.split)
  show "map_of (snd (store_pop k t s)) = (map_of s)(k := None)"
    by (auto simp: store_pop_def delete_conv' fun_upd_idem split: option.split prod.split)
qed

text \<open>
  The Redis stores meet the contract when the client does what \<^verbatim>\<open>SETEX\<close> and \<^verbatim>\<open>GETDEL\<close> are documented to do, whatever else the
  key space holds.
\<close>

lemma redis_key_inject [simp]: "redis_key p a = redis_key p b \<longleftrightarrow> a = b"
  by (simp add: redis_key_def)

lemma redis_single_use:
  assumes "\<And>k t r. contents (snd (rd_getdel c k t r)) = (contents r)(k := None)"
    and "\<And>k t r. contents r k = None \<Longrightarrow> fst (rd_getdel c k t r) = None"
  shows "fst (redis_pop c p token t' (snd (redis_pop c p token t r))) = None"
  using assms by (simp add: redis_pop_def)

lemma decode_encode:
  assumes "loads (segment jwt_header) = Inr (JObj (json_fields jwt_header))"
    and "loads (segment (jwt_payload claims at lifetime)) = Inr (JObj (json_fields (jwt_payload claims at lifetime)))"
  shows "decode_jwt loads (encode_jwt claims secret at lifetime) secret t =
    (if unix_seconds (at + lifetime) < unix_seconds t then Inl (JwtError ''Expired token'')
     else Inr (json_fields (jwt_payload claims at lifetime)))"
proof -
  have alg: "json_sorted (obj_get jwt_header ''alg'') = JStr ''HS256''" by (simp add: jwt_header_def obj_get_def)
  show ?thesis
    by (simp add: decode_jwt_def encode_jwt_def Let_def split_token [simplified] signing_input_ascii [simplified] sign_no_dot
        json_unb64_b64 [where loads = loads, OF assms(1)] json_unb64_b64 [where loads = loads, OF assms(2)] alg obj_get_fields payload_exp expired_def)
qed

section \<open>Properties\<close>

text \<open>
  A password is accepted against its own stored hash, whatever the password and the salt are.
\<close>
theorem password_roundtrip: "verify_password password (hash_password salt password) = Inr True"
  unfolding verify_password_def split_hash by (simp add: PASSWORD_ITERATIONS_def)

text \<open>
  C30: An access token that the service has signed is accepted with the same secret until the second in which it expires, with
  the claims that went in, and is refused as expired afterwards; \<open>loads\<close> is \<^verbatim>\<open>json.loads\<close>, which reads back the two segments.
\<close>
theorem jwt_roundtrip:
  assumes "loads (segment jwt_header) = Inr (JObj (json_fields jwt_header))"
    and "loads (segment (jwt_payload claims at lifetime)) = Inr (JObj (json_fields (jwt_payload claims at lifetime)))"
  shows "decode_jwt loads (encode_jwt claims secret at lifetime) secret t =
    (if unix_seconds (at + lifetime) < unix_seconds t then Inl (JwtError ''Expired token'')
     else Inr (json_fields (jwt_payload claims at lifetime)))"
  using assms by (rule decode_encode)

definition sample_claims :: payload where
  "sample_claims = [(''sub'', JStr ''u'')]"

definition sample_token_loads :: "bytes \<Rightarrow> string + json" where
  "sample_token_loads bs =
     (if bs = segment jwt_header then Inr (JObj (json_fields jwt_header))
      else if bs = segment (jwt_payload sample_claims 0 9000000) then Inr (JObj (json_fields (jwt_payload sample_claims 0 9000000)))
      else Inl ''Expecting value'')"

lemma sample_segments: "segment (jwt_payload sample_claims 0 9000000) \<noteq> segment jwt_header"
  by code_simp

theorem jwt_roundtrip_witness:
  "decode_jwt sample_token_loads (encode_jwt sample_claims ''secret'' 0 9000000) ''secret'' 5000000 =
     Inr (json_fields (jwt_payload sample_claims 0 9000000))"
  using jwt_roundtrip [of sample_token_loads sample_claims 0 9000000 "''secret''" 5000000] sample_segments
  by (simp add: sample_token_loads_def unix_seconds_def)

text \<open>
  Finding: a token with a character outside of ASCII does not raise \<^verbatim>\<open>JwtError\<close>: \<^verbatim>\<open>_sign\<close> encodes the signing input as ASCII, and
  \<^verbatim>\<open>compare_digest\<close> refuses a signature outside of ASCII, so that the request ends with status 500 rather than 401.
\<close>
lemma foreign_token_not_refused:
  "decode_jwt loads [CHR 0xE9, CHR ''.'', CHR ''p'', CHR ''.'', CHR ''s''] secret at = Inl JUnicodeEncodeError"
  "decode_jwt loads [CHR ''h'', CHR ''.'', CHR ''p'', CHR ''.'', CHR 0xE9] secret at = Inl JTypeError"
  by (simp_all add: decode_jwt_def numeral_2_eq_2 is_ascii_def code_point_def)

end
