(* ===== verification/Auth_Service.thy ===== *)
theory Auth_Service
  imports Auth_Tokens Documents
begin

text \<open>
  Users, roles and the in-memory authentication service (\<^verbatim>\<open>backend/auth/models.py\<close>, \<^verbatim>\<open>service.py\<close>). What both services do with tokens
  is written once, over the look-up of a user and the operations of the refresh token store. Identifiers, salts, random tokens
  and clock readings are arguments; users are values, and a user that a call returns is the one that is stored.
\<close>

section \<open>Records\<close>

record permission_record =
  pr_id :: uuid
  pr_name :: string
  pr_description :: string

record role_record =
  rr_id :: uuid
  rr_name :: string
  rr_description :: string
  rr_permissions :: "permission_record list"

record user_record =
  ur_id :: uuid
  ur_tenant_id :: uuid
  ur_email :: string
  ur_display_name :: "string option"
  ur_is_active :: bool
  ur_created_at :: int
  ur_updated_at :: int
  ur_roles :: "role_record list"

record current_user =
  cu_id :: uuid
  cu_tenant_id :: uuid
  cu_email :: string
  cu_roles :: "string list"
  cu_permissions :: "string set"

record token_pair =
  tp_access_token :: string
  tp_refresh_token :: string
  tp_token_type :: string
  tp_expires_in :: int

record external_identity =
  ei_user_id :: uuid
  ei_provider :: string
  ei_provider_account_id :: string
  ei_provider_login :: "string option"
  ei_provider_email :: string
  ei_provider_email_verified :: bool

definition ACCESS_TOKEN_TTL_SECONDS :: int where
  "ACCESS_TOKEN_TTL_SECONDS = 24 * 60 * 60"

definition DEFAULT_TENANT_ID :: uuid where
  "DEFAULT_TENANT_ID = 0x00000000000070008000000000000001"

definition PERMISSION_DESCRIPTIONS :: "(string \<times> string) list" where
  "PERMISSION_DESCRIPTIONS =
    [(''analysis:create'', ''Create analysis jobs''),
     (''analysis:read'', ''Read analysis jobs''),
     (''analysis:cancel'', ''Cancel analysis jobs''),
     (''analysis:events'', ''Read analysis event streams''),
     (''documents:read'', ''Read analysis documents''),
     (''documents:delete'', ''Delete analysis documents''),
     (''users:read'', ''Read users''),
     (''users:write'', ''Manage users''),
     (''roles:read'', ''Read roles''),
     (''roles:write'', ''Manage roles'')]"

definition ROLE_PERMISSIONS :: "(string \<times> string list) list" where
  "ROLE_PERMISSIONS =
    [(''admin'', map fst PERMISSION_DESCRIPTIONS),
     (''member'', [''analysis:create'', ''analysis:read'', ''analysis:cancel'', ''analysis:events'', ''documents:read'']),
     (''viewer'', [''analysis:read'', ''analysis:events'', ''documents:read''])]"

text \<open>What a call may raise: \<^verbatim>\<open>AuthError\<close> with its code and message, and the errors of the calls below it.\<close>

datatype auth_error =
    AuthError string string
  | AJwt jwt_error
  | APassword password_error
  | ANumberError int_error
  | AUnique string
  | AKeyError
  | ARuntimeError string

definition user_already_exists :: auth_error where
  "user_already_exists = AuthError ''USER_ALREADY_EXISTS'' ''A user with this email already exists.''"

definition invalid_credentials :: auth_error where
  "invalid_credentials = AuthError ''INVALID_CREDENTIALS'' ''Email or password is incorrect.''"

definition invalid_refresh_token :: auth_error where
  "invalid_refresh_token = AuthError ''INVALID_REFRESH_TOKEN'' ''Refresh token is invalid.''"

definition invalid_oauth_code :: auth_error where
  "invalid_oauth_code = AuthError ''INVALID_OAUTH_CODE'' ''OAuth exchange code is invalid or expired.''"

definition invalid_token :: auth_error where
  "invalid_token = AuthError ''INVALID_TOKEN'' ''Access token is invalid.''"

definition role_not_found :: auth_error where
  "role_not_found = AuthError ''ROLE_NOT_FOUND'' ''One or more roles do not exist.''"

text \<open>\<^verbatim>\<open>dict.fromkeys\<close>: the first occurrences, in order.\<close>

definition dict_fromkeys :: "'a list \<Rightarrow> 'a list" where
  "dict_fromkeys xs = rev (remdups (rev xs))"

definition normalize_email :: "string \<Rightarrow> string" where
  "normalize_email email = py_lower (py_strip email)"

definition token_hash :: "string \<Rightarrow> string" where
  "token_hash token = ''sha256:'' @ sha256_hexdigest (utf8_encode token)"

definition current_user_from_record :: "user_record \<Rightarrow> current_user" where
  "current_user_from_record user =
     \<lparr>cu_id = ur_id user, cu_tenant_id = ur_tenant_id user, cu_email = ur_email user,
      cu_roles = map rr_name (ur_roles user),
      cu_permissions = set (concat (map (\<lambda>role. map pr_name (rr_permissions role)) (ur_roles user)))\<rparr>"

section \<open>Tokens\<close>

text \<open>What a call draws when it issues tokens: the identifier of the access token, the refresh token, and two clock readings.\<close>

record token_draw =
  td_jti :: uuid
  td_refresh_token :: string
  td_issued_at :: int
  td_stored_at :: int

definition token_claims :: "uuid \<Rightarrow> user_record \<Rightarrow> payload" where
  "token_claims jti user = (let cu = current_user_from_record user in
     [(''sub'', JStr (uuid_str (ur_id user))),
      (''tenant_id'', JStr (uuid_str (ur_tenant_id user))),
      (''email'', JStr (ur_email user)),
      (''roles'', JList (map JStr (cu_roles cu))),
      (''permissions'', JList (map JStr (sorted_list_of_set (cu_permissions cu)))),
      (''jti'', JStr (uuid_str jti))])"

definition seconds :: "int \<Rightarrow> int" where
  "seconds n = n * 1000000"

definition issue_tokens ::
  "(string \<Rightarrow> string \<Rightarrow> int \<Rightarrow> 's \<Rightarrow> 's) \<Rightarrow> string \<Rightarrow> token_draw \<Rightarrow> user_record \<Rightarrow> 's \<Rightarrow> token_pair \<times> 's" where
  "issue_tokens put secret d user st =
     (\<lparr>tp_access_token = encode_jwt (token_claims (td_jti d) user) secret (td_issued_at d) (seconds ACCESS_TOKEN_TTL_SECONDS),
       tp_refresh_token = td_refresh_token d, tp_token_type = ''bearer'', tp_expires_in = ACCESS_TOKEN_TTL_SECONDS\<rparr>,
      put (token_hash (td_refresh_token d)) (uuid_str (ur_id user)) (td_stored_at d + seconds (30 * 24 * 60 * 60)) st)"

definition issue_if_active ::
  "(string \<Rightarrow> string \<Rightarrow> int \<Rightarrow> 's \<Rightarrow> 's) \<Rightarrow> string \<Rightarrow> token_draw \<Rightarrow> auth_error \<Rightarrow> user_record option \<Rightarrow> 's
   \<Rightarrow> (auth_error + token_pair) \<times> 's" where
  "issue_if_active put secret d refusal u st =
     (case u of
        None \<Rightarrow> (Inl refusal, st)
      | Some user \<Rightarrow>
          if \<not> ur_is_active user then (Inl refusal, st)
          else (let (pair, st') = issue_tokens put secret d user st in (Inr pair, st')))"

definition refresh ::
  "(string \<Rightarrow> string \<Rightarrow> int \<Rightarrow> 's \<Rightarrow> 's) \<Rightarrow> (string \<Rightarrow> int \<Rightarrow> 's \<Rightarrow> string option \<times> 's) \<Rightarrow> string \<Rightarrow> (uuid \<Rightarrow> user_record option)
   \<Rightarrow> token_draw \<Rightarrow> int \<Rightarrow> string \<Rightarrow> 's \<Rightarrow> (auth_error + token_pair) \<times> 's" where
  "refresh put pop secret get d at refresh_token st =
     (let (user_id_text, st') = pop (token_hash refresh_token) at st
      in case user_id_text of
           None \<Rightarrow> (Inl invalid_refresh_token, st')
         | Some t \<Rightarrow>
             (case parse_uuid t of
                None \<Rightarrow> (Inl invalid_refresh_token, st')
              | Some user_id \<Rightarrow> issue_if_active put secret d invalid_refresh_token (get user_id) st'))"

definition exchange_code ::
  "(string \<Rightarrow> string \<Rightarrow> int \<Rightarrow> 's \<Rightarrow> 's) \<Rightarrow> string \<Rightarrow> (uuid \<Rightarrow> user_record option) \<Rightarrow> token_draw \<Rightarrow> uuid \<Rightarrow> 's
   \<Rightarrow> (auth_error + token_pair) \<times> 's" where
  "exchange_code put secret get d user_id st = issue_if_active put secret d invalid_oauth_code (get user_id) st"

definition logout :: "(string \<Rightarrow> int \<Rightarrow> 's \<Rightarrow> string option \<times> 's) \<Rightarrow> int \<Rightarrow> string \<Rightarrow> 's \<Rightarrow> 's" where
  "logout pop at refresh_token st = snd (pop (token_hash refresh_token) at st)"

definition current_user_of ::
  "(bytes \<Rightarrow> string + json) \<Rightarrow> string \<Rightarrow> (uuid \<Rightarrow> user_record option) \<Rightarrow> int \<Rightarrow> string \<Rightarrow> auth_error + current_user" where
  "current_user_of loads secret get at access_token =
     (case decode_jwt loads access_token secret at of
        Inl (JwtError _) \<Rightarrow> Inl (AuthError ''INVALID_TOKEN'' ''Access token is invalid or expired.'')
      | Inl e \<Rightarrow> Inl (AJwt e)
      | Inr claims \<Rightarrow>
          (case obj_get claims ''sub'' of
             JStr subject \<Rightarrow>
               (case parse_uuid subject of
                  None \<Rightarrow> Inl invalid_token
                | Some user_id \<Rightarrow>
                    (case get user_id of
                       None \<Rightarrow> Inl invalid_token
                     | Some user \<Rightarrow> if ur_is_active user then Inr (current_user_from_record user) else Inl invalid_token))
           | _ \<Rightarrow> Inl invalid_token))"

section \<open>The in-memory service\<close>

record auth_memory =
  am_permissions :: "(string \<times> permission_record) list"
  am_roles :: "(string \<times> role_record) list"
  am_users :: "(uuid \<times> user_record) list"
  am_password_hashes :: "(uuid \<times> string) list"
  am_external_identities :: "((string \<times> string) \<times> external_identity) list"
  am_refresh_tokens :: "string token_store"

text \<open>\<open>pid\<close> and \<open>rid\<close> are the identifiers drawn for the permissions and the roles.\<close>

definition seed_permissions :: "(string \<Rightarrow> uuid) \<Rightarrow> (string \<times> permission_record) list" where
  "seed_permissions pid =
     map (\<lambda>(n, description). (n, \<lparr>pr_id = pid n, pr_name = n, pr_description = description\<rparr>)) PERMISSION_DESCRIPTIONS"

definition built_in :: "string \<Rightarrow> string" where
  "built_in n = ''Built-in '' @ n @ '' role''"

definition seed_roles :: "(string \<Rightarrow> uuid) \<Rightarrow> (string \<times> permission_record) list \<Rightarrow> (string \<times> role_record) list" where
  "seed_roles rid ps =
     map (\<lambda>(n, permissions). (n, \<lparr>rr_id = rid n, rr_name = n, rr_description = built_in n,
       rr_permissions = map (\<lambda>p. the (map_of ps p)) permissions\<rparr>)) ROLE_PERMISSIONS"

definition new_auth_memory :: "(string \<Rightarrow> uuid) \<Rightarrow> (string \<Rightarrow> uuid) \<Rightarrow> auth_memory" where
  "new_auth_memory pid rid =
     \<lparr>am_permissions = seed_permissions pid, am_roles = seed_roles rid (seed_permissions pid), am_users = [],
      am_password_hashes = [], am_external_identities = [], am_refresh_tokens = []\<rparr>"

definition user_by_email :: "string \<Rightarrow> auth_memory \<Rightarrow> user_record option" where
  "user_by_email email st = find (\<lambda>user. ur_email user = email) (map snd (am_users st))"

fun roles_by_names :: "(string \<times> role_record) list \<Rightarrow> string list \<Rightarrow> auth_error + role_record list" where
  "roles_by_names roles [] = Inr []"
| "roles_by_names roles (n # ns) =
     (case map_of roles n of
        None \<Rightarrow> Inl role_not_found
      | Some role \<Rightarrow> rbind (roles_by_names roles ns) (\<lambda>rs. Inr (role # rs)))"

definition names_or_member :: "string list option \<Rightarrow> string list" where
  "names_or_member role_names = (case role_names of None \<Rightarrow> [''member''] | Some ns \<Rightarrow> if ns = [] then [''member''] else ns)"

text \<open>What a new user draws: its identifier, the clock reading and the salt of its password.\<close>

record user_draw =
  ud_id :: uuid
  ud_at :: int
  ud_salt :: bytes

definition mem_create_user_without_password ::
  "user_draw \<Rightarrow> string \<Rightarrow> string option \<Rightarrow> string list option \<Rightarrow> auth_memory \<Rightarrow> (auth_error + user_record) \<times> auth_memory" where
  "mem_create_user_without_password d email display_name role_names st =
     (let normalized_email = normalize_email email
      in if user_by_email normalized_email st \<noteq> None then (Inl user_already_exists, st)
         else case roles_by_names (am_roles st) (dict_fromkeys (names_or_member role_names)) of
           Inl e \<Rightarrow> (Inl e, st)
         | Inr roles \<Rightarrow>
             (let user = \<lparr>ur_id = ud_id d, ur_tenant_id = DEFAULT_TENANT_ID, ur_email = normalized_email,
                    ur_display_name = display_name, ur_is_active = True, ur_created_at = ud_at d, ur_updated_at = ud_at d,
                    ur_roles = roles\<rparr>
              in (Inr user, st\<lparr>am_users := AList.update (ur_id user) user (am_users st)\<rparr>)))"

text \<open>\<^verbatim>\<open>create_user\<close> is the same code with one more assignment.\<close>

definition mem_create_user ::
  "user_draw \<Rightarrow> string \<Rightarrow> string \<Rightarrow> string option \<Rightarrow> string list option \<Rightarrow> auth_memory \<Rightarrow> (auth_error + user_record) \<times> auth_memory" where
  "mem_create_user d email password display_name role_names st =
     (case mem_create_user_without_password d email display_name role_names st of
        (Inl e, st') \<Rightarrow> (Inl e, st')
      | (Inr user, st') \<Rightarrow>
          (Inr user, st'\<lparr>am_password_hashes := AList.update (ur_id user) (hash_password (ud_salt d) password) (am_password_hashes st')\<rparr>))"

definition first_role :: "bool \<Rightarrow> string" where
  "first_role has_users = (if has_users then ''member'' else ''admin'')"

definition mem_register ::
  "user_draw \<Rightarrow> string \<Rightarrow> string \<Rightarrow> string option \<Rightarrow> auth_memory \<Rightarrow> (auth_error + user_record) \<times> auth_memory" where
  "mem_register d email password display_name st =
     (let normalized_email = normalize_email email
      in if user_by_email normalized_email st \<noteq> None then (Inl user_already_exists, st)
         else mem_create_user d normalized_email password display_name (Some [first_role (am_users st \<noteq> [])]) st)"

definition mem_login ::
  "string \<Rightarrow> token_draw \<Rightarrow> string \<Rightarrow> string \<Rightarrow> auth_memory \<Rightarrow> (auth_error + token_pair) \<times> auth_memory" where
  "mem_login secret d email password st =
     (case user_by_email (normalize_email email) st of
        None \<Rightarrow> (Inl invalid_credentials, st)
      | Some user \<Rightarrow>
          if \<not> ur_is_active user then (Inl invalid_credentials, st)
          else case map_of (am_password_hashes st) (ur_id user) of
            None \<Rightarrow> (Inl invalid_credentials, st)
          | Some h \<Rightarrow>
              (case verify_password password h of
                 Inl e \<Rightarrow> (Inl (APassword e), st)
               | Inr ok \<Rightarrow>
                   if \<not> ok then (Inl invalid_credentials, st)
                   else (let (pair, ts) = issue_tokens store_put secret d user (am_refresh_tokens st)
                         in (Inr pair, st\<lparr>am_refresh_tokens := ts\<rparr>))))"

definition mem_get_user :: "auth_memory \<Rightarrow> uuid \<Rightarrow> user_record option" where
  "mem_get_user st user_id = map_of (am_users st) user_id"

definition mem_refresh ::
  "string \<Rightarrow> token_draw \<Rightarrow> int \<Rightarrow> string \<Rightarrow> auth_memory \<Rightarrow> (auth_error + token_pair) \<times> auth_memory" where
  "mem_refresh secret d at refresh_token st =
     (let (r, ts) = refresh store_put store_pop secret (mem_get_user st) d at refresh_token (am_refresh_tokens st)
      in (r, st\<lparr>am_refresh_tokens := ts\<rparr>))"

definition mem_exchange_code :: "string \<Rightarrow> token_draw \<Rightarrow> uuid \<Rightarrow> auth_memory \<Rightarrow> (auth_error + token_pair) \<times> auth_memory" where
  "mem_exchange_code secret d user_id st =
     (let (r, ts) = exchange_code store_put secret (mem_get_user st) d user_id (am_refresh_tokens st)
      in (r, st\<lparr>am_refresh_tokens := ts\<rparr>))"

definition mem_logout :: "int \<Rightarrow> string \<Rightarrow> auth_memory \<Rightarrow> auth_memory" where
  "mem_logout at refresh_token st = st\<lparr>am_refresh_tokens := logout store_pop at refresh_token (am_refresh_tokens st)\<rparr>"

definition mem_current_user ::
  "(bytes \<Rightarrow> string + json) \<Rightarrow> string \<Rightarrow> int \<Rightarrow> string \<Rightarrow> auth_memory \<Rightarrow> auth_error + current_user" where
  "mem_current_user loads secret at access_token st = current_user_of loads secret (mem_get_user st) at access_token"

definition mem_list_users :: "nat \<Rightarrow> string option \<Rightarrow> auth_memory \<Rightarrow> auth_error + user_record list" where
  "mem_list_users limit cursor st =
     map_sum ANumberError id (page limit cursor (sort_key (\<lambda>u. (ur_created_at u, ur_id u)) (map snd (am_users st))))"

text \<open>An existing identity is not linked again; a user found by e-mail is linked whether or not it is active.\<close>

definition mem_login_or_register_external_user ::
  "user_draw \<Rightarrow> string \<Rightarrow> string \<Rightarrow> string option \<Rightarrow> string \<Rightarrow> bool \<Rightarrow> string option \<Rightarrow> auth_memory
   \<Rightarrow> (auth_error + user_record) \<times> auth_memory" where
  "mem_login_or_register_external_user d provider provider_account_id provider_login email email_verified display_name st =
     (let normalized_email = normalize_email email
      in case map_of (am_external_identities st) (provider, provider_account_id) of
           Some identity \<Rightarrow>
             (case mem_get_user st (ei_user_id identity) of
                None \<Rightarrow> (Inl invalid_credentials, st)
              | Some user \<Rightarrow> (if ur_is_active user then Inr user else Inl invalid_credentials, st))
         | None \<Rightarrow>
             (let (r, st') =
                (case user_by_email normalized_email st of
                   Some user \<Rightarrow> (Inr user, st)
                 | None \<Rightarrow> mem_create_user_without_password d normalized_email display_name
                     (Some [first_role (am_users st \<noteq> [])]) st)
              in case r of
                   Inl e \<Rightarrow> (Inl e, st')
                 | Inr user \<Rightarrow>
                     (Inr user, st'\<lparr>am_external_identities := AList.update (provider, provider_account_id)
                        \<lparr>ei_user_id = ur_id user, ei_provider = provider, ei_provider_account_id = provider_account_id,
                         ei_provider_login = provider_login, ei_provider_email = normalized_email,
                         ei_provider_email_verified = email_verified\<rparr> (am_external_identities st')\<rparr>)))"

definition mem_update_user ::
  "uuid \<Rightarrow> string option \<Rightarrow> bool option \<Rightarrow> int \<Rightarrow> auth_memory \<Rightarrow> user_record option \<times> auth_memory" where
  "mem_update_user user_id display_name is_active at st =
     (case mem_get_user st user_id of
        None \<Rightarrow> (None, st)
      | Some user \<Rightarrow>
          (let u1 = (case display_name of None \<Rightarrow> user | Some n \<Rightarrow> user\<lparr>ur_display_name := Some n\<rparr>);
               u2 = (case is_active of None \<Rightarrow> u1 | Some b \<Rightarrow> u1\<lparr>ur_is_active := b\<rparr>);
               u3 = u2\<lparr>ur_updated_at := at\<rparr>
           in (Some u3, st\<lparr>am_users := AList.update user_id u3 (am_users st)\<rparr>)))"

definition mem_reset_password :: "bytes \<Rightarrow> uuid \<Rightarrow> string \<Rightarrow> auth_memory \<Rightarrow> bool \<times> auth_memory" where
  "mem_reset_password salt user_id password st =
     (case mem_get_user st user_id of
        None \<Rightarrow> (False, st)
      | Some _ \<Rightarrow> (True, st\<lparr>am_password_hashes := AList.update user_id (hash_password salt password) (am_password_hashes st)\<rparr>))"

definition mem_list_roles :: "auth_memory \<Rightarrow> role_record list" where
  "mem_list_roles st = sort_key rr_name (map snd (am_roles st))"

definition mem_list_permissions :: "auth_memory \<Rightarrow> permission_record list" where
  "mem_list_permissions st = sort_key pr_name (map snd (am_permissions st))"

text \<open>The dictionary by identifier keeps the last role of two with one identifier.\<close>

definition mem_assign_roles ::
  "uuid \<Rightarrow> uuid list \<Rightarrow> int \<Rightarrow> auth_memory \<Rightarrow> (auth_error + user_record option) \<times> auth_memory" where
  "mem_assign_roles user_id role_ids at st =
     (case mem_get_user st user_id of
        None \<Rightarrow> (Inr None, st)
      | Some user \<Rightarrow>
          (let roles_by_id = map_of (rev (map (\<lambda>(_, role). (rr_id role, role)) (am_roles st)))
           in if \<exists>r \<in> set role_ids. roles_by_id r = None then (Inl role_not_found, st)
              else (let u = user\<lparr>ur_roles := map (\<lambda>r. the (roles_by_id r)) (dict_fromkeys role_ids), ur_updated_at := at\<rparr>
                    in (Inr (Some u), st\<lparr>am_users := AList.update user_id u (am_users st)\<rparr>))))"

section \<open>Runs of the service\<close>

text \<open>The calls that change the state, with what they draw.\<close>

datatype auth_op =
    Op_Register user_draw string string "string option"
  | Op_Login token_draw string string
  | Op_Refresh token_draw int string
  | Op_Exchange token_draw uuid
  | Op_Logout int string
  | Op_Create user_draw string string "string option" "string list option"
  | Op_External user_draw string string "string option" string bool "string option"
  | Op_Update uuid "string option" "bool option" int
  | Op_Reset bytes uuid string
  | Op_Assign uuid "uuid list" int

fun auth_step :: "string \<Rightarrow> auth_memory \<Rightarrow> auth_op \<Rightarrow> auth_memory" where
  "auth_step secret st (Op_Register d email password display_name) = snd (mem_register d email password display_name st)"
| "auth_step secret st (Op_Login d email password) = snd (mem_login secret d email password st)"
| "auth_step secret st (Op_Refresh d at tk) = snd (mem_refresh secret d at tk st)"
| "auth_step secret st (Op_Exchange d user_id) = snd (mem_exchange_code secret d user_id st)"
| "auth_step secret st (Op_Logout at tk) = mem_logout at tk st"
| "auth_step secret st (Op_Create d email password display_name role_names) = snd (mem_create_user d email password display_name role_names st)"
| "auth_step secret st (Op_External d provider account login email verified display_name) =
     snd (mem_login_or_register_external_user d provider account login email verified display_name st)"
| "auth_step secret st (Op_Update user_id display_name is_active at) = snd (mem_update_user user_id display_name is_active at st)"
| "auth_step secret st (Op_Reset salt user_id password) = snd (mem_reset_password salt user_id password st)"
| "auth_step secret st (Op_Assign user_id role_ids at) = snd (mem_assign_roles user_id role_ids at st)"

text \<open>The refresh token that a call may issue, the identifier it may give to a new user, and whether it activates a user.\<close>

fun issues :: "auth_op \<Rightarrow> string option" where
  "issues (Op_Login d _ _) = Some (td_refresh_token d)"
| "issues (Op_Refresh d _ _) = Some (td_refresh_token d)"
| "issues (Op_Exchange d _) = Some (td_refresh_token d)"
| "issues _ = None"

fun draws_user :: "auth_op \<Rightarrow> uuid option" where
  "draws_user (Op_Register d _ _ _) = Some (ud_id d)"
| "draws_user (Op_Create d _ _ _ _) = Some (ud_id d)"
| "draws_user (Op_External d _ _ _ _ _ _) = Some (ud_id d)"
| "draws_user _ = None"

fun activates :: "uuid \<Rightarrow> auth_op \<Rightarrow> bool" where
  "activates u (Op_Update user_id _ is_active _) = (user_id = u \<and> is_active = Some True)"
| "activates u _ = False"

subsection \<open>A directory of users\<close>

text \<open>
  What the token operations rely on: a user that is not active stays so in every step that does not activate it. Both services
  provide it.
\<close>

definition inactive :: "(uuid \<Rightarrow> user_record option) \<Rightarrow> uuid \<Rightarrow> bool" where
  "inactive look u = (case look u of None \<Rightarrow> False | Some r \<Rightarrow> \<not> ur_is_active r)"

locale user_directory =
  fixes step :: "'st \<Rightarrow> 'op \<Rightarrow> 'st" and look :: "'st \<Rightarrow> uuid \<Rightarrow> user_record option" and may_activate :: "uuid \<Rightarrow> 'op \<Rightarrow> bool"
  assumes stays_inactive: "inactive (look st) u \<Longrightarrow> \<not> may_activate u op \<Longrightarrow> inactive (look (step st op)) u"
begin

lemma inactive_run: "inactive (look st) u \<Longrightarrow> (\<And>op. op \<in> set ops \<Longrightarrow> \<not> may_activate u op) \<Longrightarrow> inactive (look (foldl step st ops)) u"
  by (induction ops arbitrary: st) (auto intro: stays_inactive)

end

lemma inactive_refused:
  assumes "inactive look u"
  shows "issue_if_active put secret d refusal (look u) ts = (Inl refusal, ts)"
  using assms by (auto simp: inactive_def issue_if_active_def split: option.splits)

lemma inactive_exchange: "inactive look u \<Longrightarrow> fst (exchange_code put secret look d u ts) = Inl invalid_oauth_code"
  by (simp add: exchange_code_def inactive_refused)

lemma inactive_refresh:
  "inactive look u \<Longrightarrow> fst (pop (token_hash tk) at ts) = Some (uuid_str u) \<Longrightarrow>
   fst (refresh put pop secret look d at tk ts) = Inl invalid_refresh_token"
  by (auto simp: refresh_def inactive_refused Let_def split: prod.splits)

lemma inactive_current_user:
  "inactive look u \<Longrightarrow> decode_jwt loads tk secret at = Inr claims \<Longrightarrow> obj_get claims ''sub'' = JStr (uuid_str u) \<Longrightarrow>
   current_user_of loads secret look at tk = Inl invalid_token"
  by (auto simp: inactive_def current_user_of_def split: option.splits)

subsection \<open>The steps of the in-memory service\<close>

lemma issue_if_active_entry:
  "k \<noteq> token_hash (td_refresh_token d) \<Longrightarrow> map_of (snd (issue_if_active store_put secret d e u ts)) k = map_of ts k"
  by (auto simp: issue_if_active_def issue_tokens_def memory_store.entry_put split: option.splits)

lemma refresh_entry:
  "k \<noteq> token_hash (td_refresh_token d) \<Longrightarrow>
   map_of (am_refresh_tokens (snd (mem_refresh secret d at tk st))) k = map_of (snd (store_pop (token_hash tk) at (am_refresh_tokens st))) k"
  by (simp add: mem_refresh_def refresh_def split_beta Let_def issue_if_active_entry split: option.split)

lemma create_without_users:
  "am_refresh_tokens (snd (mem_create_user_without_password d email dn rn st)) = am_refresh_tokens st"
  "am_password_hashes (snd (mem_create_user_without_password d email dn rn st)) = am_password_hashes st"
  "am_roles (snd (mem_create_user_without_password d email dn rn st)) = am_roles st"
  by (simp_all add: mem_create_user_without_password_def Let_def split: sum.split)

lemma create_users:
  "am_refresh_tokens (snd (mem_create_user d email pw dn rn st)) = am_refresh_tokens st"
  "am_users (snd (mem_create_user d email pw dn rn st)) = am_users (snd (mem_create_user_without_password d email dn rn st))"
  by (cases "mem_create_user_without_password d email dn rn st";
      use create_without_users [of d email dn rn st] in \<open>auto simp: mem_create_user_def split: sum.split\<close>)+

lemma external_tokens:
  "am_refresh_tokens (snd (mem_login_or_register_external_user d provider account login email verified dn st)) = am_refresh_tokens st"
  using create_without_users(1) [of d "normalize_email email" dn "Some [first_role (am_users st \<noteq> [])]" st]
  by (auto simp: mem_login_or_register_external_user_def Let_def split: option.splits prod.splits sum.splits)

lemma token_stays_absent:
  assumes "map_of (am_refresh_tokens st) k = None" and "\<And>t. issues op = Some t \<Longrightarrow> token_hash t \<noteq> k"
  shows "map_of (am_refresh_tokens (auth_step secret st op)) k = None"
proof (cases op)
  case (Op_Login d email password)
  with assms show ?thesis
    by (auto simp: mem_login_def issue_tokens_def memory_store.entry_put split: option.splits sum.splits)
next
  case (Op_Refresh d at tk)
  then have "k \<noteq> token_hash (td_refresh_token d)" using assms(2) by auto
  with Op_Refresh assms(1) show ?thesis by (simp add: refresh_entry memory_store.entry_pop)
next
  case (Op_Exchange d u)
  with assms show ?thesis using issue_if_active_entry [of k d secret]
    by (auto simp: mem_exchange_code_def exchange_code_def split: prod.splits) (metis snd_conv)
next
  case (Op_Logout at tk)
  with assms show ?thesis by (simp add: mem_logout_def logout_def memory_store.entry_pop)
next
  case (Op_Register d email password dn)
  with assms show ?thesis by (simp add: mem_register_def Let_def create_users)
next
  case (Op_Create d email password dn rn)
  with assms show ?thesis by (simp add: create_users)
next
  case (Op_External d provider account login email verified dn)
  with assms show ?thesis by (simp add: external_tokens)
qed (use assms in \<open>auto simp: mem_update_user_def mem_reset_password_def mem_assign_roles_def Let_def split: option.splits\<close>)

lemma token_stays_absent_run:
  "map_of (am_refresh_tokens st) k = None \<Longrightarrow> (\<And>op t. op \<in> set ops \<Longrightarrow> issues op = Some t \<Longrightarrow> token_hash t \<noteq> k) \<Longrightarrow>
   map_of (am_refresh_tokens (foldl (auth_step secret) st ops)) k = None"
proof (induction ops arbitrary: st)
  case (Cons op ops)
  have "map_of (am_refresh_tokens (auth_step secret st op)) k = None"
    by (rule token_stays_absent) (use Cons in auto)
  with Cons show ?case by auto
qed simp

lemma absent_refused:
  "map_of (am_refresh_tokens st) (token_hash tk) = None \<Longrightarrow> fst (mem_refresh secret d at tk st) = Inl invalid_refresh_token"
  by (simp add: mem_refresh_def refresh_def store_pop_def)

lemma spent_absent:
  assumes "token_hash (td_refresh_token d) \<noteq> token_hash tk"
  shows "map_of (am_refresh_tokens (snd (mem_refresh secret d at tk st))) (token_hash tk) = None"
  using assms [symmetric] by (simp add: refresh_entry memory_store.entry_pop)

definition draws_token :: "string \<Rightarrow> auth_op \<Rightarrow> bool" where
  "draws_token tk op = (case issues op of None \<Rightarrow> False | Some t \<Rightarrow> token_hash t = token_hash tk)"

text \<open>
  C23: A refresh token can be used once. After a call of refresh with it, whether it was accepted or not, and after logout, every later
  refresh with the same token is refused, whatever calls are made in between, unless one of the calls has drawn a token
  with the same hash again.
\<close>
theorem refresh_token_single_use:
  "(fst (mem_refresh secret d' at' tk (foldl (auth_step secret) st (Op_Refresh d at tk # ops))) = Inl invalid_refresh_token \<and>
    fst (mem_refresh secret d' at' tk (foldl (auth_step secret) st (Op_Logout at tk # ops))) = Inl invalid_refresh_token) \<or>
   (\<exists>op. op \<in> set (Op_Refresh d at tk # ops) \<and> draws_token tk op)"
proof (cases "\<exists>op. op \<in> set (Op_Refresh d at tk # ops) \<and> draws_token tk op")
  case False
  then have later: "\<And>op t. op \<in> set ops \<Longrightarrow> issues op = Some t \<Longrightarrow> token_hash t \<noteq> token_hash tk"
    by (auto simp: draws_token_def)
  have spent: "map_of (am_refresh_tokens (auth_step secret st (Op_Refresh d at tk))) (token_hash tk) = None"
    using False by (auto simp: draws_token_def intro!: spent_absent)
  have out: "map_of (am_refresh_tokens (auth_step secret st (Op_Logout at tk))) (token_hash tk) = None"
    by (simp add: mem_logout_def logout_def memory_store.entry_pop)
  show ?thesis
    using token_stays_absent_run [where secret = secret, OF spent later] token_stays_absent_run [where secret = secret, OF out later]
    by (simp add: absent_refused del: auth_step.simps)
qed blast

subsection \<open>The directory of the in-memory service\<close>

lemma create_keeps_inactive:
  assumes "inactive (mem_get_user st) u" and "ud_id d \<noteq> u"
  shows "inactive (mem_get_user (snd (mem_create_user_without_password d email dn rn st))) u"
  using assms by (simp add: inactive_def mem_get_user_def mem_create_user_without_password_def Let_def split: sum.split)

lemma external_keeps_inactive:
  assumes "inactive (mem_get_user st) u" and "ud_id d \<noteq> u"
  shows "inactive (mem_get_user (snd (mem_login_or_register_external_user d provider account login email verified dn st))) u"
  using assms create_keeps_inactive [OF assms, of "normalize_email email" dn "Some [first_role (am_users st \<noteq> [])]"]
  by (auto simp: mem_login_or_register_external_user_def Let_def inactive_def mem_get_user_def split: option.splits prod.splits sum.splits)

text \<open>A call activates a user when it sets its flag, or when it draws its identifier for a new user.\<close>

definition may_activate :: "uuid \<Rightarrow> auth_op \<Rightarrow> bool" where
  "may_activate u op = (activates u op \<or> draws_user op = Some u)"

lemma same_users_inactive: "am_users st' = am_users st \<Longrightarrow> inactive (mem_get_user st') u = inactive (mem_get_user st) u"
  by (simp add: inactive_def mem_get_user_def)

interpretation memory_directory: user_directory "auth_step secret" mem_get_user may_activate
proof
  fix st u op
  assume i: "inactive (mem_get_user st) u" and no: "\<not> may_activate u op"
  have other: "am_users (auth_step secret st op) = am_users st \<Longrightarrow> inactive (mem_get_user (auth_step secret st op)) u"
    using i same_users_inactive by blast
  show "inactive (mem_get_user (auth_step secret st op)) u"
  proof (cases op)
    case (Op_Register d email pw dn)
    then have "ud_id d \<noteq> u" using no by (auto simp: may_activate_def)
    then show ?thesis using Op_Register i create_keeps_inactive [OF i, of d]
      by (auto simp: mem_register_def Let_def create_users inactive_def mem_get_user_def)
  next
    case (Op_Create d email pw dn rn)
    then have "ud_id d \<noteq> u" using no by (auto simp: may_activate_def)
    then show ?thesis using Op_Create create_keeps_inactive [OF i, of d] by (simp add: create_users inactive_def mem_get_user_def)
  next
    case (Op_External d provider account login email verified dn)
    then have "ud_id d \<noteq> u" using no by (auto simp: may_activate_def)
    then show ?thesis using Op_External external_keeps_inactive [OF i] by simp
  next
    case (Op_Update user_id dn ia at)
    then show ?thesis using i no
      by (auto simp: mem_update_user_def may_activate_def inactive_def mem_get_user_def Let_def split: option.splits)
  next
    case (Op_Assign user_id role_ids at)
    then show ?thesis using i by (auto simp: mem_assign_roles_def inactive_def mem_get_user_def Let_def split: option.splits)
  qed (rule other; auto simp: mem_login_def mem_refresh_def mem_exchange_code_def mem_logout_def mem_reset_password_def
      split: option.splits sum.splits prod.splits)+
qed

end
