(* ===== verification/Auth_Repository.thy ===== *)
theory Auth_Repository
  imports Auth_Service
begin

text \<open>
  The Postgres authentication repository and the service on top of it (\<^verbatim>\<open>backend/auth/repository.py\<close>,
  \<^verbatim>\<open>postgres_service.py\<close>, \<^verbatim>\<open>bootstrap.py\<close>): the tables with their unique indexes, each repository call as one
  transaction that no other call interrupts, which leaves the tables as they were when a statement fails. The one call that
  reads and writes in two transactions, the update of a user, is made of these two parts. The surrogate keys and the creation times of the link rows are left
  out, since nothing reads them; new identifiers are taken not to be in use.
\<close>

section \<open>Tables\<close>

record user_row =
  us_id :: uuid
  us_tenant_id :: uuid
  us_email :: string
  us_display_name :: "string option"
  us_is_active :: bool
  us_created_at :: int
  us_updated_at :: int

record credential_row =
  cr_user_id :: uuid
  cr_password_hash :: string
  cr_created_at :: int
  cr_updated_at :: int

record role_row =
  ro_id :: uuid
  ro_tenant_id :: uuid
  ro_name :: string
  ro_description :: string

record oauth_row =
  oa_tenant_id :: uuid
  oa_user_id :: uuid
  oa_provider :: string
  oa_provider_account_id :: string
  oa_provider_login :: "string option"
  oa_provider_email :: string
  oa_provider_email_verified :: bool
  oa_created_at :: int
  oa_updated_at :: int

record auth_db =
  tenants :: "(string \<times> (uuid \<times> string)) list"
  users :: "user_row list"
  user_credentials :: "credential_row list"
  oauth_accounts :: "oauth_row list"
  permissions :: "permission_record list"
  roles :: "role_row list"
  role_permissions :: "(uuid \<times> uuid) list"
  user_roles :: "(uuid \<times> uuid) list"

type_synonym 'a auth_result = "(auth_error + 'a) \<times> auth_db"

definition transaction :: "auth_db \<Rightarrow> auth_error + ('a \<times> auth_db) \<Rightarrow> 'a auth_result" where
  "transaction db r = (case r of Inl e \<Rightarrow> (Inl e, db) | Inr (x, db') \<Rightarrow> (Inr x, db'))"

text \<open>The statements that insert a row, with the unique indexes they meet.\<close>

definition insert_user :: "user_row \<Rightarrow> auth_db \<Rightarrow> auth_error + auth_db" where
  "insert_user row db =
     (if \<exists>r \<in> set (users db). us_id r = us_id row then Inl (AUnique ''users_pkey'')
      else if \<exists>r \<in> set (users db). us_tenant_id r = us_tenant_id row \<and> us_email r = us_email row
      then Inl (AUnique ''uq_users_tenant_email'')
      else Inr (db\<lparr>users := users db @ [row]\<rparr>))"

definition insert_credential :: "credential_row \<Rightarrow> auth_db \<Rightarrow> auth_error + auth_db" where
  "insert_credential row db =
     (if \<exists>r \<in> set (user_credentials db). cr_user_id r = cr_user_id row then Inl (AUnique ''uq_user_credentials_user_id'')
      else Inr (db\<lparr>user_credentials := user_credentials db @ [row]\<rparr>))"

definition insert_link :: "'a \<Rightarrow> 'a list \<Rightarrow> 'a list" where
  "insert_link l ls = (if l \<in> set ls then ls else ls @ [l])"

definition insert_user_roles :: "uuid \<Rightarrow> uuid list \<Rightarrow> auth_db \<Rightarrow> auth_db" where
  "insert_user_roles user_id role_ids db = db\<lparr>user_roles := fold (\<lambda>r. insert_link (user_id, r)) role_ids (user_roles db)\<rparr>"

section \<open>Seed data\<close>

text \<open>\<^verbatim>\<open>INSERT ... ON CONFLICT DO UPDATE\<close>: the rows with the key are changed, or the new row is added.\<close>

definition update_rows :: "('r \<Rightarrow> bool) \<Rightarrow> ('r \<Rightarrow> 'r) \<Rightarrow> 'r list \<Rightarrow> 'r list" where
  "update_rows p f rows = map (\<lambda>r. if p r then f r else r) rows"

definition upsert_row :: "('r \<Rightarrow> bool) \<Rightarrow> ('r \<Rightarrow> 'r) \<Rightarrow> 'r \<Rightarrow> 'r list \<Rightarrow> 'r list" where
  "upsert_row same f new rows = (case find same rows of None \<Rightarrow> rows @ [new] | Some _ \<Rightarrow> update_rows same f rows)"

definition named :: "string \<Rightarrow> permission_record \<Rightarrow> bool" where
  "named n p = (pr_name p = n)"

definition built_in_row :: "string \<Rightarrow> role_row \<Rightarrow> bool" where
  "built_in_row n r = (ro_tenant_id r = DEFAULT_TENANT_ID \<and> ro_name r = n)"

definition perm_id :: "permission_record list \<Rightarrow> string \<Rightarrow> uuid" where
  "perm_id ps n = pr_id (the (find (named n) ps))"

definition built_in_id :: "role_row list \<Rightarrow> string \<Rightarrow> uuid" where
  "built_in_id rs n = ro_id (the (find (built_in_row n) rs))"

definition upsert_permission :: "uuid \<Rightarrow> string \<Rightarrow> string \<Rightarrow> auth_db \<Rightarrow> uuid \<times> auth_db" where
  "upsert_permission i n description db =
     (let ps = upsert_row (named n) (pr_description_update (\<lambda>_. description))
            \<lparr>pr_id = i, pr_name = n, pr_description = description\<rparr> (permissions db)
      in (perm_id ps n, db\<lparr>permissions := ps\<rparr>))"

definition upsert_role :: "uuid \<Rightarrow> string \<Rightarrow> string \<Rightarrow> auth_db \<Rightarrow> uuid \<times> auth_db" where
  "upsert_role i n description db =
     (let rs = upsert_row (built_in_row n) (ro_description_update (\<lambda>_. description))
            \<lparr>ro_id = i, ro_tenant_id = DEFAULT_TENANT_ID, ro_name = n, ro_description = description\<rparr> (roles db)
      in (built_in_id rs n, db\<lparr>roles := rs\<rparr>))"

fun seed_permission_rows :: "(string \<Rightarrow> uuid) \<Rightarrow> (string \<times> string) list \<Rightarrow> auth_db \<Rightarrow> (string \<times> uuid) list \<times> auth_db" where
  "seed_permission_rows pid [] db = ([], db)"
| "seed_permission_rows pid ((n, description) # rest) db =
     (let (i, db1) = upsert_permission (pid n) n description db;
          (ids, db2) = seed_permission_rows pid rest db1
      in ((n, i) # ids, db2))"

fun seed_role_rows ::
  "(string \<Rightarrow> uuid) \<Rightarrow> (string \<times> uuid) list \<Rightarrow> (string \<times> string list) list \<Rightarrow> auth_db \<Rightarrow> auth_db" where
  "seed_role_rows rid permission_ids [] db = db"
| "seed_role_rows rid permission_ids ((n, permission_names) # rest) db =
     (let (i, db1) = upsert_role (rid n) n (built_in n) db
      in seed_role_rows rid permission_ids rest
           (db1\<lparr>role_permissions :=
              fold (\<lambda>p. insert_link (i, the (map_of permission_ids p))) permission_names (role_permissions db1)\<rparr>))"

text \<open>The identifiers that are drawn for the permissions and for the roles, of which those of existing rows are not used.\<close>

type_synonym seed_draw = "(string \<Rightarrow> uuid) \<times> (string \<Rightarrow> uuid)"

definition ensure_seed_data :: "seed_draw \<Rightarrow> auth_db \<Rightarrow> auth_db" where
  "ensure_seed_data sd db =
     (let db0 = (if map_of (tenants db) ''default'' = None
                 then db\<lparr>tenants := tenants db @ [(''default'', (DEFAULT_TENANT_ID, ''Default Tenant''))]\<rparr> else db);
          (permission_ids, db1) = seed_permission_rows (fst sd) PERMISSION_DESCRIPTIONS db0
      in seed_role_rows (snd sd) permission_ids ROLE_PERMISSIONS db1)"

section \<open>Reading users and roles\<close>

definition permissions_for_role :: "auth_db \<Rightarrow> uuid \<Rightarrow> permission_record list" where
  "permissions_for_role db role_id =
     sort_key pr_name (concat (map (\<lambda>p. map (\<lambda>_. p) (filter (\<lambda>l. snd l = pr_id p \<and> fst l = role_id) (role_permissions db))) (permissions db)))"

definition role_from_row :: "role_row \<Rightarrow> permission_record list \<Rightarrow> role_record" where
  "role_from_row row ps = \<lparr>rr_id = ro_id row, rr_name = ro_name row, rr_description = ro_description row, rr_permissions = ps\<rparr>"

definition load_role :: "auth_db \<Rightarrow> role_row \<Rightarrow> role_record" where
  "load_role db row = role_from_row row (permissions_for_role db (ro_id row))"

definition pg_roles_by_names :: "auth_db \<Rightarrow> string list \<Rightarrow> role_record list" where
  "pg_roles_by_names db role_names =
     (let unique_names = dict_fromkeys role_names
      in if unique_names = [] then []
         else map (load_role db)
           (sort_key ro_name (filter (\<lambda>r. ro_tenant_id r = DEFAULT_TENANT_ID \<and> ro_name r \<in> set unique_names) (roles db))))"

definition all_roles :: "auth_db \<Rightarrow> role_record list" where
  "all_roles db = map (load_role db) (sort_key ro_name (filter (\<lambda>r. ro_tenant_id r = DEFAULT_TENANT_ID) (roles db)))"

definition roles_for_user :: "auth_db \<Rightarrow> uuid \<Rightarrow> role_record list" where
  "roles_for_user db user_id =
     map (load_role db)
       (sort_key ro_name (concat (map (\<lambda>r. map (\<lambda>_. r) (filter (\<lambda>l. snd l = ro_id r \<and> fst l = user_id) (user_roles db))) (roles db))))"

definition user_from_row :: "user_row \<Rightarrow> role_record list \<Rightarrow> user_record" where
  "user_from_row row rs =
     \<lparr>ur_id = us_id row, ur_tenant_id = us_tenant_id row, ur_email = us_email row, ur_display_name = us_display_name row,
      ur_is_active = us_is_active row, ur_created_at = us_created_at row, ur_updated_at = us_updated_at row, ur_roles = rs\<rparr>"

definition get_user :: "auth_db \<Rightarrow> uuid \<Rightarrow> user_record option" where
  "get_user db user_id =
     map_option (\<lambda>row. user_from_row row (roles_for_user db user_id)) (find (\<lambda>r. us_id r = user_id) (users db))"

definition has_users :: "auth_db \<Rightarrow> bool" where
  "has_users db = (users db \<noteq> [])"

definition user_row_by_email :: "auth_db \<Rightarrow> string \<Rightarrow> user_row option" where
  "user_row_by_email db email = find (\<lambda>r. us_tenant_id r = DEFAULT_TENANT_ID \<and> us_email r = email) (users db)"

definition credential_row_by_user_id :: "auth_db \<Rightarrow> uuid \<Rightarrow> credential_row option" where
  "credential_row_by_user_id db user_id = find (\<lambda>c. cr_user_id c = user_id) (user_credentials db)"

definition get_user_by_email :: "auth_db \<Rightarrow> string \<Rightarrow> user_record option" where
  "get_user_by_email db email = Option.bind (user_row_by_email db email) (\<lambda>row. get_user db (us_id row))"

definition get_user_by_email_with_password :: "auth_db \<Rightarrow> string \<Rightarrow> (user_record \<times> string) option" where
  "get_user_by_email_with_password db email =
     (case concat (map (\<lambda>u. map (\<lambda>c. (u, c)) (filter (\<lambda>c. cr_user_id c = us_id u) (user_credentials db)))
             (filter (\<lambda>r. us_tenant_id r = DEFAULT_TENANT_ID \<and> us_email r = email) (users db))) of
        [] \<Rightarrow> None
      | (u, c) # _ \<Rightarrow> map_option (\<lambda>user. (user, cr_password_hash c)) (get_user db (us_id u)))"

definition get_user_by_external_identity :: "auth_db \<Rightarrow> string \<Rightarrow> string \<Rightarrow> user_record option" where
  "get_user_by_external_identity db provider provider_account_id =
     Option.bind (find (\<lambda>a. oa_provider a = provider \<and> oa_provider_account_id a = provider_account_id) (oauth_accounts db))
       (\<lambda>a. get_user db (oa_user_id a))"

definition role_names_exist :: "auth_db \<Rightarrow> string list \<Rightarrow> bool" where
  "role_names_exist db role_names = (length (pg_roles_by_names db role_names) = length (dict_fromkeys role_names))"

definition pg_list_permissions :: "auth_db \<Rightarrow> permission_record list" where
  "pg_list_permissions db = sort_key pr_name (permissions db)"

section \<open>The page of users\<close>

text \<open>A row of the join; \<open>None\<close> stands for the columns of an unmatched \<^verbatim>\<open>LEFT JOIN\<close>.\<close>

type_synonym join_row = "user_row \<times> role_row option \<times> permission_record option"

definition left_join :: "'a list \<Rightarrow> 'a option list" where
  "left_join xs = (if xs = [] then [None] else map Some xs)"

definition permission_rows :: "auth_db \<Rightarrow> uuid \<Rightarrow> permission_record option list" where
  "permission_rows db role_id =
     concat (map (\<lambda>rp. case rp of None \<Rightarrow> [None] | Some l \<Rightarrow> left_join (filter (\<lambda>p. pr_id p = snd l) (permissions db)))
       (left_join (filter (\<lambda>l. fst l = role_id) (role_permissions db))))"

definition user_join_rows :: "auth_db \<Rightarrow> user_row \<Rightarrow> join_row list" where
  "user_join_rows db u =
     concat (map (\<lambda>ur. case ur of None \<Rightarrow> [(u, None, None)] | Some l \<Rightarrow>
         concat (map (\<lambda>r. case r of None \<Rightarrow> [(u, None, None)] | Some role \<Rightarrow>
             map (\<lambda>p. (u, Some role, p)) (permission_rows db (ro_id role)))
           (left_join (filter (\<lambda>r. ro_id r = snd l) (roles db)))))
       (left_join (filter (\<lambda>l. fst l = us_id u) (user_roles db))))"

text \<open>Nulls come last.\<close>

definition null_last :: "('a \<Rightarrow> string) \<Rightarrow> 'a option \<Rightarrow> nat \<times> string" where
  "null_last f v = (case v of None \<Rightarrow> (1, []) | Some x \<Rightarrow> (0, f x))"

definition join_order :: "join_row \<Rightarrow> int \<times> uuid \<times> (nat \<times> string) \<times> (nat \<times> string)" where
  "join_order row = (case row of (u, r, p) \<Rightarrow> (us_created_at u, us_id u, null_last ro_name r, null_last pr_name p))"

definition user_page :: "nat \<Rightarrow> nat \<Rightarrow> auth_db \<Rightarrow> user_row list" where
  "user_page limit offset db =
     take limit (drop offset (sort_key (\<lambda>u. (us_created_at u, us_id u)) (filter (\<lambda>u. us_tenant_id u = DEFAULT_TENANT_ID) (users db))))"

record join_state =
  js_users :: "(uuid \<times> user_row) list"
  js_roles :: "(uuid \<times> (uuid \<times> role_record) list) list"
  js_seen :: "((uuid \<times> uuid) \<times> uuid list) list"

definition dict_setdefault :: "'k \<Rightarrow> 'v \<Rightarrow> ('k \<times> 'v) list \<Rightarrow> ('k \<times> 'v) list" where
  "dict_setdefault k v d = (if map_of d k = None then d @ [(k, v)] else d)"

definition dict_at :: "('k \<times> 'v list) list \<Rightarrow> 'k \<Rightarrow> 'v list" where
  "dict_at d k = (case map_of d k of None \<Rightarrow> [] | Some v \<Rightarrow> v)"

definition accept_join_row :: "join_row \<Rightarrow> join_state \<Rightarrow> join_state" where
  "accept_join_row row s =
     (case row of (u, r, p) \<Rightarrow>
       (let user_id = us_id u; s1 = s\<lparr>js_users := dict_setdefault user_id u (js_users s)\<rparr>
        in case r of
             None \<Rightarrow> s1
           | Some role \<Rightarrow>
               (let mine = dict_at (js_roles s1) user_id;
                    mine1 = dict_setdefault (ro_id role) (role_from_row role []) mine;
                    s2 = s1\<lparr>js_roles := AList.update user_id mine1 (js_roles s1)\<rparr>
                in case p of
                     None \<Rightarrow> s2
                   | Some perm \<Rightarrow>
                       (let seen = dict_at (js_seen s2) (user_id, ro_id role)
                        in if pr_id perm \<in> set seen then s2
                           else s2\<lparr>js_seen := AList.update (user_id, ro_id role) (seen @ [pr_id perm]) (js_seen s2),
                                   js_roles := AList.update user_id
                                     (AList.map_entry (ro_id role) (\<lambda>x. x\<lparr>rr_permissions := rr_permissions x @ [perm]\<rparr>) mine1)
                                     (js_roles s2)\<rparr>))))"

definition users_from_join_rows :: "join_row list \<Rightarrow> user_record list" where
  "users_from_join_rows rows =
     (let s = fold accept_join_row rows \<lparr>js_users = [], js_roles = [], js_seen = []\<rparr>
      in map (\<lambda>(user_id, row). user_from_row row (map snd (dict_at (js_roles s) user_id))) (js_users s))"

definition pg_list_users :: "nat \<Rightarrow> string option \<Rightarrow> auth_db \<Rightarrow> auth_error + user_record list" where
  "pg_list_users limit cursor db =
     rbind (map_sum ANumberError id (cursor_offset cursor)) (\<lambda>offset.
       Inr (users_from_join_rows (sort_key join_order (concat (map (user_join_rows db) (user_page limit offset db))))))"

definition list_user_ids :: "nat \<Rightarrow> string option \<Rightarrow> auth_db \<Rightarrow> auth_error + uuid list" where
  "list_user_ids limit cursor db =
     rbind (map_sum ANumberError id (cursor_offset cursor)) (\<lambda>offset. Inr (map us_id (user_page limit offset db)))"

section \<open>Changing users\<close>

definition new_user_row :: "user_draw \<Rightarrow> string \<Rightarrow> string option \<Rightarrow> user_row" where
  "new_user_row d email display_name =
     \<lparr>us_id = ud_id d, us_tenant_id = DEFAULT_TENANT_ID, us_email = email, us_display_name = display_name, us_is_active = True,
      us_created_at = ud_at d, us_updated_at = ud_at d\<rparr>"

definition new_credential_row :: "uuid \<Rightarrow> string \<Rightarrow> int \<Rightarrow> credential_row" where
  "new_credential_row user_id h at = \<lparr>cr_user_id = user_id, cr_password_hash = h, cr_created_at = at, cr_updated_at = at\<rparr>"

definition reload :: "string \<Rightarrow> uuid auth_result \<Rightarrow> user_record auth_result" where
  "reload failure r =
     (case r of
        (Inl e, db) \<Rightarrow> (Inl e, db)
      | (Inr user_id, db) \<Rightarrow> (case get_user db user_id of None \<Rightarrow> (Inl (ARuntimeError failure), db) | Some user \<Rightarrow> (Inr user, db)))"

definition repo_create_user ::
  "user_draw \<Rightarrow> string \<Rightarrow> string \<Rightarrow> string option \<Rightarrow> string list \<Rightarrow> auth_db \<Rightarrow> user_record auth_result" where
  "repo_create_user d email password display_name role_names db =
     reload ''created user could not be loaded'' (transaction db
       (rbind (insert_user (new_user_row d email display_name) db) (\<lambda>db1.
        rbind (insert_credential (new_credential_row (ud_id d) (hash_password (ud_salt d) password) (ud_at d)) db1) (\<lambda>db2.
        Inr (ud_id d, insert_user_roles (ud_id d) (map rr_id (pg_roles_by_names db2 role_names)) db2)))))"

definition repo_create_user_without_password ::
  "user_draw \<Rightarrow> string \<Rightarrow> string option \<Rightarrow> string list \<Rightarrow> auth_db \<Rightarrow> user_record auth_result" where
  "repo_create_user_without_password d email display_name role_names db =
     reload ''created user could not be loaded'' (transaction db
       (rbind (insert_user (new_user_row d email display_name) db) (\<lambda>db1.
        Inr (ud_id d, insert_user_roles (ud_id d) (map rr_id (pg_roles_by_names db1 role_names)) db1))))"

definition set_password :: "uuid \<Rightarrow> string \<Rightarrow> int \<Rightarrow> auth_db \<Rightarrow> auth_db" where
  "set_password user_id h at db =
     db\<lparr>user_credentials := update_rows (\<lambda>c. cr_user_id c = user_id) (\<lambda>c. c\<lparr>cr_password_hash := h, cr_updated_at := at\<rparr>) (user_credentials db)\<rparr>"

record bootstrap_admin_config =
  ba_username :: string
  ba_email :: string
  ba_password_hash :: string
  ba_update_password_hash :: bool

definition bootstrap_admin_user :: "seed_draw \<Rightarrow> user_draw \<Rightarrow> bootstrap_admin_config \<Rightarrow> auth_db \<Rightarrow> user_record auth_result" where
  "bootstrap_admin_user sd d config db0 =
     (let db = ensure_seed_data sd db0; at = ud_at d
      in reload ''bootstrapped admin user could not be loaded'' (transaction db
        (case pg_roles_by_names db [''admin''] of
           [admin_role] \<Rightarrow>
             rbind
               (case user_row_by_email db (ba_email config) of
                  None \<Rightarrow>
                    rbind (insert_user (new_user_row d (ba_email config) (Some (ba_username config))) db) (\<lambda>db1.
                    rbind (insert_credential (new_credential_row (ud_id d) (ba_password_hash config) at) db1) (\<lambda>db2.
                    Inr (ud_id d, db2)))
                | Some existing \<Rightarrow>
                    (let user_id = us_id existing;
                         db1 = db\<lparr>users := update_rows (\<lambda>r. us_id r = user_id)
                           (\<lambda>r. r\<lparr>us_display_name := Some (ba_username config), us_is_active := True, us_updated_at := at\<rparr>) (users db)\<rparr>
                     in case credential_row_by_user_id db1 user_id of
                          None \<Rightarrow> rbind (insert_credential (new_credential_row user_id (ba_password_hash config) at) db1)
                            (\<lambda>db2. Inr (user_id, db2))
                        | Some _ \<Rightarrow>
                            Inr (user_id, if ba_update_password_hash config then set_password user_id (ba_password_hash config) at db1 else db1)))
               (\<lambda>(user_id, db3). Inr (user_id, insert_user_roles user_id [rr_id admin_role] db3))
         | _ \<Rightarrow> Inl (ARuntimeError ''built-in admin role does not exist''))))"

text \<open>The conflict clause names one unique index; the other one still refuses a second account with the same e-mail.\<close>

definition link_external_identity ::
  "int \<Rightarrow> uuid \<Rightarrow> string \<Rightarrow> string \<Rightarrow> string option \<Rightarrow> string \<Rightarrow> bool \<Rightarrow> auth_db \<Rightarrow> unit auth_result" where
  "link_external_identity at user_id provider provider_account_id provider_login provider_email verified db =
     (let same = (\<lambda>a. oa_provider a = provider \<and> oa_provider_account_id a = provider_account_id);
          taken = (\<lambda>tenant a. oa_provider a = provider \<and> oa_tenant_id a = tenant \<and> oa_provider_email a = provider_email)
      in transaction db
        (case find same (oauth_accounts db) of
           Some old \<Rightarrow>
             if \<exists>a \<in> set (oauth_accounts db). \<not> same a \<and> taken (oa_tenant_id old) a
             then Inl (AUnique ''uq_oauth_accounts_provider_tenant_email'')
             else Inr ((), db\<lparr>oauth_accounts := update_rows same (\<lambda>a. a\<lparr>oa_provider_login := provider_login,
               oa_provider_email := provider_email, oa_provider_email_verified := verified, oa_updated_at := at\<rparr>) (oauth_accounts db)\<rparr>)
         | None \<Rightarrow>
             if \<exists>a \<in> set (oauth_accounts db). taken DEFAULT_TENANT_ID a then Inl (AUnique ''uq_oauth_accounts_provider_tenant_email'')
             else Inr ((), db\<lparr>oauth_accounts := oauth_accounts db @
               [\<lparr>oa_tenant_id = DEFAULT_TENANT_ID, oa_user_id = user_id, oa_provider = provider,
                 oa_provider_account_id = provider_account_id, oa_provider_login = provider_login, oa_provider_email = provider_email,
                 oa_provider_email_verified = verified, oa_created_at = at, oa_updated_at = at\<rparr>]\<rparr>)))"

text \<open>
  \<^verbatim>\<open>update_user\<close> reads the user on one connection and writes it on a second one. The statement sets both columns, the ones not
  asked for to what was read: \<open>update_user_row\<close> takes the record that the first connection has read.
\<close>

definition update_user_row :: "uuid \<Rightarrow> user_record \<Rightarrow> string option \<Rightarrow> bool option \<Rightarrow> int \<Rightarrow> auth_db \<Rightarrow> auth_db" where
  "update_user_row user_id existing display_name is_active at db =
     db\<lparr>users := update_rows (\<lambda>r. us_id r = user_id)
          (\<lambda>r. r\<lparr>us_display_name := (case display_name of None \<Rightarrow> ur_display_name existing | Some n \<Rightarrow> Some n),
                 us_is_active := (case is_active of None \<Rightarrow> ur_is_active existing | Some b \<Rightarrow> b),
                 us_updated_at := at\<rparr>) (users db)\<rparr>"

definition repo_update_user ::
  "uuid \<Rightarrow> string option \<Rightarrow> bool option \<Rightarrow> int \<Rightarrow> auth_db \<Rightarrow> user_record option \<times> auth_db" where
  "repo_update_user user_id display_name is_active at db =
     (case get_user db user_id of
        None \<Rightarrow> (None, db)
      | Some existing \<Rightarrow>
          (let db' = update_user_row user_id existing display_name is_active at db
           in (get_user db' user_id, db')))"

definition repo_reset_password :: "bytes \<Rightarrow> uuid \<Rightarrow> string \<Rightarrow> int \<Rightarrow> auth_db \<Rightarrow> bool \<times> auth_db" where
  "repo_reset_password salt user_id password at db =
     (credential_row_by_user_id db user_id \<noteq> None, set_password user_id (hash_password salt password) at db)"

definition repo_assign_roles :: "uuid \<Rightarrow> uuid list \<Rightarrow> int \<Rightarrow> auth_db \<Rightarrow> (user_record option) auth_result" where
  "repo_assign_roles user_id role_ids at db =
     (case get_user db user_id of
        None \<Rightarrow> (Inr None, db)
      | Some _ \<Rightarrow>
          if \<exists>r \<in> set role_ids. r \<notin> rr_id ` set (all_roles db) then (Inl role_not_found, db)
          else (let db' = db\<lparr>user_roles := filter (\<lambda>l. fst l \<noteq> user_id) (user_roles db) @ map (\<lambda>r. (user_id, r)) (dict_fromkeys role_ids),
                  users := update_rows (\<lambda>r. us_id r = user_id) (\<lambda>r. r\<lparr>us_updated_at := at\<rparr>) (users db)\<rparr>
                in (Inr (get_user db' user_id), db')))"

section \<open>The service\<close>

text \<open>The state of the service: the tables and the refresh token store.\<close>

definition pg_create_user ::
  "seed_draw \<Rightarrow> user_draw \<Rightarrow> string \<Rightarrow> string \<Rightarrow> string option \<Rightarrow> string list option \<Rightarrow> auth_db \<Rightarrow> user_record auth_result" where
  "pg_create_user sd d email password display_name role_names db0 =
     (let db = ensure_seed_data sd db0; normalized_email = normalize_email email; names = names_or_member role_names
      in if get_user_by_email_with_password db normalized_email \<noteq> None then (Inl user_already_exists, db)
         else if \<not> role_names_exist db names then (Inl role_not_found, db)
         else repo_create_user d normalized_email password display_name names db)"

definition pg_register ::
  "seed_draw \<Rightarrow> seed_draw \<Rightarrow> user_draw \<Rightarrow> string \<Rightarrow> string \<Rightarrow> string option \<Rightarrow> auth_db \<Rightarrow> user_record auth_result" where
  "pg_register sd sd' d email password display_name db0 =
     (let db = ensure_seed_data sd db0; normalized_email = normalize_email email
      in if get_user_by_email_with_password db normalized_email \<noteq> None then (Inl user_already_exists, db)
         else pg_create_user sd' d normalized_email password display_name (Some [first_role (has_users db)]) db)"

definition pg_login ::
  "(string \<Rightarrow> string \<Rightarrow> int \<Rightarrow> 's \<Rightarrow> 's) \<Rightarrow> string \<Rightarrow> seed_draw \<Rightarrow> token_draw \<Rightarrow> string \<Rightarrow> string \<Rightarrow> auth_db \<Rightarrow> 's
   \<Rightarrow> (auth_error + token_pair) \<times> auth_db \<times> 's" where
  "pg_login put secret sd d email password db0 ts =
     (let db = ensure_seed_data sd db0
      in case get_user_by_email_with_password db (normalize_email email) of
           None \<Rightarrow> (Inl invalid_credentials, db, ts)
         | Some (user, password_hash) \<Rightarrow>
             if \<not> ur_is_active user then (Inl invalid_credentials, db, ts)
             else case verify_password password password_hash of
               Inl e \<Rightarrow> (Inl (APassword e), db, ts)
             | Inr ok \<Rightarrow>
                 if \<not> ok then (Inl invalid_credentials, db, ts)
                 else (let (pair, ts') = issue_tokens put secret d user ts in (Inr pair, db, ts')))"

definition pg_login_or_register_external_user ::
  "seed_draw \<Rightarrow> user_draw \<Rightarrow> int \<Rightarrow> string \<Rightarrow> string \<Rightarrow> string option \<Rightarrow> string \<Rightarrow> bool \<Rightarrow> string option \<Rightarrow> auth_db \<Rightarrow> user_record auth_result" where
  "pg_login_or_register_external_user sd d at provider provider_account_id provider_login email email_verified display_name db0 =
     (let db = ensure_seed_data sd db0; normalized_email = normalize_email email
      in case get_user_by_external_identity db provider provider_account_id of
           Some user \<Rightarrow> (if ur_is_active user then Inr user else Inl invalid_credentials, db)
         | None \<Rightarrow>
             (case (case get_user_by_email db normalized_email of
                      Some user \<Rightarrow> (Inr user, db)
                    | None \<Rightarrow> repo_create_user_without_password d normalized_email display_name [first_role (has_users db)] db) of
                (Inl e, db1) \<Rightarrow> (Inl e, db1)
              | (Inr user, db1) \<Rightarrow>
                  (case link_external_identity at (ur_id user) provider provider_account_id provider_login normalized_email email_verified db1 of
                     (Inl e, db2) \<Rightarrow> (Inl e, db2)
                   | (Inr _, db2) \<Rightarrow> (Inr user, db2))))"

definition pg_get_user :: "seed_draw \<Rightarrow> uuid \<Rightarrow> auth_db \<Rightarrow> user_record option \<times> auth_db" where
  "pg_get_user sd user_id db0 = (let db = ensure_seed_data sd db0 in (get_user db user_id, db))"

definition pg_service_list_users :: "seed_draw \<Rightarrow> nat \<Rightarrow> string option \<Rightarrow> auth_db \<Rightarrow> (user_record list) auth_result" where
  "pg_service_list_users sd limit cursor db0 = (let db = ensure_seed_data sd db0 in (pg_list_users limit cursor db, db))"

definition pg_update_user ::
  "seed_draw \<Rightarrow> uuid \<Rightarrow> string option \<Rightarrow> bool option \<Rightarrow> int \<Rightarrow> auth_db \<Rightarrow> user_record option \<times> auth_db" where
  "pg_update_user sd user_id display_name is_active at db0 =
     repo_update_user user_id display_name is_active at (ensure_seed_data sd db0)"

definition pg_reset_password :: "seed_draw \<Rightarrow> bytes \<Rightarrow> uuid \<Rightarrow> string \<Rightarrow> int \<Rightarrow> auth_db \<Rightarrow> bool \<times> auth_db" where
  "pg_reset_password sd salt user_id password at db0 = repo_reset_password salt user_id password at (ensure_seed_data sd db0)"

definition pg_service_list_roles :: "seed_draw \<Rightarrow> auth_db \<Rightarrow> role_record list \<times> auth_db" where
  "pg_service_list_roles sd db0 = (let db = ensure_seed_data sd db0 in (all_roles db, db))"

definition pg_service_list_permissions :: "seed_draw \<Rightarrow> auth_db \<Rightarrow> permission_record list \<times> auth_db" where
  "pg_service_list_permissions sd db0 = (let db = ensure_seed_data sd db0 in (pg_list_permissions db, db))"

definition pg_assign_roles :: "seed_draw \<Rightarrow> uuid \<Rightarrow> uuid list \<Rightarrow> int \<Rightarrow> auth_db \<Rightarrow> (user_record option) auth_result" where
  "pg_assign_roles sd user_id role_ids at db0 = repo_assign_roles user_id role_ids at (ensure_seed_data sd db0)"

definition pg_current_user ::
  "(bytes \<Rightarrow> string + json) \<Rightarrow> string \<Rightarrow> int \<Rightarrow> string \<Rightarrow> auth_db \<Rightarrow> auth_error + current_user" where
  "pg_current_user loads secret at access_token db = current_user_of loads secret (get_user db) at access_token"

definition pg_refresh ::
  "(string \<Rightarrow> string \<Rightarrow> int \<Rightarrow> 's \<Rightarrow> 's) \<Rightarrow> (string \<Rightarrow> int \<Rightarrow> 's \<Rightarrow> string option \<times> 's) \<Rightarrow> string \<Rightarrow> token_draw \<Rightarrow> int \<Rightarrow> string
   \<Rightarrow> auth_db \<Rightarrow> 's \<Rightarrow> (auth_error + token_pair) \<times> 's" where
  "pg_refresh put pop secret d at refresh_token db ts = refresh put pop secret (get_user db) d at refresh_token ts"

definition pg_exchange_code ::
  "(string \<Rightarrow> string \<Rightarrow> int \<Rightarrow> 's \<Rightarrow> 's) \<Rightarrow> string \<Rightarrow> token_draw \<Rightarrow> uuid \<Rightarrow> auth_db \<Rightarrow> 's \<Rightarrow> (auth_error + token_pair) \<times> 's" where
  "pg_exchange_code put secret d user_id db ts = exchange_code put secret (get_user db) d user_id ts"

definition pg_logout :: "(string \<Rightarrow> int \<Rightarrow> 's \<Rightarrow> string option \<times> 's) \<Rightarrow> int \<Rightarrow> string \<Rightarrow> 's \<Rightarrow> 's" where
  "pg_logout pop at refresh_token ts = logout pop at refresh_token ts"

section \<open>The first administrator from the environment\<close>

definition bootstrap_bool_env :: "string \<Rightarrow> bool" where
  "bootstrap_bool_env value = (py_lower (py_strip value) \<in> {''1'', ''true'', ''yes'', ''on''})"

definition required_env :: "(string \<Rightarrow> string option) \<Rightarrow> string \<Rightarrow> auth_error + string" where
  "required_env env n =
     (case env n of
        None \<Rightarrow> Inl (ARuntimeError (n @ '' is required when BOOTSTRAP_ADMIN_ENABLED=true''))
      | Some v \<Rightarrow> if py_strip v = [] then Inl (ARuntimeError (n @ '' is required when BOOTSTRAP_ADMIN_ENABLED=true'')) else Inr (py_strip v))"

definition env_flag :: "(string \<Rightarrow> string option) \<Rightarrow> string \<Rightarrow> bool" where
  "env_flag env n = bootstrap_bool_env (case env n of None \<Rightarrow> ''false'' | Some v \<Rightarrow> v)"

definition bootstrap_admin_config_from_env :: "(string \<Rightarrow> string option) \<Rightarrow> auth_error + bootstrap_admin_config" where
  "bootstrap_admin_config_from_env env =
     rbind (required_env env ''BOOTSTRAP_ADMIN_USERNAME'') (\<lambda>username.
     rbind (required_env env ''BOOTSTRAP_ADMIN_EMAIL'') (\<lambda>email.
     rbind (required_env env ''BOOTSTRAP_ADMIN_PASSWORD_HASH'') (\<lambda>h.
     Inr \<lparr>ba_username = username, ba_email = normalize_email email, ba_password_hash = h,
          ba_update_password_hash = env_flag env ''BOOTSTRAP_ADMIN_UPDATE_PASSWORD_HASH''\<rparr>)))"

definition bootstrap_admin_from_env ::
  "(string \<Rightarrow> string option) \<Rightarrow> seed_draw \<Rightarrow> user_draw \<Rightarrow> auth_db \<Rightarrow> (user_record option) auth_result" where
  "bootstrap_admin_from_env env sd d db =
     (if \<not> env_flag env ''BOOTSTRAP_ADMIN_ENABLED'' then (Inr None, db)
      else case bootstrap_admin_config_from_env env of
        Inl e \<Rightarrow> (Inl e, db)
      | Inr config \<Rightarrow> (case bootstrap_admin_user sd d config db of (r, db') \<Rightarrow> (map_sum id Some r, db')))"

section \<open>Runs of the service\<close>

text \<open>The calls that change the tables; every other call of the service only makes sure of the seed data.\<close>

datatype pg_op =
    Pg_Seed seed_draw
  | Pg_Register seed_draw seed_draw user_draw string string "string option"
  | Pg_Create seed_draw user_draw string string "string option" "string list option"
  | Pg_External seed_draw user_draw int string string "string option" string bool "string option"
  | Pg_Update seed_draw uuid "string option" "bool option" int
  | Pg_Reset seed_draw bytes uuid string int
  | Pg_Assign seed_draw uuid "uuid list" int
  | Pg_Bootstrap seed_draw user_draw bootstrap_admin_config

fun pg_step :: "auth_db \<Rightarrow> pg_op \<Rightarrow> auth_db" where
  "pg_step db (Pg_Seed sd) = ensure_seed_data sd db"
| "pg_step db (Pg_Register sd sd' d email password display_name) = snd (pg_register sd sd' d email password display_name db)"
| "pg_step db (Pg_Create sd d email password display_name role_names) = snd (pg_create_user sd d email password display_name role_names db)"
| "pg_step db (Pg_External sd d at provider account login email verified display_name) =
     snd (pg_login_or_register_external_user sd d at provider account login email verified display_name db)"
| "pg_step db (Pg_Update sd user_id display_name is_active at) = snd (pg_update_user sd user_id display_name is_active at db)"
| "pg_step db (Pg_Reset sd salt user_id password at) = snd (pg_reset_password sd salt user_id password at db)"
| "pg_step db (Pg_Assign sd user_id role_ids at) = snd (pg_assign_roles sd user_id role_ids at db)"
| "pg_step db (Pg_Bootstrap sd d config) = snd (bootstrap_admin_user sd d config db)"

text \<open>Setting the flag activates a user, and so does the bootstrap when it finds the user by its e-mail.\<close>

fun pg_activates :: "uuid \<Rightarrow> pg_op \<Rightarrow> bool" where
  "pg_activates u (Pg_Update _ user_id _ is_active _) = (user_id = u \<and> is_active = Some True)"
| "pg_activates u (Pg_Bootstrap _ _ _) = True"
| "pg_activates u _ = False"

subsection \<open>Which tables an operation writes\<close>

named_theorems auth_frames \<open>tables that an operation does not write\<close>

lemma upsert_frames [auth_frames]:
  "users (snd (upsert_permission i n t db)) = users db"
  "user_credentials (snd (upsert_permission i n t db)) = user_credentials db"
  "oauth_accounts (snd (upsert_permission i n t db)) = oauth_accounts db"
  "user_roles (snd (upsert_permission i n t db)) = user_roles db"
  "roles (snd (upsert_permission i n t db)) = roles db"
  "role_permissions (snd (upsert_permission i n t db)) = role_permissions db"
  "users (snd (upsert_role i n t db)) = users db"
  "user_credentials (snd (upsert_role i n t db)) = user_credentials db"
  "oauth_accounts (snd (upsert_role i n t db)) = oauth_accounts db"
  "user_roles (snd (upsert_role i n t db)) = user_roles db"
  "permissions (snd (upsert_role i n t db)) = permissions db"
  "role_permissions (snd (upsert_role i n t db)) = role_permissions db"
  by (simp_all add: upsert_permission_def upsert_role_def Let_def)

lemma seed_permission_frames [auth_frames]:
  "users (snd (seed_permission_rows pid ps db)) = users db"
  "user_credentials (snd (seed_permission_rows pid ps db)) = user_credentials db"
  "oauth_accounts (snd (seed_permission_rows pid ps db)) = oauth_accounts db"
  "user_roles (snd (seed_permission_rows pid ps db)) = user_roles db"
  "roles (snd (seed_permission_rows pid ps db)) = roles db"
  "role_permissions (snd (seed_permission_rows pid ps db)) = role_permissions db"
  by (induction ps arbitrary: db; auto simp: split_beta Let_def auth_frames)+

lemma seed_role_frames [auth_frames]:
  "users (seed_role_rows rid ids rs db) = users db"
  "user_credentials (seed_role_rows rid ids rs db) = user_credentials db"
  "oauth_accounts (seed_role_rows rid ids rs db) = oauth_accounts db"
  "user_roles (seed_role_rows rid ids rs db) = user_roles db"
  "permissions (seed_role_rows rid ids rs db) = permissions db"
  by (induction rs arbitrary: db; auto simp: split_beta Let_def auth_frames)+

lemma ensure_seed_frames [auth_frames]:
  "users (ensure_seed_data sd db) = users db"
  "user_credentials (ensure_seed_data sd db) = user_credentials db"
  "oauth_accounts (ensure_seed_data sd db) = oauth_accounts db"
  "user_roles (ensure_seed_data sd db) = user_roles db"
  by (simp_all add: ensure_seed_data_def split_beta Let_def auth_frames)

subsection \<open>The directory of the Postgres service\<close>

definition row_inactive :: "auth_db \<Rightarrow> uuid \<Rightarrow> bool" where
  "row_inactive db u = (case find (\<lambda>r. us_id r = u) (users db) of None \<Rightarrow> False | Some r \<Rightarrow> \<not> us_is_active r)"

lemma inactive_get_user: "inactive (get_user db) u = row_inactive db u"
  by (simp add: inactive_def get_user_def row_inactive_def user_from_row_def split: option.split)

lemma row_inactive_users: "users db' = users db \<Longrightarrow> row_inactive db' u = row_inactive db u"
  by (simp add: row_inactive_def)

lemma find_in_append: "find p (xs @ ys) = (case find p xs of None \<Rightarrow> find p ys | Some x \<Rightarrow> Some x)"
  by (induction xs) auto

lemma find_update_rows:
  "(\<And>r. p (f r) = p r) \<Longrightarrow> find p (update_rows q f rows) = map_option (\<lambda>r. if q r then f r else r) (find p rows)"
  by (induction rows) (auto simp: update_rows_def)

lemma insert_user_inactive: "insert_user row db = Inr db' \<Longrightarrow> row_inactive db u \<Longrightarrow> row_inactive db' u"
  by (auto simp: insert_user_def row_inactive_def find_in_append split: if_splits option.splits)

lemma transaction_cases: "(\<And>e. r = Inl e \<Longrightarrow> P db) \<Longrightarrow> (\<And>x db'. r = Inr (x, db') \<Longrightarrow> P db') \<Longrightarrow> P (snd (transaction db r))"
  by (cases r) (auto simp: transaction_def)

lemma snd_reload [simp]: "snd (reload t r) = snd r"
  by (cases r; cases "fst r") (auto simp: reload_def split: option.split)

lemma insert_user_roles_users [auth_frames]: "users (insert_user_roles u rs db) = users db"
  by (simp add: insert_user_roles_def)

lemma insert_credential_users [auth_frames]: "insert_credential row db = Inr db' \<Longrightarrow> users db' = users db"
  by (auto simp: insert_credential_def split: if_splits)

lemma create_row_inactive:
  "row_inactive db u \<Longrightarrow> row_inactive (snd (repo_create_user d email pw dn rn db)) u"
  "row_inactive db u \<Longrightarrow> row_inactive (snd (repo_create_user_without_password d email dn rn db)) u"
  by (auto simp: repo_create_user_def repo_create_user_without_password_def result_simps row_inactive_users [OF insert_user_roles_users]
      row_inactive_users [OF insert_credential_users] intro!: transaction_cases [where P = "\<lambda>db. row_inactive db u"])
    (erule insert_user_inactive, assumption)+

lemma link_users [auth_frames]: "users (snd (link_external_identity at u p a l e v db)) = users db"
  by (auto simp: link_external_identity_def transaction_def Let_def split: option.splits)

lemma seed_row_inactive [simp]: "row_inactive (ensure_seed_data sd db) u = row_inactive db u"
  by (rule row_inactive_users) (simp add: auth_frames)

lemma pg_create_row_inactive: "row_inactive db u \<Longrightarrow> row_inactive (snd (pg_create_user sd d email pw dn rn db)) u"
  by (auto simp: pg_create_user_def Let_def intro: create_row_inactive)

lemma external_row_inactive:
  assumes "row_inactive db u"
  shows "row_inactive (snd (pg_login_or_register_external_user sd d at provider account login email verified dn db)) u"
proof -
  have i: "row_inactive (ensure_seed_data sd db) u" using assms by simp
  have link: "row_inactive (snd (link_external_identity at v p a l e b db')) u = row_inactive db' u" for v p a l e b db'
    by (rule row_inactive_users) (simp add: auth_frames)
  have linked: "row_inactive (snd (case r of (Inl e, db1) \<Rightarrow> (Inl e, db1) | (Inr user, db1) \<Rightarrow>
      (case link_external_identity at (ur_id user) provider account login (normalize_email email) verified db1 of
         (Inl e, db2) \<Rightarrow> (Inl e, db2) | (Inr _, db2) \<Rightarrow> (Inr user, db2)))) u" if "row_inactive (snd r) u" for r
  proof -
    obtain x db1 where r: "r = (x, db1)" by (cases r)
    show ?thesis
    proof (cases x)
      case (Inr user)
      obtain y db2 where "link_external_identity at (ur_id user) provider account login (normalize_email email) verified db1 = (y, db2)"
        by (metis prod.exhaust)
      with Inr r that link [of "ur_id user" provider account login "normalize_email email" verified db1] show ?thesis
        by (cases y) simp_all
    qed (use r that in simp)
  qed
  have "row_inactive (snd (case get_user_by_email (ensure_seed_data sd db) (normalize_email email) of
      Some user \<Rightarrow> (Inr user, ensure_seed_data sd db)
    | None \<Rightarrow> repo_create_user_without_password d (normalize_email email) dn [first_role (has_users (ensure_seed_data sd db))]
        (ensure_seed_data sd db))) u"
    using i create_row_inactive(2) [OF i] by (simp split: option.split)
  from linked [OF this] i show ?thesis
    by (simp add: pg_login_or_register_external_user_def Let_def split: option.split)
qed

lemma find_sat: "find p xs = Some x \<Longrightarrow> p x"
  by (induction xs) (auto split: if_splits)

lemma update_row_inactive:
  assumes "row_inactive db u" and "user_id \<noteq> u \<or> ia \<noteq> Some True"
  shows "row_inactive (snd (repo_update_user user_id dn ia at db)) u"
  using assms
  by (cases "user_id = u")
    (auto simp: repo_update_user_def update_user_row_def row_inactive_def Let_def find_update_rows get_user_def user_from_row_def dest: find_sat split: option.splits)

text \<open>
  Between the read and the write of one call another call may run. A call that only changes the name, which has read the user
  before it was deactivated, then writes the old flag back: the user is active again although nobody has asked for it.
\<close>

lemma rename_race_reactivates:
  assumes "get_user db u = Some existing" "ur_is_active existing"
    and "db1 = snd (repo_update_user u None (Some False) at db)"
  shows "row_inactive db1 u \<and> \<not> row_inactive (update_user_row u existing (Some n) None at' db1) u"
  using assms
  by (auto simp: repo_update_user_def update_user_row_def row_inactive_def Let_def find_update_rows get_user_def user_from_row_def
      dest: find_sat split: option.splits)

lemma assign_row_inactive:
  assumes "row_inactive db u"
  shows "row_inactive (snd (repo_assign_roles user_id role_ids at db)) u"
  using assms by (auto simp: repo_assign_roles_def row_inactive_def Let_def find_update_rows split: option.splits)

interpretation pg_directory: user_directory pg_step get_user pg_activates
proof
  fix db u op
  assume "inactive (get_user db) u" and no: "\<not> pg_activates u op"
  then have i: "row_inactive db u" by (simp add: inactive_get_user)
  then have i': "row_inactive (ensure_seed_data sd db) u" for sd by simp
  have "row_inactive (pg_step db op) u"
  proof (cases op)
    case (Pg_Register sd sd' d email pw dn)
    then show ?thesis using i' pg_create_row_inactive by (simp add: pg_register_def Let_def)
  next
    case (Pg_Update sd user_id dn ia at)
    then show ?thesis using update_row_inactive [OF i'] no by (auto simp: pg_update_user_def)
  next
    case (Pg_Reset sd salt user_id pw at)
    then show ?thesis using i' by (simp add: pg_reset_password_def repo_reset_password_def set_password_def row_inactive_def)
  next
    case (Pg_Assign sd user_id role_ids at)
    then show ?thesis using assign_row_inactive [OF i'] by (simp add: pg_assign_roles_def)
  qed (use i no in \<open>auto simp: pg_create_row_inactive external_row_inactive\<close>)
  then show "inactive (get_user (pg_step db op)) u" by (simp add: inactive_get_user)
qed

end
