(* ===== verification/Auth_Seed.thy ===== *)
theory Auth_Seed
  imports Auth_Repository
begin

text \<open>
  The seed data of the authentication tables are complete after they have been ensured and stay as they are from then on; the
  indexes and references of the tables, and that ensuring the seed data keeps them.
\<close>

section \<open>Seed data\<close>

lemma find_some: "find p xs = None \<longleftrightarrow> (\<forall>x \<in> set xs. \<not> p x)"
  by (induction xs) auto

lemma find_exists:
  assumes "\<exists>x \<in> set xs. p x"
  obtains x where "find p xs = Some x" "p x" "x \<in> set xs"
proof (cases "find p xs")
  case None
  with assms show ?thesis by (simp add: find_some)
next
  case (Some x)
  then have "p x" "x \<in> set xs" by (auto simp: find_Some_iff)
  with Some that show ?thesis by blast
qed

lemma find_update: "(\<And>x. p (f x) = p x) \<Longrightarrow> find p (update_rows q f xs) = map_option (\<lambda>x. if q x then f x else x) (find p xs)"
  by (induction xs) (auto simp: update_rows_def)

text \<open>A row with the key is there, and every such row has the value that \<open>f\<close> sets.\<close>

definition row_has :: "('r \<Rightarrow> bool) \<Rightarrow> ('r \<Rightarrow> 'r) \<Rightarrow> 'r list \<Rightarrow> bool" where
  "row_has same f rows = ((\<exists>r \<in> set rows. same r) \<and> (\<forall>r \<in> set rows. same r \<longrightarrow> f r = r))"

lemma upsert_row_has:
  assumes "same new" "f new = new" "\<And>r. same (f r) = same r" "\<And>r. f (f r) = f r"
  shows "row_has same f (upsert_row same f new rows)"
proof (cases "find same rows")
  case (Some r)
  then have "r \<in> set rows" "same r" by (auto simp: find_Some_iff)
  with Some assms show ?thesis by (auto simp: upsert_row_def row_has_def update_rows_def image_iff)
next
  case None
  then have "\<forall>r \<in> set rows. \<not> same r" by (simp add: find_some)
  with None assms show ?thesis by (auto simp: upsert_row_def row_has_def)
qed

lemma upsert_row_keeps:
  assumes "\<And>r. other r \<Longrightarrow> \<not> same r" "\<not> other new" "\<And>r. same (f r) = same r" "row_has other g rows"
  shows "row_has other g (upsert_row same f new rows)"
  using assms by (auto simp: upsert_row_def row_has_def update_rows_def image_iff split: option.split)

lemma upsert_row_noop: "row_has same f rows \<Longrightarrow> upsert_row same f new rows = rows"
proof -
  assume h: "row_has same f rows"
  then have "\<exists>r \<in> set rows. same r" by (simp add: row_has_def)
  then obtain r where "find same rows = Some r" by (rule find_exists)
  moreover have "update_rows same f rows = rows"
    unfolding update_rows_def using h by (intro map_idI) (auto simp: row_has_def)
  ultimately show ?thesis by (simp add: upsert_row_def)
qed

lemma upsert_row_find:
  assumes "\<exists>r \<in> set rows. other r" "\<And>r. other (f r) = other r"
  shows "\<exists>r \<in> set (upsert_row same f new rows). other r"
    and "find other (upsert_row same f new rows) = map_option (\<lambda>r. if same r \<and> find same rows \<noteq> None then f r else r) (find other rows)"
proof -
  obtain r where "find other rows = Some r" "other r" "r \<in> set rows" using find_exists [OF assms(1)] .
  then show "find other (upsert_row same f new rows) = map_option (\<lambda>r. if same r \<and> find same rows \<noteq> None then f r else r) (find other rows)"
    using assms(2) by (auto simp: upsert_row_def find_in_append find_update split: option.split)
  show "\<exists>r \<in> set (upsert_row same f new rows). other r"
    using assms by (auto simp: upsert_row_def update_rows_def image_iff split: option.split)
qed

definition perm_has :: "auth_db \<Rightarrow> string \<Rightarrow> string \<Rightarrow> bool" where
  "perm_has db n t = row_has (named n) (pr_description_update (\<lambda>_. t)) (permissions db)"

definition role_has :: "auth_db \<Rightarrow> string \<Rightarrow> bool" where
  "role_has db n = row_has (built_in_row n) (ro_description_update (\<lambda>_. built_in n)) (roles db)"

lemma upsert_permission_has: "perm_has (snd (upsert_permission i n t db)) n t"
  by (simp add: perm_has_def upsert_permission_def Let_def) (rule upsert_row_has; simp add: named_def)

lemma upsert_permission_keeps: "n' \<noteq> n \<Longrightarrow> perm_has db n' t' \<Longrightarrow> perm_has (snd (upsert_permission i n t db)) n' t'"
  by (simp add: perm_has_def upsert_permission_def Let_def) (rule upsert_row_keeps; auto simp: named_def)

lemma upsert_permission_noop: "perm_has db n t \<Longrightarrow> upsert_permission i n t db = (perm_id (permissions db) n, db)"
  by (simp add: perm_has_def upsert_permission_def upsert_row_noop)

lemma perm_id_keeps:
  assumes "\<exists>p \<in> set (permissions db). named n' p"
  shows "\<exists>p \<in> set (permissions (snd (upsert_permission i n t db))). named n' p"
    and "perm_id (permissions (snd (upsert_permission i n t db))) n' = perm_id (permissions db) n'"
proof -
  have named: "\<And>r. named n' (pr_description_update (\<lambda>_. t) r) = named n' r" by (simp add: named_def)
  show "\<exists>p \<in> set (permissions (snd (upsert_permission i n t db))). named n' p"
    using upsert_row_find(1) [OF assms named] by (simp add: upsert_permission_def Let_def)
  obtain p where "find (named n') (permissions db) = Some p" using find_exists [OF assms] .
  then show "perm_id (permissions (snd (upsert_permission i n t db))) n' = perm_id (permissions db) n'"
    using upsert_row_find(2) [OF assms named] by (simp add: upsert_permission_def Let_def perm_id_def)
qed

lemma seed_permissions_keeps: "n \<notin> fst ` set ps \<Longrightarrow> perm_has db n t \<Longrightarrow> perm_has (snd (seed_permission_rows pid ps db)) n t"
  by (induction ps arbitrary: db) (auto simp: split_beta Let_def upsert_permission_keeps)

lemma seed_permissions_has: "distinct (map fst ps) \<Longrightarrow> (n, t) \<in> set ps \<Longrightarrow> perm_has (snd (seed_permission_rows pid ps db)) n t"
proof (induction ps arbitrary: db)
  case (Cons a ps)
  obtain m u where a: "a = (m, u)" by (cases a)
  show ?case
  proof (cases "m = n")
    case True
    with Cons a have "u = t" "n \<notin> fst ` set ps" by (auto simp: rev_image_eqI)
    with a True show ?thesis by (simp add: split_beta Let_def seed_permissions_keeps upsert_permission_has)
  qed (use Cons a in \<open>simp add: split_beta Let_def\<close>)
qed simp

lemma seed_permissions_id_keeps:
  "\<exists>p \<in> set (permissions db). named n p \<Longrightarrow>
   perm_id (permissions (snd (seed_permission_rows pid ps db))) n = perm_id (permissions db) n"
proof (induction ps arbitrary: db)
  case (Cons a ps)
  obtain m t where a: "a = (m, t)" by (cases a)
  show ?case using Cons.IH [OF perm_id_keeps(1) [OF Cons.prems]] perm_id_keeps(2) [OF Cons.prems] by (simp add: a split_beta Let_def)
qed simp

lemma seed_permissions_ids:
  "distinct (map fst ps) \<Longrightarrow> n \<in> fst ` set ps \<Longrightarrow>
   map_of (fst (seed_permission_rows pid ps db)) n = Some (perm_id (permissions (snd (seed_permission_rows pid ps db))) n)"
proof (induction ps arbitrary: db)
  case (Cons a ps)
  obtain m t where a: "a = (m, t)" by (cases a)
  have "\<exists>p \<in> set (permissions (snd (upsert_permission (pid m) m t db))). named m p"
    using upsert_permission_has [of "pid m" m t db] by (simp add: perm_has_def row_has_def)
  from seed_permissions_id_keeps [OF this] Cons show ?case
    by (cases "n = m") (auto simp: a split_beta Let_def upsert_permission_def)
qed simp

lemma seed_permissions_noop:
  "(\<And>n t. (n, t) \<in> set ps \<Longrightarrow> perm_has db n t) \<Longrightarrow> snd (seed_permission_rows pid ps db) = db"
  by (induction ps) (auto simp: split_beta Let_def upsert_permission_noop)

subsection \<open>Roles and their permissions\<close>

lemma upsert_role_has: "role_has (snd (upsert_role i n (built_in n) db)) n"
  by (simp add: role_has_def upsert_role_def Let_def) (rule upsert_row_has; simp add: built_in_row_def)

lemma upsert_role_keeps: "n' \<noteq> n \<Longrightarrow> role_has db n' \<Longrightarrow> role_has (snd (upsert_role i n t db)) n'"
  by (simp add: role_has_def upsert_role_def Let_def) (rule upsert_row_keeps; auto simp: built_in_row_def)

lemma upsert_role_noop: "role_has db n \<Longrightarrow> upsert_role i n (built_in n) db = (built_in_id (roles db) n, db)"
  by (simp add: role_has_def upsert_role_def upsert_row_noop)

lemma built_in_id_keeps:
  assumes "role_has db n'"
  shows "built_in_id (roles (snd (upsert_role i n t db))) n' = built_in_id (roles db) n'"
proof -
  have named: "\<And>r. built_in_row n' (ro_description_update (\<lambda>_. t) r) = built_in_row n' r" by (simp add: built_in_row_def)
  have ex: "\<exists>r \<in> set (roles db). built_in_row n' r" using assms by (simp add: role_has_def row_has_def)
  obtain r where "find (built_in_row n') (roles db) = Some r" using find_exists [OF ex] .
  then show ?thesis using upsert_row_find(2) [OF ex named] by (simp add: upsert_role_def Let_def built_in_id_def)
qed

lemma set_insert_link: "set (fold (\<lambda>p. insert_link (g p)) ps ls) = set ls \<union> g ` set ps"
  by (induction ps arbitrary: ls) (auto simp: insert_link_def)

lemma insert_link_noop: "g ` set ps \<subseteq> set ls \<Longrightarrow> fold (\<lambda>p. insert_link (g p)) ps ls = ls"
  by (induction ps) (auto simp: insert_link_def)

text \<open>A built-in role is there, with a link to every permission of its list.\<close>

definition role_seeded :: "auth_db \<Rightarrow> (string \<Rightarrow> uuid) \<Rightarrow> string \<times> string list \<Rightarrow> bool" where
  "role_seeded db pids r =
     (role_has db (fst r) \<and> (\<lambda>p. (built_in_id (roles db) (fst r), pids p)) ` set (snd r) \<subseteq> set (role_permissions db))"

abbreviation link_role :: "(string \<Rightarrow> uuid) \<Rightarrow> (string \<times> uuid) list \<Rightarrow> string \<Rightarrow> string list \<Rightarrow> auth_db \<Rightarrow> auth_db" where
  "link_role rid ids n names db \<equiv>
     (snd (upsert_role (rid n) n (built_in n) db))\<lparr>role_permissions :=
        fold (\<lambda>p. insert_link (fst (upsert_role (rid n) n (built_in n) db), the (map_of ids p))) names
          (role_permissions (snd (upsert_role (rid n) n (built_in n) db)))\<rparr>"

lemma link_role_seeded: "role_seeded (link_role rid ids n names db) (\<lambda>p. the (map_of ids p)) (n, names)"
  using upsert_role_has [of "rid n" n db]
  by (auto simp: role_seeded_def role_has_def set_insert_link) (simp_all add: upsert_role_def Let_def)

lemma link_role_keeps:
  "n \<noteq> fst r \<Longrightarrow> role_seeded db pids r \<Longrightarrow> role_seeded (link_role rid ids n names db) pids r"
  using upsert_role_keeps [of "fst r" n db "rid n" "built_in n"] built_in_id_keeps [of db "fst r" "rid n" n "built_in n"]
  by (auto simp: role_seeded_def role_has_def set_insert_link auth_frames image_subset_iff)

lemma seed_roles_keeps:
  "fst r \<notin> fst ` set rs \<Longrightarrow> role_seeded db pids r \<Longrightarrow> role_seeded (seed_role_rows rid ids rs db) pids r"
  by (induction rs arbitrary: db) (auto simp: split_beta Let_def link_role_keeps)

lemma seed_roles_seeded:
  "distinct (map fst rs) \<Longrightarrow> r \<in> set rs \<Longrightarrow> role_seeded (seed_role_rows rid ids rs db) (\<lambda>p. the (map_of ids p)) r"
proof (induction rs arbitrary: db)
  case (Cons a rs)
  obtain n names where a: "a = (n, names)" by (cases a)
  show ?case
  proof (cases "r = a")
    case True
    have "n \<notin> fst ` set rs" using Cons.prems(1) a by simp
    then show ?thesis using True a link_role_seeded by (simp add: split_beta Let_def seed_roles_keeps)
  qed (use Cons a in \<open>simp add: split_beta Let_def\<close>)
qed simp

lemma seed_roles_noop:
  "(\<And>r. r \<in> set rs \<Longrightarrow> role_seeded db (\<lambda>p. the (map_of ids p)) r) \<Longrightarrow> seed_role_rows rid ids rs db = db"
proof (induction rs)
  case (Cons a rs)
  obtain n names where a: "a = (n, names)" by (cases a)
  then have "role_seeded db (\<lambda>p. the (map_of ids p)) (n, names)" using Cons.prems by simp
  then have "link_role rid ids n names db = db" by (simp add: role_seeded_def upsert_role_noop insert_link_noop)
  with Cons a show ?case by (simp add: split_beta Let_def)
qed simp

subsection \<open>Ensuring the seed data\<close>

definition seeded :: "auth_db \<Rightarrow> bool" where
  "seeded db = (map_of (tenants db) ''default'' \<noteq> None \<and> (\<forall>(n, t) \<in> set PERMISSION_DESCRIPTIONS. perm_has db n t) \<and>
     (\<forall>r \<in> set ROLE_PERMISSIONS. role_seeded db (perm_id (permissions db)) r))"

lemma seed_lists:
  "distinct (map fst PERMISSION_DESCRIPTIONS)" "distinct (map fst ROLE_PERMISSIONS)"
  "r \<in> set ROLE_PERMISSIONS \<Longrightarrow> set (snd r) \<subseteq> fst ` set PERMISSION_DESCRIPTIONS"
proof -
  show "distinct (map fst PERMISSION_DESCRIPTIONS)" "distinct (map fst ROLE_PERMISSIONS)" by code_simp+
  have "list_all (\<lambda>r. set (snd r) \<subseteq> fst ` set PERMISSION_DESCRIPTIONS) ROLE_PERMISSIONS" by code_simp
  then show "r \<in> set ROLE_PERMISSIONS \<Longrightarrow> set (snd r) \<subseteq> fst ` set PERMISSION_DESCRIPTIONS" by (simp add: list_all_iff)
qed

lemma role_seeded_cong:
  "set (snd r) \<subseteq> A \<Longrightarrow> (\<And>p. p \<in> A \<Longrightarrow> pids p = pids' p) \<Longrightarrow> role_seeded db pids r = role_seeded db pids' r"
  by (auto simp: role_seeded_def image_subset_iff subset_eq)

lemma tenants_frames [auth_frames]:
  "tenants (snd (seed_permission_rows pid ps db)) = tenants db" "tenants (seed_role_rows rid ids rs db) = tenants db"
proof -
  show "tenants (snd (seed_permission_rows pid ps db)) = tenants db"
    by (induction ps arbitrary: db) (auto simp: split_beta Let_def upsert_permission_def)
  show "tenants (seed_role_rows rid ids rs db) = tenants db"
    by (induction rs arbitrary: db) (auto simp: split_beta Let_def upsert_role_def)
qed

lemma perm_has_cong: "permissions db' = permissions db \<Longrightarrow> perm_has db' n t = perm_has db n t"
  by (simp add: perm_has_def)

lemma seeded_ensure: "seeded (ensure_seed_data sd db)"
proof -
  define db0 where "db0 = (if map_of (tenants db) ''default'' = None
    then db\<lparr>tenants := tenants db @ [(''default'', (DEFAULT_TENANT_ID, ''Default Tenant''))]\<rparr> else db)"
  define ids where "ids = fst (seed_permission_rows (fst sd) PERMISSION_DESCRIPTIONS db0)"
  define db1 where "db1 = snd (seed_permission_rows (fst sd) PERMISSION_DESCRIPTIONS db0)"
  have e: "ensure_seed_data sd db = seed_role_rows (snd sd) ids ROLE_PERMISSIONS db1"
    by (simp add: ensure_seed_data_def db0_def db1_def ids_def split_beta Let_def)
  have "map_of (tenants db0) ''default'' \<noteq> None" by (simp add: db0_def map_add_def split: option.split)
  moreover have "perm_has db1 n t" if "(n, t) \<in> set PERMISSION_DESCRIPTIONS" for n t
    using that unfolding db1_def by (rule seed_permissions_has [OF seed_lists(1)])
  moreover have "role_seeded (seed_role_rows (snd sd) ids ROLE_PERMISSIONS db1) (perm_id (permissions db1)) r"
    if r: "r \<in> set ROLE_PERMISSIONS" for r
    using seed_roles_seeded [OF seed_lists(2) r, of "snd sd" ids db1]
      role_seeded_cong [OF seed_lists(3) [OF r], of "\<lambda>p. the (map_of ids p)" "perm_id (permissions db1)"]
    by (simp add: ids_def db1_def seed_permissions_ids [OF seed_lists(1)])
  ultimately show ?thesis
    by (auto simp: seeded_def e auth_frames perm_has_cong [OF seed_role_frames(5)] db1_def)
qed

lemma ensure_noop: "seeded db \<Longrightarrow> ensure_seed_data sd db = db"
proof -
  assume s: "seeded db"
  have p: "snd (seed_permission_rows (fst sd) PERMISSION_DESCRIPTIONS db) = db"
    by (rule seed_permissions_noop) (use s in \<open>auto simp: seeded_def\<close>)
  have "seed_role_rows (snd sd) (fst (seed_permission_rows (fst sd) PERMISSION_DESCRIPTIONS db)) ROLE_PERMISSIONS db = db"
  proof (rule seed_roles_noop)
    fix r assume r: "r \<in> set ROLE_PERMISSIONS"
    let ?ids = "fst (seed_permission_rows (fst sd) PERMISSION_DESCRIPTIONS db)"
    have "role_seeded db (\<lambda>p. the (map_of ?ids p)) r = role_seeded db (perm_id (permissions db)) r"
      by (rule role_seeded_cong [OF seed_lists(3) [OF r]]) (simp add: seed_permissions_ids [OF seed_lists(1)] p)
    with s r show "role_seeded db (\<lambda>p. the (map_of ?ids p)) r" by (simp add: seeded_def)
  qed
  with s p show ?thesis by (auto simp: ensure_seed_data_def seeded_def split_beta Let_def)
qed

lemma ensure_idem [simp]: "ensure_seed_data sd' (ensure_seed_data sd db) = ensure_seed_data sd db"
  by (rule ensure_noop [OF seeded_ensure])

section \<open>Indexes and references\<close>

definition roles_ok :: "auth_db \<Rightarrow> bool" where
  "roles_ok db = (distinct (map pr_name (permissions db)) \<and> distinct (map pr_id (permissions db)) \<and>
     distinct (map (\<lambda>r. (ro_tenant_id r, ro_name r)) (roles db)) \<and> distinct (map ro_id (roles db)) \<and>
     distinct (role_permissions db) \<and> set (role_permissions db) \<subseteq> ro_id ` set (roles db) \<times> pr_id ` set (permissions db))"

definition users_ok :: "auth_db \<Rightarrow> bool" where
  "users_ok db = (distinct (map us_id (users db)) \<and> distinct (map (\<lambda>r. (us_tenant_id r, us_email r)) (users db)))"

definition accounts_ok :: "auth_db \<Rightarrow> bool" where
  "accounts_ok db = (distinct (map cr_user_id (user_credentials db)) \<and> cr_user_id ` set (user_credentials db) \<subseteq> us_id ` set (users db) \<and>
     distinct (map (\<lambda>a. (oa_provider a, oa_provider_account_id a)) (oauth_accounts db)) \<and>
     distinct (map (\<lambda>a. (oa_provider a, oa_tenant_id a, oa_provider_email a)) (oauth_accounts db)) \<and>
     oa_user_id ` set (oauth_accounts db) \<subseteq> us_id ` set (users db))"

definition user_roles_ok :: "auth_db \<Rightarrow> bool" where
  "user_roles_ok db = (distinct (user_roles db) \<and> set (user_roles db) \<subseteq> us_id ` set (users db) \<times> ro_id ` set (roles db))"

definition auth_ok :: "auth_db \<Rightarrow> bool" where
  "auth_ok db = (roles_ok db \<and> users_ok db \<and> accounts_ok db \<and> user_roles_ok db)"

subsection \<open>The seed data keep them\<close>

text \<open>The identifiers that the seed data may use are new and differ from each other.\<close>

definition fresh_seed :: "seed_draw \<Rightarrow> auth_db \<Rightarrow> bool" where
  "fresh_seed sd db =
     (inj_on (fst sd) (fst ` set PERMISSION_DESCRIPTIONS) \<and> (\<forall>n \<in> fst ` set PERMISSION_DESCRIPTIONS. fst sd n \<notin> pr_id ` set (permissions db)) \<and>
      inj_on (snd sd) (fst ` set ROLE_PERMISSIONS) \<and> (\<forall>n \<in> fst ` set ROLE_PERMISSIONS. snd sd n \<notin> ro_id ` set (roles db)))"

lemma map_update_rows: "(\<And>r. key (f r) = key r) \<Longrightarrow> map key (update_rows p f rows) = map key rows"
  by (simp add: update_rows_def)

lemma upsert_row_keys:
  "(\<And>r. key (f r) = key r) \<Longrightarrow>
   map key (upsert_row same f new rows) = map key rows \<or>
   (\<forall>r \<in> set rows. \<not> same r) \<and> map key (upsert_row same f new rows) = map key rows @ [key new]"
  by (auto simp: upsert_row_def find_some map_update_rows split: option.split)

definition perms_ok :: "permission_record list \<Rightarrow> bool" where
  "perms_ok ps = (distinct (map pr_name ps) \<and> distinct (map pr_id ps))"

lemma upsert_permission_ok:
  assumes "perms_ok (permissions db)" "i \<notin> pr_id ` set (permissions db)"
  shows "perms_ok (permissions (snd (upsert_permission i n t db)))"
    and "pr_id ` set (permissions db) \<subseteq> pr_id ` set (permissions (snd (upsert_permission i n t db)))"
    and "pr_id ` set (permissions (snd (upsert_permission i n t db))) \<subseteq> insert i (pr_id ` set (permissions db))"
proof -
  let ?f = "pr_description_update (\<lambda>_. t)" and ?new = "\<lparr>pr_id = i, pr_name = n, pr_description = t\<rparr>"
  have n: "map pr_name (upsert_row (named n) ?f ?new (permissions db)) = map pr_name (permissions db) \<or>
      (\<forall>r \<in> set (permissions db). pr_name r \<noteq> n) \<and>
      map pr_name (upsert_row (named n) ?f ?new (permissions db)) = map pr_name (permissions db) @ [n]"
    using upsert_row_keys [of pr_name ?f "named n" ?new "permissions db"] by (simp add: named_def)
  have i: "map pr_id (upsert_row (named n) ?f ?new (permissions db)) = map pr_id (permissions db) \<or>
      map pr_id (upsert_row (named n) ?f ?new (permissions db)) = map pr_id (permissions db) @ [i]"
    using upsert_row_keys [of pr_id ?f "named n" ?new "permissions db"] by auto
  then have ids: "pr_id ` set (upsert_row (named n) ?f ?new (permissions db)) = pr_id ` set (permissions db) \<or>
      pr_id ` set (upsert_row (named n) ?f ?new (permissions db)) = insert i (pr_id ` set (permissions db))"
    by (metis list.set_map list.simps(15) rotate1.simps(2) set_rotate1)
  show "perms_ok (permissions (snd (upsert_permission i n t db)))"
    using n i assms by (auto simp: perms_ok_def upsert_permission_def Let_def)
  show "pr_id ` set (permissions db) \<subseteq> pr_id ` set (permissions (snd (upsert_permission i n t db)))"
    "pr_id ` set (permissions (snd (upsert_permission i n t db))) \<subseteq> insert i (pr_id ` set (permissions db))"
    using ids by (auto simp: upsert_permission_def Let_def)
qed

lemma seed_permissions_ok:
  "perms_ok (permissions db) \<Longrightarrow> inj_on pid (fst ` set ps) \<Longrightarrow> distinct (map fst ps) \<Longrightarrow> (\<forall>n \<in> fst ` set ps. pid n \<notin> pr_id ` set (permissions db)) \<Longrightarrow>
   perms_ok (permissions (snd (seed_permission_rows pid ps db))) \<and>
   pr_id ` set (permissions db) \<subseteq> pr_id ` set (permissions (snd (seed_permission_rows pid ps db)))"
proof (induction ps arbitrary: db)
  case (Cons a ps)
  obtain m t where a: "a = (m, t)" by (cases a)
  have f: "pid m \<notin> pr_id ` set (permissions db)" using Cons.prems a by simp
  note up = upsert_permission_ok [OF Cons.prems(1) f, of m t]
  have "\<forall>n \<in> fst ` set ps. pid n \<notin> pr_id ` set (permissions (snd (upsert_permission (pid m) m t db)))"
  proof
    fix n assume n: "n \<in> fst ` set ps"
    then have "pid n \<noteq> pid m" using Cons.prems(2,3) a by (auto simp: inj_on_def)
    with n Cons.prems(4) up(3) show "pid n \<notin> pr_id ` set (permissions (snd (upsert_permission (pid m) m t db)))" by auto
  qed
  then have "perms_ok (permissions (snd (seed_permission_rows pid ps (snd (upsert_permission (pid m) m t db)))))"
    "pr_id ` set (permissions (snd (upsert_permission (pid m) m t db))) \<subseteq>
       pr_id ` set (permissions (snd (seed_permission_rows pid ps (snd (upsert_permission (pid m) m t db)))))"
    using Cons.IH [OF up(1)] Cons.prems by simp_all
  with subset_trans [OF up(2)] show ?case by (simp add: a split_beta Let_def)
qed simp

text \<open>The roles and their links, with the identifiers of the permissions.\<close>

definition role_rows_ok :: "uuid set \<Rightarrow> auth_db \<Rightarrow> bool" where
  "role_rows_ok pids db = (distinct (map (\<lambda>r. (ro_tenant_id r, ro_name r)) (roles db)) \<and> distinct (map ro_id (roles db)) \<and>
     distinct (role_permissions db) \<and> set (role_permissions db) \<subseteq> ro_id ` set (roles db) \<times> pids)"

lemma roles_ok_parts: "roles_ok db \<longleftrightarrow> perms_ok (permissions db) \<and> role_rows_ok (pr_id ` set (permissions db)) db"
  by (auto simp: roles_ok_def perms_ok_def role_rows_ok_def)

lemma distinct_links: "distinct ls \<Longrightarrow> distinct (fold (\<lambda>p. insert_link (g p)) ps ls)"
  by (induction ps arbitrary: ls) (auto simp: insert_link_def)

lemma upsert_role_ids:
  "ro_id ` set (roles (snd (upsert_role i n t db))) = ro_id ` set (roles db) \<or>
   ro_id ` set (roles (snd (upsert_role i n t db))) = insert i (ro_id ` set (roles db))"
proof -
  have "map ro_id (roles (snd (upsert_role i n t db))) = map ro_id (roles db) \<or>
      map ro_id (roles (snd (upsert_role i n t db))) = map ro_id (roles db) @ [i]"
    using upsert_row_keys [of ro_id "ro_description_update (\<lambda>_. t)" "built_in_row n"
        "\<lparr>ro_id = i, ro_tenant_id = DEFAULT_TENANT_ID, ro_name = n, ro_description = t\<rparr>" "roles db"]
    by (auto simp: upsert_role_def Let_def)
  then show ?thesis by (metis list.set_map list.simps(15) rotate1.simps(2) set_rotate1)
qed

lemma upsert_role_distinct:
  assumes "distinct (map (\<lambda>r. (ro_tenant_id r, ro_name r)) (roles db))" "distinct (map ro_id (roles db))" "i \<notin> ro_id ` set (roles db)"
  shows "distinct (map (\<lambda>r. (ro_tenant_id r, ro_name r)) (roles (snd (upsert_role i n t db))))"
    and "distinct (map ro_id (roles (snd (upsert_role i n t db))))"
proof -
  let ?f = "ro_description_update (\<lambda>_. t)" and ?key = "\<lambda>r. (ro_tenant_id r, ro_name r)"
    and ?new = "\<lparr>ro_id = i, ro_tenant_id = DEFAULT_TENANT_ID, ro_name = n, ro_description = t\<rparr>"
  show "distinct (map ?key (roles (snd (upsert_role i n t db))))"
    using upsert_row_keys [of ?key ?f "built_in_row n" ?new "roles db"] assms
    by (auto simp: upsert_role_def Let_def built_in_row_def) metis
  show "distinct (map ro_id (roles (snd (upsert_role i n t db))))"
    using upsert_row_keys [of ro_id ?f "built_in_row n" ?new "roles db"] assms by (auto simp: upsert_role_def Let_def)
qed

lemma built_in_id_mem: "fst (upsert_role i n (built_in n) db) \<in> ro_id ` set (roles (snd (upsert_role i n (built_in n) db)))"
proof -
  have "\<exists>r \<in> set (roles (snd (upsert_role i n (built_in n) db))). built_in_row n r"
    using upsert_role_has [of i n db] by (simp add: role_has_def row_has_def)
  then obtain r where "find (built_in_row n) (roles (snd (upsert_role i n (built_in n) db))) = Some r"
    "r \<in> set (roles (snd (upsert_role i n (built_in n) db)))" by (rule find_exists)
  then show ?thesis by (simp add: upsert_role_def Let_def built_in_id_def)
qed

lemma link_role_ok:
  assumes "role_rows_ok pids db" "rid n \<notin> ro_id ` set (roles db)" "(\<lambda>p. the (map_of ids p)) ` set names \<subseteq> pids"
  shows "role_rows_ok pids (link_role rid ids n names db)"
proof -
  let ?db = "snd (upsert_role (rid n) n (built_in n) db)"
  have "set (role_permissions db) \<subseteq> ro_id ` set (roles ?db) \<times> pids"
    using assms(1) upsert_role_ids [of "rid n" n "built_in n" db] by (auto simp: role_rows_ok_def)
  moreover have "(\<lambda>p. (fst (upsert_role (rid n) n (built_in n) db), the (map_of ids p))) ` set names \<subseteq> ro_id ` set (roles ?db) \<times> pids"
    using built_in_id_mem [of "rid n" n db] assms(3) by auto
  moreover have "distinct (fold (\<lambda>p. insert_link (fst (upsert_role (rid n) n (built_in n) db), the (map_of ids p))) names (role_permissions db))"
    by (rule distinct_links) (use assms(1) in \<open>simp add: role_rows_ok_def\<close>)
  ultimately show ?thesis
    using assms(1,2) upsert_role_distinct [of db "rid n" n "built_in n"]
    by (simp add: role_rows_ok_def set_insert_link auth_frames)
qed

lemma seed_roles_ok:
  "role_rows_ok pids db \<Longrightarrow> inj_on rid (fst ` set rs) \<Longrightarrow> distinct (map fst rs) \<Longrightarrow> \<forall>n \<in> fst ` set rs. rid n \<notin> ro_id ` set (roles db) \<Longrightarrow>
   (\<And>r. r \<in> set rs \<Longrightarrow> (\<lambda>p. the (map_of ids p)) ` set (snd r) \<subseteq> pids) \<Longrightarrow> role_rows_ok pids (seed_role_rows rid ids rs db)"
proof (induction rs arbitrary: db)
  case (Cons a rs)
  obtain m names where a: "a = (m, names)" by (cases a)
  let ?db = "snd (upsert_role (rid m) m (built_in m) db)"
  have ok: "role_rows_ok pids (link_role rid ids m names db)"
    using Cons.prems(1,4) Cons.prems(5) [of a] a by (intro link_role_ok) auto
  have "\<forall>n \<in> fst ` set rs. rid n \<notin> ro_id ` set (roles ?db)"
  proof
    fix n assume n: "n \<in> fst ` set rs"
    then have "rid n \<noteq> rid m" using Cons.prems(2,3) a by (auto simp: inj_on_def)
    moreover have "rid n \<notin> ro_id ` set (roles db)" using bspec [OF Cons.prems(4), of n] n a by simp
    ultimately show "rid n \<notin> ro_id ` set (roles ?db)"
      using upsert_role_ids [of "rid m" m "built_in m" db] by (metis insert_iff)
  qed
  then show ?case using Cons.IH [OF ok] Cons.prems by (simp add: a split_beta Let_def)
qed simp

lemma perm_id_mem: "\<exists>p \<in> set ps. named n p \<Longrightarrow> perm_id ps n \<in> pr_id ` set ps"
  by (erule find_exists) (simp add: perm_id_def)

lemma ensure_roles_ok:
  assumes "roles_ok db" "fresh_seed sd db"
  shows "roles_ok (ensure_seed_data sd db)" and "ro_id ` set (roles db) \<subseteq> ro_id ` set (roles (ensure_seed_data sd db))"
proof -
  define db0 where "db0 = (if map_of (tenants db) ''default'' = None
    then db\<lparr>tenants := tenants db @ [(''default'', (DEFAULT_TENANT_ID, ''Default Tenant''))]\<rparr> else db)"
  have db0: "permissions db0 = permissions db" "roles db0 = roles db" "role_permissions db0 = role_permissions db"
    by (simp_all add: db0_def)
  define ids where "ids = fst (seed_permission_rows (fst sd) PERMISSION_DESCRIPTIONS db0)"
  define db1 where "db1 = snd (seed_permission_rows (fst sd) PERMISSION_DESCRIPTIONS db0)"
  have e: "ensure_seed_data sd db = seed_role_rows (snd sd) ids ROLE_PERMISSIONS db1"
    by (simp add: ensure_seed_data_def db0_def db1_def ids_def split_beta Let_def)
  have p: "perms_ok (permissions db1)" "pr_id ` set (permissions db) \<subseteq> pr_id ` set (permissions db1)"
    using seed_permissions_ok [of db0 "fst sd" PERMISSION_DESCRIPTIONS] assms seed_lists(1)
    by (simp_all add: db0 db1_def roles_ok_parts fresh_seed_def)
  have r: "role_rows_ok (pr_id ` set (permissions db1)) db1"
    using assms(1) p(2) by (auto simp: roles_ok_parts role_rows_ok_def db1_def auth_frames db0)
  have l: "(\<lambda>p. the (map_of ids p)) ` set (snd r) \<subseteq> pr_id ` set (permissions db1)" if rr: "r \<in> set ROLE_PERMISSIONS" for r
  proof
    fix x assume "x \<in> (\<lambda>p. the (map_of ids p)) ` set (snd r)"
    then obtain n where n: "n \<in> fst ` set PERMISSION_DESCRIPTIONS" "x = the (map_of ids n)" using seed_lists(3) [OF rr] by blast
    then obtain t where "(n, t) \<in> set PERMISSION_DESCRIPTIONS" by auto
    then have "\<exists>p \<in> set (permissions db1). named n p"
      using seed_permissions_has [OF seed_lists(1), of n t "fst sd" db0] by (simp add: db1_def perm_has_def row_has_def)
    with n show "x \<in> pr_id ` set (permissions db1)"
      by (simp add: ids_def db1_def seed_permissions_ids [OF seed_lists(1)] perm_id_mem)
  qed
  have "role_rows_ok (pr_id ` set (permissions db1)) (seed_role_rows (snd sd) ids ROLE_PERMISSIONS db1)"
    using assms(2) seed_lists(2) by (intro seed_roles_ok [OF r] l) (auto simp: fresh_seed_def db1_def auth_frames db0)
  with p(1) show "roles_ok (ensure_seed_data sd db)" by (simp add: e roles_ok_parts auth_frames)
  have "ro_id ` set (roles db2) \<subseteq> ro_id ` set (roles (seed_role_rows rid ids' rs db2))" for rid ids' rs db2
  proof (induction rs arbitrary: db2)
    case (Cons a rs)
    obtain m names where a: "a = (m, names)" by (cases a)
    show ?case using Cons [of "link_role rid ids' m names db2"] upsert_role_ids [of "rid m" m "built_in m" db2]
      by (auto simp: a split_beta Let_def)
  qed simp
  from this [of db1] show "ro_id ` set (roles db) \<subseteq> ro_id ` set (roles (ensure_seed_data sd db))"
    by (simp add: e db1_def auth_frames db0)
qed

lemma ensure_auth_ok:
  assumes "auth_ok db" "fresh_seed sd db"
  shows "auth_ok (ensure_seed_data sd db)"
proof -
  have "set (user_roles db) \<subseteq> us_id ` set (users db) \<times> ro_id ` set (roles (ensure_seed_data sd db))"
    using assms ensure_roles_ok(2) [of db sd] by (auto simp: auth_ok_def user_roles_ok_def)
  then show ?thesis
    using assms ensure_roles_ok(1) [of db sd]
    by (simp add: auth_ok_def users_ok_def accounts_ok_def user_roles_ok_def auth_frames)
qed

end
