(* ===== verification/Auth_Database.thy ===== *)
theory Auth_Database
  imports Auth_Seed
begin

text \<open>
  What holds of the tables of the authentication repository: every call keeps the indexes and the references, a deactivated
  user stays locked out, and the page of users that one joined query reads consists of the users that are read one by one.
\<close>

section \<open>Indexes and references\<close>

subsection \<open>Every call keeps them\<close>

lemma insert_user_ok:
  assumes "auth_ok db" "insert_user row db = Inr db'"
  shows "auth_ok db'" and "us_id row \<in> us_id ` set (users db')" and "roles db' = roles db"
proof -
  have db': "db' = db\<lparr>users := users db @ [row]\<rparr>"
    and fresh: "us_id row \<notin> us_id ` set (users db)" "(us_tenant_id row, us_email row) \<notin> (\<lambda>r. (us_tenant_id r, us_email r)) ` set (users db)"
    using assms(2) by (auto simp: insert_user_def image_iff split: if_splits)
  have "users_ok db'" using assms(1) fresh by (simp add: db' auth_ok_def users_ok_def)
  moreover have "accounts_ok db'" "user_roles_ok db'" "roles_ok db'"
    using assms(1) by (auto simp: db' auth_ok_def accounts_ok_def user_roles_ok_def roles_ok_def)
  ultimately show "auth_ok db'" by (simp add: auth_ok_def)
  show "us_id row \<in> us_id ` set (users db')" "roles db' = roles db" by (simp_all add: db')
qed

lemma insert_credential_ok:
  assumes "auth_ok db" "insert_credential row db = Inr db'" "cr_user_id row \<in> us_id ` set (users db)"
  shows "auth_ok db'" and "users db' = users db" and "roles db' = roles db"
proof -
  have db': "db' = db\<lparr>user_credentials := user_credentials db @ [row]\<rparr>"
    and fresh: "cr_user_id row \<notin> cr_user_id ` set (user_credentials db)"
    using assms(2) by (auto simp: insert_credential_def image_iff split: if_splits)
  have "accounts_ok db'" using assms(1,3) fresh by (simp add: db' auth_ok_def accounts_ok_def)
  moreover have "users_ok db'" "user_roles_ok db'" "roles_ok db'"
    using assms(1) by (simp_all add: db' auth_ok_def users_ok_def user_roles_ok_def roles_ok_def)
  ultimately show "auth_ok db'" by (simp add: auth_ok_def)
  show "users db' = users db" "roles db' = roles db" by (simp_all add: db')
qed

lemma insert_user_roles_ok:
  assumes "auth_ok db" "u \<in> us_id ` set (users db)" "set rs \<subseteq> ro_id ` set (roles db)"
  shows "auth_ok (insert_user_roles u rs db)"
proof -
  have "distinct (fold (\<lambda>r. insert_link (u, r)) rs (user_roles db))"
    by (rule distinct_links) (use assms in \<open>simp add: auth_ok_def user_roles_ok_def\<close>)
  with assms show ?thesis
    by (auto simp: insert_user_roles_def auth_ok_def roles_ok_def users_ok_def accounts_ok_def user_roles_ok_def set_insert_link)
qed

lemma roles_by_names_ids: "rr_id ` set (pg_roles_by_names db ns) \<subseteq> ro_id ` set (roles db)"
  by (auto simp: pg_roles_by_names_def load_role_def role_from_row_def Let_def)

lemma update_users_ok:
  assumes "auth_ok db" "\<And>r. us_id (f r) = us_id r" "\<And>r. us_tenant_id (f r) = us_tenant_id r" "\<And>r. us_email (f r) = us_email r"
  shows "auth_ok (db\<lparr>users := update_rows p f (users db)\<rparr>)"
proof -
  have ids: "us_id ` set (update_rows p f (users db)) = us_id ` set (users db)"
    using map_update_rows [of us_id f p "users db"] assms(2) by (metis list.set_map)
  from assms show ?thesis
    by (simp add: auth_ok_def roles_ok_def users_ok_def accounts_ok_def user_roles_ok_def map_update_rows ids)
qed

lemma set_password_ok: "auth_ok db \<Longrightarrow> auth_ok (set_password u h at db)"
proof -
  let ?cs = "update_rows (\<lambda>c. cr_user_id c = u) (\<lambda>c. c\<lparr>cr_password_hash := h, cr_updated_at := at\<rparr>) (user_credentials db)"
  have "map cr_user_id ?cs = map cr_user_id (user_credentials db)" by (rule map_update_rows) simp
  moreover from this have "cr_user_id ` set ?cs = cr_user_id ` set (user_credentials db)" by (metis list.set_map)
  moreover assume "auth_ok db"
  ultimately show ?thesis
    by (simp add: set_password_def auth_ok_def roles_ok_def users_ok_def accounts_ok_def user_roles_ok_def)
qed

lemma create_ok: "auth_ok db \<Longrightarrow> auth_ok (snd (repo_create_user d email pw dn rn db))"
proof -
  assume ok: "auth_ok db"
  have "auth_ok (insert_user_roles (ud_id d) (map rr_id (pg_roles_by_names db2 rn)) db2)"
    if u: "insert_user (new_user_row d email dn) db = Inr db1"
      and c: "insert_credential (new_credential_row (ud_id d) h at) db1 = Inr db2" for db1 db2 h at
  proof (rule insert_user_roles_ok)
    note u' = insert_user_ok [OF ok u]
    then have "cr_user_id (new_credential_row (ud_id d) h at) \<in> us_id ` set (users db1)"
      by (simp add: new_user_row_def new_credential_row_def)
    from insert_credential_ok [OF u'(1) c this] u'
    show "auth_ok db2" "ud_id d \<in> us_id ` set (users db2)" by (simp_all add: new_user_row_def)
    show "set (map rr_id (pg_roles_by_names db2 rn)) \<subseteq> ro_id ` set (roles db2)" using roles_by_names_ids by simp
  qed
  with ok show ?thesis
    by (auto simp: repo_create_user_def result_simps intro!: transaction_cases [where P = auth_ok])
qed

lemma create_without_ok: "auth_ok db \<Longrightarrow> auth_ok (snd (repo_create_user_without_password d email dn rn db))"
proof -
  assume ok: "auth_ok db"
  have "auth_ok (insert_user_roles (ud_id d) (map rr_id (pg_roles_by_names db1 rn)) db1)"
    if u: "insert_user (new_user_row d email dn) db = Inr db1" for db1
    using insert_user_ok(1,2) [OF ok u] roles_by_names_ids [of db1 rn] by (intro insert_user_roles_ok) (simp_all add: new_user_row_def)
  with ok show ?thesis
    by (auto simp: repo_create_user_without_password_def result_simps intro!: transaction_cases [where P = auth_ok])
qed

lemma oauth_ok:
  assumes "auth_ok db" "oauth_accounts db' = as" "users db' = users db" "user_credentials db' = user_credentials db"
    "permissions db' = permissions db" "roles db' = roles db" "role_permissions db' = role_permissions db" "user_roles db' = user_roles db"
    "distinct (map (\<lambda>a. (oa_provider a, oa_provider_account_id a)) as)"
    "distinct (map (\<lambda>a. (oa_provider a, oa_tenant_id a, oa_provider_email a)) as)" "oa_user_id ` set as \<subseteq> us_id ` set (users db)"
  shows "auth_ok db'"
  using assms by (simp add: auth_ok_def roles_ok_def users_ok_def accounts_ok_def user_roles_ok_def)

abbreviation account_key :: "oauth_row \<Rightarrow> string \<times> string" where
  "account_key a \<equiv> (oa_provider a, oa_provider_account_id a)"

abbreviation email_key :: "oauth_row \<Rightarrow> string \<times> uuid \<times> string" where
  "email_key a \<equiv> (oa_provider a, oa_tenant_id a, oa_provider_email a)"

lemma relink_distinct:
  assumes "distinct (map account_key as)" "distinct (map email_key as)"
    and old: "old \<in> set as" "oa_provider old = p" "oa_provider_account_id old = i"
    and free: "\<And>a. a \<in> set as \<Longrightarrow> account_key a \<noteq> (p, i) \<Longrightarrow> email_key a \<noteq> (p, oa_tenant_id old, e)"
    and f: "\<And>a. account_key (f a) = account_key a" "\<And>a. oa_tenant_id (f a) = oa_tenant_id a" "\<And>a. oa_provider_email (f a) = e"
  shows "distinct (map email_key (update_rows (\<lambda>a. oa_provider a = p \<and> oa_provider_account_id a = i) f as))"
proof -
  define g where "g a = email_key (if oa_provider a = p \<and> oa_provider_account_id a = i then f a else a)" for a
  define k where "k = email_key"
  have inj: "inj_on account_key (set as)" "inj_on k (set as)" "distinct as" using assms(1,2) by (auto simp: distinct_map k_def)
  have one: "a = old" if "a \<in> set as" "oa_provider a = p" "oa_provider_account_id a = i" for a
    using inj(1) that old by (auto dest: inj_onD)
  have g_old: "g old = (p, oa_tenant_id old, e)" using f [of old] old(2,3) by (simp add: g_def)
  have g_other: "g a = k a" "k a \<noteq> (p, oa_tenant_id old, e)" if "a \<in> set as" "a \<noteq> old" for a
  proof -
    have n: "\<not> (oa_provider a = p \<and> oa_provider_account_id a = i)" using one [of a] that by blast
    then show "g a = k a" by (auto simp: g_def k_def)
    show "k a \<noteq> (p, oa_tenant_id old, e)" using free [of a] n that by (simp add: k_def)
  qed
  have "inj_on g (set as)"
  proof (rule inj_onI)
    fix a b assume ab: "a \<in> set as" "b \<in> set as" "g a = g b"
    then show "a = b" using g_old g_other inj_onD [OF inj(2), of a b] by (cases "a = old"; cases "b = old") auto
  qed
  moreover have "map email_key (update_rows (\<lambda>a. oa_provider a = p \<and> oa_provider_account_id a = i) f as) = map g as"
    by (simp add: update_rows_def g_def)
  ultimately show ?thesis using inj(3) by (simp add: distinct_map)
qed

lemma snd_transaction: "snd (case if c then Inl e else Inr ((), db') of Inl e \<Rightarrow> (Inl e, db) | Inr (x, db') \<Rightarrow> (Inr x, db')) = (if c then db else db')"
  by simp

lemma if_holds: "(c \<Longrightarrow> P a) \<Longrightarrow> (\<not> c \<Longrightarrow> P b) \<Longrightarrow> P (if c then a else b)"
  by simp

lemma link_relinks:
  assumes "find (\<lambda>a. oa_provider a = p \<and> oa_provider_account_id a = i) (oauth_accounts db) = Some old"
  shows "snd (link_external_identity at u p i l e v db) =
    (if \<exists>a \<in> set (oauth_accounts db). \<not> (oa_provider a = p \<and> oa_provider_account_id a = i) \<and>
        oa_provider a = p \<and> oa_tenant_id a = oa_tenant_id old \<and> oa_provider_email a = e then db
     else db\<lparr>oauth_accounts := update_rows (\<lambda>a. oa_provider a = p \<and> oa_provider_account_id a = i)
       (\<lambda>a. a\<lparr>oa_provider_login := l, oa_provider_email := e, oa_provider_email_verified := v, oa_updated_at := at\<rparr>) (oauth_accounts db)\<rparr>)"
  unfolding link_external_identity_def transaction_def Let_def assms option.case by (rule snd_transaction)

lemma link_adds:
  assumes "find (\<lambda>a. oa_provider a = p \<and> oa_provider_account_id a = i) (oauth_accounts db) = None"
  shows "snd (link_external_identity at u p i l e v db) =
    (if \<exists>a \<in> set (oauth_accounts db). oa_provider a = p \<and> oa_tenant_id a = DEFAULT_TENANT_ID \<and> oa_provider_email a = e then db
     else db\<lparr>oauth_accounts := oauth_accounts db @ [\<lparr>oa_tenant_id = DEFAULT_TENANT_ID, oa_user_id = u, oa_provider = p,
        oa_provider_account_id = i, oa_provider_login = l, oa_provider_email = e, oa_provider_email_verified = v,
        oa_created_at = at, oa_updated_at = at\<rparr>]\<rparr>)"
  unfolding link_external_identity_def transaction_def Let_def assms option.case by (rule snd_transaction)

lemma link_ok:
  assumes ok: "auth_ok db" and u: "u \<in> us_id ` set (users db)"
  shows "auth_ok (snd (link_external_identity at u p i l e v db))"
proof (cases "find (\<lambda>a. oa_provider a = p \<and> oa_provider_account_id a = i) (oauth_accounts db)")
  case (Some old)
  then have old: "old \<in> set (oauth_accounts db)" "oa_provider old = p" "oa_provider_account_id old = i" by (auto simp: find_Some_iff)
  let ?f = "\<lambda>a. a\<lparr>oa_provider_login := l, oa_provider_email := e, oa_provider_email_verified := v, oa_updated_at := at\<rparr>"
  let ?as = "update_rows (\<lambda>a. oa_provider a = p \<and> oa_provider_account_id a = i) ?f (oauth_accounts db)"
  have keep: "map account_key ?as = map account_key (oauth_accounts db)" "map oa_user_id ?as = map oa_user_id (oauth_accounts db)"
    by (simp_all add: map_update_rows)
  have users: "oa_user_id ` set ?as = oa_user_id ` set (oauth_accounts db)" using arg_cong [OF keep(2), of set] by simp
  have "auth_ok (db\<lparr>oauth_accounts := ?as\<rparr>)"
    if free: "\<not> (\<exists>a \<in> set (oauth_accounts db). \<not> (oa_provider a = p \<and> oa_provider_account_id a = i) \<and>
        oa_provider a = p \<and> oa_tenant_id a = oa_tenant_id old \<and> oa_provider_email a = e)"
  proof -
    have keys: "distinct (map account_key (oauth_accounts db))" "distinct (map email_key (oauth_accounts db))"
      using ok by (simp_all add: auth_ok_def accounts_ok_def)
    have "distinct (map email_key ?as)"
    proof (rule relink_distinct [OF keys old])
      fix a assume "a \<in> set (oauth_accounts db)" "account_key a \<noteq> (p, i)"
      with free show "email_key a \<noteq> (p, oa_tenant_id old, e)" by (metis prod.inject)
    qed simp_all
    moreover have "oa_user_id ` set ?as \<subseteq> us_id ` set (users db)" using ok users by (simp add: auth_ok_def accounts_ok_def)
    ultimately show ?thesis using keep(1) keys by (intro oauth_ok [OF ok refl]) simp_all
  qed
  then show ?thesis unfolding link_relinks [OF Some] by (rule if_holds [where P = auth_ok, OF ok])
next
  case None
  then have new: "(p, i) \<notin> account_key ` set (oauth_accounts db)" by (auto simp: find_some)
  have "auth_ok (db\<lparr>oauth_accounts := oauth_accounts db @ [\<lparr>oa_tenant_id = DEFAULT_TENANT_ID, oa_user_id = u, oa_provider = p,
      oa_provider_account_id = i, oa_provider_login = l, oa_provider_email = e, oa_provider_email_verified = v,
      oa_created_at = at, oa_updated_at = at\<rparr>]\<rparr>)"
    if "\<not> (\<exists>a \<in> set (oauth_accounts db). oa_provider a = p \<and> oa_tenant_id a = DEFAULT_TENANT_ID \<and> oa_provider_email a = e)"
  proof -
    have "(p, DEFAULT_TENANT_ID, e) \<notin> email_key ` set (oauth_accounts db)" using that by auto
    moreover have "distinct (map account_key (oauth_accounts db))" "distinct (map email_key (oauth_accounts db))"
      "oa_user_id ` set (oauth_accounts db) \<subseteq> us_id ` set (users db)"
      using ok by (simp_all add: auth_ok_def accounts_ok_def)
    ultimately show ?thesis using u new by (intro oauth_ok [OF ok refl]) simp_all
  qed
  then show ?thesis unfolding link_adds [OF None] by (rule if_holds [where P = auth_ok, OF ok])
qed

lemma row_by_email_mem: "user_row_by_email db e = Some r \<Longrightarrow> r \<in> set (users db)"
  by (auto simp: user_row_by_email_def find_Some_iff)

text \<open>The account of the administrator, which is created, or activated and given a password.\<close>

definition bootstrap_account :: "user_draw \<Rightarrow> bootstrap_admin_config \<Rightarrow> auth_db \<Rightarrow> auth_error + (uuid \<times> auth_db)" where
  "bootstrap_account d config db =
     (case user_row_by_email db (ba_email config) of
        None \<Rightarrow>
          rbind (insert_user (new_user_row d (ba_email config) (Some (ba_username config))) db) (\<lambda>db1.
          rbind (insert_credential (new_credential_row (ud_id d) (ba_password_hash config) (ud_at d)) db1) (\<lambda>db2.
          Inr (ud_id d, db2)))
      | Some existing \<Rightarrow>
          (let user_id = us_id existing;
               db1 = db\<lparr>users := update_rows (\<lambda>r. us_id r = user_id)
                 (\<lambda>r. r\<lparr>us_display_name := Some (ba_username config), us_is_active := True, us_updated_at := ud_at d\<rparr>) (users db)\<rparr>
           in case credential_row_by_user_id db1 user_id of
                None \<Rightarrow> rbind (insert_credential (new_credential_row user_id (ba_password_hash config) (ud_at d)) db1)
                  (\<lambda>db2. Inr (user_id, db2))
              | Some _ \<Rightarrow>
                  Inr (user_id, if ba_update_password_hash config then set_password user_id (ba_password_hash config) (ud_at d) db1 else db1)))"

lemma bootstrap_parts:
  "bootstrap_admin_user sd d config db0 =
     (let db = ensure_seed_data sd db0
      in reload ''bootstrapped admin user could not be loaded'' (transaction db
        (case pg_roles_by_names db [''admin''] of
           [admin_role] \<Rightarrow> rbind (bootstrap_account d config db) (\<lambda>(user_id, db3). Inr (user_id, insert_user_roles user_id [rr_id admin_role] db3))
         | _ \<Rightarrow> Inl (ARuntimeError ''built-in admin role does not exist''))))"
  unfolding bootstrap_admin_user_def bootstrap_account_def Let_def ..

lemma bootstrap_new_ok:
  assumes ok: "auth_ok db"
    and u: "insert_user (new_user_row d e n) db = Inr db1" and c: "insert_credential (new_credential_row (ud_id d) h t) db1 = Inr db2"
  shows "auth_ok db2 \<and> ud_id d \<in> us_id ` set (users db2) \<and> roles db2 = roles db"
proof -
  note u' = insert_user_ok [OF ok u]
  then have "cr_user_id (new_credential_row (ud_id d) h t) \<in> us_id ` set (users db1)"
    by (simp add: new_user_row_def new_credential_row_def)
  from insert_credential_ok [OF u'(1) c this] u' show ?thesis by (simp add: new_user_row_def)
qed

lemma bootstrap_account_ok:
  assumes ok: "auth_ok db" and b: "bootstrap_account d config db = Inr (u, db2)"
  shows "auth_ok db2 \<and> u \<in> us_id ` set (users db2) \<and> roles db2 = roles db"
proof (cases "user_row_by_email db (ba_email config)")
  case None
  with b show ?thesis using bootstrap_new_ok [OF ok] by (auto simp: bootstrap_account_def result_simps)
next
  case (Some r)
  let ?f = "\<lambda>x. x\<lparr>us_display_name := Some (ba_username config), us_is_active := True, us_updated_at := ud_at d\<rparr>"
  define db1 where "db1 = db\<lparr>users := update_rows (\<lambda>x. us_id x = us_id r) ?f (users db)\<rparr>"
  have ok1: "auth_ok db1" unfolding db1_def by (rule update_users_ok [OF ok]) simp_all
  have "us_id ` set (users db1) = us_id ` set (users db)"
    using arg_cong [OF map_update_rows [of us_id ?f "\<lambda>x. us_id x = us_id r" "users db"], of set] by (simp add: db1_def)
  then have mem: "us_id r \<in> us_id ` set (users db1)" using row_by_email_mem [OF Some] by simp
  have roles1: "roles db1 = roles db" by (simp add: db1_def)
  from b Some have "u = us_id r"
    and "db2 = db1 \<or> db2 = set_password (us_id r) (ba_password_hash config) (ud_at d) db1 \<or>
      insert_credential (new_credential_row (us_id r) (ba_password_hash config) (ud_at d)) db1 = Inr db2"
    by (auto simp: bootstrap_account_def Let_def result_simps db1_def [symmetric] split: option.splits if_splits)
  moreover have "auth_ok db1 \<and> us_id r \<in> us_id ` set (users db1) \<and> roles db1 = roles db" using ok1 mem roles1 by simp
  moreover have "auth_ok (set_password v h t db1)" "users (set_password v h t db1) = users db1" "roles (set_password v h t db1) = roles db1" for v h t
    using set_password_ok [OF ok1] by (simp_all add: set_password_def)
  moreover have "auth_ok db' \<and> users db' = users db1 \<and> roles db' = roles db1"
    if "insert_credential (new_credential_row (us_id r) h t) db1 = Inr db'" for h t db'
    using insert_credential_ok [OF ok1 that] mem by (simp add: new_credential_row_def)
  ultimately show ?thesis by metis
qed

lemma bootstrap_ok:
  assumes ok: "auth_ok (ensure_seed_data sd db)"
  shows "auth_ok (snd (bootstrap_admin_user sd d config db))"
proof -
  let ?db = "ensure_seed_data sd db"
  have "auth_ok (insert_user_roles u [rr_id admin] db2)"
    if "pg_roles_by_names ?db [''admin''] = [admin]" "bootstrap_account d config ?db = Inr (u, db2)" for admin u db2
    using bootstrap_account_ok [OF ok that(2)] roles_by_names_ids [of ?db "[''admin'']"] that(1)
    by (intro insert_user_roles_ok) simp_all
  with ok show ?thesis
    unfolding bootstrap_parts Let_def snd_reload
    by (auto simp: result_simps intro!: transaction_cases [where P = auth_ok] split: list.splits)
qed

lemma assign_ok:
  assumes ok: "auth_ok db"
  shows "auth_ok (snd (repo_assign_roles u rs at db))"
proof (cases "get_user db u = None \<or> (\<exists>r \<in> set rs. r \<notin> rr_id ` set (all_roles db))")
  case True
  with ok show ?thesis by (auto simp: repo_assign_roles_def split: option.split)
next
  case False
  then have u: "u \<in> us_id ` set (users db)" by (auto simp: get_user_def find_some)
  have "rr_id ` set (all_roles db) \<subseteq> ro_id ` set (roles db)" by (auto simp: all_roles_def load_role_def role_from_row_def)
  with False have rs: "set rs \<subseteq> ro_id ` set (roles db)" by blast
  define db1 where "db1 = db\<lparr>users := update_rows (\<lambda>r. us_id r = u) (\<lambda>r. r\<lparr>us_updated_at := at\<rparr>) (users db)\<rparr>"
  have ok1: "auth_ok db1" unfolding db1_def by (rule update_users_ok [OF ok]) simp_all
  have ids: "us_id ` set (users db1) = us_id ` set (users db)"
    using arg_cong [OF map_update_rows [of us_id "\<lambda>r. r\<lparr>us_updated_at := at\<rparr>" "\<lambda>r. us_id r = u" "users db"], of set]
    by (simp add: db1_def)
  let ?links = "filter (\<lambda>l. fst l \<noteq> u) (user_roles db) @ map (\<lambda>r. (u, r)) (dict_fromkeys rs)"
  have "distinct ?links \<and> set ?links \<subseteq> us_id ` set (users db1) \<times> ro_id ` set (roles db1)"
    using ok u rs ids by (auto simp: auth_ok_def user_roles_ok_def dict_fromkeys_def distinct_map inj_on_def db1_def)
  then have "auth_ok (db1\<lparr>user_roles := ?links\<rparr>)"
    using ok1 by (simp add: auth_ok_def roles_ok_def users_ok_def accounts_ok_def user_roles_ok_def)
  moreover have "snd (repo_assign_roles u rs at db) = db1\<lparr>user_roles := ?links\<rparr>"
    using False by (auto simp: repo_assign_roles_def Let_def db1_def)
  ultimately show ?thesis by simp
qed

lemma update_ok: "auth_ok db \<Longrightarrow> auth_ok (snd (repo_update_user u dn ia at db))"
  by (auto simp: repo_update_user_def update_user_row_def Let_def split: option.split intro!: update_users_ok)

lemma get_user_mem: "get_user db u = Some user \<Longrightarrow> ur_id user \<in> us_id ` set (users db)"
  by (auto simp: get_user_def user_from_row_def find_Some_iff intro!: imageI nth_mem)

lemma get_user_by_email_mem: "get_user_by_email db e = Some user \<Longrightarrow> ur_id user \<in> us_id ` set (users db)"
  by (auto simp: get_user_by_email_def bind_eq_Some_conv dest: get_user_mem)

lemma created_mem:
  "repo_create_user_without_password d e dn rn db = (Inr user, db1) \<Longrightarrow> ur_id user \<in> us_id ` set (users db1)"
  by (auto simp: repo_create_user_without_password_def reload_def transaction_def get_user_def user_from_row_def find_Some_iff
      split: sum.splits option.splits prod.splits)

lemma external_ok:
  assumes ok: "auth_ok (ensure_seed_data sd db)"
  shows "auth_ok (snd (pg_login_or_register_external_user sd d at p i l e v dn db))"
proof -
  let ?db = "ensure_seed_data sd db" and ?e = "normalize_email e"
  have linked: "auth_ok (snd (case r of (Inl x, db1) \<Rightarrow> (Inl x, db1) | (Inr user, db1) \<Rightarrow>
      (case link_external_identity at (ur_id user) p i l ?e v db1 of
         (Inl x, db2) \<Rightarrow> (Inl x, db2) | (Inr _, db2) \<Rightarrow> (Inr user, db2))))"
    if "auth_ok (snd r)" "\<And>user db1. r = (Inr user, db1) \<Longrightarrow> ur_id user \<in> us_id ` set (users db1)" for r
  proof -
    obtain x db1 where r: "r = (x, db1)" by (cases r)
    show ?thesis
    proof (cases x)
      case (Inr user)
      obtain y db2 where y: "link_external_identity at (ur_id user) p i l ?e v db1 = (y, db2)" by (metis prod.exhaust)
      then have "auth_ok db2" using link_ok [of db1 "ur_id user" at p i l ?e v] that r Inr by simp
      with Inr r y show ?thesis by (cases y) simp_all
    qed (use r that in simp)
  qed
  have a: "auth_ok (snd (case get_user_by_email ?db ?e of Some user \<Rightarrow> (Inr user, ?db)
      | None \<Rightarrow> repo_create_user_without_password d ?e dn [first_role (has_users ?db)] ?db))"
    using ok create_without_ok [OF ok] by (simp split: option.split)
  have b: "ur_id user \<in> us_id ` set (users db1)"
    if "(case get_user_by_email ?db ?e of Some user \<Rightarrow> (Inr user, ?db)
      | None \<Rightarrow> repo_create_user_without_password d ?e dn [first_role (has_users ?db)] ?db) = (Inr user, db1)" for user db1
    using that get_user_by_email_mem created_mem by (cases "get_user_by_email ?db ?e") auto
  from linked [OF a b] ok show ?thesis
    by (simp add: pg_login_or_register_external_user_def Let_def split: option.split)
qed

lemma pg_create_ok: "auth_ok (ensure_seed_data sd db) \<Longrightarrow> auth_ok (snd (pg_create_user sd d e pw dn rn db))"
  by (simp add: pg_create_user_def Let_def create_ok)

section \<open>Reachable tables\<close>

fun op_seed :: "pg_op \<Rightarrow> seed_draw" where
  "op_seed (Pg_Seed sd) = sd"
| "op_seed (Pg_Register sd _ _ _ _ _) = sd"
| "op_seed (Pg_Create sd _ _ _ _ _) = sd"
| "op_seed (Pg_External sd _ _ _ _ _ _ _ _) = sd"
| "op_seed (Pg_Update sd _ _ _ _) = sd"
| "op_seed (Pg_Reset sd _ _ _ _) = sd"
| "op_seed (Pg_Assign sd _ _ _) = sd"
| "op_seed (Pg_Bootstrap sd _ _) = sd"

definition empty_auth_db :: auth_db where
  "empty_auth_db = \<lparr>tenants = [], users = [], user_credentials = [], oauth_accounts = [], permissions = [], roles = [],
     role_permissions = [], user_roles = []\<rparr>"

text \<open>Any sequence of calls, of which each draws fresh identifiers for seed rows.\<close>

inductive pg_reachable :: "auth_db \<Rightarrow> bool" where
  start: "pg_reachable empty_auth_db"
| call: "pg_reachable db \<Longrightarrow> fresh_seed (op_seed op) db \<Longrightarrow> pg_reachable (pg_step db op)"

lemma pg_step_ok:
  assumes "auth_ok db" "fresh_seed (op_seed op) db"
  shows "auth_ok (pg_step db op)"
proof -
  have ok: "auth_ok (ensure_seed_data (op_seed op) db)" by (rule ensure_auth_ok [OF assms])
  show ?thesis
  proof (cases op)
    case (Pg_Register sd sd' d e pw dn)
    then have "auth_ok (ensure_seed_data sd' (ensure_seed_data sd db))" using ok by simp
    with Pg_Register ok show ?thesis by (simp add: pg_register_def Let_def pg_create_ok)
  qed (use ok in \<open>simp_all add: pg_create_ok external_ok pg_update_user_def update_ok pg_reset_password_def repo_reset_password_def
      set_password_ok pg_assign_roles_def assign_ok bootstrap_ok\<close>)
qed

lemma empty_ok: "auth_ok empty_auth_db"
  by (simp add: empty_auth_db_def auth_ok_def roles_ok_def users_ok_def accounts_ok_def user_roles_ok_def)

lemma reachable_ok: "pg_reachable db \<Longrightarrow> auth_ok db"
  by (induction rule: pg_reachable.induct) (auto intro: empty_ok pg_step_ok)

text \<open>
  C20: Whatever calls the service has served, from empty tables on, no two users have one e-mail in a tenant, every user has at most one
  password and every external account is linked once, no link is stored twice, and every credential, account and link points to
  rows that exist; each call may draw any identifiers for a new user, and fresh ones for missing seed rows.
\<close>
theorem auth_tables_keep_their_keys: "pg_reachable db \<Longrightarrow> auth_ok db"
  by (rule reachable_ok)

section \<open>Access\<close>

text \<open>The names of the permissions that a role has at the moment.\<close>

definition role_grants :: "auth_db \<Rightarrow> uuid \<Rightarrow> string set" where
  "role_grants db r = pr_name ` {p \<in> set (permissions db). (r, pr_id p) \<in> set (role_permissions db)}"

lemma role_permission_names: "pr_name ` set (permissions_for_role db r) = role_grants db r"
proof -
  have "set (permissions_for_role db r) = {p \<in> set (permissions db). (r, pr_id p) \<in> set (role_permissions db)}"
    by (force simp: permissions_for_role_def image_constant_conv split: if_splits)
  then show ?thesis by (simp add: role_grants_def)
qed

lemma get_user_id: "get_user db v = Some user \<Longrightarrow> ur_id user = v"
  by (auto simp: get_user_def user_from_row_def dest: find_sat)

lemma user_permission_names:
  "set (concat (map (\<lambda>role. map pr_name (rr_permissions role)) (roles_for_user db u))) =
   (\<Union>r \<in> {r \<in> ro_id ` set (roles db). (u, r) \<in> set (user_roles db)}. role_grants db r)"
  by (auto simp: roles_for_user_def load_role_def role_from_row_def role_permission_names [symmetric])

lemma sub_claim:
  "obj_get (json_fields (jwt_payload (token_claims jti user) at lifetime)) ''sub'' = JStr (uuid_str (ur_id user))"
  by (simp add: obj_get_fields) (simp add: jwt_payload_def token_claims_def obj_get_def Let_def)

lemma assign_effect:
  assumes "repo_assign_roles u rs at db = (Inr (Some user), db')"
  shows "get_user db' u = Some user" "set rs \<subseteq> ro_id ` set (roles db')"
    "{r \<in> ro_id ` set (roles db'). (u, r) \<in> set (user_roles db')} = set rs"
proof -
  from assms obtain user0 where "get_user db u = Some user0" by (auto simp: repo_assign_roles_def split: option.splits)
  with assms have rs: "set rs \<subseteq> rr_id ` set (all_roles db)"
    and db': "db' = db\<lparr>user_roles := filter (\<lambda>l. fst l \<noteq> u) (user_roles db) @ map (\<lambda>r. (u, r)) (dict_fromkeys rs),
                  users := update_rows (\<lambda>r. us_id r = u) (\<lambda>r. r\<lparr>us_updated_at := at\<rparr>) (users db)\<rparr>"
    and g: "get_user db' u = Some user"
    by (auto simp: repo_assign_roles_def Let_def split: if_splits)
  from g show "get_user db' u = Some user" .
  have "rr_id ` set (all_roles db) \<subseteq> ro_id ` set (roles db)" by (auto simp: all_roles_def load_role_def role_from_row_def)
  with rs have rs': "set rs \<subseteq> ro_id ` set (roles db)" by simp
  then show "set rs \<subseteq> ro_id ` set (roles db')" by (simp add: db')
  show "{r \<in> ro_id ` set (roles db'). (u, r) \<in> set (user_roles db')} = set rs"
    using rs' by (auto simp: db' dict_fromkeys_def)
qed

text \<open>
  A change of roles applies at once, also to access tokens that were issued before it: with a token that has not expired,
  the permissions that a request is checked against are those that the tables give to the newly assigned roles, whatever roles
  and permissions the token carries.
\<close>
theorem role_change_is_immediate:
  assumes "loads (segment jwt_header) = Inr (JObj (json_fields jwt_header))"
    and "loads (segment (jwt_payload (token_claims jti user) issued (seconds ACCESS_TOKEN_TTL_SECONDS))) =
      Inr (JObj (json_fields (jwt_payload (token_claims jti user) issued (seconds ACCESS_TOKEN_TTL_SECONDS))))"
    and "pg_assign_roles sd (ur_id user) rs at db = (Inr (Some changed), db')" and "ur_is_active changed"
    and "unix_seconds t \<le> unix_seconds (issued + seconds ACCESS_TOKEN_TTL_SECONDS)"
  shows "map_sum id cu_permissions
      (pg_current_user loads secret t (encode_jwt (token_claims jti user) secret issued (seconds ACCESS_TOKEN_TTL_SECONDS)) db') =
    Inr (\<Union>r \<in> set rs. role_grants db' r)"
proof -
  note e = assign_effect [OF assms(3) [unfolded pg_assign_roles_def]]
  have roles: "ur_roles changed = roles_for_user db' (ur_id user)"
    using e(1) by (auto simp: get_user_def user_from_row_def)
  show ?thesis
    using assms(4,5) e(1) user_permission_names [of db' "ur_id user"]
    by (simp add: pg_current_user_def current_user_of_def decode_encode [where loads = loads, OF assms(1,2)] sub_claim
        current_user_from_record_def roles e(3) del: set_concat)
qed

text \<open>
  C22: A deactivated user is locked out. After \<^verbatim>\<open>update_user\<close> has cleared the flag, and whatever calls follow, one
  after the other, that do not set it again, an exchange code of the user is refused, a refresh token of the user is refused, an access token of the user is refused
  although it has not expired, and so is its password.
\<close>
theorem deactivated_user_locked_out:
  assumes "fst (pg_update_user sd u dn (Some False) at db) \<noteq> None" and "\<And>op. op \<in> set ops \<Longrightarrow> \<not> pg_activates u op"
    and "db' = foldl pg_step (snd (pg_update_user sd u dn (Some False) at db)) ops"
  shows "fst (pg_exchange_code put secret d u db' ts) = Inl invalid_oauth_code \<and>
    (fst (pop (token_hash tk) t ts) = Some (uuid_str u) \<longrightarrow> fst (pg_refresh put pop secret d t tk db' ts) = Inl invalid_refresh_token) \<and>
    (decode_jwt loads access secret t = Inr claims \<and> obj_get claims ''sub'' = JStr (uuid_str u) \<longrightarrow>
       pg_current_user loads secret t access db' = Inl invalid_token) \<and>
    (map_option (ur_id \<circ> fst) (get_user_by_email_with_password (ensure_seed_data sd' db') (normalize_email email)) = Some u \<longrightarrow>
       fst (pg_login put secret sd' d email password db' ts) = Inl invalid_credentials)"
proof -
  have "inactive (get_user (snd (pg_update_user sd u dn (Some False) at db))) u"
    using assms(1) by (auto simp: pg_update_user_def repo_update_user_def update_user_row_def Let_def inactive_get_user row_inactive_def get_user_def
        user_from_row_def find_update_rows dest: find_sat split: option.splits)
  from pg_directory.inactive_run [OF this assms(2)] have i: "inactive (get_user db') u" by (simp add: assms(3))
  then have s: "inactive (get_user (ensure_seed_data sd' db')) u" by (simp add: inactive_get_user)
  have "\<not> ur_is_active user"
    if "get_user_by_email_with_password (ensure_seed_data sd' db') e = Some (user, h)" "ur_id user = u" for user h e
  proof -
    from that(1) obtain v where "get_user (ensure_seed_data sd' db') v = Some user"
      by (auto simp: get_user_by_email_with_password_def split: list.splits)
    with that(2) get_user_id have "get_user (ensure_seed_data sd' db') u = Some user" by blast
    with s show ?thesis by (simp add: inactive_def)
  qed
  then show ?thesis
    using inactive_exchange [OF i] inactive_refresh [OF i] inactive_current_user [OF i]
    by (auto simp: pg_exchange_code_def pg_refresh_def pg_current_user_def pg_login_def Let_def split: option.split)
qed

section \<open>Samples\<close>

lemma segment_key:
  assumes "json_fields d = (c # k, v) # rest" "json_char c = [c]" "code_point c < 127"
  shows "segment d ! 2 = c"
proof -
  have "\<exists>s. json_dumps '','' '':'' (JObj (json_fields d)) = CHR ''{'' # CHR 0x22 # c # s"
    using assms by (cases rest) (auto simp: json_string_def)
  then obtain s where "json_dumps '','' '':'' (JObj (json_fields d)) = CHR ''{'' # CHR 0x22 # c # s" ..
  then show ?thesis using assms(3)
    by (simp add: segment_def json_dumps_ascii_def ascii_escape_def utf8_encode_def utf8_char_def Let_def code_point_def)
qed

lemma claims_fields:
  "\<exists>v rest. json_fields (jwt_payload (token_claims jti user) at lifetime) = (''email'', v) # rest"
  by (simp add: json_fields_def jwt_payload_def token_claims_def Let_def less_eq_char_def less_char_def)

lemma header_fields: "\<exists>v rest. json_fields jwt_header = (''alg'', v) # rest"
  by (simp add: json_fields_def jwt_header_def)
lemma segments_differ: "segment (jwt_payload (token_claims jti user) at lifetime) \<noteq> segment jwt_header"
proof
  assume same: "segment (jwt_payload (token_claims jti user) at lifetime) = segment jwt_header"
  obtain v rest where "json_fields (jwt_payload (token_claims jti user) at lifetime) = (''email'', v) # rest" using claims_fields by blast
  from segment_key [OF this] have "segment (jwt_payload (token_claims jti user) at lifetime) ! 2 = CHR ''e''"
    by (simp add: json_char_def code_point_def)
  moreover obtain w rest' where "json_fields jwt_header = (''alg'', w) # rest'" using header_fields by blast
  from segment_key [OF this] have "segment jwt_header ! 2 = CHR ''a''" by (simp add: json_char_def code_point_def)
  ultimately show False using same by simp
qed

definition sample_seed :: seed_draw where
  "sample_seed = ((\<lambda>n. of_nat (length (takeWhile (\<lambda>x. x \<noteq> n) (map fst PERMISSION_DESCRIPTIONS)))),
     (\<lambda>n. of_nat (length (takeWhile (\<lambda>x. x \<noteq> n) (map fst ROLE_PERMISSIONS)))))"

definition sample_auth_db :: auth_db where
  "sample_auth_db = empty_auth_db\<lparr>users := [\<lparr>us_id = 1, us_tenant_id = DEFAULT_TENANT_ID, us_email = ''a@b'', us_display_name = None,
     us_is_active = True, us_created_at = 0, us_updated_at = 0\<rparr>], user_roles := [(1, 7)]\<rparr>"

text \<open>The user as it was when the token was issued, with a role that lets it manage users.\<close>

definition sample_admin :: user_record where
  "sample_admin = \<lparr>ur_id = 1, ur_tenant_id = DEFAULT_TENANT_ID, ur_email = ''a@b'', ur_display_name = None, ur_is_active = True,
     ur_created_at = 0, ur_updated_at = 0, ur_roles = [\<lparr>rr_id = 7, rr_name = ''admin'', rr_description = [],
       rr_permissions = [\<lparr>pr_id = 8, pr_name = ''users:write'', pr_description = []\<rparr>]\<rparr>]\<rparr>"

abbreviation sample_payload :: payload where
  "sample_payload \<equiv> jwt_payload (token_claims 5 sample_admin) 0 (seconds ACCESS_TOKEN_TTL_SECONDS)"

definition sample_access_loads :: "bytes \<Rightarrow> string + json" where
  "sample_access_loads bs =
     (if bs = segment jwt_header then Inr (JObj (json_fields jwt_header))
      else if bs = segment sample_payload then Inr (JObj (json_fields sample_payload)) else Inl ''Expecting value'')"

definition sample_revoked :: "user_record option auth_result" where
  "sample_revoked = pg_assign_roles sample_seed 1 [] 2 sample_auth_db"

lemma sample_revoked_ok:
  "sample_revoked = (Inr (Some (the (get_user (snd sample_revoked) 1))), snd sample_revoked)"
  "ur_is_active (the (get_user (snd sample_revoked) 1))"
  by (simp_all add: sample_revoked_def pg_assign_roles_def repo_assign_roles_def get_user_def auth_frames sample_auth_db_def
      user_from_row_def Let_def update_rows_def)

theorem role_change_is_immediate_witness:
  "map_sum id cu_permissions (pg_current_user sample_access_loads ''secret'' 1000000
      (encode_jwt (token_claims 5 sample_admin) ''secret'' 0 (seconds ACCESS_TOKEN_TTL_SECONDS)) (snd sample_revoked)) = Inr {}"
proof -
  have "pg_assign_roles sample_seed (ur_id sample_admin) [] 2 sample_auth_db =
      (Inr (Some (the (get_user (snd sample_revoked) 1))), snd sample_revoked)"
    using sample_revoked_ok(1) by (simp add: sample_revoked_def sample_admin_def)
  from role_change_is_immediate [OF _ _ this sample_revoked_ok(2), of sample_access_loads 5 0 1000000 "''secret''"]
  show ?thesis using segments_differ [of 5 sample_admin 0 "seconds ACCESS_TOKEN_TTL_SECONDS"]
    by (simp add: sample_access_loads_def unix_seconds_def seconds_def ACCESS_TOKEN_TTL_SECONDS_def)
qed

definition sample_locked_db :: auth_db where
  "sample_locked_db = foldl pg_step (snd (pg_update_user sample_seed 1 None (Some False) 2 sample_auth_db)) [Pg_Assign sample_seed 1 [] 3]"

theorem deactivated_user_locked_out_witness:
  "fst (pg_exchange_code store_put ''secret'' \<lparr>td_jti = 5, td_refresh_token = ''r'', td_issued_at = 0, td_stored_at = 0\<rparr> 1 sample_locked_db []) =
     Inl invalid_oauth_code \<and>
   fst (pg_refresh store_put store_pop ''secret'' \<lparr>td_jti = 5, td_refresh_token = ''r'', td_issued_at = 0, td_stored_at = 0\<rparr> 4 ''t''
     sample_locked_db [(token_hash ''t'', (uuid_str 1, 9))]) = Inl invalid_refresh_token"
proof -
  have u: "fst (pg_update_user sample_seed 1 None (Some False) 2 sample_auth_db) \<noteq> None"
    by (simp add: pg_update_user_def repo_update_user_def update_user_row_def get_user_def auth_frames sample_auth_db_def user_from_row_def Let_def update_rows_def)
  have ops: "\<not> pg_activates 1 op" if "op \<in> set [Pg_Assign sample_seed 1 [] 3]" for op using that by simp
  show ?thesis
    using deactivated_user_locked_out [OF u ops sample_locked_db_def, of store_put "''secret''"
        "\<lparr>td_jti = 5, td_refresh_token = ''r'', td_issued_at = 0, td_stored_at = 0\<rparr>" "[]"]
      deactivated_user_locked_out [OF u ops sample_locked_db_def, of store_put "''secret''"
        "\<lparr>td_jti = 5, td_refresh_token = ''r'', td_issued_at = 0, td_stored_at = 0\<rparr>" "[(token_hash ''t'', (uuid_str 1, 9))]" store_pop "''t''" 4]
    by (simp add: store_pop_def)
qed

lemma sample_seed_fresh: "fresh_seed sample_seed empty_auth_db"
proof -
  have "distinct (map (fst sample_seed) (map fst PERMISSION_DESCRIPTIONS))" "distinct (map (snd sample_seed) (map fst ROLE_PERMISSIONS))"
    by code_simp+
  then show ?thesis by (auto simp: fresh_seed_def distinct_map empty_auth_db_def intro: inj_on_imageI)
qed

theorem auth_tables_keep_their_keys_witness: "auth_ok (pg_step empty_auth_db (Pg_Seed sample_seed))"
proof (rule auth_tables_keep_their_keys)
  show "pg_reachable (pg_step empty_auth_db (Pg_Seed sample_seed))"
    by (rule pg_reachable.call [OF pg_reachable.start]) (simp add: sample_seed_fresh)
qed

section \<open>Divergences\<close>

text \<open>
  Finding: the e-mail of a user without a password, who has come from GitHub, is not seen by the check of \<^verbatim>\<open>register\<close> and
  \<^verbatim>\<open>create_user\<close>, which looks for a user with a password; the insertion then violates the unique index, which is not an
  \<^verbatim>\<open>AuthError\<close>. The in-memory service answers \<^verbatim>\<open>USER_ALREADY_EXISTS\<close>.
\<close>
lemma external_email_not_refused:
  assumes "user_row_by_email db (normalize_email e) = Some r" and "seeded db"
    and "get_user_by_email_with_password db (normalize_email e) = None"
    and "ud_id d \<notin> us_id ` set (users db)" and "role_names_exist db (names_or_member rn)"
  shows "fst (pg_create_user sd d e pw dn rn db) = Inl (AUnique ''uq_users_tenant_email'')"
proof -
  have "r \<in> set (users db)" "us_tenant_id r = DEFAULT_TENANT_ID" "us_email r = normalize_email e"
    using assms(1) by (auto simp: user_row_by_email_def find_Some_iff)
  then have "insert_user (new_user_row d (normalize_email e) dn) db = Inl (AUnique ''uq_users_tenant_email'')"
    using assms(4) by (auto simp: insert_user_def new_user_row_def image_iff)
  then show ?thesis
    using assms by (simp add: pg_create_user_def Let_def ensure_noop repo_create_user_def transaction_def reload_def)
qed

lemma external_email_refused_in_memory:
  "user_by_email (normalize_email e) st \<noteq> None \<Longrightarrow> fst (mem_create_user d e pw dn rn st) = Inl user_already_exists"
  by (simp add: mem_create_user_def mem_create_user_without_password_def Let_def)

text \<open>
  Finding: a second account of a provider with an e-mail that is already linked violates the unique index on provider, tenant and
  e-mail, which the conflict clause does not name.
\<close>
lemma second_account_not_linked:
  assumes "find (\<lambda>a. oa_provider a = p \<and> oa_provider_account_id a = i) (oauth_accounts db) = None"
    and "a \<in> set (oauth_accounts db)" "email_key a = (p, DEFAULT_TENANT_ID, e)"
  shows "fst (link_external_identity at u p i l e v db) = Inl (AUnique ''uq_oauth_accounts_provider_tenant_email'')"
  using assms by (auto simp: link_external_identity_def transaction_def Let_def)

text \<open>
  Finding: the password of a user without one is set by the in-memory service, and by nothing on Postgres, where the call
  returns false.
\<close>
lemma reset_without_credential:
  "credential_row_by_user_id db u = None \<Longrightarrow> fst (repo_reset_password salt u pw at db) = False"
  "mem_get_user st u \<noteq> None \<Longrightarrow> fst (mem_reset_password salt u pw st) = True"
  by (auto simp: repo_reset_password_def mem_reset_password_def)

end
