(* ===== verification/Stream_Api.thy ===== *)
theory Stream_Api
  imports Analysis_Service
begin

text \<open>
  The event stream of an analysis as the API serves it (\<^verbatim>\<open>backend/api/sse.py\<close>, \<^verbatim>\<open>stream_schemas.py\<close>, and
  \<^verbatim>\<open>_polling_sse_event_records\<close> of \<^verbatim>\<open>routes.py\<close>): what a client gets to see of a payload, the text of an event, and the loop that
  polls the table of stream events until the analysis has ended.
\<close>

section \<open>Display payloads\<close>

definition SENSITIVE_DISPLAY_KEYS :: "string list" where
  "SENSITIVE_DISPLAY_KEYS =
    [''config_json'', ''context'', ''developer'', ''input'', ''input_ref'', ''instructions'', ''messages'', ''openai_call_id'',
     ''prompt'', ''response'', ''snapshot_id'', ''source_refs'', ''system'', ''tool_policy_hash'', ''tool_registry_version'',
     ''tool_schema'', ''tool_schema_hash'']"

definition displayed :: "string \<Rightarrow> bool" where
  "displayed key = (py_lower key \<notin> set SENSITIVE_DISPLAY_KEYS)"

fun strip_sensitive_display_fields :: "json \<Rightarrow> json" where
  "strip_sensitive_display_fields (JObj d) =
     JObj (filter (\<lambda>kv. displayed (fst kv)) (map (\<lambda>(k, v). (k, strip_sensitive_display_fields v)) d))"
| "strip_sensitive_display_fields (JList xs) = JList (map strip_sensitive_display_fields xs)"
| "strip_sensitive_display_fields v = v"

definition only_keys :: "payload \<Rightarrow> string list \<Rightarrow> payload" where
  "only_keys pl keys =
     concat (map (\<lambda>k. case map_of pl k of None \<Rightarrow> [] | Some v \<Rightarrow> [(k, strip_sensitive_display_fields v)]) keys)"

definition tool_result_display_payload :: "payload \<Rightarrow> payload" where
  "tool_result_display_payload pl =
     only_keys pl [''tool_call_id'', ''tool_name'', ''ok'', ''result'', ''error''] @
     filter (\<lambda>kv. snd kv \<noteq> JNull) (only_keys pl [''result_ref'', ''evidence_ids'', ''truncated'', ''next_cursor''])"

definition display_event_payload :: "string \<Rightarrow> payload \<Rightarrow> payload" where
  "display_event_payload ty pl =
     (if ty = ''status'' then only_keys pl [''status'']
      else if ty = ''tool_call'' then only_keys pl [''tool_call_id'', ''tool_name'', ''arguments'']
      else if ty = ''tool_result'' then tool_result_display_payload pl
      else if ty = ''done'' then only_keys pl [''status'', ''response_id'', ''output_ref'']
      else if ty \<in> {''error'', ''analysis_error''} then only_keys pl [''error'', ''error_code'', ''error_message'', ''retryable'']
      else case strip_sensitive_display_fields (JObj pl) of JObj d \<Rightarrow> d | _ \<Rightarrow> [])"

section \<open>Events\<close>

type_synonym sse_event = "int \<times> string \<times> json"

definition event_seq :: "sse_event \<Rightarrow> int" where
  "event_seq e = fst e"

definition event_type_of :: "sse_event \<Rightarrow> string" where
  "event_type_of e = fst (snd e)"

definition event_payload :: "sse_event \<Rightarrow> payload" where
  "event_payload e = (case snd (snd e) of JObj d \<Rightarrow> d | _ \<Rightarrow> [])"

definition format_sse_event :: "sse_event \<Rightarrow> string" where
  "format_sse_event e =
     ''id: '' @ show_int (event_seq e) @ [newline] @ ''event: '' @ event_type_of e @ [newline] @
     ''data: '' @ json_dumps '','' '':'' (JObj (display_event_payload (event_type_of e) (event_payload e))) @ [newline, newline]"

definition TERMINAL_ANALYSIS_STATUSES :: "string set" where
  "TERMINAL_ANALYSIS_STATUSES = {''completed'', ''failed'', ''cancelled''}"

definition TERMINAL_STREAM_EVENT_TYPES :: "string set" where
  "TERMINAL_STREAM_EVENT_TYPES = {''done'', ''analysis_error'', ''error''}"

text \<open>\<^verbatim>\<open>status in frozenset\<close> is false for a value of another type; a list or an object there raises \<^verbatim>\<open>TypeError\<close>, which no event of the program has.\<close>

definition is_terminal_stream_event :: "sse_event \<Rightarrow> bool" where
  "is_terminal_stream_event e =
     (event_type_of e \<in> TERMINAL_STREAM_EVENT_TYPES \<or>
      (case obj_get (event_payload e) ''status'' of JStr s \<Rightarrow> s \<in> TERMINAL_ANALYSIS_STATUSES | _ \<Rightarrow> False))"

definition parse_last_event_id :: "string option \<Rightarrow> int" where
  "parse_last_event_id value =
     (case value of
        None \<Rightarrow> 0
      | Some s \<Rightarrow> if s = [] then 0 else case parse_int s of None \<Rightarrow> 0 | Some i \<Rightarrow> max 0 i)"

section \<open>Polling\<close>

text \<open>
  One round of the loop: what the two reads of the events return for the last sequence number, the status that is read between
  them, and the clock at the three places where it is read. A run is a list of rounds; it ends when the client goes away.
\<close>

record poll =
  po_read :: "int \<Rightarrow> sse_event list"
  po_status :: "string option"
  po_reread :: "int \<Rightarrow> sse_event list"
  po_emitted_at :: int
  po_checked_at :: int
  po_kept_at :: int

datatype sse_out = Sse_Event sse_event | Keepalive

definition sse_text :: "sse_out \<Rightarrow> string" where
  "sse_text s = (case s of Sse_Event e \<Rightarrow> format_sse_event e | Keepalive \<Rightarrow> '': keepalive'' @ [newline, newline])"

definition sse_event_records :: "sse_event list \<Rightarrow> string list" where
  "sse_event_records events = map format_sse_event events"

definition seen_up_to :: "int \<Rightarrow> sse_event list \<Rightarrow> int" where
  "seen_up_to last_seq events = foldl (\<lambda>n e. max n (event_seq e)) last_seq events"

text \<open>The flag says whether the loop has returned.\<close>

fun polling_sse_events :: "int \<Rightarrow> int \<Rightarrow> int \<Rightarrow> poll list \<Rightarrow> sse_out list \<times> bool" where
  "polling_sse_events idle_timeout last_seq idle_deadline [] = ([], False)"
| "polling_sse_events idle_timeout last_seq idle_deadline (p # ps) =
     (let events = po_read p last_seq;
          seen = seen_up_to last_seq events;
          deadline = (if events \<noteq> [] then po_emitted_at p + idle_timeout else idle_deadline)
      in if \<exists>e \<in> set events. is_terminal_stream_event e then (map Sse_Event events, True)
         else if (case po_status p of None \<Rightarrow> False | Some s \<Rightarrow> s \<in> TERMINAL_ANALYSIS_STATUSES)
         then (map Sse_Event events @ map Sse_Event (po_reread p seen), True)
         else let (kept, deadline') = (if deadline \<le> po_checked_at p then ([Keepalive], po_kept_at p + idle_timeout) else ([], deadline));
                  (rest, ended) = polling_sse_events idle_timeout seen deadline' ps
              in (map Sse_Event events @ kept @ rest, ended))"

definition polling_sse_event_records :: "int \<Rightarrow> int \<Rightarrow> int \<Rightarrow> poll list \<Rightarrow> string list" where
  "polling_sse_event_records idle_timeout after_seq started_at ps =
     map sse_text (fst (polling_sse_events idle_timeout after_seq (started_at + idle_timeout) ps))"

text \<open>The rounds on the tables: the reads of one round may see three states of them.\<close>

definition table_poll :: "uuid \<Rightarrow> uuid option \<Rightarrow> uuid option \<Rightarrow> db \<Rightarrow> db \<Rightarrow> db \<Rightarrow> int \<Rightarrow> poll" where
  "table_poll a tenant user st1 st2 st3 t =
     \<lparr>po_read = (\<lambda>n. stream_events_after st1 a n tenant user), po_status = analysis_status st2 a tenant user,
      po_reread = (\<lambda>n. stream_events_after st3 a n tenant user), po_emitted_at = t, po_checked_at = t, po_kept_at = t\<rparr>"

section \<open>What a client gets to see\<close>

fun clean_display :: "json \<Rightarrow> bool" where
  "clean_display (JObj d) = list_all (\<lambda>(k, v). displayed k \<and> clean_display v) d"
| "clean_display (JList xs) = list_all clean_display xs"
| "clean_display v = True"

lemma strip_clean: "clean_display (strip_sensitive_display_fields v)"
  by (induction v rule: strip_sensitive_display_fields.induct) (auto simp: list_all_iff)

lemma strip_id: "clean_display v \<Longrightarrow> strip_sensitive_display_fields v = v"
proof (induction v rule: strip_sensitive_display_fields.induct)
  case (1 d)
  then have same: "map (\<lambda>(k, v). (k, strip_sensitive_display_fields v)) d = d"
    by (intro map_idI) (auto simp: list_all_iff split: prod.splits)
  with 1 show ?case by (simp add: list_all_iff filter_id_conv case_prod_unfold)
next
  case (2 xs)
  then show ?case by (auto simp: list_all_iff intro!: map_idI)
qed auto

lemma only_keys_clean: "list_all displayed keys \<Longrightarrow> clean_display (JObj (only_keys pl keys))"
  using strip_clean by (auto simp: only_keys_def list_all_iff split: option.splits)

lemma clean_append: "clean_display (JObj a) \<Longrightarrow> clean_display (JObj b) \<Longrightarrow> clean_display (JObj (a @ b))"
  by simp

lemma clean_filter: "clean_display (JObj a) \<Longrightarrow> clean_display (JObj (filter p a))"
  by (auto simp: list_all_iff)

lemma displayed_names:
  "list_all displayed [''status'']" "list_all displayed [''tool_call_id'', ''tool_name'', ''arguments'']"
  "list_all displayed [''tool_call_id'', ''tool_name'', ''ok'', ''result'', ''error'']"
  "list_all displayed [''result_ref'', ''evidence_ids'', ''truncated'', ''next_cursor'']"
  "list_all displayed [''status'', ''response_id'', ''output_ref'']"
  "list_all displayed [''error'', ''error_code'', ''error_message'', ''retryable'']"
  by (simp_all add: displayed_def SENSITIVE_DISPLAY_KEYS_def py_lower_def lower_char_def code_point_def)

text \<open>
  No event shows a client a sensitive field: whatever the type and the payload of a stored event are, no key of the payload that is
  sent is on the list of sensitive keys, in any spelling of upper and lower case and at any depth of nested objects and lists.
\<close>
theorem display_hides_sensitive_fields: "clean_display (JObj (display_event_payload ty pl))"
proof -
  note shown = displayed_names [THEN only_keys_clean, of pl]
  have "clean_display (JObj (tool_result_display_payload pl))"
    unfolding tool_result_display_payload_def by (rule clean_append [OF shown(3) clean_filter [OF shown(4)]])
  moreover obtain d where "strip_sensitive_display_fields (JObj pl) = JObj d" "clean_display (JObj d)"
    using strip_clean [of "JObj pl"] by simp
  ultimately show ?thesis
    using shown(1,2,5,6) by (simp add: display_event_payload_def del: clean_display.simps strip_sensitive_display_fields.simps)
qed

section \<open>Every event once, in order\<close>

text \<open>The log of an analysis is read one page at a time.\<close>

definition pending :: "int \<Rightarrow> sse_event list \<Rightarrow> sse_event list" where
  "pending n log = filter (\<lambda>e. n < event_seq e) log"

definition reads_log :: "poll \<Rightarrow> sse_event list \<Rightarrow> sse_event list \<Rightarrow> bool" where
  "reads_log p log1 log2 = ((\<forall>n. po_read p n = take 1000 (pending n log1)) \<and> (\<forall>n. po_reread p n = take 1000 (pending n log2)))"

text \<open>Rounds over a log that only grows, from \<open>log\<close> to \<open>log'\<close>.\<close>

inductive rounds :: "sse_event list \<Rightarrow> poll list \<Rightarrow> sse_event list \<Rightarrow> bool" where
  finish: "prefix log log' \<Longrightarrow> rounds log [] log'"
| poll: "prefix log log1 \<Longrightarrow> prefix log1 log2 \<Longrightarrow> reads_log p log1 log2 \<Longrightarrow> rounds log2 ps log' \<Longrightarrow> rounds log (p # ps) log'"

definition ordered_log :: "sse_event list \<Rightarrow> bool" where
  "ordered_log log = sorted_wrt (<) (map event_seq log)"

definition sent_events :: "sse_out list \<Rightarrow> sse_event list" where
  "sent_events xs = concat (map (\<lambda>x. case x of Sse_Event e \<Rightarrow> [e] | Keepalive \<Rightarrow> []) xs)"

lemma sent_events_simps [simp]:
  "sent_events (map Sse_Event es) = es" "sent_events (xs @ ys) = sent_events xs @ sent_events ys" "sent_events (Keepalive # xs) = sent_events xs" "sent_events [] = []"
  by (induction es) (simp_all add: sent_events_def)

lemma pending_prefix: "prefix log log' \<Longrightarrow> prefix (pending n log) (pending n log')"
  by (auto simp: pending_def prefix_def)

lemma seen_last:
  assumes "sorted_wrt (<) (map event_seq es)" "\<forall>e \<in> set es. n < event_seq e"
  shows "seen_up_to n es = (if es = [] then n else event_seq (last es))"
  using assms
proof (induction es arbitrary: n)
  case (Cons e es)
  then have "seen_up_to (event_seq e) es = (if es = [] then event_seq e else event_seq (last es))" by (intro Cons.IH) auto
  moreover have "max n (event_seq e) = event_seq e" using Cons.prems(2) by simp
  ultimately show ?case by (simp add: seen_up_to_def)
qed (simp add: seen_up_to_def)

lemma pending_after:
  assumes "ordered_log log" "pending n log = es @ rest"
  shows "pending (seen_up_to n es) log = rest"
proof -
  have srt: "sorted_wrt (<) (map event_seq (es @ rest))"
    using assms(1) sorted_wrt_filter [of "\<lambda>x y. event_seq x < event_seq y" log "\<lambda>e. n < event_seq e"]
    by (simp add: ordered_log_def sorted_wrt_map pending_def flip: assms(2))
  have gt: "\<forall>e \<in> set es. n < event_seq e" using assms(2) by (auto simp: pending_def dest!: arg_cong [of _ _ set])
  have seen: "seen_up_to n es = (if es = [] then n else event_seq (last es))"
    using srt gt by (intro seen_last) (simp_all add: sorted_wrt_append)
  have "n \<le> seen_up_to n es" using seen gt by (auto simp: less_imp_le)
  then have "pending (seen_up_to n es) log = pending (seen_up_to n es) (pending n log)"
    by (auto simp: pending_def intro!: filter_cong)
  also have "\<dots> = pending (seen_up_to n es) es @ pending (seen_up_to n es) rest" by (simp add: assms(2)) (simp add: pending_def)
  also have "pending (seen_up_to n es) es = []"
  proof -
    have "event_seq e \<le> event_seq (last es)" if "e \<in> set es" for e
      using that srt by (cases es rule: rev_cases) (auto simp: sorted_wrt_append less_imp_le)
    then show ?thesis using seen by (cases "es = []") (auto simp: pending_def filter_empty_conv not_less)
  qed
  also have "pending (seen_up_to n es) rest = rest"
  proof -
    have "seen_up_to n es < event_seq r" if "r \<in> set rest" for r
      using that srt seen assms(2) by (cases es rule: rev_cases) (auto simp: sorted_wrt_append pending_def dest!: arg_cong [of _ _ set])
    then show ?thesis by (simp add: pending_def)
  qed
  finally show ?thesis by simp
qed

lemma take_prefix: "prefix (take n xs) xs"
  by (metis append_take_drop_id prefixI)

lemma ordered_prefix: "ordered_log log' \<Longrightarrow> prefix log log' \<Longrightarrow> ordered_log log"
  by (auto simp: ordered_log_def prefix_def sorted_wrt_append)

lemma rounds_prefix: "rounds log ps log' \<Longrightarrow> prefix log log'"
  by (induction rule: rounds.induct) (auto intro: prefix_order.trans)

lemma page_then_rest:
  assumes "ordered_log log'" "prefix log1 log'" "prefix later (pending (seen_up_to n (take 1000 (pending n log1))) log')"
  shows "prefix (take 1000 (pending n log1) @ later) (pending n log')"
proof -
  have "prefix (take 1000 (pending n log1)) (pending n log')"
    using take_prefix pending_prefix [OF assms(2)] prefix_order.trans by blast
  then obtain rest where rest: "pending n log' = take 1000 (pending n log1) @ rest" by (auto simp: prefix_def)
  from pending_after [OF assms(1) this] assms(3) show ?thesis by (simp add: rest)
qed

lemma polling_prefix:
  "rounds log ps log' \<Longrightarrow> ordered_log log' \<Longrightarrow> prefix (sent_events (fst (polling_sse_events idle n deadline ps))) (pending n log')"
proof (induction arbitrary: n deadline rule: rounds.induct)
  case (finish log log')
  then show ?case by simp
next
  case (poll log log1 log2 p ps log')
  have p2: "prefix log2 log'" using poll.hyps by (auto dest: rounds_prefix)
  then have p1: "prefix log1 log'" using poll.hyps by (auto intro: prefix_order.trans)
  have r: "po_read p n = take 1000 (pending n log1)" "\<And>m. po_reread p m = take 1000 (pending m log2)"
    using poll.hyps by (simp_all add: reads_log_def)
  have page: "prefix (take 1000 (pending n log1)) (pending n log')"
    using page_then_rest [OF poll.prems p1, of "[]" n] by simp
  have again: "prefix (take 1000 (pending n log1) @ take 1000 (pending m log2)) (pending n log')"
    if "m = seen_up_to n (take 1000 (pending n log1))" for m
    unfolding that by (rule page_then_rest [OF poll.prems p1]) (use take_prefix pending_prefix [OF p2] prefix_order.trans in blast)
  have rest: "prefix (take 1000 (pending n log1) @ sent_events (fst (polling_sse_events idle m dl ps))) (pending n log')"
    if "m = seen_up_to n (take 1000 (pending n log1))" for m dl
    unfolding that by (rule page_then_rest [OF poll.prems p1 poll.IH [OF poll.prems]])
  show ?case using page again [OF refl] rest [OF refl]
    by (simp add: r Let_def split_beta)
qed

text \<open>An event after which the server has no more to say, and a status after which none is written.\<close>

definition final_event :: "sse_event \<Rightarrow> bool" where
  "final_event e \<longleftrightarrow>
     event_type_of e = ''done'' \<or> event_type_of e = ''analysis_error'' \<or> event_type_of e = ''error'' \<or>
     obj_get (event_payload e) ''status'' \<in> {JStr ''completed'', JStr ''failed'', JStr ''cancelled''}"

definition final_status :: "string option \<Rightarrow> bool" where
  "final_status s \<longleftrightarrow> s \<in> {Some ''completed'', Some ''failed'', Some ''cancelled''}"

lemma final_event_terminal: "is_terminal_stream_event e \<longleftrightarrow> final_event e"
  by (auto simp: is_terminal_stream_event_def final_event_def TERMINAL_STREAM_EVENT_TYPES_def TERMINAL_ANALYSIS_STATUSES_def
      split: json.splits)

lemma final_status_terminal:
  "(case s of None \<Rightarrow> False | Some x \<Rightarrow> x \<in> TERMINAL_ANALYSIS_STATUSES) \<longleftrightarrow> final_status s"
  by (auto simp: final_status_def TERMINAL_ANALYSIS_STATUSES_def split: option.splits)

definition goes_on :: "int \<Rightarrow> poll \<Rightarrow> bool" where
  "goes_on n p \<longleftrightarrow> (\<forall>e \<in> set (po_read p n). \<not> final_event e) \<and> \<not> final_status (po_status p)"

definition ends_with_round :: "int \<Rightarrow> poll \<Rightarrow> sse_event list \<Rightarrow> bool" where
  "ends_with_round n p sent \<longleftrightarrow>
     (if \<exists>e \<in> set (po_read p n). final_event e then sent = po_read p n
      else final_status (po_status p) \<and> sent = po_reread p n)"

lemma pending_short: "prefix log log' \<Longrightarrow> length (pending n log') \<le> 1000 \<Longrightarrow> take 1000 (pending n log) = pending n log"
  using pending_prefix [of log log' n] by (auto dest: prefix_length_le)

text \<open>
  After any number of rounds the events that were sent are those of the last read: \<open>pre\<close> are the events sent before, up to
  sequence number \<open>m\<close>.
\<close>

lemma polling_delivers:
  assumes "rounds log ps log'" "ordered_log log'" "length (pending n log') \<le> 1000"
    "\<And>x. prefix log x \<Longrightarrow> prefix x log' \<Longrightarrow> pending n x = pre @ pending m x" "\<forall>e \<in> set pre. \<not> final_event e"
    "polling_sse_events idle m deadline ps = (out, hung_up)"
  shows "if hung_up then \<exists>qs p rs. ps = qs @ p # rs \<and> list_all (goes_on n) qs \<and> ends_with_round n p (pre @ sent_events out)
    else list_all (goes_on n) ps \<and> pre @ sent_events out = (if ps = [] then pre else po_read (last ps) n)"
  using assms
proof (induction arbitrary: pre m deadline out hung_up rule: rounds.induct)
  case (poll log log1 log2 p ps log')
  have p2: "prefix log2 log'" using poll.hyps by (auto dest: rounds_prefix)
  then have p1: "prefix log1 log'" using poll.hyps by (auto intro: prefix_order.trans)
  have all1: "pending n log1 = pre @ pending m log1" and all2: "pending n log2 = pre @ pending m log2"
    using poll.prems(3) [of log1] poll.prems(3) [of log2] poll.hyps p1 p2 prefix_order.trans by blast+
  have "prefix (pending n log1) (pending n log')" "prefix (pending n log2) (pending n log')" using p1 p2 by (auto intro: pending_prefix)
  then have short: "length (pending m log1) \<le> 1000" "length (pending m log2) \<le> 1000"
    using poll.prems(2) all1 all2 by (auto dest!: prefix_length_le)
  define m' where "m' = seen_up_to m (pending m log1)"
  have next_pending: "pending m x = pending m log1 @ pending m' x" if "prefix log1 x" "prefix x log'" for x
  proof -
    from pending_prefix [OF that(1), of m] obtain rest where rest: "pending m x = pending m log1 @ rest" by (auto simp: prefix_def)
    with pending_after [OF ordered_prefix [OF poll.prems(1) that(2)] rest] show ?thesis by (simp add: m'_def)
  qed
  have later: "pending n x = pending n log1 @ pending m' x" if "prefix log2 x" "prefix x log'" for x
    using poll.prems(3) [of x] next_pending [of x] that poll.hyps all1 prefix_order.trans by (metis append_assoc)
  have "length (pending m' log2) \<le> 1000" using next_pending [of log2] short(2) poll.hyps p2 by simp
  then have reads: "po_read p m = pending m log1" "po_reread p m' = pending m' log2"
      "po_read p n = pending n log1" "po_reread p n = pending n log2"
    using poll.hyps short pending_short [OF p1 poll.prems(2)] pending_short [OF p2 poll.prems(2)] by (simp_all add: reads_log_def)
  have fin: "(\<exists>e \<in> set (pending m log1). final_event e) \<longleftrightarrow> (\<exists>e \<in> set (pending n log1). final_event e)"
    using poll.prems(4) all1 by auto
  have first_round: "\<exists>qs q rs. p # ps = qs @ q # rs \<and> list_all (goes_on n) qs \<and> ends_with_round n q x"
    if "ends_with_round n p x" for x using that by (intro exI [of _ "[]"]) auto
  consider (event) "\<exists>e \<in> set (pending n log1). final_event e"
    | (status) "\<forall>e \<in> set (pending n log1). \<not> final_event e" "final_status (po_status p)"
    | (continue) "goes_on n p" by (auto simp: goes_on_def reads)
  then show ?case
  proof cases
    case event
    then have "out = map Sse_Event (pending m log1)" "hung_up"
      using poll.prems(5) fin by (auto simp: reads final_event_terminal)
    moreover have "ends_with_round n p (pending n log1)" using event by (simp add: ends_with_round_def reads)
    ultimately show ?thesis using all1 first_round by simp
  next
    case status
    then have "out = map Sse_Event (pending m log1 @ pending m' log2)" "hung_up"
      using poll.prems(5) fin by (auto simp: reads final_event_terminal final_status_terminal m'_def [symmetric] Let_def)
    moreover have "pending n log2 = pre @ pending m log1 @ pending m' log2" using later [of log2] p2 all1 by simp
    moreover have "ends_with_round n p (pending n log2)" using status by (simp add: ends_with_round_def reads)
    ultimately show ?thesis using first_round by (simp flip: map_append)
  next
    case continue
    then have none: "\<forall>e \<in> set (pending n log1). \<not> final_event e" "\<not> final_status (po_status p)"
      by (auto simp: goes_on_def reads)
    obtain deadline' out' where k: "sent_events out = pending m log1 @ sent_events out'"
        "polling_sse_events idle m' deadline' ps = (out', hung_up)"
      using poll.prems(5) fin none
      by (auto simp: reads final_event_terminal final_status_terminal m'_def [symmetric] Let_def split: prod.splits if_splits)
    from poll.IH [OF poll.prems(1,2) later none(1) k(2)]
    have ih: "if hung_up then \<exists>qs q rs. ps = qs @ q # rs \<and> list_all (goes_on n) qs \<and> ends_with_round n q (pending n log1 @ sent_events out')
      else list_all (goes_on n) ps \<and> pending n log1 @ sent_events out' = (if ps = [] then pending n log1 else po_read (last ps) n)" .
    have sent: "pre @ sent_events out = pending n log1 @ sent_events out'" by (simp add: k all1)
    show ?thesis
    proof (cases hung_up)
      case True
      with ih obtain qs q rs where "ps = qs @ q # rs" "list_all (goes_on n) qs" "ends_with_round n q (pre @ sent_events out)"
        unfolding sent by auto
      then have "p # ps = (p # qs) @ q # rs" "list_all (goes_on n) (p # qs)" "ends_with_round n q (pre @ sent_events out)"
        using continue by simp_all
      with True show ?thesis by metis
    next
      case False
      with ih continue show ?thesis unfolding sent by (auto simp: reads)
    qed
  qed
qed simp

lemma read_covers_log:
  assumes "rounds log ps log'" "p \<in> set ps" "length (pending n log') \<le> 1000"
  shows "prefix (pending n log) (po_read p n)" "prefix (pending n log) (po_reread p n)"
  using assms
proof (induction rule: rounds.induct)
  case (poll log log1 log2 q ps log')
  {
    case 1
    then show ?case using poll pending_prefix [of log log1 n] pending_prefix [of log log2 n] pending_short [of log1 log' n]
      by (auto simp: reads_log_def dest: rounds_prefix intro: prefix_order.trans)
  next
    case 2
    then show ?case using poll pending_prefix [of log log2 n] pending_short [of log2 log' n]
      by (auto simp: reads_log_def dest: rounds_prefix intro: prefix_order.trans)
  }
qed simp_all

subsection \<open>On the tables\<close>

definition log_of :: "uuid \<Rightarrow> db \<Rightarrow> sse_event list" where
  "log_of a st = map (\<lambda>r. (sr_seq r, sr_event_type r, case sr_payload r of JObj d \<Rightarrow> JObj d | _ \<Rightarrow> JObj []))
     (sort_key sr_seq (filter (\<lambda>r. sr_analysis_id r = a) (stream_events st)))"

lemma page_of_log:
  assumes "get_analysis st a tenant user \<noteq> None"
  shows "stream_events_after st a n tenant user = take 1000 (pending n (log_of a st))"
proof -
  have "filter (\<lambda>r. n < sr_seq r) (sort_key sr_seq (filter (\<lambda>r. sr_analysis_id r = a) (stream_events st))) =
      sort_key sr_seq (filter (\<lambda>r. sr_analysis_id r = a \<and> n < sr_seq r) (stream_events st))"
    by (simp add: filter_sort conj_commute)
  then show ?thesis using assms
    by (auto simp: stream_events_after_def log_of_def pending_def event_seq_def filter_map comp_def take_map)
qed

lemma ordered_log_of: "distinct (map sr_seq (filter (\<lambda>r. sr_analysis_id r = a) (stream_events st))) \<Longrightarrow> ordered_log (log_of a st)"
proof -
  let ?rows = "filter (\<lambda>r. sr_analysis_id r = a) (stream_events st)"
  assume "distinct (map sr_seq ?rows)"
  then have "distinct (map sr_seq (sort_key sr_seq ?rows))"
    by (simp add: distinct_map)
  moreover have "sorted (map sr_seq (sort_key sr_seq ?rows))" by simp
  ultimately show ?thesis
    by (simp add: ordered_log_def log_of_def comp_def event_seq_def strict_sorted_iff)
qed

text \<open>The states that the rounds of one connection read, in the order of time.\<close>

lemma table_rounds:
  "sorted_wrt (\<lambda>s s'. prefix (log_of a s) (log_of a s')) (st # concat (map (\<lambda>(s1, s2, s3, t). [s1, s3]) sts) @ [st']) \<Longrightarrow>
   (\<And>s1 s2 s3 t. (s1, s2, s3, t) \<in> set sts \<Longrightarrow> get_analysis s1 a tenant user \<noteq> None \<and> get_analysis s3 a tenant user \<noteq> None) \<Longrightarrow>
   rounds (log_of a st) (map (\<lambda>(s1, s2, s3, t). table_poll a tenant user s1 s2 s3 t) sts) (log_of a st')"
proof (induction sts arbitrary: st)
  case Nil
  then show ?case by (auto intro: rounds.finish)
next
  case (Cons x sts)
  obtain s1 s2 s3 t where x: "x = (s1, s2, s3, t)" by (cases x)
  have "reads_log (table_poll a tenant user s1 s2 s3 t) (log_of a s1) (log_of a s3)"
    using Cons.prems(2) [of s1 s2 s3 t] x by (simp add: reads_log_def table_poll_def page_of_log)
  moreover have "rounds (log_of a s3) (map (\<lambda>(s1, s2, s3, t). table_poll a tenant user s1 s2 s3 t) sts) (log_of a st')"
  proof (rule Cons.IH)
    show "sorted_wrt (\<lambda>s s'. prefix (log_of a s) (log_of a s')) (s3 # concat (map (\<lambda>(s1, s2, s3, t). [s1, s3]) sts) @ [st'])"
      using Cons.prems(1) x by simp
    show "get_analysis r1 a tenant user \<noteq> None \<and> get_analysis r3 a tenant user \<noteq> None"
      if "(r1, r2, r3, u) \<in> set sts" for r1 r2 r3 u
      using that by (intro Cons.prems(2) [of r1 r2 r3 u]) simp
  qed
  ultimately show ?case using Cons.prems(1) x by (auto intro: rounds.poll)
qed

section \<open>Properties of the stream\<close>

lemma parse_shown_id: "0 \<le> i \<Longrightarrow> parse_last_event_id (Some (show_int i)) = i"
proof -
  assume "0 \<le> i"
  moreover from this have "show_int i = show_nat (nat i)" by (simp add: show_int_def)
  moreover have "show_nat (nat i) \<noteq> []" by (subst show_nat.simps) simp
  ultimately show ?thesis by (simp add: parse_last_event_id_def)
qed

text \<open>
  C28: A client that reconnects with the identifier of the last event it has received misses nothing and gets nothing twice: the events of
  the first connection followed by those of the second are, in order, the first ones of the events behind the starting point, while the log
  keeps growing during both connections. A read returns at most one page of the log.
\<close>
theorem stream_resumes_without_gap:
  assumes "rounds log ps log'" and "rounds log' ps' log''" and "ordered_log log''" and "0 \<le> n"
    and "received = sent_events (fst (polling_sse_events idle n deadline ps))" and "received \<noteq> []"
  shows "prefix (received @ sent_events (fst (polling_sse_events idle'
      (parse_last_event_id (Some (show_int (event_seq (last received))))) deadline' ps'))) (pending n log'')"
proof -
  have grown: "prefix log' log''" using assms(2) by (rule rounds_prefix)
  have ordered: "ordered_log log'" using ordered_prefix [OF assms(3) grown] .
  have "prefix received (pending n log'')"
    using polling_prefix [OF assms(1) ordered, of idle n deadline] pending_prefix [OF grown, of n] prefix_order.trans assms(5) by blast
  then obtain rest where rest: "pending n log'' = received @ rest" by (auto simp: prefix_def)
  then have gt: "\<forall>e \<in> set received. n < event_seq e" by (auto simp: pending_def dest!: arg_cong [of _ _ set])
  have "sorted_wrt (<) (map event_seq (received @ rest))"
    using assms(3) sorted_wrt_filter [of "\<lambda>x y. event_seq x < event_seq y" log'' "\<lambda>e. n < event_seq e"]
    by (simp add: ordered_log_def sorted_wrt_map pending_def flip: rest)
  then have "seen_up_to n received = event_seq (last received)"
    using gt assms(6) seen_last [of received n] by (simp add: sorted_wrt_append)
  moreover have "0 \<le> event_seq (last received)" using gt assms(4,6) last_in_set [OF assms(6)] by fastforce
  ultimately have "parse_last_event_id (Some (show_int (event_seq (last received)))) = seen_up_to n received" by (simp add: parse_shown_id)
  with polling_prefix [OF assms(2,3), of idle' "seen_up_to n received" deadline'] pending_after [OF assms(3) rest]
  show ?thesis by (simp add: rest)
qed

text \<open>
  C29: The server closes a connection only after a round that has read a final event or has found a final status, and
  then it has delivered, each once and in order, the whole log behind the starting point as it was at the last read of that
  round: the read with the final event, or the one that follows the final status. Nothing that was in the log when the
  connection was opened is missing. A connection that is not closed has met no final event and no final status and has
  delivered what the last round has read. This holds when no more than one page of events is behind the starting point.
\<close>
theorem closed_stream_is_complete:
  assumes "rounds log ps log'" and "ordered_log log'" and "length (pending n log') \<le> 1000"
    and "polling_sse_events idle n deadline ps = (out, hung_up)"
  shows "if hung_up
    then prefix (pending n log) (sent_events out) \<and> distinct (sent_events out) \<and>
      (\<exists>qs p rs. ps = qs @ p # rs \<and> list_all (goes_on n) qs \<and>
         (if \<exists>e \<in> set (po_read p n). final_event e then sent_events out = po_read p n
          else final_status (po_status p) \<and> sent_events out = po_reread p n))
    else list_all (goes_on n) ps \<and> sent_events out = (if ps = [] then [] else po_read (last ps) n)"
proof -
  have d: "if hung_up then \<exists>qs p rs. ps = qs @ p # rs \<and> list_all (goes_on n) qs \<and> ends_with_round n p (sent_events out)
    else list_all (goes_on n) ps \<and> sent_events out = (if ps = [] then [] else po_read (last ps) n)"
  proof -
    have start: "pending n x = [] @ pending n x" "\<forall>e \<in> set []. \<not> final_event e" for x by simp_all
    show ?thesis by (rule polling_delivers [OF assms(1-3) start assms(4), unfolded append_Nil])
  qed
  have "prefix (sent_events out) (pending n log')"
    using polling_prefix [OF assms(1,2), of idle n deadline] assms(4) by simp
  moreover have "distinct (pending n log')"
    using assms(2) by (auto simp: ordered_log_def pending_def strict_sorted_iff distinct_map intro!: distinct_filter)
  ultimately have dist: "distinct (sent_events out)" by (auto simp: prefix_def)
  show ?thesis
  proof (cases hung_up)
    case True
    with d obtain qs p rs where p: "ps = qs @ p # rs" "list_all (goes_on n) qs" "ends_with_round n p (sent_events out)" by auto
    then have "prefix (pending n log) (sent_events out)"
      using read_covers_log [OF assms(1) _ assms(3), of p] by (auto simp: ends_with_round_def split: if_splits)
    moreover from d True have "\<exists>qs p rs. ps = qs @ p # rs \<and> list_all (goes_on n) qs \<and> ends_with_round n p (sent_events out)"
      by (simp only: if_True)
    ultimately show ?thesis using True dist unfolding ends_with_round_def by (simp only: if_True simp_thms)
  next
    case False
    with d show ?thesis by simp
  qed
qed

text \<open>
  Finding: when the analysis has ended and more than two pages of events are behind the starting point, the server closes the
  connection after two pages, before the events that say how the analysis has ended.
\<close>
lemma long_replay_is_cut:
  assumes "reads_log p log log" and "ordered_log log" and "po_status p = Some ''completed''"
    and "\<forall>e \<in> set (take 1000 (pending n log)). \<not> is_terminal_stream_event e"
  shows "polling_sse_events idle n deadline (p # ps) = (map Sse_Event (take 2000 (pending n log)), True)"
proof -
  have r: "po_read p m = take 1000 (pending m log)" "po_reread p m = take 1000 (pending m log)" for m
    using assms(1) by (simp_all add: reads_log_def)
  have "pending (seen_up_to n (take 1000 (pending n log))) log = drop 1000 (pending n log)"
    by (rule pending_after [OF assms(2)]) simp
  moreover have "take 1000 (pending n log) @ take 1000 (drop 1000 (pending n log)) = take 2000 (pending n log)"
    using take_add [of 1000 1000 "pending n log"] by simp
  moreover have "\<not> (\<exists>e \<in> set (take 1000 (pending n log)). is_terminal_stream_event e)" using assms(4) by blast
  ultimately show ?thesis
    using assms(3) by (simp add: r Let_def TERMINAL_ANALYSIS_STATUSES_def flip: map_append)
qed

text \<open>
  Finding: a failed compaction is recorded as a \<^verbatim>\<open>compact\<close> event with status \<^verbatim>\<open>failed\<close>, which counts as a terminal event although the
  \<^verbatim>\<open>error\<close> event of the analysis is written after it; a round that reads in between closes the connection before the error.
\<close>
lemma compact_failure_ends_stream:
  assumes "po_read p n = [(i, ''compact'', JObj (pl @ [(''status'', JStr ''failed'')]))]" and "map_of pl ''status'' = None"
  shows "polling_sse_events idle n deadline (p # ps) = (map Sse_Event (po_read p n), True)"
  using assms by (simp add: Let_def is_terminal_stream_event_def event_payload_def obj_get_def map_add_def TERMINAL_ANALYSIS_STATUSES_def)

section \<open>Framing\<close>

lemma json_char_line: "newline \<notin> set (json_char c)"
  by (auto simp: json_char_def hex_char_def dest!: arg_cong [of newline _ code_point] split: if_splits) (simp_all add: code_point_def)

lemma json_string_line: "newline \<notin> set (json_string t)"
  using json_char_line by (auto simp: json_string_def)

lemma join_line: "(\<And>p. p \<in> set ps \<Longrightarrow> newline \<notin> set p) \<Longrightarrow> newline \<notin> set sep \<Longrightarrow> newline \<notin> set (join_with sep ps)"
  by (induction sep ps rule: join_with.induct) auto

lemma show_int_line: "newline \<notin> set (show_int i)"
  using show_nat_digits by (auto simp: show_int_def) (fastforce simp: is_digit_def code_point_def)+

lemma json_dumps_line: "newline \<notin> set item \<Longrightarrow> newline \<notin> set key \<Longrightarrow> newline \<notin> set (json_dumps item key v)"
proof (induction item key v rule: json_dumps.induct)
  case (5 item key xs)
  then have "newline \<notin> set (join_with item (map (json_dumps item key) xs))" by (intro join_line) auto
  then show ?case by simp
next
  case (6 item key d)
  have "newline \<notin> set (join_with item (map (\<lambda>(k, v). json_string k @ key @ json_dumps item key v) d))"
    by (rule join_line) (use 6 json_string_line in auto)
  then show ?case by simp
qed (auto simp: show_int_line json_string_line)

text \<open>
  The text of an event is one record of the stream: three lines with the sequence number, the type and the payload in
  compact JSON, closed by an empty line; nothing in a payload breaks out of its line.
\<close>
theorem sse_event_is_one_record:
  "newline \<notin> set (event_type_of e) \<Longrightarrow>
   split_on newline (format_sse_event e) =
     [''id: '' @ show_int (event_seq e), ''event: '' @ event_type_of e,
      ''data: '' @ json_dumps '','' '':'' (JObj (display_event_payload (event_type_of e) (event_payload e))), [], []]"
proof -
  assume ty: "newline \<notin> set (event_type_of e)"
  define data where "data = json_dumps '','' '':'' (JObj (display_event_payload (event_type_of e) (event_payload e)))"
  have "newline \<notin> set data" unfolding data_def by (rule json_dumps_line) simp_all
  then have lines: "newline \<notin> set (''id: '' @ show_int (event_seq e))" "newline \<notin> set (''event: '' @ event_type_of e)" "newline \<notin> set (''data: '' @ data)"
    using ty show_int_line by auto
  have "format_sse_event e = (''id: '' @ show_int (event_seq e)) @ newline # (''event: '' @ event_type_of e) @ newline # (''data: '' @ data) @ newline # [] @ newline # []"
    by (simp add: format_sse_event_def data_def)
  then show ?thesis
    unfolding data_def [symmetric]
    by (simp only: split_on_append_sep [OF lines(1)] split_on_append_sep [OF lines(2)] split_on_append_sep [OF lines(3)] append_Nil) simp
qed

section \<open>Samples\<close>

definition sample_log :: "sse_event list" where
  "sample_log = [(1, ''status'', JObj []), (2, ''tool_call'', JObj []), (3, ''done'', JObj [])]"

definition sample_poll :: "sse_event list \<Rightarrow> poll" where
  "sample_poll log = \<lparr>po_read = (\<lambda>n. take 1000 (pending n log)), po_status = Some ''running'', po_reread = (\<lambda>n. take 1000 (pending n log)),
     po_emitted_at = 0, po_checked_at = 0, po_kept_at = 0\<rparr>"

lemma sample_rounds: "prefix log log' \<Longrightarrow> rounds log [sample_poll log'] log'"
  by (rule rounds.poll [where ?log1.0 = log' and ?log2.0 = log']) (auto simp: reads_log_def sample_poll_def intro: rounds.finish)

lemma sample_received:
  "sent_events (fst (polling_sse_events 5 0 5 [sample_poll (take 2 sample_log)])) = take 2 sample_log"
  by code_simp

theorem stream_resumes_without_gap_witness:
  "prefix (take 2 sample_log @ sent_events (fst (polling_sse_events 5 2 5 [sample_poll sample_log]))) sample_log"
proof -
  have first: "rounds [] [sample_poll (take 2 sample_log)] (take 2 sample_log)" by (rule sample_rounds) simp
  have second: "rounds (take 2 sample_log) [sample_poll sample_log] sample_log" by (rule sample_rounds) (rule take_prefix)
  have "ordered_log sample_log" by (simp add: ordered_log_def sample_log_def event_seq_def)
  moreover have "parse_last_event_id (Some (show_int (event_seq (last (take 2 sample_log))))) = 2"
    by (subst parse_shown_id) (simp_all add: sample_log_def event_seq_def numeral_2_eq_2)
  moreover have "pending 0 sample_log = sample_log" "take 2 sample_log \<noteq> []" by (simp_all add: pending_def sample_log_def event_seq_def)
  ultimately show ?thesis
    using stream_resumes_without_gap [OF first second _ _ sample_received [symmetric], of 5 5] by simp
qed

theorem closed_stream_is_complete_witness:
  "sent_events (fst (polling_sse_events 5 0 5 [sample_poll (take 1 sample_log), (sample_poll (take 1 sample_log))
     \<lparr>po_status := Some ''completed'', po_reread := po_reread (sample_poll sample_log)\<rparr>])) = sample_log"
proof -
  let ?p = "sample_poll (take 1 sample_log)"
  let ?q = "?p\<lparr>po_status := Some ''completed'', po_reread := po_reread (sample_poll sample_log)\<rparr>"
  have r: "rounds [] [?p, ?q] sample_log"
  proof (rule rounds.poll)
    show "reads_log ?p (take 1 sample_log) (take 1 sample_log)" by (simp add: reads_log_def sample_poll_def)
    show "rounds (take 1 sample_log) [?q] sample_log"
    proof (rule rounds.poll)
      show "reads_log ?q (take 1 sample_log) sample_log" by (simp add: reads_log_def sample_poll_def)
      show "rounds sample_log [] sample_log" by (rule rounds.finish) simp
    qed (simp_all add: take_prefix)
  qed simp_all
  have ord: "ordered_log sample_log" by (simp add: ordered_log_def sample_log_def event_seq_def)
  have l: "length (pending 0 sample_log) \<le> 1000" by (simp add: pending_def sample_log_def)
  obtain out hung_up where c: "polling_sse_events 5 0 5 [?p, ?q] = (out, hung_up)" by (cases rule: prod.exhaust)
  have reads: "po_read ?p 0 = [(1, ''status'', JObj [])]" "po_read ?q 0 = [(1, ''status'', JObj [])]" "po_reread ?q 0 = sample_log"
    by (simp_all add: sample_poll_def pending_def sample_log_def event_seq_def)
  have first: "goes_on 0 ?p" "\<not> goes_on 0 ?q" "\<forall>e \<in> set (po_read ?q 0). \<not> final_event e"
    unfolding goes_on_def reads
    by (simp_all add: sample_poll_def final_event_def final_status_def event_type_of_def event_payload_def obj_get_def)
  have main: "if hung_up
    then prefix (pending 0 []) (sent_events out) \<and> distinct (sent_events out) \<and>
      (\<exists>qs p rs. [?p, ?q] = qs @ p # rs \<and> list_all (goes_on 0) qs \<and>
         (if \<exists>e \<in> set (po_read p 0). final_event e then sent_events out = po_read p 0
          else final_status (po_status p) \<and> sent_events out = po_reread p 0))
    else list_all (goes_on 0) [?p, ?q] \<and> sent_events out = (if [?p, ?q] = [] then [] else po_read (last [?p, ?q]) 0)"
    by (rule closed_stream_is_complete [OF r ord l c])
  then have hung_up using first(2) by (auto split: if_splits)
  with main obtain qs p rs where "[?p, ?q] = qs @ p # rs"
      "if \<exists>e \<in> set (po_read p 0). final_event e then sent_events out = po_read p 0
       else final_status (po_status p) \<and> sent_events out = po_reread p 0" by auto
  moreover from this have "p = ?p \<or> p = ?q" by (metis in_set_conv_decomp set_ConsD empty_iff list.set(1))
  ultimately have "sent_events out = sample_log"
    using first(1,3) reads(3) unfolding goes_on_def by (auto split: if_splits)
  with c show ?thesis by simp
qed

theorem sse_event_is_one_record_witness:
  "split_on newline (format_sse_event (3, ''delta'', JObj [(''text'', JStr [newline])])) =
     [''id: 3'', ''event: delta'', ''data: '' @ [CHR ''{'', CHR 0x22] @ ''text'' @ [CHR 0x22, CHR '':'', CHR 0x22, CHR 0x5C, CHR ''n'', CHR 0x22, CHR ''}''], [], []]"
proof -
  let ?e = "(3, ''delta'', JObj [(''text'', JStr [newline])])"
  have "show_int (event_seq ?e) = ''3''" "event_type_of ?e = ''delta''"
    "json_dumps '','' '':'' (JObj (display_event_payload ''delta'' (event_payload ?e))) =
      [CHR ''{'', CHR 0x22] @ ''text'' @ [CHR 0x22, CHR '':'', CHR 0x22, CHR 0x5C, CHR ''n'', CHR 0x22, CHR ''}'']"
    by code_simp+
  then show ?thesis using sse_event_is_one_record [of ?e] by simp
qed

end
