(* ===== verification/Spec2Isabelle.thy ===== *)
theory Spec2Isabelle
  imports Secret_Paths Storage Todo Consumer Repository_Url Analysis_Lifecycle Document_History
    Source_Tool_Safety Tool_Execution Tool_Calls Tool_Runtime Agent_Loop Openai_Runner Http_Auth Stream_Api
begin

text \<open>
  Verification of the DeepDive analysis backend (\<^verbatim>\<open>src/backend\<close>).

  \<^bold>\<open>The program.\<close> DeepDive analyses source repositories with a language model. The HTTP API creates analyses and
  batches of analyses. Every component changes Postgres tables in a transaction and writes the events it emits to an
  outbox table in the same transaction; the outbox worker sends them to Kafka, and consumers hand them to the handler
  of the next component: the batch scheduler starts analyses within the limit of their batch, the analysis worker
  requests a snapshot of the repository, the snapshot worker fetches it with git and stores its text files, the agent
  loop asks the model what to do, the execution worker runs the tools the model calls, and tools read the snapshot
  and write documents and TODO lists. Users sign in with a password or through GitHub; the API checks their permissions
  and streams the events of an analysis to them.

  \<^bold>\<open>Theories.\<close> The model keeps the names of the source. State is passed explicitly: a record for the tables of a
  component, updated by one definition for each statement; what raises returns a sum with the error on the left.
  \<^item> \<open>Prelude\<close>: Python values as JSON, strings, numerals, UTF-8, UUIDs as 128-bit words, results, and the locale
    \<open>step_invariant\<close> of components whose steps keep an invariant.
  \<^item> \<open>Secret_Paths\<close> (\<^verbatim>\<open>security/secret_paths.py\<close>): the policy of secret paths and the SQL filter.
  \<^item> \<open>Storage\<close> (\<^verbatim>\<open>storage/\<close>): object keys and the in-memory store, which interprets the locale \<open>object_storage\<close>.
  \<^item> \<open>Todo\<close> (\<^verbatim>\<open>todo/\<close>): validation of TODO lists, the locale \<open>todo_store\<close> and its two stores, of which Postgres
    refines the in-memory one.
  \<^item> \<open>Events\<close>, \<open>Consumer\<close> (\<^verbatim>\<open>events/\<close>): envelopes, routing, the outbox loop; claims with leases, retries and the dead
    letter queue. Consumers are steps of a shared claim table; a run is any interleaving of them.
  \<^item> \<open>Schema\<close> (\<^verbatim>\<open>db/schema.py\<close>): the tables shared by the analysis pipeline and the SQL idioms used on them.
  \<^item> \<open>Sha256\<close>: the hash function, on words of 32 bits.
  \<^item> \<open>Repository_Url\<close> (\<^verbatim>\<open>api/repository_search.py\<close>): canonical URLs and ranking.
  \<^item> \<open>Batch_Scheduler\<close>, \<open>Analysis_Service\<close>, \<open>Analysis_Worker\<close>, \<open>Snapshot_Service\<close>, \<open>Agent_Repository\<close>,
    \<open>Execution_Worker\<close>: the handlers and repositories of the pipeline, one theory for each.
  \<^item> \<open>Analysis_Lifecycle\<close>: the pipeline as an inductive step relation over all handlers, with any order of events and
    redeliveries, and its invariants: batch counters and parallelism, one request for each item, final states,
    numbering of streams, release of slots.
  \<^item> \<open>Documents\<close>, \<open>Document_History\<close> (\<^verbatim>\<open>document/\<close>): the document service on its two stores; versions, replays, the
    locale \<open>versioned_store\<close> interpreted on both, and the document tree. A run of the tables is any sequence of the four
    calls, each with what it has read before, and of folder calls.
  \<^item> \<open>Git_Cli\<close>, \<open>Snapshot_Scanner\<close> (\<^verbatim>\<open>snapshot/\<close>): the URL policy, the commands and their output, as far as the
    reader threads have taken it before the pipes are closed; the scan of a tree, the manifest and the builder.
  \<^item> \<open>Source_Cache\<close> (\<^verbatim>\<open>cache/\<close>): paths below the cache root, writing through a temporary file, coverage, clean-up.
  \<^item> \<open>Tool_Policy\<close>, \<open>Source_Tools\<close>, \<open>Source_Tool_Safety\<close>, \<open>Web_Search\<close>, \<open>Tool_Execution\<close> (\<^verbatim>\<open>execution/\<close>): registry,
    permissions, arguments, queries, every tool, and the dispatch with the treatment of exceptions.
  \<^item> \<open>Tool_Calls\<close>, \<open>Tool_Runtime\<close> (\<^verbatim>\<open>workers/execution.py\<close>): what the execution worker guarantees under every
    interleaving, and the read-write lock of an agent's tools as a step relation.
  \<^item> \<open>Config\<close> (\<^verbatim>\<open>config/\<close>, \<^verbatim>\<open>execution/tool_registry.py\<close>): the settings, their readers from the environment and from a
    snapshot, and the tools offered to the model.
  \<^item> \<open>Agent_Context\<close> (\<^verbatim>\<open>agent/context.py\<close>, \<^verbatim>\<open>agent/context_manager.py\<close>, \<^verbatim>\<open>agent/repository_context.py\<close>): what a request
    to the model contains.
  \<^item> \<open>Agent_Handler\<close>, \<open>Agent_Loop\<close> (\<^verbatim>\<open>agent/handler.py\<close>): the agent loop. Its operations run in a state and error monad;
    each access to the database is a transaction before which other processes may have committed anything. Locales
    \<open>op_relation\<close> to \<open>agent_relation\<close> lift a relation that single transactions keep to the whole handler; they are interpreted
    with the steps of the pipeline, with the limit on tool calls and with the rows that only the handler writes.
    \<open>Agent_Loop\<close> also says when the model is asked and what the request pairs.
  \<^item> \<open>Openai_Runner\<close> (\<^verbatim>\<open>agent/openai_runner.py\<close>, \<^verbatim>\<open>events/model_stream_payloads.py\<close>): the client of the model API, with
    its two transports: what arrives is a list of lines or messages, and reading it is a recursion over that list.
  \<^item> \<open>Auth_Tokens\<close> (\<^verbatim>\<open>auth/jwt.py\<close>, \<^verbatim>\<open>passwords.py\<close>, \<^verbatim>\<open>tokens.py\<close>, \<^verbatim>\<open>oauth.py\<close>): password hashes and signed tokens down to
    SHA-256, and the stores of one-time tokens with the locale \<open>one_time_store\<close>.
  \<^item> \<open>Auth_Service\<close> (\<^verbatim>\<open>auth/service.py\<close>, \<^verbatim>\<open>models.py\<close>): the in-memory service; the locale \<open>user_directory\<close> says what
    the calls keep of a user, and is interpreted here and on the tables.
  \<^item> \<open>Auth_Repository\<close>, \<open>Auth_Seed\<close>, \<open>Auth_Database\<close> (\<^verbatim>\<open>auth/repository.py\<close>, \<^verbatim>\<open>postgres_service.py\<close>, \<^verbatim>\<open>bootstrap.py\<close>): the
    tables of users and roles, the calls on them, the seed data, and what every run of calls keeps.
  \<^item> \<open>Http_Auth\<close> (\<^verbatim>\<open>api/auth_routes.py\<close>, \<^verbatim>\<open>user_routes.py\<close>, \<^verbatim>\<open>role_routes.py\<close>, \<^verbatim>\<open>auth_dependencies.py\<close>, \<^verbatim>\<open>auth_schemas.py\<close>,
    \<^verbatim>\<open>auth/github.py\<close>, \<^verbatim>\<open>auth/turnstile.py\<close>): the routes for signing in and for users and roles.
  \<^item> \<open>Stream_Api\<close> (\<^verbatim>\<open>api/sse.py\<close>, \<^verbatim>\<open>api/stream_schemas.py\<close>, \<^verbatim>\<open>api/routes.py\<close>): the event stream of an analysis as a
    list of polling rounds over a log that keeps growing.

  \<^bold>\<open>What the theorems show.\<close> Safety under concurrency: leases exclude each other, a call is settled once, a document
  history has no lost update, tools that write run alone. Delivery: what is marked published was sent, a failing
  event ends in the dead letter queue, a handled tool request is answered. Data: round trips of envelopes, documents
  and cached files; numbering of revisions, TODO lists and streams. Confinement: cache paths stay below their root,
  git runs only with checked URLs, secret files are neither stored by the scan nor read by \<^verbatim>\<open>read_file\<close>, limits of sizes,
  lines and results hold. Agent loop: it asks the model only for an open session within its limits, never exceeds the
  limit on tool calls, and the history it replays has no call without its output. Model client: both transports read the same
  events alike, an answer needs a completed response, and a broken stream is retried and then fails the turn and the analysis. Access: only
  holders of a permission change users, deactivated users are locked out, a refresh token works once, a GitHub sign-in
  rests on a verified e-mail, the tables keep their keys. Event stream: resuming loses and repeats nothing, and a
  stream that the server closes is complete.

  \<^bold>\<open>Bounds and fuel.\<close> Every function terminates by a proved measure or structurally, and loops over messages or
  rows are recursions over the list they read. The one fuel argument is the number of redeliveries followed in
  \<open>Consumer\<close>; one more than the attempts that are left is proved to reach the dead letter queue.

  \<^bold>\<open>Parameters.\<close> Arguments stand for what is not in the repository: the chunks and the return code of a process, name
  resolution and the classification of IP addresses, ripgrep, \<^verbatim>\<open>decode(errors="replace")\<close>, JSON parsing of text, zstd,
  the search service, fresh identifiers, tokens and clock readings, the answers of the model API, of GitHub
  and of Turnstile, the Redis client, the prompts written in other scripts, the contents of the \<^verbatim>\<open>.env\<close> and prompt files, and what other processes
  commit between two transactions of the agent loop.

  \<^bold>\<open>Transactions.\<close> A transaction is one step, and transactions are serial: the database runs at READ COMMITTED with row
  locks, and the statements that rely on them compare the status or version again in their WHERE clause. The reads of one
  document call see one state of the tables, its write a later one. The update of a user is atomic in the runs of calls; its
  read and its write are separate definitions, and \<open>rename_race_reactivates\<close> shows what may come between them. No other worker
  writes the same cache while a prefix is copied.

  \<^bold>\<open>Not modelled.\<close> The text of JSON, where only values are exchanged (envelopes, configuration, documents). Characters beyond code point 255; floating point numbers in JSON; lenient spellings of UUIDs and
  bracketed hosts; foreign keys and collations of the database; more than one clock reading in a transaction;
  symbolic links, partial failures of removing a directory, operating system locks; the text of operating system
  errors; the thread of the model client with the futures that carry its events, and its total time limit. The routes of
  analyses and documents, which hand their arguments to the modelled services, and the start-up of the processes, which
  wires them together, are not modelled.
\<close>

end
